(* ===== verification/Rust_Prelude.thy ===== *)
theory Rust_Prelude
  imports Main "HOL-Library.Word" "HOL-Library.List_Lexorder" "HOL-Library.Multiset"
begin

text \<open>
  The vocabulary the component theories share: the part of Rust's standard library the
  modelled code calls (strings, fixed-width counters, results, a few iterator adaptors)
  and the lemma collections that carry the component proofs.

  A Rust \<open>String\<close> is a sequence of Unicode scalar values, so \<open>rstr\<close> is a list of code
  points; \<open>byte_len\<close> and \<open>utf8\<close> give the UTF-8 view where the source counts bytes.
  A \<open>Result<T, E>\<close> is the sum \<open>'e + 'a\<close> with \<open>Inl\<close> for the error. \<open>first_err\<close> runs a
  sequence of checks and returns at the first error, as a chain of \<open>?\<close> does.
\<close>

named_theorems result_simps \<open>evaluation of results and check sequences\<close>
named_theorems str_simps \<open>evaluation of string literals and the string library\<close>

section \<open>Strings\<close>

type_synonym uchar = nat
type_synonym rstr = "uchar list"
type_synonym u8 = "8 word"
type_synonym u16 = "16 word"
type_synonym u32 = "32 word"
type_synonym u64 = "64 word"
type_synonym bytes = "u8 list"

definition lit :: "string \<Rightarrow> rstr" where
  "lit s = map of_char s"

lemma lit_Nil [simp]: "lit [] = []"
  by (simp add: lit_def)

lemma lit_eq_Nil_iff [simp]: "lit s = [] \<longleftrightarrow> s = []"
  by (simp add: lit_def)

lemma Nil_eq_lit_iff [simp]: "[] = lit s \<longleftrightarrow> s = []"
  by (auto simp: lit_def)

lemma inj_of_char_nat: "inj (of_char :: char \<Rightarrow> nat)"
  by (rule inj_of_char)

lemma lit_eq_iff [simp]: "lit s = lit t \<longleftrightarrow> s = t"
  unfolding lit_def by (rule inj_map_eq_map [OF inj_of_char_nat])

lemma length_lit [simp]: "length (lit s) = length s"
  by (simp add: lit_def)

text \<open>\<open>char::is_whitespace\<close>: the Unicode property White_Space.\<close>

definition is_whitespace :: "uchar \<Rightarrow> bool" where
  "is_whitespace c \<longleftrightarrow>
     9 \<le> c \<and> c \<le> 13 \<or> c = 32 \<or> c = 133 \<or> c = 160 \<or> c = 5760 \<or>
     8192 \<le> c \<and> c \<le> 8202 \<or> c = 8232 \<or> c = 8233 \<or> c = 8239 \<or> c = 8287 \<or> c = 12288"

text \<open>\<open>char::is_control\<close>: the general category Cc.\<close>

definition is_control :: "uchar \<Rightarrow> bool" where
  "is_control c \<longleftrightarrow> c < 32 \<or> 127 \<le> c \<and> c < 160"

definition trim_start :: "rstr \<Rightarrow> rstr" where
  "trim_start s = dropWhile is_whitespace s"

definition trim_end :: "rstr \<Rightarrow> rstr" where
  "trim_end s = rev (dropWhile is_whitespace (rev s))"

definition trim :: "rstr \<Rightarrow> rstr" where
  "trim s = trim_end (trim_start s)"

definition blank :: "rstr \<Rightarrow> bool" where
  "blank s \<longleftrightarrow> trim s = []"

lemma trim_end_eq_Nil: "trim_end s = [] \<longleftrightarrow> (\<forall>c \<in> set s. is_whitespace c)"
  by (simp add: trim_end_def)

lemma blank_iff: "blank s \<longleftrightarrow> (\<forall>c \<in> set s. is_whitespace c)"
proof
  assume "blank s"
  then have ws: "\<forall>c \<in> set (dropWhile is_whitespace s). is_whitespace c"
    by (simp add: blank_def trim_def trim_start_def trim_end_eq_Nil)
  have "dropWhile is_whitespace s = []"
    using ws by (metis dropWhile_eq_Cons_conv list.exhaust list.set_intros(1))
  then show "\<forall>c \<in> set s. is_whitespace c" by simp
next
  assume "\<forall>c \<in> set s. is_whitespace c"
  then have "trim_start s = []"
    by (simp add: trim_start_def dropWhile_eq_Nil_conv)
  then show "blank s"
    by (simp add: blank_def trim_def trim_end_def)
qed

lemma blank_Nil [simp]: "blank []"
  by (simp add: blank_iff)

lemma set_trim_subset: "set (trim s) \<subseteq> set s"
  unfolding trim_def trim_end_def trim_start_def
  by (auto dest!: set_dropWhileD)

lemma length_trim_le: "length (trim s) \<le> length s"
proof -
  have "length (dropWhile is_whitespace t) \<le> length t" for t
    by (rule length_dropWhile_le)
  from this [of "rev (dropWhile is_whitespace s)"] this [of s] show ?thesis
    by (simp add: trim_def trim_end_def trim_start_def)
qed

lemma trim_start_idem [simp]: "trim_start (trim_start s) = trim_start s"
  by (simp add: trim_start_def)

lemma trim_end_idem [simp]: "trim_end (trim_end s) = trim_end s"
  by (simp add: trim_end_def)

lemma dropWhile_id: "(xs \<noteq> [] \<Longrightarrow> \<not> P (hd xs)) \<Longrightarrow> dropWhile P xs = xs"
  by (cases xs) auto

lemma trim_end_prefix: "\<exists>t. s = trim_end s @ t"
proof -
  have "rev s = takeWhile is_whitespace (rev s) @ dropWhile is_whitespace (rev s)"
    by simp
  then have "s = trim_end s @ rev (takeWhile is_whitespace (rev s))"
    by (metis trim_end_def rev_append rev_rev_ident)
  then show ?thesis by blast
qed

lemma trim_idem [simp]: "trim (trim s) = trim s"
proof -
  have "trim_start (trim s) = trim s"
    unfolding trim_start_def
  proof (rule dropWhile_id)
    assume ne: "trim s \<noteq> []"
    obtain t where t: "trim_start s = trim s @ t"
      using trim_end_prefix [of "trim_start s"] by (auto simp: trim_def)
    with ne have "hd (trim_start s) = hd (trim s)" and "trim_start s \<noteq> []"
      by (simp, metis append_is_Nil_conv)
    moreover have "\<not> is_whitespace (hd (trim_start s))"
      using \<open>trim_start s \<noteq> []\<close> unfolding trim_start_def by (rule hd_dropWhile)
    ultimately show "\<not> is_whitespace (hd (trim s))" by simp
  qed
  then show ?thesis by (simp add: trim_def)
qed

text \<open>The UTF-8 view of a string: \<open>str::len\<close> counts bytes.\<close>

definition utf8_len :: "uchar \<Rightarrow> nat" where
  "utf8_len c = (if c < 128 then 1 else if c < 2048 then 2 else if c < 65536 then 3 else 4)"

definition byte_len :: "rstr \<Rightarrow> nat" where
  "byte_len s = sum_list (map utf8_len s)"

lemma byte_len_Nil [simp]: "byte_len [] = 0"
  and byte_len_Cons [simp]: "byte_len (c # s) = utf8_len c + byte_len s"
  and byte_len_append [simp]: "byte_len (s @ t) = byte_len s + byte_len t"
  by (simp_all add: byte_len_def)

lemma utf8_len_pos [simp]: "0 < utf8_len c"
  by (simp add: utf8_len_def)

lemma byte_len_0_iff [simp]: "byte_len s = 0 \<longleftrightarrow> s = []"
  by (cases s) auto

definition utf8_char :: "uchar \<Rightarrow> bytes" where
  "utf8_char c =
     (if c < 128 then [word_of_nat c]
      else if c < 2048 then [word_of_nat (192 + c div 64), word_of_nat (128 + c mod 64)]
      else if c < 65536 then
        [word_of_nat (224 + c div 4096), word_of_nat (128 + c div 64 mod 64),
         word_of_nat (128 + c mod 64)]
      else [word_of_nat (240 + c div 262144), word_of_nat (128 + c div 4096 mod 64),
            word_of_nat (128 + c div 64 mod 64), word_of_nat (128 + c mod 64)])"

definition utf8 :: "rstr \<Rightarrow> bytes" where
  "utf8 s = concat (map utf8_char s)"

lemma length_utf8_char [simp]: "length (utf8_char c) = utf8_len c"
  by (simp add: utf8_char_def utf8_len_def)

lemma length_utf8 [simp]: "length (utf8 s) = byte_len s"
  by (simp add: utf8_def byte_len_def length_concat comp_def)

text \<open>Decimal formatting of an unsigned number (\<open>format!("{n}")\<close>).\<close>

fun dec :: "nat \<Rightarrow> rstr" where
  "dec n = (if n < 10 then [48 + n] else dec (n div 10) @ [48 + n mod 10])"

declare dec.simps [simp del]

definition starts_with :: "'a list \<Rightarrow> 'a list \<Rightarrow> bool" where
  "starts_with s p \<longleftrightarrow> take (length p) s = p"

definition strip_prefix :: "'a list \<Rightarrow> 'a list \<Rightarrow> 'a list option" where
  "strip_prefix p s = (if starts_with s p then Some (drop (length p) s) else None)"

definition is_ascii_lowercase :: "uchar \<Rightarrow> bool" where
  "is_ascii_lowercase c \<longleftrightarrow> 97 \<le> c \<and> c \<le> 122"

definition is_ascii_digit :: "uchar \<Rightarrow> bool" where
  "is_ascii_digit c \<longleftrightarrow> 48 \<le> c \<and> c \<le> 57"

definition is_ascii_hexdigit :: "uchar \<Rightarrow> bool" where
  "is_ascii_hexdigit c \<longleftrightarrow> is_ascii_digit c \<or> 97 \<le> c \<and> c \<le> 102 \<or> 65 \<le> c \<and> c \<le> 70"

lemma length_dec_le: "n < 10 ^ k \<Longrightarrow> 0 < k \<Longrightarrow> length (dec n) \<le> k"
proof (induction k arbitrary: n)
  case (Suc k)
  show ?case
  proof (cases "n < 10")
    case True
    then show ?thesis by (subst dec.simps) simp
  next
    case False
    have "n div 10 < 10 ^ k" using Suc.prems(1) by (simp add: less_mult_imp_div_less)
    moreover have "0 < k" using Suc.prems(1) False by (cases k) auto
    ultimately have "length (dec (n div 10)) \<le> k" by (rule Suc.IH)
    with False show ?thesis by (subst dec.simps) simp
  qed
qed simp

lemma dec_digits: "\<forall>c \<in> set (dec n). is_ascii_digit c"
proof (induction n rule: less_induct)
  case (less n)
  have "n mod 10 < 10" by simp
  with less [of "n div 10"] show ?case by (subst dec.simps) (auto simp: is_ascii_digit_def)
qed

lemma dec_value: "foldl (\<lambda>a c. 10 * a + (c - 48)) 0 (dec n) = n"
proof (induction n rule: less_induct)
  case (less n)
  then show ?case by (subst dec.simps) auto
qed

section \<open>Results\<close>

definition and_then :: "'e + 'a \<Rightarrow> ('a \<Rightarrow> 'e + 'b) \<Rightarrow> 'e + 'b" where
  "and_then r f = (case r of Inl e \<Rightarrow> Inl e | Inr x \<Rightarrow> f x)"

definition require :: "bool \<Rightarrow> 'e \<Rightarrow> 'e + unit" where
  "require b e = (if b then Inr () else Inl e)"

definition ok_or :: "'a option \<Rightarrow> 'e \<Rightarrow> 'e + 'a" where
  "ok_or x e = (case x of None \<Rightarrow> Inl e | Some y \<Rightarrow> Inr y)"

fun first_err :: "('e + unit) list \<Rightarrow> 'e + unit" where
  "first_err [] = Inr ()"
| "first_err (c # cs) = and_then c (\<lambda>_. first_err cs)"

definition validate_opt :: "('a \<Rightarrow> 'e + unit) \<Rightarrow> 'a option \<Rightarrow> 'e + unit" where
  "validate_opt f x = (case x of None \<Rightarrow> Inr () | Some y \<Rightarrow> f y)"

lemma and_then_Inl [simp, result_simps]: "and_then (Inl e) f = Inl e"
  and and_then_Inr [simp, result_simps]: "and_then (Inr x) f = f x"
  by (simp_all add: and_then_def)

lemma require_True [simp, result_simps]: "require True e = Inr ()"
  and require_False [simp, result_simps]: "require False e = Inl e"
  by (simp_all add: require_def)

lemma require_Inr_iff [simp]: "require b e = Inr u \<longleftrightarrow> b"
  by (simp add: require_def)

lemma ok_or_Inr_iff [simp]: "ok_or x e = Inr y \<longleftrightarrow> x = Some y"
  by (auto simp: ok_or_def split: option.splits)

lemma ok_or_Some [simp]: "ok_or (Some y) e = Inr y"
  and ok_or_None [simp]: "ok_or None e = Inl e"
  by (simp_all add: ok_or_def)

lemma and_then_Inr_iff: "and_then r f = Inr y \<longleftrightarrow> (\<exists>x. r = Inr x \<and> f x = Inr y)"
  by (auto simp: and_then_def split: sum.splits)

lemma and_then_InrE:
  assumes "and_then r f = Inr y"
  obtains x where "r = Inr x" and "f x = Inr y"
  using assms by (auto simp: and_then_Inr_iff)

lemma first_err_Inr_iff: "first_err cs = Inr u \<longleftrightarrow> (\<forall>c \<in> set cs. c = Inr ())"
  by (induction cs) (auto simp: and_then_Inr_iff)

lemma first_err_append: "first_err (cs @ ds) = and_then (first_err cs) (\<lambda>_. first_err ds)"
  by (induction cs) (auto simp: and_then_def split: sum.splits)

lemma validate_opt_Inr_iff: "validate_opt f x = Inr u \<longleftrightarrow> (\<forall>y. x = Some y \<longrightarrow> f y = Inr ())"
  by (auto simp: validate_opt_def split: option.splits)

lemma validate_opt_simps [simp]:
  "validate_opt f None = Inr ()" "validate_opt f (Some y) = f y"
  by (simp_all add: validate_opt_def)

text \<open>The errors of the application layer (\<open>crates/dcc-core/src/error.rs\<close>).\<close>

datatype core_error =
    InvalidInput rstr
  | RepositoryErr rstr
  | GitErr rstr
  | EventBusErr rstr
  | ProviderErr rstr

section \<open>Fixed-width counters\<close>

text \<open>\<open>saturating_add(1)\<close> on an unsigned word.\<close>

definition sat_inc :: "'w::len word \<Rightarrow> 'w word" where
  "sat_inc x = (if x = - 1 then x else x + 1)"

lemma unat_bound: "unat x < 2 ^ LENGTH('w)"
  for x :: "'w::len word"
  by (simp add: unsigned_less)

lemma unat_eq_iff: "unat x = unat y \<longleftrightarrow> x = y"
  for x y :: "'w::len word"
  by (rule unsigned_word_eqI [THEN iffI]) auto

lemma unat_max: "unat (- 1 :: 'w::len word) = 2 ^ LENGTH('w) - 1"
  by (simp add: unsigned_minus_1_eq_mask mask_eq_exp_minus_1)

lemma unat_sat_inc: "unat (sat_inc x) = min (2 ^ LENGTH('w) - 1) (unat x + 1)"
  for x :: "'w::len word"
proof (cases "x = - 1")
  case True
  then show ?thesis by (simp add: sat_inc_def unat_max)
next
  case False
  then have ne: "unat x \<noteq> 2 ^ LENGTH('w) - 1" by (metis unat_max unat_eq_iff)
  have lt: "unat x + 1 < 2 ^ LENGTH('w)"
    using ne unat_bound [of x] by linarith
  then have "unat (x + 1) = unat x + 1"
    by (simp add: unat_word_ariths)
  with False lt show ?thesis by (simp add: sat_inc_def)
qed

lemma sat_inc_ge: "x \<le> sat_inc x"
proof -
  have "unat x \<le> unat (sat_inc x)"
    using unat_bound [of x] unfolding unat_sat_inc by linarith
  then show ?thesis by (simp add: word_le_nat_alt)
qed

section \<open>Iterator adaptors\<close>

fun find_map :: "('a \<Rightarrow> 'b option) \<Rightarrow> 'a list \<Rightarrow> 'b option" where
  "find_map f [] = None"
| "find_map f (x # xs) = (case f x of Some y \<Rightarrow> Some y | None \<Rightarrow> find_map f xs)"

lemma find_map_None_iff: "find_map f xs = None \<longleftrightarrow> (\<forall>x \<in> set xs. f x = None)"
  by (induction xs) (auto split: option.splits)

lemma find_map_Some_in: "find_map f xs = Some y \<Longrightarrow> \<exists>x \<in> set xs. f x = Some y"
  by (induction xs) (auto split: option.splits)

lemma find_map_append:
  "find_map f (xs @ ys) = (case find_map f xs of Some y \<Rightarrow> Some y | None \<Rightarrow> find_map f ys)"
  by (induction xs) (auto split: option.splits)

text \<open>\<open>Iterator::position\<close>.\<close>

fun position :: "('a \<Rightarrow> bool) \<Rightarrow> 'a list \<Rightarrow> nat option" where
  "position P [] = None"
| "position P (x # xs) = (if P x then Some 0 else map_option Suc (position P xs))"

lemma position_None_iff: "position P xs = None \<longleftrightarrow> (\<forall>x \<in> set xs. \<not> P x)"
  by (induction xs) auto

lemma position_SomeD:
  "position P xs = Some i \<Longrightarrow> i < length xs \<and> P (xs ! i) \<and> (\<forall>x \<in> set (take i xs). \<not> P x)"
  by (induction xs arbitrary: i) (auto split: if_splits)

text \<open>\<open>Iterator::rposition\<close>, and what lies after the position it finds.\<close>

definition rposition :: "('a \<Rightarrow> bool) \<Rightarrow> 'a list \<Rightarrow> nat option" where
  "rposition P xs = map_option (\<lambda>i. length xs - 1 - i) (position P (rev xs))"

lemma rposition_None_iff: "rposition P xs = None \<longleftrightarrow> (\<forall>x \<in> set xs. \<not> P x)"
  by (simp add: rposition_def position_None_iff)

lemma rposition_SomeD:
  assumes "rposition P xs = Some i"
  shows "xs = take i xs @ xs ! i # drop (Suc i) xs \<and> i < length xs \<and> P (xs ! i) \<and>
     (\<forall>x \<in> set (drop (Suc i) xs). \<not> P x)"
proof -
  from assms obtain j where j: "position P (rev xs) = Some j" and i: "i = length xs - 1 - j"
    by (auto simp: rposition_def)
  from position_SomeD [OF j] have lt: "j < length xs" and P: "P (rev xs ! j)"
    and no: "\<forall>x \<in> set (take j (rev xs)). \<not> P x" by auto
  have at: "rev xs ! j = xs ! i" using lt i by (simp add: rev_nth)
  have il: "i < length xs" using lt i by simp
  have "take j (rev xs) = rev (drop (Suc i) xs)"
    using lt i by (simp add: take_rev Suc_diff_Suc)
  with no have "\<forall>x \<in> set (drop (Suc i) xs). \<not> P x" by simp
  with P at il id_take_nth_drop [OF il] show ?thesis by simp
qed

definition filter_opt :: "('a \<Rightarrow> bool) \<Rightarrow> 'a option \<Rightarrow> 'a option" where
  "filter_opt P x = (case x of Some y \<Rightarrow> if P y then Some y else None | None \<Rightarrow> None)"

definition or_opt :: "'a option \<Rightarrow> 'a option \<Rightarrow> 'a option" where
  "or_opt x y = (case x of Some z \<Rightarrow> Some z | None \<Rightarrow> y)"

definition is_some_and :: "'a option \<Rightarrow> ('a \<Rightarrow> bool) \<Rightarrow> bool" where
  "is_some_and x P \<longleftrightarrow> (case x of Some y \<Rightarrow> P y | None \<Rightarrow> False)"

lemma is_some_and_simps [simp]: "is_some_and (Some y) P = P y" "is_some_and None P = False"
  by (simp_all add: is_some_and_def)

lemma filter_opt_simps [simp]:
  "filter_opt P None = None" "filter_opt P (Some y) = (if P y then Some y else None)"
  by (simp_all add: filter_opt_def)

lemma or_opt_simps [simp]: "or_opt (Some x) y = Some x" "or_opt None y = y"
  by (simp_all add: or_opt_def)

section \<open>Histories\<close>

text \<open>
  A fact that one event establishes and another kind of event withdraws holds of a history
  exactly when its last establishing event was not followed by a withdrawing one.
\<close>

lemma history_since:
  assumes nil: "\<not> f []"
    and snoc: "\<And>h e. f (h @ [e]) \<longleftrightarrow> A h e \<or> (f h \<and> \<not> B e)"
  shows "f h \<longleftrightarrow> (\<exists>h1 e h2. h = h1 @ e # h2 \<and> A h1 e \<and> (\<forall>x \<in> set h2. \<not> B x))"
    (is "_ \<longleftrightarrow> ?R h")
proof (induction h rule: rev_induct)
  case Nil
  then show ?case using nil by simp
next
  case (snoc x h)
  have "?R (h @ [x]) \<longleftrightarrow> A h x \<or> (?R h \<and> \<not> B x)"
  proof
    assume "?R (h @ [x])"
    then obtain h1 e h2 where eq: "h @ [x] = h1 @ e # h2" and A: "A h1 e"
      and B: "\<forall>y \<in> set h2. \<not> B y" by blast
    show "A h x \<or> (?R h \<and> \<not> B x)"
    proof (cases h2 rule: rev_cases)
      case Nil
      with eq A show ?thesis by simp
    next
      case (snoc h2' y)
      with eq have "h = h1 @ e # h2'" and "y = x" by auto
      with A B snoc show ?thesis by auto
    qed
  next
    assume "A h x \<or> (?R h \<and> \<not> B x)"
    then show "?R (h @ [x])"
    proof
      assume "A h x"
      then show ?thesis by fastforce
    next
      assume "?R h \<and> \<not> B x"
      then obtain h1 e h2 where "h @ [x] = h1 @ e # (h2 @ [x])" "A h1 e"
        "\<forall>y \<in> set (h2 @ [x]). \<not> B y" by auto
      then show ?thesis by blast
    qed
  qed
  with snoc.IH show ?case by (simp add: assms(2))
qed

end
