(* ===== verification/Session_Types.thy ===== *)
theory Session_Types
  imports Rust_Prelude
begin

text \<open>
  The data of a session (\<open>crates/dcc-core/src/domain/session.rs\<close>, with the types it takes
  from \<open>provider.rs\<close>, \<open>ports/provider.rs\<close>, \<open>goal.rs\<close> and \<open>objective.rs\<close>): the event
  kinds of the durable history, the event record, the turn an event belongs to, and the
  conversation that is left after a rewind. Record fields carry the initials of their
  struct, since Isabelle's field names are global.
\<close>

section \<open>Identifiers and small enumerations\<close>

datatype session_id = SessionId rstr
datatype turn_id = TurnId rstr
datatype checkpoint_id = CheckpointId rstr
datatype project_id = ProjectId rstr
datatype workspace_id = WorkspaceId rstr
datatype delegation_id = DelegationId rstr

datatype session_state = SsDraft | SsActive | SsCompleted | SsAborted

datatype turn_state = TsRunning | TsCompleted | TsAborted

datatype assistant_message_phase = Commentary | FinalAnswer | PhaseUnknown

datatype native_subagent_status = SubagentRunning | SubagentCompleted | SubagentFailed

datatype rewind_provider_context = RewindNative | RewindFresh

datatype objective_pause_reason = OprManual | OprConsecutiveFailures | OprTurnBudget

datatype goal_status = GsActive | GsPaused | GsBlocked | GsUsageLimited | GsBudgetLimited | GsComplete

section \<open>Approval policies\<close>

datatype provider_approval_policy = ReadOnly | Ask | Auto | FullAccess

fun policy_rank :: "provider_approval_policy \<Rightarrow> u8" where
  "policy_rank ReadOnly = 0"
| "policy_rank Ask = 1"
| "policy_rank Auto = 2"
| "policy_rank FullAccess = 3"

definition most_restrictive ::
    "provider_approval_policy \<Rightarrow> provider_approval_policy \<Rightarrow> provider_approval_policy" where
  "most_restrictive self other =
     (if policy_rank other < policy_rank self then other else self)"

lemma policy_rank_most_restrictive:
  "policy_rank (most_restrictive p q) = min (policy_rank p) (policy_rank q)"
  by (auto simp: most_restrictive_def min_def)

lemma policy_rank_inj: "policy_rank p = policy_rank q \<longleftrightarrow> p = q"
  by (cases p; cases q) auto

section \<open>Evidence carried by a turn\<close>

datatype turn_evidence_stage = EvObserve | EvReproduce | EvInvestigate | EvFix | EvVerify
datatype turn_evidence_source = EvBrowser | EvTerminal | EvDiff
datatype turn_evidence_trust = RemoteUntrusted | LocalTerminal | LocalWorkspace

record turn_evidence_item_summary =
  ei_source :: turn_evidence_source
  ei_trust :: turn_evidence_trust
  ei_chars :: u32
  ei_truncated :: bool

record turn_evidence_summary =
  te_stage :: turn_evidence_stage
  te_items :: "turn_evidence_item_summary list"

definition MAX_TURN_EVIDENCE_ITEMS :: nat where "MAX_TURN_EVIDENCE_ITEMS = 8"
definition MAX_TURN_EVIDENCE_ITEM_CHARS :: u32 where "MAX_TURN_EVIDENCE_ITEM_CHARS = 32000"

fun evidence_coherent :: "turn_evidence_source \<Rightarrow> turn_evidence_trust \<Rightarrow> bool" where
  "evidence_coherent EvBrowser RemoteUntrusted = True"
| "evidence_coherent EvTerminal LocalTerminal = True"
| "evidence_coherent EvDiff LocalWorkspace = True"
| "evidence_coherent _ _ = False"

definition evidence_item_check :: "turn_evidence_item_summary \<Rightarrow> rstr + unit" where
  "evidence_item_check item = first_err
     [require (ei_chars item \<le> MAX_TURN_EVIDENCE_ITEM_CHARS)
        (lit ''turn evidence item exceeds 32000 chars''),
      require (evidence_coherent (ei_source item) (ei_trust item))
        (lit ''turn evidence item has a mismatched source and trust'')]"

definition evidence_validate :: "turn_evidence_summary \<Rightarrow> rstr + unit" where
  "evidence_validate s = first_err
     ([require (te_items s \<noteq> []) (lit ''turn evidence summary has no items''),
       require (length (te_items s) \<le> MAX_TURN_EVIDENCE_ITEMS)
         (lit ''turn evidence summary exceeds 8 items'')]
      @ map evidence_item_check (te_items s))"

section \<open>Queued turns, goals and sessions\<close>

record queued_turn =
  qt_id :: rstr
  qt_session_id :: session_id
  qt_prompt :: rstr
  qt_tool_instructions :: "rstr option"
  qt_plan_mode :: "bool option"
  qt_effort :: "rstr option"
  qt_fast_mode :: "bool option"
  qt_approval_policy :: "provider_approval_policy option"
  qt_evidence :: "turn_evidence_summary option"
  qt_created_at :: rstr

record session_goal =
  sg_objective :: rstr
  sg_status :: goal_status
  sg_checks :: u32
  sg_last_check :: "rstr option"
  sg_tokens_used :: "u64 option"
  sg_token_budget :: "u64 option"
  sg_time_used_seconds :: "u64 option"
  sg_completes_with_turn :: bool
  sg_updated_at :: rstr

text \<open>\<open>ProviderRuntimeConfig\<close> is opaque to this layer: the session carries it unread.\<close>

record 'rt session =
  ss_id :: session_id
  ss_project_id :: project_id
  ss_workspace_id :: workspace_id
  ss_additional_workspace_ids :: "workspace_id list"
  ss_provider_id :: rstr
  ss_model :: "rstr option"
  ss_provider_runtime :: "'rt option"
  ss_working_directory_override :: "rstr option"
  ss_state :: session_state
  ss_created_at :: rstr
  ss_updated_at :: rstr

record fork_origin =
  fo_session_id :: session_id
  fo_turn_id :: "turn_id option"

record tool_call_detail =
  tc_command :: "rstr option"
  tc_file :: "rstr option"
  tc_input :: "rstr option"
  tc_output :: "rstr option"
  tc_exit_code :: "32 word option"
  tc_diff :: "rstr option"
  tc_truncated :: bool

record provider_user_input_option =
  uo_label :: rstr
  uo_description :: rstr

record provider_user_input_question =
  uq_id :: rstr
  uq_header :: rstr
  uq_question :: rstr
  uq_options :: "provider_user_input_option list"

record provider_user_input_answer =
  ua_question :: rstr
  ua_answer :: rstr

section \<open>The events of a session\<close>

datatype (plugins only: code size) session_event_kind =
    SessionStarted workspace_id project_id rstr "rstr option" "fork_origin option"
      \<comment> \<open>workspace, project, provider, model, forked from\<close>
  | TurnStarted turn_id rstr "bool option" "rstr option" "turn_evidence_summary option"
      "turn_id option" "provider_approval_policy option"
      \<comment> \<open>turn, prompt, plan mode, model, evidence, retry of, approval policy\<close>
  | TurnSteered turn_id rstr
  | TurnQueued queued_turn
  | QueuedTurnRemoved rstr
  | TurnQueueReordered "rstr list"
  | QueuedTurnDispatched rstr turn_id
  | TurnDelta turn_id rstr
  | TurnAssistantMessageStarted turn_id rstr assistant_message_phase
  | TurnAssistantMessageDelta turn_id rstr rstr
  | TurnAssistantMessageCompleted turn_id rstr assistant_message_phase "rstr option"
  | TurnReasoningStarted turn_id rstr "rstr option"
  | TurnReasoningDelta turn_id rstr rstr
  | TurnReasoningCompleted turn_id rstr
  | TurnToolCallStarted turn_id rstr rstr "rstr option" "rstr option"
  | TurnToolCallDelta turn_id rstr rstr
  | TurnToolCallUpdated turn_id rstr tool_call_detail
  | TurnToolCallCompleted turn_id rstr "tool_call_detail option"
  | TurnToolCallFailed turn_id rstr "rstr option" "tool_call_detail option"
  | TurnUserInputRequested turn_id rstr "provider_user_input_question list"
  | TurnUserInputResolved turn_id rstr "provider_user_input_answer list"
  | TurnPermissionRequested turn_id rstr rstr "rstr option" "rstr option" "rstr option" "rstr option"
  | TurnPermissionResolved turn_id rstr rstr
  | TurnNativeSubagentActivity turn_id rstr "rstr option" "rstr option" "rstr option" "rstr option"
      "rstr option" "rstr option" native_subagent_status
  | TurnNativeSubagentModelConfirmed turn_id rstr rstr
  | TurnNativeSubagentModelRequested turn_id rstr rstr
  | TurnModelEffective turn_id rstr
  | TurnCompleted turn_id
  | TurnAborted turn_id "rstr option"
  | CheckpointCreated checkpoint_id rstr
  | PlanApproved rstr u32 rstr
  | PlanHandedOff rstr u32 rstr rstr "session_id option"
  | DelegationRequested delegation_id
  | DelegationStarted delegation_id "session_id option"
  | DelegationDelta delegation_id rstr
  | DelegationCompleted delegation_id "rstr option"
  | DelegationFailed delegation_id "rstr option"
  | DelegationCancelled delegation_id "rstr option"
  | SessionCompleted
  | SessionAborted "rstr option"
  | SessionResumed
  | ObjectivePaused objective_pause_reason u32 u32
  | UsageLimitReached turn_id "rstr option" bool bool
      \<comment> \<open>turn, resets at, automatic resume, paused\<close>
  | UsageLimitResumed bool "turn_id option" "rstr option"
  | UsageLimitAutoResumeChanged bool
  | GoalUpdated "turn_id option" "session_goal option"
  | ConversationRewound turn_id "turn_id list" rewind_provider_context "turn_id list"
      \<comment> \<open>anchor, removed turns, provider context, restored turns\<close>

record session_event_record =
  er_event_id :: rstr
  er_session_id :: session_id
  er_sequence :: u64
  er_occurred_at :: rstr
  er_kind :: session_event_kind

text \<open>The turn an event belongs to, when it belongs to one.\<close>

primrec event_turn_id :: "session_event_kind \<Rightarrow> turn_id option" where
  "event_turn_id (TurnStarted t _ _ _ _ _ _) = Some t"
| "event_turn_id (TurnSteered t _) = Some t"
| "event_turn_id (QueuedTurnDispatched _ t) = Some t"
| "event_turn_id (TurnDelta t _) = Some t"
| "event_turn_id (TurnAssistantMessageStarted t _ _) = Some t"
| "event_turn_id (TurnAssistantMessageDelta t _ _) = Some t"
| "event_turn_id (TurnAssistantMessageCompleted t _ _ _) = Some t"
| "event_turn_id (TurnReasoningStarted t _ _) = Some t"
| "event_turn_id (TurnReasoningDelta t _ _) = Some t"
| "event_turn_id (TurnReasoningCompleted t _) = Some t"
| "event_turn_id (TurnToolCallStarted t _ _ _ _) = Some t"
| "event_turn_id (TurnToolCallDelta t _ _) = Some t"
| "event_turn_id (TurnToolCallUpdated t _ _) = Some t"
| "event_turn_id (TurnToolCallCompleted t _ _) = Some t"
| "event_turn_id (TurnToolCallFailed t _ _ _) = Some t"
| "event_turn_id (TurnUserInputRequested t _ _) = Some t"
| "event_turn_id (TurnUserInputResolved t _ _) = Some t"
| "event_turn_id (TurnPermissionRequested t _ _ _ _ _ _) = Some t"
| "event_turn_id (TurnPermissionResolved t _ _) = Some t"
| "event_turn_id (TurnNativeSubagentActivity t _ _ _ _ _ _ _ _) = Some t"
| "event_turn_id (TurnNativeSubagentModelConfirmed t _ _) = Some t"
| "event_turn_id (TurnNativeSubagentModelRequested t _ _) = Some t"
| "event_turn_id (TurnModelEffective t _) = Some t"
| "event_turn_id (TurnCompleted t) = Some t"
| "event_turn_id (TurnAborted t _) = Some t"
| "event_turn_id (UsageLimitReached t _ _ _) = Some t"
| "event_turn_id (GoalUpdated t _) = t"
| "event_turn_id (SessionStarted _ _ _ _ _) = None"
| "event_turn_id (TurnQueued _) = None"
| "event_turn_id (QueuedTurnRemoved _) = None"
| "event_turn_id (TurnQueueReordered _) = None"
| "event_turn_id (CheckpointCreated _ _) = None"
| "event_turn_id (PlanApproved _ _ _) = None"
| "event_turn_id (PlanHandedOff _ _ _ _ _) = None"
| "event_turn_id (DelegationRequested _) = None"
| "event_turn_id (DelegationStarted _ _) = None"
| "event_turn_id (DelegationDelta _ _) = None"
| "event_turn_id (DelegationCompleted _ _) = None"
| "event_turn_id (DelegationFailed _ _) = None"
| "event_turn_id (DelegationCancelled _ _) = None"
| "event_turn_id SessionCompleted = None"
| "event_turn_id (SessionAborted _) = None"
| "event_turn_id SessionResumed = None"
| "event_turn_id (ObjectivePaused _ _ _) = None"
| "event_turn_id (UsageLimitResumed _ _ _) = None"
| "event_turn_id (UsageLimitAutoResumeChanged _) = None"
| "event_turn_id (ConversationRewound _ _ _ _) = None"

text \<open>The event that ends a turn, and the turn it ends.\<close>

definition terminal_turn :: "session_event_kind \<Rightarrow> turn_id option" where
  "terminal_turn k = (case k of TurnCompleted t \<Rightarrow> Some t | TurnAborted t _ \<Rightarrow> Some t | _ \<Rightarrow> None)"

lemma terminal_turn_simps [simp]:
  "terminal_turn (TurnCompleted t) = Some t"
  "terminal_turn (TurnAborted t r) = Some t"
  by (simp_all add: terminal_turn_def)

lemma terminal_turn_Some_iff:
  "terminal_turn k = Some t \<longleftrightarrow> k = TurnCompleted t \<or> (\<exists>r. k = TurnAborted t r)"
  by (cases k) (auto simp: terminal_turn_def)

section \<open>Conversation rewinds\<close>

definition removed_turns :: "session_event_record \<Rightarrow> turn_id list" where
  "removed_turns e = (case er_kind e of ConversationRewound _ removed _ _ \<Rightarrow> removed | _ \<Rightarrow> [])"

definition rewound_turn_ids :: "session_event_record list \<Rightarrow> turn_id set" where
  "rewound_turn_ids events = set (concat (map removed_turns events))"

definition visible_session_events :: "session_event_record list \<Rightarrow> session_event_record list" where
  "visible_session_events events =
     (let rewound = rewound_turn_ids events
      in if Set.is_empty rewound then events
         else filter (\<lambda>e. case event_turn_id (er_kind e) of
                            None \<Rightarrow> True | Some t \<Rightarrow> t \<notin> rewound) events)"

definition in_conversation :: "turn_id set \<Rightarrow> session_event_record \<Rightarrow> bool" where
  "in_conversation rewound e \<longleftrightarrow>
     (\<forall>t. event_turn_id (er_kind e) = Some t \<longrightarrow> t \<notin> rewound)"

lemma rewound_turn_ids_append [simp]:
  "rewound_turn_ids (xs @ ys) = rewound_turn_ids xs \<union> rewound_turn_ids ys"
  by (simp add: rewound_turn_ids_def)

lemma rewound_turn_ids_Nil [simp]: "rewound_turn_ids [] = {}"
  by (simp add: rewound_turn_ids_def)

lemma rewound_turn_ids_Cons:
  "rewound_turn_ids (e # es) = set (removed_turns e) \<union> rewound_turn_ids es"
  by (simp add: rewound_turn_ids_def)

lemma visible_eq_filter:
  "visible_session_events events = filter (in_conversation (rewound_turn_ids events)) events"
  by (auto simp: visible_session_events_def Let_def in_conversation_def
      intro!: filter_cong split: option.splits)

lemma removed_turns_in_conversation: "removed_turns e \<noteq> [] \<Longrightarrow> in_conversation R e"
  by (cases "er_kind e") (auto simp: removed_turns_def in_conversation_def)

lemma rewound_turn_ids_filter:
  "rewound_turn_ids (filter (in_conversation R) events) = rewound_turn_ids events"
proof (induction events)
  case (Cons e es)
  then show ?case
    using removed_turns_in_conversation [of e R]
    by (cases "removed_turns e = []") (auto simp: rewound_turn_ids_Cons)
qed simp

lemma visible_rewound [simp]:
  "rewound_turn_ids (visible_session_events events) = rewound_turn_ids events"
  by (simp add: visible_eq_filter rewound_turn_ids_filter)

lemma visible_idem [simp]:
  "visible_session_events (visible_session_events events) = visible_session_events events"
  unfolding visible_eq_filter rewound_turn_ids_filter by simp

lemma visible_no_rewind: "rewound_turn_ids events = {} \<Longrightarrow> visible_session_events events = events"
  by (simp add: visible_session_events_def Let_def)

end
