(* ===== verification/Session_Projection.thy ===== *)
theory Session_Projection
  imports Session_Types
begin

text \<open>
  The projection of a session (\<open>SessionProjection\<close> in \<open>domain/session.rs\<close>): the state that
  is replayed from the durable history one event at a time, and the requests the running
  turn still waits on. The lemmas say what the replay computes: the active turn, the
  counters and the open requests as functions of the history.
\<close>

section \<open>Replay\<close>

record session_projection =
  pj_session_id :: session_id
  pj_project_id :: project_id
  pj_workspace_id :: workspace_id
  pj_provider_id :: rstr
  pj_model :: "rstr option"
  pj_state :: session_state
  pj_active_turn_id :: "turn_id option"
  pj_turn_count :: u32
  pj_checkpoint_count :: u32
  pj_created_at :: rstr
  pj_updated_at :: rstr

definition projection_new ::
    "session_id \<Rightarrow> project_id \<Rightarrow> workspace_id \<Rightarrow> rstr \<Rightarrow> rstr option \<Rightarrow> rstr \<Rightarrow> session_projection" where
  "projection_new sid pid wid provider model occurred_at =
     \<lparr>pj_session_id = sid, pj_project_id = pid, pj_workspace_id = wid,
      pj_provider_id = provider, pj_model = model, pj_state = SsDraft,
      pj_active_turn_id = None, pj_turn_count = 0, pj_checkpoint_count = 0,
      pj_created_at = occurred_at, pj_updated_at = occurred_at\<rparr>"

definition end_turn :: "turn_id \<Rightarrow> session_projection \<Rightarrow> session_projection" where
  "end_turn t p =
     (if pj_active_turn_id p = Some t then p\<lparr>pj_active_turn_id := None\<rparr> else p)"

definition apply_kind :: "session_event_kind \<Rightarrow> session_projection \<Rightarrow> session_projection" where
  "apply_kind k p =
     (case k of
        SessionStarted wid pid provider model _ \<Rightarrow>
          p\<lparr>pj_workspace_id := wid, pj_project_id := pid, pj_provider_id := provider,
            pj_model := model, pj_state := SsActive\<rparr>
      | TurnStarted t _ _ _ _ _ _ \<Rightarrow> p\<lparr>pj_state := SsActive, pj_active_turn_id := Some t\<rparr>
      | TurnCompleted t \<Rightarrow> end_turn t (p\<lparr>pj_turn_count := sat_inc (pj_turn_count p)\<rparr>)
      | TurnAborted t _ \<Rightarrow> end_turn t p
      | CheckpointCreated _ _ \<Rightarrow> p\<lparr>pj_checkpoint_count := sat_inc (pj_checkpoint_count p)\<rparr>
      | SessionCompleted \<Rightarrow> p\<lparr>pj_state := SsCompleted, pj_active_turn_id := None\<rparr>
      | SessionAborted _ \<Rightarrow> p\<lparr>pj_state := SsAborted, pj_active_turn_id := None\<rparr>
      | SessionResumed \<Rightarrow> p\<lparr>pj_state := SsActive\<rparr>
      | ConversationRewound _ _ _ _ \<Rightarrow> p\<lparr>pj_active_turn_id := None\<rparr>
      | _ \<Rightarrow> p)"

definition apply_event :: "session_projection \<Rightarrow> session_event_record \<Rightarrow> session_projection" where
  "apply_event p e = apply_kind (er_kind e) (p\<lparr>pj_updated_at := er_occurred_at e\<rparr>)"

definition projection_seed :: "session_event_record \<Rightarrow> session_projection" where
  "projection_seed first =
     (case er_kind first of
        SessionStarted wid pid provider model _ \<Rightarrow>
          projection_new (er_session_id first) pid wid provider model (er_occurred_at first)
      | _ \<Rightarrow> projection_new (er_session_id first) (ProjectId []) (WorkspaceId []) [] None
               (er_occurred_at first))"

definition projection_fold :: "session_event_record list \<Rightarrow> session_projection option" where
  "projection_fold events =
     (case events of [] \<Rightarrow> None
      | first # _ \<Rightarrow> Some (foldl apply_event (projection_seed first) events))"

lemma projection_fold_None_iff [simp]: "projection_fold events = None \<longleftrightarrow> events = []"
  by (simp add: projection_fold_def split: list.splits)

lemma projection_fold_Nil [simp]: "projection_fold [] = None"
  by (simp add: projection_fold_def)

lemma projection_fold_snoc:
  "projection_fold (h @ [e]) =
     Some (apply_event (case projection_fold h of None \<Rightarrow> projection_seed e | Some p \<Rightarrow> p) e)"
  by (cases h) (simp_all add: projection_fold_def)

lemma projection_fold_append:
  "projection_fold h = Some p \<Longrightarrow> projection_fold (h @ es) = Some (foldl apply_event p es)"
  by (cases h) (auto simp: projection_fold_def)

text \<open>Induction over a history, from its first event on.\<close>

lemma projection_fold_induct [consumes 1, case_names first later]:
  assumes "projection_fold h = Some p"
    and "\<And>e. P [e] (apply_event (projection_seed e) e)"
    and "\<And>h p e. projection_fold h = Some p \<Longrightarrow> P h p \<Longrightarrow> P (h @ [e]) (apply_event p e)"
  shows "P h p"
  using assms(1)
proof (induction h arbitrary: p rule: rev_induct)
  case Nil
  then show ?case by simp
next
  case (snoc e h)
  show ?case
  proof (cases "projection_fold h")
    case None
    with snoc.prems have "h = []" and "p = apply_event (projection_seed e) e"
      by (auto simp: projection_fold_snoc)
    then show ?thesis using assms(2) by simp
  next
    case (Some q)
    with snoc.prems have "p = apply_event q e" by (simp add: projection_fold_snoc)
    with Some snoc.IH assms(3) show ?thesis by simp
  qed
qed

section \<open>What the replay computes\<close>

text \<open>The effect of one event on the active turn, and on a counted kind.\<close>

definition next_active :: "session_event_kind \<Rightarrow> turn_id option \<Rightarrow> turn_id option" where
  "next_active k a =
     (case k of
        TurnStarted t _ _ _ _ _ _ \<Rightarrow> Some t
      | TurnCompleted t \<Rightarrow> if a = Some t then None else a
      | TurnAborted t _ \<Rightarrow> if a = Some t then None else a
      | SessionCompleted \<Rightarrow> None
      | SessionAborted _ \<Rightarrow> None
      | ConversationRewound _ _ _ _ \<Rightarrow> None
      | _ \<Rightarrow> a)"

definition is_turn_completed :: "session_event_kind \<Rightarrow> bool" where
  "is_turn_completed k \<longleftrightarrow> (case k of TurnCompleted _ \<Rightarrow> True | _ \<Rightarrow> False)"

definition is_checkpoint :: "session_event_kind \<Rightarrow> bool" where
  "is_checkpoint k \<longleftrightarrow> (case k of CheckpointCreated _ _ \<Rightarrow> True | _ \<Rightarrow> False)"

lemma apply_event_active:
  "pj_active_turn_id (apply_event p e) = next_active (er_kind e) (pj_active_turn_id p)"
  by (cases "er_kind e") (auto simp: apply_event_def apply_kind_def next_active_def end_turn_def)

lemma apply_event_turn_count:
  "pj_turn_count (apply_event p e) =
     (if is_turn_completed (er_kind e) then sat_inc (pj_turn_count p) else pj_turn_count p)"
  by (cases "er_kind e")
    (auto simp: apply_event_def apply_kind_def is_turn_completed_def end_turn_def)

lemma apply_event_checkpoint_count:
  "pj_checkpoint_count (apply_event p e) =
     (if is_checkpoint (er_kind e) then sat_inc (pj_checkpoint_count p) else pj_checkpoint_count p)"
  by (cases "er_kind e")
    (auto simp: apply_event_def apply_kind_def is_checkpoint_def end_turn_def)

lemma apply_event_session_id [simp]: "pj_session_id (apply_event p e) = pj_session_id p"
  and apply_event_created_at [simp]: "pj_created_at (apply_event p e) = pj_created_at p"
  and apply_event_updated_at [simp]: "pj_updated_at (apply_event p e) = er_occurred_at e"
  by (cases "er_kind e"; simp add: apply_event_def apply_kind_def end_turn_def)+

lemma projection_seed_simps [simp]:
  "pj_session_id (projection_seed e) = er_session_id e"
  "pj_active_turn_id (projection_seed e) = None"
  "pj_turn_count (projection_seed e) = 0"
  "pj_checkpoint_count (projection_seed e) = 0"
  "pj_state (projection_seed e) = SsDraft"
  "pj_created_at (projection_seed e) = er_occurred_at e"
  by (cases "er_kind e"; simp add: projection_seed_def projection_new_def)+

text \<open>A projection is well formed when only an active session has an active turn.\<close>

definition projection_wf :: "session_projection \<Rightarrow> bool" where
  "projection_wf p \<longleftrightarrow> (pj_active_turn_id p \<noteq> None \<longrightarrow> pj_state p = SsActive)"

lemma apply_event_wf: "projection_wf p \<Longrightarrow> projection_wf (apply_event p e)"
  by (cases "er_kind e")
    (auto simp: projection_wf_def apply_event_def apply_kind_def end_turn_def)

lemma projection_fold_wf: "projection_fold h = Some p \<Longrightarrow> projection_wf p"
  by (induction rule: projection_fold_induct)
    (auto intro!: apply_event_wf simp: projection_wf_def [of "projection_seed _"])

definition active_turn :: "session_event_record list \<Rightarrow> turn_id option" where
  "active_turn h = foldl (\<lambda>a e. next_active (er_kind e) a) None h"

lemma active_turn_snoc [simp]: "active_turn (h @ [e]) = next_active (er_kind e) (active_turn h)"
  and active_turn_Nil [simp]: "active_turn [] = None"
  by (simp_all add: active_turn_def)

lemma projection_fold_active:
  "projection_fold h = Some p \<Longrightarrow> pj_active_turn_id p = active_turn h"
proof (induction rule: projection_fold_induct)
  case (first e)
  show ?case using active_turn_snoc [of "[]" e] by (simp add: apply_event_active)
next
  case (later h p e)
  then show ?case by (simp add: apply_event_active)
qed

definition starts_turn :: "turn_id \<Rightarrow> session_event_kind \<Rightarrow> bool" where
  "starts_turn t k \<longleftrightarrow> (case k of TurnStarted t' _ _ _ _ _ _ \<Rightarrow> t' = t | _ \<Rightarrow> False)"

definition is_turn_started :: "session_event_kind \<Rightarrow> bool" where
  "is_turn_started k \<longleftrightarrow> (case k of TurnStarted _ _ _ _ _ _ _ \<Rightarrow> True | _ \<Rightarrow> False)"

text \<open>The events that take the turn \<open>t\<close> off the session.\<close>

definition displaces :: "turn_id \<Rightarrow> session_event_kind \<Rightarrow> bool" where
  "displaces t k \<longleftrightarrow>
     is_turn_started k \<or> terminal_turn k = Some t \<or> k = SessionCompleted \<or>
     (\<exists>r. k = SessionAborted r) \<or> (\<exists>a rs c ts. k = ConversationRewound a rs c ts)"

lemma next_active_Some_iff:
  "next_active k a = Some t \<longleftrightarrow> starts_turn t k \<or> (a = Some t \<and> \<not> displaces t k)"
  by (cases k) (auto simp: next_active_def starts_turn_def displaces_def is_turn_started_def
      terminal_turn_def)

lemma active_turn_Some_iff:
  "active_turn h = Some t \<longleftrightarrow>
     (\<exists>h1 e h2. h = h1 @ e # h2 \<and> starts_turn t (er_kind e) \<and>
        (\<forall>x \<in> set h2. \<not> displaces t (er_kind x)))"
  by (rule history_since [where f = "\<lambda>h. active_turn h = Some t" and
        A = "\<lambda>_ e. starts_turn t (er_kind e)" and B = "\<lambda>e. displaces t (er_kind e)"])
    (simp_all add: next_active_Some_iff)

definition count_kind :: "(session_event_kind \<Rightarrow> bool) \<Rightarrow> session_event_record list \<Rightarrow> nat" where
  "count_kind P h = length (filter (\<lambda>e. P (er_kind e)) h)"

lemma count_kind_simps [simp]:
  "count_kind P [] = 0"
  "count_kind P (h @ h') = count_kind P h + count_kind P h'"
  "count_kind P [e] = (if P (er_kind e) then 1 else 0)"
  by (simp_all add: count_kind_def)

lemma projection_fold_turn_count:
  "projection_fold h = Some p \<Longrightarrow>
     unat (pj_turn_count p) = min (2 ^ 32 - 1) (count_kind is_turn_completed h)"
  by (induction rule: projection_fold_induct) (auto simp: apply_event_turn_count unat_sat_inc)

lemma projection_fold_checkpoint_count:
  "projection_fold h = Some p \<Longrightarrow>
     unat (pj_checkpoint_count p) = min (2 ^ 32 - 1) (count_kind is_checkpoint h)"
  by (induction rule: projection_fold_induct) (auto simp: apply_event_checkpoint_count unat_sat_inc)

section \<open>Open requests\<close>

text \<open>
  \<open>OpenTurnRequests\<close>: the requests, as (request id, requested at), of the turn that is
  still running. The scan keeps the open turn and the two lists of pending requests.
\<close>

record open_turn_requests =
  or_open_turn :: "turn_id option"
  or_permissions :: "(rstr \<times> rstr) list"
  or_inputs :: "(rstr \<times> rstr) list"

definition requests_init :: open_turn_requests where
  "requests_init = \<lparr>or_open_turn = None, or_permissions = [], or_inputs = []\<rparr>"

definition requests_step ::
    "open_turn_requests \<Rightarrow> session_event_record \<Rightarrow> open_turn_requests" where
  "requests_step s e =
     (case er_kind e of
        TurnStarted t _ _ _ _ _ _ \<Rightarrow>
          \<lparr>or_open_turn = Some t, or_permissions = [], or_inputs = []\<rparr>
      | TurnCompleted t \<Rightarrow>
          if or_open_turn s = Some t then s\<lparr>or_open_turn := None\<rparr> else s
      | TurnAborted t _ \<Rightarrow>
          if or_open_turn s = Some t then s\<lparr>or_open_turn := None\<rparr> else s
      | TurnPermissionRequested t rid _ _ _ _ _ \<Rightarrow>
          if or_open_turn s = Some t
          then s\<lparr>or_permissions := or_permissions s @ [(rid, er_occurred_at e)]\<rparr> else s
      | TurnPermissionResolved _ rid _ \<Rightarrow>
          s\<lparr>or_permissions := filter (\<lambda>(pending, _). pending \<noteq> rid) (or_permissions s)\<rparr>
      | TurnUserInputRequested t rid _ \<Rightarrow>
          if or_open_turn s = Some t
          then s\<lparr>or_inputs := or_inputs s @ [(rid, er_occurred_at e)]\<rparr> else s
      | TurnUserInputResolved _ rid _ \<Rightarrow>
          s\<lparr>or_inputs := filter (\<lambda>(pending, _). pending \<noteq> rid) (or_inputs s)\<rparr>
      | SessionCompleted \<Rightarrow> s\<lparr>or_open_turn := None\<rparr>
      | SessionAborted _ \<Rightarrow> s\<lparr>or_open_turn := None\<rparr>
      | _ \<Rightarrow> s)"

definition requests_scan :: "session_event_record list \<Rightarrow> open_turn_requests" where
  "requests_scan events = foldl requests_step requests_init events"

definition open_turn_requests ::
    "session_event_record list \<Rightarrow> ((rstr \<times> rstr) list \<times> (rstr \<times> rstr) list) option" where
  "open_turn_requests events =
     (let s = requests_scan events
      in case or_open_turn s of None \<Rightarrow> None
         | Some _ \<Rightarrow> Some (or_permissions s, or_inputs s))"

definition last_turn_awaiting_user :: "session_event_record list \<Rightarrow> rstr option" where
  "last_turn_awaiting_user events =
     (case open_turn_requests events of None \<Rightarrow> None
      | Some (permissions, inputs) \<Rightarrow>
          if permissions \<noteq> [] then Some (lit ''permission'')
          else if inputs \<noteq> [] then Some (lit ''input'')
          else None)"

text \<open>
  \<open>Iterator::min_by_key\<close> returns the first of several minima. \<open>millis\<close> stands for chrono's
  RFC 3339 parser followed by \<open>timestamp_millis\<close>; a time that does not parse sorts last.
\<close>

fun min_by_key :: "('a \<Rightarrow> int) \<Rightarrow> 'a list \<Rightarrow> 'a option" where
  "min_by_key k [] = None"
| "min_by_key k (x # xs) =
     (case min_by_key k xs of None \<Rightarrow> Some x | Some y \<Rightarrow> if k y < k x then Some y else Some x)"

definition last_turn_awaiting_since ::
    "(rstr \<Rightarrow> int option) \<Rightarrow> session_event_record list \<Rightarrow> rstr option" where
  "last_turn_awaiting_since millis events =
     (case open_turn_requests events of None \<Rightarrow> None
      | Some (permissions, inputs) \<Rightarrow>
          min_by_key (\<lambda>at. case millis at of Some ms \<Rightarrow> ms | None \<Rightarrow> 2 ^ 63 - 1)
            (map snd (permissions @ inputs)))"

text \<open>\<open>events[rposition(TurnStarted).unwrap_or(0)..]\<close>.\<close>

definition from_last_turn_start :: "session_event_record list \<Rightarrow> session_event_record list" where
  "from_last_turn_start events =
     (let tail = takeWhile (\<lambda>e. \<not> is_turn_started (er_kind e)) (rev events)
      in drop (length events - length tail - 1) events)"

definition requested_id :: "session_event_kind \<Rightarrow> rstr option" where
  "requested_id k = (case k of TurnPermissionRequested _ rid _ _ _ _ _ \<Rightarrow> Some rid
                      | TurnUserInputRequested _ rid _ \<Rightarrow> Some rid | _ \<Rightarrow> None)"

definition open_turn_request_events ::
    "session_event_record list \<Rightarrow> session_event_record list" where
  "open_turn_request_events events =
     (case open_turn_requests events of None \<Rightarrow> []
      | Some (permissions, inputs) \<Rightarrow>
          filter (\<lambda>e. case requested_id (er_kind e) of None \<Rightarrow> False
                       | Some rid \<Rightarrow> rid \<in> set (map fst (permissions @ inputs)))
            (from_last_turn_start events))"

lemma requests_scan_snoc [simp]: "requests_scan (h @ [e]) = requests_step (requests_scan h) e"
  and requests_scan_Nil [simp]: "requests_scan [] = requests_init"
  by (simp_all add: requests_scan_def)

lemma min_by_key_None_iff [simp]: "min_by_key k xs = None \<longleftrightarrow> xs = []"
  by (cases xs) (auto split: option.splits)

lemma min_by_key_Some: "min_by_key k xs = Some x \<Longrightarrow> x \<in> set xs \<and> (\<forall>y \<in> set xs. k x \<le> k y)"
  by (induction xs arbitrary: x) (force split: option.splits if_splits)+

text \<open>The declarative reading of a pending request: asked in the open turn, not answered since.\<close>

definition asks_permission :: "turn_id \<Rightarrow> rstr \<Rightarrow> session_event_kind \<Rightarrow> bool" where
  "asks_permission t rid k \<longleftrightarrow>
     (case k of TurnPermissionRequested t' r _ _ _ _ _ \<Rightarrow> t' = t \<and> r = rid | _ \<Rightarrow> False)"

definition answers_permission :: "rstr \<Rightarrow> session_event_kind \<Rightarrow> bool" where
  "answers_permission rid k \<longleftrightarrow>
     (case k of TurnPermissionResolved _ r _ \<Rightarrow> r = rid | _ \<Rightarrow> False)"

definition closes_turn :: "turn_id \<Rightarrow> session_event_kind \<Rightarrow> bool" where
  "closes_turn t k \<longleftrightarrow>
     terminal_turn k = Some t \<or> k = SessionCompleted \<or> (\<exists>r. k = SessionAborted r)"

lemma requests_step_open:
  "or_open_turn (requests_step s e) = Some t \<longleftrightarrow>
     starts_turn t (er_kind e) \<or>
     (or_open_turn s = Some t \<and> \<not> is_turn_started (er_kind e) \<and> \<not> closes_turn t (er_kind e))"
  by (cases "er_kind e")
    (auto simp: requests_step_def starts_turn_def is_turn_started_def closes_turn_def
      terminal_turn_def)

lemma requests_step_permission:
  "(rid, at) \<in> set (or_permissions (requests_step s e)) \<longleftrightarrow>
     \<not> is_turn_started (er_kind e) \<and>
     ((\<exists>t. or_open_turn s = Some t \<and> asks_permission t rid (er_kind e) \<and> at = er_occurred_at e) \<or>
      ((rid, at) \<in> set (or_permissions s) \<and> \<not> answers_permission rid (er_kind e)))"
  by (cases "er_kind e")
    (auto simp: requests_step_def is_turn_started_def asks_permission_def answers_permission_def)

lemma running_turn_iff:
  "or_open_turn (requests_scan h) = Some t \<longleftrightarrow>
     (\<exists>h1 e h2. h = h1 @ e # h2 \<and> starts_turn t (er_kind e) \<and>
        (\<forall>x \<in> set h2. \<not> (is_turn_started (er_kind x) \<or> closes_turn t (er_kind x))))"
  by (rule history_since [where f = "\<lambda>h. or_open_turn (requests_scan h) = Some t" and
        A = "\<lambda>_ e. starts_turn t (er_kind e)"])
    (auto simp: requests_step_open requests_init_def)

definition asked_in_open_turn :: "rstr \<Rightarrow> session_event_record list \<Rightarrow> session_event_record \<Rightarrow> bool" where
  "asked_in_open_turn rid h e \<longleftrightarrow>
     (\<exists>t. or_open_turn (requests_scan h) = Some t \<and> asks_permission t rid (er_kind e))"

lemma asks_permission_not_start: "asks_permission t rid k \<Longrightarrow> \<not> is_turn_started k"
  by (cases k) (auto simp: asks_permission_def is_turn_started_def)

lemma pending_permission_iff:
  "(rid, at) \<in> set (or_permissions (requests_scan h)) \<longleftrightarrow>
     (\<exists>h1 e h2. h = h1 @ e # h2 \<and> (asked_in_open_turn rid h1 e \<and> at = er_occurred_at e) \<and>
        (\<forall>x \<in> set h2. \<not> (is_turn_started (er_kind x) \<or> answers_permission rid (er_kind x))))"
  by (rule history_since [where f = "\<lambda>h. (rid, at) \<in> set (or_permissions (requests_scan h))"])
    (auto simp: requests_step_permission requests_init_def asked_in_open_turn_def
      dest: asks_permission_not_start)

end
