(* ===== verification/Event_Store.thy ===== *)
theory Event_Store
  imports Session_Types
begin

text \<open>
  The durable history of the sessions: the event repository the application layer calls
  (\<open>SessionEventRepo\<close> in \<open>ports/repository.rs\<close>) as the locale \<open>event_log\<close>, and its SQLite
  provider (\<open>SqliteSessionRepo\<close> in \<open>dcc-infra/src/db.rs\<close>) as a table of rows on which the
  locale is interpreted.

  Every call of the provider is one immediate transaction under the connection's lock, so
  it is one function on the table. JSON columns hold the values themselves; the function
  \<open>kind_json\<close> stands for \<open>serde_json::to_string\<close> on an event kind, which the identity check
  compares. The text of an error raised by SQLite itself is not modelled: \<open>sqlite_error\<close>
  stands for any of them.
\<close>

section \<open>The repository interface\<close>

datatype append_event_outcome =
    Inserted session_event_record
  | Existing session_event_record

fun outcome_event :: "append_event_outcome \<Rightarrow> session_event_record" where
  "outcome_event (Inserted e) = e"
| "outcome_event (Existing e) = e"

fun is_inserted :: "append_event_outcome \<Rightarrow> bool" where
  "is_inserted (Inserted _) = True"
| "is_inserted (Existing _) = False"

text \<open>
  What the callers rely on: a refused append changes nothing; an inserted event is the
  caller's event with the sequence of the store and ends its session's history; an existing
  event was already in that history and either has the caller's event id or ends the same
  turn; a turn has at most one terminal event.
\<close>

definition same_content :: "session_event_record \<Rightarrow> session_event_record \<Rightarrow> bool" where
  "same_content c e \<longleftrightarrow>
     er_event_id c = er_event_id e \<and> er_session_id c = er_session_id e \<and>
     er_occurred_at c = er_occurred_at e \<and> er_kind c = er_kind e"

definition terminal_events ::
    "turn_id \<Rightarrow> session_event_record list \<Rightarrow> session_event_record list" where
  "terminal_events t h = filter (\<lambda>e. terminal_turn (er_kind e) = Some t) h"

lemma terminal_events_simps [simp]:
  "terminal_events t [] = []"
  "terminal_events t (h @ h') = terminal_events t h @ terminal_events t h'"
  "terminal_events t (e # h) =
     (if terminal_turn (er_kind e) = Some t then e # terminal_events t h else terminal_events t h)"
  by (simp_all add: terminal_events_def)

lemma terminal_events_eq_Nil_iff:
  "terminal_events t h = [] \<longleftrightarrow> (\<forall>e \<in> set h. terminal_turn (er_kind e) \<noteq> Some t)"
  by (simp add: terminal_events_def filter_empty_conv)

locale event_log =
  fixes append :: "'s \<Rightarrow> session_event_record \<Rightarrow> (core_error + append_event_outcome) \<times> 's"
    and list_events :: "'s \<Rightarrow> session_id \<Rightarrow> session_event_record list"
    and invar :: "'s \<Rightarrow> bool"
  assumes invar_append: "invar s \<Longrightarrow> invar (snd (append s e))"
    and append_error: "append s e = (Inl x, s') \<Longrightarrow> s' = s"
    and append_inserted:
      "invar s \<Longrightarrow> append s e = (Inr (Inserted c), s') \<Longrightarrow>
         same_content c e \<and>
         list_events s' sid = list_events s sid @ (if sid = er_session_id e then [c] else [])"
    and append_existing:
      "invar s \<Longrightarrow> append s e = (Inr (Existing c), s') \<Longrightarrow>
         s' = s \<and> c \<in> set (list_events s (er_session_id e)) \<and>
         (er_event_id c = er_event_id e \<or>
          (\<exists>t. terminal_turn (er_kind e) = Some t \<and> terminal_turn (er_kind c) = Some t))"
    and list_session: "invar s \<Longrightarrow> c \<in> set (list_events s sid) \<Longrightarrow> er_session_id c = sid"
    and terminal_once: "invar s \<Longrightarrow> length (terminal_events t (list_events s sid)) \<le> 1"
begin

lemma append_ok_cases:
  assumes "invar s" and "append s e = (Inr out, s')"
  obtains (inserted) c where "out = Inserted c" "same_content c e"
      "list_events s' (er_session_id e) = list_events s (er_session_id e) @ [c]"
  | (existing) c where "out = Existing c" "s' = s" "c \<in> set (list_events s (er_session_id e))"
proof (cases out)
  case (Inserted c)
  with assms inserted show ?thesis
    using append_inserted [OF assms(1), of e c s' "er_session_id e"] by auto
next
  case (Existing c)
  with assms existing show ?thesis using append_existing [OF assms(1), of e c s'] by auto
qed

text \<open>Appending never takes anything out of a history, nor touches another session.\<close>

lemma append_extends:
  assumes "invar s" and "append s e = (r, s')"
  shows "\<exists>es. list_events s' sid = list_events s sid @ es \<and> (sid \<noteq> er_session_id e \<longrightarrow> es = [])"
proof (cases r)
  case (Inl x)
  with assms have "s' = s" using append_error by blast
  then show ?thesis by simp
next
  case (Inr out)
  show ?thesis
  proof (cases out)
    case (Inserted c)
    with assms Inr show ?thesis
      using append_inserted [OF assms(1), of e c s' sid] by auto
  next
    case (Existing c)
    with assms Inr show ?thesis using append_existing [OF assms(1), of e c s'] by auto
  qed
qed

text \<open>
  Ending a turn is idempotent: once a turn has a terminal event, every attempt to end it
  again, by whoever and with whatever outcome, returns that event or is refused, and the
  history stays as it is.
\<close>

lemma terminal_append_idempotent:
  assumes s: "invar s" and r: "append s e = (r, s')"
    and e: "terminal_turn (er_kind e) = Some t"
    and d: "terminal_events t (list_events s (er_session_id e)) \<noteq> []"
  shows "s' = s \<and> (\<forall>c. r \<noteq> Inr (Inserted c))"
proof -
  have not_inserted: "r \<noteq> Inr (Inserted c)" for c
  proof
    assume "r = Inr (Inserted c)"
    with append_inserted [OF s, of e c s' "er_session_id e"] r
    have "same_content c e"
      and l: "list_events s' (er_session_id e) = list_events s (er_session_id e) @ [c]" by auto
    with e have "terminal_turn (er_kind c) = Some t" by (simp add: same_content_def)
    moreover have "invar s'" using invar_append [OF s, of e] r by simp
    ultimately show False using terminal_once [of s' t "er_session_id e"] l d by simp
  qed
  show ?thesis
  proof (cases r)
    case (Inl x)
    with r append_error show ?thesis by blast
  next
    case (Inr out)
    with r have "append s e = (Inr out, s')" by simp
    then show ?thesis
      by (rule append_ok_cases [OF s]) (use Inr not_inserted in auto)
  qed
qed

end

section \<open>The SQLite table\<close>

record ev_row =
  row_event :: session_event_record
  row_terminal_turn_id :: "rstr option"
  row_terminal_kind :: "rstr option"
  row_compacted_through :: "nat option"

record event_store =
  st_rows :: "ev_row list"
  st_sessions :: "session_id list"

definition sqlite_error :: core_error where
  "sqlite_error = RepositoryErr (lit ''sqlite'')"

fun turn_id_text :: "turn_id \<Rightarrow> rstr" where
  "turn_id_text (TurnId t) = t"

definition terminal_metadata :: "session_event_kind \<Rightarrow> (rstr \<times> rstr) option" where
  "terminal_metadata k =
     (case k of
        TurnCompleted t \<Rightarrow> Some (turn_id_text t, lit ''completed'')
      | TurnAborted t _ \<Rightarrow> Some (turn_id_text t, lit ''aborted'')
      | _ \<Rightarrow> None)"

definition validate_event_metadata ::
    "session_event_record \<Rightarrow> rstr option \<Rightarrow> rstr option \<Rightarrow> core_error + unit" where
  "validate_event_metadata e terminal_turn_id terminal_kind =
     (let bad = RepositoryErr (lit ''durable event terminal metadata is inconsistent'')
      in case terminal_metadata (er_kind e) of
           Some (t, k) \<Rightarrow> require (terminal_turn_id = Some t \<and> terminal_kind = Some k) bad
         | None \<Rightarrow> require (terminal_turn_id = None \<and> terminal_kind = None) bad)"

text \<open>The rows of one session, and the history they list, by ascending sequence.\<close>

definition session_rows :: "event_store \<Rightarrow> session_id \<Rightarrow> ev_row list" where
  "session_rows st sid = filter (\<lambda>r. er_session_id (row_event r) = sid) (st_rows st)"

definition row_sequence :: "ev_row \<Rightarrow> nat" where
  "row_sequence r = unat (er_sequence (row_event r))"

definition list_events_by_session ::
    "event_store \<Rightarrow> session_id \<Rightarrow> session_event_record list" where
  "list_events_by_session st sid =
     map row_event (sort_key row_sequence (session_rows st sid))"

definition list_events_by_session_after ::
    "event_store \<Rightarrow> session_id \<Rightarrow> u64 \<Rightarrow> nat \<Rightarrow> core_error + session_event_record list" where
  "list_events_by_session_after st sid after limit =
     (if 2 ^ 63 \<le> unat after
      then Inl (RepositoryErr (lit ''session event cursor overflow''))
      else if 2 ^ 63 \<le> limit
      then Inl (RepositoryErr (lit ''session event limit overflow''))
      else Inr (take limit (map row_event (sort_key row_sequence
        (filter (\<lambda>r. unat after < row_sequence r) (session_rows st sid))))))"

text \<open>\<open>COALESCE(MAX(sequence), 0)\<close>.\<close>

definition last_event_sequence :: "event_store \<Rightarrow> session_id \<Rightarrow> nat" where
  "last_event_sequence st sid = fold max (map row_sequence (session_rows st sid)) 0"

definition find_by_event_id :: "event_store \<Rightarrow> rstr \<Rightarrow> ev_row option" where
  "find_by_event_id st eid = List.find (\<lambda>r. er_event_id (row_event r) = eid) (st_rows st)"

definition find_terminal_row :: "event_store \<Rightarrow> session_id \<Rightarrow> rstr \<Rightarrow> ev_row option" where
  "find_terminal_row st sid t =
     (case sort_key row_sequence
             (filter (\<lambda>r. row_terminal_turn_id r = Some t) (session_rows st sid)) of
        [] \<Rightarrow> None | r # _ \<Rightarrow> Some r)"

definition insert_event ::
    "event_store \<Rightarrow> session_event_record \<Rightarrow> (core_error + append_event_outcome) \<times> event_store" where
  "insert_event st e =
     (let next_sequence = last_event_sequence st (er_session_id e) + 1;
          canonical = e\<lparr>er_sequence := word_of_nat next_sequence\<rparr>;
          row = \<lparr>row_event = canonical,
                 row_terminal_turn_id = map_option fst (terminal_metadata (er_kind e)),
                 row_terminal_kind = map_option snd (terminal_metadata (er_kind e)),
                 row_compacted_through = None\<rparr>
      in if 2 ^ 63 \<le> next_sequence \<or> er_session_id e \<notin> set (st_sessions st)
         then (Inl sqlite_error, st)
         else (Inr (Inserted canonical), st\<lparr>st_rows := st_rows st @ [row]\<rparr>))"

definition append_event ::
    "(session_event_kind \<Rightarrow> rstr) \<Rightarrow> event_store \<Rightarrow> session_event_record \<Rightarrow>
       (core_error + append_event_outcome) \<times> event_store" where
  "append_event kind_json st e =
     (case find_by_event_id st (er_event_id e) of
        Some r \<Rightarrow>
          (case validate_event_metadata (row_event r)
                  (row_terminal_turn_id r) (row_terminal_kind r) of
             Inl err \<Rightarrow> (Inl err, st)
           | Inr _ \<Rightarrow>
               if er_session_id (row_event r) \<noteq> er_session_id e
                  \<or> er_occurred_at (row_event r) \<noteq> er_occurred_at e
                  \<or> kind_json (er_kind (row_event r)) \<noteq> kind_json (er_kind e)
               then (Inl (RepositoryErr
                       (lit ''event identity conflicts with existing event'')), st)
               else (Inr (Existing (row_event r)), st))
      | None \<Rightarrow>
          (case terminal_metadata (er_kind e) of
             None \<Rightarrow> insert_event st e
           | Some (t, _) \<Rightarrow>
               (case find_terminal_row st (er_session_id e) t of
                  None \<Rightarrow> insert_event st e
                | Some r \<Rightarrow>
                    (case validate_event_metadata (row_event r)
                            (row_terminal_turn_id r) (row_terminal_kind r) of
                       Inl err \<Rightarrow> (Inl err, st)
                     | Inr _ \<Rightarrow> (Inr (Existing (row_event r)), st)))))"

definition delete_events_by_session :: "event_store \<Rightarrow> session_id \<Rightarrow> event_store" where
  "delete_events_by_session st sid =
     st\<lparr>st_rows := filter (\<lambda>r. er_session_id (row_event r) \<noteq> sid) (st_rows st)\<rparr>"

definition find_terminal_event ::
    "event_store \<Rightarrow> session_id \<Rightarrow> turn_id \<Rightarrow> core_error + session_event_record option" where
  "find_terminal_event st sid t =
     (let rows = take 2 (filter (\<lambda>r. row_terminal_turn_id r = Some (turn_id_text t))
                   (session_rows st sid));
          check = (\<lambda>r. validate_event_metadata (row_event r)
                   (row_terminal_turn_id r) (row_terminal_kind r))
      in case rows of
           [] \<Rightarrow> Inr None
         | [r] \<Rightarrow> and_then (check r) (\<lambda>_. Inr (Some (row_event r)))
         | r # r' # _ \<Rightarrow> and_then (check r) (\<lambda>_. and_then (check r') (\<lambda>_.
             Inl (RepositoryErr (lit ''multiple terminal events exist for one turn'')))))"

section \<open>The table invariant\<close>

text \<open>
  The metadata columns repeat the event; the event id is a key; the rows of a session stand
  in ascending sequence; and a turn has at most one terminal row (the unique index).
\<close>

definition row_ok :: "ev_row \<Rightarrow> bool" where
  "row_ok r \<longleftrightarrow>
     row_terminal_turn_id r = map_option fst (terminal_metadata (er_kind (row_event r))) \<and>
     row_terminal_kind r = map_option snd (terminal_metadata (er_kind (row_event r)))"

definition store_ok :: "event_store \<Rightarrow> bool" where
  "store_ok st \<longleftrightarrow>
     (\<forall>r \<in> set (st_rows st). row_ok r) \<and>
     distinct (map (er_event_id \<circ> row_event) (st_rows st)) \<and>
     (\<forall>sid. sorted_wrt (<) (map row_sequence (session_rows st sid))) \<and>
     (\<forall>sid t. length (filter (\<lambda>r. row_terminal_turn_id r = Some t) (session_rows st sid)) \<le> 1)"

lemma store_ok_empty: "store_ok \<lparr>st_rows = [], st_sessions = ss\<rparr>"
  by (simp add: store_ok_def session_rows_def)

lemma turn_id_text_inject [simp]: "turn_id_text t = turn_id_text u \<longleftrightarrow> t = u"
  by (cases t; cases u) simp

lemma terminal_metadata_fst:
  "map_option fst (terminal_metadata k) = map_option turn_id_text (terminal_turn k)"
  by (cases k) (auto simp: terminal_metadata_def terminal_turn_def)

lemma terminal_metadata_None_iff: "terminal_metadata k = None \<longleftrightarrow> terminal_turn k = None"
  by (cases k) (auto simp: terminal_metadata_def terminal_turn_def)

lemma row_ok_terminal:
  "row_ok r \<Longrightarrow> row_terminal_turn_id r = map_option turn_id_text (terminal_turn (er_kind (row_event r)))"
  by (simp add: row_ok_def terminal_metadata_fst)

lemma row_ok_validates:
  "row_ok r \<Longrightarrow>
     validate_event_metadata (row_event r) (row_terminal_turn_id r) (row_terminal_kind r) = Inr ()"
  by (auto simp: row_ok_def validate_event_metadata_def Let_def split: option.splits prod.splits)

lemma fold_max_ge: "(a::nat) \<le> fold max xs a \<and> (\<forall>x \<in> set xs. x \<le> fold max xs a)"
proof (induction xs arbitrary: a)
  case (Cons x xs)
  show ?case using Cons.IH [of "max x a"] by (auto intro: order_trans [of _ "max x a"])
qed simp

lemma row_sequence_le_last:
  "r \<in> set (session_rows st sid) \<Longrightarrow> row_sequence r \<le> last_event_sequence st sid"
  using fold_max_ge [of 0 "map row_sequence (session_rows st sid)"]
  by (auto simp: last_event_sequence_def)

lemma session_rows_simps [simp]:
  "session_rows (st\<lparr>st_rows := rs @ [r]\<rparr>) sid =
     session_rows (st\<lparr>st_rows := rs\<rparr>) sid @
       (if er_session_id (row_event r) = sid then [r] else [])"
  "session_rows (st\<lparr>st_rows := st_rows st\<rparr>) sid = session_rows st sid"
  by (simp_all add: session_rows_def)

lemma store_ok_row: "store_ok st \<Longrightarrow> r \<in> set (st_rows st) \<Longrightarrow> row_ok r"
  and store_ok_sorted: "store_ok st \<Longrightarrow> sorted_wrt (<) (map row_sequence (session_rows st sid))"
  and store_ok_terminal:
    "store_ok st \<Longrightarrow>
       length (filter (\<lambda>r. row_terminal_turn_id r = Some t) (session_rows st sid)) \<le> 1"
  by (simp_all add: store_ok_def)

lemma session_rows_in: "r \<in> set (session_rows st sid) \<Longrightarrow> r \<in> set (st_rows st)"
  by (simp add: session_rows_def)

lemma list_events_ok:
  assumes "store_ok st"
  shows "list_events_by_session st sid = map row_event (session_rows st sid)"
proof -
  have "sorted (map row_sequence (session_rows st sid))"
    using store_ok_sorted [OF assms] by (rule strict_sorted_imp_sorted)
  then show ?thesis by (simp add: list_events_by_session_def sort_key_id_if_sorted)
qed

lemma terminal_events_rows:
  assumes "\<And>r. r \<in> set rs \<Longrightarrow> row_ok r"
  shows "length (terminal_events t (map row_event rs)) =
     length (filter (\<lambda>r. row_terminal_turn_id r = Some (turn_id_text t)) rs)"
proof -
  have "row_terminal_turn_id r = Some (turn_id_text t) \<longleftrightarrow>
      terminal_turn (er_kind (row_event r)) = Some t" if "r \<in> set rs" for r
    using row_ok_terminal [OF assms [OF that]] by auto
  then show ?thesis
    by (simp add: terminal_events_def filter_map comp_def cong: filter_cong)
qed

lemma insert_event_ok_cases:
  assumes "insert_event st e = (Inr out, st')"
  obtains n row where "n = last_event_sequence st (er_session_id e) + 1" "n < 2 ^ 63"
    "row_event row = e\<lparr>er_sequence := word_of_nat n\<rparr>" "row_sequence row = n" "row_ok row"
    "out = Inserted (row_event row)" "st' = st\<lparr>st_rows := st_rows st @ [row]\<rparr>"
    "er_session_id e \<in> set (st_sessions st)"
proof -
  define n where "n = last_event_sequence st (er_session_id e) + 1"
  define row where "row = \<lparr>row_event = e\<lparr>er_sequence := word_of_nat n\<rparr>,
                 row_terminal_turn_id = map_option fst (terminal_metadata (er_kind e)),
                 row_terminal_kind = map_option snd (terminal_metadata (er_kind e)),
                 row_compacted_through = None\<rparr>"
  from assms have n: "n < 2 ^ 63" and o: "out = Inserted (row_event row)"
    and st: "st' = st\<lparr>st_rows := st_rows st @ [row]\<rparr>" "er_session_id e \<in> set (st_sessions st)"
    by (auto simp: insert_event_def Let_def n_def row_def split: if_splits)
  have "n < 2 ^ LENGTH(64)" using n by simp
  then have "row_sequence row = n"
    by (simp add: row_sequence_def row_def unat_of_nat take_bit_nat_eq_self)
  with n o st show ?thesis
    using that [of n row] by (simp add: n_def row_def row_ok_def)
qed

lemma insert_event_store_ok:
  assumes ok: "store_ok st" and ins: "insert_event st e = (Inr out, st')"
    and fresh: "find_by_event_id st (er_event_id e) = None"
    and new: "\<And>t x. terminal_metadata (er_kind e) = Some (t, x) \<Longrightarrow>
       find_terminal_row st (er_session_id e) t = None"
  shows "store_ok st'"
  using ins
proof (rule insert_event_ok_cases)
  fix n row
  assume n: "n = last_event_sequence st (er_session_id e) + 1"
    and row: "row_event row = e\<lparr>er_sequence := word_of_nat n\<rparr>" "row_sequence row = n" "row_ok row"
    and st': "st' = st\<lparr>st_rows := st_rows st @ [row]\<rparr>"
  have sid: "er_session_id (row_event row) = er_session_id e" using row(1) by simp
  have "er_event_id e \<notin> set (map (er_event_id \<circ> row_event) (st_rows st))"
    using fresh by (auto simp: find_by_event_id_def find_None_iff)
  then have ids: "distinct (map (er_event_id \<circ> row_event) (st_rows st'))"
    using ok st' row(1) by (auto simp: store_ok_def)
  have seq: "sorted_wrt (<) (map row_sequence (session_rows st' sid'))" for sid'
    using store_ok_sorted [OF ok, of sid'] row_sequence_le_last [of _ st sid'] n row(2) sid st'
    by (auto simp: sorted_wrt_append less_Suc_eq_le)
  have once: "length (filter (\<lambda>r. row_terminal_turn_id r = Some t) (session_rows st' sid')) \<le> 1"
    for sid' t
  proof (cases "sid' = er_session_id e \<and> row_terminal_turn_id row = Some t")
    case True
    then obtain x where "terminal_metadata (er_kind e) = Some (t, x)"
      using row by (cases "terminal_metadata (er_kind e)") (auto simp: row_ok_def)
    then have "find_terminal_row st (er_session_id e) t = None" by (rule new)
    with True have "find_terminal_row st sid' t = None" by simp
    then have "filter (\<lambda>r. row_terminal_turn_id r = Some t) (session_rows st sid') = []"
      by (simp add: find_terminal_row_def split: list.splits)
        (metis set_empty set_sort)
    with True st' sid show ?thesis by simp
  next
    case False
    with store_ok_terminal [OF ok, of t sid'] st' sid show ?thesis by auto
  qed
  from ids seq once ok row(3) st' show ?thesis by (auto simp: store_ok_def)
qed

lemma append_event_cases:
  assumes "append_event kj st e = (r, st')"
  obtains (refused) x where "r = Inl x" "st' = st"
  | (by_id) row where "r = Inr (Existing (row_event row))" "st' = st"
      "find_by_event_id st (er_event_id e) = Some row"
      "er_session_id (row_event row) = er_session_id e"
  | (by_turn) row t x where "r = Inr (Existing (row_event row))" "st' = st"
      "terminal_metadata (er_kind e) = Some (t, x)"
      "find_terminal_row st (er_session_id e) t = Some row"
  | (inserted) out where "r = Inr out" "insert_event st e = (Inr out, st')"
      "find_by_event_id st (er_event_id e) = None"
      "\<And>t x. terminal_metadata (er_kind e) = Some (t, x) \<Longrightarrow>
         find_terminal_row st (er_session_id e) t = None"
proof -
  have ins: thesis if "insert_event st e = (r, st')"
    "find_by_event_id st (er_event_id e) = None"
    "\<And>t x. terminal_metadata (er_kind e) = Some (t, x) \<Longrightarrow>
         find_terminal_row st (er_session_id e) t = None"
  proof (cases r)
    case (Inl x)
    with that(1) have "st' = st" by (auto simp: insert_event_def Let_def split: if_splits)
    with Inl refused show thesis by blast
  next
    case (Inr out)
    with that inserted show thesis by blast
  qed
  show thesis
  proof (cases "find_by_event_id st (er_event_id e)")
    case (Some row)
    with assms by_id refused show thesis
      by (auto simp: append_event_def split: sum.splits if_splits)
  next
    case None
    note fresh = this
    show thesis
    proof (cases "terminal_metadata (er_kind e)")
      case None
      with assms fresh ins show thesis by (simp add: append_event_def)
    next
      case (Some tx)
      then obtain t x where tx: "terminal_metadata (er_kind e) = Some (t, x)" by (cases tx) auto
      show thesis
      proof (cases "find_terminal_row st (er_session_id e) t")
        case None
        with assms fresh tx ins show thesis by (simp add: append_event_def)
      next
        case (Some row)
        with assms fresh tx by_turn refused show thesis
          by (auto simp: append_event_def split: sum.splits)
      qed
    qed
  qed
qed

lemma append_event_store_ok:
  assumes ok: "store_ok st" and app: "append_event kj st e = (r, st')"
  shows "store_ok st'"
  using app
proof (cases rule: append_event_cases)
  case (inserted out)
  then show ?thesis using insert_event_store_ok [OF ok] by blast
qed (use ok in auto)

section \<open>The table is an event log\<close>

lemma find_by_event_id_in:
  "find_by_event_id st eid = Some r \<Longrightarrow> r \<in> set (st_rows st) \<and> er_event_id (row_event r) = eid"
  by (auto simp: find_by_event_id_def find_Some_iff)

lemma find_terminal_row_in:
  assumes "find_terminal_row st sid t = Some r"
  shows "r \<in> set (session_rows st sid) \<and> row_terminal_turn_id r = Some t"
proof -
  obtain rs where "sort_key row_sequence
      (filter (\<lambda>r. row_terminal_turn_id r = Some t) (session_rows st sid)) = r # rs"
    using assms by (auto simp: find_terminal_row_def split: list.splits)
  then have "r \<in> set (sort_key row_sequence
      (filter (\<lambda>r. row_terminal_turn_id r = Some t) (session_rows st sid)))" by simp
  then show ?thesis by simp
qed

lemma terminal_metadata_Some:
  "terminal_metadata k = Some (s, x) \<Longrightarrow> \<exists>t. terminal_turn k = Some t \<and> s = turn_id_text t"
  by (cases k) (auto simp: terminal_metadata_def)

lemma sqlite_append_inserted:
  assumes ok: "store_ok st" and app: "append_event kj st e = (Inr (Inserted c), st')"
  shows "same_content c e \<and>
     list_events_by_session st' sid =
       list_events_by_session st sid @ (if sid = er_session_id e then [c] else [])"
  using app
proof (cases rule: append_event_cases)
  case (inserted out)
  have ok': "store_ok st'" by (rule append_event_store_ok [OF ok app])
  from inserted(2) show ?thesis
  proof (rule insert_event_ok_cases)
    fix n row
    assume row: "row_event row = e\<lparr>er_sequence := word_of_nat n\<rparr>"
      and out: "out = Inserted (row_event row)"
      and st': "st' = st\<lparr>st_rows := st_rows st @ [row]\<rparr>"
    with inserted(1) have c: "c = row_event row" by simp
    have "list_events_by_session st' sid = map row_event (session_rows st' sid)"
      by (rule list_events_ok [OF ok'])
    with row st' c show ?thesis
      by (simp add: same_content_def list_events_ok [OF ok])
  qed
qed simp_all

lemma sqlite_append_existing:
  assumes ok: "store_ok st" and app: "append_event kj st e = (Inr (Existing c), st')"
  shows "st' = st \<and> c \<in> set (list_events_by_session st (er_session_id e)) \<and>
     (er_event_id c = er_event_id e \<or>
      (\<exists>t. terminal_turn (er_kind e) = Some t \<and> terminal_turn (er_kind c) = Some t))"
  using app
proof (cases rule: append_event_cases)
  case (by_id row)
  from find_by_event_id_in [OF by_id(3)] by_id show ?thesis
    by (auto simp: list_events_ok [OF ok] session_rows_def)
next
  case (by_turn row t x)
  from terminal_metadata_Some [OF by_turn(3)] obtain u
    where u: "terminal_turn (er_kind e) = Some u" "t = turn_id_text u" by blast
  from find_terminal_row_in [OF by_turn(4)]
  have row: "row \<in> set (session_rows st (er_session_id e))" "row_terminal_turn_id row = Some t"
    by auto
  then have "terminal_turn (er_kind (row_event row)) = Some u"
    using row_ok_terminal [OF store_ok_row [OF ok session_rows_in [OF row(1)]]] u by auto
  with row(1) u by_turn show ?thesis by (auto simp: list_events_ok [OF ok])
next
  case (inserted out)
  from inserted(2) show ?thesis
    by (rule insert_event_ok_cases) (use inserted(1) in simp)
qed simp

lemma sqlite_terminal_once:
  assumes ok: "store_ok st"
  shows "length (terminal_events t (list_events_by_session st sid)) \<le> 1"
proof -
  have "length (terminal_events t (map row_event (session_rows st sid))) =
      length (filter (\<lambda>r. row_terminal_turn_id r = Some (turn_id_text t)) (session_rows st sid))"
    by (rule terminal_events_rows) (use ok store_ok_row session_rows_in in blast)
  with store_ok_terminal [OF ok] show ?thesis by (simp add: list_events_ok [OF ok])
qed

interpretation sqlite: event_log "append_event kind_json" list_events_by_session store_ok
  for kind_json
proof unfold_locales
  fix s e x s'
  assume "append_event kind_json s e = (Inl x, s')"
  then show "s' = s"
  proof (cases rule: append_event_cases)
    case (inserted out)
    then show ?thesis by simp
  qed simp_all
next
  fix s e
  assume "store_ok s"
  then show "store_ok (snd (append_event kind_json s e))"
    using append_event_store_ok [of s kind_json e] by (cases "append_event kind_json s e") auto
next
  fix s c sid
  assume "store_ok s" and "c \<in> set (list_events_by_session s sid)"
  then show "er_session_id c = sid"
    by (auto simp: list_events_ok session_rows_def)
qed (simp_all add: sqlite_append_inserted sqlite_append_existing
    sqlite_terminal_once [simplified])

text \<open>Deleting a session's history keeps the invariant and leaves the other histories alone.\<close>

lemma session_rows_delete:
  "session_rows (delete_events_by_session st sid) sid' =
     (if sid' = sid then [] else session_rows st sid')"
  by (auto simp: session_rows_def delete_events_by_session_def intro!: filter_cong)

lemma delete_events_store_ok: "store_ok st \<Longrightarrow> store_ok (delete_events_by_session st sid)"
  by (auto simp: store_ok_def session_rows_delete)
    (auto simp: delete_events_by_session_def distinct_map_filter)

section \<open>A store to evaluate the operations on\<close>

named_theorems store_eval \<open>evaluation of the repository on a concrete table\<close>

definition sample_started :: session_event_record where
  "sample_started =
     \<lparr>er_event_id = [101], er_session_id = SessionId [1], er_sequence = 1, er_occurred_at = [50],
      er_kind = SessionStarted (WorkspaceId [2]) (ProjectId [3]) [4] None None\<rparr>"

definition store_of :: "session_id \<Rightarrow> session_event_record list \<Rightarrow> event_store" where
  "store_of sid h =
     \<lparr>st_rows = map (\<lambda>e. \<lparr>row_event = e,
        row_terminal_turn_id = map_option fst (terminal_metadata (er_kind e)),
        row_terminal_kind = map_option snd (terminal_metadata (er_kind e)),
                 row_compacted_through = None\<rparr>) h,
      st_sessions = [sid]\<rparr>"

definition no_json :: "session_event_kind \<Rightarrow> rstr" where
  "no_json k = []"

declare store_of_def [store_eval] no_json_def [store_eval] sample_started_def [store_eval]
  list_events_by_session_def [store_eval] session_rows_def [store_eval]
  append_event_def [store_eval] find_by_event_id_def [store_eval] find_terminal_row_def [store_eval]
  terminal_metadata_def [store_eval] insert_event_def [store_eval]
  last_event_sequence_def [store_eval] row_sequence_def [store_eval]
  validate_event_metadata_def [store_eval] Let_def [store_eval]

end
