(* ===== verification/Session_Commands.thy ===== *)
theory Session_Commands
  imports Session_Projection Event_Store
begin

text \<open>
  What the application operations on a session share (\<open>crates/dcc-core/src/application\<close>):
  they read the history of the session, build one event on top of it, append it to the
  repository and publish it when, and only when, the repository inserted it.

  Operations of other callers may run between two repository calls of one operation. An
  operation therefore takes the interference as a function \<open>env\<close> on the store, applied where
  the code awaits; \<open>grows\<close> is what all of them respect. The result of an operation is its
  value or error, the store it leaves and the events it handed to the bus, in order. \<open>bus\<close>
  is the answer of the event bus.
\<close>

section \<open>Published events\<close>

text \<open>The variants of \<open>CoreEvent\<close> (\<open>ports/events.rs\<close>) the modelled operations publish.\<close>

datatype (plugins only: code size) core_event =
    PubTurnQueued session_id queued_turn
  | PubQueuedTurnRemoved session_id rstr
  | PubTurnQueueReordered session_id "rstr list"
  | PubQueuedTurnDispatched session_id rstr turn_id
  | PubConversationRewound session_id turn_id "turn_id list" rewind_provider_context "turn_id list"
  | PubTurnAborted session_id turn_id "rstr option"
  | PubTurnSteered session_id turn_id rstr
  | PubSessionAborted session_id "rstr option"
  | PubSessionResumed session_id

type_synonym publication = "session_event_record \<times> core_event"
type_synonym bus = "session_event_record \<Rightarrow> core_event \<Rightarrow> core_error + unit"
type_synonym 's append_fn =
  "'s \<Rightarrow> session_event_record \<Rightarrow> (core_error + append_event_outcome) \<times> 's"
type_synonym 's list_fn = "'s \<Rightarrow> session_id \<Rightarrow> session_event_record list"
type_synonym ('s, 'a) effect = "(core_error + 'a) \<times> 's \<times> publication list"

text \<open>The identifiers and times one operation draws, in the order of the calls.\<close>

record fresh =
  fr_uuid :: rstr
  fr_now :: rstr

section \<open>One event appended and published\<close>

definition next_sequence :: "session_event_record list \<Rightarrow> u64" where
  "next_sequence history = (if history = [] then 1 else er_sequence (last history) + 1)"

definition new_event ::
    "rstr \<Rightarrow> rstr \<Rightarrow> session_id \<Rightarrow> session_event_record list \<Rightarrow> session_event_kind \<Rightarrow>
       session_event_record" where
  "new_event uuid now sid history kind =
     \<lparr>er_event_id = uuid, er_session_id = sid, er_sequence = next_sequence history,
      er_occurred_at = now, er_kind = kind\<rparr>"

lemma new_event_simps [simp]:
  "er_event_id (new_event u now sid h k) = u"
  "er_session_id (new_event u now sid h k) = sid"
  "er_occurred_at (new_event u now sid h k) = now"
  "er_kind (new_event u now sid h k) = k"
  by (simp_all add: new_event_def)

definition publish_if :: "bool \<Rightarrow> bus \<Rightarrow> publication \<Rightarrow> (core_error + unit) \<times> publication list" where
  "publish_if b bus p = (if b then (bus (fst p) (snd p), [p]) else (Inr (), []))"

definition append_and_publish ::
    "('s \<Rightarrow> session_event_record \<Rightarrow> (core_error + append_event_outcome) \<times> 's) \<Rightarrow> bus \<Rightarrow> 's \<Rightarrow>
       session_event_record \<Rightarrow> core_event \<Rightarrow> ('s, session_event_record) effect" where
  "append_and_publish append_ev bus s e pub =
     (case append_ev s e of
        (Inl x, s') \<Rightarrow> (Inl x, s', [])
      | (Inr out, s') \<Rightarrow>
          let c = outcome_event out;
              (published, ps) = publish_if (is_inserted out) bus (c, pub)
          in (and_then published (\<lambda>_. Inr c), s', ps))"

text \<open>An operation with further work on its result.\<close>

definition map_effect :: "('a \<Rightarrow> 'b) \<Rightarrow> ('s, 'a) effect \<Rightarrow> ('s, 'b) effect" where
  "map_effect f x = (case x of (r, s, ps) \<Rightarrow> (map_sum id f r, s, ps))"

lemma map_effect_eq_iff:
  "map_effect f x = (Inr y, s', ps) \<longleftrightarrow> (\<exists>a. x = (Inr a, s', ps) \<and> y = f a)"
  by (cases x; cases "fst x") (auto simp: map_effect_def)

lemma map_effect_snd [simp]: "snd (map_effect f x) = snd x"
  by (cases x) (simp add: map_effect_def)

section \<open>What the operations of a session keep\<close>

text \<open>Interference keeps the repository's invariant and only adds to histories.\<close>

definition grows ::
    "('s \<Rightarrow> session_id \<Rightarrow> session_event_record list) \<Rightarrow> ('s \<Rightarrow> bool) \<Rightarrow> ('s \<Rightarrow> 's) \<Rightarrow> bool" where
  "grows list_ev ok env \<longleftrightarrow> (\<forall>s. ok s \<longrightarrow> ok (env s) \<and>
     (\<forall>sid. \<exists>es. list_ev (env s) sid = list_ev s sid @ es))"

text \<open>An identifier no event of the history carries yet.\<close>

definition unused_id :: "rstr \<Rightarrow> session_event_record list \<Rightarrow> bool" where
  "unused_id u h \<longleftrightarrow> (\<forall>e \<in> set h. er_event_id e \<noteq> u)"

context event_log
begin

lemma grows_id: "grows list_events invar id"
  by (simp add: grows_def)

lemma grows_invar: "grows list_events invar env \<Longrightarrow> invar s \<Longrightarrow> invar (env s)"
  by (simp add: grows_def)

lemma grows_extends: "grows list_events invar env \<Longrightarrow> invar s \<Longrightarrow> \<exists>es. list_events (env s) sid = list_events s sid @ es"
  by (simp add: grows_def)

lemma growsI:
  assumes "\<And>s. invar s \<Longrightarrow> invar (env s)"
    and "\<And>s sid. invar s \<Longrightarrow> \<exists>es. list_events (env s) sid = list_events s sid @ es"
  shows "grows list_events invar env"
  using assms by (simp add: grows_def)

lemma grows_append: "grows list_events invar (\<lambda>s. snd (append s e))"
proof (rule growsI)
  fix s sid
  assume s: "invar s"
  obtain r s' where "append s e = (r, s')" by (cases "append s e")
  with append_extends [OF s this, of sid] invar_append [OF s, of e]
  show "invar (snd (append s e))"
    and "\<exists>es. list_events (snd (append s e)) sid = list_events s sid @ es" by auto
qed

lemma grows_comp:
  assumes "grows list_events invar f" and "grows list_events invar g"
  shows "grows list_events invar (\<lambda>s. g (f s))"
proof (rule growsI)
  fix s sid
  assume s: "invar s"
  then have f: "invar (f s)" by (rule grows_invar [OF assms(1)])
  then show "invar (g (f s))" by (rule grows_invar [OF assms(2)])
  from grows_extends [OF assms(1) s, of sid] grows_extends [OF assms(2) f, of sid]
  show "\<exists>es. list_events (g (f s)) sid = list_events s sid @ es" by auto
qed

lemma append_and_publish_cases:
  assumes inv: "invar s" and eq: "append_and_publish append bus s e pub = (r, s', ps)"
  obtains (refused) x where "r = Inl x" "append s e = (Inl x, s)" "s' = s" "ps = []"
  | (inserted) c where "append s e = (Inr (Inserted c), s')" "same_content c e"
      "list_events s' (er_session_id e) = list_events s (er_session_id e) @ [c]"
      "ps = [(c, pub)]" "r = and_then (bus c pub) (\<lambda>_. Inr c)"
  | (existing) c where "append s e = (Inr (Existing c), s)" "s' = s"
      "c \<in> set (list_events s (er_session_id e))" "ps = []" "r = Inr c"
proof -
  obtain res s1 where app: "append s e = (res, s1)" by (cases "append s e")
  show thesis
  proof (cases res)
    case (Inl x)
    with app have s1: "s1 = s" using append_error by blast
    show thesis
      by (rule refused [of x]) (use app eq Inl s1 in \<open>simp_all add: append_and_publish_def\<close>)
  next
    case (Inr out)
    with app have app': "append s e = (Inr out, s1)" by simp
    show thesis
    proof (cases rule: append_ok_cases [OF inv app'])
      case (1 c)
      show thesis
        by (rule inserted [of c])
          (use 1 app' eq in \<open>simp_all add: append_and_publish_def publish_if_def Let_def\<close>)
    next
      case (2 c)
      show thesis
        by (rule existing [of c])
          (use 2 app' eq in \<open>simp_all add: append_and_publish_def publish_if_def Let_def\<close>)
    qed
  qed
qed

text \<open>An event with a new identifier that ends no turn is inserted, or refused.\<close>

lemma append_and_publish_fresh:
  assumes inv: "invar s" and ok: "append_and_publish append bus s e pub = (Inr c, s', ps)"
    and new: "unused_id (er_event_id e) (list_events s (er_session_id e))"
    and open_ended: "terminal_turn (er_kind e) = None"
  shows "same_content c e" and "invar s'"
    and "list_events s' (er_session_id e) = list_events s (er_session_id e) @ [c]"
    and "ps = [(c, pub)]"
proof -
  from inv ok have "same_content c e \<and> invar s' \<and>
      list_events s' (er_session_id e) = list_events s (er_session_id e) @ [c] \<and> ps = [(c, pub)]"
  proof (cases rule: append_and_publish_cases)
    case (inserted d)
    then have "d = c" by (auto simp: and_then_def split: sum.splits)
    with inserted invar_append [OF inv, of e] show ?thesis by simp
  next
    case (existing d)
    from append_existing [OF inv existing(1)] new open_ended have False
      by (auto simp: unused_id_def)
    then show ?thesis ..
  qed simp
  then show "same_content c e" and "invar s'"
    and "list_events s' (er_session_id e) = list_events s (er_session_id e) @ [c]"
    and "ps = [(c, pub)]" by blast+
qed

text \<open>
  Durable before visible: whatever an operation publishes stands in the history it leaves,
  and what it does not insert it does not publish.
\<close>

lemma append_and_publish_durable:
  assumes "invar s" and "append_and_publish append bus s e pub = (r, s', ps)"
  shows "invar s'" and "ps = [] \<longrightarrow> s' = s"
    and "\<forall>(c, p) \<in> set ps. c \<in> set (list_events s' (er_session_id e)) \<and> er_kind c = er_kind e"
    and "\<exists>es. list_events s' sid = list_events s sid @ es \<and> map fst ps = (if sid = er_session_id e then es else map fst ps)"
proof -
  have s': "s' = snd (append s e)"
    using assms by (cases rule: append_and_publish_cases) simp_all
  then show "invar s'" using invar_append [OF assms(1)] by simp
  show "ps = [] \<longrightarrow> s' = s"
    using assms by (cases rule: append_and_publish_cases) simp_all
  show "\<forall>(c, p) \<in> set ps. c \<in> set (list_events s' (er_session_id e)) \<and> er_kind c = er_kind e"
    using assms by (cases rule: append_and_publish_cases) (simp_all add: same_content_def)
  from assms show "\<exists>es. list_events s' sid = list_events s sid @ es \<and>
      map fst ps = (if sid = er_session_id e then es else map fst ps)"
  proof (cases rule: append_and_publish_cases)
    case (inserted c)
    then show ?thesis using append_inserted [OF assms(1) inserted(1), of sid] by auto
  qed simp_all
qed

end

section \<open>Evaluation\<close>

definition ok_bus :: bus where
  "ok_bus c p = Inr ()"

definition sample_event :: "u64 \<Rightarrow> session_event_kind \<Rightarrow> session_event_record" where
  "sample_event n k =
     \<lparr>er_event_id = [102, unat n], er_session_id = SessionId [1], er_sequence = n,
      er_occurred_at = [50], er_kind = k\<rparr>"

declare sample_event_def [store_eval] ok_bus_def [store_eval] new_event_def [store_eval] next_sequence_def [store_eval]
  publish_if_def [store_eval] append_and_publish_def [store_eval] map_effect_def [store_eval]

end
