(* ===== verification/Turn_Queue.thy ===== *)
theory Turn_Queue
  imports Session_Commands
begin

text \<open>
  The queue of turns a session still has to send (\<open>application/turn_queue.rs\<close>): the queue is
  no state of its own, it is projected from the durable history, and every operation on it
  appends one event. Fresh identifiers (\<open>Uuid::new_v4\<close>) and the clock are arguments.
\<close>

section \<open>The projected queue\<close>

record ('rt, 'route) send_turn_input =
  sti_session_id :: session_id
  sti_prompt :: rstr
  sti_tool_instructions :: "rstr option"
  sti_provider_id :: "rstr option"
  sti_model :: "rstr option"
  sti_provider_runtime :: "'rt option"
  sti_plan_mode :: "bool option"
  sti_effort :: "rstr option"
  sti_fast_mode :: "bool option"
  sti_approval_policy :: "provider_approval_policy option"
  sti_evidence :: "turn_evidence_summary option"
  sti_retry_of_turn_id :: "turn_id option"
  sti_decision_route :: "'route option"

definition queue_step :: "queued_turn list \<Rightarrow> session_event_record \<Rightarrow> queued_turn list" where
  "queue_step queue e =
     (case er_kind e of
        TurnQueued qt \<Rightarrow> queue @ [qt]
      | QueuedTurnRemoved qid \<Rightarrow> filter (\<lambda>t. qt_id t \<noteq> qid) queue
      | QueuedTurnDispatched qid _ \<Rightarrow> filter (\<lambda>t. qt_id t \<noteq> qid) queue
      | TurnQueueReordered ids \<Rightarrow>
          List.map_filter (\<lambda>i. List.find (\<lambda>t. qt_id t = i) queue) ids
      | _ \<Rightarrow> queue)"

definition project_turn_queue :: "session_event_record list \<Rightarrow> queued_turn list" where
  "project_turn_queue history = foldl queue_step [] history"

lemma project_turn_queue_snoc [simp]:
  "project_turn_queue (h @ [e]) = queue_step (project_turn_queue h) e"
  and project_turn_queue_Nil [simp]: "project_turn_queue [] = []"
  by (simp_all add: project_turn_queue_def)

definition enqueues :: "rstr \<Rightarrow> session_event_kind \<Rightarrow> bool" where
  "enqueues qid k \<longleftrightarrow> (case k of TurnQueued qt \<Rightarrow> qt_id qt = qid | _ \<Rightarrow> False)"

definition dequeues :: "rstr \<Rightarrow> session_event_kind \<Rightarrow> bool" where
  "dequeues qid k \<longleftrightarrow>
     (case k of QueuedTurnRemoved i \<Rightarrow> i = qid | QueuedTurnDispatched i _ \<Rightarrow> i = qid
      | TurnQueueReordered ids \<Rightarrow> qid \<notin> set ids | _ \<Rightarrow> False)"

lemma find_id: "List.find (\<lambda>t. qt_id t = i) q = Some t \<Longrightarrow> t \<in> set q \<and> qt_id t = i"
  by (auto simp: find_Some_iff)

lemma find_id_exists: "i \<in> qt_id ` set q \<Longrightarrow> \<exists>t. List.find (\<lambda>t. qt_id t = i) q = Some t"
  by (metis (mono_tags, lifting) find_None_iff imageE not_Some_eq)

lemma ids_found:
  "map qt_id (List.map_filter (\<lambda>i. List.find (\<lambda>t. qt_id t = i) q) ids) =
     filter (\<lambda>i. i \<in> set (map qt_id q)) ids"
proof (induction ids)
  case (Cons i ids)
  show ?case
  proof (cases "i \<in> qt_id ` set q")
    case True
    from find_id_exists [OF this] obtain t where "List.find (\<lambda>t. qt_id t = i) q = Some t" by blast
    with find_id [OF this] True Cons show ?thesis by (auto simp: map_filter_simps)
  next
    case False
    then have "List.find (\<lambda>t. qt_id t = i) q = None" by (auto simp: find_None_iff)
    with False Cons show ?thesis by (simp add: map_filter_simps)
  qed
qed (simp add: map_filter_simps)

lemma turns_found: "set (List.map_filter (\<lambda>i. List.find (\<lambda>t. qt_id t = i) q) ids) \<subseteq> set q"
  using find_id by (fastforce simp: List.map_filter_def)

lemma set_reordered:
  "set (map qt_id (List.map_filter (\<lambda>i. List.find (\<lambda>t. qt_id t = i) q) ids)) =
     set ids \<inter> set (map qt_id q)"
  by (auto simp: ids_found)

lemma ids_reordered:
  "set ids \<subseteq> set (map qt_id q) \<Longrightarrow>
     map qt_id (List.map_filter (\<lambda>i. List.find (\<lambda>t. qt_id t = i) q) ids) = ids"
  by (auto simp: ids_found filter_id_conv)

lemma set_withdrawn:
  "qid \<in> set (map qt_id (filter (\<lambda>t. qt_id t \<noteq> i) q)) \<longleftrightarrow> qid \<in> set (map qt_id q) \<and> qid \<noteq> i"
  by auto

lemma queue_step_ids:
  "qid \<in> set (map qt_id (queue_step q e)) \<longleftrightarrow>
     enqueues qid (er_kind e) \<or> (qid \<in> set (map qt_id q) \<and> \<not> dequeues qid (er_kind e))"
  by (cases "er_kind e")
    (auto simp: queue_step_def enqueues_def dequeues_def set_reordered set_withdrawn simp del: set_map)

text \<open>A turn is in the queue when it was queued and not sent, removed or left out since.\<close>

lemma queued_iff:
  "qid \<in> set (map qt_id (project_turn_queue h)) \<longleftrightarrow>
     (\<exists>h1 e h2. h = h1 @ e # h2 \<and> enqueues qid (er_kind e) \<and>
        (\<forall>x \<in> set h2. \<not> dequeues qid (er_kind x)))"
  by (rule history_since [where f = "\<lambda>h. qid \<in> set (map qt_id (project_turn_queue h))" and
        A = "\<lambda>_ e. enqueues qid (er_kind e)"])
    (simp_all only: project_turn_queue_snoc queue_step_ids project_turn_queue_Nil list.map
      list.set empty_iff not_False_eq_True)

section \<open>The operations\<close>

definition queued_turn_of ::
    "('rt, 'route) send_turn_input \<Rightarrow> rstr \<Rightarrow> rstr \<Rightarrow> queued_turn" where
  "queued_turn_of i uuid now =
     \<lparr>qt_id = uuid, qt_session_id = sti_session_id i, qt_prompt = sti_prompt i,
      qt_tool_instructions = sti_tool_instructions i, qt_plan_mode = sti_plan_mode i,
      qt_effort = sti_effort i, qt_fast_mode = sti_fast_mode i,
      qt_approval_policy = sti_approval_policy i, qt_evidence = sti_evidence i,
      qt_created_at = now\<rparr>"

definition queue_turn ::
    "'s append_fn \<Rightarrow> 's list_fn \<Rightarrow> bus \<Rightarrow> ('s \<Rightarrow> 's) \<Rightarrow> fresh \<Rightarrow> fresh \<Rightarrow> 's \<Rightarrow>
       ('rt, 'route) send_turn_input \<Rightarrow> ('s, queued_turn) effect" where
  "queue_turn append_ev list_ev bus env f g s input =
     (if blank (sti_prompt input)
      then (Inl (InvalidInput (lit ''queued prompt must not be empty'')), s, [])
      else
        let history = list_ev s (sti_session_id input)
        in if history = [] then (Inl (RepositoryErr (lit ''session not found'')), s, [])
           else
             let qt = queued_turn_of input (fr_uuid f) (fr_now f);
                 e = new_event (fr_uuid g) (fr_now g) (qt_session_id qt) history (TurnQueued qt)
             in map_effect (\<lambda>_. qt)
                  (append_and_publish append_ev bus (env s) e
                     (PubTurnQueued (qt_session_id qt) qt)))"

definition list_turn_queue :: "'s list_fn \<Rightarrow> 's \<Rightarrow> session_id \<Rightarrow> queued_turn list" where
  "list_turn_queue list_ev s sid = project_turn_queue (list_ev s sid)"

definition remove_queued_turn ::
    "'s append_fn \<Rightarrow> 's list_fn \<Rightarrow> bus \<Rightarrow> ('s \<Rightarrow> 's) \<Rightarrow> fresh \<Rightarrow> 's \<Rightarrow> session_id \<Rightarrow> rstr \<Rightarrow>
       ('s, queued_turn list) effect" where
  "remove_queued_turn append_ev list_ev bus env f s sid qid =
     (let history = list_ev s sid
      in if \<not> list_ex (\<lambda>t. qt_id t = qid) (project_turn_queue history)
         then (Inl (InvalidInput (lit ''queued turn was not found'')), s, [])
         else
           let e = new_event (fr_uuid f) (fr_now f) sid history (QueuedTurnRemoved qid)
           in map_effect (\<lambda>c. project_turn_queue (history @ [c]))
                (append_and_publish append_ev bus (env s) e (PubQueuedTurnRemoved sid qid)))"

definition reorder_accepted :: "rstr list \<Rightarrow> rstr list \<Rightarrow> bool" where
  "reorder_accepted current requested \<longleftrightarrow> sort current = remdups_adj (sort requested)"

definition reorder_turn_queue ::
    "'s append_fn \<Rightarrow> 's list_fn \<Rightarrow> bus \<Rightarrow> ('s \<Rightarrow> 's) \<Rightarrow> fresh \<Rightarrow> 's \<Rightarrow> session_id \<Rightarrow> rstr list \<Rightarrow>
       ('s, queued_turn list) effect" where
  "reorder_turn_queue append_ev list_ev bus env f s sid ids =
     (let history = list_ev s sid
      in if \<not> reorder_accepted (map qt_id (project_turn_queue history)) ids
         then (Inl (InvalidInput
                 (lit ''queue order must contain every queued turn exactly once'')), s, [])
         else
           let e = new_event (fr_uuid f) (fr_now f) sid history (TurnQueueReordered ids)
           in map_effect (\<lambda>c. project_turn_queue (history @ [c]))
                (append_and_publish append_ev bus (env s) e (PubTurnQueueReordered sid ids)))"

definition mark_queued_turn_dispatched ::
    "'s append_fn \<Rightarrow> 's list_fn \<Rightarrow> bus \<Rightarrow> ('s \<Rightarrow> 's) \<Rightarrow> fresh \<Rightarrow> 's \<Rightarrow> session_id \<Rightarrow> rstr \<Rightarrow>
       turn_id \<Rightarrow> ('s, unit) effect" where
  "mark_queued_turn_dispatched append_ev list_ev bus env f s sid qid t =
     (let history = list_ev s sid;
          e = new_event (fr_uuid f) (fr_now f) sid history (QueuedTurnDispatched qid t)
      in map_effect (\<lambda>_. ())
           (append_and_publish append_ev bus (env s) e (PubQueuedTurnDispatched sid qid t)))"

section \<open>What a reorder request must be\<close>

lemma reorder_accepted_set: "reorder_accepted current requested \<Longrightarrow> set current = set requested"
  unfolding reorder_accepted_def by (metis remdups_adj_set set_sort)

lemma distinct_adj_sorted: "sorted xs \<Longrightarrow> distinct (remdups_adj xs)"
  by (induction xs rule: remdups_adj.induct) (force simp: order_antisym)+

lemma reorder_accepted_iff:
  "reorder_accepted current requested \<longleftrightarrow> distinct current \<and> set current = set requested"
proof
  assume acc: "reorder_accepted current requested"
  then have "distinct (sort current)"
    unfolding reorder_accepted_def by (simp add: distinct_adj_sorted)
  with reorder_accepted_set [OF acc] show "distinct current \<and> set current = set requested" by simp
next
  assume r: "distinct current \<and> set current = set requested"
  have "remdups_adj (sort requested) = sort (remdups_adj (sort requested))"
    by (simp add: sorted_remdups_adj sort_key_id_if_sorted)
  moreover have "distinct (remdups_adj (sort requested))"
    by (simp add: distinct_adj_sorted)
  ultimately show "reorder_accepted current requested"
    unfolding reorder_accepted_def using r
    by (intro sorted_distinct_set_unique) (simp_all add: sorted_remdups_adj)
qed

text \<open>After an accepted request the queue holds the requested ids, in that order.\<close>

lemma reorder_step_ids:
  assumes "reorder_accepted (map qt_id q) ids" and "er_kind c = TurnQueueReordered ids"
  shows "map qt_id (queue_step q c) = ids"
  using assms reorder_accepted_set [OF assms(1)] by (simp add: queue_step_def ids_reordered)

section \<open>The operations over any event log\<close>

lemma queue_step_withdrawn:
  assumes "er_kind c = QueuedTurnRemoved qid \<or> er_kind c = QueuedTurnDispatched qid t"
  shows "queue_step q c = filter (\<lambda>x. qt_id x \<noteq> qid) q"
  using assms by (auto simp: queue_step_def)

lemma queue_step_queued: "er_kind c = TurnQueued qt \<Longrightarrow> queue_step q c = q @ [qt]"
  by (simp add: queue_step_def)

context event_log
begin

lemma queue_turn_appends:
  assumes "invar s" and "grows list_events invar env"
    and ok: "queue_turn append list_events bus env f g s i = (Inr qt, s', ps)"
    and new: "unused_id (fr_uuid g) (list_events (env s) (sti_session_id i))"
  shows "qt = queued_turn_of i (fr_uuid f) (fr_now f) \<and> \<not> blank (sti_prompt i) \<and>
     list_events s (sti_session_id i) \<noteq> [] \<and>
     map snd ps = [PubTurnQueued (sti_session_id i) qt] \<and>
     list_turn_queue list_events s' (sti_session_id i) =
       list_turn_queue list_events (env s) (sti_session_id i) @ [qt]"
proof -
  let ?qt = "queued_turn_of i (fr_uuid f) (fr_now f)"
  let ?e = "new_event (fr_uuid g) (fr_now g) (sti_session_id i)
    (list_events s (sti_session_id i)) (TurnQueued ?qt)"
  have sid: "qt_session_id ?qt = sti_session_id i" by (simp add: queued_turn_of_def)
  from ok sid obtain c where guards: "\<not> blank (sti_prompt i)" "list_events s (sti_session_id i) \<noteq> []"
    and qt: "qt = ?qt"
    and app: "append_and_publish append bus (env s) ?e (PubTurnQueued (sti_session_id i) ?qt)
      = (Inr c, s', ps)"
    by (auto simp: queue_turn_def Let_def map_effect_eq_iff split: if_splits)
  from append_and_publish_fresh [OF grows_invar [OF assms(2,1)] app] new
  have "same_content c ?e" and "ps = [(c, PubTurnQueued (sti_session_id i) ?qt)]"
    and "list_events s' (sti_session_id i) = list_events (env s) (sti_session_id i) @ [c]"
    by (simp_all add: terminal_turn_def)
  with guards qt show ?thesis
    by (simp add: list_turn_queue_def same_content_def queue_step_queued)
qed

lemma remove_queued_turn_appends:
  assumes "invar s" and "grows list_events invar env"
    and ok: "remove_queued_turn append list_events bus env f s sid qid = (Inr q, s', ps)"
    and new: "unused_id (fr_uuid f) (list_events (env s) sid)"
  shows "qid \<in> set (map qt_id (list_turn_queue list_events s sid)) \<and>
     q = filter (\<lambda>t. qt_id t \<noteq> qid) (list_turn_queue list_events s sid) \<and>
     list_turn_queue list_events s' sid =
       filter (\<lambda>t. qt_id t \<noteq> qid) (list_turn_queue list_events (env s) sid)"
proof -
  let ?e = "new_event (fr_uuid f) (fr_now f) sid (list_events s sid) (QueuedTurnRemoved qid)"
  from ok obtain c where found: "qid \<in> set (map qt_id (list_turn_queue list_events s sid))"
    and q: "q = project_turn_queue (list_events s sid @ [c])"
    and app: "append_and_publish append bus (env s) ?e (PubQueuedTurnRemoved sid qid)
      = (Inr c, s', ps)"
    by (auto simp: remove_queued_turn_def list_turn_queue_def Let_def map_effect_eq_iff
        list_ex_iff split: if_splits)
  from append_and_publish_fresh [OF grows_invar [OF assms(2,1)] app] new
  have "same_content c ?e" and "list_events s' sid = list_events (env s) sid @ [c]"
    by (simp_all add: terminal_turn_def)
  with found q show ?thesis
    by (simp add: list_turn_queue_def same_content_def queue_step_withdrawn)
qed

lemma reorder_turn_queue_appends:
  assumes "invar s" and "grows list_events invar env"
    and ok: "reorder_turn_queue append list_events bus env f s sid ids = (Inr q, s', ps)"
    and new: "unused_id (fr_uuid f) (list_events (env s) sid)"
  shows "distinct (map qt_id (list_turn_queue list_events s sid)) \<and>
     set ids = set (map qt_id (list_turn_queue list_events s sid)) \<and>
     map qt_id q = ids \<and> set q \<subseteq> set (list_turn_queue list_events s sid) \<and>
     map snd ps = [PubTurnQueueReordered sid ids] \<and>
     map qt_id (list_turn_queue list_events s' sid) =
       filter (\<lambda>i. i \<in> set (map qt_id (list_turn_queue list_events (env s) sid))) ids \<and>
     set (list_turn_queue list_events s' sid) \<subseteq> set (list_turn_queue list_events (env s) sid)"
proof -
  let ?e = "new_event (fr_uuid f) (fr_now f) sid (list_events s sid) (TurnQueueReordered ids)"
  from ok obtain c where acc: "reorder_accepted (map qt_id (list_turn_queue list_events s sid)) ids"
    and q: "q = project_turn_queue (list_events s sid @ [c])"
    and app: "append_and_publish append bus (env s) ?e (PubTurnQueueReordered sid ids)
      = (Inr c, s', ps)"
    by (auto simp: reorder_turn_queue_def list_turn_queue_def Let_def map_effect_eq_iff
        split: if_splits)
  from append_and_publish_fresh [OF grows_invar [OF assms(2,1)] app] new
  have c: "same_content c ?e" and pub: "ps = [(c, PubTurnQueueReordered sid ids)]"
    and kept: "list_events s' sid = list_events (env s) sid @ [c]"
    by (simp_all add: terminal_turn_def)
  from c have reordered: "queue_step x c = List.map_filter (\<lambda>i. List.find (\<lambda>t. qt_id t = i) x) ids" for x
    by (simp add: queue_step_def same_content_def)
  have durable: "map qt_id (list_turn_queue list_events s' sid) =
        filter (\<lambda>i. i \<in> set (map qt_id (list_turn_queue list_events (env s) sid))) ids \<and>
      set (list_turn_queue list_events s' sid) \<subseteq> set (list_turn_queue list_events (env s) sid)"
    using turns_found by (simp add: list_turn_queue_def kept reordered ids_found del: set_map)
  have "map qt_id q = ids \<and> set q \<subseteq> set (list_turn_queue list_events s sid)"
    using c acc turns_found q
      reorder_step_ids [of "project_turn_queue (list_events s sid)" ids c]
    by (simp add: list_turn_queue_def same_content_def reordered)
  with acc pub durable show ?thesis by (simp add: reorder_accepted_iff)
qed

lemma mark_dispatched_appends:
  assumes "invar s" and "grows list_events invar env"
    and ok: "mark_queued_turn_dispatched append list_events bus env f s sid qid t = (Inr u, s', ps)"
    and new: "unused_id (fr_uuid f) (list_events (env s) sid)"
  shows "map snd ps = [PubQueuedTurnDispatched sid qid t] \<and>
     list_turn_queue list_events s' sid =
       filter (\<lambda>t. qt_id t \<noteq> qid) (list_turn_queue list_events (env s) sid)"
proof -
  let ?e = "new_event (fr_uuid f) (fr_now f) sid (list_events s sid) (QueuedTurnDispatched qid t)"
  from ok obtain c where
    app: "append_and_publish append bus (env s) ?e (PubQueuedTurnDispatched sid qid t)
      = (Inr c, s', ps)"
    by (auto simp: mark_queued_turn_dispatched_def Let_def map_effect_eq_iff)
  from append_and_publish_fresh [OF grows_invar [OF assms(2,1)] app] new
  have "same_content c ?e" and "list_events s' sid = list_events (env s) sid @ [c]"
    and "ps = [(c, PubQueuedTurnDispatched sid qid t)]"
    by (simp_all add: terminal_turn_def)
  then show ?thesis
    by (simp add: list_turn_queue_def same_content_def queue_step_withdrawn [where t = t])
qed

end

section \<open>Properties\<close>

definition sample_input :: "(unit, unit) send_turn_input" where
  "sample_input =
     \<lparr>sti_session_id = SessionId [1], sti_prompt = [104], sti_tool_instructions = None,
      sti_provider_id = None, sti_model = None, sti_provider_runtime = None,
      sti_plan_mode = None, sti_effort = None, sti_fast_mode = None,
      sti_approval_policy = None, sti_evidence = None, sti_retry_of_turn_id = None,
      sti_decision_route = None\<rparr>"

definition sample_queued :: "rstr \<Rightarrow> queued_turn" where
  "sample_queued qid = queued_turn_of sample_input qid [8]"

definition queue_store :: event_store where
  "queue_store = store_of (SessionId [1])
     [sample_started, sample_event 2 (TurnQueued (sample_queued [11])),
      sample_event 3 (TurnQueued (sample_queued [12]))]"

lemmas queue_eval = store_eval queue_store_def sample_event_def sample_queued_def
  sample_input_def queued_turn_of_def project_turn_queue_def queue_step_def list_turn_queue_def
  map_filter_simps

lemma queue_store_ok: "store_ok queue_store"
  by (simp add: store_ok_def row_ok_def queue_store_def sample_event_def store_of_def
      terminal_metadata_def sample_started_def session_rows_def row_sequence_def)

text \<open>
  C1: a turn is in the projected queue exactly when some event put it there and no later
  event sent it, removed it, or reordered the queue without it.
\<close>

theorem queue_holds_pending_turns:
  "qid \<in> set (map qt_id (project_turn_queue h)) \<longleftrightarrow>
     (\<exists>h1 e h2. h = h1 @ e # h2 \<and> enqueues qid (er_kind e) \<and>
        (\<forall>x \<in> set h2. \<not> dequeues qid (er_kind x)))"
  by (rule queued_iff)

lemma queue_holds_pending_turns_witness:
  "\<exists>h1 e h2. list_events_by_session queue_store (SessionId [1]) = h1 @ e # h2 \<and>
     enqueues [11] (er_kind e) \<and> (\<forall>x \<in> set h2. \<not> dequeues [11] (er_kind x))"
  by (rule queue_holds_pending_turns [THEN iffD1]) (simp add: queue_eval)

text \<open>
  a turn that \<open>queue_turn\<close> accepts is not blank, belongs to a session that exists, and
  stands at the end of the durable queue, whatever other callers did between the read and
  the append; exactly that is published.
\<close>

lemma queue_turn_appends_to_queue:
  assumes "store_ok s" and "grows list_events_by_session store_ok env"
    and "queue_turn (append_event kj) list_events_by_session bus env f g s i = (Inr qt, s', ps)"
    and "unused_id (fr_uuid g) (list_events_by_session (env s) (sti_session_id i))"
  shows "qt = queued_turn_of i (fr_uuid f) (fr_now f) \<and> \<not> blank (sti_prompt i) \<and>
     list_events_by_session s (sti_session_id i) \<noteq> [] \<and>
     map snd ps = [PubTurnQueued (sti_session_id i) qt] \<and>
     list_turn_queue list_events_by_session s' (sti_session_id i) =
       list_turn_queue list_events_by_session (env s) (sti_session_id i) @ [qt]"
  using assms by (rule sqlite.queue_turn_appends)

lemma queue_turn_appends_to_queue_witness:
  "map qt_id (list_turn_queue list_events_by_session
     (fst (snd (queue_turn (append_event no_json) list_events_by_session ok_bus id
        \<lparr>fr_uuid = [7], fr_now = [8]\<rparr> \<lparr>fr_uuid = [9], fr_now = [10]\<rparr> queue_store sample_input)))
     (SessionId [1])) = [[11], [12], [7]]"
proof -
  let ?run = "queue_turn (append_event no_json) list_events_by_session ok_bus id
    \<lparr>fr_uuid = [7], fr_now = [8]\<rparr> \<lparr>fr_uuid = [9], fr_now = [10]\<rparr> queue_store sample_input"
  have run: "?run = (Inr (queued_turn_of sample_input [7] [8]), fst (snd ?run), snd (snd ?run))"
    by (simp add: queue_turn_def queue_eval blank_iff is_whitespace_def)
  have "unused_id [9] (list_events_by_session (id queue_store) (SessionId [1]))"
    by (simp add: unused_id_def queue_eval)
  with queue_turn_appends_to_queue [OF queue_store_ok sqlite.grows_id run]
  have "list_turn_queue list_events_by_session (fst (snd ?run)) (SessionId [1]) =
      list_turn_queue list_events_by_session queue_store (SessionId [1]) @
        [queued_turn_of sample_input [7] [8]]"
    by (simp add: sample_input_def)
  then show ?thesis by (simp add: queue_eval)
qed

text \<open>
  Removing a queued turn succeeds only for a turn of the queue, returns the queue the
  caller saw without it, and takes it out of the durable queue.
\<close>

lemma remove_queued_turn_removes:
  assumes "store_ok s" and "grows list_events_by_session store_ok env"
    and "remove_queued_turn (append_event kj) list_events_by_session bus env f s sid qid =
      (Inr q, s', ps)"
    and "unused_id (fr_uuid f) (list_events_by_session (env s) sid)"
  shows "qid \<in> set (map qt_id (list_turn_queue list_events_by_session s sid)) \<and>
     q = filter (\<lambda>t. qt_id t \<noteq> qid) (list_turn_queue list_events_by_session s sid) \<and>
     list_turn_queue list_events_by_session s' sid =
       filter (\<lambda>t. qt_id t \<noteq> qid) (list_turn_queue list_events_by_session (env s) sid)"
  using assms by (rule sqlite.remove_queued_turn_appends)

lemma remove_queued_turn_removes_witness:
  "list_turn_queue list_events_by_session
     (fst (snd (remove_queued_turn (append_event no_json) list_events_by_session ok_bus id
        \<lparr>fr_uuid = [9], fr_now = [10]\<rparr> queue_store (SessionId [1]) [11])))
     (SessionId [1]) = [sample_queued [12]]"
proof -
  let ?run = "remove_queued_turn (append_event no_json) list_events_by_session ok_bus id
    \<lparr>fr_uuid = [9], fr_now = [10]\<rparr> queue_store (SessionId [1]) [11]"
  have run: "?run = (Inr [sample_queued [12]], fst (snd ?run), snd (snd ?run))"
    by (simp add: remove_queued_turn_def queue_eval)
  have "unused_id (fr_uuid \<lparr>fr_uuid = [9], fr_now = [10]\<rparr>)
      (list_events_by_session (id queue_store) (SessionId [1]))"
    by (simp add: unused_id_def queue_eval)
  from remove_queued_turn_removes [OF queue_store_ok sqlite.grows_id run this]
  show ?thesis by (simp add: queue_eval)
qed



text \<open>
  C3: the check of a reorder request lets a request through that repeats a turn, although
  its error message asks for every queued turn exactly once: for every queue that passes the
  check at all and is not empty there is such a request, and after it the queue holds one
  turn more than before.
\<close>

theorem reorder_accepts_repeated_turn:
  assumes "distinct (map qt_id q)" and "q \<noteq> []"
  shows "\<exists>ids. reorder_accepted (map qt_id q) ids \<and> \<not> distinct ids \<and>
     (\<forall>c. er_kind c = TurnQueueReordered ids \<longrightarrow> length (queue_step q c) = length q + 1)"
proof (intro exI conjI allI impI)
  let ?ids = "qt_id (hd q) # map qt_id q"
  have hd: "qt_id (hd q) \<in> qt_id ` set q" using assms(2) by simp
  then show acc: "reorder_accepted (map qt_id q) ?ids"
    using assms by (auto simp: reorder_accepted_iff)
  show "\<not> distinct ?ids" using hd by simp
  fix c :: session_event_record
  assume "er_kind c = TurnQueueReordered ?ids"
  with acc have "map qt_id (queue_step q c) = ?ids" by (rule reorder_step_ids)
  then have "length (map qt_id (queue_step q c)) = length ?ids" by (rule arg_cong)
  then show "length (queue_step q c) = length q + 1" by simp
qed

lemma reorder_accepts_repeated_turn_witness:
  "\<exists>ids. reorder_accepted [[11], [12]] ids \<and> \<not> distinct ids"
  using reorder_accepts_repeated_turn [of "[sample_queued [11], sample_queued [12]]"]
  by (auto simp: sample_queued_def queued_turn_of_def)

end
