(* ===== verification/Conversation_Rewind.thy ===== *)
theory Conversation_Rewind
  imports Turn_Queue
begin

text \<open>
  "Edit from here" (\<open>application/rewind_conversation.rs\<close>): which turns leave the conversation
  when it goes back to just before one of the person's messages, and the event that records
  it. The plan is decided from the durable history alone and decided again at the moment of
  recording.
\<close>

section \<open>The plan\<close>

record rewind_plan =
  rp_anchor_turn_id :: turn_id
  rp_removed_turn_ids :: "turn_id list"
  rp_last_kept_turn_id :: "turn_id option"
  rp_kept_turn_count :: u32
  rp_anchor_prompt :: rstr

datatype rewind_block = AnchorNotFound | TurnRunning | QueuePending

text \<open>The scan keeps the visible turns with their prompts and the turns still open.\<close>

definition rewind_scan_step ::
    "turn_id set \<Rightarrow> (turn_id \<times> rstr) list \<times> turn_id list \<Rightarrow> session_event_record \<Rightarrow>
       (turn_id \<times> rstr) list \<times> turn_id list" where
  "rewind_scan_step rewound acc e =
     (case acc of (visible, open) \<Rightarrow>
       (case er_kind e of
          TurnStarted t prompt _ _ _ _ _ \<Rightarrow>
            if t \<in> rewound then (visible, open) else (visible @ [(t, prompt)], open @ [t])
        | TurnCompleted t \<Rightarrow> (visible, filter (\<lambda>x. x \<noteq> t) open)
        | TurnAborted t _ \<Rightarrow> (visible, filter (\<lambda>x. x \<noteq> t) open)
        | SessionCompleted \<Rightarrow> (visible, [])
        | SessionAborted _ \<Rightarrow> (visible, [])
        | _ \<Rightarrow> (visible, open)))"

definition rewind_scan ::
    "session_event_record list \<Rightarrow> (turn_id \<times> rstr) list \<times> turn_id list" where
  "rewind_scan history = foldl (rewind_scan_step (rewound_turn_ids history)) ([], []) history"

definition plan_conversation_rewind ::
    "session_event_record list \<Rightarrow> turn_id \<Rightarrow> rewind_block + rewind_plan" where
  "plan_conversation_rewind history anchor =
     (let (visible, open) = rewind_scan history
      in case position (\<lambda>(t, _). t = anchor) visible of
           None \<Rightarrow> Inl AnchorNotFound
         | Some i \<Rightarrow>
             if open \<noteq> [] then Inl TurnRunning
             else if project_turn_queue history \<noteq> [] then Inl QueuePending
             else Inr \<lparr>rp_anchor_turn_id = anchor,
                       rp_removed_turn_ids = map fst (drop i visible),
                       rp_last_kept_turn_id = (if i = 0 then None else Some (fst (visible ! (i - 1)))),
                       rp_kept_turn_count = word_of_nat i,
                       rp_anchor_prompt = snd (visible ! i)\<rparr>)"

text \<open>The prompts and turns of the conversation, without the bookkeeping of the scan.\<close>

definition started_turn :: "session_event_kind \<Rightarrow> (turn_id \<times> rstr) option" where
  "started_turn k = (case k of TurnStarted t prompt _ _ _ _ _ \<Rightarrow> Some (t, prompt) | _ \<Rightarrow> None)"

definition visible_turns :: "session_event_record list \<Rightarrow> (turn_id \<times> rstr) list" where
  "visible_turns h = List.map_filter (started_turn \<circ> er_kind) (visible_session_events h)"

lemma map_filter_append [simp]:
  "List.map_filter f (xs @ ys) = List.map_filter f xs @ List.map_filter f ys"
  by (simp add: List.map_filter_def)

lemma started_turn_id: "started_turn k = Some (t, p) \<Longrightarrow> event_turn_id k = Some t"
  by (cases k) (auto simp: started_turn_def)

lemma scan_visible:
  "fst (foldl (rewind_scan_step R) acc h) =
     fst acc @ List.map_filter (started_turn \<circ> er_kind) (filter (in_conversation R) h)"
proof (induction h arbitrary: acc)
  case (Cons e h)
  have "fst (rewind_scan_step R acc e) =
      fst acc @ List.map_filter (started_turn \<circ> er_kind) (filter (in_conversation R) [e])"
    by (cases acc; cases "er_kind e")
      (auto simp: rewind_scan_step_def started_turn_def in_conversation_def map_filter_simps)
  then show ?case using Cons.IH by (simp add: map_filter_simps split: option.splits)
qed (simp add: map_filter_simps)

lemma rewind_scan_visible: "fst (rewind_scan h) = visible_turns h"
  by (simp add: rewind_scan_def scan_visible visible_turns_def visible_eq_filter)

lemma visible_turns_append:
  "rewound_turn_ids (h @ es) = R \<Longrightarrow>
     visible_turns (h @ es) =
       List.map_filter (started_turn \<circ> er_kind) (filter (in_conversation R) h) @
       List.map_filter (started_turn \<circ> er_kind) (filter (in_conversation R) es)"
  by (simp add: visible_turns_def visible_eq_filter)

lemma map_filter_in_conversation:
  "List.map_filter (started_turn \<circ> er_kind) (filter (in_conversation (R \<union> S)) h) =
     filter (\<lambda>(t, _). t \<notin> S)
       (List.map_filter (started_turn \<circ> er_kind) (filter (in_conversation R) h))"
proof (induction h)
  case (Cons e h)
  have step: "List.map_filter (started_turn \<circ> er_kind) (filter (in_conversation (R \<union> S)) [e]) =
      filter (\<lambda>(t, _). t \<notin> S)
        (List.map_filter (started_turn \<circ> er_kind) (filter (in_conversation R) [e]))"
    by (cases "er_kind e")
      (auto simp: started_turn_def in_conversation_def map_filter_simps)
  have split: "List.map_filter f (filter P (e # h)) =
      List.map_filter f (filter P [e]) @ List.map_filter f (filter P h)" for P and f :: "_ \<Rightarrow> 'b option"
    by (simp add: map_filter_simps split: option.splits)
  show ?case unfolding split step Cons.IH filter_append ..
qed (simp add: map_filter_simps)

text \<open>A planned rewind cuts the conversation in two at the anchor.\<close>

lemma plan_cuts:
  assumes "plan_conversation_rewind h anchor = Inr plan"
  obtains i where "i < length (visible_turns h)" "fst (visible_turns h ! i) = anchor"
    "rp_anchor_turn_id plan = anchor"
    "rp_removed_turn_ids plan = map fst (drop i (visible_turns h))"
    "rp_last_kept_turn_id plan =
       (if i = 0 then None else Some (fst (visible_turns h ! (i - 1))))"
    "rp_kept_turn_count plan = word_of_nat i"
    "rp_anchor_prompt plan = snd (visible_turns h ! i)"
    "anchor \<notin> fst ` set (take i (visible_turns h))"
    "snd (rewind_scan h) = []" "project_turn_queue h = []"
proof -
  obtain visible open_turns where scan: "rewind_scan h = (visible, open_turns)"
    by (cases "rewind_scan h")
  with rewind_scan_visible [of h] have v: "visible = visible_turns h" by simp
  from assms scan obtain i where pos: "position (\<lambda>(t, _). t = anchor) visible = Some i"
    by (auto simp: plan_conversation_rewind_def split: option.splits)
  from position_SomeD [OF pos] have "i < length visible" "fst (visible ! i) = anchor"
    "anchor \<notin> fst ` set (take i visible)" by (auto simp: case_prod_unfold)
  with assms scan pos v show thesis
    by (intro that [of i]) (auto simp: plan_conversation_rewind_def split: if_splits)
qed

section \<open>Recording\<close>

definition block_text :: "rewind_block \<Rightarrow> rstr" where
  "block_text b =
     (case b of AnchorNotFound \<Rightarrow> lit ''AnchorNotFound'' | TurnRunning \<Rightarrow> lit ''TurnRunning''
      | QueuePending \<Rightarrow> lit ''QueuePending'')"

definition record_conversation_rewound ::
    "'s append_fn \<Rightarrow> 's list_fn \<Rightarrow> bus \<Rightarrow> ('s \<Rightarrow> 's) \<Rightarrow> fresh \<Rightarrow> 's \<Rightarrow> session_id \<Rightarrow> rewind_plan \<Rightarrow>
       rewind_provider_context \<Rightarrow> turn_id list \<Rightarrow> ('s, session_event_record) effect" where
  "record_conversation_rewound append_ev list_ev bus env f s sid expected ctx restored =
     (let history = list_ev s sid
      in case plan_conversation_rewind history (rp_anchor_turn_id expected) of
           Inl b \<Rightarrow>
             (Inl (InvalidInput (lit ''conversation rewind refused: '' @ block_text b)), s, [])
         | Inr current \<Rightarrow>
             if rp_removed_turn_ids current \<noteq> rp_removed_turn_ids expected
             then (Inl (InvalidInput
                     (lit ''conversation changed while it was being rewound'')), s, [])
             else
               let a = rp_anchor_turn_id current; removed = rp_removed_turn_ids current;
                   e = new_event (fr_uuid f) (fr_now f) sid history
                         (ConversationRewound a removed ctx restored)
               in append_and_publish append_ev bus (env s) e
                    (PubConversationRewound sid a removed ctx restored))"

text \<open>After the event, the removed turns are gone and the others stay as they were.\<close>

lemma visible_turns_rewound:
  assumes "er_kind c = ConversationRewound a removed ctx restored"
  shows "visible_turns (h @ [c]) = filter (\<lambda>(t, _). t \<notin> set removed) (visible_turns h)"
proof -
  have R: "rewound_turn_ids (h @ [c]) = rewound_turn_ids h \<union> set removed"
    using assms by (simp add: rewound_turn_ids_Cons removed_turns_def)
  have "started_turn (er_kind c) = None" using assms by (simp add: started_turn_def)
  then show ?thesis
    using visible_turns_append [OF R] map_filter_in_conversation [of "rewound_turn_ids h" "set removed" h]
    by (simp add: visible_turns_def visible_eq_filter map_filter_simps)
qed

lemma filter_cut:
  assumes "distinct (map fst xs)"
  shows "filter (\<lambda>(t, _). t \<notin> set (map fst (drop i xs))) xs = take i xs"
proof -
  have d: "distinct (map fst (take i xs @ drop i xs))" using assms by simp
  then have "fst ` set (take i xs) \<inter> fst ` set (drop i xs) = {}"
    unfolding map_append distinct_append by simp
  then have "\<forall>x \<in> set (take i xs). fst x \<notin> set (map fst (drop i xs))"
    by (metis disjoint_iff imageI set_map)
  moreover have "\<forall>x \<in> set (drop i xs). \<not> fst x \<notin> set (map fst (drop i xs))" by simp
  ultimately have "filter (\<lambda>x. fst x \<notin> set (map fst (drop i xs))) (take i xs @ drop i xs) = take i xs"
    unfolding filter_append by (simp only: filter_True filter_False append_Nil2)
  then show ?thesis by (simp add: case_prod_unfold)
qed

text \<open>A rewound turn never becomes an anchor again.\<close>

lemma rewound_not_visible: "t \<in> rewound_turn_ids h \<Longrightarrow> t \<notin> fst ` set (visible_turns h)"
  unfolding visible_turns_def visible_eq_filter
  by (auto simp: List.map_filter_def in_conversation_def dest: started_turn_id)

context event_log
begin

lemma record_rewound_appends:
  assumes "invar s" and "grows list_events invar env"
    and ok: "record_conversation_rewound append list_events bus env f s sid plan ctx restored =
      (Inr c, s', ps)"
    and new: "unused_id (fr_uuid f) (list_events (env s) sid)"
  shows "\<exists>current. plan_conversation_rewind (list_events s sid) (rp_anchor_turn_id plan) = Inr current \<and>
     rp_removed_turn_ids current = rp_removed_turn_ids plan \<and>
     er_kind c = ConversationRewound (rp_anchor_turn_id plan) (rp_removed_turn_ids plan) ctx restored \<and>
     list_events s' sid = list_events (env s) sid @ [c] \<and> map fst ps = [c]"
proof -
  let ?h = "list_events s sid"
  obtain current where plan: "plan_conversation_rewind ?h (rp_anchor_turn_id plan) = Inr current"
    using ok by (auto simp: record_conversation_rewound_def Let_def split: sum.splits)
  have anchor: "rp_anchor_turn_id current = rp_anchor_turn_id plan"
    using plan by (rule plan_cuts)
  let ?e = "new_event (fr_uuid f) (fr_now f) sid ?h (ConversationRewound (rp_anchor_turn_id plan)
    (rp_removed_turn_ids plan) ctx restored)"
  from ok plan anchor have removed: "rp_removed_turn_ids current = rp_removed_turn_ids plan"
    and app: "append_and_publish append bus (env s) ?e (PubConversationRewound sid
      (rp_anchor_turn_id plan) (rp_removed_turn_ids plan) ctx restored) = (Inr c, s', ps)"
    by (auto simp: record_conversation_rewound_def Let_def split: if_splits)
  from append_and_publish_fresh [OF grows_invar [OF assms(2,1)] app] new plan removed
  show ?thesis by (auto simp: terminal_turn_def same_content_def)
qed

end

section \<open>Open turns\<close>

text \<open>The events that close the turn \<open>t\<close> for the scan.\<close>

lemma scan_open_step:
  "t \<in> set (snd (rewind_scan_step R acc e)) \<longleftrightarrow>
     (starts_turn t (er_kind e) \<and> t \<notin> R) \<or>
     (t \<in> set (snd acc) \<and> \<not> closes_turn t (er_kind e))"
  by (cases acc; cases "er_kind e")
    (auto simp: rewind_scan_step_def starts_turn_def closes_turn_def terminal_turn_def)

lemma scan_open_iff:
  "t \<in> set (snd (rewind_scan h)) \<longleftrightarrow>
     (\<exists>h1 e h2. h = h1 @ e # h2 \<and> (starts_turn t (er_kind e) \<and> t \<notin> rewound_turn_ids h) \<and>
        (\<forall>x \<in> set h2. \<not> closes_turn t (er_kind x)))"
  unfolding rewind_scan_def
  by (rule history_since [where
        f = "\<lambda>h'. t \<in> set (snd (foldl (rewind_scan_step (rewound_turn_ids h)) ([], []) h'))" and
        A = "\<lambda>_ e. starts_turn t (er_kind e) \<and> t \<notin> rewound_turn_ids h"])
    (simp_all add: scan_open_step)

section \<open>Properties\<close>

definition rewind_started :: "u64 \<Rightarrow> rstr \<Rightarrow> session_event_record" where
  "rewind_started n t = sample_event n (TurnStarted (TurnId t) t None None None None None)"

definition rewind_store :: event_store where
  "rewind_store = store_of (SessionId [1])
     [sample_started, rewind_started 2 [21], sample_event 3 (TurnCompleted (TurnId [21])),
      rewind_started 4 [22], sample_event 5 (TurnCompleted (TurnId [22]))]"

definition rewind_sample_plan :: rewind_plan where
  "rewind_sample_plan =
     \<lparr>rp_anchor_turn_id = TurnId [22], rp_removed_turn_ids = [TurnId [22]],
      rp_last_kept_turn_id = Some (TurnId [21]), rp_kept_turn_count = 1, rp_anchor_prompt = [22]\<rparr>"

lemmas rewind_eval = queue_eval rewind_store_def rewind_started_def rewind_sample_plan_def
  plan_conversation_rewind_def rewind_scan_def rewind_scan_step_def rewound_turn_ids_def
  removed_turns_def

lemma rewind_store_ok: "store_ok rewind_store"
  by (auto simp: store_ok_def row_ok_def rewind_store_def rewind_started_def sample_event_def
      store_of_def terminal_metadata_def sample_started_def session_rows_def row_sequence_def)

lemma rewind_store_plan:
  "plan_conversation_rewind (list_events_by_session rewind_store (SessionId [1])) (TurnId [22]) =
     Inr rewind_sample_plan"
  by (simp add: rewind_eval)

text \<open>
  C4: a planned rewind cuts the visible conversation at the anchor. What is removed is the
  anchor and everything after it, the last kept turn and the count describe what stays, every
  turn of the conversation has ended, and nothing is queued.
\<close>

theorem rewind_plan_cuts_conversation:
  assumes "plan_conversation_rewind h anchor = Inr plan"
  shows "\<exists>kept later. visible_turns h = kept @ (anchor, rp_anchor_prompt plan) # later \<and>
     rp_removed_turn_ids plan = anchor # map fst later \<and> anchor \<notin> fst ` set kept \<and>
     rp_last_kept_turn_id plan = (if kept = [] then None else Some (fst (last kept))) \<and>
     rp_kept_turn_count plan = word_of_nat (length kept) \<and> project_turn_queue h = [] \<and>
     (\<forall>h1 e h2 t. h = h1 @ e # h2 \<and> starts_turn t (er_kind e) \<and> t \<notin> rewound_turn_ids h \<longrightarrow>
        (\<exists>x \<in> set h2. closes_turn t (er_kind x)))"
  using assms
proof (rule plan_cuts)
  fix i
  assume i: "i < length (visible_turns h)" "fst (visible_turns h ! i) = anchor"
    "rp_removed_turn_ids plan = map fst (drop i (visible_turns h))"
    "rp_last_kept_turn_id plan = (if i = 0 then None else Some (fst (visible_turns h ! (i - 1))))"
    "rp_kept_turn_count plan = word_of_nat i"
    "rp_anchor_prompt plan = snd (visible_turns h ! i)"
    "anchor \<notin> fst ` set (take i (visible_turns h))"
    and open_turns: "snd (rewind_scan h) = []" and q: "project_turn_queue h = []"
  let ?kept = "take i (visible_turns h)" and ?later = "drop (Suc i) (visible_turns h)"
  have at: "visible_turns h ! i = (anchor, rp_anchor_prompt plan)"
    using i by (metis prod.collapse)
  have "visible_turns h = ?kept @ (anchor, rp_anchor_prompt plan) # ?later"
    using id_take_nth_drop [OF i(1)] at by simp
  moreover have "rp_removed_turn_ids plan = anchor # map fst ?later"
    using i(1,3) at Cons_nth_drop_Suc [OF i(1)] by (metis fst_conv list.simps(9))
  moreover have "rp_last_kept_turn_id plan = (if ?kept = [] then None else Some (fst (last ?kept)))"
    using i(1,4) by (cases i) (auto simp: last_conv_nth)
  moreover have "rp_kept_turn_count plan = word_of_nat (length ?kept)" using i(1,5) by simp
  moreover have "\<forall>h1 e h2 t. h = h1 @ e # h2 \<and> starts_turn t (er_kind e) \<and> t \<notin> rewound_turn_ids h \<longrightarrow>
        (\<exists>x \<in> set h2. closes_turn t (er_kind x))"
    using open_turns scan_open_iff [of _ h] by (metis empty_iff list.set(1))
  ultimately show ?thesis using i(7) q by blast
qed

lemma rewind_plan_cuts_conversation_witness:
  "\<exists>kept later. visible_turns (list_events_by_session rewind_store (SessionId [1])) =
     kept @ (TurnId [22], [22]) # later \<and> [TurnId [22]] = TurnId [22] # map fst later"
  using rewind_plan_cuts_conversation [OF rewind_store_plan]
  by (simp add: rewind_sample_plan_def) blast

text \<open>
  C5: a recorded rewind is the plan the caller carried out, decided again on the current
  history; it takes exactly those turns out of the conversation. When nothing was appended
  meanwhile and no turn was started twice, the turns before the anchor are what is left.
\<close>

theorem recorded_rewind_removes_planned_turns:
  assumes "store_ok s" and "grows list_events_by_session store_ok env"
    and "record_conversation_rewound (append_event kj) list_events_by_session bus env f s sid
      plan ctx restored = (Inr c, s', ps)"
    and "unused_id (fr_uuid f) (list_events_by_session (env s) sid)"
  shows "\<exists>current i.
     plan_conversation_rewind (list_events_by_session s sid) (rp_anchor_turn_id plan) = Inr current \<and>
     rp_removed_turn_ids current = rp_removed_turn_ids plan \<and>
     visible_turns (list_events_by_session s' sid) =
       filter (\<lambda>(t, _). t \<notin> set (rp_removed_turn_ids plan))
         (visible_turns (list_events_by_session (env s) sid)) \<and>
     rp_kept_turn_count current = word_of_nat i \<and>
     (env s = s \<and> distinct (map fst (visible_turns (list_events_by_session s sid))) \<longrightarrow>
        visible_turns (list_events_by_session s' sid) =
          take i (visible_turns (list_events_by_session s sid)))"
proof -
  from sqlite.record_rewound_appends [OF assms] obtain current where
    plan: "plan_conversation_rewind (list_events_by_session s sid) (rp_anchor_turn_id plan) = Inr current"
    and removed: "rp_removed_turn_ids current = rp_removed_turn_ids plan"
    and c: "er_kind c = ConversationRewound (rp_anchor_turn_id plan) (rp_removed_turn_ids plan) ctx restored"
    and h: "list_events_by_session s' sid = list_events_by_session (env s) sid @ [c]" by blast
  from plan obtain i where
    i: "rp_removed_turn_ids current = map fst (drop i (visible_turns (list_events_by_session s sid)))"
      "rp_kept_turn_count current = word_of_nat i" by (rule plan_cuts)
  have v: "visible_turns (list_events_by_session s' sid) =
       filter (\<lambda>(t, _). t \<notin> set (rp_removed_turn_ids plan))
         (visible_turns (list_events_by_session (env s) sid))"
    unfolding h by (rule visible_turns_rewound [OF c])
  show ?thesis
  proof (intro exI conjI impI)
    assume "env s = s \<and> distinct (map fst (visible_turns (list_events_by_session s sid)))"
    then show "visible_turns (list_events_by_session s' sid) =
        take i (visible_turns (list_events_by_session s sid))"
      using v removed i filter_cut by metis
  qed (fact plan removed v i(2))+
qed

lemma recorded_rewind_removes_planned_turns_witness:
  "map fst (visible_turns (list_events_by_session
     (fst (snd (record_conversation_rewound (append_event no_json) list_events_by_session ok_bus id
        \<lparr>fr_uuid = [9], fr_now = [10]\<rparr> rewind_store (SessionId [1]) rewind_sample_plan
        RewindNative []))) (SessionId [1]))) = [TurnId [21]]"
proof -
  let ?run = "record_conversation_rewound (append_event no_json) list_events_by_session ok_bus id
    \<lparr>fr_uuid = [9], fr_now = [10]\<rparr> rewind_store (SessionId [1]) rewind_sample_plan RewindNative []"
  have "\<exists>c. fst ?run = Inr c"
    by (simp add: record_conversation_rewound_def rewind_eval)
  then obtain c where run: "?run = (Inr c, fst (snd ?run), snd (snd ?run))"
    by (metis prod.collapse)
  have "unused_id (fr_uuid \<lparr>fr_uuid = [9], fr_now = [10]\<rparr>)
      (list_events_by_session (id rewind_store) (SessionId [1]))"
    by (simp add: unused_id_def rewind_eval)
  from recorded_rewind_removes_planned_turns [OF rewind_store_ok sqlite.grows_id run this]
  show ?thesis
    by (auto simp: rewind_eval visible_turns_def visible_eq_filter started_turn_def
        in_conversation_def)
qed

text \<open>
  a turn that was rewound away is never an anchor again, whatever the session does later.
\<close>

lemma rewound_turn_is_no_anchor:
  assumes "t \<in> rewound_turn_ids h"
  shows "plan_conversation_rewind (h @ es) t = Inl AnchorNotFound"
proof -
  have "t \<notin> fst ` set (visible_turns (h @ es))"
    by (rule rewound_not_visible) (simp add: assms)
  then have "position (\<lambda>(x, _). x = t) (fst (rewind_scan (h @ es))) = None"
    unfolding rewind_scan_visible position_None_iff by force
  then show ?thesis by (simp add: plan_conversation_rewind_def case_prod_unfold)
qed

lemma rewound_turn_is_no_anchor_witness:
  "plan_conversation_rewind
     ([rewind_started 1 [21],
       sample_event 2 (ConversationRewound (TurnId [21]) [TurnId [21]] RewindFresh [])] @
      [rewind_started 3 [21]]) (TurnId [21]) = Inl AnchorNotFound"
  by (rule rewound_turn_is_no_anchor) (simp add: rewound_turn_ids_def removed_turns_def sample_event_def)

end
