(* ===== verification/Byte_Encoding.thy ===== *)
theory Byte_Encoding
  imports Rust_Prelude
begin

text \<open>
  The byte encodings the digests are computed over: big-endian integers, length-prefixed
  fields and UTF-8, with the lemmas that make them unambiguous, and the lower-case
  hexadecimal form of a digest. The hash function itself (the \<open>sha2\<close> crate) is an argument
  of the definitions that hash.
\<close>

section \<open>Big-endian integers\<close>

fun be_bytes :: "nat \<Rightarrow> nat \<Rightarrow> bytes" where
  "be_bytes 0 n = []"
| "be_bytes (Suc k) n = be_bytes k (n div 256) @ [word_of_nat n]"

text \<open>\<open>u64::to_be_bytes\<close>.\<close>

definition be64 :: "nat \<Rightarrow> bytes" where
  "be64 n = be_bytes 8 n"

definition from_be :: "bytes \<Rightarrow> nat" where
  "from_be bs = foldl (\<lambda>a b. a * 256 + unat b) 0 bs"

lemma length_be_bytes [simp]: "length (be_bytes k n) = k"
  by (induction k arbitrary: n) auto

lemma length_be64 [simp]: "length (be64 n) = 8"
  by (simp add: be64_def)

lemma unat_u8 [simp]: "unat (word_of_nat n :: u8) = n mod 256"
  by (simp add: unat_of_nat)

lemma from_be_bytes: "from_be (be_bytes k n) = n mod 256 ^ k"
proof (induction k arbitrary: n)
  case (Suc k)
  have "from_be (be_bytes (Suc k) n) = n div 256 mod 256 ^ k * 256 + n mod 256"
    using Suc.IH [of "n div 256"] by (simp add: from_be_def)
  also have "\<dots> = n mod 256 ^ Suc k"
    using mod_mult2_eq [of n 256 "256 ^ k"] by (simp add: mult.commute)
  finally show ?case .
qed (simp add: from_be_def)

lemma be64_inject:
  assumes "m < 2 ^ 64" and "n < 2 ^ 64"
  shows "be64 m = be64 n \<longleftrightarrow> m = n"
proof
  assume "be64 m = be64 n"
  then have "from_be (be64 m) = from_be (be64 n)" by simp
  with assms show "m = n" by (simp add: be64_def from_be_bytes)
qed simp

section \<open>Length-prefixed fields\<close>

definition framed :: "bytes \<Rightarrow> bytes" where
  "framed bs = be64 (length bs) @ bs"

definition fits :: "bytes \<Rightarrow> bool" where
  "fits bs \<longleftrightarrow> length bs < 2 ^ 64"

lemma framed_append_inject:
  assumes "fits a" and "fits b"
  shows "framed a @ x = framed b @ y \<longleftrightarrow> a = b \<and> x = y"
proof
  assume eq: "framed a @ x = framed b @ y"
  then have "take 8 (framed a @ x) = take 8 (framed b @ y)" by simp
  then have "be64 (length a) = be64 (length b)" by (simp add: framed_def)
  with assms have "length a = length b" by (simp add: be64_inject fits_def)
  with eq show "a = b \<and> x = y" by (simp add: framed_def)
qed simp

lemma framed_inject: "fits a \<Longrightarrow> fits b \<Longrightarrow> framed a = framed b \<longleftrightarrow> a = b"
  using framed_append_inject [of a b "[]" "[]"] by simp

section \<open>UTF-8\<close>

definition scalar :: "uchar \<Rightarrow> bool" where
  "scalar c \<longleftrightarrow> c < 1114112 \<and> \<not> (55296 \<le> c \<and> c < 57344)"

definition valid_str :: "rstr \<Rightarrow> bool" where
  "valid_str s \<longleftrightarrow> list_all scalar s"

lemma valid_str_simps [simp]:
  "valid_str []" "valid_str (c # s) \<longleftrightarrow> scalar c \<and> valid_str s"
  "valid_str (s @ t) \<longleftrightarrow> valid_str s \<and> valid_str t"
  by (simp_all add: valid_str_def)

text \<open>The bytes of one character as numbers.\<close>

definition utf8_nats :: "uchar \<Rightarrow> nat list" where
  "utf8_nats c =
     (if c < 128 then [c]
      else if c < 2048 then [192 + c div 64, 128 + c mod 64]
      else if c < 65536 then [224 + c div 4096, 128 + c div 64 mod 64, 128 + c mod 64]
      else [240 + c div 262144, 128 + c div 4096 mod 64, 128 + c div 64 mod 64, 128 + c mod 64])"

lemma byte_small: "n < 256 \<Longrightarrow> unat (word_of_nat n :: u8) = n"
  by simp

lemma utf8_char_nats:
  assumes "scalar c"
  shows "map unat (utf8_char c) = utf8_nats c"
proof -
  have tail: "128 + n mod 64 < 256" for n :: nat
    using mod_less_divisor [of 64 n] by linarith
  have lt: "c < 1114112" using assms by (simp add: scalar_def)
  have l2: "192 + c div 64 < 256" if "c < 2048"
    using div_less_mono [of c 64 32] that by (simp add: less_mult_imp_div_less)
  have l3: "224 + c div 4096 < 256" if "c < 65536"
    using that by (simp add: less_mult_imp_div_less)
  have l4: "240 + c div 262144 < 256"
  proof -
    have "c div 262144 < 16" by (rule less_mult_imp_div_less) (use lt in simp)
    then show ?thesis by simp
  qed
  show ?thesis
    unfolding utf8_char_def utf8_nats_def
    by (simp del: of_nat_add unat_u8 add: byte_small tail l2 l3 l4)
qed

text \<open>The lead byte tells how many bytes follow.\<close>

definition lead_len :: "nat \<Rightarrow> nat" where
  "lead_len b = (if b < 128 then 1 else if b < 224 then 2 else if b < 240 then 3 else 4)"

lemma lead_len_utf8: "lead_len (hd (utf8_nats c)) = utf8_len c"
proof -
  have "c < 2048 \<Longrightarrow> c div 64 < 32" "c < 65536 \<Longrightarrow> c div 4096 < 16"
    by (simp_all add: less_mult_imp_div_less)
  then show ?thesis by (auto simp: lead_len_def utf8_nats_def utf8_len_def)
qed

text \<open>The code point the bytes of one character encode.\<close>

fun scalar_of :: "nat list \<Rightarrow> nat" where
  "scalar_of [a] = a"
| "scalar_of [a, b] = (a - 192) * 64 + (b - 128)"
| "scalar_of [a, b, c] = (a - 224) * 4096 + (b - 128) * 64 + (c - 128)"
| "scalar_of [a, b, c, d] = (a - 240) * 262144 + (b - 128) * 4096 + (c - 128) * 64 + (d - 128)"
| "scalar_of _ = 0"

lemma digits64:
  fixes c :: nat
  shows "c div 64 * 64 + c mod 64 = c"
    and "c div 4096 * 4096 + c div 64 mod 64 * 64 + c mod 64 = c"
    and "c div 262144 * 262144 + c div 4096 mod 64 * 4096 + c div 64 mod 64 * 64 + c mod 64 = c"
proof -
  have a: "c div 64 = c div 4096 * 64 + c div 64 mod 64"
    using div_mult_mod_eq [of "c div 64" 64] by (simp add: div_mult2_eq [symmetric])
  have b: "c div 4096 = c div 262144 * 64 + c div 4096 mod 64"
    using div_mult_mod_eq [of "c div 4096" 64] by (simp add: div_mult2_eq [symmetric])
  show one: "c div 64 * 64 + c mod 64 = c" by simp
  show two: "c div 4096 * 4096 + c div 64 mod 64 * 64 + c mod 64 = c"
    using a one by linarith
  show "c div 262144 * 262144 + c div 4096 mod 64 * 4096 + c div 64 mod 64 * 64 + c mod 64 = c"
    using b two by linarith
qed

lemma scalar_of_utf8: "scalar_of (utf8_nats c) = c"
  using digits64 [of c] by (simp add: utf8_nats_def)

lemma utf8_char_neq_Nil [simp]: "utf8_char c \<noteq> []"
  using length_utf8_char [of c] utf8_len_pos [of c] by (metis list.size(3) less_irrefl)

lemma utf8_char_append_inject:
  assumes "scalar c" and "scalar d" and eq: "utf8_char c @ x = utf8_char d @ y"
  shows "c = d \<and> x = y"
proof -
  have "hd (utf8_char c) = hd (utf8_char d)"
    using eq by (metis hd_append2 utf8_char_neq_Nil)
  then have "hd (utf8_nats c) = hd (utf8_nats d)"
    using assms(1,2) by (metis hd_map utf8_char_nats utf8_char_neq_Nil)
  then have "length (utf8_char c) = length (utf8_char d)"
    by (metis lead_len_utf8 length_utf8_char)
  with eq have "utf8_char c = utf8_char d" and "x = y" by simp_all
  with assms(1,2) show ?thesis by (metis utf8_char_nats scalar_of_utf8)
qed

lemma utf8_Cons [simp]: "utf8 (c # s) = utf8_char c @ utf8 s"
  and utf8_Nil [simp]: "utf8 [] = []"
  and utf8_append [simp]: "utf8 (s @ t) = utf8 s @ utf8 t"
  by (simp_all add: utf8_def)

lemma utf8_inject:
  assumes "valid_str s" and "valid_str t" and "utf8 s = utf8 t"
  shows "s = t"
  using assms
proof (induction s arbitrary: t)
  case Nil
  then show ?case by (cases t) auto
next
  case (Cons c s)
  show ?case
  proof (cases t)
    case Nil
    with Cons.prems show ?thesis by simp
  next
    case (Cons d u)
    with Cons.prems utf8_char_append_inject [of c d "utf8 s" "utf8 u"] Cons.IH [of u]
    show ?thesis by simp
  qed
qed

section \<open>Hexadecimal digests\<close>

definition hex_digit :: "nat \<Rightarrow> uchar" where
  "hex_digit n = (if n < 10 then 48 + n else 87 + n)"

definition hex :: "bytes \<Rightarrow> rstr" where
  "hex bs = concat (map (\<lambda>b. [hex_digit (unat b div 16), hex_digit (unat b mod 16)]) bs)"

lemma hex_digit_inject: "m < 16 \<Longrightarrow> n < 16 \<Longrightarrow> hex_digit m = hex_digit n \<longleftrightarrow> m = n"
  by (auto simp: hex_digit_def)

lemma hex_inject: "hex a = hex b \<longleftrightarrow> a = b"
proof (induction a arbitrary: b)
  case Nil
  then show ?case by (cases b) (auto simp: hex_def)
next
  case (Cons x a)
  show ?case
  proof (cases b)
    case Nil
    then show ?thesis by (simp add: hex_def)
  next
    case b: (Cons y c)
    have "unat x < 256" "unat y < 256" using unat_bound [of x] unat_bound [of y] by auto
    then have "hex_digit (unat x div 16) = hex_digit (unat y div 16) \<and>
        hex_digit (unat x mod 16) = hex_digit (unat y mod 16) \<longleftrightarrow> x = y"
      by (subst (1 2) hex_digit_inject) (auto simp: unat_eq_iff [symmetric], metis div_mult_mod_eq)
    with Cons.IH [of c] b show ?thesis unfolding hex_def by auto
  qed
qed

lemma length_hex [simp]: "length (hex bs) = 2 * length bs"
  by (induction bs) (simp_all add: hex_def)

section \<open>Decoding UTF-8\<close>

text \<open>
  \<open>String::from_utf8\<close>: characters are read from the front, each by the length its lead byte announces,
  and a sequence that is not the one encoding of a scalar value is refused.
\<close>

definition next_char :: "bytes \<Rightarrow> (uchar \<times> bytes) option" where
  "next_char bs =
     (let n = lead_len (unat (hd bs)); c = scalar_of (map unat (take n bs))
      in if scalar c \<and> utf8_char c = take n bs then Some (c, drop n bs) else None)"

lemma next_char_Some:
  "next_char bs = Some (c, rest) \<Longrightarrow> scalar c \<and> bs = utf8_char c @ rest"
  by (auto simp: next_char_def Let_def split: if_splits)

lemma next_char_shorter: "next_char bs = Some (c, rest) \<Longrightarrow> length rest < length bs"
  using next_char_Some [of bs c rest] utf8_len_pos [of c] by (auto simp del: utf8_len_pos)

function from_utf8 :: "bytes \<Rightarrow> rstr option" where
  "from_utf8 [] = Some []"
| "from_utf8 (b # bs) =
     (case next_char (b # bs) of None \<Rightarrow> None
      | Some (c, rest) \<Rightarrow> map_option (\<lambda>s. c # s) (from_utf8 rest))"
  by pat_completeness auto
termination by (relation "measure length") (auto dest!: next_char_shorter simp del: length_append)

lemma next_char_utf8: "scalar c \<Longrightarrow> next_char (utf8_char c @ rest) = Some (c, rest)"
proof -
  assume c: "scalar c"
  have len: "length (utf8_nats c) = utf8_len c" using utf8_char_nats [OF c] length_utf8_char by (metis length_map)
  have "unat (hd (utf8_char c)) = hd (utf8_nats c)"
    using utf8_char_nats [OF c] by (metis hd_map utf8_char_neq_Nil)
  then have n: "lead_len (unat (hd (utf8_char c))) = utf8_len c" by (simp add: lead_len_utf8)
  show ?thesis
    using c utf8_char_nats [OF c] scalar_of_utf8 [of c]
    by (simp add: next_char_def Let_def n)
qed

lemma from_utf8_utf8: "valid_str s \<Longrightarrow> from_utf8 (utf8 s) = Some s"
proof (induction s)
  case (Cons c s)
  then have step: "next_char (utf8_char c @ utf8 s) = Some (c, utf8 s)" by (simp add: next_char_utf8)
  obtain b bs where bs: "utf8_char c @ utf8 s = b # bs" by (cases "utf8_char c") auto
  show ?case using Cons step unfolding utf8_Cons bs by simp
qed simp

lemma from_utf8_Some: "from_utf8 bs = Some s \<Longrightarrow> valid_str s \<and> utf8 s = bs"
proof (induction bs arbitrary: s rule: from_utf8.induct)
  case (2 b bs)
  then obtain c rest u where nc: "next_char (b # bs) = Some (c, rest)" and u: "from_utf8 rest = Some u" "s = c # u"
    by (auto split: option.splits)
  with "2.IH" [OF nc refl u(1)] next_char_Some [OF nc] show ?case by simp
qed simp

end
