(* ===== verification/Session_Lifecycle.thy ===== *)
theory Session_Lifecycle
  imports Session_Commands Byte_Encoding
begin

text \<open>
  The operations that stop, resume and steer a session (\<open>application/abort_run.rs\<close>,
  \<open>resume_session.rs\<close>, \<open>steer_turn.rs\<close>). Besides the history they read and write the session
  row: \<open>sess\<close> maps a session id to its row, and \<open>save\<close> is the answer of the session
  repository when a row is written. The functions \<open>env\<close> are what other callers do to the
  history between two of the operation's own calls.
\<close>

section \<open>Results\<close>

type_synonym 'rt rows = "session_id \<rightharpoonup> 'rt session"
type_synonym 'rt save_fn = "'rt session \<Rightarrow> core_error + unit"

record ('s, 'rt, 'a) outcome =
  oc_result :: "core_error + 'a"
  oc_events :: 's
  oc_rows :: "'rt rows"
  oc_published :: "publication list"

definition refuse :: "core_error \<Rightarrow> 's \<Rightarrow> 'rt rows \<Rightarrow> ('s, 'rt, 'a) outcome" where
  "refuse x s sess =
     \<lparr>oc_result = Inl x, oc_events = s, oc_rows = sess, oc_published = []\<rparr>"

section \<open>Aborting a run\<close>

definition abort_hash_input :: "session_id \<Rightarrow> turn_id \<Rightarrow> bytes" where
  "abort_hash_input sid t =
     (case sid of SessionId s \<Rightarrow> case t of TurnId u \<Rightarrow> framed (utf8 s) @ framed (utf8 u))"

definition session_abort_event_id :: "(bytes \<Rightarrow> bytes) \<Rightarrow> session_id \<Rightarrow> turn_id \<Rightarrow> rstr" where
  "session_abort_event_id sha256 sid t =
     lit ''session-aborted:v1:'' @ hex (sha256 (abort_hash_input sid t))"

definition abort_time :: "session_event_record \<Rightarrow> rstr option" where
  "abort_time e = (case er_kind e of SessionAborted _ \<Rightarrow> Some (er_occurred_at e) | _ \<Rightarrow> None)"

text \<open>The history already ends the session: only a stale row is repaired.\<close>

definition repair_row ::
    "'rt save_fn \<Rightarrow> session_event_record list \<Rightarrow> session_projection \<Rightarrow> 's \<Rightarrow> 'rt rows \<Rightarrow>
       session_id \<Rightarrow> 'rt session \<Rightarrow> ('s, 'rt, 'rt session \<times> session_projection) outcome" where
  "repair_row save history pj s sess sid session =
     (if ss_state session \<noteq> SsAborted
      then
        let aborted = session\<lparr>ss_state := SsAborted\<rparr>;
            row = (case find_map abort_time (rev history) of
                     Some at \<Rightarrow> aborted\<lparr>ss_updated_at := at\<rparr> | None \<Rightarrow> aborted)
        in case save row of
             Inl x \<Rightarrow> refuse x s sess
           | Inr _ \<Rightarrow> \<lparr>oc_result = Inr (row, pj), oc_events = s, oc_rows = sess(sid \<mapsto> row),
                        oc_published = []\<rparr>
      else \<lparr>oc_result = Inr (session, pj), oc_events = s, oc_rows = sess, oc_published = []\<rparr>)"

definition turn_to_abort ::
    "session_event_record list \<Rightarrow> session_projection \<Rightarrow> turn_id option" where
  "turn_to_abort history pj =
     or_opt (pj_active_turn_id pj)
       (if history = [] then None
        else case er_kind (last history) of TurnAborted t _ \<Rightarrow> Some t | _ \<Rightarrow> None)"

text \<open>Both terminal events stand: save the row, publish what this call inserted, replay.\<close>

definition finish_abort ::
    "'rt save_fn \<Rightarrow> bus \<Rightarrow> session_event_record list \<Rightarrow> 's \<Rightarrow> 'rt rows \<Rightarrow> session_id \<Rightarrow>
       'rt session \<Rightarrow> rstr \<Rightarrow> turn_id \<Rightarrow> rstr option \<Rightarrow> append_event_outcome \<Rightarrow>
       append_event_outcome \<Rightarrow> ('s, 'rt, 'rt session \<times> session_projection) outcome" where
  "finish_abort save bus history s sess sid session now t reason turn_out session_out =
     (let row = session\<lparr>ss_state := SsAborted, ss_updated_at := now\<rparr>;
          canonical_turn = outcome_event turn_out;
          canonical_session = outcome_event session_out;
          sess' = sess(sid \<mapsto> row)
      in case save row of
           Inl x \<Rightarrow> refuse x s sess
         | Inr _ \<Rightarrow>
             let (r1, ps1) = publish_if (is_inserted turn_out) bus
                               (canonical_turn, PubTurnAborted sid t reason)
             in case r1 of
                  Inl x \<Rightarrow> \<lparr>oc_result = Inl x, oc_events = s, oc_rows = sess', oc_published = ps1\<rparr>
                | Inr _ \<Rightarrow>
                    let (r2, ps2) = publish_if (is_inserted session_out) bus
                                      (canonical_session, PubSessionAborted sid reason)
                    in \<lparr>oc_result = and_then r2 (\<lambda>_.
                          Inr (row, the (projection_fold
                                 (history @ [canonical_turn, canonical_session])))),
                        oc_events = s, oc_rows = sess', oc_published = ps1 @ ps2\<rparr>)"

text \<open>The session's terminal event is looked up by its stable id before it is appended.\<close>

definition abort_session_event ::
    "'s append_fn \<Rightarrow> 's list_fn \<Rightarrow> ('s \<Rightarrow> 's) \<Rightarrow> ('s \<Rightarrow> 's) \<Rightarrow> 's \<Rightarrow> session_event_record \<Rightarrow>
       (core_error + append_event_outcome) \<times> 's" where
  "abort_session_event append_ev list_ev env2 env3 s1 e =
     (let s2 = env2 s1
      in case List.find (\<lambda>x. er_event_id x = er_event_id e) (list_ev s2 (er_session_id e)) of
           Some existing \<Rightarrow> (Inr (Existing existing), s2)
         | None \<Rightarrow> append_ev (env3 s2) e)"

definition abort_active ::
    "'s append_fn \<Rightarrow> 's list_fn \<Rightarrow> 'rt save_fn \<Rightarrow> bus \<Rightarrow> (bytes \<Rightarrow> bytes) \<Rightarrow> ('s \<Rightarrow> 's) \<Rightarrow>
       ('s \<Rightarrow> 's) \<Rightarrow> ('s \<Rightarrow> 's) \<Rightarrow> rstr \<Rightarrow> rstr \<Rightarrow> 's \<Rightarrow> 'rt rows \<Rightarrow> session_event_record list \<Rightarrow>
       session_id \<Rightarrow> 'rt session \<Rightarrow> turn_id \<Rightarrow> rstr option \<Rightarrow>
       ('s, 'rt, 'rt session \<times> session_projection) outcome" where
  "abort_active append_ev list_ev save bus sha256 env1 env2 env3 uuid now s sess history sid
       session t reason =
     (let turn_aborted = new_event uuid now sid history (TurnAborted t reason)
      in case append_ev (env1 s) turn_aborted of
           (Inl x, s1) \<Rightarrow> refuse x s1 sess
         | (Inr turn_out, s1) \<Rightarrow>
             let canonical_turn = outcome_event turn_out
             in case er_kind canonical_turn of
                  TurnAborted _ canonical_reason \<Rightarrow>
                    let session_aborted =
                          \<lparr>er_event_id = session_abort_event_id sha256 sid t, er_session_id = sid,
                           er_sequence = next_sequence history + 1,
                           er_occurred_at = er_occurred_at canonical_turn,
                           er_kind = SessionAborted canonical_reason\<rparr>
                    in (case abort_session_event append_ev list_ev env2 env3 s1 session_aborted of
                          (Inl x, s3) \<Rightarrow> refuse x s3 sess
                        | (Inr session_out, s3) \<Rightarrow>
                            finish_abort save bus history s3 sess sid session now t
                              canonical_reason turn_out session_out)
                | TurnCompleted _ \<Rightarrow>
                    refuse (if is_inserted turn_out
                            then RepositoryErr (lit ''terminal event is not an abort'')
                            else InvalidInput
                              (lit ''turn already completed; abort is no longer applicable'')) s1 sess
                | _ \<Rightarrow> refuse (RepositoryErr (lit ''terminal event is not an abort'')) s1 sess)"

definition abort_run ::
    "'s append_fn \<Rightarrow> 's list_fn \<Rightarrow> 'rt save_fn \<Rightarrow> bus \<Rightarrow> (bytes \<Rightarrow> bytes) \<Rightarrow> ('s \<Rightarrow> 's) \<Rightarrow>
       ('s \<Rightarrow> 's) \<Rightarrow> ('s \<Rightarrow> 's) \<Rightarrow> rstr \<Rightarrow> rstr \<Rightarrow> 's \<Rightarrow> 'rt rows \<Rightarrow> session_id \<Rightarrow> rstr option \<Rightarrow>
       ('s, 'rt, 'rt session \<times> session_projection) outcome" where
  "abort_run append_ev list_ev save bus sha256 env1 env2 env3 uuid now s sess sid reason =
     (case sess sid of
        None \<Rightarrow> refuse (RepositoryErr (lit ''session not found'')) s sess
      | Some session \<Rightarrow>
          let history = list_ev s sid
          in case projection_fold history of
               None \<Rightarrow> refuse (RepositoryErr (lit ''session history is empty'')) s sess
             | Some pj \<Rightarrow>
                 if pj_state pj = SsAborted then repair_row save history pj s sess sid session
                 else if pj_state pj \<noteq> SsActive
                 then refuse (InvalidInput (lit ''session must be active to abort a run'')) s sess
                 else case turn_to_abort history pj of
                   None \<Rightarrow> refuse (InvalidInput (lit ''session has no active turn to abort'')) s sess
                 | Some t \<Rightarrow>
                     abort_active append_ev list_ev save bus sha256 env1 env2 env3 uuid now s sess
                       history sid session t reason)"

section \<open>Resuming a session\<close>

definition resume_session ::
    "'s append_fn \<Rightarrow> 's list_fn \<Rightarrow> 'rt save_fn \<Rightarrow> bus \<Rightarrow> ('s \<Rightarrow> 's) \<Rightarrow> rstr \<Rightarrow> rstr \<Rightarrow> 's \<Rightarrow>
       'rt rows \<Rightarrow> session_id \<Rightarrow> ('s, 'rt, 'rt session \<times> session_projection) outcome" where
  "resume_session append_ev list_ev save bus env uuid now s sess sid =
     (case sess sid of
        None \<Rightarrow> refuse (RepositoryErr (lit ''session not found'')) s sess
      | Some session \<Rightarrow>
          let history = list_ev s sid
          in case projection_fold history of
               None \<Rightarrow> refuse (RepositoryErr (lit ''session history is empty'')) s sess
             | Some pj \<Rightarrow>
                 if ss_state session = SsActive
                 then \<lparr>oc_result = Inr (session, pj), oc_events = s, oc_rows = sess,
                       oc_published = []\<rparr>
                 else
                   let e = new_event uuid now sid history SessionResumed
                   in case append_ev (env s) e of
                        (Inl x, s1) \<Rightarrow> refuse x s1 sess
                      | (Inr out, s1) \<Rightarrow>
                          let resumed = outcome_event out;
                              row = session\<lparr>ss_state := SsActive, ss_updated_at := now\<rparr>
                          in case save row of
                               Inl x \<Rightarrow> refuse x s1 sess
                             | Inr _ \<Rightarrow>
                                 let (r, ps) = publish_if (is_inserted out) bus
                                                 (resumed, PubSessionResumed sid)
                                 in \<lparr>oc_result = and_then r (\<lambda>_.
                                       Inr (row, the (projection_fold (history @ [resumed])))),
                                     oc_events = s1, oc_rows = sess(sid \<mapsto> row),
                                     oc_published = ps\<rparr>)"

section \<open>Steering a turn\<close>

definition active_turn_for_steer ::
    "'s list_fn \<Rightarrow> 's \<Rightarrow> 'rt rows \<Rightarrow> session_id \<Rightarrow> rstr \<Rightarrow> core_error + ('rt session \<times> turn_id)" where
  "active_turn_for_steer list_ev s sess sid prompt =
     (if blank prompt then Inl (InvalidInput (lit ''steering prompt must not be empty''))
      else
        and_then (ok_or (sess sid) (RepositoryErr (lit ''session not found''))) (\<lambda>session.
        and_then (ok_or (projection_fold (list_ev s sid))
                   (RepositoryErr (lit ''session history is empty''))) (\<lambda>pj.
        and_then (ok_or (pj_active_turn_id pj)
                   (InvalidInput (lit ''session has no active turn to steer''))) (\<lambda>t.
        Inr (session, t)))))"

definition record_turn_steer ::
    "'s append_fn \<Rightarrow> 's list_fn \<Rightarrow> bus \<Rightarrow> ('s \<Rightarrow> 's) \<Rightarrow> rstr \<Rightarrow> rstr \<Rightarrow> 's \<Rightarrow> 'rt rows \<Rightarrow>
       session_id \<Rightarrow> rstr \<Rightarrow> turn_id \<Rightarrow>
       ('s, 'rt session \<times> turn_id \<times> session_projection) effect" where
  "record_turn_steer append_ev list_ev bus env uuid now s sess sid prompt t =
     (case sess sid of
        None \<Rightarrow> (Inl (RepositoryErr (lit ''session not found'')), s, [])
      | Some session \<Rightarrow>
          let history = list_ev s sid;
              e = new_event uuid now sid history (TurnSteered t prompt)
          in map_effect (\<lambda>c. (session, t, the (projection_fold (history @ [c]))))
               (append_and_publish append_ev bus (env s) e (PubTurnSteered sid t prompt)))"

section \<open>What the replay says of a session's state\<close>

lemma apply_event_state_aborted:
  "pj_state (apply_event p e) = SsAborted \<longleftrightarrow>
     (\<exists>r. er_kind e = SessionAborted r) \<or>
     (pj_state p = SsAborted \<and> er_kind e \<noteq> SessionCompleted \<and> er_kind e \<noteq> SessionResumed \<and>
      \<not> is_turn_started (er_kind e) \<and> (\<forall>w p m pr f. er_kind e \<noteq> SessionStarted w p pr m f))"
  by (cases "er_kind e")
    (auto simp: apply_event_def apply_kind_def end_turn_def is_turn_started_def)

lemma seed_not_aborted [simp]: "pj_state (projection_seed e) \<noteq> SsAborted"
  by simp

lemma aborted_has_event:
  "projection_fold h = Some p \<Longrightarrow> pj_state p = SsAborted \<Longrightarrow> \<exists>e \<in> set h. \<exists>r. er_kind e = SessionAborted r"
  by (induction rule: projection_fold_induct) (auto simp: apply_event_state_aborted)

lemma fold_after_abort:
  assumes "er_kind e = SessionAborted r" and "projection_fold (h @ [e]) = Some p"
  shows "pj_state p = SsAborted"
  using assms by (auto simp: projection_fold_snoc apply_event_state_aborted)

text \<open>Only these events take a session out of the aborted state.\<close>

definition overrides_abort :: "session_event_kind \<Rightarrow> bool" where
  "overrides_abort k \<longleftrightarrow>
     (case k of SessionCompleted \<Rightarrow> True | SessionResumed \<Rightarrow> True | SessionStarted _ _ _ _ _ \<Rightarrow> True
      | TurnStarted _ _ _ _ _ _ _ \<Rightarrow> True | _ \<Rightarrow> False)"

definition folds_aborted :: "session_event_record list \<Rightarrow> bool" where
  "folds_aborted h \<longleftrightarrow> map_option pj_state (projection_fold h) = Some SsAborted"

lemma folds_aborted_snoc:
  "(\<exists>r. er_kind e = SessionAborted r) \<or> (folds_aborted h \<and> \<not> overrides_abort (er_kind e)) \<Longrightarrow>
     folds_aborted (h @ [e])"
  by (cases "er_kind e")
    (auto simp: folds_aborted_def overrides_abort_def projection_fold_snoc
      apply_event_state_aborted is_turn_started_def split: option.splits)

lemma folds_aborted_append:
  assumes "folds_aborted h" and "\<forall>x \<in> set es. \<not> overrides_abort (er_kind x)"
  shows "folds_aborted (h @ es)"
  using assms(2)
proof (induction es rule: rev_induct)
  case (snoc x es)
  then have "folds_aborted (h @ es)" and "\<not> overrides_abort (er_kind x)" by simp_all
  then have "folds_aborted ((h @ es) @ [x])" by (intro folds_aborted_snoc) simp
  then show ?case by simp
qed (simp add: assms(1))

text \<open>
  A history that has aborted the session since \<open>h0\<close>: it says so itself, or a later event
  started the session again or completed it.
\<close>

definition aborted_since :: "session_event_record list \<Rightarrow> session_event_record list \<Rightarrow> bool" where
  "aborted_since h0 h \<longleftrightarrow> folds_aborted h \<or>
     (\<exists>es1 e es2 x. h = h0 @ es1 @ e # es2 \<and> (\<exists>r. er_kind e = SessionAborted r) \<and>
        x \<in> set es2 \<and> overrides_abort (er_kind x))"

lemma aborted_sinceI:
  assumes "h = h0 @ es" and "e \<in> set es" and "er_kind e = SessionAborted r"
  shows "aborted_since h0 h"
proof -
  from assms(2) obtain es1 es2 where es: "es = es1 @ e # es2" by (auto simp: in_set_conv_decomp)
  have "folds_aborted ((h0 @ es1) @ [e])" using assms(3) by (intro folds_aborted_snoc) simp
  then have "folds_aborted (((h0 @ es1) @ [e]) @ es2)"
    if "\<forall>x \<in> set es2. \<not> overrides_abort (er_kind x)"
    using that by (rule folds_aborted_append)
  moreover have "h = ((h0 @ es1) @ [e]) @ es2" "h = h0 @ es1 @ e # es2"
    using assms(1) es by simp_all
  ultimately show ?thesis unfolding aborted_since_def using assms(3) by metis
qed

lemma fold_after_resume:
  assumes "er_kind e = SessionResumed" and "projection_fold (h @ [e]) = Some p"
  shows "pj_state p = SsActive"
  using assms by (auto simp: projection_fold_snoc apply_event_def apply_kind_def)

lemma fold_snoc_the: "\<exists>p. projection_fold (h @ [e]) = Some p \<and> the (projection_fold (h @ [e])) = p"
  by (simp add: projection_fold_snoc)

section \<open>Aborting over any event log\<close>

text \<open>Only events that end a session carry the stable identifiers.\<close>

definition abort_ids_reserved ::
    "(bytes \<Rightarrow> bytes) \<Rightarrow> session_id \<Rightarrow> session_event_record list \<Rightarrow> bool" where
  "abort_ids_reserved sha256 sid h \<longleftrightarrow>
     (\<forall>x \<in> set h. \<forall>t. er_event_id x = session_abort_event_id sha256 sid t \<longrightarrow>
        (\<exists>r. er_kind x = SessionAborted r))"

text \<open>The stable identifier of the turn an abort would end is not taken yet.\<close>

definition abort_id_new ::
    "(bytes \<Rightarrow> bytes) \<Rightarrow> session_id \<Rightarrow> session_event_record list \<Rightarrow> bool" where
  "abort_id_new sha256 sid h \<longleftrightarrow>
     (case projection_fold h of None \<Rightarrow> True
      | Some p \<Rightarrow> (case turn_to_abort h p of None \<Rightarrow> True
                   | Some t \<Rightarrow> unused_id (session_abort_event_id sha256 sid t) h))"

lemma refuse_simps [simp]:
  "oc_result (refuse x s sess) = Inl x" "oc_events (refuse x s sess) = s"
  "oc_rows (refuse x s sess) = sess" "oc_published (refuse x s sess) = []"
  by (simp_all add: refuse_def)

lemma finish_abort_ok:
  assumes "oc_result (finish_abort save bus h s sess sid session now t r to so) = Inr (row, pj)"
  shows "row = session\<lparr>ss_state := SsAborted, ss_updated_at := now\<rparr>"
    and "pj = the (projection_fold (h @ [outcome_event to, outcome_event so]))"
    and "oc_rows (finish_abort save bus h s sess sid session now t r to so) = sess(sid \<mapsto> row)"
    and "oc_published (finish_abort save bus h s sess sid session now t r to so) =
      (if is_inserted to then [(outcome_event to, PubTurnAborted sid t r)] else []) @
      (if is_inserted so then [(outcome_event so, PubSessionAborted sid r)] else [])"
  using assms
  by (auto simp: finish_abort_def Let_def publish_if_def and_then_Inr_iff
      split: sum.splits if_splits prod.splits)

lemma finish_abort_events [simp]:
  "oc_events (finish_abort save bus h s sess sid session now t r to so) = s"
  by (simp add: finish_abort_def Let_def publish_if_def split: sum.splits prod.splits)

lemma repair_row_ok:
  assumes "oc_result (repair_row save h pj s sess sid session) = Inr (row, pj')"
    and "sess sid = Some session"
  shows "oc_events (repair_row save h pj s sess sid session) = s"
    and "oc_published (repair_row save h pj s sess sid session) = []"
    and "oc_rows (repair_row save h pj s sess sid session) sid = Some row"
    and "ss_state row = SsAborted" and "pj' = pj"
  using assms
  by (cases "find_map abort_time (rev h)";
      auto simp: repair_row_def Let_def split: if_splits sum.splits)+

lemma abort_run_cases:
  assumes "oc_result (abort_run append_ev list_ev save bus sha256 env1 env2 env3 uuid now s sess
      sid reason) = Inr (row, pj)"
  obtains (stands) session where "sess sid = Some session"
      "projection_fold (list_ev s sid) = Some pj" "pj_state pj = SsAborted"
      "abort_run append_ev list_ev save bus sha256 env1 env2 env3 uuid now s sess sid reason =
        repair_row save (list_ev s sid) pj s sess sid session"
  | (active) session p t where "sess sid = Some session"
      "projection_fold (list_ev s sid) = Some p" "pj_state p = SsActive"
      "turn_to_abort (list_ev s sid) p = Some t"
      "abort_run append_ev list_ev save bus sha256 env1 env2 env3 uuid now s sess sid reason =
        abort_active append_ev list_ev save bus sha256 env1 env2 env3 uuid now s sess
          (list_ev s sid) sid session t reason"
proof -
  let ?h = "list_ev s sid"
  obtain session p where s: "sess sid = Some session" and p: "projection_fold ?h = Some p"
    using assms by (auto simp: abort_run_def Let_def split: option.splits)
  show thesis
  proof (cases "pj_state p = SsAborted")
    case True
    with s p have run: "abort_run append_ev list_ev save bus sha256 env1 env2 env3 uuid now s sess
        sid reason = repair_row save ?h p s sess sid session"
      by (simp add: abort_run_def Let_def)
    with assms have "pj = p" by (auto simp: repair_row_def Let_def split: if_splits sum.splits)
    with s p True run stands show thesis by blast
  next
    case False
    with assms s p obtain t where "pj_state p = SsActive" "turn_to_abort ?h p = Some t"
      by (auto simp: abort_run_def Let_def split: if_splits option.splits)
    with s p show thesis by (intro active [of session p t]) (simp_all add: abort_run_def Let_def)
  qed
qed

lemma terminal_turn_none: "terminal_turn (SessionAborted r) = None"
  by (simp add: terminal_turn_def)

context event_log
begin

text \<open>What appending the turn's abort event can answer.\<close>

lemma append_turn_abort:
  assumes inv: "invar s" and app: "append s e = (Inr out, s')"
    and e: "er_kind e = TurnAborted t r" and new: "unused_id (er_event_id e) (list_events s (er_session_id e))"
  shows "terminal_turn (er_kind (outcome_event out)) = Some t"
    and "outcome_event out \<in> set (list_events s' (er_session_id e))"
    and "list_events s' (er_session_id e) = list_events s (er_session_id e) @
      (if is_inserted out then [outcome_event out] else [])"
    and "is_inserted out \<Longrightarrow> er_kind (outcome_event out) = TurnAborted t r"
proof -
  let ?goal = "terminal_turn (er_kind (outcome_event out)) = Some t \<and>
    outcome_event out \<in> set (list_events s' (er_session_id e)) \<and>
    list_events s' (er_session_id e) = list_events s (er_session_id e) @
      (if is_inserted out then [outcome_event out] else []) \<and>
    (is_inserted out \<longrightarrow> er_kind (outcome_event out) = TurnAborted t r)"
  from inv app have ?goal
  proof (cases rule: append_ok_cases)
    case (inserted c)
    then show ?goal using e by (simp add: same_content_def)
  next
    case (existing c)
    with app have "append s e = (Inr (Existing c), s')" by simp
    from append_existing [OF inv this] e new existing
    show ?goal by (auto simp: unused_id_def)
  qed
  then show "terminal_turn (er_kind (outcome_event out)) = Some t"
    and "outcome_event out \<in> set (list_events s' (er_session_id e))"
    and "list_events s' (er_session_id e) = list_events s (er_session_id e) @
      (if is_inserted out then [outcome_event out] else [])"
    and "is_inserted out \<Longrightarrow> er_kind (outcome_event out) = TurnAborted t r" by blast+
qed

lemma abort_session_event_ok:
  assumes inv: "invar s1" and g: "grows list_events invar env2" "grows list_events invar env3"
    and ok: "abort_session_event append list_events env2 env3 s1 e = (Inr out, s3)"
    and e: "terminal_turn (er_kind e) = None"
  shows "invar s3" and "er_event_id (outcome_event out) = er_event_id e"
    and "outcome_event out \<in> set (list_events s3 (er_session_id e))"
    and "\<exists>es. list_events s3 (er_session_id e) = list_events s1 (er_session_id e) @ es \<and>
      (is_inserted out \<longrightarrow> outcome_event out \<in> set es)"
    and "is_inserted out \<Longrightarrow> er_kind (outcome_event out) = er_kind e \<and>
      list_events s3 (er_session_id e) =
        list_events (env3 (env2 s1)) (er_session_id e) @ [outcome_event out]"
    and "\<not> is_inserted out \<Longrightarrow> \<not> unused_id (er_event_id e) (list_events s3 (er_session_id e))"
proof -
  let ?sid = "er_session_id e"
  have i2: "invar (env2 s1)" and i3: "invar (env3 (env2 s1))"
    using inv g by (simp_all add: grows_invar)
  obtain es2 where es2: "list_events (env2 s1) ?sid = list_events s1 ?sid @ es2"
    using grows_extends [OF g(1) inv, of ?sid] by blast
  obtain es3 where es3: "list_events (env3 (env2 s1)) ?sid = list_events (env2 s1) ?sid @ es3"
    using grows_extends [OF g(2) i2, of ?sid] by blast
  let ?goal = "invar s3 \<and> er_event_id (outcome_event out) = er_event_id e \<and>
    outcome_event out \<in> set (list_events s3 ?sid) \<and>
    (\<exists>es. list_events s3 ?sid = list_events s1 ?sid @ es \<and>
      (is_inserted out \<longrightarrow> outcome_event out \<in> set es)) \<and>
    (is_inserted out \<longrightarrow> er_kind (outcome_event out) = er_kind e \<and>
      list_events s3 ?sid = list_events (env3 (env2 s1)) ?sid @ [outcome_event out]) \<and>
    (\<not> is_inserted out \<longrightarrow> \<not> unused_id (er_event_id e) (list_events s3 ?sid))"
  have ?goal
  proof (cases "List.find (\<lambda>x. er_event_id x = er_event_id e) (list_events (env2 s1) ?sid)")
    case (Some c)
    then have c: "c \<in> set (list_events (env2 s1) ?sid)" "er_event_id c = er_event_id e"
      by (auto simp: find_Some_iff)
    from Some ok have "out = Existing c" "s3 = env2 s1"
      by (simp_all add: abort_session_event_def Let_def)
    with c es2 i2 show ?goal by (auto simp: unused_id_def)
  next
    case None
    with ok have app: "append (env3 (env2 s1)) e = (Inr out, s3)"
      by (simp add: abort_session_event_def Let_def)
    have i: "invar s3" using invar_append [OF i3, of e] app by simp
    from i3 app show ?goal
    proof (cases rule: append_ok_cases)
      case (inserted c)
      with i es2 es3 show ?goal by (simp add: same_content_def)
    next
      case (existing c)
      with app have "append (env3 (env2 s1)) e = (Inr (Existing c), s3)" by simp
      from append_existing [OF i3 this] e existing i es2 es3
      show ?goal by (auto simp: unused_id_def)
    qed
  qed
  then show "invar s3" and "er_event_id (outcome_event out) = er_event_id e"
    and "outcome_event out \<in> set (list_events s3 ?sid)"
    and "\<exists>es. list_events s3 ?sid = list_events s1 ?sid @ es \<and>
      (is_inserted out \<longrightarrow> outcome_event out \<in> set es)"
    and "is_inserted out \<Longrightarrow> er_kind (outcome_event out) = er_kind e \<and>
      list_events s3 ?sid = list_events (env3 (env2 s1)) ?sid @ [outcome_event out]"
    and "\<not> is_inserted out \<Longrightarrow> \<not> unused_id (er_event_id e) (list_events s3 ?sid)"
    by blast+
qed

lemma abort_active_ok:
  assumes inv: "invar s"
    and g: "grows list_events invar env1" "grows list_events invar env2" "grows list_events invar env3"
    and new: "unused_id uuid (list_events (env1 s) sid)"
    and ok: "oc_result (abort_active append list_events save bus sha256 env1 env2 env3 uuid now s sess
      h sid session t reason) = Inr (row, pj)" (is "oc_result ?run = _")
  obtains turn_out session_out r s1 where
    "list_events s1 sid = list_events (env1 s) sid @
      (if is_inserted turn_out then [outcome_event turn_out] else [])"
    "er_kind (outcome_event turn_out) = TurnAborted t r"
    "outcome_event turn_out \<in> set (list_events s1 sid)"
    "\<exists>es. list_events (oc_events ?run) sid = list_events s1 sid @ es \<and>
      (is_inserted session_out \<longrightarrow> outcome_event session_out \<in> set es)"
    "invar (oc_events ?run)"
    "er_event_id (outcome_event session_out) = session_abort_event_id sha256 sid t"
    "outcome_event session_out \<in> set (list_events (oc_events ?run) sid)"
    "is_inserted session_out \<Longrightarrow> er_kind (outcome_event session_out) = SessionAborted r \<and>
       list_events (oc_events ?run) sid =
         list_events (env3 (env2 s1)) sid @ [outcome_event session_out]"
    "\<not> is_inserted session_out \<Longrightarrow>
       \<not> unused_id (session_abort_event_id sha256 sid t) (list_events (oc_events ?run) sid)"
    "?run = finish_abort save bus h (oc_events ?run) sess sid session now t r turn_out session_out"
proof -
  let ?e = "new_event uuid now sid h (TurnAborted t reason)"
  have i1: "invar (env1 s)" using inv g by (simp add: grows_invar)
  obtain turn_out s1 where app: "append (env1 s) ?e = (Inr turn_out, s1)"
    using ok by (cases "append (env1 s) ?e"; cases "fst (append (env1 s) ?e)")
      (auto simp: abort_active_def)
  have k: "er_kind ?e = TurnAborted t reason"
    and new': "unused_id (er_event_id ?e) (list_events (env1 s) (er_session_id ?e))"
    using new by simp_all
  note turn = append_turn_abort [OF i1 app k new', simplified]
  have inv1: "invar s1" using invar_append [OF i1, of ?e] app by simp
  obtain u r where kind: "er_kind (outcome_event turn_out) = TurnAborted u r"
    using turn(1) ok app by (auto simp: terminal_turn_Some_iff abort_active_def)
  with turn(1) have u: "u = t" by simp
  let ?f = "\<lparr>er_event_id = session_abort_event_id sha256 sid t, er_session_id = sid,
    er_sequence = next_sequence h + 1, er_occurred_at = er_occurred_at (outcome_event turn_out),
    er_kind = SessionAborted r\<rparr>"
  obtain session_out s3 where
    sapp: "abort_session_event append list_events env2 env3 s1 ?f = (Inr session_out, s3)"
    using ok app kind
    by (cases "abort_session_event append list_events env2 env3 s1 ?f";
        cases "fst (abort_session_event append list_events env2 env3 s1 ?f)")
      (auto simp: abort_active_def)
  have run: "?run = finish_abort save bus h s3 sess sid session now t r turn_out session_out"
    using app kind sapp by (simp add: abort_active_def Let_def)
  then have s3: "oc_events ?run = s3" by simp
  have "terminal_turn (er_kind ?f) = None" by (simp add: terminal_turn_none)
  note sess_ok = abort_session_event_ok [OF inv1 g(2,3) sapp this, simplified]
  show thesis
    by (rule that [of s1 turn_out r session_out])
      (use turn kind u run s3 sess_ok in \<open>simp_all\<close>)
qed

lemma abort_run_ok_aux:
  assumes inv: "invar s"
    and g: "grows list_events invar env1" "grows list_events invar env2" "grows list_events invar env3"
    and new: "unused_id uuid (list_events (env1 s) sid)"
    and run0: "abort_run append list_events save bus sha256 env1 env2 env3 uuid now s sess
      sid reason = run"
    and ok: "oc_result run = Inr (row, pj)"
    and res: "abort_ids_reserved sha256 sid (list_events (oc_events run) sid)"
  shows "ss_state row = SsAborted \<and> pj_state pj = SsAborted \<and> oc_rows run sid = Some row \<and>
     invar (oc_events run) \<and>
     (\<exists>e \<in> set (list_events (oc_events run) sid). \<exists>r. er_kind e = SessionAborted r) \<and>
     (abort_id_new sha256 sid (list_events s sid) \<longrightarrow>
        aborted_since (list_events s sid) (list_events (oc_events run) sid)) \<and>
     (\<exists>es. list_events (oc_events run) sid = list_events s sid @ es \<and>
        set (map fst (oc_published run)) \<subseteq> set es) \<and>
     (map_option pj_state (projection_fold (list_events s sid)) = Some SsAborted \<longrightarrow>
        oc_events run = s \<and> oc_published run = [])"
proof -
  from ok run0 have "oc_result (abort_run append list_events save bus sha256 env1 env2 env3 uuid now
      s sess sid reason) = Inr (row, pj)" by simp
  then show ?thesis
  proof (cases rule: abort_run_cases)
    case (stands session)
    note stands = stands [unfolded run0]
    from ok have "oc_result (repair_row save (list_events s sid) pj s sess sid session) = Inr (row, pj)"
      by (simp add: stands(4))
    note rep = repair_row_ok [OF this stands(1), folded stands(4)]
    with stands(1-3) inv rep aborted_has_event show ?thesis
      by (auto simp: aborted_since_def folds_aborted_def)
  next
    case (active session p t)
    from ok active run0 have ok': "oc_result (abort_active append list_events save bus sha256 env1 env2 env3
        uuid now s sess (list_events s sid) sid session t reason) = Inr (row, pj)" by simp
    from active(5) run0 have runA: "abort_active append list_events save bus sha256 env1 env2 env3
        uuid now s sess (list_events s sid) sid session t reason = run" by simp
    show ?thesis
    proof (rule abort_active_ok [OF inv g new ok', unfolded runA])
      fix turn_out session_out r s1
      assume l1: "list_events s1 sid = list_events (env1 s) sid @
          (if is_inserted turn_out then [outcome_event turn_out] else [])"
        and l3: "\<exists>es. list_events (oc_events run) sid = list_events s1 sid @ es \<and>
          (is_inserted session_out \<longrightarrow> outcome_event session_out \<in> set es)"
        and inv3: "invar (oc_events run)"
        and sid3: "er_event_id (outcome_event session_out) = session_abort_event_id sha256 sid t"
        and in3: "outcome_event session_out \<in> set (list_events (oc_events run) sid)"
        and run: "run = finish_abort save bus (list_events s sid) (oc_events run) sess sid session
          now t r turn_out session_out"
      obtain es0 where es0: "list_events (env1 s) sid = list_events s sid @ es0"
        using grows_extends [OF g(1) inv] by blast
      from l3 obtain es where es: "list_events (oc_events run) sid = list_events s1 sid @ es"
        "is_inserted session_out \<longrightarrow> outcome_event session_out \<in> set es" by blast
      from ok run have okf: "oc_result (finish_abort save bus (list_events s sid) (oc_events run) sess
          sid session now t r turn_out session_out) = Inr (row, pj)" by simp
      note fin = finish_abort_ok [OF okf, folded run]
      obtain rs where kind: "er_kind (outcome_event session_out) = SessionAborted rs"
        using res sid3 in3 by (auto simp: abort_ids_reserved_def)
      have "projection_fold ((list_events s sid @ [outcome_event turn_out]) @ [outcome_event session_out])
          = Some pj"
        using fin(2) fold_snoc_the [of "list_events s sid @ [outcome_event turn_out]"
            "outcome_event session_out"] by auto
      then have "pj_state pj = SsAborted" by (rule fold_after_abort [OF kind])
      moreover have "list_events (oc_events run) sid = list_events s sid @
          (es0 @ (if is_inserted turn_out then [outcome_event turn_out] else []) @ es)"
        using es l1 es0 by simp
      moreover have "abort_id_new sha256 sid (list_events s sid) \<Longrightarrow>
          aborted_since (list_events s sid) (list_events (oc_events run) sid)"
      proof -
        assume "abort_id_new sha256 sid (list_events s sid)"
        then have "unused_id (session_abort_event_id sha256 sid t) (list_events s sid)"
          using active by (simp add: abort_id_new_def)
        then have "outcome_event session_out \<notin> set (list_events s sid)"
          using sid3 by (auto simp: unused_id_def)
        moreover have ext: "list_events (oc_events run) sid = list_events s sid @
            (es0 @ (if is_inserted turn_out then [outcome_event turn_out] else []) @ es)"
          using es l1 es0 by simp
        ultimately have "outcome_event session_out \<in>
            set (es0 @ (if is_inserted turn_out then [outcome_event turn_out] else []) @ es)"
          using in3 by auto
        with ext show ?thesis using kind by (rule aborted_sinceI)
      qed
      moreover have "set (map fst (oc_published run)) \<subseteq>
          set (es0 @ (if is_inserted turn_out then [outcome_event turn_out] else []) @ es)"
        using fin(4) es(2) by auto
      ultimately show ?thesis using fin(1,3) inv3 in3 kind active(2,3) by auto
    qed
  qed
qed

text \<open>A turn that has already completed stays completed.\<close>

lemma abort_after_completion:
  assumes inv: "invar s" and g: "grows list_events invar env1"
    and sess: "sess sid = Some session"
    and fold: "projection_fold (list_events s sid) = Some p" "pj_state p = SsActive"
    and t: "turn_to_abort (list_events s sid) p = Some t"
    and completed: "c \<in> set (list_events (env1 s) sid)" "er_kind c = TurnCompleted t"
    and new: "unused_id uuid (list_events (env1 s) sid)"
  shows "\<exists>x. abort_run append list_events save bus sha256 env1 env2 env3 uuid now s sess sid reason =
     refuse x (env1 s) sess"
proof -
  let ?h = "list_events s sid"
  let ?e = "new_event uuid now sid ?h (TurnAborted t reason)"
  have i1: "invar (env1 s)" using inv g by (simp add: grows_invar)
  obtain r s1 where app: "append (env1 s) ?e = (r, s1)" by (cases "append (env1 s) ?e")
  have c: "c \<in> set (terminal_events t (list_events (env1 s) sid))"
    using completed by (simp add: terminal_events_def)
  then have "terminal_events t (list_events (env1 s) (er_session_id ?e)) \<noteq> []" by auto
  with terminal_append_idempotent [OF i1 app] have s1: "s1 = env1 s" and ni: "\<forall>d. r \<noteq> Inr (Inserted d)"
    by auto
  have "\<exists>x. abort_active append list_events save bus sha256 env1 env2 env3 uuid now s sess ?h sid
      session t reason = refuse x (env1 s) sess"
  proof (cases r)
    case (Inl x)
    then show ?thesis using app s1 by (auto simp: abort_active_def Let_def)
  next
    case (Inr out)
    with ni obtain d where d: "out = Existing d" by (cases out) auto
    with app Inr have appd: "append (env1 s) ?e = (Inr (Existing d), s1)" by simp
    from append_existing [OF i1 appd] new
    have d_in: "d \<in> set (terminal_events t (list_events (env1 s) sid))"
      by (auto simp: unused_id_def terminal_events_def)
    have "length (terminal_events t (list_events (env1 s) sid)) \<le> 1" by (rule terminal_once [OF i1])
    with c d_in have "d = c" by (cases "terminal_events t (list_events (env1 s) sid)") auto
    with appd s1 completed show ?thesis by (auto simp: abort_active_def Let_def)
  qed
  with sess fold t show ?thesis by (simp add: abort_run_def Let_def)
qed

text \<open>Resuming.\<close>

lemma resume_session_ok:
  assumes inv: "invar s" and g: "grows list_events invar env"
    and new: "unused_id uuid (list_events (env s) sid)"
    and run0: "resume_session append list_events save bus env uuid now s sess sid = run"
    and ok: "oc_result run = Inr (row, pj)"
  shows "ss_state row = SsActive \<and> oc_rows run sid = Some row \<and>
     (if map_option ss_state (sess sid) = Some SsActive
      then oc_events run = s \<and> oc_published run = []
      else pj_state pj = SsActive \<and> (\<exists>c. er_kind c = SessionResumed \<and>
        list_events (oc_events run) sid = list_events (env s) sid @ [c] \<and>
        oc_published run = [(c, PubSessionResumed sid)]))"
proof -
  let ?h = "list_events s sid"
  obtain session p where s: "sess sid = Some session" and p: "projection_fold ?h = Some p"
    using run0 ok by (auto simp: resume_session_def Let_def split: option.splits)
  show ?thesis
  proof (cases "ss_state session = SsActive")
    case True
    with s p run0 ok show ?thesis by (auto simp: resume_session_def Let_def)
  next
    case False
    let ?e = "new_event uuid now sid ?h SessionResumed"
    have i: "invar (env s)" using inv g by (simp add: grows_invar)
    obtain out s1 where app: "append (env s) ?e = (Inr out, s1)"
      using run0 ok s p False
      by (cases "append (env s) ?e"; cases "fst (append (env s) ?e)")
        (auto simp: resume_session_def Let_def)
    from i app show ?thesis
    proof (cases rule: append_ok_cases)
      case (inserted c)
      obtain q where q: "projection_fold (?h @ [c]) = Some q"
        using fold_snoc_the by blast
      have "er_kind c = SessionResumed" using inserted by (simp add: same_content_def)
      with q fold_after_resume have "pj_state q = SsActive" by blast
      with q s p False app inserted run0 ok show ?thesis
        by (auto simp: resume_session_def Let_def publish_if_def same_content_def and_then_Inr_iff
            split: sum.splits)
    next
      case (existing c)
      with app have "append (env s) ?e = (Inr (Existing c), s1)" by simp
      from append_existing [OF i this] new have False
        by (auto simp: unused_id_def terminal_turn_def)
      then show ?thesis ..
    qed
  qed
qed

text \<open>Steering.\<close>

lemma record_turn_steer_ok:
  assumes inv: "invar s" and g: "grows list_events invar env"
    and new: "unused_id uuid (list_events (env s) sid)"
    and ok: "record_turn_steer append list_events bus env uuid now s sess sid prompt t =
      (Inr (session, t', pj), s', ps)"
  shows "t' = t \<and> sess sid = Some session \<and> pj_active_turn_id pj = active_turn (list_events s sid) \<and>
     map snd ps = [PubTurnSteered sid t prompt] \<and>
     (\<exists>c. er_kind c = TurnSteered t prompt \<and> list_events s' sid = list_events (env s) sid @ [c])"
proof -
  let ?h = "list_events s sid"
  let ?e = "new_event uuid now sid ?h (TurnSteered t prompt)"
  from ok obtain c where s: "sess sid = Some session" "t' = t"
    and pj: "pj = the (projection_fold (?h @ [c]))"
    and app: "append_and_publish append bus (env s) ?e (PubTurnSteered sid t prompt) = (Inr c, s', ps)"
    by (auto simp: record_turn_steer_def Let_def map_effect_eq_iff split: option.splits)
  from append_and_publish_fresh [OF grows_invar [OF g inv] app] new
  have c: "same_content c ?e" and l: "list_events s' sid = list_events (env s) sid @ [c]"
    and ps: "ps = [(c, PubTurnSteered sid t prompt)]"
    by (simp_all add: terminal_turn_def)
  have "projection_fold (?h @ [c]) = Some pj" using pj fold_snoc_the [of ?h c] by auto
  then have "pj_active_turn_id pj = active_turn (?h @ [c])" by (rule projection_fold_active)
  with c have "pj_active_turn_id pj = active_turn ?h"
    by (simp add: next_active_def same_content_def)
  with s c l ps show ?thesis by (auto simp: same_content_def)
qed

end

lemma active_turn_for_steer_ok:
  assumes "active_turn_for_steer list_ev s sess sid prompt = Inr (session, t)"
  shows "\<not> blank prompt \<and> sess sid = Some session \<and> active_turn (list_ev s sid) = Some t"
  using assms projection_fold_active
  by (auto simp: active_turn_for_steer_def and_then_Inr_iff split: if_splits)

section \<open>Properties\<close>

definition running_store :: event_store where
  "running_store = store_of (SessionId [1])
     [sample_started, sample_event 2 (TurnStarted (TurnId [21]) [104] None None None None None)]"

definition running_session :: "session_state \<Rightarrow> unit session" where
  "running_session state =
     \<lparr>ss_id = SessionId [1], ss_project_id = ProjectId [3], ss_workspace_id = WorkspaceId [2],
      ss_additional_workspace_ids = [], ss_provider_id = [4], ss_model = None,
      ss_provider_runtime = None, ss_working_directory_override = None, ss_state = state,
      ss_created_at = [50], ss_updated_at = [50]\<rparr>"

definition saves :: "unit session \<Rightarrow> core_error + unit" where
  "saves row = Inr ()"

lemmas run_eval = store_eval running_store_def saves_def projection_fold_def
  projection_seed_def projection_new_def apply_event_def apply_kind_def end_turn_def

lemma running_store_ok: "store_ok running_store"
  by (auto simp: store_ok_def row_ok_def running_store_def sample_event_def
      store_of_def terminal_metadata_def sample_started_def session_rows_def row_sequence_def)

lemma abort_id_neq [simp]:
  "length u < 19 \<Longrightarrow> session_abort_event_id sha256 sid t \<noteq> u"
  "length u < 19 \<Longrightarrow> u \<noteq> session_abort_event_id sha256 sid t"
  by (auto simp: session_abort_event_id_def)

text \<open>
  C6: whenever \<open>abort_run\<close> succeeds, under any interference of other callers, the session
  ends aborted: the saved row and the returned projection say so, and so does the replay of
  the durable history the call leaves, unless another caller has resumed, restarted or
  completed the session after the abort event of this call. This needs the stable identifier
  of the turn to abort to be new to the history: the code takes any event of that identifier
  for its own. Everything the call published was appended since it started, and a session
  whose history already says aborted is neither appended to nor published again.
\<close>

theorem abort_run_aborts:
  assumes "store_ok s"
    and "grows list_events_by_session store_ok env1" "grows list_events_by_session store_ok env2"
      "grows list_events_by_session store_ok env3"
    and "unused_id uuid (list_events_by_session (env1 s) sid)"
    and "abort_run (append_event kj) list_events_by_session save bus sha256 env1 env2 env3 uuid now s
      sess sid reason = run"
    and "oc_result run = Inr (row, pj)"
    and "abort_ids_reserved sha256 sid (list_events_by_session (oc_events run) sid)"
  shows "ss_state row = SsAborted \<and> pj_state pj = SsAborted \<and> oc_rows run sid = Some row \<and>
     store_ok (oc_events run) \<and>
     (\<exists>e \<in> set (list_events_by_session (oc_events run) sid). \<exists>r. er_kind e = SessionAborted r) \<and>
     (abort_id_new sha256 sid (list_events_by_session s sid) \<longrightarrow>
        aborted_since (list_events_by_session s sid)
          (list_events_by_session (oc_events run) sid)) \<and>
     (\<exists>es. list_events_by_session (oc_events run) sid = list_events_by_session s sid @ es \<and>
        set (map fst (oc_published run)) \<subseteq> set es) \<and>
     (map_option pj_state (projection_fold (list_events_by_session s sid)) = Some SsAborted \<longrightarrow>
        oc_events run = s \<and> oc_published run = [])"
  using assms by (rule sqlite.abort_run_ok_aux)

definition sample_abort :: "(event_store, unit, unit session \<times> session_projection) outcome" where
  "sample_abort = abort_run (append_event no_json) list_events_by_session saves ok_bus id id id id
     [9] [60] running_store [SessionId [1] \<mapsto> running_session SsActive] (SessionId [1]) None"

lemma sample_abort_events:
  "map er_kind (list_events_by_session (oc_events sample_abort) (SessionId [1])) =
     [SessionStarted (WorkspaceId [2]) (ProjectId [3]) [4] None None,
      TurnStarted (TurnId [21]) [104] None None None None None,
      TurnAborted (TurnId [21]) None, SessionAborted None] \<and>
   (\<exists>row pj. oc_result sample_abort = Inr (row, pj)) \<and>
   map er_event_id (list_events_by_session (oc_events sample_abort) (SessionId [1])) =
     [[101], [102, 2], [9], session_abort_event_id id (SessionId [1]) (TurnId [21])]"
  by (simp add: sample_abort_def abort_run_def run_eval turn_to_abort_def abort_active_def
      abort_session_event_def finish_abort_def refuse_def)

lemma abort_run_aborts_witness:
  "\<exists>row pj. oc_result sample_abort = Inr (row, pj) \<and> ss_state row = SsAborted \<and>
     pj_state pj = SsAborted \<and>
     folds_aborted (list_events_by_session (oc_events sample_abort) (SessionId [1]))"
proof -
  from sample_abort_events obtain row pj where ok: "oc_result sample_abort = Inr (row, pj)" by blast
  have new: "abort_id_new id (SessionId [1]) (list_events_by_session running_store (SessionId [1]))"
    by (simp add: abort_id_new_def unused_id_def run_eval turn_to_abort_def)
  let ?start = "list_events_by_session running_store (SessionId [1])"
  let ?h = "list_events_by_session (oc_events sample_abort) (SessionId [1])"
  have late: "\<forall>e es2. map er_kind ?h = map er_kind h1 @ er_kind e # map er_kind es2 \<longrightarrow>
      (\<exists>r. er_kind e = SessionAborted r) \<longrightarrow> es2 = []" for h1 :: "session_event_record list"
    using sample_abort_events by (auto simp: Cons_eq_append_conv)
  have "unused_id [9] (list_events_by_session (id running_store) (SessionId [1]))"
    by (simp add: unused_id_def run_eval)
  moreover have "abort_ids_reserved id (SessionId [1])
      (list_events_by_session (oc_events sample_abort) (SessionId [1]))"
  proof -
    have "(er_event_id x, er_kind x) \<in> set (zip
        (map er_event_id (list_events_by_session (oc_events sample_abort) (SessionId [1])))
        (map er_kind (list_events_by_session (oc_events sample_abort) (SessionId [1]))))"
      if "x \<in> set (list_events_by_session (oc_events sample_abort) (SessionId [1]))" for x
      using that by (auto simp: zip_map_map zip_same_conv_map)
    then show ?thesis
      unfolding abort_ids_reserved_def using sample_abort_events
      by fastforce
  qed
  ultimately have "ss_state row = SsAborted \<and> pj_state pj = SsAborted \<and> aborted_since ?start ?h"
    using new abort_run_aborts [OF running_store_ok sqlite.grows_id sqlite.grows_id sqlite.grows_id _
        sample_abort_def [symmetric] ok] by blast
  moreover from this have "folds_aborted ?h"
  proof -
    have "es2 = []" if "?h = ?start @ es1 @ e # es2" "er_kind e = SessionAborted r" for es1 e es2 r
    proof -
      have "map er_kind ?h = map er_kind (?start @ es1) @ er_kind e # map er_kind es2"
        by (subst that(1)) simp
      with late that(2) show ?thesis by blast
    qed
    with \<open>_ \<and> _ \<and> aborted_since ?start ?h\<close> show ?thesis by (fastforce simp: aborted_since_def)
  qed
  ultimately show ?thesis using ok by blast
qed

text \<open>
  C7: a turn that completes while an abort is under way stays completed: the abort fails,
  appends nothing, saves no row and publishes nothing.
\<close>

theorem abort_never_undoes_completion:
  assumes "store_ok s" and "grows list_events_by_session store_ok env1"
    and "sess sid = Some session"
    and "projection_fold (list_events_by_session s sid) = Some p" and "pj_state p = SsActive"
    and "turn_to_abort (list_events_by_session s sid) p = Some t"
    and "c \<in> set (list_events_by_session (env1 s) sid)" and "er_kind c = TurnCompleted t"
    and "unused_id uuid (list_events_by_session (env1 s) sid)"
  shows "\<exists>x. abort_run (append_event kj) list_events_by_session save bus sha256 env1 env2 env3 uuid
     now s sess sid reason = refuse x (env1 s) sess"
  using assms by (rule sqlite.abort_after_completion)

definition completes_turn :: "event_store \<Rightarrow> event_store" where
  "completes_turn s = snd (append_event no_json s (sample_event 3 (TurnCompleted (TurnId [21]))))"

lemma abort_never_undoes_completion_witness:
  "oc_published (abort_run (append_event no_json) list_events_by_session saves ok_bus id
     completes_turn id id [9] [60] running_store [SessionId [1] \<mapsto> running_session SsActive]
     (SessionId [1]) None) = []"
proof -
  have "grows list_events_by_session store_ok completes_turn"
    unfolding completes_turn_def by (rule sqlite.grows_append)
  moreover obtain p where p: "projection_fold (list_events_by_session running_store (SessionId [1])) = Some p"
    "pj_state p = SsActive"
    "turn_to_abort (list_events_by_session running_store (SessionId [1])) p = Some (TurnId [21])"
    by (simp add: run_eval turn_to_abort_def)
  moreover have "sample_event 3 (TurnCompleted (TurnId [21]))
      \<in> set (list_events_by_session (completes_turn running_store) (SessionId [1]))"
    by (simp add: completes_turn_def run_eval)
  moreover have "unused_id [9] (list_events_by_session (completes_turn running_store) (SessionId [1]))"
    by (simp add: completes_turn_def unused_id_def run_eval)
  ultimately have "\<exists>x. abort_run (append_event no_json) list_events_by_session saves ok_bus id
     completes_turn id id [9] [60] running_store [SessionId [1] \<mapsto> running_session SsActive]
     (SessionId [1]) None = refuse x (completes_turn running_store)
       [SessionId [1] \<mapsto> running_session SsActive]"
    using abort_never_undoes_completion [OF running_store_ok, of completes_turn
        "[SessionId [1] \<mapsto> running_session SsActive]" "SessionId [1]" "running_session SsActive" p
        "TurnId [21]" "sample_event 3 (TurnCompleted (TurnId [21]))" "[9]"]
    by (simp add: sample_event_def)
  then show ?thesis by auto
qed

text \<open>
  \<open>resume_session\<close> leaves the row active. A row that already is active is returned
  untouched; otherwise one resume event is appended to whatever the history holds by then,
  and published, and the returned projection is active.
\<close>

lemma resume_session_activates:
  assumes "store_ok s" and "grows list_events_by_session store_ok env"
    and "unused_id uuid (list_events_by_session (env s) sid)"
    and "resume_session (append_event kj) list_events_by_session save bus env uuid now s sess sid = run"
    and "oc_result run = Inr (row, pj)"
  shows "ss_state row = SsActive \<and> oc_rows run sid = Some row \<and>
     (if map_option ss_state (sess sid) = Some SsActive
      then oc_events run = s \<and> oc_published run = []
      else pj_state pj = SsActive \<and> (\<exists>c. er_kind c = SessionResumed \<and>
        list_events_by_session (oc_events run) sid = list_events_by_session (env s) sid @ [c] \<and>
        oc_published run = [(c, PubSessionResumed sid)]))"
  using assms by (rule sqlite.resume_session_ok)

lemma resume_session_activates_witness:
  "\<exists>c. oc_published (resume_session (append_event no_json) list_events_by_session saves ok_bus id [9]
     [60] running_store [SessionId [1] \<mapsto> running_session SsAborted] (SessionId [1])) =
     [(c, PubSessionResumed (SessionId [1]))]"
proof -
  let ?run = "resume_session (append_event no_json) list_events_by_session saves ok_bus id [9]
     [60] running_store [SessionId [1] \<mapsto> running_session SsAborted] (SessionId [1])"
  have "\<exists>y. oc_result ?run = Inr y"
    by (simp add: resume_session_def run_eval running_session_def)
  then obtain row pj where ok: "oc_result ?run = Inr (row, pj)" by auto
  have "unused_id [9] (list_events_by_session (id running_store) (SessionId [1]))"
    by (simp add: unused_id_def run_eval)
  from resume_session_activates [OF running_store_ok sqlite.grows_id this refl ok]
  show ?thesis by (auto simp: running_session_def)
qed

text \<open>
  steering reaches the running turn and nothing else: the turn it resolves was started,
  and no later event started another turn, ended it, ended the session or rewound the
  conversation. Recording the guidance leaves that turn active.
\<close>

lemma steer_reaches_running_turn:
  assumes "active_turn_for_steer list_events_by_session s sess sid prompt = Inr (session, t)"
    and "store_ok s" and "grows list_events_by_session store_ok env"
    and "unused_id uuid (list_events_by_session (env s) sid)"
    and "record_turn_steer (append_event kj) list_events_by_session bus env uuid now s sess sid prompt t =
      (Inr (session', t', pj), s', ps)"
  shows "\<not> blank prompt \<and> session' = session \<and> pj_active_turn_id pj = Some t \<and>
     (\<exists>h1 e h2. list_events_by_session s sid = h1 @ e # h2 \<and> starts_turn t (er_kind e) \<and>
        (\<forall>x \<in> set h2. \<not> displaces t (er_kind x))) \<and>
     map snd ps = [PubTurnSteered sid t prompt] \<and>
     (\<exists>c. er_kind c = TurnSteered t prompt \<and>
        list_events_by_session s' sid = list_events_by_session (env s) sid @ [c])"
  using active_turn_for_steer_ok [OF assms(1)] sqlite.record_turn_steer_ok [OF assms(2-5)]
    active_turn_Some_iff [of "list_events_by_session s sid" t]
  by simp

lemma steer_reaches_running_turn_witness:
  "map snd (snd (snd (record_turn_steer (append_event no_json) list_events_by_session ok_bus id [9]
     [60] running_store [SessionId [1] \<mapsto> running_session SsActive] (SessionId [1]) [104]
     (TurnId [21])))) = [PubTurnSteered (SessionId [1]) (TurnId [21]) [104]]"
proof -
  let ?run = "record_turn_steer (append_event no_json) list_events_by_session ok_bus id [9]
     [60] running_store [SessionId [1] \<mapsto> running_session SsActive] (SessionId [1]) [104] (TurnId [21])"
  have "\<exists>y. fst ?run = Inr y" by (simp add: record_turn_steer_def run_eval)
  then obtain session t' pj where run: "?run = (Inr (session, t', pj), fst (snd ?run), snd (snd ?run))"
    by (metis prod.collapse)
  have steer: "active_turn_for_steer list_events_by_session running_store
      [SessionId [1] \<mapsto> running_session SsActive] (SessionId [1]) [104] =
      Inr (running_session SsActive, TurnId [21])"
    by (simp add: active_turn_for_steer_def run_eval blank_iff is_whitespace_def)
  have "unused_id [9] (list_events_by_session (id running_store) (SessionId [1]))"
    by (simp add: unused_id_def run_eval)
  from steer_reaches_running_turn [OF steer running_store_ok sqlite.grows_id this run]
  show ?thesis by blast
qed

end
