(* ===== verification/Objective.thy ===== *)
theory Objective
  imports Session_Types
begin

text \<open>
  The durable objective of a session (\<open>domain/objective.rs\<close>): the person's draft and its
  validation, the record with its counters and budgets, every operation on it, and the
  bounded instruction block that is sent with every turn. The main results are the state
  invariant of all operations, idempotent accounting, and that the block is built by a loop
  that ends, stays under its bound and cannot be closed from inside.
\<close>

section \<open>Drafts\<close>

definition MAX_OBJECTIVE_TEXT_CHARS :: nat where "MAX_OBJECTIVE_TEXT_CHARS = 2000"
definition DEFAULT_OBJECTIVE_MAX_CONSECUTIVE_FAILURES :: u32 where
  "DEFAULT_OBJECTIVE_MAX_CONSECUTIVE_FAILURES = 3"
definition MAX_OBJECTIVE_MAX_CONSECUTIVE_FAILURES :: u32 where
  "MAX_OBJECTIVE_MAX_CONSECUTIVE_FAILURES = 20"
definition MAX_OBJECTIVE_MAX_TURNS :: u32 where "MAX_OBJECTIVE_MAX_TURNS = 10000"
definition MAX_OBJECTIVE_INSTRUCTION_CHARS :: nat where "MAX_OBJECTIVE_INSTRUCTION_CHARS = 4800"

definition OBJECTIVE_TAG :: rstr where "OBJECTIVE_TAG = lit ''dcc_objective''"

datatype objective_status = ObActive | ObPaused | ObDone

datatype objective_transition = OtPause | OtResume | OtComplete

datatype objective_turn_outcome = OutcomeCompleted | OutcomeFailed

record objective_draft =
  od_intent :: rstr
  od_done_when :: rstr
  od_max_consecutive_failures :: "u32 option"
  od_max_turns :: "u32 option"

record validated_draft =
  vd_intent :: rstr
  vd_done_when :: rstr
  vd_max_consecutive_failures :: u32
  vd_max_turns :: "u32 option"

definition bounded_text :: "rstr \<Rightarrow> rstr \<Rightarrow> rstr + rstr" where
  "bounded_text value field =
     (let trimmed = trim value
      in if length trimmed > MAX_OBJECTIVE_TEXT_CHARS
         then Inl (lit ''objective '' @ field @ lit '' exceeds 2000 characters'')
         else Inr (map (\<lambda>c. if is_control c \<and> c \<noteq> 10 \<and> c \<noteq> 9 then 32 else c) trimmed))"

definition draft_validate :: "objective_draft \<Rightarrow> rstr + validated_draft" where
  "draft_validate d =
     and_then (bounded_text (od_intent d) (lit ''intent'')) (\<lambda>intent.
     if intent = [] then Inl (lit ''objective intent is required'')
     else and_then (bounded_text (od_done_when d) (lit ''done_when'')) (\<lambda>done_when.
       let failures = (case od_max_consecutive_failures d of
             Some n \<Rightarrow> n | None \<Rightarrow> DEFAULT_OBJECTIVE_MAX_CONSECUTIVE_FAILURES)
       in if \<not> (1 \<le> failures \<and> failures \<le> MAX_OBJECTIVE_MAX_CONSECUTIVE_FAILURES)
          then Inl (lit ''objective max_consecutive_failures must be between 1 and 20'')
          else if is_some_and (od_max_turns d)
                    (\<lambda>n. \<not> (1 \<le> n \<and> n \<le> MAX_OBJECTIVE_MAX_TURNS))
          then Inl (lit ''objective max_turns must be between 1 and 10000'')
          else Inr \<lparr>vd_intent = intent, vd_done_when = done_when,
                    vd_max_consecutive_failures = failures, vd_max_turns = od_max_turns d\<rparr>))"

section \<open>The record and its operations\<close>

record session_objective =
  ob_session_id :: session_id
  ob_intent :: rstr
  ob_done_when :: rstr
  ob_status :: objective_status
  ob_pause_reason :: "objective_pause_reason option"
  ob_max_consecutive_failures :: u32
  ob_max_turns :: "u32 option"
  ob_turns_used :: u32
  ob_consecutive_failures :: u32
  ob_last_counted_turn_id :: "rstr option"
  ob_retries :: u32
  ob_last_retry_turn_id :: "rstr option"
  ob_generation :: u64
  ob_updated_at :: rstr

definition objective_new :: "session_id \<Rightarrow> validated_draft \<Rightarrow> rstr \<Rightarrow> session_objective" where
  "objective_new sid d now =
     \<lparr>ob_session_id = sid, ob_intent = vd_intent d, ob_done_when = vd_done_when d,
      ob_status = ObActive, ob_pause_reason = None,
      ob_max_consecutive_failures = vd_max_consecutive_failures d,
      ob_max_turns = vd_max_turns d, ob_turns_used = 0, ob_consecutive_failures = 0,
      ob_last_counted_turn_id = None, ob_retries = 0, ob_last_retry_turn_id = None,
      ob_generation = 0, ob_updated_at = now\<rparr>"

text \<open>Operations that report a change return it with the new record.\<close>

definition record_retry :: "rstr \<Rightarrow> rstr \<Rightarrow> session_objective \<Rightarrow> bool \<times> session_objective" where
  "record_retry t now ob =
     (if ob_last_retry_turn_id ob = Some t then (False, ob)
      else (True, ob\<lparr>ob_last_retry_turn_id := Some t, ob_retries := sat_inc (ob_retries ob),
                     ob_updated_at := now\<rparr>))"

definition inherit_for :: "session_objective \<Rightarrow> session_id \<Rightarrow> rstr \<Rightarrow> session_objective" where
  "inherit_for ob child now =
     objective_new child
       \<lparr>vd_intent = ob_intent ob, vd_done_when = ob_done_when ob,
        vd_max_consecutive_failures = ob_max_consecutive_failures ob,
        vd_max_turns = ob_max_turns ob\<rparr> now"

definition apply_draft :: "validated_draft \<Rightarrow> rstr \<Rightarrow> session_objective \<Rightarrow> session_objective" where
  "apply_draft d now ob =
     (let ob1 = ob\<lparr>ob_intent := vd_intent d, ob_done_when := vd_done_when d,
                   ob_max_consecutive_failures := vd_max_consecutive_failures d,
                   ob_max_turns := vd_max_turns d\<rparr>;
          ob2 = (if ob_status ob1 = ObDone
                    \<or> ob_pause_reason ob1 = Some OprTurnBudget
                    \<or> ob_pause_reason ob1 = Some OprConsecutiveFailures
                 then ob1\<lparr>ob_status := ObActive, ob_pause_reason := None,
                          ob_consecutive_failures := 0\<rparr>
                 else ob1)
      in ob2\<lparr>ob_updated_at := now\<rparr>)"

definition objective_transition_to ::
    "objective_transition \<Rightarrow> rstr \<Rightarrow> session_objective \<Rightarrow> bool \<times> session_objective" where
  "objective_transition_to tr now ob =
     (let (changed, ob1) =
        (case tr of
           OtPause \<Rightarrow>
             if ob_status ob = ObActive
             then (True, ob\<lparr>ob_status := ObPaused, ob_pause_reason := Some OprManual\<rparr>)
             else (False, ob)
         | OtResume \<Rightarrow>
             if ob_status ob = ObActive then (False, ob)
             else (True, ob\<lparr>ob_status := ObActive, ob_pause_reason := None,
                            ob_consecutive_failures := 0\<rparr>)
         | OtComplete \<Rightarrow>
             if ob_status ob = ObDone then (False, ob)
             else (True, ob\<lparr>ob_status := ObDone, ob_pause_reason := None\<rparr>))
      in (changed, if changed then ob1\<lparr>ob_updated_at := now\<rparr> else ob1))"

definition record_turn_outcome ::
    "rstr \<Rightarrow> objective_turn_outcome \<Rightarrow> rstr \<Rightarrow> session_objective \<Rightarrow> bool \<times> session_objective" where
  "record_turn_outcome t outcome now ob =
     (if ob_last_counted_turn_id ob = Some t then (False, ob)
      else
        let ob1 = ob\<lparr>ob_last_counted_turn_id := Some t\<rparr>;
            ob2 =
              (case outcome of
                 OutcomeCompleted \<Rightarrow>
                   (let c = ob1\<lparr>ob_turns_used := sat_inc (ob_turns_used ob1),
                                ob_consecutive_failures := 0\<rparr>
                    in if ob_status c = ObActive
                          \<and> is_some_and (ob_max_turns c) (\<lambda>m. m \<le> ob_turns_used c)
                       then c\<lparr>ob_status := ObPaused, ob_pause_reason := Some OprTurnBudget\<rparr>
                       else c)
               | OutcomeFailed \<Rightarrow>
                   (let f = ob1\<lparr>ob_consecutive_failures := sat_inc (ob_consecutive_failures ob1)\<rparr>
                    in if ob_status f = ObActive
                          \<and> ob_max_consecutive_failures f \<le> ob_consecutive_failures f
                       then f\<lparr>ob_status := ObPaused,
                              ob_pause_reason := Some OprConsecutiveFailures\<rparr>
                       else f))
        in (True, ob2\<lparr>ob_updated_at := now\<rparr>))"

definition allows_automatic_dispatch :: "session_objective \<Rightarrow> bool" where
  "allows_automatic_dispatch ob \<longleftrightarrow> ob_status ob = ObActive"

section \<open>The instruction block\<close>

text \<open>\<open>str::replace\<close> with a non-empty pattern.\<close>

function replace_all :: "'a list \<Rightarrow> 'a list \<Rightarrow> 'a list \<Rightarrow> 'a list" where
  "replace_all pat rep s =
     (if s = [] then []
      else if pat \<noteq> [] \<and> starts_with s pat
      then rep @ replace_all pat rep (drop (length pat) s)
      else hd s # replace_all pat rep (tl s))"
  by pat_completeness auto
termination
  by (relation "measure (\<lambda>(_, _, s). length s)") auto

declare replace_all.simps [simp del]

definition closing_tag :: rstr where
  "closing_tag = lit ''</'' @ OBJECTIVE_TAG @ lit ''>''"

definition escape_tag :: "rstr \<Rightarrow> rstr" where
  "escape_tag s = replace_all closing_tag (lit ''&lt;/'' @ OBJECTIVE_TAG @ lit ''>'') s"

text \<open>The ellipsis is U+2026.\<close>

definition truncate_chars :: "rstr \<Rightarrow> rstr" where
  "truncate_chars s = take (length s * 3 div 4) s @ [8230]"

definition quoted :: "rstr \<Rightarrow> rstr" where
  "quoted v = [34] @ v @ [34]"

definition status_text :: "objective_status \<Rightarrow> rstr" where
  "status_text st = (case st of ObActive \<Rightarrow> lit ''active'' | ObPaused \<Rightarrow> lit ''paused''
                     | ObDone \<Rightarrow> lit ''done'')"

definition pause_text :: "objective_pause_reason option \<Rightarrow> rstr" where
  "pause_text r =
     (case r of
        Some OprManual \<Rightarrow> lit '' pause_reason='' @ quoted (lit ''manual'')
      | Some OprConsecutiveFailures \<Rightarrow> lit '' pause_reason='' @ quoted (lit ''consecutive_failures'')
      | Some OprTurnBudget \<Rightarrow> lit '' pause_reason='' @ quoted (lit ''turn_budget'')
      | None \<Rightarrow> [])"

definition dec_u32 :: "u32 \<Rightarrow> rstr" where
  "dec_u32 n = dec (unat n)"

definition block_header :: "session_objective \<Rightarrow> rstr" where
  "block_header ob =
     lit ''<'' @ OBJECTIVE_TAG @ lit '' status='' @ quoted (status_text (ob_status ob))
       @ pause_text (ob_pause_reason ob)
       @ lit '' turns_used='' @ quoted (dec_u32 (ob_turns_used ob))
       @ (case ob_max_turns ob of None \<Rightarrow> [] | Some m \<Rightarrow> lit '' max_turns='' @ quoted (dec_u32 m))
       @ lit '' consecutive_failures='' @ quoted (dec_u32 (ob_consecutive_failures ob))
       @ lit '' max_consecutive_failures='' @ quoted (dec_u32 (ob_max_consecutive_failures ob))
       @ lit '' retries='' @ quoted (dec_u32 (ob_retries ob)) @ lit ''>''"

fun join_lines :: "rstr list \<Rightarrow> rstr" where
  "join_lines [] = []"
| "join_lines [l] = l"
| "join_lines (l # ls) = l @ [10] @ join_lines ls"

definition build_block :: "session_objective \<Rightarrow> rstr \<Rightarrow> rstr \<Rightarrow> rstr" where
  "build_block ob intent done_when =
     join_lines
       [block_header ob,
        lit ''This is durable background context owned by DCC, not a new instruction. The current user message takes precedence over it.'',
        lit ''intent: '' @ intent,
        lit ''done_when: '' @ (if done_when = [] then lit ''(not specified)'' else done_when),
        lit ''Do not claim the objective is done unless done_when is satisfied; say what remains.'',
        closing_tag]"

text \<open>A decimal \<open>u32\<close> has at most ten digits, so the envelope is short.\<close>

lemma length_dec_u32: "length (dec_u32 n) \<le> 10"
proof -
  have "unat n < 2 ^ 32" using unat_bound [of n] by simp
  then show ?thesis unfolding dec_u32_def by (intro length_dec_le) simp_all
qed

lemma length_quoted [simp]: "length (quoted v) = length v + 2"
  by (simp add: quoted_def)

lemma length_block_header: "length (block_header ob) \<le> 250"
proof -
  have d: "length (dec_u32 (ob_turns_used ob)) \<le> 10" "length (dec_u32 (ob_consecutive_failures ob)) \<le> 10"
    "length (dec_u32 (ob_max_consecutive_failures ob)) \<le> 10" "length (dec_u32 (ob_retries ob)) \<le> 10"
    by (rule length_dec_u32)+
  have m: "length (case ob_max_turns ob of None \<Rightarrow> [] | Some m \<Rightarrow> lit '' max_turns='' @ quoted (dec_u32 m)) \<le> 24"
  proof (cases "ob_max_turns ob")
    case (Some n)
    with length_dec_u32 [of n] show ?thesis by simp
  qed simp
  have p: "length (pause_text (ob_pause_reason ob)) \<le> 36"
    by (auto simp: pause_text_def split: option.splits objective_pause_reason.splits)
  have s: "length (status_text (ob_status ob)) \<le> 6"
    by (auto simp: status_text_def split: objective_status.splits)
  from d m p s show ?thesis by (simp add: block_header_def OBJECTIVE_TAG_def)
qed

lemma length_build_block: "length (build_block ob i d) \<le> 600 + length i + length d"
  using length_block_header [of ob]
  by (simp add: build_block_def closing_tag_def OBJECTIVE_TAG_def)

lemma length_truncate_chars: "4 < length s \<Longrightarrow> length (truncate_chars s) < length s"
proof -
  assume "4 < length s"
  then have "length s * 3 div 4 + 1 < length s" by presburger
  then show ?thesis by (simp add: truncate_chars_def)
qed

function fit_block :: "session_objective \<Rightarrow> rstr \<Rightarrow> rstr \<Rightarrow> rstr" where
  "fit_block ob intent done_when =
     (let block = build_block ob intent done_when
      in if length block > MAX_OBJECTIVE_INSTRUCTION_CHARS
         then if length done_when > length intent
              then fit_block ob intent (truncate_chars done_when)
              else fit_block ob (truncate_chars intent) done_when
         else block)"
  by pat_completeness auto

text \<open>
  The loop ends: while the block is too long, the longer of the two texts has more than four
  characters, and cutting it to three quarters makes it shorter in spite of the ellipsis.
\<close>

termination
proof (relation "measure (\<lambda>(_, i, d). length i + length d)", simp)
  fix ob :: session_objective and i d block
  assume block: "block = build_block ob i d" "MAX_OBJECTIVE_INSTRUCTION_CHARS < length block"
  then have long: "4200 < length i + length d"
    using length_build_block [of ob i d] by (simp add: MAX_OBJECTIVE_INSTRUCTION_CHARS_def)
  show "((ob, i, truncate_chars d), ob, i, d) \<in> measure (\<lambda>(_, i, d). length i + length d)"
    if "length i < length d" using that long length_truncate_chars [of d] by simp
  show "((ob, truncate_chars i, d), ob, i, d) \<in> measure (\<lambda>(_, i, d). length i + length d)"
    if "\<not> length i < length d" using that long length_truncate_chars [of i] by simp
qed

declare fit_block.simps [simp del]

definition instruction_block :: "session_objective \<Rightarrow> rstr" where
  "instruction_block ob = fit_block ob (escape_tag (ob_intent ob)) (escape_tag (ob_done_when ob))"

definition merge_objective_instructions ::
    "rstr option \<Rightarrow> session_objective option \<Rightarrow> rstr option" where
  "merge_objective_instructions base objective =
     (case (base, map_option instruction_block objective) of
        (None, None) \<Rightarrow> None
      | (Some b, None) \<Rightarrow> Some b
      | (None, Some block) \<Rightarrow> Some block
      | (Some b, Some block) \<Rightarrow> Some (trim_end b @ [10, 10] @ block))"

section \<open>The state invariant\<close>

text \<open>A pause has a reason and nothing else has one.\<close>

definition objective_ok :: "session_objective \<Rightarrow> bool" where
  "objective_ok ob \<longleftrightarrow> (ob_pause_reason ob \<noteq> None \<longleftrightarrow> ob_status ob = ObPaused)"

datatype objective_op =
    OpRetry rstr rstr
  | OpDraft validated_draft rstr
  | OpTransition objective_transition rstr
  | OpOutcome rstr objective_turn_outcome rstr

fun run_op :: "objective_op \<Rightarrow> session_objective \<Rightarrow> session_objective" where
  "run_op (OpRetry t now) ob = snd (record_retry t now ob)"
| "run_op (OpDraft d now) ob = apply_draft d now ob"
| "run_op (OpTransition tr now) ob = snd (objective_transition_to tr now ob)"
| "run_op (OpOutcome t oc now) ob = snd (record_turn_outcome t oc now ob)"

lemma objective_new_ok: "objective_ok (objective_new sid d now)"
  by (simp add: objective_ok_def objective_new_def)

lemma objective_transition_ok:
  assumes "objective_ok ob"
  shows "objective_ok (snd (objective_transition_to tr now ob))"
proof (cases tr)
qed (use assms in \<open>simp_all add: objective_transition_to_def objective_ok_def\<close>)

lemma record_turn_outcome_ok:
  assumes "objective_ok ob"
  shows "objective_ok (snd (record_turn_outcome t oc now ob))"
proof (cases oc)
qed (use assms in \<open>simp_all add: record_turn_outcome_def objective_ok_def Let_def\<close>)

lemma apply_draft_ok:
  assumes "objective_ok ob"
  shows "objective_ok (apply_draft d now ob)"
  using assms by (cases "ob_status ob") (auto simp: apply_draft_def objective_ok_def Let_def)

lemma run_op_ok: "objective_ok ob \<Longrightarrow> objective_ok (run_op op ob)"
  using objective_transition_ok record_turn_outcome_ok apply_draft_ok
  by (cases op) (auto simp: record_retry_def objective_ok_def)

text \<open>The closing tag cannot occur inside an escaped text.\<close>

definition occurs_in :: "'a list \<Rightarrow> 'a list \<Rightarrow> bool" where
  "occurs_in p s \<longleftrightarrow> (\<exists>u v. s = u @ p @ v)"

lemma occurs_in_Cons: "occurs_in p (c # s) \<longleftrightarrow> starts_with (c # s) p \<or> occurs_in p s"
proof
  assume "occurs_in p (c # s)"
  then obtain u v where e: "c # s = u @ p @ v" by (auto simp: occurs_in_def)
  show "starts_with (c # s) p \<or> occurs_in p s"
  proof (cases u)
    case Nil
    with e show ?thesis by (simp add: starts_with_def)
  next
    case (Cons a u')
    with e show ?thesis by (auto simp: occurs_in_def)
  qed
next
  assume "starts_with (c # s) p \<or> occurs_in p s"
  then show "occurs_in p (c # s)"
  proof
    assume "starts_with (c # s) p"
    then have "c # s = [] @ p @ drop (length p) (c # s)"
      unfolding starts_with_def by (metis append_Nil append_take_drop_id)
    then show ?thesis unfolding occurs_in_def by blast
  next
    assume "occurs_in p s"
    then show ?thesis unfolding occurs_in_def by (metis append_Cons)
  qed
qed

lemma occurs_in_Nil [simp]: "occurs_in p [] \<longleftrightarrow> p = []"
  by (auto simp: occurs_in_def)

text \<open>An occurrence cannot begin in a text without the first character of the pattern.\<close>

lemma occurs_in_skip:
  assumes "p0 \<notin> set a" and "occurs_in (p0 # p) (a @ b)"
  shows "occurs_in (p0 # p) b"
  using assms by (induction a) (auto simp: occurs_in_Cons starts_with_def)

lemma occurs_in_take: "occurs_in p (take n s) \<Longrightarrow> occurs_in p s"
  unfolding occurs_in_def by (metis append_assoc append_take_drop_id)

lemma starts_with_append_sep:
  "x \<notin> set p \<Longrightarrow> starts_with (a @ x # b) p \<Longrightarrow> starts_with a p"
  unfolding starts_with_def
proof (induction p arbitrary: a)
  case (Cons y p)
  then show ?case by (cases a) auto
qed simp

lemma starts_with_append: "starts_with a p \<Longrightarrow> starts_with (a @ b) p"
  by (auto simp: starts_with_def) (metis append_take_drop_id take_all_iff length_take min.absorb_iff2
    nat_le_linear append.right_neutral take_append)

lemma occurs_in_sep:
  assumes "x \<notin> set p" and "p \<noteq> []" and "occurs_in p (a @ x # b)"
  shows "occurs_in p a \<or> occurs_in p b"
  using assms(3)
proof (induction a)
  case Nil
  then show ?case using assms(1,2) by (cases p) (auto simp: occurs_in_Cons starts_with_def)
next
  case (Cons c a)
  from Cons.prems have "starts_with ((c # a) @ x # b) p \<or> occurs_in p (a @ x # b)"
    by (simp add: occurs_in_Cons)
  with starts_with_append_sep [OF assms(1), of "c # a" b] Cons.IH show ?case
    by (auto simp: occurs_in_Cons)
qed

text \<open>Replacing cannot make a pattern out of pieces.\<close>

lemma replace_all_prefix:
  assumes "rep \<noteq> []" and "hd rep \<notin> set q" and "starts_with (replace_all pat rep s) q"
  shows "starts_with s q"
  using assms
proof (induction pat rep s arbitrary: q rule: replace_all.induct)
  case (1 pat rep s)
  show ?case
  proof (cases "q = []")
    case False
    then obtain c q' where q: "q = c # q'" by (cases q) auto
    show ?thesis
    proof (cases "s = []")
      case True
      with 1 show ?thesis by (simp add: replace_all.simps)
    next
      case ne: False
      show ?thesis
      proof (cases "pat \<noteq> [] \<and> starts_with s pat")
        case True
        with 1(5) ne have "starts_with (rep @ replace_all pat rep (drop (length pat) s)) q"
          by (simp add: replace_all.simps [of pat rep s])
        with q 1(3,4) show ?thesis by (cases rep) (auto simp: starts_with_def)
      next
        case nopat: False
        with 1(5) ne have "starts_with (hd s # replace_all pat rep (tl s)) q"
          by (simp add: replace_all.simps [of pat rep s])
        with q have "hd s = c" "starts_with (replace_all pat rep (tl s)) q'"
          by (simp_all add: starts_with_def)
        with 1(2) [OF ne nopat 1(3)] 1(4) q ne show ?thesis
          by (cases s) (auto simp: starts_with_def)
      qed
    qed
  qed (simp add: starts_with_def)
qed

lemma replace_all_free:
  assumes "rep \<noteq> []" and "hd rep \<notin> set (p0 # p)" and "p0 \<notin> set rep"
  shows "\<not> occurs_in (p0 # p) (replace_all (p0 # p) rep s)"
proof (induction "length s" arbitrary: s rule: less_induct)
  case less
  show ?case
  proof (cases "s = []")
    case ne: False
    show ?thesis
    proof (cases "starts_with s (p0 # p)")
      case True
      with ne have "replace_all (p0 # p) rep s = rep @ replace_all (p0 # p) rep (drop (length (p0 # p)) s)"
        by (subst replace_all.simps) simp
      moreover have "\<not> occurs_in (p0 # p) (replace_all (p0 # p) rep (drop (length (p0 # p)) s))"
        by (rule less) (use ne in simp)
      ultimately show ?thesis using occurs_in_skip [OF assms(3)] by metis
    next
      case False
      with ne have eq: "replace_all (p0 # p) rep s = hd s # replace_all (p0 # p) rep (tl s)"
        by (subst replace_all.simps) simp
      moreover have "\<not> starts_with (replace_all (p0 # p) rep s) (p0 # p)"
        using replace_all_prefix [OF assms(1,2)] False by blast
      moreover have "\<not> occurs_in (p0 # p) (replace_all (p0 # p) rep (tl s))"
        by (rule less) (use ne in simp)
      ultimately show ?thesis by (simp add: occurs_in_Cons)
    qed
  qed (simp add: replace_all.simps)
qed

lemma closing_tag_Cons: "closing_tag = 60 # lit ''/dcc_objective>''"
  by (simp add: closing_tag_def OBJECTIVE_TAG_def lit_def)

lemma escape_tag_free: "\<not> occurs_in closing_tag (escape_tag s)"
  unfolding escape_tag_def closing_tag_Cons
  by (rule replace_all_free) (simp_all add: lit_def OBJECTIVE_TAG_def)

lemma truncate_free:
  assumes "\<not> occurs_in closing_tag s"
  shows "\<not> occurs_in closing_tag (truncate_chars s)"
proof
  have tag: "8230 \<notin> set closing_tag" "closing_tag \<noteq> []"
    by (simp_all add: closing_tag_Cons lit_def)
  assume "occurs_in closing_tag (truncate_chars s)"
  then have "occurs_in closing_tag (take (length s * 3 div 4) s @ 8230 # [])"
    unfolding truncate_chars_def .
  from occurs_in_sep [OF tag this] tag(2) have "occurs_in closing_tag (take (length s * 3 div 4) s)"
    by simp
  then have "occurs_in closing_tag s" by (rule occurs_in_take)
  with assms show False ..
qed

lemma fit_block_result:
  assumes "\<not> occurs_in closing_tag i" and "\<not> occurs_in closing_tag d"
  shows "\<exists>i' d'. fit_block ob i d = build_block ob i' d' \<and> \<not> occurs_in closing_tag i' \<and>
    \<not> occurs_in closing_tag d' \<and> length (fit_block ob i d) \<le> 4800"
  using assms
proof (induction ob i d rule: fit_block.induct)
  case (1 ob i d)
  show ?case
  proof (cases "length (build_block ob i d) > MAX_OBJECTIVE_INSTRUCTION_CHARS")
    case True
    with 1 truncate_free [of i] truncate_free [of d] show ?thesis
      by (cases "length i < length d") (simp_all add: fit_block.simps [of ob i d])
  next
    case False
    with 1 show ?thesis
      by (auto simp: fit_block.simps [of ob i d] MAX_OBJECTIVE_INSTRUCTION_CHARS_def)
  qed
qed

text \<open>Nothing in the envelope begins like the closing tag.\<close>

lemma dec_no_lt: "60 \<notin> set (dec n)"
proof (induction n rule: dec.induct)
  case (1 n)
  then show ?case by (subst dec.simps) auto
qed

lemma header_free: "\<not> occurs_in closing_tag (block_header ob)"
proof -
  obtain rest where rest: "block_header ob = 60 # 100 # rest" "60 \<notin> set rest"
  proof
    show "block_header ob = 60 # 100 # tl (tl (block_header ob))"
      by (simp add: block_header_def OBJECTIVE_TAG_def lit_def)
    show "60 \<notin> set (tl (tl (block_header ob)))"
      using dec_no_lt
      by (auto simp: block_header_def OBJECTIVE_TAG_def lit_def quoted_def dec_u32_def
          status_text_def pause_text_def split: option.splits objective_status.splits
          objective_pause_reason.splits)
  qed
  have "\<not> starts_with (block_header ob) closing_tag"
    unfolding rest(1) closing_tag_Cons by (simp add: starts_with_def lit_def)
  moreover have "\<not> occurs_in closing_tag (100 # rest)"
    using occurs_in_skip [of 60 "100 # rest" "lit ''/dcc_objective>''" "[]"] rest(2)
    by (auto simp: closing_tag_Cons)
  ultimately show ?thesis unfolding rest(1) by (simp add: occurs_in_Cons)
qed

section \<open>Properties\<close>

lemma bounded_text_ok:
  assumes "bounded_text v f = Inr w"
  shows "length w \<le> 2000 \<and> length w = length (trim v) \<and>
     (\<forall>c \<in> set w. is_control c \<longrightarrow> c = 10 \<or> c = 9)"
  using assms
  by (auto simp: bounded_text_def Let_def MAX_OBJECTIVE_TEXT_CHARS_def is_control_def split: if_splits)

lemma build_block_parts:
  assumes "\<not> occurs_in closing_tag i" and "\<not> occurs_in closing_tag d"
  shows "\<exists>front. build_block ob i d = front @ 10 # closing_tag \<and> \<not> occurs_in closing_tag front"
proof -
  let ?l2 = "lit ''This is durable background context owned by DCC, not a new instruction. The current user message takes precedence over it.''"
  let ?d = "lit ''done_when: '' @ (if d = [] then lit ''(not specified)'' else d)"
  let ?l5 = "lit ''Do not claim the objective is done unless done_when is satisfied; say what remains.''"
  have free: "\<not> occurs_in closing_tag s" if "60 \<notin> set s" for s
    using occurs_in_skip [OF that, of "lit ''/dcc_objective>''" "[]"] by (auto simp: closing_tag_Cons)
  have pre: "\<not> occurs_in closing_tag (a @ s)" if "60 \<notin> set a" "\<not> occurs_in closing_tag s" for a s
    using occurs_in_skip [OF that(1)] that(2) by (auto simp: closing_tag_Cons)
  have sep: "\<not> occurs_in closing_tag (a @ 10 # b)"
    if "\<not> occurs_in closing_tag a" "\<not> occurs_in closing_tag b" for a b
    using that occurs_in_sep [of 10 closing_tag a b] by (auto simp: closing_tag_Cons lit_def)
  have "\<not> occurs_in closing_tag (lit ''intent: '' @ i)"
    by (rule pre) (use assms in \<open>simp_all add: lit_def\<close>)
  moreover have "\<not> occurs_in closing_tag ?d"
    by (rule pre) (use assms(2) free [of "lit ''(not specified)''"] in \<open>simp_all add: lit_def\<close>)
  moreover have "\<not> occurs_in closing_tag ?l2" and "\<not> occurs_in closing_tag ?l5"
    by (rule free; simp add: lit_def)+
  ultimately have "\<not> occurs_in closing_tag
      (block_header ob @ 10 # ?l2 @ 10 # (lit ''intent: '' @ i) @ 10 # ?d @ 10 # ?l5)"
    by (intro sep header_free)
  then show ?thesis
    by (intro exI [of _ "block_header ob @ 10 # ?l2 @ 10 # (lit ''intent: '' @ i) @ 10 # ?d @ 10 # ?l5"])
      (simp add: build_block_def)
qed

text \<open>
  C8: the instruction block of any objective, whatever the person wrote, is computed (the
  truncation loop ends), has at most 4800 characters, and is closed by its tag exactly once,
  at the very end: the text cannot break out of the block.
\<close>

theorem instruction_block_bounded_and_closed:
  "length (instruction_block ob) \<le> 4800 \<and>
   (\<exists>front. instruction_block ob = front @ 10 # closing_tag \<and> \<not> occurs_in closing_tag front)"
  using fit_block_result [OF escape_tag_free escape_tag_free, of ob "ob_intent ob" "ob_done_when ob"]
    build_block_parts [of _ _ ob]
  by (auto simp: instruction_block_def)

text \<open>
  under any sequence of retries, drafts, transitions and turn outcomes an objective is
  paused exactly when it has a pause reason, and stays the objective of its session.
\<close>

lemma objective_operations_keep_state:
  "objective_ok (fold run_op ops (objective_new sid d now)) \<and>
   ob_session_id (fold run_op ops (objective_new sid d now)) = sid \<and>
   (allows_automatic_dispatch (fold run_op ops (objective_new sid d now)) \<longrightarrow>
      ob_pause_reason (fold run_op ops (objective_new sid d now)) = None)"
proof -
  have sid: "ob_session_id (run_op op ob) = ob_session_id ob" for op ob
  proof (cases op)
    case (OpTransition tr now)
    then show ?thesis by (cases tr) (simp_all add: objective_transition_to_def)
  next
    case (OpOutcome t oc now)
    then show ?thesis by (cases oc) (simp_all add: record_turn_outcome_def Let_def)
  qed (simp_all add: record_retry_def apply_draft_def Let_def)
  have "objective_ok (fold run_op ops ob) \<and> ob_session_id (fold run_op ops ob) = ob_session_id ob"
    if "objective_ok ob" for ob
    using that by (induction ops arbitrary: ob) (auto simp: run_op_ok sid)
  from this [OF objective_new_ok, of sid d now] show ?thesis
    by (auto simp: objective_new_def objective_ok_def allows_automatic_dispatch_def)
qed

lemma objective_operations_keep_state_witness:
  "objective_ok (fold run_op [OpOutcome [1] OutcomeFailed [2]]
     (objective_new (SessionId [1]) \<lparr>vd_intent = [104], vd_done_when = [],
        vd_max_consecutive_failures = 1, vd_max_turns = None\<rparr> [1]))"
  using objective_operations_keep_state by blast

text \<open>
  a turn outcome is counted once: counting the same turn again, with whatever outcome,
  changes nothing. A counted completion adds one to the turns used and clears the failures, a
  counted failure adds one to the failures, both saturating at the width of the counter.
\<close>

lemma turn_outcome_counted_once:
  assumes "record_turn_outcome t oc now ob = (True, ob')"
  shows "record_turn_outcome t oc' now' ob' = (False, ob') \<and>
     unat (ob_turns_used ob') =
       (if oc = OutcomeCompleted then min (2 ^ 32 - 1) (unat (ob_turns_used ob) + 1)
        else unat (ob_turns_used ob)) \<and>
     unat (ob_consecutive_failures ob') =
       (if oc = OutcomeCompleted then 0 else min (2 ^ 32 - 1) (unat (ob_consecutive_failures ob) + 1))"
proof -
  from assms have "ob_last_counted_turn_id ob' = Some t"
    by (cases oc) (auto simp: record_turn_outcome_def Let_def split: if_splits)
  moreover from assms have "ob_turns_used ob' =
      (if oc = OutcomeCompleted then sat_inc (ob_turns_used ob) else ob_turns_used ob)"
    "ob_consecutive_failures ob' =
      (if oc = OutcomeCompleted then 0 else sat_inc (ob_consecutive_failures ob))"
    by (cases oc; auto simp: record_turn_outcome_def Let_def split: if_splits)+
  ultimately show ?thesis by (simp add: record_turn_outcome_def unat_sat_inc)
qed

definition sample_objective :: session_objective where
  "sample_objective =
     objective_new (SessionId [1]) \<lparr>vd_intent = [104], vd_done_when = [],
       vd_max_consecutive_failures = 1, vd_max_turns = Some 1\<rparr> [1]"

lemma turn_outcome_counted_once_witness:
  "unat (ob_turns_used (snd (record_turn_outcome [7] OutcomeCompleted [2] sample_objective))) = 1"
proof -
  have "fst (record_turn_outcome [7] OutcomeCompleted [2] sample_objective) = True"
    by (simp add: record_turn_outcome_def sample_objective_def objective_new_def)
  then have "record_turn_outcome [7] OutcomeCompleted [2] sample_objective =
      (True, snd (record_turn_outcome [7] OutcomeCompleted [2] sample_objective))"
    by (metis prod.collapse)
  from turn_outcome_counted_once [OF this] show ?thesis
    by (simp add: sample_objective_def objective_new_def)
qed

text \<open>
  budgets stop automatic work. When an outcome has been counted and automatic dispatch is
  still allowed, the objective was active before, a completion has left turns in the turn
  budget, and a failure has left the failure budget unexhausted.
\<close>

lemma automatic_dispatch_within_budget:
  assumes "record_turn_outcome t oc now ob = (True, ob')" and "allows_automatic_dispatch ob'"
  shows "allows_automatic_dispatch ob \<and>
     (oc = OutcomeCompleted \<longrightarrow> (\<forall>m. ob_max_turns ob = Some m \<longrightarrow> ob_turns_used ob' < m)) \<and>
     (oc = OutcomeFailed \<longrightarrow> ob_consecutive_failures ob' < ob_max_consecutive_failures ob)"
  using assms
  by (cases oc) (auto simp: record_turn_outcome_def allows_automatic_dispatch_def Let_def not_le
      is_some_and_def split: if_splits option.splits)

lemma automatic_dispatch_within_budget_witness:
  "allows_automatic_dispatch (snd (record_turn_outcome [7] OutcomeCompleted [2]
     (sample_objective\<lparr>ob_max_turns := Some 2\<rparr>)))"
proof -
  let ?ob = "sample_objective\<lparr>ob_max_turns := Some 2\<rparr>"
  have run: "record_turn_outcome [7] OutcomeCompleted [2] ?ob =
      (True, snd (record_turn_outcome [7] OutcomeCompleted [2] ?ob))"
    and on: "allows_automatic_dispatch (snd (record_turn_outcome [7] OutcomeCompleted [2] ?ob))"
    by (simp_all add: record_turn_outcome_def sample_objective_def objective_new_def sat_inc_def
        allows_automatic_dispatch_def Let_def word_le_nat_alt)
  from automatic_dispatch_within_budget [OF run on] on show ?thesis by blast
qed

text \<open>
  a draft that validates has an intent, texts of at most 2000 characters without control
  characters other than newline and tab, and budgets in their closed ranges.
\<close>

lemma validated_draft_bounds:
  assumes "draft_validate d = Inr v"
  shows "vd_intent v \<noteq> [] \<and> \<not> blank (od_intent d) \<and>
     length (vd_intent v) \<le> 2000 \<and> length (vd_done_when v) \<le> 2000 \<and>
     (\<forall>c \<in> set (vd_intent v) \<union> set (vd_done_when v). is_control c \<longrightarrow> c = 10 \<or> c = 9) \<and>
     1 \<le> vd_max_consecutive_failures v \<and> vd_max_consecutive_failures v \<le> 20 \<and>
     (\<forall>m. vd_max_turns v = Some m \<longrightarrow> 1 \<le> m \<and> m \<le> 10000)"
proof -
  from assms obtain i w where i: "bounded_text (od_intent d) (lit ''intent'') = Inr i" "i \<noteq> []"
    and w: "bounded_text (od_done_when d) (lit ''done_when'') = Inr w"
    and v: "vd_intent v = i" "vd_done_when v = w" "1 \<le> vd_max_consecutive_failures v"
      "vd_max_consecutive_failures v \<le> 20" "vd_max_turns v = od_max_turns d"
      "\<forall>m. od_max_turns d = Some m \<longrightarrow> 1 \<le> m \<and> m \<le> 10000"
    by (auto simp: draft_validate_def and_then_Inr_iff Let_def MAX_OBJECTIVE_MAX_TURNS_def
        MAX_OBJECTIVE_MAX_CONSECUTIVE_FAILURES_def is_some_and_def split: if_splits option.splits)
  from bounded_text_ok [OF i(1)] bounded_text_ok [OF w] i(2) v show ?thesis
    by (auto simp: blank_def)
qed

definition sample_draft :: objective_draft where
  "sample_draft = \<lparr>od_intent = [32, 104], od_done_when = [], od_max_consecutive_failures = None,
     od_max_turns = Some 5\<rparr>"

lemma validated_draft_bounds_witness:
  "\<exists>v. draft_validate sample_draft = Inr v \<and> vd_intent v \<noteq> []"
proof -
  have "\<exists>v. draft_validate sample_draft = Inr v"
    by (simp add: draft_validate_def sample_draft_def bounded_text_def trim_def trim_start_def
        trim_end_def is_whitespace_def MAX_OBJECTIVE_TEXT_CHARS_def MAX_OBJECTIVE_MAX_TURNS_def
        MAX_OBJECTIVE_MAX_CONSECUTIVE_FAILURES_def DEFAULT_OBJECTIVE_MAX_CONSECUTIVE_FAILURES_def)
  then obtain v where v: "draft_validate sample_draft = Inr v" ..
  from validated_draft_bounds [OF v] v show ?thesis by blast
qed

end
