(* ===== verification/Goal.thy ===== *)
theory Goal
  imports Session_Types
begin

text \<open>
  The provider's own goal (\<open>domain/goal.rs\<close>): the signals a provider sends, the goal that
  results from each, the current goal of a conversation, and when a finished turn completes
  it.
\<close>

section \<open>Signals\<close>

definition MAX_GOAL_CHECK_CHARS :: nat where "MAX_GOAL_CHECK_CHARS = 600"

record provider_goal_snapshot =
  gp_objective :: rstr
  gp_status :: goal_status
  gp_tokens_used :: "u64 option"
  gp_token_budget :: "u64 option"
  gp_time_used_seconds :: "u64 option"

datatype goal_signal =
    GsSet rstr
  | GsStillActive rstr u32
  | GsCheck "rstr option" rstr
  | GsPause "rstr option"
  | GsCleared
  | GsStatus goal_status
  | GsSnapshot "provider_goal_snapshot option"

definition bounded_check :: "rstr \<Rightarrow> rstr" where
  "bounded_check text =
     (let trimmed = trim text
      in if length trimmed \<le> MAX_GOAL_CHECK_CHARS then trimmed
         else take MAX_GOAL_CHECK_CHARS trimmed @ [8230])"

definition active_goal :: "rstr \<Rightarrow> u32 \<Rightarrow> rstr option \<Rightarrow> rstr \<Rightarrow> session_goal" where
  "active_goal objective checks last_check at =
     \<lparr>sg_objective = objective, sg_status = GsActive, sg_checks = checks,
      sg_last_check = last_check, sg_tokens_used = None, sg_token_budget = None,
      sg_time_used_seconds = None, sg_completes_with_turn = True, sg_updated_at = at\<rparr>"

definition same_objective :: "session_goal option \<Rightarrow> rstr \<Rightarrow> session_goal option" where
  "same_objective current objective = filter_opt (\<lambda>g. sg_objective g = objective) current"

definition checks_of :: "session_goal option \<Rightarrow> u32" where
  "checks_of g = (case g of None \<Rightarrow> 0 | Some x \<Rightarrow> sg_checks x)"

definition last_check_of :: "session_goal option \<Rightarrow> rstr option" where
  "last_check_of g = (case g of None \<Rightarrow> None | Some x \<Rightarrow> sg_last_check x)"

text \<open>
  The goal a signal asks for; \<open>None\<close> is the early return of a signal that says nothing
  about the current goal.
\<close>

definition next_goal ::
    "session_goal option \<Rightarrow> goal_signal \<Rightarrow> rstr \<Rightarrow> session_goal option option" where
  "next_goal current signal at =
     (case signal of
        GsSet objective \<Rightarrow>
          (let obj = trim objective
           in if obj = [] then None else Some (Some (active_goal obj 0 None at)))
      | GsStillActive objective checks \<Rightarrow>
          (let obj = trim objective; same = same_objective current obj
           in if obj = [] then None
              else Some (Some (active_goal obj (max checks (checks_of same)) (last_check_of same) at)))
      | GsCheck objective feedback \<Rightarrow>
          (case current of None \<Rightarrow> None
           | Some g \<Rightarrow>
               if is_some_and objective (\<lambda>o'. trim o' \<noteq> sg_objective g) then None
               else Some (Some (g\<lparr>sg_status := GsActive, sg_checks := sat_inc (sg_checks g),
                      sg_last_check := filter_opt (\<lambda>t. t \<noteq> []) (Some (bounded_check feedback)),
                      sg_updated_at := at\<rparr>)))
      | GsPause reason \<Rightarrow>
          (case current of None \<Rightarrow> None
           | Some g \<Rightarrow>
               Some (Some (g\<lparr>sg_status := GsPaused,
                 sg_last_check := or_opt (filter_opt (\<lambda>t. t \<noteq> []) (map_option bounded_check reason))
                                    (sg_last_check g),
                 sg_updated_at := at\<rparr>)))
      | GsCleared \<Rightarrow> Some None
      | GsStatus status \<Rightarrow>
          (case current of None \<Rightarrow> None
           | Some g \<Rightarrow>
               Some (Some (g\<lparr>sg_status := status,
                 sg_last_check := (if status \<noteq> GsComplete then sg_last_check g else None),
                 sg_updated_at := at\<rparr>)))
      | GsSnapshot goal \<Rightarrow>
          Some (case goal of None \<Rightarrow> None
           | Some snap \<Rightarrow>
               (let obj = trim (gp_objective snap); same = same_objective current obj
                in if obj = [] then None
                   else Some \<lparr>sg_objective = obj, sg_status = gp_status snap,
                          sg_checks = checks_of same, sg_last_check = last_check_of same,
                          sg_tokens_used = gp_tokens_used snap,
                          sg_token_budget = gp_token_budget snap,
                          sg_time_used_seconds = gp_time_used_seconds snap,
                          sg_completes_with_turn = False, sg_updated_at = at\<rparr>)))"

definition goal_unchanged :: "session_goal option \<Rightarrow> session_goal option \<Rightarrow> bool" where
  "goal_unchanged current next \<longleftrightarrow>
     (case (current, next) of
        (None, None) \<Rightarrow> True
      | (Some c, Some n) \<Rightarrow> n\<lparr>sg_updated_at := sg_updated_at c\<rparr> = c
      | _ \<Rightarrow> False)"

definition apply_goal_signal ::
    "session_goal option \<Rightarrow> goal_signal \<Rightarrow> rstr \<Rightarrow> session_goal option option" where
  "apply_goal_signal current signal at =
     (case next_goal current signal at of
        None \<Rightarrow> None
      | Some next \<Rightarrow> if goal_unchanged current next then None else Some next)"

section \<open>The goal of a conversation\<close>

definition recorded_goal :: "session_event_record \<Rightarrow> session_goal option option" where
  "recorded_goal e = (case er_kind e of GoalUpdated _ g \<Rightarrow> Some g | _ \<Rightarrow> None)"

definition latest_goal :: "session_event_record list \<Rightarrow> session_goal option option" where
  "latest_goal events = find_map recorded_goal (rev events)"

definition session_goal_of :: "session_event_record list \<Rightarrow> session_goal option" where
  "session_goal_of events = Option.bind (latest_goal (visible_session_events events)) id"

definition works_on :: "turn_id \<Rightarrow> session_event_record \<Rightarrow> bool" where
  "works_on t e \<longleftrightarrow>
     (case er_kind e of
        TurnAssistantMessageCompleted u _ _ content \<Rightarrow>
          u = t \<and> is_some_and content (\<lambda>text. \<not> blank text)
      | TurnToolCallStarted u _ _ _ _ \<Rightarrow> u = t
      | _ \<Rightarrow> False)"

definition goal_completed_by_turn ::
    "session_event_record list \<Rightarrow> turn_id \<Rightarrow> rstr \<Rightarrow> session_goal option" where
  "goal_completed_by_turn events t at =
     (let visible = visible_session_events events
      in case rposition (\<lambda>e. recorded_goal e \<noteq> None) visible of
           None \<Rightarrow> None
         | Some set_at \<Rightarrow>
             (case Option.bind (latest_goal visible) id of
                None \<Rightarrow> None
              | Some g \<Rightarrow>
                  if sg_status g \<noteq> GsActive \<or> \<not> sg_completes_with_turn g then None
                  else if list_ex (works_on t) (drop (set_at + 1) visible)
                  then Some (g\<lparr>sg_status := GsComplete, sg_updated_at := at\<rparr>)
                  else None))"

section \<open>What a signal does\<close>

lemma goal_unchanged_same_time: "goal_unchanged (Some c) (Some (c\<lparr>sg_updated_at := at\<rparr>))"
  by (simp add: goal_unchanged_def)

lemma same_objective_simps [simp]:
  "same_objective None obj = None"
  "same_objective (Some g) obj = (if sg_objective g = obj then Some g else None)"
  by (simp_all add: same_objective_def)

lemma checks_of_simps [simp]: "checks_of None = 0" "checks_of (Some g) = sg_checks g"
  and last_check_of_simps [simp]: "last_check_of None = None" "last_check_of (Some g) = sg_last_check g"
  by (simp_all add: checks_of_def last_check_of_def)

lemma active_goal_simps [simp]:
  "sg_objective (active_goal obj n l at) = obj" "sg_checks (active_goal obj n l at) = n"
  "sg_last_check (active_goal obj n l at) = l" "sg_status (active_goal obj n l at) = GsActive"
  "(active_goal obj n l at)\<lparr>sg_updated_at := at'\<rparr> = active_goal obj n l at'"
  "sg_updated_at (active_goal obj n l at) = at"
  by (simp_all add: active_goal_def)

definition is_check :: "goal_signal \<Rightarrow> bool" where
  "is_check s \<longleftrightarrow> (case s of GsCheck _ _ \<Rightarrow> True | _ \<Rightarrow> False)"

text \<open>A signal repeated at once asks for the goal that stands, unless it counts a check.\<close>

lemma next_goal_again:
  assumes "next_goal current signal at = Some g" and "\<not> is_check signal"
  shows "\<exists>n. next_goal g signal at' = Some n \<and> goal_unchanged g n \<or> next_goal g signal at' = None"
proof (cases signal)
  case (GsStillActive obj n)
  with assms(1) show ?thesis
    by (auto simp: next_goal_def Let_def goal_unchanged_def active_goal_def split: if_splits)
next
  case (GsSnapshot goal)
  with assms(1) show ?thesis
    by (cases goal) (auto simp: next_goal_def Let_def goal_unchanged_def)
next
  case (GsPause reason)
  with assms(1) obtain c where "current = Some c" by (auto simp: next_goal_def split: option.splits)
  with GsPause assms(1) show ?thesis
    by (cases "filter_opt (\<lambda>t. t \<noteq> []) (map_option bounded_check reason)")
      (auto simp: next_goal_def goal_unchanged_def)
qed (use assms in \<open>auto simp: next_goal_def Let_def goal_unchanged_def active_goal_def is_check_def
       split: if_splits option.splits\<close>)

text \<open>A goal says what it is about, in bounded feedback.\<close>

definition goal_ok :: "session_goal \<Rightarrow> bool" where
  "goal_ok g \<longleftrightarrow> sg_objective g \<noteq> [] \<and> trim (sg_objective g) = sg_objective g \<and>
     (\<forall>c. sg_last_check g = Some c \<longrightarrow> c \<noteq> [] \<and> length c \<le> 601)"

lemma length_bounded_check: "length (bounded_check t) \<le> 601"
  by (auto simp: bounded_check_def Let_def MAX_GOAL_CHECK_CHARS_def)

lemma next_goal_ok:
  assumes "\<And>c. current = Some c \<Longrightarrow> goal_ok c" and "next_goal current signal at = Some (Some g)"
  shows "goal_ok g"
proof (cases signal)
  case (GsPause reason)
  with assms(2) obtain c where "current = Some c" by (auto simp: next_goal_def split: option.splits)
  with GsPause assms show ?thesis
    by (cases reason) (auto simp: next_goal_def goal_ok_def length_bounded_check split: if_splits)
next
  case (GsCheck obj fb)
  with assms(2) obtain c where "current = Some c" by (auto simp: next_goal_def split: option.splits)
  with GsCheck assms show ?thesis
    by (auto simp: next_goal_def goal_ok_def length_bounded_check split: if_splits)
next
  case (GsSnapshot goal)
  with assms show ?thesis
    by (cases goal; cases current) (auto simp: next_goal_def Let_def goal_ok_def split: if_splits)
next
  case (GsStillActive obj n)
  with assms show ?thesis
    by (cases current) (auto simp: next_goal_def Let_def goal_ok_def split: if_splits)
qed (use assms in \<open>auto simp: next_goal_def Let_def goal_ok_def split: if_splits option.splits\<close>)

text \<open>The goals a list of signals leads to.\<close>

definition follow :: "session_goal option \<Rightarrow> (goal_signal \<times> rstr) list \<Rightarrow> session_goal option" where
  "follow g signals =
     foldl (\<lambda>c (s, at). case apply_goal_signal c s at of None \<Rightarrow> c | Some n \<Rightarrow> n) g signals"

lemma follow_ok:
  assumes "\<And>c. g = Some c \<Longrightarrow> goal_ok c" and "follow g signals = Some h"
  shows "goal_ok h"
  using assms
proof (induction signals arbitrary: g)
  case (Cons sa signals)
  obtain s at where sa: "sa = (s, at)" by (cases sa)
  show ?case
  proof (cases "apply_goal_signal g s at")
    case None
    then have "follow g signals = Some h" using Cons.prems(2) sa by (simp add: follow_def)
    with Cons.prems(1) show ?thesis by (rule Cons.IH)
  next
    case (Some n)
    then have n: "next_goal g s at = Some n"
      by (auto simp: apply_goal_signal_def split: option.splits if_splits)
    show ?thesis
    proof (rule Cons.IH)
      show "goal_ok c" if "n = Some c" for c
        by (rule next_goal_ok [OF Cons.prems(1)]) (use n that in auto)
      show "follow n signals = Some h" using Cons.prems(2) Some sa by (simp add: follow_def)
    qed
  qed
qed (simp add: follow_def)

lemma latest_goal_at:
  assumes "events = h1 @ e # h2" and "recorded_goal e = Some g" and "\<forall>x \<in> set h2. recorded_goal x = None"
  shows "latest_goal events = Some g"
proof -
  have "find_map recorded_goal (rev h2) = None" using assms(3) by (simp add: find_map_None_iff)
  with assms show ?thesis by (simp add: latest_goal_def find_map_append)
qed

section \<open>Properties\<close>

text \<open>
  starting without a goal, whatever signals a provider sends, the goal of the session
  always has a trimmed, non-empty objective, and the feedback kept from a check is never
  empty and never longer than 601 characters.
\<close>

lemma followed_goal_is_well_formed:
  assumes "follow None signals = Some g"
  shows "sg_objective g \<noteq> [] \<and> trim (sg_objective g) = sg_objective g \<and>
     (\<forall>c. sg_last_check g = Some c \<longrightarrow> c \<noteq> [] \<and> length c \<le> 601)"
  using follow_ok [OF _ assms] by (simp add: goal_ok_def)

definition sample_signals :: "(goal_signal \<times> rstr) list" where
  "sample_signals = [(GsSet [32, 104], [1]), (GsCheck None [105, 32], [2])]"

lemma follow_sample: "follow None sample_signals = Some (active_goal [104] 1 (Some [105]) [2])"
  by (simp add: follow_def sample_signals_def apply_goal_signal_def next_goal_def goal_unchanged_def
      trim_def trim_start_def trim_end_def is_whitespace_def bounded_check_def sat_inc_def
      MAX_GOAL_CHECK_CHARS_def active_goal_def)

lemma followed_goal_is_well_formed_witness: "trim [104] = [104 :: uchar]"
  using followed_goal_is_well_formed [OF follow_sample] by simp

text \<open>
  A provider that repeats itself changes nothing: a signal applied to the goal it has just
  produced is no change, at whatever time it arrives. Only a check counts again.
\<close>

lemma repeated_goal_signal_changes_nothing:
  assumes "apply_goal_signal current signal at = Some g" and "\<not> is_check signal"
  shows "apply_goal_signal g signal at' = None"
proof -
  from assms(1) have "next_goal current signal at = Some g"
    by (auto simp: apply_goal_signal_def split: option.splits if_splits)
  from next_goal_again [OF this assms(2), of at'] show ?thesis
    by (auto simp: apply_goal_signal_def)
qed

lemma repeated_goal_signal_changes_nothing_witness:
  "apply_goal_signal (Some (active_goal [104] 0 None [1])) (GsSet [32, 104]) [9] = None"
  by (rule repeated_goal_signal_changes_nothing [of None _ "[1]"])
    (simp_all add: apply_goal_signal_def next_goal_def goal_unchanged_def is_check_def
      trim_def trim_start_def trim_end_def is_whitespace_def)

text \<open>
  a finished turn completes a goal only when that goal is the last one recorded in the
  visible conversation, was active, belongs to a provider that never reports completion, and
  the turn answered or used a tool after the goal was recorded. Completing changes nothing but
  the status and the time.
\<close>

lemma goal_completion_needs_work:
  assumes "goal_completed_by_turn events t at = Some g"
  shows "\<exists>h1 e h2 g0. visible_session_events events = h1 @ e # h2 \<and>
     recorded_goal e = Some (Some g0) \<and> (\<forall>x \<in> set h2. recorded_goal x = None) \<and>
     session_goal_of events = Some g0 \<and> sg_status g0 = GsActive \<and> sg_completes_with_turn g0 \<and>
     g = g0\<lparr>sg_status := GsComplete, sg_updated_at := at\<rparr> \<and> (\<exists>w \<in> set h2. works_on t w)"
proof -
  let ?v = "visible_session_events events"
  from assms obtain i g0 where pos: "rposition (\<lambda>e. recorded_goal e \<noteq> None) ?v = Some i"
    and g0: "Option.bind (latest_goal ?v) id = Some g0" and on: "sg_status g0 = GsActive"
      "sg_completes_with_turn g0" and worked: "list_ex (works_on t) (drop (i + 1) ?v)"
    and g: "g = g0\<lparr>sg_status := GsComplete, sg_updated_at := at\<rparr>"
    by (auto simp: goal_completed_by_turn_def Let_def split: option.splits if_splits)
  from rposition_SomeD [OF pos] have split: "?v = take i ?v @ ?v ! i # drop (Suc i) ?v"
    and at_i: "recorded_goal (?v ! i) \<noteq> None"
    and later: "\<forall>x \<in> set (drop (Suc i) ?v). recorded_goal x = None" by auto
  from at_i obtain r where r: "recorded_goal (?v ! i) = Some r" by auto
  with latest_goal_at [OF split _ later] have "latest_goal ?v = Some r" by blast
  with g0 r have "recorded_goal (?v ! i) = Some (Some g0)" by (cases r) auto
  with split later g0 on worked g show ?thesis
    by (auto simp: session_goal_of_def list_ex_iff)
qed

definition goal_event :: "nat \<Rightarrow> session_event_kind \<Rightarrow> session_event_record" where
  "goal_event n k = \<lparr>er_event_id = [n], er_session_id = SessionId [1], er_sequence = word_of_nat n,
     er_occurred_at = [50], er_kind = k\<rparr>"

definition goal_history :: "session_event_record list" where
  "goal_history =
     [goal_event 1 (GoalUpdated None (Some (active_goal [104] 0 None [1]))),
      goal_event 2 (TurnToolCallStarted (TurnId [21]) [3] [4] None None)]"

lemma goal_completion_needs_work_witness:
  "session_goal_of goal_history = Some (active_goal [104] 0 None [1])"
proof -
  have run: "goal_completed_by_turn goal_history (TurnId [21]) [9] =
      Some ((active_goal [104] 0 None [1])\<lparr>sg_status := GsComplete, sg_updated_at := [9]\<rparr>)"
    by (simp add: goal_completed_by_turn_def goal_history_def goal_event_def visible_eq_filter
        in_conversation_def rewound_turn_ids_def removed_turns_def recorded_goal_def rposition_def
        latest_goal_def works_on_def active_goal_def)
  from goal_completion_needs_work [OF run] obtain g0 where g0: "session_goal_of goal_history = Some g0"
    "sg_status g0 = GsActive"
    "(active_goal [104] 0 None [1])\<lparr>sg_status := GsComplete, sg_updated_at := [9]\<rparr> =
       g0\<lparr>sg_status := GsComplete, sg_updated_at := [9]\<rparr>" by blast
  then show ?thesis
    by (simp add: session_goal_of_def goal_history_def goal_event_def visible_eq_filter
        in_conversation_def rewound_turn_ids_def removed_turns_def recorded_goal_def latest_goal_def)
qed

end
