(* ===== verification/Usage_Limit.thy ===== *)
theory Usage_Limit
  imports Session_Projection
begin

text \<open>
  Provider usage limits (\<open>domain/usage_limit.rs\<close>): the limit that stopped a session, derived
  from its events, the phase it is in at a given time, and when it resumes by itself.

  Times are nanoseconds since the epoch, as chrono's \<open>DateTime<Utc>\<close> compares them;
  \<open>parse_time\<close> stands for its RFC 3339 parser. \<open>to_lower\<close> and \<open>rfc3339\<close> stand for
  Unicode lower-casing and for the formatting of an epoch second.
\<close>

section \<open>Limits and phases\<close>

definition MAX_AUTO_RESUMES :: u32 where "MAX_AUTO_RESUMES = 3"
definition nanos_per_sec :: int where "nanos_per_sec = 1000000000"
definition AUTO_RESUME_WINDOW :: int where "AUTO_RESUME_WINDOW = 12 * 3600 * nanos_per_sec"
definition RESUME_SLACK_MIN_SECS :: int where "RESUME_SLACK_MIN_SECS = 60"
definition RESUME_SLACK_MAX_SECS :: int where "RESUME_SLACK_MAX_SECS = 180"
definition CONTINUATION_PROMPT :: rstr where "CONTINUATION_PROMPT = lit ''Continue de onde parou.''"

text \<open>The sentence that names the last finished step; code points 250 and 237 are its accented letters.\<close>

definition LAST_STEP_TEXT :: rstr where
  "LAST_STEP_TEXT = lit '' A '' @ [250] @ lit ''ltima etapa conclu'' @ [237] @ lit ''da foi: ''"

definition continuation_prompt :: "rstr option \<Rightarrow> rstr" where
  "continuation_prompt last_step =
     (case filter_opt (\<lambda>s. s \<noteq> []) (map_option trim last_step) of
        Some step \<Rightarrow> CONTINUATION_PROMPT @ LAST_STEP_TEXT @ take 200 step @ lit ''.''
      | None \<Rightarrow> CONTINUATION_PROMPT)"

record session_usage_limit =
  ul_turn_id :: turn_id
  ul_hit_at :: rstr
  ul_resets_at :: "rstr option"
  ul_auto_resume :: bool
  ul_auto_resumes_used :: u32

datatype usage_limit_phase = Waiting | Paused

datatype usage_limit_pause_reason = UnknownReset | ResetPassed | AttemptsExhausted

type_synonym usage_limit_status = "usage_limit_phase \<times> usage_limit_pause_reason option"

definition usage_limit_phase_at ::
    "(rstr \<Rightarrow> int option) \<Rightarrow> session_usage_limit \<Rightarrow> int \<Rightarrow> usage_limit_status" where
  "usage_limit_phase_at parse_time limit now =
     (case Option.bind (ul_resets_at limit) parse_time of
        None \<Rightarrow> (Paused, Some UnknownReset)
      | Some resets_at \<Rightarrow>
          if ul_auto_resume limit \<and> MAX_AUTO_RESUMES \<le> ul_auto_resumes_used limit
          then (Paused, Some AttemptsExhausted)
          else if now < resets_at \<or> ul_auto_resume limit then (Waiting, None)
          else (Paused, Some ResetPassed))"

definition clamp :: "int \<Rightarrow> int \<Rightarrow> int \<Rightarrow> int" where
  "clamp lo hi x = max lo (min hi x)"

definition auto_resume_due_at ::
    "(rstr \<Rightarrow> int option) \<Rightarrow> session_usage_limit \<Rightarrow> int \<Rightarrow> int \<Rightarrow> int option" where
  "auto_resume_due_at parse_time limit slack_secs now =
     (if \<not> ul_auto_resume limit \<or> fst (usage_limit_phase_at parse_time limit now) \<noteq> Waiting
      then None
      else map_option
        (\<lambda>r. r + clamp RESUME_SLACK_MIN_SECS RESUME_SLACK_MAX_SECS slack_secs * nanos_per_sec)
        (Option.bind (ul_resets_at limit) parse_time))"

section \<open>Automatic resumes\<close>

definition is_auto_resume :: "session_event_record \<Rightarrow> bool" where
  "is_auto_resume e \<longleftrightarrow> (case er_kind e of UsageLimitResumed automatic _ _ \<Rightarrow> automatic | _ \<Rightarrow> False)"

definition auto_resumes_before ::
    "(rstr \<Rightarrow> int option) \<Rightarrow> session_event_record list \<Rightarrow> int \<Rightarrow> u32" where
  "auto_resumes_before parse_time events at =
     (let since = at - AUTO_RESUME_WINDOW;
          times = List.map_filter (\<lambda>e. parse_time (er_occurred_at e)) (filter is_auto_resume events)
      in word_of_nat (length (filter (\<lambda>t. since < t \<and> t \<le> at) times)))"

definition paused_at_hit ::
    "(rstr \<Rightarrow> int option) \<Rightarrow> session_event_record list \<Rightarrow> rstr option \<Rightarrow> bool \<Rightarrow> int \<Rightarrow> bool" where
  "paused_at_hit parse_time events resets_at auto_resume at \<longleftrightarrow>
     Option.bind resets_at parse_time = None \<or>
     (auto_resume \<and> MAX_AUTO_RESUMES \<le> auto_resumes_before parse_time events at)"

definition auto_resume_choice :: "session_event_record \<Rightarrow> bool option" where
  "auto_resume_choice e =
     (case er_kind e of UsageLimitAutoResumeChanged enabled \<Rightarrow> Some enabled | _ \<Rightarrow> None)"

definition session_auto_resume_choice :: "session_event_record list \<Rightarrow> bool option" where
  "session_auto_resume_choice events = find_map auto_resume_choice (rev events)"

section \<open>The limit that stands\<close>

record limit_scan =
  ls_latest_turn :: "turn_id option"
  ls_ended_at :: "rstr option"
  ls_resets_at :: "rstr option"
  ls_auto_resume_at_hit :: "bool option"
  ls_hit_seq :: "u64 option"
  ls_closed :: bool

definition limit_scan_init :: limit_scan where
  "limit_scan_init =
     \<lparr>ls_latest_turn = None, ls_ended_at = None, ls_resets_at = None,
      ls_auto_resume_at_hit = None, ls_hit_seq = None, ls_closed = False\<rparr>"

definition limit_scan_step :: "limit_scan \<Rightarrow> session_event_record \<Rightarrow> limit_scan" where
  "limit_scan_step s e =
     (case er_kind e of
        TurnStarted t _ _ _ _ _ _ \<Rightarrow>
          \<lparr>ls_latest_turn = Some t, ls_ended_at = None, ls_resets_at = None,
           ls_auto_resume_at_hit = None, ls_hit_seq = None, ls_closed = False\<rparr>
      | TurnAborted t _ \<Rightarrow>
          if ls_latest_turn s = Some t then s\<lparr>ls_ended_at := Some (er_occurred_at e)\<rparr> else s
      | TurnCompleted t \<Rightarrow>
          if ls_latest_turn s = Some t
          then s\<lparr>ls_hit_seq := None, ls_auto_resume_at_hit := None\<rparr> else s
      | UsageLimitReached t reported auto_resume _ \<Rightarrow>
          if ls_latest_turn s = Some t
          then s\<lparr>ls_resets_at := or_opt reported (ls_resets_at s),
                 ls_auto_resume_at_hit := or_opt (ls_auto_resume_at_hit s) (Some auto_resume),
                 ls_hit_seq := or_opt (ls_hit_seq s) (Some (er_sequence e))\<rparr>
          else s
      | SessionCompleted \<Rightarrow> s\<lparr>ls_closed := True\<rparr>
      | SessionAborted _ \<Rightarrow> s\<lparr>ls_closed := True\<rparr>
      | _ \<Rightarrow> s)"

definition limit_scan_of :: "session_event_record list \<Rightarrow> limit_scan" where
  "limit_scan_of h = foldl limit_scan_step limit_scan_init h"

definition unwrap_or :: "'a \<Rightarrow> 'a option \<Rightarrow> 'a" where
  "unwrap_or d x = (case x of Some y \<Rightarrow> y | None \<Rightarrow> d)"

definition session_usage_limit_of ::
    "(rstr \<Rightarrow> int option) \<Rightarrow> session_event_record list \<Rightarrow> session_usage_limit option" where
  "session_usage_limit_of parse_time events =
     (let visible = visible_session_events events; s = limit_scan_of visible
      in case (ls_latest_turn s, ls_ended_at s, ls_hit_seq s) of
           (Some t, Some hit_at, Some hit_seq) \<Rightarrow>
             if ls_closed s then None
             else
               let changed = find_map auto_resume_choice
                     (takeWhile (\<lambda>e. hit_seq < er_sequence e) (rev visible));
                   auto_resume = unwrap_or False (or_opt changed (ls_auto_resume_at_hit s));
                   used = (case parse_time hit_at of
                             Some at \<Rightarrow> auto_resumes_before parse_time events at | None \<Rightarrow> 0)
               in Some \<lparr>ul_turn_id = t, ul_hit_at = hit_at, ul_resets_at = ls_resets_at s,
                        ul_auto_resume = auto_resume, ul_auto_resumes_used = used\<rparr>
         | _ \<Rightarrow> None)"

section \<open>Limits recognised in a failure text\<close>

definition contains_str :: "rstr \<Rightarrow> rstr \<Rightarrow> bool" where
  "contains_str s p \<longleftrightarrow> list_ex (\<lambda>n. starts_with (drop n s) p) [0..<length s + 1]"

text \<open>\<open>str::split_once\<close> with a character.\<close>

definition split_once :: "uchar \<Rightarrow> rstr \<Rightarrow> (rstr \<times> rstr) option" where
  "split_once c s = map_option (\<lambda>i. (take i s, drop (i + 1) s)) (position (\<lambda>x. x = c) s)"

text \<open>\<open>str::parse::<i64>\<close>.\<close>

definition parse_i64 :: "rstr \<Rightarrow> int option" where
  "parse_i64 s =
     (let negative = starts_with s [45];
          digits = (if negative \<or> starts_with s [43] then tl s else s);
          magnitude = foldl (\<lambda>a c. a * 10 + int (c - 48)) 0 digits;
          value = (if negative then - magnitude else magnitude)
      in if digits \<noteq> [] \<and> list_all is_ascii_digit digits \<and> - (2 ^ 63) \<le> value \<and> value < 2 ^ 63
         then Some value else None)"

definition usage_limit_from_failure_message ::
    "(rstr \<Rightarrow> rstr) \<Rightarrow> (int \<Rightarrow> rstr option) \<Rightarrow> rstr \<Rightarrow> rstr option option" where
  "usage_limit_from_failure_message to_lower rfc3339 message =
     (let text = trim message; lower = to_lower text;
          hit_your = contains_str lower (lit ''you'' @ [39] @ lit ''ve hit your'')
                     \<or> contains_str lower (lit ''you'' @ [8217] @ lit ''ve hit your'');
          plan_limit = (hit_your \<and> contains_str lower (lit ''limit'')
                          \<and> \<not> contains_str lower (lit ''fast limit''))
                       \<or> contains_str lower (lit ''claude ai usage limit reached'')
      in case filter_opt (\<lambda>(head, tail). contains_str (to_lower head) (lit ''usage limit reached''))
                (split_once 124 text) of
           Some (head, tail) \<Rightarrow>
             Some (Option.bind
               (map_option (\<lambda>v. if v > 10000000000 then v div 1000 else v) (parse_i64 (trim tail)))
               rfc3339)
         | None \<Rightarrow> if plan_limit then Some None else None)"

section \<open>What the scan finds\<close>

lemma limit_scan_snoc [simp]: "limit_scan_of (h @ [e]) = limit_scan_step (limit_scan_of h) e"
  and limit_scan_Nil [simp]: "limit_scan_of [] = limit_scan_init"
  by (simp_all add: limit_scan_of_def)

text \<open>The part of the history the scan's state is about: everything since the last start.\<close>

definition aborts_at :: "turn_id \<Rightarrow> rstr \<Rightarrow> session_event_record \<Rightarrow> bool" where
  "aborts_at t at e \<longleftrightarrow> (\<exists>r. er_kind e = TurnAborted t r) \<and> er_occurred_at e = at"

definition reaches_limit :: "turn_id \<Rightarrow> session_event_record \<Rightarrow> bool" where
  "reaches_limit t e \<longleftrightarrow> (\<exists>r a p. er_kind e = UsageLimitReached t r a p)"

definition ends_session :: "session_event_record \<Rightarrow> bool" where
  "ends_session e \<longleftrightarrow> er_kind e = SessionCompleted \<or> (\<exists>r. er_kind e = SessionAborted r)"

definition scan_at :: "session_event_record list \<Rightarrow> limit_scan \<Rightarrow> turn_id \<Rightarrow> bool" where
  "scan_at h s t \<longleftrightarrow>
     (\<exists>h1 e h2. h = h1 @ e # h2 \<and> starts_turn t (er_kind e) \<and>
        (\<forall>x \<in> set h2. \<not> is_turn_started (er_kind x)) \<and>
        (\<forall>at. ls_ended_at s = Some at \<longrightarrow> (\<exists>x \<in> set h2. aborts_at t at x)) \<and>
        (ls_hit_seq s \<noteq> None \<longrightarrow> (\<exists>x \<in> set h2. reaches_limit t x)) \<and>
        (\<not> ls_closed s \<longrightarrow> (\<forall>x \<in> set h2. \<not> ends_session x)))"

lemma limit_scan_step_keeps:
  assumes "\<not> is_turn_started (er_kind e)"
  shows "ls_latest_turn (limit_scan_step s e) = ls_latest_turn s"
    and "ls_ended_at (limit_scan_step s e) = Some at \<Longrightarrow>
      ls_ended_at s = Some at \<or> (\<exists>t. ls_latest_turn s = Some t \<and> aborts_at t at e)"
    and "ls_hit_seq (limit_scan_step s e) \<noteq> None \<Longrightarrow>
      ls_hit_seq s \<noteq> None \<or> (\<exists>t. ls_latest_turn s = Some t \<and> reaches_limit t e)"
    and "\<not> ls_closed (limit_scan_step s e) \<longleftrightarrow> \<not> ls_closed s \<and> \<not> ends_session e"
  using assms
  by (cases "er_kind e"; auto simp: limit_scan_step_def is_turn_started_def aborts_at_def
      reaches_limit_def ends_session_def split: if_splits)+

lemma limit_scan_at: "ls_latest_turn (limit_scan_of h) = Some t \<Longrightarrow> scan_at h (limit_scan_of h) t"
proof (induction h arbitrary: t rule: rev_induct)
  case Nil
  then show ?case by (simp add: limit_scan_init_def)
next
  case (snoc e h)
  let ?s = "limit_scan_of h"
  show ?case
  proof (cases "is_turn_started (er_kind e)")
    case True
    with snoc.prems have "starts_turn t (er_kind e)"
      and "limit_scan_step ?s e = \<lparr>ls_latest_turn = Some t, ls_ended_at = None, ls_resets_at = None,
           ls_auto_resume_at_hit = None, ls_hit_seq = None, ls_closed = False\<rparr>"
      by (cases "er_kind e"; simp add: is_turn_started_def starts_turn_def limit_scan_step_def)+
    then show ?thesis
      unfolding scan_at_def by (intro exI [of _ h] exI [of _ e] exI [of _ "[]"]) simp
  next
    case no_start: False
    note keep = limit_scan_step_keeps [OF no_start, of ?s]
    from snoc.prems keep(1) have latest: "ls_latest_turn ?s = Some t" by simp
    from snoc.IH [OF this] obtain h1 d h2 where h: "h = h1 @ d # h2" and d: "starts_turn t (er_kind d)"
      and ns: "\<forall>x \<in> set h2. \<not> is_turn_started (er_kind x)"
      and ended: "\<forall>at. ls_ended_at ?s = Some at \<longrightarrow> (\<exists>x \<in> set h2. aborts_at t at x)"
      and hit: "ls_hit_seq ?s \<noteq> None \<longrightarrow> (\<exists>x \<in> set h2. reaches_limit t x)"
      and opn: "\<not> ls_closed ?s \<longrightarrow> (\<forall>x \<in> set h2. \<not> ends_session x)"
      unfolding scan_at_def by blast
    have "\<forall>at. ls_ended_at (limit_scan_step ?s e) = Some at \<longrightarrow>
        (\<exists>x \<in> set (h2 @ [e]). aborts_at t at x)"
      using keep(2) ended latest by fastforce
    moreover have "ls_hit_seq (limit_scan_step ?s e) \<noteq> None \<longrightarrow>
        (\<exists>x \<in> set (h2 @ [e]). reaches_limit t x)"
      using keep(3) hit latest by fastforce
    moreover have "\<not> ls_closed (limit_scan_step ?s e) \<longrightarrow> (\<forall>x \<in> set (h2 @ [e]). \<not> ends_session x)"
      using keep(4) opn by auto
    ultimately show ?thesis
      unfolding scan_at_def limit_scan_snoc using h d ns no_start
      by (intro exI [of _ h1] exI [of _ d] exI [of _ "h2 @ [e]"]) simp
  qed
qed

section \<open>Properties\<close>

text \<open>
  C9: a standing limit names the turn the conversation started last; that turn was stopped by
  the provider's limit and aborted at the recorded time, and neither a later turn nor the end
  of the session has cleared it.
\<close>

theorem standing_limit_stopped_latest_turn:
  assumes "session_usage_limit_of parse_time events = Some l"
  shows "\<exists>h1 e h2. visible_session_events events = h1 @ e # h2 \<and>
     starts_turn (ul_turn_id l) (er_kind e) \<and>
     (\<forall>x \<in> set h2. \<not> is_turn_started (er_kind x) \<and> \<not> ends_session x) \<and>
     (\<exists>x \<in> set h2. aborts_at (ul_turn_id l) (ul_hit_at l) x) \<and>
     (\<exists>x \<in> set h2. reaches_limit (ul_turn_id l) x)"
proof -
  let ?s = "limit_scan_of (visible_session_events events)"
  from assms have "ls_latest_turn ?s = Some (ul_turn_id l)" "ls_ended_at ?s = Some (ul_hit_at l)"
    "ls_hit_seq ?s \<noteq> None" "\<not> ls_closed ?s"
    by (auto simp: session_usage_limit_of_def Let_def split: option.splits if_splits)
  with limit_scan_at [of "visible_session_events events"] show ?thesis
    unfolding scan_at_def by blast
qed

text \<open>
  an automatic resume is due only for a limit that chose it, whose reset is known, after
  fewer than three automatic resumes in the window, and between one and three minutes after
  the reset.
\<close>

lemma auto_resume_due_is_bounded:
  assumes "auto_resume_due_at parse_time l slack now = Some due"
  shows "ul_auto_resume l \<and> ul_auto_resumes_used l < MAX_AUTO_RESUMES \<and>
     (\<exists>r. Option.bind (ul_resets_at l) parse_time = Some r \<and>
        r + 60 * nanos_per_sec \<le> due \<and> due \<le> r + 180 * nanos_per_sec)"
proof -
  from assms obtain r where r: "Option.bind (ul_resets_at l) parse_time = Some r"
    and due: "due = r + clamp RESUME_SLACK_MIN_SECS RESUME_SLACK_MAX_SECS slack * nanos_per_sec"
    and on: "ul_auto_resume l" "fst (usage_limit_phase_at parse_time l now) = Waiting"
    by (auto simp: auto_resume_due_at_def split: if_splits)
  then have "ul_auto_resumes_used l < MAX_AUTO_RESUMES"
    by (auto simp: usage_limit_phase_at_def split: if_splits)
  with r due on show ?thesis
    by (simp add: clamp_def RESUME_SLACK_MIN_SECS_def RESUME_SLACK_MAX_SECS_def nanos_per_sec_def)
qed

text \<open>
  The answer given when the limit is hit and the phase derived later agree: before the
  reset, a standing limit is paused exactly when it was paused at the hit.
\<close>

lemma phase_agrees_with_hit:
  assumes "session_usage_limit_of parse_time events = Some l"
    and "parse_time (ul_hit_at l) = Some at"
    and "\<forall>r. Option.bind (ul_resets_at l) parse_time = Some r \<longrightarrow> now < r"
  shows "fst (usage_limit_phase_at parse_time l now) = Paused \<longleftrightarrow>
     paused_at_hit parse_time events (ul_resets_at l) (ul_auto_resume l) at"
proof -
  from assms(1,2) have "ul_auto_resumes_used l = auto_resumes_before parse_time events at"
    by (auto simp: session_usage_limit_of_def Let_def split: option.splits if_splits)
  with assms(3) show ?thesis
    by (auto simp: usage_limit_phase_at_def paused_at_hit_def split: option.splits)
qed

definition limit_event :: "nat \<Rightarrow> session_event_kind \<Rightarrow> session_event_record" where
  "limit_event n k =
     \<lparr>er_event_id = [n], er_session_id = SessionId [1], er_sequence = word_of_nat n,
      er_occurred_at = [n], er_kind = k\<rparr>"

definition limit_history :: "session_event_record list" where
  "limit_history =
     [limit_event 1 (TurnStarted (TurnId [21]) [104] None None None None None),
      limit_event 2 (UsageLimitReached (TurnId [21]) (Some [9]) True False),
      limit_event 3 (TurnAborted (TurnId [21]) None)]"

definition sample_time :: "rstr \<Rightarrow> int option" where
  "sample_time s = (case s of [n] \<Rightarrow> Some (int n) | _ \<Rightarrow> None)"

definition sample_limit :: session_usage_limit where
  "sample_limit = \<lparr>ul_turn_id = TurnId [21], ul_hit_at = [3], ul_resets_at = Some [9],
     ul_auto_resume = True, ul_auto_resumes_used = 0\<rparr>"

lemma limit_history_limit: "session_usage_limit_of sample_time limit_history = Some sample_limit"
  by (simp add: session_usage_limit_of_def limit_history_def limit_event_def visible_eq_filter
      in_conversation_def rewound_turn_ids_def removed_turns_def limit_scan_of_def
      limit_scan_init_def limit_scan_step_def Let_def sample_limit_def unwrap_or_def
      auto_resume_choice_def auto_resumes_before_def sample_time_def is_auto_resume_def
      List.map_filter_def)

lemma standing_limit_stopped_latest_turn_witness:
  "\<exists>x \<in> set limit_history. reaches_limit (TurnId [21]) x"
proof -
  have "\<exists>x \<in> set (visible_session_events limit_history). reaches_limit (TurnId [21]) x"
    using standing_limit_stopped_latest_turn [OF limit_history_limit]
    by (auto simp: sample_limit_def)
  then show ?thesis by (auto simp: visible_eq_filter)
qed

lemma auto_resume_due_is_bounded_witness:
  "\<exists>due. auto_resume_due_at sample_time sample_limit 500 4 = Some due \<and>
     due \<le> 9 + 180 * nanos_per_sec"
proof -
  obtain due where due: "auto_resume_due_at sample_time sample_limit 500 4 = Some due"
    by (simp add: auto_resume_due_at_def usage_limit_phase_at_def sample_limit_def sample_time_def
        MAX_AUTO_RESUMES_def)
  from auto_resume_due_is_bounded [OF due] due show ?thesis
    by (auto simp: sample_limit_def sample_time_def)
qed

lemma phase_agrees_with_hit_witness:
  "fst (usage_limit_phase_at sample_time sample_limit 4) = Paused \<longleftrightarrow>
     paused_at_hit sample_time limit_history (Some [9]) True 3"
  using phase_agrees_with_hit [OF limit_history_limit, of 3 4]
  by (simp add: sample_limit_def sample_time_def)

end
