(* ===== verification/Undo_Types.thy ===== *)
theory Undo_Types
  imports Byte_Encoding Session_Types
begin

text \<open>
  The persisted vocabulary of guarded undo (\<open>domain/guarded_undo.rs\<close>): the closed string
  enumerations with their \<open>Unknown\<close> case, the three lifecycles, and the opaque repository
  paths with their validation. A lifecycle is the locale \<open>lifecycle\<close>: an edge relation and a
  rank that every proper edge raises.
\<close>

section \<open>Limits and identifiers\<close>

definition RESTORE_CAPTURE_VERSION :: u32 where "RESTORE_CAPTURE_VERSION = 2"
definition RESTORE_MANIFEST_SCHEMA_VERSION :: u32 where "RESTORE_MANIFEST_SCHEMA_VERSION = 1"
definition GIT_IDENTITY_SCHEMA_VERSION :: u32 where "GIT_IDENTITY_SCHEMA_VERSION = 2"
definition FILE_METADATA_SCHEMA_VERSION :: u32 where "FILE_METADATA_SCHEMA_VERSION = 1"
definition PREPARED_IDENTITY_SCHEMA_VERSION :: u32 where "PREPARED_IDENTITY_SCHEMA_VERSION = 2"
definition RECOVERY_DETAILS_SCHEMA_VERSION :: u32 where "RECOVERY_DETAILS_SCHEMA_VERSION = 1"
definition UNDO_JOURNAL_SCHEMA_VERSION :: u32 where "UNDO_JOURNAL_SCHEMA_VERSION = 1"
definition MAX_RESTORE_FILES :: u32 where "MAX_RESTORE_FILES = 256"
definition MAX_PREIMAGE_BYTES_PER_FILE :: u64 where "MAX_PREIMAGE_BYTES_PER_FILE = 8388608"
definition MAX_PREIMAGE_BYTES_PER_SET :: u64 where "MAX_PREIMAGE_BYTES_PER_SET = 33554432"
definition MAX_INDEX_BYTES :: u64 where "MAX_INDEX_BYTES = 67108864"
definition MAX_OPAQUE_PATH_BYTES :: nat where "MAX_OPAQUE_PATH_BYTES = 4096"
definition MAX_IDENTITY_BYTES :: nat where "MAX_IDENTITY_BYTES = 1024"
definition MAX_METADATA_FIELDS :: nat where "MAX_METADATA_FIELDS = 8"
definition MAX_METADATA_VALUE_BYTES :: nat where "MAX_METADATA_VALUE_BYTES = 64"

definition PATH_ENCODING_VERSION :: u8 where "PATH_ENCODING_VERSION = 1"
definition PATH_ENCODING_UNIX_BYTES :: u8 where "PATH_ENCODING_UNIX_BYTES = 1"
definition PATH_ENCODING_WINDOWS_WTF16_LE :: u8 where "PATH_ENCODING_WINDOWS_WTF16_LE = 2"

section \<open>Stable labels and reason codes\<close>

definition valid_stable_label :: "rstr \<Rightarrow> bool" where
  "valid_stable_label v \<longleftrightarrow>
     v \<noteq> [] \<and> byte_len v \<le> 64 \<and>
     list_all (\<lambda>c. is_ascii_lowercase c \<or> is_ascii_digit c \<or> c = 95) v"

text \<open>The closed list of reason codes, in the order of the source.\<close>

datatype (plugins only: code size) reason_code =
    GrCaptureV1EvidenceOnly | GrCaptureV2Missing | GrCaptureInterrupted |
    GrUnknownCaptureVersion | GrSchemaUnsupported | GrInvalidPersistedRecord |
    GrNoTargetChanges | GrRetentionExpired | GrMultipleRoots | GrDetachedHead |
    GrBareRepository | GrHeadChanged | GrRefChanged | GrIndexChanged | GrIndexUnreadable |
    GrRepositoryIdentityChanged | GrUnsupportedStatus | GrUnmergedPath | GrUntrackedPath |
    GrSymlinkOrReparsePoint | GrHardlinkUnsupported | GrSubmodule | GrNonRegularFile |
    GrMetadataChanged | GrGitFilterPresent | GrWorkingTreeEncodingPresent |
    GrSparseOrSkipWorktree | GrTooManyBaselineFiles | GrBaselineTooLarge | GrTooManyFiles |
    GrFileTooLarge | GrSetTooLarge | GrIndexTooLarge | GrCaptureTimeout | GrCaptureRace |
    GrArtifactMissing | GrArtifactCorrupt | GrPermissionDenied | GrIoError |
    GrWorkspaceMissing | GrTargetMissing | GrTargetResultMismatch | GrPreviewExpired |
    GrPreviewConsumed | GrPreviewContextChanged | GrMutationInProgress | GrAdapterUnsupported |
    GrOperationInterrupted | GrConcurrentWorkspaceMutation | GrAppInstanceConflict |
    GrArtifactStoreUnsafe | GrFilesystemUnsupported | GrInsufficientDiskSpace |
    GrPathAliasCollision | GrExtendedMetadataUnsupported | GrGitAttributesChanged |
    GrTrackedManifestChanged | GrAssumeUnchanged | GrDisplacedTargetMismatch |
    GrDisplacedFileMissing | GrDisplacedFileCorrupt | GrRecoveryTargetChanged |
    GrExchangeRollbackFailed | GrManualRecoveryRequired | GrUnknown rstr

primrec reason_text :: "reason_code \<Rightarrow> rstr" where
  "reason_text GrCaptureV1EvidenceOnly = lit ''capture_v1_evidence_only''"
| "reason_text GrCaptureV2Missing = lit ''capture_v2_missing''"
| "reason_text GrCaptureInterrupted = lit ''capture_interrupted''"
| "reason_text GrUnknownCaptureVersion = lit ''unknown_capture_version''"
| "reason_text GrSchemaUnsupported = lit ''schema_unsupported''"
| "reason_text GrInvalidPersistedRecord = lit ''invalid_persisted_record''"
| "reason_text GrNoTargetChanges = lit ''no_target_changes''"
| "reason_text GrRetentionExpired = lit ''retention_expired''"
| "reason_text GrMultipleRoots = lit ''multiple_roots''"
| "reason_text GrDetachedHead = lit ''detached_head''"
| "reason_text GrBareRepository = lit ''bare_repository''"
| "reason_text GrHeadChanged = lit ''head_changed''"
| "reason_text GrRefChanged = lit ''ref_changed''"
| "reason_text GrIndexChanged = lit ''index_changed''"
| "reason_text GrIndexUnreadable = lit ''index_unreadable''"
| "reason_text GrRepositoryIdentityChanged = lit ''repository_identity_changed''"
| "reason_text GrUnsupportedStatus = lit ''unsupported_status''"
| "reason_text GrUnmergedPath = lit ''unmerged_path''"
| "reason_text GrUntrackedPath = lit ''untracked_path''"
| "reason_text GrSymlinkOrReparsePoint = lit ''symlink_or_reparse_point''"
| "reason_text GrHardlinkUnsupported = lit ''hardlink_unsupported''"
| "reason_text GrSubmodule = lit ''submodule''"
| "reason_text GrNonRegularFile = lit ''non_regular_file''"
| "reason_text GrMetadataChanged = lit ''metadata_changed''"
| "reason_text GrGitFilterPresent = lit ''git_filter_present''"
| "reason_text GrWorkingTreeEncodingPresent = lit ''working_tree_encoding_present''"
| "reason_text GrSparseOrSkipWorktree = lit ''sparse_or_skip_worktree''"
| "reason_text GrTooManyBaselineFiles = lit ''too_many_baseline_files''"
| "reason_text GrBaselineTooLarge = lit ''baseline_too_large''"
| "reason_text GrTooManyFiles = lit ''too_many_files''"
| "reason_text GrFileTooLarge = lit ''file_too_large''"
| "reason_text GrSetTooLarge = lit ''set_too_large''"
| "reason_text GrIndexTooLarge = lit ''index_too_large''"
| "reason_text GrCaptureTimeout = lit ''capture_timeout''"
| "reason_text GrCaptureRace = lit ''capture_race''"
| "reason_text GrArtifactMissing = lit ''artifact_missing''"
| "reason_text GrArtifactCorrupt = lit ''artifact_corrupt''"
| "reason_text GrPermissionDenied = lit ''permission_denied''"
| "reason_text GrIoError = lit ''io_error''"
| "reason_text GrWorkspaceMissing = lit ''workspace_missing''"
| "reason_text GrTargetMissing = lit ''target_missing''"
| "reason_text GrTargetResultMismatch = lit ''target_result_mismatch''"
| "reason_text GrPreviewExpired = lit ''preview_expired''"
| "reason_text GrPreviewConsumed = lit ''preview_consumed''"
| "reason_text GrPreviewContextChanged = lit ''preview_context_changed''"
| "reason_text GrMutationInProgress = lit ''mutation_in_progress''"
| "reason_text GrAdapterUnsupported = lit ''adapter_unsupported''"
| "reason_text GrOperationInterrupted = lit ''operation_interrupted''"
| "reason_text GrConcurrentWorkspaceMutation = lit ''concurrent_workspace_mutation''"
| "reason_text GrAppInstanceConflict = lit ''app_instance_conflict''"
| "reason_text GrArtifactStoreUnsafe = lit ''artifact_store_unsafe''"
| "reason_text GrFilesystemUnsupported = lit ''filesystem_unsupported''"
| "reason_text GrInsufficientDiskSpace = lit ''insufficient_disk_space''"
| "reason_text GrPathAliasCollision = lit ''path_alias_collision''"
| "reason_text GrExtendedMetadataUnsupported = lit ''extended_metadata_unsupported''"
| "reason_text GrGitAttributesChanged = lit ''git_attributes_changed''"
| "reason_text GrTrackedManifestChanged = lit ''tracked_manifest_changed''"
| "reason_text GrAssumeUnchanged = lit ''assume_unchanged''"
| "reason_text GrDisplacedTargetMismatch = lit ''displaced_target_mismatch''"
| "reason_text GrDisplacedFileMissing = lit ''displaced_file_missing''"
| "reason_text GrDisplacedFileCorrupt = lit ''displaced_file_corrupt''"
| "reason_text GrRecoveryTargetChanged = lit ''recovery_target_changed''"
| "reason_text GrExchangeRollbackFailed = lit ''exchange_rollback_failed''"
| "reason_text GrManualRecoveryRequired = lit ''manual_recovery_required''"
| "reason_text (GrUnknown l) = l"

definition known_reasons :: "reason_code list" where
  "known_reasons =
     [GrCaptureV1EvidenceOnly, GrCaptureV2Missing, GrCaptureInterrupted,
      GrUnknownCaptureVersion, GrSchemaUnsupported, GrInvalidPersistedRecord,
      GrNoTargetChanges, GrRetentionExpired, GrMultipleRoots, GrDetachedHead, GrBareRepository,
      GrHeadChanged, GrRefChanged, GrIndexChanged, GrIndexUnreadable,
      GrRepositoryIdentityChanged, GrUnsupportedStatus, GrUnmergedPath, GrUntrackedPath,
      GrSymlinkOrReparsePoint, GrHardlinkUnsupported, GrSubmodule, GrNonRegularFile,
      GrMetadataChanged, GrGitFilterPresent, GrWorkingTreeEncodingPresent,
      GrSparseOrSkipWorktree, GrTooManyBaselineFiles, GrBaselineTooLarge, GrTooManyFiles,
      GrFileTooLarge, GrSetTooLarge, GrIndexTooLarge, GrCaptureTimeout, GrCaptureRace,
      GrArtifactMissing, GrArtifactCorrupt, GrPermissionDenied, GrIoError, GrWorkspaceMissing,
      GrTargetMissing, GrTargetResultMismatch, GrPreviewExpired, GrPreviewConsumed,
      GrPreviewContextChanged, GrMutationInProgress, GrAdapterUnsupported,
      GrOperationInterrupted, GrConcurrentWorkspaceMutation, GrAppInstanceConflict,
      GrArtifactStoreUnsafe, GrFilesystemUnsupported, GrInsufficientDiskSpace,
      GrPathAliasCollision, GrExtendedMetadataUnsupported, GrGitAttributesChanged,
      GrTrackedManifestChanged, GrAssumeUnchanged, GrDisplacedTargetMismatch,
      GrDisplacedFileMissing, GrDisplacedFileCorrupt, GrRecoveryTargetChanged,
      GrExchangeRollbackFailed, GrManualRecoveryRequired]"

definition reason_known :: "reason_code \<Rightarrow> bool" where
  "reason_known r \<longleftrightarrow> (case r of GrUnknown _ \<Rightarrow> False | _ \<Rightarrow> True)"

datatype undo_schema_error =
    UnsupportedCaptureVersion u32
  | UnsupportedSchemaVersion rstr u32 u32
  | UnknownPersistedValue
  | InvalidStableValue
  | UnsupportedPathEncoding
  | InvalidField rstr
  | AccountingLimit reason_code
  | ManifestDigestMismatch

text \<open>The string form of a closed enumeration: its labels, then the stable unknown ones.\<close>

definition parse_label :: "(rstr \<times> 'a) list \<Rightarrow> (rstr \<Rightarrow> 'a) \<Rightarrow> rstr \<Rightarrow> undo_schema_error + 'a" where
  "parse_label table unknown v =
     (case map_of table v of
        Some x \<Rightarrow> Inr x
      | None \<Rightarrow> if valid_stable_label v then Inr (unknown v) else Inl InvalidStableValue)"

definition reason_table :: "(rstr \<times> reason_code) list" where
  "reason_table = map (\<lambda>c. (reason_text c, c)) known_reasons"

definition parse_reason :: "rstr \<Rightarrow> undo_schema_error + reason_code" where
  "parse_reason = parse_label reason_table GrUnknown"

datatype restore_set_state =
    RsCollecting | RsEligible | RsIneligible | RsFailed | RsExpired | RsConsumed | RsUnknown rstr

datatype undo_operation_state =
    UoPreparing | UoPrepared | UoApplying | UoVerifying | UoCompleted | UoRollingBack
  | UoRolledBack | UoBlocked | UoRecoveryRequired | UoUnknown rstr

datatype undo_file_state =
    UfPlanned | UfStaged | UfApplied | UfVerified | UfRolledBack | UfRecoveryRequired
  | UfUnknown rstr

datatype verification_outcome = VoPending | VoVerified | VoFailed | VoUnknown rstr

datatype restore_file_status = FsModified | FsUnknown rstr

fun set_state_text :: "restore_set_state \<Rightarrow> rstr" where
  "set_state_text RsCollecting = lit ''collecting''"
| "set_state_text RsEligible = lit ''eligible''"
| "set_state_text RsIneligible = lit ''ineligible''"
| "set_state_text RsFailed = lit ''failed''"
| "set_state_text RsExpired = lit ''expired''"
| "set_state_text RsConsumed = lit ''consumed''"
| "set_state_text (RsUnknown l) = l"

fun operation_state_text :: "undo_operation_state \<Rightarrow> rstr" where
  "operation_state_text UoPreparing = lit ''preparing''"
| "operation_state_text UoPrepared = lit ''prepared''"
| "operation_state_text UoApplying = lit ''applying''"
| "operation_state_text UoVerifying = lit ''verifying''"
| "operation_state_text UoCompleted = lit ''completed''"
| "operation_state_text UoRollingBack = lit ''rolling_back''"
| "operation_state_text UoRolledBack = lit ''rolled_back''"
| "operation_state_text UoBlocked = lit ''blocked''"
| "operation_state_text UoRecoveryRequired = lit ''recovery_required''"
| "operation_state_text (UoUnknown l) = l"

fun file_state_text :: "undo_file_state \<Rightarrow> rstr" where
  "file_state_text UfPlanned = lit ''planned''"
| "file_state_text UfStaged = lit ''staged''"
| "file_state_text UfApplied = lit ''applied''"
| "file_state_text UfVerified = lit ''verified''"
| "file_state_text UfRolledBack = lit ''rolled_back''"
| "file_state_text UfRecoveryRequired = lit ''recovery_required''"
| "file_state_text (UfUnknown l) = l"

fun outcome_text :: "verification_outcome \<Rightarrow> rstr" where
  "outcome_text VoPending = lit ''pending''"
| "outcome_text VoVerified = lit ''verified''"
| "outcome_text VoFailed = lit ''failed''"
| "outcome_text (VoUnknown l) = l"

fun status_label :: "restore_file_status \<Rightarrow> rstr" where
  "status_label FsModified = lit ''M''"
| "status_label (FsUnknown l) = l"

definition parse_set_state :: "rstr \<Rightarrow> undo_schema_error + restore_set_state" where
  "parse_set_state = parse_label (map (\<lambda>x. (set_state_text x, x))
     [RsCollecting, RsEligible, RsIneligible, RsFailed, RsExpired, RsConsumed]) RsUnknown"

definition parse_operation_state :: "rstr \<Rightarrow> undo_schema_error + undo_operation_state" where
  "parse_operation_state = parse_label (map (\<lambda>x. (operation_state_text x, x))
     [UoPreparing, UoPrepared, UoApplying, UoVerifying, UoCompleted, UoRollingBack,
      UoRolledBack, UoBlocked, UoRecoveryRequired]) UoUnknown"

definition parse_file_state :: "rstr \<Rightarrow> undo_schema_error + undo_file_state" where
  "parse_file_state = parse_label (map (\<lambda>x. (file_state_text x, x))
     [UfPlanned, UfStaged, UfApplied, UfVerified, UfRolledBack, UfRecoveryRequired]) UfUnknown"

definition parse_outcome :: "rstr \<Rightarrow> undo_schema_error + verification_outcome" where
  "parse_outcome = parse_label (map (\<lambda>x. (outcome_text x, x)) [VoPending, VoVerified, VoFailed])
     VoUnknown"

fun set_state_known :: "restore_set_state \<Rightarrow> bool" where
  "set_state_known (RsUnknown _) = False"
| "set_state_known _ = True"

fun operation_state_known :: "undo_operation_state \<Rightarrow> bool" where
  "operation_state_known (UoUnknown _) = False"
| "operation_state_known _ = True"

fun file_state_known :: "undo_file_state \<Rightarrow> bool" where
  "file_state_known (UfUnknown _) = False"
| "file_state_known _ = True"

fun outcome_known :: "verification_outcome \<Rightarrow> bool" where
  "outcome_known (VoUnknown _) = False"
| "outcome_known _ = True"

text \<open>Reading back a label: it gives the value written, and never a second value for it.\<close>

lemma parse_label_roundtrip:
  assumes "parse_label table unknown v = Inr x"
    and "\<And>w y. map_of table w = Some y \<Longrightarrow> text y = w" and "\<And>w. text (unknown w) = w"
  shows "text x = v"
  using assms by (auto simp: parse_label_def split: option.splits if_splits)

lemma map_of_texts: "map_of (map (\<lambda>x. (f x, x)) xs) w = Some y \<Longrightarrow> f y = w"
  by (induction xs) (auto split: if_splits)

lemma parse_texts:
  "(parse_set_state v = Inr s \<longrightarrow> set_state_text s = v) \<and>
   (parse_operation_state v = Inr p \<longrightarrow> operation_state_text p = v) \<and>
   (parse_file_state v = Inr f \<longrightarrow> file_state_text f = v) \<and>
   (parse_outcome v = Inr c \<longrightarrow> outcome_text c = v) \<and>
   (parse_reason v = Inr r \<longrightarrow> reason_text r = v)"
  unfolding parse_set_state_def parse_operation_state_def parse_file_state_def parse_outcome_def
    parse_reason_def reason_table_def
  by (intro conjI impI; erule parse_label_roundtrip; (erule map_of_texts)?; simp)

section \<open>Lifecycles\<close>

fun set_can_transition :: "restore_set_state \<Rightarrow> restore_set_state \<Rightarrow> bool" where
  "set_can_transition RsCollecting RsEligible = True"
| "set_can_transition RsCollecting RsIneligible = True"
| "set_can_transition RsCollecting RsFailed = True"
| "set_can_transition RsEligible RsExpired = True"
| "set_can_transition RsEligible RsConsumed = True"
| "set_can_transition RsEligible RsFailed = True"
| "set_can_transition s n = (s = n)"

fun operation_can_transition :: "undo_operation_state \<Rightarrow> undo_operation_state \<Rightarrow> bool" where
  "operation_can_transition UoPreparing n =
     (n \<in> {UoPreparing, UoPrepared, UoRollingBack, UoBlocked, UoRecoveryRequired})"
| "operation_can_transition UoPrepared n =
     (n \<in> {UoPrepared, UoApplying, UoRollingBack, UoBlocked, UoRecoveryRequired})"
| "operation_can_transition UoApplying n =
     (n \<in> {UoApplying, UoVerifying, UoRollingBack, UoRecoveryRequired})"
| "operation_can_transition UoVerifying n =
     (n \<in> {UoVerifying, UoCompleted, UoRollingBack, UoRecoveryRequired})"
| "operation_can_transition UoRollingBack n =
     (n \<in> {UoRollingBack, UoRolledBack, UoRecoveryRequired})"
| "operation_can_transition s n = (s = n)"

fun file_can_transition :: "undo_file_state \<Rightarrow> undo_file_state \<Rightarrow> bool" where
  "file_can_transition UfPlanned n = (n \<in> {UfPlanned, UfStaged, UfRolledBack, UfRecoveryRequired})"
| "file_can_transition UfStaged n = (n \<in> {UfStaged, UfApplied, UfRolledBack, UfRecoveryRequired})"
| "file_can_transition UfApplied n = (n \<in> {UfApplied, UfVerified, UfRolledBack, UfRecoveryRequired})"
| "file_can_transition UfVerified n = (n \<in> {UfVerified, UfRolledBack, UfRecoveryRequired})"
| "file_can_transition s n = (s = n)"

text \<open>A lifecycle in which every proper step raises a bounded rank.\<close>

locale lifecycle =
  fixes edge :: "'s \<Rightarrow> 's \<Rightarrow> bool"
    and rank :: "'s \<Rightarrow> nat"
    and top :: nat
  assumes rank_up: "edge x y \<Longrightarrow> x = y \<or> rank x < rank y"
    and rank_top: "rank x \<le> top"
begin

text \<open>A run is a sequence of states each of which may follow the one before.\<close>

fun run :: "'s list \<Rightarrow> bool" where
  "run (x # y # zs) \<longleftrightarrow> edge x y \<and> x \<noteq> y \<and> run (y # zs)"
| "run _ \<longleftrightarrow> True"

lemma run_ranks: "run xs \<Longrightarrow> sorted_wrt (<) (map rank xs)"
proof (induction xs rule: run.induct)
  case (1 x y zs)
  then have "sorted_wrt (<) (map rank (y # zs))" and "rank x < rank y"
    using rank_up [of x y] by auto
  then show ?case by auto
qed simp_all

lemma run_length: "run xs \<Longrightarrow> length xs \<le> Suc top"
proof -
  assume "run xs"
  then have "sorted_wrt (<) (map rank xs)" by (rule run_ranks)
  then have "distinct (map rank xs)" by (simp add: strict_sorted_iff)
  moreover have "set (map rank xs) \<subseteq> {..top}" using rank_top by auto
  ultimately have "card (set (map rank xs)) = length xs"
    and "card (set (map rank xs)) \<le> card {..top}"
    using distinct_card card_mono by (fastforce, meson finite_atMost)
  then show ?thesis by simp
qed

lemma run_distinct: "run xs \<Longrightarrow> distinct xs"
  using run_ranks strict_sorted_iff distinct_map by blast

lemma no_return: "edge x y \<Longrightarrow> x \<noteq> y \<Longrightarrow> \<not> edge y x"
  using rank_up [of x y] rank_up [of y x] by auto

end

fun set_rank :: "restore_set_state \<Rightarrow> nat" where
  "set_rank RsCollecting = 0"
| "set_rank RsEligible = 1"
| "set_rank _ = 2"

fun operation_rank :: "undo_operation_state \<Rightarrow> nat" where
  "operation_rank UoPreparing = 0"
| "operation_rank UoPrepared = 1"
| "operation_rank UoApplying = 2"
| "operation_rank UoVerifying = 3"
| "operation_rank UoRollingBack = 4"
| "operation_rank _ = 5"

fun file_rank :: "undo_file_state \<Rightarrow> nat" where
  "file_rank UfPlanned = 0"
| "file_rank UfStaged = 1"
| "file_rank UfApplied = 2"
| "file_rank UfVerified = 3"
| "file_rank _ = 4"

interpretation set_life: lifecycle set_can_transition set_rank 2
proof
  fix x y
  show "set_can_transition x y \<Longrightarrow> x = y \<or> set_rank x < set_rank y" by (cases x; cases y) auto
  show "set_rank x \<le> 2" by (cases x) auto
qed

interpretation operation_life: lifecycle operation_can_transition operation_rank 5
proof
  fix x y
  show "operation_can_transition x y \<Longrightarrow> x = y \<or> operation_rank x < operation_rank y"
    by (cases x) auto
  show "operation_rank x \<le> 5" by (cases x) auto
qed

interpretation file_life: lifecycle file_can_transition file_rank 4
proof
  fix x y
  show "file_can_transition x y \<Longrightarrow> x = y \<or> file_rank x < file_rank y" by (cases x) auto
  show "file_rank x \<le> 4" by (cases x) auto
qed

end
