(* ===== verification/Undo_Paths.thy ===== *)
theory Undo_Paths
  imports Undo_Types
begin

text \<open>
  The opaque repository paths of guarded undo: a version byte, an encoding byte, and the path
  as Unix bytes or little-endian WTF-16. A validated path is relative and has only plain
  components, so following it from a root can only descend.
\<close>

datatype opaque_repo_path = OpaqueRepoPath bytes

fun persisted_bytes :: "opaque_repo_path \<Rightarrow> bytes" where
  "persisted_bytes (OpaqueRepoPath bs) = bs"

text \<open>\<open>slice::split\<close>: the pieces between the separators, the empty ones included.\<close>

fun split_on :: "('a \<Rightarrow> bool) \<Rightarrow> 'a list \<Rightarrow> 'a list list" where
  "split_on P [] = [[]]"
| "split_on P (x # xs) =
     (if P x then [] # split_on P xs
      else case split_on P xs of [] \<Rightarrow> [[x]] | c # cs \<Rightarrow> (x # c) # cs)"

definition validate_unix_relative_path :: "bytes \<Rightarrow> undo_schema_error + unit" where
  "validate_unix_relative_path path =
     (if path = [] \<or> 0 \<in> set path \<or> starts_with path [47]
      then Inl (InvalidField (lit ''Unix path is not relative''))
      else if list_ex (\<lambda>c. c = [] \<or> c = [46] \<or> c = [46, 46]) (split_on (\<lambda>b. b = 47) path)
      then Inl (InvalidField (lit ''unsafe Unix path component''))
      else Inr ())"

text \<open>\<open>chunks_exact(2)\<close> and \<open>u16::from_le_bytes\<close>.\<close>

fun wtf16_units :: "bytes \<Rightarrow> u16 list" where
  "wtf16_units (a # b # bs) = word_of_nat (unat a + 256 * unat b) # wtf16_units bs"
| "wtf16_units _ = []"

definition is_ascii_alphabetic :: "u8 \<Rightarrow> bool" where
  "is_ascii_alphabetic b \<longleftrightarrow> 65 \<le> b \<and> b \<le> 90 \<or> 97 \<le> b \<and> b \<le> 122"

definition win_sep :: "u16 \<Rightarrow> bool" where
  "win_sep u \<longleftrightarrow> u = 47 \<or> u = 92"

definition validate_windows_relative_path :: "bytes \<Rightarrow> undo_schema_error + unit" where
  "validate_windows_relative_path bs =
     (if bs = [] \<or> length bs mod 2 \<noteq> 0
      then Inl (InvalidField (lit ''invalid WTF-16LE path''))
      else
        let units = wtf16_units bs
        in if 0 \<in> set units \<or> 58 \<in> set units \<or> (units \<noteq> [] \<and> win_sep (hd units))
              \<or> (3 \<le> length units \<and> is_ascii_alphabetic (word_of_nat (unat (units ! 0)))
                  \<and> units ! 1 = 58 \<and> win_sep (units ! 2))
           then Inl (InvalidField (lit ''Windows path is not relative''))
           else if list_ex (\<lambda>c. c = [] \<or> c = [46] \<or> c = [46, 46]) (split_on win_sep units)
           then Inl (InvalidField (lit ''unsafe Windows path component''))
           else Inr ())"

definition path_validate :: "opaque_repo_path \<Rightarrow> undo_schema_error + unit" where
  "path_validate p =
     (let bs = persisted_bytes p
      in if length bs < 3 \<or> length bs > MAX_OPAQUE_PATH_BYTES \<or> bs ! 0 \<noteq> PATH_ENCODING_VERSION
         then Inl UnsupportedPathEncoding
         else if bs ! 1 = PATH_ENCODING_UNIX_BYTES
         then validate_unix_relative_path (drop 2 bs)
         else if bs ! 1 = PATH_ENCODING_WINDOWS_WTF16_LE
         then validate_windows_relative_path (drop 2 bs)
         else Inl UnsupportedPathEncoding)"

definition path_unix :: "bytes \<Rightarrow> undo_schema_error + opaque_repo_path" where
  "path_unix path =
     (let v = OpaqueRepoPath ([PATH_ENCODING_VERSION, PATH_ENCODING_UNIX_BYTES] @ path)
      in and_then (path_validate v) (\<lambda>_. Inr v))"

definition le16 :: "u16 \<Rightarrow> bytes" where
  "le16 u = [word_of_nat (unat u), word_of_nat (unat u div 256)]"

definition path_windows :: "u16 list \<Rightarrow> undo_schema_error + opaque_repo_path" where
  "path_windows units =
     (let v = OpaqueRepoPath ([PATH_ENCODING_VERSION, PATH_ENCODING_WINDOWS_WTF16_LE]
                @ concat (map le16 units))
      in and_then (path_validate v) (\<lambda>_. Inr v))"

section \<open>Components\<close>

text \<open>The components of a path, as code units.\<close>

definition path_components :: "opaque_repo_path \<Rightarrow> nat list list" where
  "path_components p =
     (let bs = persisted_bytes p
      in if bs ! 1 = PATH_ENCODING_UNIX_BYTES
         then map (map unat) (split_on (\<lambda>b. b = 47) (drop 2 bs))
         else map (map unat) (split_on win_sep (wtf16_units (drop 2 bs))))"

text \<open>Following components from a directory, the way a path is resolved lexically.\<close>

fun walk :: "nat list list \<Rightarrow> nat list list \<Rightarrow> nat list list" where
  "walk dir [] = dir"
| "walk dir (c # cs) =
     (if c = [] \<or> c = [46] then walk dir cs
      else if c = [46, 46] then walk (butlast dir) cs
      else walk (dir @ [c]) cs)"

definition plain_component :: "nat list \<Rightarrow> bool" where
  "plain_component c \<longleftrightarrow> c \<noteq> [] \<and> c \<noteq> [46] \<and> c \<noteq> [46, 46] \<and> 0 \<notin> set c \<and> 47 \<notin> set c"

text \<open>
  What \<open>Path::join\<close> makes of a path besides: a path that starts with a separator, or one that
  names a drive on Windows, is not followed from the root at all but replaces it.
\<close>

definition windows_encoded :: "opaque_repo_path \<Rightarrow> bool" where
  "windows_encoded p \<longleftrightarrow> persisted_bytes p ! 1 \<noteq> PATH_ENCODING_UNIX_BYTES"

definition replaces_root :: "opaque_repo_path \<Rightarrow> bool" where
  "replaces_root p \<longleftrightarrow>
     (let bs = drop 2 (persisted_bytes p); units = wtf16_units bs
      in if windows_encoded p
         then (units \<noteq> [] \<and> win_sep (hd units)) \<or> (2 \<le> length units \<and> units ! 1 = 58)
         else starts_with bs [47])"

definition join_below :: "nat list list \<Rightarrow> opaque_repo_path \<Rightarrow> nat list list option" where
  "join_below root p = (if replaces_root p then None else Some (walk root (path_components p)))"

text \<open>
  On Windows a backslash separates as well, and a colon in a component would name a drive or a
  stream of a file.
\<close>

definition plain_on :: "bool \<Rightarrow> nat list \<Rightarrow> bool" where
  "plain_on windows c \<longleftrightarrow> plain_component c \<and> (windows \<longrightarrow> 58 \<notin> set c \<and> 92 \<notin> set c)"

lemma walk_plain: "\<forall>c \<in> set cs. plain_component c \<Longrightarrow> walk dir cs = dir @ cs"
  by (induction cs arbitrary: dir) (auto simp: plain_component_def)

lemma split_on_neq_Nil [simp]: "split_on P xs \<noteq> []"
  by (induction xs) (auto split: list.splits)

lemma split_on_chars: "\<forall>c \<in> set (split_on P xs). set c \<subseteq> {x \<in> set xs. \<not> P x}"
proof (induction xs)
  case (Cons y ys)
  then show ?case by (cases "split_on P ys") auto
qed simp

lemma split_on_no_sep: "c \<in> set (split_on P xs) \<Longrightarrow> x \<in> set c \<Longrightarrow> \<not> P x \<and> x \<in> set xs"
  using split_on_chars [of P xs] by blast

lemma map_unat_eq:
  fixes c :: "'w::len word list"
  shows "map unat c = [] \<longleftrightarrow> c = []"
    and "k < 2 ^ LENGTH('w) \<Longrightarrow> map unat c = [k] \<longleftrightarrow> c = [word_of_nat k]"
    and "k < 2 ^ LENGTH('w) \<Longrightarrow> map unat c = [k, k] \<longleftrightarrow> c = [word_of_nat k, word_of_nat k]"
proof -
  have w: "unat x = k \<longleftrightarrow> x = word_of_nat k" if "k < 2 ^ LENGTH('w)" for x :: "'w word"
    using that by (auto simp: unat_of_nat take_bit_nat_eq_self)
  show "map unat c = [] \<longleftrightarrow> c = []" by simp
  show "k < 2 ^ LENGTH('w) \<Longrightarrow> map unat c = [k] \<longleftrightarrow> c = [word_of_nat k]"
    using w by (cases c) (auto simp: map_eq_Cons_conv)
  show "k < 2 ^ LENGTH('w) \<Longrightarrow> map unat c = [k, k] \<longleftrightarrow> c = [word_of_nat k, word_of_nat k]"
    using w by (auto simp: map_eq_Cons_conv)
qed

lemma plain_of_words:
  fixes c :: "'w::len word list"
  assumes "8 \<le> LENGTH('w)" and "c \<noteq> []" and "c \<noteq> [46]" and "c \<noteq> [46, 46]"
    and "\<forall>x \<in> set c. x \<noteq> 0 \<and> x \<noteq> 47"
  shows "plain_component (map unat c)"
proof -
  have big: "k < 2 ^ LENGTH('w)" if "k < 256" for k :: nat
    using that assms(1) power_increasing [of 8 "LENGTH('w)" "2 :: nat"] by simp
  have "unat x \<noteq> 0 \<and> unat x \<noteq> 47" if "x \<in> set c" for x
    using assms(5) that big [of 47] unat_eq_iff [of x 47]
    by (auto simp: unat_eq_0 unat_numeral take_bit_nat_eq_self)
  then have "0 \<notin> set (map unat c)" and "47 \<notin> set (map unat c)"
    by (metis imageE set_map)+
  moreover have "map unat c \<noteq> [46]" and "map unat c \<noteq> [46, 46]"
    using map_unat_eq(2) [of 46 c] map_unat_eq(3) [of 46 c] big [of 46] assms(3,4) by auto
  ultimately show ?thesis using assms(2) by (simp add: plain_component_def)
qed

lemma unix_components_plain:
  assumes "validate_unix_relative_path p = Inr ()" and "c \<in> set (split_on (\<lambda>b. b = 47) p)"
  shows "plain_component (map unat c)"
proof -
  have "c \<noteq> [] \<and> c \<noteq> [46] \<and> c \<noteq> [46, 46]" and "0 \<notin> set p"
    using assms by (auto simp: validate_unix_relative_path_def list_ex_iff split: if_splits)
  moreover have "\<forall>x \<in> set c. x \<noteq> 47 \<and> x \<in> set p"
    using split_on_no_sep [OF assms(2)] by auto
  ultimately show ?thesis by (intro plain_of_words) auto
qed

lemma windows_components_plain:
  assumes "validate_windows_relative_path bs = Inr ()"
    and "c \<in> set (split_on win_sep (wtf16_units bs))"
  shows "plain_on True (map unat c)"
proof -
  have c: "c \<noteq> [] \<and> c \<noteq> [46] \<and> c \<noteq> [46, 46]" and u: "0 \<notin> set (wtf16_units bs)"
    "58 \<notin> set (wtf16_units bs)"
    using assms by (auto simp: validate_windows_relative_path_def Let_def list_ex_iff split: if_splits)
  moreover have sep: "\<forall>x \<in> set c. x \<noteq> 47 \<and> x \<noteq> 92 \<and> x \<in> set (wtf16_units bs)"
    using split_on_no_sep [OF assms(2)] by (auto simp: win_sep_def)
  ultimately have plain: "plain_component (map unat c)" by (intro plain_of_words) auto
  have "unat x \<noteq> 58 \<and> unat x \<noteq> 92" if "x \<in> set c" for x
    using u sep that unat_eq_iff [of x 58] unat_eq_iff [of x 92] by (auto simp: unat_numeral)
  then have "58 \<notin> set (map unat c)" and "92 \<notin> set (map unat c)" by (metis imageE set_map)+
  with plain show ?thesis by (simp add: plain_on_def)
qed

lemma path_validate_components:
  assumes "path_validate p = Inr ()"
  shows "path_components p \<noteq> []" and "\<not> replaces_root p"
    and "\<forall>c \<in> set (path_components p). plain_on (windows_encoded p) c"
proof -
  let ?bs = "persisted_bytes p"
  consider (unix) "?bs ! 1 = PATH_ENCODING_UNIX_BYTES" "validate_unix_relative_path (drop 2 ?bs) = Inr ()"
    | (windows) "?bs ! 1 \<noteq> PATH_ENCODING_UNIX_BYTES"
        "validate_windows_relative_path (drop 2 ?bs) = Inr ()"
    using assms by (auto simp: path_validate_def Let_def split: if_splits)
  note both = this
  from both show "path_components p \<noteq> []"
    and "\<forall>c \<in> set (path_components p). plain_on (windows_encoded p) c"
    by (cases; auto simp: path_components_def Let_def windows_encoded_def plain_on_def [of False]
        intro: unix_components_plain windows_components_plain)+
  from both show "\<not> replaces_root p"
  proof cases
    case unix
    then show ?thesis
      by (auto simp: replaces_root_def windows_encoded_def validate_unix_relative_path_def Let_def
          split: if_splits)
  next
    case windows
    let ?u = "wtf16_units (drop 2 ?bs)"
    from windows(2) have "58 \<notin> set ?u" and "\<not> (?u \<noteq> [] \<and> win_sep (hd ?u))"
      by (auto simp: validate_windows_relative_path_def Let_def split: if_splits)
    moreover have "\<not> (2 \<le> length ?u \<and> ?u ! 1 = 58)"
    proof
      assume "2 \<le> length ?u \<and> ?u ! 1 = 58"
      then have "58 \<in> set ?u" using nth_mem [of 1 ?u] by simp
      with \<open>58 \<notin> set ?u\<close> show False ..
    qed
    ultimately show ?thesis using windows(1)
      by (simp add: replaces_root_def windows_encoded_def Let_def)
  qed
qed

section \<open>Properties\<close>

text \<open>
  C10: a validated repository path cannot leave the root it is joined to: it has at least one
  component, it neither starts with a separator nor names a drive, every component is plain
  (not empty, not a dot or two, without NUL or separator, and on Windows without colon or
  backslash), and resolving it from any directory descends by exactly those components.
\<close>

theorem validated_path_stays_below_root:
  assumes "path_validate p = Inr ()"
  shows "path_components p \<noteq> [] \<and> join_below root p = Some (root @ path_components p) \<and>
     walk root (path_components p) = root @ path_components p \<and>
     (\<forall>c \<in> set (path_components p). plain_on (windows_encoded p) c)"
  using path_validate_components [OF assms] walk_plain
  by (auto simp: join_below_def plain_on_def)

text \<open>The path \<open>a\b\<close> in the Windows encoding.\<close>

lemma validated_path_stays_below_root_witness:
  "join_below [[114]] (OpaqueRepoPath [1, 2, 97, 0, 92, 0, 98, 0]) = Some [[114], [97], [98]]"
proof -
  have "path_validate (OpaqueRepoPath [1, 2, 97, 0, 92, 0, 98, 0]) = Inr ()"
    by (simp add: path_validate_def PATH_ENCODING_VERSION_def PATH_ENCODING_UNIX_BYTES_def
        PATH_ENCODING_WINDOWS_WTF16_LE_def MAX_OPAQUE_PATH_BYTES_def
        validate_windows_relative_path_def win_sep_def is_ascii_alphabetic_def Let_def)
  from validated_path_stays_below_root [OF this, of "[[114]]"] show ?thesis
    by (simp add: path_components_def PATH_ENCODING_UNIX_BYTES_def win_sep_def)
qed

end
