(* ===== verification/Undo_Records.thy ===== *)
theory Undo_Records
  imports Undo_Paths
begin

text \<open>
  The persisted records of guarded undo and their validation (\<open>domain/guarded_undo.rs\<close>):
  file metadata, Git identity, restore sets and their files, undo operations and their files,
  and when an installed result may stand for a turn's own result. A Rust \<open>BTreeMap\<close> is the
  list of its entries in key order; digests and artifact keys are the bytes of their arrays.
\<close>

type_synonym sha256_digest = bytes
type_synonym artifact_key = bytes
type_synonym 'a checked = "undo_schema_error + 'a"

section \<open>Field checks\<close>

definition require_schema :: "rstr \<Rightarrow> u32 \<Rightarrow> u32 \<Rightarrow> unit checked" where
  "require_schema kind actual expected =
     require (actual = expected) (UnsupportedSchemaVersion kind actual expected)"

definition require_text :: "rstr \<Rightarrow> rstr \<Rightarrow> unit checked" where
  "require_text field v = require (\<not> blank v) (InvalidField (field @ lit '' must not be empty''))"

definition require_bounded_text :: "rstr \<Rightarrow> rstr \<Rightarrow> nat \<Rightarrow> unit checked" where
  "require_bounded_text field v maximum = first_err
     [require_text field v,
      require (byte_len v \<le> maximum) (InvalidField (field @ lit '' is oversized''))]"

definition require_bounded_bytes :: "rstr \<Rightarrow> bytes \<Rightarrow> nat \<Rightarrow> unit checked" where
  "require_bounded_bytes field v maximum =
     require (v \<noteq> [] \<and> length v \<le> maximum) (InvalidField (field @ lit '' is empty or oversized''))"

definition require_known_reason :: "reason_code \<Rightarrow> unit checked" where
  "require_known_reason r = require (reason_known r) UnknownPersistedValue"

definition require_known_state :: "restore_set_state \<Rightarrow> unit checked" where
  "require_known_state s = require (set_state_known s) UnknownPersistedValue"

section \<open>File metadata\<close>

record file_metadata =
  fm_schema_version :: u32
  fm_adapter :: rstr
  fm_file_identity :: bytes
  fm_link_count :: u64
  fm_fields :: "(rstr \<times> bytes) list"

definition ALLOWED_FIELDS :: "rstr list" where
  "ALLOWED_FIELDS = map lit
     [''mode'', ''readonly'', ''uid'', ''gid'', ''volume_serial'', ''file_id'', ''attributes'']"

definition PHYSICAL_IDENTITY_FIELDS :: "rstr list" where
  "PHYSICAL_IDENTITY_FIELDS = map lit [''volume_serial'', ''file_id'']"

definition metadata_validate :: "file_metadata \<Rightarrow> unit checked" where
  "metadata_validate m = first_err
     ([require_schema (lit ''regular_file_metadata'') (fm_schema_version m) FILE_METADATA_SCHEMA_VERSION,
       require (valid_stable_label (fm_adapter m))
         (InvalidField (lit ''metadata.adapter must be a bounded stable label'')),
       require_bounded_bytes (lit ''metadata.file_identity'') (fm_file_identity m) MAX_IDENTITY_BYTES,
       require (fm_link_count m = 1) (InvalidField (lit ''metadata.link_count must equal one'')),
       require (length (fm_fields m) \<le> MAX_METADATA_FIELDS)
         (InvalidField (lit ''too many metadata fields''))]
      @ map (\<lambda>(key, v). require (key \<in> set ALLOWED_FIELDS \<and> length v \<le> MAX_METADATA_VALUE_BYTES)
               (InvalidField (lit ''metadata field is unsupported or oversized''))) (fm_fields m))"

definition attribute_fields :: "file_metadata \<Rightarrow> (rstr \<times> bytes) list" where
  "attribute_fields m = filter (\<lambda>(key, _). key \<notin> set PHYSICAL_IDENTITY_FIELDS) (fm_fields m)"

definition same_attributes :: "file_metadata \<Rightarrow> file_metadata \<Rightarrow> bool" where
  "same_attributes m n \<longleftrightarrow>
     fm_schema_version m = fm_schema_version n \<and> fm_adapter m = fm_adapter n \<and>
     fm_link_count m = fm_link_count n \<and> attribute_fields m = attribute_fields n"

section \<open>Git identity\<close>

datatype checkout_ref = Symbolic rstr | Detached

record index_identity =
  ix_sha256 :: sha256_digest
  ix_size :: u64
  ix_stat_identity :: bytes

record git_identity =
  gi_schema_version :: u32
  gi_worktree_identity :: bytes
  gi_git_dir_identity :: bytes
  gi_common_dir_identity :: bytes
  gi_head_oid :: bytes
  gi_checkout_ref :: checkout_ref
  gi_index :: index_identity

definition same_repository_state :: "git_identity \<Rightarrow> git_identity \<Rightarrow> bool" where
  "same_repository_state a b \<longleftrightarrow>
     gi_schema_version a = gi_schema_version b \<and>
     gi_worktree_identity a = gi_worktree_identity b \<and>
     gi_git_dir_identity a = gi_git_dir_identity b \<and>
     gi_common_dir_identity a = gi_common_dir_identity b \<and>
     gi_head_oid a = gi_head_oid b \<and> gi_checkout_ref a = gi_checkout_ref b \<and>
     ix_sha256 (gi_index a) = ix_sha256 (gi_index b) \<and> ix_size (gi_index a) = ix_size (gi_index b)"

definition checkout_validate :: "checkout_ref \<Rightarrow> unit checked" where
  "checkout_validate r =
     (case r of
        Detached \<Rightarrow> Inr ()
      | Symbolic name \<Rightarrow> first_err
          [require_bounded_text (lit ''checkout_ref.full_name'') name 1024,
           require (0 \<notin> set name) (InvalidField (lit ''checkout ref contains NUL''))])"

definition git_validate :: "git_identity \<Rightarrow> unit checked" where
  "git_validate g = first_err
     [require_schema (lit ''git_identity'') (gi_schema_version g) GIT_IDENTITY_SCHEMA_VERSION,
      require_bounded_bytes (lit ''worktree_identity'') (gi_worktree_identity g) MAX_IDENTITY_BYTES,
      require_bounded_bytes (lit ''git_dir_identity'') (gi_git_dir_identity g) MAX_IDENTITY_BYTES,
      require_bounded_bytes (lit ''common_dir_identity'') (gi_common_dir_identity g) MAX_IDENTITY_BYTES,
      require (length (gi_head_oid g) = 20 \<or> length (gi_head_oid g) = 32)
        (InvalidField (lit ''head_oid must be a raw SHA-1 or SHA-256 object id'')),
      require_bounded_bytes (lit ''index.stat_identity'') (ix_stat_identity (gi_index g)) MAX_IDENTITY_BYTES,
      require (ix_size (gi_index g) \<le> MAX_INDEX_BYTES) (AccountingLimit GrIndexTooLarge),
      checkout_validate (gi_checkout_ref g)]"

datatype physical_root_id = PhysicalRootId bytes

definition root_validate :: "physical_root_id \<Rightarrow> unit checked" where
  "root_validate r =
     (case r of PhysicalRootId bs \<Rightarrow>
        require (\<not> (length bs < 3 \<or> length bs > MAX_IDENTITY_BYTES \<or> bs ! 0 \<noteq> 1
                    \<or> \<not> (bs ! 1 = 1 \<or> bs ! 1 = 2)))
          (InvalidField (lit ''unsupported physical root identity'')))"

record prepared_identity =
  pi_schema_version :: u32
  pi_root_id :: physical_root_id
  pi_git :: git_identity
  pi_manifest_digest :: sha256_digest
  pi_coordinator_generation :: u64
  pi_git_dir_generation :: u64
  pi_common_dir_generation :: u64

definition prepared_validate :: "prepared_identity \<Rightarrow> unit checked" where
  "prepared_validate p = first_err
     [require_schema (lit ''prepared_identity'') (pi_schema_version p) PREPARED_IDENTITY_SCHEMA_VERSION,
      root_validate (pi_root_id p), git_validate (pi_git p)]"

record recovery_details =
  rd_schema_version :: u32
  rd_reason_code :: reason_code
  rd_diagnostic_label :: rstr

definition recovery_validate :: "recovery_details \<Rightarrow> unit checked" where
  "recovery_validate d = first_err
     [require_schema (lit ''recovery_details'') (rd_schema_version d) RECOVERY_DETAILS_SCHEMA_VERSION,
      require_known_reason (rd_reason_code d),
      require (valid_stable_label (rd_diagnostic_label d))
        (InvalidField (lit ''recovery diagnostic label is not content-free''))]"

section \<open>Capture versions\<close>

datatype capture_version_decision = EvidenceOnly reason_code | RestorationContractV2

definition classify_capture_version :: "u32 \<Rightarrow> capture_version_decision checked" where
  "classify_capture_version v =
     (if v = 1 then Inr (EvidenceOnly GrCaptureV1EvidenceOnly)
      else if v = RESTORE_CAPTURE_VERSION then Inr RestorationContractV2
      else Inl (UnsupportedCaptureVersion v))"

section \<open>Restore sets\<close>

record restore_set =
  rs_restore_set_id :: rstr
  rs_snapshot_id :: rstr
  rs_session_id :: rstr
  rs_turn_id :: rstr
  rs_workspace_id :: rstr
  rs_root_id :: "physical_root_id option"
  rs_capture_version :: u32
  rs_state :: restore_set_state
  rs_reason_code :: "reason_code option"
  rs_git_identity :: "git_identity option"
  rs_artifact_bytes :: u64
  rs_file_count :: u32
  rs_manifest_digest :: "sha256_digest option"
  rs_created_at :: rstr
  rs_completed_at :: "rstr option"
  rs_expires_at :: "rstr option"

definition on_a_branch :: "git_identity \<Rightarrow> bool" where
  "on_a_branch g \<longleftrightarrow>
     (case gi_checkout_ref g of Symbolic name \<Rightarrow> starts_with name (lit ''refs/heads/'') | Detached \<Rightarrow> True)"

definition set_fields_consistent :: "restore_set \<Rightarrow> bool" where
  "set_fields_consistent s \<longleftrightarrow>
     (case rs_state s of
        RsCollecting \<Rightarrow> rs_completed_at s = None \<and> rs_reason_code s = None
      | RsEligible \<Rightarrow>
          rs_reason_code s = None \<and> rs_manifest_digest s \<noteq> None \<and> rs_completed_at s \<noteq> None \<and>
          rs_expires_at s \<noteq> None \<and> 0 < rs_file_count s \<and> rs_root_id s \<noteq> None \<and>
          is_some_and (rs_git_identity s) on_a_branch
      | RsIneligible \<Rightarrow> rs_reason_code s \<noteq> None \<and> rs_completed_at s \<noteq> None
      | RsFailed \<Rightarrow> rs_reason_code s \<noteq> None \<and> rs_completed_at s \<noteq> None
      | RsExpired \<Rightarrow> rs_reason_code s \<noteq> None \<and> rs_completed_at s \<noteq> None
      | RsConsumed \<Rightarrow>
          rs_reason_code s = None \<and> rs_completed_at s \<noteq> None \<and> rs_manifest_digest s \<noteq> None \<and>
          0 < rs_file_count s \<and> rs_root_id s \<noteq> None \<and> rs_git_identity s \<noteq> None
      | RsUnknown _ \<Rightarrow> False)"

definition restore_set_validate :: "restore_set \<Rightarrow> unit checked" where
  "restore_set_validate s = first_err
     [require (rs_capture_version s = RESTORE_CAPTURE_VERSION)
        (UnsupportedCaptureVersion (rs_capture_version s)),
      require_text (lit ''restore_set_id'') (rs_restore_set_id s),
      require_text (lit ''snapshot_id'') (rs_snapshot_id s),
      require_text (lit ''session_id'') (rs_session_id s),
      require_text (lit ''turn_id'') (rs_turn_id s),
      require_text (lit ''workspace_id'') (rs_workspace_id s),
      validate_opt root_validate (rs_root_id s),
      validate_opt git_validate (rs_git_identity s),
      require_known_state (rs_state s),
      validate_opt require_known_reason (rs_reason_code s),
      require (rs_file_count s \<le> MAX_RESTORE_FILES) (AccountingLimit GrTooManyFiles),
      require (rs_artifact_bytes s \<le> MAX_PREIMAGE_BYTES_PER_SET) (AccountingLimit GrSetTooLarge),
      require (set_fields_consistent s)
        (InvalidField (lit ''restore set state fields are inconsistent''))]"

record restore_file =
  rf_restore_set_id :: rstr
  rf_ordinal :: u32
  rf_path :: opaque_repo_path
  rf_status :: restore_file_status
  rf_pre_size :: u64
  rf_pre_sha256 :: sha256_digest
  rf_pre_artifact_key :: artifact_key
  rf_result_size :: u64
  rf_result_sha256 :: sha256_digest
  rf_metadata :: file_metadata

definition restore_file_validate :: "restore_file \<Rightarrow> unit checked" where
  "restore_file_validate f = first_err
     [require_text (lit ''restore_set_id'') (rf_restore_set_id f),
      path_validate (rf_path f),
      require (rf_status f = FsModified) (InvalidField (lit ''capture v2 only supports status M'')),
      require (rf_pre_size f \<le> MAX_PREIMAGE_BYTES_PER_FILE) (AccountingLimit GrFileTooLarge),
      require (rf_result_size f \<le> MAX_PREIMAGE_BYTES_PER_FILE) (AccountingLimit GrFileTooLarge),
      metadata_validate (rf_metadata f)]"

section \<open>Undo operations\<close>

record undo_operation =
  uo_operation_id :: rstr
  uo_restore_set_id :: rstr
  uo_journal_version :: u32
  uo_state :: undo_operation_state
  uo_active :: bool
  uo_preview_token_digest :: "sha256_digest option"
  uo_prepared_identity :: prepared_identity
  uo_reason_code :: "reason_code option"
  uo_recovery_details :: "recovery_details option"
  uo_created_at :: rstr
  uo_updated_at :: rstr
  uo_completed_at :: "rstr option"

definition operation_fields_consistent :: "undo_operation \<Rightarrow> bool" where
  "operation_fields_consistent u \<longleftrightarrow>
     (let running = uo_active u \<and> uo_completed_at u = None \<and> uo_reason_code u = None \<and>
                    uo_recovery_details u = None;
          ended = \<not> uo_active u \<and> uo_completed_at u \<noteq> None \<and> uo_recovery_details u = None
      in case uo_state u of
           UoPreparing \<Rightarrow> running
         | UoPrepared \<Rightarrow> running
         | UoApplying \<Rightarrow> running
         | UoVerifying \<Rightarrow> running
         | UoRollingBack \<Rightarrow> running
         | UoCompleted \<Rightarrow> ended \<and> uo_reason_code u = None
         | UoRolledBack \<Rightarrow> ended \<and> uo_reason_code u = None
         | UoBlocked \<Rightarrow> ended \<and> uo_reason_code u \<noteq> None
         | UoRecoveryRequired \<Rightarrow>
             uo_active u \<and> uo_completed_at u = None \<and> uo_reason_code u \<noteq> None \<and>
             uo_recovery_details u \<noteq> None
         | UoUnknown _ \<Rightarrow> False)"

definition undo_operation_validate :: "undo_operation \<Rightarrow> unit checked" where
  "undo_operation_validate u = first_err
     [require_schema (lit ''undo_journal'') (uo_journal_version u) UNDO_JOURNAL_SCHEMA_VERSION,
      require_text (lit ''operation_id'') (uo_operation_id u),
      require_text (lit ''restore_set_id'') (uo_restore_set_id u),
      require (operation_state_known (uo_state u)) UnknownPersistedValue,
      validate_opt require_known_reason (uo_reason_code u),
      prepared_validate (uo_prepared_identity u),
      validate_opt recovery_validate (uo_recovery_details u),
      require (\<not> is_some_and (uo_recovery_details u)
                 (\<lambda>d. Some (rd_reason_code d) \<noteq> uo_reason_code u))
        (InvalidField (lit ''recovery details reason does not match operation reason'')),
      require (operation_fields_consistent u)
        (InvalidField (lit ''undo operation state fields are inconsistent''))]"

record undo_file =
  uf_operation_id :: rstr
  uf_restore_set_id :: rstr
  uf_ordinal :: u32
  uf_path :: opaque_repo_path
  uf_exchange_artifact_key :: artifact_key
  uf_expected_result_size :: u64
  uf_expected_result_sha256 :: sha256_digest
  uf_expected_metadata :: file_metadata
  uf_pre_size :: u64
  uf_pre_sha256 :: sha256_digest
  uf_staged_metadata :: "file_metadata option"
  uf_displaced_size :: "u64 option"
  uf_displaced_sha256 :: "sha256_digest option"
  uf_displaced_metadata :: "file_metadata option"
  uf_state :: undo_file_state
  uf_verification_outcome :: verification_outcome
  uf_recovery_details :: "recovery_details option"
  uf_updated_at :: rstr
  uf_chained_from_operation_id :: "rstr option"

definition file_fields_consistent :: "undo_file \<Rightarrow> bool" where
  "file_fields_consistent f \<longleftrightarrow>
     (let staged = uf_staged_metadata f \<noteq> None; displaced = uf_displaced_size f \<noteq> None;
          outcome = uf_verification_outcome f; quiet = (uf_recovery_details f = None)
      in case uf_state f of
           UfPlanned \<Rightarrow> \<not> staged \<and> \<not> displaced \<and> outcome = VoPending \<and> quiet
         | UfStaged \<Rightarrow> staged \<and> \<not> displaced \<and> outcome = VoPending \<and> quiet
         | UfApplied \<Rightarrow> staged \<and> displaced \<and> outcome = VoPending
         | UfVerified \<Rightarrow> staged \<and> displaced \<and> outcome = VoVerified \<and> quiet
         | UfRolledBack \<Rightarrow> outcome = VoVerified \<and> quiet \<and> (staged \<or> \<not> displaced)
         | UfRecoveryRequired \<Rightarrow> outcome = VoFailed \<and> \<not> quiet
         | UfUnknown _ \<Rightarrow> False)"

definition undo_file_validate :: "undo_file \<Rightarrow> unit checked" where
  "undo_file_validate f = first_err
     [require_text (lit ''operation_id'') (uf_operation_id f),
      require_text (lit ''restore_set_id'') (uf_restore_set_id f),
      validate_opt (\<lambda>source. first_err
         [require_text (lit ''chained_from_operation_id'') source,
          require (source \<noteq> uf_operation_id f)
            (InvalidField (lit ''an undo operation cannot chain from itself''))])
        (uf_chained_from_operation_id f),
      path_validate (uf_path f),
      require (uf_pre_size f \<le> MAX_PREIMAGE_BYTES_PER_FILE) (AccountingLimit GrFileTooLarge),
      require (uf_expected_result_size f \<le> MAX_PREIMAGE_BYTES_PER_FILE \<and>
               \<not> is_some_and (uf_displaced_size f) (\<lambda>n. MAX_PREIMAGE_BYTES_PER_FILE < n))
        (AccountingLimit GrFileTooLarge),
      require (file_state_known (uf_state f) \<and> outcome_known (uf_verification_outcome f))
        UnknownPersistedValue,
      metadata_validate (uf_expected_metadata f),
      validate_opt metadata_validate (uf_staged_metadata f),
      require ((uf_displaced_size f = None \<longleftrightarrow> uf_displaced_sha256 f = None) \<and>
               (uf_displaced_size f = None \<longleftrightarrow> uf_displaced_metadata f = None))
        (InvalidField (lit ''displaced identity must be entirely absent or present'')),
      validate_opt metadata_validate (uf_displaced_metadata f),
      validate_opt recovery_validate (uf_recovery_details f),
      require (file_fields_consistent f)
        (InvalidField (lit ''undo operation file state fields are inconsistent''))]"

record chain_source =
  cs_operation_id :: rstr
  cs_restore_set_id :: rstr
  cs_workspace_id :: rstr
  cs_root_id :: physical_root_id
  cs_git :: git_identity
  cs_path :: opaque_repo_path
  cs_pre_size :: u64
  cs_pre_sha256 :: sha256_digest
  cs_staged_metadata :: file_metadata

definition chained_result_is_bound ::
    "restore_set \<Rightarrow> restore_file \<Rightarrow> chain_source \<Rightarrow> file_metadata \<Rightarrow> bool" where
  "chained_result_is_bound s f source expected \<longleftrightarrow>
     cs_restore_set_id source \<noteq> rs_restore_set_id s \<and>
     cs_workspace_id source = rs_workspace_id s \<and>
     rs_root_id s = Some (cs_root_id source) \<and>
     is_some_and (rs_git_identity s) (\<lambda>git. same_repository_state git (cs_git source)) \<and>
     cs_path source = rf_path f \<and> cs_pre_size source = rf_result_size f \<and>
     cs_pre_sha256 source = rf_result_sha256 f \<and> cs_staged_metadata source = expected \<and>
     same_attributes expected (rf_metadata f)"

end
