(* ===== verification/Undo_Manifest.thy ===== *)
theory Undo_Manifest
  imports Undo_Records "HOL-Library.List_Lexorder" "HOL-Library.Multiset"
begin

text \<open>
  The manifest of a restore set (\<open>domain/guarded_undo.rs\<close>): the accounting of its files and
  the canonical digest that binds a set to them. The lemmas show that the digest does not
  depend on the order in which the files are given and that the bytes it is computed over
  determine every field of every file, so two different manifests with one digest exhibit a
  collision of SHA-256, the parameter \<open>sha256\<close>.
\<close>

section \<open>Accounting\<close>

definition checked_add :: "u64 \<Rightarrow> u64 \<Rightarrow> u64 option" where
  "checked_add a b = (if unat a + unat b < 2 ^ 64 then Some (a + b) else None)"

fun account_loop :: "u64 \<Rightarrow> restore_file list \<Rightarrow> u64 checked" where
  "account_loop acc [] = Inr acc"
| "account_loop acc (f # fs) =
     and_then (restore_file_validate f) (\<lambda>_.
     and_then (ok_or (checked_add acc (rf_pre_size f)) (AccountingLimit GrSetTooLarge)) (\<lambda>acc'.
     account_loop acc' fs))"

record restore_accounting =
  ra_file_count :: u32
  ra_artifact_bytes :: u64

definition account_restore_files :: "restore_file list \<Rightarrow> restore_accounting checked" where
  "account_restore_files files =
     (if 2 ^ 32 \<le> length files \<or> unat MAX_RESTORE_FILES < length files
      then Inl (AccountingLimit GrTooManyFiles)
      else and_then (account_loop 0 files) (\<lambda>artifact_bytes.
        if MAX_PREIMAGE_BYTES_PER_SET < artifact_bytes
        then Inl (AccountingLimit GrSetTooLarge)
        else Inr \<lparr>ra_file_count = word_of_nat (length files), ra_artifact_bytes = artifact_bytes\<rparr>))"

lemma account_loop_ok:
  assumes "account_loop acc files = Inr sum_bytes"
  shows "unat sum_bytes = unat acc + sum_list (map (unat \<circ> rf_pre_size) files) \<and>
     (\<forall>f \<in> set files. restore_file_validate f = Inr ())"
  using assms
proof (induction files arbitrary: acc)
  case (Cons f fs)
  then obtain acc' where v: "restore_file_validate f = Inr ()"
    and a: "checked_add acc (rf_pre_size f) = Some acc'" and r: "account_loop acc' fs = Inr sum_bytes"
    by (auto simp: and_then_Inr_iff)
  from a have "unat acc' = unat acc + unat (rf_pre_size f)"
    by (auto simp: checked_add_def unat_word_ariths split: if_splits)
  with Cons.IH [OF r] v show ?case by simp
qed simp

lemma account_loop_complete:
  assumes "\<forall>f \<in> set files. restore_file_validate f = Inr ()"
    and "unat acc + sum_list (map (unat \<circ> rf_pre_size) files) < 2 ^ 64"
  shows "\<exists>sum_bytes. account_loop acc files = Inr sum_bytes"
  using assms
proof (induction files arbitrary: acc)
  case (Cons f fs)
  then have a: "checked_add acc (rf_pre_size f) = Some (acc + rf_pre_size f)"
    by (simp add: checked_add_def)
  have "unat (acc + rf_pre_size f) = unat acc + unat (rf_pre_size f)"
    using Cons.prems(2) by (simp add: unat_word_ariths)
  with Cons a show ?case by simp
qed simp

section \<open>The canonical bytes\<close>

definition be32 :: "nat \<Rightarrow> bytes" where
  "be32 n = be_bytes 4 n"

text \<open>\<open>push_bytes\<close> writes the length of a field before it.\<close>

definition encode_fields :: "(rstr \<times> bytes) list \<Rightarrow> bytes" where
  "encode_fields entries = concat (map (\<lambda>(key, v). framed (utf8 key) @ framed v) entries)"

definition metadata_canonical :: "file_metadata \<Rightarrow> bytes" where
  "metadata_canonical m =
     be32 (unat (fm_schema_version m)) @ framed (utf8 (fm_adapter m))
     @ framed (fm_file_identity m) @ be64 (unat (fm_link_count m))
     @ be32 (length (fm_fields m)) @ encode_fields (fm_fields m)"

definition write_canonical :: "file_metadata \<Rightarrow> bytes checked" where
  "write_canonical m = and_then (metadata_validate m) (\<lambda>_. Inr (metadata_canonical m))"

definition file_canonical :: "restore_file \<Rightarrow> bytes checked" where
  "file_canonical f =
     and_then (write_canonical (rf_metadata f)) (\<lambda>metadata. Inr
       (be32 (unat (rf_ordinal f)) @ framed (persisted_bytes (rf_path f))
        @ framed (utf8 (status_label (rf_status f))) @ be64 (unat (rf_pre_size f))
        @ rf_pre_sha256 f @ rf_pre_artifact_key f @ be64 (unat (rf_result_size f))
        @ rf_result_sha256 f @ metadata))"

fun files_canonical :: "restore_file list \<Rightarrow> bytes checked" where
  "files_canonical [] = Inr []"
| "files_canonical (f # fs) =
     and_then (file_canonical f) (\<lambda>b. and_then (files_canonical fs) (\<lambda>bs. Inr (b @ bs)))"

definition path_key :: "restore_file \<Rightarrow> bytes" where
  "path_key f = persisted_bytes (rf_path f)"

fun check_ordered ::
    "nat \<Rightarrow> restore_file option \<Rightarrow> artifact_key list \<Rightarrow> restore_file list \<Rightarrow> unit checked" where
  "check_ordered i prev keys [] = Inr ()"
| "check_ordered i prev keys (f # fs) =
     (if unat (rf_ordinal f) \<noteq> i
      then Inl (InvalidField (lit ''ordinals must match canonical path order''))
      else if is_some_and prev (\<lambda>p. rf_path p = rf_path f)
      then Inl (InvalidField (lit ''duplicate restore path''))
      else if rf_pre_artifact_key f \<in> set keys
      then Inl (InvalidField (lit ''duplicate preimage artifact key''))
      else check_ordered (i + 1) (Some f) (rf_pre_artifact_key f # keys) fs)"

definition manifest_header :: "nat \<Rightarrow> bytes" where
  "manifest_header n =
     utf8 (lit ''DCC_GUARDED_UNDO_MANIFEST'') @ [0]
     @ be32 (unat RESTORE_MANIFEST_SCHEMA_VERSION) @ be32 (unat RESTORE_CAPTURE_VERSION) @ be32 n"

definition canonical_manifest_bytes :: "restore_file list \<Rightarrow> bytes checked" where
  "canonical_manifest_bytes files =
     and_then (account_restore_files files) (\<lambda>_.
       let ordered = sort_key path_key files
       in and_then (check_ordered 0 None [] ordered) (\<lambda>_.
          and_then (files_canonical ordered) (\<lambda>bs. Inr (manifest_header (length ordered) @ bs))))"

definition canonical_restore_manifest_digest ::
    "(bytes \<Rightarrow> bytes) \<Rightarrow> restore_file list \<Rightarrow> sha256_digest checked" where
  "canonical_restore_manifest_digest sha256 files =
     and_then (canonical_manifest_bytes files) (\<lambda>bs. Inr (sha256 bs))"

definition validate_restore_set_manifest ::
    "(bytes \<Rightarrow> bytes) \<Rightarrow> restore_set \<Rightarrow> restore_file list \<Rightarrow> unit checked" where
  "validate_restore_set_manifest sha256 s files =
     and_then (restore_set_validate s) (\<lambda>_.
     if list_ex (\<lambda>f. rf_restore_set_id f \<noteq> rs_restore_set_id s) files
     then Inl (InvalidField (lit ''file belongs to another set''))
     else and_then (account_restore_files files) (\<lambda>accounting.
       if ra_file_count accounting \<noteq> rs_file_count s
          \<or> ra_artifact_bytes accounting \<noteq> rs_artifact_bytes s
       then Inl (InvalidField (lit ''accounting mismatch''))
       else case rs_manifest_digest s of
              Some expected \<Rightarrow>
                and_then (canonical_restore_manifest_digest sha256 files) (\<lambda>d.
                  if d = expected then Inr () else Inl ManifestDigestMismatch)
            | None \<Rightarrow>
                if files = [] \<and> rs_state s = RsCollecting then Inr ()
                else Inl (InvalidField (lit ''files require manifest digest''))))"

section \<open>What the order check establishes\<close>

lemma path_key_inject: "path_key f = path_key g \<longleftrightarrow> rf_path f = rf_path g"
  unfolding path_key_def by (cases "rf_path f"; cases "rf_path g") simp

lemma check_ordered_ok:
  assumes "check_ordered i prev keys fs = Inr ()" and "sorted (map path_key fs)"
    and "\<forall>p. prev = Some p \<longrightarrow> (\<forall>f \<in> set fs. path_key p \<le> path_key f)"
  shows "map (\<lambda>f. unat (rf_ordinal f)) fs = [i..<i + length fs] \<and> distinct (map path_key fs) \<and>
     (\<forall>p. prev = Some p \<longrightarrow> path_key p \<notin> set (map path_key fs)) \<and>
     distinct (map rf_pre_artifact_key fs) \<and>
     set (map rf_pre_artifact_key fs) \<inter> set keys = {}"
  using assms
proof (induction fs arbitrary: i prev keys)
  case (Cons f fs)
  from Cons.prems(1) have o: "unat (rf_ordinal f) = i" and k: "rf_pre_artifact_key f \<notin> set keys"
    and np: "\<forall>p. prev = Some p \<longrightarrow> path_key p \<noteq> path_key f"
    and rest: "check_ordered (i + 1) (Some f) (rf_pre_artifact_key f # keys) fs = Inr ()"
    by (auto simp: path_key_inject split: if_splits option.splits)
  have ih: "map (\<lambda>f. unat (rf_ordinal f)) fs = [i + 1..<i + 1 + length fs] \<and> distinct (map path_key fs) \<and>
     (\<forall>p. Some f = Some p \<longrightarrow> path_key p \<notin> set (map path_key fs)) \<and>
     distinct (map rf_pre_artifact_key fs) \<and>
     set (map rf_pre_artifact_key fs) \<inter> set (rf_pre_artifact_key f # keys) = {}"
    using Cons.IH [OF rest] Cons.prems(2) by auto
  have "path_key p \<notin> set (map path_key (f # fs))" if "prev = Some p" for p
  proof
    assume "path_key p \<in> set (map path_key (f # fs))"
    with np that obtain g where g: "g \<in> set fs" "path_key p = path_key g" by auto
    have "path_key p \<le> path_key f" using Cons.prems(3) that by simp
    moreover have "path_key f \<le> path_key g" using Cons.prems(2) g(1) by auto
    ultimately show False using np that g(2) by simp
  qed
  moreover have "[i..<i + length (f # fs)] = i # [i + 1..<i + 1 + length fs]"
    by (simp add: upt_conv_Cons del: upt_Suc)
  ultimately show ?case using ih o k by (auto simp del: upt_Suc)
qed simp

lemma distinct_singleton_list: "distinct zs \<Longrightarrow> set zs = {k} \<Longrightarrow> zs = [k]"
proof (cases zs)
  case (Cons a as)
  assume "distinct zs" and "set zs = {k}"
  with Cons show ?thesis by (cases as) auto
qed simp

lemma sort_key_perm:
  assumes "mset xs = mset ys" and "distinct (map f xs)"
  shows "sort_key f xs = sort_key f ys"
proof (rule properties_for_sort_key)
  show "mset (sort_key f ys) = mset xs" using assms(1) by simp
  show "sorted (map f (sort_key f ys))" by simp
  fix k
  assume k: "k \<in> set (sort_key f ys)"
  have inj: "inj_on f (set xs)" using assms(2) by (simp add: distinct_map)
  have d: "distinct xs" using assms(2) by (simp add: distinct_map)
  then have dy: "distinct (sort_key f ys)" using assms(1) by (metis distinct_sort mset_eq_imp_distinct_iff)
  have s: "set (sort_key f ys) = set xs" using assms(1) by (metis set_sort mset_eq_setD)
  have one: "filter (\<lambda>x. f k = f x) zs = [k]" if "distinct zs" "set zs = set xs" for zs
  proof (rule distinct_singleton_list)
    show "distinct (filter (\<lambda>x. f k = f x) zs)" using that(1) by simp
    show "set (filter (\<lambda>x. f k = f x) zs) = {k}"
      using inj k s that(2) by (auto dest: inj_onD)
  qed
  show "filter (\<lambda>x. f k = f x) (sort_key f ys) = filter (\<lambda>x. f k = f x) xs"
    using one [OF dy s] one [OF d refl] by simp
qed

section \<open>The bytes determine the files\<close>

lemma length_be32 [simp]: "length (be32 n) = 4"
  by (simp add: be32_def)

lemma be32_inject: "m < 2 ^ 32 \<Longrightarrow> n < 2 ^ 32 \<Longrightarrow> be32 m = be32 n \<longleftrightarrow> m = n"
proof -
  assume "m < 2 ^ 32" and "n < 2 ^ 32"
  then have "from_be (be32 m) = m" and "from_be (be32 n) = n"
    unfolding be32_def from_be_bytes by simp_all
  then show ?thesis by metis
qed

lemma be32_word [simp]: "be32 (unat x) = be32 (unat y) \<longleftrightarrow> x = y"
  for x y :: u32
  using unat_bound [of x] unat_bound [of y] by (simp add: be32_inject unat_eq_iff)

lemma be64_word [simp]: "be64 (unat x) = be64 (unat y) \<longleftrightarrow> x = y"
  for x y :: u64
  using unat_bound [of x] unat_bound [of y] by (simp add: be64_inject unat_eq_iff)

lemma same_length_append:
  "length a = length b \<Longrightarrow> a @ x = b @ y \<longleftrightarrow> a = b \<and> x = y"
  by simp

text \<open>An ASCII text is a valid string and one byte per character.\<close>

lemma ascii_ok:
  assumes "list_all (\<lambda>c. c < 128) s"
  shows "valid_str s" and "byte_len s = length s"
  using assms by (induction s) (auto simp: scalar_def utf8_len_def)

lemma stable_label_ok:
  assumes "valid_stable_label s"
  shows "valid_str s" and "fits (utf8 s)"
proof -
  have "list_all (\<lambda>c. c < 128) s" and l: "byte_len s \<le> 64"
    using assms by (auto simp: valid_stable_label_def list_all_iff is_ascii_lowercase_def
        is_ascii_digit_def)
  then show "valid_str s" by (intro ascii_ok)
  from l show "fits (utf8 s)" by (simp add: fits_def)
qed

lemma utf8_eq_iff: "valid_str s \<Longrightarrow> valid_str t \<Longrightarrow> utf8 s = utf8 t \<longleftrightarrow> s = t"
  using utf8_inject [of s t] by blast

lemma utf8_framed_inject:
  assumes "valid_str s" "valid_str t" "fits (utf8 s)" "fits (utf8 t)"
  shows "framed (utf8 s) @ x = framed (utf8 t) @ y \<longleftrightarrow> s = t \<and> x = y"
  using assms utf8_inject [of s t] framed_append_inject [of "utf8 s" "utf8 t" x y] by blast

definition entry_ok :: "rstr \<times> bytes \<Rightarrow> bool" where
  "entry_ok e \<longleftrightarrow> valid_str (fst e) \<and> fits (utf8 (fst e)) \<and> fits (snd e)"

lemma allowed_field_ok: "k \<in> set ALLOWED_FIELDS \<Longrightarrow> valid_str k \<and> fits (utf8 k)"
proof -
  assume "k \<in> set ALLOWED_FIELDS"
  then have "list_all (\<lambda>c. c < 128) k" and "length k \<le> 20"
    by (auto simp: ALLOWED_FIELDS_def lit_def)
  with ascii_ok [of k] show ?thesis by (simp add: fits_def)
qed

lemma encode_fields_inject:
  assumes "length a = length b" and "\<forall>e \<in> set a \<union> set b. entry_ok e"
  shows "encode_fields a @ x = encode_fields b @ y \<longleftrightarrow> a = b \<and> x = y"
  using assms
proof (induction a b arbitrary: x y rule: list_induct2)
  case (Cons e es d ds)
  obtain k v l w where ed: "e = (k, v)" "d = (l, w)" by (cases e; cases d) auto
  with Cons.prems have ok: "valid_str k" "valid_str l" "fits (utf8 k)" "fits (utf8 l)" "fits v" "fits w"
    by (auto simp: entry_ok_def)
  have "encode_fields (e # es) @ x = encode_fields (d # ds) @ y \<longleftrightarrow>
      framed (utf8 k) @ framed v @ encode_fields es @ x = framed (utf8 l) @ framed w @ encode_fields ds @ y"
    by (simp add: encode_fields_def ed)
  also have "\<dots> \<longleftrightarrow> k = l \<and> v = w \<and> encode_fields es @ x = encode_fields ds @ y"
    using ok by (simp add: framed_append_inject utf8_eq_iff)
  also have "\<dots> \<longleftrightarrow> e # es = d # ds \<and> x = y"
    using Cons.IH [of x y] Cons.prems ed by auto
  finally show ?case .
qed (simp add: encode_fields_def)

lemma metadata_validate_facts:
  assumes "metadata_validate m = Inr ()"
  shows "valid_stable_label (fm_adapter m)" and "fits (fm_file_identity m)"
    and "length (fm_fields m) \<le> 8" and "\<forall>e \<in> set (fm_fields m). entry_ok e"
proof -
  from assms show "valid_stable_label (fm_adapter m)" and "length (fm_fields m) \<le> 8"
    unfolding metadata_validate_def first_err_Inr_iff by (auto simp: MAX_METADATA_FIELDS_def)
  from assms have "length (fm_file_identity m) \<le> 1024"
    unfolding metadata_validate_def first_err_Inr_iff
    by (auto simp: require_bounded_bytes_def MAX_IDENTITY_BYTES_def)
  then show "fits (fm_file_identity m)" by (simp add: fits_def)
  have "fst e \<in> set ALLOWED_FIELDS \<and> length (snd e) \<le> 64" if "e \<in> set (fm_fields m)" for e
    using assms that unfolding metadata_validate_def first_err_Inr_iff
    by (auto simp: MAX_METADATA_VALUE_BYTES_def case_prod_unfold dest: bspec)
  then show "\<forall>e \<in> set (fm_fields m). entry_ok e"
    using allowed_field_ok by (fastforce simp: entry_ok_def fits_def)
qed

lemma metadata_canonical_inject:
  assumes "metadata_validate m = Inr ()" and "metadata_validate n = Inr ()"
  shows "metadata_canonical m @ x = metadata_canonical n @ y \<longleftrightarrow> m = n \<and> x = y"
proof -
  note fm = metadata_validate_facts [OF assms(1)] and fn = metadata_validate_facts [OF assms(2)]
  have len: "length (fm_fields m) < 2 ^ 32" "length (fm_fields n) < 2 ^ 32" using fm(3) fn(3) by auto
  have "metadata_canonical m @ x = metadata_canonical n @ y \<longleftrightarrow>
      fm_schema_version m = fm_schema_version n \<and> fm_adapter m = fm_adapter n \<and>
      fm_file_identity m = fm_file_identity n \<and> fm_link_count m = fm_link_count n \<and>
      length (fm_fields m) = length (fm_fields n) \<and>
      encode_fields (fm_fields m) @ x = encode_fields (fm_fields n) @ y"
    unfolding metadata_canonical_def append_assoc
    using stable_label_ok [OF fm(1)] stable_label_ok [OF fn(1)] fm(2) fn(2) len
    by (simp add: framed_append_inject utf8_eq_iff be32_inject)
  also have "\<dots> \<longleftrightarrow> m = n \<and> x = y"
    using encode_fields_inject [of "fm_fields m" "fm_fields n" x y] fm(4) fn(4)
    by (cases m; cases n) auto
  finally show ?thesis .
qed

text \<open>A file with the array lengths of its Rust type, and a file without the id of its set.\<close>

definition typed_file :: "restore_file \<Rightarrow> bool" where
  "typed_file f \<longleftrightarrow>
     length (rf_pre_sha256 f) = 32 \<and> length (rf_result_sha256 f) = 32 \<and>
     length (rf_pre_artifact_key f) = 16"

definition unbound :: "restore_file \<Rightarrow> restore_file" where
  "unbound f = f\<lparr>rf_restore_set_id := []\<rparr>"

lemma restore_file_validate_facts:
  assumes "restore_file_validate f = Inr ()"
  shows "path_validate (rf_path f) = Inr ()" and "rf_status f = FsModified"
    and "rf_pre_size f \<le> MAX_PREIMAGE_BYTES_PER_FILE" and "metadata_validate (rf_metadata f) = Inr ()"
    and "fits (persisted_bytes (rf_path f))"
proof -
  from assms show v: "path_validate (rf_path f) = Inr ()" and "rf_status f = FsModified"
    and "rf_pre_size f \<le> MAX_PREIMAGE_BYTES_PER_FILE" and "metadata_validate (rf_metadata f) = Inr ()"
    unfolding restore_file_validate_def first_err_Inr_iff by auto
  from v have "length (persisted_bytes (rf_path f)) \<le> 4096"
    by (auto simp: path_validate_def Let_def MAX_OPAQUE_PATH_BYTES_def split: if_splits)
  then show "fits (persisted_bytes (rf_path f))" by (simp add: fits_def)
qed

lemma file_canonical_inject:
  assumes "restore_file_validate f = Inr ()" and "restore_file_validate g = Inr ()"
    and "typed_file f" and "typed_file g"
    and "file_canonical f = Inr a" and "file_canonical g = Inr b"
    and eq: "a @ x = b @ y"
  shows "unbound f = unbound g \<and> x = y"
proof -
  note vf = restore_file_validate_facts [OF assms(1)] and vg = restore_file_validate_facts [OF assms(2)]
  have ab: "a = be32 (unat (rf_ordinal f)) @ framed (persisted_bytes (rf_path f))
        @ framed (utf8 (status_label (rf_status f))) @ be64 (unat (rf_pre_size f))
        @ rf_pre_sha256 f @ rf_pre_artifact_key f @ be64 (unat (rf_result_size f))
        @ rf_result_sha256 f @ metadata_canonical (rf_metadata f)"
    "b = be32 (unat (rf_ordinal g)) @ framed (persisted_bytes (rf_path g))
        @ framed (utf8 (status_label (rf_status g))) @ be64 (unat (rf_pre_size g))
        @ rf_pre_sha256 g @ rf_pre_artifact_key g @ be64 (unat (rf_result_size g))
        @ rf_result_sha256 g @ metadata_canonical (rf_metadata g)"
    using assms(5,6) vf(4) vg(4) by (auto simp: file_canonical_def write_canonical_def)
  have "rf_ordinal f = rf_ordinal g \<and> persisted_bytes (rf_path f) = persisted_bytes (rf_path g) \<and>
      rf_pre_size f = rf_pre_size g \<and> rf_pre_sha256 f = rf_pre_sha256 g \<and>
      rf_pre_artifact_key f = rf_pre_artifact_key g \<and> rf_result_size f = rf_result_size g \<and>
      rf_result_sha256 f = rf_result_sha256 g \<and>
      metadata_canonical (rf_metadata f) @ x = metadata_canonical (rf_metadata g) @ y"
    using eq assms(3,4) vf(2,5) vg(2,5) unfolding ab append_assoc
    by (simp add: framed_append_inject typed_file_def)
  then show ?thesis
    using metadata_canonical_inject [OF vf(4) vg(4)] vf(2) vg(2) path_key_inject [of f g]
    by (cases f; cases g) (auto simp: unbound_def path_key_def)
qed

lemma files_canonical_inject:
  assumes "length fs = length gs"
    and "\<forall>f \<in> set fs \<union> set gs. restore_file_validate f = Inr () \<and> typed_file f"
    and "files_canonical fs = Inr a" and "files_canonical gs = Inr a"
  shows "map unbound fs = map unbound gs"
  using assms
proof (induction fs gs arbitrary: a rule: list_induct2)
  case (Cons f fs g gs)
  from Cons.prems obtain af bf ag bg where c: "file_canonical f = Inr af" "files_canonical fs = Inr bf"
    "file_canonical g = Inr ag" "files_canonical gs = Inr bg" "a = af @ bf" "a = ag @ bg"
    by (auto simp: and_then_Inr_iff)
  have "unbound f = unbound g \<and> bf = bg"
    using Cons.prems(1) c by (intro file_canonical_inject [of f g af ag]) auto
  with Cons.IH [of bf] Cons.prems(1) c show ?case by auto
qed simp

section \<open>Accepted manifests\<close>

lemma account_restore_files_ok:
  assumes "account_restore_files fs = Inr a"
  shows "length fs \<le> 256" and "unat (ra_file_count a) = length fs"
    and "unat (ra_artifact_bytes a) = sum_list (map (unat \<circ> rf_pre_size) fs)"
    and "ra_artifact_bytes a \<le> MAX_PREIMAGE_BYTES_PER_SET"
    and "\<forall>f \<in> set fs. restore_file_validate f = Inr ()"
proof -
  from assms obtain n where len: "length fs \<le> 256" and l: "account_loop 0 fs = Inr n"
    and n: "n \<le> MAX_PREIMAGE_BYTES_PER_SET"
    and a: "a = \<lparr>ra_file_count = word_of_nat (length fs), ra_artifact_bytes = n\<rparr>"
    by (auto simp: account_restore_files_def MAX_RESTORE_FILES_def and_then_Inr_iff split: if_splits)
  show "length fs \<le> 256" by (rule len)
  have "length fs mod 2 ^ 32 = length fs" using len by simp
  then show "unat (ra_file_count a) = length fs" using a by (simp add: unat_of_nat)
  show "ra_artifact_bytes a \<le> MAX_PREIMAGE_BYTES_PER_SET" using a n by simp
  show "unat (ra_artifact_bytes a) = sum_list (map (unat \<circ> rf_pre_size) fs)"
    and "\<forall>f \<in> set fs. restore_file_validate f = Inr ()"
    using account_loop_ok [OF l] a by simp_all
qed

lemma account_restore_files_perm:
  assumes "mset fs = mset gs" and "account_restore_files fs = Inr a"
  shows "account_restore_files gs = Inr a"
proof -
  note ok = account_restore_files_ok [OF assms(2)]
  have len: "length gs = length fs" and st: "set gs = set fs"
    using assms(1) by (metis mset_eq_length, metis mset_eq_setD)
  have sums: "sum_list (map (unat \<circ> rf_pre_size) gs) = sum_list (map (unat \<circ> rf_pre_size) fs)"
    using assms(1) by (metis mset_map sum_mset_sum_list)
  have "unat (0 :: u64) + sum_list (map (unat \<circ> rf_pre_size) gs) < 2 ^ 64"
    using ok(3) sums unat_bound [of "ra_artifact_bytes a"] by simp
  then obtain n where n: "account_loop 0 gs = Inr n"
    using account_loop_complete [of gs 0] ok(5) st by blast
  have "unat n = unat (ra_artifact_bytes a)" using account_loop_ok [OF n] ok(3) sums by simp
  then have n': "n = ra_artifact_bytes a" by (simp add: unat_eq_iff)
  have "word_of_nat (length fs) = ra_file_count a"
    unfolding ok(2) [symmetric] by simp
  then show ?thesis
    using n n' ok(1,4) len
    by (simp add: account_restore_files_def MAX_RESTORE_FILES_def leD)
qed

lemma canonical_manifest_bytes_ok:
  assumes "canonical_manifest_bytes fs = Inr bs"
  obtains a cs where "account_restore_files fs = Inr a"
    and "distinct (map path_key fs)" and "distinct (map rf_pre_artifact_key fs)"
    and "map (\<lambda>f. unat (rf_ordinal f)) (sort_key path_key fs) = [0..<length fs]"
    and "check_ordered 0 None [] (sort_key path_key fs) = Inr ()"
    and "files_canonical (sort_key path_key fs) = Inr cs"
    and "bs = manifest_header (length fs) @ cs"
proof -
  from assms obtain a cs where r: "account_restore_files fs = Inr a"
    "check_ordered 0 None [] (sort_key path_key fs) = Inr ()"
    "files_canonical (sort_key path_key fs) = Inr cs" "bs = manifest_header (length fs) @ cs"
    by (auto simp: canonical_manifest_bytes_def Let_def and_then_Inr_iff)
  note co = check_ordered_ok [OF r(2) sorted_sort_key]
  have "distinct (map path_key fs)" and "distinct (map rf_pre_artifact_key fs)"
    using co by (metis mset_map mset_sort mset_eq_imp_distinct_iff option.simps(3))+
  with co r that show thesis by simp
qed

lemma canonical_manifest_bytes_perm:
  assumes "mset fs = mset gs" and run: "canonical_manifest_bytes fs = Inr bs"
  shows "canonical_manifest_bytes gs = Inr bs"
proof -
  from run obtain a cs where r: "account_restore_files fs = Inr a" "distinct (map path_key fs)"
    "check_ordered 0 None [] (sort_key path_key fs) = Inr ()"
    "files_canonical (sort_key path_key fs) = Inr cs" "bs = manifest_header (length fs) @ cs"
    by (rule canonical_manifest_bytes_ok)
  have "sort_key path_key gs = sort_key path_key fs"
    using sort_key_perm [OF assms(1) r(2)] by simp
  moreover have "length gs = length fs" using assms(1) by (metis mset_eq_length)
  ultimately show ?thesis
    using r account_restore_files_perm [OF assms(1) r(1)] by (simp add: canonical_manifest_bytes_def)
qed

lemma manifest_header_inject:
  assumes "m < 2 ^ 32" and "n < 2 ^ 32"
  shows "manifest_header m @ x = manifest_header n @ y \<longleftrightarrow> m = n \<and> x = y"
  using be32_inject [OF assms] by (simp add: manifest_header_def)

lemma canonical_manifest_bytes_inject:
  assumes "canonical_manifest_bytes fs = Inr bs" and "canonical_manifest_bytes gs = Inr bs"
    and "\<forall>f \<in> set fs \<union> set gs. typed_file f"
  shows "mset (map unbound fs) = mset (map unbound gs)"
proof -
  from assms(1) obtain a cs where f: "account_restore_files fs = Inr a"
    "files_canonical (sort_key path_key fs) = Inr cs" "bs = manifest_header (length fs) @ cs"
    by (rule canonical_manifest_bytes_ok)
  from assms(2) obtain b ds where g: "account_restore_files gs = Inr b"
    "files_canonical (sort_key path_key gs) = Inr ds" "bs = manifest_header (length gs) @ ds"
    by (rule canonical_manifest_bytes_ok)
  have "length fs = length gs \<and> cs = ds"
    using f(3) g(3) account_restore_files_ok(1) [OF f(1)] account_restore_files_ok(1) [OF g(1)]
    by (intro manifest_header_inject [THEN iffD1]) auto
  then have "map unbound (sort_key path_key fs) = map unbound (sort_key path_key gs)"
    using f(2) g(2) assms(3) account_restore_files_ok(5) [OF f(1)] account_restore_files_ok(5) [OF g(1)]
    by (intro files_canonical_inject [where a = cs]) auto
  then show ?thesis by (metis mset_map mset_sort)
qed

section \<open>The properties of the manifest\<close>

text \<open>A manifest of two files, captured in the order \<open>b\<close>, \<open>a\<close>.\<close>

definition sample_metadata :: file_metadata where
  "sample_metadata =
     \<lparr>fm_schema_version = 1, fm_adapter = lit ''posix'', fm_file_identity = [7], fm_link_count = 1,
      fm_fields = [(lit ''mode'', [1, 164])]\<rparr>"

definition sample_file :: "u32 \<Rightarrow> u8 \<Rightarrow> restore_file" where
  "sample_file ordinal name =
     \<lparr>rf_restore_set_id = lit ''set'', rf_ordinal = ordinal, rf_path = OpaqueRepoPath [1, 1, name],
      rf_status = FsModified, rf_pre_size = 3, rf_pre_sha256 = replicate 32 name,
      rf_pre_artifact_key = replicate 16 name, rf_result_size = 4,
      rf_result_sha256 = replicate 32 9, rf_metadata = sample_metadata\<rparr>"

definition sample_files :: "restore_file list" where
  "sample_files = [sample_file 1 98, sample_file 0 97]"

definition sample_set :: restore_set where
  "sample_set =
     \<lparr>rs_restore_set_id = lit ''set'', rs_snapshot_id = lit ''snap'', rs_session_id = lit ''s1'',
      rs_turn_id = lit ''t1'', rs_workspace_id = lit ''w1'', rs_root_id = None,
      rs_capture_version = 2, rs_state = RsCollecting, rs_reason_code = None,
      rs_git_identity = None, rs_artifact_bytes = 6, rs_file_count = 2,
      rs_manifest_digest = Some [1], rs_created_at = lit ''c'', rs_completed_at = None,
      rs_expires_at = None\<rparr>"

definition sum_digest :: "bytes \<Rightarrow> bytes" where
  "sum_digest bs = [1]"

lemma sample_file_ok: "0 < name \<Longrightarrow> name \<noteq> 46 \<Longrightarrow> name \<noteq> 47 \<Longrightarrow> restore_file_validate (sample_file i name) = Inr ()"
  by (simp add: restore_file_validate_def sample_file_def sample_metadata_def metadata_validate_def
      require_text_def require_schema_def require_bounded_bytes_def path_validate_def
      validate_unix_relative_path_def starts_with_def valid_stable_label_def ALLOWED_FIELDS_def
      MAX_PREIMAGE_BYTES_PER_FILE_def MAX_IDENTITY_BYTES_def MAX_METADATA_FIELDS_def
      MAX_METADATA_VALUE_BYTES_def MAX_OPAQUE_PATH_BYTES_def PATH_ENCODING_VERSION_def
      PATH_ENCODING_UNIX_BYTES_def FILE_METADATA_SCHEMA_VERSION_def blank_iff is_whitespace_def
      is_ascii_lowercase_def is_ascii_digit_def lit_def utf8_len_def)

lemma sample_order: "sort_key path_key sample_files = [sample_file 0 97, sample_file 1 98]"
  by (simp add: sample_files_def sort_key_def path_key_def sample_file_def)

lemma sample_account:
  "account_restore_files sample_files = Inr \<lparr>ra_file_count = 2, ra_artifact_bytes = 6\<rparr>"
  by (simp add: account_restore_files_def sample_files_def sample_file_ok checked_add_def
      MAX_RESTORE_FILES_def MAX_PREIMAGE_BYTES_PER_SET_def,
      simp add: sample_file_def)

lemma sample_check: "check_ordered 0 None [] (sort_key path_key sample_files) = Inr ()"
  unfolding sample_order by (simp add: sample_file_def)

lemma sample_bytes: "\<exists>bs. canonical_manifest_bytes sample_files = Inr bs"
proof -
  have "metadata_validate sample_metadata = Inr ()"
    using restore_file_validate_facts(4) [OF sample_file_ok [of 1 0]] by (simp add: sample_file_def)
  then have "file_canonical (sample_file i name) = file_canonical (sample_file i name) \<and>
      (\<exists>bs. file_canonical (sample_file i name) = Inr bs)" for i name
    by (simp add: file_canonical_def write_canonical_def sample_file_def)
  then obtain a b where "file_canonical (sample_file 0 97) = Inr a" "file_canonical (sample_file 1 98) = Inr b"
    by blast
  then show ?thesis
    by (simp add: canonical_manifest_bytes_def sample_account sample_check Let_def,
        simp add: sample_order)
qed

text \<open>
  C11: the canonical manifest digest does not depend on the order in which the caller lists the
  files: whatever succeeds for one order succeeds for every permutation with the same digest.
\<close>

theorem manifest_digest_ignores_order:
  assumes "mset fs = mset gs" and "canonical_restore_manifest_digest sha256 fs = Inr d"
  shows "canonical_restore_manifest_digest sha256 gs = Inr d"
proof -
  from assms(2) obtain bs where "canonical_manifest_bytes fs = Inr bs" and "d = sha256 bs"
    by (auto simp: canonical_restore_manifest_digest_def and_then_Inr_iff)
  with canonical_manifest_bytes_perm [OF assms(1)] show ?thesis
    by (simp add: canonical_restore_manifest_digest_def)
qed

theorem manifest_digest_ignores_order_witness:
  "\<exists>d. canonical_restore_manifest_digest (\<lambda>b. b) sample_files = Inr d \<and>
       canonical_restore_manifest_digest (\<lambda>b. b) (rev sample_files) = Inr d"
proof -
  obtain d where d: "canonical_restore_manifest_digest (\<lambda>b. b) sample_files = Inr d"
    using sample_bytes by (auto simp: canonical_restore_manifest_digest_def)
  have "mset sample_files = mset (rev sample_files)" by simp
  from manifest_digest_ignores_order [OF this d] d show ?thesis by blast
qed

text \<open>
  C12: the manifest digest binds every field of every file (the id of the set apart): two
  manifests with one digest list the same files, or their canonical bytes are an explicit
  collision of the hash.
\<close>

theorem manifest_digest_binds_files:
  assumes "canonical_restore_manifest_digest sha256 fs = Inr d"
    and "canonical_restore_manifest_digest sha256 gs = Inr d"
    and "\<forall>f \<in> set fs \<union> set gs. typed_file f"
  shows "mset (map unbound fs) = mset (map unbound gs) \<or>
    (\<exists>a b. canonical_manifest_bytes fs = Inr a \<and> canonical_manifest_bytes gs = Inr b \<and>
       a \<noteq> b \<and> sha256 a = sha256 b)"
proof -
  from assms(1,2) obtain a b where ab: "canonical_manifest_bytes fs = Inr a"
    "canonical_manifest_bytes gs = Inr b" "sha256 a = sha256 b"
    by (auto simp: canonical_restore_manifest_digest_def and_then_Inr_iff)
  then show ?thesis
    using canonical_manifest_bytes_inject [of fs a gs] assms(3) by blast
qed

theorem manifest_digest_binds_files_witness:
  "\<exists>d. canonical_restore_manifest_digest (\<lambda>b. b) sample_files = Inr d \<and>
     (\<forall>gs. canonical_restore_manifest_digest (\<lambda>b. b) gs = Inr d \<longrightarrow> list_all typed_file gs \<longrightarrow>
        mset (map unbound gs) = mset (map unbound sample_files))"
proof -
  obtain d where d: "canonical_restore_manifest_digest (\<lambda>b. b) sample_files = Inr d"
    using sample_bytes by (auto simp: canonical_restore_manifest_digest_def)
  have "mset (map unbound gs) = mset (map unbound sample_files)"
    if "canonical_restore_manifest_digest (\<lambda>b. b) gs = Inr d" "list_all typed_file gs" for gs
  proof -
    have "\<forall>f \<in> set gs \<union> set sample_files. typed_file f"
      using that(2) by (auto simp: list_all_iff sample_files_def sample_file_def typed_file_def)
    from manifest_digest_binds_files [OF that(1) d this] show ?thesis by auto
  qed
  with d show ?thesis by blast
qed

text \<open>
  a manifest that is accepted for a restore set is within the limits and is the set's: at
  most 256 files of at most 8 MiB each, 32 MiB of preimages together, the set's own counts, every
  file valid and of this set; with a digest, the paths and the artifact keys are pairwise
  distinct and the digest is recomputed from the files; without one the set is still collecting
  and has no file.
\<close>

lemma accepted_manifest_is_bounded:
  assumes "validate_restore_set_manifest sha256 s files = Inr ()"
  shows "length files = unat (rs_file_count s) \<and> length files \<le> 256 \<and>
    sum_list (map (unat \<circ> rf_pre_size) files) = unat (rs_artifact_bytes s) \<and>
    unat (rs_artifact_bytes s) \<le> 32 * 1024 * 1024 \<and>
    (\<forall>f \<in> set files. rf_restore_set_id f = rs_restore_set_id s \<and>
       unat (rf_pre_size f) \<le> 8 * 1024 * 1024 \<and> restore_file_validate f = Inr ()) \<and>
    (case rs_manifest_digest s of
       Some d \<Rightarrow> canonical_restore_manifest_digest sha256 files = Inr d \<and>
         distinct (map rf_path files) \<and> distinct (map rf_pre_artifact_key files)
     | None \<Rightarrow> files = [] \<and> rs_state s = RsCollecting)"
proof -
  from assms obtain a where sv: "restore_set_validate s = Inr ()"
    and own: "\<forall>f \<in> set files. rf_restore_set_id f = rs_restore_set_id s"
    and a: "account_restore_files files = Inr a" and c: "ra_file_count a = rs_file_count s"
      "ra_artifact_bytes a = rs_artifact_bytes s"
    and dg: "case rs_manifest_digest s of
           Some d \<Rightarrow> canonical_restore_manifest_digest sha256 files = Inr d
         | None \<Rightarrow> files = [] \<and> rs_state s = RsCollecting"
    unfolding validate_restore_set_manifest_def
    by (auto simp: and_then_Inr_iff list_ex_iff split: if_splits option.splits)
  note ok = account_restore_files_ok [OF a]
  have count: "length files = unat (rs_file_count s) \<and> length files \<le> 256 \<and>
      sum_list (map (unat \<circ> rf_pre_size) files) = unat (rs_artifact_bytes s)"
    using ok(1-3) c by auto
  have size: "unat (rs_artifact_bytes s) \<le> 32 * 1024 * 1024"
    using ok(4) c by (simp add: word_le_nat_alt MAX_PREIMAGE_BYTES_PER_SET_def)
  have files: "\<forall>f \<in> set files. rf_restore_set_id f = rs_restore_set_id s \<and>
      unat (rf_pre_size f) \<le> 8 * 1024 * 1024 \<and> restore_file_validate f = Inr ()"
    using own ok(5) restore_file_validate_facts(3)
    by (fastforce simp: word_le_nat_alt MAX_PREIMAGE_BYTES_PER_FILE_def)
  have "distinct (map rf_path files) \<and> distinct (map rf_pre_artifact_key files)"
    if digest: "canonical_restore_manifest_digest sha256 files = Inr d" for d
  proof -
    from digest obtain bs where "canonical_manifest_bytes files = Inr bs"
      by (auto simp: canonical_restore_manifest_digest_def and_then_Inr_iff)
    then have "distinct (map path_key files)" and "distinct (map rf_pre_artifact_key files)"
      by (auto elim: canonical_manifest_bytes_ok)
    then show ?thesis by (simp add: distinct_map inj_on_def path_key_def)
  qed
  with count size files dg show ?thesis by (simp split: option.splits)
qed

lemma accepted_manifest_is_bounded_witness:
  "length sample_files = 2 \<and> length sample_files \<le> 256 \<and> distinct (map rf_path sample_files)"
proof -
  obtain bs where "canonical_manifest_bytes sample_files = Inr bs" using sample_bytes by blast
  moreover have "restore_set_validate sample_set = Inr ()"
    by (simp add: restore_set_validate_def sample_set_def RESTORE_CAPTURE_VERSION_def require_text_def
        blank_iff is_whitespace_def lit_def require_known_state_def MAX_RESTORE_FILES_def
        MAX_PREIMAGE_BYTES_PER_SET_def set_fields_consistent_def)
  moreover have "\<forall>f \<in> set sample_files. rf_restore_set_id f = rs_restore_set_id sample_set"
    by (simp add: sample_files_def sample_file_def sample_set_def)
  moreover have "rs_manifest_digest sample_set = Some [1]" and "rs_file_count sample_set = 2"
    and "rs_artifact_bytes sample_set = 6"
    by (simp_all add: sample_set_def)
  ultimately have ok: "validate_restore_set_manifest sum_digest sample_set sample_files = Inr ()"
    unfolding validate_restore_set_manifest_def
    by (simp add: sample_account list_ex_iff canonical_restore_manifest_digest_def sum_digest_def)
  show ?thesis
    using accepted_manifest_is_bounded [OF ok] by (simp add: sample_set_def)
qed

end
