(* ===== verification/Sql_Tables.thy ===== *)
theory Sql_Tables
  imports Rust_Prelude
begin

text \<open>
  Tables as the database theories see them: a table is the list of its decoded rows, an \<open>UPDATE\<close> maps
  the rows that its \<open>WHERE\<close> clause hits, and the number of changed rows is what \<open>execute\<close> returns.
\<close>

section \<open>Rows\<close>

definition lookup_by :: "('a \<Rightarrow> 'k) \<Rightarrow> 'k \<Rightarrow> 'a list \<Rightarrow> 'a option" where
  "lookup_by key k rows = find (\<lambda>r. key r = k) rows"

definition update_where :: "('a \<Rightarrow> bool) \<Rightarrow> ('a \<Rightarrow> 'a) \<Rightarrow> 'a list \<Rightarrow> 'a list" where
  "update_where P f rows = map (\<lambda>r. if P r then f r else r) rows"

definition changed_rows :: "('a \<Rightarrow> bool) \<Rightarrow> 'a list \<Rightarrow> nat" where
  "changed_rows P rows = length (filter P rows)"

definition opt_ok :: "('a \<Rightarrow> bool) \<Rightarrow> 'a option \<Rightarrow> bool" where
  "opt_ok P x \<longleftrightarrow> (case x of None \<Rightarrow> True | Some y \<Rightarrow> P y)"

definition sqlite_int :: "u64 \<Rightarrow> bool" where
  "sqlite_int n \<longleftrightarrow> unat n < 2 ^ 63"

lemma opt_ok_simps [simp]: "opt_ok P None" "opt_ok P (Some x) = P x"
  by (simp_all add: opt_ok_def)

text \<open>\<open>query_map ... collect\<close>: the rows decoded in order, or the first error.\<close>

fun collect_rows :: "('a \<Rightarrow> 'e + 'b) \<Rightarrow> 'a list \<Rightarrow> 'e + 'b list" where
  "collect_rows f [] = Inr []"
| "collect_rows f (x # xs) = and_then (f x) (\<lambda>y. and_then (collect_rows f xs) (\<lambda>ys. Inr (y # ys)))"

lemma collect_rows_all:
  "(\<And>x. x \<in> set xs \<Longrightarrow> f x = Inr x) \<Longrightarrow> collect_rows f xs = Inr xs"
  by (induction xs) auto

text \<open>SQLite's \<open>trim\<close> removes spaces only, and its \<open>length\<close> of a text stops at a NUL.\<close>

definition sql_trim :: "rstr \<Rightarrow> rstr" where
  "sql_trim s = rev (dropWhile (\<lambda>c. c = 32) (rev (dropWhile (\<lambda>c. c = 32) s)))"

definition sql_length :: "rstr \<Rightarrow> nat" where
  "sql_length s = length (takeWhile (\<lambda>c. c \<noteq> 0) s)"

section \<open>Lookups in tables\<close>

lemma lookup_by_Nil [simp]: "lookup_by key k [] = None"
  and lookup_by_Cons [simp]:
    "lookup_by key k (x # xs) = (if key x = k then Some x else lookup_by key k xs)"
  by (simp_all add: lookup_by_def)

lemma lookup_by_append [simp]:
  "lookup_by key k (xs @ ys) =
     (case lookup_by key k xs of None \<Rightarrow> lookup_by key k ys | Some x \<Rightarrow> Some x)"
  by (induction xs) auto

lemma lookup_by_SomeD: "lookup_by key k xs = Some x \<Longrightarrow> x \<in> set xs \<and> key x = k"
  by (induction xs) (auto split: if_splits)

lemma lookup_by_None_iff: "lookup_by key k xs = None \<longleftrightarrow> k \<notin> key ` set xs"
  by (induction xs) auto

lemma lookup_by_in:
  "distinct (map key xs) \<Longrightarrow> x \<in> set xs \<Longrightarrow> lookup_by key (key x) xs = Some x"
  by (induction xs) force+

lemma lookup_by_update:
  assumes "\<And>x. key (f x) = key x"
  shows "lookup_by key k (update_where P f xs) =
    map_option (\<lambda>x. if P x then f x else x) (lookup_by key k xs)"
  using assms by (induction xs) (auto simp: update_where_def)

lemma lookup_by_filter_key:
  "lookup_by key k (filter (\<lambda>x. Q (key x)) xs) = (if Q k then lookup_by key k xs else None)"
  by (induction xs) auto

lemma map_update_where: "(\<And>x. key (f x) = key x) \<Longrightarrow> map key (update_where P f xs) = map key xs"
  by (induction xs) (auto simp: update_where_def)

lemma distinct_map_filter: "distinct (map f xs) \<Longrightarrow> distinct (map f (filter P xs))"
  by (induction xs) auto

lemma filter_update_where:
  "(\<And>x. key (f x) = key x) \<Longrightarrow> (\<And>x. P x \<Longrightarrow> key x \<noteq> k) \<Longrightarrow>
     filter (\<lambda>x. key x = k) (update_where P f xs) = filter (\<lambda>x. key x = k) xs"
  by (induction xs) (auto simp: update_where_def)

text \<open>A statement whose \<open>WHERE\<close> clause fixes the key hits one row at most.\<close>

lemma changed_rows_key:
  assumes "distinct (map key xs)" and "\<And>x. P x \<Longrightarrow> key x = k"
  shows "changed_rows P xs =
    (case lookup_by key k xs of Some x \<Rightarrow> if P x then 1 else 0 | None \<Rightarrow> 0)"
  using assms
proof (induction xs)
  case (Cons y ys)
  have "filter P ys = []" if "key y = k"
  proof -
    have "\<not> P z" if "z \<in> set ys" for z
    proof
      assume "P z"
      with Cons.prems(2) \<open>key y = k\<close> have "key z = key y" by simp
      moreover have "key z \<in> key ` set ys" using that by (rule imageI)
      ultimately show False using Cons.prems(1) by simp
    qed
    then show ?thesis by (simp add: filter_empty_conv)
  qed
  with Cons show ?case by (auto simp: changed_rows_def)
qed (simp add: changed_rows_def)

lemma changed_rows_one:
  assumes "distinct (map key xs)" and "\<And>x. P x \<Longrightarrow> key x = k"
  shows "changed_rows P xs = 1 \<longleftrightarrow> (\<exists>x. lookup_by key k xs = Some x \<and> P x)"
  using changed_rows_key [OF assms] by (auto split: option.splits)

lemma update_where_none:
  assumes "distinct (map key xs)" and "\<And>x. P x \<Longrightarrow> key x = k" and "changed_rows P xs \<noteq> 1"
  shows "update_where P f xs = xs"
proof -
  have "changed_rows P xs = 0"
    using changed_rows_key [OF assms(1,2)] assms(3) by (auto split: option.splits if_splits)
  then show ?thesis
    by (auto simp: changed_rows_def update_where_def filter_empty_conv intro!: map_idI)
qed

lemma lookup_by_update_one:
  assumes "\<And>x. key (f x) = key x" and "\<And>x. P x \<Longrightarrow> key x = k"
    and "lookup_by key k xs = Some y" and "P y"
  shows "lookup_by key i (update_where P f xs) = (if i = k then Some (f y) else lookup_by key i xs)"
proof -
  have "lookup_by key i (update_where P f xs) =
      map_option (\<lambda>x. if P x then f x else x) (lookup_by key i xs)"
    by (rule lookup_by_update) (rule assms(1))
  with assms show ?thesis
    by (auto dest: lookup_by_SomeD simp: map_option_case split: option.splits)
qed

lemma lookup_by_filter:
  assumes "distinct (map key xs)"
  shows "lookup_by key k (filter P xs) = filter_opt P (lookup_by key k xs)"
  using assms
proof (induction xs)
  case (Cons y ys)
  then have "lookup_by key (key y) ys = None" by (simp add: lookup_by_None_iff)
  with Cons show ?case by auto
qed simp

end
