(* ===== verification/Undo_Journal.thy ===== *)
theory Undo_Journal
  imports Undo_Manifest Sql_Tables
begin

text \<open>
  The durable journal of guarded undo (\<open>crates/dcc-infra/src/db.rs\<close>): the tables of restore
  sets, their files, undo operations and their files, and every operation on them. A table is
  the list of its decoded rows (\<open>Undo_Columns\<close> keeps restore sets and their files as the columns
  SQLite stores, and proves that reading these is the same); \<open>serde_json\<close> only appears here through the length of the text it
  writes, a field of \<open>db_env\<close>, as does SHA-256. Each operation runs under the connection
  lock in one transaction, so it is a function from the tables to an error, which leaves them
  unchanged, or to its result and the new tables. All errors become the text of one
  \<open>CoreError::Repository\<close>; the model keeps apart the checks of the code (\<open>JeGuard\<close>), of the
  record schema (\<open>JeSchema\<close>) and of SQLite's constraints (\<open>JeSql\<close>). The newtypes of ids are
  the strings they wrap.
\<close>

section \<open>Tables\<close>

datatype journal_error = JeGuard rstr | JeSchema undo_schema_error | JeSql

record operation_row =
  ow_operation :: undo_operation
  ow_cleanup_pending :: bool

record journal =
  jn_change_sets :: "rstr \<rightharpoonup> rstr \<times> rstr \<times> rstr"
  jn_sets :: "restore_set list"
  jn_set_files :: "restore_file list"
  jn_operations :: "operation_row list"
  jn_op_files :: "undo_file list"

record db_env =
  de_sha256 :: "bytes \<Rightarrow> bytes"
  de_git_json :: "git_identity \<Rightarrow> nat"
  de_metadata_json :: "file_metadata \<Rightarrow> nat"
  de_prepared_json :: "prepared_identity \<Rightarrow> nat"
  de_recovery_json :: "recovery_details \<Rightarrow> nat"

definition guarded :: "'a checked \<Rightarrow> journal_error + 'a" where
  "guarded r = (case r of Inl e \<Rightarrow> Inl (JeSchema e) | Inr x \<Rightarrow> Inr x)"

definition deny :: "string \<Rightarrow> journal_error + 'a" where
  "deny message = Inl (JeGuard (lit message))"

definition operation_id :: "operation_row \<Rightarrow> rstr" where
  "operation_id w = uo_operation_id (ow_operation w)"

definition operations :: "journal \<Rightarrow> undo_operation list" where
  "operations s = map ow_operation (jn_operations s)"

definition set_files_of :: "journal \<Rightarrow> rstr \<Rightarrow> restore_file list" where
  "set_files_of s sid = sort_key rf_ordinal (filter (\<lambda>f. rf_restore_set_id f = sid) (jn_set_files s))"

definition op_files_of :: "journal \<Rightarrow> rstr \<Rightarrow> undo_file list" where
  "op_files_of s oid = sort_key uf_ordinal (filter (\<lambda>f. uf_operation_id f = oid) (jn_op_files s))"

definition active_on :: "journal \<Rightarrow> rstr \<Rightarrow> bool" where
  "active_on s sid = list_ex (\<lambda>u. uo_restore_set_id u = sid \<and> uo_active u) (operations s)"

section \<open>Constraints of the tables\<close>

definition column_text :: "rstr \<Rightarrow> bool" where
  "column_text t \<longleftrightarrow> 1 \<le> length t \<and> length t \<le> 64"

definition json_within :: "('a \<Rightarrow> nat) \<Rightarrow> nat \<Rightarrow> 'a \<Rightarrow> bool" where
  "json_within len maximum x \<longleftrightarrow> 1 \<le> len x \<and> len x \<le> maximum"

fun root_bytes :: "physical_root_id \<Rightarrow> bytes" where
  "root_bytes (PhysicalRootId bs) = bs"

definition set_row_ok :: "db_env \<Rightarrow> restore_set \<Rightarrow> bool" where
  "set_row_ok e r \<longleftrightarrow>
     opt_ok (\<lambda>root. 3 \<le> length (root_bytes root) \<and> length (root_bytes root) \<le> 1024) (rs_root_id r) \<and>
     0 < rs_capture_version r \<and> column_text (set_state_text (rs_state r)) \<and>
     opt_ok (\<lambda>c. column_text (reason_text c)) (rs_reason_code r) \<and>
     opt_ok (json_within (de_git_json e) 65536) (rs_git_identity r) \<and>
     opt_ok (\<lambda>d. length d = 32) (rs_manifest_digest r)"

definition path_column :: "opaque_repo_path \<Rightarrow> bool" where
  "path_column p \<longleftrightarrow> 3 \<le> length (persisted_bytes p) \<and> length (persisted_bytes p) \<le> 4096"

definition set_file_row_ok :: "db_env \<Rightarrow> restore_file \<Rightarrow> bool" where
  "set_file_row_ok e f \<longleftrightarrow>
     path_column (rf_path f) \<and> column_text (status_label (rf_status f)) \<and>
     length (rf_pre_sha256 f) = 32 \<and> length (rf_pre_artifact_key f) = 16 \<and>
     length (rf_result_sha256 f) = 32 \<and> json_within (de_metadata_json e) 4096 (rf_metadata f)"

definition terminal_state :: "undo_operation_state \<Rightarrow> bool" where
  "terminal_state st \<longleftrightarrow> st = UoCompleted \<or> st = UoRolledBack \<or> st = UoBlocked"

definition operation_row_ok :: "db_env \<Rightarrow> undo_operation \<Rightarrow> bool" where
  "operation_row_ok e u \<longleftrightarrow>
     0 < uo_journal_version u \<and> column_text (operation_state_text (uo_state u)) \<and>
     opt_ok (\<lambda>d. length d = 32) (uo_preview_token_digest u) \<and>
     json_within (de_prepared_json e) 131072 (uo_prepared_identity u) \<and>
     opt_ok (\<lambda>c. column_text (reason_text c)) (uo_reason_code u) \<and>
     opt_ok (json_within (de_recovery_json e) 1024) (uo_recovery_details u) \<and>
     (terminal_state (uo_state u) \<longleftrightarrow> \<not> uo_active u)"

definition op_file_row_ok :: "db_env \<Rightarrow> undo_file \<Rightarrow> bool" where
  "op_file_row_ok e f \<longleftrightarrow>
     path_column (uf_path f) \<and> length (uf_exchange_artifact_key f) = 16 \<and>
     length (uf_expected_result_sha256 f) = 32 \<and> length (uf_pre_sha256 f) = 32 \<and>
     json_within (de_metadata_json e) 4096 (uf_expected_metadata f) \<and>
     opt_ok (json_within (de_metadata_json e) 4096) (uf_staged_metadata f) \<and>
     opt_ok (\<lambda>d. length d = 32) (uf_displaced_sha256 f) \<and>
     opt_ok (json_within (de_metadata_json e) 4096) (uf_displaced_metadata f) \<and>
     column_text (file_state_text (uf_state f)) \<and> column_text (outcome_text (uf_verification_outcome f)) \<and>
     opt_ok (json_within (de_recovery_json e) 1024) (uf_recovery_details f) \<and>
     opt_ok (\<lambda>t. 1 \<le> length t \<and> length t \<le> 256) (uf_chained_from_operation_id f) \<and>
     (uf_displaced_size f = None \<longleftrightarrow> uf_displaced_sha256 f = None) \<and>
     (uf_displaced_size f = None \<longleftrightarrow> uf_displaced_metadata f = None)"

definition insert_set :: "db_env \<Rightarrow> restore_set \<Rightarrow> journal \<Rightarrow> journal_error + journal" where
  "insert_set e r s =
     (if set_row_ok e r \<and> jn_change_sets s (rs_snapshot_id r) \<noteq> None \<and>
         \<not> list_ex (\<lambda>q. rs_restore_set_id q = rs_restore_set_id r \<or> rs_snapshot_id q = rs_snapshot_id r)
             (jn_sets s)
      then Inr (s\<lparr>jn_sets := jn_sets s @ [r]\<rparr>) else Inl JeSql)"

definition insert_turn_restore_file ::
    "db_env \<Rightarrow> restore_file \<Rightarrow> journal \<Rightarrow> journal_error + journal" where
  "insert_turn_restore_file e f s =
     and_then (guarded (restore_file_validate f)) (\<lambda>_.
     if \<not> sqlite_int (rf_pre_size f) then deny ''pre_size exceeds SQLite''
     else if \<not> sqlite_int (rf_result_size f) then deny ''result_size exceeds SQLite''
     else if set_file_row_ok e f \<and>
         list_ex (\<lambda>r. rs_restore_set_id r = rf_restore_set_id f) (jn_sets s) \<and>
         \<not> list_ex (\<lambda>g. rf_restore_set_id g = rf_restore_set_id f \<and>
              (rf_ordinal g = rf_ordinal f \<or> rf_path g = rf_path f \<or>
               rf_pre_artifact_key g = rf_pre_artifact_key f)) (jn_set_files s)
     then Inr (s\<lparr>jn_set_files := jn_set_files s @ [f]\<rparr>) else Inl JeSql)"

definition insert_operation :: "db_env \<Rightarrow> undo_operation \<Rightarrow> journal \<Rightarrow> journal_error + journal" where
  "insert_operation e u s =
     (if operation_row_ok e u \<and>
         list_ex (\<lambda>r. rs_restore_set_id r = uo_restore_set_id u) (jn_sets s) \<and>
         \<not> list_ex (\<lambda>v. uo_operation_id v = uo_operation_id u) (operations s) \<and>
         \<not> (uo_active u \<and> active_on s (uo_restore_set_id u))
      then Inr (s\<lparr>jn_operations := jn_operations s @
                    [\<lparr>ow_operation = u, ow_cleanup_pending = True\<rparr>]\<rparr>)
      else Inl JeSql)"

definition insert_undo_operation_file ::
    "db_env \<Rightarrow> undo_file \<Rightarrow> journal \<Rightarrow> journal_error + journal" where
  "insert_undo_operation_file e f s =
     and_then (guarded (undo_file_validate f)) (\<lambda>_.
     if \<not> sqlite_int (uf_expected_result_size f) then deny ''expected_result_size exceeds SQLite''
     else if \<not> sqlite_int (uf_pre_size f) then deny ''pre_size exceeds SQLite''
     else if \<not> opt_ok sqlite_int (uf_displaced_size f) then deny ''displaced_size exceeds SQLite''
     else if op_file_row_ok e f \<and>
         list_ex (\<lambda>u. uo_operation_id u = uf_operation_id f \<and>
                      uo_restore_set_id u = uf_restore_set_id f) (operations s) \<and>
         list_ex (\<lambda>g. rf_restore_set_id g = uf_restore_set_id f \<and> rf_ordinal g = uf_ordinal f)
           (jn_set_files s) \<and>
         \<not> list_ex (\<lambda>g. uf_operation_id g = uf_operation_id f \<and>
              (uf_ordinal g = uf_ordinal f \<or> uf_path g = uf_path f)) (jn_op_files s)
     then Inr (s\<lparr>jn_op_files := jn_op_files s @ [f]\<rparr>) else Inl JeSql)"

fun insert_all :: "('a \<Rightarrow> journal \<Rightarrow> journal_error + journal) \<Rightarrow> 'a list \<Rightarrow> journal \<Rightarrow>
    journal_error + journal" where
  "insert_all ins [] s = Inr s"
| "insert_all ins (x # xs) s = and_then (ins x s) (insert_all ins xs)"

section \<open>Restore sets\<close>

definition load_turn_restore_set ::
    "db_env \<Rightarrow> rstr \<Rightarrow> journal \<Rightarrow> journal_error + (restore_set \<times> restore_file list) option" where
  "load_turn_restore_set e sid s =
     (case lookup_by rs_restore_set_id sid (jn_sets s) of
        None \<Rightarrow> Inr None
      | Some r \<Rightarrow>
          let files = set_files_of s sid
          in if \<not> opt_ok (\<lambda>g. de_git_json e g \<le> 65536) (rs_git_identity r)
                \<or> \<not> opt_ok (\<lambda>root. length (root_bytes root) \<le> 1024) (rs_root_id r)
                \<or> unat MAX_RESTORE_FILES < length files
                \<or> list_ex (\<lambda>f. 4096 < length (persisted_bytes (rf_path f))) files
                \<or> list_ex (\<lambda>f. 4096 < de_metadata_json e (rf_metadata f)) files
             then deny ''restoration record exceeds persistence bounds''
             else and_then (guarded (first_err
                    [validate_opt root_validate (rs_root_id r),
                     validate_opt git_validate (rs_git_identity r), restore_set_validate r])) (\<lambda>_.
               if MAX_RESTORE_FILES < rs_file_count r
               then deny ''restoration accounting exceeds file limit''
               else and_then (guarded (first_err (concat (map
                      (\<lambda>f. [metadata_validate (rf_metadata f), restore_file_validate f]) files)))) (\<lambda>_.
                 if files \<noteq> []
                 then and_then (guarded (validate_restore_set_manifest (de_sha256 e) r files))
                        (\<lambda>_. Inr (Some (r, files)))
                 else if rs_manifest_digest r \<noteq> None
                 then deny ''restoration manifest is missing its file rows''
                 else Inr (Some (r, files)))))"

definition load_existing_set ::
    "db_env \<Rightarrow> string \<Rightarrow> rstr \<Rightarrow> journal \<Rightarrow> journal_error + (restore_set \<times> restore_file list)" where
  "load_existing_set e message sid s =
     and_then (load_turn_restore_set e sid s) (\<lambda>x. ok_or x (JeGuard (lit message)))"

definition attributed :: "restore_set \<Rightarrow> journal \<Rightarrow> bool" where
  "attributed r s \<longleftrightarrow>
     jn_change_sets s (rs_snapshot_id r) = Some (rs_session_id r, rs_turn_id r, rs_workspace_id r)"

definition zero_files :: "restore_set \<Rightarrow> bool" where
  "zero_files r \<longleftrightarrow> rs_file_count r = 0 \<and> rs_artifact_bytes r = 0 \<and> rs_manifest_digest r = None"

definition create_turn_restore_set ::
    "db_env \<Rightarrow> restore_set \<Rightarrow> journal \<Rightarrow> journal_error + journal" where
  "create_turn_restore_set e r s =
     and_then (guarded (restore_set_validate r)) (\<lambda>_.
     if rs_state r \<noteq> RsCollecting \<or> \<not> zero_files r
     then deny ''new restoration set must be an empty collecting record''
     else if \<not> attributed r s
     then deny ''restoration attribution does not match its M3 snapshot''
     else insert_set e (r\<lparr>rs_reason_code := None, rs_artifact_bytes := 0, rs_file_count := 0,
            rs_manifest_digest := None, rs_completed_at := None, rs_expires_at := None\<rparr>) s)"

definition record_capture_v2_preflight_terminal ::
    "db_env \<Rightarrow> restore_set \<Rightarrow> journal \<Rightarrow> journal_error + journal" where
  "record_capture_v2_preflight_terminal e r s =
     and_then (guarded (restore_set_validate r)) (\<lambda>_.
     if \<not> (rs_state r = RsFailed \<or> rs_state r = RsIneligible) \<or> \<not> zero_files r
     then deny ''preflight terminal restoration record must contain zero files''
     else if \<not> attributed r s then deny ''preflight restoration attribution mismatch''
     else insert_set e (r\<lparr>rs_artifact_bytes := 0, rs_file_count := 0, rs_manifest_digest := None,
            rs_expires_at := None\<rparr>) s)"

definition finalize_mismatch :: "restore_set \<Rightarrow> restore_set \<Rightarrow> bool" where
  "finalize_mismatch p r \<longleftrightarrow>
     rs_state p \<noteq> RsCollecting \<or> \<not> set_can_transition (rs_state p) (rs_state r) \<or>
     rs_capture_version p \<noteq> RESTORE_CAPTURE_VERSION \<or> rs_snapshot_id p \<noteq> rs_snapshot_id r \<or>
     rs_session_id p \<noteq> rs_session_id r \<or> rs_turn_id p \<noteq> rs_turn_id r \<or>
     rs_workspace_id p \<noteq> rs_workspace_id r \<or> rs_created_at p \<noteq> rs_created_at r \<or>
     is_some_and (rs_root_id p) (\<lambda>root. Some root \<noteq> rs_root_id r) \<or>
     is_some_and (rs_git_identity p) (\<lambda>git. Some git \<noteq> rs_git_identity r)"

text \<open>\<open>UPDATE ... WHERE restore_set_id = ? AND state = ?\<close>, which must change one row.\<close>

definition update_set_row ::
    "db_env \<Rightarrow> rstr \<Rightarrow> restore_set_state \<Rightarrow> (restore_set \<Rightarrow> restore_set) \<Rightarrow> string \<Rightarrow> journal \<Rightarrow>
      journal_error + journal" where
  "update_set_row e sid st f message s =
     (let hit = (\<lambda>q. rs_restore_set_id q = sid \<and> rs_state q = st)
      in if list_ex (\<lambda>q. hit q \<and> \<not> set_row_ok e (f q)) (jn_sets s) then Inl JeSql
         else if changed_rows hit (jn_sets s) \<noteq> 1 then deny message
         else Inr (s\<lparr>jn_sets := update_where hit f (jn_sets s)\<rparr>))"

definition finalize_turn_restore_set ::
    "db_env \<Rightarrow> restore_set \<Rightarrow> restore_file list \<Rightarrow> journal \<Rightarrow> journal_error + bool \<times> journal" where
  "finalize_turn_restore_set e r files s =
     and_then (guarded (restore_set_validate r)) (\<lambda>_.
     if rs_state r = RsCollecting \<or> \<not> set_can_transition RsCollecting (rs_state r)
     then deny ''invalid restoration final state''
     else and_then
       (if rs_state r = RsEligible
        then guarded (validate_restore_set_manifest (de_sha256 e) r files)
        else if files \<noteq> [] \<or> \<not> zero_files r
        then deny ''ineligible or failed restoration set cannot retain usable file rows''
        else Inr ()) (\<lambda>_.
     and_then (load_existing_set e ''restoration set does not exist'' (rs_restore_set_id r) s)
       (\<lambda>(persisted_set, persisted_files).
     if rs_state persisted_set = rs_state r
     then if persisted_set = r \<and> persisted_files = sort_key rf_ordinal files then Inr (False, s)
          else deny ''conflicting idempotent restoration finalization''
     else if finalize_mismatch persisted_set r
     then deny ''restoration lifecycle compare-and-swap rejected''
     else and_then (insert_all (insert_turn_restore_file e) files s) (\<lambda>s1.
       if \<not> sqlite_int (rs_artifact_bytes r) then deny ''artifact accounting exceeds SQLite''
       else and_then (update_set_row e (rs_restore_set_id r) RsCollecting
              (\<lambda>q. q\<lparr>rs_state := rs_state r, rs_reason_code := rs_reason_code r,
                     rs_root_id := rs_root_id r, rs_git_identity := rs_git_identity r,
                     rs_artifact_bytes := rs_artifact_bytes r, rs_file_count := rs_file_count r,
                     rs_manifest_digest := rs_manifest_digest r,
                     rs_completed_at := rs_completed_at r, rs_expires_at := rs_expires_at r\<rparr>)
              ''restoration lifecycle compare-and-swap lost'' s1) (\<lambda>s2. Inr (True, s2))))))"

section \<open>Maintenance of restore sets\<close>

definition require_maintenance_timestamp :: "rstr \<Rightarrow> journal_error + unit" where
  "require_maintenance_timestamp v =
     (if blank v then deny ''maintenance timestamp must not be empty'' else Inr ())"

fun recover_sets :: "db_env \<Rightarrow> rstr \<Rightarrow> rstr list \<Rightarrow> journal \<Rightarrow> journal_error + journal" where
  "recover_sets e completed_at [] s = Inr s"
| "recover_sets e completed_at (sid # sids) s =
     and_then (load_existing_set e ''collecting restoration set disappeared'' sid s) (\<lambda>(r, files).
     if rs_state r \<noteq> RsCollecting \<or> rs_capture_version r \<noteq> RESTORE_CAPTURE_VERSION
        \<or> files \<noteq> [] \<or> \<not> zero_files r
     then deny ''invalid collecting restoration set during recovery''
     else and_then (update_set_row e sid RsCollecting
            (\<lambda>q. q\<lparr>rs_state := RsFailed, rs_reason_code := Some GrCaptureInterrupted,
                   rs_completed_at := Some completed_at\<rparr>)
            ''restoration recovery compare-and-swap lost'' s)
          (recover_sets e completed_at sids))"

definition recover_interrupted_restore_sets ::
    "db_env \<Rightarrow> rstr \<Rightarrow> journal \<Rightarrow> journal_error + rstr list \<times> journal" where
  "recover_interrupted_restore_sets e completed_at s =
     and_then (require_maintenance_timestamp completed_at) (\<lambda>_.
       let sids = sort (map rs_restore_set_id (filter (\<lambda>r. rs_state r = RsCollecting) (jn_sets s)))
       in and_then (recover_sets e completed_at sids s) (\<lambda>s'. Inr (sids, s')))"

text \<open>The shared tail of \<open>expire_eligible_restore_set\<close> and \<open>fail_eligible_restore_set_integrity\<close>.\<close>

definition retire_eligible ::
    "db_env \<Rightarrow> rstr \<Rightarrow> (restore_set \<Rightarrow> restore_set) \<Rightarrow> string \<Rightarrow> string \<Rightarrow> journal \<Rightarrow>
      journal_error + bool \<times> journal" where
  "retire_eligible e sid f blocked lost s =
     and_then (load_turn_restore_set e sid s) (\<lambda>x.
       case x of
         None \<Rightarrow> Inr (False, s)
       | Some (r, _) \<Rightarrow>
           if rs_state r \<noteq> RsEligible then Inr (False, s)
           else if active_on s sid then deny blocked
           else and_then (update_set_row e sid RsEligible f lost s) (\<lambda>s'. Inr (True, s')))"

definition expire_eligible_restore_set ::
    "db_env \<Rightarrow> rstr \<Rightarrow> rstr \<Rightarrow> journal \<Rightarrow> journal_error + bool \<times> journal" where
  "expire_eligible_restore_set e sid completed_at s =
     and_then (require_maintenance_timestamp completed_at) (\<lambda>_.
     retire_eligible e sid
       (\<lambda>q. q\<lparr>rs_state := RsExpired, rs_reason_code := Some GrRetentionExpired,
              rs_completed_at := Some completed_at\<rparr>)
       ''active undo journal blocks retention expiration''
       ''retention expiration compare-and-swap lost'' s)"

definition fail_eligible_restore_set_integrity ::
    "db_env \<Rightarrow> rstr \<Rightarrow> reason_code \<Rightarrow> rstr \<Rightarrow> journal \<Rightarrow> journal_error + bool \<times> journal" where
  "fail_eligible_restore_set_integrity e sid reason completed_at s =
     (if \<not> (reason = GrArtifactMissing \<or> reason = GrArtifactCorrupt)
      then deny ''integrity failure requires artifact_missing or artifact_corrupt''
      else and_then (require_maintenance_timestamp completed_at) (\<lambda>_.
        retire_eligible e sid
          (\<lambda>q. q\<lparr>rs_state := RsFailed, rs_reason_code := Some reason,
                 rs_completed_at := Some completed_at\<rparr>)
          ''active undo journal blocks integrity failure transition''
          ''integrity failure compare-and-swap lost'' s))"

text \<open>The part of \<open>delete_workspace_history\<close> that discards restore sets, with its cascades.\<close>

definition discard_set :: "rstr \<Rightarrow> journal \<Rightarrow> journal_error + journal" where
  "discard_set sid s =
     (let gone = map operation_id (filter (\<lambda>w. uo_restore_set_id (ow_operation w) = sid \<and>
                   \<not> uo_active (ow_operation w)) (jn_operations s));
          s1 = s\<lparr>jn_operations := filter (\<lambda>w. operation_id w \<notin> set gone) (jn_operations s),
                 jn_op_files := filter (\<lambda>f. uf_operation_id f \<notin> set gone) (jn_op_files s)\<rparr>
      in if list_ex (\<lambda>u. uo_restore_set_id u = sid) (operations s1) then Inl JeSql
         else Inr (s1\<lparr>jn_sets := filter (\<lambda>r. rs_restore_set_id r \<noteq> sid) (jn_sets s1),
                      jn_set_files := filter (\<lambda>f. rf_restore_set_id f \<noteq> sid) (jn_set_files s1)\<rparr>))"

definition ensure_restore_sets_are_discardable :: "rstr list \<Rightarrow> journal \<Rightarrow> journal_error + unit" where
  "ensure_restore_sets_are_discardable sids s =
     (if list_ex (active_on s) sids
      then deny ''An Undo recovery is still active for this task. Open Last turn, refresh the recovery status, and try deleting again.''
      else Inr ())"

definition discard_restore_sets :: "rstr list \<Rightarrow> journal \<Rightarrow> journal_error + journal" where
  "discard_restore_sets sids s =
     and_then (ensure_restore_sets_are_discardable sids s) (\<lambda>_. insert_all discard_set sids s)"

section \<open>The binding of a journal to its manifest\<close>

type_synonym chain_row = "undo_file \<times> undo_operation"

definition chain_rows :: "rstr \<Rightarrow> physical_root_id \<Rightarrow> opaque_repo_path \<Rightarrow> rstr option \<Rightarrow> journal \<Rightarrow>
    chain_row list" where
  "chain_rows workspace root path wanted s =
     filter (\<lambda>(f, u).
         uo_operation_id u = uf_operation_id f \<and> uo_restore_set_id u = uf_restore_set_id f \<and>
         uo_state u = UoCompleted \<and> \<not> uo_active u \<and>
         uf_state f = UfVerified \<and> uf_verification_outcome f = VoVerified \<and>
         uf_staged_metadata f \<noteq> None \<and>
         list_ex (\<lambda>r. rs_restore_set_id r = uf_restore_set_id f \<and> rs_workspace_id r = workspace \<and>
                      rs_root_id r = Some root) (jn_sets s) \<and>
         uf_path f = path \<and> opt_ok (\<lambda>oid. uf_operation_id f = oid) wanted)
       (List.product (jn_op_files s) (operations s))"

text \<open>\<open>ORDER BY completed_at DESC, operation_id LIMIT 64\<close>.\<close>

definition newest_first :: "chain_row list \<Rightarrow> chain_row list" where
  "newest_first rows =
     take 64 (rev (sort_key (\<lambda>(_, u). case uo_completed_at u of None \<Rightarrow> [] | Some t \<Rightarrow> 0 # t)
                (rev (sort_key (\<lambda>(f, _). uf_operation_id f) rows))))"

fun chain_sources :: "rstr \<Rightarrow> physical_root_id \<Rightarrow> opaque_repo_path \<Rightarrow> chain_row list \<Rightarrow>
    journal_error + chain_source list" where
  "chain_sources workspace root path [] = Inr []"
| "chain_sources workspace root path ((f, u) # rows) =
     (case uf_staged_metadata f of
        None \<Rightarrow> chain_sources workspace root path rows
      | Some staged \<Rightarrow>
          and_then (guarded (prepared_validate (uo_prepared_identity u))) (\<lambda>_.
          and_then (guarded (metadata_validate staged)) (\<lambda>_.
          if pi_root_id (uo_prepared_identity u) \<noteq> root
          then chain_sources workspace root path rows
          else and_then (chain_sources workspace root path rows) (\<lambda>rest. Inr
            (\<lparr>cs_operation_id = uf_operation_id f, cs_restore_set_id = uf_restore_set_id f,
              cs_workspace_id = workspace, cs_root_id = pi_root_id (uo_prepared_identity u),
              cs_git = pi_git (uo_prepared_identity u), cs_path = path, cs_pre_size = uf_pre_size f,
              cs_pre_sha256 = uf_pre_sha256 f, cs_staged_metadata = staged\<rparr> # rest)))))"

definition query_undo_chain_sources :: "rstr \<Rightarrow> physical_root_id \<Rightarrow> opaque_repo_path \<Rightarrow>
    rstr option \<Rightarrow> journal \<Rightarrow> journal_error + chain_source list" where
  "query_undo_chain_sources workspace root path wanted s =
     chain_sources workspace root path (newest_first (chain_rows workspace root path wanted s))"

definition expected_result_is_bound ::
    "restore_set \<Rightarrow> restore_file \<Rightarrow> undo_file \<Rightarrow> journal \<Rightarrow> journal_error + bool" where
  "expected_result_is_bound r f j s =
     (case uf_chained_from_operation_id j of
        None \<Rightarrow> Inr (uf_expected_metadata j = rf_metadata f)
      | Some source_id \<Rightarrow>
          (case rs_root_id r of
             None \<Rightarrow> Inr False
           | Some root \<Rightarrow>
               and_then (query_undo_chain_sources (rs_workspace_id r) root (rf_path f) (Some source_id) s)
                 (\<lambda>sources. Inr (list_ex (\<lambda>src. chained_result_is_bound r f src (uf_expected_metadata j))
                    sources))))"

fun bound_files :: "undo_operation \<Rightarrow> restore_set \<Rightarrow> artifact_key list \<Rightarrow>
    (undo_file \<times> restore_file) list \<Rightarrow> journal \<Rightarrow> journal_error + unit" where
  "bound_files u r keys [] s = Inr ()"
| "bound_files u r keys ((j, f) # rest) s =
     (if uf_operation_id j \<noteq> uo_operation_id u \<or> uf_restore_set_id j \<noteq> rs_restore_set_id r
         \<or> uf_ordinal j \<noteq> rf_ordinal f \<or> uf_path j \<noteq> rf_path f
         \<or> uf_expected_result_size j \<noteq> rf_result_size f
         \<or> uf_expected_result_sha256 j \<noteq> rf_result_sha256 f
      then deny ''undo journal file is not bound to its opaque restoration record''
      else and_then (expected_result_is_bound r f j s) (\<lambda>bound.
        if \<not> bound \<or> uf_pre_size j \<noteq> rf_pre_size f \<or> uf_pre_sha256 j \<noteq> rf_pre_sha256 f
           \<or> uf_exchange_artifact_key j \<in> set keys
        then deny ''undo journal file is not bound to its opaque restoration record''
        else bound_files u r (uf_exchange_artifact_key j # keys) rest s))"

definition validate_operation_manifest_binding ::
    "db_env \<Rightarrow> undo_operation \<Rightarrow> undo_file list \<Rightarrow> restore_set \<Rightarrow> restore_file list \<Rightarrow> journal \<Rightarrow>
      journal_error + unit" where
  "validate_operation_manifest_binding e u files r rfiles s =
     (let unbound = deny ''undo journal is not bound to an eligible restoration manifest''
      in if rs_capture_version r \<noteq> RESTORE_CAPTURE_VERSION
            \<or> \<not> (rs_state r = RsEligible \<or> rs_state r = RsConsumed \<and> uo_state u = UoCompleted)
            \<or> uo_restore_set_id u \<noteq> rs_restore_set_id r \<or> files = [] \<or> length files \<noteq> length rfiles
            \<or> list_ex (\<lambda>f. \<not> file_state_known (uf_state f) \<or> \<not> outcome_known (uf_verification_outcome f)) files
         then unbound
         else and_then (ok_or (rs_root_id r) (JeGuard (lit ''eligible set has no physical root''))) (\<lambda>root.
           if pi_root_id (uo_prepared_identity u) \<noteq> root then unbound
           else and_then (ok_or (rs_git_identity r) (JeGuard (lit ''eligible set has no Git identity''))) (\<lambda>git.
             if pi_git (uo_prepared_identity u) \<noteq> git
                \<or> Some (pi_manifest_digest (uo_prepared_identity u)) \<noteq> rs_manifest_digest r
             then unbound
             else and_then (guarded (validate_restore_set_manifest (de_sha256 e) r rfiles))
                    (\<lambda>_. bound_files u r [] (zip files rfiles) s))))"

section \<open>Undo operations\<close>

definition load_undo_operation ::
    "db_env \<Rightarrow> rstr \<Rightarrow> journal \<Rightarrow> journal_error + (undo_operation \<times> undo_file list) option" where
  "load_undo_operation e oid s =
     (case lookup_by uo_operation_id oid (operations s) of
        None \<Rightarrow> Inr None
      | Some u \<Rightarrow>
          let files = op_files_of s oid
          in if 131072 < de_prepared_json e (uo_prepared_identity u)
                \<or> \<not> opt_ok (\<lambda>d. de_recovery_json e d \<le> 1024) (uo_recovery_details u)
                \<or> unat MAX_RESTORE_FILES < length files
                \<or> list_ex (\<lambda>f. 4096 < length (persisted_bytes (uf_path f))
                     \<or> 4096 < de_metadata_json e (uf_expected_metadata f)
                     \<or> \<not> opt_ok (\<lambda>m. de_metadata_json e m \<le> 4096) (uf_staged_metadata f)
                     \<or> \<not> opt_ok (\<lambda>m. de_metadata_json e m \<le> 4096) (uf_displaced_metadata f)
                     \<or> \<not> opt_ok (\<lambda>d. de_recovery_json e d \<le> 1024) (uf_recovery_details f)) files
             then deny ''undo journal exceeds persistence bounds''
             else and_then (guarded (first_err
                    [prepared_validate (uo_prepared_identity u),
                     validate_opt recovery_validate (uo_recovery_details u)])) (\<lambda>_.
               and_then (guarded (first_err (map (\<lambda>f.
                      if file_state_known (uf_state f) \<and> outcome_known (uf_verification_outcome f)
                      then undo_file_validate f else Inr ()) files))) (\<lambda>_.
               and_then (if operation_state_known (uo_state u)
                         then guarded (undo_operation_validate u) else Inr ())
                 (\<lambda>_. Inr (Some (u, files))))))"

fun check_new_files :: "undo_operation \<Rightarrow> nat \<Rightarrow> undo_file list \<Rightarrow> journal_error + unit" where
  "check_new_files u i [] = Inr ()"
| "check_new_files u i (f # fs) =
     and_then (guarded (undo_file_validate f)) (\<lambda>_.
     if uf_operation_id f \<noteq> uo_operation_id u \<or> unat (uf_ordinal f) \<noteq> i
     then deny ''operation file ownership or ordinal is invalid''
     else if uf_state f \<noteq> UfPlanned \<or> uf_verification_outcome f \<noteq> VoPending
             \<or> uf_displaced_size f \<noteq> None \<or> uf_recovery_details f \<noteq> None
     then deny ''new undo journal files must be planned and unmodified''
     else check_new_files u (i + 1) fs)"

definition create_undo_operation ::
    "db_env \<Rightarrow> undo_operation \<Rightarrow> undo_file list \<Rightarrow> journal \<Rightarrow> journal_error + journal" where
  "create_undo_operation e u files s =
     and_then (guarded (undo_operation_validate u)) (\<lambda>_.
     if uo_state u \<noteq> UoPreparing then deny ''new undo journal must begin in preparing''
     else if \<not> uo_active u then deny ''new undo journal must be active''
     else if uo_preview_token_digest u = None
     then deny ''new undo journal requires a persisted preview token digest''
     else and_then (check_new_files u 0 files) (\<lambda>_.
     and_then (load_existing_set e ''restoration set does not exist'' (uo_restore_set_id u) s)
       (\<lambda>(r, rfiles).
     if rs_state r \<noteq> RsEligible
     then deny ''only an eligible known restoration set may start an operation''
     else if files = [] \<or> length files \<noteq> length rfiles
     then deny ''journal files do not cover the complete restoration manifest''
     else if Some (pi_root_id (uo_prepared_identity u)) \<noteq> rs_root_id r
          \<or> Some (pi_git (uo_prepared_identity u)) \<noteq> rs_git_identity r
          \<or> Some (pi_manifest_digest (uo_prepared_identity u)) \<noteq> rs_manifest_digest r
     then deny ''prepared identity is not bound to the restoration manifest''
     else and_then (validate_operation_manifest_binding e u files r rfiles s) (\<lambda>_.
          and_then (insert_operation e u s)
            (insert_all (insert_undo_operation_file e) files)))))"

definition get_undo_operation ::
    "db_env \<Rightarrow> rstr \<Rightarrow> journal \<Rightarrow> journal_error + (undo_operation \<times> undo_file list) option" where
  "get_undo_operation e oid s =
     and_then (load_undo_operation e oid s) (\<lambda>x.
       case x of
         None \<Rightarrow> Inr None
       | Some (u, files) \<Rightarrow>
           if uo_journal_version u = UNDO_JOURNAL_SCHEMA_VERSION \<and> operation_state_known (uo_state u)
           then and_then (load_existing_set e ''restoration set disappeared'' (uo_restore_set_id u) s)
                  (\<lambda>(r, rfiles). and_then (validate_operation_manifest_binding e u files r rfiles s)
                    (\<lambda>_. Inr (Some (u, files))))
           else Inr (Some (u, files)))"

definition finish_undo_operation_cleanup :: "rstr \<Rightarrow> journal \<Rightarrow> bool \<times> journal" where
  "finish_undo_operation_cleanup oid s =
     (let hit = (\<lambda>w. operation_id w = oid \<and> \<not> uo_active (ow_operation w) \<and> ow_cleanup_pending w)
      in (changed_rows hit (jn_operations s) = 1,
          s\<lparr>jn_operations := update_where hit (\<lambda>w. w\<lparr>ow_cleanup_pending := False\<rparr>) (jn_operations s)\<rparr>))"

definition file_identity_changed :: "undo_file \<Rightarrow> undo_file \<Rightarrow> bool" where
  "file_identity_changed c n \<longleftrightarrow>
     uf_operation_id c \<noteq> uf_operation_id n \<or> uf_restore_set_id c \<noteq> uf_restore_set_id n \<or>
     uf_ordinal c \<noteq> uf_ordinal n \<or> uf_path c \<noteq> uf_path n \<or>
     uf_exchange_artifact_key c \<noteq> uf_exchange_artifact_key n \<or>
     uf_expected_result_size c \<noteq> uf_expected_result_size n \<or>
     uf_expected_result_sha256 c \<noteq> uf_expected_result_sha256 n \<or>
     uf_expected_metadata c \<noteq> uf_expected_metadata n \<or>
     uf_pre_size c \<noteq> uf_pre_size n \<or> uf_pre_sha256 c \<noteq> uf_pre_sha256 n \<or>
     uf_chained_from_operation_id c \<noteq> uf_chained_from_operation_id n \<or>
     (uf_staged_metadata c \<noteq> uf_staged_metadata n \<and>
      \<not> (uf_state c = UfPlanned \<and> uf_state n = UfStaged \<and>
         uf_staged_metadata c = None \<and> uf_staged_metadata n \<noteq> None))"

definition moved_file :: "undo_file \<Rightarrow> undo_file \<Rightarrow> undo_file" where
  "moved_file n f =
     f\<lparr>uf_staged_metadata := uf_staged_metadata n,
       uf_displaced_size := uf_displaced_size n, uf_displaced_sha256 := uf_displaced_sha256 n,
       uf_displaced_metadata := uf_displaced_metadata n, uf_state := uf_state n,
       uf_verification_outcome := uf_verification_outcome n,
       uf_recovery_details := uf_recovery_details n, uf_updated_at := uf_updated_at n\<rparr>"

definition file_hit :: "undo_file \<Rightarrow> undo_file_state \<Rightarrow> undo_file \<Rightarrow> bool" where
  "file_hit n expected f \<longleftrightarrow>
     uf_operation_id f = uf_operation_id n \<and> uf_ordinal f = uf_ordinal n \<and> uf_state f = expected"

definition write_file_transition ::
    "db_env \<Rightarrow> undo_file_state \<Rightarrow> undo_file \<Rightarrow> journal \<Rightarrow> journal_error + journal" where
  "write_file_transition e expected n s =
     (if \<not> opt_ok sqlite_int (uf_displaced_size n) then deny ''displaced_size exceeds SQLite''
      else if list_ex (\<lambda>f. file_hit n expected f \<and> \<not> op_file_row_ok e (moved_file n f)) (jn_op_files s)
      then Inl JeSql
      else if changed_rows (file_hit n expected) (jn_op_files s) \<noteq> 1
      then deny ''undo file compare-and-swap lost''
      else Inr (s\<lparr>jn_op_files := update_where (file_hit n expected) (moved_file n) (jn_op_files s)\<rparr>))"

definition transition_undo_operation_file ::
    "db_env \<Rightarrow> undo_file_state \<Rightarrow> undo_file \<Rightarrow> journal \<Rightarrow> journal_error + bool \<times> journal" where
  "transition_undo_operation_file e expected n s =
     and_then (guarded (undo_file_validate n)) (\<lambda>_.
     if \<not> file_state_known expected \<or> \<not> file_state_known (uf_state n)
        \<or> \<not> file_can_transition expected (uf_state n)
     then deny ''invalid undo file transition''
     else and_then (load_undo_operation e (uf_operation_id n) s) (\<lambda>x.
     and_then (ok_or x (JeGuard (lit ''undo operation does not exist''))) (\<lambda>(u, files).
     if \<not> uo_active u then deny ''terminal undo operation files are immutable''
     else and_then (load_existing_set e ''restoration set disappeared'' (uo_restore_set_id u) s)
       (\<lambda>(r, rfiles).
     and_then (validate_operation_manifest_binding e u files r rfiles s) (\<lambda>_.
     and_then (ok_or (find (\<lambda>f. uf_ordinal f = uf_ordinal n) files)
                 (JeGuard (lit ''undo operation file does not exist''))) (\<lambda>c.
     if uf_state c = uf_state n
     then if c = n then Inr (False, s) else deny ''conflicting idempotent undo file transition''
     else if uf_state c \<noteq> expected \<or> \<not> file_can_transition (uf_state c) (uf_state n)
     then deny ''undo file lifecycle compare-and-swap rejected''
     else if file_identity_changed c n then deny ''immutable undo file identity changed''
     else and_then (write_file_transition e expected n s) (\<lambda>s'. Inr (True, s'))))))))"

definition files_ready :: "undo_operation_state \<Rightarrow> undo_file list \<Rightarrow> journal_error + unit" where
  "files_ready next_state files =
     (if next_state = UoPrepared \<and> list_ex (\<lambda>f. uf_state f \<noteq> UfStaged) files
      then deny ''prepared journal requires every exchange file staged''
      else if next_state = UoCompleted \<and>
        list_ex (\<lambda>f. uf_state f \<noteq> UfVerified \<or> uf_verification_outcome f \<noteq> VoVerified) files
      then deny ''completed journal requires every file verified''
      else if next_state = UoRolledBack \<and>
        list_ex (\<lambda>f. uf_state f \<noteq> UfRolledBack \<or> uf_verification_outcome f \<noteq> VoVerified) files
      then deny ''rolled-back journal requires every file rollback verified''
      else Inr ())"

definition update_operation_row ::
    "db_env \<Rightarrow> rstr \<Rightarrow> undo_operation_state \<Rightarrow> (undo_operation \<Rightarrow> undo_operation) \<Rightarrow> journal \<Rightarrow>
      journal_error + journal" where
  "update_operation_row e oid st f s =
     (let hit = (\<lambda>w. operation_id w = oid \<and> uo_state (ow_operation w) = st);
          new_rows = update_where hit (\<lambda>w. w\<lparr>ow_operation := f (ow_operation w)\<rparr>) (jn_operations s)
      in if list_ex (\<lambda>w. hit w \<and> \<not> operation_row_ok e (f (ow_operation w))) (jn_operations s)
         then Inl JeSql
         else if changed_rows hit (jn_operations s) \<noteq> 1
         then deny ''undo lifecycle compare-and-swap lost''
         else Inr (s\<lparr>jn_operations := new_rows\<rparr>))"

definition moved_operation :: "undo_operation_state \<Rightarrow> reason_code option \<Rightarrow> recovery_details option \<Rightarrow>
    rstr \<Rightarrow> undo_operation \<Rightarrow> undo_operation" where
  "moved_operation st reason details t v =
     v\<lparr>uo_state := st, uo_active := \<not> terminal_state st, uo_reason_code := reason,
       uo_recovery_details := details, uo_updated_at := t,
       uo_completed_at := (if terminal_state st then Some t else uo_completed_at v)\<rparr>"

definition desired_operation :: "undo_operation_state \<Rightarrow> reason_code option \<Rightarrow> recovery_details option \<Rightarrow>
    rstr \<Rightarrow> undo_operation \<Rightarrow> undo_operation" where
  "desired_operation st reason details t u =
     u\<lparr>uo_state := st, uo_active := \<not> terminal_state st, uo_reason_code := reason,
       uo_recovery_details := details, uo_updated_at := t,
       uo_completed_at := (if terminal_state st then Some t else None)\<rparr>"

definition consumed_set :: "rstr \<Rightarrow> restore_set \<Rightarrow> restore_set" where
  "consumed_set t q = q\<lparr>rs_state := RsConsumed, rs_reason_code := None, rs_completed_at := Some t\<rparr>"

text \<open>The writes of a transition, once the compare-and-swap has passed.\<close>

definition write_operation_transition ::
    "db_env \<Rightarrow> undo_operation \<Rightarrow> undo_file list \<Rightarrow> undo_operation_state \<Rightarrow> undo_operation_state \<Rightarrow>
      reason_code option \<Rightarrow> recovery_details option \<Rightarrow> rstr \<Rightarrow> journal \<Rightarrow> journal_error + journal" where
  "write_operation_transition e u files expected st reason details t s =
     and_then (guarded (undo_operation_validate (desired_operation st reason details t u))) (\<lambda>_.
     and_then (files_ready st files) (\<lambda>_.
     and_then (update_operation_row e (uo_operation_id u) expected
                (moved_operation st reason details t) s) (\<lambda>s1.
     if st = UoCompleted
     then update_set_row e (uo_restore_set_id u) RsEligible (consumed_set t)
            ''completed operation could not atomically consume restoration set'' s1
     else Inr s1)))"

text \<open>The journal with its files and its manifest, read and checked in the transaction.\<close>

definition load_bound_operation ::
    "db_env \<Rightarrow> rstr \<Rightarrow> journal \<Rightarrow> journal_error + undo_operation \<times> undo_file list" where
  "load_bound_operation e oid s =
     and_then (load_undo_operation e oid s) (\<lambda>x.
     and_then (ok_or x (JeGuard (lit ''undo operation disappeared''))) (\<lambda>(u, files).
     and_then (load_existing_set e ''restoration set disappeared'' (uo_restore_set_id u) s)
       (\<lambda>(r, rfiles).
     and_then (validate_operation_manifest_binding e u files r rfiles s) (\<lambda>_. Inr (u, files)))))"

definition transition_undo_operation ::
    "db_env \<Rightarrow> rstr \<Rightarrow> undo_operation_state \<Rightarrow> undo_operation_state \<Rightarrow> reason_code option \<Rightarrow>
      recovery_details option \<Rightarrow> rstr \<Rightarrow> journal \<Rightarrow> journal_error + bool \<times> journal" where
  "transition_undo_operation e oid expected st reason details t s =
     (if \<not> operation_state_known expected \<or> \<not> operation_state_known st
         \<or> \<not> operation_can_transition expected st
      then deny ''invalid undo operation transition''
      else if \<not> opt_ok reason_known reason then deny ''unknown undo reason code''
      else and_then (guarded (validate_opt recovery_validate details)) (\<lambda>_.
      and_then (ok_or (lookup_by uo_operation_id oid (operations s))
                  (JeGuard (lit ''undo operation does not exist''))) (\<lambda>row.
      if uo_journal_version row \<noteq> UNDO_JOURNAL_SCHEMA_VERSION
      then deny ''unknown undo journal version cannot transition''
      else and_then (load_bound_operation e oid s) (\<lambda>(u, files).
      if uo_state u = st
      then if uo_reason_code u = reason \<and> uo_recovery_details u = details then Inr (False, s)
           else deny ''conflicting idempotent undo transition''
      else if uo_state u \<noteq> expected \<or> \<not> operation_can_transition (uo_state u) st
      then deny ''undo operation lifecycle compare-and-swap rejected''
      else and_then (write_operation_transition e u files expected st reason details t s)
             (\<lambda>s'. Inr (True, s'))))))"

section \<open>The calls on the journal\<close>

text \<open>
  A failed call rolls its transaction back. \<open>CaptureSnapshot\<close> stands for the capture code that
  records a snapshot of a turn before a restore set may refer to it.
\<close>

datatype journal_call =
    CaptureSnapshot rstr "rstr \<times> rstr \<times> rstr"
  | CreateSet restore_set
  | PreflightTerminal restore_set
  | FinalizeSet restore_set "restore_file list"
  | RecoverInterrupted rstr
  | ExpireSet rstr rstr
  | FailSet rstr reason_code rstr
  | CreateOperation undo_operation "undo_file list"
  | TransitionFile undo_file_state undo_file
  | TransitionOperation rstr undo_operation_state undo_operation_state "reason_code option"
      "recovery_details option" rstr
  | FinishCleanup rstr
  | DiscardSets "rstr list"

fun attempt :: "db_env \<Rightarrow> journal_call \<Rightarrow> journal \<Rightarrow> journal_error + journal" where
  "attempt e (CaptureSnapshot snapshot owner) s =
     (if jn_change_sets s snapshot = None
      then Inr (s\<lparr>jn_change_sets := (jn_change_sets s)(snapshot \<mapsto> owner)\<rparr>) else Inl JeSql)"
| "attempt e (CreateSet r) s = create_turn_restore_set e r s"
| "attempt e (PreflightTerminal r) s = record_capture_v2_preflight_terminal e r s"
| "attempt e (FinalizeSet r files) s = map_sum id snd (finalize_turn_restore_set e r files s)"
| "attempt e (RecoverInterrupted t) s = map_sum id snd (recover_interrupted_restore_sets e t s)"
| "attempt e (ExpireSet sid t) s = map_sum id snd (expire_eligible_restore_set e sid t s)"
| "attempt e (FailSet sid reason t) s =
     map_sum id snd (fail_eligible_restore_set_integrity e sid reason t s)"
| "attempt e (CreateOperation u files) s = create_undo_operation e u files s"
| "attempt e (TransitionFile expected f) s =
     map_sum id snd (transition_undo_operation_file e expected f s)"
| "attempt e (TransitionOperation oid expected next_state reason details t) s =
     map_sum id snd (transition_undo_operation e oid expected next_state reason details t s)"
| "attempt e (FinishCleanup oid) s = Inr (snd (finish_undo_operation_cleanup oid s))"
| "attempt e (DiscardSets sids) s = discard_restore_sets sids s"

definition commit :: "db_env \<Rightarrow> journal_call \<Rightarrow> journal \<Rightarrow> journal" where
  "commit e c s = (case attempt e c s of Inl _ \<Rightarrow> s | Inr s' \<Rightarrow> s')"

definition run_calls :: "db_env \<Rightarrow> journal_call list \<Rightarrow> journal \<Rightarrow> journal" where
  "run_calls e cs s = fold (commit e) cs s"

definition empty_journal :: journal where
  "empty_journal =
     \<lparr>jn_change_sets = (\<lambda>_. None), jn_sets = [], jn_set_files = [], jn_operations = [],
      jn_op_files = []\<rparr>"

end
