(* ===== verification/Undo_Journal_Spec.thy ===== *)
theory Undo_Journal_Spec
  imports Undo_Journal
begin

text \<open>
  What the journal promises, as a transition system on the lifecycle states alone
  (\<open>undo_spec\<close>), its invariants, and the proof that every call on the tables refines it.
\<close>

section \<open>The specification\<close>

type_synonym undo_view = "(rstr \<rightharpoonup> restore_set_state) \<times> (rstr \<rightharpoonup> rstr \<times> undo_operation_state)"

definition busy :: "(rstr \<rightharpoonup> rstr \<times> undo_operation_state) \<Rightarrow> rstr \<Rightarrow> bool" where
  "busy ops sid \<longleftrightarrow> (\<exists>oid st. ops oid = Some (sid, st) \<and> \<not> terminal_state st)"

definition without :: "rstr set \<Rightarrow> undo_view \<Rightarrow> undo_view" where
  "without gone v =
     ((\<lambda>sid. if sid \<in> gone then None else fst v sid),
      (\<lambda>oid. case snd v oid of Some (sid, st) \<Rightarrow> if sid \<in> gone then None else Some (sid, st)
                             | None \<Rightarrow> None))"

inductive undo_spec :: "undo_view \<Rightarrow> undo_view \<Rightarrow> bool" where
  open_set: "sets sid = None \<Longrightarrow> st = RsCollecting \<or> st = RsFailed \<or> st = RsIneligible \<Longrightarrow>
    undo_spec (sets, ops) (sets(sid \<mapsto> st), ops)"
| move_set: "sets sid = Some a \<Longrightarrow> a \<noteq> b \<Longrightarrow> set_can_transition a b \<Longrightarrow> b \<noteq> RsConsumed \<Longrightarrow>
    (a = RsEligible \<longrightarrow> \<not> busy ops sid) \<Longrightarrow> undo_spec (sets, ops) (sets(sid \<mapsto> b), ops)"
| open_operation: "ops oid = None \<Longrightarrow> sets sid = Some RsEligible \<Longrightarrow> \<not> busy ops sid \<Longrightarrow>
    undo_spec (sets, ops) (sets, ops(oid \<mapsto> (sid, UoPreparing)))"
| move_operation: "ops oid = Some (sid, a) \<Longrightarrow> a \<noteq> b \<Longrightarrow> operation_can_transition a b \<Longrightarrow>
    b \<noteq> UoCompleted \<Longrightarrow> sets sid = Some RsEligible \<Longrightarrow>
    undo_spec (sets, ops) (sets, ops(oid \<mapsto> (sid, b)))"
| complete: "ops oid = Some (sid, UoVerifying) \<Longrightarrow> sets sid = Some RsEligible \<Longrightarrow>
    undo_spec (sets, ops) (sets(sid \<mapsto> RsConsumed), ops(oid \<mapsto> (sid, UoCompleted)))"
| discard: "\<not> busy (snd v) sid \<Longrightarrow> undo_spec v (without {sid} v)"

inductive_cases undo_specE: "undo_spec v w"

text \<open>One step that changes the state of one restore set alone.\<close>

definition set_step :: "undo_view \<Rightarrow> rstr \<Rightarrow> restore_set_state \<Rightarrow> undo_view \<Rightarrow> bool" where
  "set_step v sid st w \<longleftrightarrow> undo_spec v w \<and> w = ((fst v)(sid \<mapsto> st), snd v)"

text \<open>What a successful call does to the lifecycle states: which rows move, and by which step.\<close>

fun call_promise :: "journal_call \<Rightarrow> undo_view \<Rightarrow> undo_view \<Rightarrow> bool" where
  "call_promise (CaptureSnapshot _ _) v w \<longleftrightarrow> w = v"
| "call_promise (CreateSet r) v w \<longleftrightarrow> set_step v (rs_restore_set_id r) (rs_state r) w"
| "call_promise (PreflightTerminal r) v w \<longleftrightarrow> set_step v (rs_restore_set_id r) (rs_state r) w"
| "call_promise (FinalizeSet r _) v w \<longleftrightarrow> w = v \<or> set_step v (rs_restore_set_id r) (rs_state r) w"
| "call_promise (RecoverInterrupted _) v w \<longleftrightarrow>
     w = ((\<lambda>sid. if fst v sid = Some RsCollecting then Some RsFailed else fst v sid), snd v)"
| "call_promise (ExpireSet sid _) v w \<longleftrightarrow> w = v \<or> set_step v sid RsExpired w"
| "call_promise (FailSet sid _ _) v w \<longleftrightarrow> w = v \<or> set_step v sid RsFailed w"
| "call_promise (CreateOperation u _) v w \<longleftrightarrow>
     undo_spec v w \<and> w = (fst v, (snd v)(uo_operation_id u \<mapsto> (uo_restore_set_id u, UoPreparing)))"
| "call_promise (TransitionFile _ _) v w \<longleftrightarrow> w = v"
| "call_promise (TransitionOperation oid a b _ _ _) v w \<longleftrightarrow>
     w = v \<or> undo_spec v w \<and>
       (\<exists>sid. snd v oid = Some (sid, a) \<and> snd w = (snd v)(oid \<mapsto> (sid, b)))"
| "call_promise (FinishCleanup _) v w \<longleftrightarrow> w = v"
| "call_promise (DiscardSets sids) v w \<longleftrightarrow>
     w = without (set sids) v \<and> (\<forall>sid \<in> set sids. \<not> busy (snd v) sid)"

definition spec_inv :: "undo_view \<Rightarrow> bool" where
  "spec_inv v \<longleftrightarrow>
     (\<forall>oid sid st. snd v oid = Some (sid, st) \<longrightarrow>
        fst v sid \<noteq> None \<and> (\<not> terminal_state st \<longrightarrow> fst v sid = Some RsEligible) \<and>
        (st = UoCompleted \<longrightarrow> fst v sid = Some RsConsumed)) \<and>
     (\<forall>oid oid' sid st st'. snd v oid = Some (sid, st) \<longrightarrow> snd v oid' = Some (sid, st') \<longrightarrow>
        \<not> terminal_state st \<and> \<not> terminal_state st' \<or> st = UoCompleted \<and> st' = UoCompleted \<longrightarrow>
        oid = oid') \<and>
     (\<forall>sid. fst v sid = Some RsConsumed \<longrightarrow> (\<exists>oid. snd v oid = Some (sid, UoCompleted)))"

lemma terminal_state_simps [simp]:
  "terminal_state UoCompleted" "terminal_state UoRolledBack" "terminal_state UoBlocked"
  "\<not> terminal_state UoPreparing" "\<not> terminal_state UoPrepared" "\<not> terminal_state UoApplying"
  "\<not> terminal_state UoVerifying" "\<not> terminal_state UoRollingBack"
  "\<not> terminal_state UoRecoveryRequired" "\<not> terminal_state (UoUnknown t)"
  by (simp_all add: terminal_state_def)

lemma terminal_stays: "terminal_state a \<Longrightarrow> operation_can_transition a b \<Longrightarrow> a = b"
  by (auto simp: terminal_state_def)

lemma consumed_stays: "set_can_transition RsConsumed b \<Longrightarrow> b = RsConsumed"
  by (cases b) auto

lemma without_simps:
  "fst (without gone v) sid = (if sid \<in> gone then None else fst v sid)"
  "snd (without gone v) oid = Some (sid, st) \<longleftrightarrow> snd v oid = Some (sid, st) \<and> sid \<notin> gone"
  by (auto simp: without_def split: option.splits prod.splits if_splits)

lemma spec_inv_own:
  "spec_inv v \<Longrightarrow> snd v oid = Some (sid, st) \<Longrightarrow> fst v sid \<noteq> None \<and>
     (\<not> terminal_state st \<longrightarrow> fst v sid = Some RsEligible) \<and>
     (st = UoCompleted \<longrightarrow> fst v sid = Some RsConsumed)"
  unfolding spec_inv_def by blast

lemma spec_inv_running:
  "spec_inv v \<Longrightarrow> snd v o1 = Some (sid, st) \<Longrightarrow> snd v o2 = Some (sid, st') \<Longrightarrow>
     \<not> terminal_state st \<Longrightarrow> \<not> terminal_state st' \<Longrightarrow> o1 = o2"
  unfolding spec_inv_def by blast

lemma spec_inv_done_once:
  "spec_inv v \<Longrightarrow> snd v o1 = Some (sid, UoCompleted) \<Longrightarrow> snd v o2 = Some (sid, UoCompleted) \<Longrightarrow>
     o1 = o2"
  unfolding spec_inv_def by blast

lemma spec_inv_origin:
  "spec_inv v \<Longrightarrow> fst v sid = Some RsConsumed \<Longrightarrow> \<exists>oid. snd v oid = Some (sid, UoCompleted)"
  unfolding spec_inv_def by blast

lemma spec_inv_step:
  assumes "undo_spec v w" and "spec_inv v"
  shows "spec_inv w"
  using assms
proof (cases rule: undo_spec.cases)
  case (open_set sets sid st ops)
  with assms(2) show ?thesis unfolding spec_inv_def by auto
next
  case (move_set sets sid a b ops)
  then show ?thesis
    using assms(2) consumed_stays [of b] unfolding spec_inv_def busy_def
    by (simp, metis option.inject)
next
  case (open_operation ops oid sets sid)
  with assms(2) show ?thesis unfolding spec_inv_def busy_def by (simp, metis option.inject option.simps(3))
next
  case (move_operation ops oid sid a b sets)
  then have nt: "\<not> terminal_state a" using terminal_stays [of a b] by blast
  then have nc: "a \<noteq> UoCompleted" by auto
  have inv: "spec_inv (sets, ops)" using assms(2) move_operation(1) by simp
  note own = spec_inv_own [OF inv, simplified] and running = spec_inv_running [OF inv, simplified]
    and done_once = spec_inv_done_once [OF inv, simplified] and origin = spec_inv_origin [OF inv, simplified]
  have only: "o2 = oid" if "ops o2 = Some (sid, st)" "\<not> terminal_state st" for o2 st
    using running [OF that(1) move_operation(3) that(2) nt] .
  have kept: "\<exists>o2. (ops(oid \<mapsto> (sid, b))) o2 = Some (t, UoCompleted)" if "sets t = Some RsConsumed" for t
  proof -
    from origin [OF that] obtain o2 where o2: "ops o2 = Some (t, UoCompleted)" ..
    with move_operation(3) nc have "o2 \<noteq> oid" by auto
    with o2 show ?thesis by auto
  qed
  show ?thesis
    unfolding spec_inv_def move_operation(2) fst_conv snd_conv
    using own only kept done_once running move_operation(6,7) by (auto split: if_splits)
next
  case (complete ops oid sid sets)
  have inv: "spec_inv (sets, ops)" using assms(2) complete(1) by simp
  note own = spec_inv_own [OF inv, simplified] and running = spec_inv_running [OF inv, simplified]
    and done_once = spec_inv_done_once [OF inv, simplified] and origin = spec_inv_origin [OF inv, simplified]
  have only: "terminal_state st" if "ops o2 = Some (sid, st)" "o2 \<noteq> oid" for o2 st
    using running [OF that(1) complete(3)] that(2) by auto
  have unfinished: "ops o2 \<noteq> Some (sid, UoCompleted)" for o2
    using own [of o2 sid UoCompleted] complete(4) by auto
  have kept: "\<exists>o2. (ops(oid \<mapsto> (sid, UoCompleted))) o2 = Some (t, UoCompleted)"
    if "sets t = Some RsConsumed" for t
  proof -
    from origin [OF that] obtain o2 where o2: "ops o2 = Some (t, UoCompleted)" ..
    with complete(3) have "o2 \<noteq> oid" by auto
    with o2 show ?thesis by auto
  qed
  show ?thesis
    unfolding spec_inv_def complete(2) fst_conv snd_conv
    using own only unfinished kept done_once running by (auto split: if_splits)
next
  case (discard sid)
  with assms(2) show ?thesis unfolding spec_inv_def discard(1) without_simps by auto
qed

lemma spec_inv_steps: "undo_spec\<^sup>*\<^sup>* v w \<Longrightarrow> spec_inv v \<Longrightarrow> spec_inv w"
  by (induction rule: rtranclp_induct) (auto intro: spec_inv_step)

section \<open>The view of the tables\<close>

definition view :: "journal \<Rightarrow> undo_view" where
  "view s =
     ((\<lambda>sid. map_option rs_state (lookup_by rs_restore_set_id sid (jn_sets s))),
      (\<lambda>oid. map_option (\<lambda>u. (uo_restore_set_id u, uo_state u))
         (lookup_by uo_operation_id oid (operations s))))"

definition tables_ok :: "journal \<Rightarrow> bool" where
  "tables_ok s \<longleftrightarrow>
     distinct (map rs_restore_set_id (jn_sets s)) \<and> distinct (map uo_operation_id (operations s)) \<and>
     (\<forall>u \<in> set (operations s). terminal_state (uo_state u) \<longleftrightarrow> \<not> uo_active u)"

definition refines :: "journal \<Rightarrow> journal \<Rightarrow> bool" where
  "refines s s' \<longleftrightarrow> tables_ok s' \<and> undo_spec\<^sup>*\<^sup>* (view s) (view s')"

lemma refines_refl: "tables_ok s \<Longrightarrow> refines s s"
  by (simp add: refines_def)

lemma refines_trans: "refines s t \<Longrightarrow> refines t u \<Longrightarrow> refines s u"
  by (auto simp: refines_def)

lemma refines_step: "tables_ok s' \<Longrightarrow> undo_spec (view s) (view s') \<Longrightarrow> refines s s'"
  by (auto simp: refines_def)

lemma view_frame:
  "jn_sets s' = jn_sets s \<Longrightarrow> jn_operations s' = jn_operations s \<Longrightarrow>
     view s' = view s \<and> tables_ok s' = tables_ok s"
  by (simp add: view_def tables_ok_def operations_def)

lemma set_row_view:
  assumes "tables_ok s" and "r \<in> set (jn_sets s)"
  shows "fst (view s) (rs_restore_set_id r) = Some (rs_state r)"
  using lookup_by_in [of rs_restore_set_id "jn_sets s" r] assms by (simp add: view_def tables_ok_def)

lemma operation_view:
  assumes "tables_ok s" and "u \<in> set (operations s)"
  shows "snd (view s) (uo_operation_id u) = Some (uo_restore_set_id u, uo_state u)"
  using lookup_by_in [of uo_operation_id "operations s" u] assms by (simp add: view_def tables_ok_def)

lemma same_operation:
  "tables_ok s \<Longrightarrow> u \<in> set (operations s) \<Longrightarrow> v \<in> set (operations s) \<Longrightarrow>
     uo_operation_id u = uo_operation_id v \<Longrightarrow> u = v"
  unfolding tables_ok_def by (metis lookup_by_in option.inject)

lemma view_operation_SomeD:
  "snd (view s) oid = Some (sid, st) \<Longrightarrow>
     \<exists>u \<in> set (operations s). uo_operation_id u = oid \<and> uo_restore_set_id u = sid \<and> uo_state u = st"
  by (auto simp: view_def dest: lookup_by_SomeD)

lemma active_on_busy:
  assumes "tables_ok s"
  shows "active_on s sid \<longleftrightarrow> busy (snd (view s)) sid"
proof
  assume "active_on s sid"
  then obtain u where u: "u \<in> set (operations s)" "uo_restore_set_id u = sid" "uo_active u"
    by (auto simp: active_on_def list_ex_iff)
  with assms have "\<not> terminal_state (uo_state u)" by (auto simp: tables_ok_def)
  with operation_view [OF assms u(1)] u(2) show "busy (snd (view s)) sid"
    unfolding busy_def by blast
next
  assume "busy (snd (view s)) sid"
  then obtain oid st where o: "snd (view s) oid = Some (sid, st)" and "\<not> terminal_state st"
    by (auto simp: busy_def)
  from view_operation_SomeD [OF o] this(2) assms show "active_on s sid"
    by (auto simp: active_on_def list_ex_iff tables_ok_def)
qed

lemma insert_set_step:
  assumes ok: "tables_ok s" and run: "insert_set e r s = Inr s'"
    and st: "rs_state r = RsCollecting \<or> rs_state r = RsFailed \<or> rs_state r = RsIneligible"
  shows "tables_ok s' \<and> set_step (view s) (rs_restore_set_id r) (rs_state r) (view s')"
proof
  from run have s': "s' = s\<lparr>jn_sets := jn_sets s @ [r]\<rparr>"
    and new: "rs_restore_set_id r \<notin> rs_restore_set_id ` set (jn_sets s)"
    by (auto simp: insert_set_def list_ex_iff split: if_splits)
  from ok new show "tables_ok s'" by (auto simp: tables_ok_def s' operations_def)
  have none: "lookup_by rs_restore_set_id (rs_restore_set_id r) (jn_sets s) = None"
    using new by (simp add: lookup_by_None_iff)
  have "view s' = ((fst (view s))(rs_restore_set_id r \<mapsto> rs_state r), snd (view s))"
    using none by (auto simp: view_def s' operations_def fun_eq_iff split: option.splits)
  moreover have "fst (view s) (rs_restore_set_id r) = None" using none by (simp add: view_def)
  ultimately show "set_step (view s) (rs_restore_set_id r) (rs_state r) (view s')"
    unfolding set_step_def using undo_spec.open_set [of "fst (view s)"] st by (metis prod.collapse)
qed

lemma set_step_refines: "tables_ok s' \<and> set_step (view s) sid st (view s') \<Longrightarrow> refines s s'"
  by (auto simp: set_step_def intro: refines_step)

lemmas insert_set_refines = insert_set_step [THEN set_step_refines]

lemma update_set_row_effect:
  assumes ok: "tables_ok s" and run: "update_set_row e sid a f message s = Inr s'"
    and f: "\<And>q. rs_restore_set_id (f q) = rs_restore_set_id q" "\<And>q. rs_state (f q) = b"
  shows "s' = s\<lparr>jn_sets := update_where (\<lambda>q. rs_restore_set_id q = sid \<and> rs_state q = a) f (jn_sets s)\<rparr>"
    and "tables_ok s'" and "fst (view s) sid = Some a"
    and "view s' = ((fst (view s))(sid \<mapsto> b), snd (view s))"
proof -
  let ?hit = "\<lambda>q. rs_restore_set_id q = sid \<and> rs_state q = a"
  from run show s': "s' = s\<lparr>jn_sets := update_where ?hit f (jn_sets s)\<rparr>"
    by (auto simp: update_set_row_def Let_def deny_def split: if_splits)
  from run have "length (filter ?hit (jn_sets s)) = 1"
    by (auto simp: update_set_row_def Let_def deny_def changed_rows_def split: if_splits)
  then have "filter ?hit (jn_sets s) \<noteq> []" by auto
  then obtain q where "q \<in> set (jn_sets s)" and q: "rs_restore_set_id q = sid" "rs_state q = a"
    by (auto simp: filter_empty_conv)
  with ok have look: "lookup_by rs_restore_set_id sid (jn_sets s) = Some q"
    using lookup_by_in by (fastforce simp: tables_ok_def)
  then show "fst (view s) sid = Some a" using q by (simp add: view_def)
  show "tables_ok s'"
    using ok f(1) by (simp add: tables_ok_def s' operations_def map_update_where)
  have "map_option rs_state (lookup_by rs_restore_set_id t (update_where ?hit f (jn_sets s))) =
      (if t = sid then Some b else map_option rs_state (lookup_by rs_restore_set_id t (jn_sets s)))" for t
    using f look q by (cases "lookup_by rs_restore_set_id t (jn_sets s)")
      (auto simp: lookup_by_update dest: lookup_by_SomeD)
  then show "view s' = ((fst (view s))(sid \<mapsto> b), snd (view s))"
    by (auto simp: view_def s' operations_def fun_eq_iff)
qed

lemma update_set_row_step:
  assumes ok: "tables_ok s" and run: "update_set_row e sid a f message s = Inr s'"
    and f: "\<And>q. rs_restore_set_id (f q) = rs_restore_set_id q" "\<And>q. rs_state (f q) = b"
    and move: "set_can_transition a b" "a \<noteq> b" "b \<noteq> RsConsumed"
    and free: "a = RsEligible \<Longrightarrow> \<not> active_on s sid"
  shows "tables_ok s' \<and> set_step (view s) sid b (view s')"
proof
  note eff = update_set_row_effect [OF ok run f]
  show "tables_ok s'" by (rule eff(2))
  show "set_step (view s) sid b (view s')"
    using undo_spec.move_set [of "fst (view s)" sid a b "snd (view s)"] eff(3,4) move free
      active_on_busy [OF ok] by (auto simp: set_step_def)
qed

lemmas update_set_row_refines = update_set_row_step [THEN set_step_refines]

section \<open>Every call refines the specification\<close>

text \<open>Inserting file rows leaves the lifecycle tables alone.\<close>

lemma insert_all_frame:
  assumes "insert_all ins xs s = Inr s'"
    and "\<And>x t t'. ins x t = Inr t' \<Longrightarrow> jn_sets t' = jn_sets t \<and> jn_operations t' = jn_operations t"
  shows "jn_sets s' = jn_sets s \<and> jn_operations s' = jn_operations s"
  using assms(1)
proof (induction xs arbitrary: s)
  case (Cons x xs)
  then obtain t where "ins x s = Inr t" "insert_all ins xs t = Inr s'" by (auto simp: and_then_Inr_iff)
  with Cons.IH [of t] assms(2) [of x s t] show ?case by simp
qed simp

lemma set_file_frame:
  "insert_turn_restore_file e f s = Inr s' \<Longrightarrow>
     s' = s\<lparr>jn_set_files := jn_set_files s @ [f]\<rparr>"
  by (auto simp: insert_turn_restore_file_def deny_def and_then_Inr_iff split: if_splits)

lemma op_file_frame:
  "insert_undo_operation_file e f s = Inr s' \<Longrightarrow>
     s' = s\<lparr>jn_op_files := jn_op_files s @ [f]\<rparr>"
  by (auto simp: insert_undo_operation_file_def deny_def and_then_Inr_iff split: if_splits)

lemma create_set_step:
  assumes "tables_ok s" and "create_turn_restore_set e r s = Inr s'"
  shows "tables_ok s' \<and> set_step (view s) (rs_restore_set_id r) (rs_state r) (view s')"
proof -
  from assms(2) obtain q where q: "insert_set e q s = Inr s'" and "rs_state q = RsCollecting"
    and same: "rs_restore_set_id q = rs_restore_set_id r" "rs_state q = rs_state r"
    by (auto simp: create_turn_restore_set_def deny_def and_then_Inr_iff split: if_splits)
  then show ?thesis using insert_set_step [OF assms(1) q] by simp
qed

lemma preflight_step:
  assumes "tables_ok s" and "record_capture_v2_preflight_terminal e r s = Inr s'"
  shows "tables_ok s' \<and> set_step (view s) (rs_restore_set_id r) (rs_state r) (view s')"
proof -
  from assms(2) obtain q where q: "insert_set e q s = Inr s'"
    and "rs_state q = RsFailed \<or> rs_state q = RsIneligible"
    and same: "rs_restore_set_id q = rs_restore_set_id r" "rs_state q = rs_state r"
    by (auto simp: record_capture_v2_preflight_terminal_def deny_def and_then_Inr_iff split: if_splits)
  then show ?thesis using insert_set_step [OF assms(1) q] by simp
qed

lemmas create_set_refines = create_set_step [THEN set_step_refines]
lemmas preflight_refines = preflight_step [THEN set_step_refines]

lemma finalize_ok:
  assumes "finalize_turn_restore_set e r files s = Inr (b, s')"
  obtains "b = False" and "s' = s"
  | s1 p pfiles where "b = True" and "load_turn_restore_set e (rs_restore_set_id r) s = Inr (Some (p, pfiles))"
    and "restore_set_validate r = Inr ()"
    and "rs_state r = RsEligible \<longrightarrow> validate_restore_set_manifest (de_sha256 e) r files = Inr ()"
    and "rs_state r \<noteq> RsEligible \<longrightarrow> files = [] \<and> zero_files r"
    and "set_can_transition RsCollecting (rs_state r)" and "rs_state r \<noteq> RsCollecting"
    and "\<not> finalize_mismatch p r" and "insert_all (insert_turn_restore_file e) files s = Inr s1"
    and "update_set_row e (rs_restore_set_id r) RsCollecting
              (\<lambda>q. q\<lparr>rs_state := rs_state r, rs_reason_code := rs_reason_code r,
                     rs_root_id := rs_root_id r, rs_git_identity := rs_git_identity r,
                     rs_artifact_bytes := rs_artifact_bytes r, rs_file_count := rs_file_count r,
                     rs_manifest_digest := rs_manifest_digest r,
                     rs_completed_at := rs_completed_at r, rs_expires_at := rs_expires_at r\<rparr>)
              ''restoration lifecycle compare-and-swap lost'' s1 = Inr s'"
  using assms unfolding finalize_turn_restore_set_def deny_def load_existing_set_def guarded_def
  by (auto simp: and_then_Inr_iff split: if_splits sum.splits)

lemma finalize_step:
  assumes "tables_ok s" and "finalize_turn_restore_set e r files s = Inr (b, s')"
  shows "s' = s \<or> tables_ok s' \<and> set_step (view s) (rs_restore_set_id r) (rs_state r) (view s')"
  using assms(2)
proof (cases rule: finalize_ok)
  case 1
  then show ?thesis by simp
next
  case (2 s1 p pfiles)
  have "jn_sets s1 = jn_sets s \<and> jn_operations s1 = jn_operations s"
    using 2(9) by (rule insert_all_frame) (auto dest: set_file_frame)
  then have same: "view s1 = view s \<and> tables_ok s1 = tables_ok s" by (intro view_frame) auto
  have "rs_state r \<noteq> RsConsumed" using 2(6) by auto
  then have "tables_ok s' \<and> set_step (view s1) (rs_restore_set_id r) (rs_state r) (view s')"
    using 2(6,7) same assms(1) by (intro update_set_row_step [OF _ 2(10)]) auto
  then show ?thesis using same by simp
qed

lemma finalize_refines:
  "tables_ok s \<Longrightarrow> finalize_turn_restore_set e r files s = Inr (b, s') \<Longrightarrow> refines s s'"
  using finalize_step set_step_refines refines_refl by blast

lemma recover_sets_refines:
  "tables_ok s \<Longrightarrow> recover_sets e t sids s = Inr s' \<Longrightarrow> refines s s' \<and>
     view s' = ((\<lambda>sid. if sid \<in> set sids then Some RsFailed else fst (view s) sid), snd (view s))"
proof (induction sids arbitrary: s)
  case (Cons sid sids)
  from Cons.prems(2) obtain s1 where
    up: "update_set_row e sid RsCollecting
            (\<lambda>q. q\<lparr>rs_state := RsFailed, rs_reason_code := Some GrCaptureInterrupted,
                   rs_completed_at := Some t\<rparr>)
            ''restoration recovery compare-and-swap lost'' s = Inr s1"
    and rest: "recover_sets e t sids s1 = Inr s'"
    by (auto simp: and_then_Inr_iff deny_def split: if_splits)
  have one: "tables_ok s1 \<and> set_step (view s) sid RsFailed (view s1)"
    using Cons.prems(1) by (intro update_set_row_step [OF _ up]) auto
  then have "refines s s1" by (rule set_step_refines)
  moreover from one have "refines s1 s'" using Cons.IH [OF _ rest] by simp
  ultimately have "refines s s'" by (rule refines_trans)
  then show ?case using Cons.IH [OF _ rest] one by (auto simp: set_step_def fun_eq_iff)
qed (simp add: refines_refl)

lemma recover_step:
  assumes "tables_ok s" and "recover_interrupted_restore_sets e t s = Inr (ids, s')"
  shows "refines s s' \<and> call_promise (RecoverInterrupted t) (view s) (view s')"
proof -
  let ?sids = "sort (map rs_restore_set_id (filter (\<lambda>r. rs_state r = RsCollecting) (jn_sets s)))"
  from assms(2) have "recover_sets e t ?sids s = Inr s'"
    by (auto simp: recover_interrupted_restore_sets_def Let_def and_then_Inr_iff)
  note all = recover_sets_refines [OF assms(1) this]
  have "sid \<in> set ?sids \<longleftrightarrow> fst (view s) sid = Some RsCollecting" for sid
  proof
    assume "sid \<in> set ?sids"
    then show "fst (view s) sid = Some RsCollecting" using set_row_view [OF assms(1)] by fastforce
  next
    assume "fst (view s) sid = Some RsCollecting"
    then show "sid \<in> set ?sids" by (auto simp: view_def dest!: lookup_by_SomeD)
  qed
  then show ?thesis using all by simp
qed

lemma recover_refines:
  "tables_ok s \<Longrightarrow> recover_interrupted_restore_sets e t s = Inr (ids, s') \<Longrightarrow> refines s s'"
  using recover_step by blast

lemma retire_step:
  assumes ok: "tables_ok s" and run: "retire_eligible e sid f blocked lost s = Inr (b, s')"
    and f: "\<And>q. rs_restore_set_id (f q) = rs_restore_set_id q" "\<And>q. rs_state (f q) = st"
    and st: "st = RsExpired \<or> st = RsFailed"
  shows "s' = s \<or> tables_ok s' \<and> set_step (view s) sid st (view s')"
proof -
  from run consider "s' = s" | "update_set_row e sid RsEligible f lost s = Inr s'" "\<not> active_on s sid"
    by (auto simp: retire_eligible_def deny_def and_then_Inr_iff split: if_splits option.splits)
  then show ?thesis
  proof cases
    case 2
    then show ?thesis using ok f st by (intro disjI2 update_set_row_step [OF ok 2(1) f]) auto
  qed simp
qed

lemma expire_step:
  assumes "tables_ok s" and "expire_eligible_restore_set e sid t s = Inr (b, s')"
  shows "s' = s \<or> tables_ok s' \<and> set_step (view s) sid RsExpired (view s')"
proof -
  from assms(2) obtain f blocked lost where run: "retire_eligible e sid f blocked lost s = Inr (b, s')"
    and f: "\<forall>q. rs_restore_set_id (f q) = rs_restore_set_id q \<and> rs_state (f q) = RsExpired"
    unfolding expire_eligible_restore_set_def by (auto simp: and_then_Inr_iff)
  then show ?thesis by (intro retire_step [OF assms(1) run]) simp_all
qed

lemma fail_step:
  assumes "tables_ok s" and "fail_eligible_restore_set_integrity e sid reason t s = Inr (b, s')"
  shows "s' = s \<or> tables_ok s' \<and> set_step (view s) sid RsFailed (view s')"
proof -
  from assms(2) obtain f blocked lost where run: "retire_eligible e sid f blocked lost s = Inr (b, s')"
    and f: "\<forall>q. rs_restore_set_id (f q) = rs_restore_set_id q \<and> rs_state (f q) = RsFailed"
    unfolding fail_eligible_restore_set_integrity_def deny_def
    by (auto simp: and_then_Inr_iff split: if_splits)
  then show ?thesis by (intro retire_step [OF assms(1) run]) simp_all
qed

lemma expire_refines:
  "tables_ok s \<Longrightarrow> expire_eligible_restore_set e sid t s = Inr (b, s') \<Longrightarrow> refines s s'"
  and fail_refines:
  "tables_ok s \<Longrightarrow> fail_eligible_restore_set_integrity e sid reason t s = Inr (b, s') \<Longrightarrow> refines s s'"
  using expire_step fail_step set_step_refines refines_refl by blast+

lemma discard_set_ok:
  assumes "discard_set sid s = Inr s'"
  shows "jn_sets s' = filter (\<lambda>r. rs_restore_set_id r \<noteq> sid) (jn_sets s)"
    and "\<exists>gone. operations s' = filter (\<lambda>u. uo_operation_id u \<notin> gone) (operations s) \<and>
      gone = uo_operation_id ` {u \<in> set (operations s). uo_restore_set_id u = sid \<and> \<not> uo_active u} \<and>
      jn_op_files s' = filter (\<lambda>f. uf_operation_id f \<notin> gone) (jn_op_files s)"
    and "\<forall>u \<in> set (operations s'). uo_restore_set_id u \<noteq> sid"
    and "jn_set_files s' = filter (\<lambda>f. rf_restore_set_id f \<noteq> sid) (jn_set_files s)"
proof -
  define gone where "gone = map operation_id (filter (\<lambda>w. uo_restore_set_id (ow_operation w) = sid \<and>
      \<not> uo_active (ow_operation w)) (jn_operations s))"
  from assms have s': "jn_sets s' = filter (\<lambda>r. rs_restore_set_id r \<noteq> sid) (jn_sets s)"
      "jn_operations s' = filter (\<lambda>w. operation_id w \<notin> set gone) (jn_operations s)"
      "jn_op_files s' = filter (\<lambda>f. uf_operation_id f \<notin> set gone) (jn_op_files s)"
      "jn_set_files s' = filter (\<lambda>f. rf_restore_set_id f \<noteq> sid) (jn_set_files s)"
      "\<forall>u \<in> set (operations s'). uo_restore_set_id u \<noteq> sid"
    unfolding discard_set_def gone_def Let_def
    by (auto simp: list_ex_iff operations_def split: if_splits)
  then show "jn_sets s' = filter (\<lambda>r. rs_restore_set_id r \<noteq> sid) (jn_sets s)"
    and "\<forall>u \<in> set (operations s'). uo_restore_set_id u \<noteq> sid"
    and "jn_set_files s' = filter (\<lambda>f. rf_restore_set_id f \<noteq> sid) (jn_set_files s)" by auto
  have "set gone = uo_operation_id ` {u \<in> set (operations s). uo_restore_set_id u = sid \<and> \<not> uo_active u}"
    by (auto simp: gone_def operations_def operation_id_def image_iff)
  moreover have "operations s' = filter (\<lambda>u. uo_operation_id u \<notin> set gone) (operations s)"
    unfolding operations_def s'(2) operation_id_def filter_map comp_def by simp
  ultimately show "\<exists>gone. operations s' = filter (\<lambda>u. uo_operation_id u \<notin> gone) (operations s) \<and>
      gone = uo_operation_id ` {u \<in> set (operations s). uo_restore_set_id u = sid \<and> \<not> uo_active u} \<and>
      jn_op_files s' = filter (\<lambda>f. uf_operation_id f \<notin> gone) (jn_op_files s)"
    using s'(3) by blast
qed

lemma discard_set_step:
  assumes ok: "tables_ok s" and run: "discard_set sid s = Inr s'"
  shows "tables_ok s' \<and> \<not> busy (snd (view s)) sid \<and> view s' = without {sid} (view s)"
proof (intro conjI)
  note d = discard_set_ok [OF run]
  from d(2) obtain gone where ops: "operations s' = filter (\<lambda>u. uo_operation_id u \<notin> gone) (operations s)"
    and gone: "gone = uo_operation_id ` {u \<in> set (operations s). uo_restore_set_id u = sid \<and> \<not> uo_active u}"
    by blast
  show "tables_ok s'" using ok d(1) ops by (auto simp: tables_ok_def distinct_map_filter)
  have on_sid: "u \<in> set (operations s) \<Longrightarrow> uo_operation_id u \<in> gone \<longleftrightarrow> uo_restore_set_id u = sid" for u
  proof
    assume u: "u \<in> set (operations s)"
    assume "uo_restore_set_id u = sid"
    with u d(3) ops show "uo_operation_id u \<in> gone" by auto
  next
    assume u: "u \<in> set (operations s)" and "uo_operation_id u \<in> gone"
    then obtain v where v: "v \<in> set (operations s)" "uo_restore_set_id v = sid"
      "uo_operation_id v = uo_operation_id u" unfolding gone by auto
    then show "uo_restore_set_id u = sid" using same_operation [OF ok u v(1)] by simp
  qed
  show "\<not> busy (snd (view s)) sid"
  proof
    assume "busy (snd (view s)) sid"
    then obtain u where u: "u \<in> set (operations s)" "uo_restore_set_id u = sid" "uo_active u"
      using active_on_busy [OF ok] by (auto simp: active_on_def list_ex_iff)
    then have "uo_operation_id u \<in> gone" using on_sid by simp
    then obtain v where "v \<in> set (operations s)" "\<not> uo_active v"
      "uo_operation_id v = uo_operation_id u" unfolding gone by auto
    then show False using same_operation [OF ok u(1)] u(3) by metis
  qed
  have "fst (view s') = fst (without {sid} (view s))"
    unfolding view_def without_def d(1)
    using lookup_by_filter_key [of rs_restore_set_id _ "\<lambda>t. t \<noteq> sid" "jn_sets s"] by auto
  moreover have "snd (view s') oid = snd (without {sid} (view s)) oid" for oid
    unfolding view_def without_def ops
    using lookup_by_filter_key [of uo_operation_id oid "\<lambda>t. t \<notin> gone" "operations s"] on_sid
    by (auto split: option.splits dest: lookup_by_SomeD)
  ultimately show "view s' = without {sid} (view s)" by (simp add: prod_eq_iff fun_eq_iff)
qed

lemma discard_set_refines:
  "tables_ok s \<Longrightarrow> discard_set sid s = Inr s' \<Longrightarrow> refines s s'"
  using discard_set_step undo_spec.discard refines_step by metis

lemma insert_all_refines:
  assumes "insert_all ins xs s = Inr s'" and "tables_ok s"
    and "\<And>x t t'. tables_ok t \<Longrightarrow> ins x t = Inr t' \<Longrightarrow> refines t t'"
  shows "refines s s'"
  using assms(1,2)
proof (induction xs arbitrary: s)
  case (Cons x xs)
  then obtain t where t: "ins x s = Inr t" "insert_all ins xs t = Inr s'"
    by (auto simp: and_then_Inr_iff)
  from assms(3) [OF Cons.prems(2) t(1)] have r: "refines s t" .
  then have "refines t s'" using Cons.IH [OF t(2)] by (simp add: refines_def)
  with r show ?case by (rule refines_trans)
qed (simp add: refines_refl)

lemma discard_refines: "tables_ok s \<Longrightarrow> discard_restore_sets sids s = Inr s' \<Longrightarrow> refines s s'"
  by (auto simp: discard_restore_sets_def and_then_Inr_iff
      intro: insert_all_refines discard_set_refines)

lemma without_without: "without B (without {a} v) = without (insert a B) v"
  by (auto simp: without_def fun_eq_iff split: option.splits)

lemma busy_without: "busy (snd (without {a} v)) b \<longleftrightarrow> b \<noteq> a \<and> busy (snd v) b"
proof -
  have "snd (without {a} v) oid = Some (b, st) \<longleftrightarrow> b \<noteq> a \<and> snd v oid = Some (b, st)" for oid st
    by (auto simp: without_def split: option.splits if_splits)
  then show ?thesis by (auto simp: busy_def)
qed

lemma discard_all_step:
  assumes "tables_ok s" and "insert_all discard_set sids s = Inr s'"
  shows "view s' = without (set sids) (view s) \<and> (\<forall>sid \<in> set sids. \<not> busy (snd (view s)) sid)"
  using assms
proof (induction sids arbitrary: s)
  case Nil
  then show ?case by (auto simp: without_def prod_eq_iff fun_eq_iff split: option.splits)
next
  case (Cons sid sids)
  from Cons.prems(2) obtain t where t: "discard_set sid s = Inr t" "insert_all discard_set sids t = Inr s'"
    by (auto simp: and_then_Inr_iff)
  note one = discard_set_step [OF Cons.prems(1) t(1)]
  with Cons.IH [OF _ t(2)] show ?case by (auto simp: without_without busy_without)
qed

lemma discard_step:
  "tables_ok s \<Longrightarrow> discard_restore_sets sids s = Inr s' \<Longrightarrow>
     call_promise (DiscardSets sids) (view s) (view s')"
  using discard_all_step by (auto simp: discard_restore_sets_def and_then_Inr_iff)

lemma load_set_SomeD:
  "load_turn_restore_set e sid s = Inr (Some (r, files)) \<Longrightarrow>
     lookup_by rs_restore_set_id sid (jn_sets s) = Some r \<and> files = set_files_of s sid \<and>
     restore_set_validate r = Inr () \<and>
     (files \<noteq> [] \<longrightarrow> validate_restore_set_manifest (de_sha256 e) r files = Inr ())"
  unfolding load_turn_restore_set_def Let_def deny_def guarded_def
  by (auto simp: and_then_Inr_iff split: option.splits if_splits sum.splits)

lemma load_operation_SomeD:
  "load_undo_operation e oid s = Inr (Some (u, files)) \<Longrightarrow>
     lookup_by uo_operation_id oid (operations s) = Some u \<and> files = op_files_of s oid"
  unfolding load_undo_operation_def Let_def deny_def
  by (auto simp: and_then_Inr_iff split: option.splits if_splits)

lemma create_operation_ok:
  assumes "create_undo_operation e u files s = Inr s'"
  obtains r rfiles s1 where "undo_operation_validate u = Inr ()" and "uo_state u = UoPreparing"
    and "uo_active u" and "check_new_files u 0 files = Inr ()" and "files \<noteq> []"
    and "load_turn_restore_set e (uo_restore_set_id u) s = Inr (Some (r, rfiles))"
    and "rs_state r = RsEligible"
    and "validate_operation_manifest_binding e u files r rfiles s = Inr ()"
    and "insert_operation e u s = Inr s1"
    and "insert_all (insert_undo_operation_file e) files s1 = Inr s'"
  using assms unfolding create_undo_operation_def deny_def load_existing_set_def guarded_def
  by (auto simp: and_then_Inr_iff split: if_splits sum.splits)

lemma insert_operation_ok:
  assumes "insert_operation e u s = Inr s'"
  shows "jn_sets s' = jn_sets s" and "operations s' = operations s @ [u]"
    and "jn_set_files s' = jn_set_files s" and "jn_op_files s' = jn_op_files s"
    and "uo_operation_id u \<notin> uo_operation_id ` set (operations s)"
    and "terminal_state (uo_state u) \<longleftrightarrow> \<not> uo_active u"
    and "uo_active u \<Longrightarrow> \<not> active_on s (uo_restore_set_id u)"
  using assms by (auto simp: insert_operation_def operation_row_ok_def operations_def list_ex_iff
      split: if_splits)

lemma create_undo_step:
  assumes ok: "tables_ok s" and run: "create_undo_operation e u files s = Inr s'"
  shows "tables_ok s' \<and> call_promise (CreateOperation u files) (view s) (view s')"
  using run
proof (cases rule: create_operation_ok)
  case (1 r rfiles s1)
  note ins = insert_operation_ok [OF 1(9)]
  have "jn_sets s' = jn_sets s1 \<and> jn_operations s' = jn_operations s1"
    using 1(10) by (rule insert_all_frame) (auto dest: op_file_frame)
  then have same: "view s' = view s1 \<and> tables_ok s' = tables_ok s1" by (intro view_frame) auto
  show ?thesis
  proof
    show "tables_ok s'" using same ok ins(1,2,5,6) by (auto simp: tables_ok_def)
    have none: "lookup_by uo_operation_id (uo_operation_id u) (operations s) = None"
      using ins(5) by (simp add: lookup_by_None_iff)
    have "view s1 = (fst (view s), (snd (view s))(uo_operation_id u \<mapsto> (uo_restore_set_id u, UoPreparing)))"
      using none 1(2) by (auto simp: view_def ins(1,2) fun_eq_iff split: option.splits)
    moreover have "snd (view s) (uo_operation_id u) = None" using none by (simp add: view_def)
    moreover have "fst (view s) (uo_restore_set_id u) = Some RsEligible"
      using load_set_SomeD [OF 1(6)] 1(7) by (simp add: view_def)
    moreover have "\<not> busy (snd (view s)) (uo_restore_set_id u)"
      using ins(7) 1(3) active_on_busy [OF ok] by blast
    ultimately show "call_promise (CreateOperation u files) (view s) (view s')"
      using same undo_spec.open_operation [of "snd (view s)" "uo_operation_id u" "fst (view s)"]
      by (metis call_promise.simps(8) prod.collapse)
  qed
qed

lemma create_operation_refines:
  "tables_ok s \<Longrightarrow> create_undo_operation e u files s = Inr s' \<Longrightarrow> refines s s'"
  using create_undo_step refines_step by fastforce

lemma write_file_ok:
  "write_file_transition e expected n s = Inr s' \<Longrightarrow>
     s' = s\<lparr>jn_op_files := update_where (file_hit n expected) (moved_file n) (jn_op_files s)\<rparr>"
  by (auto simp: write_file_transition_def deny_def split: if_splits)

lemma transition_file_ok:
  assumes "transition_undo_operation_file e expected n s = Inr (b, s')"
  obtains "b = False" and "s' = s"
  | u files r rfiles c where "b = True" and "undo_file_validate n = Inr ()"
    and "load_undo_operation e (uf_operation_id n) s = Inr (Some (u, files))" and "uo_active u"
    and "load_turn_restore_set e (uo_restore_set_id u) s = Inr (Some (r, rfiles))"
    and "validate_operation_manifest_binding e u files r rfiles s = Inr ()"
    and "find (\<lambda>f. uf_ordinal f = uf_ordinal n) files = Some c" and "uf_state c = expected"
    and "uf_state n \<noteq> expected" and "file_can_transition expected (uf_state n)"
    and "\<not> file_identity_changed c n" and "write_file_transition e expected n s = Inr s'"
  using assms unfolding transition_undo_operation_file_def deny_def load_existing_set_def
  by (auto simp: and_then_Inr_iff guarded_def split: if_splits sum.splits)

lemma transition_file_step:
  assumes "tables_ok s" and "transition_undo_operation_file e expected n s = Inr (b, s')"
  shows "tables_ok s' \<and> view s' = view s"
  using assms(2)
proof (cases rule: transition_file_ok)
  case (2 u files r rfiles c)
  have "view s' = view s \<and> tables_ok s' = tables_ok s" using write_file_ok [OF 2(12)] by (intro view_frame) auto
  then show ?thesis using assms(1) by simp
qed (simp add: assms(1))

lemma transition_file_refines:
  "tables_ok s \<Longrightarrow> transition_undo_operation_file e expected n s = Inr (b, s') \<Longrightarrow> refines s s'"
  using transition_file_step by (fastforce simp: refines_def)

lemma load_bound_ok:
  assumes "load_bound_operation e oid s = Inr (u, files)"
  obtains r rfiles where "load_undo_operation e oid s = Inr (Some (u, files))"
    and "load_turn_restore_set e (uo_restore_set_id u) s = Inr (Some (r, rfiles))"
    and "validate_operation_manifest_binding e u files r rfiles s = Inr ()"
  using assms unfolding load_bound_operation_def load_existing_set_def
  by (auto simp: and_then_Inr_iff)

lemma transition_operation_ok:
  assumes "transition_undo_operation e oid expected st reason details t s = Inr (b, s')"
  obtains u files where "b = False" and "s' = s" and "load_bound_operation e oid s = Inr (u, files)"
    and "uo_state u = st" and "uo_reason_code u = reason" and "uo_recovery_details u = details"
  | u files where "b = True" and "load_bound_operation e oid s = Inr (u, files)"
    and "uo_state u = expected" and "st \<noteq> expected" and "operation_can_transition expected st"
    and "write_operation_transition e u files expected st reason details t s = Inr s'"
  using assms unfolding transition_undo_operation_def deny_def
  by (auto simp: and_then_Inr_iff split: if_splits)

lemma write_transition_ok:
  assumes "write_operation_transition e u files expected st reason details t s = Inr s'"
  obtains s1 where "undo_operation_validate (desired_operation st reason details t u) = Inr ()"
    and "files_ready st files = Inr ()"
    and "update_operation_row e (uo_operation_id u) expected (moved_operation st reason details t) s = Inr s1"
    and "if st = UoCompleted
      then update_set_row e (uo_restore_set_id u) RsEligible (consumed_set t)
        ''completed operation could not atomically consume restoration set'' s1 = Inr s'
      else s' = s1"
  using assms unfolding write_operation_transition_def guarded_def
  by (auto simp: and_then_Inr_iff split: if_splits sum.splits)

definition op_hit :: "rstr \<Rightarrow> undo_operation_state \<Rightarrow> undo_operation \<Rightarrow> bool" where
  "op_hit oid st u \<longleftrightarrow> uo_operation_id u = oid \<and> uo_state u = st"

lemma operations_update:
  "map ow_operation (update_where (\<lambda>w. P (ow_operation w)) (\<lambda>w. w\<lparr>ow_operation := f (ow_operation w)\<rparr>) ws) =
     update_where P f (map ow_operation ws)"
  by (induction ws) (auto simp: update_where_def)

lemma update_operation_row_ok:
  assumes "update_operation_row e oid st f s = Inr s'"
  shows "operations s' = update_where (op_hit oid st) f (operations s)"
    and "jn_sets s' = jn_sets s" and "jn_set_files s' = jn_set_files s"
    and "jn_op_files s' = jn_op_files s"
    and "\<exists>u \<in> set (operations s). op_hit oid st u"
proof -
  from assms have s': "s' = s\<lparr>jn_operations := update_where (\<lambda>w. op_hit oid st (ow_operation w))
        (\<lambda>w. w\<lparr>ow_operation := f (ow_operation w)\<rparr>) (jn_operations s)\<rparr>"
    and one: "length (filter (\<lambda>w. op_hit oid st (ow_operation w)) (jn_operations s)) = 1"
    by (auto simp: update_operation_row_def Let_def deny_def op_hit_def operation_id_def
        changed_rows_def split: if_splits)
  then show "operations s' = update_where (op_hit oid st) f (operations s)"
    and "jn_sets s' = jn_sets s" and "jn_set_files s' = jn_set_files s"
    and "jn_op_files s' = jn_op_files s"
    by (simp_all add: operations_def operations_update)
  from one have "filter (\<lambda>w. op_hit oid st (ow_operation w)) (jn_operations s) \<noteq> []" by auto
  then show "\<exists>u \<in> set (operations s). op_hit oid st u"
    by (auto simp: filter_empty_conv operations_def)
qed

lemma moved_operation_simps [simp]:
  "uo_operation_id (moved_operation st reason details t v) = uo_operation_id v"
  "uo_restore_set_id (moved_operation st reason details t v) = uo_restore_set_id v"
  "uo_prepared_identity (moved_operation st reason details t v) = uo_prepared_identity v"
  "uo_state (moved_operation st reason details t v) = st"
  "uo_active (moved_operation st reason details t v) \<longleftrightarrow> \<not> terminal_state st"
  by (simp_all add: moved_operation_def)

lemma move_operation_view:
  assumes ok: "tables_ok s" and u: "lookup_by uo_operation_id oid (operations s) = Some u"
    and run: "update_operation_row e oid (uo_state u) (moved_operation st reason details t) s = Inr s'"
  shows "tables_ok s'"
    and "view s' = (fst (view s), (snd (view s))(oid \<mapsto> (uo_restore_set_id u, st)))"
proof -
  note eff = update_operation_row_ok [OF run]
  have ids: "map uo_operation_id (operations s') = map uo_operation_id (operations s)"
    unfolding eff(1) by (rule map_update_where) simp
  have act: "\<forall>v \<in> set (operations s'). terminal_state (uo_state v) \<longleftrightarrow> \<not> uo_active v"
    using ok unfolding eff(1) tables_ok_def by (auto simp: update_where_def)
  show "tables_ok s'" using ok ids act eff(2) by (simp add: tables_ok_def)
  have "lookup_by uo_operation_id k (operations s') =
      (if k = oid then Some (moved_operation st reason details t u)
       else lookup_by uo_operation_id k (operations s))" for k
    using u unfolding eff(1) by (auto simp: lookup_by_update op_hit_def dest: lookup_by_SomeD
        split: option.splits)
       (cases "lookup_by uo_operation_id k (operations s)"; auto dest: lookup_by_SomeD)+
  then show "view s' = (fst (view s), (snd (view s))(oid \<mapsto> (uo_restore_set_id u, st)))"
    by (auto simp: view_def eff(2) fun_eq_iff)
qed

lemma binding_facts:
  assumes "validate_operation_manifest_binding e u files r rfiles s = Inr ()"
  shows "rs_state r = RsEligible \<or> rs_state r = RsConsumed \<and> uo_state u = UoCompleted"
    and "uo_restore_set_id u = rs_restore_set_id r" and "files \<noteq> []" and "length files = length rfiles"
    and "validate_restore_set_manifest (de_sha256 e) r rfiles = Inr ()"
    and "bound_files u r [] (zip files rfiles) s = Inr ()"
    and "Some (pi_manifest_digest (uo_prepared_identity u)) = rs_manifest_digest r"
  using assms unfolding validate_operation_manifest_binding_def Let_def deny_def guarded_def
  by (auto simp: and_then_Inr_iff split: if_splits sum.splits)

lemma completed_from: "operation_can_transition a UoCompleted \<Longrightarrow> a \<noteq> UoCompleted \<Longrightarrow> a = UoVerifying"
  by (cases a) auto

lemma transition_operation_step:
  assumes ok: "tables_ok s"
    and run: "transition_undo_operation e oid expected st reason details t s = Inr (b, s')"
  shows "tables_ok s' \<and> call_promise (TransitionOperation oid expected st reason details t) (view s) (view s')"
  using run
proof (cases rule: transition_operation_ok)
  case (1 u files)
  then show ?thesis using ok by simp
next
  case (2 u files)
  from 2(2) obtain r rfiles where lu: "load_undo_operation e oid s = Inr (Some (u, files))"
    and lr: "load_turn_restore_set e (uo_restore_set_id u) s = Inr (Some (r, rfiles))"
    and bind: "validate_operation_manifest_binding e u files r rfiles s = Inr ()"
    by (rule load_bound_ok)
  have look: "lookup_by uo_operation_id oid (operations s) = Some u"
    using load_operation_SomeD [OF lu] by simp
  then have oid: "uo_operation_id u = oid" by (auto dest: lookup_by_SomeD)
  have from_state: "snd (view s) oid = Some (uo_restore_set_id u, expected)"
    using look 2(3) by (simp add: view_def)
  have "expected \<noteq> UoCompleted" using 2(4,5) by auto
  then have el: "fst (view s) (uo_restore_set_id u) = Some RsEligible"
    using load_set_SomeD [OF lr] binding_facts(1) [OF bind] 2(3) by (auto simp: view_def)
  from 2(6) obtain s1 where
    up: "update_operation_row e (uo_operation_id u) expected (moved_operation st reason details t) s = Inr s1"
    and last: "if st = UoCompleted
      then update_set_row e (uo_restore_set_id u) RsEligible (consumed_set t)
        ''completed operation could not atomically consume restoration set'' s1 = Inr s'
      else s' = s1"
    by (rule write_transition_ok)
  note mv = move_operation_view [OF ok look, of e st reason details t s1] up [unfolded oid]
  have ok1: "tables_ok s1" and view1: "view s1 = (fst (view s), (snd (view s))(oid \<mapsto> (uo_restore_set_id u, st)))"
    using mv 2(3) by auto
  show ?thesis
  proof (cases "st = UoCompleted")
    case True
    with last have con: "update_set_row e (uo_restore_set_id u) RsEligible (consumed_set t)
        ''completed operation could not atomically consume restoration set'' s1 = Inr s'" by simp
    note eff = update_set_row_effect [OF ok1 con, of RsConsumed]
    have "view s' = ((fst (view s))(uo_restore_set_id u \<mapsto> RsConsumed),
        (snd (view s))(oid \<mapsto> (uo_restore_set_id u, UoCompleted)))"
      using eff(4) view1 True by (simp add: consumed_set_def)
    moreover have "expected = UoVerifying" using completed_from 2(4,5) True by auto
    ultimately show ?thesis
      using eff(2) undo_spec.complete [of "snd (view s)" oid "uo_restore_set_id u" "fst (view s)"]
        from_state el True
      by (auto simp: consumed_set_def)
  next
    case False
    then show ?thesis
      using last ok1 view1 2(4,5) from_state el
        undo_spec.move_operation [of "snd (view s)" oid "uo_restore_set_id u" expected st "fst (view s)"]
      by auto
  qed
qed

lemma transition_operation_refines:
  "tables_ok s \<Longrightarrow>
     transition_undo_operation e oid expected st reason details t s = Inr (b, s') \<Longrightarrow> refines s s'"
  using transition_operation_step by (fastforce simp: refines_def)

lemma cleanup_step:
  assumes "tables_ok s"
  shows "tables_ok (snd (finish_undo_operation_cleanup oid s)) \<and>
     view (snd (finish_undo_operation_cleanup oid s)) = view s"
proof -
  have "operations (snd (finish_undo_operation_cleanup oid s)) = operations s"
    by (simp add: finish_undo_operation_cleanup_def Let_def operations_def update_where_def)
  then have "view (snd (finish_undo_operation_cleanup oid s)) = view s \<and>
      tables_ok (snd (finish_undo_operation_cleanup oid s)) = tables_ok s"
    by (simp add: view_def tables_ok_def finish_undo_operation_cleanup_def Let_def)
  with assms show ?thesis by simp
qed

lemma cleanup_refines:
  "tables_ok s \<Longrightarrow> refines s (snd (finish_undo_operation_cleanup oid s))"
  using cleanup_step by (simp add: refines_def)

lemma map_sum_snd_Inr: "map_sum id snd r = Inr s' \<Longrightarrow> \<exists>b. r = Inr (b, s')"
  by (cases r) auto

lemma attempt_refines: "tables_ok s \<Longrightarrow> attempt e c s = Inr s' \<Longrightarrow> refines s s'"
proof (cases c)
  case (CaptureSnapshot snapshot owner)
  moreover assume "tables_ok s" "attempt e c s = Inr s'"
  ultimately show ?thesis
    using view_frame [of s' s] by (auto simp: refines_def split: if_splits)
qed (auto dest!: map_sum_snd_Inr intro: create_set_refines preflight_refines finalize_refines
    recover_refines expire_refines fail_refines create_operation_refines transition_file_refines
    transition_operation_refines cleanup_refines discard_refines)

text \<open>More precisely, a successful call moves the rows it names and no others.\<close>

lemma attempt_promise:
  assumes ok: "tables_ok s" and run: "attempt e c s = Inr s'"
  shows "call_promise c (view s) (view s')"
proof (cases c)
  case (CaptureSnapshot snapshot owner)
  then show ?thesis using run view_frame [of s' s] by (auto split: if_splits)
next
  case (CreateSet r)
  then show ?thesis using create_set_step [OF ok, of e r s'] run by simp
next
  case (PreflightTerminal r)
  then show ?thesis using preflight_step [OF ok, of e r s'] run by simp
next
  case (FinalizeSet r files)
  then show ?thesis using finalize_step [OF ok, of e r files _ s'] run by (auto dest!: map_sum_snd_Inr)
next
  case (RecoverInterrupted t)
  then show ?thesis using recover_step [OF ok, of e t _ s'] run by (auto dest!: map_sum_snd_Inr)
next
  case (ExpireSet sid t)
  then show ?thesis using expire_step [OF ok, of e sid t _ s'] run by (auto dest!: map_sum_snd_Inr)
next
  case (FailSet sid reason t)
  then show ?thesis using fail_step [OF ok, of e sid reason t _ s'] run by (auto dest!: map_sum_snd_Inr)
next
  case (CreateOperation u files)
  with run have "create_undo_operation e u files s = Inr s'" by simp
  from create_undo_step [OF ok this] show ?thesis unfolding CreateOperation by blast
next
  case (TransitionFile expected f)
  then show ?thesis using transition_file_step [OF ok, of e expected f _ s'] run by (auto dest!: map_sum_snd_Inr)
next
  case (TransitionOperation oid a b reason details t)
  then show ?thesis
    using transition_operation_step [OF ok, of e oid a b reason details t _ s'] run
    by (auto dest!: map_sum_snd_Inr)
next
  case (FinishCleanup oid)
  then show ?thesis using cleanup_step [OF ok, of oid] run by auto
next
  case (DiscardSets sids)
  then show ?thesis using discard_step [OF ok, of sids s'] run by simp
qed

lemma run_calls_refines: "tables_ok s \<Longrightarrow> refines s (run_calls e cs s)"
proof (induction cs arbitrary: s)
  case (Cons c cs)
  have "refines s (commit e c s)"
    using attempt_refines [OF Cons.prems] Cons.prems
    by (auto simp: commit_def refines_refl split: sum.splits)
  moreover from this have "refines (commit e c s) (run_calls e cs (commit e c s))"
    using Cons.IH by (simp add: refines_def)
  ultimately show ?case by (auto simp: run_calls_def intro: refines_trans)
qed (simp add: run_calls_def refines_refl)

lemma run_from_empty:
  "tables_ok (run_calls e cs empty_journal)" "undo_spec\<^sup>*\<^sup>* (view empty_journal) (view (run_calls e cs empty_journal))"
  "spec_inv (view (run_calls e cs empty_journal))"
proof -
  have r: "refines empty_journal (run_calls e cs empty_journal)"
    by (rule run_calls_refines) (simp add: tables_ok_def empty_journal_def operations_def)
  then show "tables_ok (run_calls e cs empty_journal)"
    and st: "undo_spec\<^sup>*\<^sup>* (view empty_journal) (view (run_calls e cs empty_journal))"
    by (auto simp: refines_def)
  have "spec_inv (view empty_journal)"
    by (simp add: spec_inv_def view_def empty_journal_def operations_def)
  with st show "spec_inv (view (run_calls e cs empty_journal))" by (rule spec_inv_steps)
qed

end
