(* ===== verification/Undo_Journal_Props.thy ===== *)
theory Undo_Journal_Props
  imports Undo_Journal_Spec
begin

text \<open>
  What holds of every journal that a sequence of calls produces: one active operation per
  restore set, on an eligible set; a set is consumed by exactly one completed operation; and a
  completed operation has verified every file of the set's manifest. The last part is a run of
  the calls on one file, used as the concrete instance of the properties.
\<close>

section \<open>Completed operations and their files\<close>

definition undo_key :: "undo_file \<Rightarrow> u32 \<times> opaque_repo_path \<times> u64 \<times> bytes \<times> u64 \<times> bytes" where
  "undo_key f = (uf_ordinal f, uf_path f, uf_pre_size f, uf_pre_sha256 f,
     uf_expected_result_size f, uf_expected_result_sha256 f)"

definition restore_key :: "restore_file \<Rightarrow> u32 \<times> opaque_repo_path \<times> u64 \<times> bytes \<times> u64 \<times> bytes" where
  "restore_key f = (rf_ordinal f, rf_path f, rf_pre_size f, rf_pre_sha256 f,
     rf_result_size f, rf_result_sha256 f)"

definition fully_restored :: "journal \<Rightarrow> undo_operation \<Rightarrow> bool" where
  "fully_restored s u \<longleftrightarrow>
     map undo_key (op_files_of s (uo_operation_id u)) =
       map restore_key (set_files_of s (uo_restore_set_id u)) \<and>
     op_files_of s (uo_operation_id u) \<noteq> [] \<and>
     (\<forall>f \<in> set (op_files_of s (uo_operation_id u)).
        uf_state f = UfVerified \<and> uf_verification_outcome f = VoVerified)"

definition files_inv :: "journal \<Rightarrow> bool" where
  "files_inv s \<longleftrightarrow> (\<forall>u \<in> set (operations s). uo_state u = UoCompleted \<longrightarrow> fully_restored s u)"

lemma fully_restored_frame:
  assumes "filter (\<lambda>f. uf_operation_id f = uo_operation_id u) (jn_op_files s') =
      filter (\<lambda>f. uf_operation_id f = uo_operation_id u) (jn_op_files s)"
    and "filter (\<lambda>f. rf_restore_set_id f = uo_restore_set_id u) (jn_set_files s') =
      filter (\<lambda>f. rf_restore_set_id f = uo_restore_set_id u) (jn_set_files s)"
  shows "fully_restored s' u = fully_restored s u"
  using assms by (simp add: fully_restored_def op_files_of_def set_files_of_def)

lemma bound_files_keys:
  "bound_files u r keys (zip files rfiles) s = Inr () \<Longrightarrow> length files = length rfiles \<Longrightarrow>
     map undo_key files = map restore_key rfiles"
proof (induction files rfiles arbitrary: keys rule: list_induct2')
  case (4 f fs g gs)
  then show ?case
    by (auto simp: deny_def and_then_Inr_iff undo_key_def restore_key_def split: if_splits)
qed auto

lemma insert_set_files:
  "insert_all (insert_turn_restore_file e) files s = Inr s' \<Longrightarrow>
     s' = s\<lparr>jn_set_files := jn_set_files s @ files\<rparr>"
proof (induction files arbitrary: s)
  case (Cons f fs)
  then obtain s1 where s1: "s1 = s\<lparr>jn_set_files := jn_set_files s @ [f]\<rparr>"
    and "insert_all (insert_turn_restore_file e) fs s1 = Inr s'"
    by (auto simp: and_then_Inr_iff dest!: set_file_frame)
  from Cons.IH [OF this(2)] s1 show ?case by simp
qed simp

lemma insert_op_files:
  "insert_all (insert_undo_operation_file e) files s = Inr s' \<Longrightarrow>
     s' = s\<lparr>jn_op_files := jn_op_files s @ files\<rparr>"
proof (induction files arbitrary: s)
  case (Cons f fs)
  then obtain s1 where s1: "s1 = s\<lparr>jn_op_files := jn_op_files s @ [f]\<rparr>"
    and "insert_all (insert_undo_operation_file e) fs s1 = Inr s'"
    by (auto simp: and_then_Inr_iff dest!: op_file_frame)
  from Cons.IH [OF this(2)] s1 show ?case by simp
qed simp

text \<open>Calls that leave the files alone and complete no operation.\<close>

lemma files_inv_frame:
  assumes "files_inv s" and "jn_op_files s' = jn_op_files s" and "jn_set_files s' = jn_set_files s"
    and "\<forall>u \<in> set (operations s'). uo_state u = UoCompleted \<longrightarrow> u \<in> set (operations s)"
  shows "files_inv s'"
  using assms fully_restored_frame [of _ s' s] by (auto simp: files_inv_def)

definition same_but_sets :: "journal \<Rightarrow> journal \<Rightarrow> bool" where
  "same_but_sets s s' \<longleftrightarrow> jn_op_files s' = jn_op_files s \<and> jn_set_files s' = jn_set_files s \<and>
     jn_operations s' = jn_operations s"

lemma same_but_sets_trans: "same_but_sets s t \<Longrightarrow> same_but_sets t u \<Longrightarrow> same_but_sets s u"
  by (simp add: same_but_sets_def)

lemma insert_set_frame: "insert_set e r s = Inr s' \<Longrightarrow> same_but_sets s s'"
  by (auto simp: insert_set_def same_but_sets_def split: if_splits)

lemma update_set_row_frame: "update_set_row e sid a f message s = Inr s' \<Longrightarrow> same_but_sets s s'"
  by (auto simp: update_set_row_def Let_def deny_def same_but_sets_def split: if_splits)

lemma recover_sets_frame: "recover_sets e t sids s = Inr s' \<Longrightarrow> same_but_sets s s'"
proof (induction sids arbitrary: s)
  case (Cons sid sids)
  from Cons.prems obtain s1 where "recover_sets e t sids s1 = Inr s'" and "same_but_sets s s1"
    by (auto simp: and_then_Inr_iff deny_def split: if_splits dest!: update_set_row_frame)
  with Cons.IH show ?case using same_but_sets_trans by blast
qed (simp add: same_but_sets_def)

lemma retire_frame:
  assumes "retire_eligible e sid f blocked lost s = Inr (b, s')"
  shows "same_but_sets s s'"
proof -
  from assms consider "s' = s" | "update_set_row e sid RsEligible f lost s = Inr s'"
    by (auto simp: retire_eligible_def deny_def and_then_Inr_iff split: if_splits option.splits)
  then show ?thesis by cases (auto simp: same_but_sets_def dest: update_set_row_frame)
qed

lemma same_but_sets_files_inv: "same_but_sets s s' \<Longrightarrow> files_inv s \<Longrightarrow> files_inv s'"
  by (rule files_inv_frame) (auto simp: same_but_sets_def operations_def)

lemma completed_set_consumed:
  assumes "tables_ok s" and "spec_inv (view s)" and "u \<in> set (operations s)" and "uo_state u = UoCompleted"
  shows "fst (view s) (uo_restore_set_id u) = Some RsConsumed"
  using spec_inv_own [OF assms(2) operation_view [OF assms(1,3)]] assms(4) by blast

lemma finalize_files_inv:
  assumes ok: "tables_ok s" and inv: "spec_inv (view s)" and files: "files_inv s"
    and run: "finalize_turn_restore_set e r fs s = Inr (b, s')"
  shows "files_inv s'"
  using run
proof (cases rule: finalize_ok)
  case 1
  then show ?thesis using files by simp
next
  case (2 s1 p pfiles)
  have s': "jn_op_files s' = jn_op_files s1" "jn_set_files s' = jn_set_files s1"
    "jn_operations s' = jn_operations s1"
    using update_set_row_frame [OF 2(10)] by (simp_all add: same_but_sets_def)
  have s1: "s1 = s\<lparr>jn_set_files := jn_set_files s @ fs\<rparr>" by (rule insert_set_files [OF 2(9)])
  have own: "\<forall>f \<in> set fs. rf_restore_set_id f = rs_restore_set_id r"
    using 2(4,5) unfolding validate_restore_set_manifest_def
    by (cases "rs_state r = RsEligible") (auto simp: and_then_Inr_iff list_ex_iff split: if_splits)
  have "fst (view s) (rs_restore_set_id r) = Some RsCollecting"
    using load_set_SomeD [OF 2(2)] 2(8) by (auto simp: view_def finalize_mismatch_def)
  then have apart: "uo_restore_set_id u \<noteq> rs_restore_set_id r"
    if "u \<in> set (operations s)" "uo_state u = UoCompleted" for u
    using completed_set_consumed [OF ok inv that] by auto
  have "fully_restored s' u" if "u \<in> set (operations s')" "uo_state u = UoCompleted" for u
  proof -
    have u: "u \<in> set (operations s)" using that(1) by (simp add: s' s1 operations_def)
    have "fully_restored s' u = fully_restored s u"
      using own apart [OF u that(2)] by (intro fully_restored_frame) (auto simp: s' s1 filter_empty_conv)
    then show ?thesis using files u that(2) by (simp add: files_inv_def)
  qed
  then show ?thesis by (simp add: files_inv_def)
qed

lemma check_new_files_own:
  "check_new_files u i files = Inr () \<Longrightarrow> \<forall>f \<in> set files. uf_operation_id f = uo_operation_id u"
proof (induction files arbitrary: i)
  case (Cons f fs)
  then have "uf_operation_id f = uo_operation_id u" and "check_new_files u (i + 1) fs = Inr ()"
    by (auto simp: and_then_Inr_iff deny_def split: if_splits)
  with Cons.IH show ?case by simp
qed simp

lemma create_operation_files_inv:
  assumes files: "files_inv s" and run: "create_undo_operation e u fs s = Inr s'"
  shows "files_inv s'"
  using run
proof (cases rule: create_operation_ok)
  case (1 r rfiles s1)
  note ins = insert_operation_ok [OF 1(9)]
  have s': "s' = s1\<lparr>jn_op_files := jn_op_files s1 @ fs\<rparr>" by (rule insert_op_files [OF 1(10)])
  have "fully_restored s' v" if "v \<in> set (operations s')" "uo_state v = UoCompleted" for v
  proof -
    have v: "v \<in> set (operations s)"
      using that 1(2) by (auto simp: s' operations_def [of "s1\<lparr>jn_op_files := _\<rparr>"]
          operations_def [symmetric] ins(2))
    then have "uo_operation_id v \<noteq> uo_operation_id u" using ins(5) by (metis imageI)
    then have "fully_restored s' v = fully_restored s v"
      using check_new_files_own [OF 1(4)]
      by (intro fully_restored_frame) (auto simp: s' ins(3,4) filter_empty_conv)
    then show ?thesis using files v that(2) by (simp add: files_inv_def)
  qed
  then show ?thesis by (simp add: files_inv_def)
qed

lemma terminal_inactive:
  "tables_ok s \<Longrightarrow> v \<in> set (operations s) \<Longrightarrow> terminal_state (uo_state v) = (\<not> uo_active v)"
  by (simp add: tables_ok_def)

lemma moved_file_ids [simp]:
  "uf_operation_id (moved_file n f) = uf_operation_id f" "uf_ordinal (moved_file n f) = uf_ordinal f"
  "uf_path (moved_file n f) = uf_path f" "uf_restore_set_id (moved_file n f) = uf_restore_set_id f"
  by (simp_all add: moved_file_def)

lemma transition_file_files_inv:
  assumes ok: "tables_ok s" and files: "files_inv s"
    and run: "transition_undo_operation_file e expected n s = Inr (b, s')"
  shows "files_inv s'"
  using run
proof (cases rule: transition_file_ok)
  case 1
  then show ?thesis using files by simp
next
  case (2 u fs r rfiles c)
  note s' = write_file_ok [OF 2(12)]
  have u: "u \<in> set (operations s)" "uo_operation_id u = uf_operation_id n"
    using load_operation_SomeD [OF 2(3)] by (auto dest: lookup_by_SomeD)
  have "fully_restored s' v" if "v \<in> set (operations s')" "uo_state v = UoCompleted" for v
  proof -
    have v: "v \<in> set (operations s)" using that(1) by (simp add: s' operations_def)
    have "\<not> uo_active v" using terminal_inactive [OF ok v] that(2) by simp
    with same_operation [OF ok u(1) v] 2(4) u(2) have other: "uo_operation_id v \<noteq> uf_operation_id n"
      by metis
    then have "filter (\<lambda>f. uf_operation_id f = uo_operation_id v) (jn_op_files s') =
        filter (\<lambda>f. uf_operation_id f = uo_operation_id v) (jn_op_files s)"
      unfolding s' by (simp, intro filter_update_where) (simp_all add: file_hit_def)
    then have "fully_restored s' v = fully_restored s v"
      by (intro fully_restored_frame) (simp_all add: s')
    then show ?thesis using files v that(2) by (simp add: files_inv_def)
  qed
  then show ?thesis by (simp add: files_inv_def)
qed

lemma discard_set_files_inv:
  assumes ok: "tables_ok s" and files: "files_inv s" and run: "discard_set sid s = Inr s'"
  shows "files_inv s'"
proof -
  note d = discard_set_ok [OF run]
  from d(2) obtain gone where ops: "operations s' = filter (\<lambda>u. uo_operation_id u \<notin> gone) (operations s)"
    and op_files: "jn_op_files s' = filter (\<lambda>f. uf_operation_id f \<notin> gone) (jn_op_files s)" by blast
  have "fully_restored s' v" if "v \<in> set (operations s')" "uo_state v = UoCompleted" for v
  proof -
    have v: "v \<in> set (operations s)" "uo_operation_id v \<notin> gone" "uo_restore_set_id v \<noteq> sid"
      using that(1) ops d(3) by auto
    have "fully_restored s' v = fully_restored s v"
      using v(2,3) by (intro fully_restored_frame)
        (simp_all add: op_files d(4) filter_filter conj_commute, (rule filter_cong; auto)+)
    then show ?thesis using files v(1) that(2) by (simp add: files_inv_def)
  qed
  then show ?thesis by (simp add: files_inv_def)
qed

lemma discard_files_inv:
  assumes "tables_ok s" and "files_inv s" and "discard_restore_sets sids s = Inr s'"
  shows "files_inv s'"
proof -
  from assms(3) have "insert_all discard_set sids s = Inr s'"
    by (auto simp: discard_restore_sets_def and_then_Inr_iff)
  with assms(1,2) show ?thesis
  proof (induction sids arbitrary: s)
    case (Cons sid sids)
    then obtain t where t: "discard_set sid s = Inr t" "insert_all discard_set sids t = Inr s'"
      by (auto simp: and_then_Inr_iff)
    have "tables_ok t" using discard_set_refines [OF Cons.prems(1) t(1)] by (simp add: refines_def)
    with Cons.IH [OF _ discard_set_files_inv [OF Cons.prems(1,2) t(1)] t(2)] show ?case by blast
  qed simp
qed

lemma files_ready_completed:
  "files_ready UoCompleted fs = Inr () \<Longrightarrow>
     \<forall>f \<in> set fs. uf_state f = UfVerified \<and> uf_verification_outcome f = VoVerified"
  by (auto simp: files_ready_def deny_def list_ex_iff split: if_splits)

lemma transition_operation_files_inv:
  assumes ok: "tables_ok s" and files: "files_inv s"
    and run: "transition_undo_operation e oid expected st reason details t s = Inr (b, s')"
  shows "files_inv s'"
  using run
proof (cases rule: transition_operation_ok)
  case (1 u fs)
  then show ?thesis using files by simp
next
  case (2 u fs)
  from 2(2) obtain r rfiles where lu: "load_undo_operation e oid s = Inr (Some (u, fs))"
    and lr: "load_turn_restore_set e (uo_restore_set_id u) s = Inr (Some (r, rfiles))"
    and bind: "validate_operation_manifest_binding e u fs r rfiles s = Inr ()"
    by (rule load_bound_ok)
  have u: "u \<in> set (operations s)" "uo_operation_id u = oid" "fs = op_files_of s oid"
    using load_operation_SomeD [OF lu] by (auto dest: lookup_by_SomeD)
  from 2(6) obtain s1 where ready: "files_ready st fs = Inr ()"
    and up: "update_operation_row e (uo_operation_id u) expected (moved_operation st reason details t) s = Inr s1"
    and last: "if st = UoCompleted
      then update_set_row e (uo_restore_set_id u) RsEligible (consumed_set t)
        ''completed operation could not atomically consume restoration set'' s1 = Inr s'
      else s' = s1"
    by (rule write_transition_ok)
  note eff = update_operation_row_ok [OF up]
  have same: "jn_op_files s' = jn_op_files s" "jn_set_files s' = jn_set_files s"
    "operations s' = update_where (op_hit oid expected) (moved_operation st reason details t) (operations s)"
    using last eff u(2) update_set_row_frame
    by (auto simp: same_but_sets_def operations_def split: if_splits)
  have "fully_restored s' v" if "v \<in> set (operations s')" "uo_state v = UoCompleted" for v
  proof -
    have frame: "fully_restored s' v = fully_restored s v"
      by (rule fully_restored_frame) (simp_all add: same)
    from that(1) same(3) consider "v \<in> set (operations s)"
      | w where "w \<in> set (operations s)" "op_hit oid expected w" "v = moved_operation st reason details t w"
      by (auto simp: update_where_def)
    then show ?thesis
    proof cases
      case 1
      then show ?thesis using frame files that(2) by (simp add: files_inv_def)
    next
      case (2 w)
      then have "w = u" using same_operation [OF ok 2(1) u(1)] u(2) by (simp add: op_hit_def)
      with 2 that(2) ready have "\<forall>f \<in> set fs. uf_state f = UfVerified \<and> uf_verification_outcome f = VoVerified"
        using files_ready_completed by simp
      moreover have "map undo_key fs = map restore_key rfiles"
        by (rule bound_files_keys [OF binding_facts(6,4) [OF bind]])
      moreover have "rfiles = set_files_of s (uo_restore_set_id u)" using load_set_SomeD [OF lr] by simp
      ultimately show ?thesis
        using frame binding_facts(3) [OF bind] 2(3) \<open>w = u\<close> u(2,3) by (simp add: fully_restored_def)
    qed
  qed
  then show ?thesis by (simp add: files_inv_def)
qed

section \<open>The invariant of the journal\<close>

definition journal_inv :: "journal \<Rightarrow> bool" where
  "journal_inv s \<longleftrightarrow> tables_ok s \<and> spec_inv (view s) \<and> files_inv s"

lemma attempt_files_inv:
  "journal_inv s \<Longrightarrow> attempt e c s = Inr s' \<Longrightarrow> files_inv s'"
proof (cases c)
  case (CaptureSnapshot snapshot owner)
  moreover assume "journal_inv s" and "attempt e c s = Inr s'"
  ultimately show ?thesis
    by (auto simp: journal_inv_def operations_def split: if_splits elim!: files_inv_frame)
next
  case (FinishCleanup oid)
  moreover assume "journal_inv s" and "attempt e c s = Inr s'"
  ultimately show ?thesis
    by (auto simp: journal_inv_def operations_def finish_undo_operation_cleanup_def Let_def
        update_where_def elim!: files_inv_frame)
next
  case (CreateSet r)
  moreover assume "journal_inv s" and "attempt e c s = Inr s'"
  ultimately show ?thesis
    by (auto simp: journal_inv_def create_turn_restore_set_def deny_def and_then_Inr_iff
        split: if_splits dest!: insert_set_frame elim: same_but_sets_files_inv)
next
  case (PreflightTerminal r)
  moreover assume "journal_inv s" and "attempt e c s = Inr s'"
  ultimately show ?thesis
    by (auto simp: journal_inv_def record_capture_v2_preflight_terminal_def deny_def and_then_Inr_iff
        split: if_splits dest!: insert_set_frame elim: same_but_sets_files_inv)
next
  case (RecoverInterrupted t)
  moreover assume "journal_inv s" and "attempt e c s = Inr s'"
  ultimately show ?thesis
    by (auto simp: journal_inv_def recover_interrupted_restore_sets_def Let_def and_then_Inr_iff
        dest!: map_sum_snd_Inr recover_sets_frame elim: same_but_sets_files_inv)
next
  case (ExpireSet sid t)
  moreover assume "journal_inv s" and "attempt e c s = Inr s'"
  ultimately show ?thesis
    by (auto simp: journal_inv_def expire_eligible_restore_set_def and_then_Inr_iff
        dest!: map_sum_snd_Inr retire_frame elim: same_but_sets_files_inv)
next
  case (FailSet sid reason t)
  moreover assume "journal_inv s" and "attempt e c s = Inr s'"
  ultimately show ?thesis
    by (auto simp: journal_inv_def fail_eligible_restore_set_integrity_def deny_def and_then_Inr_iff
        split: if_splits dest!: map_sum_snd_Inr retire_frame elim: same_but_sets_files_inv)
qed (auto simp: journal_inv_def dest!: map_sum_snd_Inr intro: finalize_files_inv
    create_operation_files_inv transition_file_files_inv transition_operation_files_inv discard_files_inv)

lemma run_calls_inv: "journal_inv s \<Longrightarrow> journal_inv (run_calls e cs s)"
proof (induction cs arbitrary: s)
  case (Cons c cs)
  have "journal_inv (commit e c s)"
  proof (cases "attempt e c s")
    case (Inr s')
    then have "refines s s'" using attempt_refines Cons.prems by (auto simp: journal_inv_def)
    then have "tables_ok s'" and "spec_inv (view s')"
      using spec_inv_steps [of "view s" "view s'"] Cons.prems
      by (simp_all add: journal_inv_def refines_def)
    then show ?thesis
      using Inr attempt_files_inv [OF Cons.prems Inr] by (simp add: commit_def journal_inv_def)
  qed (simp add: commit_def Cons.prems)
  then show ?case using Cons.IH by (simp add: run_calls_def)
qed (simp add: run_calls_def)

lemma journal_inv_empty: "journal_inv empty_journal"
  using run_from_empty(1,3) [of _ "[]"]
  by (simp add: journal_inv_def run_calls_def files_inv_def empty_journal_def operations_def)

section \<open>A run on one file\<close>

definition sample_env :: db_env where
  "sample_env = \<lparr>de_sha256 = (\<lambda>_. replicate 32 0), de_git_json = (\<lambda>_. 1),
     de_metadata_json = (\<lambda>_. 1), de_prepared_json = (\<lambda>_. 1), de_recovery_json = (\<lambda>_. 1)\<rparr>"

definition sample_git :: git_identity where
  "sample_git = \<lparr>gi_schema_version = 2, gi_worktree_identity = [1], gi_git_dir_identity = [2],
     gi_common_dir_identity = [3], gi_head_oid = replicate 20 0,
     gi_checkout_ref = Symbolic (lit ''refs/heads/main''),
     gi_index = \<lparr>ix_sha256 = replicate 32 0, ix_size = 9, ix_stat_identity = [4]\<rparr>\<rparr>"

definition sample_root :: physical_root_id where
  "sample_root = PhysicalRootId [1, 1, 7]"

definition collecting_set :: restore_set where
  "collecting_set =
     sample_set\<lparr>rs_artifact_bytes := 0, rs_file_count := 0, rs_manifest_digest := None\<rparr>"

definition eligible_set :: restore_set where
  "eligible_set =
     collecting_set\<lparr>rs_root_id := Some sample_root, rs_state := RsEligible,
       rs_git_identity := Some sample_git, rs_artifact_bytes := 3, rs_file_count := 1,
       rs_manifest_digest := Some (replicate 32 0), rs_completed_at := Some (lit ''t1''),
       rs_expires_at := Some (lit ''t9'')\<rparr>"

definition set_in :: "undo_operation_state \<Rightarrow> restore_set" where
  "set_in st = (if st = UoCompleted then consumed_set (lit ''t2'') eligible_set else eligible_set)"

definition sample_identity :: prepared_identity where
  "sample_identity =
     \<lparr>pi_schema_version = 2, pi_root_id = sample_root, pi_git = sample_git,
      pi_manifest_digest = replicate 32 0, pi_coordinator_generation = 0,
      pi_git_dir_generation = 0, pi_common_dir_generation = 0\<rparr>"

definition operation_in :: "undo_operation_state \<Rightarrow> undo_operation" where
  "operation_in st =
     \<lparr>uo_operation_id = lit ''op'', uo_restore_set_id = lit ''set'', uo_journal_version = 1,
      uo_state = st, uo_active = (\<not> terminal_state st), uo_preview_token_digest = Some (replicate 32 5),
      uo_prepared_identity = sample_identity,
      uo_reason_code = None, uo_recovery_details = None, uo_created_at = lit ''t2'',
      uo_updated_at = lit ''t2'',
      uo_completed_at = (if terminal_state st then Some (lit ''t2'') else None)\<rparr>"

definition file_in :: "undo_file_state \<Rightarrow> undo_file" where
  "file_in st =
     (let displaced = (st = UfApplied \<or> st = UfVerified)
      in \<lparr>uf_operation_id = lit ''op'', uf_restore_set_id = lit ''set'', uf_ordinal = 0,
          uf_path = OpaqueRepoPath [1, 1, 97], uf_exchange_artifact_key = replicate 16 8,
          uf_expected_result_size = 4, uf_expected_result_sha256 = replicate 32 9,
          uf_expected_metadata = sample_metadata, uf_pre_size = 3, uf_pre_sha256 = replicate 32 97,
          uf_staged_metadata = (if st = UfPlanned then None else Some sample_metadata),
          uf_displaced_size = (if displaced then Some 4 else None),
          uf_displaced_sha256 = (if displaced then Some (replicate 32 9) else None),
          uf_displaced_metadata = (if displaced then Some sample_metadata else None),
          uf_state = st, uf_verification_outcome = (if st = UfVerified then VoVerified else VoPending),
          uf_recovery_details = None, uf_updated_at = lit ''t2'', uf_chained_from_operation_id = None\<rparr>)"

definition journal_at :: "undo_operation_state \<Rightarrow> undo_file_state \<Rightarrow> journal" where
  "journal_at st fst_state =
     \<lparr>jn_change_sets = [lit ''snap'' \<mapsto> (lit ''s1'', lit ''t1'', lit ''w1'')],
      jn_sets = [set_in st], jn_set_files = [sample_file 0 97],
      jn_operations = [\<lparr>ow_operation = operation_in st, ow_cleanup_pending = True\<rparr>],
      jn_op_files = [file_in fst_state]\<rparr>"

definition move_to :: "undo_operation_state \<Rightarrow> undo_operation_state \<Rightarrow> journal_call" where
  "move_to a b = TransitionOperation (lit ''op'') a b None None (lit ''t2'')"

definition prepare_calls :: "journal_call list" where
  "prepare_calls =
     [CaptureSnapshot (lit ''snap'') (lit ''s1'', lit ''t1'', lit ''w1''),
      CreateSet collecting_set, FinalizeSet eligible_set [sample_file 0 97],
      CreateOperation (operation_in UoPreparing) [file_in UfPlanned]]"

definition undo_calls :: "journal_call list" where
  "undo_calls =
     [TransitionFile UfPlanned (file_in UfStaged), move_to UoPreparing UoPrepared,
      move_to UoPrepared UoApplying, TransitionFile UfStaged (file_in UfApplied),
      move_to UoApplying UoVerifying, TransitionFile UfApplied (file_in UfVerified),
      move_to UoVerifying UoCompleted]"

lemma sample_env_simps [simp]:
  "de_sha256 sample_env = (\<lambda>_. replicate 32 0)" "de_git_json sample_env g = 1"
  "de_metadata_json sample_env m = 1" "de_prepared_json sample_env p = 1"
  "de_recovery_json sample_env d = 1"
  by (simp_all add: sample_env_def)

lemma guarded_simps [simp]: "guarded (Inr x) = Inr x" "guarded (Inl err) = Inl (JeSchema err)"
  by (simp_all add: guarded_def)

lemmas limit_defs = RESTORE_CAPTURE_VERSION_def GIT_IDENTITY_SCHEMA_VERSION_def
  PREPARED_IDENTITY_SCHEMA_VERSION_def UNDO_JOURNAL_SCHEMA_VERSION_def MAX_RESTORE_FILES_def
  MAX_PREIMAGE_BYTES_PER_SET_def MAX_PREIMAGE_BYTES_PER_FILE_def MAX_INDEX_BYTES_def
  MAX_IDENTITY_BYTES_def

lemma sample_texts:
  "\<not> blank (lit ''set'')" "\<not> blank (lit ''snap'')" "\<not> blank (lit ''s1'')" "\<not> blank (lit ''t1'')"
  "\<not> blank (lit ''w1'')" "\<not> blank (lit ''op'')" "\<not> blank (lit ''refs/heads/main'')"
  by (simp_all add: blank_iff is_whitespace_def lit_def)

lemma sample_metadata_ok: "metadata_validate sample_metadata = Inr ()"
  using restore_file_validate_facts(4) [OF sample_file_ok [of 1 0]] by (simp add: sample_file_def)

lemma sample_branch:
  "byte_len (lit ''refs/heads/main'') = 15" "0 \<notin> set (lit ''refs/heads/main'')" "on_a_branch sample_git"
  by (simp_all add: lit_def utf8_len_def on_a_branch_def sample_git_def starts_with_def)

lemma sample_git_ok: "git_validate sample_git = Inr ()" "root_validate sample_root = Inr ()"
  by (simp_all add: git_validate_def sample_git_def require_schema_def require_bounded_bytes_def
      checkout_validate_def require_bounded_text_def require_text_def sample_texts limit_defs
      sample_root_def root_validate_def sample_branch)

lemma sample_sets_ok:
  "restore_set_validate collecting_set = Inr ()" "restore_set_validate eligible_set = Inr ()"
  "restore_set_validate (consumed_set (lit ''t2'') eligible_set) = Inr ()"
  using sample_git_ok
  by (simp_all add: restore_set_validate_def collecting_set_def eligible_set_def consumed_set_def
      sample_set_def require_text_def sample_texts require_known_state_def limit_defs
      set_fields_consistent_def sample_branch)

lemma sample_manifest:
  assumes "r = eligible_set \<or> r = consumed_set (lit ''t2'') eligible_set"
  shows "validate_restore_set_manifest (de_sha256 sample_env) r [sample_file 0 97] = Inr ()"
proof -
  have acc: "account_restore_files [sample_file 0 97] = Inr \<lparr>ra_file_count = 1, ra_artifact_bytes = 3\<rparr>"
    by (simp add: account_restore_files_def sample_file_ok checked_add_def limit_defs,
        simp add: sample_file_def)
  have "file_canonical (sample_file 0 97) = file_canonical (sample_file 0 97) \<and>
      (\<exists>bs. file_canonical (sample_file 0 97) = Inr bs)"
    using sample_metadata_ok by (simp add: file_canonical_def write_canonical_def sample_file_def)
  moreover have "check_ordered 0 None [] [sample_file 0 97] = Inr ()" by (simp add: sample_file_def)
  ultimately obtain bs where "canonical_manifest_bytes [sample_file 0 97] = Inr bs"
    by (auto simp: canonical_manifest_bytes_def acc)
  then have "canonical_restore_manifest_digest (de_sha256 sample_env) [sample_file 0 97] = Inr (replicate 32 0)"
    by (simp add: canonical_restore_manifest_digest_def)
  moreover have "restore_set_validate r = Inr ()" using assms sample_sets_ok by auto
  moreover have "rs_file_count r = 1" "rs_artifact_bytes r = 3" "rs_restore_set_id r = lit ''set''"
    "rs_manifest_digest r = Some (replicate 32 0)"
    using assms by (auto simp: eligible_set_def consumed_set_def collecting_set_def sample_set_def)
  moreover have "rf_restore_set_id (sample_file 0 97) = lit ''set''" by (simp add: sample_file_def)
  ultimately show ?thesis unfolding validate_restore_set_manifest_def by (simp add: acc)
qed

lemma sample_load_set:
  assumes "jn_sets s = [r]" and "jn_set_files s = [sample_file 0 97]"
    and "r = eligible_set \<or> r = consumed_set (lit ''t2'') eligible_set"
  shows "load_turn_restore_set sample_env (lit ''set'') s = Inr (Some (r, [sample_file 0 97]))"
proof -
  have r: "rs_restore_set_id r = lit ''set''" "rs_root_id r = Some sample_root"
    "rs_git_identity r = Some sample_git" "rs_file_count r = 1" "restore_set_validate r = Inr ()"
    using assms(3) sample_sets_ok
    by (auto simp: eligible_set_def consumed_set_def collecting_set_def sample_set_def)
  have f: "rf_restore_set_id (sample_file 0 97) = lit ''set''"
    "rf_metadata (sample_file 0 97) = sample_metadata" "rf_path (sample_file 0 97) = OpaqueRepoPath [1, 1, 97]"
    by (simp_all add: sample_file_def)
  show ?thesis
    using sample_manifest [OF assms(3)] r f sample_git_ok sample_metadata_ok sample_file_ok [of 97 0]
    unfolding load_turn_restore_set_def
    by (simp add: assms(1,2) lookup_by_def set_files_of_def opt_ok_def limit_defs Let_def
        sample_root_def)
qed

text \<open>The states the run passes through.\<close>

definition on_the_way :: "undo_operation_state \<Rightarrow> bool" where
  "on_the_way st \<longleftrightarrow> st \<in> {UoPreparing, UoPrepared, UoApplying, UoVerifying, UoCompleted}"

definition file_on_the_way :: "undo_file_state \<Rightarrow> bool" where
  "file_on_the_way st \<longleftrightarrow> st \<in> {UfPlanned, UfStaged, UfApplied, UfVerified}"

lemma operation_in_simps [simp]:
  "uo_operation_id (operation_in st) = lit ''op''" "uo_restore_set_id (operation_in st) = lit ''set''"
  "uo_state (operation_in st) = st" "uo_active (operation_in st) \<longleftrightarrow> \<not> terminal_state st"
  "uo_journal_version (operation_in st) = 1" "uo_recovery_details (operation_in st) = None"
  "uo_reason_code (operation_in st) = None"
  "uo_preview_token_digest (operation_in st) = Some (replicate 32 5)"
  "uo_prepared_identity (operation_in st) = sample_identity"
  by (simp_all add: operation_in_def)

lemma file_in_simps [simp]:
  "uf_operation_id (file_in st) = lit ''op''" "uf_restore_set_id (file_in st) = lit ''set''"
  "uf_ordinal (file_in st) = 0" "uf_path (file_in st) = OpaqueRepoPath [1, 1, 97]"
  "uf_state (file_in st) = st" "uf_chained_from_operation_id (file_in st) = None"
  "uf_expected_metadata (file_in st) = sample_metadata" "uf_recovery_details (file_in st) = None"
  by (simp_all add: file_in_def Let_def)

lemma sample_prepared:
  "prepared_validate sample_identity = Inr ()"
  "pi_root_id sample_identity = sample_root"
  "pi_git sample_identity = sample_git"
  "pi_manifest_digest sample_identity = replicate 32 0"
  using sample_git_ok
  by (simp_all add: sample_identity_def prepared_validate_def require_schema_def limit_defs)

lemma operation_in_ok: "on_the_way st \<Longrightarrow> undo_operation_validate (operation_in st) = Inr ()"
  using sample_prepared(1)
  by (auto simp: undo_operation_validate_def require_schema_def require_text_def sample_texts
      limit_defs operation_fields_consistent_def on_the_way_def Let_def)
     (simp_all add: operation_in_def)

lemma sample_path_ok: "path_validate (OpaqueRepoPath [1, 1, 97]) = Inr ()"
  using restore_file_validate_facts(1) [OF sample_file_ok [of 97 0]] by (simp add: sample_file_def)

lemma file_in_ok: "file_on_the_way st \<Longrightarrow> undo_file_validate (file_in st) = Inr ()"
  using sample_metadata_ok sample_path_ok
  by (auto simp: undo_file_validate_def require_text_def sample_texts limit_defs
      file_fields_consistent_def file_on_the_way_def)
     (simp_all add: file_in_def)

lemma journal_at_simps [simp]:
  "operations (journal_at st fs) = [operation_in st]" "jn_sets (journal_at st fs) = [set_in st]"
  "jn_set_files (journal_at st fs) = [sample_file 0 97]" "jn_op_files (journal_at st fs) = [file_in fs]"
  "op_files_of (journal_at st fs) (lit ''op'') = [file_in fs]"
  by (simp_all add: journal_at_def operations_def op_files_of_def)

lemma set_in_cases: "set_in st = eligible_set \<or> set_in st = consumed_set (lit ''t2'') eligible_set"
  by (simp add: set_in_def)

lemma sample_load_operation:
  assumes "on_the_way st" and "file_on_the_way fs"
  shows "load_undo_operation sample_env (lit ''op'') (journal_at st fs) =
    Inr (Some (operation_in st, [file_in fs]))"
  using operation_in_ok [OF assms(1)] file_in_ok [OF assms(2)] sample_prepared(1)
  unfolding load_undo_operation_def
  by (simp add: lookup_by_def Let_def opt_ok_def limit_defs split: option.splits)

lemma sample_binding:
  assumes "on_the_way st" and "file_on_the_way fs"
  shows "validate_operation_manifest_binding sample_env (operation_in st) [file_in fs] (set_in st)
    [sample_file 0 97] s = Inr ()"
proof -
  have r: "rs_capture_version (set_in st) = RESTORE_CAPTURE_VERSION" "rs_root_id (set_in st) = Some sample_root"
    "rs_state (set_in st) = RsEligible \<or> rs_state (set_in st) = RsConsumed \<and> st = UoCompleted"
    "rs_git_identity (set_in st) = Some sample_git" "rs_restore_set_id (set_in st) = lit ''set''"
    "rs_manifest_digest (set_in st) = Some (replicate 32 0)"
    by (auto simp: set_in_def eligible_set_def consumed_set_def collecting_set_def sample_set_def limit_defs)
  have "file_state_known fs" "outcome_known (uf_verification_outcome (file_in fs))"
    using assms(2) by (auto simp: file_on_the_way_def file_in_def Let_def)
  moreover have "bound_files (operation_in st) (set_in st) [] [(file_in fs, sample_file 0 97)] s = Inr ()"
    using r(5) by (simp add: expected_result_is_bound_def) (simp add: file_in_def sample_file_def Let_def)
  ultimately show ?thesis
    unfolding validate_operation_manifest_binding_def
    using r sample_prepared(2-4) sample_manifest [OF set_in_cases] by simp
qed

lemma sample_load_bound:
  assumes "on_the_way st" and "file_on_the_way fs"
  shows "load_bound_operation sample_env (lit ''op'') (journal_at st fs) = Inr (operation_in st, [file_in fs])"
  unfolding load_bound_operation_def load_existing_set_def sample_load_operation [OF assms]
  using sample_load_set [OF _ _ set_in_cases, of "journal_at st fs"] sample_binding [OF assms] by simp

lemma sample_columns [simp]:
  "column_text (lit ''prepared'')" "column_text (lit ''applying'')" "column_text (lit ''verifying'')"
  "column_text (lit ''completed'')" "column_text (lit ''preparing'')" "column_text (lit ''collecting'')"
  "column_text (lit ''eligible'')" "column_text (lit ''consumed'')" "column_text (lit ''planned'')"
  "column_text (lit ''staged'')" "column_text (lit ''applied'')" "column_text (lit ''verified'')"
  "column_text (lit ''pending'')" "column_text (lit ''M'')"
  by (simp_all add: column_text_def)

lemma sample_rows_ok:
  "on_the_way st \<Longrightarrow> operation_row_ok sample_env (operation_in st)"
  "file_on_the_way fs \<Longrightarrow> op_file_row_ok sample_env (file_in fs)"
  "set_row_ok sample_env (set_in st)" "set_row_ok sample_env collecting_set"
  "set_file_row_ok sample_env (sample_file 0 97)"
proof -
  show "on_the_way st \<Longrightarrow> operation_row_ok sample_env (operation_in st)"
    by (auto simp: on_the_way_def operation_row_ok_def opt_ok_def json_within_def)
  show "file_on_the_way fs \<Longrightarrow> op_file_row_ok sample_env (file_in fs)"
    by (auto simp: file_on_the_way_def op_file_row_ok_def opt_ok_def json_within_def path_column_def
        file_in_def)
  show "set_row_ok sample_env (set_in st)" and "set_row_ok sample_env collecting_set"
    by (simp_all add: set_row_ok_def set_in_def consumed_set_def eligible_set_def collecting_set_def
        sample_set_def opt_ok_def json_within_def sample_root_def)
  show "set_file_row_ok sample_env (sample_file 0 97)"
    by (simp add: set_file_row_ok_def sample_file_def path_column_def json_within_def)
qed

lemma move_operation_in:
  "on_the_way st \<Longrightarrow> on_the_way nst \<Longrightarrow> \<not> terminal_state st \<Longrightarrow>
     moved_operation nst None None (lit ''t2'') (operation_in st) = operation_in nst"
  "on_the_way nst \<Longrightarrow> desired_operation nst None None (lit ''t2'') (operation_in st) = operation_in nst"
  by (simp_all add: moved_operation_def desired_operation_def operation_in_def)

lemma move_file_in: "moved_file (file_in nst) (file_in st) = file_in nst"
  by (simp add: moved_file_def file_in_def Let_def)

lemma eligible_set_simps [simp]:
  "rs_restore_set_id eligible_set = lit ''set''" "rs_state eligible_set = RsEligible"
  by (simp_all add: eligible_set_def collecting_set_def sample_set_def)

lemma sample_move:
  assumes "on_the_way st" and "on_the_way nst" and "st \<noteq> nst" and "operation_can_transition st nst"
    and "file_on_the_way fs" and "files_ready nst [file_in fs] = Inr ()"
  shows "attempt sample_env (move_to st nst) (journal_at st fs) = Inr (journal_at nst fs)"
proof -
  have nt: "\<not> terminal_state st" using terminal_stays assms(3,4) by blast
  then have running: "set_in st = eligible_set" "st \<noteq> UoCompleted" by (auto simp: set_in_def)
  have up: "update_operation_row sample_env (lit ''op'') st (moved_operation nst None None (lit ''t2''))
      (journal_at st fs) =
    Inr (journal_at st fs\<lparr>jn_operations := [\<lparr>ow_operation = operation_in nst, ow_cleanup_pending = True\<rparr>]\<rparr>)"
    using sample_rows_ok(1) [OF assms(2)] move_operation_in(1) [OF assms(1,2) nt]
    by (simp add: update_operation_row_def journal_at_def operation_id_def changed_rows_def update_where_def)
  have consume: "update_set_row sample_env (lit ''set'') RsEligible (consumed_set (lit ''t2''))
        ''completed operation could not atomically consume restoration set''
        (journal_at st fs\<lparr>jn_operations := ws\<rparr>) =
      Inr (journal_at st fs\<lparr>jn_operations := ws, jn_sets := [set_in UoCompleted]\<rparr>)" for ws
    using sample_rows_ok(3) [of UoCompleted] running
    by (simp add: update_set_row_def changed_rows_def update_where_def set_in_def)
  have known: "operation_state_known st" "operation_state_known nst"
    using assms(1,2) by (auto simp: on_the_way_def)
  have "write_operation_transition sample_env (operation_in st) [file_in fs] st nst None None (lit ''t2'')
      (journal_at st fs) = Inr (journal_at nst fs)"
    using operation_in_ok [OF assms(2)] move_operation_in(2) [OF assms(2)] assms(6) up consume running
    by (cases "nst = UoCompleted")
      (simp_all add: write_operation_transition_def, simp_all add: journal_at_def set_in_def)
  then show ?thesis
    using known assms(3,4) sample_load_bound [OF assms(1,5)]
    by (simp add: move_to_def transition_undo_operation_def opt_ok_def lookup_by_def limit_defs)
qed

lemma sample_file_move:
  assumes "on_the_way st" and "\<not> terminal_state st" and "file_on_the_way fs" and "file_on_the_way nfs"
    and "fs \<noteq> nfs" and "file_can_transition fs nfs" and "fs = UfPlanned \<longrightarrow> nfs = UfStaged"
  shows "attempt sample_env (TransitionFile fs (file_in nfs)) (journal_at st fs) = Inr (journal_at st nfs)"
proof -
  have "opt_ok sqlite_int (uf_displaced_size (file_in nfs))"
    by (simp add: file_in_def Let_def opt_ok_def sqlite_int_def)
  then have written: "write_file_transition sample_env fs (file_in nfs) (journal_at st fs) = Inr (journal_at st nfs)"
    using sample_rows_ok(2) [OF assms(4)]
    by (simp add: write_file_transition_def file_hit_def changed_rows_def update_where_def move_file_in)
       (simp add: journal_at_def)
  have known: "file_state_known fs" "file_state_known nfs"
    using assms(3,4) by (auto simp: file_on_the_way_def)
  have same: "\<not> file_identity_changed (file_in fs) (file_in nfs)"
    using assms(3,4,5,6,7)
    by (auto simp: file_identity_changed_def file_on_the_way_def) (simp_all add: file_in_def Let_def)
  show ?thesis
    using written known same assms(2,5,6) file_in_ok [OF assms(4)] sample_load_operation [OF assms(1,3)]
      sample_load_set [OF _ _ set_in_cases, of "journal_at st fs"] sample_binding [OF assms(1,3)]
    by (simp add: transition_undo_operation_file_def load_existing_set_def)
qed

definition journal_with :: "restore_set list \<Rightarrow> restore_file list \<Rightarrow> journal" where
  "journal_with sets files =
     \<lparr>jn_change_sets = [lit ''snap'' \<mapsto> (lit ''s1'', lit ''t1'', lit ''w1'')],
      jn_sets = sets, jn_set_files = files, jn_operations = [], jn_op_files = []\<rparr>"

lemma sample_create_set:
  "attempt sample_env (CreateSet collecting_set) (journal_with [] []) =
     Inr (journal_with [collecting_set] [])"
  using sample_sets_ok(1) sample_rows_ok(4)
  by (simp add: create_turn_restore_set_def zero_files_def attributed_def insert_set_def journal_with_def)
     (simp add: collecting_set_def sample_set_def)

lemma sample_finalize:
  "attempt sample_env (FinalizeSet eligible_set [sample_file 0 97]) (journal_with [collecting_set] []) =
     Inr (journal_with [eligible_set] [sample_file 0 97])"
proof -
  have load: "load_turn_restore_set sample_env (lit ''set'') (journal_with [collecting_set] []) =
      Inr (Some (collecting_set, []))"
    using sample_sets_ok(1)
    by (simp add: load_turn_restore_set_def lookup_by_def set_files_of_def journal_with_def opt_ok_def
        Let_def limit_defs) (simp add: collecting_set_def sample_set_def)
  have same: "\<not> finalize_mismatch collecting_set eligible_set" "rs_state collecting_set = RsCollecting"
    "rs_restore_set_id collecting_set = lit ''set''" "sqlite_int (rs_artifact_bytes eligible_set)"
    by (simp_all add: finalize_mismatch_def eligible_set_def collecting_set_def sample_set_def limit_defs
        sqlite_int_def)
  have insert_file: "insert_turn_restore_file sample_env (sample_file 0 97) (journal_with [collecting_set] []) =
      Inr (journal_with [collecting_set] [sample_file 0 97])"
    using sample_rows_ok(5) sample_file_ok [of 97 0]
    by (simp add: insert_turn_restore_file_def journal_with_def same sqlite_int_def)
       (simp add: sample_file_def)
  have final: "collecting_set\<lparr>rs_state := rs_state eligible_set, rs_reason_code := rs_reason_code eligible_set,
      rs_root_id := rs_root_id eligible_set, rs_git_identity := rs_git_identity eligible_set,
      rs_artifact_bytes := rs_artifact_bytes eligible_set, rs_file_count := rs_file_count eligible_set,
      rs_manifest_digest := rs_manifest_digest eligible_set,
      rs_completed_at := rs_completed_at eligible_set,
      rs_expires_at := rs_expires_at eligible_set\<rparr> = eligible_set"
    by (simp add: eligible_set_def collecting_set_def sample_set_def)
  have "set_row_ok sample_env eligible_set" using sample_rows_ok(3) [of UoPreparing] by (simp add: set_in_def)
  then have updated: "update_set_row sample_env (lit ''set'') RsCollecting
      (\<lambda>q. q\<lparr>rs_state := rs_state eligible_set, rs_reason_code := rs_reason_code eligible_set,
         rs_root_id := rs_root_id eligible_set, rs_git_identity := rs_git_identity eligible_set,
         rs_artifact_bytes := rs_artifact_bytes eligible_set, rs_file_count := rs_file_count eligible_set,
         rs_manifest_digest := rs_manifest_digest eligible_set,
         rs_completed_at := rs_completed_at eligible_set, rs_expires_at := rs_expires_at eligible_set\<rparr>)
      ''restoration lifecycle compare-and-swap lost'' (journal_with [collecting_set] [sample_file 0 97]) =
    Inr (journal_with [eligible_set] [sample_file 0 97])"
    by (simp add: update_set_row_def Let_def changed_rows_def update_where_def journal_with_def same
        final [simplified])
  have fresh_state: "rs_state collecting_set \<noteq> rs_state eligible_set" by (simp add: same)
  show ?thesis
    using sample_sets_ok(2) sample_manifest [of eligible_set]
    by (simp add: finalize_turn_restore_set_def load_existing_set_def load same insert_file
        updated [simplified])
qed

lemma sample_create_operation:
  "attempt sample_env (CreateOperation (operation_in UoPreparing) [file_in UfPlanned])
      (journal_with [eligible_set] [sample_file 0 97]) = Inr (journal_at UoPreparing UfPlanned)"
proof -
  have st: "on_the_way UoPreparing" "file_on_the_way UfPlanned" "set_in UoPreparing = eligible_set"
    by (simp_all add: on_the_way_def file_on_the_way_def set_in_def)
  have set_facts: "rs_root_id eligible_set = Some sample_root" "rs_git_identity eligible_set = Some sample_git"
    "rs_manifest_digest eligible_set = Some (replicate 32 0)"
    by (simp_all add: eligible_set_def)
  have file_facts: "uf_verification_outcome (file_in UfPlanned) = VoPending"
    "uf_displaced_size (file_in UfPlanned) = None" "rf_restore_set_id (sample_file 0 97) = lit ''set''"
    "rf_ordinal (sample_file 0 97) = 0" "sqlite_int (uf_expected_result_size (file_in UfPlanned))"
    "sqlite_int (uf_pre_size (file_in UfPlanned))"
    by (simp_all add: file_in_def sample_file_def sqlite_int_def)
  show ?thesis
    using operation_in_ok [OF st(1)] file_in_ok [OF st(2)] sample_rows_ok(1) [OF st(1)]
      sample_rows_ok(2) [OF st(2)] sample_load_set [of "journal_with [eligible_set] [sample_file 0 97]" eligible_set]
      sample_binding [OF st(1,2), unfolded st(3)] sample_prepared(2-4) set_facts file_facts
    by (simp add: create_undo_operation_def load_existing_set_def insert_operation_def
        insert_undo_operation_file_def journal_with_def operations_def active_on_def opt_ok_def)
       (simp add: journal_at_def st(3))
qed

lemma sample_prepare: "run_calls sample_env prepare_calls empty_journal = journal_at UoPreparing UfPlanned"
proof -
  have "attempt sample_env (CaptureSnapshot (lit ''snap'') (lit ''s1'', lit ''t1'', lit ''w1'')) empty_journal =
      Inr (journal_with [] [])"
    by (simp add: empty_journal_def journal_with_def)
  with sample_create_set sample_finalize sample_create_operation show ?thesis
    by (simp add: run_calls_def prepare_calls_def commit_def del: attempt.simps)
qed

lemma sample_undo:
  "run_calls sample_env (prepare_calls @ undo_calls) empty_journal = journal_at UoCompleted UfVerified"
proof -
  have ready: "files_ready UoPrepared [file_in UfStaged] = Inr ()"
    "files_ready UoApplying [file_in UfStaged] = Inr ()" "files_ready UoVerifying [file_in UfApplied] = Inr ()"
    "files_ready UoCompleted [file_in UfVerified] = Inr ()"
    by (simp_all add: files_ready_def) (simp add: file_in_def)
  note fsteps = sample_file_move [unfolded on_the_way_def file_on_the_way_def]
    and steps = sample_move [unfolded on_the_way_def file_on_the_way_def]
  have "attempt sample_env (TransitionFile UfPlanned (file_in UfStaged)) (journal_at UoPreparing UfPlanned) =
      Inr (journal_at UoPreparing UfStaged)" by (rule fsteps) simp_all
  moreover have "attempt sample_env (move_to UoPreparing UoPrepared) (journal_at UoPreparing UfStaged) =
      Inr (journal_at UoPrepared UfStaged)" by (rule steps) (simp_all add: ready)
  moreover have "attempt sample_env (move_to UoPrepared UoApplying) (journal_at UoPrepared UfStaged) =
      Inr (journal_at UoApplying UfStaged)" by (rule steps) (simp_all add: ready)
  moreover have "attempt sample_env (TransitionFile UfStaged (file_in UfApplied)) (journal_at UoApplying UfStaged) =
      Inr (journal_at UoApplying UfApplied)" by (rule fsteps) simp_all
  moreover have "attempt sample_env (move_to UoApplying UoVerifying) (journal_at UoApplying UfApplied) =
      Inr (journal_at UoVerifying UfApplied)" by (rule steps) (simp_all add: ready)
  moreover have "attempt sample_env (TransitionFile UfApplied (file_in UfVerified)) (journal_at UoVerifying UfApplied) =
      Inr (journal_at UoVerifying UfVerified)" by (rule fsteps) simp_all
  moreover have "attempt sample_env (move_to UoVerifying UoCompleted) (journal_at UoVerifying UfVerified) =
      Inr (journal_at UoCompleted UfVerified)" by (rule steps) (simp_all add: ready)
  ultimately have "run_calls sample_env undo_calls (journal_at UoPreparing UfPlanned) = journal_at UoCompleted UfVerified"
    by (simp add: run_calls_def undo_calls_def commit_def del: attempt.simps)
  then show ?thesis using sample_prepare by (simp add: run_calls_def)
qed

section \<open>The properties of the journal\<close>

text \<open>
  C13: whatever calls have been made on the journal, the next call does to the lifecycle states
  what its kind allows and nothing else. A refused call leaves the journal as it was. A
  successful one moves the rows it names, by a single legal step of \<open>undo_spec\<close>: a set is
  opened or moved along an edge of its state machine, and an eligible set only when no operation
  uses it; an operation is opened on an eligible set that no other operation uses, or moved
  along an edge of its state machine while its set is eligible, and the set is consumed in the
  very step that completes its operation. Only two calls touch several rows: recovery fails
  exactly the sets that were still collecting, and a discard removes exactly the sets it names,
  none of them in use, with their operations.
\<close>

theorem journal_refines_lifecycle:
  "(case attempt e c (run_calls e cs empty_journal) of
      Inl _ \<Rightarrow> run_calls e (cs @ [c]) empty_journal = run_calls e cs empty_journal
    | Inr _ \<Rightarrow> call_promise c (view (run_calls e cs empty_journal))
        (view (run_calls e (cs @ [c]) empty_journal))) \<and>
   undo_spec\<^sup>*\<^sup>* (view (run_calls e cs empty_journal)) (view (run_calls e (cs @ [c]) empty_journal))"
proof -
  let ?s = "run_calls e cs empty_journal"
  have ok: "tables_ok ?s" by (rule run_from_empty)
  have next_call: "run_calls e (cs @ [c]) empty_journal = commit e c ?s" by (simp add: run_calls_def)
  have "undo_spec\<^sup>*\<^sup>* (view ?s) (view (commit e c ?s))"
    using run_calls_refines [OF ok, of e "[c]"] by (simp add: refines_def run_calls_def)
  then show ?thesis
    using attempt_promise [OF ok, of e c] next_call by (auto simp: commit_def split: sum.split)
qed

text \<open>
  C14: at most one undo operation of a restore set is active at any time, and while it is, the
  set stays eligible: it is neither expired, failed, consumed nor discarded.
\<close>

theorem active_undo_is_exclusive:
  assumes "s = run_calls e cs empty_journal" and "u \<in> set (operations s)" and "uo_active u"
  shows "(\<exists>r \<in> set (jn_sets s). rs_restore_set_id r = uo_restore_set_id u \<and> rs_state r = RsEligible) \<and>
    (\<forall>v \<in> set (operations s). uo_active v \<and> uo_restore_set_id v = uo_restore_set_id u \<longrightarrow> v = u)"
proof -
  have inv: "journal_inv s" unfolding assms(1) by (rule run_calls_inv [OF journal_inv_empty])
  then have ok: "tables_ok s" and spec: "spec_inv (view s)" by (simp_all add: journal_inv_def)
  have nt: "\<not> terminal_state (uo_state u)" using terminal_inactive [OF ok assms(2)] assms(3) by simp
  have "fst (view s) (uo_restore_set_id u) = Some RsEligible"
    using spec_inv_own [OF spec operation_view [OF ok assms(2)]] nt by blast
  then have "\<exists>r \<in> set (jn_sets s). rs_restore_set_id r = uo_restore_set_id u \<and> rs_state r = RsEligible"
    by (auto simp: view_def dest: lookup_by_SomeD)
  moreover have "v = u" if "v \<in> set (operations s)" "uo_active v" "uo_restore_set_id v = uo_restore_set_id u" for v
    using spec_inv_running [OF spec operation_view [OF ok that(1)]] operation_view [OF ok assms(2)]
      same_operation [OF ok that(1) assms(2)] terminal_inactive [OF ok that(1)] that(2,3) nt by metis
  ultimately show ?thesis by blast
qed

theorem active_undo_is_exclusive_witness:
  "rs_state eligible_set = RsEligible \<and>
   (\<exists>r \<in> set (jn_sets (run_calls sample_env prepare_calls empty_journal)).
      rs_restore_set_id r = lit ''set'' \<and> rs_state r = RsEligible)"
  using active_undo_is_exclusive [of _ sample_env prepare_calls, OF refl,
      unfolded sample_prepare, of "operation_in UoPreparing"]
  unfolding sample_prepare by auto

text \<open>
  C15: a restore set is consumed exactly once: a consumed set has one completed operation, and
  that operation has verified every file of the set's manifest, each with the path, the
  preimage and the expected result that the manifest records.
\<close>

theorem consumed_set_was_fully_restored:
  assumes "s = run_calls e cs empty_journal" and "r \<in> set (jn_sets s)" and "rs_state r = RsConsumed"
  shows "\<exists>!u. u \<in> set (operations s) \<and> uo_restore_set_id u = rs_restore_set_id r \<and>
      uo_state u = UoCompleted \<and> fully_restored s u"
proof -
  have inv: "journal_inv s" unfolding assms(1) by (rule run_calls_inv [OF journal_inv_empty])
  then have ok: "tables_ok s" and spec: "spec_inv (view s)" and files: "files_inv s"
    by (simp_all add: journal_inv_def)
  have "fst (view s) (rs_restore_set_id r) = Some RsConsumed"
    using set_row_view [OF ok assms(2)] assms(3) by simp
  from spec_inv_origin [OF spec this] obtain oid
    where "snd (view s) oid = Some (rs_restore_set_id r, UoCompleted)" ..
  from view_operation_SomeD [OF this] obtain u where u: "u \<in> set (operations s)"
    "uo_restore_set_id u = rs_restore_set_id r" "uo_state u = UoCompleted" by auto
  have only: "v = u" if "v \<in> set (operations s)" "uo_restore_set_id v = rs_restore_set_id r"
    "uo_state v = UoCompleted" for v
    using spec_inv_done_once [OF spec] operation_view [OF ok that(1)] operation_view [OF ok u(1)]
      same_operation [OF ok that(1) u(1)] that(2,3) u(2,3) by metis
  have "fully_restored s u" using files u by (simp add: files_inv_def)
  with u only show ?thesis by blast
qed

theorem consumed_set_was_fully_restored_witness:
  "\<exists>u. u \<in> set (operations (run_calls sample_env (prepare_calls @ undo_calls) empty_journal)) \<and>
     uo_restore_set_id u = lit ''set'' \<and> uo_state u = UoCompleted \<and>
     fully_restored (run_calls sample_env (prepare_calls @ undo_calls) empty_journal) u"
proof -
  let ?s = "run_calls sample_env (prepare_calls @ undo_calls) empty_journal"
  have r: "set_in UoCompleted \<in> set (jn_sets ?s)" unfolding sample_undo by simp
  have st: "rs_state (set_in UoCompleted) = RsConsumed" "rs_restore_set_id (set_in UoCompleted) = lit ''set''"
    by (simp_all add: set_in_def consumed_set_def)
  from consumed_set_was_fully_restored [OF refl r st(1)] st(2) show ?thesis by auto
qed

text \<open>Recovery-required operations in the specification.\<close>

lemma recovery_required_stuck:
  assumes "undo_spec\<^sup>*\<^sup>* v w" and "snd v oid = Some (sid, UoRecoveryRequired)"
  shows "snd w oid = Some (sid, UoRecoveryRequired)"
  using assms
proof (induction rule: rtranclp_induct)
  case (step w x)
  note now = step.IH [OF step.prems]
  from step.hyps(2) show ?case
  proof (cases rule: undo_spec.cases)
    case (discard t)
    with now have "sid \<noteq> t" unfolding busy_def by (metis terminal_state_simps(9))
    with now show ?thesis unfolding discard(1) without_simps by simp
  qed (use now in \<open>auto split: if_splits\<close>)
qed simp

text \<open>
  C16: an undo operation that needs recovery blocks its restore set for good: no call on the
  journal ever takes it out of that state, and as long as it is there the set cannot be
  discarded with its workspace, so deleting the workspace history keeps failing.
\<close>

theorem recovery_required_blocks_discard:
  assumes "s = run_calls e cs empty_journal" and "u \<in> set (operations s)"
    and "uo_state u = UoRecoveryRequired" and "uo_restore_set_id u \<in> set sids"
  shows "ensure_restore_sets_are_discardable sids (run_calls e ds s) =
    deny ''An Undo recovery is still active for this task. Open Last turn, refresh the recovery status, and try deleting again.''"
proof -
  have "journal_inv s" unfolding assms(1) by (rule run_calls_inv [OF journal_inv_empty])
  then have ok: "tables_ok s" by (simp add: journal_inv_def)
  have r: "refines s (run_calls e ds s)" by (rule run_calls_refines [OF ok])
  then have ok': "tables_ok (run_calls e ds s)"
    and steps: "undo_spec\<^sup>*\<^sup>* (view s) (view (run_calls e ds s))" by (auto simp: refines_def)
  have "snd (view (run_calls e ds s)) (uo_operation_id u) = Some (uo_restore_set_id u, UoRecoveryRequired)"
    using recovery_required_stuck [OF steps] operation_view [OF ok assms(2)] assms(3) by simp
  then have "busy (snd (view (run_calls e ds s))) (uo_restore_set_id u)"
    unfolding busy_def by (metis terminal_state_simps(9))
  then have "active_on (run_calls e ds s) (uo_restore_set_id u)"
    using active_on_busy [OF ok'] by simp
  with assms(4) show ?thesis
    by (auto simp: ensure_restore_sets_are_discardable_def list_ex_iff)
qed

definition sample_details :: recovery_details where
  "sample_details = \<lparr>rd_schema_version = 1, rd_reason_code = GrManualRecoveryRequired,
     rd_diagnostic_label = lit ''exchange''\<rparr>"

definition stuck_operation :: undo_operation where
  "stuck_operation = moved_operation UoRecoveryRequired (Some GrManualRecoveryRequired)
     (Some sample_details) (lit ''t3'') (operation_in UoPreparing)"

definition stuck_calls :: "journal_call list" where
  "stuck_calls = prepare_calls @ [TransitionOperation (lit ''op'') UoPreparing UoRecoveryRequired
     (Some GrManualRecoveryRequired) (Some sample_details) (lit ''t3'')]"

lemma sample_stuck:
  "run_calls sample_env stuck_calls empty_journal =
     journal_at UoPreparing UfPlanned
       \<lparr>jn_operations := [\<lparr>ow_operation = stuck_operation, ow_cleanup_pending = True\<rparr>]\<rparr>"
proof -
  have details: "recovery_validate sample_details = Inr ()"
    by (simp add: recovery_validate_def sample_details_def require_schema_def require_known_reason_def
        reason_known_def RECOVERY_DETAILS_SCHEMA_VERSION_def valid_stable_label_def lit_def utf8_len_def
        is_ascii_lowercase_def)
  have same: "desired_operation UoRecoveryRequired (Some GrManualRecoveryRequired) (Some sample_details)
      (lit ''t3'') (operation_in UoPreparing) = stuck_operation"
    by (simp add: desired_operation_def stuck_operation_def moved_operation_def operation_in_def)
  have valid: "undo_operation_validate stuck_operation = Inr ()"
    using details sample_prepared(1)
    by (simp add: undo_operation_validate_def stuck_operation_def moved_operation_def require_schema_def
        require_text_def sample_texts limit_defs require_known_reason_def reason_known_def
        operation_fields_consistent_def sample_details_def)
       (simp add: operation_in_def)
  have row: "operation_row_ok sample_env stuck_operation"
    using sample_rows_ok(1) [of UoPreparing]
    by (simp add: operation_row_ok_def stuck_operation_def moved_operation_def on_the_way_def
        opt_ok_def json_within_def column_text_def)
  have wrote: "update_operation_row sample_env (lit ''op'') UoPreparing
      (moved_operation UoRecoveryRequired (Some GrManualRecoveryRequired) (Some sample_details) (lit ''t3''))
      (journal_at UoPreparing UfPlanned) =
    Inr (journal_at UoPreparing UfPlanned
       \<lparr>jn_operations := [\<lparr>ow_operation = stuck_operation, ow_cleanup_pending = True\<rparr>]\<rparr>)"
    using row by (simp add: update_operation_row_def journal_at_def operation_id_def changed_rows_def
        update_where_def stuck_operation_def)
  have bound: "load_bound_operation sample_env (lit ''op'') (journal_at UoPreparing UfPlanned) =
      Inr (operation_in UoPreparing, [file_in UfPlanned])"
    by (rule sample_load_bound) (simp_all add: on_the_way_def file_on_the_way_def)
  have "attempt sample_env (TransitionOperation (lit ''op'') UoPreparing UoRecoveryRequired
      (Some GrManualRecoveryRequired) (Some sample_details) (lit ''t3'')) (journal_at UoPreparing UfPlanned) =
    Inr (journal_at UoPreparing UfPlanned
       \<lparr>jn_operations := [\<lparr>ow_operation = stuck_operation, ow_cleanup_pending = True\<rparr>]\<rparr>)"
    using details wrote bound
    by (simp add: transition_undo_operation_def opt_ok_def reason_known_def lookup_by_def limit_defs
        write_operation_transition_def same valid files_ready_def)
  with sample_prepare show ?thesis
    by (simp add: stuck_calls_def run_calls_def commit_def del: attempt.simps)
qed

theorem recovery_required_blocks_discard_witness:
  "ensure_restore_sets_are_discardable [lit ''set'']
     (run_calls sample_env [DiscardSets [lit ''set'']] (run_calls sample_env stuck_calls empty_journal)) \<noteq> Inr ()"
proof -
  have "stuck_operation \<in> set (operations (run_calls sample_env stuck_calls empty_journal))"
    by (simp add: sample_stuck operations_def)
  from recovery_required_blocks_discard [OF refl this] show ?thesis
    by (simp add: stuck_operation_def deny_def)
qed

end
