(* ===== verification/Undo_Journal_Replay.thy ===== *)
theory Undo_Journal_Replay
  imports Undo_Journal_Props
begin

text \<open>
  Reading back and repeating calls on the undo journal: a finalized restore set is read back as
  it was written, with its files in manifest order, and a transition that has taken effect can
  be repeated after a lost reply without changing anything.
\<close>

section \<open>Reading back a finalized set\<close>

lemma validate_manifest_perm:
  assumes "mset fs = mset gs" and "validate_restore_set_manifest sha256 r fs = Inr ()"
  shows "validate_restore_set_manifest sha256 r gs = Inr ()"
proof -
  have st: "set gs = set fs" and len: "gs = [] \<longleftrightarrow> fs = []"
    using assms(1) by (metis mset_eq_setD, metis mset_zero_iff)
  from assms(2) obtain a where v: "restore_set_validate r = Inr ()"
    and own: "\<not> list_ex (\<lambda>f. rf_restore_set_id f \<noteq> rs_restore_set_id r) fs"
    and a: "account_restore_files fs = Inr a" "ra_file_count a = rs_file_count r"
      "ra_artifact_bytes a = rs_artifact_bytes r"
    and d: "case rs_manifest_digest r of
        Some expected \<Rightarrow> canonical_restore_manifest_digest sha256 fs = Inr expected
      | None \<Rightarrow> fs = [] \<and> rs_state r = RsCollecting"
    unfolding validate_restore_set_manifest_def
    by (auto simp: and_then_Inr_iff split: if_splits option.splits)
  have "canonical_restore_manifest_digest sha256 gs = Inr expected"
    if "canonical_restore_manifest_digest sha256 fs = Inr expected" for expected
    using that canonical_manifest_bytes_perm [OF assms(1)]
    by (auto simp: canonical_restore_manifest_digest_def and_then_Inr_iff)
  with v own a d st len account_restore_files_perm [OF assms(1) a(1)] show ?thesis
    unfolding validate_restore_set_manifest_def
    by (auto simp: list_ex_iff split: option.splits)
qed

lemma insert_set_file_ok:
  "insert_turn_restore_file e f s = Inr s' \<Longrightarrow> restore_file_validate f = Inr () \<and> set_file_row_ok e f"
  by (auto simp: and_then_Inr_iff insert_turn_restore_file_def deny_def guarded_def
      split: if_splits sum.splits)

lemma update_set_row_rows:
  "update_set_row e sid a f message s = Inr s' \<Longrightarrow>
     s' = s\<lparr>jn_sets := update_where (\<lambda>q. rs_restore_set_id q = sid \<and> rs_state q = a) f (jn_sets s)\<rparr> \<and>
     (\<forall>q \<in> set (jn_sets s). rs_restore_set_id q = sid \<longrightarrow> rs_state q = a \<longrightarrow> set_row_ok e (f q))"
  by (auto simp: update_set_row_def Let_def deny_def list_ex_iff split: if_splits)

lemma insert_set_files_ok:
  "insert_all (insert_turn_restore_file e) files s = Inr s' \<Longrightarrow>
     \<forall>f \<in> set files. restore_file_validate f = Inr () \<and> set_file_row_ok e f"
proof (induction files arbitrary: s)
  case (Cons f fs)
  from Cons.prems obtain s1 where "insert_turn_restore_file e f s = Inr s1"
    and "insert_all (insert_turn_restore_file e) fs s1 = Inr s'"
    by (auto simp: and_then_Inr_iff)
  with Cons.IH insert_set_file_ok show ?case by simp
qed simp

lemma load_set_complete:
  assumes "lookup_by rs_restore_set_id sid (jn_sets s) = Some r" and "set_files_of s sid = files"
    and "set_row_ok e r" and "restore_set_validate r = Inr ()"
    and "\<forall>f \<in> set files. restore_file_validate f = Inr () \<and> set_file_row_ok e f"
    and "length files \<le> 256"
    and "if files = [] then rs_manifest_digest r = None
      else validate_restore_set_manifest (de_sha256 e) r files = Inr ()"
  shows "load_turn_restore_set e sid s = Inr (Some (r, files))"
proof -
  from assms(4) have v: "validate_opt root_validate (rs_root_id r) = Inr ()"
    "validate_opt git_validate (rs_git_identity r) = Inr ()" "\<not> MAX_RESTORE_FILES < rs_file_count r"
    unfolding restore_set_validate_def first_err_Inr_iff by auto
  from assms(3) have b: "opt_ok (\<lambda>g. de_git_json e g \<le> 65536) (rs_git_identity r)"
    "opt_ok (\<lambda>root. length (root_bytes root) \<le> 1024) (rs_root_id r)"
    by (auto simp: set_row_ok_def opt_ok_def json_within_def split: option.splits)
  from assms(5) have f: "\<not> list_ex (\<lambda>f. 4096 < length (persisted_bytes (rf_path f))) files"
    "\<not> list_ex (\<lambda>f. 4096 < de_metadata_json e (rf_metadata f)) files"
    by (auto simp: list_ex_iff set_file_row_ok_def path_column_def json_within_def)
  have "first_err (concat (map (\<lambda>f. [metadata_validate (rf_metadata f), restore_file_validate f]) files)) = Inr ()"
    unfolding first_err_Inr_iff using assms(5) restore_file_validate_facts(4) by auto
  moreover have "\<not> unat MAX_RESTORE_FILES < length files" using assms(6) by (simp add: MAX_RESTORE_FILES_def)
  ultimately show ?thesis
    unfolding load_turn_restore_set_def
    using assms(1,2,4,7) v b f by (simp add: Let_def split: if_splits)
qed

lemma finalized_row:
  assumes "\<not> finalize_mismatch p r" and "rs_restore_set_id p = rs_restore_set_id r"
    and "restore_set_validate r = Inr ()"
  shows "p\<lparr>rs_state := rs_state r, rs_reason_code := rs_reason_code r,
      rs_root_id := rs_root_id r, rs_git_identity := rs_git_identity r,
      rs_artifact_bytes := rs_artifact_bytes r, rs_file_count := rs_file_count r,
      rs_manifest_digest := rs_manifest_digest r,
      rs_completed_at := rs_completed_at r, rs_expires_at := rs_expires_at r\<rparr> = r"
proof -
  have "rs_capture_version r = RESTORE_CAPTURE_VERSION"
    using assms(3) unfolding restore_set_validate_def first_err_Inr_iff by simp
  with assms(1,2) show ?thesis by (cases p; cases r) (simp add: finalize_mismatch_def)
qed

lemma finalized_files:
  assumes "rs_state r = RsEligible \<longrightarrow> validate_restore_set_manifest sha256 r files = Inr ()"
    and "rs_state r \<noteq> RsEligible \<longrightarrow> files = [] \<and> zero_files r"
  shows "\<forall>f \<in> set files. rf_restore_set_id f = rs_restore_set_id r" and "length files \<le> 256"
proof -
  show "\<forall>f \<in> set files. rf_restore_set_id f = rs_restore_set_id r"
    using assms unfolding validate_restore_set_manifest_def
    by (cases "rs_state r = RsEligible") (auto simp: and_then_Inr_iff list_ex_iff split: if_splits)
  show "length files \<le> 256"
    using assms account_restore_files_ok(1) unfolding validate_restore_set_manifest_def
    by (cases "rs_state r = RsEligible") (auto simp: and_then_Inr_iff split: if_splits)
qed

lemma eligible_has_files:
  assumes "restore_set_validate r = Inr ()" and "rs_state r = RsEligible"
  shows "validate_restore_set_manifest sha256 r [] \<noteq> Inr ()"
proof
  assume "validate_restore_set_manifest sha256 r [] = Inr ()"
  with assms(2) have "rs_file_count r = 0"
    by (auto simp: validate_restore_set_manifest_def account_restore_files_def and_then_Inr_iff
        split: if_splits)
  with assms show False
    unfolding restore_set_validate_def first_err_Inr_iff by (auto simp: set_fields_consistent_def)
qed

lemma finalized_digest:
  assumes "restore_set_validate r = Inr ()"
    and "rs_state r = RsEligible \<longrightarrow> validate_restore_set_manifest sha256 r files = Inr ()"
    and "rs_state r \<noteq> RsEligible \<longrightarrow> files = [] \<and> zero_files r"
  shows "if sort_key rf_ordinal files = [] then rs_manifest_digest r = None
    else validate_restore_set_manifest sha256 r (sort_key rf_ordinal files) = Inr ()"
proof (cases "files = []")
  case True
  with assms(2) eligible_has_files [OF assms(1)] have "rs_state r \<noteq> RsEligible" by blast
  with assms(3) True show ?thesis by (simp add: zero_files_def)
next
  case False
  then have "validate_restore_set_manifest sha256 r (sort_key rf_ordinal files) = Inr ()"
    using assms(2,3) validate_manifest_perm [of files "sort_key rf_ordinal files"] by simp
  moreover have "sort_key rf_ordinal files \<noteq> []" using False by (metis length_0_conv length_sort)
  ultimately show ?thesis by simp
qed

text \<open>
  What \<open>finalize_turn_restore_set\<close> commits to a set without files is what a reader of the decoded
  rows gets: the set exactly as it was passed, with its files in the order of their ordinals, and
  every check of the reader passes. \<open>Undo_Columns\<close> states it for the stored columns.
\<close>

lemma finalized_set_loads:
  assumes "s = run_calls e cs empty_journal" and "set_files_of s (rs_restore_set_id r) = []"
    and "finalize_turn_restore_set e r files s = Inr (True, s')"
  shows "load_turn_restore_set e (rs_restore_set_id r) s' =
    Inr (Some (r, sort_key rf_ordinal files))"
  using assms(3)
proof (cases rule: finalize_ok)
  case (2 s1 p pfiles)
  let ?sid = "rs_restore_set_id r"
  have s1: "s1 = s\<lparr>jn_set_files := jn_set_files s @ files\<rparr>" by (rule insert_set_files [OF 2(9)])
  note upd = update_set_row_rows [OF 2(10), THEN conjunct1]
  have look: "lookup_by rs_restore_set_id ?sid (jn_sets s) = Some p"
    using load_set_SomeD [OF 2(2)] by simp
  then have p: "rs_restore_set_id p = ?sid" "p \<in> set (jn_sets s1)" by (auto simp: s1 dest: lookup_by_SomeD)
  note row = finalized_row [OF 2(8) p(1) 2(3)]
  have hit: "rs_state p = RsCollecting" using 2(8) by (simp add: finalize_mismatch_def)
  have stored: "lookup_by rs_restore_set_id ?sid (jn_sets s') = Some r"
    using look hit p row by (simp add: upd lookup_by_update s1)
  have stale: "filter (\<lambda>f. rf_restore_set_id f = ?sid) (jn_set_files s) = []"
    using assms(2) unfolding set_files_of_def by (metis length_0_conv length_sort)
  then have files: "set_files_of s' ?sid = sort_key rf_ordinal files"
    using finalized_files(1) [OF 2(4,5)] by (simp add: set_files_of_def upd s1)
  have "set_row_ok e r" using update_set_row_rows [OF 2(10)] hit p row by fastforce
  then show ?thesis
    using stored files 2(3) insert_set_files_ok [OF 2(9)] finalized_files(2) [OF 2(4,5)]
      finalized_digest [OF 2(3-5)]
    by (intro load_set_complete) simp_all
qed simp

section \<open>Repeating a transition\<close>

text \<open>The chain sources of another operation do not see the transition.\<close>

lemma filter_product_update:
  assumes "\<And>f u. Q u \<Longrightarrow> \<not> P (f, u) \<and> \<not> P (f, g u)"
  shows "filter P (List.product fs (update_where Q g us)) = filter P (List.product fs us)"
proof -
  have "filter P (map (Pair f) (update_where Q g us)) = filter P (map (Pair f) us)" for f
    using assms by (induction us) (auto simp: update_where_def)
  then show ?thesis by (induction fs) simp_all
qed

lemma set_exists_update:
  assumes "\<And>q. rs_restore_set_id (g q) = rs_restore_set_id q \<and> rs_workspace_id (g q) = rs_workspace_id q \<and>
      rs_root_id (g q) = rs_root_id q"
  shows "list_ex (\<lambda>r. rs_restore_set_id r = sid \<and> rs_workspace_id r = w \<and> rs_root_id r = root)
      (update_where P g rs) =
    list_ex (\<lambda>r. rs_restore_set_id r = sid \<and> rs_workspace_id r = w \<and> rs_root_id r = root) rs"
  using assms by (induction rs) (auto simp: update_where_def)

definition transitioned :: "rstr \<Rightarrow> undo_operation_state \<Rightarrow> (undo_operation \<Rightarrow> undo_operation) \<Rightarrow> journal \<Rightarrow>
    journal \<Rightarrow> bool" where
  "transitioned oid expected g s s' \<longleftrightarrow>
     operations s' = update_where (op_hit oid expected) g (operations s) \<and>
     jn_op_files s' = jn_op_files s \<and> jn_set_files s' = jn_set_files s \<and>
     (\<forall>sid w root. list_ex (\<lambda>r. rs_restore_set_id r = sid \<and> rs_workspace_id r = w \<and> rs_root_id r = root)
        (jn_sets s') =
      list_ex (\<lambda>r. rs_restore_set_id r = sid \<and> rs_workspace_id r = w \<and> rs_root_id r = root) (jn_sets s))"

lemma chain_rows_other:
  assumes t: "transitioned oid expected g s s'" and g: "\<And>u. uo_operation_id (g u) = uo_operation_id u"
    and "source \<noteq> oid"
  shows "chain_rows w root path (Some source) s' = chain_rows w root path (Some source) s"
proof -
  have ops: "operations s' = update_where (op_hit oid expected) g (operations s)"
    and same: "jn_op_files s' = jn_op_files s"
      "\<And>sid w root. list_ex (\<lambda>r. rs_restore_set_id r = sid \<and> rs_workspace_id r = w \<and> rs_root_id r = root)
        (jn_sets s') =
      list_ex (\<lambda>r. rs_restore_set_id r = sid \<and> rs_workspace_id r = w \<and> rs_root_id r = root) (jn_sets s)"
    using t by (auto simp: transitioned_def)
  show ?thesis
    unfolding chain_rows_def ops same
    by (rule filter_product_update) (use assms(3) g in \<open>auto simp: op_hit_def opt_ok_def\<close>)
qed

lemma expected_result_other:
  assumes "transitioned oid expected g s s'" and "\<And>u. uo_operation_id (g u) = uo_operation_id u"
    and "uf_chained_from_operation_id j \<noteq> Some oid"
    and "rs_root_id r' = rs_root_id r" "rs_workspace_id r' = rs_workspace_id r"
      "rs_restore_set_id r' = rs_restore_set_id r" "rs_git_identity r' = rs_git_identity r"
  shows "expected_result_is_bound r' f j s' = expected_result_is_bound r f j s"
proof (cases "uf_chained_from_operation_id j")
  case (Some source)
  then have "source \<noteq> oid" using assms(3) by auto
  then show ?thesis
    using Some assms(4-7) chain_rows_other [OF assms(1,2)]
    by (simp add: expected_result_is_bound_def query_undo_chain_sources_def chained_result_is_bound_def
        split: option.splits)
qed (simp add: expected_result_is_bound_def)

lemma bound_files_other:
  assumes "transitioned oid expected g s s'" and "\<And>u. uo_operation_id (g u) = uo_operation_id u"
    and "\<forall>(j, f) \<in> set zs. uf_chained_from_operation_id j \<noteq> Some oid"
    and "rs_root_id r' = rs_root_id r" "rs_workspace_id r' = rs_workspace_id r"
      "rs_restore_set_id r' = rs_restore_set_id r" "rs_git_identity r' = rs_git_identity r"
    and "uo_operation_id u' = uo_operation_id u"
  shows "bound_files u' r' keys zs s' = bound_files u r keys zs s"
  using assms(3)
proof (induction zs arbitrary: keys)
  case (Cons z zs)
  obtain j f where z: "z = (j, f)" by (cases z)
  then have "uf_chained_from_operation_id j \<noteq> Some oid" using Cons.prems by auto
  then have "expected_result_is_bound r' f j s' = expected_result_is_bound r f j s"
    by (rule expected_result_other [OF assms(1,2) _ assms(4-7)])
  with Cons show ?case by (simp add: z assms(6,8) cong: if_cong)
qed simp

lemma binding_other:
  assumes bind: "validate_operation_manifest_binding e u files r rfiles s = Inr ()"
    and manifest: "validate_restore_set_manifest (de_sha256 e) r' rfiles = Inr ()"
    and state: "rs_state r' = RsEligible \<or> rs_state r' = RsConsumed \<and> uo_state u' = UoCompleted"
    and bound: "bound_files u' r' [] (zip files rfiles) s' = Inr ()"
    and same: "rs_root_id r' = rs_root_id r" "rs_git_identity r' = rs_git_identity r"
      "rs_restore_set_id r' = rs_restore_set_id r" "rs_manifest_digest r' = rs_manifest_digest r"
      "rs_capture_version r' = rs_capture_version r" "uo_restore_set_id u' = uo_restore_set_id u"
      "uo_prepared_identity u' = uo_prepared_identity u"
  shows "validate_operation_manifest_binding e u' files r' rfiles s' = Inr ()"
  using bind manifest state bound unfolding validate_operation_manifest_binding_def Let_def deny_def same
  by (auto simp: and_then_Inr_iff guarded_def split: if_splits sum.splits)

lemma load_operation_facts:
  assumes "load_undo_operation e oid s = Inr (Some (u, files))"
  shows "de_prepared_json e (uo_prepared_identity u) \<le> 131072" and "length files \<le> 256"
    and "prepared_validate (uo_prepared_identity u) = Inr ()"
    and "\<forall>f \<in> set files. file_state_known (uf_state f) \<and> outcome_known (uf_verification_outcome f) \<longrightarrow>
      undo_file_validate f = Inr ()"
    and "operation_state_known (uo_state u) \<Longrightarrow> undo_operation_validate u = Inr ()"
  using assms unfolding load_undo_operation_def Let_def deny_def guarded_def
  by (auto simp: and_then_Inr_iff first_err_Inr_iff MAX_RESTORE_FILES_def
      split: if_splits option.splits sum.splits)

lemma load_operation_other:
  assumes load: "load_undo_operation e oid s = Inr (Some (u, files))"
    and look: "lookup_by uo_operation_id oid (operations s') = Some v" and "jn_op_files s' = jn_op_files s"
    and same: "uo_prepared_identity v = uo_prepared_identity u"
    and "opt_ok (\<lambda>d. de_recovery_json e d \<le> 1024) (uo_recovery_details v)"
    and "undo_operation_validate v = Inr ()"
  shows "load_undo_operation e oid s' = Inr (Some (v, files))"
proof -
  have files: "op_files_of s' oid = files"
    using load_operation_SomeD [OF load] assms(3) by (simp add: op_files_of_def)
  have "validate_opt recovery_validate (uo_recovery_details v) = Inr ()"
    using assms(6) unfolding undo_operation_validate_def first_err_Inr_iff by auto
  with load show ?thesis
    unfolding load_undo_operation_def look option.case files same
    using load_operation_SomeD [OF load] assms(5,6)
    by (auto simp: Let_def deny_def and_then_Inr_iff guarded_def split: if_splits option.splits sum.splits)
qed

lemma load_set_consumed:
  assumes load: "load_turn_restore_set e sid s = Inr (Some (r, rfiles))"
    and look: "lookup_by rs_restore_set_id sid (jn_sets s') = Some (consumed_set t r)"
    and "jn_set_files s' = jn_set_files s" and "rs_state r = RsEligible"
    and valid: "restore_set_validate (consumed_set t r) = Inr ()"
    and manifest: "validate_restore_set_manifest (de_sha256 e) (consumed_set t r) rfiles = Inr ()"
  shows "load_turn_restore_set e sid s' = Inr (Some (consumed_set t r, rfiles))"
proof -
  have files: "set_files_of s' sid = rfiles"
    using load_set_SomeD [OF load] assms(3) by (simp add: set_files_of_def)
  have same: "rs_git_identity (consumed_set t r) = rs_git_identity r"
    "rs_root_id (consumed_set t r) = rs_root_id r" "rs_file_count (consumed_set t r) = rs_file_count r"
    "rs_manifest_digest (consumed_set t r) = rs_manifest_digest r"
    by (simp_all add: consumed_set_def)
  show ?thesis
    using load load_set_SomeD [OF load] valid manifest
    unfolding load_turn_restore_set_def look option.case files same
    by (auto simp: Let_def deny_def and_then_Inr_iff guarded_def split: if_splits option.splits sum.splits)
qed

lemma consumed_set_valid:
  assumes "restore_set_validate r = Inr ()" and "rs_state r = RsEligible"
  shows "restore_set_validate (consumed_set t r) = Inr ()"
  using assms unfolding restore_set_validate_def first_err_Inr_iff
  by (auto simp: consumed_set_def set_fields_consistent_def require_known_state_def is_some_and_def
      split: option.splits)

lemma consumed_set_manifest:
  assumes "validate_restore_set_manifest sha256 r files = Inr ()" and "rs_state r = RsEligible"
  shows "validate_restore_set_manifest sha256 (consumed_set t r) files = Inr ()"
proof -
  have "restore_set_validate r = Inr ()"
    using assms(1) by (auto simp: validate_restore_set_manifest_def and_then_Inr_iff)
  from consumed_set_valid [OF this assms(2)] assms show ?thesis
    unfolding validate_restore_set_manifest_def
    by (auto simp: and_then_Inr_iff consumed_set_def split: if_splits option.splits)
qed

lemma running_not_completed_at:
  assumes "undo_operation_validate u = Inr ()" and "\<not> terminal_state (uo_state u)"
  shows "uo_completed_at u = None"
  using assms unfolding undo_operation_validate_def first_err_Inr_iff
  by (cases "uo_state u") (auto simp: operation_fields_consistent_def Let_def)

lemma transition_prelims:
  assumes "transition_undo_operation e oid expected st reason details t s = Inr x"
  shows "operation_state_known expected" and "operation_state_known st"
    and "operation_can_transition expected st" and "opt_ok reason_known reason"
    and "validate_opt recovery_validate details = Inr ()"
    and "\<forall>u. lookup_by uo_operation_id oid (operations s) = Some u \<longrightarrow>
      uo_journal_version u = UNDO_JOURNAL_SCHEMA_VERSION"
  using assms unfolding transition_undo_operation_def deny_def guarded_def
  by (auto simp: and_then_Inr_iff split: if_splits sum.splits)

text \<open>The state a successful transition leaves.\<close>

lemma transition_effect:
  assumes ok: "tables_ok s"
    and run: "transition_undo_operation e oid expected st reason details t s = Inr (True, s')"
  obtains u files r rfiles where "load_undo_operation e oid s = Inr (Some (u, files))"
    and "load_turn_restore_set e (uo_restore_set_id u) s = Inr (Some (r, rfiles))"
    and "validate_operation_manifest_binding e u files r rfiles s = Inr ()"
    and "uo_state u = expected" and "rs_state r = RsEligible"
    and "undo_operation_validate (moved_operation st reason details t u) = Inr ()"
    and "operation_row_ok e (moved_operation st reason details t u)"
    and "lookup_by uo_operation_id oid (operations s') = Some (moved_operation st reason details t u)"
    and "transitioned oid expected (moved_operation st reason details t) s s'"
    and "if st = UoCompleted
      then lookup_by rs_restore_set_id (uo_restore_set_id u) (jn_sets s') = Some (consumed_set t r)
      else jn_sets s' = jn_sets s"
  using run
proof (cases rule: transition_operation_ok)
  case (2 u files)
  from 2(2) obtain r rfiles where lu: "load_undo_operation e oid s = Inr (Some (u, files))"
    and lr: "load_turn_restore_set e (uo_restore_set_id u) s = Inr (Some (r, rfiles))"
    and bind: "validate_operation_manifest_binding e u files r rfiles s = Inr ()"
    by (rule load_bound_ok)
  have look: "lookup_by uo_operation_id oid (operations s) = Some u" using load_operation_SomeD [OF lu] by simp
  then have oid: "uo_operation_id u = oid" by (auto dest: lookup_by_SomeD)
  have running: "\<not> terminal_state expected" using terminal_stays 2(4,5) by blast
  then have el: "rs_state r = RsEligible" using binding_facts(1) [OF bind] 2(3) by auto
  from 2(6) obtain s1 where valid: "undo_operation_validate (desired_operation st reason details t u) = Inr ()"
    and up: "update_operation_row e (uo_operation_id u) expected (moved_operation st reason details t) s = Inr s1"
    and last: "if st = UoCompleted
      then update_set_row e (uo_restore_set_id u) RsEligible (consumed_set t)
        ''completed operation could not atomically consume restoration set'' s1 = Inr s'
      else s' = s1"
    by (rule write_transition_ok)
  note eff = update_operation_row_ok [OF up]
  have "uo_completed_at u = None"
    using running_not_completed_at load_operation_facts(5) [OF lu] transition_prelims(1) [OF run] running 2(3)
    by blast
  then have desired: "desired_operation st reason details t u = moved_operation st reason details t u"
    by (simp add: desired_operation_def moved_operation_def)
  have row: "operation_row_ok e (moved_operation st reason details t u)"
    using up look oid 2(3) lookup_by_SomeD [OF look]
    by (auto simp: update_operation_row_def Let_def deny_def list_ex_iff operation_id_def operations_def
        split: if_splits)
  have ops: "operations s' = update_where (op_hit oid expected) (moved_operation st reason details t) (operations s)"
    using eff(1) last oid update_set_row_frame
    by (auto simp: same_but_sets_def operations_def split: if_splits)
  then have look': "lookup_by uo_operation_id oid (operations s') = Some (moved_operation st reason details t u)"
    using look oid 2(3) by (simp add: lookup_by_update op_hit_def)
  have sets: "jn_sets s' = (if st = UoCompleted
      then update_where (\<lambda>q. rs_restore_set_id q = uo_restore_set_id u \<and> rs_state q = RsEligible)
        (consumed_set t) (jn_sets s) else jn_sets s)"
  proof (cases "st = UoCompleted")
    case True
    with last have "update_set_row e (uo_restore_set_id u) RsEligible (consumed_set t)
      ''completed operation could not atomically consume restoration set'' s1 = Inr s'" by simp
    from update_set_row_rows [OF this] show ?thesis using eff(2) True by simp
  next
    case False
    with last eff(2) show ?thesis by simp
  qed
  have rlook: "lookup_by rs_restore_set_id (uo_restore_set_id u) (jn_sets s) = Some r"
    using load_set_SomeD [OF lr] by simp
  have kept: "rs_restore_set_id (consumed_set t q) = rs_restore_set_id q" for q by (simp add: consumed_set_def)
  have set_look: "if st = UoCompleted
      then lookup_by rs_restore_set_id (uo_restore_set_id u) (jn_sets s') = Some (consumed_set t r)
      else jn_sets s' = jn_sets s"
    using sets rlook el lookup_by_SomeD [OF rlook] by (simp add: lookup_by_update kept)
  have "list_ex (\<lambda>r. rs_restore_set_id r = sid \<and> rs_workspace_id r = w \<and> rs_root_id r = root) (jn_sets s') =
      list_ex (\<lambda>r. rs_restore_set_id r = sid \<and> rs_workspace_id r = w \<and> rs_root_id r = root) (jn_sets s)"
    for sid w root
    unfolding sets using set_exists_update [of "consumed_set t"] by (simp add: consumed_set_def)
  then have "transitioned oid expected (moved_operation st reason details t) s s'"
    using ops last eff(3,4) update_set_row_frame
    by (auto simp: transitioned_def same_but_sets_def split: if_splits)
  with that lu lr bind 2(3) el valid [unfolded desired] row look' set_look show thesis by blast
qed simp

lemma load_set_after:
  assumes "load_turn_restore_set e sid s = Inr (Some (r, rfiles))" and "rs_state r = RsEligible"
    and "jn_set_files s' = jn_set_files s"
    and "validate_restore_set_manifest (de_sha256 e) r rfiles = Inr ()"
    and "if b then lookup_by rs_restore_set_id sid (jn_sets s') = Some (consumed_set t r)
      else jn_sets s' = jn_sets s"
  shows "load_turn_restore_set e sid s' = Inr (Some (if b then consumed_set t r else r, rfiles))"
proof (cases b)
  case True
  then show ?thesis
    using assms(5) load_set_consumed [OF assms(1) _ assms(3,2)] consumed_set_valid [OF _ assms(2)]
      consumed_set_manifest [OF assms(4,2)] load_set_SomeD [OF assms(1)] by simp
next
  case False
  have files: "set_files_of s' sid = set_files_of s sid" by (simp add: set_files_of_def assms(3))
  have sets: "jn_sets s' = jn_sets s" using assms(5) False by simp
  have "load_turn_restore_set e sid s' = load_turn_restore_set e sid s"
    unfolding load_turn_restore_set_def files sets ..
  with assms(1) False show ?thesis by simp
qed

text \<open>No file of a bound operation is chained from the operation itself.\<close>

lemma own_chain_excluded:
  assumes load: "load_undo_operation e oid s = Inr (Some (u, files))"
    and bind: "validate_operation_manifest_binding e u files r rfiles s = Inr ()"
  shows "\<forall>(j, f) \<in> set (zip files gs). uf_chained_from_operation_id j \<noteq> Some oid"
proof -
  have "uf_chained_from_operation_id f \<noteq> Some oid" if "f \<in> set files" for f
  proof -
    have "uf_operation_id f = oid" using that load_operation_SomeD [OF load] by (auto simp: op_files_of_def)
    moreover have "file_state_known (uf_state f) \<and> outcome_known (uf_verification_outcome f)"
      using bind that unfolding validate_operation_manifest_binding_def Let_def deny_def
      by (auto simp: list_ex_iff split: if_splits)
    then have "undo_file_validate f = Inr ()" using load_operation_facts(4) [OF load] that by blast
    ultimately show ?thesis
      unfolding undo_file_validate_def first_err_Inr_iff by (auto simp: validate_opt_Inr_iff and_then_Inr_iff)
  qed
  then show ?thesis by (auto dest: set_zip_leftD)
qed

text \<open>What a transition leaves is bound to the manifest as what it found was.\<close>

lemma still_bound:
  assumes lu: "load_undo_operation e oid s = Inr (Some (u, files))"
    and bind: "validate_operation_manifest_binding e u files r rfiles s = Inr ()"
    and el: "rs_state r = RsEligible"
    and tr: "transitioned oid expected (moved_operation st reason details t) s s'"
    and r': "r' = (if st = UoCompleted then consumed_set t r else r)"
  shows "validate_operation_manifest_binding e (moved_operation st reason details t u) files r' rfiles s' = Inr ()"
proof -
  have same: "rs_root_id r' = rs_root_id r" "rs_workspace_id r' = rs_workspace_id r"
    "rs_restore_set_id r' = rs_restore_set_id r" "rs_git_identity r' = rs_git_identity r"
    "rs_manifest_digest r' = rs_manifest_digest r" "rs_capture_version r' = rs_capture_version r"
    by (simp_all add: r' consumed_set_def)
  have manifest: "validate_restore_set_manifest (de_sha256 e) r' rfiles = Inr ()"
    using binding_facts(5) [OF bind] consumed_set_manifest el by (simp add: r')
  have "bound_files (moved_operation st reason details t u) r' [] (zip files rfiles) s' = Inr ()"
    using bound_files_other [OF tr _ own_chain_excluded [OF lu bind] same(1-4),
        of "moved_operation st reason details t u" u] binding_facts(6) [OF bind] by simp
  then show ?thesis
    by (rule binding_other [OF bind manifest, rotated]) (use same el in \<open>simp_all add: r' consumed_set_def\<close>)
qed

text \<open>
  a transition of an undo operation that took effect can be repeated, with any later
  timestamp, when its reply was lost: the repeated call reports that nothing was left to do and
  changes nothing, also when the transition completed the operation and consumed its set.
\<close>

lemma transition_retry_is_harmless:
  assumes "s = run_calls e cs empty_journal"
    and "transition_undo_operation e oid expected st reason details t s = Inr (True, s')"
  shows "transition_undo_operation e oid expected st reason details t' s' = Inr (False, s')"
proof -
  have ok: "tables_ok s" unfolding assms(1) by (rule run_from_empty)
  let ?move = "moved_operation st reason details t"
  from transition_effect [OF ok assms(2)] obtain u files r rfiles where
    lu: "load_undo_operation e oid s = Inr (Some (u, files))"
    and lr: "load_turn_restore_set e (uo_restore_set_id u) s = Inr (Some (r, rfiles))"
    and bind: "validate_operation_manifest_binding e u files r rfiles s = Inr ()"
    and el: "rs_state r = RsEligible"
    and valid: "undo_operation_validate (?move u) = Inr ()" and row: "operation_row_ok e (?move u)"
    and look: "lookup_by uo_operation_id oid (operations s') = Some (?move u)"
    and tr: "transitioned oid expected ?move s s'"
    and sets: "if st = UoCompleted
      then lookup_by rs_restore_set_id (uo_restore_set_id u) (jn_sets s') = Some (consumed_set t r)
      else jn_sets s' = jn_sets s" .
  note pre = transition_prelims [OF assms(2)]
  have same: "jn_op_files s' = jn_op_files s" "jn_set_files s' = jn_set_files s"
    using tr by (simp_all add: transitioned_def)
  have load': "load_undo_operation e oid s' = Inr (Some (?move u, files))"
    using row valid same(1)
    by (intro load_operation_other [OF lu look])
      (auto simp: operation_row_ok_def opt_ok_def json_within_def moved_operation_def split: option.splits)
  note lr' = load_set_after [OF lr el same(2) binding_facts(5) [OF bind] sets]
  from still_bound [OF lu bind el tr refl] have "load_bound_operation e oid s' = Inr (?move u, files)"
    using load' lr' by (simp add: load_bound_operation_def load_existing_set_def)
  moreover have "uo_journal_version (?move u) = UNDO_JOURNAL_SCHEMA_VERSION"
    using pre(6) load_operation_SomeD [OF lu] by (simp add: moved_operation_def)
  moreover have "uo_reason_code (?move u) = reason" "uo_recovery_details (?move u) = details"
    by (simp_all add: moved_operation_def)
  ultimately show ?thesis
    using pre(1-5) look unfolding transition_undo_operation_def by simp
qed

lemma transition_retry_is_harmless_witness:
  "transition_undo_operation sample_env (lit ''op'') UoPreparing UoRecoveryRequired
     (Some GrManualRecoveryRequired) (Some sample_details) (lit ''later'')
     (run_calls sample_env stuck_calls empty_journal) =
   Inr (False, run_calls sample_env stuck_calls empty_journal)"
proof -
  let ?call = "TransitionOperation (lit ''op'') UoPreparing UoRecoveryRequired
     (Some GrManualRecoveryRequired) (Some sample_details) (lit ''t3'')"
  let ?s = "run_calls sample_env prepare_calls empty_journal"
  have com: "run_calls sample_env stuck_calls empty_journal = commit sample_env ?call ?s"
    by (simp add: stuck_calls_def run_calls_def)
  have "jn_operations (run_calls sample_env stuck_calls empty_journal) \<noteq> jn_operations ?s"
    by (simp add: sample_stuck sample_prepare journal_at_def stuck_operation_def moved_operation_def
        operation_in_def)
  then have "commit sample_env ?call ?s \<noteq> ?s" unfolding com [symmetric] by metis
  then obtain b s' where run: "transition_undo_operation sample_env (lit ''op'') UoPreparing UoRecoveryRequired
     (Some GrManualRecoveryRequired) (Some sample_details) (lit ''t3'') ?s = Inr (b, s')" and "s' \<noteq> ?s"
    and s': "commit sample_env ?call ?s = s'"
    by (auto simp: commit_def split: sum.splits dest!: map_sum_snd_Inr)
  then have b by (cases rule: transition_operation_ok) auto
  with transition_retry_is_harmless [OF refl, of sample_env _ _ _ _ _ _ prepare_calls] run s' com
  show ?thesis by simp
qed

end
