(* ===== verification/Sample_Codec.thy ===== *)
theory Sample_Codec
  imports Rust_Prelude Byte_Encoding
begin

text \<open>
  Encodings that read back, for the concrete instances of the properties that take \<open>serde_json\<close> as a
  parameter: numbers, lists, pairs and the records built of them, as bytes.
\<close>

section \<open>Encodings that read back\<close>

definition reads_back :: "('a \<Rightarrow> bytes) \<Rightarrow> (bytes \<Rightarrow> ('a \<times> bytes) option) \<Rightarrow> bool" where
  "reads_back enc decode \<longleftrightarrow> (\<forall>x rest. decode (enc x @ rest) = Some (x, rest))"

lemma reads_backD: "reads_back enc decode \<Longrightarrow> decode (enc x @ rest) = Some (x, rest)"
  by (simp add: reads_back_def)

function enc_nat :: "nat \<Rightarrow> bytes" where
  "enc_nat n = (if n < 255 then [word_of_nat n] else 255 # enc_nat (n - 255))"
  by pat_completeness auto
termination by (relation "measure id") auto

declare enc_nat.simps [simp del]

fun dec_nat :: "bytes \<Rightarrow> (nat \<times> bytes) option" where
  "dec_nat [] = None"
| "dec_nat (b # bs) =
     (if b = 255 then map_option (\<lambda>(n, rest). (n + 255, rest)) (dec_nat bs) else Some (unat b, bs))"

lemma nat_reads_back: "reads_back enc_nat dec_nat"
proof -
  have "dec_nat (enc_nat n @ rest) = Some (n, rest)" for n rest
  proof (induction n rule: enc_nat.induct)
    case (1 n)
    show ?case
    proof (cases "n < 255")
      case True
      then have u: "unat (word_of_nat n :: 8 word) = n" by (simp add: unat_of_nat)
      then have "(word_of_nat n :: 8 word) \<noteq> 255" using True by (auto dest: arg_cong [of _ _ unat])
      with True u show ?thesis by (simp add: enc_nat.simps [of n])
    next
      case False
      with 1 show ?thesis by (simp add: enc_nat.simps [of n])
    qed
  qed
  then show ?thesis by (simp add: reads_back_def)
qed

definition enc_list :: "('a \<Rightarrow> bytes) \<Rightarrow> 'a list \<Rightarrow> bytes" where
  "enc_list enc xs = enc_nat (length xs) @ concat (map enc xs)"

primrec dec_many :: "(bytes \<Rightarrow> ('a \<times> bytes) option) \<Rightarrow> nat \<Rightarrow> bytes \<Rightarrow> ('a list \<times> bytes) option" where
  "dec_many decode 0 bs = Some ([], bs)"
| "dec_many decode (Suc n) bs =
     Option.bind (decode bs) (\<lambda>(x, rest). map_option (\<lambda>(xs, rest'). (x # xs, rest')) (dec_many decode n rest))"

definition dec_list :: "(bytes \<Rightarrow> ('a \<times> bytes) option) \<Rightarrow> bytes \<Rightarrow> ('a list \<times> bytes) option" where
  "dec_list decode bs = Option.bind (dec_nat bs) (\<lambda>(n, rest). dec_many decode n rest)"

lemma list_reads_back:
  assumes "reads_back enc decode"
  shows "reads_back (enc_list enc) (dec_list decode)"
proof -
  have "dec_many decode (length xs) (concat (map enc xs) @ rest) = Some (xs, rest)" for xs rest
    by (induction xs) (simp_all add: reads_backD [OF assms])
  then show ?thesis
    by (simp add: reads_back_def enc_list_def dec_list_def reads_backD [OF nat_reads_back])
qed

definition enc_both :: "('a \<Rightarrow> bytes) \<Rightarrow> ('b \<Rightarrow> bytes) \<Rightarrow> 'a \<times> 'b \<Rightarrow> bytes" where
  "enc_both enc enc' p = enc (fst p) @ enc' (snd p)"

definition dec_both ::
    "(bytes \<Rightarrow> ('a \<times> bytes) option) \<Rightarrow> (bytes \<Rightarrow> ('b \<times> bytes) option) \<Rightarrow> bytes \<Rightarrow> (('a \<times> 'b) \<times> bytes) option" where
  "dec_both decode decode' bs =
     Option.bind (decode bs) (\<lambda>(x, rest). map_option (\<lambda>(y, rest'). ((x, y), rest')) (decode' rest))"

lemma both_reads_back:
  "reads_back enc decode \<Longrightarrow> reads_back enc' decode' \<Longrightarrow> reads_back (enc_both enc enc') (dec_both decode decode')"
  by (simp add: reads_back_def enc_both_def dec_both_def)

definition enc_as :: "('a \<Rightarrow> 'b) \<Rightarrow> ('b \<Rightarrow> bytes) \<Rightarrow> 'a \<Rightarrow> bytes" where
  "enc_as f enc x = enc (f x)"

definition dec_as :: "('b \<Rightarrow> 'a) \<Rightarrow> (bytes \<Rightarrow> ('b \<times> bytes) option) \<Rightarrow> bytes \<Rightarrow> ('a \<times> bytes) option" where
  "dec_as g decode bs = map_option (\<lambda>(y, rest). (g y, rest)) (decode bs)"

lemma as_reads_back: "reads_back enc decode \<Longrightarrow> (\<And>x. g (f x) = x) \<Longrightarrow> reads_back (enc_as f enc) (dec_as g decode)"
  by (simp add: reads_back_def enc_as_def dec_as_def)

text \<open>Texts, words and optional texts, as lists of numbers.\<close>

definition enc_str :: "rstr \<Rightarrow> bytes" where
  "enc_str = enc_list enc_nat"

definition dec_str :: "bytes \<Rightarrow> (rstr \<times> bytes) option" where
  "dec_str = dec_list dec_nat"

definition enc_word :: "'w::len word \<Rightarrow> bytes" where
  "enc_word = enc_as unat enc_nat"

definition dec_word :: "bytes \<Rightarrow> ('w::len word \<times> bytes) option" where
  "dec_word = dec_as word_of_nat dec_nat"

definition enc_opt :: "rstr option \<Rightarrow> bytes" where
  "enc_opt = enc_as (\<lambda>x. case x of None \<Rightarrow> [] | Some s \<Rightarrow> [s]) (enc_list enc_str)"

definition dec_opt :: "bytes \<Rightarrow> (rstr option \<times> bytes) option" where
  "dec_opt = dec_as (\<lambda>l. case l of [] \<Rightarrow> None | s # _ \<Rightarrow> Some s) (dec_list dec_str)"

lemma field_reads_back:
  "reads_back enc_str dec_str" "reads_back (enc_word :: 'w::len word \<Rightarrow> bytes) dec_word" "reads_back enc_opt dec_opt"
  unfolding enc_str_def dec_str_def enc_word_def dec_word_def enc_opt_def dec_opt_def
  by (auto intro!: as_reads_back list_reads_back nat_reads_back split: option.splits)

end
