(* ===== verification/Undo_Columns.thy ===== *)
theory Undo_Columns
  imports Undo_Journal_Replay Sample_Codec
begin

text \<open>
  The columns of the tables of restore sets and their files (\<open>crates/dcc-infra/src/db.rs\<close>): what a
  record is written as, and how \<open>load_turn_restore_set\<close> reads the columns of a row back into a
  record. \<open>Undo_Journal\<close> keeps the decoded rows; here the same journal is kept as columns, and
  reading through them is proved to be the same. A column is a text, a blob or an integer; what
  \<open>serde_json\<close> writes and reads is a parameter, of which only is used that it reads back what it
  wrote and that \<open>db_env\<close> knows the length of the text.
\<close>

section \<open>Rows as they are stored\<close>

record set_columns =
  sc_restore_set_id :: rstr
  sc_snapshot_id :: rstr
  sc_session_id :: rstr
  sc_turn_id :: rstr
  sc_workspace_id :: rstr
  sc_root_id :: "bytes option"
  sc_capture_version :: int
  sc_state :: rstr
  sc_reason_code :: "rstr option"
  sc_git_identity_json :: "rstr option"
  sc_artifact_bytes :: int
  sc_file_count :: int
  sc_manifest_digest :: "bytes option"
  sc_created_at :: rstr
  sc_completed_at :: "rstr option"
  sc_expires_at :: "rstr option"

record file_columns =
  fc_restore_set_id :: rstr
  fc_ordinal :: int
  fc_path_bytes :: bytes
  fc_status :: rstr
  fc_pre_size :: int
  fc_pre_sha256 :: bytes
  fc_pre_artifact_key :: bytes
  fc_result_size :: int
  fc_result_sha256 :: bytes
  fc_metadata_fingerprint_json :: rstr

record json_codec =
  jc_git :: "git_identity \<Rightarrow> rstr"
  jc_parse_git :: "rstr \<Rightarrow> git_identity option"
  jc_metadata :: "file_metadata \<Rightarrow> rstr"
  jc_parse_metadata :: "rstr \<Rightarrow> file_metadata option"

text \<open>What is used of \<open>serde_json\<close>.\<close>

definition codec_ok :: "db_env \<Rightarrow> json_codec \<Rightarrow> bool" where
  "codec_ok e j \<longleftrightarrow>
     (\<forall>g. jc_parse_git j (jc_git j g) = Some g \<and> sql_length (jc_git j g) = de_git_json e g) \<and>
     (\<forall>m. jc_parse_metadata j (jc_metadata j m) = Some m \<and> sql_length (jc_metadata j m) = de_metadata_json e m)"

text \<open>The parameters of the \<open>INSERT\<close> and \<open>UPDATE\<close> statements.\<close>

definition set_columns_of :: "json_codec \<Rightarrow> restore_set \<Rightarrow> set_columns" where
  "set_columns_of j r =
     \<lparr>sc_restore_set_id = rs_restore_set_id r, sc_snapshot_id = rs_snapshot_id r,
      sc_session_id = rs_session_id r, sc_turn_id = rs_turn_id r, sc_workspace_id = rs_workspace_id r,
      sc_root_id = map_option root_bytes (rs_root_id r), sc_capture_version = uint (rs_capture_version r),
      sc_state = set_state_text (rs_state r), sc_reason_code = map_option reason_text (rs_reason_code r),
      sc_git_identity_json = map_option (jc_git j) (rs_git_identity r),
      sc_artifact_bytes = uint (rs_artifact_bytes r), sc_file_count = uint (rs_file_count r),
      sc_manifest_digest = rs_manifest_digest r, sc_created_at = rs_created_at r,
      sc_completed_at = rs_completed_at r, sc_expires_at = rs_expires_at r\<rparr>"

definition file_columns_of :: "json_codec \<Rightarrow> restore_file \<Rightarrow> file_columns" where
  "file_columns_of j f =
     \<lparr>fc_restore_set_id = rf_restore_set_id f, fc_ordinal = uint (rf_ordinal f),
      fc_path_bytes = persisted_bytes (rf_path f), fc_status = status_label (rf_status f),
      fc_pre_size = uint (rf_pre_size f), fc_pre_sha256 = rf_pre_sha256 f,
      fc_pre_artifact_key = rf_pre_artifact_key f, fc_result_size = uint (rf_result_size f),
      fc_result_sha256 = rf_result_sha256 f, fc_metadata_fingerprint_json = jc_metadata j (rf_metadata f)\<rparr>"

definition columns_of :: "json_codec \<Rightarrow> journal \<Rightarrow> set_columns list \<times> file_columns list" where
  "columns_of j s = (map (set_columns_of j) (jn_sets s), map (file_columns_of j) (jn_set_files s))"

section \<open>Reading a row\<close>

definition parse_status :: "rstr \<Rightarrow> undo_schema_error + restore_file_status" where
  "parse_status = parse_label [(status_label FsModified, FsModified)] FsUnknown"

definition checked_u64 :: "int \<Rightarrow> string \<Rightarrow> journal_error + u64" where
  "checked_u64 v field = (if 0 \<le> v \<and> v < 2 ^ 64 then Inr (word_of_int v) else deny (''invalid '' @ field))"

definition checked_u32 :: "int \<Rightarrow> string \<Rightarrow> journal_error + u32" where
  "checked_u32 v field = (if 0 \<le> v \<and> v < 2 ^ 32 then Inr (word_of_int v) else deny (''invalid '' @ field))"

definition parse_guarded_json :: "(rstr \<Rightarrow> 'a option) \<Rightarrow> string \<Rightarrow> rstr \<Rightarrow> journal_error + 'a" where
  "parse_guarded_json parse field raw =
     (case parse raw of Some x \<Rightarrow> Inr x | None \<Rightarrow> deny (''invalid '' @ field @ '' schema''))"

definition digest_from_blob :: "bytes \<Rightarrow> journal_error + sha256_digest" where
  "digest_from_blob bs =
     (if length bs = 32 then Inr bs
      else Inl (JeSchema (InvalidField (lit ''SHA-256 must be exactly 32 bytes''))))"

definition artifact_key_from_blob :: "bytes \<Rightarrow> journal_error + artifact_key" where
  "artifact_key_from_blob bs =
     (if length bs = 16 then Inr bs
      else Inl (JeSchema (InvalidField (lit ''artifact key must be exactly 16 opaque bytes''))))"

text \<open>\<open>Option::map(..).transpose()\<close>.\<close>

definition parse_opt :: "('a \<Rightarrow> journal_error + 'b) \<Rightarrow> 'a option \<Rightarrow> journal_error + 'b option" where
  "parse_opt f x = (case x of None \<Rightarrow> Inr None | Some y \<Rightarrow> and_then (f y) (\<lambda>z. Inr (Some z)))"

definition read_set_columns :: "json_codec \<Rightarrow> set_columns \<Rightarrow> journal_error + restore_set" where
  "read_set_columns j c =
     (let root = map_option PhysicalRootId (sc_root_id c)
      in and_then (guarded (validate_opt root_validate root)) (\<lambda>_.
         and_then (parse_opt (parse_guarded_json (jc_parse_git j) ''git identity'') (sc_git_identity_json c)) (\<lambda>git.
         and_then (guarded (validate_opt git_validate git)) (\<lambda>_.
         and_then (guarded (parse_set_state (sc_state c))) (\<lambda>state.
         and_then (parse_opt (\<lambda>t. guarded (parse_reason t)) (sc_reason_code c)) (\<lambda>reason.
         and_then (checked_u32 (sc_capture_version c) ''capture_version'') (\<lambda>version.
         and_then (checked_u64 (sc_artifact_bytes c) ''artifact_bytes'') (\<lambda>artifact_bytes.
         and_then (checked_u32 (sc_file_count c) ''file_count'') (\<lambda>file_count.
         and_then (parse_opt digest_from_blob (sc_manifest_digest c)) (\<lambda>digest.
         Inr \<lparr>rs_restore_set_id = sc_restore_set_id c, rs_snapshot_id = sc_snapshot_id c,
              rs_session_id = sc_session_id c, rs_turn_id = sc_turn_id c,
              rs_workspace_id = sc_workspace_id c, rs_root_id = root, rs_capture_version = version,
              rs_state = state, rs_reason_code = reason, rs_git_identity = git,
              rs_artifact_bytes = artifact_bytes, rs_file_count = file_count,
              rs_manifest_digest = digest, rs_created_at = sc_created_at c,
              rs_completed_at = sc_completed_at c, rs_expires_at = sc_expires_at c\<rparr>))))))))))"

definition read_file_columns :: "json_codec \<Rightarrow> rstr \<Rightarrow> file_columns \<Rightarrow> journal_error + restore_file" where
  "read_file_columns j sid c =
     and_then (parse_guarded_json (jc_parse_metadata j) ''file metadata'' (fc_metadata_fingerprint_json c)) (\<lambda>metadata.
     and_then (guarded (metadata_validate metadata)) (\<lambda>_.
     and_then (checked_u32 (fc_ordinal c) ''ordinal'') (\<lambda>ordinal.
     and_then (guarded (parse_status (fc_status c))) (\<lambda>status.
     and_then (checked_u64 (fc_pre_size c) ''pre_size'') (\<lambda>pre_size.
     and_then (digest_from_blob (fc_pre_sha256 c)) (\<lambda>pre_sha256.
     and_then (artifact_key_from_blob (fc_pre_artifact_key c)) (\<lambda>key.
     and_then (checked_u64 (fc_result_size c) ''result_size'') (\<lambda>result_size.
     and_then (digest_from_blob (fc_result_sha256 c)) (\<lambda>result_sha256.
       let f = \<lparr>rf_restore_set_id = sid, rf_ordinal = ordinal, rf_path = OpaqueRepoPath (fc_path_bytes c),
                rf_status = status, rf_pre_size = pre_size, rf_pre_sha256 = pre_sha256,
                rf_pre_artifact_key = key, rf_result_size = result_size,
                rf_result_sha256 = result_sha256, rf_metadata = metadata\<rparr>
       in and_then (guarded (restore_file_validate f)) (\<lambda>_. Inr f))))))))))"

definition load_columns ::
    "db_env \<Rightarrow> json_codec \<Rightarrow> rstr \<Rightarrow> set_columns list \<times> file_columns list \<Rightarrow>
       journal_error + (restore_set \<times> restore_file list) option" where
  "load_columns e j sid = (\<lambda>(sets, all_files).
     case lookup_by sc_restore_set_id sid sets of
       None \<Rightarrow> Inr None
     | Some c \<Rightarrow>
         let rows = sort_key fc_ordinal (filter (\<lambda>f. fc_restore_set_id f = sid) all_files)
         in if \<not> opt_ok (\<lambda>json. sql_length json \<le> 65536) (sc_git_identity_json c)
               \<or> \<not> opt_ok (\<lambda>root. length root \<le> 1024) (sc_root_id c)
               \<or> unat MAX_RESTORE_FILES < length rows
               \<or> list_ex (\<lambda>f. 4096 < length (fc_path_bytes f)) rows
               \<or> list_ex (\<lambda>f. 4096 < sql_length (fc_metadata_fingerprint_json f)) rows
            then deny ''restoration record exceeds persistence bounds''
            else and_then (read_set_columns j c) (\<lambda>r.
              and_then (guarded (restore_set_validate r)) (\<lambda>_.
              if MAX_RESTORE_FILES < rs_file_count r
              then deny ''restoration accounting exceeds file limit''
              else and_then (collect_rows (read_file_columns j (rs_restore_set_id r)) rows) (\<lambda>files.
                if files \<noteq> []
                then and_then (guarded (validate_restore_set_manifest (de_sha256 e) r files))
                       (\<lambda>_. Inr (Some (r, files)))
                else if rs_manifest_digest r \<noteq> None
                then deny ''restoration manifest is missing its file rows''
                else Inr (Some (r, files))))))"

section \<open>A row reads back\<close>

text \<open>What a row must be for its columns to say it: values SQLite's constraints and the checks before a write allow.\<close>

definition set_fits :: "restore_set \<Rightarrow> bool" where
  "set_fits r \<longleftrightarrow> set_state_known (rs_state r) \<and> opt_ok reason_known (rs_reason_code r) \<and>
     opt_ok (\<lambda>d. length d = 32) (rs_manifest_digest r)"

definition file_fits :: "restore_file \<Rightarrow> bool" where
  "file_fits f \<longleftrightarrow> rf_status f = FsModified \<and> length (rf_pre_sha256 f) = 32 \<and>
     length (rf_pre_artifact_key f) = 16 \<and> length (rf_result_sha256 f) = 32"

lemma parse_set_state_text: "set_state_known st \<Longrightarrow> parse_set_state (set_state_text st) = Inr st"
  by (cases st) (simp_all add: parse_set_state_def parse_label_def)

lemma parse_reason_text:
  assumes "reason_known c"
  shows "parse_reason (reason_text c) = Inr c"
proof -
  have "distinct (map reason_text known_reasons)" by (simp add: known_reasons_def)
  moreover have "c \<in> set known_reasons" using assms by (cases c) (simp_all add: reason_known_def known_reasons_def)
  ultimately have "map_of reason_table (reason_text c) = Some c"
    by (intro map_of_is_SomeI) (auto simp: reason_table_def comp_def)
  then show ?thesis by (simp add: parse_reason_def parse_label_def)
qed

lemma parse_status_label: "parse_status (status_label FsModified) = Inr FsModified"
  by (simp add: parse_status_def parse_label_def)

lemma checked_words:
  "checked_u64 (uint (n :: u64)) field = Inr n" "checked_u32 (uint (k :: u32)) field = Inr k"
  using uint_lt2p [of n] uint_lt2p [of k] by (simp_all add: checked_u64_def checked_u32_def)

lemma root_columns: "map_option PhysicalRootId (map_option root_bytes x) = x"
  by (cases x) (auto, metis root_bytes.elims)

lemma path_column_back: "OpaqueRepoPath (persisted_bytes p) = p"
  by (cases p) simp

lemma read_set_back:
  assumes "codec_ok e j" and "set_fits r"
  shows "read_set_columns j (set_columns_of j r) =
    and_then (guarded (first_err [validate_opt root_validate (rs_root_id r), validate_opt git_validate (rs_git_identity r)]))
      (\<lambda>_. Inr r)"
proof -
  have git: "parse_opt (parse_guarded_json (jc_parse_git j) f) (map_option (jc_git j) g) = Inr g" for f g
    using assms(1) by (cases g) (simp_all add: parse_opt_def parse_guarded_json_def codec_ok_def)
  have reason: "parse_opt (\<lambda>t. guarded (parse_reason t)) (map_option reason_text (rs_reason_code r)) = Inr (rs_reason_code r)"
    using assms(2) by (cases "rs_reason_code r") (simp_all add: set_fits_def parse_opt_def parse_reason_text guarded_def)
  have digest: "parse_opt digest_from_blob (rs_manifest_digest r) = Inr (rs_manifest_digest r)"
    using assms(2) by (cases "rs_manifest_digest r") (simp_all add: set_fits_def parse_opt_def digest_from_blob_def)
  have state: "parse_set_state (set_state_text (rs_state r)) = Inr (rs_state r)"
    using assms(2) by (intro parse_set_state_text) (simp add: set_fits_def)
  show ?thesis
    by (simp add: read_set_columns_def set_columns_of_def Let_def root_columns git reason digest state checked_words)
      (simp add: guarded_def and_then_def split: sum.split)
qed

lemma read_file_back:
  assumes "codec_ok e j" and "file_fits f" and "rf_restore_set_id f = sid"
  shows "read_file_columns j sid (file_columns_of j f) =
    and_then (guarded (first_err [metadata_validate (rf_metadata f), restore_file_validate f])) (\<lambda>_. Inr f)"
proof -
  have json: "parse_guarded_json (jc_parse_metadata j) t (jc_metadata j (rf_metadata f)) = Inr (rf_metadata f)" for t
    using assms(1) by (simp add: parse_guarded_json_def codec_ok_def)
  have blobs: "digest_from_blob (rf_pre_sha256 f) = Inr (rf_pre_sha256 f)"
    "digest_from_blob (rf_result_sha256 f) = Inr (rf_result_sha256 f)"
    "artifact_key_from_blob (rf_pre_artifact_key f) = Inr (rf_pre_artifact_key f)" "rf_status f = FsModified"
    using assms(2) by (simp_all add: file_fits_def digest_from_blob_def artifact_key_from_blob_def)
  have whole: "\<lparr>rf_restore_set_id = sid, rf_ordinal = rf_ordinal f, rf_path = rf_path f, rf_status = FsModified,
      rf_pre_size = rf_pre_size f, rf_pre_sha256 = rf_pre_sha256 f, rf_pre_artifact_key = rf_pre_artifact_key f,
      rf_result_size = rf_result_size f, rf_result_sha256 = rf_result_sha256 f, rf_metadata = rf_metadata f\<rparr> = f"
    using assms(3) blobs(4) by (cases f) simp
  show ?thesis
    unfolding read_file_columns_def file_columns_of_def
    by (simp add: json blobs parse_status_label [simplified] checked_words path_column_back whole Let_def)
      (simp add: guarded_def and_then_def split: sum.split)
qed

section \<open>Reading through the columns\<close>

lemma sort_key_map: "sort_key key (map f xs) = map f (sort_key (\<lambda>x. key (f x)) xs)"
proof (induction xs)
  case (Cons x xs)
  have "insort_key key (f x) (map f ys) = map f (insort_key (\<lambda>x. key (f x)) x ys)" for ys
    by (induction ys) auto
  with Cons show ?case by simp
qed simp

lemma sort_key_order:
  assumes "\<And>x y. key x \<le> key y \<longleftrightarrow> key' x \<le> key' y"
  shows "sort_key key xs = sort_key key' xs"
proof (induction xs)
  case (Cons x xs)
  have "insort_key key x ys = insort_key key' x ys" for ys
    by (induction ys) (simp_all add: assms)
  with Cons show ?case by simp
qed simp

lemma lookup_columns: "lookup_by sc_restore_set_id sid (map (set_columns_of j) rows) =
    map_option (set_columns_of j) (lookup_by rs_restore_set_id sid rows)"
  by (induction rows) (simp_all add: set_columns_of_def)

lemma columns_rows:
  "sort_key fc_ordinal (filter (\<lambda>f. fc_restore_set_id f = sid) (map (file_columns_of j) rows)) =
     map (file_columns_of j) (sort_key rf_ordinal (filter (\<lambda>f. rf_restore_set_id f = sid) rows))"
proof -
  have "filter (\<lambda>f. fc_restore_set_id f = sid) (map (file_columns_of j) rows) =
      map (file_columns_of j) (filter (\<lambda>f. rf_restore_set_id f = sid) rows)"
    by (induction rows) (simp_all add: file_columns_of_def)
  moreover have "sort_key (\<lambda>f. fc_ordinal (file_columns_of j f)) fs = sort_key rf_ordinal fs" for fs
    by (rule sort_key_order) (simp add: file_columns_of_def word_le_def)
  ultimately show ?thesis by (simp add: sort_key_map)
qed

lemma collect_files:
  assumes "codec_ok e j" and "\<forall>f \<in> set files. file_fits f \<and> rf_restore_set_id f = sid"
  shows "collect_rows (read_file_columns j sid) (map (file_columns_of j) files) =
    and_then (guarded (first_err (concat (map (\<lambda>f. [metadata_validate (rf_metadata f), restore_file_validate f]) files))))
      (\<lambda>_. Inr files)"
  using assms(2)
proof (induction files)
  case (Cons f files)
  then have one: "read_file_columns j sid (file_columns_of j f) =
      and_then (guarded (first_err [metadata_validate (rf_metadata f), restore_file_validate f])) (\<lambda>_. Inr f)"
    by (intro read_file_back [OF assms(1)]) simp_all
  from Cons show ?case
    by (simp only: list.map collect_rows.simps one concat.simps first_err_append)
      (auto simp: guarded_def and_then_def split: sum.split)
qed (simp add: guarded_def)

definition columns_fit :: "journal \<Rightarrow> bool" where
  "columns_fit s \<longleftrightarrow> (\<forall>r \<in> set (jn_sets s). set_fits r) \<and> (\<forall>f \<in> set (jn_set_files s). file_fits f)"

lemma load_columns_same:
  assumes "codec_ok e j" and "columns_fit s"
  shows "load_columns e j sid (columns_of j s) = load_turn_restore_set e sid s"
proof (cases "lookup_by rs_restore_set_id sid (jn_sets s)")
  case None
  then show ?thesis by (simp add: load_columns_def columns_of_def load_turn_restore_set_def lookup_columns)
next
  case (Some r)
  let ?files = "set_files_of s sid"
  from Some have r: "set_fits r" "rs_restore_set_id r = sid"
    using assms(2) by (auto simp: columns_fit_def dest: lookup_by_SomeD)
  have files: "\<forall>f \<in> set ?files. file_fits f \<and> rf_restore_set_id f = sid"
    using assms(2) by (auto simp: columns_fit_def set_files_of_def)
  have json: "sql_length (jc_git j g) = de_git_json e g" "sql_length (jc_metadata j m) = de_metadata_json e m" for g m
    using assms(1) by (simp_all add: codec_ok_def)
  have rows: "sort_key fc_ordinal (filter (\<lambda>f. fc_restore_set_id f = sid) (map (file_columns_of j) (jn_set_files s))) =
      map (file_columns_of j) ?files"
    unfolding set_files_of_def by (rule columns_rows)
  have bounds: "opt_ok (\<lambda>json. sql_length json \<le> 65536) (sc_git_identity_json (set_columns_of j r)) =
      opt_ok (\<lambda>g. de_git_json e g \<le> 65536) (rs_git_identity r)"
    "opt_ok (\<lambda>root. length root \<le> 1024) (sc_root_id (set_columns_of j r)) =
      opt_ok (\<lambda>root. length (root_bytes root) \<le> 1024) (rs_root_id r)"
    "list_ex (\<lambda>f. 4096 < length (fc_path_bytes f)) (map (file_columns_of j) fs) =
      list_ex (\<lambda>f. 4096 < length (persisted_bytes (rf_path f))) fs"
    "list_ex (\<lambda>f. 4096 < sql_length (fc_metadata_fingerprint_json f)) (map (file_columns_of j) fs) =
      list_ex (\<lambda>f. 4096 < de_metadata_json e (rf_metadata f)) fs" for fs
    by (cases "rs_git_identity r"; cases "rs_root_id r"; induction fs;
      simp add: set_columns_of_def file_columns_of_def json)+
  show ?thesis
    unfolding load_columns_def columns_of_def load_turn_restore_set_def prod.case lookup_columns Some
      option.map option.case Let_def rows bounds length_map read_set_back [OF assms(1) r(1)]
    using r(2) collect_files [OF assms(1) files]
    by (auto simp: guarded_def and_then_def first_err.simps split: sum.split)
qed

section \<open>Every journal fits its columns\<close>

text \<open>
  The rows of a reachable journal fit their columns, and a file belongs to a set that has been
  finalized; \<open>free\<close> is the set whose finalization is under way.
\<close>

definition stored :: "rstr option \<Rightarrow> journal \<Rightarrow> bool" where
  "stored free s \<longleftrightarrow> columns_fit s \<and>
     (\<forall>f \<in> set (jn_set_files s). free = Some (rf_restore_set_id f) \<or>
        (\<exists>r \<in> set (jn_sets s). rs_restore_set_id r = rf_restore_set_id f \<and> rs_state r \<noteq> RsCollecting))"

lemma stored_frame:
  "jn_sets s' = jn_sets s \<Longrightarrow> jn_set_files s' = jn_set_files s \<Longrightarrow> stored free s \<Longrightarrow> stored free s'"
  by (simp add: stored_def columns_fit_def)

lemma stored_insert_set:
  assumes "insert_set e r s = Inr s'" and "stored None s"
    and "set_state_known (rs_state r)" and "opt_ok reason_known (rs_reason_code r)"
  shows "stored None s'"
proof -
  from assms(1) have "s' = s\<lparr>jn_sets := jn_sets s @ [r]\<rparr>" and "set_row_ok e r"
    by (auto simp: insert_set_def split: if_splits)
  then show ?thesis using assms(2-4)
    by (auto simp: stored_def columns_fit_def set_fits_def set_row_ok_def)
qed

lemma stored_update:
  assumes "update_set_row e sid a f message s = Inr s'" and "stored free s" and "free \<in> {None, Some sid}"
    and "\<And>q. rs_restore_set_id (f q) = rs_restore_set_id q" and "\<And>q. rs_state (f q) = b"
    and "b \<noteq> RsCollecting" and "set_state_known b"
    and "\<And>q. set_fits q \<Longrightarrow> opt_ok reason_known (rs_reason_code (f q))"
  shows "stored None s'"
proof -
  let ?hit = "\<lambda>q. rs_restore_set_id q = sid \<and> rs_state q = a"
  note rows = update_set_row_rows [OF assms(1)]
  from assms(1) have "filter ?hit (jn_sets s) \<noteq> []"
    by (auto simp: update_set_row_def Let_def deny_def changed_rows_def split: if_splits)
  then obtain q where q: "q \<in> set (jn_sets s)" "?hit q" by (auto simp: filter_empty_conv)
  have "set_fits r" if "r \<in> set (jn_sets s')" for r
  proof -
    from that rows obtain p where p: "p \<in> set (jn_sets s)" "r = (if ?hit p then f p else p)"
      by (auto simp: update_where_def)
    moreover have "set_fits p" using p(1) assms(2) by (simp add: stored_def columns_fit_def)
    moreover have "?hit p \<Longrightarrow> set_row_ok e (f p)" using rows p(1) by blast
    ultimately show ?thesis using assms(5,7,8)
      by (auto simp: set_fits_def set_row_ok_def)
  qed
  moreover have "\<exists>r \<in> set (jn_sets s'). rs_restore_set_id r = rf_restore_set_id g \<and> rs_state r \<noteq> RsCollecting"
    if "g \<in> set (jn_set_files s')" for g
  proof -
    have moved: "(if ?hit p then f p else p) \<in> set (jn_sets s')" if "p \<in> set (jn_sets s)" for p
      using that rows by (auto simp: update_where_def)
    from \<open>g \<in> set (jn_set_files s')\<close> rows have g: "g \<in> set (jn_set_files s)" by simp
    show ?thesis
    proof (cases "rf_restore_set_id g = sid")
      case True
      then show ?thesis using moved [OF q(1)] q(2) assms(4-6) by (intro bexI [of _ "f q"]) simp_all
    next
      case False
      with g assms(2,3) obtain p where "p \<in> set (jn_sets s)" "rs_restore_set_id p = rf_restore_set_id g"
        "rs_state p \<noteq> RsCollecting" by (auto simp: stored_def)
      then show ?thesis using moved [of p] False by (intro bexI [of _ p]) simp_all
    qed
  qed
  moreover have "\<forall>g \<in> set (jn_set_files s'). file_fits g"
    using rows assms(2) by (simp add: stored_def columns_fit_def)
  ultimately show ?thesis by (simp add: stored_def columns_fit_def)
qed

lemma fits_validated: "restore_set_validate r = Inr () \<Longrightarrow>
    set_state_known (rs_state r) \<and> opt_ok reason_known (rs_reason_code r)"
  unfolding restore_set_validate_def first_err_Inr_iff
  by (auto simp: require_known_state_def require_known_reason_def require_def validate_opt_def opt_ok_def
      split: option.splits if_splits)

lemma known_file: "restore_file_validate f = Inr () \<Longrightarrow> set_file_row_ok e f \<Longrightarrow> file_fits f"
  using restore_file_validate_facts(2) by (simp add: file_fits_def set_file_row_ok_def)

lemma finalize_stored:
  assumes "finalize_turn_restore_set e r files s = Inr (b, s')" and "stored None s"
  shows "stored None s'"
  using assms(1)
proof (cases rule: finalize_ok)
  case (2 s1 p pfiles)
  have s1: "s1 = s\<lparr>jn_set_files := jn_set_files s @ files\<rparr>" by (rule insert_set_files [OF 2(9)])
  have "\<forall>f \<in> set files. file_fits f \<and> rf_restore_set_id f = rs_restore_set_id r"
    using insert_set_files_ok [OF 2(9)] finalized_files(1) [OF 2(4,5)] known_file by blast
  then have "stored (Some (rs_restore_set_id r)) s1"
    using assms(2) by (auto simp: stored_def columns_fit_def s1)
  moreover have "rs_state r \<noteq> RsCollecting" using 2(7) .
  ultimately show ?thesis using fits_validated [OF 2(3)]
    by (intro stored_update [OF 2(10)]) auto
qed (simp add: assms(2))

lemma recover_sets_stored:
  "recover_sets e t sids s = Inr s' \<Longrightarrow> stored None s \<Longrightarrow> stored None s'"
proof (induction sids arbitrary: s)
  case (Cons sid sids)
  from Cons.prems(1) obtain s1 where
    up: "update_set_row e sid RsCollecting
            (\<lambda>q. q\<lparr>rs_state := RsFailed, rs_reason_code := Some GrCaptureInterrupted,
                   rs_completed_at := Some t\<rparr>)
            ''restoration recovery compare-and-swap lost'' s = Inr s1"
    and rest: "recover_sets e t sids s1 = Inr s'"
    by (auto simp: and_then_Inr_iff deny_def split: if_splits)
  have "stored None s1"
    by (rule stored_update [where b = RsFailed, OF up Cons.prems(2)]) (simp_all add: reason_known_def)
  with Cons.IH [OF rest] show ?case .
qed simp

lemma retire_stored:
  assumes "retire_eligible e sid f blocked lost s = Inr (b, s')" and "stored None s"
    and "\<forall>q. rs_restore_set_id (f q) = rs_restore_set_id q \<and> rs_state (f q) = st \<and>
      opt_ok reason_known (rs_reason_code (f q))"
    and "st = RsExpired \<or> st = RsFailed"
  shows "stored None s'"
proof -
  from assms(1) consider "s' = s" | "update_set_row e sid RsEligible f lost s = Inr s'"
    by (auto simp: retire_eligible_def deny_def and_then_Inr_iff split: if_splits option.splits)
  then show ?thesis
  proof cases
    case 2
    then show ?thesis using assms(3,4) by (intro stored_update [OF 2 assms(2)]) auto
  qed (simp add: assms(2))
qed

lemma maintenance_stored:
  "expire_eligible_restore_set e sid t s = Inr (b, s') \<Longrightarrow> stored None s \<Longrightarrow> stored None s'"
  "fail_eligible_restore_set_integrity e sid reason t s = Inr (b, s') \<Longrightarrow> stored None s \<Longrightarrow> stored None s'"
  unfolding expire_eligible_restore_set_def fail_eligible_restore_set_integrity_def deny_def
  by (auto simp: and_then_Inr_iff reason_known_def split: if_splits elim!: retire_stored)

lemma transition_operation_stored:
  assumes "transition_undo_operation e oid expected st reason details t s = Inr (b, s')" and "stored None s"
  shows "stored None s'"
  using assms(1)
proof (cases rule: transition_operation_ok)
  case (2 u files)
  from 2(6) obtain s1 where
    up: "update_operation_row e (uo_operation_id u) expected (moved_operation st reason details t) s = Inr s1"
    and last: "if st = UoCompleted
      then update_set_row e (uo_restore_set_id u) RsEligible (consumed_set t)
        ''completed operation could not atomically consume restoration set'' s1 = Inr s'
      else s' = s1"
    by (rule write_transition_ok)
  have one: "stored None s1"
    using update_operation_row_ok(2,3) [OF up] assms(2) by (rule stored_frame)
  show ?thesis
  proof (cases "st = UoCompleted")
    case True
    with last have "update_set_row e (uo_restore_set_id u) RsEligible (consumed_set t)
        ''completed operation could not atomically consume restoration set'' s1 = Inr s'" by simp
    then show ?thesis by (rule stored_update [where b = RsConsumed, OF _ one]) (simp_all add: consumed_set_def)
  qed (use last one in simp)
qed (simp add: assms(2))

lemma discard_stored:
  "insert_all discard_set sids s = Inr s' \<Longrightarrow> stored None s \<Longrightarrow> stored None s'"
proof (induction sids arbitrary: s)
  case (Cons sid sids)
  then obtain t where t: "discard_set sid s = Inr t" "insert_all discard_set sids t = Inr s'"
    by (auto simp: and_then_Inr_iff)
  have "stored None t"
    using Cons.prems(2) discard_set_ok(1,4) [OF t(1)] by (fastforce simp: stored_def columns_fit_def)
  with Cons.IH [OF t(2)] show ?case .
qed simp

lemma attempt_stored:
  assumes "attempt e c s = Inr s'" and "stored None s"
  shows "stored None s'"
proof (cases c)
  case (CreateSet r)
  then show ?thesis using assms
    by (auto simp: create_turn_restore_set_def deny_def and_then_Inr_iff split: if_splits
        elim!: stored_insert_set)
next
  case (PreflightTerminal r)
  then have "guarded (restore_set_validate r) = Inr ()" and
    "\<exists>q. insert_set e q s = Inr s' \<and> rs_state q = rs_state r \<and> rs_reason_code q = rs_reason_code r"
    using assms(1) by (auto simp: record_capture_v2_preflight_terminal_def deny_def and_then_Inr_iff split: if_splits)
  then show ?thesis using assms(2) fits_validated [of r]
    by (auto simp: guarded_def split: sum.splits elim!: stored_insert_set)
next
  case (CreateOperation u files)
  then have "create_undo_operation e u files s = Inr s'" using assms(1) by simp
  then show ?thesis
  proof (cases rule: create_operation_ok)
    case (1 r rfiles s1)
    show ?thesis using insert_operation_ok(1,3) [OF 1(9)] insert_op_files [OF 1(10)] assms(2)
      by (intro stored_frame [of s' s]) simp_all
  qed
next
  case (TransitionFile expected f)
  then obtain b where run: "transition_undo_operation_file e expected f s = Inr (b, s')"
    using assms(1) map_sum_snd_Inr by fastforce
  then show ?thesis
  proof (cases rule: transition_file_ok)
    case (2 u files r rfiles c)
    show ?thesis using write_file_ok [OF 2(12)] assms(2) by (intro stored_frame [of s' s]) simp_all
  qed (use assms(2) in simp)
next
  case (FinishCleanup oid)
  then show ?thesis using assms
    by (auto simp: finish_undo_operation_cleanup_def Let_def intro: stored_frame [of _ s])
next
  case (CaptureSnapshot snapshot owner)
  then show ?thesis using assms by (auto split: if_splits intro: stored_frame [of _ s])
qed (use assms in \<open>auto dest!: map_sum_snd_Inr simp: discard_restore_sets_def and_then_Inr_iff
    recover_interrupted_restore_sets_def Let_def
    intro: finalize_stored recover_sets_stored maintenance_stored transition_operation_stored discard_stored\<close>)

lemma run_stored: "stored None (run_calls e cs empty_journal)"
proof (induction cs rule: rev_induct)
  case (snoc c cs)
  then show ?case using attempt_stored by (auto simp: run_calls_def commit_def split: sum.split)
qed (simp add: run_calls_def stored_def columns_fit_def empty_journal_def)

section \<open>Reading back a finalized set\<close>

lemma collecting_has_no_files:
  assumes "tables_ok s" and "stored None s" and "p \<in> set (jn_sets s)" and "rs_state p = RsCollecting"
  shows "set_files_of s (rs_restore_set_id p) = []"
proof -
  have "rf_restore_set_id f \<noteq> rs_restore_set_id p" if "f \<in> set (jn_set_files s)" for f
  proof
    assume same: "rf_restore_set_id f = rs_restore_set_id p"
    with assms(2) that obtain r where r: "r \<in> set (jn_sets s)" "rs_restore_set_id r = rs_restore_set_id p"
      "rs_state r \<noteq> RsCollecting" by (auto simp: stored_def)
    have "lookup_by rs_restore_set_id (rs_restore_set_id q) (jn_sets s) = Some q" if "q \<in> set (jn_sets s)" for q
      using that assms(1) by (intro lookup_by_in) (simp_all add: tables_ok_def)
    from this [OF r(1)] this [OF assms(3)] have "Some r = Some p" unfolding r(2) by (rule trans [OF sym])
    then show False using r(3) assms(4) by simp
  qed
  then show ?thesis by (simp add: set_files_of_def filter_False)
qed

text \<open>
  C17: what \<open>finalize_turn_restore_set\<close> commits is what a reader gets from the columns: the texts,
  integers, blobs and JSON it wrote parse back to the set exactly as it was passed, with its files
  in the order of their ordinals, and every check of the reader passes. For every other set as
  well, reading the columns of the journal gives what the decoded rows give, errors included.
\<close>

theorem finalized_set_reads_back:
  assumes "s = run_calls e cs empty_journal" and "codec_ok e j"
    and "finalize_turn_restore_set e r files s = Inr (True, s')"
  shows "load_columns e j (rs_restore_set_id r) (columns_of j s') = Inr (Some (r, sort_key rf_ordinal files)) \<and>
    (\<forall>sid. load_columns e j sid (columns_of j s') = load_turn_restore_set e sid s')"
proof -
  have at: "stored None s" "tables_ok s" unfolding assms(1) by (rule run_stored, rule run_from_empty)
  have "columns_fit s'" using finalize_stored [OF assms(3) at(1)] by (simp add: stored_def)
  note same = load_columns_same [OF assms(2) this]
  have "set_files_of s (rs_restore_set_id r) = []"
    using assms(3)
  proof (cases rule: finalize_ok)
    case (2 s1 p pfiles)
    have p: "p \<in> set (jn_sets s)" "rs_restore_set_id p = rs_restore_set_id r" "rs_state p = RsCollecting"
      using load_set_SomeD [OF 2(2)] 2(8) by (auto simp: finalize_mismatch_def dest: lookup_by_SomeD)
    from collecting_has_no_files [OF at(2,1) p(1,3)] p(2) show ?thesis by simp
  qed simp
  from finalized_set_loads [OF assms(1) this assms(3)] same show ?thesis by simp
qed

text \<open>A codec for the instance: the values as numbers, behind a text of one character for SQLite.\<close>

definition enc_git :: "git_identity \<Rightarrow> bytes" where
  "enc_git = enc_as (\<lambda>g. (gi_schema_version g, gi_worktree_identity g, gi_git_dir_identity g,
      gi_common_dir_identity g, gi_head_oid g,
      (case gi_checkout_ref g of Symbolic name \<Rightarrow> Some name | Detached \<Rightarrow> None),
      ix_sha256 (gi_index g), ix_size (gi_index g), ix_stat_identity (gi_index g)))
    (enc_both enc_word (enc_both (enc_list enc_word) (enc_both (enc_list enc_word) (enc_both (enc_list enc_word)
      (enc_both (enc_list enc_word) (enc_both enc_opt (enc_both (enc_list enc_word)
        (enc_both enc_word (enc_list enc_word)))))))))"

definition dec_git :: "bytes \<Rightarrow> (git_identity \<times> bytes) option" where
  "dec_git = dec_as (\<lambda>(v, w, g, c, h, r, s, z, i). \<lparr>gi_schema_version = v, gi_worktree_identity = w,
      gi_git_dir_identity = g, gi_common_dir_identity = c, gi_head_oid = h,
      gi_checkout_ref = (case r of Some name \<Rightarrow> Symbolic name | None \<Rightarrow> Detached),
      gi_index = \<lparr>ix_sha256 = s, ix_size = z, ix_stat_identity = i\<rparr>\<rparr>)
    (dec_both dec_word (dec_both (dec_list dec_word) (dec_both (dec_list dec_word) (dec_both (dec_list dec_word)
      (dec_both (dec_list dec_word) (dec_both dec_opt (dec_both (dec_list dec_word)
        (dec_both dec_word (dec_list dec_word)))))))))"

definition enc_metadata :: "file_metadata \<Rightarrow> bytes" where
  "enc_metadata = enc_as (\<lambda>m. (fm_schema_version m, fm_adapter m, fm_file_identity m, fm_link_count m, fm_fields m))
    (enc_both enc_word (enc_both enc_str (enc_both (enc_list enc_word) (enc_both enc_word
      (enc_list (enc_both enc_str (enc_list enc_word)))))))"

definition dec_metadata :: "bytes \<Rightarrow> (file_metadata \<times> bytes) option" where
  "dec_metadata = dec_as (\<lambda>(v, a, i, l, fs). \<lparr>fm_schema_version = v, fm_adapter = a, fm_file_identity = i,
      fm_link_count = l, fm_fields = fs\<rparr>)
    (dec_both dec_word (dec_both dec_str (dec_both (dec_list dec_word) (dec_both dec_word
      (dec_list (dec_both dec_str (dec_list dec_word)))))))"

lemma git_reads_back: "reads_back enc_git dec_git"
  unfolding enc_git_def dec_git_def
  by (intro as_reads_back both_reads_back list_reads_back field_reads_back)
    (auto intro!: git_identity.equality index_identity.equality split: checkout_ref.split option.split)

lemma metadata_reads_back: "reads_back enc_metadata dec_metadata"
  unfolding enc_metadata_def dec_metadata_def
  by (intro as_reads_back both_reads_back list_reads_back field_reads_back) simp

definition as_text :: "('a \<Rightarrow> bytes) \<Rightarrow> 'a \<Rightarrow> rstr" where
  "as_text enc x = [1, 0] @ map unat (enc x)"

definition of_text :: "(bytes \<Rightarrow> ('a \<times> bytes) option) \<Rightarrow> rstr \<Rightarrow> 'a option" where
  "of_text decode t = map_option fst (decode (map word_of_nat (drop 2 t)))"

lemma text_reads_back: "reads_back enc decode \<Longrightarrow> of_text decode (as_text enc x) = Some x"
  using reads_backD [of enc decode x "[]"] by (simp add: of_text_def as_text_def comp_def)

definition sample_codec :: json_codec where
  "sample_codec = \<lparr>jc_git = as_text enc_git, jc_parse_git = of_text dec_git,
     jc_metadata = as_text enc_metadata, jc_parse_metadata = of_text dec_metadata\<rparr>"

lemma sample_codec_ok: "codec_ok sample_env sample_codec"
  by (simp add: codec_ok_def sample_codec_def text_reads_back git_reads_back metadata_reads_back sample_env_def)
    (simp add: as_text_def sql_length_def)

theorem finalized_set_reads_back_witness:
  "load_columns sample_env sample_codec (lit ''set'') (columns_of sample_codec (journal_with [eligible_set] [sample_file 0 97])) =
     Inr (Some (eligible_set, [sample_file 0 97]))"
proof -
  let ?calls = "[CaptureSnapshot (lit ''snap'') (lit ''s1'', lit ''t1'', lit ''w1''), CreateSet collecting_set]"
  have "attempt sample_env (CaptureSnapshot (lit ''snap'') (lit ''s1'', lit ''t1'', lit ''w1'')) empty_journal =
      Inr (journal_with [] [])"
    by (simp add: empty_journal_def journal_with_def)
  with sample_create_set have run: "run_calls sample_env ?calls empty_journal = journal_with [collecting_set] []"
    by (simp add: run_calls_def commit_def del: attempt.simps)
  have "\<exists>b. finalize_turn_restore_set sample_env eligible_set [sample_file 0 97] (journal_with [collecting_set] []) =
      Inr (b, journal_with [eligible_set] [sample_file 0 97])"
    using sample_finalize map_sum_snd_Inr by simp
  then obtain b where "finalize_turn_restore_set sample_env eligible_set [sample_file 0 97]
      (journal_with [collecting_set] []) = Inr (b, journal_with [eligible_set] [sample_file 0 97])" ..
  moreover from this have "b" by (cases rule: finalize_ok) (simp_all add: journal_with_def)
  ultimately have fin: "finalize_turn_restore_set sample_env eligible_set [sample_file 0 97]
      (journal_with [collecting_set] []) = Inr (True, journal_with [eligible_set] [sample_file 0 97])" by simp
  from finalized_set_reads_back [OF run [symmetric] sample_codec_ok fin] have
    "load_columns sample_env sample_codec (rs_restore_set_id eligible_set)
       (columns_of sample_codec (journal_with [eligible_set] [sample_file 0 97])) =
     Inr (Some (eligible_set, sort_key rf_ordinal [sample_file 0 97]))" ..
  then show ?thesis by simp
qed

end
