(* ===== verification/Timeline_Events.thy ===== *)
theory Timeline_Events
  imports Session_Types
begin

text \<open>
  The events a projection of the conversation folds (\<open>domain/timeline/events.rs\<close>): one
  session's records, without the turns a rewind removed, each run of adjacent deltas to one
  item joined into one event.
\<close>

record timeline_event =
  tl_kind :: session_event_kind
  tl_occurred_at :: rstr

text \<open>The item a streaming delta appends to; \<open>u8\<close> tags as in the source.\<close>

type_synonym run_target = "u8 \<times> turn_id \<times> rstr"

definition run_target :: "session_event_kind \<Rightarrow> run_target option" where
  "run_target kind =
     (case kind of
        TurnDelta t _ \<Rightarrow> Some (0, t, [])
      | TurnAssistantMessageDelta t m _ \<Rightarrow> Some (1, t, m)
      | TurnReasoningDelta t r _ \<Rightarrow> Some (2, t, r)
      | TurnToolCallDelta t c _ \<Rightarrow> Some (3, t, c)
      | _ \<Rightarrow> None)"

definition delta_content :: "session_event_kind \<Rightarrow> rstr" where
  "delta_content kind =
     (case kind of
        TurnDelta _ content \<Rightarrow> content
      | TurnAssistantMessageDelta _ _ content \<Rightarrow> content
      | TurnReasoningDelta _ _ content \<Rightarrow> content
      | TurnToolCallDelta _ _ content \<Rightarrow> content
      | _ \<Rightarrow> [])"

definition set_delta_content :: "session_event_kind \<Rightarrow> rstr \<Rightarrow> session_event_kind" where
  "set_delta_content kind joined =
     (case kind of
        TurnDelta t _ \<Rightarrow> TurnDelta t joined
      | TurnAssistantMessageDelta t m _ \<Rightarrow> TurnAssistantMessageDelta t m joined
      | TurnReasoningDelta t r _ \<Rightarrow> TurnReasoningDelta t r joined
      | TurnToolCallDelta t c _ \<Rightarrow> TurnToolCallDelta t c joined
      | k \<Rightarrow> k)"

text \<open>One run: the first event with the text of all of them.\<close>

definition run_event :: "session_event_record \<Rightarrow> session_event_record list \<Rightarrow> timeline_event" where
  "run_event first rest =
     \<lparr>tl_kind = (if rest = [] then er_kind first
        else set_delta_content (er_kind first)
               (concat (map (\<lambda>e. delta_content (er_kind e)) (first # rest)))),
      tl_occurred_at = er_occurred_at first\<rparr>"

definition same_run :: "session_event_record \<Rightarrow> session_event_record \<Rightarrow> bool" where
  "same_run first e \<longleftrightarrow> run_target (er_kind first) \<noteq> None \<and> run_target (er_kind e) = run_target (er_kind first)"

function compact_runs :: "session_event_record list \<Rightarrow> timeline_event list" where
  "compact_runs [] = []"
| "compact_runs (first # es) =
     run_event first (takeWhile (same_run first) es) # compact_runs (dropWhile (same_run first) es)"
  by pat_completeness auto
termination
  by (relation "measure length") (auto simp: less_Suc_eq_le length_dropWhile_le)

definition timeline :: "session_event_record list \<Rightarrow> session_id \<Rightarrow> timeline_event list" where
  "timeline records sid =
     compact_runs (visible_session_events (filter (\<lambda>e. er_session_id e = sid) records))"

section \<open>Joining is independent of how a run was cut\<close>

definition plain_event :: "session_event_record \<Rightarrow> timeline_event" where
  "plain_event e = \<lparr>tl_kind = er_kind e, tl_occurred_at = er_occurred_at e\<rparr>"

text \<open>An event in front of joined events.\<close>

fun cons_run :: "timeline_event \<Rightarrow> timeline_event list \<Rightarrow> timeline_event list" where
  "cons_run e [] = [e]"
| "cons_run e (x # xs) =
     (if run_target (tl_kind e) \<noteq> None \<and> run_target (tl_kind x) = run_target (tl_kind e)
      then e\<lparr>tl_kind := set_delta_content (tl_kind e)
               (delta_content (tl_kind e) @ delta_content (tl_kind x))\<rparr> # xs
      else e # x # xs)"

lemma run_target_set [simp]: "run_target (set_delta_content k w) = run_target k"
  by (cases k) (simp_all add: run_target_def set_delta_content_def)

lemma delta_content_set [simp]: "run_target k \<noteq> None \<Longrightarrow> delta_content (set_delta_content k w) = w"
  by (cases k) (simp_all add: run_target_def set_delta_content_def delta_content_def)

lemma set_delta_content_set [simp]: "set_delta_content (set_delta_content k v) w = set_delta_content k w"
  by (cases k) (simp_all add: set_delta_content_def)

lemma set_delta_content_same [simp]: "set_delta_content k (delta_content k) = k"
  by (cases k) (simp_all add: set_delta_content_def delta_content_def)

lemma tl_kind_run_event:
  "same_run first e \<Longrightarrow> tl_kind (run_event e rest) =
     set_delta_content (er_kind e) (concat (map (\<lambda>e. delta_content (er_kind e)) (e # rest)))"
  by (simp add: run_event_def)

lemma run_target_run_event [simp]: "run_target (tl_kind (run_event e rest)) = run_target (er_kind e)"
  by (simp add: run_event_def)

lemma compact_runs_Cons: "compact_runs (e # es) = cons_run (plain_event e) (compact_runs es)"
proof (cases es)
  case Nil
  then show ?thesis by (simp add: run_event_def plain_event_def)
next
  case (Cons f fs)
  show ?thesis
  proof (cases "same_run e f")
    case False
    then have "\<not> (run_target (er_kind e) \<noteq> None \<and> run_target (er_kind f) = run_target (er_kind e))"
      by (simp add: same_run_def)
    then show ?thesis using Cons False by (simp add: run_event_def plain_event_def)
  next
    case True
    then have "same_run f = same_run e" by (auto simp: same_run_def fun_eq_iff)
    moreover have "run_target (er_kind f) \<noteq> None" "run_target (er_kind e) = run_target (er_kind f)"
      using True by (auto simp: same_run_def)
    ultimately show ?thesis using Cons True tl_kind_run_event [OF True]
      by (simp add: plain_event_def) (simp add: run_event_def)
  qed
qed

lemma compact_runs_foldr: "compact_runs es = foldr (\<lambda>e. cons_run (plain_event e)) es []"
  by (induction es) (simp, simp only: compact_runs_Cons foldr.simps comp_apply)

lemma compact_runs_append:
  "compact_runs (es @ fs) = foldr (\<lambda>e. cons_run (plain_event e)) es (compact_runs fs)"
  by (simp add: compact_runs_foldr)

text \<open>A run in front of joined events is one event with its text.\<close>

definition joined_event :: "session_event_record list \<Rightarrow> timeline_event" where
  "joined_event es = run_event (hd es) (tl es)"

lemma cons_run_joined:
  assumes "\<forall>e \<in> set (f # es). run_target (er_kind e) = Some d"
  shows "foldr (\<lambda>e. cons_run (plain_event e)) (f # es) xs = cons_run (joined_event (f # es)) xs"
  using assms
proof (induction es arbitrary: f)
  case Nil
  then show ?case by (simp add: joined_event_def run_event_def plain_event_def)
next
  case (Cons g es)
  from Cons.IH [of g] Cons.prems
  have "foldr (\<lambda>e. cons_run (plain_event e)) (f # g # es) xs =
      cons_run (plain_event f) (cons_run (joined_event (g # es)) xs)" by simp
  also have "\<dots> = cons_run (joined_event (f # g # es)) xs"
    using Cons.prems by (cases xs) (auto simp: joined_event_def run_event_def plain_event_def
      simp del: split_paired_Ex split_paired_All)
  finally show ?case .
qed

end
