(* ===== verification/Timeline_Types.thy ===== *)
theory Timeline_Types
  imports Timeline_Events
begin

text \<open>
  The rows of a conversation (\<open>domain/timeline/mod.rs\<close>): messages with their annotations, and
  the permission requests that still wait (\<open>pending.rs\<close>). Turns are named by their \<open>turn_id\<close>
  where the source keys by its text.
\<close>

datatype role = UserRole | AssistantRole | SystemRole

record incomplete_status =
  is_reason :: "rstr option"
  is_usage_limited :: bool
  is_continued_on_account :: "rstr option"

record tool_call =
  tk_id :: rstr
  tk_action :: rstr
  tk_command :: "rstr option"
  tk_file :: "rstr option"
  tk_content :: rstr
  tk_detail :: "tool_call_detail option"
  tk_streaming :: bool
  tk_created_at :: "rstr option"
  tk_failure :: "rstr option"

record native_subagent =
  na_id :: rstr
  na_agent_id :: "rstr option"
  na_agent_thread_id :: "rstr option"
  na_path :: "rstr option"
  na_name :: "rstr option"
  na_role :: "rstr option"
  na_model :: "rstr option"
  na_requested_model :: "rstr option"
  na_status :: native_subagent_status
  na_streaming :: bool
  na_created_at :: "rstr option"

datatype annotation =
    CommentaryNote rstr rstr bool "rstr option"
      \<comment> \<open>id, content, streaming, created at\<close>
  | ReasoningNote rstr "rstr option" rstr bool "rstr option"
      \<comment> \<open>id, label, content, streaming, created at\<close>
  | ToolCallNote tool_call
  | UserInputNote rstr "provider_user_input_question list" "provider_user_input_answer list" bool "rstr option"
      \<comment> \<open>id, questions, answers, streaming, created at\<close>
  | ApprovalNote rstr rstr "rstr option" "rstr option" "rstr option" "rstr option" "rstr option" bool "rstr option"
      \<comment> \<open>id, tool name, title, description, command, file, behavior, streaming, created at\<close>
  | SubagentNote native_subagent

fun annotation_id :: "annotation \<Rightarrow> rstr" where
  "annotation_id (CommentaryNote i _ _ _) = i"
| "annotation_id (ReasoningNote i _ _ _ _) = i"
| "annotation_id (UserInputNote i _ _ _ _) = i"
| "annotation_id (ApprovalNote i _ _ _ _ _ _ _ _) = i"
| "annotation_id (ToolCallNote call) = tk_id call"
| "annotation_id (SubagentNote agent) = na_id agent"

fun annotation_kind :: "annotation \<Rightarrow> u8" where
  "annotation_kind (CommentaryNote _ _ _ _) = 0"
| "annotation_kind (ReasoningNote _ _ _ _ _) = 1"
| "annotation_kind (ToolCallNote _) = 2"
| "annotation_kind (UserInputNote _ _ _ _ _) = 3"
| "annotation_kind (ApprovalNote _ _ _ _ _ _ _ _ _) = 4"
| "annotation_kind (SubagentNote _) = 5"

fun set_streaming :: "bool \<Rightarrow> annotation \<Rightarrow> annotation" where
  "set_streaming v (CommentaryNote i c _ at) = CommentaryNote i c v at"
| "set_streaming v (ReasoningNote i l c _ at) = ReasoningNote i l c v at"
| "set_streaming v (UserInputNote i qs ans _ at) = UserInputNote i qs ans v at"
| "set_streaming v (ApprovalNote i n t d c f b _ at) = ApprovalNote i n t d c f b v at"
| "set_streaming v (ToolCallNote call) = ToolCallNote (call\<lparr>tk_streaming := v\<rparr>)"
| "set_streaming v (SubagentNote agent) = SubagentNote (agent\<lparr>na_streaming := v\<rparr>)"

datatype delegation_phase =
    DpRequested | DpRunning | DpCompleted | DpFailed | DpCancelled

record timeline_delegation =
  td_id :: delegation_id
  td_phase :: delegation_phase
  td_child_session_id :: "session_id option"
  td_summary :: "rstr option"
  td_reason :: "rstr option"

record open_session =
  os_session_id :: session_id
  os_label :: rstr

datatype hand_back_outcome = HbFinished | HbFailed | HbApplied | HbDiscarded | HbTaskTurn

record delegation_hand_back =
  hb_delegation_id :: rstr
  hb_outcome :: hand_back_outcome

record timeline_message =
  tm_id :: rstr
  tm_role :: role
  tm_turn_id :: "turn_id option"
  tm_turn_settled :: bool
  tm_turn_started_at :: "rstr option"
  tm_turn_ended_at :: "rstr option"
  tm_assistant_phase :: "assistant_message_phase option"
  tm_content :: rstr
  tm_label :: rstr
  tm_model :: "rstr option"
  tm_streaming :: bool
  tm_created_at :: "rstr option"
  tm_status :: "incomplete_status option"
  tm_annotations :: "annotation list"
  tm_plan_mode :: bool
  tm_answers_plan_mode :: bool
  tm_evidence :: "turn_evidence_summary option"
  tm_retry_of_turn_id :: "turn_id option"
  tm_action :: "open_session option"
  tm_delegation :: "timeline_delegation option"
  tm_delegation_turn_id :: "turn_id option"
  tm_hand_back :: "delegation_hand_back option"

definition new_message :: "rstr \<Rightarrow> role \<Rightarrow> rstr \<Rightarrow> rstr \<Rightarrow> timeline_message" where
  "new_message i r label content =
     \<lparr>tm_id = i, tm_role = r, tm_turn_id = None, tm_turn_settled = False,
      tm_turn_started_at = None, tm_turn_ended_at = None, tm_assistant_phase = None,
      tm_content = content, tm_label = label, tm_model = None, tm_streaming = False,
      tm_created_at = None, tm_status = None, tm_annotations = [], tm_plan_mode = False,
      tm_answers_plan_mode = False, tm_evidence = None, tm_retry_of_turn_id = None,
      tm_action = None, tm_delegation = None, tm_delegation_turn_id = None, tm_hand_back = None\<rparr>"

section \<open>Pending permission requests\<close>

fun awaits_decision :: "annotation \<Rightarrow> bool" where
  "awaits_decision (ApprovalNote _ _ _ _ _ _ behavior True _) = (\<not> is_some_and behavior (\<lambda>b. b \<noteq> []))"
| "awaits_decision _ = False"

fun pending_from :: "rstr list \<Rightarrow> annotation list \<Rightarrow> annotation list" where
  "pending_from seen [] = []"
| "pending_from seen (a # annotations) =
     (if awaits_decision a \<and> annotation_id a \<notin> set seen
      then a # pending_from (seen @ [annotation_id a]) annotations
      else pending_from seen annotations)"

definition pending_permission_requests :: "timeline_message list \<Rightarrow> annotation list" where
  "pending_permission_requests messages = pending_from [] (concat (map tm_annotations messages))"

end
