(* ===== verification/Timeline_Fold.thy ===== *)
theory Timeline_Fold
  imports Timeline_Types
begin

text \<open>
  The texts and the last steps of a projection: the notes of session-level events
  (\<open>timeline/summary.rs\<close>), the turns the backend writes when a delegation hands back
  (\<open>hand_back.rs\<close>), one assistant row per turn, and the delegation cards placed after their
  turn (\<open>fold.rs\<close>). \<open>alphanumeric\<close> stands for the Unicode table of \<open>char::is_alphanumeric\<close>.
\<close>

section \<open>Notes\<close>

primrec session_text :: "session_id \<Rightarrow> rstr" where "session_text (SessionId s) = s"
primrec turn_text :: "turn_id \<Rightarrow> rstr" where "turn_text (TurnId t) = t"
primrec delegation_id_text :: "delegation_id \<Rightarrow> rstr" where "delegation_id_text (DelegationId d) = d"

definition plural :: "nat \<Rightarrow> rstr" where
  "plural n = (if n = 1 then [] else lit ''s'')"

primrec pause_note :: "objective_pause_reason \<Rightarrow> u32 \<Rightarrow> u32 \<Rightarrow> rstr" where
  "pause_note OprConsecutiveFailures failures turns =
     lit ''consecutive failures reached the limit ('' @ dec (unat failures) @ lit '')''"
| "pause_note OprTurnBudget failures turns = lit ''turn budget reached ('' @ dec (unat turns) @ lit '')''"
| "pause_note OprManual failures turns = lit ''paused''"

primrec rewind_context_text :: "rewind_provider_context \<Rightarrow> rstr" where
  "rewind_context_text RewindFresh = lit ''the agent starts a new conversation''"
| "rewind_context_text RewindNative = lit ''the agent'' @ [39] @ lit ''s own conversation was cut at the same point''"

definition restored_text :: "nat \<Rightarrow> rstr" where
  "restored_text n =
     (if 0 < n then lit ''files restored for '' @ dec n @ lit '' turn'' @ plural n
      else lit ''files kept as they were'')"

definition system_note :: "session_event_kind \<Rightarrow> (rstr \<times> rstr) option" where
  "system_note kind =
     (case kind of
        SessionCompleted \<Rightarrow> Some (lit ''session.completed'', [])
      | SessionAborted reason \<Rightarrow>
          Some (lit ''session.aborted'', case reason of Some r \<Rightarrow> r | None \<Rightarrow> lit ''Session aborted'')
      | SessionResumed \<Rightarrow> Some (lit ''session.resumed'', [])
      | ObjectivePaused reason failures turns \<Rightarrow>
          Some (lit ''session.objective.paused'',
            lit ''Objective paused automatically: '' @ pause_note reason failures turns @
            lit ''. Queued follow-ups stop until you resume it.'')
      | ConversationRewound _ removed context restored \<Rightarrow>
          Some (lit ''session.conversation.rewound'',
            lit ''Edited from an earlier message: '' @ dec (length removed) @ lit '' turn'' @
            plural (length removed) @ lit '' left the conversation; '' @ rewind_context_text context @
            lit ''; '' @ restored_text (length restored) @ lit ''.'')
      | CheckpointCreated _ label \<Rightarrow> Some (lit ''session.checkpoint.created'', label)
      | _ \<Rightarrow> None)"

definition with_session_id :: "rstr \<Rightarrow> rstr \<Rightarrow> session_id \<Rightarrow> rstr" where
  "with_session_id label content sid =
     (if content = [] \<and> (label = lit ''session.completed'' \<or> label = lit ''session.resumed'')
      then session_text sid else content)"

definition delegation_text :: "session_event_kind \<Rightarrow> rstr option" where
  "delegation_text kind =
     (case kind of
        DelegationRequested d \<Rightarrow> Some (lit ''Delegation requested '' @ [183, 32] @ delegation_id_text d)
      | DelegationStarted _ child \<Rightarrow>
          Some (case child of
                  Some c \<Rightarrow> lit ''Child session '' @ session_text c @ lit '' is running.''
                | None \<Rightarrow> lit ''Delegation is running.'')
      | DelegationDelta _ content \<Rightarrow> Some content
      | DelegationCompleted _ summary \<Rightarrow>
          Some (case summary of Some s \<Rightarrow> s | None \<Rightarrow> lit ''Delegation completed.'')
      | DelegationFailed _ reason \<Rightarrow> Some (case reason of Some r \<Rightarrow> r | None \<Rightarrow> lit ''Delegation failed.'')
      | DelegationCancelled _ reason \<Rightarrow>
          Some (case reason of Some r \<Rightarrow> r | None \<Rightarrow> lit ''Delegation cancelled.'')
      | _ \<Rightarrow> None)"

section \<open>Hand-backs\<close>

fun find_sub :: "rstr \<Rightarrow> rstr \<Rightarrow> nat option" where
  "find_sub p [] = (if p = [] then Some 0 else None)"
| "find_sub p (c # s) = (if starts_with (c # s) p then Some 0 else map_option Suc (find_sub p s))"

fun rfind_sub :: "rstr \<Rightarrow> rstr \<Rightarrow> nat option" where
  "rfind_sub p [] = (if p = [] then Some 0 else None)"
| "rfind_sub p (c # s) =
     (case rfind_sub p s of
        Some i \<Rightarrow> Some (Suc i) | None \<Rightarrow> if starts_with (c # s) p then Some 0 else None)"

text \<open>The em dash between spaces.\<close>

definition dash :: rstr where "dash = [32, 8212, 32]"

definition task_id_after :: "rstr \<Rightarrow> rstr \<Rightarrow> rstr option" where
  "task_id_after line before =
     Option.bind (find_sub before line) (\<lambda>i.
       let rest = drop (i + length before) line
       in Option.bind (rfind_sub (lit ''(task '') rest) (\<lambda>j.
            let tail = drop (j + 6) rest
            in Option.bind (position (\<lambda>c. c = 41) tail) (\<lambda>e.
                 let i = take e tail
                 in if i \<noteq> [] \<and> \<not> list_ex is_whitespace i \<and> starts_with (drop e tail) (lit '').'')
                    then Some i else None)))"

definition one_word :: "(uchar \<Rightarrow> bool) \<Rightarrow> rstr \<Rightarrow> (rstr \<times> rstr) option" where
  "one_word alphanumeric s =
     (let word = takeWhile (\<lambda>c. alphanumeric c \<or> c = 95) s
      in if word \<noteq> [] then Some (word, drop (length word) s) else None)"

definition hand_back :: "hand_back_outcome \<Rightarrow> rstr \<Rightarrow> delegation_hand_back" where
  "hand_back outcome i = \<lparr>hb_delegation_id = i, hb_outcome = outcome\<rparr>"

definition task_done :: "rstr \<Rightarrow> string \<times> hand_back_outcome \<Rightarrow> delegation_hand_back option" where
  "task_done rest = (\<lambda>(word, outcome).
     if starts_with rest (lit '' task '' @ lit word @ dash)
     then map_option (hand_back outcome) (task_id_after rest dash) else None)"

definition edits_decided ::
    "(uchar \<Rightarrow> bool) \<Rightarrow> rstr \<Rightarrow> string \<times> hand_back_outcome \<Rightarrow> delegation_hand_back option" where
  "edits_decided alphanumeric line = (\<lambda>(word, outcome).
     Option.bind (strip_prefix (lit ''[DCC] The human '' @ lit word @ lit '' the edits from your delegated '') line)
       (\<lambda>rest. Option.bind (one_word alphanumeric rest) (\<lambda>(_, rest).
       if starts_with rest (lit '' task'' @ dash)
       then map_option (hand_back outcome) (task_id_after rest (lit '' task'' @ dash)) else None)))"

definition parse_delegation_hand_back :: "(uchar \<Rightarrow> bool) \<Rightarrow> rstr \<Rightarrow> delegation_hand_back option" where
  "parse_delegation_hand_back alphanumeric content =
     (let line = takeWhile (\<lambda>c. c \<noteq> 10) (trim_start content);
          quote_dash = lit [CHR 0x22] @ lit '' ended a turn'' @ dash
      in or_opt
        (Option.bind (strip_prefix (lit ''[DCC] Delegated '') line) (\<lambda>rest.
           Option.bind (one_word alphanumeric rest) (\<lambda>(_, rest).
           find_map (task_done rest) [(''finished'', HbFinished), (''failed'', HbFailed)])))
       (or_opt
        (if starts_with line (lit ''[DCC] Task '' @ lit [CHR 0x22]) \<and> find_sub quote_dash line \<noteq> None
         then map_option (hand_back HbTaskTurn) (task_id_after line quote_dash) else None)
        (find_map (edits_decided alphanumeric line) [(''APPLIED'', HbApplied), (''DISCARDED'', HbDiscarded)])))"

section \<open>One assistant row per turn\<close>

fun same_native_subagent :: "annotation \<Rightarrow> annotation \<Rightarrow> bool" where
  "same_native_subagent (SubagentNote l) (SubagentNote r) =
     (na_id l = na_id r \<or>
      (na_agent_thread_id r \<noteq> None \<and> na_agent_thread_id l = na_agent_thread_id r) \<or>
      (na_agent_id r \<noteq> None \<and> na_agent_id l = na_agent_id r))"
| "same_native_subagent _ _ = False"

definition same_annotation :: "annotation \<Rightarrow> annotation \<Rightarrow> bool" where
  "same_annotation existing incoming \<longleftrightarrow>
     annotation_kind existing = annotation_kind incoming \<and>
     (case existing of
        SubagentNote _ \<Rightarrow> same_native_subagent existing incoming
      | _ \<Rightarrow> annotation_id existing = annotation_id incoming)"

fun merged_annotation :: "annotation \<Rightarrow> annotation \<Rightarrow> annotation" where
  "merged_annotation (SubagentNote e) (SubagentNote i) = SubagentNote
     (e\<lparr>na_agent_id := or_opt (na_agent_id i) (na_agent_id e),
        na_agent_thread_id := or_opt (na_agent_thread_id i) (na_agent_thread_id e),
        na_path := or_opt (na_path i) (na_path e), na_name := or_opt (na_name i) (na_name e),
        na_role := or_opt (na_role i) (na_role e), na_model := or_opt (na_model i) (na_model e),
        na_requested_model := or_opt (na_requested_model i) (na_requested_model e),
        na_created_at := or_opt (na_created_at i) (na_created_at e),
        na_status := na_status i, na_streaming := na_streaming i\<rparr>)"
| "merged_annotation _ incoming = incoming"

definition merge_annotation :: "annotation \<Rightarrow> annotation list \<Rightarrow> annotation list" where
  "merge_annotation incoming annotations =
     (case position (\<lambda>existing. same_annotation existing incoming) annotations of
        None \<Rightarrow> annotations @ [incoming]
      | Some i \<Rightarrow> annotations[i := merged_annotation (annotations ! i) incoming])"

definition option_or :: "'a option \<Rightarrow> 'a \<Rightarrow> 'a" where
  "option_or x d = (case x of Some y \<Rightarrow> y | None \<Rightarrow> d)"

definition terminal_row :: "bool \<Rightarrow> timeline_message list \<Rightarrow> nat list \<Rightarrow> nat" where
  "terminal_row settled messages rows =
     (let final_answer = find (\<lambda>i. tm_assistant_phase (messages ! i) = Some FinalAnswer) (rev rows)
      in if settled
         then option_or (or_opt final_answer (find (\<lambda>i. \<not> blank (tm_content (messages ! i))) (rev rows)))
                (last rows)
         else option_or final_answer (last rows))"

definition fold_row :: "bool \<Rightarrow> timeline_message list \<Rightarrow> nat \<Rightarrow> nat \<Rightarrow> annotation list \<Rightarrow> annotation list" where
  "fold_row settled messages terminal i folded =
     (let message = messages ! i;
          folded' = (if \<not> (i = terminal \<and> settled) \<and> \<not> blank (tm_content message)
            then merge_annotation
              (CommentaryNote (lit ''commentary-'' @ tm_id message) (tm_content message)
                 (if \<not> settled \<and> i = terminal then True else tm_streaming message)
                 (tm_created_at message)) folded
            else folded)
      in fold merge_annotation (tm_annotations message) folded')"

definition assistant_row_id :: "session_id \<Rightarrow> turn_id \<Rightarrow> rstr" where
  "assistant_row_id sid turn = lit ''assistant-'' @ session_text sid @ lit ''-'' @ turn_text turn"

definition fold_turn ::
    "(turn_id \<Rightarrow> bool) \<Rightarrow> session_id \<Rightarrow> turn_id \<times> nat list \<Rightarrow> timeline_message list \<times> nat list \<Rightarrow>
      timeline_message list \<times> nat list" where
  "fold_turn settled_turns sid = (\<lambda>(turn, rows) (messages, hidden).
     if rows = [] then (messages, hidden)
     else let settled = settled_turns turn;
              terminal = terminal_row settled messages rows;
              folded = fold (fold_row settled messages terminal) rows [];
              message = messages ! terminal
          in (messages[terminal := message\<lparr>tm_id := assistant_row_id sid turn, tm_turn_id := Some turn,
                tm_streaming := \<not> settled, tm_annotations := folded,
                tm_content := (if settled then tm_content message else [])\<rparr>],
              hidden @ filter (\<lambda>i. i \<noteq> terminal) rows))"

definition fold_assistant_turns ::
    "timeline_message list \<Rightarrow> (turn_id \<times> nat list) list \<Rightarrow> (turn_id \<Rightarrow> bool) \<Rightarrow> session_id \<Rightarrow>
      timeline_message list" where
  "fold_assistant_turns messages by_turn settled_turns sid =
     (let (messages', hidden) = fold (fold_turn settled_turns sid) by_turn (messages, [])
      in map snd (filter (\<lambda>(i, _). i \<notin> set hidden) (enumerate 0 messages')))"

section \<open>Delegation cards\<close>

definition last_row_of_turn :: "timeline_message list \<Rightarrow> turn_id \<Rightarrow> nat option" where
  "last_row_of_turn messages turn =
     rposition (\<lambda>m. tm_role m = AssistantRole \<and> tm_turn_id m = Some turn) messages"

definition card_anchor :: "timeline_message list \<Rightarrow> nat \<times> timeline_message \<Rightarrow> nat option" where
  "card_anchor messages = (\<lambda>(i, m).
     case Option.bind (tm_delegation_turn_id m) (last_row_of_turn messages) of
       Some anchor \<Rightarrow> if tm_delegation m \<noteq> None \<and> i < anchor then Some anchor else None
     | None \<Rightarrow> None)"

definition place_delegations_after_their_turn :: "timeline_message list \<Rightarrow> timeline_message list" where
  "place_delegations_after_their_turn messages =
     (if \<not> list_ex (\<lambda>m. tm_delegation m \<noteq> None \<and> tm_delegation_turn_id m \<noteq> None) messages then messages
      else let rows = enumerate 0 messages
           in concat (map (\<lambda>(i, m). m # map snd (filter (\<lambda>row. card_anchor messages row = Some i) rows))
                (filter (\<lambda>row. card_anchor messages row = None) rows)))"

end
