(* ===== verification/Timeline_Project.thy ===== *)
theory Timeline_Project
  imports Timeline_Fold "HOL-Library.AList"
begin

text \<open>
  The event-by-event fold of a conversation (\<open>domain/timeline/project.rs\<close>). Rows live in one
  list and the maps hold their positions, as in the source; \<open>assistant_items\<close>, which the source
  also iterates, is an association list. The steps follow \<open>Projector::apply\<close> arm by arm.
\<close>

section \<open>The projector\<close>

definition is_hidden_tool_action :: "rstr \<Rightarrow> bool" where
  "is_hidden_tool_action action \<longleftrightarrow> action = lit ''AskUserQuestion'' \<or> action = lit ''ExitPlanMode''"

definition no_detail :: tool_call_detail where
  "no_detail = \<lparr>tc_command = None, tc_file = None, tc_input = None, tc_output = None,
     tc_exit_code = None, tc_diff = None, tc_truncated = False\<rparr>"

definition pick :: "rstr option \<Rightarrow> rstr option \<Rightarrow> rstr option" where
  "pick target value = or_opt (filter_opt (\<lambda>v. v \<noteq> []) value) target"

definition merge_tool_call_detail :: "tool_call_detail option \<Rightarrow> tool_call \<Rightarrow> tool_call" where
  "merge_tool_call_detail detail call =
     (case detail of
        None \<Rightarrow> call
      | Some d \<Rightarrow>
          let base = option_or (tk_detail call) no_detail;
              merged = base\<lparr>tc_command := pick (tc_command base) (tc_command d),
                  tc_file := pick (tc_file base) (tc_file d), tc_input := pick (tc_input base) (tc_input d),
                  tc_output := pick (tc_output base) (tc_output d), tc_diff := pick (tc_diff base) (tc_diff d),
                  tc_exit_code := or_opt (tc_exit_code d) (tc_exit_code base),
                  tc_truncated := (tc_truncated d \<or> tc_truncated base)\<rparr>
          in call\<lparr>tk_command := or_opt (tk_command call) (tc_command merged),
                  tk_file := or_opt (tk_file call) (tc_file merged), tk_detail := Some merged\<rparr>)"

text \<open>The gap in front of text that resumes after a tool call.\<close>

definition ends_with :: "rstr \<Rightarrow> rstr \<Rightarrow> bool" where
  "ends_with s p \<longleftrightarrow> starts_with (rev s) (rev p)"

definition start_paragraph :: "rstr \<Rightarrow> rstr \<Rightarrow> rstr" where
  "start_paragraph existing upcoming =
     (if blank existing \<or> ends_with existing [10, 10] \<or> starts_with upcoming [10] then existing
      else existing @ (if ends_with existing [10] then [10] else [10, 10]))"

record projector =
  tp_session_id :: session_id
  tp_messages :: "timeline_message list"
  tp_assistant_buckets :: "turn_id \<rightharpoonup> nat"
  tp_assistant_items :: "((turn_id \<times> rstr) \<times> nat) list"
  tp_messages_by_turn :: "(turn_id \<times> nat list) list"
  tp_active_items :: "turn_id \<rightharpoonup> nat list"
  tp_completed_items :: "(turn_id \<times> rstr) set"
  tp_completed_reasoning :: "(turn_id \<times> rstr) set"
  tp_completed_tool_calls :: "(turn_id \<times> rstr) set"
  tp_delegation_buckets :: "delegation_id \<rightharpoonup> nat"
  tp_completed_turns :: "turn_id set"
  tp_aborted_turns :: "turn_id \<rightharpoonup> rstr"
  tp_usage_limited_turns :: "turn_id set"
  tp_last_usage_limited :: "turn_id option"
  tp_turn_started_at :: "turn_id \<rightharpoonup> rstr"
  tp_turn_ended_at :: "turn_id \<rightharpoonup> rstr"
  tp_turn_model :: "(turn_id \<times> rstr option) list"
  tp_requested_models :: "rstr \<rightharpoonup> rstr"
  tp_confirmed_models :: "rstr \<rightharpoonup> rstr"
  tp_latest_turn :: "turn_id option"
  tp_steers :: "turn_id \<rightharpoonup> nat"
  tp_text_breaks :: "turn_id set"

definition new_projector :: "session_id \<Rightarrow> projector" where
  "new_projector sid =
     \<lparr>tp_session_id = sid, tp_messages = [], tp_assistant_buckets = Map.empty, tp_assistant_items = [],
      tp_messages_by_turn = [], tp_active_items = Map.empty, tp_completed_items = {},
      tp_completed_reasoning = {}, tp_completed_tool_calls = {}, tp_delegation_buckets = Map.empty,
      tp_completed_turns = {}, tp_aborted_turns = Map.empty, tp_usage_limited_turns = {},
      tp_last_usage_limited = None, tp_turn_started_at = Map.empty, tp_turn_ended_at = Map.empty,
      tp_turn_model = [], tp_requested_models = Map.empty, tp_confirmed_models = Map.empty,
      tp_latest_turn = None, tp_steers = Map.empty, tp_text_breaks = {}\<rparr>"

definition started_at :: "turn_id \<Rightarrow> rstr \<Rightarrow> projector \<Rightarrow> rstr" where
  "started_at turn fallback p = option_or (tp_turn_started_at p turn) fallback"

definition row_at :: "nat \<Rightarrow> projector \<Rightarrow> timeline_message" where
  "row_at i p = tp_messages p ! i"

definition update_row :: "nat \<Rightarrow> (timeline_message \<Rightarrow> timeline_message) \<Rightarrow> projector \<Rightarrow> projector" where
  "update_row i f p = p\<lparr>tp_messages := (tp_messages p)[i := f (row_at i p)]\<rparr>"

definition push_row :: "timeline_message \<Rightarrow> projector \<Rightarrow> projector" where
  "push_row m p = p\<lparr>tp_messages := tp_messages p @ [m]\<rparr>"

definition turn_messages :: "turn_id \<Rightarrow> projector \<Rightarrow> nat list option" where
  "turn_messages turn p = map_of (tp_messages_by_turn p) turn"

text \<open>\<open>turn_messages_mut\<close>: the turn's rows, which start empty at the end of the list.\<close>

definition update_turn_messages :: "turn_id \<Rightarrow> (nat list \<Rightarrow> nat list) \<Rightarrow> projector \<Rightarrow> projector" where
  "update_turn_messages turn f p =
     p\<lparr>tp_messages_by_turn := AList.update turn (f (option_or (turn_messages turn p) []))
         (tp_messages_by_turn p)\<rparr>"

definition assistant_message :: "rstr \<Rightarrow> turn_id \<Rightarrow> assistant_message_phase option \<Rightarrow> rstr \<Rightarrow> timeline_message" where
  "assistant_message i turn phase created_at =
     (new_message i AssistantRole (lit ''Assistant'') [])
       \<lparr>tm_turn_id := Some turn, tm_assistant_phase := phase, tm_streaming := True,
        tm_created_at := Some created_at\<rparr>"

definition ensure_assistant :: "turn_id \<Rightarrow> rstr \<Rightarrow> projector \<Rightarrow> nat \<times> projector" where
  "ensure_assistant turn created_at p =
     (case tp_assistant_buckets p turn of
        Some i \<Rightarrow> (i, p)
      | None \<Rightarrow>
          let i = length (tp_messages p);
              p1 = push_row (assistant_message (assistant_row_id (tp_session_id p) turn) turn None created_at) p
          in (i, p1\<lparr>tp_assistant_buckets := (tp_assistant_buckets p1)(turn \<mapsto> i)\<rparr>))"

definition make_current :: "bool \<Rightarrow> turn_id \<Rightarrow> nat \<Rightarrow> projector \<Rightarrow> projector" where
  "make_current current turn i p =
     (if current then p\<lparr>tp_assistant_buckets := (tp_assistant_buckets p)(turn \<mapsto> i)\<rparr> else p)"

definition add_turn_row :: "nat option \<Rightarrow> nat \<Rightarrow> nat list \<Rightarrow> nat list" where
  "add_turn_row previous i rows =
     (case previous of
        Some j \<Rightarrow> (if j \<in> set rows then rows else rows @ [j]) | None \<Rightarrow> rows) @ [i]"

definition ensure_assistant_item ::
    "turn_id \<Rightarrow> rstr \<Rightarrow> assistant_message_phase \<Rightarrow> bool \<Rightarrow> rstr \<Rightarrow> projector \<Rightarrow> nat \<times> projector" where
  "ensure_assistant_item turn mid phase current created_at p =
     (case map_of (tp_assistant_items p) (turn, mid) of
        Some i \<Rightarrow>
          (i, make_current current turn i
                (if phase \<noteq> PhaseUnknown then update_row i (\<lambda>m. m\<lparr>tm_assistant_phase := Some phase\<rparr>) p
                 else p))
      | None \<Rightarrow>
          let i = length (tp_messages p);
              p1 = push_row (assistant_message
                     (assistant_row_id (tp_session_id p) turn @ lit ''-'' @ mid) turn (Some phase) created_at) p;
              p2 = p1\<lparr>tp_assistant_items := AList.update (turn, mid) i (tp_assistant_items p1)\<rparr>;
              p3 = update_turn_messages turn (add_turn_row (tp_assistant_buckets p2 turn) i) p2
          in (i, make_current current turn i p3))"

definition mark_active :: "turn_id \<Rightarrow> nat \<Rightarrow> projector \<Rightarrow> projector" where
  "mark_active turn i p =
     (let active = option_or (tp_active_items p turn) []
      in p\<lparr>tp_active_items := (tp_active_items p)
             (turn \<mapsto> if i \<in> set active then active else active @ [i])\<rparr>)"

definition is_running :: "turn_id \<Rightarrow> projector \<Rightarrow> bool" where
  "is_running turn p \<longleftrightarrow> turn \<notin> tp_completed_turns p \<and> tp_aborted_turns p turn = None"

definition incomplete :: "turn_id \<Rightarrow> rstr \<Rightarrow> projector \<Rightarrow> incomplete_status" where
  "incomplete turn reason p =
     \<lparr>is_reason = Some reason, is_usage_limited = (turn \<in> tp_usage_limited_turns p),
      is_continued_on_account = None\<rparr>"

text \<open>
  \<open>annotation\<close>: the annotation of the same kind and id, added when there is none, then changed
  by \<open>f\<close>.
\<close>

definition same_kind_id :: "annotation \<Rightarrow> annotation \<Rightarrow> bool" where
  "same_kind_id a item \<longleftrightarrow> annotation_kind item = annotation_kind a \<and> annotation_id item = annotation_id a"

definition upsert_annotation ::
    "annotation \<Rightarrow> (annotation \<Rightarrow> annotation) \<Rightarrow> annotation list \<Rightarrow> annotation list" where
  "upsert_annotation a f annotations =
     (case position (same_kind_id a) annotations of
        Some i \<Rightarrow> annotations[i := f (annotations ! i)] | None \<Rightarrow> annotations @ [f a])"

definition annotate :: "nat \<Rightarrow> annotation \<Rightarrow> (annotation \<Rightarrow> annotation) \<Rightarrow> projector \<Rightarrow> projector" where
  "annotate i a f p = update_row i (\<lambda>m. m\<lparr>tm_annotations := upsert_annotation a f (tm_annotations m)\<rparr>) p"

text \<open>Annotations changed in place: the first that matches, or all of them.\<close>

fun update_first :: "('a \<Rightarrow> bool) \<Rightarrow> ('a \<Rightarrow> 'a) \<Rightarrow> 'a list \<Rightarrow> 'a list" where
  "update_first P f [] = []"
| "update_first P f (x # xs) = (if P x then f x # xs else x # update_first P f xs)"

definition update_annotations ::
    "nat \<Rightarrow> (annotation list \<Rightarrow> annotation list) \<Rightarrow> projector \<Rightarrow> projector" where
  "update_annotations i f p = update_row i (\<lambda>m. m\<lparr>tm_annotations := f (tm_annotations m)\<rparr>) p"

fun is_tool_call :: "rstr \<Rightarrow> annotation \<Rightarrow> bool" where
  "is_tool_call i (ToolCallNote call) = (tk_id call = i)"
| "is_tool_call i _ = False"

fun map_tool_call :: "(tool_call \<Rightarrow> tool_call) \<Rightarrow> annotation \<Rightarrow> annotation" where
  "map_tool_call f (ToolCallNote call) = ToolCallNote (f call)"
| "map_tool_call f a = a"

definition update_tool_call :: "turn_id \<Rightarrow> rstr \<Rightarrow> (tool_call \<Rightarrow> tool_call) \<Rightarrow> projector \<Rightarrow> projector" where
  "update_tool_call turn i f p =
     (case tp_assistant_buckets p turn of
        None \<Rightarrow> p | Some row \<Rightarrow> update_annotations row (update_first (is_tool_call i) (map_tool_call f)) p)"

definition rows_of_turn :: "turn_id \<Rightarrow> projector \<Rightarrow> nat list" where
  "rows_of_turn turn p =
     (case turn_messages turn p of
        Some rows \<Rightarrow> rows
      | None \<Rightarrow> (case tp_assistant_buckets p turn of Some i \<Rightarrow> [i] | None \<Rightarrow> []))"

definition on_bucket :: "turn_id \<Rightarrow> (annotation list \<Rightarrow> annotation list) \<Rightarrow> projector \<Rightarrow> projector" where
  "on_bucket turn f p =
     (case tp_assistant_buckets p turn of None \<Rightarrow> p | Some i \<Rightarrow> update_annotations i f p)"

end
