(* ===== verification/Timeline_Apply.thy ===== *)
theory Timeline_Apply
  imports Timeline_Project
begin

text \<open>
  \<open>Projector::apply\<close>, one definition per arm of its match, \<open>Projector::finish\<close>, and the
  projection of a session (\<open>project_session\<close>).
\<close>

section \<open>Turns and assistant text\<close>

definition on_turn_started ::
    "turn_id \<Rightarrow> rstr \<Rightarrow> bool option \<Rightarrow> rstr option \<Rightarrow> turn_evidence_summary option \<Rightarrow> turn_id option \<Rightarrow>
      rstr \<Rightarrow> projector \<Rightarrow> projector" where
  "on_turn_started turn prompt plan_mode model evidence retry_of at p =
     push_row ((new_message (lit ''user-'' @ session_text (tp_session_id p) @ lit ''-'' @ turn_text turn)
         UserRole (lit ''User'') prompt)
         \<lparr>tm_turn_id := Some turn, tm_created_at := Some at, tm_plan_mode := (plan_mode = Some True),
          tm_evidence := evidence, tm_retry_of_turn_id := retry_of\<rparr>)
       (p\<lparr>tp_latest_turn := Some turn,
          tp_turn_model := filter (\<lambda>(t, _). t \<noteq> turn) (tp_turn_model p) @ [(turn, model)],
          tp_turn_started_at := (tp_turn_started_at p)(turn \<mapsto> at)\<rparr>)"

definition on_turn_steered :: "turn_id \<Rightarrow> rstr \<Rightarrow> rstr \<Rightarrow> projector \<Rightarrow> projector" where
  "on_turn_steered turn prompt at p =
     (let n = option_or (tp_steers p turn) 0 + 1
      in push_row ((new_message (lit ''user-steer-'' @ session_text (tp_session_id p) @ lit ''-'' @
             turn_text turn @ lit ''-'' @ dec n) UserRole (lit ''User'') prompt)\<lparr>tm_created_at := Some at\<rparr>)
           (p\<lparr>tp_steers := (tp_steers p)(turn \<mapsto> n)\<rparr>))"

definition on_turn_delta :: "turn_id \<Rightarrow> rstr \<Rightarrow> rstr \<Rightarrow> projector \<Rightarrow> projector" where
  "on_turn_delta turn content at p =
     (let (i, p1) = ensure_assistant turn (started_at turn at p) p;
          status = map_option (\<lambda>reason. incomplete turn reason p1) (tp_aborted_turns p1 turn);
          paragraph = (content \<noteq> [] \<and> turn \<in> tp_text_breaks p1);
          p2 = (if content \<noteq> [] then p1\<lparr>tp_text_breaks := tp_text_breaks p1 - {turn}\<rparr> else p1)
      in update_row i (\<lambda>m. m\<lparr>
           tm_content := (if paragraph then start_paragraph (tm_content m) content else tm_content m) @ content,
           tm_streaming := (if status = None then is_running turn p1 else False),
           tm_status := or_opt status (tm_status m)\<rparr>) p2)"

definition on_message_started ::
    "turn_id \<Rightarrow> rstr \<Rightarrow> assistant_message_phase \<Rightarrow> rstr \<Rightarrow> projector \<Rightarrow> projector" where
  "on_message_started turn mid phase at p =
     (if (turn, mid) \<in> tp_completed_items p then p
      else let (i, p1) = ensure_assistant_item turn mid phase True (started_at turn at p) p
           in mark_active turn i p1)"

definition on_message_delta :: "turn_id \<Rightarrow> rstr \<Rightarrow> rstr \<Rightarrow> rstr \<Rightarrow> projector \<Rightarrow> projector" where
  "on_message_delta turn mid content at p =
     (if (turn, mid) \<in> tp_completed_items p then p
      else let (i, p1) = ensure_assistant_item turn mid PhaseUnknown True (started_at turn at p) p
           in mark_active turn i (update_row i (\<lambda>m. m\<lparr>tm_content := tm_content m @ content,
                tm_streaming := is_running turn p1\<rparr>) p1))"

text \<open>The sole active item that a completed message without a start may be an alias of.\<close>

definition lifecycle_item :: "turn_id \<Rightarrow> rstr \<Rightarrow> assistant_message_phase \<Rightarrow> projector \<Rightarrow> nat option" where
  "lifecycle_item turn mid phase p =
     (let active = option_or (tp_active_items p turn) [];
          sole = (if map_of (tp_assistant_items p) (turn, mid) = None \<and> length active = 1
                  then Some (active ! 0) else None)
      in filter_opt (\<lambda>i. let current = tm_assistant_phase (row_at i p)
                        in current = None \<or> current = Some PhaseUnknown \<or> phase = PhaseUnknown
                           \<or> current = Some phase) sole)"

definition complete_item ::
    "turn_id \<Rightarrow> nat \<Rightarrow> assistant_message_phase \<Rightarrow> rstr option \<Rightarrow> projector \<Rightarrow> projector" where
  "complete_item turn i phase content p =
     (let p1 = update_row i (\<lambda>m. m\<lparr>tm_assistant_phase := Some phase,
                 tm_content := option_or content (tm_content m), tm_streaming := False\<rparr>) p
      in p1\<lparr>tp_completed_items := tp_completed_items p1 \<union>
                set (map fst (filter (\<lambda>(_, candidate). candidate = i) (tp_assistant_items p1))),
            tp_active_items := (case tp_active_items p1 turn of
                None \<Rightarrow> tp_active_items p1
              | Some active \<Rightarrow> (tp_active_items p1)(turn \<mapsto> filter (\<lambda>item. item \<noteq> i) active))\<rparr>)"

definition on_message_completed ::
    "turn_id \<Rightarrow> rstr \<Rightarrow> assistant_message_phase \<Rightarrow> rstr option \<Rightarrow> rstr \<Rightarrow> projector \<Rightarrow> projector" where
  "on_message_completed turn mid phase content at p =
     (case map_of (tp_assistant_items p) (turn, mid) of
        Some i \<Rightarrow> complete_item turn i phase content p
      | None \<Rightarrow>
          (case lifecycle_item turn mid phase p of
             Some i \<Rightarrow> complete_item turn i phase content
               (p\<lparr>tp_assistant_items := AList.update (turn, mid) i (tp_assistant_items p)\<rparr>)
           | None \<Rightarrow>
               let (i, p1) = ensure_assistant_item turn mid phase False (started_at turn at p) p
               in complete_item turn i phase content p1))"

section \<open>Reasoning, tools, questions and approvals\<close>

definition break_text :: "turn_id \<Rightarrow> projector \<Rightarrow> projector" where
  "break_text turn p = p\<lparr>tp_text_breaks := insert turn (tp_text_breaks p)\<rparr>"

text \<open>An annotation on the turn's bucket, which is created first when there is none.\<close>

definition note_on_bucket ::
    "turn_id \<Rightarrow> rstr \<Rightarrow> annotation \<Rightarrow> (annotation \<Rightarrow> annotation) \<Rightarrow> projector \<Rightarrow> projector" where
  "note_on_bucket turn at a f p =
     (let (i, p1) = ensure_assistant turn (started_at turn at p) p in annotate i a f p1)"

definition on_reasoning_started :: "turn_id \<Rightarrow> rstr \<Rightarrow> rstr option \<Rightarrow> rstr \<Rightarrow> projector \<Rightarrow> projector" where
  "on_reasoning_started turn rid label at p =
     (let p1 = break_text turn p
      in if (turn, rid) \<in> tp_completed_reasoning p1 then p1
         else note_on_bucket turn at
                (ReasoningNote rid (Some (option_or label (lit ''Thinking''))) [] True (Some at)) (\<lambda>a. a) p1)"

fun grow_reasoning :: "rstr \<Rightarrow> rstr \<Rightarrow> annotation \<Rightarrow> annotation" where
  "grow_reasoning content at (ReasoningNote i l c _ created) =
     ReasoningNote i l (c @ content) True (or_opt created (Some at))"
| "grow_reasoning _ _ a = a"

definition on_reasoning_delta :: "turn_id \<Rightarrow> rstr \<Rightarrow> rstr \<Rightarrow> rstr \<Rightarrow> projector \<Rightarrow> projector" where
  "on_reasoning_delta turn rid content at p =
     (if (turn, rid) \<in> tp_completed_reasoning p then p
      else note_on_bucket turn at (ReasoningNote rid (Some (lit ''Thinking'')) [] True (Some at))
             (grow_reasoning content at) p)"

fun stop_reasoning :: "rstr \<Rightarrow> annotation \<Rightarrow> annotation" where
  "stop_reasoning rid (ReasoningNote i l c s created) =
     ReasoningNote i l c (if i = rid then False else s) created"
| "stop_reasoning _ a = a"

definition on_reasoning_completed :: "turn_id \<Rightarrow> rstr \<Rightarrow> projector \<Rightarrow> projector" where
  "on_reasoning_completed turn rid p =
     on_bucket turn (map (stop_reasoning rid))
       (p\<lparr>tp_completed_reasoning := insert (turn, rid) (tp_completed_reasoning p)\<rparr>)"

definition on_tool_call_started ::
    "turn_id \<Rightarrow> rstr \<Rightarrow> rstr \<Rightarrow> rstr option \<Rightarrow> rstr option \<Rightarrow> rstr \<Rightarrow> projector \<Rightarrow> projector" where
  "on_tool_call_started turn tid action command file at p =
     (let p1 = break_text turn p
      in if is_hidden_tool_action action \<or> (turn, tid) \<in> tp_completed_tool_calls p1 then p1
         else note_on_bucket turn at (ToolCallNote
           \<lparr>tk_id = tid, tk_action = action, tk_command = command, tk_file = file, tk_content = [],
            tk_detail = None, tk_streaming = True, tk_created_at = Some at, tk_failure = None\<rparr>) (\<lambda>a. a) p1)"

definition on_tool_call_delta :: "turn_id \<Rightarrow> rstr \<Rightarrow> rstr \<Rightarrow> rstr \<Rightarrow> projector \<Rightarrow> projector" where
  "on_tool_call_delta turn tid content at p =
     (if (turn, tid) \<in> tp_completed_tool_calls p then p
      else update_tool_call turn tid (\<lambda>call. call\<lparr>tk_content := tk_content call @ content,
             tk_streaming := True, tk_created_at := or_opt (tk_created_at call) (Some at)\<rparr>)
             (snd (ensure_assistant turn (started_at turn at p) p)))"

definition close_tool_call :: "turn_id \<Rightarrow> rstr \<Rightarrow> projector \<Rightarrow> projector" where
  "close_tool_call turn tid p =
     p\<lparr>tp_completed_tool_calls := insert (turn, tid) (tp_completed_tool_calls p)\<rparr>"

definition on_tool_call_completed :: "turn_id \<Rightarrow> rstr \<Rightarrow> tool_call_detail option \<Rightarrow> projector \<Rightarrow> projector" where
  "on_tool_call_completed turn tid detail p =
     update_tool_call turn tid (\<lambda>call. merge_tool_call_detail detail (call\<lparr>tk_streaming := False\<rparr>))
       (close_tool_call turn tid p)"

definition on_tool_call_updated :: "turn_id \<Rightarrow> rstr \<Rightarrow> tool_call_detail \<Rightarrow> projector \<Rightarrow> projector" where
  "on_tool_call_updated turn tid detail p =
     update_tool_call turn tid (merge_tool_call_detail (Some detail)) p"

definition on_tool_call_failed ::
    "turn_id \<Rightarrow> rstr \<Rightarrow> rstr option \<Rightarrow> tool_call_detail option \<Rightarrow> projector \<Rightarrow> projector" where
  "on_tool_call_failed turn tid reason detail p =
     update_tool_call turn tid (\<lambda>call. merge_tool_call_detail detail
         (call\<lparr>tk_streaming := False, tk_failure := Some (option_or reason (lit ''Tool call failed''))\<rparr>))
       (close_tool_call turn tid p)"

fun answer_input :: "rstr \<Rightarrow> provider_user_input_answer list \<Rightarrow> rstr \<Rightarrow> annotation \<Rightarrow> annotation" where
  "answer_input rid answers at (UserInputNote i qs stored s created) =
     (if i = rid then UserInputNote i qs answers False (or_opt created (Some at))
      else UserInputNote i qs stored s created)"
| "answer_input _ _ _ a = a"

fun decide_approval :: "rstr \<Rightarrow> rstr \<Rightarrow> rstr \<Rightarrow> annotation \<Rightarrow> annotation" where
  "decide_approval rid behavior at (ApprovalNote i n t d c f stored s created) =
     (if i = rid then ApprovalNote i n t d c f (Some behavior) False (or_opt created (Some at))
      else ApprovalNote i n t d c f stored s created)"
| "decide_approval _ _ _ a = a"

section \<open>Native subagents\<close>

definition same_agent :: "rstr \<Rightarrow> rstr option \<Rightarrow> rstr option \<Rightarrow> native_subagent \<Rightarrow> bool" where
  "same_agent i agent_id thread_id agent \<longleftrightarrow>
     na_id agent = i \<or> (thread_id \<noteq> None \<and> na_agent_thread_id agent = thread_id) \<or>
     (agent_id \<noteq> None \<and> na_agent_id agent = agent_id)"

fun on_subagent :: "(native_subagent \<Rightarrow> bool) \<Rightarrow> annotation \<Rightarrow> bool" where
  "on_subagent P (SubagentNote agent) = P agent"
| "on_subagent P _ = False"

fun map_subagent :: "(native_subagent \<Rightarrow> native_subagent) \<Rightarrow> annotation \<Rightarrow> annotation" where
  "map_subagent f (SubagentNote agent) = SubagentNote (f agent)"
| "map_subagent f a = a"

definition on_subagent_activity ::
    "turn_id \<Rightarrow> rstr \<Rightarrow> rstr option \<Rightarrow> rstr option \<Rightarrow> rstr option \<Rightarrow> rstr option \<Rightarrow> rstr option \<Rightarrow>
      rstr option \<Rightarrow> native_subagent_status \<Rightarrow> rstr \<Rightarrow> projector \<Rightarrow> projector" where
  "on_subagent_activity turn i agent_id thread_id path name agent_role model status at p =
     (let (row, p1) = ensure_assistant turn (started_at turn at p) p;
          correlation = option_or thread_id i;
          requested = tp_requested_models p1 correlation;
          confirmed = tp_confirmed_models p1 correlation;
          same = on_subagent (same_agent i agent_id thread_id)
      in update_annotations row (\<lambda>annotations.
           if list_ex same annotations
           then update_first same (map_subagent (\<lambda>agent. agent
             \<lparr>na_agent_id := or_opt agent_id (na_agent_id agent),
              na_agent_thread_id := or_opt thread_id (na_agent_thread_id agent),
              na_path := or_opt path (na_path agent), na_name := or_opt name (na_name agent),
              na_role := or_opt agent_role (na_role agent),
              na_model := or_opt confirmed (or_opt model (na_model agent)),
              na_requested_model := or_opt requested (na_requested_model agent),
              na_status := status, na_created_at := or_opt (na_created_at agent) (Some at)\<rparr>)) annotations
           else annotations @ [SubagentNote
             \<lparr>na_id = i, na_agent_id = agent_id, na_agent_thread_id = thread_id, na_path = path,
              na_name = name, na_role = agent_role, na_model = or_opt confirmed model,
              na_requested_model = requested, na_status = status, na_streaming = False,
              na_created_at = Some at\<rparr>]) p1)"

definition on_subagent_model :: "bool \<Rightarrow> turn_id \<Rightarrow> rstr \<Rightarrow> rstr \<Rightarrow> projector \<Rightarrow> projector" where
  "on_subagent_model confirmed turn correlation model p =
     on_bucket turn (update_first
         (on_subagent (\<lambda>agent. na_agent_thread_id agent = Some correlation \<or> na_id agent = correlation))
         (map_subagent (\<lambda>agent. if confirmed then agent\<lparr>na_model := Some model\<rparr>
            else agent\<lparr>na_requested_model := Some model\<rparr>)))
       (if confirmed then p\<lparr>tp_confirmed_models := (tp_confirmed_models p)(correlation \<mapsto> model)\<rparr>
        else p\<lparr>tp_requested_models := (tp_requested_models p)(correlation \<mapsto> model)\<rparr>)"

section \<open>Turn outcomes\<close>

definition on_model_effective :: "turn_id \<Rightarrow> rstr \<Rightarrow> projector \<Rightarrow> projector" where
  "on_model_effective turn model p =
     p\<lparr>tp_turn_model := filter (\<lambda>(t, _). t \<noteq> turn) (tp_turn_model p) @ [(turn, Some model)]\<rparr>"

definition stop_row :: "timeline_message \<Rightarrow> timeline_message" where
  "stop_row m = m\<lparr>tm_streaming := False, tm_annotations := map (set_streaming False) (tm_annotations m)\<rparr>"

definition update_rows :: "nat list \<Rightarrow> (timeline_message \<Rightarrow> timeline_message) \<Rightarrow> projector \<Rightarrow> projector" where
  "update_rows rows f p = fold (\<lambda>i. update_row i f) rows p"

definition on_turn_completed :: "turn_id \<Rightarrow> rstr \<Rightarrow> projector \<Rightarrow> projector" where
  "on_turn_completed turn at p =
     (let p1 = p\<lparr>tp_completed_turns := insert turn (tp_completed_turns p),
                 tp_turn_ended_at := (tp_turn_ended_at p)(turn \<mapsto> at)\<rparr>
      in update_rows (rows_of_turn turn p1) stop_row p1)"

definition on_usage_limit_reached :: "turn_id \<Rightarrow> projector \<Rightarrow> projector" where
  "on_usage_limit_reached turn p =
     p\<lparr>tp_usage_limited_turns := insert turn (tp_usage_limited_turns p), tp_last_usage_limited := Some turn\<rparr>"

definition continue_on :: "rstr \<Rightarrow> turn_id \<Rightarrow> timeline_message \<Rightarrow> timeline_message" where
  "continue_on account turn m =
     (if tm_turn_id m = Some turn
      then m\<lparr>tm_status := map_option (\<lambda>s. if is_usage_limited s
               then s\<lparr>is_continued_on_account := Some account\<rparr> else s) (tm_status m)\<rparr>
      else m)"

definition on_usage_limit_resumed :: "rstr option \<Rightarrow> projector \<Rightarrow> projector" where
  "on_usage_limit_resumed account_label p =
     (case (account_label, tp_last_usage_limited p) of
        (Some account, Some turn) \<Rightarrow> p\<lparr>tp_messages := map (continue_on account turn) (tp_messages p)\<rparr>
      | _ \<Rightarrow> p)"

definition on_turn_aborted :: "turn_id \<Rightarrow> rstr option \<Rightarrow> rstr \<Rightarrow> projector \<Rightarrow> projector" where
  "on_turn_aborted turn reason at p =
     (let text = option_or reason (lit ''Turn aborted'');
          p1 = p\<lparr>tp_aborted_turns := (tp_aborted_turns p)(turn \<mapsto> text),
                 tp_turn_ended_at := (tp_turn_ended_at p)(turn \<mapsto> at)\<rparr>;
          rows = rows_of_turn turn p1;
          (rows, p2) = (if rows = [] \<and> tp_turn_started_at p1 turn \<noteq> None
            then let (i, q) = ensure_assistant turn (started_at turn at p1) p1 in (rows @ [i], q)
            else (rows, p1));
          status = incomplete turn text p2
      in update_rows rows (\<lambda>m. stop_row (m\<lparr>tm_status := Some status\<rparr>)) p2)"

section \<open>Sessions and delegations\<close>

definition system_message :: "rstr \<Rightarrow> rstr \<Rightarrow> rstr \<Rightarrow> projector \<Rightarrow> timeline_message" where
  "system_message label content at p =
     (new_message (label @ lit ''-'' @ dec (length (tp_messages p))) SystemRole label content)
       \<lparr>tm_created_at := Some at\<rparr>"

definition fork_text :: "fork_origin \<Rightarrow> rstr" where
  "fork_text origin =
     lit ''Forked from an earlier thread'' @ (if fo_turn_id origin \<noteq> None then lit '' at one of its turns'' else []) @
     lit ''. A bounded snapshot of that thread up to the fork point follows the first turn here; nothing after it was carried over.''"

definition on_session_started :: "fork_origin option \<Rightarrow> rstr \<Rightarrow> projector \<Rightarrow> projector" where
  "on_session_started forked_from at p =
     (case forked_from of
        None \<Rightarrow> p
      | Some origin \<Rightarrow>
          push_row ((new_message (lit ''session.started-'' @ dec (length (tp_messages p))) SystemRole
                (lit ''session.forked'') (fork_text origin))
              \<lparr>tm_created_at := Some at,
               tm_action := Some \<lparr>os_session_id = fo_session_id origin, os_label = lit ''Open source thread''\<rparr>\<rparr>) p)"

definition ensure_delegation :: "delegation_id \<Rightarrow> rstr \<Rightarrow> rstr \<Rightarrow> projector \<Rightarrow> nat \<times> projector" where
  "ensure_delegation did content at p =
     (case tp_delegation_buckets p did of
        Some i \<Rightarrow> (i, p)
      | None \<Rightarrow>
          let i = length (tp_messages p);
              p1 = push_row ((new_message (lit ''delegation-'' @ delegation_id_text did) SystemRole
                     (lit ''delegation'') content)
                   \<lparr>tm_created_at := Some at,
                    tm_delegation := Some \<lparr>td_id = did, td_phase = DpRequested, td_child_session_id = None,
                      td_summary = None, td_reason = None\<rparr>,
                    tm_delegation_turn_id := tp_latest_turn p\<rparr>) p
          in (i, p1\<lparr>tp_delegation_buckets := (tp_delegation_buckets p1)(did \<mapsto> i)\<rparr>))"

definition delegation_card ::
    "session_event_kind \<Rightarrow> rstr \<Rightarrow> timeline_delegation \<Rightarrow> timeline_message \<Rightarrow> timeline_message" where
  "delegation_card kind content d m =
     (case kind of
        DelegationStarted _ child \<Rightarrow>
          let d' = d\<lparr>td_phase := DpRunning, td_child_session_id := or_opt child (td_child_session_id d)\<rparr>
          in m\<lparr>tm_delegation := Some d', tm_content := content,
               tm_action := or_opt (map_option (\<lambda>c. \<lparr>os_session_id = c, os_label = lit ''Open child session''\<rparr>)
                  (td_child_session_id d')) (tm_action m)\<rparr>
      | DelegationDelta _ _ \<Rightarrow> m\<lparr>tm_content := content\<rparr>
      | DelegationCompleted _ summary \<Rightarrow>
          m\<lparr>tm_delegation := Some (d\<lparr>td_phase := DpCompleted, td_summary := summary\<rparr>), tm_content := content\<rparr>
      | DelegationFailed _ reason \<Rightarrow>
          m\<lparr>tm_delegation := Some (d\<lparr>td_phase := DpFailed, td_reason := reason\<rparr>), tm_content := content\<rparr>
      | DelegationCancelled _ reason \<Rightarrow>
          m\<lparr>tm_delegation := Some (d\<lparr>td_phase := DpCancelled, td_reason := reason\<rparr>), tm_content := content\<rparr>
      | _ \<Rightarrow> m)"

definition apply_delegation :: "delegation_id \<Rightarrow> session_event_kind \<Rightarrow> rstr \<Rightarrow> projector \<Rightarrow> projector" where
  "apply_delegation did kind at p =
     (let content = option_or (delegation_text kind) [];
          (i, p1) = ensure_delegation did content at p
      in update_row i (\<lambda>m. case tm_delegation m of None \<Rightarrow> m | Some d \<Rightarrow> delegation_card kind content d m) p1)"

definition on_other_event :: "session_event_kind \<Rightarrow> rstr \<Rightarrow> projector \<Rightarrow> projector" where
  "on_other_event kind at p =
     (case system_note kind of
        None \<Rightarrow> p
      | Some (label, content) \<Rightarrow>
          push_row (system_message label (with_session_id label content (tp_session_id p)) at p) p)"

section \<open>One event\<close>

definition apply_timeline_event :: "timeline_event \<Rightarrow> projector \<Rightarrow> projector" where
  "apply_timeline_event e p =
     (let at = tl_occurred_at e in
      case tl_kind e of
        TurnStarted turn prompt plan_mode model evidence retry_of _ \<Rightarrow>
          on_turn_started turn prompt plan_mode model evidence retry_of at p
      | TurnSteered turn prompt \<Rightarrow> on_turn_steered turn prompt at p
      | TurnDelta turn content \<Rightarrow> on_turn_delta turn content at p
      | TurnAssistantMessageStarted turn mid phase \<Rightarrow> on_message_started turn mid phase at p
      | TurnAssistantMessageDelta turn mid content \<Rightarrow> on_message_delta turn mid content at p
      | TurnAssistantMessageCompleted turn mid phase content \<Rightarrow> on_message_completed turn mid phase content at p
      | TurnReasoningStarted turn rid label \<Rightarrow> on_reasoning_started turn rid label at p
      | TurnReasoningDelta turn rid content \<Rightarrow> on_reasoning_delta turn rid content at p
      | TurnReasoningCompleted turn rid \<Rightarrow> on_reasoning_completed turn rid p
      | TurnToolCallStarted turn tid action command file \<Rightarrow> on_tool_call_started turn tid action command file at p
      | TurnToolCallDelta turn tid content \<Rightarrow> on_tool_call_delta turn tid content at p
      | TurnToolCallCompleted turn tid detail \<Rightarrow> on_tool_call_completed turn tid detail p
      | TurnToolCallUpdated turn tid detail \<Rightarrow> on_tool_call_updated turn tid detail p
      | TurnToolCallFailed turn tid reason detail \<Rightarrow> on_tool_call_failed turn tid reason detail p
      | TurnUserInputRequested turn rid questions \<Rightarrow>
          note_on_bucket turn at (UserInputNote rid questions [] True (Some at)) (\<lambda>a. a) p
      | TurnUserInputResolved turn rid answers \<Rightarrow> on_bucket turn (map (answer_input rid answers at)) p
      | TurnPermissionRequested turn rid name title description command file \<Rightarrow>
          note_on_bucket turn at
            (ApprovalNote rid name title description command file None True (Some at)) (\<lambda>a. a) p
      | TurnPermissionResolved turn rid behavior \<Rightarrow> on_bucket turn (map (decide_approval rid behavior at)) p
      | TurnNativeSubagentActivity turn i agent_id thread_id path name agent_role model status \<Rightarrow>
          on_subagent_activity turn i agent_id thread_id path name agent_role model status at p
      | TurnNativeSubagentModelRequested turn correlation model \<Rightarrow> on_subagent_model False turn correlation model p
      | TurnNativeSubagentModelConfirmed turn correlation model \<Rightarrow> on_subagent_model True turn correlation model p
      | TurnModelEffective turn model \<Rightarrow> on_model_effective turn model p
      | TurnCompleted turn \<Rightarrow> on_turn_completed turn at p
      | UsageLimitReached turn _ _ _ \<Rightarrow> on_usage_limit_reached turn p
      | UsageLimitResumed _ _ account_label \<Rightarrow> on_usage_limit_resumed account_label p
      | TurnAborted turn reason \<Rightarrow> on_turn_aborted turn reason at p
      | SessionStarted _ _ _ _ forked_from \<Rightarrow> on_session_started forked_from at p
      | DelegationRequested did \<Rightarrow> apply_delegation did (tl_kind e) at p
      | DelegationStarted did _ \<Rightarrow> apply_delegation did (tl_kind e) at p
      | DelegationDelta did _ \<Rightarrow> apply_delegation did (tl_kind e) at p
      | DelegationCompleted did _ \<Rightarrow> apply_delegation did (tl_kind e) at p
      | DelegationFailed did _ \<Rightarrow> apply_delegation did (tl_kind e) at p
      | DelegationCancelled did _ \<Rightarrow> apply_delegation did (tl_kind e) at p
      | kind \<Rightarrow> on_other_event kind at p)"

section \<open>The end of the fold\<close>

definition set_model :: "rstr \<Rightarrow> timeline_message \<Rightarrow> timeline_message" where
  "set_model model m = m\<lparr>tm_model := Some model\<rparr>"

definition apply_turn_model :: "turn_id \<times> rstr option \<Rightarrow> projector \<Rightarrow> projector" where
  "apply_turn_model = (\<lambda>(turn, model) p.
     case model of
       None \<Rightarrow> p
     | Some text \<Rightarrow>
         let p1 = update_rows (option_or (turn_messages turn p) []) (set_model text) p
         in (case tp_assistant_buckets p1 turn of None \<Rightarrow> p1 | Some i \<Rightarrow> update_row i (set_model text) p1))"

fun answer_plan_modes :: "(uchar \<Rightarrow> bool) \<Rightarrow> bool \<Rightarrow> timeline_message list \<Rightarrow> timeline_message list" where
  "answer_plan_modes alphanumeric last_user [] = []"
| "answer_plan_modes alphanumeric last_user (m # ms) =
     (case tm_role m of
        UserRole \<Rightarrow> m\<lparr>tm_hand_back := parse_delegation_hand_back alphanumeric (tm_content m)\<rparr>
                      # answer_plan_modes alphanumeric (tm_plan_mode m) ms
      | AssistantRole \<Rightarrow> m\<lparr>tm_answers_plan_mode := last_user\<rparr> # answer_plan_modes alphanumeric last_user ms
      | SystemRole \<Rightarrow> m # answer_plan_modes alphanumeric last_user ms)"

definition settled_turn :: "projector \<Rightarrow> turn_id \<Rightarrow> bool" where
  "settled_turn p turn \<longleftrightarrow> turn \<in> tp_completed_turns p \<or> tp_aborted_turns p turn \<noteq> None"

definition turn_times :: "projector \<Rightarrow> timeline_message \<Rightarrow> timeline_message" where
  "turn_times p m =
     (case (tm_role m, tm_turn_id m) of
        (AssistantRole, Some turn) \<Rightarrow>
          m\<lparr>tm_turn_settled := settled_turn p turn, tm_turn_started_at := tp_turn_started_at p turn,
            tm_turn_ended_at := tp_turn_ended_at p turn\<rparr>
      | _ \<Rightarrow> m)"

definition finish :: "(uchar \<Rightarrow> bool) \<Rightarrow> projector \<Rightarrow> timeline_message list" where
  "finish alphanumeric p =
     (let p1 = fold apply_turn_model (tp_turn_model p) p;
          rows = map (turn_times p1) (answer_plan_modes alphanumeric False (tp_messages p1))
      in place_delegations_after_their_turn
           (fold_assistant_turns rows (tp_messages_by_turn p1) (settled_turn p1) (tp_session_id p1)))"

definition project_from :: "timeline_event list \<Rightarrow> projector \<Rightarrow> projector" where
  "project_from events p = fold apply_timeline_event events p"

definition project :: "(uchar \<Rightarrow> bool) \<Rightarrow> timeline_event list \<Rightarrow> session_id \<Rightarrow> timeline_message list" where
  "project alphanumeric events sid = finish alphanumeric (project_from events (new_projector sid))"

definition project_session ::
    "(uchar \<Rightarrow> bool) \<Rightarrow> session_event_record list \<Rightarrow> session_id \<Rightarrow> timeline_message list" where
  "project_session alphanumeric records sid = project alphanumeric (timeline records sid) sid"

end
