(* ===== verification/Timeline_Joined.thy ===== *)
theory Timeline_Joined
  imports Timeline_Apply
begin

text \<open>
  Folding a run of deltas as one event is folding its deltas one by one: the projection does not
  depend on how the history was joined.
\<close>

section \<open>Rows and buckets\<close>

lemma update_row_update_row [simp]: "update_row i g (update_row i f p) = update_row i (\<lambda>m. g (f m)) p"
  by (cases "i < length (tp_messages p)") (simp_all add: update_row_def row_at_def list_update_beyond)

lemma update_row_text_breaks [simp]:
  "(update_row i f p)\<lparr>tp_text_breaks := x\<rparr> = update_row i f (p\<lparr>tp_text_breaks := x\<rparr>)"
  by (simp add: update_row_def row_at_def)

lemma update_row_select [simp]:
  "tp_session_id (update_row i f p) = tp_session_id p"
  "tp_assistant_buckets (update_row i f p) = tp_assistant_buckets p"
  "tp_assistant_items (update_row i f p) = tp_assistant_items p"
  "tp_messages_by_turn (update_row i f p) = tp_messages_by_turn p"
  "tp_active_items (update_row i f p) = tp_active_items p"
  "tp_completed_items (update_row i f p) = tp_completed_items p"
  "tp_completed_reasoning (update_row i f p) = tp_completed_reasoning p"
  "tp_completed_tool_calls (update_row i f p) = tp_completed_tool_calls p"
  "tp_delegation_buckets (update_row i f p) = tp_delegation_buckets p"
  "tp_completed_turns (update_row i f p) = tp_completed_turns p"
  "tp_aborted_turns (update_row i f p) = tp_aborted_turns p"
  "tp_usage_limited_turns (update_row i f p) = tp_usage_limited_turns p"
  "tp_turn_started_at (update_row i f p) = tp_turn_started_at p"
  "tp_text_breaks (update_row i f p) = tp_text_breaks p"
  "tp_latest_turn (update_row i f p) = tp_latest_turn p"
  "length (tp_messages (update_row i f p)) = length (tp_messages p)"
  by (simp_all add: update_row_def)

text \<open>What \<open>ensure_assistant\<close> leaves: the bucket is set, and no other map has changed.\<close>

lemma ensure_assistant_bucket:
  assumes "ensure_assistant turn c p = (i, p1)"
  shows "tp_assistant_buckets p1 turn = Some i"
    "tp_session_id p1 = tp_session_id p" "tp_assistant_items p1 = tp_assistant_items p"
    "tp_messages_by_turn p1 = tp_messages_by_turn p" "tp_active_items p1 = tp_active_items p"
    "tp_completed_items p1 = tp_completed_items p" "tp_completed_reasoning p1 = tp_completed_reasoning p"
    "tp_completed_tool_calls p1 = tp_completed_tool_calls p"
    "tp_delegation_buckets p1 = tp_delegation_buckets p"
    "tp_completed_turns p1 = tp_completed_turns p" "tp_aborted_turns p1 = tp_aborted_turns p"
    "tp_usage_limited_turns p1 = tp_usage_limited_turns p" "tp_text_breaks p1 = tp_text_breaks p"
    "tp_turn_started_at p1 = tp_turn_started_at p"
  using assms by (auto simp: ensure_assistant_def Let_def push_row_def split: option.splits)

lemma ensure_assistant_again: "tp_assistant_buckets p turn = Some i \<Longrightarrow> ensure_assistant turn c p = (i, p)"
  by (simp add: ensure_assistant_def)

lemma or_opt_or_opt [simp]: "or_opt x (or_opt x y) = or_opt x y" "or_opt (or_opt x y) z = or_opt x (or_opt y z)"
  by (cases x; simp add: or_opt_def)+

section \<open>Loose text\<close>

lemma start_paragraph_append: "a \<noteq> [] \<Longrightarrow> start_paragraph s (a @ b) = start_paragraph s a"
  by (cases a) (simp_all add: start_paragraph_def starts_with_def)

lemma run_turn_delta:
  "on_turn_delta turn b at' (on_turn_delta turn a at p) = on_turn_delta turn (a @ b) at p"
proof -
  obtain i p1 where e: "ensure_assistant turn (started_at turn at p) p = (i, p1)" by force
  note f = ensure_assistant_bucket [OF e]
  show ?thesis
    by (cases "a = []"; cases "b = []"; cases "turn \<in> tp_text_breaks p";
        cases "tp_aborted_turns p turn")
      (simp_all add: on_turn_delta_def e f Let_def ensure_assistant_again is_running_def incomplete_def
        start_paragraph_append or_opt_def)
qed

section \<open>Items\<close>

lemma map_of_update [simp]: "map_of (AList.update k v xs) = (map_of xs)(k \<mapsto> v)"
  by (rule update_conv')

lemma make_current_True: "make_current True turn i p = p\<lparr>tp_assistant_buckets := (tp_assistant_buckets p)(turn \<mapsto> i)\<rparr>"
  by (simp add: make_current_def)

lemma ensure_assistant_item_bucket:
  assumes "ensure_assistant_item turn mid ph True c p = (i, p1)"
  shows "map_of (tp_assistant_items p1) (turn, mid) = Some i" "tp_assistant_buckets p1 turn = Some i"
    "tp_completed_items p1 = tp_completed_items p" "tp_completed_turns p1 = tp_completed_turns p"
    "tp_aborted_turns p1 = tp_aborted_turns p"
  using assms by (auto simp: ensure_assistant_item_def Let_def push_row_def make_current_True
      update_turn_messages_def split: option.splits if_splits)

lemma ensure_assistant_item_again:
  assumes "map_of (tp_assistant_items p) (turn, mid) = Some i" "tp_assistant_buckets p turn = Some i"
  shows "ensure_assistant_item turn mid PhaseUnknown True c p = (i, p)"
proof -
  have "(tp_assistant_buckets p)(turn \<mapsto> i) = tp_assistant_buckets p" using assms(2) by auto
  then show ?thesis using assms(1) by (simp add: ensure_assistant_item_def make_current_True)
qed

lemma update_row_active:
  "update_row i f (p\<lparr>tp_active_items := x\<rparr>) = (update_row i f p)\<lparr>tp_active_items := x\<rparr>"
  by (simp add: update_row_def row_at_def)

lemma mark_active_select [simp]:
  "tp_assistant_items (mark_active turn i p) = tp_assistant_items p"
  "tp_assistant_buckets (mark_active turn i p) = tp_assistant_buckets p"
  "tp_completed_items (mark_active turn i p) = tp_completed_items p"
  "tp_completed_turns (mark_active turn i p) = tp_completed_turns p"
  "tp_aborted_turns (mark_active turn i p) = tp_aborted_turns p"
  by (simp_all add: mark_active_def Let_def)

lemma mark_active_update_row: "update_row j f (mark_active turn i p) = mark_active turn i (update_row j f p)"
  by (simp add: mark_active_def Let_def update_row_active)

lemma mark_active_again [simp]: "mark_active turn i (mark_active turn i p) = mark_active turn i p"
  by (simp add: mark_active_def Let_def option_or_def)

lemma run_message_delta:
  "on_message_delta turn mid b at' (on_message_delta turn mid a at p) = on_message_delta turn mid (a @ b) at p"
proof (cases "(turn, mid) \<in> tp_completed_items p")
  case True
  then show ?thesis by (simp add: on_message_delta_def)
next
  case False
  obtain i p1 where e: "ensure_assistant_item turn mid PhaseUnknown True (started_at turn at p) p = (i, p1)" by force
  note f = ensure_assistant_item_bucket [OF e]
  show ?thesis using False
    by (simp add: on_message_delta_def e f ensure_assistant_item_again mark_active_update_row is_running_def)
qed

section \<open>Reasoning\<close>

lemma position_update:
  "position P xs = Some i \<Longrightarrow> P x \<Longrightarrow> position P (xs[i := x]) = Some i"
  by (induction xs arbitrary: i) (auto split: if_splits nat.splits option.splits)

lemma position_append_new: "position P xs = None \<Longrightarrow> P x \<Longrightarrow> position P (xs @ [x]) = Some (length xs)"
  by (induction xs) (auto split: if_splits)

lemma upsert_upsert:
  assumes "\<And>x. same_kind_id a x \<Longrightarrow> same_kind_id a (f x)" "same_kind_id a a"
    "\<And>y. same_kind_id b y = same_kind_id a y"
  shows "upsert_annotation b g (upsert_annotation a f xs) = upsert_annotation a (\<lambda>x. g (f x)) xs"
proof (cases "position (same_kind_id a) xs")
  case None
  have s: "same_kind_id b = same_kind_id a" using assms(3) by blast
  from None assms(1,2) show ?thesis by (simp add: upsert_annotation_def s position_append_new)
next
  case (Some i)
  have s: "same_kind_id b = same_kind_id a" using assms(3) by blast
  from Some assms(1) show ?thesis
    using position_SomeD [OF Some] by (simp add: upsert_annotation_def s position_update)
qed

lemma run_reasoning_delta:
  "on_reasoning_delta turn rid b at' (on_reasoning_delta turn rid a at p) = on_reasoning_delta turn rid (a @ b) at p"
proof (cases "(turn, rid) \<in> tp_completed_reasoning p")
  case True
  then show ?thesis by (simp add: on_reasoning_delta_def)
next
  case False
  obtain i p1 where e: "ensure_assistant turn (started_at turn at p) p = (i, p1)" by force
  note f = ensure_assistant_bucket [OF e]
  let ?new = "\<lambda>at. ReasoningNote rid (Some (lit ''Thinking'')) [] True (Some at)"
  have u: "upsert_annotation (?new at') (grow_reasoning b at') (upsert_annotation (?new at) (grow_reasoning a at) xs)
      = upsert_annotation (?new at) (grow_reasoning (a @ b) at) xs" for xs
  proof -
    have g: "grow_reasoning b at' (grow_reasoning a at x) = grow_reasoning (a @ b) at x" for x
      by (cases x) (simp_all add: or_opt_def split: option.splits)
    have "upsert_annotation (?new at') (grow_reasoning b at') (upsert_annotation (?new at) (grow_reasoning a at) xs)
        = upsert_annotation (?new at) (\<lambda>x. grow_reasoning b at' (grow_reasoning a at x)) xs"
    proof (rule upsert_upsert)
      show "same_kind_id (?new at) (grow_reasoning a at x)" if "same_kind_id (?new at) x" for x
        using that by (cases x) (simp_all add: same_kind_id_def)
    qed (simp_all add: same_kind_id_def)
    then show ?thesis by (simp add: g)
  qed
  show ?thesis using False
    by (simp add: on_reasoning_delta_def note_on_bucket_def annotate_def e f ensure_assistant_again u)
qed

section \<open>Tool output\<close>

lemma update_first_again:
  "(\<And>x. P x \<Longrightarrow> P (f x)) \<Longrightarrow> update_first P g (update_first P f xs) = update_first P (\<lambda>x. g (f x)) xs"
  by (induction xs) auto

lemma update_tool_call_again:
  assumes "\<And>c. tk_id (f c) = tk_id c"
  shows "update_tool_call turn i g (update_tool_call turn i f p) = update_tool_call turn i (\<lambda>c. g (f c)) p"
proof (cases "tp_assistant_buckets p turn")
  case None
  then show ?thesis by (simp add: update_tool_call_def)
next
  case (Some row)
  have m: "is_tool_call i x \<Longrightarrow> is_tool_call i (map_tool_call f x)" for x by (cases x) (simp_all add: assms)
  have "map_tool_call g (map_tool_call f x) = map_tool_call (\<lambda>c. g (f c)) x" for x by (cases x) simp_all
  with Some m show ?thesis by (simp add: update_tool_call_def update_annotations_def update_first_again)
qed

lemma update_tool_call_select [simp]:
  "tp_assistant_buckets (update_tool_call turn i f p) = tp_assistant_buckets p"
  "tp_completed_tool_calls (update_tool_call turn i f p) = tp_completed_tool_calls p"
  by (simp_all add: update_tool_call_def update_annotations_def split: option.splits)

lemma run_tool_call_delta:
  "on_tool_call_delta turn tid b at' (on_tool_call_delta turn tid a at p) = on_tool_call_delta turn tid (a @ b) at p"
proof (cases "(turn, tid) \<in> tp_completed_tool_calls p")
  case True
  then show ?thesis by (simp add: on_tool_call_delta_def)
next
  case False
  obtain i p1 where e: "ensure_assistant turn (started_at turn at p) p = (i, p1)" by force
  note f = ensure_assistant_bucket [OF e]
  have "or_opt (or_opt x (Some at)) (Some at') = or_opt x (Some at)" for x
    by (cases x) (simp_all add: or_opt_def)
  with False show ?thesis
    by (simp add: on_tool_call_delta_def e f ensure_assistant_again update_tool_call_again)
qed

section \<open>Joining is invisible\<close>

lemma run_target_SomeE:
  assumes "run_target k = Some d"
  obtains (text_delta) t c where "k = TurnDelta t c" "d = (0, t, [])"
  | (message) t m c where "k = TurnAssistantMessageDelta t m c" "d = (1, t, m)"
  | (reasoning) t r c where "k = TurnReasoningDelta t r c" "d = (2, t, r)"
  | (tool) t i c where "k = TurnToolCallDelta t i c" "d = (3, t, i)"
  using assms by (cases k) (simp_all add: run_target_def)

lemma apply_timeline_event_run:
  assumes "run_target (tl_kind e) = Some d" "run_target (tl_kind x) = Some d"
  shows "apply_timeline_event x (apply_timeline_event e p) =
    apply_timeline_event (e\<lparr>tl_kind := set_delta_content (tl_kind e)
      (delta_content (tl_kind e) @ delta_content (tl_kind x))\<rparr>) p"
  by (rule run_target_SomeE [OF assms(1)]; rule run_target_SomeE [OF assms(2)])
    (simp_all add: apply_timeline_event_def set_delta_content_def delta_content_def Let_def
      run_turn_delta run_message_delta run_reasoning_delta run_tool_call_delta)

lemma project_from_cons_run:
  "project_from (cons_run e xs) p = project_from xs (apply_timeline_event e p)"
proof (cases xs)
  case (Cons x ys)
  then show ?thesis
    using apply_timeline_event_run [of e _ x p] by (cases "run_target (tl_kind e)") (auto simp: project_from_def)
qed (simp add: project_from_def)

lemma project_from_compact_runs:
  "project_from (compact_runs es) p = project_from (map plain_event es) p"
  by (induction es arbitrary: p)
    (simp_all add: compact_runs_Cons project_from_cons_run del: compact_runs.simps(2), simp add: project_from_def)

end
