(* ===== verification/Timeline_Rows.thy ===== *)
theory Timeline_Rows
  imports Timeline_Joined
begin

text \<open>
  The rows of a projection are well formed: every position the projector keeps for a turn is an
  assistant row of that turn, every card's position is the card of that delegation, and no two
  rows of a turn carry the same id.
\<close>

section \<open>Positions\<close>

text \<open>Every position kept under a turn, in whichever map.\<close>

definition turn_refs :: "projector \<Rightarrow> (turn_id \<times> nat) set" where
  "turn_refs p =
     {(t, i). tp_assistant_buckets p t = Some i} \<union>
     {(t, i). \<exists>m. ((t, m), i) \<in> set (tp_assistant_items p)} \<union>
     {(t, i). \<exists>rows. (t, rows) \<in> set (tp_messages_by_turn p) \<and> i \<in> set rows} \<union>
     {(t, i). \<exists>rows. tp_active_items p t = Some rows \<and> i \<in> set rows}"

definition assistant_row :: "timeline_message list \<Rightarrow> turn_id \<Rightarrow> nat \<Rightarrow> bool" where
  "assistant_row ms t i \<longleftrightarrow>
     i < length ms \<and> tm_role (ms ! i) = AssistantRole \<and> tm_turn_id (ms ! i) = Some t"

definition card_row :: "timeline_message list \<Rightarrow> delegation_id \<Rightarrow> nat \<Rightarrow> bool" where
  "card_row ms d i \<longleftrightarrow>
     i < length ms \<and> tm_role (ms ! i) = SystemRole \<and> map_option td_id (tm_delegation (ms ! i)) = Some d"

text \<open>How an assistant row is named: after its turn, or after its turn and the item it shows.\<close>

definition item_row_id :: "session_id \<Rightarrow> turn_id \<Rightarrow> rstr \<Rightarrow> rstr" where
  "item_row_id sid t mid = assistant_row_id sid t @ lit ''-'' @ mid"

definition named_row :: "projector \<Rightarrow> timeline_message \<Rightarrow> bool" where
  "named_row p m \<longleftrightarrow> tm_delegation m = None \<and> (\<exists>t. tm_turn_id m = Some t \<and>
     (tm_id m = assistant_row_id (tp_session_id p) t \<and> tp_assistant_buckets p t \<noteq> None \<or>
      (\<exists>mid. tm_id m = item_row_id (tp_session_id p) t mid \<and> map_of (tp_assistant_items p) (t, mid) \<noteq> None)))"

definition unique_rows :: "timeline_message list \<Rightarrow> bool" where
  "unique_rows ms \<longleftrightarrow>
     (\<forall>t i j. assistant_row ms t i \<longrightarrow> assistant_row ms t j \<longrightarrow> tm_id (ms ! i) = tm_id (ms ! j) \<longrightarrow> i = j)"

text \<open>Before the turns are folded no annotation is commentary.\<close>

definition uncommented :: "timeline_message \<Rightarrow> bool" where
  "uncommented m \<longleftrightarrow> (\<forall>a \<in> set (tm_annotations m). annotation_kind a \<noteq> 0)"

definition rows_ok :: "projector \<Rightarrow> bool" where
  "rows_ok p \<longleftrightarrow>
     (\<forall>(t, i) \<in> turn_refs p. assistant_row (tp_messages p) t i) \<and>
     (\<forall>d i. tp_delegation_buckets p d = Some i \<longrightarrow> card_row (tp_messages p) d i) \<and>
     (\<forall>m \<in> set (tp_messages p). (tm_role m = AssistantRole \<longrightarrow> named_row p m) \<and> uncommented m) \<and>
     unique_rows (tp_messages p) \<and>
     distinct (map fst (tp_messages_by_turn p)) \<and> (\<forall>(t, rows) \<in> set (tp_messages_by_turn p). distinct rows)"

lemma rows_okI:
  assumes "\<And>t i. (t, i) \<in> turn_refs p \<Longrightarrow> assistant_row (tp_messages p) t i"
    "\<And>d i. tp_delegation_buckets p d = Some i \<Longrightarrow> card_row (tp_messages p) d i"
    "\<And>m. m \<in> set (tp_messages p) \<Longrightarrow> tm_role m = AssistantRole \<Longrightarrow> named_row p m"
    "\<And>m. m \<in> set (tp_messages p) \<Longrightarrow> uncommented m"
    "unique_rows (tp_messages p)" "distinct (map fst (tp_messages_by_turn p))"
    "\<And>t rows. (t, rows) \<in> set (tp_messages_by_turn p) \<Longrightarrow> distinct rows"
  shows "rows_ok p"
  using assms unfolding rows_ok_def by blast

lemma rows_okD:
  assumes "rows_ok p"
  shows "(t, i) \<in> turn_refs p \<Longrightarrow> assistant_row (tp_messages p) t i"
    "tp_delegation_buckets p d = Some i \<Longrightarrow> card_row (tp_messages p) d i"
    "m \<in> set (tp_messages p) \<Longrightarrow> tm_role m = AssistantRole \<Longrightarrow> named_row p m"
    "m \<in> set (tp_messages p) \<Longrightarrow> uncommented m"
    "unique_rows (tp_messages p)" "distinct (map fst (tp_messages_by_turn p))"
    "(t, rows) \<in> set (tp_messages_by_turn p) \<Longrightarrow> distinct rows"
  using assms unfolding rows_ok_def by blast+

lemma rows_ok_new: "rows_ok (new_projector sid)"
  by (rule rows_okI) (auto simp: new_projector_def turn_refs_def unique_rows_def assistant_row_def)

section \<open>Fields the invariant does not read\<close>

lemma rows_ok_fields [simp]:
  "rows_ok (p\<lparr>tp_text_breaks := x1\<rparr>) = rows_ok p"
  "rows_ok (p\<lparr>tp_steers := x2\<rparr>) = rows_ok p"
  "rows_ok (p\<lparr>tp_latest_turn := x3\<rparr>) = rows_ok p"
  "rows_ok (p\<lparr>tp_turn_model := x4\<rparr>) = rows_ok p"
  "rows_ok (p\<lparr>tp_turn_started_at := x5\<rparr>) = rows_ok p"
  "rows_ok (p\<lparr>tp_turn_ended_at := x5\<rparr>) = rows_ok p"
  "rows_ok (p\<lparr>tp_completed_items := x6\<rparr>) = rows_ok p"
  "rows_ok (p\<lparr>tp_completed_reasoning := x6\<rparr>) = rows_ok p"
  "rows_ok (p\<lparr>tp_completed_tool_calls := x6\<rparr>) = rows_ok p"
  "rows_ok (p\<lparr>tp_completed_turns := x7\<rparr>) = rows_ok p"
  "rows_ok (p\<lparr>tp_aborted_turns := x5\<rparr>) = rows_ok p"
  "rows_ok (p\<lparr>tp_usage_limited_turns := x7\<rparr>) = rows_ok p"
  "rows_ok (p\<lparr>tp_last_usage_limited := x3\<rparr>) = rows_ok p"
  "rows_ok (p\<lparr>tp_requested_models := x8\<rparr>) = rows_ok p"
  "rows_ok (p\<lparr>tp_confirmed_models := x8\<rparr>) = rows_ok p"
  by (simp_all add: rows_ok_def turn_refs_def named_row_def)

lemma push_row_select [simp]:
  "tp_messages (push_row m p) = tp_messages p @ [m]"
  "tp_session_id (push_row m p) = tp_session_id p"
  "tp_assistant_buckets (push_row m p) = tp_assistant_buckets p"
  "tp_assistant_items (push_row m p) = tp_assistant_items p"
  "tp_messages_by_turn (push_row m p) = tp_messages_by_turn p"
  "tp_active_items (push_row m p) = tp_active_items p"
  "tp_delegation_buckets (push_row m p) = tp_delegation_buckets p"
  by (simp_all add: push_row_def)

lemma turn_refs_messages [simp]:
  "turn_refs (p\<lparr>tp_messages := ms\<rparr>) = turn_refs p" "turn_refs (push_row m p) = turn_refs p"
  "turn_refs (p\<lparr>tp_delegation_buckets := d\<rparr>) = turn_refs p"
  by (simp_all add: turn_refs_def push_row_def)

lemma named_row_messages [simp]:
  "named_row (p\<lparr>tp_messages := ms\<rparr>) = named_row p" "named_row (push_row m p) = named_row p"
  "named_row (p\<lparr>tp_delegation_buckets := d\<rparr>) = named_row p"
  by (simp_all add: named_row_def push_row_def fun_eq_iff)

section \<open>Rows changed in place\<close>

definition keeps_row :: "timeline_message \<Rightarrow> timeline_message \<Rightarrow> bool" where
  "keeps_row m m' \<longleftrightarrow> tm_role m' = tm_role m \<and> tm_turn_id m' = tm_turn_id m \<and> tm_id m' = tm_id m \<and>
     map_option td_id (tm_delegation m') = map_option td_id (tm_delegation m) \<and> (uncommented m \<longrightarrow> uncommented m')"

lemma keeps_row_refl [simp]: "keeps_row m m"
  by (simp add: keeps_row_def)

lemma rows_ok_changed:
  assumes "rows_ok p" "list_all2 keeps_row (tp_messages p) ms"
  shows "rows_ok (p\<lparr>tp_messages := ms\<rparr>)"
proof -
  have len: "length ms = length (tp_messages p)" using assms(2) by (simp add: list_all2_lengthD)
  have k: "keeps_row (tp_messages p ! i) (ms ! i)" if "i < length ms" for i
    using assms(2) that len by (simp add: list_all2_conv_all_nth)
  have row: "assistant_row ms t i = assistant_row (tp_messages p) t i" for t i
    using k [of i] len by (auto simp: assistant_row_def keeps_row_def)
  have ids: "tm_id (ms ! i) = tm_id (tp_messages p ! i)" if "assistant_row (tp_messages p) t i" for t i
    using k [of i] len that by (simp add: assistant_row_def keeps_row_def)
  have card: "card_row ms d i = card_row (tp_messages p) d i" for d i
    using k [of i] len unfolding card_row_def keeps_row_def by metis
  show ?thesis
  proof (rule rows_okI)
    fix m assume "m \<in> set (tp_messages (p\<lparr>tp_messages := ms\<rparr>))"
    then obtain i where i: "i < length ms" "m = ms ! i" by (auto simp: in_set_conv_nth)
    then have o: "tp_messages p ! i \<in> set (tp_messages p)" using len by simp
    show "uncommented m" using rows_okD(4) [OF assms(1) o] k i by (simp add: keeps_row_def)
    assume "tm_role m = AssistantRole"
    then have "named_row p (tp_messages p ! i)"
      using rows_okD(3) [OF assms(1) o] k i by (simp add: keeps_row_def)
    then show "named_row (p\<lparr>tp_messages := ms\<rparr>) m" using k [OF i(1)] i(2)
      by (cases "tm_delegation m") (simp_all add: named_row_def keeps_row_def)
  next
    show "unique_rows (tp_messages (p\<lparr>tp_messages := ms\<rparr>))"
      using rows_okD(5) [OF assms(1)]
      by (auto simp: unique_rows_def row ids)
  qed (simp_all add: row card rows_okD [OF assms(1)])
qed

lemma rows_ok_update_row:
  assumes "rows_ok p" "\<And>m. keeps_row m (f m)"
  shows "rows_ok (update_row i f p)"
  unfolding update_row_def
proof (rule rows_ok_changed [OF assms(1)], unfold list_all2_conv_all_nth, intro conjI allI impI)
  fix j assume "j < length (tp_messages p)"
  then show "keeps_row (tp_messages p ! j) ((tp_messages p)[i := f (row_at i p)] ! j)"
    using assms(2) by (cases "i = j") (simp_all add: row_at_def)
qed simp

lemma rows_ok_update_rows:
  assumes "\<And>m. keeps_row m (f m)"
  shows "rows_ok p \<Longrightarrow> rows_ok (update_rows rows f p)"
  unfolding update_rows_def by (induction rows arbitrary: p) (simp_all add: rows_ok_update_row assms)

section \<open>New rows\<close>

lemma assistant_row_append: "assistant_row ms t i \<Longrightarrow> assistant_row (ms @ [m]) t i"
  by (simp add: assistant_row_def nth_append)

lemma assistant_row_append_iff:
  "assistant_row (ms @ [m]) t i \<longleftrightarrow>
     assistant_row ms t i \<or> i = length ms \<and> tm_role m = AssistantRole \<and> tm_turn_id m = Some t"
  by (auto simp: assistant_row_def nth_append less_Suc_eq)

lemma card_row_append: "card_row ms d i \<Longrightarrow> card_row (ms @ [m]) d i"
  by (simp add: card_row_def nth_append)

text \<open>A row that belongs to no turn: a prompt, a note or a card.\<close>

lemma rows_ok_push:
  assumes "rows_ok p" "tm_role m \<noteq> AssistantRole" "uncommented m"
  shows "rows_ok (push_row m p)"
proof (rule rows_okI)
  show "unique_rows (tp_messages (push_row m p))"
    using rows_okD(5) [OF assms(1)] assms(2)
    by (auto simp: unique_rows_def assistant_row_append_iff nth_append assistant_row_def)
  show "named_row (push_row m p) n" if "n \<in> set (tp_messages (push_row m p))" "tm_role n = AssistantRole" for n
    using that assms rows_okD(3) [OF assms(1)] by auto
  show "uncommented n" if "n \<in> set (tp_messages (push_row m p))" for n
    using that assms rows_okD(4) [OF assms(1)] by auto
qed (simp_all add: assistant_row_append card_row_append rows_okD [OF assms(1)])

lemma rows_ok_ensure_delegation:
  assumes "rows_ok p" "ensure_delegation d content at p = (i, p1)"
  shows "rows_ok p1"
proof (cases "tp_delegation_buckets p d")
  case (Some j)
  with assms show ?thesis by (simp add: ensure_delegation_def)
next
  case None
  define m where "m = (new_message (lit ''delegation-'' @ delegation_id_text d) SystemRole (lit ''delegation'') content)
      \<lparr>tm_created_at := Some at,
       tm_delegation := Some \<lparr>td_id = d, td_phase = DpRequested, td_child_session_id = None,
         td_summary = None, td_reason = None\<rparr>, tm_delegation_turn_id := tp_latest_turn p\<rparr>"
  have q: "rows_ok (push_row m p)"
    by (rule rows_ok_push [OF assms(1)]) (simp_all add: m_def new_message_def uncommented_def)
  have p1: "p1 = (push_row m p)\<lparr>tp_delegation_buckets := (tp_delegation_buckets p)(d \<mapsto> length (tp_messages p))\<rparr>"
    using assms(2) None by (auto simp: ensure_delegation_def m_def Let_def push_row_def)
  have "card_row (tp_messages (push_row m p)) d (length (tp_messages p))"
    by (simp add: card_row_def push_row_def m_def new_message_def)
  then show ?thesis unfolding p1
    using q by (auto simp: rows_ok_def)
qed

text \<open>A row of a turn, whose name is new.\<close>

lemma rows_ok_push_assistant:
  assumes ok: "rows_ok p" and m: "tm_role m = AssistantRole" "tm_turn_id m = Some t" "uncommented m"
    and fresh: "\<And>i. assistant_row (tp_messages p) t i \<Longrightarrow> tm_id (tp_messages p ! i) \<noteq> tm_id m"
    and q: "tp_messages q = tp_messages p @ [m]" "tp_session_id q = tp_session_id p"
      "tp_delegation_buckets q = tp_delegation_buckets p"
    and buckets: "\<And>u. tp_assistant_buckets p u \<noteq> None \<Longrightarrow> tp_assistant_buckets q u \<noteq> None"
    and items: "\<And>k. map_of (tp_assistant_items p) k \<noteq> None \<Longrightarrow> map_of (tp_assistant_items q) k \<noteq> None"
    and refs: "turn_refs q \<subseteq> insert (t, length (tp_messages p)) (turn_refs p)"
    and named: "named_row q m"
    and by_turn: "distinct (map fst (tp_messages_by_turn q))"
      "\<And>u rows. (u, rows) \<in> set (tp_messages_by_turn q) \<Longrightarrow> distinct rows"
  shows "rows_ok q"
proof (rule rows_okI)
  fix u i assume "(u, i) \<in> turn_refs q"
  then show "assistant_row (tp_messages q) u i"
    using refs rows_okD(1) [OF ok] m by (auto simp: q assistant_row_append_iff)
next
  fix n assume n: "n \<in> set (tp_messages q)" "tm_role n = AssistantRole"
  show "named_row q n"
  proof (cases "n = m")
    case False
    then have "named_row p n" using n rows_okD(3) [OF ok] by (simp add: q)
    then show ?thesis using buckets items by (auto simp: named_row_def q) (metis option.distinct(1))+
  qed (simp add: named)
next
  have left: "assistant_row (tp_messages p) u i \<Longrightarrow> (tp_messages p @ [m]) ! i = tp_messages p ! i" for u i
    by (simp add: assistant_row_def nth_append)
  show "unique_rows (tp_messages q)"
    using rows_okD(5) [OF ok] fresh m
    by (auto simp: unique_rows_def q assistant_row_append_iff left)
      (metis left nth_append_length)+
qed (use rows_okD [OF ok] m by_turn in \<open>auto simp: q intro: card_row_append\<close>)

section \<open>The operations on rows\<close>

lemma item_row_id_iff [simp]:
  "item_row_id sid t m = item_row_id sid t m' \<longleftrightarrow> m = m'"
  "item_row_id sid t m \<noteq> assistant_row_id sid t" "assistant_row_id sid t \<noteq> item_row_id sid t m"
  by (auto simp: item_row_id_def lit_def)

lemma row_name:
  assumes "rows_ok p" "assistant_row (tp_messages p) t i"
  shows "tm_delegation (tp_messages p ! i) = None"
    "tm_id (tp_messages p ! i) = assistant_row_id (tp_session_id p) t \<and> tp_assistant_buckets p t \<noteq> None \<or>
     (\<exists>mid. tm_id (tp_messages p ! i) = item_row_id (tp_session_id p) t mid \<and>
       map_of (tp_assistant_items p) (t, mid) \<noteq> None)"
proof -
  have "tp_messages p ! i \<in> set (tp_messages p)" "tm_role (tp_messages p ! i) = AssistantRole"
    and t: "tm_turn_id (tp_messages p ! i) = Some t"
    using assms(2) by (simp_all add: assistant_row_def)
  then have n: "named_row p (tp_messages p ! i)" using rows_okD(3) [OF assms(1)] by blast
  from n show "tm_delegation (tp_messages p ! i) = None" by (simp add: named_row_def)
  from n t show "tm_id (tp_messages p ! i) = assistant_row_id (tp_session_id p) t \<and> tp_assistant_buckets p t \<noteq> None \<or>
     (\<exists>mid. tm_id (tp_messages p ! i) = item_row_id (tp_session_id p) t mid \<and>
       map_of (tp_assistant_items p) (t, mid) \<noteq> None)"
    by (simp add: named_row_def)
qed

lemma assistant_message_select [simp]:
  "tm_role (assistant_message i t ph at) = AssistantRole" "tm_turn_id (assistant_message i t ph at) = Some t"
  "tm_id (assistant_message i t ph at) = i" "tm_delegation (assistant_message i t ph at) = None"
  "uncommented (assistant_message i t ph at)"
  by (simp_all add: assistant_message_def new_message_def uncommented_def)

lemma rows_ok_ensure_assistant:
  assumes "rows_ok p" "ensure_assistant t c p = (i, p1)"
  shows "rows_ok p1"
proof (cases "tp_assistant_buckets p t")
  case (Some j)
  with assms show ?thesis by (simp add: ensure_assistant_def)
next
  case None
  let ?m = "assistant_message (assistant_row_id (tp_session_id p) t) t None c"
  have p1: "p1 = (push_row ?m p)\<lparr>tp_assistant_buckets := (tp_assistant_buckets p)(t \<mapsto> length (tp_messages p))\<rparr>"
    using assms(2) None by (auto simp: ensure_assistant_def Let_def)
  show ?thesis
  proof (rule rows_ok_push_assistant [OF assms(1), of ?m t])
    show "tm_id (tp_messages p ! j) \<noteq> tm_id ?m" if "assistant_row (tp_messages p) t j" for j
      using row_name(2) [OF assms(1) that] None by auto
    show "turn_refs p1 \<subseteq> insert (t, length (tp_messages p)) (turn_refs p)"
      by (auto simp: turn_refs_def p1 split: if_splits)
    show "named_row p1 ?m" by (simp add: named_row_def p1)
  qed (use rows_okD(6,7) [OF assms(1)] in \<open>auto simp: p1\<close>)
qed

lemma set_update_cases:
  "x \<in> set (AList.update k v xs) \<Longrightarrow> x = (k, v) \<or> x \<in> set xs"
  by (induction xs) (auto split: if_splits)

lemma map_of_in_refs:
  "map_of (tp_assistant_items p) (t, m) = Some i \<Longrightarrow> (t, i) \<in> turn_refs p"
  "tp_assistant_buckets p t = Some i \<Longrightarrow> (t, i) \<in> turn_refs p"
  "turn_messages t p = Some rows \<Longrightarrow> j \<in> set rows \<Longrightarrow> (t, j) \<in> turn_refs p"
  "tp_active_items p t = Some rows \<Longrightarrow> j \<in> set rows \<Longrightarrow> (t, j) \<in> turn_refs p"
  by (auto simp: turn_refs_def turn_messages_def dest: map_of_SomeD)

text \<open>A position that is already a row of the turn may be kept anywhere.\<close>

lemma rows_ok_refs:
  assumes "rows_ok p" "tp_messages q = tp_messages p" "tp_session_id q = tp_session_id p"
    "tp_delegation_buckets q = tp_delegation_buckets p" "tp_messages_by_turn q = tp_messages_by_turn p"
    "turn_refs q \<subseteq> insert (t, i) (turn_refs p)" "assistant_row (tp_messages p) t i"
    "\<And>u. tp_assistant_buckets p u \<noteq> None \<Longrightarrow> tp_assistant_buckets q u \<noteq> None"
    "\<And>k. map_of (tp_assistant_items p) k \<noteq> None \<Longrightarrow> map_of (tp_assistant_items q) k \<noteq> None"
  shows "rows_ok q"
proof (rule rows_okI)
  show "assistant_row (tp_messages q) u j" if "(u, j) \<in> turn_refs q" for u j
    using that assms(2,6,7) rows_okD(1) [OF assms(1)] by auto
  show "named_row q n" if "n \<in> set (tp_messages q)" "tm_role n = AssistantRole" for n
    using rows_okD(3) [OF assms(1), of n] that assms(2,3,8,9) unfolding named_row_def by metis
qed (use rows_okD [OF assms(1)] assms(2-5) in auto)

lemma rows_ok_make_current:
  assumes "rows_ok p" "assistant_row (tp_messages p) t i"
  shows "rows_ok (make_current current t i p)"
  by (rule rows_ok_refs [OF assms(1) _ _ _ _ _ assms(2)])
    (auto simp: make_current_def turn_refs_def split: if_splits)

lemma rows_ok_mark_active:
  assumes "rows_ok p" "assistant_row (tp_messages p) t i"
  shows "rows_ok (mark_active t i p)"
  by (rule rows_ok_refs [OF assms(1) _ _ _ _ _ assms(2)])
    (auto simp: mark_active_def Let_def turn_refs_def option_or_def split: if_splits option.splits)

lemma add_turn_row_set: "set (add_turn_row b i rows) = insert i (set rows \<union> set_option b)"
  by (auto simp: add_turn_row_def split: option.splits)

lemma distinct_add_turn_row:
  "distinct rows \<Longrightarrow> i \<notin> set rows \<Longrightarrow> b \<noteq> Some i \<Longrightarrow> distinct (add_turn_row b i rows)"
  by (auto simp: add_turn_row_def split: option.splits)

lemma rows_ok_ensure_assistant_item:
  assumes ok: "rows_ok p" and e: "ensure_assistant_item t mid ph current c p = (i, p1)"
  shows "rows_ok p1 \<and> assistant_row (tp_messages p1) t i"
proof (cases "map_of (tp_assistant_items p) (t, mid)")
  case (Some j)
  define q where "q = (if ph \<noteq> PhaseUnknown then update_row j (\<lambda>m. m\<lparr>tm_assistant_phase := Some ph\<rparr>) p else p)"
  have p1: "i = j" "p1 = make_current current t j q"
    using e Some by (auto simp: ensure_assistant_item_def q_def)
  have q: "rows_ok q"
    unfolding q_def using ok by (auto intro!: rows_ok_update_row simp: keeps_row_def uncommented_def)
  have "(t, j) \<in> turn_refs q"
    using map_of_in_refs(1) [of q t mid j] Some by (simp add: q_def)
  then have "assistant_row (tp_messages q) t j" by (rule rows_okD(1) [OF q])
  then show ?thesis using rows_ok_make_current [OF q] by (simp add: p1 make_current_def)
next
  case None
  define n where "n = length (tp_messages p)"
  define m where "m = assistant_message (item_row_id (tp_session_id p) t mid) t (Some ph) c"
  define rows where "rows = option_or (turn_messages t p) []"
  define q where "q = p\<lparr>tp_messages := tp_messages p @ [m],
      tp_assistant_items := AList.update (t, mid) n (tp_assistant_items p),
      tp_messages_by_turn := AList.update t (add_turn_row (tp_assistant_buckets p t) n rows) (tp_messages_by_turn p)\<rparr>"
  have p1: "i = n" "p1 = make_current current t n q"
    using e None by (auto simp: ensure_assistant_item_def Let_def q_def m_def n_def rows_def item_row_id_def
        push_row_def update_turn_messages_def turn_messages_def)
  have old: "j < n" if "(t, j) \<in> turn_refs p" for j
    using rows_okD(1) [OF ok that] by (simp add: assistant_row_def n_def)
  have rows: "(t, j) \<in> turn_refs p" if "j \<in> set rows" for j
    using that map_of_in_refs(3) [of t p _ j]
    by (cases "turn_messages t p") (simp_all add: rows_def option_or_def)
  have bucket: "(t, j) \<in> turn_refs p" if "tp_assistant_buckets p t = Some j" for j
    by (rule map_of_in_refs(2) [OF that])
  have "rows_ok q"
  proof (rule rows_ok_push_assistant [OF ok, of m t])
    show "tm_id (tp_messages p ! j) \<noteq> tm_id m" if "assistant_row (tp_messages p) t j" for j
      using row_name(2) [OF ok that] None by (auto simp: m_def)
    show "turn_refs q \<subseteq> insert (t, length (tp_messages p)) (turn_refs p)"
    proof
      fix r assume "r \<in> turn_refs q"
      moreover have "x \<in> insert (t, n) (turn_refs p)"
        if "x = (t, j)" "j \<in> set (add_turn_row (tp_assistant_buckets p t) n rows)" for x j
        using that rows bucket by (auto simp: add_turn_row_set)
      ultimately show "r \<in> insert (t, length (tp_messages p)) (turn_refs p)"
        unfolding n_def [symmetric]
        by (auto simp: turn_refs_def q_def dest!: set_update_cases)
    qed
    show "named_row q m" by (auto simp: named_row_def q_def m_def)
    show "distinct (map fst (tp_messages_by_turn q))"
      using rows_okD(6) [OF ok] by (simp add: q_def distinct_update)
    fix u rs assume "(u, rs) \<in> set (tp_messages_by_turn q)"
    moreover have "distinct rows"
      using rows_okD(7) [OF ok] by (auto simp: rows_def option_or_def turn_messages_def split: option.splits dest: map_of_SomeD)
    then have "distinct (add_turn_row (tp_assistant_buckets p t) n rows)"
      using old rows bucket by (auto intro!: distinct_add_turn_row)
    ultimately show "distinct rs"
      using rows_okD(7) [OF ok] by (auto simp: q_def dest!: set_update_cases)
  qed (auto simp: m_def q_def)
  moreover have "assistant_row (tp_messages q) t n" by (simp add: assistant_row_def q_def n_def m_def)
  ultimately show ?thesis using rows_ok_make_current [of q t n current] by (simp add: p1 make_current_def)
qed

section \<open>Annotations\<close>

lemma position_bound: "position P xs = Some i \<Longrightarrow> xs ! i \<in> set xs"
  using position_SomeD [of P xs i] by auto

lemma kind_upsert:
  assumes "annotation_kind a \<noteq> 0" "\<And>x. annotation_kind x \<noteq> 0 \<Longrightarrow> annotation_kind (f x) \<noteq> 0"
    "\<forall>x \<in> set xs. annotation_kind x \<noteq> 0" "y \<in> set (upsert_annotation a f xs)"
  shows "annotation_kind y \<noteq> 0"
  using assms position_bound [of "same_kind_id a" xs]
  by (auto simp: upsert_annotation_def split: option.splits dest!: set_update_subset_insert [THEN subsetD])

lemma rows_ok_annotate:
  assumes "rows_ok p" "annotation_kind a \<noteq> 0" "\<And>x. annotation_kind x \<noteq> 0 \<Longrightarrow> annotation_kind (f x) \<noteq> 0"
  shows "rows_ok (annotate i a f p)"
  unfolding annotate_def
proof (rule rows_ok_update_row [OF assms(1)])
  fix m
  have "uncommented m \<Longrightarrow> y \<in> set (upsert_annotation a f (tm_annotations m)) \<Longrightarrow> annotation_kind y \<noteq> 0" for y
    unfolding uncommented_def by (rule kind_upsert [OF assms(2,3)])
  then show "keeps_row m (m\<lparr>tm_annotations := upsert_annotation a f (tm_annotations m)\<rparr>)"
    by (auto simp: keeps_row_def uncommented_def)
qed

lemma rows_ok_note_on_bucket:
  assumes "rows_ok p" "annotation_kind a \<noteq> 0" "\<And>x. annotation_kind x \<noteq> 0 \<Longrightarrow> annotation_kind (f x) \<noteq> 0"
  shows "rows_ok (note_on_bucket t at a f p)"
proof -
  obtain i p1 where e: "ensure_assistant t (started_at t at p) p = (i, p1)" by force
  show ?thesis
    unfolding note_on_bucket_def e Let_def prod.case
    by (rule rows_ok_annotate [OF rows_ok_ensure_assistant [OF assms(1) e] assms(2,3)])
qed

definition kind_safe :: "(annotation list \<Rightarrow> annotation list) \<Rightarrow> bool" where
  "kind_safe f \<longleftrightarrow> (\<forall>xs. (\<forall>x \<in> set xs. annotation_kind x \<noteq> 0) \<longrightarrow> (\<forall>y \<in> set (f xs). annotation_kind y \<noteq> 0))"

lemma kind_safe_map: "(\<And>x. annotation_kind (f x) = annotation_kind x) \<Longrightarrow> kind_safe (map f)"
  by (auto simp: kind_safe_def)

lemma kind_safe_update_first:
  "(\<And>x. annotation_kind (f x) = annotation_kind x) \<Longrightarrow> kind_safe (update_first P f)"
proof -
  assume f: "\<And>x. annotation_kind (f x) = annotation_kind x"
  have "y \<in> set (update_first P f xs) \<Longrightarrow> y \<in> set xs \<or> (\<exists>x \<in> set xs. y = f x)" for y xs
    by (induction xs) (auto split: if_splits)
  with f show ?thesis unfolding kind_safe_def by metis
qed

lemma rows_ok_update_annotations:
  assumes "rows_ok p" "kind_safe f"
  shows "rows_ok (update_annotations i f p)"
  unfolding update_annotations_def
  by (rule rows_ok_update_row [OF assms(1)]) (use assms(2) in \<open>auto simp: keeps_row_def uncommented_def kind_safe_def\<close>)

lemma rows_ok_on_bucket: "rows_ok p \<Longrightarrow> kind_safe f \<Longrightarrow> rows_ok (on_bucket t f p)"
  by (simp add: on_bucket_def rows_ok_update_annotations split: option.splits)

lemma annotation_kind_maps [simp]:
  "annotation_kind (map_tool_call f a) = annotation_kind a"
  "annotation_kind (map_subagent g a) = annotation_kind a"
  "annotation_kind (grow_reasoning c at a) = annotation_kind a"
  "annotation_kind (stop_reasoning rid a) = annotation_kind a"
  "annotation_kind (answer_input rid ans at a) = annotation_kind a"
  "annotation_kind (decide_approval rid b at a) = annotation_kind a"
  "annotation_kind (set_streaming v a) = annotation_kind a"
  by (cases a; simp)+

lemma rows_ok_update_tool_call: "rows_ok p \<Longrightarrow> rows_ok (update_tool_call t i f p)"
  by (simp add: update_tool_call_def rows_ok_update_annotations kind_safe_update_first split: option.splits)

section \<open>Every event\<close>

lemma rows_ok_on_turn_delta: "rows_ok p \<Longrightarrow> rows_ok (on_turn_delta t content at p)"
proof -
  assume ok: "rows_ok p"
  obtain i p1 where e: "ensure_assistant t (started_at t at p) p = (i, p1)" by force
  show ?thesis
    using rows_ok_ensure_assistant [OF ok e]
    by (auto simp: on_turn_delta_def e Let_def keeps_row_def uncommented_def intro!: rows_ok_update_row)
qed

lemma rows_ok_message_events:
  assumes "rows_ok p"
  shows "rows_ok (on_message_started t mid ph at p)" "rows_ok (on_message_delta t mid content at p)"
proof -
  show "rows_ok (on_message_started t mid ph at p)"
    using rows_ok_ensure_assistant_item [OF assms, of t mid ph True "started_at t at p"]
    by (auto simp: on_message_started_def assms split: prod.splits intro!: rows_ok_mark_active)
  obtain i p1 where e: "ensure_assistant_item t mid PhaseUnknown True (started_at t at p) p = (i, p1)" by force
  let ?f = "\<lambda>m. m\<lparr>tm_content := tm_content m @ content, tm_streaming := is_running t p1\<rparr>"
  have "rows_ok (update_row i ?f p1)"
    by (rule rows_ok_update_row)
      (use rows_ok_ensure_assistant_item [OF assms e] in \<open>auto simp: keeps_row_def uncommented_def\<close>)
  moreover have "assistant_row (tp_messages (update_row i ?f p1)) t i"
    using rows_ok_ensure_assistant_item [OF assms e] by (auto simp: assistant_row_def update_row_def row_at_def)
  ultimately show "rows_ok (on_message_delta t mid content at p)"
    by (simp add: on_message_delta_def assms e rows_ok_mark_active)
qed

lemma rows_ok_complete_item:
  assumes "rows_ok p"
  shows "rows_ok (complete_item t i ph content p)"
proof -
  define q where "q = update_row i (\<lambda>m. m\<lparr>tm_assistant_phase := Some ph,
      tm_content := option_or content (tm_content m), tm_streaming := False\<rparr>) p"
  have ok: "rows_ok q" unfolding q_def
    by (rule rows_ok_update_row [OF assms]) (simp add: keeps_row_def uncommented_def)
  define a where "a = (case tp_active_items q t of None \<Rightarrow> tp_active_items q
      | Some active \<Rightarrow> (tp_active_items q)(t \<mapsto> filter (\<lambda>item. item \<noteq> i) active))"
  have "turn_refs (q\<lparr>tp_active_items := a\<rparr>) \<subseteq> turn_refs q"
    by (auto simp: turn_refs_def a_def split: option.splits if_splits)
  then have "rows_ok (q\<lparr>tp_active_items := a\<rparr>)"
    using ok by (auto simp: rows_ok_def named_row_def)
  then have "rows_ok ((q\<lparr>tp_active_items := a\<rparr>)\<lparr>tp_completed_items := c\<rparr>)" for c by simp
  moreover have "complete_item t i ph content p = (q\<lparr>tp_active_items := a\<rparr>)\<lparr>tp_completed_items :=
      tp_completed_items q \<union> set (map fst (filter (\<lambda>(_, candidate). candidate = i) (tp_assistant_items q)))\<rparr>"
    unfolding complete_item_def q_def [symmetric] a_def Let_def by simp
  ultimately show ?thesis by metis
qed

lemma rows_ok_on_message_completed:
  assumes "rows_ok p"
  shows "rows_ok (on_message_completed t mid ph content at p)"
proof (cases "map_of (tp_assistant_items p) (t, mid)")
  case (Some i)
  then show ?thesis by (simp add: on_message_completed_def rows_ok_complete_item assms)
next
  case none: None
  show ?thesis
  proof (cases "lifecycle_item t mid ph p")
    case None
    obtain i p1 where e: "ensure_assistant_item t mid ph False (started_at t at p) p = (i, p1)" by force
    show ?thesis
      using rows_ok_ensure_assistant_item [OF assms e]
      by (simp add: on_message_completed_def none None e rows_ok_complete_item)
  next
    case (Some i)
    then have "i \<in> set (option_or (tp_active_items p t) [])"
      by (auto simp: lifecycle_item_def Let_def filter_opt_def length_Suc_conv split: option.splits if_splits)
    then have row: "assistant_row (tp_messages p) t i"
      using rows_okD(1) [OF assms] map_of_in_refs(4) [of p t _ i]
      by (cases "tp_active_items p t") (auto simp: option_or_def)
    have "rows_ok (p\<lparr>tp_assistant_items := AList.update (t, mid) i (tp_assistant_items p)\<rparr>)"
      by (rule rows_ok_refs [OF assms _ _ _ _ _ row]) (auto simp: turn_refs_def dest!: set_update_cases)
    then show ?thesis by (simp add: on_message_completed_def none Some rows_ok_complete_item)
  qed
qed

lemma rows_ok_reasoning_events:
  assumes "rows_ok p"
  shows "rows_ok (on_reasoning_started t rid label at p)" "rows_ok (on_reasoning_delta t rid content at p)"
    "rows_ok (on_reasoning_completed t rid p)"
  using assms by (simp_all add: on_reasoning_started_def Let_def break_text_def on_reasoning_delta_def
      on_reasoning_completed_def rows_ok_note_on_bucket rows_ok_on_bucket kind_safe_map)

lemma rows_ok_tool_events:
  assumes "rows_ok p"
  shows "rows_ok (on_tool_call_started t tid action command file at p)"
    "rows_ok (on_tool_call_delta t tid content at p)" "rows_ok (on_tool_call_completed t tid detail p)"
    "rows_ok (on_tool_call_updated t tid d p)" "rows_ok (on_tool_call_failed t tid reason detail p)"
proof -
  show "rows_ok (on_tool_call_delta t tid content at p)"
    using assms rows_ok_ensure_assistant [OF assms, of t "started_at t at p"]
    by (cases "ensure_assistant t (started_at t at p) p")
      (simp add: on_tool_call_delta_def rows_ok_update_tool_call)
qed (use assms in \<open>simp_all add: on_tool_call_started_def Let_def break_text_def rows_ok_note_on_bucket
    on_tool_call_completed_def on_tool_call_updated_def on_tool_call_failed_def close_tool_call_def
    rows_ok_update_tool_call\<close>)

lemma rows_ok_subagent_events:
  assumes "rows_ok p"
  shows "rows_ok (on_subagent_activity t i aid tid path name r model status at p)"
    "rows_ok (on_subagent_model confirmed t correlation text p)"
proof -
  obtain row p1 where e: "ensure_assistant t (started_at t at p) p = (row, p1)" by force
  have ks: "kind_safe (\<lambda>as. if list_ex P as then update_first P (map_subagent f) as else as @ [SubagentNote a])"
    for P f a
    using kind_safe_update_first [of "map_subagent f" P] by (auto simp: kind_safe_def)
  show "rows_ok (on_subagent_activity t i aid tid path name r model status at p)"
    unfolding on_subagent_activity_def e Let_def prod.case
    by (rule rows_ok_update_annotations [OF rows_ok_ensure_assistant [OF assms e] ks])
  show "rows_ok (on_subagent_model confirmed t correlation text p)"
    unfolding on_subagent_model_def
    by (rule rows_ok_on_bucket) (simp_all add: assms kind_safe_update_first)
qed

lemma keeps_stop_row [simp]:
  "keeps_row m (stop_row m)" "keeps_row m (stop_row (m\<lparr>tm_status := s\<rparr>))"
  by (simp_all add: keeps_row_def stop_row_def uncommented_def)

lemma rows_ok_turn_ends:
  assumes "rows_ok p"
  shows "rows_ok (on_turn_completed t at p)" "rows_ok (on_turn_aborted t reason at p)"
proof -
  show "rows_ok (on_turn_completed t at p)"
    using assms by (simp add: on_turn_completed_def Let_def rows_ok_update_rows)
  define p1 where "p1 = p\<lparr>tp_aborted_turns := (tp_aborted_turns p)(t \<mapsto> option_or reason (lit ''Turn aborted'')),
      tp_turn_ended_at := (tp_turn_ended_at p)(t \<mapsto> at)\<rparr>"
  have ok: "rows_ok p1" using assms by (simp add: p1_def)
  obtain i q where e: "ensure_assistant t (started_at t at p1) p1 = (i, q)" by force
  show "rows_ok (on_turn_aborted t reason at p)"
    unfolding on_turn_aborted_def p1_def [symmetric] Let_def e
    using ok rows_ok_ensure_assistant [OF ok e] by (simp add: rows_ok_update_rows)
qed

lemma rows_ok_session_events:
  assumes "rows_ok p"
  shows "rows_ok (on_turn_started t prompt pm model ev retry at p)" "rows_ok (on_turn_steered t prompt at p)"
    "rows_ok (on_session_started origin at p)" "rows_ok (on_other_event kind at p)"
    "rows_ok (on_usage_limit_resumed account p)"
proof -
  show "rows_ok (on_usage_limit_resumed account p)"
    using assms
    by (auto simp: on_usage_limit_resumed_def list_all2_conv_all_nth continue_on_def keeps_row_def uncommented_def
        intro!: rows_ok_changed split: option.splits)
qed (use assms in \<open>auto simp: on_turn_started_def on_turn_steered_def on_session_started_def on_other_event_def
    system_message_def new_message_def Let_def uncommented_def intro!: rows_ok_push split: option.splits\<close>)

lemma rows_ok_apply_delegation: "rows_ok p \<Longrightarrow> rows_ok (apply_delegation d kind at p)"
proof -
  assume ok: "rows_ok p"
  obtain i p1 where e: "ensure_delegation d (option_or (delegation_text kind) []) at p = (i, p1)" by force
  show ?thesis
    unfolding apply_delegation_def Let_def e prod.case
    by (rule rows_ok_update_row [OF rows_ok_ensure_delegation [OF ok e]])
      (auto simp: keeps_row_def uncommented_def delegation_card_def Let_def split: option.splits session_event_kind.splits)
qed

lemma rows_ok_apply_event: "rows_ok p \<Longrightarrow> rows_ok (apply_timeline_event e p)"
  by (cases "tl_kind e")
    (simp_all add: apply_timeline_event_def Let_def rows_ok_session_events rows_ok_apply_delegation rows_ok_turn_ends
      rows_ok_subagent_events rows_ok_tool_events rows_ok_reasoning_events rows_ok_on_message_completed
      rows_ok_message_events rows_ok_on_turn_delta rows_ok_note_on_bucket rows_ok_on_bucket kind_safe_map
      on_model_effective_def on_usage_limit_reached_def)

lemma rows_ok_project_from: "rows_ok p \<Longrightarrow> rows_ok (project_from events p)"
  unfolding project_from_def by (induction events arbitrary: p) (simp_all add: rows_ok_apply_event)

end
