(* ===== verification/Timeline_Rendered.thy ===== *)
theory Timeline_Rendered
  imports Timeline_Rows
begin

text \<open>
  What the conversation shows at the end of the fold: no text of a turn is lost when its rows are
  folded into one, and delegation cards move without any row being lost.
\<close>

section \<open>Annotations merged into a turn's row\<close>

lemma merge_annotation_adds:
  assumes "annotation_kind a = 0"
  shows "a \<in> set (merge_annotation a xs)"
proof (cases "position (\<lambda>x. same_annotation x a) xs")
  case (Some i)
  have "merged_annotation (xs ! i) a = a" using assms by (cases a; cases "xs ! i") simp_all
  with Some position_SomeD [OF Some] show ?thesis by (simp add: merge_annotation_def set_update_memI)
qed (simp add: merge_annotation_def)

lemma merge_annotation_keeps:
  assumes "a \<in> set xs" "\<not> same_annotation a b"
  shows "a \<in> set (merge_annotation b xs)"
proof (cases "position (\<lambda>x. same_annotation x b) xs")
  case (Some i)
  obtain k where k: "k < length xs" "a = xs ! k" using assms(1) by (auto simp: in_set_conv_nth)
  then have "k \<noteq> i" using position_SomeD [OF Some] assms(2) by auto
  then have "a \<in> set (xs[i := x])" for x
    unfolding in_set_conv_nth by (intro exI [of _ k]) (simp add: k)
  then show ?thesis using Some by (simp add: merge_annotation_def)
qed (use assms in \<open>simp add: merge_annotation_def\<close>)

lemma fold_merge_keeps:
  assumes "\<forall>b \<in> set bs. annotation_kind b \<noteq> 0" "annotation_kind a = 0"
  shows "a \<in> set xs \<Longrightarrow> a \<in> set (fold merge_annotation bs xs)"
  using assms(1)
proof (induction bs arbitrary: xs)
  case (Cons b bs)
  then have "\<not> same_annotation a b" using assms(2) by (simp add: same_annotation_def)
  with Cons show ?case by (simp add: merge_annotation_keeps)
qed simp

text \<open>The commentary a row leaves in its turn's row.\<close>

definition commentary_of :: "bool \<Rightarrow> nat \<Rightarrow> nat \<Rightarrow> timeline_message \<Rightarrow> annotation" where
  "commentary_of settled terminal i m =
     CommentaryNote (lit ''commentary-'' @ tm_id m) (tm_content m)
       (if \<not> settled \<and> i = terminal then True else tm_streaming m) (tm_created_at m)"

lemma fold_row_keeps:
  assumes "a \<in> set xs" "a = commentary_of settled terminal i (ms ! i)" "uncommented (ms ! j)"
    "tm_id (ms ! j) = tm_id (ms ! i) \<Longrightarrow> j = i"
  shows "a \<in> set (fold_row settled ms terminal j xs)"
proof -
  have k: "annotation_kind a = 0" using assms(2) by (simp add: commentary_of_def)
  let ?b = "commentary_of settled terminal j (ms ! j)"
  have "a \<in> set (merge_annotation ?b xs)"
  proof (cases "j = i")
    case True
    then show ?thesis using merge_annotation_adds [OF k] assms(2) by simp
  next
    case False
    then show ?thesis
      using assms by (intro merge_annotation_keeps) (auto simp: same_annotation_def commentary_of_def)
  qed
  then show ?thesis
    using assms(1,3) fold_merge_keeps [OF _ k]
    by (simp add: fold_row_def Let_def uncommented_def commentary_of_def)
qed

lemma fold_row_adds:
  assumes "\<not> (i = terminal \<and> settled)" "\<not> blank (tm_content (ms ! i))" "uncommented (ms ! i)"
  shows "commentary_of settled terminal i (ms ! i) \<in> set (fold_row settled ms terminal i xs)"
proof -
  have k: "annotation_kind (commentary_of settled terminal i (ms ! i)) = 0" by (simp add: commentary_of_def)
  show ?thesis
    using assms fold_merge_keeps [OF _ k] merge_annotation_adds [OF k]
    by (simp add: fold_row_def Let_def uncommented_def commentary_of_def)
qed

lemma fold_rows_comment:
  assumes "\<not> (i = terminal \<and> settled)" "\<not> blank (tm_content (ms ! i))" "i \<in> set rows"
    "\<And>j. j \<in> set rows \<Longrightarrow> uncommented (ms ! j)"
    "\<And>j. j \<in> set rows \<Longrightarrow> tm_id (ms ! j) = tm_id (ms ! i) \<Longrightarrow> j = i"
  shows "commentary_of settled terminal i (ms ! i) \<in> set (fold (fold_row settled ms terminal) rows xs)"
proof -
  obtain us vs where rows: "rows = us @ i # vs" using assms(3) by (auto simp: in_set_conv_decomp)
  let ?a = "commentary_of settled terminal i (ms ! i)"
  have "?a \<in> set (fold_row settled ms terminal i (fold (fold_row settled ms terminal) us xs))"
    by (rule fold_row_adds) (use assms in auto)
  moreover have "?a \<in> set ys \<Longrightarrow> ?a \<in> set (fold (fold_row settled ms terminal) js ys)"
    if "set js \<subseteq> set rows" for js ys
    using that
  proof (induction js arbitrary: ys)
    case (Cons j js)
    then have "?a \<in> set (fold_row settled ms terminal j ys)"
      using assms(4,5) [of j] fold_row_keeps [OF Cons.prems(1) refl, of j] by simp
    with Cons show ?case by simp
  qed simp
  note this [of vs, OF _ calculation]
  then show ?thesis by (simp add: rows subset_insertI2)
qed

section \<open>One turn and the others\<close>

lemma terminal_row_mem:
  assumes "rows \<noteq> []"
  shows "terminal_row settled ms rows \<in> set rows"
proof -
  have f: "find P (rev rows) = Some i \<Longrightarrow> i \<in> set rows" for P i
    by (auto simp: find_Some_iff) (metis length_rev nth_mem set_rev)
  show ?thesis
    using assms by (auto simp: terminal_row_def Let_def option_or_def or_opt_def dest: f split: option.splits)
qed

definition folded_row ::
    "bool \<Rightarrow> session_id \<Rightarrow> turn_id \<Rightarrow> timeline_message list \<Rightarrow> nat list \<Rightarrow> timeline_message" where
  "folded_row settled sid turn ms rows =
     (let terminal = terminal_row settled ms rows; m = ms ! terminal
      in m\<lparr>tm_id := assistant_row_id sid turn, tm_turn_id := Some turn, tm_streaming := \<not> settled,
           tm_annotations := fold (fold_row settled ms terminal) rows [],
           tm_content := (if settled then tm_content m else [])\<rparr>)"

lemma fold_turn_eq:
  assumes "rows \<noteq> []"
  shows "fold_turn st sid (t, rows) (ms, hidden) =
    (ms[terminal_row (st t) ms rows := folded_row (st t) sid t ms rows],
     hidden @ filter (\<lambda>i. i \<noteq> terminal_row (st t) ms rows) rows)"
  using assms by (simp add: fold_turn_def folded_row_def Let_def)

lemma fold_turn_empty: "fold_turn st sid (t, []) state = state"
  by (cases state) (simp add: fold_turn_def)

text \<open>A row outside the turns folded is left as it is.\<close>

lemma fold_turns_outside:
  assumes "\<And>t rows. (t, rows) \<in> set turns \<Longrightarrow> i \<notin> set rows"
  shows "fst (fold (fold_turn st sid) turns (ms, hidden)) ! i = ms ! i \<and>
    (i \<in> set (snd (fold (fold_turn st sid) turns (ms, hidden))) \<longleftrightarrow> i \<in> set hidden) \<and>
    length (fst (fold (fold_turn st sid) turns (ms, hidden))) = length ms"
  using assms
proof (induction turns arbitrary: ms hidden)
  case (Cons r turns)
  obtain t rows where r: "r = (t, rows)" by force
  have i: "i \<notin> set rows" using Cons.prems r by auto
  have tail: "\<And>t rows. (t, rows) \<in> set turns \<Longrightarrow> i \<notin> set rows" using Cons.prems by auto
  show ?case
  proof (cases "rows = []")
    case True
    show ?thesis unfolding r True fold_simps(2) fold_turn_empty
      by (rule Cons.IH [OF tail])
  next
    case False
    have "terminal_row (st t) ms rows \<noteq> i" using terminal_row_mem [OF False] i by blast
    then show ?thesis
      using Cons.IH [of "ms[terminal_row (st t) ms rows := folded_row (st t) sid t ms rows]"
          "hidden @ filter (\<lambda>i. i \<noteq> terminal_row (st t) ms rows) rows"] tail i
      by (simp add: r fold_turn_eq [OF False])
  qed
qed simp

lemma shown_row:
  assumes "i < length ms" "i \<notin> set hidden"
  shows "ms ! i \<in> set (map snd (filter (\<lambda>(i, _). i \<notin> set hidden) (enumerate 0 ms)))"
  using assms by (force simp: in_set_enumerate_eq image_iff)

lemma fold_assistant_turns_outside:
  assumes "i < length ms" "\<And>t rows. (t, rows) \<in> set turns \<Longrightarrow> i \<notin> set rows"
  shows "ms ! i \<in> set (fold_assistant_turns ms turns st sid)"
proof -
  obtain ms' hidden where f: "fold (fold_turn st sid) turns (ms, []) = (ms', hidden)" by force
  have "ms' ! i = ms ! i" "i \<notin> set hidden" "length ms' = length ms"
    using fold_turns_outside [of turns i st sid ms "[]"] assms(2) by (auto simp: f)
  then show ?thesis using shown_row [of i ms' hidden] assms(1) by (simp add: fold_assistant_turns_def f)
qed

text \<open>The one row of a turn, with the text of every row it had.\<close>

definition shows_text :: "timeline_message \<Rightarrow> timeline_message \<Rightarrow> bool" where
  "shows_text row m \<longleftrightarrow> tm_turn_id row = tm_turn_id m \<and> (tm_content row = tm_content m \<or>
     (\<exists>streaming. CommentaryNote (lit ''commentary-'' @ tm_id m) (tm_content m) streaming (tm_created_at m)
        \<in> set (tm_annotations row)))"

lemma fold_assistant_turns_inside:
  assumes turns: "distinct (map fst turns)" "(t, rows) \<in> set turns" "i \<in> set rows"
    and ms: "\<And>u rs j. (u, rs) \<in> set turns \<Longrightarrow> j \<in> set rs \<Longrightarrow> assistant_row ms u j \<and> uncommented (ms ! j)"
      "unique_rows ms" "tm_delegation (ms ! terminal_row (st t) ms rows) = None"
    and nonblank: "\<not> blank (tm_content (ms ! i))"
  shows "\<exists>row \<in> set (fold_assistant_turns ms turns st sid). tm_delegation row = None \<and> shows_text row (ms ! i)"
proof -
  obtain us vs where split: "turns = us @ (t, rows) # vs" using turns(2) by (meson split_list)
  have other: "j \<notin> set rs" if "(u, rs) \<in> set us \<union> set vs" "j \<in> set rows" for u rs j
  proof
    assume "j \<in> set rs"
    with that have "assistant_row ms u j" "assistant_row ms t j" using ms(1) turns(2) split by auto
    then have "u = t" by (simp add: assistant_row_def)
    moreover have "u \<in> fst ` set us \<union> fst ` set vs" using that(1) by force
    ultimately show False using turns(1) split by (auto simp: image_iff)
  qed
  have ne: "rows \<noteq> []" using turns(3) by auto
  obtain ms1 h1 where f1: "fold (fold_turn st sid) us (ms, []) = (ms1, h1)" by force
  have same: "ms1 ! j = ms ! j" "j \<notin> set h1" "length ms1 = length ms" if "j \<in> set rows" for j
    using fold_turns_outside [of us j st sid ms "[]"] other that by (auto simp: f1)
  define k where "k = terminal_row (st t) ms rows"
  have k: "k \<in> set rows" unfolding k_def by (rule terminal_row_mem [OF ne])
  have ids: "assistant_row ms t j" "uncommented (ms ! j)" if "j \<in> set rows" for j
    using ms(1) turns(2) that by auto
  have find_eq: "find (\<lambda>j. P (ms1 ! j)) (rev rows) = find (\<lambda>j. P (ms ! j)) (rev rows)" for P
    by (rule find_cong) (simp_all add: same)
  have tr: "terminal_row (st t) ms1 rows = k"
    unfolding k_def terminal_row_def find_eq [of "\<lambda>m. tm_assistant_phase m = Some FinalAnswer"]
      find_eq [of "\<lambda>m. \<not> blank (tm_content m)"] ..
  have folded: "folded_row (st t) sid t ms1 rows = folded_row (st t) sid t ms rows"
  proof -
    have "fold (fold_row (st t) ms1 k) rows [] = fold (fold_row (st t) ms k) rows []"
      by (rule fold_cong) (simp_all add: fun_eq_iff fold_row_def same)
    then show ?thesis using same(1) [OF k] by (simp add: folded_row_def tr k_def [symmetric] Let_def)
  qed
  let ?row = "folded_row (st t) sid t ms rows"
  define h2 where "h2 = h1 @ filter (\<lambda>i. i \<noteq> k) rows"
  have step: "fold_turn st sid (t, rows) (ms1, h1) = (ms1[k := ?row], h2)"
    using fold_turn_eq [OF ne, of st sid t ms1 h1] by (simp add: tr folded h2_def)
  obtain ms3 h3 where f3: "fold (fold_turn st sid) vs (ms1[k := ?row], h2) = (ms3, h3)" by force
  have hk: "k \<notin> set h2" using same(2) [OF k] by (simp add: h2_def)
  have vs: "\<And>u rs. (u, rs) \<in> set vs \<Longrightarrow> k \<notin> set rs" using other k by blast
  have "k < length ms" using ids(1) [OF k] by (simp add: assistant_row_def)
  then have "ms3 ! k = ?row" "k \<notin> set h3" "k < length ms3"
    using fold_turns_outside [of vs k st sid "ms1[k := ?row]" h2] vs hk same(3) [OF k] by (simp_all add: f3)
  moreover have "fold (fold_turn st sid) turns (ms, []) = (ms3, h3)"
    by (simp add: split f1 step f3)
  ultimately have "?row \<in> set (fold_assistant_turns ms turns st sid)"
    using shown_row [of k ms3 h3] by (simp add: fold_assistant_turns_def)
  moreover have "tm_delegation ?row = None" using ms(3) by (simp add: folded_row_def Let_def)
  moreover have "shows_text ?row (ms ! i)"
  proof (cases "i = k \<and> st t")
    case True
    then show ?thesis using ids(1) [OF k] by (simp add: shows_text_def folded_row_def Let_def k_def assistant_row_def)
  next
    case False
    have "commentary_of (st t) k i (ms ! i) \<in> set (fold (fold_row (st t) ms k) rows [])"
    proof (rule fold_rows_comment [OF False nonblank turns(3) ids(2)])
      show "j = i" if "j \<in> set rows" "tm_id (ms ! j) = tm_id (ms ! i)" for j
        using ms(2) ids(1) [OF that(1)] ids(1) [OF turns(3)] that(2) unfolding unique_rows_def by blast
    qed
    then show ?thesis using ids(1) [OF turns(3)]
      by (auto simp: shows_text_def folded_row_def Let_def commentary_of_def k_def assistant_row_def)
  qed
  ultimately show ?thesis by blast
qed

section \<open>Cards\<close>

lemma place_keeps:
  assumes "m \<in> set ms" "tm_delegation m = None"
  shows "m \<in> set (place_delegations_after_their_turn ms)"
proof -
  obtain i where i: "i < length ms" "m = ms ! i" using assms(1) by (auto simp: in_set_conv_nth)
  have "card_anchor ms (i, m) = None" using assms(2) by (simp add: card_anchor_def split: option.splits)
  moreover have "(i, m) \<in> set (enumerate 0 ms)" using i by (simp add: in_set_enumerate_eq)
  ultimately show ?thesis
    using assms(1) by (auto simp: place_delegations_after_their_turn_def Let_def)
qed

section \<open>The end of the fold\<close>

text \<open>What \<open>finish\<close> changes in a row before the turns are folded.\<close>

definition same_text :: "timeline_message \<Rightarrow> timeline_message \<Rightarrow> bool" where
  "same_text m m' \<longleftrightarrow> tm_role m' = tm_role m \<and> tm_turn_id m' = tm_turn_id m \<and> tm_id m' = tm_id m \<and>
     tm_content m' = tm_content m \<and> tm_annotations m' = tm_annotations m \<and>
     tm_created_at m' = tm_created_at m \<and> tm_delegation m' = tm_delegation m"

lemma same_text_trans: "same_text a b \<Longrightarrow> same_text b c \<Longrightarrow> same_text a c"
  by (simp add: same_text_def)

lemma same_text_refl [simp]: "same_text m m"
  by (simp add: same_text_def)

lemma list_all2_same_refl [simp]: "list_all2 same_text ms ms"
  by (simp add: list_all2_refl)

lemma same_text_update_row:
  assumes "\<And>m. same_text m (f m)"
  shows "list_all2 same_text (tp_messages p) (tp_messages (update_row i f p))"
  by (cases "i < length (tp_messages p)")
    (auto simp: update_row_def row_at_def list_all2_conv_all_nth nth_list_update assms list_update_beyond)

lemma list_all2_same_trans:
  "list_all2 same_text xs ys \<Longrightarrow> list_all2 same_text ys zs \<Longrightarrow> list_all2 same_text xs zs"
  by (erule list_all2_trans [rotated], assumption) (rule same_text_trans)

lemma same_text_update_rows:
  assumes "\<And>m. same_text m (f m)"
  shows "list_all2 same_text (tp_messages p) (tp_messages (update_rows rows f p))"
  unfolding update_rows_def
proof (induction rows arbitrary: p)
  case (Cons i rows)
  show ?case using list_all2_same_trans [OF same_text_update_row [OF assms] Cons.IH] by simp
qed simp

lemma same_text_set_model [simp]: "same_text m (set_model x m)" "keeps_row m (set_model x m)"
  by (simp_all add: same_text_def set_model_def keeps_row_def uncommented_def)

lemma update_rows_select [simp]:
  "tp_messages_by_turn (update_rows rows f p) = tp_messages_by_turn p"
  "tp_session_id (update_rows rows f p) = tp_session_id p"
  unfolding update_rows_def by (induction rows arbitrary: p) simp_all

lemma apply_turn_model_same:
  "rows_ok p \<Longrightarrow> rows_ok (apply_turn_model tm p) \<and>
     list_all2 same_text (tp_messages p) (tp_messages (apply_turn_model tm p)) \<and>
     tp_messages_by_turn (apply_turn_model tm p) = tp_messages_by_turn p \<and>
     tp_session_id (apply_turn_model tm p) = tp_session_id p"
  by (cases tm)
    (auto simp: apply_turn_model_def Let_def same_text_update_rows rows_ok_update_rows rows_ok_update_row
      intro: list_all2_same_trans [OF same_text_update_rows same_text_update_row] split: option.splits)

lemma turn_models_same:
  "rows_ok p \<Longrightarrow> rows_ok (fold apply_turn_model tms p) \<and>
     list_all2 same_text (tp_messages p) (tp_messages (fold apply_turn_model tms p)) \<and>
     tp_messages_by_turn (fold apply_turn_model tms p) = tp_messages_by_turn p \<and>
     tp_session_id (fold apply_turn_model tms p) = tp_session_id p"
proof (induction tms arbitrary: p)
  case (Cons tm tms)
  from apply_turn_model_same [OF Cons.prems, of tm] Cons.IH [of "apply_turn_model tm p"] show ?case
    by (auto intro: list_all2_same_trans)
qed simp

lemma plan_modes_same: "list_all2 same_text ms (answer_plan_modes alphanumeric plan ms)"
  by (induction ms arbitrary: plan) (simp_all add: same_text_def split: role.splits)

lemma turn_times_same: "list_all2 same_text ms (map (turn_times p) ms)"
  by (simp add: list_all2_conv_all_nth turn_times_def same_text_def split: role.splits option.splits)

lemma finish_shows_text:
  assumes ok: "rows_ok p" and row: "assistant_row (tp_messages p) t i"
    and nonblank: "\<not> blank (tm_content (row_at i p))"
  shows "\<exists>m \<in> set (finish alphanumeric p). shows_text m (row_at i p)"
proof -
  define q where "q = fold apply_turn_model (tp_turn_model p) p"
  define ms where "ms = map (turn_times q) (answer_plan_modes alphanumeric False (tp_messages q))"
  note q = turn_models_same [OF ok, of "tp_turn_model p", folded q_def]
  have all: "list_all2 same_text (tp_messages p) ms"
    unfolding ms_def by (rule list_all2_same_trans [OF _ list_all2_same_trans [OF plan_modes_same turn_times_same]])
      (use q in blast)
  then have len: "length ms = length (tp_messages p)" by (simp add: list_all2_lengthD)
  have nth: "same_text (tp_messages p ! j) (ms ! j)" if "j < length (tp_messages p)" for j
    using all that by (simp add: list_all2_conv_all_nth)
  have rows: "assistant_row ms u j \<longleftrightarrow> assistant_row (tp_messages p) u j" for u j
    using nth [of j] by (auto simp: assistant_row_def len same_text_def)
  have i: "i < length (tp_messages p)" using row by (simp add: assistant_row_def)
  let ?turns = "tp_messages_by_turn p" and ?st = "settled_turn q" and ?sid = "tp_session_id p"
  have fin: "finish alphanumeric p = place_delegations_after_their_turn (fold_assistant_turns ms ?turns ?st ?sid)"
    using q by (simp add: finish_def q_def [symmetric] ms_def [symmetric] Let_def)
  have eq: "shows_text m (ms ! i) \<longleftrightarrow> shows_text m (row_at i p)" for m
    using nth [OF i] by (simp add: shows_text_def same_text_def row_at_def)
  have by_turn: "assistant_row ms u j \<and> uncommented (ms ! j)" if "(u, rs) \<in> set ?turns" "j \<in> set rs" for u rs j
  proof -
    have "(u, j) \<in> turn_refs p" using that by (auto simp: turn_refs_def)
    then have a: "assistant_row (tp_messages p) u j" by (rule rows_okD(1) [OF ok])
    then have "tp_messages p ! j \<in> set (tp_messages p)" by (simp add: assistant_row_def)
    then have "uncommented (tp_messages p ! j)" by (rule rows_okD(4) [OF ok])
    then show ?thesis using a nth [of j] by (simp add: rows) (simp add: assistant_row_def uncommented_def same_text_def)
  qed
  have plain: "tm_delegation (ms ! j) = None" if "assistant_row ms u j" for u j
    using row_name(1) [OF ok, of u j] that nth [of j] len by (simp add: rows) (simp add: assistant_row_def same_text_def)
  have "\<exists>m \<in> set (fold_assistant_turns ms ?turns ?st ?sid). tm_delegation m = None \<and> shows_text m (ms ! i)"
  proof (cases "\<exists>u rs. (u, rs) \<in> set ?turns \<and> i \<in> set rs")
    case True
    then obtain u rs where u: "(u, rs) \<in> set ?turns" "i \<in> set rs" by blast
    then have "rs \<noteq> []" by auto
    show ?thesis
    proof (rule fold_assistant_turns_inside [OF rows_okD(6) [OF ok] u])
      show "assistant_row ms v j \<and> uncommented (ms ! j)" if "(v, ws) \<in> set ?turns" "j \<in> set ws" for v ws j
        by (rule by_turn [OF that])
      show "unique_rows ms"
        using rows_okD(5) [OF ok] nth by (auto simp: unique_rows_def rows) (simp add: assistant_row_def same_text_def)
      show "tm_delegation (ms ! terminal_row (?st u) ms rs) = None"
        by (rule plain [of u]) (use by_turn u terminal_row_mem [OF \<open>rs \<noteq> []\<close>] in blast)
      show "\<not> blank (tm_content (ms ! i))" using nonblank nth [OF i] by (simp add: same_text_def row_at_def)
    qed
  next
    case False
    then have "ms ! i \<in> set (fold_assistant_turns ms ?turns ?st ?sid)"
      by (intro fold_assistant_turns_outside) (use i len in auto)
    moreover have "tm_delegation (ms ! i) = None" by (rule plain [of t]) (simp add: rows row)
    ultimately show ?thesis by (auto simp: shows_text_def)
  qed
  then show ?thesis unfolding fin using place_keeps eq by blast
qed

end
