(* ===== verification/Delta_Compaction.thy ===== *)
theory Delta_Compaction
  imports Event_Store
begin

text \<open>
  The compaction of streamed deltas (\<open>dcc-infra/src/db/delta_compaction.rs\<close>), the pass that
  drives it (\<open>dcc-server/src/delta_compaction_worker.rs\<close>) and the endpoint that serves the
  history to a client with a cursor (\<open>list_session_events_handler\<close> in \<open>http_api.rs\<close>).

  A step reads on one connection while other connections append: \<open>arrivals\<close> are the events
  appended between its reads and between the last read and the write transaction. Rows whose
  \<open>kind_json\<close> does not parse do not occur. Times are nanoseconds and \<open>parse_time\<close> stands for
  chrono's RFC 3339 parser.
\<close>

section \<open>Deltas\<close>

definition DELTA_COMPACTION_SETTLE_MINUTES :: int where
  "DELTA_COMPACTION_SETTLE_MINUTES = 10"

definition MERGED_CONTENT_MAX_BYTES :: nat where
  "MERGED_CONTENT_MAX_BYTES = 128 * 1024"

text \<open>What makes two deltas mergeable (tag, turn and item), and the text.\<close>

type_synonym delta_key = "string \<times> turn_id \<times> rstr"

definition delta_target :: "session_event_kind \<Rightarrow> (delta_key \<times> rstr) option" where
  "delta_target kind =
     (case kind of
        TurnDelta t content \<Rightarrow> Some ((''turn_delta'', t, []), content)
      | TurnAssistantMessageDelta t m content \<Rightarrow>
          Some ((''turn_assistant_message_delta'', t, m), content)
      | TurnReasoningDelta t r content \<Rightarrow> Some ((''turn_reasoning_delta'', t, r), content)
      | TurnToolCallDelta t c content \<Rightarrow> Some ((''turn_tool_call_delta'', t, c), content)
      | _ \<Rightarrow> None)"

definition with_content :: "session_event_kind \<Rightarrow> rstr \<Rightarrow> session_event_kind" where
  "with_content kind merged =
     (case kind of
        TurnDelta t _ \<Rightarrow> TurnDelta t merged
      | TurnAssistantMessageDelta t m _ \<Rightarrow> TurnAssistantMessageDelta t m merged
      | TurnReasoningDelta t r _ \<Rightarrow> TurnReasoningDelta t r merged
      | TurnToolCallDelta t c _ \<Rightarrow> TurnToolCallDelta t c merged
      | k \<Rightarrow> k)"

section \<open>The plan of a step\<close>

record delta_compaction_step =
  merged_rows :: nat
  deleted_rows :: nat
  more_work :: bool

definition no_step :: delta_compaction_step where
  "no_step = \<lparr>merged_rows = 0, deleted_rows = 0, more_work = False\<rparr>"

record compaction_db =
  cd_store :: event_store
  cd_scanned :: "session_id \<rightharpoonup> nat"

definition scanned_through :: "compaction_db \<Rightarrow> session_id \<Rightarrow> nat" where
  "scanned_through db sid = (case cd_scanned db sid of None \<Rightarrow> 0 | Some n \<Rightarrow> n)"

definition list_sessions_pending_delta_compaction :: "compaction_db \<Rightarrow> session_id list" where
  "list_sessions_pending_delta_compaction db =
     filter (\<lambda>sid. scanned_through db sid < last_event_sequence (cd_store db) sid)
       (st_sessions (cd_store db))"

definition rows_after :: "event_store \<Rightarrow> session_id \<Rightarrow> nat \<Rightarrow> ev_row list" where
  "rows_after st sid n = filter (\<lambda>r. n < row_sequence r) (sort_key row_sequence (session_rows st sid))"

text \<open>The terminal row of a turn decides whether the turn has settled.\<close>

definition terminal_row_of :: "event_store \<Rightarrow> session_id \<Rightarrow> turn_id \<Rightarrow> ev_row option" where
  "terminal_row_of st sid t =
     find (\<lambda>r. row_terminal_turn_id r = Some (turn_id_text t)) (rev (session_rows st sid))"

definition settled_at :: "(rstr \<Rightarrow> int option) \<Rightarrow> int \<Rightarrow> ev_row \<Rightarrow> bool" where
  "settled_at parse_time now r \<longleftrightarrow>
     (case parse_time (er_occurred_at (row_event r)) of
        None \<Rightarrow> False
      | Some at \<Rightarrow> at \<le> now - DELTA_COMPACTION_SETTLE_MINUTES * 60 * 1000000000)"

definition settled :: "(rstr \<Rightarrow> int option) \<Rightarrow> int \<Rightarrow> event_store \<Rightarrow> session_id \<Rightarrow> turn_id \<Rightarrow> bool" where
  "settled parse_time now st sid t \<longleftrightarrow> is_some_and (terminal_row_of st sid t) (settled_at parse_time now)"

definition mergeable ::
    "(rstr \<Rightarrow> int option) \<Rightarrow> int \<Rightarrow> event_store \<Rightarrow> session_id \<Rightarrow> ev_row \<Rightarrow> bool" where
  "mergeable parse_time now st sid row \<longleftrightarrow>
     (case delta_target (er_kind (row_event row)) of
        None \<Rightarrow> False
      | Some ((_, t, _), _) \<Rightarrow>
          settled parse_time now st sid t \<and>
          is_some_and (terminal_row_of st sid t) (\<lambda>r. row_sequence row < row_sequence r))"

text \<open>Everything before the first event of an open turn is final.\<close>

definition scan_boundary ::
    "(rstr \<Rightarrow> int option) \<Rightarrow> int \<Rightarrow> event_store \<Rightarrow> session_id \<Rightarrow> ev_row list \<Rightarrow> nat" where
  "scan_boundary parse_time now st sid rows =
     (case find (\<lambda>r. is_some_and (event_turn_id (er_kind (row_event r)))
                  (\<lambda>t. \<not> settled parse_time now st sid t)) rows of
        Some r \<Rightarrow> row_sequence r - 1
      | None \<Rightarrow> row_sequence (last rows))"

text \<open>A group under construction: its rows, the text so far and its key.\<close>

type_synonym delta_group = "ev_row list \<times> rstr \<times> delta_key"

definition flush :: "delta_group option \<Rightarrow> (ev_row list \<times> rstr) list" where
  "flush current = (case current of None \<Rightarrow> [] | Some (g, text, _) \<Rightarrow> [(g, text)])"

fun scan_groups :: "(ev_row \<Rightarrow> bool) \<Rightarrow> nat \<Rightarrow> ev_row list \<Rightarrow> delta_group option \<Rightarrow> nat \<Rightarrow>
    (ev_row list \<times> rstr) list \<Rightarrow> (ev_row list \<times> rstr) list \<times> bool" where
  "scan_groups ok max_deleted [] current planned groups = (groups @ flush current, False)"
| "scan_groups ok max_deleted (row # rows) current planned groups =
     (case (if ok row then delta_target (er_kind (row_event row)) else None) of
        None \<Rightarrow> scan_groups ok max_deleted rows None planned (groups @ flush current)
      | Some (key, content) \<Rightarrow>
          if is_some_and current (\<lambda>(g, text, k). k = key \<and>
               byte_len text + byte_len content \<le> MERGED_CONTENT_MAX_BYTES)
          then scan_groups ok max_deleted rows
                 (map_option (\<lambda>(g, text, k). (g @ [row], text @ content, k)) current)
                 (planned + 1) groups
          else if max_deleted \<le> planned then (groups @ flush current, True)
          else scan_groups ok max_deleted rows (Some ([row], content, key)) planned
                 (groups @ flush current))"

section \<open>The write\<close>

definition same_row :: "(session_event_kind \<Rightarrow> rstr) \<Rightarrow> ev_row \<Rightarrow> ev_row \<Rightarrow> bool" where
  "same_row kind_json read r \<longleftrightarrow>
     er_event_id (row_event r) = er_event_id (row_event read) \<and>
     kind_json (er_kind (row_event r)) = kind_json (er_kind (row_event read))"

definition merged_row :: "ev_row list \<Rightarrow> rstr \<Rightarrow> ev_row \<Rightarrow> ev_row" where
  "merged_row g text r =
     r\<lparr>row_event := (row_event r)\<lparr>er_kind := with_content (er_kind (row_event (hd g))) text\<rparr>,
       row_compacted_through := Some (max (row_sequence (last g))
         (case row_compacted_through (hd g) of None \<Rightarrow> 0 | Some n \<Rightarrow> n))\<rparr>"

text \<open>One group: \<open>None\<close> when the first row is no longer the row that was read.\<close>

definition write_group :: "(session_event_kind \<Rightarrow> rstr) \<Rightarrow> ev_row list \<times> rstr \<Rightarrow> event_store \<Rightarrow>
    event_store option" where
  "write_group kind_json gr st =
     (case gr of (g, text) \<Rightarrow>
        if length (filter (same_row kind_json (hd g)) (st_rows st)) \<noteq> 1 then None
        else Some (st\<lparr>st_rows :=
          filter (\<lambda>r. \<not> list_ex (\<lambda>d. same_row kind_json d r) (tl g))
            (map (\<lambda>r. if same_row kind_json (hd g) r then merged_row g text r else r) (st_rows st))\<rparr>))"

fun write_groups :: "(session_event_kind \<Rightarrow> rstr) \<Rightarrow> (ev_row list \<times> rstr) list \<Rightarrow> event_store \<Rightarrow>
    event_store option" where
  "write_groups kind_json [] st = Some st"
| "write_groups kind_json (g # gs) st =
     (case write_group kind_json g st of
        None \<Rightarrow> None | Some st' \<Rightarrow> write_groups kind_json gs st')"

definition arrive :: "(session_event_kind \<Rightarrow> rstr) \<Rightarrow> session_event_record list \<Rightarrow> event_store \<Rightarrow>
    event_store" where
  "arrive kind_json es st = fold (\<lambda>e st. snd (append_event kind_json st e)) es st"

text \<open>
  \<open>compact_session_deltas_step\<close>, where \<open>arrivals\<close> and \<open>arrivals'\<close> come in after the rows and
  after the terminal events have been read.
\<close>

definition compact_session_deltas_step ::
    "(session_event_kind \<Rightarrow> rstr) \<Rightarrow> (rstr \<Rightarrow> int option) \<Rightarrow> session_id \<Rightarrow> int \<Rightarrow> nat \<Rightarrow>
      session_event_record list \<Rightarrow> session_event_record list \<Rightarrow> compaction_db \<Rightarrow>
      (core_error + delta_compaction_step) \<times> compaction_db" where
  "compact_session_deltas_step kind_json parse_time sid now max_deleted arrivals arrivals' db =
     (let scanned = scanned_through db sid;
          rows = rows_after (cd_store db) sid scanned;
          read = arrive kind_json arrivals (cd_store db);
          store = arrive kind_json arrivals' read;
          kept = db\<lparr>cd_store := store\<rparr>
      in if rows = [] then (Inr no_step, kept)
      else let boundary = scan_boundary parse_time now read sid rows;
               (scanned_groups, truncated) =
                 scan_groups (mergeable parse_time now read sid) max_deleted rows None 0 [];
               groups = filter (\<lambda>(g, _). 1 < length g) scanned_groups
           in case write_groups kind_json groups store of
                None \<Rightarrow> (Inr no_step, kept)
              | Some written \<Rightarrow>
                  let step = \<lparr>merged_rows = length groups,
                      deleted_rows = sum_list (map (\<lambda>(g, _). length g - 1) groups),
                      more_work = truncated\<rparr>
                  in if truncated then (Inr step, db\<lparr>cd_store := written\<rparr>)
                     else if sid \<notin> set (st_sessions written) then (Inl sqlite_error, kept)
                     else (Inr step, db\<lparr>cd_store := written,
                            cd_scanned := (cd_scanned db)(sid \<mapsto> max boundary scanned)\<rparr>))"

definition ROWS_PER_STEP :: nat where "ROWS_PER_STEP = 1000"

text \<open>
  The loop of \<open>run_pass\<close> over one session: \<open>clock\<close> and \<open>incoming\<close> give the time of each
  iteration and the events that arrive during it.
\<close>

partial_function (option) drain_session ::
    "(session_event_kind \<Rightarrow> rstr) \<Rightarrow> (rstr \<Rightarrow> int option) \<Rightarrow> session_id \<Rightarrow> (nat \<Rightarrow> int) \<Rightarrow>
      (nat \<Rightarrow> session_event_record list \<times> session_event_record list) \<Rightarrow> nat \<Rightarrow> compaction_db \<Rightarrow>
      ((core_error + unit) \<times> nat \<times> compaction_db) option" where
  "drain_session kind_json parse_time sid clock incoming i db =
     (case compact_session_deltas_step kind_json parse_time sid (clock i) ROWS_PER_STEP
             (fst (incoming i)) (snd (incoming i)) db of
        (Inl err, db') \<Rightarrow> Some (Inl err, i, db')
      | (Inr step, db') \<Rightarrow>
          if more_work step then drain_session kind_json parse_time sid clock incoming (i + 1) db'
          else Some (Inr (), i, db'))"

section \<open>Serving the history\<close>

definition cursor_inside_compacted_run ::
    "event_store \<Rightarrow> session_id \<Rightarrow> u64 \<Rightarrow> core_error + bool" where
  "cursor_inside_compacted_run st sid after =
     (if 2 ^ 63 \<le> unat after then Inl sqlite_error
      else Inr (list_ex (\<lambda>r. row_sequence r \<le> unat after \<and>
                  is_some_and (row_compacted_through r) (\<lambda>n. unat after < n)) (session_rows st sid)))"

datatype history_page =
    AllEvents "session_event_record list"
  | ResetCursor
  | EventPage "session_event_record list" nat bool

definition SESSION_EVENTS_DEFAULT_LIMIT :: nat where "SESSION_EVENTS_DEFAULT_LIMIT = 500"
definition SESSION_EVENTS_MAX_LIMIT :: nat where "SESSION_EVENTS_MAX_LIMIT = 2000"

definition list_session_events_handler ::
    "event_store \<Rightarrow> session_id \<Rightarrow> u64 option \<Rightarrow> nat option \<Rightarrow> core_error + history_page" where
  "list_session_events_handler st sid after limit =
     (case after of
        None \<Rightarrow> Inr (AllEvents (list_events_by_session st sid))
      | Some cursor \<Rightarrow>
          and_then (cursor_inside_compacted_run st sid cursor) (\<lambda>inside.
          if inside then Inr ResetCursor
          else let n = (case limit of None \<Rightarrow> SESSION_EVENTS_DEFAULT_LIMIT
                        | Some l \<Rightarrow> min (max l 1) SESSION_EVENTS_MAX_LIMIT)
               in and_then (list_events_by_session_after st sid cursor (n + 1)) (\<lambda>events.
                    Inr (EventPage (take n events) (last_event_sequence st sid) (n < length events)))))"

end
