(* ===== verification/Delta_Invisible.thy ===== *)
theory Delta_Invisible
  imports Delta_Compaction Timeline_Events
begin

text \<open>
  What compaction leaves of a history. The rows of a session always stand for a segmentation
  of the rows that would be there had nothing been compacted: each row is a segment of deltas
  of one item, merged (\<open>represents\<close>). A step keeps this, whatever arrives while it runs, so
  every reader that joins adjacent deltas of an item reads the same, and a cursor that the
  endpoint does not reset continues with exactly the events it has not seen.
\<close>

section \<open>The blocks of a scan\<close>

text \<open>A delta key is a triple that no proof takes apart.\<close>

declare split_paired_All [simp del] split_paired_Ex [simp del]

definition key_of :: "ev_row \<Rightarrow> delta_key option" where
  "key_of r = map_option fst (delta_target (er_kind (row_event r)))"

definition text_of :: "ev_row \<Rightarrow> rstr" where
  "text_of r = (case delta_target (er_kind (row_event r)) of None \<Rightarrow> [] | Some (_, c) \<Rightarrow> c)"

definition merged_text :: "ev_row list \<Rightarrow> rstr" where
  "merged_text b = concat (map text_of b)"

definition block_ok :: "(ev_row \<Rightarrow> bool) \<Rightarrow> ev_row list \<Rightarrow> bool" where
  "block_ok ok b \<longleftrightarrow> byte_len (merged_text b) \<le> MERGED_CONTENT_MAX_BYTES \<and>
     (\<exists>k. \<forall>r \<in> set b. ok r \<and> key_of r = Some k)"

text \<open>Two neighbours of one item are apart when together they exceed the limit.\<close>

definition apart :: "(ev_row \<Rightarrow> bool) \<Rightarrow> ev_row list \<Rightarrow> ev_row list \<Rightarrow> bool" where
  "apart ok b b' \<longleftrightarrow> (1 < length b' \<and> ok (hd b) \<and> key_of (hd b) = key_of (hd b') \<and> key_of (hd b') \<noteq> None \<longrightarrow>
     MERGED_CONTENT_MAX_BYTES < byte_len (merged_text b) + byte_len (merged_text b'))"

definition current_ok :: "(ev_row \<Rightarrow> bool) \<Rightarrow> delta_group option \<Rightarrow> bool" where
  "current_ok ok cur \<longleftrightarrow> (case cur of None \<Rightarrow> True | Some (g, text, k) \<Rightarrow>
     g \<noteq> [] \<and> text = merged_text g \<and> (\<forall>r \<in> set g. ok r \<and> key_of r = Some k) \<and>
     (1 < length g \<longrightarrow> byte_len text \<le> MERGED_CONTENT_MAX_BYTES))"

definition current_blocks :: "delta_group option \<Rightarrow> ev_row list list" where
  "current_blocks cur = map fst (flush cur)"

definition multi :: "ev_row list list \<Rightarrow> (ev_row list \<times> rstr) list" where
  "multi blocks = map (\<lambda>b. (b, merged_text b)) (filter (\<lambda>b. 1 < length b) blocks)"

definition blocks_of :: "(ev_row \<Rightarrow> bool) \<Rightarrow> delta_group option \<Rightarrow> ev_row list \<Rightarrow> ev_row list list \<Rightarrow> bool" where
  "blocks_of ok cur rows blocks \<longleftrightarrow> concat blocks = concat (current_blocks cur) @ rows \<and>
     [] \<notin> set blocks \<and> (\<forall>b \<in> set blocks. 1 < length b \<longrightarrow> block_ok ok b) \<and>
     successively (apart ok) blocks \<and>
     (\<forall>g text k. cur = Some (g, text, k) \<longrightarrow> (\<exists>x bs. blocks = (g @ x) # bs))"

lemma merged_text_simps [simp]:
  "merged_text [] = []" "merged_text (r # b) = text_of r @ merged_text b"
  "merged_text (b @ c) = merged_text b @ merged_text c"
  by (simp_all add: merged_text_def)

lemma multi_simps [simp]:
  "multi [] = []" "multi (b # bs) = (if 1 < length b then (b, merged_text b) # multi bs else multi bs)"
  "multi (bs @ cs) = multi bs @ multi cs"
  by (simp_all add: multi_def)

lemma current_blocks_simps [simp]:
  "current_blocks None = []" "current_blocks (Some (g, text, k)) = [g]"
  by (simp_all add: current_blocks_def flush_def)

lemma apart_single: "apart ok b [r]"
  by (simp add: apart_def)

lemma successively_singletons: "successively (apart ok) (map (\<lambda>r. [r]) rows)"
proof (induction rows)
  case (Cons r rows)
  then show ?case by (cases rows) (auto simp: successively_Cons apart_single)
qed simp

lemma multi_singletons [simp]: "multi (map (\<lambda>r. [r]) rows) = []"
  by (induction rows) auto

lemma flush_multi:
  "current_ok ok cur \<Longrightarrow> filter (\<lambda>(g, _). 1 < length g) (flush cur) = multi (current_blocks cur)"
  by (cases cur) (auto simp: flush_def current_ok_def)

lemma blocks_flush:
  assumes cur: "current_ok ok cur" and bs: "blocks_of ok None rows bs"
    and gap: "\<And>g text k. cur = Some (g, text, k) \<Longrightarrow> bs = [] \<or> apart ok g (hd bs)"
  shows "blocks_of ok cur rows (current_blocks cur @ bs)"
proof (cases cur)
  case None
  then show ?thesis using bs by simp
next
  case (Some c)
  then obtain g w k where c: "cur = Some (g, w, k)" by (cases c) auto
  then have g: "g \<noteq> []" "1 < length g \<Longrightarrow> block_ok ok g"
    using cur by (auto simp: current_ok_def block_ok_def)
  show ?thesis using bs g gap [OF c] unfolding blocks_of_def c
    by (auto simp: successively_Cons)
qed

lemma blocks_skip:
  assumes "blocks_of ok None rows bs"
    and "\<not> (ok row \<and> key_of row \<noteq> None)"
  shows "blocks_of ok None (row # rows) ([row] # bs)"
proof -
  have "bs = [] \<or> apart ok [row] (hd bs)" using assms(2) by (auto simp: apart_def)
  then show ?thesis using assms(1) unfolding blocks_of_def by (auto simp: successively_Cons)
qed

lemma blocks_start:
  assumes "blocks_of ok (Some ([row], text, k)) rows bs"
  shows "blocks_of ok None (row # rows) bs"
  using assms unfolding blocks_of_def by simp

lemma blocks_singletons: "blocks_of ok None rows (map (\<lambda>r. [r]) rows)"
  unfolding blocks_of_def using successively_singletons [of ok rows] by (auto simp: concat_map_singleton)

lemma blocks_extend:
  assumes "blocks_of ok (Some (g @ [row], text', k)) rows bs"
  shows "blocks_of ok (Some (g, text, k)) (row # rows) bs"
  using assms unfolding blocks_of_def by auto

lemma scan_groups_blocks:
  assumes "scan_groups ok max_deleted rows cur planned groups = (out, truncated)" and "current_ok ok cur"
  shows "\<exists>blocks. blocks_of ok cur rows blocks \<and>
    filter (\<lambda>(g, _). 1 < length g) out = filter (\<lambda>(g, _). 1 < length g) groups @ multi blocks"
  using assms
proof (induction ok max_deleted rows cur planned groups rule: scan_groups.induct)
  case (1 ok max_deleted cur planned groups)
  have "blocks_of ok cur [] (current_blocks cur @ [])"
    by (rule blocks_flush [OF 1(2)]) (simp_all add: blocks_of_def)
  then show ?case using 1 flush_multi [OF 1(2)] by auto
next
  case (2 ok max_deleted row rows cur planned groups)
  show ?case
  proof (cases "if ok row then delta_target (er_kind (row_event row)) else None")
    case None
    with 2(4) have "scan_groups ok max_deleted rows None planned (groups @ flush cur) = (out, truncated)"
      by simp
    from 2(1) [OF None this] obtain bs where bs: "blocks_of ok None rows bs"
      and out: "filter (\<lambda>(g, _). 1 < length g) out = filter (\<lambda>(g, _). 1 < length g) (groups @ flush cur) @ multi bs"
      by (auto simp: current_ok_def)
    from None have "blocks_of ok None (row # rows) ([row] # bs)"
      by (intro blocks_skip [OF bs]) (auto simp: key_of_def split: if_splits)
    then have "blocks_of ok cur (row # rows) (current_blocks cur @ [row] # bs)"
      by (rule blocks_flush [OF 2(5)]) (simp add: apart_single)
    then show ?thesis using out flush_multi [OF 2(5)] by auto
  next
    case (Some target)
    obtain key content where target: "target = (key, content)" by (cases target)
    note tgt = Some [unfolded target]
    have "ok row" and "delta_target (er_kind (row_event row)) = Some (key, content)"
      using tgt by (auto split: if_splits)
    then have row: "ok row" "key_of row = Some key" "text_of row = content"
      by (simp_all add: key_of_def text_of_def)
    let ?fits = "is_some_and cur (\<lambda>(g, text, k). k = key \<and>
               byte_len text + byte_len content \<le> MERGED_CONTENT_MAX_BYTES)"
    show ?thesis
    proof (cases ?fits)
      case True
      then obtain g w where c: "cur = Some (g, w, key)"
        and fits: "byte_len w + byte_len content \<le> MERGED_CONTENT_MAX_BYTES"
        by (cases cur) auto
      have "scan_groups ok max_deleted rows (Some (g @ [row], w @ content, key)) (planned + 1) groups
          = (out, truncated)"
        using 2(4) tgt True c by simp
      moreover have "current_ok ok (Some (g @ [row], w @ content, key))"
        using 2(5) row fits by (auto simp: c current_ok_def)
      ultimately obtain bs where bs: "blocks_of ok (Some (g @ [row], w @ content, key)) rows bs"
        and out: "filter (\<lambda>(g, _). 1 < length g) out = filter (\<lambda>(g, _). 1 < length g) groups @ multi bs"
        using 2(2) [OF tgt refl True] unfolding c by auto
      from blocks_extend [OF bs] out show ?thesis unfolding c by blast
    next
      case False
      show ?thesis
      proof (cases "max_deleted \<le> planned")
        case True
        then have out: "out = groups @ flush cur" using 2(4) tgt False by simp
        have "blocks_of ok cur (row # rows) (current_blocks cur @ map (\<lambda>r. [r]) (row # rows))"
          by (rule blocks_flush [OF 2(5) blocks_singletons]) (simp add: apart_single)
        then show ?thesis using out flush_multi [OF 2(5)] multi_singletons [of "row # rows"] by force
      next
        case not_full: False
        have "scan_groups ok max_deleted rows (Some ([row], content, key)) planned (groups @ flush cur)
            = (out, truncated)"
          using 2(4) tgt False not_full by simp
        moreover have "current_ok ok (Some ([row], content, key))" using row by (simp add: current_ok_def)
        ultimately obtain bs where bs: "blocks_of ok (Some ([row], content, key)) rows bs"
          and out: "filter (\<lambda>(g, _). 1 < length g) out =
            filter (\<lambda>(g, _). 1 < length g) (groups @ flush cur) @ multi bs"
          using 2(3) [OF tgt refl False not_full] by auto
        obtain x cs where hd: "bs = ([row] @ x) # cs" using bs by (auto simp: blocks_of_def)
        have "blocks_of ok cur (row # rows) (current_blocks cur @ bs)"
        proof (rule blocks_flush [OF 2(5) blocks_start [OF bs]])
          fix g w k
          assume c: "cur = Some (g, w, k)"
          then have "g \<noteq> []" "key_of (hd g) = Some k" "w = merged_text g"
            using 2(5) by (auto simp: current_ok_def)
          then show "bs = [] \<or> apart ok g (hd bs)"
            using False c row by (auto simp: apart_def hd)
        qed
        then show ?thesis using out flush_multi [OF 2(5)] by auto
      qed
    qed
  qed
qed

text \<open>A truncated scan has planned at least \<open>max_deleted\<close> deletions.\<close>

definition planned_deletes :: "(ev_row list \<times> rstr) list \<Rightarrow> nat" where
  "planned_deletes gs = sum_list (map (\<lambda>(g, _). length g - 1) gs)"

lemma planned_deletes_simps [simp]:
  "planned_deletes [] = 0" "planned_deletes (g # gs) = length (fst g) - 1 + planned_deletes gs"
  "planned_deletes (gs @ hs) = planned_deletes gs + planned_deletes hs"
  by (auto simp: planned_deletes_def split: prod.splits)

lemma planned_deletes_filter: "planned_deletes (filter (\<lambda>(g, _). 1 < length g) gs) = planned_deletes gs"
  by (induction gs) auto

lemma scan_groups_truncated:
  assumes "scan_groups ok max_deleted rows cur planned groups = (out, True)"
    and "planned \<le> planned_deletes (groups @ flush cur)"
    and "\<And>g text k. cur = Some (g, text, k) \<Longrightarrow> g \<noteq> []"
  shows "max_deleted \<le> planned_deletes out"
  using assms
proof (induction ok max_deleted rows cur planned groups rule: scan_groups.induct)
  case (2 ok max_deleted row rows cur planned groups)
  show ?case
  proof (cases "if ok row then delta_target (er_kind (row_event row)) else None")
    case None
    then show ?thesis using 2(1) [OF None] 2(4-) by (simp add: flush_def)
  next
    case (Some target)
    obtain key content where target: "target = (key, content)" by (cases target)
    note tgt = Some [unfolded target]
    let ?fits = "is_some_and cur (\<lambda>(g, text, k). k = key \<and>
               byte_len text + byte_len content \<le> MERGED_CONTENT_MAX_BYTES)"
    show ?thesis
    proof (cases ?fits)
      case True
      then obtain g w where c: "cur = Some (g, w, key)" by (cases cur) auto
      with 2(6) have "g \<noteq> []" by blast
      then show ?thesis
        using 2(2) [OF tgt refl True] 2(4,5) tgt True unfolding c
        by (cases g) (auto simp: flush_def)
    next
      case False
      show ?thesis
      proof (cases "max_deleted \<le> planned")
        case True
        then show ?thesis using 2(4,5) tgt False by simp
      next
        case not_full: False
        then show ?thesis using 2(3) [OF tgt refl False not_full] 2(4,5) tgt False by (auto simp: flush_def)
      qed
    qed
  qed
qed simp

section \<open>Rows as segments of the plain history\<close>

definition segment :: "ev_row list \<Rightarrow> bool" where
  "segment seg \<longleftrightarrow> seg \<noteq> [] \<and> (\<forall>r \<in> set seg. row_compacted_through r = None) \<and>
     (1 < length seg \<longrightarrow> (\<exists>k. \<forall>r \<in> set seg. key_of r = Some k))"

definition joined :: "ev_row list \<Rightarrow> ev_row" where
  "joined seg =
     (if length seg \<le> 1 then hd seg
      else (hd seg)\<lparr>row_event := (row_event (hd seg))\<lparr>er_kind :=
                       with_content (er_kind (row_event (hd seg))) (merged_text seg)\<rparr>,
                    row_compacted_through := Some (row_sequence (last seg))\<rparr>)"

definition represents :: "ev_row list \<Rightarrow> ev_row list \<Rightarrow> bool" where
  "represents R L \<longleftrightarrow> (\<exists>segs. L = concat segs \<and> R = map joined segs \<and> (\<forall>seg \<in> set segs. segment seg))"

definition merged_block :: "ev_row list \<Rightarrow> ev_row" where
  "merged_block b = (if 1 < length b then merged_row b (merged_text b) (hd b) else hd b)"

lemma with_content_simps [simp]:
  "with_content (with_content k v) w = with_content k w"
  "map_option fst (delta_target (with_content k w)) = map_option fst (delta_target k)"
  "terminal_metadata (with_content k w) = terminal_metadata k"
  "event_turn_id (with_content k w) = event_turn_id k"
  by (cases k; simp add: with_content_def delta_target_def terminal_metadata_def)+

lemma delta_target_with_content: "delta_target k = Some (d, c) \<Longrightarrow> delta_target (with_content k w) = Some (d, w)"
  by (cases k) (simp_all add: with_content_def delta_target_def)

lemma text_of_with_content:
  "key_of r \<noteq> None \<Longrightarrow>
     text_of (r\<lparr>row_event := (row_event r)\<lparr>er_kind := with_content (er_kind (row_event r)) w\<rparr>,
                row_compacted_through := n\<rparr>) = w"
  by (auto simp: key_of_def text_of_def delta_target_with_content split: option.splits)

lemma delta_no_terminal: "key_of r \<noteq> None \<Longrightarrow> terminal_metadata (er_kind (row_event r)) = None"
  by (cases "er_kind (row_event r)") (auto simp: key_of_def delta_target_def terminal_metadata_def)

lemma joined_simps [simp]:
  "row_sequence (joined seg) = row_sequence (hd seg)"
  "key_of (joined seg) = key_of (hd seg)"
  "er_event_id (row_event (joined seg)) = er_event_id (row_event (hd seg))"
  "er_session_id (row_event (joined seg)) = er_session_id (row_event (hd seg))"
  "row_terminal_turn_id (joined seg) = row_terminal_turn_id (hd seg)"
  "joined [r] = r"
  by (simp_all add: joined_def row_sequence_def key_of_def)

lemma joined_through:
  "segment seg \<Longrightarrow> row_compacted_through (joined seg) = (if 1 < length seg then Some (row_sequence (last seg)) else None)"
  by (auto simp: segment_def joined_def)

lemma text_of_joined: "segment seg \<Longrightarrow> text_of (joined seg) = merged_text seg"
proof -
  assume seg: "segment seg"
  consider r where "seg = [r]" | k where "1 < length seg" "\<forall>r \<in> set seg. key_of r = Some k"
    using seg unfolding segment_def by (cases seg; cases "tl seg") auto
  then show ?thesis
  proof cases
    case 2
    then have "key_of (hd seg) \<noteq> None" by (cases seg) auto
    then show ?thesis using 2(1) by (simp add: joined_def text_of_with_content)
  qed simp
qed

text \<open>Merging a merged row with plain rows gives the row of the whole segment.\<close>

lemma merged_block_joined:
  assumes seg: "segment s0" and plain: "\<forall>r \<in> set xs. row_compacted_through r = None"
    and key: "\<forall>r \<in> set (joined s0 # xs). key_of r = Some k"
    and sorted: "sorted_wrt (<) (map row_sequence (s0 @ xs))"
  shows "segment (s0 @ xs) \<and> merged_block (joined s0 # xs) = joined (s0 @ xs)"
proof (cases xs)
  case Nil
  then show ?thesis using seg by (simp add: merged_block_def)
next
  case (Cons x ys)
  have ne: "s0 \<noteq> []" and long: "1 < length s0 \<Longrightarrow> \<exists>k. \<forall>r \<in> set s0. key_of r = Some k"
    and none: "\<forall>r \<in> set s0. row_compacted_through r = None" using seg by (auto simp: segment_def)
  have hd: "key_of (hd s0) = Some k" using key by simp
  have keys: "\<forall>r \<in> set s0. key_of r = Some k"
  proof (cases "1 < length s0")
    case True
    from long [OF this] obtain k' where "\<forall>r \<in> set s0. key_of r = Some k'" ..
    with hd ne show ?thesis by (metis list.set_sel(1))
  next
    case False
    with ne hd show ?thesis by (cases s0) auto
  qed
  have whole: "segment (s0 @ xs)" using ne none keys plain key by (auto simp: segment_def)
  have "row_sequence r \<le> row_sequence (last xs)" if "r \<in> set s0" for r
    using sorted that Cons by (auto simp: sorted_wrt_append intro: less_imp_le)
  then have through: "(case row_compacted_through (joined s0) of None \<Rightarrow> 0 | Some n \<Rightarrow> n) \<le> row_sequence (last xs)"
    using joined_through [OF seg] ne by auto
  have merged: "merged_block (joined s0 # xs) = merged_row (joined s0 # xs) (merged_text (s0 @ xs)) (joined s0)"
    using Cons text_of_joined [OF seg] by (simp add: merged_block_def)
  have "last (joined s0 # xs) = last xs" "last (s0 @ xs) = last xs" "hd (s0 @ xs) = hd s0" "1 < length (s0 @ xs)"
    using Cons ne by (simp_all add: Suc_lessI)
  moreover have "max (row_sequence (last xs)) (case row_compacted_through (joined s0) of None \<Rightarrow> 0 | Some n \<Rightarrow> n)
      = row_sequence (last xs)"
    using through by simp
  ultimately have "merged_row (joined s0 # xs) (merged_text (s0 @ xs)) (joined s0) = joined (s0 @ xs)"
    unfolding merged_row_def by (simp add: joined_def)
  with whole merged show ?thesis by simp
qed

lemma map_eq_concat:
  assumes "map f xs = concat bss"
  shows "\<exists>yss. xs = concat yss \<and> bss = map (map f) yss"
  using assms
proof (induction bss arbitrary: xs)
  case (Cons b bss)
  then obtain ys zs where "xs = ys @ zs" "b = map f ys" "map f zs = concat bss"
    by (auto simp: map_eq_append_conv)
  with Cons.IH [of zs] obtain yss where "zs = concat yss" "bss = map (map f) yss" by auto
  with \<open>xs = ys @ zs\<close> \<open>b = map f ys\<close> show ?case by (intro exI [of _ "ys # yss"]) simp
qed simp

text \<open>What keeps a merged row from being absorbed: together with its neighbour it exceeds the limit.\<close>

definition crowded :: "ev_row \<Rightarrow> ev_row \<Rightarrow> bool" where
  "crowded r r' \<longleftrightarrow> (key_of r = key_of r' \<and> key_of r' \<noteq> None \<and> row_compacted_through r' \<noteq> None \<longrightarrow>
     MERGED_CONTENT_MAX_BYTES < byte_len (text_of r) + byte_len (text_of r'))"

lemma byte_len_text_of: "r \<in> set b \<Longrightarrow> byte_len (text_of r) \<le> byte_len (merged_text b)"
  by (induction b) auto

lemma block_tail_plain:
  assumes "successively crowded b" and "block_ok ok b"
  shows "\<forall>r \<in> set (tl b). row_compacted_through r = None"
  using assms
proof (induction b)
  case (Cons r b)
  show ?case
  proof (cases b)
    case Nil
    then show ?thesis by simp
  next
    case (Cons r' c)
    have fit: "byte_len (text_of r) + byte_len (text_of r') \<le> MERGED_CONTENT_MAX_BYTES"
      using Cons.prems(2) byte_len_text_of [of r' b] by (simp add: block_ok_def Cons)
    have "row_compacted_through r' = None"
      using Cons.prems fit by (fastforce simp: crowded_def Cons block_ok_def)
    moreover have "block_ok ok b" using Cons.prems(2) by (auto simp: block_ok_def)
    then have "\<forall>r \<in> set (tl b). row_compacted_through r = None"
      using Cons.IH Cons.prems(1) by (simp add: Cons)
    ultimately show ?thesis by (simp add: Cons)
  qed
qed simp

lemma successively_concatD:
  assumes "successively P (concat bs)" and "b \<in> set bs"
  shows "successively P b"
  using assms by (induction bs) (auto simp: successively_append_iff)

lemma merged_block_simps:
  assumes "b \<noteq> []" and "1 < length b \<Longrightarrow> block_ok ok b"
  shows "key_of (merged_block b) = key_of (hd b)" and "text_of (merged_block b) = merged_text b"
proof -
  have "key_of (merged_block b) = key_of (hd b) \<and> text_of (merged_block b) = merged_text b"
  proof (cases "1 < length b")
    case True
    with assms have "key_of (hd b) \<noteq> None" by (cases b) (auto simp: block_ok_def)
    then show ?thesis using True
      by (simp add: merged_block_def merged_row_def text_of_with_content) (simp add: key_of_def)
  next
    case False
    with assms(1) have "b = [hd b]" by (cases b) auto
    then obtain r where "b = [r]" ..
    then show ?thesis by (simp add: merged_block_def)
  qed
  then show "key_of (merged_block b) = key_of (hd b)" and "text_of (merged_block b) = merged_text b" by auto
qed

definition older :: "(ev_row \<Rightarrow> bool) \<Rightarrow> ev_row \<Rightarrow> ev_row \<Rightarrow> bool" where
  "older ok r r' \<longleftrightarrow> (key_of r = key_of r' \<and> key_of r' \<noteq> None \<and> ok r' \<longrightarrow> ok r)"

lemma crowded_after:
  assumes succ: "successively crowded (concat bs)" and ne: "[] \<notin> set bs"
    and ok: "\<forall>b \<in> set bs. 1 < length b \<longrightarrow> block_ok ok b" and apart: "successively (apart ok) bs"
    and older: "sorted_wrt (older ok) (concat bs)"
  shows "successively crowded (map merged_block bs)"
  using assms
proof (induction bs)
  case (Cons b bs)
  have IH: "successively crowded (map merged_block bs)"
    by (rule Cons.IH) (use Cons.prems in \<open>auto simp: successively_append_iff successively_Cons sorted_wrt_append\<close>)
  show ?case
  proof (cases bs)
    case Nil
    then show ?thesis by simp
  next
    case tail: (Cons b' cs)
    have b: "b \<noteq> []" "1 < length b \<Longrightarrow> block_ok ok b" and b': "b' \<noteq> []" "1 < length b' \<Longrightarrow> block_ok ok b'"
      using Cons.prems(2,3) by (auto simp: tail)
    note s = merged_block_simps [OF b] and s' = merged_block_simps [OF b']
    have "crowded (merged_block b) (merged_block b')"
    proof (cases "1 < length b'")
      case True
      then have "ok (hd b')" "key_of (hd b') \<noteq> None" using b' by (auto simp: block_ok_def)
      moreover have "\<forall>x \<in> set b. \<forall>y \<in> set b'. older ok x y"
        using Cons.prems(5) by (simp add: tail sorted_wrt_append)
      then have "older ok (hd b) (hd b')" using b(1) b'(1) by simp
      ultimately show ?thesis
        using Cons.prems(4) True s s' by (simp add: tail apart_def crowded_def older_def)
    next
      case False
      with b'(1) obtain r' where r': "b' = [r']" by (cases b') auto
      have "crowded (last b) r'"
        using Cons.prems(1) b(1) by (simp add: tail r' successively_append_iff successively_Cons)
      moreover have "key_of (last b) = key_of (hd b)"
      proof (cases "1 < length b")
        case True
        then show ?thesis using b by (force simp: block_ok_def)
      next
        case False
        with b(1) show ?thesis by (cases b) auto
      qed
      moreover have "byte_len (text_of (last b)) \<le> byte_len (merged_text b)"
        by (rule byte_len_text_of) (use b in simp)
      ultimately show ?thesis using s s' by (auto simp: crowded_def r' merged_block_def)
    qed
    with IH show ?thesis by (simp add: tail)
  qed
qed simp

lemma concat_map_concat: "concat (map concat xss) = concat (concat xss)"
  by (induction xss) auto

text \<open>The rows a scan read, as segments, after its groups have been merged.\<close>

lemma represents_merge:
  assumes rep: "represents (A @ concat bs @ C) L" and sorted: "sorted_wrt (<) (map row_sequence L)"
    and ne: "[] \<notin> set bs" and ok: "\<forall>b \<in> set bs. 1 < length b \<longrightarrow> block_ok ok b"
    and succ: "successively crowded (concat bs)"
  shows "represents (A @ map merged_block bs @ C) L"
proof -
  from rep obtain segs where L: "L = concat segs" and R: "A @ concat bs @ C = map joined segs"
    and segs: "\<forall>seg \<in> set segs. segment seg" by (auto simp: represents_def)
  from R [symmetric] obtain sa sr where r: "segs = sa @ sr" and A: "A = map joined sa"
    and BC: "concat bs @ C = map joined sr" by (auto simp: map_eq_append_conv)
  from BC [symmetric] obtain sb sc where r': "sr = sb @ sc" and B: "concat bs = map joined sb"
    and C: "C = map joined sc" by (auto simp: map_eq_append_conv)
  note split = r [unfolded r']
  from map_eq_concat [OF B [symmetric]] obtain sbs where sbs: "sb = concat sbs" "bs = map (map joined) sbs"
    by blast
  have join: "segment (concat sg) \<and> merged_block (map joined sg) = joined (concat sg)" if sg_in: "sg \<in> set sbs" for sg
  proof -
    have sg: "\<forall>seg \<in> set sg. segment seg" using sg_in segs split sbs by auto
    have "map joined sg \<in> set bs" using that sbs by simp
    then have nonempty: "map joined sg \<noteq> []" and multi: "1 < length sg \<Longrightarrow> block_ok ok (map joined sg)"
      and tail: "successively crowded (map joined sg)"
      using ne ok successively_concatD [OF succ] by (metis, fastforce, blast)
    from nonempty obtain s0 ss where s0: "sg = s0 # ss" by (cases sg) auto
    show ?thesis
    proof (cases ss)
      case Nil
      then show ?thesis using s0 sg by (simp add: merged_block_def)
    next
      case (Cons s1 ss')
      then have long: "1 < length sg" using s0 by simp
      note bo = multi [OF long]
      have plain: "row_compacted_through (joined s) = None" if "s \<in> set ss" for s
        using block_tail_plain [OF tail bo] that by (simp add: s0)
      have single: "joined ` set ss = (\<lambda>s. hd s) ` set ss \<and> (\<forall>s \<in> set ss. length s = 1)"
      proof -
        have "length s = 1" if "s \<in> set ss" for s
        proof -
          have "segment s" using that sg s0 by simp
          with joined_through [of s] plain [OF that] show ?thesis
            by (auto simp: segment_def split: if_splits) (metis One_nat_def Suc_lessI length_greater_0_conv)
        qed
        then show ?thesis by (auto simp: joined_def)
      qed
      then have ss: "concat ss = map joined ss"
        by (induction ss) (auto simp: joined_def length_Suc_conv)
      from bo obtain k where k: "\<forall>r \<in> set (map joined sg). key_of r = Some k" by (auto simp: block_ok_def)
      have "sorted_wrt (<) (map row_sequence (s0 @ concat ss))"
      proof -
        obtain us vs where "sbs = us @ sg # vs" using split_list [OF sg_in] by blast
        then have "L = (concat sa @ concat (concat us)) @ concat sg @ (concat (concat vs) @ concat sc)"
          using L split sbs by simp
        then obtain P Q where "L = P @ concat sg @ Q" by blast
        with sorted have "sorted_wrt (<) (map row_sequence (concat sg))"
          by (simp only: map_append sorted_wrt_append)
        then show ?thesis by (simp add: s0)
      qed
      then have "segment (s0 @ concat ss) \<and> merged_block (joined s0 # concat ss) = joined (s0 @ concat ss)"
        by (intro merged_block_joined) (use sg s0 plain k ss in auto)
      then show ?thesis by (simp add: s0 ss)
    qed
  qed
  let ?segs = "sa @ map concat sbs @ sc"
  have "concat ?segs = L" using L split sbs by (simp add: concat_map_concat)
  moreover have "map joined ?segs = A @ map merged_block bs @ C"
    using join by (simp add: A C sbs comp_def)
  moreover have "\<forall>seg \<in> set ?segs. segment seg" using segs split join by auto
  ultimately show ?thesis unfolding represents_def by metis
qed

end
