(* ===== verification/Delta_Mirror.thy ===== *)
theory Delta_Mirror
  imports Delta_Invisible
begin

text \<open>
  The compacted store beside the store that never compacts: a simulation over appended events,
  compaction steps with events arriving in between, and deleted histories. From it follow the
  properties of readers, of the endpoint, and of the draining loop.
\<close>

section \<open>One write\<close>

lemma same_row_iff:
  assumes "store_ok st" and "r \<in> set (st_rows st)" and "q \<in> set (st_rows st)"
  shows "same_row kj q r \<longleftrightarrow> r = q"
proof
  assume "same_row kj q r"
  then have "(er_event_id \<circ> row_event) r = (er_event_id \<circ> row_event) q" by (simp add: same_row_def)
  moreover have "inj_on (er_event_id \<circ> row_event) (set (st_rows st))"
    using assms(1) by (simp add: store_ok_def distinct_map)
  ultimately show "r = q" using assms(2,3) by (simp only: inj_on_eq_iff)
qed (simp add: same_row_def)

lemma filter_one: "distinct xs \<Longrightarrow> x \<in> set xs \<Longrightarrow> length (filter (\<lambda>y. y = x) xs) = 1"
  by (simp add: filter_eq_Cons_iff distinct_length_filter Int_absorb1)

lemma merged_row_simps [simp]:
  "er_event_id (row_event (merged_row b w r)) = er_event_id (row_event r)"
  "er_session_id (row_event (merged_row b w r)) = er_session_id (row_event r)"
  "row_sequence (merged_row b w r) = row_sequence r"
  "row_terminal_turn_id (merged_row b w r) = row_terminal_turn_id r"
  "row_terminal_kind (merged_row b w r) = row_terminal_kind r"
  by (simp_all add: merged_row_def row_sequence_def)

lemma write_group_rows:
  assumes ok: "store_ok st" and mem: "set b \<subseteq> set (st_rows st)" and len: "b \<noteq> []" and dist: "distinct b"
  shows "write_group kj (b, w) st = Some (st\<lparr>st_rows :=
    map (\<lambda>r. if r = hd b then merged_row b w r else r) (filter (\<lambda>r. r \<notin> set (tl b)) (st_rows st))\<rparr>)"
proof -
  have d: "distinct (st_rows st)" using ok by (auto simp: store_ok_def distinct_map)
  have hd: "hd b \<in> set (st_rows st)" using mem len by auto
  note same = same_row_iff [OF ok]
  have "length (filter (same_row kj (hd b)) (st_rows st)) = length (filter (\<lambda>y. y = hd b) (st_rows st))"
    using same hd by (auto intro!: arg_cong [of _ _ length] filter_cong)
  then have one: "length (filter (same_row kj (hd b)) (st_rows st)) = 1" using filter_one [OF d hd] by simp
  have tl: "set (tl b) \<subseteq> set (st_rows st)" using mem by (cases b) auto
  let ?u = "\<lambda>r. if same_row kj (hd b) r then merged_row b w r else r"
  have hit: "list_ex (\<lambda>d. same_row kj d (if same_row kj (hd b) r then merged_row b w r else r)) (tl b) \<longleftrightarrow>
      r \<in> set (tl b)" if r: "r \<in> set (st_rows st)" for r
  proof (cases "r = hd b")
    case True
    have "\<not> same_row kj d (merged_row b w r)" if "d \<in> set (tl b)" for d
    proof
      assume "same_row kj d (merged_row b w r)"
      then have "(er_event_id \<circ> row_event) r = (er_event_id \<circ> row_event) d" by (simp add: same_row_def)
      moreover have "inj_on (er_event_id \<circ> row_event) (set (st_rows st))"
        using ok by (simp add: store_ok_def distinct_map)
      ultimately have "r = d" using r tl that by (metis inj_on_eq_iff subsetD)
      then show False using True that dist by (cases b) auto
    qed
    then show ?thesis using True same [OF r hd] dist by (cases b) (auto simp: list_ex_iff)
  next
    case False
    then have "\<not> same_row kj (hd b) r" using same [OF r hd] by simp
    then show ?thesis using same [OF r] tl by (auto simp: list_ex_iff subset_iff)
  qed
  have "filter (\<lambda>r. \<not> list_ex (\<lambda>d. same_row kj d (?u r)) (tl b)) (st_rows st) =
      filter (\<lambda>r. r \<notin> set (tl b)) (st_rows st)"
    by (rule filter_cong [OF refl]) (simp only: hit)
  then have "filter (\<lambda>r. \<not> list_ex (\<lambda>d. same_row kj d r) (tl b)) (map ?u (st_rows st)) =
      map ?u (filter (\<lambda>r. r \<notin> set (tl b)) (st_rows st))"
    unfolding filter_map comp_def by (rule arg_cong)
  also have "\<dots> = map (\<lambda>r. if r = hd b then merged_row b w r else r) (filter (\<lambda>r. r \<notin> set (tl b)) (st_rows st))"
    using same [OF _ hd] by (auto intro!: map_cong)
  finally show ?thesis using one by (simp add: write_group_def)
qed

lemma map_merged_id:
  assumes "\<forall>r \<in> set rs. r \<noteq> hd b"
  shows "map (\<lambda>r. if r = hd b then merged_row b w r else r) rs = rs"
  using assms by (simp add: map_idI)

lemma write_group_session:
  assumes ok: "store_ok st" and rows: "session_rows st sid = A @ b @ C" and ne: "b \<noteq> []"
    and keys: "\<forall>r \<in> set b. key_of r \<noteq> None"
  shows "\<exists>st'. write_group kj (b, w) st = Some st' \<and> store_ok st' \<and> st_sessions st' = st_sessions st \<and>
    (\<forall>sid'. session_rows st' sid' =
      (if sid' = sid then A @ [merged_row b w (hd b)] @ C else session_rows st sid'))"
proof -
  let ?up = "\<lambda>r. if r = hd b then merged_row b w r else r"
  let ?st' = "st\<lparr>st_rows := map ?up (filter (\<lambda>r. r \<notin> set (tl b)) (st_rows st))\<rparr>"
  have in_sid: "r \<in> set (st_rows st) \<and> er_session_id (row_event r) = sid" if "r \<in> set b" for r
  proof -
    have "r \<in> set (session_rows st sid)" using that rows by simp
    then show ?thesis by (simp add: session_rows_def)
  qed
  have "distinct (session_rows st sid)"
    using ok by (auto simp: store_ok_def distinct_map session_rows_def)
  then have dist: "distinct (A @ b @ C)" by (simp add: rows)
  then have w: "write_group kj (b, w) st = Some ?st'"
    by (intro write_group_rows [OF ok _ ne]) (use in_sid in auto)
  have sess: "session_rows ?st' sid' = map ?up (filter (\<lambda>r. r \<notin> set (tl b)) (session_rows st sid'))" for sid'
    unfolding session_rows_def by (simp add: filter_map comp_def) (auto intro!: filter_cong arg_cong2 [where f = map])
  obtain q c where b: "b = q # c" using ne by (cases b) auto
  have own: "session_rows ?st' sid = A @ [merged_row b w (hd b)] @ C"
  proof -
    have "filter (\<lambda>r. r \<notin> set (tl b)) A = A" "filter (\<lambda>r. r \<notin> set (tl b)) C = C"
      using dist by (auto simp: b filter_id_conv)
    moreover have "map ?up A = A" by (rule map_merged_id) (use dist b in auto)
    moreover have "map ?up C = C" by (rule map_merged_id) (use dist b in auto)
    moreover have "q \<notin> set c" "filter (\<lambda>r. r \<notin> set c) c = []"
      using dist by (auto simp: b filter_empty_conv)
    ultimately show ?thesis unfolding sess rows by (simp add: b)
  qed
  have other: "session_rows ?st' sid' = session_rows st sid'" if "sid' \<noteq> sid" for sid'
  proof -
    have "r \<notin> set b" if "r \<in> set (session_rows st sid')" for r
      using in_sid [of r] \<open>sid' \<noteq> sid\<close> that by (auto simp: session_rows_def)
    then have "filter (\<lambda>r. r \<notin> set (tl b)) (session_rows st sid') = session_rows st sid'"
      and "\<forall>r \<in> set (session_rows st sid'). r \<noteq> hd b"
      by (auto simp: b filter_id_conv)
    then show ?thesis unfolding sess by (simp add: map_merged_id)
  qed
  have up_ok: "row_ok (?up r)" if "r \<in> set (st_rows st)" for r
  proof -
    have "terminal_metadata (er_kind (row_event (merged_row b w (hd b)))) =
        terminal_metadata (er_kind (row_event (hd b)))" by (simp add: merged_row_def)
    then show ?thesis using store_ok_row [OF ok that] by (auto simp: row_ok_def)
  qed
  have "\<forall>r \<in> set (st_rows ?st'). row_ok r"
  proof
    fix r assume "r \<in> set (st_rows ?st')"
    then obtain r0 where "r0 \<in> set (st_rows st)" "r = ?up r0" by auto
    then show "row_ok r" using up_ok by (simp only:)
  qed
  moreover have "distinct (map (er_event_id \<circ> row_event) (st_rows ?st'))"
  proof -
    have "st_rows ?st' = map ?up (filter (\<lambda>r. r \<notin> set (tl b)) (st_rows st))" by simp
    moreover have "map (er_event_id \<circ> row_event) (map ?up rs) = map (er_event_id \<circ> row_event) rs" for rs by simp
    ultimately have "map (er_event_id \<circ> row_event) (st_rows ?st') =
        map (er_event_id \<circ> row_event) (filter (\<lambda>r. r \<notin> set (tl b)) (st_rows st))" by (simp only:)
    moreover have "distinct (map (er_event_id \<circ> row_event) (st_rows st))" using ok by (simp only: store_ok_def)
    ultimately show ?thesis by (simp only: distinct_map_filter)
  qed
  moreover have "map row_sequence (map ?up rs) = map row_sequence rs" for rs by simp
  then have "sorted_wrt (<) (map row_sequence (session_rows ?st' sid'))" for sid'
    unfolding sess using store_ok_sorted [OF ok, of sid'] by (simp only: sorted_wrt_map sorted_wrt_filter)
  moreover have "length (filter (\<lambda>r. row_terminal_turn_id r = Some t) (session_rows ?st' sid')) \<le> 1" for sid' t
  proof -
    have "(\<lambda>r. row_terminal_turn_id (?up r) = Some t) = (\<lambda>r. row_terminal_turn_id r = Some t)" by auto
    then have "length (filter (\<lambda>r. row_terminal_turn_id r = Some t) (session_rows ?st' sid')) =
        length (filter (\<lambda>r. r \<notin> set (tl b)) (filter (\<lambda>r. row_terminal_turn_id r = Some t) (session_rows st sid')))"
      unfolding sess filter_map comp_def length_map by (simp only: filter_filter conj_commute)
    also have "\<dots> \<le> 1" using store_ok_terminal [OF ok, of t sid'] length_filter_le order_trans by blast
    finally show ?thesis .
  qed
  ultimately have "store_ok ?st'" unfolding store_ok_def by (intro conjI allI) assumption+
  with w own other show ?thesis by (intro exI [of _ ?st']) simp
qed

lemma write_groups_blocks:
  assumes "store_ok st" and "session_rows st sid = A @ concat bs @ C" and "[] \<notin> set bs"
    and "\<forall>b \<in> set bs. 1 < length b \<longrightarrow> block_ok ok b"
  shows "\<exists>st'. write_groups kj (multi bs) st = Some st' \<and> store_ok st' \<and> st_sessions st' = st_sessions st \<and>
    (\<forall>sid'. session_rows st' sid' =
      (if sid' = sid then A @ map merged_block bs @ C else session_rows st sid'))"
  using assms
proof (induction bs arbitrary: A st)
  case (Cons b bs)
  show ?case
  proof (cases "1 < length b")
    case True
    then have keys: "\<forall>r \<in> set b. key_of r \<noteq> None" using Cons.prems(4) by (force simp: block_ok_def)
    have "session_rows st sid = A @ b @ (concat bs @ C)" using Cons.prems(2) by simp
    from write_group_session [OF Cons.prems(1) this _ keys, of kj "merged_text b"] True
    obtain st1 where w: "write_group kj (b, merged_text b) st = Some st1" and ok1: "store_ok st1"
      and s1: "st_sessions st1 = st_sessions st"
      and r1: "\<And>sid'. session_rows st1 sid' =
        (if sid' = sid then A @ [merged_row b (merged_text b) (hd b)] @ concat bs @ C else session_rows st sid')"
      by force
    have "session_rows st1 sid = (A @ [merged_block b]) @ concat bs @ C"
      using r1 [of sid] True by (simp add: merged_block_def)
    from Cons.IH [OF ok1 this] Cons.prems(3,4) w True s1 r1 show ?thesis by auto
  next
    case False
    then obtain r where b: "b = [r]" using Cons.prems(3) by (cases b) auto
    have "session_rows st sid = (A @ [merged_block b]) @ concat bs @ C"
      using Cons.prems(2) by (simp add: b merged_block_def)
    from Cons.IH [OF Cons.prems(1) this] Cons.prems(3,4) False show ?thesis by auto
  qed
qed simp

section \<open>The compacted store beside the plain one\<close>

definition mirrors :: "compaction_db \<Rightarrow> event_store \<Rightarrow> bool" where
  "mirrors db st0 \<longleftrightarrow> store_ok (cd_store db) \<and> store_ok st0 \<and> st_sessions (cd_store db) = st_sessions st0 \<and>
     (\<forall>sid. represents (session_rows (cd_store db) sid) (session_rows st0 sid) \<and>
       last_event_sequence (cd_store db) sid = last_event_sequence st0 sid \<and>
       successively crowded (filter (\<lambda>r. scanned_through db sid < row_sequence r)
         (session_rows (cd_store db) sid)))"

lemma mirrorsD:
  assumes "mirrors db st0"
  shows "store_ok (cd_store db)" and "store_ok st0" and "st_sessions (cd_store db) = st_sessions st0"
    and "represents (session_rows (cd_store db) sid) (session_rows st0 sid)"
    and "last_event_sequence (cd_store db) sid = last_event_sequence st0 sid"
    and "successively crowded (filter (\<lambda>r. scanned_through db sid < row_sequence r)
         (session_rows (cd_store db) sid))"
  using assms by (auto simp: mirrors_def)

lemma represents_Nil [simp]: "represents [] []"
  by (auto simp: represents_def)

lemma represents_snoc:
  assumes "represents R L" and "row_compacted_through r = None"
  shows "represents (R @ [r]) (L @ [r])"
proof -
  from assms(1) obtain segs where "L = concat segs" "R = map joined segs" "\<forall>seg \<in> set segs. segment seg"
    by (auto simp: represents_def)
  then show ?thesis unfolding represents_def
    by (intro exI [of _ "segs @ [[r]]"]) (use assms(2) in \<open>auto simp: segment_def\<close>)
qed

lemma represents_terminal:
  assumes rep: "represents R L" and ok: "\<forall>r \<in> set L. row_ok r"
  shows "(\<exists>r \<in> set R. row_terminal_turn_id r = Some t) \<longleftrightarrow> (\<exists>r \<in> set L. row_terminal_turn_id r = Some t)"
proof -
  from rep obtain segs where L: "L = concat segs" and R: "R = map joined segs"
    and segs: "\<forall>seg \<in> set segs. segment seg" by (auto simp: represents_def)
  have "(\<exists>r \<in> set seg. row_terminal_turn_id r = Some t) \<longleftrightarrow> row_terminal_turn_id (joined seg) = Some t"
    if seg: "seg \<in> set segs" for seg
  proof (cases "1 < length seg")
    case True
    with segs seg obtain k where k: "\<forall>r \<in> set seg. key_of r = Some k" unfolding segment_def by blast
    have "row_terminal_turn_id r = None" if r: "r \<in> set seg" for r
    proof -
      have "row_ok r" using ok L seg r by auto
      moreover have "terminal_metadata (er_kind (row_event r)) = None"
        using k r delta_no_terminal by fastforce
      ultimately show ?thesis by (simp add: row_ok_def)
    qed
    moreover have "hd seg \<in> set seg" using segs seg by (auto simp: segment_def)
    ultimately show ?thesis by (metis joined_simps(5) option.distinct(1))
  next
    case False
    then obtain r where "seg = [r]" using segs seg by (cases seg) (auto simp: segment_def)
    then show ?thesis by simp
  qed
  then show ?thesis unfolding L R by auto
qed

definition plain_row :: "session_event_record \<Rightarrow> nat \<Rightarrow> ev_row" where
  "plain_row e n =
     \<lparr>row_event = e\<lparr>er_sequence := word_of_nat n\<rparr>,
      row_terminal_turn_id = map_option fst (terminal_metadata (er_kind e)),
      row_terminal_kind = map_option snd (terminal_metadata (er_kind e)),
      row_compacted_through = None\<rparr>"

definition refuses :: "event_store \<Rightarrow> session_event_record \<Rightarrow> bool" where
  "refuses st e \<longleftrightarrow>
     (\<exists>t x. terminal_metadata (er_kind e) = Some (t, x) \<and>
        (\<exists>r \<in> set (session_rows st (er_session_id e)). row_terminal_turn_id r = Some t)) \<or>
     2 ^ 63 \<le> last_event_sequence st (er_session_id e) + 1 \<or> er_session_id e \<notin> set (st_sessions st)"

lemma find_terminal_row_None_iff:
  "find_terminal_row st sid t = None \<longleftrightarrow> (\<forall>r \<in> set (session_rows st sid). row_terminal_turn_id r \<noteq> Some t)"
proof
  assume "find_terminal_row st sid t = None"
  then have "sort_key row_sequence (filter (\<lambda>r. row_terminal_turn_id r = Some t) (session_rows st sid)) = []"
    by (auto simp: find_terminal_row_def split: list.splits)
  then have "set (sort_key row_sequence (filter (\<lambda>r. row_terminal_turn_id r = Some t) (session_rows st sid))) = {}"
    by simp
  then show "\<forall>r \<in> set (session_rows st sid). row_terminal_turn_id r \<noteq> Some t"
    by (auto simp: set_sort)
next
  assume "\<forall>r \<in> set (session_rows st sid). row_terminal_turn_id r \<noteq> Some t"
  then show "find_terminal_row st sid t = None"
    by (cases "find_terminal_row st sid t") (auto dest: find_terminal_row_in)
qed

lemma append_fresh:
  assumes "er_event_id e \<notin> er_event_id ` row_event ` set (st_rows st)"
  shows "snd (append_event kj st e) =
    (if refuses st e then st
     else st\<lparr>st_rows := st_rows st @ [plain_row e (last_event_sequence st (er_session_id e) + 1)]\<rparr>)"
proof -
  have fresh: "find_by_event_id st (er_event_id e) = None"
    using assms unfolding find_by_event_id_def find_None_iff by (metis image_eqI)
  have ins: "snd (insert_event st e) = (if 2 ^ 63 \<le> last_event_sequence st (er_session_id e) + 1 \<or>
      er_session_id e \<notin> set (st_sessions st) then st
      else st\<lparr>st_rows := st_rows st @ [plain_row e (last_event_sequence st (er_session_id e) + 1)]\<rparr>)"
    by (auto simp: insert_event_def Let_def plain_row_def)
  show ?thesis
  proof (cases "terminal_metadata (er_kind e)")
    case None
    then show ?thesis using fresh ins by (simp add: append_event_def refuses_def)
  next
    case (Some p)
    obtain t x where p: "terminal_metadata (er_kind e) = Some (t, x)" using Some by (cases p) auto
    show ?thesis
    proof (cases "find_terminal_row st (er_session_id e) t")
      case None
      then show ?thesis using fresh ins p find_terminal_row_None_iff [of st "er_session_id e" t]
        by (simp add: append_event_def refuses_def)
    next
      case (Some r)
      then have "refuses st e" using p find_terminal_row_in [OF Some] by (auto simp: refuses_def)
      then show ?thesis using fresh p Some by (auto simp: append_event_def split: sum.splits)
    qed
  qed
qed

lemma row_sequence_plain_row: "n < 2 ^ 63 \<Longrightarrow> row_sequence (plain_row e n) = n"
proof -
  assume "n < 2 ^ 63"
  then have "n < 2 ^ LENGTH(64)" by simp
  then show ?thesis by (simp add: row_sequence_def plain_row_def unat_of_nat take_bit_nat_eq_self)
qed

lemma last_event_sequence_Max:
  "last_event_sequence st sid = Max (insert 0 (row_sequence ` set (session_rows st sid)))"
  unfolding last_event_sequence_def by (simp add: Max.set_eq_fold [symmetric])

lemma represents_ids:
  assumes "represents R L"
  shows "er_event_id ` row_event ` set R \<subseteq> er_event_id ` row_event ` set L"
proof -
  from assms obtain segs where L: "L = concat segs" and R: "R = map joined segs"
    and segs: "\<forall>seg \<in> set segs. segment seg" by (auto simp: represents_def)
  show ?thesis
  proof
    fix i assume "i \<in> er_event_id ` row_event ` set R"
    then obtain seg where seg: "seg \<in> set segs" "i = er_event_id (row_event (hd seg))" by (auto simp: R)
    then have "hd seg \<in> set L" using segs by (auto simp: L segment_def intro!: bexI [of _ seg])
    with seg(2) show "i \<in> er_event_id ` row_event ` set L" by blast
  qed
qed

definition event_ids :: "event_store \<Rightarrow> rstr set" where
  "event_ids st = er_event_id ` row_event ` set (st_rows st)"

lemma in_session_rows: "r \<in> set (st_rows st) \<Longrightarrow> r \<in> set (session_rows st (er_session_id (row_event r)))"
  by (simp add: session_rows_def)

lemma mirrors_ids: "mirrors db st0 \<Longrightarrow> event_ids (cd_store db) \<subseteq> event_ids st0"
proof
  fix i assume m: "mirrors db st0" and "i \<in> event_ids (cd_store db)"
  then obtain r where r: "r \<in> set (st_rows (cd_store db))" "i = er_event_id (row_event r)"
    by (auto simp: event_ids_def)
  from represents_ids [OF mirrorsD(4) [OF m, of "er_session_id (row_event r)"]] in_session_rows [OF r(1)] r(2)
  have "i \<in> er_event_id ` row_event ` set (session_rows st0 (er_session_id (row_event r)))" by blast
  then show "i \<in> event_ids st0" unfolding event_ids_def session_rows_def by auto
qed

lemma session_rows_append_row:
  "session_rows (st\<lparr>st_rows := st_rows st @ [r]\<rparr>) sid =
     session_rows st sid @ (if er_session_id (row_event r) = sid then [r] else [])"
  by (simp add: session_rows_def)

lemma crowded_plain: "row_compacted_through r' = None \<Longrightarrow> crowded r r'"
  by (simp add: crowded_def)

lemma mirrors_append:
  assumes m: "mirrors db st0" and fresh: "er_event_id e \<notin> event_ids st0"
  shows "mirrors (db\<lparr>cd_store := snd (append_event kj (cd_store db) e)\<rparr>) (snd (append_event kj st0 e))"
proof -
  let ?sid = "er_session_id e"
  have fresh': "er_event_id e \<notin> event_ids (cd_store db)" using fresh mirrors_ids [OF m] by blast
  have rows_ok: "\<forall>r \<in> set (session_rows st0 ?sid). row_ok r"
    using store_ok_row [OF mirrorsD(2) [OF m]] session_rows_in by blast
  have refuses: "refuses (cd_store db) e \<longleftrightarrow> refuses st0 e"
    unfolding refuses_def mirrorsD(3) [OF m] mirrorsD(5) [OF m] represents_terminal [OF mirrorsD(4) [OF m] rows_ok] ..
  have ok': "store_ok (snd (append_event kj st e))" if "store_ok st" for st
    using append_event_store_ok [OF that] by (cases "append_event kj st e") auto
  show ?thesis
  proof (cases "refuses st0 e")
    case True
    then have "snd (append_event kj (cd_store db) e) = cd_store db" "snd (append_event kj st0 e) = st0"
      using append_fresh refuses fresh fresh' by (simp_all add: event_ids_def)
    then show ?thesis using m by simp
  next
    case False
    define row where "row = plain_row e (last_event_sequence st0 ?sid + 1)"
    have app: "snd (append_event kj (cd_store db) e) = (cd_store db)\<lparr>st_rows := st_rows (cd_store db) @ [row]\<rparr>"
      "snd (append_event kj st0 e) = st0\<lparr>st_rows := st_rows st0 @ [row]\<rparr>"
      using append_fresh refuses fresh fresh' False mirrorsD(5) [OF m] by (simp_all add: event_ids_def row_def)
    have row: "row_compacted_through row = None" "er_session_id (row_event row) = ?sid"
      by (simp_all add: row_def plain_row_def)
    have "represents (session_rows (cd_store db) sid @ (if ?sid = sid then [row] else []))
        (session_rows st0 sid @ (if ?sid = sid then [row] else []))" for sid
      using represents_snoc [OF mirrorsD(4) [OF m] row(1)] mirrorsD(4) [OF m] by simp
    moreover have "last_event_sequence ((cd_store db)\<lparr>st_rows := st_rows (cd_store db) @ [row]\<rparr>) sid =
        last_event_sequence (st0\<lparr>st_rows := st_rows st0 @ [row]\<rparr>) sid" for sid
      using mirrorsD(5) [OF m, of sid] by (simp add: last_event_sequence_def session_rows_append_row)
    moreover have "successively crowded (filter P (session_rows (cd_store db) sid @ (if ?sid = sid then [row] else [])))"
      if "successively crowded (filter P (session_rows (cd_store db) sid))" for P sid
      using that row(1) by (auto simp: successively_append_iff crowded_plain)
    ultimately show ?thesis
      using ok' [OF mirrorsD(1) [OF m]] ok' [OF mirrorsD(2) [OF m]] mirrorsD(3,6) [OF m]
      unfolding mirrors_def app by (simp add: session_rows_append_row row(2) scanned_through_def)
  qed
qed

section \<open>Arrivals\<close>

definition fresh_events :: "session_event_record list \<Rightarrow> event_store \<Rightarrow> bool" where
  "fresh_events es st \<longleftrightarrow> distinct (map er_event_id es) \<and> set (map er_event_id es) \<inter> event_ids st = {}"

lemma append_event_ids:
  "event_ids (snd (append_event kj st e)) \<subseteq> insert (er_event_id e) (event_ids st)"
proof (cases "er_event_id e \<in> event_ids st")
  case True
  then have "find_by_event_id st (er_event_id e) \<noteq> None"
    by (auto simp: event_ids_def find_by_event_id_def find_None_iff)
  then obtain r where "find_by_event_id st (er_event_id e) = Some r" by blast
  then show ?thesis by (auto simp: append_event_def split: sum.splits)
next
  case False
  then show ?thesis by (simp add: append_fresh event_ids_def) (auto simp: plain_row_def)
qed

lemma fresh_events_Cons:
  "fresh_events (e # es) st \<Longrightarrow>
     er_event_id e \<notin> event_ids st \<and> fresh_events es (snd (append_event kj st e))"
proof -
  assume "fresh_events (e # es) st"
  then have "er_event_id e \<notin> event_ids st" "distinct (map er_event_id es)"
    and "set (map er_event_id es) \<inter> insert (er_event_id e) (event_ids st) = {}"
    by (auto simp: fresh_events_def)
  then show ?thesis using append_event_ids [of kj st e] unfolding fresh_events_def by blast
qed

lemma arrive_simps [simp]:
  "arrive kj [] st = st"
  "arrive kj (e # es) st = arrive kj es (snd (append_event kj st e))"
  "arrive kj (es @ fs) st = arrive kj fs (arrive kj es st)"
  by (simp_all add: arrive_def)

lemma fresh_events_append:
  "fresh_events (es @ fs) st \<Longrightarrow> fresh_events es st \<and> fresh_events fs (arrive kj es st)"
proof (induction es arbitrary: st)
  case (Cons e es)
  then have "fresh_events (es @ fs) (snd (append_event kj st e))" using fresh_events_Cons by fastforce
  from Cons.IH [OF this] Cons.prems show ?case by (auto simp: fresh_events_def)
qed (simp add: fresh_events_def)

lemma mirrors_arrive:
  "mirrors db st0 \<Longrightarrow> fresh_events es st0 \<Longrightarrow>
     mirrors (db\<lparr>cd_store := arrive kj es (cd_store db)\<rparr>) (arrive kj es st0)"
proof (induction es arbitrary: db st0)
  case (Cons e es)
  note f = fresh_events_Cons [OF Cons.prems(2), of kj]
  have "mirrors (db\<lparr>cd_store := snd (append_event kj (cd_store db) e)\<rparr>) (snd (append_event kj st0 e))"
    using mirrors_append [OF Cons.prems(1)] f by blast
  from Cons.IH [OF this] f show ?case by simp
qed simp

lemma append_extends_rows:
  "\<exists>C. session_rows (snd (append_event kj st e)) sid = session_rows st sid @ C \<and>
     (\<forall>r \<in> set C. row_compacted_through r = None) \<and> length C \<le> 1"
proof (cases "find_by_event_id st (er_event_id e)")
  case None
  then have "er_event_id e \<notin> er_event_id ` row_event ` set (st_rows st)"
    unfolding find_by_event_id_def find_None_iff by auto
  from append_fresh [OF this, of kj] show ?thesis
    by (simp add: session_rows_append_row) (simp add: plain_row_def)
next
  case (Some r)
  then have "snd (append_event kj st e) = st" by (auto simp: append_event_def split: sum.splits)
  then show ?thesis by (intro exI [of _ "[]"]) simp
qed

lemma arrive_extends:
  "\<exists>C. session_rows (arrive kj es st) sid = session_rows st sid @ C \<and>
     (\<forall>r \<in> set C. row_compacted_through r = None) \<and> length C \<le> length es"
proof (induction es arbitrary: st)
  case Nil
  show ?case by (intro exI [of _ "[]"]) simp
next
  case (Cons e es)
  obtain C where C: "session_rows (snd (append_event kj st e)) sid = session_rows st sid @ C"
    "\<forall>r \<in> set C. row_compacted_through r = None" "length C \<le> 1"
    using append_extends_rows [of kj st e sid] by blast
  obtain D where D: "session_rows (arrive kj es (snd (append_event kj st e))) sid =
      session_rows (snd (append_event kj st e)) sid @ D"
    "\<forall>r \<in> set D. row_compacted_through r = None" "length D \<le> length es"
    using Cons.IH by blast
  show ?case by (intro exI [of _ "C @ D"]) (use C D in auto)
qed

lemma arrive_store_ok: "store_ok st \<Longrightarrow> store_ok (arrive kj es st)"
proof (induction es arbitrary: st)
  case (Cons e es)
  then show ?case using append_event_store_ok [of st kj e] by (cases "append_event kj st e") auto
qed simp

section \<open>One step of the compaction\<close>

lemma rows_after_ok:
  assumes "store_ok st"
  shows "rows_after st sid n = filter (\<lambda>r. n < row_sequence r) (session_rows st sid)"
  using strict_sorted_imp_sorted [OF store_ok_sorted [OF assms, of sid]]
  by (simp add: rows_after_def sort_key_id_if_sorted)

lemma sorted_split:
  "sorted_wrt (<) (map row_sequence rs) \<Longrightarrow>
     rs = filter (\<lambda>r. row_sequence r \<le> n) rs @ filter (\<lambda>r. n < row_sequence r) rs"
proof (induction rs)
  case (Cons r rs)
  show ?case
  proof (cases "row_sequence r \<le> n")
    case True
    then show ?thesis using Cons by simp
  next
    case False
    then have "\<forall>q \<in> set (r # rs). n < row_sequence q" using Cons.prems by auto
    then have "filter (\<lambda>r. row_sequence r \<le> n) (r # rs) = []" "filter (\<lambda>r. n < row_sequence r) (r # rs) = r # rs"
      by (auto simp: filter_empty_conv filter_id_conv not_le)
    then show ?thesis by simp
  qed
qed simp

lemma successively_after:
  assumes "successively P rs" and "sorted_wrt (<) (map row_sequence rs)"
  shows "successively P (filter (\<lambda>r. n < row_sequence r) rs)"
  using assms(1) sorted_split [OF assms(2), of n] by (metis successively_append_iff)

lemma older_mergeable:
  assumes "sorted_wrt (<) (map row_sequence rs)"
  shows "sorted_wrt (older (mergeable pt now st sid)) rs"
proof -
  have "sorted_wrt (\<lambda>r r'. row_sequence r < row_sequence r') rs" using assms by (simp add: sorted_wrt_map)
  then show ?thesis
  proof (rule sorted_wrt_mono_rel [rotated])
    fix r r' assume "row_sequence r < row_sequence r'"
    then show "older (mergeable pt now st sid) r r'"
      by (auto simp: older_def mergeable_def key_of_def is_some_and_def split: option.splits prod.splits)
  qed
qed

lemma mergeable_before_terminal:
  assumes "store_ok st" and "mergeable pt now st sid r"
  obtains q where "q \<in> set (session_rows st sid)" "row_sequence r < row_sequence q" "key_of q = None"
proof -
  from assms(2) obtain t q where q: "terminal_row_of st sid t = Some q" "row_sequence r < row_sequence q"
    by (auto simp: mergeable_def is_some_and_def split: option.splits prod.splits)
  then have mem: "q \<in> set (session_rows st sid)" and tid: "row_terminal_turn_id q = Some (turn_id_text t)"
    by (auto simp: terminal_row_of_def find_Some_iff) (metis length_rev nth_mem set_rev)
  have "row_ok q" using store_ok_row [OF assms(1) session_rows_in [OF mem]] .
  with tid have "terminal_metadata (er_kind (row_event q)) \<noteq> None"
    by (cases "terminal_metadata (er_kind (row_event q))") (auto simp: row_ok_def)
  then have "key_of q = None" using delta_no_terminal [of q] by argo
  with mem q(2) that show ?thesis by blast
qed

lemma last_event_eqI:
  assumes "row_sequence ` set (session_rows st' sid) \<subseteq> row_sequence ` set (session_rows st sid)"
    and "\<And>r. r \<in> set (session_rows st sid) \<Longrightarrow> \<exists>q \<in> set (session_rows st' sid). row_sequence r \<le> row_sequence q"
  shows "last_event_sequence st' sid = last_event_sequence st sid"
proof (rule antisym)
  show "last_event_sequence st' sid \<le> last_event_sequence st sid"
    unfolding last_event_sequence_Max by (rule Max_mono) (use assms(1) in auto)
  have "x \<le> last_event_sequence st' sid" if "x \<in> insert 0 (row_sequence ` set (session_rows st sid))" for x
    using that assms(2) row_sequence_le_last [of _ st' sid] by (auto intro: order_trans)
  then show "last_event_sequence st sid \<le> last_event_sequence st' sid"
    unfolding last_event_sequence_Max [of st sid] by (intro Max.boundedI) auto
qed

lemma successively_plain: "\<forall>r \<in> set rs. row_compacted_through r = None \<Longrightarrow> successively crowded rs"
proof (induction rs)
  case (Cons r rs)
  then show ?case by (cases rs) (auto simp: crowded_plain)
qed simp

text \<open>The rows a step leaves, from the blocks of its scan.\<close>

lemma mirrors_write:
  assumes m: "mirrors db st0" and scanned: "scanned_through db sid \<le> n"
    and rows: "session_rows (cd_store db) sid = A @ concat bs @ C"
    and A: "A = filter (\<lambda>r. row_sequence r \<le> scanned_through db sid) (A @ concat bs)"
    and plain: "\<forall>r \<in> set C. row_compacted_through r = None"
    and ne: "[] \<notin> set bs" and ok: "\<forall>b \<in> set bs. 1 < length b \<longrightarrow> block_ok ok b"
    and apart: "successively (apart ok) bs" and older: "sorted_wrt (older ok) (concat bs)"
    and ends: "\<And>r. r \<in> set (concat bs) \<Longrightarrow> ok r \<Longrightarrow>
      \<exists>q \<in> set (A @ concat bs @ C). row_sequence r < row_sequence q \<and> key_of q = None"
    and written: "store_ok w" "st_sessions w = st_sessions (cd_store db)"
      "\<And>sid'. session_rows w sid' =
        (if sid' = sid then A @ map merged_block bs @ C else session_rows (cd_store db) sid')"
    and marks: "cd_scanned db' = cd_scanned db \<or> cd_scanned db' = (cd_scanned db)(sid \<mapsto> n)"
    and store: "cd_store db' = w"
  shows "mirrors db' st0"
proof -
  let ?n = "scanned_through db sid"
  have sorted: "sorted_wrt (<) (map row_sequence (A @ concat bs @ C))"
    using store_ok_sorted [OF mirrorsD(1) [OF m], of sid] rows by simp
  have after: "filter (\<lambda>r. ?n < row_sequence r) (A @ concat bs) = concat bs"
  proof -
    have "map row_sequence (A @ concat bs @ C) = map row_sequence (A @ concat bs) @ map row_sequence C" by simp
    with sorted have "sorted_wrt (<) (map row_sequence (A @ concat bs))" by (simp only: sorted_wrt_append)
    from sorted_split [OF this, of ?n]
    have "A @ concat bs = A @ filter (\<lambda>r. ?n < row_sequence r) (A @ concat bs)" by (simp only: A [symmetric])
    then show ?thesis by simp
  qed
  have "successively crowded (filter (\<lambda>r. ?n < row_sequence r) (A @ concat bs) @ filter (\<lambda>r. ?n < row_sequence r) C)"
    using mirrorsD(6) [OF m, of sid] rows by simp
  then have succ: "successively crowded (concat bs)"
    unfolding after by (simp only: successively_append_iff)
  have hds: "row_sequence (merged_block b) = row_sequence (hd b)" for b
    by (simp add: merged_block_def)
  have hd_in: "hd b \<in> set (concat bs)" if "b \<in> set bs" for b
  proof -
    have "b \<noteq> []" using that ne by auto
    then have "hd b \<in> set b" by simp
    with that show ?thesis by (auto intro: bexI [of _ b])
  qed
  have rep: "represents (session_rows w sid') (session_rows st0 sid')" for sid'
  proof (cases "sid' = sid")
    case True
    have "represents (A @ map merged_block bs @ C) (session_rows st0 sid)"
      by (rule represents_merge [OF _ _ ne ok succ])
        (use mirrorsD(4) [OF m, of sid] rows store_ok_sorted [OF mirrorsD(2) [OF m], of sid] in simp_all)
    then show ?thesis using True written(3) by simp
  next
    case False
    then show ?thesis using mirrorsD(4) [OF m, of sid'] written(3) by simp
  qed
  have kept: "q \<in> set (A @ map merged_block bs @ C)" if "q \<in> set (A @ concat bs @ C)" "key_of q = None" for q
  proof -
    have "q \<in> merged_block ` set bs" if "b \<in> set bs" "q \<in> set b" for b
    proof -
      have "\<not> 1 < length b" using ok that \<open>key_of q = None\<close> by (force simp: block_ok_def)
      with that(2) have "b = [q]" by (cases b) auto
      then show ?thesis using that(1) by (force simp: merged_block_def)
    qed
    then show ?thesis using that(1) by auto
  qed
  have last: "last_event_sequence w sid' = last_event_sequence st0 sid'" for sid'
  proof (cases "sid' = sid")
    case True
    have "last_event_sequence w sid = last_event_sequence (cd_store db) sid"
    proof (rule last_event_eqI)
      show "row_sequence ` set (session_rows w sid) \<subseteq> row_sequence ` set (session_rows (cd_store db) sid)"
      proof -
        have "row_sequence ` merged_block ` set bs \<subseteq> row_sequence ` set (concat bs)"
          using hds hd_in by fastforce
        then show ?thesis unfolding written(3) rows
          by (simp only: set_append set_map image_Un if_True refl) blast
      qed
    next
      fix r assume "r \<in> set (session_rows (cd_store db) sid)"
      then consider "r \<in> set A \<or> r \<in> set C" | b where "b \<in> set bs" "r \<in> set b" unfolding rows by auto
      then show "\<exists>q \<in> set (session_rows w sid). row_sequence r \<le> row_sequence q"
      proof cases
        case 1
        then show ?thesis unfolding written(3) by auto
      next
        case (2 b)
        show ?thesis
        proof (cases "1 < length b")
          case True
          with ok 2 have "ok r" by (auto simp: block_ok_def)
          moreover have "r \<in> set (concat bs)" using 2 by auto
          ultimately obtain q where "q \<in> set (A @ concat bs @ C)" "row_sequence r < row_sequence q" "key_of q = None"
            using ends by blast
          then show ?thesis using kept [of q] unfolding written(3) by (auto intro: less_imp_le)
        next
          case False
          with 2(2) have "b = [r]" by (cases b) auto
          then have "merged_block b = r" by (simp add: merged_block_def)
          then show ?thesis using 2(1) unfolding written(3) by (auto intro!: bexI [of _ r])
        qed
      qed
    qed
    then show ?thesis using True mirrorsD(5) [OF m, of sid] by simp
  next
    case False
    then have "session_rows w sid' = session_rows (cd_store db) sid'" using written(3) by simp
    then show ?thesis using mirrorsD(5) [OF m, of sid'] by (simp add: last_event_sequence_def)
  qed
  have crowd: "successively crowded (filter (\<lambda>r. scanned_through db' sid' < row_sequence r) (session_rows w sid'))"
    for sid'
  proof (cases "sid' = sid")
    case False
    then have "scanned_through db' sid' = scanned_through db sid'" using marks by (auto simp: scanned_through_def)
    then show ?thesis using False mirrorsD(6) [OF m, of sid'] written(3) by simp
  next
    case True
    have "scanned_through db' sid = ?n \<or> scanned_through db' sid = n"
      using marks by (auto simp: scanned_through_def)
    then have ge: "?n \<le> scanned_through db' sid" using scanned by auto
    have "\<forall>r \<in> set (filter (\<lambda>r. row_sequence r \<le> ?n) (A @ concat bs)). row_sequence r \<le> ?n" by auto
    then have "\<forall>r \<in> set A. row_sequence r \<le> ?n" by (simp only: A [symmetric])
    then have none: "filter (\<lambda>r. ?n < row_sequence r) A = []" by (auto simp: filter_empty_conv not_less)
    have "\<forall>b \<in> set bs. ?n < row_sequence (hd b)"
    proof
      fix b assume "b \<in> set bs"
      with hd_in have "hd b \<in> set (filter (\<lambda>r. ?n < row_sequence r) (A @ concat bs))" by (simp only: after)
      then show "?n < row_sequence (hd b)" by auto
    qed
    then have all: "filter (\<lambda>r. ?n < row_sequence r) (map merged_block bs) = map merged_block bs"
      by (auto simp: filter_id_conv hds)
    have "successively crowded (map merged_block bs @ filter (\<lambda>r. ?n < row_sequence r) C)"
      using crowded_after [OF succ ne ok apart older] plain
        successively_plain [of "filter (\<lambda>r. ?n < row_sequence r) C"]
      by (cases "filter (\<lambda>r. ?n < row_sequence r) C")
        (auto simp: successively_append_iff intro!: crowded_plain dest!: filter_eq_ConsD)
    then have base: "successively crowded (filter (\<lambda>r. ?n < row_sequence r) (session_rows w sid))"
      unfolding written(3) by (simp add: none all)
    have "sorted_wrt (<) (map row_sequence (filter (\<lambda>r. ?n < row_sequence r) (session_rows w sid)))"
      using store_ok_sorted [OF written(1), of sid] by (simp add: sorted_wrt_map sorted_wrt_filter)
    from successively_after [OF base this, of "scanned_through db' sid"] ge True show ?thesis
      by (simp add: filter_filter) (smt (verit, best) filter_cong order_le_less_trans)
  qed
  show ?thesis unfolding mirrors_def store
    using written(1,2) mirrorsD(2,3) [OF m] rep last crowd by simp
qed

text \<open>What one step does when it finds rows to read.\<close>

definition left_by_step ::
    "compaction_db \<Rightarrow> session_id \<Rightarrow> nat \<Rightarrow> event_store \<Rightarrow> (ev_row list \<times> rstr) list \<Rightarrow> bool \<Rightarrow> event_store \<Rightarrow>
      (core_error + delta_compaction_step) \<times> compaction_db" where
  "left_by_step db sid m store groups truncated w =
     (let step = \<lparr>merged_rows = length groups,
                  deleted_rows = sum_list (map (\<lambda>(g, _). length g - 1) groups), more_work = truncated\<rparr>
      in if truncated then (Inr step, db\<lparr>cd_store := w\<rparr>)
         else if sid \<notin> set (st_sessions w) then (Inl sqlite_error, db\<lparr>cd_store := store\<rparr>)
         else (Inr step, db\<lparr>cd_store := w, cd_scanned := (cd_scanned db)(sid \<mapsto> m)\<rparr>))"

lemma compact_step_cases:
  assumes ok: "store_ok (cd_store db)"
    and read: "read = arrive kj arrivals (cd_store db)" and store: "store = arrive kj arrivals' read"
  obtains (idle) "compact_session_deltas_step kj pt sid now max_deleted arrivals arrivals' db =
      (Inr no_step, db\<lparr>cd_store := store\<rparr>)"
  | (step) A bs C w truncated m where
      "compact_session_deltas_step kj pt sid now max_deleted arrivals arrivals' db =
        left_by_step db sid m store (multi bs) truncated w"
      "scanned_through db sid \<le> m"
      "session_rows (cd_store db) sid = A @ concat bs" "session_rows store sid = A @ concat bs @ C"
      "A = filter (\<lambda>r. row_sequence r \<le> scanned_through db sid) (A @ concat bs)"
      "\<forall>r \<in> set C. row_compacted_through r = None" "length C \<le> length arrivals + length arrivals'"
      "[] \<notin> set bs" "\<forall>b \<in> set bs. 1 < length b \<longrightarrow> block_ok (mergeable pt now read sid) b"
      "successively (apart (mergeable pt now read sid)) bs" "sorted_wrt (older (mergeable pt now read sid)) (concat bs)"
      "\<And>r. mergeable pt now read sid r \<Longrightarrow>
        \<exists>q \<in> set (A @ concat bs @ C). row_sequence r < row_sequence q \<and> key_of q = None"
      "store_ok w" "st_sessions w = st_sessions store"
      "\<And>sid'. session_rows w sid' =
        (if sid' = sid then A @ map merged_block bs @ C else session_rows store sid')"
      "truncated \<Longrightarrow> max_deleted \<le> planned_deletes (multi bs)"
proof -
  let ?n = "scanned_through db sid"
  let ?rows = "rows_after (cd_store db) sid (scanned_through db sid)" and ?ok = "mergeable pt now read sid"
  obtain out trunc where scan: "scan_groups ?ok max_deleted ?rows None 0 [] = (out, trunc)" by fastforce
  from scan_groups_blocks [OF scan] obtain bs where bs: "blocks_of ?ok None ?rows bs"
    and groups: "filter (\<lambda>(g, _). 1 < length g) out = multi bs" by (auto simp: current_ok_def)
  then have rows: "concat bs = ?rows" and ne: "[] \<notin> set bs" and apart: "successively (apart ?ok) bs"
    and blocks: "\<forall>b \<in> set bs. 1 < length b \<longrightarrow> block_ok ?ok b" by (auto simp: blocks_of_def)
  define A where "A = filter (\<lambda>r. row_sequence r \<le> ?n) (session_rows (cd_store db) sid)"
  have split: "session_rows (cd_store db) sid = A @ concat bs"
    unfolding rows rows_after_ok [OF ok] A_def by (rule sorted_split [OF store_ok_sorted [OF ok]])
  obtain C1 where C1: "session_rows read sid = A @ concat bs @ C1" "\<forall>r \<in> set C1. row_compacted_through r = None"
    "length C1 \<le> length arrivals"
    using arrive_extends [of kj arrivals "cd_store db" sid] split read by auto
  obtain C2 where C2: "session_rows store sid = session_rows read sid @ C2" "\<forall>r \<in> set C2. row_compacted_through r = None"
    "length C2 \<le> length arrivals'"
    using arrive_extends [of kj arrivals' read sid] store by auto
  have all: "session_rows store sid = A @ concat bs @ (C1 @ C2)" using C1 C2 by simp
  have ok_store: "store_ok store" unfolding store read by (intro arrive_store_ok ok)
  from write_groups_blocks [OF ok_store all ne blocks, of kj]
  obtain w where w: "write_groups kj (multi bs) store = Some w" "store_ok w" "st_sessions w = st_sessions store"
    "\<And>sid'. session_rows w sid' = (if sid' = sid then A @ map merged_block bs @ (C1 @ C2) else session_rows store sid')"
    by blast
  have ends: "\<exists>q \<in> set (A @ concat bs @ (C1 @ C2)). row_sequence r < row_sequence q \<and> key_of q = None"
    if "?ok r" for r
  proof -
    from mergeable_before_terminal [OF _ that] arrive_store_ok [OF ok] read
    obtain q where "q \<in> set (session_rows read sid)" "row_sequence r < row_sequence q" "key_of q = None" by metis
    then show ?thesis using C1(1) by auto
  qed
  have older: "sorted_wrt (older ?ok) (concat bs)"
  proof (rule older_mergeable)
    have "map row_sequence (session_rows (cd_store db) sid) = map row_sequence A @ map row_sequence (concat bs)"
      using split by simp
    then show "sorted_wrt (<) (map row_sequence (concat bs))"
      using store_ok_sorted [OF ok, of sid] by (simp only: sorted_wrt_append)
  qed
  have A: "A = filter (\<lambda>r. row_sequence r \<le> ?n) (A @ concat bs)" using split by (simp add: A_def)
  show thesis
  proof (cases "?rows = []")
    case True
    then show ?thesis using idle by (simp add: compact_session_deltas_step_def Let_def read store)
  next
    case False
    let ?m = "max (scan_boundary pt now read sid ?rows) ?n"
    have "compact_session_deltas_step kj pt sid now max_deleted arrivals arrivals' db =
        left_by_step db sid ?m store (multi bs) trunc w"
      unfolding compact_session_deltas_step_def left_by_step_def Let_def read [symmetric] store [symmetric]
        scan prod.case groups w(1) option.case
      using False by simp
    moreover have "trunc \<Longrightarrow> max_deleted \<le> planned_deletes (multi bs)"
      using scan_groups_truncated [of ?ok max_deleted ?rows None 0 "[]" out] scan
      by (simp add: flush_def groups [symmetric] planned_deletes_filter del: One_nat_def)
    ultimately show ?thesis
      using step [of ?m bs trunc w A "C1 @ C2"] split all A C1(2,3) C2(2,3) ne blocks apart older ends w(2-4)
      by (simp only: set_append) auto
  qed
qed

lemma mirrors_compact:
  assumes m: "mirrors db st0" and fresh: "fresh_events (arrivals @ arrivals') st0"
  shows "mirrors (snd (compact_session_deltas_step kj pt sid now max_deleted arrivals arrivals' db))
    (arrive kj (arrivals @ arrivals') st0)"
proof -
  let ?read = "arrive kj arrivals (cd_store db)"
  let ?store = "arrive kj arrivals' ?read" and ?st0 = "arrive kj (arrivals @ arrivals') st0"
  let ?kept = "db\<lparr>cd_store := ?store\<rparr>"
  have kept: "mirrors ?kept ?st0" using mirrors_arrive [OF m fresh, of kj] by simp
  show ?thesis
  proof (cases rule: compact_step_cases [OF mirrorsD(1) [OF m] refl refl, where kj = kj
        and arrivals = arrivals and arrivals' = arrivals' and pt = pt and sid = sid and now = now
        and max_deleted = max_deleted])
    case 1
    then show ?thesis using kept by simp
  next
    case (2 A bs C w truncated n)
    have written: "mirrors db' ?st0"
      if "cd_store db' = w" "cd_scanned db' = cd_scanned db \<or> cd_scanned db' = (cd_scanned db)(sid \<mapsto> n)"
      for db'
      by (rule mirrors_write [OF kept _ _ _ 2(6) 2(8) 2(9) 2(10) 2(11) _ 2(13) _ _ _ that(1), of sid n A])
        (use 2 that in \<open>auto simp: scanned_through_def\<close>)
    show ?thesis unfolding 2(1) left_by_step_def Let_def
      using kept written [of "db\<lparr>cd_store := w\<rparr>"]
        written [of "db\<lparr>cd_store := w, cd_scanned := (cd_scanned db)(sid \<mapsto> n)\<rparr>"] by simp
  qed
qed

lemma mirrors_delete:
  assumes "mirrors db st0"
  shows "mirrors (db\<lparr>cd_store := delete_events_by_session (cd_store db) sid\<rparr>) (delete_events_by_session st0 sid)"
  using mirrorsD [OF assms] delete_events_store_ok
  by (auto simp: mirrors_def session_rows_delete last_event_sequence_def scanned_through_def)
    (simp_all add: delete_events_by_session_def)

section \<open>Readers\<close>

lemma run_target_of_key:
  "run_target k = map_option (\<lambda>(tag, t, i).
     (if tag = ''turn_delta'' then 0 else if tag = ''turn_assistant_message_delta'' then 1
      else if tag = ''turn_reasoning_delta'' then 2 else 3, t, i)) (map_option fst (delta_target k))"
  by (cases k) (simp_all add: run_target_def delta_target_def)

lemma with_content_eq: "with_content = set_delta_content"
  by (intro ext) (simp add: with_content_def set_delta_content_def)

lemma text_of_eq: "text_of r = delta_content (er_kind (row_event r))"
  by (cases "er_kind (row_event r)") (simp_all add: text_of_def delta_target_def delta_content_def)

lemma event_turn_of_key: "key_of r = Some k \<Longrightarrow> event_turn_id (er_kind (row_event r)) = Some (fst (snd k))"
  by (cases "er_kind (row_event r)") (auto simp: key_of_def delta_target_def)

lemma removed_turns_of_key: "key_of r \<noteq> None \<Longrightarrow> removed_turns (row_event r) = []"
  by (cases "er_kind (row_event r)") (auto simp: key_of_def delta_target_def removed_turns_def)

lemma segment_cases:
  assumes "segment seg"
  obtains (single) r where "seg = [r]"
  | (run) k where "1 < length seg" "\<forall>r \<in> set seg. key_of r = Some k"
  using assms unfolding segment_def by (cases seg; cases "tl seg") auto

lemma plain_event_joined:
  assumes "segment seg"
  shows "plain_event (row_event (joined seg)) = joined_event (map row_event seg)"
  using assms
proof (cases rule: segment_cases)
  case (single r)
  then show ?thesis by (simp add: plain_event_def joined_event_def run_event_def)
next
  case (run k)
  have body: "merged_text seg = concat (map (\<lambda>e. delta_content (er_kind e)) (map row_event seg))"
    by (simp add: merged_text_def comp_def text_of_eq [abs_def])
  obtain r q rs where "seg = r # q # rs" using run(1) by (cases seg; cases "tl seg") auto
  then show ?thesis using body
    by (simp add: joined_def plain_event_def joined_event_def run_event_def with_content_eq)
qed

lemma compact_runs_segments:
  assumes "\<forall>seg \<in> set segs. segment seg"
  shows "compact_runs (map row_event (map joined segs)) = compact_runs (map row_event (concat segs))"
  using assms
proof (induction segs)
  case (Cons seg segs)
  then have seg: "segment seg" and IH: "compact_runs (map row_event (map joined segs)) = compact_runs (map row_event (concat segs))"
    by auto
  obtain r rs where r: "seg = r # rs" using seg by (cases seg) (auto simp: segment_def)
  have "compact_runs (map row_event (map joined (seg # segs))) =
      cons_run (joined_event (map row_event seg)) (compact_runs (map row_event (concat segs)))"
    using IH plain_event_joined [OF seg] by (simp only: list.map compact_runs_Cons)
  also have "\<dots> = compact_runs (map row_event seg @ map row_event (concat segs))"
    using seg
  proof (cases rule: segment_cases)
    case (single q)
    then show ?thesis by (simp only: list.map append.simps compact_runs_Cons)
      (simp add: joined_event_def run_event_def plain_event_def)
  next
    case (run k)
    then have "\<forall>e \<in> set (map row_event seg). run_target (er_kind e) = run_target (er_kind (row_event r))"
      by (auto simp: run_target_of_key key_of_def r)
    moreover have "run_target (er_kind (row_event r)) \<noteq> None"
      using run by (auto simp: run_target_of_key key_of_def r)
    ultimately obtain d where "\<forall>e \<in> set (map row_event seg). run_target (er_kind e) = Some d" by fastforce
    then show ?thesis unfolding compact_runs_append
      using cons_run_joined [of "row_event r" "map row_event rs"] by (simp add: r)
  qed
  finally show ?case by simp
qed simp

lemma filter_segments:
  assumes segs: "\<forall>seg \<in> set segs. segment seg"
  shows "filter (\<lambda>r. in_conversation X (row_event r)) (concat segs) =
      concat (filter (\<lambda>seg. in_conversation X (row_event (joined seg))) segs)"
    and "filter (\<lambda>r. in_conversation X (row_event r)) (map joined segs) =
      map joined (filter (\<lambda>seg. in_conversation X (row_event (joined seg))) segs)"
proof -
  have turn: "in_conversation X (row_event r) \<longleftrightarrow> in_conversation X (row_event (joined seg))"
    if "segment seg" "r \<in> set seg" for seg r
    using that(1)
  proof (cases rule: segment_cases)
    case (single q)
    then show ?thesis using that(2) by simp
  next
    case (run k)
    then have "key_of (joined seg) = Some k" "key_of r = Some k" using that by (auto simp: segment_def)
    then show ?thesis by (simp add: in_conversation_def event_turn_of_key)
  qed
  show "filter (\<lambda>r. in_conversation X (row_event r)) (concat segs) =
      concat (filter (\<lambda>seg. in_conversation X (row_event (joined seg))) segs)"
    using segs
  proof (induction segs)
    case (Cons seg segs)
    then have "filter (\<lambda>r. in_conversation X (row_event r)) seg =
        (if in_conversation X (row_event (joined seg)) then seg else [])"
      using turn [of seg] by (auto simp: filter_id_conv filter_empty_conv)
    with Cons show ?case by simp
  qed simp
qed (simp add: filter_map comp_def)

lemma rewound_segments:
  assumes "\<forall>seg \<in> set segs. segment seg"
  shows "rewound_turn_ids (map row_event (map joined segs)) = rewound_turn_ids (map row_event (concat segs))"
  using assms
proof (induction segs)
  case (Cons seg segs)
  then have seg: "segment seg" by simp
  then have "set (removed_turns (row_event (joined seg))) = rewound_turn_ids (map row_event seg)"
  proof (cases rule: segment_cases)
    case (single q)
    then show ?thesis by (simp add: rewound_turn_ids_Cons)
  next
    case (run k)
    then have "key_of (joined seg) \<noteq> None" using seg by (auto simp: segment_def)
    then show ?thesis using run removed_turns_of_key by (fastforce simp: rewound_turn_ids_def)
  qed
  with Cons show ?case by (simp add: rewound_turn_ids_Cons)
qed simp

lemma timeline_represents:
  assumes "represents R L"
    and "\<forall>r \<in> set R. er_session_id (row_event r) = sid" and "\<forall>r \<in> set L. er_session_id (row_event r) = sid"
  shows "timeline (map row_event R) sid = timeline (map row_event L) sid"
proof -
  from assms(1) obtain segs where L: "L = concat segs" and R: "R = map joined segs"
    and segs: "\<forall>seg \<in> set segs. segment seg" by (auto simp: represents_def)
  have own: "filter (\<lambda>e. er_session_id e = sid) (map row_event rs) = map row_event rs"
    if "\<forall>r \<in> set rs. er_session_id (row_event r) = sid" for rs
    using that by (auto simp: filter_id_conv)
  define X where "X = rewound_turn_ids (map row_event (concat segs))"
  define vis where "vis = filter (\<lambda>seg. in_conversation X (row_event (joined seg))) segs"
  have visR: "visible_session_events (map row_event R) = map row_event (map joined vis)"
    unfolding visible_eq_filter R rewound_segments [OF segs] X_def [symmetric] vis_def
    using filter_segments(2) [OF segs, of X] by (simp add: filter_map comp_def)
  have visL: "visible_session_events (map row_event L) = map row_event (concat vis)"
    unfolding visible_eq_filter L X_def [symmetric] vis_def
    using filter_segments(1) [OF segs, of X] by (simp add: filter_map comp_def)
  have "\<forall>seg \<in> set vis. segment seg" using segs by (simp add: vis_def)
  then show ?thesis
    unfolding timeline_def own [OF assms(2)] own [OF assms(3)] visR visL by (rule compact_runs_segments)
qed

end
