(* ===== verification/Delta_Readers.thy ===== *)
theory Delta_Readers
  imports Delta_Mirror
begin

text \<open>
  The properties of the compaction: what readers of a compacted history see, what a client that
  continues from a cursor receives, and that the draining loop ends.
\<close>

section \<open>Histories with and without compaction\<close>

datatype history_call =
    AppendEvent session_event_record
  | CompactDeltas session_id int nat "session_event_record list" "session_event_record list"
  | DeleteHistory session_id

primrec compacting_call ::
    "(session_event_kind \<Rightarrow> rstr) \<Rightarrow> (rstr \<Rightarrow> int option) \<Rightarrow> history_call \<Rightarrow> compaction_db \<Rightarrow> compaction_db" where
  "compacting_call kj pt (AppendEvent e) db = db\<lparr>cd_store := snd (append_event kj (cd_store db) e)\<rparr>"
| "compacting_call kj pt (CompactDeltas sid now n es es') db =
     snd (compact_session_deltas_step kj pt sid now n es es' db)"
| "compacting_call kj pt (DeleteHistory sid) db =
     db\<lparr>cd_store := delete_events_by_session (cd_store db) sid\<rparr>"

text \<open>The same calls on a store that never compacts: only the arrivals of a step remain.\<close>

primrec plain_call :: "(session_event_kind \<Rightarrow> rstr) \<Rightarrow> history_call \<Rightarrow> event_store \<Rightarrow> event_store" where
  "plain_call kj (AppendEvent e) st = snd (append_event kj st e)"
| "plain_call kj (CompactDeltas sid now n es es') st = arrive kj (es @ es') st"
| "plain_call kj (DeleteHistory sid) st = delete_events_by_session st sid"

primrec incoming_events :: "history_call \<Rightarrow> session_event_record list" where
  "incoming_events (AppendEvent e) = [e]"
| "incoming_events (CompactDeltas sid now n es es') = es @ es'"
| "incoming_events (DeleteHistory sid) = []"

definition empty_store :: "session_id list \<Rightarrow> event_store" where
  "empty_store sids = \<lparr>st_rows = [], st_sessions = sids\<rparr>"

definition compacted_after ::
    "(session_event_kind \<Rightarrow> rstr) \<Rightarrow> (rstr \<Rightarrow> int option) \<Rightarrow> session_id list \<Rightarrow> history_call list \<Rightarrow> compaction_db" where
  "compacted_after kj pt sids cs =
     fold (compacting_call kj pt) cs \<lparr>cd_store = empty_store sids, cd_scanned = Map.empty\<rparr>"

definition plain_after ::
    "(session_event_kind \<Rightarrow> rstr) \<Rightarrow> session_id list \<Rightarrow> history_call list \<Rightarrow> event_store" where
  "plain_after kj sids cs = fold (plain_call kj) cs (empty_store sids)"

text \<open>Every event is appended once: the ids are fresh UUIDs.\<close>

definition events_once :: "history_call list \<Rightarrow> bool" where
  "events_once cs \<longleftrightarrow> distinct (map er_event_id (concat (map incoming_events cs)))"

lemma arrive_ids: "event_ids (arrive kj es st) \<subseteq> event_ids st \<union> set (map er_event_id es)"
proof (induction es arbitrary: st)
  case (Cons e es)
  from Cons.IH [of "snd (append_event kj st e)"] append_event_ids [of kj st e] show ?case by auto
qed simp

lemma plain_call_ids: "event_ids (plain_call kj c st) \<subseteq> event_ids st \<union> set (map er_event_id (incoming_events c))"
proof (cases c)
  case (AppendEvent e)
  then show ?thesis using append_event_ids [of kj st e] by auto
next
  case (CompactDeltas sid now n es es')
  then show ?thesis using arrive_ids [of kj "es @ es'" st] by simp
next
  case (DeleteHistory sid)
  then show ?thesis by (auto simp: event_ids_def delete_events_by_session_def)
qed

lemma mirrors_call:
  assumes "mirrors db st0" and "fresh_events (incoming_events c) st0"
  shows "mirrors (compacting_call kj pt c db) (plain_call kj c st0)"
  using assms mirrors_append [OF assms(1), of _ kj] mirrors_compact [OF assms(1)] mirrors_delete [OF assms(1)]
  by (cases c) (auto simp: fresh_events_def)

lemma mirrors_fold:
  "mirrors db st0 \<Longrightarrow> fresh_events (concat (map incoming_events cs)) st0 \<Longrightarrow>
     mirrors (fold (compacting_call kj pt) cs db) (fold (plain_call kj) cs st0)"
proof (induction cs arbitrary: db st0)
  case (Cons c cs)
  have here: "fresh_events (incoming_events c) st0" using Cons.prems(2) by (auto simp: fresh_events_def)
  have "fresh_events (concat (map incoming_events cs)) (plain_call kj c st0)"
  proof -
    let ?now = "set (map er_event_id (incoming_events c))"
      and ?later = "set (map er_event_id (concat (map incoming_events cs)))"
    have "distinct (map er_event_id (concat (map incoming_events cs)))" "?now \<inter> ?later = {}"
      "?later \<inter> event_ids st0 = {}"
      using Cons.prems(2)
      unfolding fresh_events_def list.map concat.simps map_append distinct_append set_append by blast+
    then show ?thesis using plain_call_ids [of kj c st0] unfolding fresh_events_def by blast
  qed
  from Cons.IH [OF mirrors_call [OF Cons.prems(1) here] this] show ?case by simp
qed simp

lemma mirrors_after:
  assumes "events_once cs"
  shows "mirrors (compacted_after kj pt sids cs) (plain_after kj sids cs)"
  unfolding compacted_after_def plain_after_def
proof (rule mirrors_fold)
  show "mirrors \<lparr>cd_store = empty_store sids, cd_scanned = Map.empty\<rparr> (empty_store sids)"
    using store_ok_empty [of sids] by (simp add: mirrors_def empty_store_def session_rows_def)
  show "fresh_events (concat (map incoming_events cs)) (empty_store sids)"
    using assms by (simp add: events_once_def fresh_events_def event_ids_def empty_store_def)
qed

lemma session_rows_session: "\<forall>r \<in> set (session_rows st sid). er_session_id (row_event r) = sid"
  by (simp add: session_rows_def)

section \<open>Readers from the start and from a cursor\<close>

lemma represents_after:
  assumes rep: "represents R L" and sorted: "sorted_wrt (<) (map row_sequence L)"
    and outside: "\<forall>r \<in> set R. row_sequence r \<le> c \<longrightarrow> \<not> is_some_and (row_compacted_through r) (\<lambda>n. c < n)"
  shows "represents (filter (\<lambda>r. c < row_sequence r) R) (filter (\<lambda>r. c < row_sequence r) L)"
proof -
  from rep obtain segs where L: "L = concat segs" and R: "R = map joined segs"
    and segs: "\<forall>seg \<in> set segs. segment seg" by (auto simp: represents_def)
  have cut: "filter (\<lambda>r. c < row_sequence r) seg = (if c < row_sequence (hd seg) then seg else [])"
    if seg: "seg \<in> set segs" for seg
  proof -
    obtain us vs where "segs = us @ seg # vs" using split_list [OF seg] by blast
    then have "map row_sequence L = map row_sequence (concat us) @ map row_sequence seg @ map row_sequence (concat vs)"
      by (simp add: L)
    with sorted have inc: "sorted_wrt (<) (map row_sequence seg)" by (simp only: sorted_wrt_append)
    obtain r rs where r: "seg = r # rs" using segs seg by (cases seg) (auto simp: segment_def)
    show ?thesis
    proof (cases "c < row_sequence r")
      case True
      then show ?thesis using inc by (auto simp: r filter_id_conv)
    next
      case False
      moreover have "row_sequence q \<le> c" if "q \<in> set rs" for q
      proof -
        have "\<not> is_some_and (row_compacted_through (joined seg)) (\<lambda>n. c < n)"
          using outside False seg by (auto simp: R r)
        then have "row_sequence (last seg) \<le> c"
          using joined_through [of seg] segs seg that by (auto simp: r)
        moreover have "row_sequence q \<le> row_sequence (last seg)"
        proof -
          have "seg \<noteq> []" "q \<in> set seg" using that by (auto simp: r)
          then have "q \<in> set (butlast seg) \<or> q = last seg"
            by (metis append_butlast_last_id in_set_conv_decomp set_ConsD set_append Un_iff empty_iff list.set(1))
          moreover have "map row_sequence seg = map row_sequence (butlast seg) @ [row_sequence (last seg)]"
            using \<open>seg \<noteq> []\<close> by (metis append_butlast_last_id list.simps(8,9) map_append)
          with inc have "\<forall>x \<in> set (map row_sequence (butlast seg)). x < row_sequence (last seg)"
            by (simp only: sorted_wrt_append) simp
          ultimately show ?thesis by (auto intro: less_imp_le)
        qed
        ultimately show ?thesis by simp
      qed
      ultimately show ?thesis by (auto simp: r filter_empty_conv not_less)
    qed
  qed
  let ?vis = "filter (\<lambda>seg. c < row_sequence (hd seg)) segs"
  have "filter (\<lambda>r. c < row_sequence r) L = concat ?vis"
    unfolding L using cut by (induction segs) auto
  moreover have "filter (\<lambda>r. c < row_sequence r) R = map joined ?vis"
    by (simp add: R filter_map comp_def)
  ultimately show ?thesis unfolding represents_def using segs by (metis filter_is_subset subset_code(1))
qed

lemma timeline_mirror:
  assumes "mirrors db st"
  shows "timeline (list_events_by_session (cd_store db) sid) sid = timeline (list_events_by_session st sid) sid"
  unfolding list_events_ok [OF mirrorsD(1) [OF assms]] list_events_ok [OF mirrorsD(2) [OF assms]]
  by (rule timeline_represents [OF mirrorsD(4) [OF assms] session_rows_session session_rows_session])

text \<open>
  C18: the compaction of streamed deltas is invisible: whatever events are appended, before,
  between and during its steps, and whenever histories are deleted, the timeline read from the
  compacted store is the timeline read from a store that was never compacted, and the highest
  sequence of every session is the same.
\<close>

theorem compaction_is_invisible:
  assumes "events_once cs"
  shows "timeline (list_events_by_session (cd_store (compacted_after kj pt sids cs)) sid) sid =
      timeline (list_events_by_session (plain_after kj sids cs) sid) sid \<and>
    last_event_sequence (cd_store (compacted_after kj pt sids cs)) sid =
      last_event_sequence (plain_after kj sids cs) sid"
  using timeline_mirror [OF mirrors_after [OF assms]] mirrorsD(5) [OF mirrors_after [OF assms]] by blast

text \<open>
  C19: a client that continues from a cursor never misses text: unless the endpoint tells it to
  reload, the events of the page, followed by what is still to be paged, stand for exactly the
  events after its cursor in the history as it was streamed.
\<close>

theorem cursor_never_misses_text:
  assumes "events_once cs"
    and "list_session_events_handler (cd_store (compacted_after kj pt sids cs)) sid (Some c) limit =
      Inr (EventPage events last_seq has_more)"
  shows "\<exists>rest. (\<not> has_more \<longrightarrow> rest = []) \<and>
    timeline (events @ rest) sid =
      timeline (filter (\<lambda>e. unat c < unat (er_sequence e)) (list_events_by_session (plain_after kj sids cs) sid)) sid \<and>
    last_seq = last_event_sequence (plain_after kj sids cs) sid"
proof -
  let ?db = "compacted_after kj pt sids cs" and ?st = "plain_after kj sids cs"
  note m = mirrors_after [OF assms(1), of kj pt sids]
  let ?R = "session_rows (cd_store ?db) sid" and ?L = "session_rows ?st sid"
  define n where "n = (case limit of None \<Rightarrow> SESSION_EVENTS_DEFAULT_LIMIT
                        | Some l \<Rightarrow> min (max l 1) SESSION_EVENTS_MAX_LIMIT)"
  from assms(2) obtain page where inside: "cursor_inside_compacted_run (cd_store ?db) sid c = Inr False"
    and page: "list_events_by_session_after (cd_store ?db) sid c (n + 1) = Inr page"
    and out: "events = take n page" "last_seq = last_event_sequence (cd_store ?db) sid" "has_more = (n < length page)"
    by (auto simp: list_session_events_handler_def Let_def n_def [symmetric] and_then_Inr_iff split: if_splits)
  let ?all = "map row_event (filter (\<lambda>r. unat c < row_sequence r) ?R)"
  have "sort_key row_sequence (filter (\<lambda>r. unat c < row_sequence r) ?R) = filter (\<lambda>r. unat c < row_sequence r) ?R"
    using strict_sorted_imp_sorted [OF store_ok_sorted [OF mirrorsD(1) [OF m], of sid]]
    by (intro sort_key_id_if_sorted) (simp add: sorted_map sorted_wrt_filter)
  then have page: "page = take (n + 1) ?all"
    using page by (auto simp: list_events_by_session_after_def split: if_splits)
  have "events @ drop n ?all = ?all" using out(1) page by (simp add: min_def)
  moreover have "\<not> has_more \<longrightarrow> drop n ?all = []" using out(3) page by simp
  moreover have "\<forall>r \<in> set ?R. row_sequence r \<le> unat c \<longrightarrow>
      \<not> is_some_and (row_compacted_through r) (\<lambda>k. unat c < k)"
    using inside by (auto simp: cursor_inside_compacted_run_def list_ex_iff split: if_splits)
  then have "represents (filter (\<lambda>r. unat c < row_sequence r) ?R) (filter (\<lambda>r. unat c < row_sequence r) ?L)"
    by (rule represents_after [OF mirrorsD(4) [OF m] store_ok_sorted [OF mirrorsD(2) [OF m]]])
  then have "timeline ?all sid = timeline (map row_event (filter (\<lambda>r. unat c < row_sequence r) ?L)) sid"
    by (rule timeline_represents) (auto simp: session_rows_def)
  moreover have "map row_event (filter (\<lambda>r. unat c < row_sequence r) ?L) =
      filter (\<lambda>e. unat c < unat (er_sequence e)) (list_events_by_session ?st sid)"
    by (simp add: list_events_ok [OF mirrorsD(2) [OF m]] filter_map comp_def row_sequence_def)
  ultimately show ?thesis using out(2) mirrorsD(5) [OF m, of sid] by (intro exI [of _ "drop n ?all"]) simp
qed

section \<open>The draining loop\<close>

lemma planned_deletes_multi: "[] \<notin> set bs \<Longrightarrow> planned_deletes (multi bs) + length bs = length (concat bs)"
proof (induction bs)
  case (Cons b bs)
  then show ?case by (cases b) auto
qed simp

lemma truncated_step_shrinks:
  assumes ok: "store_ok (cd_store db)"
    and step: "compact_session_deltas_step kj pt sid now max_deleted es es' db = (Inr step, db')" "more_work step"
  shows "store_ok (cd_store db') \<and>
    length (session_rows (cd_store db') sid) + max_deleted \<le>
      length (session_rows (cd_store db) sid) + (length es + length es')"
proof (cases rule: compact_step_cases [OF ok refl refl, where kj = kj and arrivals = es
      and arrivals' = es' and pt = pt and sid = sid and now = now and max_deleted = max_deleted])
  case 1
  then show ?thesis using step by (simp add: no_step_def)
next
  case (2 A bs C w truncated m)
  from step 2(1) have "truncated" "db' = db\<lparr>cd_store := w\<rparr>"
    by (auto simp: left_by_step_def Let_def split: if_splits)
  then show ?thesis using 2(3,7,13,15,16) planned_deletes_multi [OF 2(8)] by simp
qed

text \<open>
  C20: the pass over a session ends: as long as fewer events arrive during one step than the step
  is asked to delete (1000), the loop that repeats the step while it reports more work stops,
  whatever the clock shows.
\<close>

theorem drain_session_ends:
  assumes "store_ok (cd_store db)"
    and "\<And>j. length (fst (incoming j)) + length (snd (incoming j)) < ROWS_PER_STEP"
  shows "\<exists>result. drain_session kj pt sid clock incoming i db = Some result"
  using assms(1)
proof (induction "length (session_rows (cd_store db) sid)" arbitrary: db i rule: less_induct)
  case less
  obtain out db' where step: "compact_session_deltas_step kj pt sid (clock i) ROWS_PER_STEP
      (fst (incoming i)) (snd (incoming i)) db = (out, db')" by fastforce
  show ?case
  proof (cases "\<exists>step. out = Inr step \<and> more_work step")
    case True
    then obtain st where st: "out = Inr st" "more_work st" by blast
    from truncated_step_shrinks [OF less.prems step [unfolded st(1)] st(2)]
    have "store_ok (cd_store db')" "length (session_rows (cd_store db') sid) < length (session_rows (cd_store db) sid)"
      using assms(2) [of i] by auto
    from less.hyps [OF this(2,1), of "i + 1"] show ?thesis
      unfolding drain_session.simps [of kj pt sid clock incoming i db] step using st by simp
  next
    case False
    then show ?thesis
      unfolding drain_session.simps [of kj pt sid clock incoming i db] step by (auto split: sum.splits)
  qed
qed

section \<open>A compacted history\<close>

definition sample_event :: "nat \<Rightarrow> session_event_kind \<Rightarrow> session_event_record" where
  "sample_event n k =
     \<lparr>er_event_id = [n], er_session_id = SessionId [1], er_sequence = 0, er_occurred_at = [50], er_kind = k\<rparr>"

definition sample_calls :: "history_call list" where
  "sample_calls =
     [AppendEvent (sample_event 1 (TurnDelta (TurnId [7]) [72, 101])),
      AppendEvent (sample_event 2 (TurnDelta (TurnId [7]) [121])),
      AppendEvent (sample_event 3 (TurnCompleted (TurnId [7]))),
      CompactDeltas (SessionId [1]) 1000000000000000 1000 [] [sample_event 4 SessionCompleted]]"

definition sample_row :: "nat \<Rightarrow> session_event_kind \<Rightarrow> ev_row" where
  "sample_row n k = plain_row (sample_event n k) n"

lemma sample_rows_simps [simp]:
  "row_event (sample_row n k) = (sample_event n k)\<lparr>er_sequence := word_of_nat n\<rparr>"
  "er_session_id (sample_event n k) = SessionId [1]" "er_event_id (sample_event n k) = [n]"
  "er_kind (sample_event n k) = k" "er_occurred_at (sample_event n k) = [50]"
  "row_terminal_turn_id (sample_row n k) = map_option fst (terminal_metadata k)"
  "row_compacted_through (sample_row n k) = None"
  "n < 2 ^ 63 \<Longrightarrow> row_sequence (sample_row n k) = n"
  by (simp_all add: sample_row_def row_sequence_plain_row) (simp_all add: plain_row_def sample_event_def)

definition sample_store :: "ev_row list \<Rightarrow> event_store" where
  "sample_store rs = \<lparr>st_rows = rs, st_sessions = [SessionId [1]]\<rparr>"

abbreviation sample_rows :: "ev_row list" where
  "sample_rows \<equiv> [sample_row 1 (TurnDelta (TurnId [7]) [72, 101]), sample_row 2 (TurnDelta (TurnId [7]) [121]),
     sample_row 3 (TurnCompleted (TurnId [7])), sample_row 4 SessionCompleted]"

lemma sample_appends:
  "snd (append_event no_json (sample_store []) (sample_event 1 (TurnDelta (TurnId [7]) [72, 101]))) =
     sample_store (take 1 sample_rows)"
  "snd (append_event no_json (sample_store (take 1 sample_rows)) (sample_event 2 (TurnDelta (TurnId [7]) [121]))) =
     sample_store (take 2 sample_rows)"
  "snd (append_event no_json (sample_store (take 2 sample_rows)) (sample_event 3 (TurnCompleted (TurnId [7])))) =
     sample_store (take 3 sample_rows)"
  "snd (append_event no_json (sample_store (take 3 sample_rows)) (sample_event 4 SessionCompleted)) =
     sample_store sample_rows"
  by (simp_all add: append_fresh refuses_def last_event_sequence_def session_rows_def terminal_metadata_def
      sample_store_def) (simp_all add: sample_row_def eval_nat_numeral)

text \<open>The two deltas of the settled turn have become one row, which absorbed sequence 2.\<close>

definition sample_merged :: ev_row where
  "sample_merged = merged_row (take 2 sample_rows) [72, 101, 121] (hd sample_rows)"

lemma sample_compacted:
  "compacted_after no_json (\<lambda>_. Some 0) [SessionId [1]] sample_calls =
     \<lparr>cd_store = sample_store (sample_merged # drop 2 sample_rows), cd_scanned = [SessionId [1] \<mapsto> 3]\<rparr>"
proof -
  let ?db = "\<lparr>cd_store = sample_store (take 3 sample_rows), cd_scanned = Map.empty\<rparr>"
  have store: "empty_store [SessionId [1]] = sample_store []" by (simp add: empty_store_def sample_store_def)
  have "compacted_after no_json (\<lambda>_. Some 0) [SessionId [1]] sample_calls =
      snd (compact_session_deltas_step no_json (\<lambda>_. Some 0) (SessionId [1]) 1000000000000000 1000 []
        [sample_event 4 SessionCompleted] ?db)"
    by (simp only: compacted_after_def sample_calls_def store fold_simps compacting_call.simps
        compaction_db.simps sample_appends)
  also have "\<dots> = \<lparr>cd_store = sample_store (sample_merged # drop 2 sample_rows), cd_scanned = [SessionId [1] \<mapsto> 3]\<rparr>"
  proof -
    have rows: "rows_after (sample_store (take 3 sample_rows)) (SessionId [1]) 0 = take 3 sample_rows"
      by (simp add: rows_after_def session_rows_def sample_store_def)
    have "scan_groups (mergeable (\<lambda>_. Some 0) 1000000000000000 (sample_store (take 3 sample_rows)) (SessionId [1]))
        1000 (take 3 sample_rows) None 0 [] = ([(take 2 sample_rows, [72, 101, 121])], False)"
      by (simp add: mergeable_def terminal_row_of_def session_rows_def delta_target_def settled_def settled_at_def
          terminal_metadata_def DELTA_COMPACTION_SETTLE_MINUTES_def MERGED_CONTENT_MAX_BYTES_def utf8_len_def
          flush_def sample_store_def)
    moreover have "scan_boundary (\<lambda>_. Some 0) 1000000000000000 (sample_store (take 3 sample_rows)) (SessionId [1])
        (take 3 sample_rows) = 3"
      by (simp add: scan_boundary_def settled_def settled_at_def terminal_row_of_def session_rows_def
          terminal_metadata_def DELTA_COMPACTION_SETTLE_MINUTES_def sample_store_def)
    moreover have "write_group no_json (take 2 sample_rows, [72, 101, 121]) (sample_store sample_rows) =
        Some (sample_store (sample_merged # drop 2 sample_rows))"
      by (simp add: write_group_def same_row_def sample_store_def sample_merged_def no_json_def)
    ultimately show ?thesis
      by (simp only: compact_session_deltas_step_def Let_def scanned_through_def compaction_db.simps
          option.case arrive_simps sample_appends rows prod.case)
        (simp add: sample_store_def)
  qed
  finally show ?thesis .
qed

lemma sample_once: "events_once sample_calls"
  by (simp add: events_once_def sample_calls_def)

theorem compaction_is_invisible_witness:
  "length (st_rows (cd_store (compacted_after no_json (\<lambda>_. Some 0) [SessionId [1]] sample_calls))) = 3 \<and>
   timeline (list_events_by_session
     (cd_store (compacted_after no_json (\<lambda>_. Some 0) [SessionId [1]] sample_calls)) (SessionId [1])) (SessionId [1]) =
   timeline (list_events_by_session (plain_after no_json [SessionId [1]] sample_calls) (SessionId [1])) (SessionId [1])"
  by (intro conjI compaction_is_invisible [OF sample_once, THEN conjunct1])
    (unfold sample_compacted, simp add: sample_store_def)

theorem cursor_never_misses_text_witness:
  "\<exists>rest. timeline (map row_event (drop 2 sample_rows) @ rest) (SessionId [1]) =
     timeline (filter (\<lambda>e. unat (2 :: u64) < unat (er_sequence e))
       (list_events_by_session (plain_after no_json [SessionId [1]] sample_calls) (SessionId [1]))) (SessionId [1])"
proof -
  have "list_session_events_handler (cd_store (compacted_after no_json (\<lambda>_. Some 0) [SessionId [1]] sample_calls))
      (SessionId [1]) (Some 2) None =
    Inr (EventPage (map row_event (drop 2 sample_rows)) 4 False)"
    unfolding sample_compacted
    by (simp add: list_session_events_handler_def cursor_inside_compacted_run_def
        list_events_by_session_after_def session_rows_def sample_store_def sample_merged_def
        SESSION_EVENTS_DEFAULT_LIMIT_def last_event_sequence_def)
      (simp add: merged_row_def)
  from cursor_never_misses_text [OF sample_once this] show ?thesis by auto
qed

theorem drain_session_ends_witness:
  "\<exists>result. drain_session no_json (\<lambda>_. Some 0) (SessionId [1]) (\<lambda>_. 1000000000000000) (\<lambda>_. ([], [])) 0
     \<lparr>cd_store = empty_store [SessionId [1]], cd_scanned = Map.empty\<rparr> = Some result"
  by (rule drain_session_ends) (use store_ok_empty in \<open>simp_all add: empty_store_def ROWS_PER_STEP_def\<close>)

end
