(* ===== verification/Timeline_Conversation.thy ===== *)
theory Timeline_Conversation
  imports Timeline_Rendered Delta_Readers
begin

text \<open>
  The properties of a conversation (\<open>project_session\<close>): it is the same whether its history was
  compacted or not, its rows stay well formed, and no text of a turn is lost.
\<close>

section \<open>A sample turn\<close>

definition sample_turn :: "session_event_kind list \<Rightarrow> timeline_event list" where
  "sample_turn kinds = map (\<lambda>k. \<lparr>tl_kind = k, tl_occurred_at = [50]\<rparr>) kinds"

definition two_messages :: "timeline_event list" where
  "two_messages = sample_turn
     [TurnAssistantMessageDelta (TurnId [7]) [1] [104, 109, 109],
      TurnAssistantMessageStarted (TurnId [7]) [2] FinalAnswer,
      TurnCompleted (TurnId [7])]"

text \<open>A message that only completes, followed by reasoning of the same turn.\<close>

definition completed_only :: "timeline_event list" where
  "completed_only = sample_turn
     [TurnStarted (TurnId [7]) [103, 111] None None None None None,
      TurnAssistantMessageCompleted (TurnId [7]) [1] FinalAnswer (Some [104, 109, 109]),
      TurnReasoningStarted (TurnId [7]) [3] None,
      TurnReasoningCompleted (TurnId [7]) [3],
      TurnCompleted (TurnId [7])]"

lemmas event_steps =
  project_from_def sample_turn_def apply_timeline_event_def Let_def new_projector_def
  on_turn_started_def on_message_started_def on_message_delta_def on_message_completed_def
  on_reasoning_started_def on_reasoning_completed_def on_turn_completed_def ensure_assistant_item_def
  ensure_assistant_def started_at_def push_row_def update_turn_messages_def turn_messages_def add_turn_row_def
  make_current_def mark_active_def update_row_def row_at_def option_or_def is_running_def complete_item_def
  lifecycle_item_def filter_opt_def break_text_def note_on_bucket_def annotate_def upsert_annotation_def
  on_bucket_def update_annotations_def update_rows_def rows_of_turn_def assistant_message_def new_message_def
  stop_row_def same_kind_id_def

lemma two_messages_row:
  "assistant_row (tp_messages (project_from two_messages (new_projector (SessionId [1])))) (TurnId [7]) 0"
  "tm_content (row_at 0 (project_from two_messages (new_projector (SessionId [1])))) = [104, 109, 109]"
  by (simp_all add: two_messages_def event_steps assistant_row_def)

text \<open>
  The turn of \<open>completed_only\<close> has ended, but it shows two assistant rows with the same id, and
  the second goes on streaming: the row of loose events is not among the turn's rows.
\<close>

lemma completed_only_splits_turn:
  "map (\<lambda>m. (tm_id m, tm_streaming m, tm_turn_settled m))
     (filter (\<lambda>m. tm_role m = AssistantRole) (project (\<lambda>_. True) completed_only (SessionId [1]))) =
   [(assistant_row_id (SessionId [1]) (TurnId [7]), False, True),
    (assistant_row_id (SessionId [1]) (TurnId [7]), True, True)]"
  by (simp add: completed_only_def event_steps project_def finish_def apply_turn_model_def turn_times_def
    settled_turn_def fold_assistant_turns_def fold_turn_def terminal_row_def place_delegations_after_their_turn_def)

text \<open>
  A permission request is answered after the next message of its turn has started: the answer is
  looked for on the new message only, so the request still waits for a decision.
\<close>

definition answered_late :: "timeline_event list" where
  "answered_late = sample_turn
     [TurnPermissionRequested (TurnId [7]) [9] [66] None None None None,
      TurnAssistantMessageStarted (TurnId [7]) [2] FinalAnswer,
      TurnPermissionResolved (TurnId [7]) [9] [97]]"

lemma answered_request_stays_pending:
  "map annotation_id (pending_permission_requests (project (\<lambda>_. True) answered_late (SessionId [1]))) = [[9]]"
  by (simp add: answered_late_def event_steps project_def finish_def apply_turn_model_def turn_times_def
    settled_turn_def fold_assistant_turns_def fold_turn_def terminal_row_def place_delegations_after_their_turn_def
    fold_row_def blank_iff pending_permission_requests_def merge_annotation_def is_some_and_def)

section \<open>The properties\<close>

text \<open>
  C21: the conversation of a session does not depend on how its history is stored: read from a
  store that compacts, with its deltas joined into runs, it is the conversation obtained by
  folding, one by one, the events of a store that never compacts.
\<close>

theorem conversation_survives_compaction:
  assumes "events_once cs"
  shows "project_session alphanumeric
      (list_events_by_session (cd_store (compacted_after kj pt sids cs)) sid) sid =
    finish alphanumeric (project_from
      (map plain_event (visible_session_events (filter (\<lambda>e. er_session_id e = sid)
        (list_events_by_session (plain_after kj sids cs) sid)))) (new_projector sid))"
  unfolding project_session_def project_def timeline_mirror [OF mirrors_after [OF assms]]
  by (simp add: timeline_def project_from_compact_runs)

theorem conversation_survives_compaction_witness:
  "length (st_rows (cd_store (compacted_after no_json (\<lambda>_. Some 0) [SessionId [1]] sample_calls))) <
     length (st_rows (plain_after no_json [SessionId [1]] sample_calls)) \<and>
   project_session (\<lambda>_. True)
      (list_events_by_session (cd_store (compacted_after no_json (\<lambda>_. Some 0) [SessionId [1]] sample_calls))
        (SessionId [1])) (SessionId [1]) =
    finish (\<lambda>_. True) (project_from
      (map plain_event (visible_session_events (filter (\<lambda>e. er_session_id e = SessionId [1])
        (list_events_by_session (plain_after no_json [SessionId [1]] sample_calls) (SessionId [1])))))
      (new_projector (SessionId [1])))"
proof
  have "plain_after no_json [SessionId [1]] sample_calls = sample_store sample_rows"
  proof -
    have store: "empty_store [SessionId [1]] = sample_store []" by (simp add: empty_store_def sample_store_def)
    show ?thesis
      by (simp only: plain_after_def sample_calls_def store fold_simps plain_call.simps arrive_simps
          append.simps sample_appends)
  qed
  then show "length (st_rows (cd_store (compacted_after no_json (\<lambda>_. Some 0) [SessionId [1]] sample_calls))) <
     length (st_rows (plain_after no_json [SessionId [1]] sample_calls))"
    unfolding sample_compacted by (simp add: sample_store_def)
qed (rule conversation_survives_compaction [OF sample_once])

text \<open>
  C22: whatever events a session has, the projection's rows are well formed: every position kept
  for a turn lies in the list of rows and is an assistant row of that turn, every position kept
  for a delegation is its card, each turn is listed once with distinct rows, and no two rows of a
  turn carry the same id. So no event writes to a row of another turn, and none indexes past the
  end.
\<close>

theorem rows_stay_well_formed:
  "rows_ok (project_from events (new_projector sid))"
  by (rule rows_ok_project_from [OF rows_ok_new])

text \<open>
  C23: no text of a turn is lost at the end of the fold: every assistant row with text is shown
  in a row of its turn, as that row's text or as commentary in its activity.
\<close>

theorem no_text_is_lost:
  assumes "assistant_row (tp_messages (project_from events (new_projector sid))) t i"
    and "\<not> blank (tm_content (row_at i (project_from events (new_projector sid))))"
  shows "\<exists>m \<in> set (project alphanumeric events sid).
    shows_text m (row_at i (project_from events (new_projector sid)))"
  unfolding project_def
  by (rule finish_shows_text [OF rows_ok_project_from [OF rows_ok_new] assms])

theorem no_text_is_lost_witness:
  "tm_content (row_at 0 (project_from two_messages (new_projector (SessionId [1])))) = [104, 109, 109] \<and>
   (\<exists>m \<in> set (project (\<lambda>_. True) two_messages (SessionId [1])).
      shows_text m (row_at 0 (project_from two_messages (new_projector (SessionId [1])))))"
  using two_messages_row(2)
  by (intro conjI no_text_is_lost [OF two_messages_row(1)]) (simp_all add: blank_iff is_whitespace_def)

end
