(* ===== verification/Merge_Hunks.thy ===== *)
theory Merge_Hunks
  imports Rust_Prelude
begin

text \<open>
  The conflict blocks of a file (\<open>domain/merge_conflict/hunks.rs\<close>): its lines with their own
  endings, the blocks between the markers, and a block replaced by one side, the other or both.
  Offsets count bytes; a slice between two of them is taken at character boundaries, as all
  offsets here are.
\<close>

section \<open>Byte offsets\<close>

fun drop_bytes :: "nat \<Rightarrow> rstr \<Rightarrow> rstr" where
  "drop_bytes n [] = []"
| "drop_bytes n (c # s) = (if n = 0 then c # s else drop_bytes (n - utf8_len c) s)"

fun take_bytes :: "nat \<Rightarrow> rstr \<Rightarrow> rstr" where
  "take_bytes n [] = []"
| "take_bytes n (c # s) = (if n = 0 then [] else c # take_bytes (n - utf8_len c) s)"

definition byte_slice :: "rstr \<Rightarrow> nat \<Rightarrow> nat \<Rightarrow> rstr" where
  "byte_slice s a b = take_bytes (b - a) (drop_bytes a s)"

lemma drop_bytes_0 [simp]: "drop_bytes 0 s = s"
  by (cases s) simp_all

lemma take_bytes_0 [simp]: "take_bytes 0 s = []"
  by (cases s) simp_all

lemma drop_bytes_append [simp]: "drop_bytes (byte_len p) (p @ s) = s"
  by (induction p) simp_all

lemma take_bytes_append [simp]: "take_bytes (byte_len p) (p @ s) = p"
  by (induction p) simp_all

lemma byte_slice_middle: "byte_slice (p @ m @ s) (byte_len p) (byte_len p + byte_len m) = m"
  by (simp add: byte_slice_def)

section \<open>Lines\<close>

record source_line =
  sl_start :: nat
  sl_end :: nat
  sl_body :: rstr
  sl_ending :: rstr

definition line_break :: "uchar \<Rightarrow> bool" where
  "line_break c \<longleftrightarrow> c = 10 \<or> c = 13"

definition ending_of :: "rstr \<Rightarrow> rstr" where
  "ending_of rest =
     (case rest of
        [] \<Rightarrow> []
      | c # cs \<Rightarrow> (case cs of [] \<Rightarrow> [c] | d # ds \<Rightarrow> if c = 13 \<and> d = 10 then [c, d] else [c]))"

lemma line_advances:
  assumes "s \<noteq> []"
  shows "0 < length (takeWhile (\<lambda>c. \<not> line_break c) s) + length (ending_of (dropWhile (\<lambda>c. \<not> line_break c) s))"
  using assms by (cases s) (auto simp: ending_of_def split: list.splits)

function source_lines_from :: "nat \<Rightarrow> rstr \<Rightarrow> source_line list" where
  "source_lines_from start s =
     (if s = [] then []
      else let body = takeWhile (\<lambda>c. \<not> line_break c) s;
               ending = ending_of (dropWhile (\<lambda>c. \<not> line_break c) s);
               stop = start + byte_len (body @ ending)
           in \<lparr>sl_start = start, sl_end = stop, sl_body = body, sl_ending = ending\<rparr> #
              source_lines_from stop (drop (length body + length ending) s))"
  by pat_completeness auto

termination
  by (relation "measure (\<lambda>(_, s). length s)") (auto intro!: diff_less line_advances)

declare source_lines_from.simps [simp del]

definition source_lines :: "rstr \<Rightarrow> source_line list" where
  "source_lines source = source_lines_from 0 source"

section \<open>Markers\<close>

definition is_marker :: "rstr \<Rightarrow> uchar \<Rightarrow> bool \<Rightarrow> bool" where
  "is_marker body mark labelled \<longleftrightarrow>
     (let run = length (takeWhile (\<lambda>c. c = mark) body); rest = drop run body
      in 7 \<le> run \<and> (rest = [] \<or> labelled \<and> starts_with rest [32]))"

definition is_start :: "rstr \<Rightarrow> bool" where "is_start body = is_marker body 60 True"
definition is_base :: "rstr \<Rightarrow> bool" where "is_base body = is_marker body 124 True"
definition is_separator :: "rstr \<Rightarrow> bool" where "is_separator body = is_marker body 61 False"
definition is_end :: "rstr \<Rightarrow> bool" where "is_end body = is_marker body 62 True"

definition marker_label :: "rstr \<Rightarrow> rstr option" where
  "marker_label body =
     Option.bind (position (\<lambda>c. c = 32) body) (\<lambda>space.
       let label = trim (drop (space + 1) body) in if label \<noteq> [] then Some label else None)"

definition slice_lines :: "rstr \<Rightarrow> source_line list \<Rightarrow> nat \<Rightarrow> nat \<Rightarrow> rstr" where
  "slice_lines source lines start stop =
     (if start \<ge> stop then [] else byte_slice source (sl_start (lines ! start)) (sl_end (lines ! (stop - 1))))"

section \<open>Blocks\<close>

record conflict_hunk =
  ch_id :: rstr
  ch_start_offset :: nat
  ch_end_offset :: nat
  ch_start_line :: nat
  ch_end_line :: nat
  ch_current_label :: "rstr option"
  ch_incoming_label :: "rstr option"
  ch_current_text :: rstr
  ch_base_text :: "rstr option"
  ch_incoming_text :: rstr
  ch_line_ending :: rstr

text \<open>\<open>while cursor < lines.len() && !stop(lines[cursor].body)\<close>.\<close>

function scan_to :: "(rstr \<Rightarrow> bool) \<Rightarrow> source_line list \<Rightarrow> nat \<Rightarrow> nat" where
  "scan_to stop lines cursor =
     (if cursor < length lines \<and> \<not> stop (sl_body (lines ! cursor)) then scan_to stop lines (cursor + 1)
      else cursor)"
  by pat_completeness auto
termination by (relation "measure (\<lambda>(_, lines, cursor). length lines - cursor)") auto

declare scan_to.simps [simp del]

text \<open>The end of the current side, the base lines, the start of the incoming side and the end marker.\<close>

definition read_block :: "source_line list \<Rightarrow> nat \<Rightarrow> (nat \<times> (nat \<times> nat) option \<times> nat \<times> nat) option" where
  "read_block lines index =
     (let current_end = scan_to (\<lambda>b. is_base b \<or> is_separator b) lines (index + 1)
      in if current_end \<ge> length lines then None
         else let based = is_base (sl_body (lines ! current_end));
                  cursor = (if based then scan_to is_separator lines (current_end + 1) else current_end)
              in if cursor \<ge> length lines then None
                 else let stop = scan_to is_end lines (cursor + 1)
                      in if stop \<ge> length lines then None
                         else Some (current_end, if based then Some (current_end + 1, cursor) else None,
                                    cursor + 1, stop))"

definition block_hunk ::
    "rstr \<Rightarrow> source_line list \<Rightarrow> nat \<Rightarrow> nat \<times> (nat \<times> nat) option \<times> nat \<times> nat \<Rightarrow> conflict_hunk" where
  "block_hunk source lines index = (\<lambda>(current_end, base, incoming_start, cursor).
     let start_line = lines ! index; end_marker = lines ! cursor
     in \<lparr>ch_id = dec (sl_start start_line) @ lit '':'' @ dec (sl_end end_marker),
         ch_start_offset = sl_start start_line, ch_end_offset = sl_end end_marker,
         ch_start_line = index + 1, ch_end_line = cursor + 1,
         ch_current_label = marker_label (sl_body start_line),
         ch_incoming_label = marker_label (sl_body end_marker),
         ch_current_text = slice_lines source lines (index + 1) current_end,
         ch_base_text = map_option (\<lambda>(a, b). slice_lines source lines a b) base,
         ch_incoming_text = slice_lines source lines incoming_start cursor,
         ch_line_ending = (if sl_ending start_line = [] then [10] else sl_ending start_line)\<rparr>)"

lemma scan_to_ge: "cursor \<le> scan_to stop lines cursor"
  by (induction stop lines cursor rule: scan_to.induct) (subst scan_to.simps, auto)

lemma read_block_after: "read_block lines index = Some (e, b, i, c) \<Longrightarrow> index < c \<and> c < length lines"
  using scan_to_ge [of "index + 1" "\<lambda>b. is_base b \<or> is_separator b" lines]
  by (auto simp: read_block_def Let_def split: if_splits)
    (meson Suc_le_lessD le_trans scan_to_ge less_le_trans lessI less_imp_le Suc_leD)+

function parse_from :: "rstr \<Rightarrow> source_line list \<Rightarrow> nat \<Rightarrow> conflict_hunk list" where
  "parse_from source lines index =
     (if index \<ge> length lines then []
      else if \<not> is_start (sl_body (lines ! index)) then parse_from source lines (index + 1)
      else case read_block lines index of
             None \<Rightarrow> parse_from source lines (index + 1)
           | Some (e, b, i, c) \<Rightarrow> block_hunk source lines index (e, b, i, c) # parse_from source lines (c + 1))"
  by pat_completeness auto
termination
  by (relation "measure (\<lambda>(_, lines, index). length lines - index)") (auto dest: read_block_after)

declare parse_from.simps [simp del]

definition parse_conflict_hunks :: "rstr \<Rightarrow> conflict_hunk list" where
  "parse_conflict_hunks source = parse_from source (source_lines source) 0"

definition has_conflict_marker_fragments :: "rstr \<Rightarrow> bool" where
  "has_conflict_marker_fragments source \<longleftrightarrow>
     list_ex (\<lambda>l. is_start (sl_body l) \<or> is_base (sl_body l) \<or> is_separator (sl_body l) \<or> is_end (sl_body l))
       (source_lines source)"

section \<open>Resolutions\<close>

datatype conflict_resolution = ResolveCurrent | ResolveIncoming | ResolveBoth

definition ends_line :: "rstr \<Rightarrow> bool" where
  "ends_line s \<longleftrightarrow> s \<noteq> [] \<and> line_break (last s)"

definition combine_both :: "conflict_hunk \<Rightarrow> rstr" where
  "combine_both hunk =
     (if ch_current_text hunk = [] then ch_incoming_text hunk
      else if ch_incoming_text hunk = [] then ch_current_text hunk
      else let separator = (\<not> ends_line (ch_current_text hunk) \<and> \<not> line_break (hd (ch_incoming_text hunk)))
           in ch_current_text hunk @ (if separator then ch_line_ending hunk else []) @ ch_incoming_text hunk)"

definition apply_conflict_replacement :: "rstr \<Rightarrow> conflict_hunk \<Rightarrow> rstr \<Rightarrow> rstr" where
  "apply_conflict_replacement source hunk replacement =
     take_bytes (ch_start_offset hunk) source @ replacement @ drop_bytes (ch_end_offset hunk) source"

definition apply_conflict_resolution :: "rstr \<Rightarrow> conflict_hunk \<Rightarrow> conflict_resolution \<Rightarrow> rstr" where
  "apply_conflict_resolution source hunk resolution =
     apply_conflict_replacement source hunk
       (case resolution of
          ResolveCurrent \<Rightarrow> ch_current_text hunk
        | ResolveIncoming \<Rightarrow> ch_incoming_text hunk
        | ResolveBoth \<Rightarrow> combine_both hunk)"

end
