(* ===== verification/Merge_Rendered.thy ===== *)
theory Merge_Rendered
  imports Merge_Hunks
begin

text \<open>
  What the conflict blocks of a file are: for any source, the text between the markers, cut out at
  the offsets the blocks carry; and for a file as Git writes it, exactly the conflicts it has.
\<close>

section \<open>The lines of any source\<close>

definition line_text :: "source_line \<Rightarrow> rstr" where
  "line_text l = sl_body l @ sl_ending l"

definition lines_text :: "source_line list \<Rightarrow> rstr" where
  "lines_text ls = concat (map line_text ls)"

lemma lines_text_simps [simp]:
  "lines_text [] = []" "lines_text (l # ls) = line_text l @ lines_text ls"
  "lines_text (ls @ ms) = lines_text ls @ lines_text ms"
  by (simp_all add: lines_text_def)

fun positioned :: "nat \<Rightarrow> source_line list \<Rightarrow> bool" where
  "positioned k [] = True"
| "positioned k (l # ls) \<longleftrightarrow> sl_start l = k \<and> sl_end l = k + byte_len (line_text l) \<and> positioned (sl_end l) ls"

lemma ending_of_split: "\<exists>rest. s = ending_of s @ rest"
  by (auto simp: ending_of_def split: list.splits)

lemma source_lines_from_ok:
  "positioned k (source_lines_from k s) \<and> lines_text (source_lines_from k s) = s"
proof (induction k s rule: source_lines_from.induct)
  case (1 k s)
  show ?case
  proof (cases "s = []")
    case True
    then show ?thesis by (simp add: source_lines_from.simps)
  next
    case False
    define body where "body = takeWhile (\<lambda>c. \<not> line_break c) s"
    define ending where "ending = ending_of (dropWhile (\<lambda>c. \<not> line_break c) s)"
    obtain rest where rest: "dropWhile (\<lambda>c. \<not> line_break c) s = ending @ rest"
      using ending_of_split unfolding ending_def by blast
    then have s: "s = body @ ending @ rest" unfolding body_def by (metis takeWhile_dropWhile_id)
    then have "drop (length body + length ending) s = rest" by simp
    moreover have "source_lines_from k s =
        \<lparr>sl_start = k, sl_end = k + byte_len (body @ ending), sl_body = body, sl_ending = ending\<rparr> #
        source_lines_from (k + byte_len (body @ ending)) (drop (length body + length ending) s)"
      using False by (subst source_lines_from.simps) (simp add: body_def ending_def Let_def)
    moreover note "1.IH" [OF False body_def ending_def refl]
    ultimately show ?thesis using s by (simp add: line_text_def)
  qed
qed

lemma positioned_nth:
  "positioned k ls \<Longrightarrow> i < length ls \<Longrightarrow>
     sl_start (ls ! i) = k + byte_len (lines_text (take i ls)) \<and>
     sl_end (ls ! i) = k + byte_len (lines_text (take (Suc i) ls))"
proof (induction ls arbitrary: k i)
  case (Cons l ls)
  then show ?case by (cases i) auto
qed simp

lemma source_lines_nth:
  assumes "i < length (source_lines s)"
  shows "sl_start (source_lines s ! i) = byte_len (lines_text (take i (source_lines s)))"
    "sl_end (source_lines s ! i) = byte_len (lines_text (take (Suc i) (source_lines s)))"
  using positioned_nth [of 0 "source_lines s" i] source_lines_from_ok [of 0 s] assms
  by (simp_all add: source_lines_def)

lemma source_lines_text: "lines_text (source_lines s) = s"
  using source_lines_from_ok [of 0 s] by (simp add: source_lines_def)

lemma lines_text_between:
  assumes "a \<le> b" "b \<le> length ls"
  shows "lines_text ls = lines_text (take a ls) @ lines_text (take (b - a) (drop a ls)) @ lines_text (drop b ls)"
proof -
  have "ls = take a ls @ take (b - a) (drop a ls) @ drop b ls"
    using assms by (metis append_take_drop_id drop_drop le_add_diff_inverse2)
  then show ?thesis by (metis lines_text_simps(3))
qed

lemma take_take_drop: "a \<le> b \<Longrightarrow> take a ls @ take (b - a) (drop a ls) = take b ls"
  by (metis le_add_diff_inverse take_add)

lemma slice_lines_text:
  assumes "a \<le> b" "b \<le> length (source_lines s)"
  shows "slice_lines s (source_lines s) a b = lines_text (take (b - a) (drop a (source_lines s)))"
proof (cases "a = b")
  case True
  then show ?thesis by (simp add: slice_lines_def)
next
  case False
  let ?ls = "source_lines s"
  have "byte_len (lines_text (take b ?ls)) =
      byte_len (lines_text (take a ?ls)) + byte_len (lines_text (take (b - a) (drop a ?ls)))"
    using arg_cong [OF take_take_drop [OF assms(1), of ?ls], of "\<lambda>x. byte_len (lines_text x)"] by simp
  then show ?thesis
    using False assms lines_text_between [OF assms] source_lines_nth [of a s] source_lines_nth [of "b - 1" s]
      byte_slice_middle [of "lines_text (take a ?ls)" "lines_text (take (b - a) (drop a ?ls))"
        "lines_text (drop b ?ls)"] source_lines_text [of s]
    by (simp add: slice_lines_def)
qed

text \<open>Every line but the last ends with a line break.\<close>

lemma source_lines_ending:
  "Suc i < length (source_lines_from k s) \<Longrightarrow> ends_line (line_text (source_lines_from k s ! i))"
proof (induction k s arbitrary: i rule: source_lines_from.induct)
  case (1 k s)
  then have ne: "s \<noteq> []" by (auto simp: source_lines_from.simps)
  define body where "body = takeWhile (\<lambda>c. \<not> line_break c) s"
  define ending where "ending = ending_of (dropWhile (\<lambda>c. \<not> line_break c) s)"
  have eq: "source_lines_from k s =
      \<lparr>sl_start = k, sl_end = k + byte_len (body @ ending), sl_body = body, sl_ending = ending\<rparr> #
      source_lines_from (k + byte_len (body @ ending)) (drop (length body + length ending) s)"
    using ne by (subst source_lines_from.simps) (simp add: body_def ending_def Let_def)
  show ?case
  proof (cases i)
    case (Suc j)
    then show ?thesis using "1.IH" [OF ne body_def ending_def refl, of j] "1.prems" unfolding eq by simp
  next
    case 0
    then have "source_lines_from (k + byte_len (body @ ending)) (drop (length body + length ending) s) \<noteq> []"
      using "1.prems" unfolding eq by auto
    then have "drop (length body + length ending) s \<noteq> []" by (auto simp: source_lines_from.simps)
    then have "dropWhile (\<lambda>c. \<not> line_break c) s \<noteq> []"
      unfolding body_def by (metis append_Nil2 drop_all le_add1 takeWhile_dropWhile_id)
    then obtain c cs where c: "dropWhile (\<lambda>c. \<not> line_break c) s = c # cs" by (meson neq_Nil_conv)
    then have "line_break c" using hd_dropWhile [of "\<lambda>c. \<not> line_break c" s] by simp
    then have "ending \<noteq> [] \<and> line_break (last ending)"
      using c by (auto simp: ending_def ending_of_def line_break_def split: list.splits)
    then show ?thesis unfolding eq using 0 by (simp add: line_text_def ends_line_def)
  qed
qed

section \<open>The blocks of any source\<close>

lemma parse_from_mem:
  assumes "h \<in> set (parse_from s ls i)"
  shows "\<exists>idx e b inc c. idx < length ls \<and> is_start (sl_body (ls ! idx)) \<and>
    read_block ls idx = Some (e, b, inc, c) \<and> h = block_hunk s ls idx (e, b, inc, c)"
  using assms
proof (induction s ls i rule: parse_from.induct)
  case (1 s ls i)
  consider "i \<ge> length ls" | "i < length ls" "\<not> is_start (sl_body (ls ! i))"
    | "i < length ls" "is_start (sl_body (ls ! i))" "read_block ls i = None"
    | e b inc c where "i < length ls" "is_start (sl_body (ls ! i))" "read_block ls i = Some (e, b, inc, c)"
    by (cases "read_block ls i"; cases "i \<ge> length ls") (auto simp: not_le)
  then show ?case
  proof cases
    case 4
    then have "h = block_hunk s ls i (e, b, inc, c) \<or> h \<in> set (parse_from s ls (c + 1))"
      using "1.prems" by (subst (asm) parse_from.simps) simp
    then show ?thesis using 4 "1.IH"(3) [OF _ _ 4(3) refl refl refl] by auto
  qed (use "1.prems" "1.IH" in \<open>simp_all add: parse_from.simps [of s ls i]\<close>)
qed

text \<open>Scanning stops at the first line that passes the test.\<close>

lemma scan_to_split:
  assumes "scan_to stop ls k < length ls"
  obtains pre x where "drop k ls = pre @ x # drop (Suc (scan_to stop ls k)) ls"
    and "scan_to stop ls k = k + length pre"
    and "\<forall>l \<in> set pre. \<not> stop (sl_body l)" and "stop (sl_body x)"
  using assms
proof (induction stop ls k arbitrary: thesis rule: scan_to.induct)
  case (1 stop ls k)
  show ?case
  proof (cases "k < length ls \<and> \<not> stop (sl_body (ls ! k))")
    case True
    then have scan: "scan_to stop ls k = scan_to stop ls (k + 1)" by (subst scan_to.simps) simp
    from "1.IH" [OF True] "1.prems"(2) scan obtain pre x where
      "drop (k + 1) ls = pre @ x # drop (Suc (scan_to stop ls (k + 1))) ls"
      "scan_to stop ls (k + 1) = k + 1 + length pre"
      "\<forall>l \<in> set pre. \<not> stop (sl_body l)" "stop (sl_body x)" by auto
    then show ?thesis using True scan Cons_nth_drop_Suc [of k ls]
      by (intro "1.prems"(1) [of "ls ! k # pre" x]) simp_all
  next
    case False
    then have "scan_to stop ls k = k" by (subst scan_to.simps) auto
    then show ?thesis using False "1.prems"(2) Cons_nth_drop_Suc [of k ls]
      by (intro "1.prems"(1) [of "[]" "ls ! k"]) simp_all
  qed
qed

text \<open>The base marker of a block and its lines, when it has them.\<close>

definition base_source :: "(source_line \<times> source_line list) option \<Rightarrow> source_line list" where
  "base_source base = (case base of None \<Rightarrow> [] | Some (marker, ls) \<Rightarrow> marker # ls)"

lemma base_source_simps [simp]: "base_source None = []" "base_source (Some (marker, ls)) = marker # ls"
  by (simp_all add: base_source_def)

definition base_marked :: "(source_line \<times> source_line list) option \<Rightarrow> bool" where
  "base_marked base \<longleftrightarrow> (case base of None \<Rightarrow> True
     | Some (marker, ls) \<Rightarrow> is_base (sl_body marker) \<and> (\<forall>l \<in> set ls. \<not> is_separator (sl_body l)))"

lemma read_block_lines:
  assumes "read_block ls idx = Some (e, b, inc, c)"
  obtains current base separator incoming stop where
    "drop (Suc idx) ls = current @ base_source base @ separator # incoming @ stop # drop (Suc c) ls"
    "e = idx + 1 + length current"
    "b = map_option (\<lambda>(_, bs). (e + 1, e + 1 + length bs)) base"
    "inc = idx + 2 + length current + length (base_source base)"
    "c = inc + length incoming" "c < length ls"
    "\<forall>l \<in> set current. \<not> is_base (sl_body l) \<and> \<not> is_separator (sl_body l)"
    "base_marked base" "is_separator (sl_body separator)"
    "\<forall>l \<in> set incoming. \<not> is_end (sl_body l)" "is_end (sl_body stop)"
proof -
  let ?e = "scan_to (\<lambda>b. is_base b \<or> is_separator b) ls (idx + 1)"
  let ?based = "is_base (sl_body (ls ! ?e))"
  let ?m = "if ?based then scan_to is_separator ls (?e + 1) else ?e"
  have len: "?e < length ls" "?m < length ls" "c < length ls"
    and fields: "e = ?e" "inc = ?m + 1" "c = scan_to is_end ls (?m + 1)"
      "b = (if ?based then Some (?e + 1, ?m) else None)"
    using assms by (auto simp: read_block_def Let_def split: if_splits)
  obtain current x where current: "drop (idx + 1) ls = current @ x # drop (Suc ?e) ls"
      "?e = idx + 1 + length current"
      "\<forall>l \<in> set current. \<not> (is_base (sl_body l) \<or> is_separator (sl_body l))"
      "is_base (sl_body x) \<or> is_separator (sl_body x)"
    by (rule scan_to_split [OF len(1)])
  obtain incoming stop where incoming: "drop (?m + 1) ls = incoming @ stop # drop (Suc c) ls"
      "c = ?m + 1 + length incoming" "\<forall>l \<in> set incoming. \<not> is_end (sl_body l)" "is_end (sl_body stop)"
    by (rule scan_to_split [OF len(3) [unfolded fields(3)], folded fields(3)])
  have x: "ls ! ?e = x"
  proof -
    have "idx + 1 \<le> length ls" using len(1) current(2) by linarith
    then have "ls ! (idx + 1 + length current) = drop (idx + 1) ls ! length current" by (rule nth_drop [symmetric])
    also have "\<dots> = x" unfolding current(1) by (rule nth_append_length)
    finally show ?thesis unfolding current(2) .
  qed
  show thesis
  proof (cases ?based)
    case True
    let ?s = "scan_to is_separator ls (?e + 1)"
    have m: "?m = ?s" using True by (rule if_P)
    obtain bs separator where base: "drop (?e + 1) ls = bs @ separator # drop (Suc ?s) ls"
        "?s = ?e + 1 + length bs" "\<forall>l \<in> set bs. \<not> is_separator (sl_body l)" "is_separator (sl_body separator)"
      by (rule scan_to_split [OF len(2) [unfolded m]])
    show thesis
      by (rule that [of current "Some (x, bs)" separator incoming stop])
        (use True x current base incoming fields len in \<open>simp_all add: base_marked_def\<close>)
  next
    case False
    show thesis
      by (rule that [of current None x incoming stop])
        (use False x current incoming fields len in \<open>auto simp: base_marked_def\<close>)
  qed
qed

lemma ends_line_lines:
  assumes "a < b" "b < length (source_lines s)"
  shows "ends_line (lines_text (take (b - a) (drop a (source_lines s))))"
proof -
  let ?ls = "source_lines s"
  have "take (b - a) (drop a ?ls) = take (b - 1 - a) (drop a ?ls) @ [?ls ! (b - 1)]"
    using assms take_Suc_conv_app_nth [of "b - 1 - a" "drop a ?ls"]
    by (simp add: Suc_diff_Suc)
  moreover have "ends_line (line_text (?ls ! (b - 1)))"
    using source_lines_ending [of "b - 1" 0 s] assms by (simp add: source_lines_def)
  ultimately show ?thesis by (simp add: ends_line_def)
qed

text \<open>
  A block cut out of the lines of the source: its four markers, each the first line of its kind,
  the sides between them, its offsets, and what its resolutions leave.
\<close>

type_synonym block_parts = "source_line list \<times> source_line \<times> source_line list \<times>
  (source_line \<times> source_line list) option \<times> source_line \<times> source_line list \<times> source_line \<times> source_line list"

definition marked :: "block_parts \<Rightarrow> bool" where
  "marked = (\<lambda>(before, start, current, base, separator, incoming, stop, after).
     is_start (sl_body start) \<and>
     (\<forall>l \<in> set current. \<not> is_base (sl_body l) \<and> \<not> is_separator (sl_body l)) \<and>
     base_marked base \<and> is_separator (sl_body separator) \<and>
     (\<forall>l \<in> set incoming. \<not> is_end (sl_body l)) \<and> is_end (sl_body stop))"

definition cut_block :: "rstr \<Rightarrow> conflict_hunk \<Rightarrow> block_parts \<Rightarrow> bool" where
  "cut_block source h = (\<lambda>(before, start, current, base, separator, incoming, stop, after).
     let block = start # current @ base_source base @ separator # incoming @ [stop];
         pre = lines_text before; post = lines_text after
     in source_lines source = before @ block @ after \<and> source = pre @ lines_text block @ post \<and>
        marked (before, start, current, base, separator, incoming, stop, after) \<and>
        ch_current_text h = lines_text current \<and>
        ch_base_text h = map_option (\<lambda>(_, bs). lines_text bs) base \<and>
        ch_incoming_text h = lines_text incoming \<and>
        ch_current_label h = marker_label (sl_body start) \<and>
        ch_incoming_label h = marker_label (sl_body stop) \<and>
        ch_start_line h = length before + 1 \<and> ch_end_line h = length (before @ block) \<and>
        ch_start_offset h = byte_len pre \<and> ch_end_offset h = byte_len (pre @ lines_text block) \<and>
        apply_conflict_resolution source h ResolveCurrent = pre @ lines_text current @ post \<and>
        apply_conflict_resolution source h ResolveIncoming = pre @ lines_text incoming @ post \<and>
        apply_conflict_resolution source h ResolveBoth =
          pre @ lines_text current @ lines_text incoming @ post)"

lemma apply_replacement:
  assumes "source = pre @ block @ post" "ch_start_offset h = byte_len pre" "ch_end_offset h = byte_len (pre @ block)"
  shows "apply_conflict_replacement source h r = pre @ r @ post"
  using drop_bytes_append [of "pre @ block" post] assms
  by (simp add: apply_conflict_replacement_def del: drop_bytes_append)

lemma apply_resolution:
  assumes "source = pre @ block @ post" "ch_start_offset h = byte_len pre" "ch_end_offset h = byte_len (pre @ block)"
    and "ch_current_text h \<noteq> [] \<Longrightarrow> ends_line (ch_current_text h)"
  shows "apply_conflict_resolution source h ResolveCurrent = pre @ ch_current_text h @ post"
    and "apply_conflict_resolution source h ResolveIncoming = pre @ ch_incoming_text h @ post"
    and "apply_conflict_resolution source h ResolveBoth = pre @ ch_current_text h @ ch_incoming_text h @ post"
  unfolding apply_conflict_resolution_def apply_replacement [OF assms(1-3)]
  using assms(4) by (auto simp: combine_both_def Let_def)

lemma parsed_hunk_cut:
  assumes "h \<in> set (parse_conflict_hunks source)"
  shows "\<exists>parts. cut_block source h parts"
proof -
  let ?ls = "source_lines source"
  obtain idx e b inc c where idx: "idx < length ?ls" and start: "is_start (sl_body (?ls ! idx))"
    and blk: "read_block ?ls idx = Some (e, b, inc, c)" and h: "h = block_hunk source ?ls idx (e, b, inc, c)"
    using parse_from_mem [of h source ?ls 0] assms by (auto simp: parse_conflict_hunks_def)
  obtain current base separator incoming stop where
    rest: "drop (Suc idx) ?ls = current @ base_source base @ separator # incoming @ stop # drop (Suc c) ?ls"
    and at: "e = idx + 1 + length current" "b = map_option (\<lambda>(_, bs). (e + 1, e + 1 + length bs)) base"
      "inc = idx + 2 + length current + length (base_source base)" "c = inc + length incoming" "c < length ?ls"
    and kinds: "\<forall>l \<in> set current. \<not> is_base (sl_body l) \<and> \<not> is_separator (sl_body l)" "base_marked base"
      "is_separator (sl_body separator)" "\<forall>l \<in> set incoming. \<not> is_end (sl_body l)" "is_end (sl_body stop)"
    by (rule read_block_lines [OF blk])
  let ?block = "?ls ! idx # current @ base_source base @ separator # incoming @ [stop]"
  have lines: "?ls = take idx ?ls @ ?block @ drop (Suc c) ?ls"
    using id_take_nth_drop [OF idx] rest by simp
  have source: "source = lines_text (take idx ?ls) @ lines_text ?block @ lines_text (drop (Suc c) ?ls)"
    using arg_cong [OF lines, of lines_text] by (simp add: source_lines_text)
  have from_start: "drop (idx + 1 + k) ?ls = drop k (drop (Suc idx) ?ls)" for k
    by (simp add: add.commute)
  have cut: "slice_lines source ?ls (idx + 1 + p) (idx + 1 + q) = lines_text (take (q - p) (drop p (drop (Suc idx) ?ls)))"
    if "p \<le> q" "idx + 1 + q \<le> length ?ls" for p q
    using slice_lines_text [of "idx + 1 + p" "idx + 1 + q" source] that from_start by simp
  have texts: "ch_current_text h = lines_text current" "ch_incoming_text h = lines_text incoming"
    "ch_base_text h = map_option (\<lambda>(_, bs). lines_text bs) base"
  proof -
    show "ch_current_text h = lines_text current"
      using cut [of 0 "length current"] at by (simp add: h block_hunk_def Let_def rest)
    show "ch_incoming_text h = lines_text incoming"
      using cut [of "length current + length (base_source base) + 1"
          "length current + length (base_source base) + 1 + length incoming"] at
      by (simp add: h block_hunk_def Let_def rest ac_simps)
    show "ch_base_text h = map_option (\<lambda>(_, bs). lines_text bs) base"
    proof (cases base)
      case (Some x)
      then show ?thesis
        using cut [of "length current + 1" "length current + 1 + length (snd x)"] at
        by (cases x) (simp add: h block_hunk_def Let_def rest ac_simps)
    qed (simp add: h block_hunk_def Let_def at)
  qed
  have upto: "take (Suc c) ?ls = take idx ?ls @ ?block"
  proof -
    have "length (take idx ?ls @ ?block) = Suc c" using idx at by (simp add: min_def)
    moreover have "(take idx ?ls @ ?block) @ drop (Suc c) ?ls = ?ls" using lines by simp
    ultimately show ?thesis by (metis append_eq_conv_conj)
  qed
  have off: "ch_start_offset h = byte_len (lines_text (take idx ?ls))"
    "ch_end_offset h = byte_len (lines_text (take idx ?ls) @ lines_text ?block)"
    using source_lines_nth [OF idx] source_lines_nth [OF at(5)] upto
    by (simp_all add: h block_hunk_def Let_def)
  have "ends_line (ch_current_text h)" if "ch_current_text h \<noteq> []"
  proof -
    have "current \<noteq> []" using that texts(1) by auto
    moreover have "take (length current) (drop (Suc idx) ?ls) = current" by (simp add: rest)
    ultimately show ?thesis
      using ends_line_lines [of "Suc idx" e source] at texts(1) by simp
  qed
  note resolved = apply_resolution [OF source off this, unfolded texts]
  have last_line: "?ls ! c = stop"
    using arg_cong [OF upto, of last] take_Suc_conv_app_nth [OF at(5)] by simp
  have labels: "ch_current_label h = marker_label (sl_body (?ls ! idx))"
    "ch_incoming_label h = marker_label (sl_body stop)" "ch_start_line h = idx + 1" "ch_end_line h = c + 1"
    using last_line by (simp_all add: h block_hunk_def Let_def)
  have "cut_block source h (take idx ?ls, ?ls ! idx, current, base, separator, incoming, stop, drop (Suc c) ?ls)"
    unfolding cut_block_def marked_def prod.case Let_def
    using lines source start kinds texts labels off resolved upto idx at by (simp add: min_def)
  then show ?thesis by blast
qed

end
