(* ===== verification/Merge_Roundtrip.thy ===== *)
theory Merge_Roundtrip
  imports Merge_Rendered
begin

text \<open>
  A file in conflict as Git writes it, plain lines and conflicts, is parsed into exactly its
  conflicts; resolving one of them leaves the file with that conflict's chosen lines; and no
  marker is left exactly when no conflict is.
\<close>

section \<open>Files in conflict\<close>

datatype chunk =
    PlainLines "rstr list"
  | Conflict rstr "rstr list" "(rstr \<times> rstr list) option" "rstr list" rstr
      \<comment> \<open>current label, current side, base label and lines, incoming side, incoming label\<close>

definition marker_line :: "uchar \<Rightarrow> rstr \<Rightarrow> rstr" where
  "marker_line mark label = replicate 7 mark @ 32 # label"

definition base_lines :: "(rstr \<times> rstr list) option \<Rightarrow> rstr list" where
  "base_lines base = (case base of None \<Rightarrow> [] | Some (label, ls) \<Rightarrow> marker_line 124 label # ls)"

primrec chunk_lines :: "chunk \<Rightarrow> rstr list" where
  "chunk_lines (PlainLines ls) = ls"
| "chunk_lines (Conflict cl current base incoming il) =
     marker_line 60 cl # current @ base_lines base @ replicate 7 61 # incoming @ [marker_line 62 il]"

definition render_lines :: "rstr \<Rightarrow> rstr list \<Rightarrow> rstr" where
  "render_lines nl bodies = concat (map (\<lambda>b. b @ nl) bodies)"

definition file_lines :: "chunk list \<Rightarrow> rstr list" where
  "file_lines chunks = concat (map chunk_lines chunks)"

definition conflict_file :: "rstr \<Rightarrow> chunk list \<Rightarrow> rstr" where
  "conflict_file nl chunks = render_lines nl (file_lines chunks)"

definition is_conflict_marker :: "rstr \<Rightarrow> bool" where
  "is_conflict_marker b \<longleftrightarrow> is_start b \<or> is_base b \<or> is_separator b \<or> is_end b"

text \<open>Lines without breaks that are no marker, labels that \<open>trim\<close> leaves alone.\<close>

definition plain_line :: "rstr \<Rightarrow> bool" where
  "plain_line b \<longleftrightarrow> (\<forall>c \<in> set b. \<not> line_break c) \<and> \<not> is_conflict_marker b"

definition label_ok :: "rstr \<Rightarrow> bool" where
  "label_ok l \<longleftrightarrow> (\<forall>c \<in> set l. \<not> line_break c) \<and> l \<noteq> [] \<and> trim l = l"

primrec chunk_ok :: "chunk \<Rightarrow> bool" where
  "chunk_ok (PlainLines ls) \<longleftrightarrow> list_all plain_line ls"
| "chunk_ok (Conflict cl current base incoming il) \<longleftrightarrow> label_ok cl \<and> label_ok il \<and> list_all plain_line current \<and>
     list_all plain_line incoming \<and> (\<forall>l ls. base = Some (l, ls) \<longrightarrow> label_ok l \<and> list_all plain_line ls)"

definition newline :: "rstr \<Rightarrow> bool" where
  "newline nl \<longleftrightarrow> nl = [10] \<or> nl = [13, 10]"

text \<open>What a block shows of a conflict.\<close>

type_synonym conflict_view = "rstr option \<times> rstr \<times> rstr option \<times> rstr \<times> rstr option"

definition hunk_view :: "conflict_hunk \<Rightarrow> conflict_view" where
  "hunk_view h = (ch_current_label h, ch_current_text h, ch_base_text h, ch_incoming_text h, ch_incoming_label h)"

primrec chunk_views :: "rstr \<Rightarrow> chunk \<Rightarrow> conflict_view list" where
  "chunk_views nl (PlainLines ls) = []"
| "chunk_views nl (Conflict cl current base incoming il) =
     [(Some cl, render_lines nl current, map_option (\<lambda>(_, ls). render_lines nl ls) base,
       render_lines nl incoming, Some il)]"

section \<open>The lines of a file in conflict\<close>

fun placed :: "rstr \<Rightarrow> nat \<Rightarrow> rstr list \<Rightarrow> source_line list" where
  "placed nl k [] = []"
| "placed nl k (b # bs) =
     \<lparr>sl_start = k, sl_end = k + byte_len (b @ nl), sl_body = b, sl_ending = nl\<rparr> # placed nl (k + byte_len (b @ nl)) bs"

lemma map_body_placed [simp]: "map sl_body (placed nl k bs) = bs"
  by (induction bs arbitrary: k) simp_all

lemma length_placed [simp]: "length (placed nl k bs) = length bs"
  by (induction bs arbitrary: k) simp_all

lemma body_placed [simp]: "i < length bs \<Longrightarrow> sl_body (placed nl k bs ! i) = bs ! i"
  by (metis length_map map_body_placed nth_map)

lemma render_lines_simps [simp]:
  "render_lines nl [] = []" "render_lines nl (b # bs) = b @ nl @ render_lines nl bs"
  "render_lines nl (bs @ cs) = render_lines nl bs @ render_lines nl cs"
  by (simp_all add: render_lines_def)

lemma lines_text_map: "(\<And>l. l \<in> set ls \<Longrightarrow> sl_ending l = nl) \<Longrightarrow> lines_text ls = render_lines nl (map sl_body ls)"
  by (induction ls) (simp_all add: line_text_def)

lemma ending_placed: "l \<in> set (placed nl k bs) \<Longrightarrow> sl_ending l = nl"
  by (induction bs arbitrary: k) auto

lemma source_lines_placed:
  assumes "newline nl" "\<forall>b \<in> set bs. \<forall>c \<in> set b. \<not> line_break c"
  shows "source_lines_from k (render_lines nl bs) = placed nl k bs"
  using assms(2)
proof (induction bs arbitrary: k)
  case Nil
  then show ?case by (simp add: source_lines_from.simps)
next
  case (Cons b bs)
  have nl: "nl \<noteq> []" "line_break (hd nl)" using assms(1) by (auto simp: newline_def line_break_def)
  then obtain c cs where c: "nl = c # cs" by (cases nl) auto
  have take: "takeWhile (\<lambda>c. \<not> line_break c) (b @ nl @ render_lines nl bs) = b"
    using Cons.prems nl c by (subst takeWhile_append2) auto
  have drop: "dropWhile (\<lambda>c. \<not> line_break c) (b @ nl @ render_lines nl bs) = nl @ render_lines nl bs"
    using Cons.prems nl c by (subst dropWhile_append2) auto
  have ending: "ending_of (nl @ render_lines nl bs) = nl"
    using assms(1) by (auto simp: newline_def ending_of_def split: list.splits)
  show ?case
    using Cons.IH Cons.prems nl
    by (subst source_lines_from.simps) (simp add: take drop ending Let_def)
qed

lemma slice_placed:
  assumes "newline nl" "\<forall>b \<in> set bs. \<forall>c \<in> set b. \<not> line_break c" "p \<le> q" "q \<le> length bs"
  shows "slice_lines (render_lines nl bs) (placed nl 0 bs) p q = render_lines nl (take (q - p) (drop p bs))"
proof -
  have ls: "source_lines (render_lines nl bs) = placed nl 0 bs"
    using source_lines_placed [OF assms(1,2)] by (simp add: source_lines_def)
  have "lines_text (take (q - p) (drop p (placed nl 0 bs))) =
      render_lines nl (map sl_body (take (q - p) (drop p (placed nl 0 bs))))"
    by (rule lines_text_map) (meson ending_placed in_set_dropD in_set_takeD)
  then show ?thesis
    using slice_lines_text [of p q "render_lines nl bs"] assms(3,4)
    by (simp add: ls flip: take_map drop_map)
qed

section \<open>Markers\<close>

lemma is_marker_line [simp]:
  "is_start (marker_line 60 l)" "is_base (marker_line 124 l)" "is_end (marker_line 62 l)"
  "is_separator (replicate 7 61)"
  "\<not> is_start (marker_line 124 l)" "\<not> is_start (marker_line 62 l)" "\<not> is_start (replicate 7 61)"
  "\<not> is_base (marker_line 60 l)" "\<not> is_base (marker_line 62 l)" "\<not> is_base (replicate 7 61)"
  "\<not> is_separator (marker_line m l)"
  "\<not> is_end (marker_line 60 l)" "\<not> is_end (marker_line 124 l)" "\<not> is_end (replicate 7 61)"
  by (simp_all add: is_start_def is_base_def is_separator_def is_end_def is_marker_def Let_def starts_with_def
      marker_line_def eval_nat_numeral)

lemma marker_label_line [simp]:
  assumes "label_ok l" "m \<noteq> 32"
  shows "marker_label (marker_line m l) = Some l"
proof -
  have "position (\<lambda>c. c = 32) (marker_line m l) = Some 7"
    using assms(2) by (simp add: marker_line_def eval_nat_numeral)
  moreover have "drop 8 (marker_line m l) = l" by (simp add: marker_line_def)
  ultimately show ?thesis using assms(1) by (simp add: marker_label_def label_ok_def)
qed

section \<open>Parsing a file in conflict\<close>

lemma body_at:
  assumes "bs = pre @ y # post"
  shows "length pre < length (placed nl k bs)" "sl_body (placed nl k bs ! length pre) = y"
  using assms by simp_all

lemma scan_over:
  assumes "bs = pre @ xs @ y # post" "\<forall>x \<in> set xs. \<not> stop x" "stop y"
  shows "scan_to stop (placed nl k bs) (length pre) = length pre + length xs"
  using assms
proof (induction xs arbitrary: pre)
  case Nil
  then show ?case using body_at [of bs pre y post nl k] by (subst scan_to.simps) simp
next
  case (Cons x xs)
  have "scan_to stop (placed nl k bs) (length (pre @ [x])) = length (pre @ [x]) + length xs"
    by (rule Cons.IH) (use Cons.prems in auto)
  then show ?case using body_at [of bs pre x "xs @ y # post" nl k] Cons.prems by (subst scan_to.simps) simp
qed

lemma parse_over:
  assumes "bs = pre @ xs @ post" "\<forall>x \<in> set xs. \<not> is_start x"
  shows "parse_from s (placed nl k bs) (length pre) = parse_from s (placed nl k bs) (length pre + length xs)"
  using assms
proof (induction xs arbitrary: pre)
  case (Cons x xs)
  have "parse_from s (placed nl k bs) (length (pre @ [x])) = parse_from s (placed nl k bs) (length (pre @ [x]) + length xs)"
    by (rule Cons.IH) (use Cons.prems in auto)
  then show ?case using body_at [of bs pre x "xs @ post" nl k] Cons.prems
    by (subst parse_from.simps) simp
qed simp

lemma plain_not_marker:
  assumes "list_all plain_line ls" "x \<in> set ls"
  shows "\<not> is_start x" "\<not> is_base x" "\<not> is_separator x" "\<not> is_end x" "\<forall>c \<in> set x. \<not> line_break c"
  using assms by (auto simp: list_all_iff plain_line_def is_conflict_marker_def)

lemma read_conflict:
  assumes "chunk_ok (Conflict cl current base incoming il)"
    and bs: "bs = pre @ chunk_lines (Conflict cl current base incoming il) @ post"
  defines "e \<equiv> length pre + 1 + length current"
  defines "m \<equiv> e + length (base_lines base)"
  shows "read_block (placed nl k bs) (length pre) =
    Some (e, if base = None then None else Some (e + 1, m), m + 1, m + 1 + length incoming)"
proof -
  let ?ls = "placed nl k bs" and ?st = "marker_line 60 cl" and ?sep = "replicate 7 61 :: rstr" and ?en = "marker_line 62 il"
  have plain: "list_all plain_line current" "list_all plain_line incoming" using assms(1) by simp_all
  have en: "scan_to is_end ?ls (m + 1) = m + 1 + length incoming"
    using scan_over [of bs "pre @ ?st # current @ base_lines base @ [?sep]" incoming ?en post is_end nl k]
      plain_not_marker(4) [OF plain(2)] by (simp add: bs m_def e_def add.assoc)
  have len: "m + 1 + length incoming < length ?ls" by (simp add: bs m_def e_def)
  show ?thesis
  proof (cases base)
    case None
    have m: "m = e" by (simp add: m_def None base_lines_def)
    have "scan_to (\<lambda>b. is_base b \<or> is_separator b) ?ls (length pre + 1) = e"
      using scan_over [of bs "pre @ [?st]" current ?sep "incoming @ ?en # post" "\<lambda>b. is_base b \<or> is_separator b" nl k]
        plain_not_marker(2,3) [OF plain(1)] by (simp add: bs e_def None base_lines_def)
    moreover have "sl_body (?ls ! e) = ?sep"
      using body_at(2) [of bs "pre @ ?st # current" ?sep "incoming @ ?en # post" nl k]
      by (simp add: bs e_def None base_lines_def)
    ultimately show ?thesis using en len None m by (simp add: read_block_def Let_def)
  next
    case (Some b)
    obtain bl bls where b: "b = (bl, bls)" by (cases b)
    have plain_b: "list_all plain_line bls" using assms(1) Some b by simp
    have e: "scan_to (\<lambda>b. is_base b \<or> is_separator b) ?ls (length pre + 1) = e"
      using scan_over [of bs "pre @ [?st]" current "marker_line 124 bl" "bls @ ?sep # incoming @ ?en # post"
          "\<lambda>b. is_base b \<or> is_separator b" nl k]
        plain_not_marker(2,3) [OF plain(1)] by (simp add: bs e_def Some b base_lines_def)
    have body: "sl_body (?ls ! e) = marker_line 124 bl"
      using body_at(2) [of bs "pre @ ?st # current" "marker_line 124 bl" "bls @ ?sep # incoming @ ?en # post" nl k]
      by (simp add: bs e_def Some b base_lines_def)
    have "scan_to is_separator ?ls (e + 1) = m"
      using scan_over [of bs "pre @ ?st # current @ [marker_line 124 bl]" bls ?sep "incoming @ ?en # post"
          is_separator nl k] plain_not_marker(3) [OF plain_b]
      by (simp add: bs e_def m_def Some b base_lines_def)
    then show ?thesis using en len e body Some by (simp add: read_block_def Let_def m_def)
  qed
qed

lemma plain_breaks: "list_all plain_line ls \<Longrightarrow> b \<in> set ls \<Longrightarrow> x \<in> set b \<Longrightarrow> \<not> line_break x"
  using plain_not_marker(5) by blast

lemma chunk_no_breaks:
  "chunk_ok c \<Longrightarrow> b \<in> set (chunk_lines c) \<Longrightarrow> \<forall>x \<in> set b. \<not> line_break x"
  by (cases c)
    (auto simp: marker_line_def label_ok_def base_lines_def line_break_def [of 32] line_break_def [of 60]
      line_break_def [of 61] line_break_def [of 62] line_break_def [of 124]
      dest: plain_breaks split: option.splits)

lemma slice_mid:
  assumes "newline nl" "\<forall>b \<in> set bs. \<forall>c \<in> set b. \<not> line_break c" "bs = p @ xs @ r"
    "i = length p" "j = length p + length xs"
  shows "slice_lines (render_lines nl bs) (placed nl 0 bs) i j = render_lines nl xs"
  using slice_placed [OF assms(1,2), of i j] assms(3-5) by simp

lemma parse_conflict:
  assumes ok: "chunk_ok c" "newline nl" and bs: "bs = pre @ chunk_lines c @ post"
    and nb: "\<forall>b \<in> set bs. \<forall>x \<in> set b. \<not> line_break x"
  shows "\<exists>hs. parse_from (render_lines nl bs) (placed nl 0 bs) (length pre) =
    hs @ parse_from (render_lines nl bs) (placed nl 0 bs) (length pre + length (chunk_lines c)) \<and>
    map hunk_view hs = chunk_views nl c \<and>
    (\<forall>h \<in> set hs. ch_start_offset h = byte_len (render_lines nl pre) \<and>
      ch_end_offset h = byte_len (render_lines nl (pre @ chunk_lines c)))"
proof (cases c)
  case (PlainLines ls)
  then show ?thesis
    using parse_over [of bs pre ls post] bs ok plain_not_marker(1)
    by (intro exI [of _ "[]"]) auto
next
  case (Conflict cl current base incoming il)
  let ?ls = "placed nl 0 bs" and ?s = "render_lines nl bs"
  let ?st = "marker_line 60 cl" and ?sep = "replicate 7 61 :: rstr" and ?en = "marker_line 62 il"
  let ?e = "length pre + 1 + length current"
  let ?m = "?e + length (base_lines base)"
  let ?c = "?m + 1 + length incoming"
  let ?block = "(?e, if base = None then None else Some (?e + 1, ?m), ?m + 1, ?c)"
  define h where "h = block_hunk ?s ?ls (length pre) ?block"
  note bs' = bs [unfolded Conflict chunk_lines.simps]
  have rd: "read_block ?ls (length pre) = Some ?block"
    using read_conflict [OF ok(1) [unfolded Conflict] bs [unfolded Conflict], of nl 0] by simp
  have idx: "length pre < length ?ls" "sl_body (?ls ! length pre) = ?st"
    using body_at [of bs pre ?st "current @ base_lines base @ ?sep # incoming @ ?en # post" nl 0] by (simp_all add: bs')
  have c_idx: "?c < length ?ls" "sl_body (?ls ! ?c) = ?en"
    using body_at [of bs "pre @ ?st # current @ base_lines base @ ?sep # incoming" ?en post nl 0]
    by (simp_all add: bs' add.assoc)
  have parse: "parse_from ?s ?ls (length pre) = h # parse_from ?s ?ls (?c + 1)"
    using idx rd by (subst parse_from.simps) (simp add: h_def)
  have ls: "source_lines ?s = ?ls" using source_lines_placed [OF ok(2) nb] by (simp add: source_lines_def)
  have shown: "lines_text (take n ?ls) = render_lines nl (take n bs)" for n
  proof -
    have "lines_text (take n ?ls) = render_lines nl (map sl_body (take n ?ls))"
      by (rule lines_text_map) (meson ending_placed in_set_takeD)
    then show ?thesis by (simp flip: take_map)
  qed
  have len: "length (pre @ chunk_lines c) = Suc ?c" by (simp add: Conflict)
  have tk: "take (Suc ?c) bs = pre @ chunk_lines c" "take (length pre) bs = pre"
    unfolding len [symmetric] using bs by simp_all
  have offs: "ch_start_offset h = byte_len (render_lines nl pre)"
    "ch_end_offset h = byte_len (render_lines nl (pre @ chunk_lines c))"
    using source_lines_nth [of "length pre" ?s] source_lines_nth [of ?c ?s] idx c_idx
    unfolding ls shown tk by (simp_all add: h_def block_hunk_def Let_def del: render_lines_simps)
  have cur: "slice_lines ?s ?ls (Suc (length pre)) ?e = render_lines nl current"
    by (rule slice_mid [OF ok(2) nb, of "pre @ [?st]" current "base_lines base @ ?sep # incoming @ ?en # post"])
      (simp_all add: bs')
  have inc: "slice_lines ?s ?ls (?m + 1) ?c = render_lines nl incoming"
    by (rule slice_mid [OF ok(2) nb, of "pre @ ?st # current @ base_lines base @ [?sep]" incoming "?en # post"])
      (simp_all add: bs')
  have base: "slice_lines ?s ?ls (?e + 1) ?m = render_lines nl bls" if "base = Some (bl, bls)" for bl bls
    by (rule slice_mid [OF ok(2) nb, of "pre @ ?st # current @ [marker_line 124 bl]" bls "?sep # incoming @ ?en # post"])
      (simp_all add: bs' base_lines_def that)
  have labels: "label_ok cl" "label_ok il" using ok(1) Conflict by simp_all
  have "hunk_view h = (Some cl, render_lines nl current, map_option (\<lambda>(_, ls). render_lines nl ls) base,
      render_lines nl incoming, Some il)"
    using cur inc base idx c_idx labels
    by (cases base) (auto simp: hunk_view_def h_def block_hunk_def Let_def)
  then show ?thesis
    using parse offs by (intro exI [of _ "[h]"]) (simp add: Conflict add.assoc)
qed

lemma parse_chunks:
  assumes "newline nl" "\<forall>c \<in> set cs. chunk_ok c" "bs = pre @ file_lines cs"
    "\<forall>b \<in> set bs. \<forall>x \<in> set b. \<not> line_break x"
  shows "map hunk_view (parse_from (render_lines nl bs) (placed nl 0 bs) (length pre)) = concat (map (chunk_views nl) cs)"
  using assms(2,3)
proof (induction cs arbitrary: pre)
  case Nil
  then show ?case by (subst parse_from.simps) (simp add: file_lines_def)
next
  case (Cons c cs)
  have bs: "bs = pre @ chunk_lines c @ file_lines cs" using Cons.prems by (simp add: file_lines_def)
  obtain hs where hs: "parse_from (render_lines nl bs) (placed nl 0 bs) (length pre) =
      hs @ parse_from (render_lines nl bs) (placed nl 0 bs) (length pre + length (chunk_lines c))"
    "map hunk_view hs = chunk_views nl c"
    using parse_conflict [OF _ assms(1) bs assms(4)] Cons.prems by auto
  have "map hunk_view (parse_from (render_lines nl bs) (placed nl 0 bs) (length (pre @ chunk_lines c))) =
      concat (map (chunk_views nl) cs)"
    by (rule Cons.IH) (use Cons.prems bs in auto)
  then show ?case using hs by simp
qed

lemma file_no_breaks:
  "\<forall>c \<in> set cs. chunk_ok c \<Longrightarrow> \<forall>b \<in> set (file_lines cs). \<forall>x \<in> set b. \<not> line_break x"
  using chunk_no_breaks by (auto simp: file_lines_def)

lemma source_lines_file:
  "newline nl \<Longrightarrow> \<forall>c \<in> set cs. chunk_ok c \<Longrightarrow> source_lines (conflict_file nl cs) = placed nl 0 (file_lines cs)"
  unfolding source_lines_def conflict_file_def by (rule source_lines_placed [OF _ file_no_breaks])

lemma parse_file:
  assumes "newline nl" "\<forall>c \<in> set cs. chunk_ok c"
  shows "map hunk_view (parse_conflict_hunks (conflict_file nl cs)) = concat (map (chunk_views nl) cs)"
  using parse_chunks [OF assms, of "file_lines cs" "[]"] file_no_breaks [OF assms(2)]
  by (simp add: parse_conflict_hunks_def source_lines_file [OF assms, unfolded conflict_file_def] conflict_file_def)

text \<open>The lines a resolution keeps of a conflict.\<close>

definition chosen_lines :: "conflict_resolution \<Rightarrow> rstr list \<Rightarrow> rstr list \<Rightarrow> rstr list" where
  "chosen_lines resolution current incoming =
     (case resolution of ResolveCurrent \<Rightarrow> current | ResolveIncoming \<Rightarrow> incoming | ResolveBoth \<Rightarrow> current @ incoming)"

lemma view_count: "chunk_ok c \<Longrightarrow> length (chunk_views nl c) = (case c of PlainLines _ \<Rightarrow> 0 | _ \<Rightarrow> 1)"
  by (cases c) simp_all

lemma parse_at_conflict:
  assumes nl: "newline nl" and ok: "\<forall>c \<in> set (cs @ Conflict cl current base incoming il # ds). chunk_ok c"
  defines "file \<equiv> conflict_file nl (cs @ Conflict cl current base incoming il # ds)"
    and "n \<equiv> length (concat (map (chunk_views nl) cs))"
  shows "n < length (parse_conflict_hunks file) \<and>
    (let h = parse_conflict_hunks file ! n
     in ch_start_offset h = byte_len (conflict_file nl cs) \<and>
        ch_end_offset h = byte_len (conflict_file nl (cs @ [Conflict cl current base incoming il])) \<and>
        ch_current_text h = render_lines nl current \<and> ch_incoming_text h = render_lines nl incoming)"
proof -
  let ?c = "Conflict cl current base incoming il"
  let ?bs = "file_lines (cs @ ?c # ds)"
  let ?parse = "\<lambda>i. parse_from (render_lines nl ?bs) (placed nl 0 ?bs) i"
  have nb: "\<forall>b \<in> set ?bs. \<forall>x \<in> set b. \<not> line_break x" by (rule file_no_breaks [OF ok])
  have split: "\<exists>hs. ?parse 0 = hs @ ?parse (length (file_lines us)) \<and> length hs = length (concat (map (chunk_views nl) us))"
    if "us @ vs = cs @ ?c # ds" for us vs
    using that
  proof (induction us arbitrary: vs rule: rev_induct)
    case Nil
    then show ?case by (simp add: file_lines_def)
  next
    case (snoc u us)
    then obtain hs where hs: "?parse 0 = hs @ ?parse (length (file_lines us))"
      "length hs = length (concat (map (chunk_views nl) us))" by auto
    have u: "chunk_ok u" using ok snoc.prems by (metis append_assoc append_Cons in_set_conv_decomp)
    have "?bs = file_lines us @ chunk_lines u @ file_lines vs"
      using snoc.prems [symmetric] by (simp add: file_lines_def)
    from parse_conflict [OF u nl this nb] obtain gs where
      "?parse (length (file_lines us)) = gs @ ?parse (length (file_lines us) + length (chunk_lines u))"
      "map hunk_view gs = chunk_views nl u" by blast
    moreover from this(2) have "length gs = length (chunk_views nl u)" by (metis length_map)
    ultimately show ?case using hs by (intro exI [of _ "hs @ gs"]) (simp add: file_lines_def)
  qed
  from split [of cs] obtain hs where hs: "?parse 0 = hs @ ?parse (length (file_lines cs))" "length hs = n"
    unfolding n_def by blast
  have "?bs = file_lines cs @ chunk_lines ?c @ file_lines ds" by (simp add: file_lines_def)
  from parse_conflict [OF _ nl this nb] ok obtain gs where gs:
    "?parse (length (file_lines cs)) = gs @ ?parse (length (file_lines cs) + length (chunk_lines ?c))"
    "map hunk_view gs = chunk_views nl ?c"
    "\<forall>h \<in> set gs. ch_start_offset h = byte_len (render_lines nl (file_lines cs)) \<and>
      ch_end_offset h = byte_len (render_lines nl (file_lines cs @ chunk_lines ?c))" by auto
  from gs(2) obtain h where h: "gs = [h]" "hunk_view h = hd (chunk_views nl ?c)" by auto
  have "parse_conflict_hunks file = hs @ h # ?parse (length (file_lines cs) + length (chunk_lines ?c))"
    using hs gs(1) h(1) source_lines_file [OF nl ok]
    by (simp add: parse_conflict_hunks_def file_def conflict_file_def)
  then show ?thesis
    using hs(2) h gs(3) by (simp add: Let_def nth_append conflict_file_def file_lines_def hunk_view_def)
qed

lemma resolve_conflict:
  assumes nl: "newline nl" and ok: "\<forall>c \<in> set (cs @ Conflict cl current base incoming il # ds). chunk_ok c"
  shows "apply_conflict_resolution (conflict_file nl (cs @ Conflict cl current base incoming il # ds))
      (parse_conflict_hunks (conflict_file nl (cs @ Conflict cl current base incoming il # ds)) !
        length (concat (map (chunk_views nl) cs))) resolution =
    conflict_file nl (cs @ PlainLines (chosen_lines resolution current incoming) # ds)"
proof -
  let ?c = "Conflict cl current base incoming il"
  let ?file = "conflict_file nl (cs @ ?c # ds)"
  let ?h = "parse_conflict_hunks ?file ! length (concat (map (chunk_views nl) cs))"
  have h: "?h \<in> set (parse_conflict_hunks ?file)" "ch_start_offset ?h = byte_len (conflict_file nl cs)"
    "ch_current_text ?h = render_lines nl current" "ch_incoming_text ?h = render_lines nl incoming"
    "ch_end_offset ?h = byte_len (conflict_file nl (cs @ [?c]))"
    using parse_at_conflict [OF assms] by (simp_all add: Let_def)
  have r: "apply_conflict_replacement ?file ?h t = conflict_file nl cs @ t @ conflict_file nl ds" for t
    by (rule apply_replacement [of _ _ "render_lines nl (chunk_lines ?c)"])
      (use h in \<open>simp_all add: conflict_file_def file_lines_def\<close>)
  have "current \<noteq> [] \<Longrightarrow> ends_line (render_lines nl current)"
    using nl by (cases current rule: rev_cases) (auto simp: ends_line_def newline_def line_break_def)
  then have "render_lines nl current \<noteq> [] \<Longrightarrow> ends_line (render_lines nl current)" by (cases current) auto
  then have "combine_both ?h = render_lines nl (current @ incoming)"
    by (auto simp: combine_both_def h Let_def)
  moreover have "conflict_file nl (cs @ PlainLines ls # ds) =
      conflict_file nl cs @ render_lines nl ls @ conflict_file nl ds" for ls
    by (simp add: conflict_file_def file_lines_def)
  ultimately show ?thesis
    by (cases resolution) (simp_all add: apply_conflict_resolution_def r h chosen_lines_def)
qed

lemma plain_file_markers:
  assumes "newline nl" "\<forall>c \<in> set cs. chunk_ok c"
  shows "has_conflict_marker_fragments (conflict_file nl cs) \<longleftrightarrow> (\<exists>c \<in> set cs. chunk_views nl c \<noteq> [])"
proof -
  have "list_ex (\<lambda>l. is_conflict_marker (sl_body l)) (placed nl k bs) = list_ex is_conflict_marker bs" for k bs
    by (induction bs arbitrary: k) simp_all
  then have "has_conflict_marker_fragments (conflict_file nl cs) \<longleftrightarrow> (\<exists>b \<in> set (file_lines cs). is_conflict_marker b)"
    unfolding has_conflict_marker_fragments_def source_lines_file [OF assms] is_conflict_marker_def [symmetric]
    by (simp add: list_ex_iff)
  moreover have "(\<exists>b \<in> set (chunk_lines c). is_conflict_marker b) \<longleftrightarrow> chunk_views nl c \<noteq> []" if "chunk_ok c" for c
    using that by (cases c) (auto simp: is_conflict_marker_def list_all_iff plain_line_def)
  ultimately show ?thesis using assms(2) by (auto simp: file_lines_def)
qed

text \<open>The first block of a file resolved, and a file with its conflicts settled in turn.\<close>

definition resolve_first :: "conflict_resolution \<Rightarrow> rstr \<Rightarrow> rstr" where
  "resolve_first resolution source =
     apply_conflict_resolution source (hd (parse_conflict_hunks source)) resolution"

fun settled_chunks :: "conflict_resolution list \<Rightarrow> chunk list \<Rightarrow> chunk list" where
  "settled_chunks choices [] = []"
| "settled_chunks choices (PlainLines ls # cs) = PlainLines ls # settled_chunks choices cs"
| "settled_chunks [] (c # cs) = c # settled_chunks [] cs"
| "settled_chunks (r # choices) (Conflict cl current base incoming il # cs) =
     PlainLines (chosen_lines r current incoming) # settled_chunks choices cs"

lemma settled_plain: "concat (map (chunk_views nl) ps) = [] \<Longrightarrow> settled_chunks choices (ps @ cs) = ps @ settled_chunks choices cs"
proof (induction ps)
  case (Cons p ps)
  then show ?case by (cases p) auto
qed simp

lemma first_conflict:
  assumes "concat (map (chunk_views nl) cs) \<noteq> []"
  obtains ps cl current base incoming il ds where "cs = ps @ Conflict cl current base incoming il # ds"
    "concat (map (chunk_views nl) ps) = []"
  using assms
proof (induction cs arbitrary: thesis)
  case (Cons c cs)
  show ?case
  proof (cases c)
    case (PlainLines ls)
    with Cons.prems(2) have "concat (map (chunk_views nl) cs) \<noteq> []" by simp
    then obtain ps cl current base incoming il ds where "cs = ps @ Conflict cl current base incoming il # ds"
      "concat (map (chunk_views nl) ps) = []" by (rule Cons.IH [rotated])
    then show ?thesis using Cons.prems(1) [of "c # ps"] PlainLines by simp
  next
    case (Conflict cl current base incoming il)
    then show ?thesis using Cons.prems(1) [of "[]"] by simp
  qed
qed simp

lemma resolve_first_conflict:
  assumes nl: "newline nl" and ok: "\<forall>c \<in> set (ps @ Conflict cl current base incoming il # ds). chunk_ok c"
    and ps: "concat (map (chunk_views nl) ps) = []"
  shows "resolve_first r (conflict_file nl (ps @ Conflict cl current base incoming il # ds)) =
    conflict_file nl (ps @ PlainLines (chosen_lines r current incoming) # ds)"
proof -
  let ?file = "conflict_file nl (ps @ Conflict cl current base incoming il # ds)"
  have "parse_conflict_hunks ?file \<noteq> []" using parse_at_conflict [OF nl ok] by auto
  then show ?thesis
    using resolve_conflict [OF nl ok, of r] ps by (simp add: resolve_first_def hd_conv_nth)
qed

lemma settled_cons:
  "concat (map (chunk_views nl) ps) = [] \<Longrightarrow>
     settled_chunks choices (ps @ PlainLines (chosen_lines r current incoming) # ds) =
     settled_chunks (r # choices) (ps @ Conflict cl current base incoming il # ds)"
  using settled_plain by simp

lemma chosen_ok:
  "chunk_ok (Conflict cl current base incoming il) \<Longrightarrow> chunk_ok (PlainLines (chosen_lines r current incoming))"
  by (cases r) (simp_all add: chosen_lines_def)

lemma fold_resolve_first:
  assumes "newline nl" "\<forall>c \<in> set cs. chunk_ok c" "length choices = length (concat (map (chunk_views nl) cs))"
  shows "fold resolve_first choices (conflict_file nl cs) = conflict_file nl (settled_chunks choices cs)"
  using assms(2,3)
proof (induction choices arbitrary: cs)
  case Nil
  then have "concat (map (chunk_views nl) cs) = []" by simp
  then show ?case using settled_plain [of nl cs "[]" "[]"] by simp
next
  case (Cons r choices)
  then have "concat (map (chunk_views nl) cs) \<noteq> []" by (metis length_0_conv list.distinct(1))
  then obtain ps cl current base incoming il ds where cs: "cs = ps @ Conflict cl current base incoming il # ds"
    and ps: "concat (map (chunk_views nl) ps) = []" by (rule first_conflict)
  let ?cs = "ps @ PlainLines (chosen_lines r current incoming) # ds"
  have ok: "\<forall>c \<in> set ?cs. chunk_ok c"
    using Cons.prems(1) chosen_ok [of cl current base incoming il r] by (auto simp: cs)
  have "fold resolve_first choices (conflict_file nl ?cs) = conflict_file nl (settled_chunks choices ?cs)"
    by (rule Cons.IH [OF ok]) (use Cons.prems(2) cs in simp)
  then show ?case
    using resolve_first_conflict [OF assms(1) _ ps] Cons.prems(1) settled_cons [OF ps] by (simp add: cs)
qed

lemma settled_file:
  assumes "newline nl" "\<forall>c \<in> set cs. chunk_ok c" "length choices = length (concat (map (chunk_views nl) cs))"
  shows "parse_conflict_hunks (conflict_file nl (settled_chunks choices cs)) = []"
    "\<not> has_conflict_marker_fragments (conflict_file nl (settled_chunks choices cs))"
proof -
  have views: "concat (map (chunk_views nl) (settled_chunks choices cs)) = []"
    using assms(3) by (induction choices cs rule: settled_chunks.induct) simp_all
  have ok: "\<forall>c \<in> set (settled_chunks choices cs). chunk_ok c"
    using assms(2) chosen_ok by (induction choices cs rule: settled_chunks.induct) auto
  show "parse_conflict_hunks (conflict_file nl (settled_chunks choices cs)) = []"
    using parse_file [OF assms(1) ok] views by simp
  show "\<not> has_conflict_marker_fragments (conflict_file nl (settled_chunks choices cs))"
    using plain_file_markers [OF assms(1) ok] views by simp
qed

section \<open>The properties\<close>

text \<open>
  C24: a conflict block is exactly what lies between its markers: for any source, the lines of the
  file are what precedes the block, a start marker line, the current side, a base marker line and
  the base where the block has one, a separator line, the incoming side, an end marker line, and
  what follows. Every marker is a line of its kind and the first one of that kind that can close
  what it closes: the current side holds no base marker or separator, the base no separator, the
  incoming side no end marker. The labels are those of the first and the last marker, the line
  numbers and byte offsets are those of the block, and a resolution replaces the block by the
  chosen side, or by both, and nothing else.
\<close>

theorem conflict_block_is_cut_out:
  assumes "h \<in> set (parse_conflict_hunks source)"
  shows "\<exists>parts. cut_block source h parts"
  by (rule parsed_hunk_cut [OF assms])

text \<open>
  C25: a file in conflict reads back: whatever plain lines and conflicts Git wrote, the parser finds
  exactly those conflicts, in order, with their labels and sides; and the file has a marker left
  exactly when a conflict is left.
\<close>

theorem conflict_file_reads_back:
  assumes "newline nl" "\<forall>c \<in> set cs. chunk_ok c"
  shows "map hunk_view (parse_conflict_hunks (conflict_file nl cs)) = concat (map (chunk_views nl) cs) \<and>
    (has_conflict_marker_fragments (conflict_file nl cs) \<longleftrightarrow> (\<exists>c \<in> set cs. chunk_views nl c \<noteq> []))"
  using parse_file [OF assms] plain_file_markers [OF assms] by blast

text \<open>
  C26: resolving the first block of such a file again and again, one choice per conflict, ends with
  the file in which every conflict has become its chosen lines, without a block or a marker left.
\<close>

theorem resolving_settles_the_file:
  assumes "newline nl" "\<forall>c \<in> set cs. chunk_ok c" "length choices = length (concat (map (chunk_views nl) cs))"
  shows "fold resolve_first choices (conflict_file nl cs) = conflict_file nl (settled_chunks choices cs) \<and>
    parse_conflict_hunks (conflict_file nl (settled_chunks choices cs)) = [] \<and>
    \<not> has_conflict_marker_fragments (conflict_file nl (settled_chunks choices cs))"
  using fold_resolve_first [OF assms] settled_file [OF assms] by blast

section \<open>A file in conflict\<close>

definition sample_chunks :: "chunk list" where
  "sample_chunks =
     [PlainLines [[97]], Conflict [72] [[98]] (Some ([111], [[120]])) [[99]] [109], PlainLines [[100]]]"

lemma sample_chunks_ok: "\<forall>c \<in> set sample_chunks. chunk_ok c"
  by (simp add: sample_chunks_def plain_line_def label_ok_def line_break_def is_conflict_marker_def is_start_def
      is_base_def is_separator_def is_end_def is_marker_def trim_def trim_start_def trim_end_def is_whitespace_def)

theorem conflict_block_is_cut_out_witness:
  "\<exists>h parts. h \<in> set (parse_conflict_hunks (conflict_file [10] sample_chunks)) \<and>
     ch_current_text h = [98, 10] \<and> cut_block (conflict_file [10] sample_chunks) h parts"
proof -
  have "map hunk_view (parse_conflict_hunks (conflict_file [10] sample_chunks)) =
      concat (map (chunk_views [10]) sample_chunks)"
    by (rule parse_file [OF _ sample_chunks_ok]) (simp add: newline_def)
  then obtain h where "h \<in> set (parse_conflict_hunks (conflict_file [10] sample_chunks))"
    "hunk_view h = (Some [72], [98, 10], Some [120, 10], [99, 10], Some [109])"
    by (auto simp: sample_chunks_def render_lines_def)
  with conflict_block_is_cut_out show ?thesis by (auto simp: hunk_view_def)
qed

theorem conflict_file_reads_back_witness:
  "map hunk_view (parse_conflict_hunks (conflict_file [10] sample_chunks)) =
     [(Some [72], [98, 10], Some [120, 10], [99, 10], Some [109])] \<and>
   has_conflict_marker_fragments (conflict_file [10] sample_chunks)"
  using conflict_file_reads_back [OF _ sample_chunks_ok, of "[10]"]
  by (simp add: newline_def sample_chunks_def)

theorem resolving_settles_the_file_witness:
  "fold resolve_first [ResolveBoth] (conflict_file [10] sample_chunks) = [97, 10, 98, 10, 99, 10, 100, 10]"
proof -
  have "fold resolve_first [ResolveBoth] (conflict_file [10] sample_chunks) =
      conflict_file [10] (settled_chunks [ResolveBoth] sample_chunks)"
    by (rule resolving_settles_the_file [THEN conjunct1, OF _ sample_chunks_ok])
      (simp_all add: newline_def sample_chunks_def)
  then show ?thesis by (simp add: sample_chunks_def chosen_lines_def conflict_file_def file_lines_def)
qed

end
