(* ===== verification/Merge_Answers.thy ===== *)
theory Merge_Answers
  imports Merge_Resolution Merge_Roundtrip
begin

text \<open>
  What an accepted suggestion guarantees, when a merge of such results can be completed, what a
  waiting run waits for, and what a long context keeps of a file.
\<close>

section \<open>The envelope\<close>

lemma find_text_split: "find_text p s = Some i \<Longrightarrow> s = take i s @ p @ drop (i + length p) s"
proof (induction s arbitrary: i)
  case Nil
  then show ?case by (simp split: if_splits)
next
  case (Cons c s)
  show ?case
  proof (cases "starts_with (c # s) p")
    case True
    then show ?thesis using Cons.prems by (simp add: starts_with_def) (metis append_take_drop_id)
  next
    case False
    then obtain j where "find_text p s = Some j" "i = Suc j" using Cons.prems by auto
    then show ?thesis using Cons.IH by simp
  qed
qed

lemma parsed_answer:
  assumes "parse_agent_resolution parse_json response token = Inr s"
  shows "\<exists>pre body post candidate explanation.
    response = pre @ envelope_open token @ body @ envelope_close token @ post \<and>
    parse_json (trim body) = Some (JsonObject candidate) \<and>
    candidate (lit ''resolvedContent'') = Some (JsonString (ag_resolved_content s)) \<and>
    candidate (lit ''explanation'') = Some (JsonString explanation) \<and>
    ag_explanation s = trim explanation \<and> ag_explanation s \<noteq> []"
proof -
  let ?open = "envelope_open token" and ?close = "envelope_close token"
  obtain start where start: "find_text ?open response = Some start"
    using assms by (auto simp: parse_agent_resolution_def Let_def and_then_Inr_iff)
  define body where "body = drop (start + length ?open) response"
  obtain stop parsed where stop: "find_text ?close body = Some stop" "parse_json (trim (take stop body)) = Some parsed"
    "suggestion_of parsed = Inr s"
    using assms start by (auto simp: parse_agent_resolution_def Let_def and_then_Inr_iff body_def)
  then obtain candidate explanation where c: "parsed = JsonObject candidate"
    "json_field candidate ''resolvedContent'' = Some (ag_resolved_content s)"
    "json_field candidate ''explanation'' = Some explanation" "\<not> blank explanation" "ag_explanation s = trim explanation"
    by (auto simp: suggestion_of_def split: json_value.splits option.splits if_splits)
  have field: "candidate (lit key) = Some (JsonString v)" if "json_field candidate key = Some v" for key v
    using that by (auto simp: json_field_def split: option.splits json_value.splits)
  have "response = take start response @ ?open @ take stop body @ ?close @ drop (stop + length ?close) body"
    using find_text_split [OF start] find_text_split [OF stop(1)] by (simp add: body_def)
  then show ?thesis
    using stop(2) c field [OF c(2)] field [OF c(3)] by (auto simp: blank_def)
qed

section \<open>Waiting runs\<close>

definition run_asks :: "turn_id \<Rightarrow> rstr \<Rightarrow> session_event_record \<Rightarrow> bool" where
  "run_asks turn i e = (case er_kind e of TurnPermissionRequested t r _ _ _ _ _ \<Rightarrow> t = turn \<and> r = i | _ \<Rightarrow> False)"

definition run_answers :: "turn_id \<Rightarrow> rstr \<Rightarrow> session_event_record \<Rightarrow> bool" where
  "run_answers turn i e = (case er_kind e of TurnPermissionResolved t r _ \<Rightarrow> t = turn \<and> r = i | _ \<Rightarrow> False)"

definition scanned_run :: "turn_id \<Rightarrow> session_event_record list \<Rightarrow> run_scan" where
  "scanned_run turn events = fold (\<lambda>e. run_step turn (er_kind e)) events
     \<lparr>rs_activities = [], rs_output = [], rs_permissions = {}, rs_inputs = {}\<rparr>"

lemma run_step_permissions:
  "i \<in> rs_permissions (run_step turn (er_kind e) r) \<longleftrightarrow>
     run_asks turn i e \<or> i \<in> rs_permissions r \<and> \<not> run_answers turn i e"
  by (cases "er_kind e") (auto simp: run_step_def acted_def run_asks_def run_answers_def)

lemma scanned_permissions:
  "i \<in> rs_permissions (scanned_run turn events) \<longleftrightarrow>
     (\<exists>h1 e h2. events = h1 @ e # h2 \<and> run_asks turn i e \<and> (\<forall>x \<in> set h2. \<not> run_answers turn i x))"
  by (rule history_since [where f = "\<lambda>h. i \<in> rs_permissions (scanned_run turn h)" and
        A = "\<lambda>_. run_asks turn i"])
    (simp_all add: scanned_run_def run_step_permissions)

lemma agent_run_details_scanned:
  "ad_pending_permission (agent_run_details events turn) \<longleftrightarrow> rs_permissions (scanned_run turn events) \<noteq> {}"
  "ad_output (agent_run_details events turn) = rs_output (scanned_run turn events)"
  "length (ad_activities (agent_run_details events turn)) \<le> 6"
  by (simp_all add: agent_run_details_def scanned_run_def Let_def)

definition turn_output :: "turn_id \<Rightarrow> session_event_record \<Rightarrow> rstr" where
  "turn_output turn e = (case er_kind e of TurnDelta t content \<Rightarrow> if t = turn then content else [] | _ \<Rightarrow> [])"

lemma scanned_output: "rs_output (scanned_run turn events) = concat (map (turn_output turn) events)"
proof (induction events rule: rev_induct)
  case (snoc e events)
  have "rs_output (run_step turn (er_kind e) r) = rs_output r @ turn_output turn e" for r
    by (cases "er_kind e") (auto simp: run_step_def acted_def turn_output_def)
  then show ?case using snoc by (simp add: scanned_run_def)
qed (simp add: scanned_run_def)

section \<open>Long contexts\<close>

text \<open>
  The limit counts UTF-16 units and the cut counts characters: a file of 12001 to 23999 characters
  that needs more than 24000 units is not shortened, its middle is repeated.
\<close>

lemma bounded_context_repeats:
  assumes "12000 < length v" "length v < 24000" "24000 < utf16_len v"
  shows "\<exists>a b c. v = a @ b @ c \<and> b \<noteq> [] \<and> bounded_context (Some v) label = a @ b @ TRUNCATED_NOTE @ b @ c"
proof (intro exI conjI)
  let ?n = "length v - 12000"
  show "v = take ?n v @ take (24000 - length v) (drop ?n v) @ drop 12000 v"
  proof -
    have "drop 12000 v = drop (24000 - length v) (drop ?n v)" using assms by simp
    then show ?thesis by (metis append_take_drop_id)
  qed
  have a: "take 12000 v = take ?n v @ take (24000 - length v) (drop ?n v)"
    using assms take_add [of ?n "24000 - length v" v] by simp
  have c: "drop ?n v = take (24000 - length v) (drop ?n v) @ drop 12000 v"
  proof -
    have "drop 12000 v = drop (24000 - length v) (drop ?n v)" using assms by simp
    then show ?thesis by (metis append_take_drop_id)
  qed
  show "bounded_context (Some v) label =
      take ?n v @ take (24000 - length v) (drop ?n v) @ TRUNCATED_NOTE @ take (24000 - length v) (drop ?n v) @ drop 12000 v"
    using assms(3) a c by (simp add: bounded_context_def MAX_CONTEXT_CHARS_def Let_def)
  show "take (24000 - length v) (drop ?n v) \<noteq> []" using assms by simp
qed

section \<open>The properties\<close>

text \<open>
  C27: a suggestion that is accepted came inside the envelope of this request's token, as the JSON
  object serde read there; it leaves no marker, is not empty where a side had code, and explains
  itself; and a conflict whose result it becomes is settled.
\<close>

theorem accepted_suggestion_settles:
  assumes "parse_agent_resolution parse_json response token = Inr s"
    and "validate_agent_resolution s current_text incoming_text = Inr s'"
  shows "s' = s \<and>
    (\<exists>pre body post candidate.
      response = pre @ envelope_open token @ body @ envelope_close token @ post \<and>
      parse_json (trim body) = Some (JsonObject candidate) \<and>
      candidate (lit ''resolvedContent'') = Some (JsonString (ag_resolved_content s))) \<and>
    ag_explanation s \<noteq> [] \<and>
    (has_code current_text \<or> has_code incoming_text \<longrightarrow> \<not> blank (ag_resolved_content s)) \<and>
    (\<forall>conflict.
      (ce_kind conflict = BothModified \<or> ce_kind conflict = BothAdded) \<and> cc_exists (ce_result conflict) \<and>
      \<not> cc_binary (ce_result conflict) \<and> \<not> cc_truncated (ce_result conflict) \<and>
      cc_text (ce_result conflict) = Some (ag_resolved_content s) \<longrightarrow> result_settled conflict)"
  using parsed_answer [OF assms(1)] assms(2)
  by (auto simp: validate_agent_resolution_def result_settled_def is_some_and_def split: if_splits)

text \<open>
  A run waits on a permission exactly when its turn asked for one that was not answered since,
  its output is all the text its turn streamed, and it shows at most six activities.
\<close>

lemma run_waits_for_answer:
  "(ad_pending_permission (agent_run_details events turn) \<longleftrightarrow>
      (\<exists>i h1 e h2. events = h1 @ e # h2 \<and> run_asks turn i e \<and>
        list_all (\<lambda>x. \<not> run_answers turn i x) h2)) \<and>
    ad_output (agent_run_details events turn) = concat (map (turn_output turn) events) \<and>
    length (ad_activities (agent_run_details events turn)) \<le> 6"
  unfolding agent_run_details_scanned(1,2) scanned_output list_all_iff
  using scanned_permissions [of _ turn events] agent_run_details_scanned(3) by blast

section \<open>An accepted answer\<close>

definition sample_token :: rstr where "sample_token = [116]"

definition sample_answer :: rstr where
  "sample_answer = envelope_open sample_token @ [123] @ envelope_close sample_token"

definition sample_json :: "rstr \<Rightarrow> json_value option" where
  "sample_json text_read = (if text_read = [123] then Some (JsonObject
     [lit ''resolvedContent'' \<mapsto> JsonString [97, 10], lit ''explanation'' \<mapsto> JsonString [98]]) else None)"

lemma sample_parsed:
  "parse_agent_resolution sample_json sample_answer sample_token =
     Inr \<lparr>ag_resolved_content = [97, 10], ag_explanation = [98]\<rparr>"
proof -
  have "find_text (envelope_open sample_token) sample_answer = Some 0"
    by (simp add: sample_answer_def envelope_open_def sample_token_def lit_def starts_with_def)
  moreover have "find_text (envelope_close sample_token) ([123] @ envelope_close sample_token) = Some 1"
    by (simp add: envelope_close_def sample_token_def lit_def starts_with_def)
  ultimately show ?thesis
    by (simp add: parse_agent_resolution_def sample_answer_def Let_def sample_json_def suggestion_of_def
        json_field_def lit_def trim_def trim_start_def trim_end_def is_whitespace_def blank_iff)
qed

lemma sample_validated:
  "validate_agent_resolution \<lparr>ag_resolved_content = [97, 10], ag_explanation = [98]\<rparr> (Some [97]) None =
     Inr \<lparr>ag_resolved_content = [97, 10], ag_explanation = [98]\<rparr>"
  by (simp add: validate_agent_resolution_def has_code_def is_some_and_def blank_iff is_whitespace_def
      has_conflict_marker_fragments_def source_lines_def source_lines_from.simps line_break_def ending_of_def
      is_start_def is_base_def is_separator_def is_end_def is_marker_def)

theorem accepted_suggestion_settles_witness:
  "\<exists>pre body post. sample_answer = pre @ envelope_open sample_token @ body @ envelope_close sample_token @ post \<and>
     (\<exists>candidate. sample_json (trim body) = Some (JsonObject candidate))"
  using accepted_suggestion_settles [OF sample_parsed sample_validated] by blast

end
