(* ===== verification/Delegation_Types.thy ===== *)
theory Delegation_Types
  imports Undo_Records Sql_Tables
begin

text \<open>
  The two durable records of a delegated task (\<open>crates/dcc-core/src/domain/delegation_worktree.rs\<close>
  and \<open>delegation_apply.rs\<close>): the worktree a child session edits, from its creation to its removal,
  and one attempt to apply its changes to the checkout of the parent. Each has its states, the edges
  a repository may take between them, and the checks of \<open>validate\<close>, in the order of the code.
  \<open>parse_time\<close> stands for chrono's RFC 3339 parser; the newtypes of ids are the strings they wrap.
\<close>

section \<open>Worktree operations\<close>

datatype worktree_state =
    WtPreparing | WtPrepared | WtBound | WtReviewPending | WtApplying | WtApplied
  | WtRemoving | WtRemoved | WtCleanupRequired

definition worktree_is_terminal :: "worktree_state \<Rightarrow> bool" where
  "worktree_is_terminal st \<longleftrightarrow> st = WtRemoved"

definition worktree_can_transition :: "worktree_state \<Rightarrow> worktree_state \<Rightarrow> bool" where
  "worktree_can_transition st nxt \<longleftrightarrow>
     (st, nxt) \<in> {(WtPreparing, WtPrepared), (WtPrepared, WtBound), (WtPrepared, WtReviewPending),
       (WtPrepared, WtRemoving), (WtBound, WtReviewPending), (WtBound, WtRemoving),
       (WtReviewPending, WtApplying), (WtReviewPending, WtRemoving), (WtApplying, WtReviewPending),
       (WtApplying, WtApplied), (WtApplied, WtRemoving), (WtRemoving, WtRemoved),
       (WtCleanupRequired, WtRemoving)}
     \<or> \<not> worktree_is_terminal st \<and> nxt = WtCleanupRequired"

record worktree_operation =
  wo_operation_id :: rstr
  wo_delegation_key :: "rstr option"
  wo_delegation_id :: "rstr option"
  wo_workspace_id :: rstr
  wo_parent_session_id :: "rstr option"
  wo_child_session_id :: "rstr option"
  wo_source_root :: rstr
  wo_worktree_path :: rstr
  wo_branch :: rstr
  wo_base_commit :: rstr
  wo_expected_branch_oid :: "rstr option"
  wo_source_root_id :: "physical_root_id option"
  wo_worktree_root_id :: "physical_root_id option"
  wo_common_dir_id :: "physical_root_id option"
  wo_state :: worktree_state
  wo_last_error :: "rstr option"
  wo_recovery_owner :: "rstr option"
  wo_recovery_lease_until :: "rstr option"
  wo_created_at :: rstr
  wo_updated_at :: rstr

definition valid_oid :: "rstr \<Rightarrow> bool" where
  "valid_oid v \<longleftrightarrow> (byte_len v = 40 \<or> byte_len v = 64) \<and> list_all is_ascii_hexdigit v"

definition owner_ok :: "rstr \<Rightarrow> bool" where
  "owner_ok owner \<longleftrightarrow> \<not> blank owner \<and> byte_len owner \<le> 256"

text \<open>The shared shape of the checks on the owner of a recovery and its lease.\<close>

definition authority_check ::
    "(rstr \<Rightarrow> int option) \<Rightarrow> string \<Rightarrow> bool \<Rightarrow> string \<Rightarrow> string \<Rightarrow> rstr option \<Rightarrow> rstr option \<Rightarrow> rstr + unit" where
  "authority_check parse_time subject holds needless missing owner lease =
     (case (owner, lease) of
        (Some p, Some l) \<Rightarrow>
          first_err [require (owner_ok p) (lit subject @ lit '' recovery owner is invalid''),
            require (parse_time l \<noteq> None) (lit subject @ lit '' recovery lease is not RFC3339''),
            require holds (lit needless)]
      | (None, None) \<Rightarrow> require (\<not> holds) (lit missing)
      | _ \<Rightarrow> Inl (lit subject @ lit '' recovery owner and lease must be stored together''))"

definition nonempty_field :: "string \<Rightarrow> string \<times> rstr \<Rightarrow> rstr + unit" where
  "nonempty_field subject f =
     require (\<not> blank (snd f)) (lit subject @ lit '' '' @ lit (fst f) @ lit '' cannot be empty'')"

definition worktree_validate :: "(rstr \<Rightarrow> int option) \<Rightarrow> worktree_operation \<Rightarrow> rstr + unit" where
  "worktree_validate parse_time w = first_err (
     map (nonempty_field ''delegation worktree'')
       [(''operation_id'', wo_operation_id w), (''workspace_id'', wo_workspace_id w),
        (''source_root'', wo_source_root w), (''worktree_path'', wo_worktree_path w),
        (''branch'', wo_branch w), (''base_commit'', wo_base_commit w),
        (''created_at'', wo_created_at w), (''updated_at'', wo_updated_at w)] @
     map (\<lambda>f. validate_opt (\<lambda>v. nonempty_field ''delegation worktree'' (fst f, v)) (snd f))
       [(''delegation_key'', wo_delegation_key w), (''delegation_id'', wo_delegation_id w),
        (''parent_session_id'', wo_parent_session_id w), (''child_session_id'', wo_child_session_id w)] @
     [validate_opt (\<lambda>oid. require (valid_oid (trim oid))
        (lit ''delegation worktree expected_branch_oid is invalid'')) (wo_expected_branch_oid w)] @
     map (validate_opt (\<lambda>root. require (root_validate root = Inr ())
        (lit ''delegation worktree physical identity is invalid'')))
       [wo_source_root_id w, wo_worktree_root_id w, wo_common_dir_id w] @
     [require (opt_ok (\<lambda>e. \<not> blank e) (wo_last_error w)) (lit ''delegation worktree last_error cannot be empty''),
      require (\<not> (wo_state w = WtCleanupRequired \<and> wo_last_error w = None))
        (lit ''cleanup-required delegation worktree must retain its last error''),
      authority_check parse_time ''delegation worktree'' (wo_state w = WtRemoving)
        ''delegation worktree recovery authority requires removing state''
        ''removing delegation worktree requires recovery authority''
        (wo_recovery_owner w) (wo_recovery_lease_until w)])"

section \<open>Apply transactions\<close>

datatype apply_state =
  ApPreparing | ApPrepared | ApApplying | ApApplied | ApRolledBack | ApRecoveryRequired

definition apply_is_terminal :: "apply_state \<Rightarrow> bool" where
  "apply_is_terminal st \<longleftrightarrow> st = ApApplied \<or> st = ApRolledBack"

definition can_pre_apply_transition_to :: "apply_state \<Rightarrow> apply_state \<Rightarrow> bool" where
  "can_pre_apply_transition_to st nxt \<longleftrightarrow>
     (st, nxt) \<in> {(ApPreparing, ApPrepared), (ApPreparing, ApRolledBack), (ApPrepared, ApRolledBack)}"

record apply_transaction =
  at_transaction_id :: rstr
  at_operation_id :: rstr
  at_delegation_id :: rstr
  at_workspace_id :: rstr
  at_source_head_oid :: "rstr option"
  at_destination_head_oid :: "rstr option"
  at_destination_ref :: "rstr option"
  at_destination_index_tree_oid :: "rstr option"
  at_manifest_digest :: "rstr option"
  at_file_count :: u32
  at_artifact_bytes :: u64
  at_state :: apply_state
  at_recovery_owner :: "rstr option"
  at_recovery_lease_until :: "rstr option"
  at_last_error :: "rstr option"
  at_created_at :: rstr
  at_updated_at :: rstr

text \<open>The manifest a transaction must carry once it is prepared.\<close>

definition has_manifest :: "apply_transaction \<Rightarrow> bool" where
  "has_manifest a \<longleftrightarrow> at_source_head_oid a \<noteq> None \<and> at_destination_head_oid a \<noteq> None \<and>
     at_destination_index_tree_oid a \<noteq> None \<and> at_manifest_digest a \<noteq> None \<and> at_file_count a \<noteq> 0"

definition apply_state_check :: "apply_transaction \<Rightarrow> rstr + unit" where
  "apply_state_check a =
     (case at_state a of
        ApPreparing \<Rightarrow>
          require (at_source_head_oid a = None \<and> at_destination_head_oid a = None \<and>
              at_destination_ref a = None \<and> at_destination_index_tree_oid a = None \<and>
              at_manifest_digest a = None \<and> at_file_count a = 0 \<and> at_artifact_bytes a = 0)
            (lit ''preparing delegation apply cannot publish manifest accounting'')
      | ApRecoveryRequired \<Rightarrow>
          require (has_manifest a \<and> at_last_error a \<noteq> None)
            (lit ''recovery-required delegation apply needs manifest and error'')
      | ApRolledBack \<Rightarrow> Inr ()
      | _ \<Rightarrow> first_err [require (has_manifest a) (lit ''prepared delegation apply requires a non-empty manifest''),
          require (at_last_error a = None) (lit ''active/successful delegation apply cannot retain an error'')])"

definition apply_validate :: "(rstr \<Rightarrow> int option) \<Rightarrow> apply_transaction \<Rightarrow> rstr + unit" where
  "apply_validate parse_time a = first_err (
     map (nonempty_field ''delegation apply'')
       [(''transaction_id'', at_transaction_id a), (''operation_id'', at_operation_id a),
        (''delegation_id'', at_delegation_id a), (''workspace_id'', at_workspace_id a),
        (''created_at'', at_created_at a), (''updated_at'', at_updated_at a)] @
     map (\<lambda>f. require (opt_ok valid_oid (snd f))
         (lit ''delegation apply '' @ lit (fst f) @ lit '' is invalid''))
       [(''source_head_oid'', at_source_head_oid a), (''destination_head_oid'', at_destination_head_oid a),
        (''destination_index_tree_oid'', at_destination_index_tree_oid a)] @
     [require (opt_ok (\<lambda>v. \<not> (blank v \<or> 1024 < byte_len v \<or> 0 \<in> set v)) (at_destination_ref a))
        (lit ''delegation apply destination_ref is invalid''),
      require (opt_ok (\<lambda>d. byte_len d = 64 \<and> list_all is_ascii_hexdigit d) (at_manifest_digest a))
        (lit ''delegation apply manifest_digest is invalid'')] @
     map (\<lambda>f. require (parse_time (snd f) \<noteq> None)
         (lit ''delegation apply '' @ lit (fst f) @ lit '' is not RFC3339''))
       [(''created_at'', at_created_at a), (''updated_at'', at_updated_at a)] @
     [require (opt_ok (\<lambda>e. \<not> blank e) (at_last_error a)) (lit ''delegation apply last_error cannot be empty''),
      authority_check parse_time ''delegation apply'' (at_state a = ApApplying)
        ''delegation apply recovery authority requires applying state''
        ''applying delegation transaction requires recovery authority''
        (at_recovery_owner a) (at_recovery_lease_until a),
      apply_state_check a])"

section \<open>What the checks give\<close>

lemma authority_check_ok:
  "authority_check parse_time subject holds needless missing owner lease = Inr u \<longleftrightarrow>
     (case (owner, lease) of (Some p, Some l) \<Rightarrow> owner_ok p \<and> parse_time l \<noteq> None \<and> holds
        | (None, None) \<Rightarrow> \<not> holds | _ \<Rightarrow> False)"
  by (auto simp: authority_check_def and_then_Inr_iff split: option.splits)

lemma nonempty_field_ok [simp]: "nonempty_field subject f = Inr u \<longleftrightarrow> \<not> blank (snd f)"
  by (simp add: nonempty_field_def)

lemma worktree_validate_ok:
  "worktree_validate parse_time w = Inr () \<longleftrightarrow>
     \<not> blank (wo_operation_id w) \<and> \<not> blank (wo_workspace_id w) \<and> \<not> blank (wo_source_root w) \<and>
     \<not> blank (wo_worktree_path w) \<and> \<not> blank (wo_branch w) \<and> \<not> blank (wo_base_commit w) \<and>
     \<not> blank (wo_created_at w) \<and> \<not> blank (wo_updated_at w) \<and>
     opt_ok (\<lambda>v. \<not> blank v) (wo_delegation_key w) \<and> opt_ok (\<lambda>v. \<not> blank v) (wo_delegation_id w) \<and>
     opt_ok (\<lambda>v. \<not> blank v) (wo_parent_session_id w) \<and> opt_ok (\<lambda>v. \<not> blank v) (wo_child_session_id w) \<and>
     opt_ok (\<lambda>oid. valid_oid (trim oid)) (wo_expected_branch_oid w) \<and>
     opt_ok (\<lambda>r. root_validate r = Inr ()) (wo_source_root_id w) \<and>
     opt_ok (\<lambda>r. root_validate r = Inr ()) (wo_worktree_root_id w) \<and>
     opt_ok (\<lambda>r. root_validate r = Inr ()) (wo_common_dir_id w) \<and>
     opt_ok (\<lambda>e. \<not> blank e) (wo_last_error w) \<and>
     (wo_state w = WtCleanupRequired \<longrightarrow> wo_last_error w \<noteq> None) \<and>
     (case (wo_recovery_owner w, wo_recovery_lease_until w) of
        (Some p, Some l) \<Rightarrow> owner_ok p \<and> parse_time l \<noteq> None \<and> wo_state w = WtRemoving
      | (None, None) \<Rightarrow> wo_state w \<noteq> WtRemoving | _ \<Rightarrow> False)"
  unfolding worktree_validate_def first_err_Inr_iff
  by (auto simp: authority_check_ok validate_opt_Inr_iff opt_ok_def split: option.splits)

lemma apply_validate_ok:
  "apply_validate parse_time a = Inr () \<longleftrightarrow>
     \<not> blank (at_transaction_id a) \<and> \<not> blank (at_operation_id a) \<and> \<not> blank (at_delegation_id a) \<and>
     \<not> blank (at_workspace_id a) \<and> \<not> blank (at_created_at a) \<and> \<not> blank (at_updated_at a) \<and>
     opt_ok valid_oid (at_source_head_oid a) \<and> opt_ok valid_oid (at_destination_head_oid a) \<and>
     opt_ok valid_oid (at_destination_index_tree_oid a) \<and>
     opt_ok (\<lambda>v. \<not> (blank v \<or> 1024 < byte_len v \<or> 0 \<in> set v)) (at_destination_ref a) \<and>
     opt_ok (\<lambda>d. byte_len d = 64 \<and> list_all is_ascii_hexdigit d) (at_manifest_digest a) \<and>
     parse_time (at_created_at a) \<noteq> None \<and> parse_time (at_updated_at a) \<noteq> None \<and>
     opt_ok (\<lambda>e. \<not> blank e) (at_last_error a) \<and>
     (case (at_recovery_owner a, at_recovery_lease_until a) of
        (Some p, Some l) \<Rightarrow> owner_ok p \<and> parse_time l \<noteq> None \<and> at_state a = ApApplying
      | (None, None) \<Rightarrow> at_state a \<noteq> ApApplying | _ \<Rightarrow> False) \<and>
     apply_state_check a = Inr ()"
  unfolding apply_validate_def first_err_Inr_iff
  by (simp add: authority_check_ok)

lemma apply_state_check_ok:
  "apply_state_check a = Inr () \<longleftrightarrow>
     (case at_state a of
        ApPreparing \<Rightarrow> at_source_head_oid a = None \<and> at_destination_head_oid a = None \<and>
          at_destination_ref a = None \<and> at_destination_index_tree_oid a = None \<and>
          at_manifest_digest a = None \<and> at_file_count a = 0 \<and> at_artifact_bytes a = 0
      | ApRecoveryRequired \<Rightarrow> has_manifest a \<and> at_last_error a \<noteq> None
      | ApRolledBack \<Rightarrow> True
      | _ \<Rightarrow> has_manifest a \<and> at_last_error a = None)"
  by (simp add: apply_state_check_def and_then_Inr_iff split: apply_state.splits)

end
