(* ===== verification/Delegation_Journal.thy ===== *)
theory Delegation_Journal
  imports Delegation_Types
begin

text \<open>
  The durable journal of delegated tasks (\<open>crates/dcc-infra/src/db.rs\<close>): the table of worktree
  operations, the table of apply transactions, and every operation on them. Each runs under the
  connection lock as one statement or one immediate transaction, so it is a function from the tables
  to an error, which leaves them unchanged, or to its result and the new tables. A transaction that
  is dropped without a commit returns the tables it found. \<open>dn_parse\<close> and \<open>dn_format\<close> stand for
  chrono's RFC 3339 parser and its \<open>to_rfc3339_opts\<close> in UTC with nanoseconds, on instants;
  \<open>dn_fault\<close> for the texts of rusqlite's errors. Timestamps are compared as texts, as the code and
  SQLite compare them. A journal that stops being locked (a poisoned mutex) is not modelled.
\<close>

section \<open>Tables\<close>

datatype sql_fault = ConstraintFault | RootFault | RowFault rstr

record delegation_env =
  dn_parse :: "rstr \<Rightarrow> int option"
  dn_format :: "int \<Rightarrow> rstr"
  dn_fault :: "sql_fault \<Rightarrow> rstr"

record delegations =
  dl_operations :: "worktree_operation list"
  dl_applies :: "apply_transaction list"

definition root_blob_ok :: "physical_root_id option \<Rightarrow> bool" where
  "root_blob_ok r = opt_ok (\<lambda>root. case root of PhysicalRootId bs \<Rightarrow> 3 \<le> length bs \<and> length bs \<le> 1024) r"

definition error_column_ok :: "rstr option \<Rightarrow> bool" where
  "error_column_ok v = opt_ok (\<lambda>text. 0 < sql_length (sql_trim text)) v"

definition authority_columns_ok :: "bool \<Rightarrow> rstr option \<Rightarrow> rstr option \<Rightarrow> bool" where
  "authority_columns_ok holds owner lease \<longleftrightarrow>
     owner = None \<and> lease = None \<or> holds \<and> owner \<noteq> None \<and> lease \<noteq> None"

definition worktree_row_ok :: "worktree_operation \<Rightarrow> bool" where
  "worktree_row_ok w \<longleftrightarrow>
     root_blob_ok (wo_source_root_id w) \<and> root_blob_ok (wo_worktree_root_id w) \<and>
     root_blob_ok (wo_common_dir_id w) \<and> error_column_ok (wo_last_error w) \<and>
     (wo_state w \<noteq> WtCleanupRequired \<or> wo_last_error w \<noteq> None) \<and>
     authority_columns_ok (wo_state w = WtRemoving) (wo_recovery_owner w) (wo_recovery_lease_until w)"

definition live_operations :: "worktree_operation list \<Rightarrow> worktree_operation list" where
  "live_operations ws = filter (\<lambda>w. wo_state w \<noteq> WtRemoved) ws"

definition worktree_table_ok :: "worktree_operation list \<Rightarrow> bool" where
  "worktree_table_ok ws \<longleftrightarrow>
     distinct (map wo_operation_id ws) \<and> list_all worktree_row_ok ws \<and>
     distinct (map wo_worktree_path (live_operations ws)) \<and>
     distinct (map (\<lambda>w. (wo_source_root w, wo_branch w)) (live_operations ws)) \<and>
     distinct (List.map_filter wo_worktree_root_id (live_operations ws)) \<and>
     distinct (map (\<lambda>w. (wo_common_dir_id w, wo_branch w))
       (filter (\<lambda>w. wo_common_dir_id w \<noteq> None) (live_operations ws))) \<and>
     distinct (List.map_filter wo_delegation_id ws)"

definition oid_column_ok :: "rstr option \<Rightarrow> bool" where
  "oid_column_ok v = opt_ok (\<lambda>oid. sql_length oid \<in> {40, 64}) v"

definition apply_row_ok :: "apply_transaction \<Rightarrow> bool" where
  "apply_row_ok a \<longleftrightarrow>
     oid_column_ok (at_source_head_oid a) \<and> oid_column_ok (at_destination_head_oid a) \<and>
     oid_column_ok (at_destination_index_tree_oid a) \<and>
     opt_ok (\<lambda>d. sql_length d = 64) (at_manifest_digest a) \<and>
     opt_ok (\<lambda>r. 1 \<le> sql_length r \<and> sql_length r \<le> 1024) (at_destination_ref a) \<and>
     error_column_ok (at_last_error a) \<and>
     authority_columns_ok (at_state a = ApApplying) (at_recovery_owner a) (at_recovery_lease_until a)"

definition active_applies :: "apply_transaction list \<Rightarrow> apply_transaction list" where
  "active_applies ats = filter (\<lambda>a. \<not> apply_is_terminal (at_state a)) ats"

definition apply_table_ok :: "apply_transaction list \<Rightarrow> bool" where
  "apply_table_ok ats \<longleftrightarrow> distinct (map at_transaction_id ats) \<and> list_all apply_row_ok ats \<and>
     distinct (map at_operation_id (active_applies ats))"

definition write_operations ::
    "delegation_env \<Rightarrow> worktree_operation list \<Rightarrow> delegations \<Rightarrow> core_error + delegations" where
  "write_operations e ws t =
     (if worktree_table_ok ws then Inr (t\<lparr>dl_operations := ws\<rparr>)
      else Inl (RepositoryErr (dn_fault e ConstraintFault)))"

definition write_applies ::
    "delegation_env \<Rightarrow> apply_transaction list \<Rightarrow> delegations \<Rightarrow> core_error + delegations" where
  "write_applies e ats t =
     (if apply_table_ok ats then Inr (t\<lparr>dl_applies := ats\<rparr>)
      else Inl (RepositoryErr (dn_fault e ConstraintFault)))"

text \<open>\<open>UPDATE\<close>: the number of rows changed, and the tables after it.\<close>

definition update_operations ::
    "delegation_env \<Rightarrow> (worktree_operation \<Rightarrow> bool) \<Rightarrow> (worktree_operation \<Rightarrow> worktree_operation) \<Rightarrow>
      delegations \<Rightarrow> core_error + nat \<times> delegations" where
  "update_operations e hit f t =
     and_then (write_operations e (update_where hit f (dl_operations t)) t)
       (\<lambda>t'. Inr (changed_rows hit (dl_operations t), t'))"

definition update_applies ::
    "delegation_env \<Rightarrow> (apply_transaction \<Rightarrow> bool) \<Rightarrow> (apply_transaction \<Rightarrow> apply_transaction) \<Rightarrow>
      delegations \<Rightarrow> core_error + nat \<times> delegations" where
  "update_applies e hit f t =
     and_then (write_applies e (update_where hit f (dl_applies t)) t)
       (\<lambda>t'. Inr (changed_rows hit (dl_applies t), t'))"

section \<open>Shared checks\<close>

definition as_input :: "rstr + 'a \<Rightarrow> core_error + 'a" where
  "as_input r = (case r of Inl m \<Rightarrow> Inl (InvalidInput m) | Inr x \<Rightarrow> Inr x)"

definition refuse :: "string \<Rightarrow> core_error + 'a" where
  "refuse message = Inl (InvalidInput (lit message))"

definition normalize_delegation_recovery_timestamp ::
    "delegation_env \<Rightarrow> rstr \<Rightarrow> string \<Rightarrow> core_error + rstr" where
  "normalize_delegation_recovery_timestamp e v field =
     (case dn_parse e v of
        None \<Rightarrow> Inl (InvalidInput (lit ''delegation worktree '' @ lit field @ lit '' must be RFC3339''))
      | Some instant \<Rightarrow> Inr (dn_format e instant))"

definition recovery_owner_param :: "string \<Rightarrow> rstr \<Rightarrow> core_error + rstr" where
  "recovery_owner_param message owner =
     (if trim owner = [] \<or> 256 < byte_len (trim owner) then refuse message else Inr (trim owner))"

definition worktree_state_text :: "worktree_state \<Rightarrow> string" where
  "worktree_state_text st =
     (case st of WtPreparing \<Rightarrow> ''preparing'' | WtPrepared \<Rightarrow> ''prepared'' | WtBound \<Rightarrow> ''bound''
      | WtReviewPending \<Rightarrow> ''review_pending'' | WtApplying \<Rightarrow> ''applying'' | WtApplied \<Rightarrow> ''applied''
      | WtRemoving \<Rightarrow> ''removing'' | WtRemoved \<Rightarrow> ''removed'' | WtCleanupRequired \<Rightarrow> ''cleanup_required'')"

definition decode_operation :: "delegation_env \<Rightarrow> worktree_operation \<Rightarrow> core_error + worktree_operation" where
  "decode_operation e w =
     (if list_ex (\<lambda>r. r \<noteq> None \<and> validate_opt root_validate r \<noteq> Inr ())
          [wo_source_root_id w, wo_worktree_root_id w, wo_common_dir_id w]
      then Inl (RepositoryErr (dn_fault e RootFault))
      else case worktree_validate (dn_parse e) w of
        Inl m \<Rightarrow> Inl (RepositoryErr (dn_fault e (RowFault m)))
      | Inr _ \<Rightarrow> Inr w)"

definition decode_apply :: "delegation_env \<Rightarrow> apply_transaction \<Rightarrow> core_error + apply_transaction" where
  "decode_apply e a =
     (case apply_validate (dn_parse e) a of
        Inl m \<Rightarrow> Inl (RepositoryErr (dn_fault e (RowFault m)))
      | Inr _ \<Rightarrow> Inr a)"

text \<open>\<open>query_row(...).optional()\<close>.\<close>

definition optional_row :: "('a \<Rightarrow> core_error + 'a) \<Rightarrow> 'a option \<Rightarrow> core_error + 'a option" where
  "optional_row decode row =
     (case row of None \<Rightarrow> Inr None | Some r \<Rightarrow> and_then (decode r) (\<lambda>x. Inr (Some x)))"

section \<open>Worktree operations\<close>

definition create_delegation_worktree_operation ::
    "delegation_env \<Rightarrow> worktree_operation \<Rightarrow> delegations \<Rightarrow> core_error + delegations" where
  "create_delegation_worktree_operation e w t =
     and_then (as_input (worktree_validate (dn_parse e) w)) (\<lambda>_.
     if wo_state w \<noteq> WtPreparing
     then refuse ''delegation worktree journal must be created in preparing state''
     else write_operations e (dl_operations t @ [w]) t)"

definition get_delegation_worktree_operation ::
    "delegation_env \<Rightarrow> rstr \<Rightarrow> delegations \<Rightarrow> core_error + worktree_operation option" where
  "get_delegation_worktree_operation e oid t =
     optional_row (decode_operation e) (lookup_by wo_operation_id oid (dl_operations t))"

definition get_delegation_worktree_operation_by_delegation_id ::
    "delegation_env \<Rightarrow> rstr \<Rightarrow> delegations \<Rightarrow> core_error + worktree_operation option" where
  "get_delegation_worktree_operation_by_delegation_id e did t =
     optional_row (decode_operation e) (lookup_by wo_delegation_id (Some did) (dl_operations t))"

definition list_delegation_worktree_operations_by_workspace ::
    "delegation_env \<Rightarrow> rstr \<Rightarrow> delegations \<Rightarrow> core_error + worktree_operation list" where
  "list_delegation_worktree_operations_by_workspace e workspace t =
     collect_rows (decode_operation e)
       (sort_key wo_created_at (sort_key wo_operation_id
         (filter (\<lambda>w. wo_workspace_id w = workspace) (dl_operations t))))"

definition list_delegation_worktree_operations_requiring_recovery ::
    "delegation_env \<Rightarrow> delegations \<Rightarrow> core_error + worktree_operation list" where
  "list_delegation_worktree_operations_requiring_recovery e t =
     collect_rows (decode_operation e)
       (sort_key wo_updated_at (sort_key wo_created_at (sort_key wo_operation_id
         (live_operations (dl_operations t)))))"

definition swapped_operation :: "worktree_operation \<Rightarrow> worktree_operation \<Rightarrow> worktree_operation" where
  "swapped_operation w q =
     q\<lparr>wo_delegation_key := wo_delegation_key w, wo_delegation_id := wo_delegation_id w,
       wo_parent_session_id := wo_parent_session_id w, wo_child_session_id := wo_child_session_id w,
       wo_expected_branch_oid := wo_expected_branch_oid w, wo_source_root_id := wo_source_root_id w,
       wo_worktree_root_id := wo_worktree_root_id w, wo_common_dir_id := wo_common_dir_id w,
       wo_state := wo_state w, wo_last_error := wo_last_error w, wo_updated_at := wo_updated_at w\<rparr>"

definition swap_hit :: "worktree_state \<Rightarrow> worktree_operation \<Rightarrow> worktree_operation \<Rightarrow> bool" where
  "swap_hit expected w q \<longleftrightarrow>
     wo_operation_id q = wo_operation_id w \<and> wo_state q = expected \<and>
     wo_workspace_id q = wo_workspace_id w \<and> wo_source_root q = wo_source_root w \<and>
     wo_worktree_path q = wo_worktree_path w \<and> wo_branch q = wo_branch w \<and>
     wo_base_commit q = wo_base_commit w \<and> wo_created_at q = wo_created_at w"

definition compare_and_swap_delegation_worktree_operation ::
    "delegation_env \<Rightarrow> worktree_state \<Rightarrow> worktree_operation \<Rightarrow> delegations \<Rightarrow> core_error + bool \<times> delegations" where
  "compare_and_swap_delegation_worktree_operation e expected w t =
     and_then (as_input (worktree_validate (dn_parse e) w)) (\<lambda>_.
     if expected = WtRemoving \<or> wo_state w = WtRemoving
     then refuse ''removing transitions require the recovery claim API''
     else if wo_state w = WtApplying \<or> expected = WtApplying \<and> wo_state w \<noteq> WtCleanupRequired
     then refuse ''applying transitions require the delegation apply transaction API''
     else if \<not> worktree_can_transition expected (wo_state w)
     then Inl (InvalidInput (lit ''invalid delegation worktree transition from '' @
       lit (worktree_state_text expected) @ lit '' to '' @ lit (worktree_state_text (wo_state w))))
     else and_then (update_operations e (swap_hit expected w) (swapped_operation w) t)
       (\<lambda>(changed, t'). Inr (changed = 1, t')))"

definition claimable_removal :: "rstr \<Rightarrow> worktree_operation \<Rightarrow> bool" where
  "claimable_removal now q \<longleftrightarrow>
     wo_state q \<in> {WtPrepared, WtBound, WtReviewPending, WtApplied, WtCleanupRequired} \<or>
     wo_state q = WtRemoving \<and> is_some_and (wo_recovery_lease_until q) (\<lambda>lease. lease \<le> now)"

text \<open>The row a transaction reads back after it changed it.\<close>

definition read_back :: "('a \<Rightarrow> core_error + 'a) \<Rightarrow> 'a option \<Rightarrow> core_error + 'a option" where
  "read_back decode row =
     (case row of None \<Rightarrow> Inl (RepositoryErr (lit ''Query returned no rows''))
      | Some r \<Rightarrow> and_then (decode r) (\<lambda>x. Inr (Some x)))"

definition claim_delegation_worktree_removal ::
    "delegation_env \<Rightarrow> rstr \<Rightarrow> rstr \<Rightarrow> rstr \<Rightarrow> rstr \<Rightarrow> delegations \<Rightarrow>
      core_error + worktree_operation option \<times> delegations" where
  "claim_delegation_worktree_removal e oid owner now lease t =
     and_then (recovery_owner_param ''delegation worktree recovery owner is invalid'' owner) (\<lambda>owner.
     and_then (normalize_delegation_recovery_timestamp e now ''recovery claim time'') (\<lambda>now.
     and_then (normalize_delegation_recovery_timestamp e lease ''recovery lease'') (\<lambda>lease.
     if lease \<le> now then refuse ''delegation worktree recovery lease must end after claim time''
     else and_then (update_operations e (\<lambda>q. wo_operation_id q = oid \<and> claimable_removal now q)
         (\<lambda>q. q\<lparr>wo_state := WtRemoving, wo_recovery_owner := Some owner,
                wo_recovery_lease_until := Some lease, wo_updated_at := now\<rparr>) t) (\<lambda>(changed, t').
       if changed = 1
       then and_then (read_back (decode_operation e) (lookup_by wo_operation_id oid (dl_operations t')))
              (\<lambda>op. Inr (op, t'))
       else Inr (None, t')))))"

definition removal_outcome :: "worktree_state \<Rightarrow> rstr option \<Rightarrow> core_error + unit" where
  "removal_outcome final_state last_error =
     (case (final_state, last_error) of
        (WtRemoved, None) \<Rightarrow> Inr ()
      | (WtRemoved, Some _) \<Rightarrow> refuse ''removed delegation worktree cannot retain a recovery error''
      | (WtCleanupRequired, error) \<Rightarrow>
          if is_some_and error (\<lambda>text. \<not> blank text) then Inr ()
          else refuse ''cleanup-required delegation worktree must retain its recovery error''
      | _ \<Rightarrow> refuse ''removal finalization must select removed or cleanup_required'')"

definition finalize_delegation_worktree_removal ::
    "delegation_env \<Rightarrow> rstr \<Rightarrow> rstr \<Rightarrow> worktree_state \<Rightarrow> rstr option \<Rightarrow> rstr \<Rightarrow> delegations \<Rightarrow>
      core_error + worktree_operation option \<times> delegations" where
  "finalize_delegation_worktree_removal e oid owner final_state last_error updated_at t =
     and_then (recovery_owner_param ''delegation worktree recovery owner is invalid'' owner) (\<lambda>owner.
     and_then (removal_outcome final_state last_error) (\<lambda>_.
     and_then (normalize_delegation_recovery_timestamp e updated_at ''recovery update time'') (\<lambda>updated_at.
     and_then (update_operations e
         (\<lambda>q. wo_operation_id q = oid \<and> wo_state q = WtRemoving \<and> wo_recovery_owner q = Some owner)
         (\<lambda>q. q\<lparr>wo_state := final_state, wo_last_error := last_error, wo_recovery_owner := None,
                wo_recovery_lease_until := None, wo_updated_at := updated_at\<rparr>) t) (\<lambda>(changed, t').
       if changed = 1
       then and_then (read_back (decode_operation e) (lookup_by wo_operation_id oid (dl_operations t')))
              (\<lambda>op. Inr (op, t'))
       else Inr (None, t')))))"

definition delete_removed_delegation_worktree_operation ::
    "rstr \<Rightarrow> delegations \<Rightarrow> bool \<times> delegations" where
  "delete_removed_delegation_worktree_operation oid t =
     (let gone = (\<lambda>w. wo_operation_id w = oid \<and> wo_state w = WtRemoved)
      in (changed_rows gone (dl_operations t) = 1,
          t\<lparr>dl_operations := filter (\<lambda>w. \<not> gone w) (dl_operations t)\<rparr>))"

section \<open>Apply transactions\<close>

definition fresh_apply_row :: "apply_transaction \<Rightarrow> apply_transaction" where
  "fresh_apply_row a =
     \<lparr>at_transaction_id = at_transaction_id a, at_operation_id = at_operation_id a,
      at_delegation_id = at_delegation_id a, at_workspace_id = at_workspace_id a,
      at_source_head_oid = None, at_destination_head_oid = None, at_destination_ref = None,
      at_destination_index_tree_oid = None, at_manifest_digest = None, at_file_count = 0,
      at_artifact_bytes = 0, at_state = ApPreparing, at_recovery_owner = None,
      at_recovery_lease_until = None, at_last_error = None,
      at_created_at = at_created_at a, at_updated_at = at_updated_at a\<rparr>"

definition review_pending_scope :: "apply_transaction \<Rightarrow> worktree_operation \<Rightarrow> bool" where
  "review_pending_scope a w \<longleftrightarrow>
     wo_operation_id w = at_operation_id a \<and> wo_delegation_id w = Some (at_delegation_id a) \<and>
     wo_workspace_id w = at_workspace_id a \<and> wo_state w = WtReviewPending"

definition create_delegation_apply_transaction ::
    "delegation_env \<Rightarrow> apply_transaction \<Rightarrow> delegations \<Rightarrow> core_error + delegations" where
  "create_delegation_apply_transaction e a t =
     and_then (as_input (apply_validate (dn_parse e) a)) (\<lambda>_.
     if at_state a \<noteq> ApPreparing
     then refuse ''delegation apply transaction must be created in preparing state''
     else if changed_rows (review_pending_scope a) (dl_operations t) \<noteq> 1
     then refuse ''delegation apply transaction scope is not review-pending''
     else write_applies e (dl_applies t @ [fresh_apply_row a]) t)"

definition get_delegation_apply_transaction ::
    "delegation_env \<Rightarrow> rstr \<Rightarrow> delegations \<Rightarrow> core_error + apply_transaction option" where
  "get_delegation_apply_transaction e tid t =
     optional_row (decode_apply e) (lookup_by at_transaction_id tid (dl_applies t))"

definition active_first :: "apply_transaction \<Rightarrow> nat" where
  "active_first a = (if apply_is_terminal (at_state a) then 1 else 0)"

text \<open>The active transaction of an operation, else the newest one.\<close>

definition get_delegation_apply_transaction_by_operation_id ::
    "delegation_env \<Rightarrow> rstr \<Rightarrow> delegations \<Rightarrow> core_error + apply_transaction option" where
  "get_delegation_apply_transaction_by_operation_id e oid t =
     (let rows = sort_key active_first (rev (sort_key at_created_at (sort_key at_transaction_id
        (filter (\<lambda>a. at_operation_id a = oid) (dl_applies t)))))
      in optional_row (decode_apply e) (if rows = [] then None else Some (hd rows)))"

definition list_delegation_apply_transactions_requiring_recovery ::
    "delegation_env \<Rightarrow> delegations \<Rightarrow> core_error + apply_transaction list" where
  "list_delegation_apply_transactions_requiring_recovery e t =
     collect_rows (decode_apply e)
       (sort_key active_first (sort_key at_updated_at (sort_key at_created_at
         (sort_key at_transaction_id (dl_applies t)))))"

definition swapped_apply :: "apply_transaction \<Rightarrow> apply_transaction \<Rightarrow> apply_transaction" where
  "swapped_apply a q =
     q\<lparr>at_source_head_oid := at_source_head_oid a, at_destination_head_oid := at_destination_head_oid a,
       at_destination_ref := at_destination_ref a,
       at_destination_index_tree_oid := at_destination_index_tree_oid a,
       at_manifest_digest := at_manifest_digest a, at_file_count := at_file_count a,
       at_artifact_bytes := at_artifact_bytes a, at_state := at_state a,
       at_last_error := at_last_error a, at_updated_at := at_updated_at a\<rparr>"

definition apply_swap_hit :: "apply_state \<Rightarrow> apply_transaction \<Rightarrow> apply_transaction \<Rightarrow> bool" where
  "apply_swap_hit expected a q \<longleftrightarrow>
     at_transaction_id q = at_transaction_id a \<and> at_state q = expected \<and>
     at_operation_id q = at_operation_id a \<and> at_delegation_id q = at_delegation_id a \<and>
     at_workspace_id q = at_workspace_id a \<and> at_created_at q = at_created_at a \<and>
     at_recovery_owner q = None \<and> at_recovery_lease_until q = None"

definition compare_and_swap_delegation_apply_transaction ::
    "delegation_env \<Rightarrow> apply_state \<Rightarrow> apply_transaction \<Rightarrow> delegations \<Rightarrow> core_error + bool \<times> delegations" where
  "compare_and_swap_delegation_apply_transaction e expected a t =
     and_then (as_input (apply_validate (dn_parse e) a)) (\<lambda>_.
     if \<not> can_pre_apply_transition_to expected (at_state a)
     then refuse ''invalid pre-apply transaction transition''
     else if \<not> sqlite_int (at_artifact_bytes a)
     then refuse ''delegation apply artifact_bytes exceeds SQLite''
     else and_then (update_applies e (apply_swap_hit expected a) (swapped_apply a) t)
       (\<lambda>(changed, t'). Inr (changed = 1, t')))"

definition holds_applying :: "rstr \<Rightarrow> delegations \<Rightarrow> bool" where
  "holds_applying oid t \<longleftrightarrow>
     list_ex (\<lambda>w. wo_operation_id w = oid \<and> wo_state w = WtApplying) (dl_operations t)"

text \<open>The two arms of the claim: taking a prepared transaction, and taking over an applying one.\<close>

definition start_applying ::
    "delegation_env \<Rightarrow> apply_transaction \<Rightarrow> rstr \<Rightarrow> rstr \<Rightarrow> rstr \<Rightarrow> delegations \<Rightarrow>
      core_error + bool \<times> delegations" where
  "start_applying e current owner now lease t =
     and_then (update_operations e (review_pending_scope current)
       (\<lambda>w. w\<lparr>wo_state := WtApplying, wo_last_error := None, wo_updated_at := now\<rparr>) t) (\<lambda>(changed, t1).
     if changed \<noteq> 1 then Inr (False, t1)
     else and_then (update_applies e
         (\<lambda>a. at_transaction_id a = at_transaction_id current \<and> at_state a = ApPrepared)
         (\<lambda>a. a\<lparr>at_state := ApApplying, at_recovery_owner := Some owner,
                at_recovery_lease_until := Some lease, at_updated_at := now\<rparr>) t1)
       (\<lambda>(changed, t2). Inr (changed = 1, t2)))"

definition lease_over :: "rstr \<Rightarrow> apply_transaction \<Rightarrow> bool" where
  "lease_over now a \<longleftrightarrow> is_some_and (at_recovery_lease_until a) (\<lambda>lease. lease \<le> now)"

definition take_over ::
    "delegation_env \<Rightarrow> rstr \<Rightarrow> rstr \<Rightarrow> rstr \<Rightarrow> rstr \<Rightarrow> bool \<Rightarrow> delegations \<Rightarrow>
      core_error + bool \<times> delegations" where
  "take_over e tid owner now lease lock_held t =
     and_then (update_applies e
       (\<lambda>a. at_transaction_id a = tid \<and> at_state a = ApApplying \<and> at_recovery_lease_until a \<noteq> None \<and>
            (lock_held \<or> lease_over now a) \<and> holds_applying (at_operation_id a) t)
       (\<lambda>a. a\<lparr>at_recovery_owner := Some owner, at_recovery_lease_until := Some lease,
              at_updated_at := now\<rparr>) t)
       (\<lambda>(changed, t'). Inr (changed = 1, t'))"

definition claim_delegation_apply_transaction ::
    "delegation_env \<Rightarrow> rstr \<Rightarrow> rstr \<Rightarrow> rstr \<Rightarrow> rstr \<Rightarrow> bool \<Rightarrow> delegations \<Rightarrow>
      core_error + apply_transaction option \<times> delegations" where
  "claim_delegation_apply_transaction e tid owner now lease lock_held t =
     and_then (recovery_owner_param ''delegation apply recovery owner is invalid'' owner) (\<lambda>owner.
     and_then (normalize_delegation_recovery_timestamp e now ''apply claim time'') (\<lambda>now.
     and_then (normalize_delegation_recovery_timestamp e lease ''apply lease'') (\<lambda>lease.
     if lease \<le> now then refuse ''delegation apply recovery lease must end after claim time''
     else and_then (get_delegation_apply_transaction e tid t) (\<lambda>row.
       case row of None \<Rightarrow> Inr (None, t)
       | Some current \<Rightarrow>
           and_then
             (if at_state current = ApPrepared then start_applying e current owner now lease t
              else if at_state current = ApApplying \<and> (lock_held \<or> lease_over now current)
              then take_over e tid owner now lease lock_held t
              else Inr (False, t)) (\<lambda>(claimed, t').
           if \<not> claimed then Inr (None, t)
           else and_then (read_back (decode_apply e) (lookup_by at_transaction_id tid (dl_applies t')))
                  (\<lambda>a. Inr (a, t')))))))"

definition apply_outcome :: "apply_state \<Rightarrow> rstr option \<Rightarrow> core_error + worktree_state" where
  "apply_outcome final_state last_error =
     (case (final_state, last_error) of
        (ApApplied, None) \<Rightarrow> Inr WtApplied
      | (ApRolledBack, _) \<Rightarrow> Inr WtReviewPending
      | (ApRecoveryRequired, Some text) \<Rightarrow>
          if blank text then refuse ''invalid delegation apply finalization state or error''
          else Inr WtCleanupRequired
      | _ \<Rightarrow> refuse ''invalid delegation apply finalization state or error'')"

definition closed_apply :: "apply_state \<Rightarrow> rstr option \<Rightarrow> rstr \<Rightarrow> apply_transaction \<Rightarrow> apply_transaction" where
  "closed_apply st err at a = a\<lparr>at_state := st, at_recovery_owner := None,
     at_recovery_lease_until := None, at_last_error := err, at_updated_at := at\<rparr>"

definition finalize_delegation_apply_transaction ::
    "delegation_env \<Rightarrow> rstr \<Rightarrow> rstr \<Rightarrow> apply_state \<Rightarrow> rstr option \<Rightarrow> rstr \<Rightarrow> delegations \<Rightarrow>
      core_error + apply_transaction option \<times> delegations" where
  "finalize_delegation_apply_transaction e tid owner final_state last_error updated_at t =
     and_then (recovery_owner_param ''delegation apply recovery owner is invalid'' owner) (\<lambda>owner.
     and_then (apply_outcome final_state last_error) (\<lambda>operation_state.
     and_then (normalize_delegation_recovery_timestamp e updated_at ''apply update time'') (\<lambda>updated_at.
     and_then (get_delegation_apply_transaction e tid t) (\<lambda>row.
     case row of None \<Rightarrow> Inr (None, t)
     | Some current \<Rightarrow>
         if at_state current \<noteq> ApApplying \<or> at_recovery_owner current \<noteq> Some owner then Inr (None, t)
         else and_then (update_operations e
                (\<lambda>w. wo_operation_id w = at_operation_id current \<and> wo_state w = WtApplying)
                (\<lambda>w. w\<lparr>wo_state := operation_state,
                       wo_last_error := (if final_state = ApRecoveryRequired then last_error else None),
                       wo_updated_at := updated_at\<rparr>) t) (\<lambda>(changed, t1).
              if changed \<noteq> 1 then Inr (None, t)
              else and_then (update_applies e
                  (\<lambda>a. at_transaction_id a = tid \<and> at_state a = ApApplying \<and>
                       at_recovery_owner a = Some owner)
                  (closed_apply final_state last_error updated_at) t1) (\<lambda>(changed, t2).
                if changed \<noteq> 1 then Inr (None, t)
                else and_then (as_input (apply_validate (dn_parse e)
                         (closed_apply final_state last_error updated_at current)))
                       (\<lambda>_. Inr (Some (closed_apply final_state last_error updated_at current), t2))))))))"

definition delete_terminal_delegation_apply_transaction :: "rstr \<Rightarrow> delegations \<Rightarrow> bool \<times> delegations" where
  "delete_terminal_delegation_apply_transaction tid t =
     (let gone = (\<lambda>a. at_transaction_id a = tid \<and> apply_is_terminal (at_state a))
      in (changed_rows gone (dl_applies t) = 1,
          t\<lparr>dl_applies := filter (\<lambda>a. \<not> gone a) (dl_applies t)\<rparr>))"

section \<open>Calls\<close>

datatype delegation_call =
    CreateOperation worktree_operation
  | SwapOperation worktree_state worktree_operation
  | ClaimRemoval rstr rstr rstr rstr
  | FinalizeRemoval rstr rstr worktree_state "rstr option" rstr
  | DeleteRemoved rstr
  | CreateApply apply_transaction
  | SwapApply apply_state apply_transaction
  | ClaimApply rstr rstr rstr rstr bool
  | FinalizeApply rstr rstr apply_state "rstr option" rstr
  | DeleteTerminal rstr

text \<open>The tables after a call that did not fail.\<close>

primrec perform :: "delegation_env \<Rightarrow> delegation_call \<Rightarrow> delegations \<Rightarrow> core_error + delegations" where
  "perform e (CreateOperation w) t = create_delegation_worktree_operation e w t"
| "perform e (SwapOperation st w) t =
     map_sum id snd (compare_and_swap_delegation_worktree_operation e st w t)"
| "perform e (ClaimRemoval oid owner now lease) t =
     map_sum id snd (claim_delegation_worktree_removal e oid owner now lease t)"
| "perform e (FinalizeRemoval oid owner st err at) t =
     map_sum id snd (finalize_delegation_worktree_removal e oid owner st err at t)"
| "perform e (DeleteRemoved oid) t = Inr (snd (delete_removed_delegation_worktree_operation oid t))"
| "perform e (CreateApply a) t = create_delegation_apply_transaction e a t"
| "perform e (SwapApply st a) t =
     map_sum id snd (compare_and_swap_delegation_apply_transaction e st a t)"
| "perform e (ClaimApply tid owner now lease lock_held) t =
     map_sum id snd (claim_delegation_apply_transaction e tid owner now lease lock_held t)"
| "perform e (FinalizeApply tid owner st err at) t =
     map_sum id snd (finalize_delegation_apply_transaction e tid owner st err at t)"
| "perform e (DeleteTerminal tid) t = Inr (snd (delete_terminal_delegation_apply_transaction tid t))"

text \<open>A call that fails leaves the tables as they were.\<close>

definition settle :: "delegation_env \<Rightarrow> delegation_call \<Rightarrow> delegations \<Rightarrow> delegations" where
  "settle e c t = (case perform e c t of Inl _ \<Rightarrow> t | Inr t' \<Rightarrow> t')"

definition run_delegation :: "delegation_env \<Rightarrow> delegation_call list \<Rightarrow> delegations \<Rightarrow> delegations" where
  "run_delegation e cs t = fold (settle e) cs t"

definition no_delegations :: delegations where
  "no_delegations = \<lparr>dl_operations = [], dl_applies = []\<rparr>"

end
