(* ===== verification/Delegation_Spec.thy ===== *)
theory Delegation_Spec
  imports Delegation_Journal
begin

text \<open>
  What the journal of delegated tasks promises, as a transition system on the states of worktrees
  and apply transactions alone (\<open>delegation_spec\<close>), its invariant, and the proof that every call on
  the tables is one of its steps.
\<close>

section \<open>The specification\<close>

type_synonym delegation_view = "(rstr \<rightharpoonup> worktree_state) \<times> (rstr \<rightharpoonup> rstr \<times> apply_state)"

definition occupied :: "(rstr \<rightharpoonup> rstr \<times> apply_state) \<Rightarrow> rstr \<Rightarrow> bool" where
  "occupied txs oid \<longleftrightarrow> (\<exists>tid st. txs tid = Some (oid, st) \<and> \<not> apply_is_terminal st)"

inductive delegation_spec :: "delegation_view \<Rightarrow> delegation_view \<Rightarrow> bool" where
  stay: "delegation_spec v v"
| opened: "ops oid = None \<Longrightarrow> delegation_spec (ops, txs) (ops(oid \<mapsto> WtPreparing), txs)"
| moved: "ops oid = Some st \<Longrightarrow> worktree_can_transition st nxt \<Longrightarrow> st \<noteq> WtRemoving \<Longrightarrow>
    nxt \<noteq> WtRemoving \<Longrightarrow> nxt \<noteq> WtApplying \<Longrightarrow> st = WtApplying \<longrightarrow> nxt = WtCleanupRequired \<Longrightarrow>
    delegation_spec (ops, txs) (ops(oid \<mapsto> nxt), txs)"
| removing: "ops oid = Some st \<Longrightarrow> worktree_can_transition st WtRemoving \<Longrightarrow>
    delegation_spec (ops, txs) (ops(oid \<mapsto> WtRemoving), txs)"
| removed: "ops oid = Some WtRemoving \<Longrightarrow> nxt \<in> {WtRemoved, WtCleanupRequired} \<Longrightarrow>
    delegation_spec (ops, txs) (ops(oid \<mapsto> nxt), txs)"
| purged: "ops oid = Some WtRemoved \<Longrightarrow> delegation_spec (ops, txs) (ops(oid := None), txs)"
| begun: "txs tid = None \<Longrightarrow> ops oid = Some WtReviewPending \<Longrightarrow> \<not> occupied txs oid \<Longrightarrow>
    delegation_spec (ops, txs) (ops, txs(tid \<mapsto> (oid, ApPreparing)))"
| prepared: "txs tid = Some (oid, st) \<Longrightarrow> can_pre_apply_transition_to st nxt \<Longrightarrow>
    delegation_spec (ops, txs) (ops, txs(tid \<mapsto> (oid, nxt)))"
| started: "txs tid = Some (oid, ApPrepared) \<Longrightarrow> ops oid = Some WtReviewPending \<Longrightarrow>
    delegation_spec (ops, txs) (ops(oid \<mapsto> WtApplying), txs(tid \<mapsto> (oid, ApApplying)))"
| finished: "txs tid = Some (oid, ApApplying) \<Longrightarrow> ops oid = Some WtApplying \<Longrightarrow>
    (nxt, after) \<in> {(ApApplied, WtApplied), (ApRolledBack, WtReviewPending),
      (ApRecoveryRequired, WtCleanupRequired)} \<Longrightarrow>
    delegation_spec (ops, txs) (ops(oid \<mapsto> after), txs(tid \<mapsto> (oid, nxt)))"
| forgotten: "txs tid = Some (oid, st) \<Longrightarrow> apply_is_terminal st \<Longrightarrow>
    delegation_spec (ops, txs) (ops, txs(tid := None))"

text \<open>
  An operation has one active transaction at most, and an operation that is being applied has a
  transaction that is applying it.
\<close>

definition one_active :: "delegation_view \<Rightarrow> bool" where
  "one_active v \<longleftrightarrow> (\<forall>tid tid' oid st st'. snd v tid = Some (oid, st) \<and> snd v tid' = Some (oid, st') \<and>
     \<not> apply_is_terminal st \<and> \<not> apply_is_terminal st' \<longrightarrow> tid = tid')"

definition backed :: "delegation_view \<Rightarrow> bool" where
  "backed v \<longleftrightarrow> (\<forall>oid. fst v oid = Some WtApplying \<longrightarrow> (\<exists>tid. snd v tid = Some (oid, ApApplying)))"

text \<open>A transaction that is applying while its operation no longer is.\<close>

definition orphaned :: "rstr \<Rightarrow> delegation_view \<Rightarrow> bool" where
  "orphaned tid v \<longleftrightarrow> (\<exists>oid. snd v tid = Some (oid, ApApplying) \<and> fst v oid \<noteq> Some WtApplying)"

lemma apply_terminal_simps [simp]:
  "apply_is_terminal ApApplied" "apply_is_terminal ApRolledBack" "\<not> apply_is_terminal ApPreparing"
  "\<not> apply_is_terminal ApPrepared" "\<not> apply_is_terminal ApApplying" "\<not> apply_is_terminal ApRecoveryRequired"
  by (simp_all add: apply_is_terminal_def)

lemma pre_apply_source: "can_pre_apply_transition_to st nxt \<Longrightarrow> \<not> apply_is_terminal st \<and> st \<noteq> ApApplying \<and> nxt \<noteq> ApApplying"
  by (auto simp: can_pre_apply_transition_to_def)

lemma one_activeD:
  assumes "one_active v" and "snd v tid = Some (oid, st)" and "snd v tid' = Some (oid, st')"
    and "\<not> apply_is_terminal st" and "\<not> apply_is_terminal st'"
  shows "tid = tid'"
  using assms unfolding one_active_def by blast

lemma one_active_frame:
  assumes "one_active v"
    and "\<And>tid oid st. snd v' tid = Some (oid, st) \<Longrightarrow> \<not> apply_is_terminal st \<Longrightarrow>
      \<exists>st'. snd v tid = Some (oid, st') \<and> \<not> apply_is_terminal st'"
  shows "one_active v'"
  using assms one_activeD [OF assms(1)] unfolding one_active_def by (meson assms(2))

lemma one_active_step: "delegation_spec v v' \<Longrightarrow> one_active v \<Longrightarrow> one_active v'"
proof (induction rule: delegation_spec.induct)
  case (begun txs tid ops oid)
  show ?case
    unfolding one_active_def
  proof (intro allI impI)
    fix t t' o' st st'
    assume *: "snd (ops, txs(tid \<mapsto> (oid, ApPreparing))) t = Some (o', st) \<and>
      snd (ops, txs(tid \<mapsto> (oid, ApPreparing))) t' = Some (o', st') \<and>
      \<not> apply_is_terminal st \<and> \<not> apply_is_terminal st'"
    then show "t = t'"
      using begun(3) one_activeD [OF begun(4), of t o' st t' st']
      by (auto simp: occupied_def split: if_splits)
  qed
next
  case (prepared txs tid oid st nxt ops)
  then have "\<not> apply_is_terminal st" using pre_apply_source by blast
  with prepared show ?case by (intro one_active_frame [OF prepared(3)]) (auto split: if_splits)
next
  case (started txs tid oid ops)
  then show ?case by (intro one_active_frame [OF started(3)]) (auto split: if_splits)
next
  case (finished txs tid oid ops nxt after)
  then show ?case by (intro one_active_frame [OF finished(4)]) (auto split: if_splits)
next
  case (forgotten txs tid oid st ops)
  then show ?case by (intro one_active_frame [OF forgotten(3)]) (auto split: if_splits)
qed (simp_all add: one_active_def)

lemma backed_frame:
  assumes "backed (ops, txs)" and "\<And>i. ops' i = Some WtApplying \<Longrightarrow> ops i = Some WtApplying"
    and "\<And>tid i. txs tid = Some (i, ApApplying) \<Longrightarrow> ops' i = Some WtApplying \<Longrightarrow>
      txs' tid = Some (i, ApApplying)"
  shows "backed (ops', txs')"
  using assms unfolding backed_def by fastforce

lemma backed_step: "delegation_spec v v' \<Longrightarrow> backed v \<Longrightarrow> backed v'"
proof (induction rule: delegation_spec.induct)
  case (begun txs tid ops oid)
  then show ?case by (intro backed_frame [OF begun(4)]) (auto split: if_splits)
next
  case (prepared txs tid oid st nxt ops)
  then have "st \<noteq> ApApplying" using pre_apply_source by blast
  with prepared show ?case by (intro backed_frame [OF prepared(3)]) (auto split: if_splits)
next
  case (started txs tid oid ops)
  show ?case
    unfolding backed_def
  proof (intro allI impI)
    fix i
    assume "fst (ops(oid \<mapsto> WtApplying), txs(tid \<mapsto> (oid, ApApplying))) i = Some WtApplying"
    then have "i = oid \<or> i \<noteq> oid \<and> ops i = Some WtApplying" by (auto split: if_splits)
    then show "\<exists>tid'. snd (ops(oid \<mapsto> WtApplying), txs(tid \<mapsto> (oid, ApApplying))) tid' = Some (i, ApApplying)"
    proof
      assume "i = oid"
      then show ?thesis by (intro exI [of _ tid]) simp
    next
      assume i: "i \<noteq> oid \<and> ops i = Some WtApplying"
      with started(3) obtain tid' where "txs tid' = Some (i, ApApplying)" by (auto simp: backed_def)
      moreover from this started(1) have "tid' \<noteq> tid" by auto
      ultimately show ?thesis by (intro exI [of _ tid']) simp
    qed
  qed
next
  case (finished txs tid oid ops nxt after)
  then show ?case by (intro backed_frame [OF finished(4)]) (auto split: if_splits)
next
  case (forgotten txs tid oid st ops)
  then have "st \<noteq> ApApplying" by auto
  with forgotten show ?case by (intro backed_frame [OF forgotten(3)]) (auto split: if_splits)
next
  case (opened ops oid txs)
  then show ?case by (intro backed_frame [OF opened(2)]) (auto split: if_splits)
next
  case (moved ops oid st nxt txs)
  then show ?case by (intro backed_frame [OF moved(7)]) (auto split: if_splits)
next
  case (removing ops oid st txs)
  then show ?case by (intro backed_frame [OF removing(3)]) (auto split: if_splits)
next
  case (removed ops oid nxt txs)
  then show ?case by (intro backed_frame [OF removed(3)]) (auto split: if_splits)
next
  case (purged ops oid txs)
  then show ?case by (intro backed_frame [OF purged(2)]) (auto split: if_splits)
qed simp

lemma orphaned_frame:
  assumes "orphaned tid (ops, txs)" and "\<And>i. ops' i = Some WtApplying \<Longrightarrow> ops i = Some WtApplying"
    and "\<And>i. txs tid = Some (i, ApApplying) \<Longrightarrow> ops i \<noteq> Some WtApplying \<Longrightarrow> txs' tid = txs tid"
  shows "orphaned tid (ops', txs')"
  using assms unfolding orphaned_def by auto

lemma orphaned_step:
  assumes "delegation_spec v v'" and "one_active v" and "orphaned tid v"
  shows "orphaned tid v'"
  using assms
proof (induction rule: delegation_spec.induct)
  case (begun txs tid' ops oid)
  then show ?case by (intro orphaned_frame [OF begun(5)]) auto
next
  case (prepared txs tid' oid st nxt ops)
  then have "st \<noteq> ApApplying" using pre_apply_source by blast
  with prepared show ?case by (intro orphaned_frame [OF prepared(4)]) auto
next
  case (started txs tid' oid ops)
  then obtain i where i: "txs tid = Some (i, ApApplying)" "ops i \<noteq> Some WtApplying"
    by (auto simp: orphaned_def)
  with started(1) have "tid \<noteq> tid'" by auto
  then have "i \<noteq> oid"
    using i(1) started(1) one_activeD [OF started(3), of tid oid ApApplying tid' ApPrepared] by auto
  with i \<open>tid \<noteq> tid'\<close> show ?case by (auto simp: orphaned_def)
next
  case (finished txs tid' oid ops nxt after)
  then show ?case by (intro orphaned_frame [OF finished(5)]) (auto split: if_splits)
next
  case (forgotten txs tid' oid st ops)
  then have "st \<noteq> ApApplying" by auto
  with forgotten show ?case by (intro orphaned_frame [OF forgotten(4)]) auto
next
  case (opened ops oid txs)
  then show ?case by (intro orphaned_frame [OF opened(3)]) (auto split: if_splits)
next
  case (moved ops oid st nxt txs)
  then show ?case by (intro orphaned_frame [OF moved(8)]) (auto split: if_splits)
next
  case (removing ops oid st txs)
  then show ?case by (intro orphaned_frame [OF removing(4)]) (auto split: if_splits)
next
  case (removed ops oid nxt txs)
  then show ?case by (intro orphaned_frame [OF removed(4)]) (auto split: if_splits)
next
  case (purged ops oid txs)
  then show ?case by (intro orphaned_frame [OF purged(3)]) (auto split: if_splits)
qed simp

section \<open>The states of the tables\<close>

definition ops_view :: "worktree_operation list \<Rightarrow> rstr \<rightharpoonup> worktree_state" where
  "ops_view ws = (\<lambda>oid. map_option wo_state (lookup_by wo_operation_id oid ws))"

definition txs_view :: "apply_transaction list \<Rightarrow> rstr \<rightharpoonup> rstr \<times> apply_state" where
  "txs_view ats = (\<lambda>tid. map_option (\<lambda>a. (at_operation_id a, at_state a)) (lookup_by at_transaction_id tid ats))"

definition delegation_view :: "delegations \<Rightarrow> delegation_view" where
  "delegation_view t = (ops_view (dl_operations t), txs_view (dl_applies t))"

definition tables_kept :: "delegations \<Rightarrow> bool" where
  "tables_kept t \<longleftrightarrow> worktree_table_ok (dl_operations t) \<and> apply_table_ok (dl_applies t)"

lemma tables_kept_ids:
  assumes "tables_kept t"
  shows "distinct (map wo_operation_id (dl_operations t))" and "distinct (map at_transaction_id (dl_applies t))"
  using assms by (simp_all add: tables_kept_def worktree_table_ok_def apply_table_ok_def)

lemma write_operations_ok:
  "write_operations e ws t = Inr t' \<longleftrightarrow> worktree_table_ok ws \<and> t' = t\<lparr>dl_operations := ws\<rparr>"
  by (auto simp: write_operations_def)

lemma write_applies_ok:
  "write_applies e ats t = Inr t' \<longleftrightarrow> apply_table_ok ats \<and> t' = t\<lparr>dl_applies := ats\<rparr>"
  by (auto simp: write_applies_def)

lemma update_operations_cases [consumes 2, case_names hit key none one]:
  assumes "update_operations e hit f t = Inr (n, t')" and "tables_kept t"
    and key: "\<And>w. hit w \<Longrightarrow> wo_operation_id w = k" and "\<And>w. wo_operation_id (f w) = wo_operation_id w"
  obtains "n \<noteq> 1" and "t' = t"
  | w where "n = 1" and "lookup_by wo_operation_id k (dl_operations t) = Some w" and "hit w"
      and "t' = t\<lparr>dl_operations := update_where hit f (dl_operations t)\<rparr>" and "tables_kept t'"
      and "delegation_view t' = ((fst (delegation_view t))(k \<mapsto> wo_state (f w)), snd (delegation_view t))"
      and "lookup_by wo_operation_id k (dl_operations t') = Some (f w)"
proof -
  note ids = tables_kept_ids(1) [OF assms(2)]
  from assms(1) have n: "n = changed_rows hit (dl_operations t)"
    and t': "t' = t\<lparr>dl_operations := update_where hit f (dl_operations t)\<rparr>"
    and ok: "worktree_table_ok (update_where hit f (dl_operations t))"
    by (auto simp: update_operations_def and_then_Inr_iff write_operations_ok)
  show thesis
  proof (cases "n = 1")
    case True
    then obtain w where w: "lookup_by wo_operation_id k (dl_operations t) = Some w" "hit w"
      using changed_rows_one [OF ids key] n by auto
    note look = lookup_by_update_one [where key = wo_operation_id and f = f and P = hit, OF assms(4) key w]
    have "delegation_view t' = ((fst (delegation_view t))(k \<mapsto> wo_state (f w)), snd (delegation_view t))"
      by (auto simp: delegation_view_def ops_view_def t' look)
    moreover have "tables_kept t'" using ok assms(2) by (simp add: t' tables_kept_def)
    ultimately show thesis using that(2) True w t' look by simp
  next
    case False
    then show thesis using that(1) update_where_none [OF ids key] n t' by simp
  qed
qed

lemma update_applies_cases [consumes 2, case_names hit key none one]:
  assumes "update_applies e hit f t = Inr (n, t')" and "tables_kept t"
    and key: "\<And>a. hit a \<Longrightarrow> at_transaction_id a = k" and "\<And>a. at_transaction_id (f a) = at_transaction_id a"
  obtains "n \<noteq> 1" and "t' = t"
  | a where "n = 1" and "lookup_by at_transaction_id k (dl_applies t) = Some a" and "hit a"
      and "t' = t\<lparr>dl_applies := update_where hit f (dl_applies t)\<rparr>" and "tables_kept t'"
      and "delegation_view t' =
        (fst (delegation_view t), (snd (delegation_view t))(k \<mapsto> (at_operation_id (f a), at_state (f a))))"
      and "lookup_by at_transaction_id k (dl_applies t') = Some (f a)"
proof -
  note ids = tables_kept_ids(2) [OF assms(2)]
  from assms(1) have n: "n = changed_rows hit (dl_applies t)"
    and t': "t' = t\<lparr>dl_applies := update_where hit f (dl_applies t)\<rparr>"
    and ok: "apply_table_ok (update_where hit f (dl_applies t))"
    by (auto simp: update_applies_def and_then_Inr_iff write_applies_ok)
  show thesis
  proof (cases "n = 1")
    case True
    then obtain a where a: "lookup_by at_transaction_id k (dl_applies t) = Some a" "hit a"
      using changed_rows_one [OF ids key] n by auto
    note look = lookup_by_update_one [where key = at_transaction_id and f = f and P = hit, OF assms(4) key a]
    have "delegation_view t' =
        (fst (delegation_view t), (snd (delegation_view t))(k \<mapsto> (at_operation_id (f a), at_state (f a))))"
      by (auto simp: delegation_view_def txs_view_def t' look)
    moreover have "tables_kept t'" using ok assms(2) by (simp add: t' tables_kept_def)
    ultimately show thesis using that(2) True a t' look by simp
  next
    case False
    then show thesis using that(1) update_where_none [OF ids key] n t' by simp
  qed
qed

lemma view_operation: "lookup_by wo_operation_id oid (dl_operations t) = Some w \<Longrightarrow>
    fst (delegation_view t) oid = Some (wo_state w)"
  by (simp add: delegation_view_def ops_view_def)

lemma view_apply: "lookup_by at_transaction_id tid (dl_applies t) = Some a \<Longrightarrow>
    snd (delegation_view t) tid = Some (at_operation_id a, at_state a)"
  by (simp add: delegation_view_def txs_view_def)

definition step_kept :: "delegations \<Rightarrow> delegations \<Rightarrow> bool" where
  "step_kept t t' \<longleftrightarrow> tables_kept t' \<and> delegation_spec (delegation_view t) (delegation_view t')"

lemma step_kept_refl: "tables_kept t \<Longrightarrow> step_kept t t"
  by (simp add: step_kept_def delegation_spec.stay)

section \<open>Every call is a step\<close>

lemma lookup_new_key:
  "distinct (map key (xs @ [x])) \<Longrightarrow> lookup_by key (key x) xs = None"
  by (simp add: lookup_by_None_iff)

lemma create_operation_step:
  assumes "tables_kept t" and "create_delegation_worktree_operation e w t = Inr t'"
  shows "step_kept t t'"
proof -
  from assms(2) have ok: "worktree_table_ok (dl_operations t @ [w])" and st: "wo_state w = WtPreparing"
    and t': "t' = t\<lparr>dl_operations := dl_operations t @ [w]\<rparr>"
    by (auto simp: create_delegation_worktree_operation_def and_then_Inr_iff write_operations_ok refuse_def
        split: if_splits)
  have new: "lookup_by wo_operation_id (wo_operation_id w) (dl_operations t) = None"
    using ok by (intro lookup_new_key) (simp add: worktree_table_ok_def)
  have "delegation_view t' = ((ops_view (dl_operations t))(wo_operation_id w \<mapsto> WtPreparing), txs_view (dl_applies t))"
    using new st by (auto simp: delegation_view_def ops_view_def t' split: option.splits)
  moreover have "ops_view (dl_operations t) (wo_operation_id w) = None" using new by (simp add: ops_view_def)
  ultimately show ?thesis
    using ok assms(1) delegation_spec.opened
    by (simp add: step_kept_def tables_kept_def t' delegation_view_def [of t])
qed

lemma swap_operation_step:
  assumes "tables_kept t" and "compare_and_swap_delegation_worktree_operation e expected w t = Inr (b, t')"
  shows "step_kept t t'"
proof -
  from assms(2) obtain n where guards: "expected \<noteq> WtRemoving" "wo_state w \<noteq> WtRemoving" "wo_state w \<noteq> WtApplying"
      "expected = WtApplying \<longrightarrow> wo_state w = WtCleanupRequired" "worktree_can_transition expected (wo_state w)"
    and run: "update_operations e (swap_hit expected w) (swapped_operation w) t = Inr (n, t')"
    by (auto simp: compare_and_swap_delegation_worktree_operation_def and_then_Inr_iff refuse_def
        split: if_splits)
  from run assms(1) show ?thesis
  proof (cases rule: update_operations_cases [where k = "wo_operation_id w"])
    case (one q)
    then have "fst (delegation_view t) (wo_operation_id w) = Some expected"
      using view_operation by (simp add: swap_hit_def)
    with guards have "delegation_spec (delegation_view t)
        ((fst (delegation_view t))(wo_operation_id w \<mapsto> wo_state w), snd (delegation_view t))"
      by (cases "delegation_view t") (auto intro: delegation_spec.moved)
    with one show ?thesis by (simp add: step_kept_def swapped_operation_def)
  qed (use assms(1) step_kept_refl in \<open>auto simp: swap_hit_def swapped_operation_def\<close>)
qed

lemma claim_removal_step:
  assumes "tables_kept t" and "claim_delegation_worktree_removal e oid owner now lease t = Inr (r, t')"
  shows "step_kept t t'"
proof -
  from assms(2) obtain n owner' now' lease' where
    run: "update_operations e (\<lambda>q. wo_operation_id q = oid \<and> claimable_removal now' q)
      (\<lambda>q. q\<lparr>wo_state := WtRemoving, wo_recovery_owner := Some owner',
             wo_recovery_lease_until := Some lease', wo_updated_at := now'\<rparr>) t = Inr (n, t')"
    by (auto simp: claim_delegation_worktree_removal_def and_then_Inr_iff refuse_def split: if_splits)
  from run assms(1) show ?thesis
  proof (cases rule: update_operations_cases [where k = oid])
    case (one q)
    have v: "fst (delegation_view t) oid = Some (wo_state q)" by (rule view_operation [OF one(2)])
    have "delegation_spec (delegation_view t) ((fst (delegation_view t))(oid \<mapsto> WtRemoving), snd (delegation_view t))"
    proof (cases "wo_state q = WtRemoving")
      case True
      with v have "(fst (delegation_view t))(oid \<mapsto> WtRemoving) = fst (delegation_view t)"
        by (simp add: fun_upd_idem)
      then show ?thesis by (simp add: delegation_spec.stay)
    next
      case False
      with one(3) have "worktree_can_transition (wo_state q) WtRemoving"
        by (auto simp: claimable_removal_def worktree_can_transition_def)
      with v show ?thesis by (cases "delegation_view t") (auto intro: delegation_spec.removing)
    qed
    with one show ?thesis by (simp add: step_kept_def)
  qed (use assms(1) step_kept_refl in auto)
qed

lemma removal_outcome_ok:
  "removal_outcome st err = Inr u \<longleftrightarrow>
     st = WtRemoved \<and> err = None \<or> st = WtCleanupRequired \<and> (\<exists>text. err = Some text \<and> \<not> blank text)"
  by (auto simp: removal_outcome_def refuse_def is_some_and_def split: worktree_state.splits option.splits)

lemma finalize_removal_step:
  assumes "tables_kept t"
    and "finalize_delegation_worktree_removal e oid owner final_state last_error at t = Inr (r, t')"
  shows "step_kept t t'"
proof -
  from assms(2) obtain n owner' at' where
    run: "update_operations e
      (\<lambda>q. wo_operation_id q = oid \<and> wo_state q = WtRemoving \<and> wo_recovery_owner q = Some owner')
      (\<lambda>q. q\<lparr>wo_state := final_state, wo_last_error := last_error, wo_recovery_owner := None,
             wo_recovery_lease_until := None, wo_updated_at := at'\<rparr>) t = Inr (n, t')"
    and final: "final_state \<in> {WtRemoved, WtCleanupRequired}"
    by (auto simp: finalize_delegation_worktree_removal_def and_then_Inr_iff removal_outcome_ok
        split: if_splits)
  from run assms(1) show ?thesis
  proof (cases rule: update_operations_cases [where k = oid])
    case (one q)
    have "fst (delegation_view t) oid = Some WtRemoving" using view_operation [OF one(2)] one(3) by simp
    with final have "delegation_spec (delegation_view t)
        ((fst (delegation_view t))(oid \<mapsto> final_state), snd (delegation_view t))"
      by (cases "delegation_view t") (auto intro: delegation_spec.removed)
    with one show ?thesis by (simp add: step_kept_def)
  qed (use assms(1) step_kept_refl in auto)
qed

lemma distinct_map_filter_opt:
  assumes "distinct (List.map_filter g xs)"
  shows "distinct (List.map_filter g (filter P xs))"
proof -
  have "filter (\<lambda>x. g x \<noteq> None) (filter P xs) = filter P (filter (\<lambda>x. g x \<noteq> None) xs)"
    by (simp add: conj_commute)
  then show ?thesis
    using assms distinct_map_filter [of "the \<circ> g" "filter (\<lambda>x. g x \<noteq> None) xs" P]
    by (simp add: List.map_filter_def del: filter_filter)
qed

lemma worktree_table_filter:
  assumes "worktree_table_ok ws"
  shows "worktree_table_ok (filter P ws)"
proof -
  have live: "live_operations (filter P ws) = filter P (live_operations ws)"
    by (simp add: live_operations_def conj_commute)
  have roots: "filter (\<lambda>w. wo_common_dir_id w \<noteq> None) (filter P zs) =
      filter P (filter (\<lambda>w. wo_common_dir_id w \<noteq> None) zs)" for zs
    by (simp add: conj_commute)
  show ?thesis
    using assms unfolding worktree_table_ok_def live roots
    by (auto intro: distinct_map_filter distinct_map_filter_opt simp: list_all_iff simp del: filter_filter)
qed

lemma apply_table_filter: "apply_table_ok ats \<Longrightarrow> apply_table_ok (filter P ats)"
proof -
  assume ok: "apply_table_ok ats"
  have active: "active_applies (filter P ats) = filter P (active_applies ats)"
    by (simp add: active_applies_def conj_commute)
  show ?thesis
    using ok unfolding apply_table_ok_def active by (auto intro: distinct_map_filter simp: list_all_iff)
qed

lemma delete_removed_step:
  assumes "tables_kept t"
  shows "step_kept t (snd (delete_removed_delegation_worktree_operation oid t))"
proof -
  let ?gone = "\<lambda>w. wo_operation_id w = oid \<and> wo_state w = WtRemoved"
  let ?t = "t\<lparr>dl_operations := filter (\<lambda>w. \<not> ?gone w) (dl_operations t)\<rparr>"
  have t': "snd (delete_removed_delegation_worktree_operation oid t) = ?t"
    by (simp add: delete_removed_delegation_worktree_operation_def Let_def)
  have kept: "tables_kept ?t" using assms worktree_table_filter by (simp add: tables_kept_def)
  note look = lookup_by_filter [OF tables_kept_ids(1) [OF assms]]
  have "delegation_spec (delegation_view t) (delegation_view ?t)"
  proof (cases "fst (delegation_view t) oid = Some WtRemoved")
    case True
    then have "ops_view (filter (\<lambda>w. \<not> ?gone w) (dl_operations t)) = (ops_view (dl_operations t))(oid := None)"
      by (auto simp: delegation_view_def ops_view_def look fun_eq_iff filter_opt_def dest: lookup_by_SomeD
          split: option.splits)
    with True show ?thesis by (simp add: delegation_view_def delegation_spec.purged)
  next
    case False
    then have "ops_view (filter (\<lambda>w. \<not> ?gone w) (dl_operations t)) = ops_view (dl_operations t)"
      by (auto simp: delegation_view_def ops_view_def look fun_eq_iff filter_opt_def dest: lookup_by_SomeD
          split: option.splits)
    then show ?thesis by (simp add: delegation_view_def delegation_spec.stay)
  qed
  with kept show ?thesis unfolding t' by (simp add: step_kept_def)
qed

lemma delete_terminal_step:
  assumes "tables_kept t"
  shows "step_kept t (snd (delete_terminal_delegation_apply_transaction tid t))"
proof -
  let ?gone = "\<lambda>a. at_transaction_id a = tid \<and> apply_is_terminal (at_state a)"
  let ?t = "t\<lparr>dl_applies := filter (\<lambda>a. \<not> ?gone a) (dl_applies t)\<rparr>"
  have t': "snd (delete_terminal_delegation_apply_transaction tid t) = ?t"
    by (simp add: delete_terminal_delegation_apply_transaction_def Let_def)
  have kept: "tables_kept ?t" using assms apply_table_filter by (simp add: tables_kept_def)
  note look = lookup_by_filter [OF tables_kept_ids(2) [OF assms]]
  have "delegation_spec (delegation_view t) (delegation_view ?t)"
  proof (cases "\<exists>oid st. snd (delegation_view t) tid = Some (oid, st) \<and> apply_is_terminal st")
    case True
    then have "txs_view (filter (\<lambda>a. \<not> ?gone a) (dl_applies t)) = (txs_view (dl_applies t))(tid := None)"
      by (auto simp: delegation_view_def txs_view_def look fun_eq_iff filter_opt_def dest: lookup_by_SomeD
          split: option.splits)
    with True show ?thesis by (auto simp: delegation_view_def intro: delegation_spec.forgotten)
  next
    case False
    then have "txs_view (filter (\<lambda>a. \<not> ?gone a) (dl_applies t)) = txs_view (dl_applies t)"
      by (auto simp: delegation_view_def txs_view_def look fun_eq_iff filter_opt_def dest: lookup_by_SomeD
          split: option.splits)
    then show ?thesis by (simp add: delegation_view_def delegation_spec.stay)
  qed
  with kept show ?thesis unfolding t' by (simp add: step_kept_def)
qed

lemma scope_one:
  assumes "tables_kept t" and "changed_rows (review_pending_scope a) (dl_operations t) = 1"
  shows "fst (delegation_view t) (at_operation_id a) = Some WtReviewPending"
proof -
  from assms(2) obtain w where "lookup_by wo_operation_id (at_operation_id a) (dl_operations t) = Some w"
    and "review_pending_scope a w"
    using changed_rows_one [OF tables_kept_ids(1) [OF assms(1)], of "review_pending_scope a" "at_operation_id a"]
    by (auto simp: review_pending_scope_def)
  then show ?thesis by (simp add: view_operation review_pending_scope_def)
qed

lemma occupied_rows:
  assumes "occupied (txs_view ats) oid"
  shows "oid \<in> at_operation_id ` set (active_applies ats)"
  using assms unfolding occupied_def txs_view_def active_applies_def
  by (auto dest!: lookup_by_SomeD)

lemma create_apply_step:
  assumes "tables_kept t" and "create_delegation_apply_transaction e a t = Inr t'"
  shows "step_kept t t'"
proof -
  from assms(2) have scope: "changed_rows (review_pending_scope a) (dl_operations t) = 1"
    and ok: "apply_table_ok (dl_applies t @ [fresh_apply_row a])"
    and t': "t' = t\<lparr>dl_applies := dl_applies t @ [fresh_apply_row a]\<rparr>"
    by (auto simp: create_delegation_apply_transaction_def and_then_Inr_iff write_applies_ok refuse_def
        split: if_splits)
  have fresh [simp]: "at_transaction_id (fresh_apply_row a) = at_transaction_id a"
    "at_operation_id (fresh_apply_row a) = at_operation_id a" "at_state (fresh_apply_row a) = ApPreparing"
    by (simp_all add: fresh_apply_row_def)
  have new: "lookup_by at_transaction_id (at_transaction_id a) (dl_applies t) = None"
    using ok lookup_new_key [of at_transaction_id "dl_applies t" "fresh_apply_row a"]
    by (simp add: apply_table_ok_def)
  have free: "\<not> occupied (txs_view (dl_applies t)) (at_operation_id a)"
    using ok occupied_rows by (auto simp: apply_table_ok_def active_applies_def)
  have "delegation_view t' = (ops_view (dl_operations t),
      (txs_view (dl_applies t))(at_transaction_id a \<mapsto> (at_operation_id a, ApPreparing)))"
    using new by (auto simp: delegation_view_def txs_view_def t' split: option.splits)
  moreover have "txs_view (dl_applies t) (at_transaction_id a) = None" using new by (simp add: txs_view_def)
  ultimately show ?thesis
    using ok assms(1) free scope_one [OF assms(1) scope] delegation_spec.begun
    by (simp add: step_kept_def tables_kept_def t' delegation_view_def [of t])
qed

lemma swap_apply_step:
  assumes "tables_kept t" and "compare_and_swap_delegation_apply_transaction e expected a t = Inr (b, t')"
  shows "step_kept t t'"
proof -
  from assms(2) obtain n where edge: "can_pre_apply_transition_to expected (at_state a)"
    and run: "update_applies e (apply_swap_hit expected a) (swapped_apply a) t = Inr (n, t')"
    by (auto simp: compare_and_swap_delegation_apply_transaction_def and_then_Inr_iff refuse_def
        split: if_splits)
  from run assms(1) show ?thesis
  proof (cases rule: update_applies_cases [where k = "at_transaction_id a"])
    case (one q)
    then have "snd (delegation_view t) (at_transaction_id a) = Some (at_operation_id a, expected)"
      using view_apply by (simp add: apply_swap_hit_def)
    with edge have "delegation_spec (delegation_view t) (fst (delegation_view t),
        (snd (delegation_view t))(at_transaction_id a \<mapsto> (at_operation_id a, at_state a)))"
      by (cases "delegation_view t") (auto intro: delegation_spec.prepared)
    with one show ?thesis by (simp add: step_kept_def swapped_apply_def apply_swap_hit_def)
  qed (use assms(1) step_kept_refl in \<open>auto simp: apply_swap_hit_def swapped_apply_def\<close>)
qed

lemma get_apply_SomeD:
  assumes "get_delegation_apply_transaction e tid t = Inr (Some a)"
  shows "lookup_by at_transaction_id tid (dl_applies t) = Some a" and "at_transaction_id a = tid"
proof -
  show "lookup_by at_transaction_id tid (dl_applies t) = Some a"
    using assms by (auto simp: get_delegation_apply_transaction_def optional_row_def decode_apply_def
        and_then_Inr_iff split: option.splits sum.splits)
  then show "at_transaction_id a = tid" by (auto dest: lookup_by_SomeD)
qed

lemma start_applying_step:
  assumes "tables_kept t" and "lookup_by at_transaction_id (at_transaction_id current) (dl_applies t) = Some current"
    and "start_applying e current owner now lease t = Inr (True, t')"
  shows "step_kept t t'"
    and "lookup_by at_transaction_id (at_transaction_id current) (dl_applies t') =
      Some (current\<lparr>at_state := ApApplying, at_recovery_owner := Some owner,
              at_recovery_lease_until := Some lease, at_updated_at := now\<rparr>)"
proof -
  let ?tid = "at_transaction_id current"
  let ?start = "\<lambda>a. a\<lparr>at_state := ApApplying, at_recovery_owner := Some owner,
    at_recovery_lease_until := Some lease, at_updated_at := now\<rparr>"
  from assms(3) obtain n t1 where
    up: "update_operations e (review_pending_scope current)
      (\<lambda>w. w\<lparr>wo_state := WtApplying, wo_last_error := None, wo_updated_at := now\<rparr>) t = Inr (n, t1)"
    and n: "n = 1"
    and run: "update_applies e (\<lambda>a. at_transaction_id a = ?tid \<and> at_state a = ApPrepared) ?start t1 = Inr (1, t')"
    by (auto simp: start_applying_def and_then_Inr_iff split: if_splits)
  have "step_kept t t' \<and> lookup_by at_transaction_id ?tid (dl_applies t') = Some (?start current)"
    using up assms(1)
  proof (cases rule: update_operations_cases [where k = "at_operation_id current"])
    case (one w)
    have pending: "fst (delegation_view t) (at_operation_id current) = Some WtReviewPending"
      using view_operation [OF one(2)] one(3) by (simp add: review_pending_scope_def)
    have same: "dl_applies t1 = dl_applies t" using one(4) by simp
    from run one(5) show ?thesis
    proof (cases rule: update_applies_cases [where k = ?tid])
      case (one a)
      then have a: "a = current" using assms(2) same by simp
      then have "snd (delegation_view t) ?tid = Some (at_operation_id current, ApPrepared)"
        using view_apply [OF assms(2)] one(3) by simp
      with pending have "delegation_spec (delegation_view t)
          ((fst (delegation_view t))(at_operation_id current \<mapsto> WtApplying),
           (snd (delegation_view t))(?tid \<mapsto> (at_operation_id current, ApApplying)))"
        by (cases "delegation_view t") (auto intro: delegation_spec.started)
      with one \<open>delegation_view t1 = _\<close> a show ?thesis by (simp add: step_kept_def)
    qed auto
  qed (use n in \<open>auto simp: review_pending_scope_def\<close>)
  then show "step_kept t t'" and "lookup_by at_transaction_id ?tid (dl_applies t') = Some (?start current)"
    by simp_all
qed

lemma take_over_step:
  assumes "tables_kept t" and "lookup_by at_transaction_id tid (dl_applies t) = Some current"
    and "take_over e tid owner now lease lock_held t = Inr (True, t')"
  shows "step_kept t t'" and "at_state current = ApApplying"
    and "holds_applying (at_operation_id current) t"
    and "lookup_by at_transaction_id tid (dl_applies t') =
      Some (current\<lparr>at_recovery_owner := Some owner, at_recovery_lease_until := Some lease, at_updated_at := now\<rparr>)"
    and "dl_operations t' = dl_operations t"
proof -
  let ?take = "\<lambda>a. a\<lparr>at_recovery_owner := Some owner, at_recovery_lease_until := Some lease,
    at_updated_at := now\<rparr>"
  from assms(3) have
    run: "update_applies e (\<lambda>a. at_transaction_id a = tid \<and> at_state a = ApApplying \<and>
        at_recovery_lease_until a \<noteq> None \<and> (lock_held \<or> lease_over now a) \<and>
        holds_applying (at_operation_id a) t) ?take t = Inr (1, t')"
    by (auto simp: take_over_def and_then_Inr_iff)
  have "step_kept t t' \<and> at_state current = ApApplying \<and> holds_applying (at_operation_id current) t \<and>
      lookup_by at_transaction_id tid (dl_applies t') = Some (?take current) \<and>
      dl_operations t' = dl_operations t"
    using run assms(1)
  proof (cases rule: update_applies_cases [where k = tid])
    case (one a)
    then have a: "a = current" using assms(2) by simp
    have "snd (delegation_view t) tid = Some (at_operation_id current, at_state current)"
      by (rule view_apply [OF assms(2)])
    then have "(snd (delegation_view t))(tid \<mapsto> (at_operation_id current, at_state current)) = snd (delegation_view t)"
      by (simp add: fun_upd_idem)
    with one a show ?thesis by (simp add: step_kept_def delegation_spec.stay)
  qed auto
  then show "step_kept t t'" and "at_state current = ApApplying" and "holds_applying (at_operation_id current) t"
    and "lookup_by at_transaction_id tid (dl_applies t') = Some (?take current)"
    and "dl_operations t' = dl_operations t" by simp_all
qed

lemma claim_apply_cases [consumes 1, case_names nothing started taken]:
  assumes "claim_delegation_apply_transaction e tid owner now lease lock_held t = Inr (r, t')"
  obtains "r = None" and "t' = t"
  | current now' lease' where "get_delegation_apply_transaction e tid t = Inr (Some current)"
      and "at_state current = ApPrepared" and "start_applying e current (trim owner) now' lease' t = Inr (True, t')"
      and "normalize_delegation_recovery_timestamp e now ''apply claim time'' = Inr now'"
      and "normalize_delegation_recovery_timestamp e lease ''apply lease'' = Inr lease'"
      and "\<not> lease' \<le> now'" and "trim owner \<noteq> []" and "byte_len (trim owner) \<le> 256"
      and "read_back (decode_apply e) (lookup_by at_transaction_id tid (dl_applies t')) = Inr r"
  | current now' lease' where "get_delegation_apply_transaction e tid t = Inr (Some current)"
      and "at_state current = ApApplying" and "lock_held \<or> lease_over now' current"
      and "take_over e tid (trim owner) now' lease' lock_held t = Inr (True, t')"
      and "normalize_delegation_recovery_timestamp e now ''apply claim time'' = Inr now'"
      and "normalize_delegation_recovery_timestamp e lease ''apply lease'' = Inr lease'"
      and "\<not> lease' \<le> now'" and "trim owner \<noteq> []" and "byte_len (trim owner) \<le> 256"
      and "read_back (decode_apply e) (lookup_by at_transaction_id tid (dl_applies t')) = Inr r"
proof -
  from assms obtain now' lease' row where
    pre: "normalize_delegation_recovery_timestamp e now ''apply claim time'' = Inr now'"
      "normalize_delegation_recovery_timestamp e lease ''apply lease'' = Inr lease'"
      "\<not> lease' \<le> now'" "trim owner \<noteq> []" "byte_len (trim owner) \<le> 256"
    and row: "get_delegation_apply_transaction e tid t = Inr row"
    and body: "(case row of None \<Rightarrow> Inr (None, t)
       | Some current \<Rightarrow>
           and_then
             (if at_state current = ApPrepared then start_applying e current (trim owner) now' lease' t
              else if at_state current = ApApplying \<and> (lock_held \<or> lease_over now' current)
              then take_over e tid (trim owner) now' lease' lock_held t
              else Inr (False, t)) (\<lambda>(claimed, t').
           if \<not> claimed then Inr (None, t)
           else and_then (read_back (decode_apply e) (lookup_by at_transaction_id tid (dl_applies t')))
                  (\<lambda>a. Inr (a, t')))) = Inr (r, t')"
    unfolding claim_delegation_apply_transaction_def recovery_owner_param_def refuse_def
    by (auto elim!: and_then_InrE split: if_splits)
  show thesis
  proof (cases row)
    case None
    with body that(1) show thesis by simp
  next
    case (Some current)
    with body obtain claimed t1 where
      arm: "(if at_state current = ApPrepared then start_applying e current (trim owner) now' lease' t
        else if at_state current = ApApplying \<and> (lock_held \<or> lease_over now' current)
        then take_over e tid (trim owner) now' lease' lock_held t
        else Inr (False, t)) = Inr (claimed, t1)"
      and rest: "(if \<not> claimed then Inr (None, t)
         else and_then (read_back (decode_apply e) (lookup_by at_transaction_id tid (dl_applies t1)))
                (\<lambda>a. Inr (a, t1))) = Inr (r, t')"
      by (auto elim!: and_then_InrE)
    show thesis
    proof (cases claimed)
      case True
      with rest have reads: "t' = t1" "read_back (decode_apply e) (lookup_by at_transaction_id tid (dl_applies t')) = Inr r"
        by (auto elim!: and_then_InrE)
      show thesis
      proof (cases "at_state current = ApPrepared")
        case True
        with arm \<open>claimed\<close> reads pre row Some show thesis by (intro that(2)) auto
      next
        case False
        with arm \<open>claimed\<close> reads pre row Some show thesis by (intro that(3)) (auto split: if_splits)
      qed
    qed (use rest that(1) in simp)
  qed
qed

lemma claim_apply_step:
  assumes "tables_kept t" and "claim_delegation_apply_transaction e tid owner now lease lock_held t = Inr (r, t')"
  shows "step_kept t t'"
  using assms(2)
proof (cases rule: claim_apply_cases)
  case nothing
  then show ?thesis using assms(1) step_kept_refl by simp
next
  case (started current now' lease')
  note get_apply_SomeD [OF started(1)]
  with start_applying_step(1) [OF assms(1) _ started(3)] show ?thesis by simp
next
  case (taken current now' lease')
  from take_over_step(1) [OF assms(1) get_apply_SomeD(1) [OF taken(1)] taken(4)] show ?thesis .
qed

lemma apply_outcome_ok:
  "apply_outcome st err = Inr after \<longleftrightarrow>
     st = ApApplied \<and> err = None \<and> after = WtApplied \<or>
     st = ApRolledBack \<and> after = WtReviewPending \<or>
     st = ApRecoveryRequired \<and> (\<exists>text. err = Some text \<and> \<not> blank text) \<and> after = WtCleanupRequired"
  by (auto simp: apply_outcome_def refuse_def split: apply_state.splits option.splits if_splits)

lemma closed_apply_simps [simp]:
  "at_transaction_id (closed_apply st err at a) = at_transaction_id a"
  "at_operation_id (closed_apply st err at a) = at_operation_id a"
  "at_state (closed_apply st err at a) = st"
  by (simp_all add: closed_apply_def)

lemma finalize_apply_cases [consumes 1, case_names nothing closed]:
  assumes "finalize_delegation_apply_transaction e tid owner st err at t = Inr (r, t')"
  obtains "r = None" and "t' = t"
  | current after at' t1 where "lookup_by at_transaction_id tid (dl_applies t) = Some current"
      and "at_state current = ApApplying" and "at_recovery_owner current = Some (trim owner)"
      and "apply_outcome st err = Inr after"
      and "normalize_delegation_recovery_timestamp e at ''apply update time'' = Inr at'"
      and "update_operations e (\<lambda>w. wo_operation_id w = at_operation_id current \<and> wo_state w = WtApplying)
        (\<lambda>w. w\<lparr>wo_state := after, wo_last_error := (if st = ApRecoveryRequired then err else None),
               wo_updated_at := at'\<rparr>) t = Inr (1, t1)"
      and "update_applies e (\<lambda>a. at_transaction_id a = tid \<and> at_state a = ApApplying \<and>
          at_recovery_owner a = Some (trim owner)) (closed_apply st err at') t1 = Inr (1, t')"
      and "apply_validate (dn_parse e) (closed_apply st err at' current) = Inr ()"
      and "r = Some (closed_apply st err at' current)"
proof -
  from assms obtain owner' after at' row where
    own: "recovery_owner_param ''delegation apply recovery owner is invalid'' owner = Inr owner'"
    and outcome: "apply_outcome st err = Inr after"
      "normalize_delegation_recovery_timestamp e at ''apply update time'' = Inr at'"
    and row: "get_delegation_apply_transaction e tid t = Inr row"
    and body: "(case row of None \<Rightarrow> Inr (None, t)
     | Some current \<Rightarrow>
         if at_state current \<noteq> ApApplying \<or> at_recovery_owner current \<noteq> Some owner' then Inr (None, t)
         else and_then (update_operations e
                (\<lambda>w. wo_operation_id w = at_operation_id current \<and> wo_state w = WtApplying)
                (\<lambda>w. w\<lparr>wo_state := after, wo_last_error := (if st = ApRecoveryRequired then err else None),
                       wo_updated_at := at'\<rparr>) t) (\<lambda>(changed, t1).
              if changed \<noteq> 1 then Inr (None, t)
              else and_then (update_applies e
                  (\<lambda>a. at_transaction_id a = tid \<and> at_state a = ApApplying \<and>
                       at_recovery_owner a = Some owner') (closed_apply st err at') t1) (\<lambda>(changed, t2).
                if changed \<noteq> 1 then Inr (None, t)
                else and_then (as_input (apply_validate (dn_parse e) (closed_apply st err at' current)))
                       (\<lambda>_. Inr (Some (closed_apply st err at' current), t2))))) = Inr (r, t')"
    unfolding finalize_delegation_apply_transaction_def by (elim and_then_InrE) (rule that; assumption)
  have "owner' = trim owner" using own by (simp add: recovery_owner_param_def refuse_def split: if_splits)
  note body = body [unfolded this]
  show thesis
  proof (cases row)
    case None
    with body that(1) show thesis by simp
  next
    case (Some current)
    note look = get_apply_SomeD(1) [OF row [unfolded Some]]
    show thesis
    proof (cases "r = None")
      case True
      with body Some have "t' = t" by (auto elim!: and_then_InrE split: if_splits)
      with True that(1) show thesis by blast
    next
      case False
      with body Some obtain t1 where
        "update_operations e (\<lambda>w. wo_operation_id w = at_operation_id current \<and> wo_state w = WtApplying)
          (\<lambda>w. w\<lparr>wo_state := after, wo_last_error := (if st = ApRecoveryRequired then err else None),
                 wo_updated_at := at'\<rparr>) t = Inr (1, t1)"
        and "update_applies e (\<lambda>a. at_transaction_id a = tid \<and> at_state a = ApApplying \<and>
            at_recovery_owner a = Some (trim owner)) (closed_apply st err at') t1 = Inr (1, t')"
        and "at_state current = ApApplying" and "at_recovery_owner current = Some (trim owner)"
        and "apply_validate (dn_parse e) (closed_apply st err at' current) = Inr ()"
        and "r = Some (closed_apply st err at' current)"
        by (auto simp: as_input_def elim!: and_then_InrE split: if_splits sum.splits)
      with outcome look show thesis by (intro that(2))
    qed
  qed
qed

lemma finalize_apply_step:
  assumes "tables_kept t" and "finalize_delegation_apply_transaction e tid owner st err at t = Inr (r, t')"
  shows "step_kept t t'"
  using assms(2)
proof (cases rule: finalize_apply_cases)
  case nothing
  then show ?thesis using assms(1) step_kept_refl by simp
next
  case (closed current after at' t1)
  note tid = closed(1)
  from closed(6) assms(1) show ?thesis
  proof (cases rule: update_operations_cases [where k = "at_operation_id current"])
    case (one w)
    have applying: "fst (delegation_view t) (at_operation_id current) = Some WtApplying"
      using view_operation [OF one(2)] one(3) by simp
    note t1 = one(4,6)
    from closed(7) one(5) show ?thesis
    proof (cases rule: update_applies_cases [where k = tid])
      case (one a)
      have a: "a = current" using one(2) tid t1(1) by simp
      have "snd (delegation_view t) tid = Some (at_operation_id current, ApApplying)"
        using view_apply [OF tid] closed(2) by simp
      with applying closed(4) have "delegation_spec (delegation_view t)
          ((fst (delegation_view t))(at_operation_id current \<mapsto> after),
           (snd (delegation_view t))(tid \<mapsto> (at_operation_id current, st)))"
        by (cases "delegation_view t") (auto simp: apply_outcome_ok intro!: delegation_spec.finished)
      with one t1(2) a show ?thesis by (simp add: step_kept_def)
    qed auto
  qed auto
qed

lemma map_sum_snd: "map_sum id snd r = Inr t' \<Longrightarrow> \<exists>b. r = Inr (b, t')"
  by (cases r) auto

lemma perform_step: "perform e c t = Inr t' \<Longrightarrow> tables_kept t \<Longrightarrow> step_kept t t'"
  by (cases c)
    (auto dest!: map_sum_snd intro: create_operation_step swap_operation_step claim_removal_step
      finalize_removal_step delete_removed_step create_apply_step swap_apply_step claim_apply_step
      finalize_apply_step delete_terminal_step)

lemma settle_step: "tables_kept t \<Longrightarrow> step_kept t (settle e c t)"
  using perform_step [of e c t] step_kept_refl by (auto simp: settle_def split: sum.splits)

lemma run_delegation_simps [simp]:
  "run_delegation e [] t = t" "run_delegation e (c # cs) t = run_delegation e cs (settle e c t)"
  "run_delegation e (cs @ ds) t = run_delegation e ds (run_delegation e cs t)"
  by (simp_all add: run_delegation_def)

text \<open>What holds of the tables and is kept by every call holds after a run.\<close>

lemma run_delegation_induct:
  assumes "P t" and "\<And>c t. c \<in> set cs \<Longrightarrow> P t \<Longrightarrow> P (settle e c t)"
  shows "P (run_delegation e cs t)"
  using assms by (induction cs arbitrary: t) auto

lemma no_delegations_kept: "tables_kept no_delegations"
  by (simp add: tables_kept_def no_delegations_def worktree_table_ok_def apply_table_ok_def
      live_operations_def active_applies_def List.map_filter_def)

definition delegation_inv :: "delegations \<Rightarrow> bool" where
  "delegation_inv t \<longleftrightarrow> tables_kept t \<and> one_active (delegation_view t) \<and> backed (delegation_view t)"

lemma delegation_inv_settle: "delegation_inv t \<Longrightarrow> delegation_inv (settle e c t)"
  using settle_step [of t e c] one_active_step backed_step unfolding delegation_inv_def step_kept_def by blast

lemma delegation_inv_run: "delegation_inv t \<Longrightarrow> delegation_inv (run_delegation e cs t)"
  by (rule run_delegation_induct) (auto intro: delegation_inv_settle)

lemma delegation_inv_empty: "delegation_inv no_delegations"
  using no_delegations_kept
  by (simp add: delegation_inv_def one_active_def backed_def delegation_view_def no_delegations_def
      ops_view_def txs_view_def)

lemma run_from_no_delegations: "delegation_inv (run_delegation e cs no_delegations)"
  by (rule delegation_inv_run [OF delegation_inv_empty])

end
