(* ===== verification/Delegation_Claims.thy ===== *)
theory Delegation_Claims
  imports Delegation_Spec
begin

text \<open>
  What the calls on the journal of delegated tasks keep: every row passes the checks of a reader, a
  claimed transaction is left alone by everyone who respects the claim, and a transaction whose
  operation was moved away under it stays where it is.
\<close>

section \<open>Rows can be read\<close>

text \<open>Documented behaviour of chrono: what it formats is not blank, and it parses it.\<close>

definition clock_ok :: "delegation_env \<Rightarrow> bool" where
  "clock_ok e \<longleftrightarrow> (\<forall>i. dn_parse e (dn_format e i) \<noteq> None \<and> \<not> blank (dn_format e i))"

definition rows_valid :: "delegation_env \<Rightarrow> delegations \<Rightarrow> bool" where
  "rows_valid e t \<longleftrightarrow> (\<forall>w \<in> set (dl_operations t). worktree_validate (dn_parse e) w = Inr ()) \<and>
     (\<forall>a \<in> set (dl_applies t). apply_validate (dn_parse e) a = Inr ())"

lemma normalize_ok:
  assumes "clock_ok e" and "normalize_delegation_recovery_timestamp e v field = Inr at"
  shows "dn_parse e at \<noteq> None" and "\<not> blank at"
  using assms by (auto simp: normalize_delegation_recovery_timestamp_def clock_ok_def split: option.splits)

lemma owner_param_ok:
  assumes "recovery_owner_param message owner = Inr p"
  shows "p = trim owner" and "owner_ok p"
  using assms by (auto simp: recovery_owner_param_def refuse_def owner_ok_def blank_def split: if_splits)

lemma as_input_Inr [simp]: "as_input r = Inr x \<longleftrightarrow> r = Inr x"
  by (cases r) (simp_all add: as_input_def)

lemma rows_valid_update_operations:
  assumes "rows_valid e t" and "update_operations e hit f t = Inr (n, t')"
    and "\<And>w. hit w \<Longrightarrow> worktree_validate (dn_parse e) w = Inr () \<Longrightarrow> worktree_validate (dn_parse e) (f w) = Inr ()"
  shows "rows_valid e t'"
  using assms
  by (auto simp: update_operations_def and_then_Inr_iff write_operations_ok rows_valid_def update_where_def)

lemma rows_valid_update_applies:
  assumes "rows_valid e t" and "update_applies e hit f t = Inr (n, t')"
    and "\<And>a. hit a \<Longrightarrow> a \<in> set (dl_applies t) \<Longrightarrow> apply_validate (dn_parse e) a = Inr () \<Longrightarrow>
      apply_validate (dn_parse e) (f a) = Inr ()"
  shows "rows_valid e t'"
  using assms
  by (auto simp: update_applies_def and_then_Inr_iff write_applies_ok rows_valid_def update_where_def)

lemma create_operation_valid:
  "rows_valid e t \<Longrightarrow> create_delegation_worktree_operation e w t = Inr t' \<Longrightarrow> rows_valid e t'"
  by (auto simp: create_delegation_worktree_operation_def and_then_Inr_iff write_operations_ok refuse_def
      rows_valid_def split: if_splits)

lemma swap_operation_valid:
  assumes valid: "rows_valid e t"
    and run: "compare_and_swap_delegation_worktree_operation e expected w t = Inr (b, t')"
  shows "rows_valid e t'"
proof -
  from run obtain n where w: "worktree_validate (dn_parse e) w = Inr ()" "wo_state w \<noteq> WtRemoving"
    and expected: "expected \<noteq> WtRemoving"
    and up: "update_operations e (swap_hit expected w) (swapped_operation w) t = Inr (n, t')"
    by (auto simp: compare_and_swap_delegation_worktree_operation_def and_then_Inr_iff refuse_def
        split: if_splits)
  show ?thesis
  proof (rule rows_valid_update_operations [OF valid up])
    fix q assume q: "swap_hit expected w q" "worktree_validate (dn_parse e) q = Inr ()"
    have "wo_recovery_owner w = None \<and> wo_recovery_lease_until w = None"
      using w by (auto simp: worktree_validate_ok split: option.splits)
    moreover have "wo_recovery_owner q = None \<and> wo_recovery_lease_until q = None"
      using q expected by (auto simp: worktree_validate_ok swap_hit_def split: option.splits)
    ultimately have "swapped_operation w q = w"
      using q(1) by (cases w; cases q) (simp add: swapped_operation_def swap_hit_def)
    with w(1) show "worktree_validate (dn_parse e) (swapped_operation w q) = Inr ()" by simp
  qed
qed

lemma claim_removal_valid:
  assumes clock: "clock_ok e" and valid: "rows_valid e t"
    and run: "claim_delegation_worktree_removal e oid owner now lease t = Inr (r, t')"
  shows "rows_valid e t'"
proof -
  from run obtain p now' lease' n where
    p: "recovery_owner_param ''delegation worktree recovery owner is invalid'' owner = Inr p"
    and times: "normalize_delegation_recovery_timestamp e now ''recovery claim time'' = Inr now'"
      "normalize_delegation_recovery_timestamp e lease ''recovery lease'' = Inr lease'"
    and up: "update_operations e (\<lambda>q. wo_operation_id q = oid \<and> claimable_removal now' q)
      (\<lambda>q. q\<lparr>wo_state := WtRemoving, wo_recovery_owner := Some p,
             wo_recovery_lease_until := Some lease', wo_updated_at := now'\<rparr>) t = Inr (n, t')"
    by (auto simp: claim_delegation_worktree_removal_def and_then_Inr_iff refuse_def split: if_splits)
  note ok = owner_param_ok(2) [OF p] normalize_ok [OF clock times(1)] normalize_ok [OF clock times(2)]
  show ?thesis
    by (rule rows_valid_update_operations [OF valid up]) (use ok in \<open>auto simp: worktree_validate_ok\<close>)
qed

lemma finalize_removal_valid:
  assumes clock: "clock_ok e" and valid: "rows_valid e t"
    and run: "finalize_delegation_worktree_removal e oid owner st err at t = Inr (r, t')"
  shows "rows_valid e t'"
proof -
  from run obtain p at' n where final: "removal_outcome st err = Inr ()"
    and time: "normalize_delegation_recovery_timestamp e at ''recovery update time'' = Inr at'"
    and up: "update_operations e
      (\<lambda>q. wo_operation_id q = oid \<and> wo_state q = WtRemoving \<and> wo_recovery_owner q = Some p)
      (\<lambda>q. q\<lparr>wo_state := st, wo_last_error := err, wo_recovery_owner := None,
             wo_recovery_lease_until := None, wo_updated_at := at'\<rparr>) t = Inr (n, t')"
    by (auto simp: finalize_delegation_worktree_removal_def and_then_Inr_iff split: if_splits)
  show ?thesis
    by (rule rows_valid_update_operations [OF valid up])
      (use final normalize_ok [OF clock time] in \<open>auto simp: worktree_validate_ok removal_outcome_ok\<close>)
qed

lemma create_apply_valid:
  "rows_valid e t \<Longrightarrow> create_delegation_apply_transaction e a t = Inr t' \<Longrightarrow> rows_valid e t'"
  by (auto simp: create_delegation_apply_transaction_def and_then_Inr_iff write_applies_ok refuse_def
      rows_valid_def apply_validate_ok apply_state_check_ok fresh_apply_row_def split: if_splits)

lemma swap_apply_valid:
  assumes valid: "rows_valid e t"
    and run: "compare_and_swap_delegation_apply_transaction e expected a t = Inr (b, t')"
  shows "rows_valid e t'"
proof -
  from run obtain n where a: "apply_validate (dn_parse e) a = Inr ()"
    and edge: "can_pre_apply_transition_to expected (at_state a)"
    and up: "update_applies e (apply_swap_hit expected a) (swapped_apply a) t = Inr (n, t')"
    by (auto simp: compare_and_swap_delegation_apply_transaction_def and_then_Inr_iff refuse_def
        split: if_splits)
  show ?thesis
  proof (rule rows_valid_update_applies [OF valid up])
    fix q assume q: "apply_swap_hit expected a q"
    have "at_recovery_owner a = None \<and> at_recovery_lease_until a = None"
      using a pre_apply_source [OF edge] by (auto simp: apply_validate_ok split: option.splits)
    with q have "swapped_apply a q = a"
      by (cases a; cases q) (simp add: swapped_apply_def apply_swap_hit_def)
    with a show "apply_validate (dn_parse e) (swapped_apply a q) = Inr ()" by simp
  qed
qed

lemma start_applying_valid:
  assumes valid: "rows_valid e t" and p: "owner_ok p" and now: "dn_parse e now \<noteq> None" "\<not> blank now"
    and lease: "dn_parse e lease \<noteq> None"
    and run: "start_applying e current p now lease t = Inr (b, t')"
  shows "rows_valid e t'"
proof -
  from run obtain n t1 where
    up: "update_operations e (review_pending_scope current)
      (\<lambda>w. w\<lparr>wo_state := WtApplying, wo_last_error := None, wo_updated_at := now\<rparr>) t = Inr (n, t1)"
    and rest: "t' = t1 \<or> (\<exists>m. update_applies e
      (\<lambda>a. at_transaction_id a = at_transaction_id current \<and> at_state a = ApPrepared)
      (\<lambda>a. a\<lparr>at_state := ApApplying, at_recovery_owner := Some p,
             at_recovery_lease_until := Some lease, at_updated_at := now\<rparr>) t1 = Inr (m, t'))"
    by (auto simp: start_applying_def and_then_Inr_iff split: if_splits)
  have "rows_valid e t1"
    by (rule rows_valid_update_operations [OF valid up])
      (use now in \<open>auto simp: worktree_validate_ok review_pending_scope_def split: option.splits\<close>)
  with rest show ?thesis
  proof (elim disjE exE)
    fix m assume "rows_valid e t1" and up: "update_applies e
      (\<lambda>a. at_transaction_id a = at_transaction_id current \<and> at_state a = ApPrepared)
      (\<lambda>a. a\<lparr>at_state := ApApplying, at_recovery_owner := Some p,
             at_recovery_lease_until := Some lease, at_updated_at := now\<rparr>) t1 = Inr (m, t')"
    then show ?thesis
      by (rule rows_valid_update_applies)
        (use now p lease in \<open>auto simp: apply_validate_ok apply_state_check_ok has_manifest_def\<close>)
  qed simp
qed

lemma take_over_valid:
  assumes valid: "rows_valid e t" and p: "owner_ok p" and now: "dn_parse e now \<noteq> None" "\<not> blank now"
    and lease: "dn_parse e lease \<noteq> None"
    and run: "take_over e tid p now lease lock_held t = Inr (b, t')"
  shows "rows_valid e t'"
proof -
  from run obtain m where up: "update_applies e
       (\<lambda>a. at_transaction_id a = tid \<and> at_state a = ApApplying \<and> at_recovery_lease_until a \<noteq> None \<and>
            (lock_held \<or> lease_over now a) \<and> holds_applying (at_operation_id a) t)
       (\<lambda>a. a\<lparr>at_recovery_owner := Some p, at_recovery_lease_until := Some lease,
              at_updated_at := now\<rparr>) t = Inr (m, t')"
    by (auto simp: take_over_def and_then_Inr_iff)
  show ?thesis
    by (rule rows_valid_update_applies [OF valid up])
      (use now p lease in \<open>auto simp: apply_validate_ok apply_state_check_ok has_manifest_def\<close>)
qed

lemma claim_apply_valid:
  assumes clock: "clock_ok e" and valid: "rows_valid e t"
    and run: "claim_delegation_apply_transaction e tid owner now lease lock_held t = Inr (r, t')"
  shows "rows_valid e t'"
  using run
proof (cases rule: claim_apply_cases)
  case nothing
  then show ?thesis using valid by simp
next
  case (started current now' lease')
  have "owner_ok (trim owner)" using started by (simp add: owner_ok_def blank_def)
  then show ?thesis
    using start_applying_valid [OF valid] normalize_ok [OF clock started(4)] normalize_ok [OF clock started(5)]
      started(3) by blast
next
  case (taken current now' lease')
  have "owner_ok (trim owner)" using taken by (simp add: owner_ok_def blank_def)
  then show ?thesis
    using take_over_valid [OF valid] normalize_ok [OF clock taken(5)] normalize_ok [OF clock taken(6)]
      taken(4) by blast
qed

lemma finalize_apply_valid:
  assumes clock: "clock_ok e" and kept: "tables_kept t" and valid: "rows_valid e t"
    and run: "finalize_delegation_apply_transaction e tid owner st err at t = Inr (r, t')"
  shows "rows_valid e t'"
  using run
proof (cases rule: finalize_apply_cases)
  case nothing
  then show ?thesis using valid by simp
next
  case (closed current after at' t1)
  have "rows_valid e t1"
    by (rule rows_valid_update_operations [OF valid closed(6)])
      (use closed(4) normalize_ok [OF clock closed(5)] in
        \<open>auto simp: worktree_validate_ok apply_outcome_ok split: option.splits\<close>)
  then show ?thesis
  proof (rule rows_valid_update_applies [OF _ closed(7)])
    fix a assume hit: "at_transaction_id a = tid \<and> at_state a = ApApplying \<and> at_recovery_owner a = Some (trim owner)"
      and a: "a \<in> set (dl_applies t1)"
    have "dl_applies t1 = dl_applies t"
      using closed(6) by (auto simp: update_operations_def and_then_Inr_iff write_operations_ok)
    with a hit closed(1) have "a = current"
      using lookup_by_in [OF tables_kept_ids(2) [OF kept], of a] by simp
    with closed(8) show "apply_validate (dn_parse e) (closed_apply st err at' a) = Inr ()" by simp
  qed
qed

lemma delete_valid:
  "rows_valid e t \<Longrightarrow> rows_valid e (snd (delete_removed_delegation_worktree_operation oid t))"
  "rows_valid e t \<Longrightarrow> rows_valid e (snd (delete_terminal_delegation_apply_transaction tid t))"
  by (auto simp: delete_removed_delegation_worktree_operation_def
      delete_terminal_delegation_apply_transaction_def Let_def rows_valid_def)

lemma perform_valid:
  "perform e c t = Inr t' \<Longrightarrow> clock_ok e \<Longrightarrow> tables_kept t \<Longrightarrow> rows_valid e t \<Longrightarrow> rows_valid e t'"
  by (cases c)
    (auto dest!: map_sum_snd intro: create_operation_valid swap_operation_valid claim_removal_valid
      finalize_removal_valid create_apply_valid swap_apply_valid claim_apply_valid finalize_apply_valid
      delete_valid)

lemma run_rows_valid:
  assumes "clock_ok e"
  shows "rows_valid e (run_delegation e cs no_delegations)"
proof -
  have "tables_kept (run_delegation e cs no_delegations) \<and> rows_valid e (run_delegation e cs no_delegations)"
  proof (rule run_delegation_induct)
    show "tables_kept no_delegations \<and> rows_valid e no_delegations"
      using no_delegations_kept by (simp add: rows_valid_def no_delegations_def)
    show "tables_kept (settle e c t) \<and> rows_valid e (settle e c t)"
      if "tables_kept t \<and> rows_valid e t" for c t
      using that settle_step [of t e c] perform_valid [of e c t] assms
      by (auto simp: step_kept_def settle_def split: sum.splits)
  qed
  then show ?thesis by simp
qed

lemma decode_operation_valid:
  assumes "worktree_validate (dn_parse e) w = Inr ()"
  shows "decode_operation e w = Inr w"
proof -
  have root: "\<not> (r \<noteq> None \<and> validate_opt root_validate r \<noteq> Inr ())"
    if "opt_ok (\<lambda>r. root_validate r = Inr ()) r" for r
    using that by (cases r) auto
  from assms have "opt_ok (\<lambda>r. root_validate r = Inr ()) (wo_source_root_id w)"
    "opt_ok (\<lambda>r. root_validate r = Inr ()) (wo_worktree_root_id w)"
    "opt_ok (\<lambda>r. root_validate r = Inr ()) (wo_common_dir_id w)"
    unfolding worktree_validate_ok by blast+
  note roots = this [THEN root]
  show ?thesis unfolding decode_operation_def assms using roots by simp
qed

lemma decode_apply_valid: "apply_validate (dn_parse e) a = Inr () \<Longrightarrow> decode_apply e a = Inr a"
  by (simp add: decode_apply_def)

section \<open>Claims\<close>

text \<open>
  A call that leaves a claim alone: another worker may try to claim the transaction without the lock of
  the operation while the lease runs, and may try to finish it under another name.
\<close>

definition leaves_claim :: "delegation_env \<Rightarrow> rstr \<Rightarrow> rstr \<Rightarrow> rstr \<Rightarrow> delegation_call \<Rightarrow> bool" where
  "leaves_claim e tid owner lease c =
     (case c of
        ClaimApply tid' p now l lock_held \<Rightarrow>
          (tid' = tid \<longrightarrow> \<not> lock_held \<and>
            (\<forall>at. normalize_delegation_recovery_timestamp e now ''apply claim time'' = Inr at \<longrightarrow> \<not> lease \<le> at))
      | FinalizeApply tid' p st err at \<Rightarrow> (tid' = tid \<longrightarrow> trim p \<noteq> owner)
      | _ \<Rightarrow> True)"

definition claimed_row :: "rstr \<Rightarrow> rstr \<Rightarrow> rstr \<Rightarrow> apply_transaction \<Rightarrow> delegations \<Rightarrow> bool" where
  "claimed_row tid owner lease a t \<longleftrightarrow> lookup_by at_transaction_id tid (dl_applies t) = Some a \<and>
     at_state a = ApApplying \<and> at_recovery_owner a = Some owner \<and> at_recovery_lease_until a = Some lease"

lemma update_applies_lookup:
  assumes "update_applies e hit f t = Inr (n, t')" and "lookup_by at_transaction_id tid (dl_applies t) = Some a"
    and "\<not> hit a" and "\<And>a. at_transaction_id (f a) = at_transaction_id a"
  shows "lookup_by at_transaction_id tid (dl_applies t') = Some a"
proof -
  have "lookup_by at_transaction_id tid (update_where hit f (dl_applies t)) =
      map_option (\<lambda>x. if hit x then f x else x) (lookup_by at_transaction_id tid (dl_applies t))"
    by (rule lookup_by_update) (rule assms(4))
  with assms(1-3) show ?thesis by (auto simp: update_applies_def and_then_Inr_iff write_applies_ok)
qed

lemma update_operations_applies: "update_operations e hit f t = Inr (n, t') \<Longrightarrow> dl_applies t' = dl_applies t"
  by (auto simp: update_operations_def and_then_Inr_iff write_operations_ok)

lemma claim_apply_respected:
  assumes row: "claimed_row tid p l a t" and resp: "leaves_claim e tid p l (ClaimApply tid' owner now lease lock_held)"
    and run: "claim_delegation_apply_transaction e tid' owner now lease lock_held t = Inr (r, t')"
  shows "claimed_row tid p l a t'"
  using run
proof (cases rule: claim_apply_cases)
  case nothing
  then show ?thesis using row by simp
next
  case (started current now' lease')
  note cur = get_apply_SomeD [OF started(1)]
  have ne: "tid \<noteq> tid'" using row cur(1) started(2) by (auto simp: claimed_row_def)
  from started(3) obtain t1 where
    up: "update_operations e (review_pending_scope current)
      (\<lambda>w. w\<lparr>wo_state := WtApplying, wo_last_error := None, wo_updated_at := now'\<rparr>) t = Inr (1, t1)"
    and up': "update_applies e (\<lambda>a. at_transaction_id a = at_transaction_id current \<and> at_state a = ApPrepared)
      (\<lambda>a. a\<lparr>at_state := ApApplying, at_recovery_owner := Some (trim owner),
             at_recovery_lease_until := Some lease', at_updated_at := now'\<rparr>) t1 = Inr (1, t')"
    by (auto simp: start_applying_def and_then_Inr_iff split: if_splits)
  have look: "lookup_by at_transaction_id tid (dl_applies t1) = Some a"
    using row update_operations_applies [OF up] by (simp add: claimed_row_def)
  have "lookup_by at_transaction_id tid (dl_applies t') = Some a"
    by (rule update_applies_lookup [OF up' look]) (use row in \<open>auto simp: claimed_row_def\<close>)
  with row show ?thesis by (simp add: claimed_row_def)
next
  case (taken current now' lease')
  note cur = get_apply_SomeD [OF taken(1)]
  have ne: "tid \<noteq> tid'"
  proof
    assume "tid = tid'"
    with row cur(1) have "current = a" by (simp add: claimed_row_def)
    with taken(3,5) resp \<open>tid = tid'\<close> row show False
      by (auto simp: leaves_claim_def lease_over_def claimed_row_def)
  qed
  from taken(4) have up: "update_applies e (\<lambda>a. at_transaction_id a = tid' \<and> at_state a = ApApplying \<and>
        at_recovery_lease_until a \<noteq> None \<and> (lock_held \<or> lease_over now' a) \<and>
        holds_applying (at_operation_id a) t)
      (\<lambda>a. a\<lparr>at_recovery_owner := Some (trim owner), at_recovery_lease_until := Some lease',
             at_updated_at := now'\<rparr>) t = Inr (1, t')"
    by (auto simp: take_over_def and_then_Inr_iff)
  have "at_transaction_id a = tid" using row by (auto simp: claimed_row_def dest: lookup_by_SomeD)
  then have "lookup_by at_transaction_id tid (dl_applies t') = Some a"
    using row ne by (intro update_applies_lookup [OF up]) (auto simp: claimed_row_def)
  with row show ?thesis by (simp add: claimed_row_def)
qed

lemma finalize_apply_respected:
  assumes row: "claimed_row tid p l a t" and resp: "leaves_claim e tid p l (FinalizeApply tid' owner st err at)"
    and run: "finalize_delegation_apply_transaction e tid' owner st err at t = Inr (r, t')"
  shows "claimed_row tid p l a t'"
  using run
proof (cases rule: finalize_apply_cases)
  case nothing
  then show ?thesis using row by simp
next
  case (closed current after at' t1)
  have "tid \<noteq> tid'"
    using row closed(1,3) resp by (auto simp: claimed_row_def leaves_claim_def)
  moreover have "at_transaction_id a = tid" using row by (auto simp: claimed_row_def dest: lookup_by_SomeD)
  moreover have "lookup_by at_transaction_id tid (dl_applies t1) = Some a"
    using row update_operations_applies [OF closed(6)] by (simp add: claimed_row_def)
  ultimately have "lookup_by at_transaction_id tid (dl_applies t') = Some a"
    by (intro update_applies_lookup [OF closed(7)]) auto
  with row show ?thesis by (simp add: claimed_row_def)
qed

lemma swap_apply_respected:
  assumes row: "claimed_row tid p l a t"
    and run: "compare_and_swap_delegation_apply_transaction e expected b t = Inr (r, t')"
  shows "claimed_row tid p l a t'"
proof -
  from run obtain n where up: "update_applies e (apply_swap_hit expected b) (swapped_apply b) t = Inr (n, t')"
    by (auto simp: compare_and_swap_delegation_apply_transaction_def and_then_Inr_iff refuse_def split: if_splits)
  have "lookup_by at_transaction_id tid (dl_applies t') = Some a"
    using row by (intro update_applies_lookup [OF up])
      (auto simp: claimed_row_def apply_swap_hit_def swapped_apply_def)
  with row show ?thesis by (simp add: claimed_row_def)
qed

lemma settle_respected:
  assumes kept: "tables_kept t" and row: "claimed_row tid p l a t" and resp: "leaves_claim e tid p l c"
  shows "claimed_row tid p l a (settle e c t)"
proof (cases "perform e c t")
  case (Inr t')
  have "claimed_row tid p l a t'"
  proof (cases c)
    case (SwapApply st b)
    with Inr row show ?thesis by (auto dest!: map_sum_snd intro: swap_apply_respected)
  next
    case (ClaimApply tid' owner now lease lock_held)
    with Inr row resp show ?thesis by (auto dest!: map_sum_snd intro: claim_apply_respected)
  next
    case (FinalizeApply tid' owner st err at)
    with Inr row resp show ?thesis by (auto dest!: map_sum_snd intro: finalize_apply_respected)
  next
    case (CreateApply b)
    with Inr row show ?thesis
      by (auto simp: create_delegation_apply_transaction_def and_then_Inr_iff write_applies_ok refuse_def
          claimed_row_def split: if_splits)
  next
    case (DeleteTerminal tid')
    with Inr row show ?thesis
      by (auto simp: delete_terminal_delegation_apply_transaction_def Let_def claimed_row_def
          lookup_by_filter [OF tables_kept_ids(2) [OF kept]])
  next
    case (DeleteRemoved oid)
    with Inr row show ?thesis
      by (auto simp: delete_removed_delegation_worktree_operation_def Let_def claimed_row_def)
  next
    case (CreateOperation w)
    with Inr row show ?thesis
      by (auto simp: create_delegation_worktree_operation_def and_then_Inr_iff write_operations_ok refuse_def
          claimed_row_def split: if_splits)
  next
    case (SwapOperation st w)
    with Inr row show ?thesis
      by (auto simp: compare_and_swap_delegation_worktree_operation_def and_then_Inr_iff refuse_def
          claimed_row_def update_operations_applies dest!: map_sum_snd split: if_splits)
  next
    case (ClaimRemoval oid owner now lease)
    with Inr row show ?thesis
      by (auto simp: claim_delegation_worktree_removal_def and_then_Inr_iff refuse_def claimed_row_def
          update_operations_applies dest!: map_sum_snd split: if_splits)
  next
    case (FinalizeRemoval oid owner st err at)
    with Inr row show ?thesis
      by (auto simp: finalize_delegation_worktree_removal_def and_then_Inr_iff claimed_row_def
          update_operations_applies dest!: map_sum_snd split: if_splits)
  qed
  with Inr show ?thesis by (simp add: settle_def)
qed (use row in \<open>simp add: settle_def\<close>)

lemma run_respected:
  assumes "tables_kept t" and "claimed_row tid p l a t" and "\<forall>c \<in> set cs. leaves_claim e tid p l c"
  shows "claimed_row tid p l a (run_delegation e cs t)"
proof -
  have "tables_kept (run_delegation e cs t) \<and> claimed_row tid p l a (run_delegation e cs t)"
    by (rule run_delegation_induct [where P = "\<lambda>t. tables_kept t \<and> claimed_row tid p l a t"])
      (use assms settle_step settle_respected in \<open>auto simp: step_kept_def\<close>)
  then show ?thesis by simp
qed

lemma read_back_ok: "read_back decode row = Inr r \<Longrightarrow> \<exists>x y. row = Some x \<and> decode x = Inr y \<and> r = Some y"
  by (auto simp: read_back_def and_then_Inr_iff split: option.splits)

lemma decode_apply_Inr: "decode_apply e a = Inr b \<Longrightarrow> b = a"
  by (auto simp: decode_apply_def split: sum.splits)

text \<open>What a successful claim leaves.\<close>

lemma claim_leaves_row:
  assumes kept: "tables_kept t"
    and run: "claim_delegation_apply_transaction e tid owner now lease lock_held t = Inr (Some a, t')"
    and lease: "normalize_delegation_recovery_timestamp e lease ''apply lease'' = Inr lease'"
  shows "claimed_row tid (trim owner) lease' a t'"
  using run
proof (cases rule: claim_apply_cases)
  case (started current now' l)
  note cur = get_apply_SomeD [OF started(1)]
  from started(9) have "lookup_by at_transaction_id tid (dl_applies t') = Some a"
    by (auto dest!: read_back_ok decode_apply_Inr)
  with start_applying_step(2) [OF kept _ started(3)] cur started(5) lease show ?thesis
    by (auto simp: claimed_row_def)
next
  case (taken current now' l)
  note cur = get_apply_SomeD [OF taken(1)]
  from taken(10) have "lookup_by at_transaction_id tid (dl_applies t') = Some a"
    by (auto dest!: read_back_ok decode_apply_Inr)
  with take_over_step(2,4) [OF kept cur(1) taken(4)] taken(6) lease show ?thesis
    by (auto simp: claimed_row_def)
qed simp

section \<open>A transaction left behind\<close>

lemma orphaned_run:
  assumes "delegation_inv t" and "orphaned tid (delegation_view t)"
  shows "orphaned tid (delegation_view (run_delegation e cs t))"
proof -
  have "delegation_inv (run_delegation e cs t) \<and> orphaned tid (delegation_view (run_delegation e cs t))"
  proof (rule run_delegation_induct [where P = "\<lambda>t. delegation_inv t \<and> orphaned tid (delegation_view t)"])
    show "delegation_inv (settle e c t) \<and> orphaned tid (delegation_view (settle e c t))"
      if "delegation_inv t \<and> orphaned tid (delegation_view t)" for c t
      using that delegation_inv_settle settle_step [of t e c] orphaned_step
      by (auto simp: delegation_inv_def step_kept_def)
  qed (use assms in simp)
  then show ?thesis by simp
qed

lemma holds_applying_view:
  assumes "tables_kept t" and "holds_applying oid t"
  shows "fst (delegation_view t) oid = Some WtApplying"
proof -
  from assms(2) obtain w where w: "w \<in> set (dl_operations t)" "wo_operation_id w = oid" "wo_state w = WtApplying"
    by (auto simp: holds_applying_def list_ex_iff)
  from lookup_by_in [OF tables_kept_ids(1) [OF assms(1)] w(1)] w(2,3) show ?thesis
    by (simp add: view_operation)
qed

lemma orphaned_not_claimed:
  assumes inv: "delegation_inv t" and orphan: "orphaned tid (delegation_view t)"
  shows "claim_delegation_apply_transaction e tid owner now lease lock_held t \<noteq> Inr (Some a, t')"
proof
  assume "claim_delegation_apply_transaction e tid owner now lease lock_held t = Inr (Some a, t')"
  moreover have kept: "tables_kept t" using inv by (simp add: delegation_inv_def)
  ultimately show False
  proof (cases rule: claim_apply_cases)
    case (started current now' l)
    then show False
      using view_apply [OF get_apply_SomeD(1) [OF started(1)]] orphan by (auto simp: orphaned_def)
  next
    case (taken current now' l)
    note cur = get_apply_SomeD(1) [OF taken(1)]
    from take_over_step(3) [OF kept cur taken(4)] holds_applying_view [OF kept]
    have "fst (delegation_view t) (at_operation_id current) = Some WtApplying" by simp
    with view_apply [OF cur] orphan show False by (auto simp: orphaned_def)
  qed simp
qed

lemma orphaned_not_finalized:
  assumes inv: "delegation_inv t" and orphan: "orphaned tid (delegation_view t)"
  shows "finalize_delegation_apply_transaction e tid owner st err at t \<noteq> Inr (Some a, t')"
proof
  assume "finalize_delegation_apply_transaction e tid owner st err at t = Inr (Some a, t')"
  moreover have kept: "tables_kept t" using inv by (simp add: delegation_inv_def)
  ultimately show False
  proof (cases rule: finalize_apply_cases)
    case (closed current after at' t1)
    from closed(6) kept show False
    proof (cases rule: update_operations_cases [where k = "at_operation_id current"])
      case (one w)
      with view_operation have "fst (delegation_view t) (at_operation_id current) = Some WtApplying" by simp
      with view_apply [OF closed(1)] orphan show False by (auto simp: orphaned_def)
    qed auto
  qed simp
qed

end
