(* ===== verification/Delegation_Props.thy ===== *)
theory Delegation_Props
  imports Delegation_Claims
begin

text \<open>
  The properties of the journal of delegated tasks: what its tables say of an operation that is being
  applied, who may act on a claimed transaction, that recovery can read every row, and what becomes
  of a transaction whose operation was moved away under it.
\<close>

section \<open>A sample journal\<close>

definition sample_clock :: delegation_env where
  "sample_clock = \<lparr>dn_parse = (\<lambda>v. if length v = 2 then Some (int (v ! 1)) else None),
     dn_format = (\<lambda>i. [65, nat i]), dn_fault = (\<lambda>_. lit ''fault'')\<rparr>"

definition sample_operation :: "worktree_state \<Rightarrow> rstr option \<Rightarrow> rstr \<Rightarrow> worktree_operation" where
  "sample_operation st err at =
     \<lparr>wo_operation_id = lit ''op'', wo_delegation_key = None, wo_delegation_id = Some (lit ''d''),
      wo_workspace_id = lit ''w'', wo_parent_session_id = None, wo_child_session_id = None,
      wo_source_root = lit ''/r'', wo_worktree_path = lit ''/t'', wo_branch = lit ''b'',
      wo_base_commit = lit ''c'', wo_expected_branch_oid = None, wo_source_root_id = None,
      wo_worktree_root_id = None, wo_common_dir_id = None, wo_state = st, wo_last_error = err,
      wo_recovery_owner = None, wo_recovery_lease_until = None,
      wo_created_at = lit ''A1'', wo_updated_at = at\<rparr>"

definition sample_oid :: rstr where
  "sample_oid = replicate 40 97"

definition sample_digest :: rstr where
  "sample_digest = replicate 64 97"

definition sample_apply :: "apply_state \<Rightarrow> rstr option \<Rightarrow> rstr option \<Rightarrow> rstr \<Rightarrow> apply_transaction" where
  "sample_apply st owner lease at =
     (let full = (st \<noteq> ApPreparing); oid = (if full then Some sample_oid else None)
      in \<lparr>at_transaction_id = lit ''tx'', at_operation_id = lit ''op'', at_delegation_id = lit ''d'',
          at_workspace_id = lit ''w'', at_source_head_oid = oid, at_destination_head_oid = oid,
          at_destination_ref = None, at_destination_index_tree_oid = oid,
          at_manifest_digest = (if full then Some sample_digest else None),
          at_file_count = (if full then 1 else 0), at_artifact_bytes = 0, at_state = st,
          at_recovery_owner = owner, at_recovery_lease_until = lease, at_last_error = None,
          at_created_at = lit ''A1'', at_updated_at = at\<rparr>)"

definition sample_prefix :: "delegation_call list" where
  "sample_prefix =
     [CreateOperation (sample_operation WtPreparing None (lit ''A1'')),
      SwapOperation WtPreparing (sample_operation WtPrepared None (lit ''A2'')),
      SwapOperation WtPrepared (sample_operation WtReviewPending None (lit ''A3'')),
      CreateApply (sample_apply ApPreparing None None (lit ''A4'')),
      SwapApply ApPreparing (sample_apply ApPrepared None None (lit ''A5''))]"

definition sample_claim :: delegation_call where
  "sample_claim = ClaimApply (lit ''tx'') (lit ''me'') (lit ''A6'') (lit ''A9'') False"

abbreviation claimed_tables :: delegations where
  "claimed_tables \<equiv> \<lparr>dl_operations = [sample_operation WtApplying None (lit ''A6'')],
     dl_applies = [sample_apply ApApplying (Some (lit ''me'')) (Some (lit ''A9'')) (lit ''A6'')]\<rparr>"

lemma valid_sample_oid: "valid_oid sample_oid" "sql_length sample_oid = 40"
    "byte_len sample_digest = 64" "list_all is_ascii_hexdigit sample_digest" "sql_length sample_digest = 64"
  by (simp_all add: valid_oid_def sample_oid_def sample_digest_def byte_len_def utf8_len_def
      sum_list_replicate list_all_iff is_ascii_hexdigit_def sql_length_def takeWhile_replicate)

lemma sample_time: "dn_parse sample_clock (lit [CHR ''A'', c]) = Some (int (of_char c))"
  "dn_parse sample_clock [65, n] = Some (int n)" "dn_format sample_clock i = [65, nat i]"
  by (simp_all add: sample_clock_def lit_def)

lemma sample_normalize:
  "normalize_delegation_recovery_timestamp sample_clock (lit [CHR ''A'', c]) field = Inr (lit [CHR ''A'', c])"
  by (simp add: normalize_delegation_recovery_timestamp_def sample_time) (simp add: lit_def)

lemma sample_clock_ok: "clock_ok sample_clock"
  by (auto simp: clock_ok_def sample_time blank_iff is_whitespace_def)

lemma sample_blank: "\<not> blank (lit ''op'')" "\<not> blank (lit ''w'')" "\<not> blank (lit ''/r'')" "\<not> blank (lit ''/t'')"
  "\<not> blank (lit ''b'')" "\<not> blank (lit ''c'')" "\<not> blank (lit ''d'')" "\<not> blank (lit (CHR ''A'' # s))"
  "\<not> blank (lit ''tx'')" "\<not> blank (lit ''me'')" "\<not> blank (lit ''lost'')"
  by (simp_all add: blank_iff lit_def is_whitespace_def)

lemma sample_operation_valid:
  assumes "st \<noteq> WtRemoving" and "opt_ok (\<lambda>v. \<not> blank v) err" and "st = WtCleanupRequired \<longrightarrow> err \<noteq> None"
  shows "worktree_validate (dn_parse sample_clock) (sample_operation st err (lit (CHR ''A'' # s))) = Inr ()"
  unfolding worktree_validate_ok sample_operation_def using assms sample_blank by simp

lemma sample_apply_valid:
  assumes "st \<in> {ApPreparing, ApPrepared} \<and> owner = None \<and> lease = None \<or>
    st = ApApplying \<and> owner = Some (lit ''me'') \<and> lease = Some (lit ''A9'')"
  shows "apply_validate (dn_parse sample_clock) (sample_apply st owner lease (lit [CHR ''A'', c])) = Inr ()"
proof -
  have me: "owner_ok (lit ''me'')"
    using sample_blank by (simp add: owner_ok_def byte_len_def lit_def utf8_len_def)
  show ?thesis
    using assms sample_blank sample_time valid_sample_oid me
    by (elim disjE conjE)
      (auto simp: apply_validate_ok sample_apply_def apply_state_check_ok has_manifest_def Let_def)
qed

lemma sample_operations_ok:
  assumes "st \<noteq> WtRemoving" and "error_column_ok err" and "st = WtCleanupRequired \<longrightarrow> err \<noteq> None"
  shows "worktree_table_ok [sample_operation st err at]"
  using assms
  by (simp add: worktree_table_ok_def live_operations_def worktree_row_ok_def sample_operation_def
      root_blob_ok_def authority_columns_ok_def List.map_filter_def)

lemma sample_applies_ok:
  assumes "st \<in> {ApPreparing, ApPrepared} \<and> owner = None \<and> lease = None \<or>
    st = ApApplying \<and> owner \<noteq> None \<and> lease \<noteq> None"
  shows "apply_table_ok [sample_apply st owner lease at]"
  using assms valid_sample_oid
  by (auto simp: apply_table_ok_def active_applies_def apply_row_ok_def sample_apply_def Let_def
      oid_column_ok_def authority_columns_ok_def error_column_ok_def)

lemma sample_operation_fields [simp]:
  "wo_operation_id (sample_operation st err at) = lit ''op''" "wo_state (sample_operation st err at) = st"
  "swap_hit st (sample_operation st' err' at') (sample_operation st err at)"
  "swapped_operation (sample_operation st' err' at') (sample_operation st err at) = sample_operation st' err' at'"
  "wo_delegation_id (sample_operation st err at) = Some (lit ''d'')"
  by (simp_all add: sample_operation_def swap_hit_def swapped_operation_def)

lemma sample_apply_fields [simp]:
  "at_transaction_id (sample_apply st p l at) = lit ''tx''" "at_state (sample_apply st p l at) = st"
  "at_operation_id (sample_apply st p l at) = lit ''op''"
  "fresh_apply_row (sample_apply ApPreparing None None at) = sample_apply ApPreparing None None at"
  "apply_swap_hit st (sample_apply st' p' l' at') (sample_apply st None None at)"
  "swapped_apply (sample_apply st' None None at') (sample_apply st None None at) = sample_apply st' None None at'"
  "review_pending_scope (sample_apply st p l at) (sample_operation wst err at') \<longleftrightarrow> wst = WtReviewPending"
  "at_artifact_bytes (sample_apply st p l at) = 0" "at_recovery_lease_until (sample_apply st p l at) = l"
  "at_recovery_owner (sample_apply st p l at) = p"
  by (simp_all add: sample_apply_def fresh_apply_row_def apply_swap_hit_def swapped_apply_def Let_def
      review_pending_scope_def sample_operation_def)

lemma sample_moved [simp]:
  "sample_operation st err at\<lparr>wo_state := st', wo_last_error := err', wo_updated_at := at'\<rparr> =
     sample_operation st' err' at'"
  "sample_apply ApPrepared p l at\<lparr>at_state := ApApplying, at_recovery_owner := p',
     at_recovery_lease_until := l', at_updated_at := at'\<rparr> = sample_apply ApApplying p' l' at'"
  by (simp_all add: sample_operation_def sample_apply_def Let_def)

text \<open>One statement on one row.\<close>

lemma update_single:
  "worktree_table_ok [f w] \<Longrightarrow> hit w \<Longrightarrow>
     update_operations e hit f \<lparr>dl_operations = [w], dl_applies = ats\<rparr> =
       Inr (1, \<lparr>dl_operations = [f w], dl_applies = ats\<rparr>)"
  "apply_table_ok [g a] \<Longrightarrow> hit' a \<Longrightarrow>
     update_applies e hit' g \<lparr>dl_operations = ws, dl_applies = [a]\<rparr> =
       Inr (1, \<lparr>dl_operations = ws, dl_applies = [g a]\<rparr>)"
  by (simp_all add: update_operations_def update_applies_def update_where_def changed_rows_def
      write_operations_def write_applies_def)

lemma sample_swap:
  assumes "worktree_can_transition st st'" and "st \<noteq> WtRemoving \<and> st' \<noteq> WtRemoving \<and> st' \<noteq> WtApplying"
    and "st = WtApplying \<longrightarrow> st' = WtCleanupRequired"
    and "err = None \<and> st' \<noteq> WtCleanupRequired \<or> err = Some (lit ''lost'')"
  shows "settle sample_clock (SwapOperation st (sample_operation st' err (lit (CHR ''A'' # s))))
      \<lparr>dl_operations = [sample_operation st None at], dl_applies = ats\<rparr> =
    \<lparr>dl_operations = [sample_operation st' err (lit (CHR ''A'' # s))], dl_applies = ats\<rparr>"
proof -
  have "error_column_ok (Some (lit ''lost''))"
    by (simp add: error_column_ok_def sql_trim_def sql_length_def lit_def)
  then have ok: "worktree_table_ok [sample_operation st' err (lit (CHR ''A'' # s))]"
    "worktree_validate (dn_parse sample_clock) (sample_operation st' err (lit (CHR ''A'' # s))) = Inr ()"
    using assms sample_blank by (auto intro!: sample_operations_ok sample_operation_valid simp: error_column_ok_def)
  have "update_operations sample_clock (swap_hit st (sample_operation st' err (lit (CHR ''A'' # s))))
      (swapped_operation (sample_operation st' err (lit (CHR ''A'' # s))))
      \<lparr>dl_operations = [sample_operation st None at], dl_applies = ats\<rparr> =
    Inr (1, \<lparr>dl_operations = [sample_operation st' err (lit (CHR ''A'' # s))], dl_applies = ats\<rparr>)"
    using ok(1) update_single(1) [where f = "swapped_operation (sample_operation st' err (lit (CHR ''A'' # s)))"
        and w = "sample_operation st None at"] by simp
  then show ?thesis
    using assms ok(2)
    by (auto simp: settle_def compare_and_swap_delegation_worktree_operation_def as_input_def)
qed

lemma sample_run: "run_delegation sample_clock sample_prefix no_delegations =
    \<lparr>dl_operations = [sample_operation WtReviewPending None (lit ''A3'')],
     dl_applies = [sample_apply ApPrepared None None (lit ''A5'')]\<rparr>"
proof -
  have 1: "settle sample_clock (CreateOperation (sample_operation WtPreparing None (lit ''A1''))) no_delegations =
      \<lparr>dl_operations = [sample_operation WtPreparing None (lit ''A1'')], dl_applies = []\<rparr>"
    using sample_operation_valid [of WtPreparing None "''1''"] sample_operations_ok [of WtPreparing None "lit ''A1''"]
    by (simp add: settle_def create_delegation_worktree_operation_def write_operations_def no_delegations_def
        error_column_ok_def as_input_def)
  have 2: "settle sample_clock (CreateApply (sample_apply ApPreparing None None (lit ''A4'')))
      \<lparr>dl_operations = [sample_operation WtReviewPending None at], dl_applies = []\<rparr> =
      \<lparr>dl_operations = [sample_operation WtReviewPending None at],
       dl_applies = [sample_apply ApPreparing None None (lit ''A4'')]\<rparr>" for at
    using sample_apply_valid [of ApPreparing None None "CHR ''4''"] sample_applies_ok [of ApPreparing None None]
    by (simp add: settle_def create_delegation_apply_transaction_def write_applies_def changed_rows_def
        as_input_def)
  have 3: "settle sample_clock (SwapApply ApPreparing (sample_apply ApPrepared None None (lit ''A5'')))
      \<lparr>dl_operations = ws, dl_applies = [sample_apply ApPreparing None None at]\<rparr> =
      \<lparr>dl_operations = ws, dl_applies = [sample_apply ApPrepared None None (lit ''A5'')]\<rparr>" for at ws
    using sample_apply_valid [of ApPrepared None None "CHR ''5''"] sample_applies_ok [of ApPrepared None None]
      update_single(2) [where g = "swapped_apply (sample_apply ApPrepared None None (lit ''A5''))"
        and a = "sample_apply ApPreparing None None at"]
    by (simp add: settle_def compare_and_swap_delegation_apply_transaction_def can_pre_apply_transition_to_def
        sqlite_int_def as_input_def)
  show ?thesis
    by (simp add: sample_prefix_def 1 2 3 sample_swap worktree_can_transition_def)
qed

lemma sample_claimed:
  "claim_delegation_apply_transaction sample_clock (lit ''tx'') (lit ''me'') (lit ''A6'') (lit ''A9'') False
     (run_delegation sample_clock sample_prefix no_delegations) =
   Inr (Some (sample_apply ApApplying (Some (lit ''me'')) (Some (lit ''A9'')) (lit ''A6'')), claimed_tables)"
proof -
  have me: "trim (lit ''me'') = lit ''me''" "\<not> 256 < byte_len (lit ''me'')"
    by (simp_all add: trim_def trim_start_def trim_end_def lit_def is_whitespace_def byte_len_def utf8_len_def)
  have le: "\<not> lit ''A9'' \<le> lit ''A6''" by (simp add: lit_def)
  have ops: "update_operations sample_clock (review_pending_scope (sample_apply ApPrepared None None (lit ''A5'')))
      (\<lambda>w. w\<lparr>wo_state := WtApplying, wo_last_error := None, wo_updated_at := lit ''A6''\<rparr>)
      \<lparr>dl_operations = [sample_operation WtReviewPending None (lit ''A3'')], dl_applies = ats\<rparr> =
    Inr (1, \<lparr>dl_operations = [sample_operation WtApplying None (lit ''A6'')], dl_applies = ats\<rparr>)" for ats
    using update_single(1) [where f = "\<lambda>w. w\<lparr>wo_state := WtApplying, wo_last_error := None, wo_updated_at := lit ''A6''\<rparr>"
        and w = "sample_operation WtReviewPending None (lit ''A3'')"]
      sample_operations_ok [of WtApplying None "lit ''A6''"]
    by (simp add: error_column_ok_def)
  have txs: "update_applies sample_clock (\<lambda>a. at_transaction_id a = lit ''tx'' \<and> at_state a = ApPrepared)
      (\<lambda>a. a\<lparr>at_state := ApApplying, at_recovery_owner := Some (lit ''me''),
             at_recovery_lease_until := Some (lit ''A9''), at_updated_at := lit ''A6''\<rparr>)
      \<lparr>dl_operations = ws, dl_applies = [sample_apply ApPrepared None None (lit ''A5'')]\<rparr> =
    Inr (1, \<lparr>dl_operations = ws,
        dl_applies = [sample_apply ApApplying (Some (lit ''me'')) (Some (lit ''A9'')) (lit ''A6'')]\<rparr>)" for ws
    using update_single(2) [where g = "\<lambda>a. a\<lparr>at_state := ApApplying, at_recovery_owner := Some (lit ''me''),
             at_recovery_lease_until := Some (lit ''A9''), at_updated_at := lit ''A6''\<rparr>"
        and a = "sample_apply ApPrepared None None (lit ''A5'')"]
      sample_applies_ok [of ApApplying "Some (lit ''me'')" "Some (lit ''A9'')" "lit ''A6''"]
    by simp
  show ?thesis
    using sample_apply_valid [of ApPrepared None None "CHR ''5''"]
      sample_apply_valid [of ApApplying "Some (lit ''me'')" "Some (lit ''A9'')" "CHR ''6''"]
    by (simp add: claim_delegation_apply_transaction_def recovery_owner_param_def me sample_normalize le sample_run
        get_delegation_apply_transaction_def optional_row_def decode_apply_def start_applying_def ops txs
        read_back_def)
qed

lemma sample_settled: "run_delegation sample_clock (sample_prefix @ [sample_claim]) no_delegations = claimed_tables"
  by (simp add: sample_claim_def settle_def sample_claimed)

section \<open>Properties\<close>

text \<open>
  C28: whatever calls have been made on the empty tables, the next call, whichever it is, makes one step of
  the specification: one worktree operation or one apply transaction moves along an edge its state
  machine has, or both move together when an application starts or ends; a failing call makes none.
\<close>

theorem delegation_calls_refine:
  "delegation_spec (delegation_view (run_delegation e cs no_delegations))
     (delegation_view (settle e c (run_delegation e cs no_delegations)))"
  using settle_step run_from_no_delegations by (simp add: delegation_inv_def step_kept_def)

text \<open>
  C29: an operation that is being applied has exactly one transaction that is applying it, after any
  sequence of calls: no call sets the one state without the other, and the transaction cannot end
  while the operation stays.
\<close>

theorem applying_operation_has_one_transaction:
  assumes "w \<in> set (dl_operations (run_delegation e cs no_delegations))" and "wo_state w = WtApplying"
  shows "\<exists>!a. a \<in> set (dl_applies (run_delegation e cs no_delegations)) \<and>
    at_operation_id a = wo_operation_id w \<and> at_state a = ApApplying"
proof -
  let ?t = "run_delegation e cs no_delegations"
  have inv: "tables_kept ?t" "one_active (delegation_view ?t)" "backed (delegation_view ?t)"
    using run_from_no_delegations by (simp_all add: delegation_inv_def)
  have look: "lookup_by at_transaction_id (at_transaction_id a) (dl_applies ?t) = Some a"
    if "a \<in> set (dl_applies ?t)" for a
    using lookup_by_in [OF tables_kept_ids(2) [OF inv(1)] that] .
  from lookup_by_in [OF tables_kept_ids(1) [OF inv(1)] assms(1)] assms(2)
  have "fst (delegation_view ?t) (wo_operation_id w) = Some WtApplying" by (simp add: view_operation)
  with inv(3) obtain tid where "snd (delegation_view ?t) tid = Some (wo_operation_id w, ApApplying)"
    by (auto simp: backed_def)
  then obtain a where a: "a \<in> set (dl_applies ?t)" "at_operation_id a = wo_operation_id w" "at_state a = ApApplying"
    by (auto simp: delegation_view_def txs_view_def dest: lookup_by_SomeD)
  have "b = a" if "b \<in> set (dl_applies ?t)" "at_operation_id b = wo_operation_id w" "at_state b = ApApplying" for b
    using one_activeD [OF inv(2) view_apply [OF look [OF a(1)]], of "at_transaction_id b" ApApplying]
      view_apply [OF look [OF that(1)]] a that look by (metis apply_terminal_simps(5) option.inject)
  with a show ?thesis by blast
qed

theorem applying_operation_has_one_transaction_witness:
  "\<exists>!a. a \<in> set (dl_applies claimed_tables) \<and> at_operation_id a = lit ''op'' \<and> at_state a = ApApplying"
  using applying_operation_has_one_transaction
    [of "sample_operation WtApplying None (lit ''A6'')" sample_clock "sample_prefix @ [sample_claim]"]
  unfolding sample_settled by simp

text \<open>
  C30: a claim is exclusive while its lease runs. After a successful claim the row of the transaction
  stays as the claim left it, through any calls of others in which nobody claims it with the lock of
  the operation or after the lease, and nobody finishes it under the owner's name.
\<close>

theorem running_claim_is_exclusive:
  assumes "t = run_delegation e cs no_delegations"
    and "claim_delegation_apply_transaction e tid owner now lease lock_held t = Inr (Some a, t')"
    and "normalize_delegation_recovery_timestamp e lease ''apply lease'' = Inr lease'"
    and "\<forall>c \<in> set ds. leaves_claim e tid (trim owner) lease' c"
  shows "lookup_by at_transaction_id tid (dl_applies (run_delegation e ds t')) = Some a \<and>
    at_recovery_owner a = Some (trim owner) \<and> at_recovery_lease_until a = Some lease'"
proof -
  have kept: "tables_kept t" using assms(1) run_from_no_delegations by (simp add: delegation_inv_def)
  note row = claim_leaves_row [OF kept assms(2,3)]
  have "tables_kept t'" using claim_apply_step [OF kept assms(2)] by (simp add: step_kept_def)
  from run_respected [OF this row assms(4)] show ?thesis by (simp add: claimed_row_def)
qed

theorem running_claim_is_exclusive_witness:
  "lookup_by at_transaction_id (lit ''tx'') (dl_applies (run_delegation sample_clock
     [ClaimApply (lit ''tx'') (lit ''you'') (lit ''A8'') (lit ''A9'') False,
      FinalizeApply (lit ''tx'') (lit ''you'') ApApplied None (lit ''A8'')] claimed_tables)) =
   Some (sample_apply ApApplying (Some (lit ''me'')) (Some (lit ''A9'')) (lit ''A6''))"
proof -
  have "trim (lit ''me'') \<noteq> trim (lit ''you'')"
    by (simp add: trim_def trim_start_def trim_end_def lit_def is_whitespace_def)
  then have "\<forall>c \<in> set [ClaimApply (lit ''tx'') (lit ''you'') (lit ''A8'') (lit ''A9'') False,
      FinalizeApply (lit ''tx'') (lit ''you'') ApApplied None (lit ''A8'')].
    leaves_claim sample_clock (lit ''tx'') (trim (lit ''me'')) (lit ''A9'') c"
    by (auto simp: leaves_claim_def sample_normalize) (simp add: lit_def)
  from running_claim_is_exclusive [OF refl sample_claimed sample_normalize this] show ?thesis by (rule conjunct1)
qed

text \<open>
  C31: the recovery that runs at startup can read every row, whatever calls left it: listing the live
  operations and the transactions succeeds and returns each of them.
\<close>

theorem recovery_reads_every_row:
  assumes "clock_ok e" and "t = run_delegation e cs no_delegations"
  shows "\<exists>ws ats. list_delegation_worktree_operations_requiring_recovery e t = Inr ws \<and>
    set ws = {w \<in> set (dl_operations t). wo_state w \<noteq> WtRemoved} \<and>
    list_delegation_apply_transactions_requiring_recovery e t = Inr ats \<and> set ats = set (dl_applies t)"
proof -
  have valid: "rows_valid e t" unfolding assms(2) by (rule run_rows_valid [OF assms(1)])
  let ?ws = "sort_key wo_updated_at (sort_key wo_created_at (sort_key wo_operation_id
    (live_operations (dl_operations t))))"
  let ?as = "sort_key active_first (sort_key at_updated_at (sort_key at_created_at
    (sort_key at_transaction_id (dl_applies t))))"
  have "list_delegation_worktree_operations_requiring_recovery e t = Inr ?ws"
    unfolding list_delegation_worktree_operations_requiring_recovery_def
    using valid by (intro collect_rows_all decode_operation_valid) (simp add: rows_valid_def live_operations_def)
  moreover have "list_delegation_apply_transactions_requiring_recovery e t = Inr ?as"
    unfolding list_delegation_apply_transactions_requiring_recovery_def
    using valid by (intro collect_rows_all decode_apply_valid) (simp add: rows_valid_def)
  ultimately show ?thesis by (intro exI [of _ ?ws] exI [of _ ?as]) (simp add: live_operations_def)
qed

theorem recovery_reads_every_row_witness:
  "\<exists>ws ats. list_delegation_worktree_operations_requiring_recovery sample_clock claimed_tables = Inr ws \<and>
    set ws = {sample_operation WtApplying None (lit ''A6'')} \<and>
    list_delegation_apply_transactions_requiring_recovery sample_clock claimed_tables = Inr ats \<and>
    set ats = set (dl_applies claimed_tables)"
proof -
  have "{w \<in> set (dl_operations claimed_tables). wo_state w \<noteq> WtRemoved} =
      {sample_operation WtApplying None (lit ''A6'')}"
    by auto
  from recovery_reads_every_row [OF sample_clock_ok sample_settled [symmetric], unfolded this] show ?thesis .
qed

text \<open>
  C32: a transaction whose operation left the applying state without it is stuck. The compare-and-swap
  of worktree operations may take an applying operation to cleanup; from then on, whatever calls are
  made, the transaction stays applying, no claim of it succeeds, with the lock or after its lease,
  and nobody can finish it.
\<close>

theorem orphaned_transaction_is_stuck:
  assumes "orphaned tid (delegation_view (run_delegation e cs no_delegations))"
  shows "orphaned tid (delegation_view (run_delegation e (cs @ ds) no_delegations)) \<and>
    (\<forall>owner now lease lock_held a t'. claim_delegation_apply_transaction e tid owner now lease lock_held
      (run_delegation e (cs @ ds) no_delegations) \<noteq> Inr (Some a, t')) \<and>
    (\<forall>owner st err at a t'. finalize_delegation_apply_transaction e tid owner st err at
      (run_delegation e (cs @ ds) no_delegations) \<noteq> Inr (Some a, t'))"
proof -
  from orphaned_run [OF run_from_no_delegations assms]
  have orphan: "orphaned tid (delegation_view (run_delegation e (cs @ ds) no_delegations))" by simp
  note inv = run_from_no_delegations [of e "cs @ ds"]
  show ?thesis
    using orphan orphaned_not_claimed [OF inv orphan] orphaned_not_finalized [OF inv orphan] by blast
qed

theorem orphaned_transaction_is_stuck_witness:
  "\<forall>a t'. claim_delegation_apply_transaction sample_clock (lit ''tx'') (lit ''me'') (lit ''A9'') (lit ''B9'') True
     (run_delegation sample_clock (sample_prefix @ [sample_claim,
        SwapOperation WtApplying (sample_operation WtCleanupRequired (Some (lit ''lost'')) (lit ''A7''))])
        no_delegations) \<noteq> Inr (Some a, t')"
proof -
  let ?cs = "sample_prefix @ [sample_claim,
    SwapOperation WtApplying (sample_operation WtCleanupRequired (Some (lit ''lost'')) (lit ''A7''))]"
  have "run_delegation sample_clock ?cs no_delegations =
      settle sample_clock (SwapOperation WtApplying
        (sample_operation WtCleanupRequired (Some (lit ''lost'')) (lit ''A7''))) claimed_tables"
    using sample_settled by simp
  also have "\<dots> = \<lparr>dl_operations = [sample_operation WtCleanupRequired (Some (lit ''lost'')) (lit ''A7'')],
     dl_applies = dl_applies claimed_tables\<rparr>"
    by (subst sample_swap) (simp_all add: worktree_can_transition_def worktree_is_terminal_def)
  finally have "orphaned (lit ''tx'') (delegation_view (run_delegation sample_clock ?cs no_delegations))"
    by (simp add: orphaned_def delegation_view_def ops_view_def txs_view_def)
  from orphaned_transaction_is_stuck [OF this, of "[]"] show ?thesis
    unfolding append_Nil2 by blast
qed

end
