(* ===== verification/Worktree_Files.thy ===== *)
theory Worktree_Files
  imports Byte_Encoding Undo_Paths "HOL-Library.Sublist"
begin

text \<open>
  The files under a root directory, as the apply engine of delegated tasks sees them: the part of
  \<open>std::path\<close> it uses, a tree of files for each root, the calls to the operating system it makes, each
  of which may fail, and computations that stop at the first error and keep what they have done.

  A call is numbered; \<open>oe_fails\<close> says which calls fail. A process that dies at a call is the case
  that this call and all later ones of the computation fail, since a failing call changes nothing
  but what it has written or removed so far.
\<close>

section \<open>Paths\<close>

type_synonym fs_path = "rstr list"

definition dot :: rstr where
  "dot = lit ''.''"

datatype path_component = RootDir | CurDir | ParentDir | Normal rstr

definition segment_component :: "rstr \<Rightarrow> path_component option" where
  "segment_component s =
     (if s = [] \<or> s = dot then None else if s = lit ''..'' then Some ParentDir else Some (Normal s))"

text \<open>\<open>Path::components\<close> on Unix: empty segments and dots vanish, but for a leading dot.\<close>

definition components :: "rstr \<Rightarrow> path_component list" where
  "components s =
     (let segs = split_on (\<lambda>c. c = 47) s
      in (if starts_with s [47] then [RootDir] else if hd segs = dot then [CurDir] else [])
         @ List.map_filter segment_component segs)"

fun normal_name :: "path_component \<Rightarrow> rstr option" where
  "normal_name (Normal n) = Some n"
| "normal_name _ = None"

definition normal_names :: "rstr \<Rightarrow> fs_path" where
  "normal_names s = List.map_filter normal_name (components s)"

text \<open>
  The path a relative text names below a root. A text that ends in a separator or a dot names the
  entry as a directory, which is the entry \<open>.\<close> of it.
\<close>

definition target_path :: "rstr \<Rightarrow> fs_path" where
  "target_path s =
     normal_names s @ (if last (split_on (\<lambda>c. c = 47) s) \<in> {[], dot} then [dot] else [])"

section \<open>Trees of files\<close>

datatype fs_node = FsFile bytes u32 nat | FsDir | FsSymlink | FsSpecial

fun is_regular :: "fs_node \<Rightarrow> bool" where
  "is_regular (FsFile _ _ _) = True"
| "is_regular _ = False"

type_synonym fs_tree = "fs_path \<Rightarrow> fs_node option"

datatype io_error = IoNotFound | IoOther

text \<open>
  The way to a path: all directories above it are there, one is missing, one is no directory, or one
  is a symbolic link. Where a link leads is outside the tree, so what is read through it is an
  argument, and nothing is written through it.
\<close>

datatype way = Clear | Gone | Blocked | Linked

fun way_to :: "fs_tree \<Rightarrow> fs_path \<Rightarrow> fs_path \<Rightarrow> way" where
  "way_to t dir [] = Clear"
| "way_to t dir (n # ns) =
     (case t dir of None \<Rightarrow> Gone | Some FsDir \<Rightarrow> way_to t (dir @ [n]) ns
      | Some FsSymlink \<Rightarrow> Linked | Some _ \<Rightarrow> Blocked)"

definition entry :: "fs_tree \<Rightarrow> fs_path \<Rightarrow> fs_node option" where
  "entry t p = (if p \<noteq> [] \<and> last p = dot then t (butlast p) else t p)"

definition found :: "fs_node option \<Rightarrow> io_error + fs_node" where
  "found x = (case x of None \<Rightarrow> Inl IoNotFound | Some n \<Rightarrow> Inr n)"

definition tree_stat :: "(fs_path \<Rightarrow> fs_node option) \<Rightarrow> fs_path \<Rightarrow> fs_tree \<Rightarrow> io_error + fs_node" where
  "tree_stat beyond p t =
     (case way_to t [] p of Clear \<Rightarrow> found (entry t p) | Gone \<Rightarrow> Inl IoNotFound
      | Blocked \<Rightarrow> Inl IoOther | Linked \<Rightarrow> found (beyond p))"

definition tree_follow :: "(fs_path \<Rightarrow> fs_node option) \<Rightarrow> fs_path \<Rightarrow> fs_tree \<Rightarrow> io_error + fs_node" where
  "tree_follow beyond p t =
     and_then (tree_stat beyond p t)
       (\<lambda>n. if n = FsSymlink \<or> n = FsSpecial then found (beyond p) else Inr n)"

definition tree_read :: "(fs_path \<Rightarrow> fs_node option) \<Rightarrow> fs_path \<Rightarrow> fs_tree \<Rightarrow> io_error + bytes" where
  "tree_read beyond p t =
     and_then (tree_follow beyond p t)
       (\<lambda>n. case n of FsFile bs _ _ \<Rightarrow> Inr bs | _ \<Rightarrow> Inl IoOther)"

text \<open>The place of a new or an existing entry; nothing is changed through a link.\<close>

definition place_of :: "fs_path \<Rightarrow> fs_tree \<Rightarrow> io_error + fs_node option" where
  "place_of p t =
     (case way_to t [] p of Clear \<Rightarrow> Inr (entry t p) | Gone \<Rightarrow> Inl IoNotFound | _ \<Rightarrow> Inl IoOther)"

definition tree_create :: "fs_node \<Rightarrow> fs_path \<Rightarrow> fs_tree \<Rightarrow> io_error + fs_tree" where
  "tree_create n p t =
     and_then (place_of p t) (\<lambda>x. if x = None then Inr (t(p \<mapsto> n)) else Inl IoOther)"

definition tree_open :: "fs_node \<Rightarrow> fs_path \<Rightarrow> fs_tree \<Rightarrow> io_error + fs_tree" where
  "tree_open n p t =
     and_then (place_of p t) (\<lambda>x.
       case x of None \<Rightarrow> Inr (t(p \<mapsto> n)) | Some FsDir \<Rightarrow> Inl IoOther | Some _ \<Rightarrow> Inr t)"

definition tree_create_all :: "fs_tree \<Rightarrow> io_error + fs_tree" where
  "tree_create_all t =
     (case t [] of None \<Rightarrow> Inr (t([] \<mapsto> FsDir)) | Some FsDir \<Rightarrow> Inr t | Some _ \<Rightarrow> Inl IoOther)"

fun with_mode :: "u32 \<Rightarrow> fs_node \<Rightarrow> fs_node" where
  "with_mode m (FsFile bs _ l) = FsFile bs m l"
| "with_mode m n = n"

fun with_bytes :: "bytes \<Rightarrow> fs_node \<Rightarrow> fs_node" where
  "with_bytes bs (FsFile _ m l) = FsFile bs m l"
| "with_bytes bs n = n"

definition tree_change :: "(fs_node \<Rightarrow> fs_node) \<Rightarrow> fs_path \<Rightarrow> fs_tree \<Rightarrow> fs_tree" where
  "tree_change f p t = t(p := map_option f (t p))"

definition tree_rename :: "fs_path \<Rightarrow> fs_path \<Rightarrow> fs_tree \<Rightarrow> io_error + fs_tree" where
  "tree_rename p q t =
     and_then (place_of p t) (\<lambda>x. and_then (place_of q t) (\<lambda>y.
       case x of None \<Rightarrow> Inl IoNotFound
       | Some n \<Rightarrow> if n = FsDir \<or> y = Some FsDir then Inl IoOther else Inr (t(p := None, q \<mapsto> n))))"

definition tree_remove :: "fs_path \<Rightarrow> fs_tree \<Rightarrow> io_error + fs_tree" where
  "tree_remove p t =
     and_then (place_of p t) (\<lambda>x.
       case x of None \<Rightarrow> Inl IoNotFound
       | Some n \<Rightarrow> if n = FsDir then Inl IoOther else Inr (t(p := None)))"

text \<open>\<open>fs::remove_dir_all\<close>: a link is removed, not followed. One that fails leaves some entries.\<close>

definition prune :: "(fs_path \<Rightarrow> bool) \<Rightarrow> fs_path \<Rightarrow> fs_tree \<Rightarrow> fs_tree" where
  "prune kept p t = (\<lambda>q. if prefix p q \<and> \<not> kept q then None else t q)"

definition tree_remove_all :: "fs_path \<Rightarrow> fs_tree \<Rightarrow> io_error + fs_tree" where
  "tree_remove_all p t =
     and_then (place_of p t) (\<lambda>x.
       case x of None \<Rightarrow> Inl IoNotFound
       | Some n \<Rightarrow> if n = FsDir \<or> n = FsSymlink then Inr (prune (\<lambda>_. False) p t) else Inl IoOther)"

section \<open>Calls to the operating system\<close>

datatype git_side = SourceSide | DestinationSide

datatype place = Worktree git_side | Artifacts

record apply_world =
  aw_tree :: "place \<Rightarrow> fs_tree"
  aw_calls :: nat

record os_env =
  oe_fails :: "nat \<Rightarrow> bool"
  oe_torn :: "nat \<Rightarrow> nat"
  oe_kept :: "nat \<Rightarrow> fs_path \<Rightarrow> bool"
  oe_created_mode :: u32
  oe_beyond :: "place \<Rightarrow> fs_path \<Rightarrow> fs_node option"

type_synonym 'a os = "apply_world \<Rightarrow> (io_error + 'a) \<times> apply_world"

definition counted :: "apply_world \<Rightarrow> apply_world" where
  "counted w = w\<lparr>aw_calls := Suc (aw_calls w)\<rparr>"

definition set_tree :: "place \<Rightarrow> fs_tree \<Rightarrow> apply_world \<Rightarrow> apply_world" where
  "set_tree pl t w = w\<lparr>aw_tree := (aw_tree w)(pl := t)\<rparr>"

text \<open>A call that reads a tree, and a call that changes one; \<open>damage\<close> is what a failing call leaves.\<close>

definition os_look :: "('x) os_env_scheme \<Rightarrow> place \<Rightarrow> (fs_tree \<Rightarrow> io_error + 'a) \<Rightarrow> 'a os" where
  "os_look e pl f w =
     (if oe_fails e (aw_calls w) then (Inl IoOther, counted w) else (f (aw_tree w pl), counted w))"

definition os_change ::
    "('x) os_env_scheme \<Rightarrow> place \<Rightarrow> (nat \<Rightarrow> fs_tree \<Rightarrow> fs_tree) \<Rightarrow> (fs_tree \<Rightarrow> io_error + fs_tree) \<Rightarrow> unit os"
  where
  "os_change e pl damage f w =
     (let t = aw_tree w pl
      in if oe_fails e (aw_calls w) then (Inl IoOther, set_tree pl (damage (aw_calls w) t) (counted w))
         else case f t of Inl er \<Rightarrow> (Inl er, counted w) | Inr t' \<Rightarrow> (Inr (), set_tree pl t' (counted w)))"

definition intact :: "nat \<Rightarrow> fs_tree \<Rightarrow> fs_tree" where
  "intact n t = t"

definition os_stat :: "('x) os_env_scheme \<Rightarrow> place \<Rightarrow> fs_path \<Rightarrow> fs_node os" where
  "os_stat e pl p = os_look e pl (tree_stat (oe_beyond e pl) p)"

definition os_read :: "('x) os_env_scheme \<Rightarrow> place \<Rightarrow> fs_path \<Rightarrow> bytes os" where
  "os_read e pl p = os_look e pl (tree_read (oe_beyond e pl) p)"

text \<open>\<open>Path::exists\<close> takes an error for an absent entry.\<close>

definition os_exists :: "('x) os_env_scheme \<Rightarrow> place \<Rightarrow> fs_path \<Rightarrow> apply_world \<Rightarrow> bool \<times> apply_world" where
  "os_exists e pl p w =
     (case os_look e pl (tree_follow (oe_beyond e pl) p) w of
        (Inl _, w') \<Rightarrow> (False, w') | (Inr _, w') \<Rightarrow> (True, w'))"

text \<open>\<open>File::open\<close> of a directory and \<open>sync_all\<close>, and \<open>set_permissions\<close> of a directory, whose mode is
  not part of the tree.\<close>

definition os_sync_dir :: "('x) os_env_scheme \<Rightarrow> place \<Rightarrow> fs_path \<Rightarrow> unit os" where
  "os_sync_dir e pl p = os_look e pl (\<lambda>t. and_then (tree_follow (oe_beyond e pl) p t) (\<lambda>_. Inr ()))"

definition os_protect_dir :: "('x) os_env_scheme \<Rightarrow> place \<Rightarrow> fs_path \<Rightarrow> unit os" where
  "os_protect_dir e pl p = os_look e pl (\<lambda>t. and_then (tree_follow (oe_beyond e pl) p t) (\<lambda>_. Inr ()))"

text \<open>\<open>File::sync_all\<close> of an open file.\<close>

definition os_sync :: "('x) os_env_scheme \<Rightarrow> place \<Rightarrow> unit os" where
  "os_sync e pl = os_look e pl (\<lambda>_. Inr ())"

definition os_create_dir :: "('x) os_env_scheme \<Rightarrow> place \<Rightarrow> fs_path \<Rightarrow> unit os" where
  "os_create_dir e pl p = os_change e pl intact (tree_create FsDir p)"

definition os_create_dir_all :: "('x) os_env_scheme \<Rightarrow> place \<Rightarrow> unit os" where
  "os_create_dir_all e pl = os_change e pl intact tree_create_all"

text \<open>\<open>OpenOptions::create_new\<close>: the file must not be there yet.\<close>

definition os_create_new :: "('x) os_env_scheme \<Rightarrow> place \<Rightarrow> fs_path \<Rightarrow> unit os" where
  "os_create_new e pl p = os_change e pl intact (tree_create (FsFile [] (oe_created_mode e) 1) p)"

text \<open>\<open>OpenOptions::create\<close>: the file is opened if it is there.\<close>

definition os_open :: "('x) os_env_scheme \<Rightarrow> place \<Rightarrow> fs_path \<Rightarrow> unit os" where
  "os_open e pl p = os_change e pl intact (tree_open (FsFile [] (oe_created_mode e) 1) p)"

definition os_set_mode :: "('x) os_env_scheme \<Rightarrow> place \<Rightarrow> fs_path \<Rightarrow> u32 \<Rightarrow> unit os" where
  "os_set_mode e pl p m = os_change e pl intact (\<lambda>t. Inr (tree_change (with_mode m) p t))"

definition os_write_all :: "('x) os_env_scheme \<Rightarrow> place \<Rightarrow> fs_path \<Rightarrow> bytes \<Rightarrow> unit os" where
  "os_write_all e pl p bs =
     os_change e pl (\<lambda>n. tree_change (with_bytes (take (oe_torn e n) bs)) p)
       (\<lambda>t. Inr (tree_change (with_bytes bs) p t))"

definition os_rename :: "('x) os_env_scheme \<Rightarrow> place \<Rightarrow> fs_path \<Rightarrow> fs_path \<Rightarrow> unit os" where
  "os_rename e pl p q = os_change e pl intact (tree_rename p q)"

definition os_remove_file :: "('x) os_env_scheme \<Rightarrow> place \<Rightarrow> fs_path \<Rightarrow> unit os" where
  "os_remove_file e pl p = os_change e pl intact (tree_remove p)"

definition os_remove_dir_all :: "('x) os_env_scheme \<Rightarrow> place \<Rightarrow> fs_path \<Rightarrow> unit os" where
  "os_remove_dir_all e pl p = os_change e pl (\<lambda>n. prune (oe_kept e n) p) (tree_remove_all p)"

section \<open>Computations that may fail\<close>

text \<open>
  A function of the engine: a result or the first error, and the world it leaves. \<open>then_do\<close> is the
  operator \<open>?\<close>, \<open>or_says\<close> is \<open>map_err\<close>, and \<open>asking\<close> is a \<open>match\<close> on what a call returned.
\<close>

type_synonym ('er, 'a) act = "apply_world \<Rightarrow> ('er + 'a) \<times> apply_world"

definition then_do :: "('er, 'a) act \<Rightarrow> ('a \<Rightarrow> ('er, 'b) act) \<Rightarrow> ('er, 'b) act" where
  "then_do m f w = (case m w of (Inl er, w') \<Rightarrow> (Inl er, w') | (Inr x, w') \<Rightarrow> f x w')"

definition give :: "'a \<Rightarrow> ('er, 'a) act" where
  "give x w = (Inr x, w)"

definition refuse :: "'er \<Rightarrow> ('er, 'a) act" where
  "refuse er w = (Inl er, w)"

definition checked :: "'er + 'a \<Rightarrow> ('er, 'a) act" where
  "checked r w = (r, w)"

definition or_says :: "'a os \<Rightarrow> 'er \<Rightarrow> ('er, 'a) act" where
  "or_says m er w = (case m w of (Inl _, w') \<Rightarrow> (Inl er, w') | (Inr x, w') \<Rightarrow> (Inr x, w'))"

definition asking :: "(apply_world \<Rightarrow> 'r \<times> apply_world) \<Rightarrow> ('r \<Rightarrow> ('er, 'a) act) \<Rightarrow> ('er, 'a) act" where
  "asking m k w = (case m w of (r, w') \<Rightarrow> k r w')"

fun each :: "('a \<Rightarrow> ('er, unit) act) \<Rightarrow> 'a list \<Rightarrow> ('er, unit) act" where
  "each f [] = give ()"
| "each f (x # xs) = then_do (f x) (\<lambda>_. each f xs)"

section \<open>What holds after a computation\<close>

text \<open>
  \<open>triple P m Q E\<close>: from a world with \<open>P\<close>, a result comes with \<open>Q\<close> and an error with \<open>E\<close>. With an \<open>E\<close>
  that never holds it says that the computation succeeds.
\<close>

definition triple ::
    "(apply_world \<Rightarrow> bool) \<Rightarrow> ('er, 'a) act \<Rightarrow> ('a \<Rightarrow> apply_world \<Rightarrow> bool) \<Rightarrow> (apply_world \<Rightarrow> bool) \<Rightarrow> bool" where
  "triple P m Q E \<longleftrightarrow>
     (\<forall>w. P w \<longrightarrow> (case m w of (Inl _, w') \<Rightarrow> E w' | (Inr x, w') \<Rightarrow> Q x w'))"

lemma tripleI:
  "(\<And>w er w'. P w \<Longrightarrow> m w = (Inl er, w') \<Longrightarrow> E w') \<Longrightarrow>
   (\<And>w x w'. P w \<Longrightarrow> m w = (Inr x, w') \<Longrightarrow> Q x w') \<Longrightarrow> triple P m Q E"
  by (auto simp: triple_def split: prod.splits sum.splits)

lemma triple_Inr: "triple P m Q E \<Longrightarrow> P w \<Longrightarrow> m w = (Inr x, w') \<Longrightarrow> Q x w'"
  and triple_Inl: "triple P m Q E \<Longrightarrow> P w \<Longrightarrow> m w = (Inl er, w') \<Longrightarrow> E w'"
  by (auto simp: triple_def)

lemma triple_succeeds:
  assumes "triple P m Q (\<lambda>_. False)" and "P w"
  obtains x w' where "m w = (Inr x, w')" and "Q x w'"
proof -
  obtain r w' where "m w = (r, w')" by (cases "m w")
  with assms that show ?thesis by (cases r) (auto simp: triple_def)
qed

lemma triple_weaken:
  assumes "triple P' m Q' E'" and "\<And>w. P w \<Longrightarrow> P' w" and "\<And>x w. Q' x w \<Longrightarrow> Q x w" and "\<And>w. E' w \<Longrightarrow> E w"
  shows "triple P m Q E"
proof (rule tripleI)
  show "E w'" if "P w" "m w = (Inl er, w')" for w er w'
    using triple_Inl [OF assms(1) assms(2) [OF that(1)] that(2)] by (rule assms(4))
  show "Q x w'" if "P w" "m w = (Inr x, w')" for w x w'
    using triple_Inr [OF assms(1) assms(2) [OF that(1)] that(2)] by (rule assms(3))
qed

lemma triple_then:
  assumes "triple P m R E" and "\<And>x. triple (R x) (f x) Q E"
  shows "triple P (then_do m f) Q E"
  unfolding triple_def
proof (intro allI impI)
  fix w assume "P w"
  with assms show "case then_do m f w of (Inl _, w') \<Rightarrow> E w' | (Inr x, w') \<Rightarrow> Q x w'"
    by (cases "m w"; cases "fst (m w)") (fastforce simp: triple_def then_do_def)+
qed

lemma triple_give: "(\<And>w. P w \<Longrightarrow> Q x w) \<Longrightarrow> triple P (give x) Q E"
  by (simp add: triple_def give_def)

lemma triple_refuse: "(\<And>w. P w \<Longrightarrow> E w) \<Longrightarrow> triple P (refuse er) Q E"
  by (simp add: triple_def refuse_def)

lemma triple_checked:
  "(\<And>w x. P w \<Longrightarrow> r = Inr x \<Longrightarrow> Q x w) \<Longrightarrow> (\<And>w er. P w \<Longrightarrow> r = Inl er \<Longrightarrow> E w) \<Longrightarrow> triple P (checked r) Q E"
  by (auto simp: triple_def checked_def split: sum.splits)

lemma triple_fact: "(b \<Longrightarrow> triple P m Q E) \<Longrightarrow> triple (\<lambda>w. b \<and> P w) m Q E"
  by (auto simp: triple_def)

lemma triple_if:
  "(b \<Longrightarrow> triple P m Q E) \<Longrightarrow> (\<not> b \<Longrightarrow> triple P n Q E) \<Longrightarrow> triple P (if b then m else n) Q E"
  by simp

lemma triple_each:
  assumes "\<And>xs x ys. zs = xs @ x # ys \<Longrightarrow> triple (I xs) (f x) (\<lambda>_. I (xs @ [x])) E"
  shows "triple (I []) (each f zs) (\<lambda>_. I zs) E"
proof -
  have "triple (I xs) (each f ys) (\<lambda>_. I (xs @ ys)) E" if "zs = xs @ ys" for xs ys
    using that
  proof (induction ys arbitrary: xs)
    case Nil
    then show ?case by (simp add: triple_give)
  next
    case (Cons y ys)
    then show ?case using triple_then [OF assms Cons.IH [of "xs @ [y]"]] by simp
  qed
  from this [of "[]" zs] show ?thesis by simp
qed

section \<open>Computations that only look\<close>

text \<open>
  \<open>quiet\<close>: no tree changes and calls are only counted. While no call fails any more, a world is
  \<open>healthy\<close>.
\<close>

definition quiet :: "(apply_world \<Rightarrow> 'r \<times> apply_world) \<Rightarrow> bool" where
  "quiet m \<longleftrightarrow> (\<forall>w. aw_tree (snd (m w)) = aw_tree w \<and> aw_calls w \<le> aw_calls (snd (m w)))"

definition healthy :: "('x) os_env_scheme \<Rightarrow> apply_world \<Rightarrow> bool" where
  "healthy e w \<longleftrightarrow> (\<forall>n \<ge> aw_calls w. \<not> oe_fails e n)"

named_theorems quiet_intros \<open>computations that only look\<close>

lemma quietD: "quiet m \<Longrightarrow> m w = (r, w') \<Longrightarrow> aw_tree w' = aw_tree w \<and> aw_calls w \<le> aw_calls w'"
  by (metis quiet_def snd_conv)

lemma quietI:
  "(\<And>w r w'. m w = (r, w') \<Longrightarrow> aw_tree w' = aw_tree w \<and> aw_calls w \<le> aw_calls w') \<Longrightarrow> quiet m"
  by (metis prod.collapse quiet_def)

lemma quiet_healthy: "quiet m \<Longrightarrow> m w = (r, w') \<Longrightarrow> healthy e w \<Longrightarrow> healthy e w'"
  using quietD [of m w r w'] by (auto simp: healthy_def)

lemma counted_simps [simp]:
  "aw_tree (counted w) = aw_tree w" "aw_calls (counted w) = Suc (aw_calls w)"
  by (simp_all add: counted_def)

lemma healthy_counted: "healthy e w \<Longrightarrow> healthy e (counted w)"
  by (simp add: healthy_def)

lemma healthy_now: "healthy e w \<Longrightarrow> \<not> oe_fails e (aw_calls w)"
  by (simp add: healthy_def)

lemma quiet_give [quiet_intros]: "quiet (give x)"
  and quiet_refuse [quiet_intros]: "quiet (refuse er)"
  and quiet_checked [quiet_intros]: "quiet (checked r)"
  by (simp_all add: quiet_def give_def refuse_def checked_def)

lemma quiet_look [quiet_intros]: "quiet (os_look e pl f)"
  by (simp add: quiet_def os_look_def)

lemma quiet_os [quiet_intros]:
  "quiet (os_stat e pl p)" "quiet (os_read e pl p)" "quiet (os_sync_dir e pl p)" "quiet (os_protect_dir e pl p)"
  "quiet (os_sync e pl)"
  by (simp_all add: os_stat_def os_read_def os_sync_dir_def os_protect_dir_def os_sync_def quiet_look)

lemma quiet_exists [quiet_intros]: "quiet (os_exists e pl p)"
  by (rule quietI) (auto simp: os_exists_def split: prod.splits sum.splits dest: quietD [OF quiet_look])

lemma quiet_or_says [quiet_intros]: "quiet m \<Longrightarrow> quiet (or_says m er)"
  by (rule quietI) (auto simp: or_says_def split: prod.splits sum.splits dest: quietD)

lemma quiet_asking [quiet_intros]:
  assumes "quiet m" and "\<And>r. quiet (k r)"
  shows "quiet (asking m k)"
  unfolding quiet_def asking_def
proof (intro allI)
  fix w
  obtain r w' where "m w = (r, w')" by (cases "m w")
  with quietD [OF assms(1) this] assms(2) [of r] show
    "aw_tree (snd (case m w of (r, w') \<Rightarrow> k r w')) = aw_tree w \<and>
     aw_calls w \<le> aw_calls (snd (case m w of (r, w') \<Rightarrow> k r w'))"
    by (simp add: quiet_def) (meson order_trans)
qed

lemma quiet_then [quiet_intros]:
  assumes "quiet m" and "\<And>x. quiet (f x)"
  shows "quiet (then_do m f)"
proof -
  have "then_do m f = asking m (\<lambda>r. case r of Inl er \<Rightarrow> refuse er | Inr x \<Rightarrow> f x)"
    by (auto simp: then_do_def asking_def refuse_def fun_eq_iff split: prod.splits sum.splits)
  then show ?thesis
    using quiet_asking [OF assms(1), of "\<lambda>r. case r of Inl er \<Rightarrow> refuse er | Inr x \<Rightarrow> f x"] assms(2)
    by (simp add: quiet_refuse split: sum.splits)
qed

lemma quiet_each [quiet_intros]: "(\<And>x. quiet (f x)) \<Longrightarrow> quiet (each f xs)"
  by (induction xs) (simp_all add: quiet_give quiet_then)

lemma triple_quiet:
  assumes "quiet m" and "\<And>w w'. P w \<Longrightarrow> aw_tree w' = aw_tree w \<Longrightarrow> aw_calls w \<le> aw_calls w' \<Longrightarrow> P w'"
  shows "triple P m (\<lambda>_. P) P"
  by (rule tripleI; frule quietD [OF assms(1)]; rule assms(2)) auto

end
