(* ===== verification/Apply_Types.thy ===== *)
theory Apply_Types
  imports Worktree_Files
begin

text \<open>
  The artifacts of applying a delegated task (\<open>dcc-infra/src/delegation_apply.rs\<close>): snapshots of
  files, the manifest that freezes them, its validation, and the paths it may name. SHA-256, the
  Unicode lower-casing, the UUID parser, serde's JSON, Git and the clock are fields of \<open>apply_env\<close>.
\<close>

section \<open>Data\<close>

definition MAX_ARTIFACT_FILES :: nat where
  "MAX_ARTIFACT_FILES = 10000"

definition MAX_ARTIFACT_BYTES :: u64 where
  "MAX_ARTIFACT_BYTES = 512 * 1024 * 1024"

record apply_identity =
  ai_head :: rstr
  ai_branch :: "rstr option"
  ai_index_tree :: rstr

record prepared_apply =
  pa_transaction_id :: rstr
  pa_manifest_digest :: rstr
  pa_file_count :: nat
  pa_artifact_bytes :: u64
  pa_changed_files :: "rstr list"
  pa_source_identity :: apply_identity
  pa_destination_identity :: apply_identity

datatype apply_classification = AllPre | AllPost | MixedKnown | Divergent

record apply_output =
  ao_changed_files :: "rstr list"
  ao_artifact_bytes :: u64

datatype snapshot_kind = Missing | Regular

record snapshot =
  sn_kind :: snapshot_kind
  sn_digest :: rstr
  sn_bytes :: u64
  sn_file_mode :: u32

record file_artifact =
  fa_path :: rstr
  fa_pre :: snapshot
  fa_post :: snapshot
  fa_pre_payload :: "rstr option"
  fa_post_payload :: "rstr option"

record apply_manifest =
  am_version :: u32
  am_transaction_id :: rstr
  am_source :: apply_identity
  am_destination :: apply_identity
  am_files :: "file_artifact list"

text \<open>What a run of Git returns: nothing, or an exit code (none after a signal) and its output.\<close>

datatype git_answer = GitUnavailable | GitExit "int option" bytes

record apply_env = os_env +
  ae_clock :: "nat \<Rightarrow> nat option"
  ae_git :: "git_side \<Rightarrow> rstr list \<Rightarrow> fs_tree \<Rightarrow> git_answer"
  ae_marker :: "git_side \<Rightarrow> rstr \<Rightarrow> fs_tree \<Rightarrow> bool"
  ae_lock_held :: "rstr \<Rightarrow> bool"
  ae_sha256 :: "bytes \<Rightarrow> bytes"
  ae_lower :: "rstr \<Rightarrow> rstr"
  ae_uuid :: "rstr \<Rightarrow> bool"
  ae_json :: "apply_manifest \<Rightarrow> bytes"
  ae_parse :: "bytes \<Rightarrow> apply_manifest option"

text \<open>The error texts, without the text of the operating system's or Git's own error.\<close>

datatype apply_error = Says string | SaysOf string rstr | GitFailed "rstr list"

type_synonym 'a engine = "(apply_error, 'a) act"

section \<open>Digests and snapshots\<close>

definition sha256_hex :: "apply_env \<Rightarrow> bytes \<Rightarrow> rstr" where
  "sha256_hex e bs = hex (ae_sha256 e bs)"

definition is_hex :: "rstr \<Rightarrow> bool" where
  "is_hex value = list_all is_ascii_hexdigit value"

definition len64 :: "bytes \<Rightarrow> u64" where
  "len64 bs = word_of_nat (length bs)"

definition regular_snapshot :: "apply_env \<Rightarrow> bytes \<Rightarrow> u32 \<Rightarrow> snapshot" where
  "regular_snapshot e bs mode =
     \<lparr>sn_kind = Regular, sn_digest = sha256_hex e bs, sn_bytes = len64 bs, sn_file_mode = mode\<rparr>"

definition missing_snapshot :: "apply_env \<Rightarrow> snapshot" where
  "missing_snapshot e =
     \<lparr>sn_kind = Missing, sn_digest = sha256_hex e [], sn_bytes = 0, sn_file_mode = 0\<rparr>"

definition file_mode :: "u32 \<Rightarrow> u32" where
  "file_mode mode = and mode 511"

text \<open>\<open>u64::checked_add\<close> and \<open>u64::saturating_add\<close>.\<close>

definition checked_add :: "u64 \<Rightarrow> u64 \<Rightarrow> u64 option" where
  "checked_add a b = (if unat a + unat b < 2 ^ 64 then Some (a + b) else None)"

definition saturating_add :: "u64 \<Rightarrow> u64 \<Rightarrow> u64" where
  "saturating_add a b = (case checked_add a b of None \<Rightarrow> - 1 | Some c \<Rightarrow> c)"

definition manifest_artifact_bytes :: "apply_manifest \<Rightarrow> u64" where
  "manifest_artifact_bytes m =
     foldl saturating_add 0 (map (\<lambda>f. saturating_add (sn_bytes (fa_pre f)) (sn_bytes (fa_post f))) (am_files m))"

section \<open>Validation\<close>

definition validate_transaction_id :: "apply_env \<Rightarrow> rstr \<Rightarrow> apply_error + unit" where
  "validate_transaction_id e value =
     require (ae_uuid e value) (Says ''delegation apply transaction ID must be a UUID'')"

text \<open>
  The path is text, so the last check of the code, that it is UTF-8, never fails. A path without a
  normal component has only dots.
\<close>

definition validate_relative_path :: "rstr \<Rightarrow> apply_error + unit" where
  "validate_relative_path value =
     (if value = [] \<or> 0 \<in> set value
      then Inl (Says ''delegation artifact path is empty or contains NUL'')
      else if starts_with value [47]
        \<or> list_ex (\<lambda>c. c = ParentDir \<or> c = RootDir) (components value)
        \<or> list_all (\<lambda>c. c = CurDir) (components value)
      then Inl (SaysOf ''delegation artifact path is unsafe'' value)
      else Inr ())"

fun case_distinct_from :: "apply_env \<Rightarrow> rstr set \<Rightarrow> rstr list \<Rightarrow> apply_error + unit" where
  "case_distinct_from e folded [] = Inr ()"
| "case_distinct_from e folded (p # ps) =
     (if ae_lower e p \<in> folded
      then Inl (SaysOf ''delegation paths differing only by case are unsupported'' p)
      else case_distinct_from e (insert (ae_lower e p) folded) ps)"

definition validate_case_distinct_paths :: "apply_env \<Rightarrow> rstr list \<Rightarrow> apply_error + unit" where
  "validate_case_distinct_paths e paths = case_distinct_from e {} paths"

definition validate_snapshot :: "snapshot \<Rightarrow> apply_error + unit" where
  "validate_snapshot s =
     (if \<not> is_hex (sn_digest s) \<or> byte_len (sn_digest s) \<noteq> 64
      then Inl (Says ''delegation apply snapshot digest is invalid'')
      else if sn_kind s = Missing \<and> (sn_bytes s \<noteq> 0 \<or> sn_file_mode s \<noteq> 0)
      then Inl (Says ''missing delegation snapshot has payload metadata'')
      else Inr ())"

text \<open>A name of twelve bytes that ends in \<open>.bin\<close> has a character boundary after the eighth.\<close>

definition payload_name :: "rstr \<Rightarrow> bool" where
  "payload_name name \<longleftrightarrow>
     byte_len name = 12 \<and> suffix (lit ''.bin'') name \<and> list_all is_ascii_digit (take (length name - 4) name)"

definition validate_payload_name :: "rstr option \<Rightarrow> rstr \<Rightarrow> snapshot \<Rightarrow> apply_error + unit" where
  "validate_payload_name payload dir s =
     (case (payload, sn_kind s) of
        (None, Missing) \<Rightarrow> Inr ()
      | (Some value, Regular) \<Rightarrow>
          let name = (case strip_prefix (dir @ [47]) value of None \<Rightarrow> [] | Some n \<Rightarrow> n)
          in require (payload_name name) (Says ''delegation apply payload path is invalid'')
      | _ \<Rightarrow> Inl (Says ''delegation apply payload does not match snapshot kind''))"

fun validate_files :: "rstr set \<Rightarrow> u64 \<Rightarrow> file_artifact list \<Rightarrow> apply_error + unit" where
  "validate_files paths bytes [] = Inr ()"
| "validate_files paths bytes (f # fs) =
     and_then (validate_relative_path (fa_path f)) (\<lambda>_.
     if fa_path f \<in> paths then Inl (Says ''delegation apply manifest contains duplicate paths'')
     else and_then (validate_snapshot (fa_pre f)) (\<lambda>_.
          and_then (validate_snapshot (fa_post f)) (\<lambda>_.
          case Option.bind (checked_add bytes (sn_bytes (fa_pre f))) (\<lambda>v. checked_add v (sn_bytes (fa_post f))) of
            None \<Rightarrow> Inl (Says ''delegation apply manifest size overflow'')
          | Some bytes' \<Rightarrow>
              if bytes' > MAX_ARTIFACT_BYTES then Inl (Says ''delegation apply manifest exceeds size limit'')
              else and_then (validate_payload_name (fa_pre_payload f) (lit ''pre'') (fa_pre f)) (\<lambda>_.
                   and_then (validate_payload_name (fa_post_payload f) (lit ''post'') (fa_post f)) (\<lambda>_.
                   validate_files (insert (fa_path f) paths) bytes' fs)))))"

definition validate_manifest :: "apply_env \<Rightarrow> apply_manifest \<Rightarrow> apply_error + unit" where
  "validate_manifest e m =
     (if am_files m = [] \<or> length (am_files m) > MAX_ARTIFACT_FILES
      then Inl (Says ''delegation apply manifest file count is invalid'')
      else and_then (validate_case_distinct_paths e (map fa_path (am_files m)))
             (\<lambda>_. validate_files {} 0 (am_files m)))"

section \<open>Names\<close>

text \<open>
  A UUID has no separator, so the directory of a transaction is an entry of the root. \<open>{n:08}\<close> pads a
  number with zeros.
\<close>

definition transaction_dir :: "apply_env \<Rightarrow> rstr \<Rightarrow> apply_error + fs_path" where
  "transaction_dir e tid =
     and_then (validate_transaction_id e tid) (\<lambda>_.
       case components tid of
         [Normal n] \<Rightarrow> Inr [n]
       | _ \<Rightarrow> Inl (Says ''delegation artifact transaction escaped its root''))"

definition pad8 :: "nat \<Rightarrow> rstr" where
  "pad8 n = replicate (8 - length (dec n)) 48 @ dec n"

definition payload_file :: "nat \<Rightarrow> rstr" where
  "payload_file ordinal = pad8 ordinal @ lit ''.bin''"

definition destination_temp_path :: "apply_env \<Rightarrow> rstr \<Rightarrow> rstr \<Rightarrow> apply_error + fs_path" where
  "destination_temp_path e tid relative =
     and_then (validate_transaction_id e tid) (\<lambda>_.
     and_then (validate_relative_path relative) (\<lambda>_.
       case rev (normal_names relative) of
         [] \<Rightarrow> Inl (Says ''destination path has no parent'')
       | name # dirs \<Rightarrow>
           Inr (rev dirs @ [lit ''.'' @ name @ lit ''.dcc-tmp-'' @ tid @ lit ''-''
             @ take 16 (sha256_hex e (utf8 relative))])))"

definition temporary_sibling :: "apply_env \<Rightarrow> nat \<Rightarrow> fs_path \<Rightarrow> apply_error + fs_path" where
  "temporary_sibling e now p =
     (if p = [] then Inl (Says ''artifact path has no parent'')
      else case ae_clock e now of
        None \<Rightarrow> Inl (Says ''system clock is before Unix epoch'')
      | Some nonce \<Rightarrow> Inr (butlast p @ [lit ''.'' @ last p @ lit ''.dcc-tmp-'' @ dec nonce]))"

definition side_label :: "git_side \<Rightarrow> string" where
  "side_label side = (case side of SourceSide \<Rightarrow> ''source'' | DestinationSide \<Rightarrow> ''destination'')"

end
