(* ===== verification/Apply_Artifacts.thy ===== *)
theory Apply_Artifacts
  imports Apply_Types
begin

text \<open>
  The apply engine (\<open>dcc-infra/src/delegation_apply.rs\<close>): \<open>prepare_apply_artifacts\<close> freezes the changed
  files of a delegation worktree and what they replace, \<open>apply_prepared_artifacts\<close> installs them in the
  destination, \<open>rollback_apply_artifacts\<close> takes them back. The roots are the places \<open>Worktree
  DestinationSide\<close>, \<open>Worktree SourceSide\<close> and \<open>Artifacts\<close>.
\<close>

section \<open>Git\<close>

text \<open>\<open>run_git_output_with_timeout\<close>, counted as one call.\<close>

definition run_git :: "apply_env \<Rightarrow> git_side \<Rightarrow> rstr list \<Rightarrow> apply_world \<Rightarrow> git_answer \<times> apply_world" where
  "run_git e side args w =
     (if oe_fails e (aw_calls w) then GitUnavailable else ae_git e side args (aw_tree w (Worktree side)),
      counted w)"

definition git_output :: "apply_env \<Rightarrow> git_side \<Rightarrow> rstr list \<Rightarrow> bytes engine" where
  "git_output e side args =
     asking (run_git e side args) (\<lambda>answer. case answer of
       GitUnavailable \<Rightarrow> refuse (GitFailed args)
     | GitExit code stdout \<Rightarrow> if code = Some 0 then give stdout else refuse (GitFailed args))"

definition git_stdout :: "apply_env \<Rightarrow> git_side \<Rightarrow> rstr list \<Rightarrow> rstr engine" where
  "git_stdout e side args =
     then_do (git_output e side args) (\<lambda>stdout. case from_utf8 stdout of
       None \<Rightarrow> refuse (GitFailed args)
     | Some value \<Rightarrow> give (trim value))"

definition git_stdout_optional :: "apply_env \<Rightarrow> git_side \<Rightarrow> rstr list \<Rightarrow> rstr option engine" where
  "git_stdout_optional e side args =
     asking (run_git e side args) (\<lambda>answer. case answer of
       GitUnavailable \<Rightarrow> refuse (GitFailed args)
     | GitExit code stdout \<Rightarrow>
         if code = Some 0 then
           (case from_utf8 stdout of
              None \<Rightarrow> refuse (Says ''git returned non-UTF-8 branch name'')
            | Some value \<Rightarrow> give (Some (trim value)))
         else if code = Some 1 then give None
         else refuse (GitFailed args))"

definition inspect_identity :: "apply_env \<Rightarrow> git_side \<Rightarrow> apply_identity engine" where
  "inspect_identity e side =
     then_do (git_stdout e side (map lit [''rev-parse'', ''HEAD''])) (\<lambda>head.
     then_do (git_stdout_optional e side (map lit [''symbolic-ref'', ''--quiet'', ''--short'', ''HEAD'']))
       (\<lambda>branch.
     then_do (git_stdout e side (map lit [''write-tree''])) (\<lambda>index_tree.
       if head = [] \<or> index_tree = [] then refuse (Says (side_label side @ '' Git identity is empty''))
       else give \<lparr>ai_head = head, ai_branch = branch, ai_index_tree = index_tree\<rparr>)))"

definition ensure_identity :: "apply_env \<Rightarrow> git_side \<Rightarrow> apply_identity \<Rightarrow> unit engine" where
  "ensure_identity e side expected =
     then_do (inspect_identity e side) (\<lambda>current.
       if current \<noteq> expected then refuse (Says (side_label side @ '' Git HEAD, ref, or index changed''))
       else give ())"

definition ensure_git_root :: "apply_env \<Rightarrow> git_side \<Rightarrow> unit engine" where
  "ensure_git_root e side =
     then_do (or_says (os_stat e (Worktree side) []) (Says (side_label side @ '' root is unavailable'')))
       (\<lambda>node.
       if node \<noteq> FsDir then refuse (Says (side_label side @ '' root must be a real directory''))
       else asking (run_git e side (map lit [''rev-parse'', ''--show-toplevel''])) (\<lambda>answer.
         case answer of
           GitUnavailable \<Rightarrow> refuse (Says (''failed to inspect '' @ side_label side @ '' Git root''))
         | GitExit code _ \<Rightarrow>
             if code = Some 0 then give () else refuse (Says (side_label side @ '' root is not a Git worktree''))))"

definition ensure_clean_repository :: "apply_env \<Rightarrow> git_side \<Rightarrow> unit engine" where
  "ensure_clean_repository e side =
     then_do (git_output e side (map lit [''status'', ''--porcelain=v1'', ''--untracked-files=no'', ''-z'']))
       (\<lambda>output. if output \<noteq> [] then refuse (Says (side_label side @ '' Git worktree is not clean'')) else give ())"

definition operation_markers :: "rstr list" where
  "operation_markers =
     map lit [''MERGE_HEAD'', ''CHERRY_PICK_HEAD'', ''REVERT_HEAD'', ''rebase-merge'', ''rebase-apply'', ''sequencer'']"

text \<open>Whether the file that Git names for a marker exists; a failing call counts as absent.\<close>

definition marker_exists :: "apply_env \<Rightarrow> git_side \<Rightarrow> rstr \<Rightarrow> apply_world \<Rightarrow> bool \<times> apply_world" where
  "marker_exists e side path w =
     (\<not> oe_fails e (aw_calls w) \<and> ae_marker e side path (aw_tree w (Worktree side)), counted w)"

definition ensure_no_operation_in_progress :: "apply_env \<Rightarrow> git_side \<Rightarrow> unit engine" where
  "ensure_no_operation_in_progress e side =
     each (\<lambda>marker.
       then_do (git_stdout e side (map lit [''rev-parse'', ''--git-path''] @ [marker])) (\<lambda>path.
       asking (marker_exists e side path) (\<lambda>there.
         if there then refuse (SaysOf ''Git operation is in progress'' marker) else give ())))
       operation_markers"

fun collect_paths :: "bytes list \<Rightarrow> apply_error + rstr list" where
  "collect_paths [] = Inr []"
| "collect_paths (bs # bss) =
     (case from_utf8 bs of
        None \<Rightarrow> Inl (Says ''Git returned a non-UTF-8 path'')
      | Some p \<Rightarrow> and_then (validate_relative_path p) (\<lambda>_.
          and_then (collect_paths bss) (\<lambda>ps. Inr (p # ps))))"

definition parse_nul_paths :: "bytes \<Rightarrow> apply_error + rstr list" where
  "parse_nul_paths bs = collect_paths (filter (\<lambda>p. p \<noteq> []) (split_on (\<lambda>b. b = 0) bs))"

definition tracked_changed_paths :: "apply_env \<Rightarrow> git_side \<Rightarrow> rstr list engine" where
  "tracked_changed_paths e side =
     then_do (git_output e side (map lit [''diff'', ''HEAD'', ''--no-renames'', ''--name-only'', ''-z'']))
       (\<lambda>output. checked (parse_nul_paths output))"

definition untracked_paths :: "apply_env \<Rightarrow> git_side \<Rightarrow> rstr list engine" where
  "untracked_paths e side =
     then_do (git_output e side (map lit [''ls-files'', ''--others'', ''--exclude-standard'', ''-z'']))
       (\<lambda>output. checked (parse_nul_paths output))"

definition ensure_no_untracked_collision :: "apply_env \<Rightarrow> rstr list \<Rightarrow> unit engine" where
  "ensure_no_untracked_collision e paths =
     then_do (untracked_paths e DestinationSide) (\<lambda>untracked.
       case find (\<lambda>p. p \<in> set untracked) paths of
         Some p \<Rightarrow> refuse (SaysOf ''destination has an untracked file the delegation also writes'' p)
       | None \<Rightarrow> give ())"

definition record_mode :: "bytes \<Rightarrow> rstr" where
  "record_mode bs =
     (case from_utf8 (hd (split_on (\<lambda>b. b = 32) bs)) of None \<Rightarrow> [] | Some mode \<Rightarrow> mode)"

definition reject_submodule :: "apply_env \<Rightarrow> git_side \<Rightarrow> rstr \<Rightarrow> unit engine" where
  "reject_submodule e side relative =
     then_do (git_output e side (map lit [''ls-files'', ''--stage'', ''--''] @ [relative])) (\<lambda>output.
       if list_ex (\<lambda>record. record_mode record = lit ''160000'')
            (filter (\<lambda>r. r \<noteq> []) (split_on (\<lambda>b. b = 0) output))
       then refuse (SaysOf ''submodule path is not supported'' relative)
       else give ())"

section \<open>Looking at files\<close>

fun check_ancestors ::
    "apply_env \<Rightarrow> place \<Rightarrow> fs_path \<Rightarrow> fs_path \<Rightarrow> path_component list \<Rightarrow> unit engine" where
  "check_ancestors e pl whole dir [] = give ()"
| "check_ancestors e pl whole dir (c # cs) =
     (case normal_name c of
        None \<Rightarrow> refuse (Says ''delegation artifact path contains an unsafe component'')
      | Some n \<Rightarrow> asking (os_stat e pl (dir @ [n])) (\<lambda>r. case r of
            Inr node \<Rightarrow>
              if node = FsSymlink then refuse (Says ''symlink ancestor is not supported'')
              else if node \<noteq> FsDir \<and> dir @ [n] \<noteq> whole then refuse (Says ''path ancestor is not a directory'')
              else check_ancestors e pl whole (dir @ [n]) cs
          | Inl IoNotFound \<Rightarrow> give ()
          | Inl IoOther \<Rightarrow> refuse (Says ''failed to inspect'')))"

definition ensure_no_symlink_ancestors :: "apply_env \<Rightarrow> place \<Rightarrow> rstr \<Rightarrow> unit engine" where
  "ensure_no_symlink_ancestors e pl relative =
     then_do (or_says (os_stat e pl []) (Says ''failed to inspect artifact root'')) (\<lambda>node.
       if node \<noteq> FsDir then refuse (Says ''artifact root must be a real directory'')
       else check_ancestors e pl (normal_names relative) [] (components relative))"

definition ensure_single_link :: "nat \<Rightarrow> apply_error + unit" where
  "ensure_single_link nlink =
     require (nlink = 1) (Says ''hard-linked delegation path is not supported'')"

definition capture_snapshot :: "apply_env \<Rightarrow> place \<Rightarrow> rstr \<Rightarrow> (snapshot \<times> bytes option) engine" where
  "capture_snapshot e pl relative =
     then_do (checked (validate_relative_path relative)) (\<lambda>_.
     then_do (ensure_no_symlink_ancestors e pl relative) (\<lambda>_.
     asking (os_stat e pl (target_path relative)) (\<lambda>r. case r of
       Inl IoNotFound \<Rightarrow> give (missing_snapshot e, None)
     | Inl IoOther \<Rightarrow> refuse (Says ''failed to inspect'')
     | Inr (FsFile _ mode nlink) \<Rightarrow>
         then_do (checked (ensure_single_link nlink)) (\<lambda>_.
         then_do (or_says (os_read e pl (target_path relative)) (Says ''failed to read'')) (\<lambda>bs.
           give (regular_snapshot e bs (file_mode mode), Some bs)))
     | Inr _ \<Rightarrow> refuse (Says ''delegation artifact path is not a regular file''))))"

definition current_snapshot :: "apply_env \<Rightarrow> rstr \<Rightarrow> snapshot engine" where
  "current_snapshot e relative =
     then_do (capture_snapshot e (Worktree DestinationSide) relative) (\<lambda>(s, _). give s)"

fun classification :: "bool \<Rightarrow> bool \<Rightarrow> apply_classification" where
  "classification False True = AllPost"
| "classification True False = AllPre"
| "classification True True = MixedKnown"
| "classification False False = AllPost"

fun classify_files ::
    "apply_env \<Rightarrow> file_artifact list \<Rightarrow> bool \<Rightarrow> bool \<Rightarrow> apply_classification engine" where
  "classify_files e [] any_pre any_post = give (classification any_pre any_post)"
| "classify_files e (f # fs) any_pre any_post =
     asking (current_snapshot e (fa_path f)) (\<lambda>r. case r of
       Inl _ \<Rightarrow> give Divergent
     | Inr current \<Rightarrow>
         let is_pre = current = fa_pre f; is_post = current = fa_post f
         in if \<not> is_pre \<and> \<not> is_post then give Divergent
            else classify_files e fs (any_pre \<or> is_pre \<and> \<not> is_post) (any_post \<or> is_post \<and> \<not> is_pre))"

definition classify_manifest :: "apply_env \<Rightarrow> apply_manifest \<Rightarrow> apply_classification engine" where
  "classify_manifest e m = classify_files e (am_files m) False False"

section \<open>Writing files\<close>

definition make_parent :: "apply_env \<Rightarrow> place \<Rightarrow> fs_path \<Rightarrow> unit engine" where
  "make_parent e pl p =
     asking (os_stat e pl p) (\<lambda>r. case r of
       Inr node \<Rightarrow>
         if node \<noteq> FsDir then refuse (Says ''destination parent is not a directory'') else give ()
     | Inl IoNotFound \<Rightarrow> or_says (os_create_dir e pl p) (Says ''failed to create'')
     | Inl IoOther \<Rightarrow> refuse (Says ''failed to inspect''))"

fun create_parents :: "apply_env \<Rightarrow> place \<Rightarrow> fs_path \<Rightarrow> rstr list \<Rightarrow> unit engine" where
  "create_parents e pl dir [] = give ()"
| "create_parents e pl dir (n # ns) =
     then_do (make_parent e pl (dir @ [n])) (\<lambda>_. create_parents e pl (dir @ [n]) ns)"

definition create_destination_parent :: "apply_env \<Rightarrow> fs_path \<Rightarrow> unit engine" where
  "create_destination_parent e parent = create_parents e (Worktree DestinationSide) [] parent"

definition write_destination_temp :: "apply_env \<Rightarrow> fs_path \<Rightarrow> bytes \<Rightarrow> u32 \<Rightarrow> unit engine" where
  "write_destination_temp e p bs mode =
     (let pl = Worktree DestinationSide
      in then_do (or_says (os_create_new e pl p) (Says ''failed to create destination temp file'')) (\<lambda>_.
         then_do (or_says (os_set_mode e pl p (and mode 511)) (Says ''failed to set destination mode'')) (\<lambda>_.
         then_do (or_says (os_write_all e pl p bs) (Says ''failed to persist destination temp file'')) (\<lambda>_.
           or_says (os_sync e pl) (Says ''failed to persist destination temp file'')))))"

text \<open>\<open>atomic_replace\<close> is \<open>rename\<close> outside Windows.\<close>

definition install_snapshot ::
    "apply_env \<Rightarrow> rstr \<Rightarrow> rstr \<Rightarrow> snapshot \<Rightarrow> bytes option \<Rightarrow> unit engine" where
  "install_snapshot e tid relative s payload =
     (let pl = Worktree DestinationSide; target = target_path relative; parent = butlast (normal_names relative)
      in then_do (checked (validate_relative_path relative)) (\<lambda>_.
         then_do (ensure_no_symlink_ancestors e pl relative) (\<lambda>_.
         case sn_kind s of
           Missing \<Rightarrow>
             asking (os_stat e pl target) (\<lambda>r. case r of
               Inl IoNotFound \<Rightarrow> give ()
             | Inl IoOther \<Rightarrow> refuse (Says ''failed to inspect'')
             | Inr node \<Rightarrow>
                 if is_regular node then or_says (os_remove_file e pl target) (Says ''failed to remove'')
                 else refuse (Says ''refusing to remove non-regular path''))
         | Regular \<Rightarrow>
             (case payload of
                None \<Rightarrow> refuse (Says ''regular delegation snapshot has no payload'')
              | Some bs \<Rightarrow>
                  if sha256_hex e bs \<noteq> sn_digest s \<or> len64 bs \<noteq> sn_bytes s
                  then refuse (Says ''delegation apply payload digest mismatch'')
                  else
                    then_do (create_destination_parent e parent) (\<lambda>_.
                    then_do (ensure_no_symlink_ancestors e pl relative) (\<lambda>_.
                    then_do (checked (destination_temp_path e tid relative)) (\<lambda>temp.
                    then_do (write_destination_temp e temp bs (sn_file_mode s)) (\<lambda>_.
                    then_do (or_says (os_rename e pl temp target) (Says ''failed to install'')) (\<lambda>_.
                      or_says (os_sync_dir e pl parent) (Says ''failed to sync artifact directory''))))))))))"

text \<open>A regular temporary file is removed when its content is one of the frozen snapshots.\<close>

definition discard_temp :: "apply_env \<Rightarrow> file_artifact \<Rightarrow> fs_path \<Rightarrow> u32 \<Rightarrow> nat \<Rightarrow> unit engine" where
  "discard_temp e f temp mode nlink =
     (let pl = Worktree DestinationSide
      in then_do (checked (ensure_single_link nlink)) (\<lambda>_.
         then_do (or_says (os_read e pl temp) (Says ''failed to read destination temp file'')) (\<lambda>bs.
           let s = regular_snapshot e bs (file_mode mode)
           in if s \<noteq> fa_pre f \<and> s \<noteq> fa_post f
              then refuse (Says ''destination temp file diverged from frozen snapshots'')
              else
                then_do (or_says (os_remove_file e pl temp)
                  (Says ''failed to remove known destination temp file'')) (\<lambda>_.
                or_says (os_sync_dir e pl (butlast temp)) (Says ''failed to sync artifact directory'')))))"

definition reconcile_temp :: "apply_env \<Rightarrow> rstr \<Rightarrow> file_artifact \<Rightarrow> unit engine" where
  "reconcile_temp e tid f =
     (let pl = Worktree DestinationSide
      in then_do (checked (validate_relative_path (fa_path f))) (\<lambda>_.
         then_do (ensure_no_symlink_ancestors e pl (fa_path f)) (\<lambda>_.
         then_do (checked (destination_temp_path e tid (fa_path f))) (\<lambda>temp.
         asking (os_stat e pl temp) (\<lambda>r. case r of
           Inl IoNotFound \<Rightarrow> give ()
         | Inl IoOther \<Rightarrow> refuse (Says ''failed to inspect destination temp file'')
         | Inr (FsFile _ mode nlink) \<Rightarrow> discard_temp e f temp mode nlink
         | Inr _ \<Rightarrow> refuse (Says ''destination temp file is not regular''))))))"

definition reconcile_destination_temporary_files ::
    "apply_env \<Rightarrow> rstr \<Rightarrow> apply_manifest \<Rightarrow> unit engine" where
  "reconcile_destination_temporary_files e tid m = each (reconcile_temp e tid) (am_files m)"

section \<open>The artifact directory\<close>

definition ensure_artifact_root :: "apply_env \<Rightarrow> unit engine" where
  "ensure_artifact_root e =
     then_do
       (asking (os_exists e Artifacts []) (\<lambda>there.
          if there then
            then_do (or_says (os_stat e Artifacts []) (Says '''')) (\<lambda>node.
              if node \<noteq> FsDir then refuse (Says ''delegation artifact root must be a real directory'')
              else give ())
          else or_says (os_create_dir_all e Artifacts) (Says ''failed to create artifact root'')))
       (\<lambda>_. or_says (os_protect_dir e Artifacts []) (Says ''failed to protect artifact directory''))"

definition create_private_dir :: "apply_env \<Rightarrow> fs_path \<Rightarrow> unit engine" where
  "create_private_dir e p =
     then_do (or_says (os_create_dir e Artifacts p) (Says ''failed to create artifact directory'')) (\<lambda>_.
       or_says (os_protect_dir e Artifacts p) (Says ''failed to protect artifact directory''))"

definition write_atomic_private :: "apply_env \<Rightarrow> fs_path \<Rightarrow> bytes \<Rightarrow> unit engine" where
  "write_atomic_private e p bs =
     then_do (\<lambda>w. (temporary_sibling e (aw_calls w) p, w)) (\<lambda>temp.
     then_do (or_says (os_create_new e Artifacts temp) (Says ''failed to create artifact temp file'')) (\<lambda>_.
     then_do (or_says (os_set_mode e Artifacts temp 384) (Says ''failed to protect artifact file'')) (\<lambda>_.
     then_do (or_says (os_write_all e Artifacts temp bs) (Says ''failed to persist artifact'')) (\<lambda>_.
     then_do (or_says (os_sync e Artifacts) (Says ''failed to persist artifact'')) (\<lambda>_.
     then_do (or_says (os_rename e Artifacts temp p) (Says ''failed to install artifact'')) (\<lambda>_.
       or_says (os_sync_dir e Artifacts (butlast p)) (Says ''failed to sync artifact directory'')))))))"

definition load_payload :: "apply_env \<Rightarrow> fs_path \<Rightarrow> rstr option \<Rightarrow> snapshot \<Rightarrow> bytes option engine" where
  "load_payload e dir relative s =
     (if sn_kind s = Missing then give None
      else case relative of
        None \<Rightarrow> refuse (Says ''regular delegation snapshot has no payload'')
      | Some r \<Rightarrow>
          then_do (or_says (os_read e Artifacts (dir @ split_on (\<lambda>c. c = 47) r))
            (Says ''failed to read artifact payload'')) (\<lambda>bs.
            if len64 bs \<noteq> sn_bytes s \<or> sha256_hex e bs \<noteq> sn_digest s
            then refuse (Says ''delegation artifact payload is corrupt'')
            else give (Some bs)))"

definition load_manifest :: "apply_env \<Rightarrow> rstr \<Rightarrow> rstr \<Rightarrow> (apply_manifest \<times> fs_path) engine" where
  "load_manifest e tid expected_manifest_digest =
     then_do (checked (validate_transaction_id e tid)) (\<lambda>_.
     then_do (ensure_artifact_root e) (\<lambda>_.
     then_do (checked (transaction_dir e tid)) (\<lambda>dir.
     then_do (or_says (os_read e Artifacts (dir @ [lit ''manifest.json'']))
       (Says ''failed to read delegation apply manifest'')) (\<lambda>bs.
     then_do (or_says (os_read e Artifacts (dir @ [lit ''manifest.sha256'']))
       (Says ''failed to read delegation manifest digest'')) (\<lambda>sidecar.
     then_do (checked (ok_or (from_utf8 sidecar) (Says ''failed to read delegation manifest digest'')))
       (\<lambda>expected.
       let expected' = trim expected_manifest_digest
       in if byte_len expected' \<noteq> 64 \<or> \<not> is_hex expected' \<or> trim expected \<noteq> sha256_hex e bs
            \<or> expected' \<noteq> sha256_hex e bs
          then refuse (Says ''delegation apply manifest digest mismatch'')
          else
            then_do (checked (ok_or (ae_parse e bs) (Says ''delegation apply manifest is corrupt''))) (\<lambda>m.
              if am_version m \<noteq> 1 \<or> am_transaction_id m \<noteq> tid
              then refuse (Says ''delegation apply manifest transaction mismatch'')
              else then_do (checked (validate_manifest e m)) (\<lambda>_. give (m, dir)))))))))"

section \<open>Preparing\<close>

definition write_payload :: "apply_env \<Rightarrow> fs_path \<Rightarrow> nat \<Rightarrow> bytes option \<Rightarrow> unit engine" where
  "write_payload e dir ordinal payload =
     (case payload of None \<Rightarrow> give ()
      | Some bs \<Rightarrow> write_atomic_private e (dir @ [payload_file ordinal]) bs)"

definition payload_ref :: "rstr \<Rightarrow> nat \<Rightarrow> bytes option \<Rightarrow> rstr option" where
  "payload_ref dir ordinal payload = map_option (\<lambda>_. dir @ [47] @ payload_file ordinal) payload"

definition payload_len :: "bytes option \<Rightarrow> u64" where
  "payload_len payload = (case payload of None \<Rightarrow> 0 | Some bs \<Rightarrow> len64 bs)"

fun freeze_files ::
    "apply_env \<Rightarrow> fs_path \<Rightarrow> nat \<Rightarrow> u64 \<Rightarrow> rstr list \<Rightarrow> (file_artifact list \<times> u64) engine" where
  "freeze_files e dir ordinal artifact_bytes [] = give ([], artifact_bytes)"
| "freeze_files e dir ordinal artifact_bytes (p # ps) =
     then_do (checked (validate_relative_path p)) (\<lambda>_.
     then_do (reject_submodule e SourceSide p) (\<lambda>_.
     then_do (capture_snapshot e (Worktree DestinationSide) p) (\<lambda>(pre, pre_bytes).
     then_do (capture_snapshot e (Worktree SourceSide) p) (\<lambda>(post, post_bytes).
     case Option.bind (checked_add artifact_bytes (payload_len pre_bytes))
            (\<lambda>v. checked_add v (payload_len post_bytes)) of
       None \<Rightarrow> refuse (Says ''delegation apply artifact size overflow'')
     | Some artifact_bytes' \<Rightarrow>
         if artifact_bytes' > MAX_ARTIFACT_BYTES
         then refuse (Says ''delegation apply exceeds the 512 MiB artifact limit'')
         else
           then_do (write_payload e (dir @ [lit ''pre'']) ordinal pre_bytes) (\<lambda>_.
           then_do (write_payload e (dir @ [lit ''post'']) ordinal post_bytes) (\<lambda>_.
           then_do (freeze_files e dir (Suc ordinal) artifact_bytes' ps) (\<lambda>(files, total).
             give (\<lparr>fa_path = p, fa_pre = pre, fa_post = post,
                    fa_pre_payload = payload_ref (lit ''pre'') ordinal pre_bytes,
                    fa_post_payload = payload_ref (lit ''post'') ordinal post_bytes\<rparr> # files, total))))))))"

definition freeze_manifest ::
    "apply_env \<Rightarrow> rstr \<Rightarrow> fs_path \<Rightarrow> apply_identity \<Rightarrow> apply_identity \<Rightarrow> rstr list \<Rightarrow> prepared_apply engine" where
  "freeze_manifest e tid dir source destination paths =
     then_do (freeze_files e dir 0 0 paths) (\<lambda>(files, artifact_bytes).
       let m = \<lparr>am_version = 1, am_transaction_id = tid, am_source = source,
                am_destination = destination, am_files = files\<rparr>;
           bs = ae_json e m;
           digest = sha256_hex e bs
       in then_do (write_atomic_private e (dir @ [lit ''manifest.json'']) bs) (\<lambda>_.
          then_do (write_atomic_private e (dir @ [lit ''manifest.sha256'']) (utf8 (digest @ [10]))) (\<lambda>_.
          then_do (or_says (os_sync_dir e Artifacts dir) (Says ''failed to sync artifact directory'')) (\<lambda>_.
            give \<lparr>pa_transaction_id = tid, pa_manifest_digest = digest, pa_file_count = length files,
                  pa_artifact_bytes = artifact_bytes, pa_changed_files = map fa_path files,
                  pa_source_identity = source, pa_destination_identity = destination\<rparr>))))"

text \<open>An error of the frozen part removes the directory of the transaction, as far as that succeeds.\<close>

definition discarding :: "apply_env \<Rightarrow> fs_path \<Rightarrow> 'a engine \<Rightarrow> 'a engine" where
  "discarding e dir m w =
     (case m w of (Inl er, w') \<Rightarrow> (Inl er, snd (os_remove_dir_all e Artifacts dir w')) | r \<Rightarrow> r)"

definition prepare_apply_artifacts :: "apply_env \<Rightarrow> rstr \<Rightarrow> prepared_apply engine" where
  "prepare_apply_artifacts e tid =
     then_do (checked (validate_transaction_id e tid)) (\<lambda>_.
     then_do (ensure_git_root e DestinationSide) (\<lambda>_.
     then_do (ensure_git_root e SourceSide) (\<lambda>_.
     then_do (ensure_artifact_root e) (\<lambda>_.
     then_do (inspect_identity e DestinationSide) (\<lambda>destination.
     then_do (inspect_identity e SourceSide) (\<lambda>source.
     then_do (ensure_clean_repository e DestinationSide) (\<lambda>_.
     then_do (ensure_no_operation_in_progress e DestinationSide) (\<lambda>_.
     then_do (ensure_no_operation_in_progress e SourceSide) (\<lambda>_.
       if ai_head destination \<noteq> ai_head source
       then refuse (Says ''destination and delegation HEAD differ from the same baseline'')
       else
         then_do (tracked_changed_paths e SourceSide) (\<lambda>tracked.
         then_do (untracked_paths e SourceSide) (\<lambda>untracked.
           let paths = remdups_adj (sort (tracked @ untracked))
           in then_do (checked (validate_case_distinct_paths e paths)) (\<lambda>_.
              if paths = [] then refuse (Says ''delegation worktree has no changes to apply'')
              else if length paths > MAX_ARTIFACT_FILES
              then refuse (Says ''delegation apply exceeds the 10000 file limit'')
              else
                then_do (ensure_no_untracked_collision e paths) (\<lambda>_.
                then_do (checked (transaction_dir e tid)) (\<lambda>dir.
                asking (os_exists e Artifacts dir) (\<lambda>there.
                  if there then refuse (Says ''delegation apply transaction already exists'')
                  else
                    then_do (create_private_dir e dir) (\<lambda>_.
                    then_do (create_private_dir e (dir @ [lit ''pre''])) (\<lambda>_.
                    then_do (create_private_dir e (dir @ [lit ''post''])) (\<lambda>_.
                      discarding e dir (freeze_manifest e tid dir source destination paths)))))))))))))))))))"

section \<open>Applying and rolling back\<close>

definition output_of :: "apply_manifest \<Rightarrow> apply_output" where
  "output_of m = \<lparr>ao_changed_files = map fa_path (am_files m), ao_artifact_bytes = manifest_artifact_bytes m\<rparr>"

definition install_post :: "apply_env \<Rightarrow> rstr \<Rightarrow> fs_path \<Rightarrow> file_artifact \<Rightarrow> unit engine" where
  "install_post e tid dir f =
     then_do (load_payload e dir (fa_post_payload f) (fa_post f)) (\<lambda>payload.
       install_snapshot e tid (fa_path f) (fa_post f) payload)"

definition apply_prepared_artifacts :: "apply_env \<Rightarrow> rstr \<Rightarrow> rstr \<Rightarrow> apply_output engine" where
  "apply_prepared_artifacts e tid expected_manifest_digest =
     then_do (load_manifest e tid expected_manifest_digest) (\<lambda>(m, dir).
     then_do (ensure_git_root e DestinationSide) (\<lambda>_.
     then_do (ensure_git_root e SourceSide) (\<lambda>_.
     then_do (ensure_no_operation_in_progress e DestinationSide) (\<lambda>_.
     then_do (ensure_no_operation_in_progress e SourceSide) (\<lambda>_.
     then_do (ensure_identity e DestinationSide (am_destination m)) (\<lambda>_.
     then_do (ensure_identity e SourceSide (am_source m)) (\<lambda>_.
     then_do (reconcile_destination_temporary_files e tid m) (\<lambda>_.
     then_do (ensure_identity e DestinationSide (am_destination m)) (\<lambda>_.
     then_do (ensure_clean_repository e DestinationSide) (\<lambda>_.
     then_do (classify_manifest e m) (\<lambda>c. case c of
       AllPost \<Rightarrow> give (output_of m)
     | MixedKnown \<Rightarrow> refuse (Says ''destination contains a partially applied delegation'')
     | Divergent \<Rightarrow> refuse (Says ''destination diverged from the frozen delegation artifact'')
     | AllPre \<Rightarrow>
         then_do (each (install_post e tid dir) (am_files m)) (\<lambda>_.
         then_do (ensure_identity e DestinationSide (am_destination m)) (\<lambda>_.
         then_do (classify_manifest e m) (\<lambda>after.
           if after \<noteq> AllPost then refuse (Says ''delegation apply did not produce the frozen postimage'')
           else give (output_of m)))))))))))))))"

definition classify_apply_artifacts :: "apply_env \<Rightarrow> rstr \<Rightarrow> rstr \<Rightarrow> apply_classification engine" where
  "classify_apply_artifacts e tid expected_manifest_digest =
     then_do (load_manifest e tid expected_manifest_digest) (\<lambda>(m, dir).
     then_do (ensure_git_root e DestinationSide) (\<lambda>_.
     then_do (ensure_no_operation_in_progress e DestinationSide) (\<lambda>_.
     then_do (ensure_identity e DestinationSide (am_destination m)) (\<lambda>_.
     then_do (reconcile_destination_temporary_files e tid m) (\<lambda>_.
     then_do (ensure_identity e DestinationSide (am_destination m)) (\<lambda>_.
       classify_manifest e m))))))"

fun survey :: "apply_env \<Rightarrow> file_artifact list \<Rightarrow> snapshot list engine" where
  "survey e [] = give []"
| "survey e (f # fs) =
     then_do (current_snapshot e (fa_path f)) (\<lambda>current.
       if current \<noteq> fa_pre f \<and> current \<noteq> fa_post f
       then refuse (Says ''refusing rollback because destination diverged'')
       else then_do (survey e fs) (\<lambda>states. give (current # states)))"

definition install_pre :: "apply_env \<Rightarrow> rstr \<Rightarrow> fs_path \<Rightarrow> file_artifact \<times> snapshot \<Rightarrow> unit engine" where
  "install_pre e tid dir = (\<lambda>(f, current).
     if current = fa_pre f then give ()
     else
       then_do (load_payload e dir (fa_pre_payload f) (fa_pre f)) (\<lambda>payload.
         install_snapshot e tid (fa_path f) (fa_pre f) payload))"

definition rollback_apply_artifacts :: "apply_env \<Rightarrow> rstr \<Rightarrow> rstr \<Rightarrow> unit engine" where
  "rollback_apply_artifacts e tid expected_manifest_digest =
     then_do (load_manifest e tid expected_manifest_digest) (\<lambda>(m, dir).
     then_do (ensure_git_root e DestinationSide) (\<lambda>_.
     then_do (ensure_no_operation_in_progress e DestinationSide) (\<lambda>_.
     then_do (ensure_identity e DestinationSide (am_destination m)) (\<lambda>_.
     then_do (reconcile_destination_temporary_files e tid m) (\<lambda>_.
     then_do (ensure_identity e DestinationSide (am_destination m)) (\<lambda>_.
     then_do (classify_manifest e m) (\<lambda>c.
       if c = Divergent then refuse (Says ''refusing rollback because destination diverged'')
       else if c = AllPre then give ()
       else
         then_do (survey e (am_files m)) (\<lambda>states.
         then_do (each (install_pre e tid dir) (zip (am_files m) states)) (\<lambda>_.
         then_do (ensure_identity e DestinationSide (am_destination m)) (\<lambda>_.
         then_do (classify_manifest e m) (\<lambda>after.
           if after \<noteq> AllPre
           then refuse (Says ''delegation rollback did not restore the frozen preimage'')
           else give ())))))))))))"

definition cleanup_apply_artifacts :: "apply_env \<Rightarrow> rstr \<Rightarrow> unit engine" where
  "cleanup_apply_artifacts e tid =
     then_do (checked (validate_transaction_id e tid)) (\<lambda>_.
     then_do (ensure_artifact_root e) (\<lambda>_.
     then_do (checked (transaction_dir e tid)) (\<lambda>dir.
     asking (os_exists e Artifacts dir) (\<lambda>there.
       if there then
         or_says (os_remove_dir_all e Artifacts dir) (Says ''failed to remove delegation apply artifacts'')
       else give ()))))"

section \<open>The lock of an operation\<close>

definition ensure_lock_directory :: "apply_env \<Rightarrow> fs_path \<Rightarrow> unit engine" where
  "ensure_lock_directory e p =
     (let protect = or_says (os_protect_dir e Artifacts p) (Says ''failed to protect artifact directory'')
      in asking (os_stat e Artifacts p) (\<lambda>r. case r of
           Inr node \<Rightarrow>
             if node \<noteq> FsDir
             then refuse (Says ''delegation operation lock directory must be a real directory'')
             else protect
         | Inl IoNotFound \<Rightarrow>
             then_do (or_says (os_create_dir e Artifacts p) (Says ''failed to create operation lock directory''))
               (\<lambda>_. protect)
         | Inl IoOther \<Rightarrow> refuse (Says ''failed to inspect operation lock directory'')))"

text \<open>\<open>File::try_lock\<close>: \<open>ae_lock_held\<close> says whether a live process holds the lock. The result tells whether
  the lock is now held by the caller; it goes with the process.\<close>

definition try_lock_apply_operation :: "apply_env \<Rightarrow> rstr \<Rightarrow> bool engine" where
  "try_lock_apply_operation e operation_id =
     (if operation_id = [] then refuse (Says ''delegation operation ID must not be empty'')
      else
        let path = [lit ''.locks'', sha256_hex e (utf8 operation_id)]
        in then_do (ensure_artifact_root e) (\<lambda>_.
           then_do (ensure_lock_directory e [lit ''.locks'']) (\<lambda>_.
           then_do (asking (os_stat e Artifacts path) (\<lambda>r. case r of
               Inr node \<Rightarrow>
                 if is_regular node then give () else refuse (Says ''delegation operation lock is not a regular file'')
             | Inl IoNotFound \<Rightarrow> give ()
             | Inl IoOther \<Rightarrow> refuse (Says ''failed to inspect delegation operation lock''))) (\<lambda>_.
           then_do (or_says (os_open e Artifacts path) (Says ''failed to open delegation operation lock'')) (\<lambda>_.
           then_do (or_says (os_set_mode e Artifacts path 384) (Says ''failed to protect artifact file'')) (\<lambda>_.
           then_do (or_says (os_sync e Artifacts) (Says ''failed to acquire delegation operation lock'')) (\<lambda>_.
             give (\<not> ae_lock_held e operation_id))))))))"

end
