(* ===== verification/Apply_Looks.thy ===== *)
theory Apply_Looks
  imports Apply_Artifacts
begin

text \<open>
  What the engine sees when it looks: a captured snapshot is the file in the tree, whatever calls fail,
  and once no call fails every plain file below plain directories is captured.
\<close>

section \<open>Trees\<close>

text \<open>Every entry is in a directory.\<close>

definition tree_ok :: "fs_tree \<Rightarrow> bool" where
  "tree_ok t \<longleftrightarrow> (\<forall>p n. t (p @ [n]) \<noteq> None \<longrightarrow> t p = Some FsDir)"

definition clear_way :: "fs_tree \<Rightarrow> fs_path \<Rightarrow> bool" where
  "clear_way t p \<longleftrightarrow> t [] = Some FsDir \<and> (\<forall>q. strict_prefix q p \<longrightarrow> t q = None \<or> t q = Some FsDir)"

text \<open>A path text that names an entry by plain components, as Git prints it.\<close>

definition plain_target :: "rstr \<Rightarrow> bool" where
  "plain_target s \<longleftrightarrow>
     0 \<notin> set s \<and> normal_names s \<noteq> [] \<and> components s = map Normal (normal_names s) \<and>
     target_path s = normal_names s"

definition node_snapshot :: "apply_env \<Rightarrow> fs_node option \<Rightarrow> snapshot option" where
  "node_snapshot e x =
     (case x of None \<Rightarrow> Some (missing_snapshot e)
      | Some (FsFile bs m l) \<Rightarrow> if l = 1 then Some (regular_snapshot e bs (file_mode m)) else None
      | _ \<Rightarrow> None)"

definition node_payload :: "fs_node option \<Rightarrow> bytes option" where
  "node_payload x = (case x of Some (FsFile bs _ _) \<Rightarrow> Some bs | _ \<Rightarrow> None)"

lemma node_snapshot_simps [simp]:
  "node_snapshot e None = Some (missing_snapshot e)"
  "node_snapshot e (Some (FsFile bs m 1)) = Some (regular_snapshot e bs (file_mode m))"
  "node_snapshot e (Some (FsFile bs m (Suc 0))) = Some (regular_snapshot e bs (file_mode m))"
  "node_snapshot e (Some FsDir) = None"
  "node_snapshot e (Some FsSymlink) = None"
  "node_snapshot e (Some FsSpecial) = None"
  by (simp_all add: node_snapshot_def)

lemma node_payload_simps [simp]:
  "node_payload None = None"
  "node_payload (Some (FsFile bs m l)) = Some bs"
  by (simp_all add: node_payload_def)

lemma node_snapshotE:
  assumes "node_snapshot e x = Some s"
  obtains (missing) "x = None" "s = missing_snapshot e"
    | (regular) bs m where "x = Some (FsFile bs m 1)" "s = regular_snapshot e bs (file_mode m)"
  using assms by (auto simp: node_snapshot_def split: option.splits fs_node.splits if_splits)

lemma snapshot_kind_simps [simp]:
  "sn_kind (missing_snapshot e) = Missing" "sn_kind (regular_snapshot e bs m) = Regular"
  by (simp_all add: missing_snapshot_def regular_snapshot_def)

lemma strict_prefix_snoc: "strict_prefix q (p @ [n]) \<longleftrightarrow> prefix q p"
  by (auto simp: strict_prefix_def)

lemma way_to_Clear: "way_to t dir ns = Clear \<longleftrightarrow> (\<forall>q. strict_prefix q ns \<longrightarrow> t (dir @ q) = Some FsDir)"
proof (induction ns arbitrary: dir)
  case (Cons n ns)
  have "(\<forall>q. strict_prefix q (n # ns) \<longrightarrow> t (dir @ q) = Some FsDir) \<longleftrightarrow>
    t dir = Some FsDir \<and> (\<forall>q. strict_prefix q ns \<longrightarrow> t ((dir @ [n]) @ q) = Some FsDir)"
  proof safe
    fix q assume all: "\<forall>q. strict_prefix q (n # ns) \<longrightarrow> t (dir @ q) = Some FsDir"
    show "t dir = Some FsDir" using all [rule_format, of "[]"] by simp
    show "t ((dir @ [n]) @ q) = Some FsDir" if "strict_prefix q ns"
      using all [rule_format, of "n # q"] that by simp
  next
    fix q assume "t dir = Some FsDir" "strict_prefix q (n # ns)"
      and "\<forall>q. strict_prefix q ns \<longrightarrow> t ((dir @ [n]) @ q) = Some FsDir"
    then show "t (dir @ q) = Some FsDir" by (cases q) auto
  qed
  then show ?case using Cons.IH [of "dir @ [n]"] by (auto split: option.splits fs_node.splits)
qed simp

lemma way_to_root: "way_to t [] (p @ [n]) = Clear \<longleftrightarrow> (\<forall>q. prefix q p \<longrightarrow> t q = Some FsDir)"
  by (simp add: way_to_Clear strict_prefix_snoc)

text \<open>Where the way is clear of anything but directories, it is clear or ends in nothing.\<close>

lemma way_to_clear_way:
  "\<forall>q. strict_prefix q ns \<longrightarrow> t (dir @ q) = None \<or> t (dir @ q) = Some FsDir \<Longrightarrow>
   way_to t dir ns = Clear \<or> way_to t dir ns = Gone \<and> (\<exists>q. strict_prefix q ns \<and> t (dir @ q) = None)"
proof (induction ns arbitrary: dir)
  case (Cons n ns)
  have "t dir = None \<or> t dir = Some FsDir" using Cons.prems [rule_format, of "[]"] by simp
  moreover have "\<forall>q. strict_prefix q ns \<longrightarrow> t ((dir @ [n]) @ q) = None \<or> t ((dir @ [n]) @ q) = Some FsDir"
    using Cons.prems [rule_format, of "n # _"] by simp
  note Cons.IH [OF this]
  ultimately show ?case by (auto intro: exI [of _ "[]"] exI [of _ "n # _"])
qed simp

lemma tree_ok_up: "tree_ok t \<Longrightarrow> t p \<noteq> None \<Longrightarrow> strict_prefix q p \<Longrightarrow> t q = Some FsDir"
proof (induction p rule: rev_induct)
  case (snoc n p)
  have "t p = Some FsDir" using snoc.prems(1,2) unfolding tree_ok_def by blast
  with snoc show ?case by (cases "q = p") (auto simp: strict_prefix_snoc strict_prefix_def)
qed simp

lemma tree_ok_down: "tree_ok t \<Longrightarrow> t q = None \<Longrightarrow> strict_prefix q p \<Longrightarrow> t p = None"
  using tree_ok_up [of t p q] by fastforce

lemma entry_plain: "p \<noteq> [] \<Longrightarrow> last p \<noteq> dot \<Longrightarrow> entry t p = t p"
  by (simp add: entry_def)

lemma tree_stat_clear:
  assumes "tree_ok t" and "clear_way t p" and "p = [] \<or> last p \<noteq> dot"
  shows "tree_stat beyond p t = found (t p)"
proof -
  have "way_to t [] p = Clear \<or> way_to t [] p = Gone \<and> (\<exists>q. strict_prefix q p \<and> t q = None)"
    using way_to_clear_way [of p t "[]"] assms(2) by (simp add: clear_way_def)
  then show ?thesis
    using tree_ok_down [OF assms(1), of _ p] assms(3) by (auto simp: tree_stat_def found_def entry_def)
qed

lemma found_simps [simp]: "found None = Inl IoNotFound" "found (Some n) = Inr n"
  and found_Inl: "found x = Inl er \<longleftrightarrow> x = None \<and> er = IoNotFound"
  and found_Inr: "found x = Inr n \<longleftrightarrow> x = Some n" "Inr n = found x \<longleftrightarrow> x = Some n"
  by (auto simp: found_def split: option.splits)

section \<open>Names\<close>

lemma map_filter_alt: "List.map_filter f xs = map (the \<circ> f) (filter (\<lambda>x. f x \<noteq> None) xs)"
  by (simp add: List.map_filter_def)

lemma normal_component: "Normal n \<in> set (components s) \<Longrightarrow> n \<noteq> [] \<and> n \<noteq> dot"
  by (auto simp: components_def Let_def map_filter_alt segment_component_def split: if_splits)

lemma normal_name_Some: "normal_name c = Some n \<longleftrightarrow> c = Normal n"
  by (cases c) auto

lemma normal_names_plain: "n \<in> set (normal_names s) \<Longrightarrow> n \<noteq> [] \<and> n \<noteq> dot"
  using normal_component [of n s] by (auto simp: normal_names_def map_filter_alt normal_name_Some)

lemma plain_target_last: "plain_target s \<Longrightarrow> last (normal_names s) \<noteq> dot"
  using normal_names_plain [of "last (normal_names s)" s] by (simp add: plain_target_def)

lemma plain_target_valid: "plain_target s \<Longrightarrow> validate_relative_path s = Inr ()"
proof -
  assume s: "plain_target s"
  then have c: "components s = map Normal (normal_names s)" by (simp add: plain_target_def)
  have "\<not> starts_with s [47]"
  proof
    assume "starts_with s [47]"
    then have "RootDir \<in> set (components s)" by (simp add: components_def Let_def)
    with c show False by auto
  qed
  moreover have "s \<noteq> []" using s by (auto simp: plain_target_def normal_names_def components_def dot_def
    map_filter_alt segment_component_def)
  ultimately show ?thesis using s c
    by (auto simp: plain_target_def validate_relative_path_def list_ex_iff list_all_iff neq_Nil_conv)
qed

section \<open>Single calls\<close>

lemma os_look_cases:
  assumes "os_look e pl f w = (r, w')"
  obtains (told) "r = f (aw_tree w pl)" "w' = counted w"
    | (failed) "r = Inl IoOther" "w' = counted w" "oe_fails e (aw_calls w)"
  using assms by (auto simp: os_look_def split: if_splits)

lemma os_look_healthy: "healthy e w \<Longrightarrow> os_look e pl f w = (f (aw_tree w pl), counted w)"
  by (simp add: os_look_def healthy_now)

lemma then_do_Inr:
  assumes "then_do m f w = (Inr y, w')"
  obtains x w1 where "m w = (Inr x, w1)" and "f x w1 = (Inr y, w')"
  using assms by (auto simp: then_do_def split: prod.splits sum.splits)

lemma then_do_eq: "m w = (Inr x, w1) \<Longrightarrow> then_do m f w = f x w1"
  by (simp add: then_do_def)

lemma or_says_Inr: "or_says m er w = (Inr x, w') \<longleftrightarrow> m w = (Inr x, w')"
  by (auto simp: or_says_def split: prod.splits sum.splits)

lemma checked_Inr: "checked r w = (Inr x, w') \<longleftrightarrow> r = Inr x \<and> w' = w"
  and give_Inr: "give y w = (Inr x, w') \<longleftrightarrow> x = y \<and> w' = w"
  and refuse_Inr: "refuse er w = (Inr x, w') \<longleftrightarrow> False"
  by (auto simp: checked_def give_def refuse_def)

lemmas act_Inr = or_says_Inr checked_Inr give_Inr refuse_Inr

lemma asking_eq: "m w = (r, w1) \<Longrightarrow> asking m k w = k r w1"
  by (simp add: asking_def)

section \<open>Capturing a file\<close>

lemma os_stat_cases:
  assumes "os_stat e pl p w = (r, w')"
  obtains (told) "r = tree_stat (oe_beyond e pl) p (aw_tree w pl)" "w' = counted w"
    | (failed) "r = Inl IoOther" "w' = counted w" "oe_fails e (aw_calls w)"
  using assms unfolding os_stat_def by (rule os_look_cases) auto

lemma os_stat_clear:
  assumes "os_stat e pl p w = (r, w')" and "r \<noteq> Inl IoOther"
    and "tree_ok (aw_tree w pl)" and "clear_way (aw_tree w pl) p" and "p = [] \<or> last p \<noteq> dot"
  shows "r = found (aw_tree w pl p) \<and> w' = counted w"
  using assms(1) by (rule os_stat_cases) (use assms(2) tree_stat_clear [OF assms(3-5)] in auto)

lemma os_stat_healthy:
  assumes "healthy e w" and "tree_ok (aw_tree w pl)" and "clear_way (aw_tree w pl) p" and "p = [] \<or> last p \<noteq> dot"
  shows "os_stat e pl p w = (found (aw_tree w pl p), counted w)"
  using tree_stat_clear [OF assms(2-4)] by (simp add: os_stat_def os_look_healthy [OF assms(1)])

lemma clear_way_root: "t [] = Some FsDir \<Longrightarrow> clear_way t []"
  by (simp add: clear_way_def)

lemma clear_way_prefix: "clear_way t p \<Longrightarrow> prefix q p \<Longrightarrow> clear_way t q"
  unfolding clear_way_def using prefix_order.less_le_trans by blast

lemma prefix_fork: "prefix q (p @ n # ns) \<Longrightarrow> prefix q p \<or> prefix (p @ [n]) q"
  using prefix_same_cases [of q "p @ n # ns" "p @ [n]"] by auto

lemma clear_way_snoc: "\<forall>q. prefix q p \<longrightarrow> t q = Some FsDir \<Longrightarrow> clear_way t (p @ [n])"
  by (auto simp: clear_way_def strict_prefix_snoc)

lemma quiet_check_ancestors [quiet_intros]: "quiet (check_ancestors e pl whole dir cs)"
proof (induction cs arbitrary: dir)
  case (Cons c cs)
  then show ?case
    by (auto simp: quiet_intros split: option.splits sum.splits io_error.splits intro!: quiet_asking)
qed (simp add: quiet_intros)

lemma check_ancestors_truthful:
  assumes "check_ancestors e pl (dir @ ns) dir (map Normal ns) w = (Inr (), w')"
    and "tree_ok (aw_tree w pl)" and "\<forall>q. prefix q dir \<longrightarrow> aw_tree w pl q = Some FsDir"
    and "\<forall>n \<in> set ns. n \<noteq> dot"
  shows "clear_way (aw_tree w pl) (dir @ ns) \<and> (ns \<noteq> [] \<longrightarrow> aw_tree w pl (dir @ ns) \<noteq> Some FsSymlink)"
  using assms
proof (induction ns arbitrary: dir w)
  case Nil
  then show ?case by (auto simp: clear_way_def strict_prefix_def)
next
  case (Cons n ns)
  let ?t = "aw_tree w pl"
  obtain r w1 where stat: "os_stat e pl (dir @ [n]) w = (r, w1)" by (cases "os_stat e pl (dir @ [n]) w")
  note run = Cons.prems(1) [simplified, unfolded asking_eq [of "os_stat e pl (dir @ [n])", OF stat]]
  have "r \<noteq> Inl IoOther" using run by (auto simp: refuse_def)
  from os_stat_clear [OF stat this Cons.prems(2) clear_way_snoc [OF Cons.prems(3)]] Cons.prems(4)
  have r: "r = found (?t (dir @ [n]))" and w1: "w1 = counted w" by auto
  show ?case
  proof (cases "?t (dir @ [n])")
    case None
    then have "?t q = None" if "strict_prefix (dir @ [n]) q" for q
      using tree_ok_down [OF Cons.prems(2) _ that] by simp
    moreover have "?t q = None \<or> ?t q = Some FsDir" if "strict_prefix q (dir @ n # ns)" for q
    proof (cases "prefix q dir")
      case False
      with that prefix_fork [of q dir n ns] have "prefix (dir @ [n]) q" by simp
      then show ?thesis using None calculation by (metis prefix_order.le_less)
    qed (use Cons.prems(3) in simp)
    ultimately show ?thesis using Cons.prems(3) None by (cases ns) (auto simp: clear_way_def strict_prefix_def)
  next
    case (Some node)
    with run r have node: "node \<noteq> FsSymlink" "node \<noteq> FsDir \<Longrightarrow> ns = []"
      and rest: "check_ancestors e pl (dir @ n # ns) (dir @ [n]) (map Normal ns) w1 = (Inr (), w')"
      by (auto simp: refuse_def split: if_splits)
    show ?thesis
    proof (cases "node = FsDir")
      case True
      then have "\<forall>q. prefix q (dir @ [n]) \<longrightarrow> aw_tree w1 pl q = Some FsDir"
        using Cons.prems(3) Some w1 by (auto simp: prefix_snoc)
      with Cons.IH [of "dir @ [n]" w1] rest Cons.prems(2,4) w1 Some True show ?thesis by (cases ns) auto
    next
      case False
      with node Some Cons.prems(3) show ?thesis by (simp add: clear_way_snoc)
    qed
  qed
qed

lemma check_ancestors_healthy:
  assumes "healthy e w" and "tree_ok (aw_tree w pl)" and "clear_way (aw_tree w pl) (dir @ ns)"
    and "aw_tree w pl (dir @ ns) \<noteq> Some FsSymlink" and "\<forall>n \<in> set ns. n \<noteq> dot"
  shows "fst (check_ancestors e pl (dir @ ns) dir (map Normal ns) w) = Inr ()"
  using assms
proof (induction ns arbitrary: dir w)
  case (Cons n ns)
  let ?t = "aw_tree w pl"
  have clear: "clear_way ?t (dir @ [n])"
    by (rule clear_way_prefix [OF Cons.prems(3)]) simp
  have stat: "os_stat e pl (dir @ [n]) w = (found (?t (dir @ [n])), counted w)"
    using os_stat_healthy [OF Cons.prems(1,2) clear] Cons.prems(5) by simp
  have node: "ns \<noteq> [] \<Longrightarrow> ?t (dir @ [n]) = None \<or> ?t (dir @ [n]) = Some FsDir"
    using Cons.prems(3) by (simp add: clear_way_def strict_prefix_def)
  have "fst (check_ancestors e pl (dir @ n # ns) (dir @ [n]) (map Normal ns) (counted w)) = Inr ()"
    using Cons.IH [of "counted w" "dir @ [n]"] Cons.prems by (simp add: healthy_counted)
  then show ?case using node Cons.prems(4)
    by (cases "?t (dir @ [n])"; cases ns) (auto simp: asking_def stat give_def)
qed (simp add: give_def)

text \<open>The checks of the ancestors of a plain target.\<close>

lemma quiet_ensure_no_symlink_ancestors [quiet_intros]: "quiet (ensure_no_symlink_ancestors e pl s)"
  unfolding ensure_no_symlink_ancestors_def
  by (intro quiet_intros) (simp add: quiet_intros)

lemma ancestors_truthful:
  assumes "ensure_no_symlink_ancestors e pl s w = (Inr u, w')" and "tree_ok (aw_tree w pl)" and "plain_target s"
  shows "clear_way (aw_tree w pl) (normal_names s) \<and> aw_tree w pl (normal_names s) \<noteq> Some FsSymlink"
proof -
  let ?t = "aw_tree w pl"
  from assms(1) obtain node w1 where stat: "os_stat e pl [] w = (Inr node, w1)" and "node = FsDir"
    and run: "check_ancestors e pl (normal_names s) [] (components s) w1 = (Inr u, w')"
    unfolding ensure_no_symlink_ancestors_def
    by (elim then_do_Inr) (auto simp: act_Inr split: if_splits)
  moreover have "w1 = counted w \<and> ?t [] = Some FsDir"
    using stat by (rule os_stat_cases) (use \<open>node = FsDir\<close> in \<open>auto simp: tree_stat_def entry_def found_Inr\<close>)
  moreover have "components s = map Normal (normal_names s)" "normal_names s \<noteq> []"
    using assms(3) by (auto simp: plain_target_def)
  ultimately show ?thesis
    using check_ancestors_truthful [of e pl "[]" "normal_names s" w1 w'] assms(2) normal_names_plain [of _ s]
    by simp
qed

lemma ancestors_healthy:
  assumes "healthy e w" and "tree_ok (aw_tree w pl)" and "plain_target s"
    and "clear_way (aw_tree w pl) (normal_names s)" and "aw_tree w pl (normal_names s) \<noteq> Some FsSymlink"
  shows "fst (ensure_no_symlink_ancestors e pl s w) = Inr ()"
proof -
  have root: "aw_tree w pl [] = Some FsDir" using assms(4) by (simp add: clear_way_def)
  have "os_stat e pl [] w = (Inr FsDir, counted w)"
    using os_stat_healthy [OF assms(1,2) clear_way_root [of "aw_tree w pl", OF root]] root by simp
  moreover have "fst (check_ancestors e pl (normal_names s) [] (map Normal (normal_names s)) (counted w)) = Inr ()"
    using check_ancestors_healthy [of e "counted w" pl "[]" "normal_names s"] assms normal_names_plain [of _ s]
    by (simp add: healthy_counted)
  ultimately show ?thesis
    using assms(3) by (simp add: ensure_no_symlink_ancestors_def then_do_def or_says_def plain_target_def)
qed

text \<open>A captured snapshot is the file that is there, whichever calls fail.\<close>

lemma quiet_capture [quiet_intros]: "quiet (capture_snapshot e pl s)"
  unfolding capture_snapshot_def
  by (auto intro!: quiet_then quiet_asking quiet_or_says quiet_intros split: sum.splits io_error.splits fs_node.splits)

lemma quiet_current [quiet_intros]: "quiet (current_snapshot e s)"
  unfolding current_snapshot_def by (auto intro!: quiet_intros split: prod.splits)

lemma tree_read_clear:
  assumes "tree_ok t" and "clear_way t p" and "p = [] \<or> last p \<noteq> dot" and "t p = Some (FsFile bs m l)"
  shows "tree_read beyond p t = Inr bs"
  using tree_stat_clear [OF assms(1-3), of beyond] assms(4) by (simp add: tree_read_def tree_follow_def)

lemma os_read_clear:
  assumes "os_read e pl p w = (Inr bs', w')" and "tree_ok (aw_tree w pl)" and "clear_way (aw_tree w pl) p"
    and "p = [] \<or> last p \<noteq> dot" and "aw_tree w pl p = Some (FsFile bs m l)"
  shows "bs' = bs"
  using assms(1) unfolding os_read_def
  by (rule os_look_cases) (use tree_read_clear [OF assms(2-5)] in auto)

lemma os_read_healthy:
  assumes "healthy e w" and "tree_ok (aw_tree w pl)" and "clear_way (aw_tree w pl) p"
    and "p = [] \<or> last p \<noteq> dot" and "aw_tree w pl p = Some (FsFile bs m l)"
  shows "os_read e pl p w = (Inr bs, counted w)"
  using tree_read_clear [OF assms(2-5)] by (simp add: os_read_def os_look_healthy [OF assms(1)])

lemma capture_truthful:
  assumes run: "capture_snapshot e pl s w = (Inr (snap, payload), w')"
    and ok: "tree_ok (aw_tree w pl)" and plain: "plain_target s"
  shows "clear_way (aw_tree w pl) (normal_names s) \<and>
    node_snapshot e (aw_tree w pl (normal_names s)) = Some snap \<and>
    node_payload (aw_tree w pl (normal_names s)) = payload"
proof -
  let ?t = "aw_tree w pl" and ?p = "normal_names s"
  have p: "target_path s = ?p" "?p = [] \<or> last ?p \<noteq> dot"
    using plain plain_target_last [OF plain] by (auto simp: plain_target_def)
  from run obtain w1 where ens: "ensure_no_symlink_ancestors e pl s w = (Inr (), w1)"
    and rest: "asking (os_stat e pl (target_path s)) (\<lambda>r. case r of
       Inl IoNotFound \<Rightarrow> give (missing_snapshot e, None)
     | Inl IoOther \<Rightarrow> refuse (Says ''failed to inspect'')
     | Inr (FsFile _ mode nlink) \<Rightarrow>
         then_do (checked (ensure_single_link nlink)) (\<lambda>_.
         then_do (or_says (os_read e pl (target_path s)) (Says ''failed to read'')) (\<lambda>bs.
           give (regular_snapshot e bs (file_mode mode), Some bs)))
     | Inr _ \<Rightarrow> refuse (Says ''delegation artifact path is not a regular file'')) w1 = (Inr (snap, payload), w')"
    unfolding capture_snapshot_def by (elim then_do_Inr) (auto simp: act_Inr)
  have t1: "aw_tree w1 = aw_tree w" using quietD [OF quiet_ensure_no_symlink_ancestors ens] by simp
  note clear = ancestors_truthful [OF ens ok plain, THEN conjunct1]
  obtain r w2 where stat: "os_stat e pl ?p w1 = (r, w2)" by (cases "os_stat e pl ?p w1")
  note rest = rest [unfolded p asking_eq [of "os_stat e pl ?p", OF stat]]
  have "r \<noteq> Inl IoOther" using rest by (auto simp: act_Inr)
  from os_stat_clear [OF stat this] ok clear t1 p have r: "r = found (?t ?p)" "w2 = counted w1" by auto
  show ?thesis
  proof (cases "?t ?p")
    case None
    with rest r clear show ?thesis by (simp add: act_Inr)
  next
    case (Some node)
    with rest r obtain bs m l where node: "node = FsFile bs m l" by (cases node) (auto simp: act_Inr)
    with rest r Some obtain bs' w3 where l: "l = 1"
      and read: "os_read e pl ?p w2 = (Inr bs', w3)" "snap = regular_snapshot e bs' (file_mode m)" "payload = Some bs'"
      by (auto elim!: then_do_Inr simp: act_Inr ensure_single_link_def)
    have "bs' = bs" using os_read_clear [OF read(1)] r(2) t1 ok clear p(2) Some node by auto
    with Some node l read clear show ?thesis by simp
  qed
qed

lemma capture_healthy:
  assumes "healthy e w" and ok: "tree_ok (aw_tree w pl)" and plain: "plain_target s"
    and clear: "clear_way (aw_tree w pl) (normal_names s)"
    and snap: "node_snapshot e (aw_tree w pl (normal_names s)) = Some snap"
  shows "fst (capture_snapshot e pl s w) = Inr (snap, node_payload (aw_tree w pl (normal_names s)))"
proof -
  let ?t = "aw_tree w pl" and ?p = "normal_names s"
  have p: "target_path s = ?p" "?p = [] \<or> last ?p \<noteq> dot"
    using plain plain_target_last [OF plain] by (auto simp: plain_target_def)
  have "?t ?p \<noteq> Some FsSymlink" using snap by auto
  from ancestors_healthy [OF assms(1) ok plain clear this] obtain w1
    where ens: "ensure_no_symlink_ancestors e pl s w = (Inr (), w1)"
    by (metis prod.collapse)
  note q = quietD [OF quiet_ensure_no_symlink_ancestors ens] quiet_healthy [OF quiet_ensure_no_symlink_ancestors ens assms(1)]
  have stat: "os_stat e pl ?p w1 = (found (?t ?p), counted w1)"
    using os_stat_healthy [OF q(2)] q(1) ok clear p by simp
  show ?thesis using snap
  proof (cases rule: node_snapshotE)
    case missing
    then show ?thesis
      by (simp add: capture_snapshot_def then_do_def checked_def plain_target_valid [OF plain] ens p asking_def stat
        give_def)
  next
    case (regular bs m)
    have "os_read e pl ?p (counted w1) = (Inr bs, counted (counted w1))"
      using os_read_healthy [OF healthy_counted [OF q(2)]] q(1) ok clear p regular by simp
    with regular show ?thesis
      by (simp add: capture_snapshot_def then_do_def checked_def plain_target_valid [OF plain] ens p asking_def stat
        give_def or_says_def ensure_single_link_def)
  qed
qed

end
