(* ===== verification/Apply_Trees.thy ===== *)
theory Apply_Trees
  imports Apply_Looks
begin

text \<open>
  The destination while files are installed: each target is in one of its two frozen states, at most
  one temporary file is left over, and nothing else changes but new directories above targets.
\<close>

section \<open>Calls that change a tree\<close>

lemma tree_okI: "(\<And>p n. t (p @ [n]) \<noteq> None \<Longrightarrow> t p = Some FsDir) \<Longrightarrow> tree_ok t"
  and tree_okD: "tree_ok t \<Longrightarrow> t (p @ [n]) \<noteq> None \<Longrightarrow> t p = Some FsDir"
  unfolding tree_ok_def by blast+

lemma tree_ok_child: "tree_ok t \<Longrightarrow> t p \<noteq> Some FsDir \<Longrightarrow> t (p @ [n]) = None"
  using tree_okD [of t p n] by blast

lemma tree_ok_add:
  assumes "tree_ok t" and "t p = Some FsDir" and "n = FsDir \<or> t (p @ [x]) \<noteq> Some FsDir"
  shows "tree_ok (t(p @ [x] \<mapsto> n))"
proof (rule tree_okI)
  fix q y assume some: "(t(p @ [x] \<mapsto> n)) (q @ [y]) \<noteq> None"
  show "(t(p @ [x] \<mapsto> n)) q = Some FsDir"
  proof (cases "q @ [y] = p @ [x]")
    case True
    then show ?thesis using assms(2) by simp
  next
    case False
    then have "(t(p @ [x] \<mapsto> n)) (q @ [y]) = t (q @ [y])" by (rule fun_upd_other)
    with some tree_okD [OF assms(1)] have "t q = Some FsDir" by simp
    with assms(3) show ?thesis by (cases "q = p @ [x]") auto
  qed
qed

lemma tree_ok_drop:
  assumes "tree_ok t" and "t p \<noteq> Some FsDir"
  shows "tree_ok (t(p := None))"
proof (rule tree_okI)
  fix q n assume "(t(p := None)) (q @ [n]) \<noteq> None"
  then have "t q = Some FsDir" using tree_okD [OF assms(1), of q n] by (simp split: if_splits)
  with assms(2) show "(t(p := None)) q = Some FsDir" by auto
qed

lemma tree_ok_change:
  assumes "tree_ok t" and "t p = Some n" and "n \<noteq> FsDir"
  shows "tree_ok (t(p \<mapsto> n'))"
proof (rule tree_okI)
  fix q m assume "(t(p \<mapsto> n')) (q @ [m]) \<noteq> None"
  then have "t q = Some FsDir" using tree_okD [OF assms(1), of q m] assms(2) by (cases "q @ [m] = p") auto
  with assms(2,3) show "(t(p \<mapsto> n')) q = Some FsDir" by auto
qed

lemma place_of_clear:
  assumes "\<forall>q. prefix q p \<longrightarrow> t q = Some FsDir" and "n \<noteq> dot"
  shows "place_of (p @ [n]) t = Inr (t (p @ [n]))"
  using assms way_to_root [of t p n] by (simp add: place_of_def entry_def)

lemma tree_create_clear:
  assumes "\<forall>q. prefix q p \<longrightarrow> t q = Some FsDir" and "n \<noteq> dot" and "t (p @ [n]) = None"
  shows "tree_create x (p @ [n]) t = Inr (t(p @ [n] \<mapsto> x))"
  using place_of_clear [OF assms(1,2)] assms(3) by (simp add: tree_create_def)

lemma tree_remove_clear:
  assumes "\<forall>q. prefix q p \<longrightarrow> t q = Some FsDir" and "n \<noteq> dot" and "t (p @ [n]) = Some x" and "x \<noteq> FsDir"
  shows "tree_remove (p @ [n]) t = Inr (t(p @ [n] := None))"
  using place_of_clear [OF assms(1,2)] assms(3,4) by (simp add: tree_remove_def)

lemma tree_rename_clear:
  assumes "\<forall>q. prefix q p \<longrightarrow> t q = Some FsDir" and "n \<noteq> dot" and "m \<noteq> dot"
    and "t (p @ [n]) = Some x" and "x \<noteq> FsDir" and "t (p @ [m]) \<noteq> Some FsDir"
  shows "tree_rename (p @ [n]) (p @ [m]) t = Inr (t(p @ [n] := None, p @ [m] \<mapsto> x))"
  using place_of_clear [OF assms(1,2)] place_of_clear [OF assms(1,3)] assms(4-6) by (simp add: tree_rename_def)

lemma tree_change_eq: "t p = Some n \<Longrightarrow> tree_change f p t = t(p \<mapsto> f n)"
  by (simp add: tree_change_def)

section \<open>Worlds seen from the destination\<close>

text \<open>
  \<open>at_dest e H T \<Phi>\<close>: the destination has \<open>\<Phi>\<close>, the other places are as in \<open>T\<close>, and under \<open>H\<close> no call
  fails from here on. \<open>failed_at\<close> is for errors, which cannot happen under \<open>H\<close>.
\<close>

abbreviation dest :: place where
  "dest \<equiv> Worktree DestinationSide"

definition at_dest :: "apply_env \<Rightarrow> bool \<Rightarrow> (place \<Rightarrow> fs_tree) \<Rightarrow> (fs_tree \<Rightarrow> bool) \<Rightarrow> apply_world \<Rightarrow> bool" where
  "at_dest e H T \<Phi> w \<longleftrightarrow>
     \<Phi> (aw_tree w dest) \<and> (\<forall>pl. pl \<noteq> dest \<longrightarrow> aw_tree w pl = T pl) \<and> (H \<longrightarrow> healthy e w)"

definition failed_at :: "bool \<Rightarrow> (place \<Rightarrow> fs_tree) \<Rightarrow> (fs_tree \<Rightarrow> bool) \<Rightarrow> apply_world \<Rightarrow> bool" where
  "failed_at H T \<Theta> w \<longleftrightarrow> \<not> H \<and> \<Theta> (aw_tree w dest) \<and> (\<forall>pl. pl \<noteq> dest \<longrightarrow> aw_tree w pl = T pl)"

lemma set_tree_simps [simp]:
  "aw_tree (set_tree pl t w) = (aw_tree w)(pl := t)" "aw_calls (set_tree pl t w) = aw_calls w"
  by (simp_all add: set_tree_def)

lemma healthy_set_tree [simp]: "healthy e (set_tree pl t w) = healthy e w"
  by (simp add: healthy_def)

lemma dest_change:
  assumes "\<And>t. \<Phi> t \<Longrightarrow> \<exists>t'. f t = Inr t' \<and> \<Psi> t'" and "\<And>t n. \<Phi> t \<Longrightarrow> \<Theta> (damage n t)"
  shows "triple (at_dest e H T \<Phi>) (or_says (os_change e dest damage f) er) (\<lambda>_. at_dest e H T \<Psi>)
    (failed_at H T \<Theta>)"
proof (rule tripleI)
  fix w assume w: "at_dest e H T \<Phi> w"
  then obtain t' where t': "f (aw_tree w dest) = Inr t'" "\<Psi> t'" using assms(1) by (auto simp: at_dest_def)
  show "failed_at H T \<Theta> w'" if "or_says (os_change e dest damage f) er w = (Inl er', w')" for er' w'
    using that w t' assms(2) by (auto simp: or_says_def os_change_def Let_def failed_at_def at_dest_def
      split: if_splits dest: healthy_now)
  show "at_dest e H T \<Psi> w'" if "or_says (os_change e dest damage f) er w = (Inr x, w')" for x w'
    using that w t' by (auto simp: or_says_def os_change_def Let_def at_dest_def healthy_counted
      split: if_splits)
qed

lemma dest_asking:
  assumes "\<And>t. \<Phi> t \<Longrightarrow> \<Theta> t"
    and "\<And>t. \<Phi> t \<Longrightarrow> f t \<noteq> Inl IoOther"
    and "\<And>r. r \<noteq> Inl IoOther \<Longrightarrow> triple (at_dest e H T (\<lambda>t. \<Phi> t \<and> f t = r)) (k r) Q E"
    and "\<And>w. failed_at H T \<Theta> w \<Longrightarrow> \<exists>er. k (Inl IoOther) w = (Inl er, w)"
    and "\<And>w. failed_at H T \<Theta> w \<Longrightarrow> E w"
  shows "triple (at_dest e H T \<Phi>) (asking (os_look e dest f) k) Q E"
proof (rule tripleI)
  fix w assume w: "at_dest e H T \<Phi> w"
  obtain r w1 where look: "os_look e dest f w = (r, w1)" by (cases "os_look e dest f w")
  have step: "asking (os_look e dest f) k w = k r w1" by (simp add: asking_def look)
  from look have "(r = f (aw_tree w dest) \<and> at_dest e H T (\<lambda>t. \<Phi> t \<and> f t = r) w1) \<or>
    (r = Inl IoOther \<and> failed_at H T \<Theta> w1)"
    by (rule os_look_cases) (use w assms(1) in \<open>auto simp: at_dest_def failed_at_def healthy_counted healthy_now\<close>)
  then consider (told) "r \<noteq> Inl IoOther" "at_dest e H T (\<lambda>t. \<Phi> t \<and> f t = r) w1"
    | (failed) "r = Inl IoOther" "failed_at H T \<Theta> w1"
    using assms(2) w by (auto simp: at_dest_def)
  note split = this
  show "E w'" if "asking (os_look e dest f) k w = (Inl er, w')" for er w'
    using split
  proof cases
    case told
    from triple_Inl [OF assms(3) [OF told(1)] told(2)] that step show ?thesis by simp
  next
    case failed
    with assms(4,5) [OF failed(2)] that step show ?thesis by auto
  qed
  show "Q x w'" if "asking (os_look e dest f) k w = (Inr x, w')" for x w'
    using split
  proof cases
    case told
    from triple_Inr [OF assms(3) [OF told(1)] told(2)] that step show ?thesis by simp
  next
    case failed
    with assms(4) [OF failed(2)] that step show ?thesis by auto
  qed
qed

lemma dest_look:
  assumes "\<And>t. \<Phi> t \<Longrightarrow> \<exists>x. f t = Inr x \<and> \<Psi> x t" and "\<And>t. \<Phi> t \<Longrightarrow> \<Theta> t"
  shows "triple (at_dest e H T \<Phi>) (or_says (os_look e dest f) er) (\<lambda>x. at_dest e H T (\<Psi> x))
    (failed_at H T \<Theta>)"
proof (rule tripleI)
  fix w assume w: "at_dest e H T \<Phi> w"
  then obtain x where x: "f (aw_tree w dest) = Inr x" "\<Psi> x (aw_tree w dest)" using assms(1) by (auto simp: at_dest_def)
  show "failed_at H T \<Theta> w'" if "or_says (os_look e dest f) er w = (Inl er', w')" for er' w'
    using that w x assms(2) by (auto simp: or_says_def os_look_def failed_at_def at_dest_def
      split: if_splits dest: healthy_now)
  show "at_dest e H T (\<Psi> y) w'" if "or_says (os_look e dest f) er w = (Inr y, w')" for y w'
    using that w x by (auto simp: or_says_def os_look_def at_dest_def healthy_counted split: if_splits)
qed

text \<open>A computation that only looks, succeeds when nothing fails, and tells what is there.\<close>

lemma dest_quiet:
  assumes "quiet m" and "\<And>w. at_dest e H T \<Phi> w \<Longrightarrow> healthy e w \<Longrightarrow> \<exists>x. fst (m w) = Inr x"
    and "\<And>w x w'. at_dest e H T \<Phi> w \<Longrightarrow> m w = (Inr x, w') \<Longrightarrow> \<Psi> x (aw_tree w dest)"
    and "\<And>t. \<Phi> t \<Longrightarrow> \<Theta> t"
  shows "triple (at_dest e H T \<Phi>) m (\<lambda>x. at_dest e H T (\<Psi> x)) (failed_at H T \<Theta>)"
proof (rule tripleI)
  fix w assume w: "at_dest e H T \<Phi> w"
  show "failed_at H T \<Theta> w'" if run: "m w = (Inl er, w')" for er w'
  proof -
    have "\<not> H" using assms(2) [OF w] run w by (auto simp: at_dest_def)
    with w assms(4) quietD [OF assms(1) run] show ?thesis by (auto simp: failed_at_def at_dest_def)
  qed
  show "at_dest e H T (\<Psi> x) w'" if run: "m w = (Inr x, w')" for x w'
    using assms(3) [OF w run] w quietD [OF assms(1) run] quiet_healthy [OF assms(1) run]
    by (auto simp: at_dest_def)
qed

lemma at_dest_vacuous: "(\<And>t. \<Phi> t \<Longrightarrow> False) \<Longrightarrow> triple (at_dest e H T \<Phi>) m Q E"
  by (auto simp: triple_def at_dest_def)

lemma at_dest_give: "(\<And>t. \<Phi> t \<Longrightarrow> \<Psi> x t) \<Longrightarrow> triple (at_dest e H T \<Phi>) (give x) (\<lambda>x. at_dest e H T (\<Psi> x)) E"
  by (rule triple_give) (simp add: at_dest_def)

lemma at_dest_weaken:
  "triple (at_dest e H T \<Phi>) m Q (failed_at H T \<Theta>) \<Longrightarrow> (\<And>t. \<Phi>' t \<Longrightarrow> \<Phi> t) \<Longrightarrow> (\<And>t. \<Theta> t \<Longrightarrow> \<Theta>' t) \<Longrightarrow>
   triple (at_dest e H T \<Phi>') m Q (failed_at H T \<Theta>')"
  by (erule triple_weaken) (auto simp: at_dest_def failed_at_def)

text \<open>Asking for an entry below plain directories, the way the engine does everywhere.\<close>

lemma dest_stat_or:
  assumes "\<And>t. \<Phi> t \<Longrightarrow> tree_ok t \<and> clear_way t p" and "p = [] \<or> last p \<noteq> dot" and "\<And>t. \<Phi> t \<Longrightarrow> \<Theta> t"
    and "triple (at_dest e H T (\<lambda>t. \<Phi> t \<and> t p = None)) gone Q E"
    and "\<And>n. triple (at_dest e H T (\<lambda>t. \<Phi> t \<and> t p = Some n)) (there n) Q E"
    and "\<And>w. failed_at H T \<Theta> w \<Longrightarrow> E w"
  shows "triple (at_dest e H T \<Phi>)
    (asking (os_stat e dest p) (\<lambda>r. case r of Inl IoNotFound \<Rightarrow> gone | Inl IoOther \<Rightarrow> refuse er | Inr n \<Rightarrow> there n))
    Q E"
  unfolding os_stat_def
proof (rule dest_asking [where \<Theta> = \<Theta>])
  have stat: "tree_stat (oe_beyond e dest) p t = found (t p)" if "\<Phi> t" for t
    using tree_stat_clear [of t p] assms(1) [OF that] assms(2) by blast
  show "tree_stat (oe_beyond e dest) p t \<noteq> Inl IoOther" if "\<Phi> t" for t
    using stat [OF that] by (simp add: found_Inl)
  fix r :: "io_error + fs_node" assume r: "r \<noteq> Inl IoOther"
  let ?P = "at_dest e H T (\<lambda>t. \<Phi> t \<and> tree_stat (oe_beyond e dest) p t = r)"
  show "triple ?P (case r of Inl IoNotFound \<Rightarrow> gone | Inl IoOther \<Rightarrow> refuse er | Inr n \<Rightarrow> there n) Q E"
  proof (cases r)
    case (Inl er)
    with r have "er = IoNotFound" by (cases er) auto
    with Inl have "triple ?P gone Q E"
      by (intro triple_weaken [OF assms(4)]) (auto simp: at_dest_def stat found_Inl)
    with Inl \<open>er = IoNotFound\<close> show ?thesis by simp
  next
    case (Inr n)
    then have "triple ?P (there n) Q E"
      by (intro triple_weaken [OF assms(5)]) (auto simp: at_dest_def stat found_Inr)
    with Inr show ?thesis by simp
  qed
qed (use assms(3,6) in \<open>auto simp: refuse_def\<close>)

lemma dest_stat:
  assumes "\<And>t. \<Phi> t \<Longrightarrow> tree_ok t \<and> clear_way t p" and "p = [] \<or> last p \<noteq> dot" and "\<And>t. \<Phi> t \<Longrightarrow> \<Theta> t"
    and "triple (at_dest e H T (\<lambda>t. \<Phi> t \<and> t p = None)) gone Q (failed_at H T \<Theta>)"
    and "\<And>n. triple (at_dest e H T (\<lambda>t. \<Phi> t \<and> t p = Some n)) (there n) Q (failed_at H T \<Theta>)"
  shows "triple (at_dest e H T \<Phi>)
    (asking (os_stat e dest p) (\<lambda>r. case r of Inl IoNotFound \<Rightarrow> gone | Inl IoOther \<Rightarrow> refuse er | Inr n \<Rightarrow> there n))
    Q (failed_at H T \<Theta>)"
  using assms by (rule dest_stat_or [where \<Theta> = \<Theta>]) assumption

end
