(* ===== verification/Apply_Installs.thy ===== *)
theory Apply_Installs
  imports Apply_Trees
begin

text \<open>
  Installing a snapshot: through the temporary file beside the target and a rename. Whichever calls fail,
  a target is never seen half written.
\<close>

section \<open>Targets and temporary files\<close>

definition target :: "file_artifact \<Rightarrow> fs_path" where
  "target f = normal_names (fa_path f)"

definition temp_of :: "apply_env \<Rightarrow> rstr \<Rightarrow> file_artifact \<Rightarrow> fs_path" where
  "temp_of e tid f =
     butlast (target f) @ [lit ''.'' @ last (target f) @ lit ''.dcc-tmp-'' @ tid @ lit ''-''
       @ take 16 (sha256_hex e (utf8 (fa_path f)))]"

text \<open>
  Targets are plain and apart: none is above another, and no temporary file is a target or above one.
\<close>

definition layout_ok :: "apply_env \<Rightarrow> rstr \<Rightarrow> file_artifact list \<Rightarrow> bool" where
  "layout_ok e tid files \<longleftrightarrow>
     ae_uuid e tid \<and> distinct (map target files) \<and>
     (\<forall>f \<in> set files. plain_target (fa_path f) \<and>
        (\<forall>g \<in> set files. \<not> strict_prefix (target f) (target g) \<and> \<not> prefix (temp_of e tid f) (target g)))"

text \<open>Each snapshot of a frozen file is one of a file, or of none.\<close>

definition frozen :: "apply_env \<Rightarrow> file_artifact \<Rightarrow> bool" where
  "frozen e f \<longleftrightarrow> (\<exists>x. node_snapshot e x = Some (fa_pre f)) \<and> (\<exists>x. node_snapshot e x = Some (fa_post f))"

definition only_targets ::
    "apply_env \<Rightarrow> rstr \<Rightarrow> file_artifact list \<Rightarrow> fs_tree \<Rightarrow> fs_tree \<Rightarrow> bool" where
  "only_targets e tid files t0 t \<longleftrightarrow>
     (\<forall>p. p \<notin> target ` set files \<longrightarrow> p \<notin> temp_of e tid ` set files \<longrightarrow>
        t p = t0 p \<or> t0 p = None \<and> t p = Some FsDir \<and> (\<exists>f \<in> set files. strict_prefix p (target f)))"

definition midway :: "apply_env \<Rightarrow> rstr \<Rightarrow> file_artifact list \<Rightarrow> fs_tree \<Rightarrow> fs_tree \<Rightarrow> bool" where
  "midway e tid files t0 t \<longleftrightarrow>
     tree_ok t \<and> only_targets e tid files t0 t \<and>
     (\<forall>f \<in> set files. node_snapshot e (t (target f)) = Some (fa_pre f) \<or>
        node_snapshot e (t (target f)) = Some (fa_post f))"

definition settled :: "apply_env \<Rightarrow> rstr \<Rightarrow> file_artifact list \<Rightarrow> fs_tree \<Rightarrow> fs_tree \<Rightarrow> bool" where
  "settled e tid files t0 t \<longleftrightarrow>
     midway e tid files t0 t \<and> (\<forall>f \<in> set files. t (temp_of e tid f) = None)"

text \<open>At most the temporary file of \<open>f\<close> is left over.\<close>

definition leftover :: "apply_env \<Rightarrow> rstr \<Rightarrow> file_artifact list \<Rightarrow> file_artifact \<Rightarrow> fs_tree \<Rightarrow> bool" where
  "leftover e tid files f t \<longleftrightarrow>
     (t (temp_of e tid f) = None \<or> (\<exists>bs m. t (temp_of e tid f) = Some (FsFile bs m 1))) \<and>
     (\<forall>g \<in> set files. temp_of e tid g \<noteq> temp_of e tid f \<longrightarrow> t (temp_of e tid g) = None)"

definition unsettled :: "apply_env \<Rightarrow> rstr \<Rightarrow> file_artifact list \<Rightarrow> fs_tree \<Rightarrow> fs_tree \<Rightarrow> bool" where
  "unsettled e tid files t0 t \<longleftrightarrow>
     midway e tid files t0 t \<and> (\<exists>f \<in> set files. leftover e tid files f t)"

lemma layout_okD:
  assumes "layout_ok e tid files" and "f \<in> set files"
  shows "ae_uuid e tid" and "plain_target (fa_path f)" and "target f \<noteq> []" and "last (target f) \<noteq> dot"
    and "target_path (fa_path f) = target f" and "normal_names (fa_path f) = target f"
    and "\<And>g. g \<in> set files \<Longrightarrow> \<not> strict_prefix (target f) (target g)"
    and "\<And>g. g \<in> set files \<Longrightarrow> \<not> prefix (temp_of e tid f) (target g)"
  using assms plain_target_last by (auto simp: layout_ok_def plain_target_def target_def)

lemma target_inject:
  "layout_ok e tid files \<Longrightarrow> f \<in> set files \<Longrightarrow> g \<in> set files \<Longrightarrow> target f = target g \<Longrightarrow> f = g"
  by (auto simp: layout_ok_def distinct_map dest: inj_onD)

lemma destination_temp_path_eq:
  assumes "ae_uuid e tid" and "plain_target (fa_path f)"
  shows "destination_temp_path e tid (fa_path f) = Inr (temp_of e tid f)"
proof -
  have "normal_names (fa_path f) \<noteq> []" using assms(2) by (simp add: plain_target_def)
  then obtain ns n where "normal_names (fa_path f) = ns @ [n]" by (cases "normal_names (fa_path f)" rule: rev_cases) auto
  then show ?thesis
    using assms plain_target_valid [OF assms(2)]
    by (simp add: destination_temp_path_def validate_transaction_id_def temp_of_def target_def)
qed

lemma temp_of_snoc:
  obtains n where "temp_of e tid f = butlast (target f) @ [n]" and "n \<noteq> dot"
  by (rule that [of "lit ''.'' @ last (target f) @ lit ''.dcc-tmp-'' @ tid @ lit ''-''
       @ take 16 (sha256_hex e (utf8 (fa_path f)))"]) (auto simp: temp_of_def dot_def lit_def)

lemma temp_of_simps: "temp_of e tid f \<noteq> []" "last (temp_of e tid f) \<noteq> dot" "butlast (temp_of e tid f) = butlast (target f)"
proof -
  obtain n where "temp_of e tid f = butlast (target f) @ [n]" "n \<noteq> dot" by (rule temp_of_snoc)
  then show "temp_of e tid f \<noteq> []" "last (temp_of e tid f) \<noteq> dot" "butlast (temp_of e tid f) = butlast (target f)" by simp_all
qed

lemma target_snoc: "target f \<noteq> [] \<Longrightarrow> target f = butlast (target f) @ [last (target f)]"
  by simp

lemma above_target: "target f \<noteq> [] \<Longrightarrow> prefix q (butlast (target f)) \<longleftrightarrow> strict_prefix q (target f)"
  by (subst (2) target_snoc) (simp_all add: strict_prefix_snoc del: append_butlast_last_id)

lemma above_temp: "target f \<noteq> [] \<Longrightarrow> strict_prefix q (temp_of e tid f) \<longleftrightarrow> strict_prefix q (target f)"
  using temp_of_snoc [of e tid f] by (metis above_target strict_prefix_snoc)

lemma temp_neq_target:
  "layout_ok e tid files \<Longrightarrow> f \<in> set files \<Longrightarrow> g \<in> set files \<Longrightarrow> temp_of e tid f \<noteq> target g"
  using layout_okD(8) [of e tid files f g] by auto

lemma above_not_temp:
  "layout_ok e tid files \<Longrightarrow> f \<in> set files \<Longrightarrow> strict_prefix p (target f) \<Longrightarrow> p \<notin> temp_of e tid ` set files"
  using layout_okD(8) [of e tid files _ f] by (auto simp: strict_prefix_def)

lemma above_not_target:
  "layout_ok e tid files \<Longrightarrow> f \<in> set files \<Longrightarrow> strict_prefix p (target f) \<Longrightarrow> p \<notin> target ` set files"
  using layout_okD(7) [of e tid files _ f] by auto

lemma midway_above:
  assumes "layout_ok e tid files" and "midway e tid files t0 t" and "f \<in> set files" and "strict_prefix p (target f)"
    and "clear_way t0 (target f)"
  shows "t p = None \<and> t0 p = None \<or> t p = Some FsDir"
  using assms above_not_temp [OF assms(1,3,4)] above_not_target [OF assms(1,3,4)]
  unfolding midway_def only_targets_def clear_way_def by metis

lemma midway_clear:
  assumes "layout_ok e tid files" and "midway e tid files t0 t" and "f \<in> set files" and "clear_way t0 (target f)"
  shows "clear_way t (target f)" and "clear_way t (temp_of e tid f)" and "t (target f) \<noteq> Some FsSymlink"
    and "t (target f) \<noteq> Some FsDir"
proof -
  have "strict_prefix [] (target f)" using layout_okD(3) [OF assms(1,3)] by (cases "target f") auto
  from midway_above [OF assms(1-3) this assms(4)] assms(4) have "t [] = Some FsDir" by (auto simp: clear_way_def)
  then show c: "clear_way t (target f)" using midway_above [OF assms(1-3) _ assms(4)] by (auto simp: clear_way_def)
  then show "clear_way t (temp_of e tid f)"
    by (simp add: clear_way_def above_temp [OF layout_okD(3) [OF assms(1,3)]])
  show "t (target f) \<noteq> Some FsSymlink" "t (target f) \<noteq> Some FsDir"
    using assms(2,3) by (auto simp: midway_def)
qed

lemma midway_known:
  "midway e tid files t0 t \<Longrightarrow> f \<in> set files \<Longrightarrow>
   node_snapshot e (t (target f)) = Some (fa_pre f) \<or> node_snapshot e (t (target f)) = Some (fa_post f)"
  by (simp add: midway_def)

section \<open>Single changes\<close>

lemma midway_mkdir:
  assumes "layout_ok e tid files" and "midway e tid files t0 t" and "f \<in> set files"
    and "strict_prefix (p @ [n]) (target f)" and "t (p @ [n]) = None" and "t p = Some FsDir"
  shows "midway e tid files t0 (t(p @ [n] \<mapsto> FsDir))"
proof -
  note away = above_not_target [OF assms(1,3,4)] above_not_temp [OF assms(1,3,4)]
  have "t0 (p @ [n]) = None" using assms(2,5) away unfolding midway_def only_targets_def by metis
  then have "only_targets e tid files t0 (t(p @ [n] \<mapsto> FsDir))"
    using assms(2,3,4) unfolding midway_def only_targets_def by auto
  moreover have "tree_ok (t(p @ [n] \<mapsto> FsDir))"
    using tree_ok_add [of t p FsDir n] assms(2,6) by (simp add: midway_def)
  moreover have "(t(p @ [n] \<mapsto> FsDir)) (target g) = t (target g)" if "g \<in> set files" for g
    using away(1) that by (metis fun_upd_other image_eqI)
  ultimately show ?thesis using assms(2) by (simp add: midway_def)
qed

lemma midway_temp:
  assumes "layout_ok e tid files" and "midway e tid files t0 t" and "f \<in> set files"
    and "tree_ok (t(temp_of e tid f := x))"
  shows "midway e tid files t0 (t(temp_of e tid f := x))"
  using assms temp_neq_target [OF assms(1,3), symmetric] unfolding midway_def only_targets_def by auto

lemma midway_target:
  assumes "layout_ok e tid files" and "midway e tid files t0 t" and "f \<in> set files"
    and "tree_ok (t(target f := x))"
    and "node_snapshot e x = Some (fa_pre f) \<or> node_snapshot e x = Some (fa_post f)"
  shows "midway e tid files t0 (t(target f := x))"
proof -
  have "node_snapshot e ((t(target f := x)) (target g)) = Some (fa_pre g) \<or>
      node_snapshot e ((t(target f := x)) (target g)) = Some (fa_post g)" if "g \<in> set files" for g
    using that assms(2,5) target_inject [OF assms(1) that assms(3)]
    by (cases "target g = target f") (auto simp: midway_def)
  moreover have "only_targets e tid files t0 (t(target f := x))"
    using assms(2,3) unfolding midway_def only_targets_def by auto
  ultimately show ?thesis using assms(4) by (simp add: midway_def)
qed

section \<open>Installing one snapshot\<close>

text \<open>While \<open>f\<close> is installed, the other targets stay as they are.\<close>

definition others_kept :: "file_artifact list \<Rightarrow> file_artifact \<Rightarrow> fs_tree \<Rightarrow> fs_tree \<Rightarrow> bool" where
  "others_kept files f v t \<longleftrightarrow> (\<forall>g \<in> set files. g \<noteq> f \<longrightarrow> t (target g) = v (target g))"

definition ready ::
    "apply_env \<Rightarrow> rstr \<Rightarrow> file_artifact list \<Rightarrow> fs_tree \<Rightarrow> file_artifact \<Rightarrow> fs_tree \<Rightarrow> fs_tree \<Rightarrow> bool" where
  "ready e tid files t0 f v t \<longleftrightarrow> settled e tid files t0 t \<and> others_kept files f v t"

definition dirs_there :: "fs_path \<Rightarrow> fs_tree \<Rightarrow> bool" where
  "dirs_there p t \<longleftrightarrow> (\<forall>q. prefix q p \<longrightarrow> t q = Some FsDir)"

text \<open>The temporary file of \<open>f\<close> is being written.\<close>

definition writing ::
    "apply_env \<Rightarrow> rstr \<Rightarrow> file_artifact list \<Rightarrow> fs_tree \<Rightarrow> file_artifact \<Rightarrow> fs_tree \<Rightarrow> fs_node \<Rightarrow> fs_tree \<Rightarrow> bool" where
  "writing e tid files t0 f v n t \<longleftrightarrow>
     midway e tid files t0 t \<and> others_kept files f v t \<and> dirs_there (butlast (target f)) t \<and>
     t (temp_of e tid f) = Some n \<and>
     (\<forall>g \<in> set files. temp_of e tid g \<noteq> temp_of e tid f \<longrightarrow> t (temp_of e tid g) = None)"

lemma settled_unsettled: "settled e tid files t0 t \<Longrightarrow> files \<noteq> [] \<Longrightarrow> unsettled e tid files t0 t"
  unfolding settled_def unsettled_def leftover_def by (cases files) auto

lemma writing_unsettled:
  "writing e tid files t0 f v (FsFile bs m 1) t \<Longrightarrow> f \<in> set files \<Longrightarrow> unsettled e tid files t0 t"
  unfolding writing_def unsettled_def leftover_def by blast

lemma dirs_there_snoc: "dirs_there (p @ [n]) t \<longleftrightarrow> dirs_there p t \<and> t (p @ [n]) = Some FsDir"
  by (auto simp: dirs_there_def prefix_snoc)

lemma others_kept_other:
  "others_kept files f v t \<Longrightarrow> (\<And>g. g \<in> set files \<Longrightarrow> g \<noteq> f \<Longrightarrow> p \<noteq> target g) \<Longrightarrow>
   others_kept files f v (t(p := x))"
  by (auto simp: others_kept_def)

lemma ready_mkdir:
  assumes "layout_ok e tid files" and "ready e tid files t0 f v t" and "f \<in> set files"
    and "strict_prefix (p @ [n]) (target f)" and "t (p @ [n]) = None" and "t p = Some FsDir"
  shows "ready e tid files t0 f v (t(p @ [n] \<mapsto> FsDir))"
proof -
  have "p @ [n] \<notin> target ` set files" by (rule above_not_target [OF assms(1,3,4)])
  then have "others_kept files f v (t(p @ [n] \<mapsto> FsDir))"
    using assms(2) by (intro others_kept_other) (auto simp: ready_def)
  moreover have "\<forall>g \<in> set files. (t(p @ [n] \<mapsto> FsDir)) (temp_of e tid g) = t (temp_of e tid g)"
    using above_not_temp [OF assms(1,3,4)] by (metis fun_upd_other image_eqI)
  moreover have "midway e tid files t0 (t(p @ [n] \<mapsto> FsDir))"
    using midway_mkdir [OF assms(1) _ assms(3-6)] assms(2) by (simp add: ready_def settled_def)
  ultimately show ?thesis using assms(2) by (simp add: ready_def settled_def)
qed

lemma make_parent_ready:
  assumes "layout_ok e tid files" and "f \<in> set files" and "clear_way t0 (target f)"
    and "\<And>t. ready e tid files t0 f v t \<Longrightarrow> \<Theta> t"
    and "strict_prefix (dir @ [n]) (target f)" and "n \<noteq> dot"
  shows "triple (at_dest e H T (\<lambda>t. ready e tid files t0 f v t \<and> dirs_there dir t)) (make_parent e dest (dir @ [n]))
    (\<lambda>_. at_dest e H T (\<lambda>t. ready e tid files t0 f v t \<and> dirs_there (dir @ [n]) t)) (failed_at H T \<Theta>)"
  unfolding make_parent_def
proof (rule dest_stat)
  let ?R = "\<lambda>t. ready e tid files t0 f v t \<and> dirs_there dir t"
  show "tree_ok t \<and> clear_way t (dir @ [n])" if "?R t" for t
    using that by (auto simp: ready_def settled_def midway_def dirs_there_def intro: clear_way_snoc)
  show "dir @ [n] = [] \<or> last (dir @ [n]) \<noteq> dot" using assms(6) by simp
  show "\<Theta> t" if "?R t" for t using that assms(4) by blast
  show "triple (at_dest e H T (\<lambda>t. ?R t \<and> t (dir @ [n]) = None))
    (or_says (os_create_dir e dest (dir @ [n])) (Says ''failed to create''))
    (\<lambda>_. at_dest e H T (\<lambda>t. ready e tid files t0 f v t \<and> dirs_there (dir @ [n]) t)) (failed_at H T \<Theta>)"
    unfolding os_create_dir_def
  proof (rule dest_change)
    fix t assume t: "?R t \<and> t (dir @ [n]) = None"
    then have rd: "ready e tid files t0 f v t" and none: "t (dir @ [n]) = None" and d: "t dir = Some FsDir"
      by (simp_all add: dirs_there_def)
    have "tree_create FsDir (dir @ [n]) t = Inr (t(dir @ [n] \<mapsto> FsDir))"
      using t assms(6) by (intro tree_create_clear) (auto simp: dirs_there_def)
    moreover have "ready e tid files t0 f v (t(dir @ [n] \<mapsto> FsDir))"
      by (rule ready_mkdir [OF assms(1) rd assms(2,5) none d])
    moreover have "dirs_there (dir @ [n]) (t(dir @ [n] \<mapsto> FsDir))"
      using t by (auto simp: dirs_there_def prefix_snoc)
    ultimately show "\<exists>t'. tree_create FsDir (dir @ [n]) t = Inr t' \<and>
      ready e tid files t0 f v t' \<and> dirs_there (dir @ [n]) t'" by blast
  qed (use assms(4) in \<open>auto simp: intact_def\<close>)
  fix node
  have "node = FsDir" if "?R t" "t (dir @ [n]) = Some node" for t
    using midway_above [OF assms(1) _ assms(2,5,3), of t] that by (auto simp: ready_def settled_def)
  then have dir: "triple (at_dest e H T (\<lambda>t. ?R t \<and> t (dir @ [n]) = Some node))
    (if node \<noteq> FsDir then refuse (Says ''destination parent is not a directory'') else m) Q E"
    if "triple (at_dest e H T (\<lambda>t. ?R t \<and> t (dir @ [n]) = Some FsDir)) m Q E" for m Q E
    using that by (cases "node = FsDir") (simp, intro at_dest_vacuous, blast)
  show "triple (at_dest e H T (\<lambda>t. ?R t \<and> t (dir @ [n]) = Some node))
    (if node \<noteq> FsDir then refuse (Says ''destination parent is not a directory'') else give ())
    (\<lambda>_. at_dest e H T (\<lambda>t. ready e tid files t0 f v t \<and> dirs_there (dir @ [n]) t)) (failed_at H T \<Theta>)"
    by (rule dir, rule at_dest_give) (simp add: dirs_there_snoc)
qed

lemma create_parents_ready:
  assumes "layout_ok e tid files" and "f \<in> set files" and "clear_way t0 (target f)"
    and "\<And>t. ready e tid files t0 f v t \<Longrightarrow> \<Theta> t"
    and "strict_prefix (dir @ ns) (target f)" and "\<forall>n \<in> set ns. n \<noteq> dot"
  shows "triple (at_dest e H T (\<lambda>t. ready e tid files t0 f v t \<and> dirs_there dir t)) (create_parents e dest dir ns)
    (\<lambda>_. at_dest e H T (\<lambda>t. ready e tid files t0 f v t \<and> dirs_there (dir @ ns) t)) (failed_at H T \<Theta>)"
  using assms(5,6)
proof (induction ns arbitrary: dir)
  case Nil
  then show ?case by (simp add: triple_give)
next
  case (Cons n ns)
  have "strict_prefix (dir @ [n]) (target f)"
    using Cons.prems(1) by (metis append.assoc append_Cons append_Nil prefixI prefix_order.le_less_trans)
  from triple_then [OF make_parent_ready [OF assms(1-4) this]] Cons.IH [of "dir @ [n]"] Cons.prems
  show ?case by simp
qed

lemma readyD:
  assumes "ready e tid files t0 f v t"
  shows "midway e tid files t0 t" and "tree_ok t" and "settled e tid files t0 t" and "others_kept files f v t"
    and "\<And>g. g \<in> set files \<Longrightarrow> t (temp_of e tid g) = None"
  using assms by (auto simp: ready_def settled_def midway_def)

lemma writingD:
  assumes "writing e tid files t0 f v n t"
  shows "midway e tid files t0 t" and "tree_ok t" and "others_kept files f v t"
    and "dirs_there (butlast (target f)) t" and "t (temp_of e tid f) = Some n"
    and "\<And>g. g \<in> set files \<Longrightarrow> temp_of e tid g \<noteq> temp_of e tid f \<Longrightarrow> t (temp_of e tid g) = None"
  using assms by (auto simp: writing_def midway_def)

lemma dirs_there_other: "dirs_there p t \<Longrightarrow> \<not> prefix q p \<Longrightarrow> dirs_there p (t(q := x))"
  by (auto simp: dirs_there_def)

lemma temp_not_above:
  assumes "layout_ok e tid files" and "f \<in> set files" and "g \<in> set files"
  shows "\<not> prefix (temp_of e tid f) (butlast (target g))"
proof
  assume "prefix (temp_of e tid f) (butlast (target g))"
  then have "strict_prefix (temp_of e tid f) (target g)" using above_target layout_okD(3) [OF assms(1,3)] by blast
  with layout_okD(8) [OF assms] show False by (simp add: strict_prefix_def)
qed

lemma others_kept_temp:
  "layout_ok e tid files \<Longrightarrow> f \<in> set files \<Longrightarrow> others_kept files g v t \<Longrightarrow> others_kept files g v (t(temp_of e tid f := x))"
  by (rule others_kept_other) (auto dest: temp_neq_target)

lemma writing_put:
  assumes "layout_ok e tid files" and "f \<in> set files" and "midway e tid files t0 t" and "others_kept files f v t"
    and "dirs_there (butlast (target f)) t" and "tree_ok (t(temp_of e tid f \<mapsto> n))"
    and "\<And>g. g \<in> set files \<Longrightarrow> temp_of e tid g \<noteq> temp_of e tid f \<Longrightarrow> t (temp_of e tid g) = None"
  shows "writing e tid files t0 f v n (t(temp_of e tid f \<mapsto> n))"
  using assms midway_temp [OF assms(1,3,2,6)] others_kept_temp [OF assms(1,2,4)]
    dirs_there_other [OF assms(5) temp_not_above [OF assms(1,2,2)]]
  by (auto simp: writing_def)

lemma writing_start:
  assumes "layout_ok e tid files" and "f \<in> set files" and "ready e tid files t0 f v t"
    and "dirs_there (butlast (target f)) t"
  shows "\<exists>t'. tree_create (FsFile b m l) (temp_of e tid f) t = Inr t' \<and> writing e tid files t0 f v (FsFile b m l) t'"
proof -
  note r = readyD [OF assms(3)]
  obtain n where n: "temp_of e tid f = butlast (target f) @ [n]" "n \<noteq> dot" by (rule temp_of_snoc)
  have none: "t (temp_of e tid f) = None" by (rule r(5) [OF assms(2)])
  have "tree_create (FsFile b m l) (temp_of e tid f) t = Inr (t(temp_of e tid f \<mapsto> FsFile b m l))"
    using tree_create_clear [of "butlast (target f)" t n] assms(4) n none by (simp add: dirs_there_def)
  moreover have "tree_ok (t(temp_of e tid f \<mapsto> FsFile b m l))"
    using tree_ok_add [OF r(2), of "butlast (target f)" "FsFile b m l" n] assms(4) n none by (simp add: dirs_there_def)
  then have "writing e tid files t0 f v (FsFile b m l) (t(temp_of e tid f \<mapsto> FsFile b m l))"
    using r assms by (intro writing_put) auto
  ultimately show ?thesis by blast
qed

lemma writing_change:
  assumes "layout_ok e tid files" and "f \<in> set files" and "writing e tid files t0 f v n t" and "n \<noteq> FsDir"
  shows "writing e tid files t0 f v (g n) (tree_change g (temp_of e tid f) t)"
proof -
  note w = writingD [OF assms(3)]
  have "tree_ok (t(temp_of e tid f \<mapsto> g n))" by (rule tree_ok_change [OF w(2,5) assms(4)])
  moreover have "tree_change g (temp_of e tid f) t = t(temp_of e tid f \<mapsto> g n)"
    by (rule tree_change_eq) (rule w(5))
  ultimately show ?thesis using w assms by (auto intro: writing_put)
qed

lemma writing_finish:
  assumes "layout_ok e tid files" and "f \<in> set files" and "writing e tid files t0 f v (FsFile bs m 1) t"
    and "clear_way t0 (target f)"
    and "node_snapshot e (Some (FsFile bs m 1)) = Some s" and "s = fa_pre f \<or> s = fa_post f"
  shows "\<exists>t'. tree_rename (temp_of e tid f) (target f) t = Inr t' \<and> ready e tid files t0 f v t' \<and>
    dirs_there (butlast (target f)) t' \<and> node_snapshot e (t' (target f)) = Some s"
proof -
  note w = writingD [OF assms(3)]
  let ?p = "butlast (target f)" and ?t1 = "t(temp_of e tid f := None)" and ?x = "Some (FsFile bs m 1)"
  obtain n where n: "temp_of e tid f = ?p @ [n]" "n \<noteq> dot" by (rule temp_of_snoc)
  have tf: "target f = ?p @ [last (target f)]" "last (target f) \<noteq> dot"
    using layout_okD(3,4) [OF assms(1,2)] by auto
  have neq: "temp_of e tid f \<noteq> target f" by (rule temp_neq_target [OF assms(1,2,2)])
  have ndir: "t (target f) \<noteq> Some FsDir" by (rule midway_clear(4) [OF assms(1) w(1) assms(2,4)])
  have ren: "tree_rename (temp_of e tid f) (target f) t = Inr (?t1(target f := ?x))"
    using tree_rename_clear [of ?p t n "last (target f)" "FsFile bs m 1"] w(4,5) n tf ndir
    by (simp add: dirs_there_def)
  have ok1: "tree_ok ?t1" using tree_ok_drop [OF w(2), of "temp_of e tid f"] w(5) by simp
  have d1: "dirs_there ?p ?t1" by (rule dirs_there_other [OF w(4) temp_not_above [OF assms(1,2,2)]])
  have "tree_ok (?t1(?p @ [last (target f)] \<mapsto> FsFile bs m 1))"
    using d1 ndir tf(1) neq by (intro tree_ok_add [OF ok1]) (auto simp: dirs_there_def)
  then have ok2: "tree_ok (?t1(target f := ?x))" using tf(1) by simp
  have mid: "midway e tid files t0 (?t1(target f := ?x))"
    using midway_target [OF assms(1) midway_temp [OF assms(1) w(1) assms(2) ok1] assms(2) ok2] assms(5,6) by blast
  have temps: "(?t1(target f := ?x)) (temp_of e tid g) = None" if "g \<in> set files" for g
    using w(6) [OF that] temp_neq_target [OF assms(1) that assms(2)] by simp
  have "others_kept files f v (?t1(target f := ?x))"
    by (rule others_kept_other [OF others_kept_temp [OF assms(1,2) w(3)]])
      (use target_inject [OF assms(1,2)] in blast)
  moreover have "\<not> prefix (target f) ?p" using tf(1) by (metis prefix_order.leD prefix_snoc strict_prefix_def append_self_conv not_Cons_self2 prefix_order.antisym prefixI)
  then have "dirs_there ?p (?t1(target f := ?x))" by (rule dirs_there_other [OF d1])
  ultimately show ?thesis using ren mid temps assms(5) by (auto simp: ready_def settled_def)
qed

lemma write_temp:
  assumes "layout_ok e tid files" and "f \<in> set files"
  shows "triple (at_dest e H T (\<lambda>t. ready e tid files t0 f v t \<and> dirs_there (butlast (target f)) t))
    (write_destination_temp e (temp_of e tid f) bs mode)
    (\<lambda>_. at_dest e H T (writing e tid files t0 f v (FsFile bs (and mode 511) 1)))
    (failed_at H T (unsettled e tid files t0))"
proof -
  let ?W = "\<lambda>b m. writing e tid files t0 f v (FsFile b m 1)" and ?p = "temp_of e tid f"
  let ?E = "failed_at H T (unsettled e tid files t0)"
  have start: "ready e tid files t0 f v t \<Longrightarrow> unsettled e tid files t0 t" for t
    using settled_unsettled [of e tid files t0 t] assms(2) by (cases files) (auto simp: ready_def)
  have uns: "?W b m t \<Longrightarrow> unsettled e tid files t0 t" for b m t by (rule writing_unsettled [OF _ assms(2)])
  have ch: "?W b m t \<Longrightarrow> writing e tid files t0 f v (g (FsFile b m 1)) (tree_change g ?p t)" for b m g t
    using writing_change [OF assms] by blast
  have new: "triple (at_dest e H T (\<lambda>t. ready e tid files t0 f v t \<and> dirs_there (butlast (target f)) t))
    (or_says (os_create_new e dest ?p) (Says ''failed to create destination temp file''))
    (\<lambda>_. at_dest e H T (?W [] (oe_created_mode e))) ?E"
    unfolding os_create_new_def using writing_start [OF assms] start
    by (intro dest_change) (auto simp: intact_def)
  have mod: "triple (at_dest e H T (?W b m)) (or_says (os_set_mode e dest ?p m') er)
    (\<lambda>_. at_dest e H T (?W b m')) ?E" for b m m' er
    unfolding os_set_mode_def using ch [of b m _ "with_mode m'"] uns by (intro dest_change) (auto simp: intact_def)
  have wri: "triple (at_dest e H T (?W b m)) (or_says (os_write_all e dest ?p b') er)
    (\<lambda>_. at_dest e H T (?W b' m)) ?E" for b b' m er
    unfolding os_write_all_def using ch [of b m _ "with_bytes _"] uns by (intro dest_change) (auto, fastforce)
  have syn: "triple (at_dest e H T (?W b m)) (or_says (os_sync e dest) er)
    (\<lambda>_. at_dest e H T (?W b m)) ?E" for b m er
    unfolding os_sync_def using uns by (intro dest_look) auto
  show ?thesis
    unfolding write_destination_temp_def Let_def
    by (rule triple_then [OF new], rule triple_then [OF mod], rule triple_then [OF wri], rule syn)
qed

lemma ensure_kept:
  assumes "layout_ok e tid files" and "f \<in> set files" and "clear_way t0 (target f)"
    and "\<And>t. \<Phi> t \<Longrightarrow> midway e tid files t0 t" and "\<And>t. \<Phi> t \<Longrightarrow> \<Theta> t"
  shows "triple (at_dest e H T \<Phi>) (ensure_no_symlink_ancestors e dest (fa_path f)) (\<lambda>_. at_dest e H T \<Phi>)
    (failed_at H T \<Theta>)"
proof (rule dest_quiet)
  show "quiet (ensure_no_symlink_ancestors e dest (fa_path f))" by (rule quiet_ensure_no_symlink_ancestors)
  show "\<exists>x. fst (ensure_no_symlink_ancestors e dest (fa_path f) w) = Inr x"
    if w: "at_dest e H T \<Phi> w" "healthy e w" for w
  proof -
    have m: "midway e tid files t0 (aw_tree w dest)" using w(1) assms(4) by (simp add: at_dest_def)
    then have "tree_ok (aw_tree w dest)" by (simp add: midway_def)
    with ancestors_healthy [OF w(2), of dest "fa_path f"] midway_clear [OF assms(1) m assms(2,3)]
      layout_okD [OF assms(1,2)] show ?thesis by simp
  qed
qed (use assms(5) in \<open>auto simp: at_dest_def\<close>)

lemma current_known:
  assumes "layout_ok e tid files" and "f \<in> set files" and "clear_way t0 (target f)"
    and "\<And>t. \<Phi> t \<Longrightarrow> midway e tid files t0 t" and "\<And>t. \<Phi> t \<Longrightarrow> \<Theta> t"
  shows "triple (at_dest e H T \<Phi>) (current_snapshot e (fa_path f))
    (\<lambda>s. at_dest e H T (\<lambda>t. \<Phi> t \<and> node_snapshot e (t (target f)) = Some s)) (failed_at H T \<Theta>)"
proof (rule dest_quiet)
  note l = layout_okD [OF assms(1,2)]
  show "\<exists>x. fst (current_snapshot e (fa_path f) w) = Inr x" if w: "at_dest e H T \<Phi> w" "healthy e w" for w
  proof -
    have m: "midway e tid files t0 (aw_tree w dest)" using w(1) assms(4) by (simp add: at_dest_def)
    then obtain s where "node_snapshot e (aw_tree w dest (target f)) = Some s" and ok: "tree_ok (aw_tree w dest)"
      using assms(2) by (auto simp: midway_def)
    with capture_healthy [OF w(2) ok l(2)] midway_clear [OF assms(1) m assms(2,3)] l(6)
    show ?thesis by (auto simp: current_snapshot_def then_do_def give_def split: prod.splits sum.splits)
  qed
  show "\<Phi> (aw_tree w dest) \<and> node_snapshot e (aw_tree w dest (target f)) = Some s"
    if w: "at_dest e H T \<Phi> w" "current_snapshot e (fa_path f) w = (Inr s, w')" for w s w'
  proof -
    have "tree_ok (aw_tree w dest)" "\<Phi> (aw_tree w dest)" using w(1) assms(4) by (auto simp: at_dest_def midway_def)
    moreover obtain b w1 where "capture_snapshot e dest (fa_path f) w = (Inr (s, b), w1)"
      using w(2) unfolding current_snapshot_def by (elim then_do_Inr) (auto simp: give_Inr split: prod.splits)
    ultimately show ?thesis using capture_truthful [of e dest "fa_path f" w s b w1] l by simp
  qed
qed (use assms(5) quiet_current in auto)

lemma install_missing:
  assumes "layout_ok e tid files" and "f \<in> set files" and "clear_way t0 (target f)"
    and "s = fa_pre f \<or> s = fa_post f" and "s = missing_snapshot e"
  shows "triple (at_dest e H T (ready e tid files t0 f v))
    (asking (os_stat e dest (target f)) (\<lambda>r. case r of
       Inl IoNotFound \<Rightarrow> give ()
     | Inl IoOther \<Rightarrow> refuse (Says ''failed to inspect'')
     | Inr node \<Rightarrow>
         if is_regular node then or_says (os_remove_file e dest (target f)) (Says ''failed to remove'')
         else refuse (Says ''refusing to remove non-regular path'')))
    (\<lambda>_. at_dest e H T (\<lambda>t. ready e tid files t0 f v t \<and> node_snapshot e (t (target f)) = Some s))
    (failed_at H T (unsettled e tid files t0))"
proof (rule dest_stat)
  let ?R = "ready e tid files t0 f v"
  note l = layout_okD [OF assms(1,2)]
  have clear: "clear_way t (target f)" if "?R t" for t
    by (rule midway_clear(1) [OF assms(1) readyD(1) [OF that] assms(2,3)])
  show "tree_ok t \<and> clear_way t (target f)" if "?R t" for t using clear [OF that] readyD [OF that] by blast
  show uns: "unsettled e tid files t0 t" if "?R t" for t
    using settled_unsettled [of e tid files t0 t] assms(2) that by (cases files) (auto simp: ready_def)
  show "triple (at_dest e H T (\<lambda>t. ?R t \<and> t (target f) = None)) (give ())
    (\<lambda>_. at_dest e H T (\<lambda>t. ?R t \<and> node_snapshot e (t (target f)) = Some s))
    (failed_at H T (unsettled e tid files t0))"
    by (rule at_dest_give) (simp add: assms(5))
  fix node
  let ?P = "\<lambda>t. ?R t \<and> t (target f) = Some node"
  have removed: "\<exists>t'. tree_remove (target f) t = Inr t' \<and> ?R t' \<and> node_snapshot e (t' (target f)) = Some s"
    if t: "?P t" and node: "is_regular node" for t
  proof -
    have m: "midway e tid files t0 t" and ok: "tree_ok t" using t readyD by blast+
    have tf: "target f = butlast (target f) @ [last (target f)]" using l(3) by simp
    have nd: "node \<noteq> FsDir" using node by (cases node) auto
    have up: "\<forall>q. prefix q (butlast (target f)) \<longrightarrow> t q = Some FsDir"
      using tree_ok_up [OF ok, of "target f"] t above_target [OF l(3)] by auto
    have "tree_remove (target f) t = Inr (t(target f := None))"
      using tree_remove_clear [OF up l(4), of node] t nd tf by simp
    moreover have "midway e tid files t0 (t(target f := None))"
      using tree_ok_drop [OF ok, of "target f"] t nd assms(4,5)
      by (intro midway_target [OF assms(1) m assms(2)]) auto
    moreover have "others_kept files f v (t(target f := None))"
      using readyD(4) [of e tid files t0 f v t] t target_inject [OF assms(1,2)] by (intro others_kept_other) auto
    ultimately show ?thesis using t temp_neq_target [OF assms(1) _ assms(2)] assms(5)
      by (auto simp: ready_def settled_def)
  qed
  show "triple (at_dest e H T ?P)
    (if is_regular node then or_says (os_remove_file e dest (target f)) (Says ''failed to remove'')
         else refuse (Says ''refusing to remove non-regular path''))
    (\<lambda>_. at_dest e H T (\<lambda>t. ?R t \<and> node_snapshot e (t (target f)) = Some s))
    (failed_at H T (unsettled e tid files t0))"
  proof (cases "is_regular node")
    case True
    have "triple (at_dest e H T ?P) (or_says (os_remove_file e dest (target f)) (Says ''failed to remove''))
      (\<lambda>_. at_dest e H T (\<lambda>t. ?R t \<and> node_snapshot e (t (target f)) = Some s))
      (failed_at H T (unsettled e tid files t0))"
      unfolding os_remove_file_def using removed [OF _ True] uns by (intro dest_change) (auto simp: intact_def)
    with True show ?thesis by simp
  next
    case False
    then have "\<not> ?P t" for t
      using midway_known [OF readyD(1) assms(2), of e tid t0 f v t] by (cases node) auto
    then show ?thesis by (intro at_dest_vacuous) blast
  qed
qed (use layout_okD(4) [OF assms(1,2)] in blast)

lemma regular_of_payload:
  assumes "node_snapshot e x = Some s" and "sn_kind s = Regular"
    and "sha256_hex e bs = sn_digest s" and "len64 bs = sn_bytes s"
  shows "node_snapshot e (Some (FsFile bs (and (sn_file_mode s) 511) 1)) = Some s"
  using assms(1) assms(2-4)
  by (cases rule: node_snapshotE) (simp_all add: regular_snapshot_def file_mode_def and.assoc)

lemma missing_of_kind: "node_snapshot e x = Some s \<Longrightarrow> sn_kind s = Missing \<Longrightarrow> s = missing_snapshot e"
  by (erule node_snapshotE) auto

lemma install_ready:
  assumes "layout_ok e tid files" and "f \<in> set files" and "clear_way t0 (target f)"
    and "s = fa_pre f \<or> s = fa_post f" and "node_snapshot e x = Some s"
    and "sn_kind s = Regular \<Longrightarrow> \<exists>bs. payload = Some bs \<and> sha256_hex e bs = sn_digest s \<and> len64 bs = sn_bytes s"
  shows "triple (at_dest e H T (ready e tid files t0 f v)) (install_snapshot e tid (fa_path f) s payload)
    (\<lambda>_. at_dest e H T (\<lambda>t. ready e tid files t0 f v t \<and> node_snapshot e (t (target f)) = Some s))
    (failed_at H T (unsettled e tid files t0))"
proof -
  let ?R = "ready e tid files t0 f v" and ?E = "failed_at H T (unsettled e tid files t0)"
  let ?D = "\<lambda>t. ?R t \<and> dirs_there (butlast (target f)) t"
  note l = layout_okD [OF assms(1,2)]
  have uns: "?R t \<Longrightarrow> unsettled e tid files t0 t" for t
    using settled_unsettled [of e tid files t0 t] assms(2) by (cases files) (auto simp: ready_def)
  have ens: "triple (at_dest e H T \<Phi>) (ensure_no_symlink_ancestors e dest (fa_path f)) (\<lambda>_. at_dest e H T \<Phi>) ?E"
    if "\<And>t. \<Phi> t \<Longrightarrow> ?R t" for \<Phi>
    using that uns by (intro ensure_kept [OF assms(1-3)]) (auto dest: readyD)
  have start: "triple (at_dest e H T ?R) (checked (validate_relative_path (fa_path f))) (\<lambda>_. at_dest e H T ?R) ?E"
    using plain_target_valid [OF l(2)] by (intro triple_checked) auto
  show ?thesis
  proof (cases "sn_kind s")
    case Missing
    show ?thesis
      unfolding install_snapshot_def Let_def Missing l(5) snapshot_kind.case
      by (rule triple_then [OF start], rule triple_then [OF ens],
        assumption, rule install_missing [OF assms(1-4) missing_of_kind [OF assms(5) Missing]])
  next
    case Regular
    then obtain bs where bs: "payload = Some bs" "sha256_hex e bs = sn_digest s" "len64 bs = sn_bytes s"
      using assms(6) by blast
    then have bs_ok: "\<not> (sha256_hex e bs \<noteq> sn_digest s \<or> len64 bs \<noteq> sn_bytes s)" by simp
    let ?x = "FsFile bs (and (sn_file_mode s) 511) 1"
    have par: "triple (at_dest e H T ?R) (create_destination_parent e (butlast (target f))) (\<lambda>_. at_dest e H T ?D) ?E"
    proof -
      have "strict_prefix ([] @ butlast (target f)) (target f)"
        using above_target [OF l(3), of "butlast (target f)"] by simp
      moreover have "\<forall>n \<in> set (butlast (target f)). n \<noteq> dot"
        using normal_names_plain [of _ "fa_path f"] in_set_butlastD [of _ "target f"] l(6) by auto
      moreover have "dirs_there [] t" if "?R t" for t
        using midway_clear(1) [OF assms(1) readyD(1) [OF that] assms(2,3)] by (simp add: dirs_there_def clear_way_def)
      ultimately show ?thesis
        using create_parents_ready [OF assms(1-3), of v "unsettled e tid files t0" "[]" "butlast (target f)" H T] uns
        unfolding create_destination_parent_def
        by (auto intro: at_dest_weaken)
    qed
    have tmp: "triple (at_dest e H T ?D) (checked (destination_temp_path e tid (fa_path f)))
      (\<lambda>temp w. temp = temp_of e tid f \<and> at_dest e H T ?D w) ?E"
      using destination_temp_path_eq [OF l(1,2)] by (intro triple_checked) auto
    have ren: "triple (at_dest e H T (writing e tid files t0 f v ?x))
      (or_says (os_rename e dest (temp_of e tid f) (target f)) (Says ''failed to install''))
      (\<lambda>_. at_dest e H T (\<lambda>t. ?D t \<and> node_snapshot e (t (target f)) = Some s)) ?E"
      unfolding os_rename_def
      using writing_finish [OF assms(1,2) _ assms(3) regular_of_payload [OF assms(5) Regular bs(2,3)] assms(4)]
        writing_unsettled [OF _ assms(2)]
      by (intro dest_change) (auto simp: intact_def)
    have syn: "triple (at_dest e H T (\<lambda>t. ?D t \<and> node_snapshot e (t (target f)) = Some s))
      (or_says (os_sync_dir e dest (butlast (target f))) (Says ''failed to sync artifact directory''))
      (\<lambda>_. at_dest e H T (\<lambda>t. ?R t \<and> node_snapshot e (t (target f)) = Some s)) ?E"
      unfolding os_sync_dir_def
    proof (rule dest_look)
      fix t assume t: "?D t \<and> node_snapshot e (t (target f)) = Some s"
      then have "t (butlast (target f)) = Some FsDir" "clear_way t (butlast (target f))" "tree_ok t"
        using readyD [of e tid files t0 f v t] by (auto simp: dirs_there_def clear_way_def strict_prefix_def)
      moreover have "butlast (target f) = [] \<or> last (butlast (target f)) \<noteq> dot"
        using normal_names_plain [of "last (butlast (target f))" "fa_path f"] in_set_butlastD [of _ "target f"]
          l(6) last_in_set by metis
      ultimately show "\<exists>x. and_then (tree_follow (oe_beyond e dest) (butlast (target f)) t) (\<lambda>_. Inr ()) = Inr x \<and>
          ?R t \<and> node_snapshot e (t (target f)) = Some s"
        using t tree_stat_clear by (simp add: tree_follow_def)
    qed (use uns in blast)
    show ?thesis
      unfolding install_snapshot_def Let_def Regular l(5,6) snapshot_kind.case bs(1) option.case if_not_P [OF bs_ok]
      by (rule triple_then [OF start], rule triple_then [OF ens], assumption, rule triple_then [OF par],
        rule triple_then [OF ens], erule conjunct1, rule triple_then [OF tmp], rule triple_fact, hypsubst,
        rule triple_then [OF write_temp [OF assms(1,2)]], rule triple_then [OF ren], rule syn)
  qed
qed

end
