(* ===== verification/Apply_Runs.thy ===== *)
theory Apply_Runs
  imports Apply_Installs
begin

text \<open>
  The steps of applying and rolling back over a whole manifest: what a repository must answer, loading
  the manifest and its payloads, classifying the destination, removing what an earlier run left over,
  and installing every file.
\<close>

section \<open>Git\<close>

text \<open>
  The repository of a worktree is where the manifest was frozen: it answers with that identity and no
  operation is in progress, whatever files the worktree has.
\<close>

definition git_says :: "apply_env \<Rightarrow> git_side \<Rightarrow> rstr list \<Rightarrow> fs_tree \<Rightarrow> rstr \<Rightarrow> bool" where
  "git_says e side args t value \<longleftrightarrow>
     (\<exists>out s. ae_git e side args t = GitExit (Some 0) out \<and> from_utf8 out = Some s \<and> trim s = value)"

definition same_repository :: "apply_env \<Rightarrow> git_side \<Rightarrow> apply_identity \<Rightarrow> bool" where
  "same_repository e side i \<longleftrightarrow>
     ai_head i \<noteq> [] \<and> ai_index_tree i \<noteq> [] \<and>
     (\<forall>t. (\<exists>out. ae_git e side (map lit [''rev-parse'', ''--show-toplevel'']) t = GitExit (Some 0) out) \<and>
        git_says e side (map lit [''rev-parse'', ''HEAD'']) t (ai_head i) \<and>
        (case ai_branch i of
           None \<Rightarrow> \<exists>out. ae_git e side (map lit [''symbolic-ref'', ''--quiet'', ''--short'', ''HEAD'']) t = GitExit (Some 1) out
         | Some b \<Rightarrow> git_says e side (map lit [''symbolic-ref'', ''--quiet'', ''--short'', ''HEAD'']) t b) \<and>
        git_says e side (map lit [''write-tree'']) t (ai_index_tree i) \<and>
        (\<forall>marker \<in> set operation_markers. \<exists>path.
           git_says e side (map lit [''rev-parse'', ''--git-path''] @ [marker]) t path \<and> \<not> ae_marker e side path t))"

lemma same_repository_marker:
  "same_repository e side i \<Longrightarrow> marker \<in> set operation_markers \<Longrightarrow>
   \<exists>path. git_says e side (map lit [''rev-parse'', ''--git-path''] @ [marker]) t path \<and> \<not> ae_marker e side path t"
  unfolding same_repository_def by blast

lemma run_git_healthy: "healthy e w \<Longrightarrow> run_git e side args w = (ae_git e side args (aw_tree w (Worktree side)), counted w)"
  by (simp add: run_git_def healthy_now)

lemma quiet_run_git [quiet_intros]: "quiet (run_git e side args)"
  and quiet_marker [quiet_intros]: "quiet (marker_exists e side p)"
  by (simp_all add: quiet_def run_git_def marker_exists_def)

lemma quiet_git_output [quiet_intros]: "quiet (git_output e side args)"
  unfolding git_output_def by (auto intro!: quiet_intros split: git_answer.splits)

lemma quiet_git_stdout [quiet_intros]: "quiet (git_stdout e side args)"
  unfolding git_stdout_def by (auto intro!: quiet_intros split: option.splits)

lemma quiet_git_stdout_optional [quiet_intros]: "quiet (git_stdout_optional e side args)"
  unfolding git_stdout_optional_def by (auto intro!: quiet_intros split: git_answer.splits option.splits)

lemma quiet_identity [quiet_intros]: "quiet (inspect_identity e side)" "quiet (ensure_identity e side i)"
  unfolding inspect_identity_def ensure_identity_def by (auto intro!: quiet_intros)

lemma quiet_git_checks [quiet_intros]:
  "quiet (ensure_git_root e side)" "quiet (ensure_clean_repository e side)"
  "quiet (ensure_no_operation_in_progress e side)"
  unfolding ensure_git_root_def ensure_clean_repository_def ensure_no_operation_in_progress_def
  by (auto intro!: quiet_intros split: git_answer.splits)

lemma git_stdout_says:
  "healthy e w \<Longrightarrow> git_says e side args (aw_tree w (Worktree side)) value \<Longrightarrow>
   git_stdout e side args w = (Inr value, counted w)"
  by (auto simp: git_stdout_def git_output_def git_says_def then_do_def asking_def run_git_healthy give_def)

lemma identity_healthy:
  assumes "healthy e w" and "same_repository e side i"
  shows "inspect_identity e side w = (Inr i, counted (counted (counted w)))"
proof -
  let ?t = "aw_tree w (Worktree side)"
  have branch: "git_stdout_optional e side (map lit [''symbolic-ref'', ''--quiet'', ''--short'', ''HEAD'']) (counted w) =
    (Inr (ai_branch i), counted (counted w))"
    using assms(2) [unfolded same_repository_def, THEN conjunct2, THEN conjunct2, rule_format, of ?t]
    by (auto simp: git_stdout_optional_def git_says_def asking_def run_git_healthy [OF healthy_counted [OF assms(1)]]
      give_def split: option.splits)
  have "git_stdout e side (map lit [''rev-parse'', ''HEAD'']) w = (Inr (ai_head i), counted w)"
    and "git_stdout e side (map lit [''write-tree'']) (counted (counted w)) =
      (Inr (ai_index_tree i), counted (counted (counted w)))"
    using assms by (auto intro!: git_stdout_says healthy_counted simp: same_repository_def)
  with branch assms(2) show ?thesis
    by (simp add: inspect_identity_def then_do_def give_def same_repository_def)
qed

lemma git_checks_healthy:
  assumes "healthy e w" and "same_repository e side i"
  shows "fst (ensure_identity e side i w) = Inr ()"
    and "aw_tree w (Worktree side) [] = Some FsDir \<Longrightarrow> fst (ensure_git_root e side w) = Inr ()"
    and "fst (ensure_no_operation_in_progress e side w) = Inr ()"
proof -
  show "fst (ensure_identity e side i w) = Inr ()"
    by (simp add: ensure_identity_def then_do_def identity_healthy [OF assms] give_def)
  show "fst (ensure_git_root e side w) = Inr ()" if root: "aw_tree w (Worktree side) [] = Some FsDir"
  proof -
    obtain out where "ae_git e side (map lit [''rev-parse'', ''--show-toplevel'']) (aw_tree w (Worktree side)) =
        GitExit (Some 0) out"
      using assms(2) by (auto simp: same_repository_def)
    moreover have "os_stat e (Worktree side) [] w = (Inr FsDir, counted w)"
      using root by (simp add: os_stat_def os_look_healthy [OF assms(1)] tree_stat_def entry_def)
    ultimately show ?thesis
      by (simp add: ensure_git_root_def then_do_def or_says_def asking_def run_git_healthy [OF healthy_counted [OF assms(1)]]
        give_def)
  qed
  have "fst (each (\<lambda>marker.
       then_do (git_stdout e side (map lit [''rev-parse'', ''--git-path''] @ [marker])) (\<lambda>path.
       asking (marker_exists e side path) (\<lambda>there.
         if there then refuse (SaysOf ''Git operation is in progress'' marker) else give ()))) ms w) = Inr ()"
    if "set ms \<subseteq> set operation_markers" for ms
    using that assms(1)
  proof (induction ms arbitrary: w)
    case (Cons m ms)
    then obtain path where "git_says e side (map lit [''rev-parse'', ''--git-path''] @ [m]) (aw_tree w (Worktree side)) path"
      and none: "\<not> ae_marker e side path (aw_tree w (Worktree side))"
      using same_repository_marker [OF assms(2), of m] by auto blast
    from git_stdout_says [OF Cons.prems(2) this(1)] none Cons.IH [of "counted (counted w)"] Cons.prems
    show ?case by (simp add: then_do_def asking_def marker_exists_def give_def healthy_counted)
  qed (simp add: give_def)
  then show "fst (ensure_no_operation_in_progress e side w) = Inr ()"
    by (simp add: ensure_no_operation_in_progress_def)
qed

section \<open>The manifest and its payloads\<close>

text \<open>The directory of the transaction holds a manifest with the digest.\<close>

definition stored_manifest ::
    "apply_env \<Rightarrow> rstr \<Rightarrow> rstr \<Rightarrow> fs_tree \<Rightarrow> apply_manifest \<Rightarrow> fs_path \<Rightarrow> bool" where
  "stored_manifest e tid digest art m dir \<longleftrightarrow>
     ae_uuid e tid \<and> transaction_dir e tid = Inr dir \<and> art [] = Some FsDir \<and>
     (\<exists>bs sc s.
        tree_read (oe_beyond e Artifacts) (dir @ [lit ''manifest.json'']) art = Inr bs \<and>
        tree_read (oe_beyond e Artifacts) (dir @ [lit ''manifest.sha256'']) art = Inr sc \<and>
        from_utf8 sc = Some s \<and> trim s = sha256_hex e bs \<and>
        trim digest = sha256_hex e bs \<and> byte_len (trim digest) = 64 \<and> is_hex (trim digest) \<and>
        ae_parse e bs = Some m) \<and>
     am_version m = 1 \<and> am_transaction_id m = tid \<and> validate_manifest e m = Inr ()"

text \<open>The payload of a snapshot fits it, and is what the artifact directory holds.\<close>

definition payload_fits :: "apply_env \<Rightarrow> snapshot \<Rightarrow> bytes option \<Rightarrow> bool" where
  "payload_fits e s p \<longleftrightarrow>
     (sn_kind s = Regular \<longrightarrow> (\<exists>bs. p = Some bs \<and> sha256_hex e bs = sn_digest s \<and> len64 bs = sn_bytes s))"

definition stored_payload :: "apply_env \<Rightarrow> fs_tree \<Rightarrow> fs_path \<Rightarrow> rstr option \<Rightarrow> snapshot \<Rightarrow> bool" where
  "stored_payload e art dir ref s \<longleftrightarrow>
     (sn_kind s = Regular \<longrightarrow> (\<exists>r bs. ref = Some r \<and>
        tree_read (oe_beyond e Artifacts) (dir @ split_on (\<lambda>c. c = 47) r) art = Inr bs \<and>
        sha256_hex e bs = sn_digest s \<and> len64 bs = sn_bytes s))"

definition stored_payloads :: "apply_env \<Rightarrow> fs_tree \<Rightarrow> fs_path \<Rightarrow> file_artifact \<Rightarrow> bool" where
  "stored_payloads e art dir f \<longleftrightarrow>
     stored_payload e art dir (fa_pre_payload f) (fa_pre f) \<and>
     stored_payload e art dir (fa_post_payload f) (fa_post f)"

lemma quiet_load_payload [quiet_intros]: "quiet (load_payload e dir ref s)"
  unfolding load_payload_def by (auto intro!: quiet_intros split: option.splits)

lemma load_payload_fits: "load_payload e dir ref s w = (Inr p, w') \<Longrightarrow> payload_fits e s p"
  by (auto simp: load_payload_def payload_fits_def give_Inr refuse_Inr elim!: then_do_Inr split: if_splits option.splits)

lemma load_payload_healthy:
  assumes "healthy e w" and "stored_payload e (aw_tree w Artifacts) dir ref s"
  shows "\<exists>p. fst (load_payload e dir ref s w) = Inr p"
  using assms
  by (cases "sn_kind s") (auto simp: load_payload_def stored_payload_def give_def then_do_def or_says_def os_read_def
    os_look_healthy)

lemma load_payload_step:
  assumes "stored_payload e (T Artifacts) dir ref s" and "\<And>t. \<Phi> t \<Longrightarrow> \<Theta> t"
  shows "triple (at_dest e H T \<Phi>) (load_payload e dir ref s) (\<lambda>p w. payload_fits e s p \<and> at_dest e H T \<Phi> w)
    (failed_at H T \<Theta>)"
proof -
  have "triple (at_dest e H T \<Phi>) (load_payload e dir ref s) (\<lambda>p. at_dest e H T (\<lambda>t. payload_fits e s p \<and> \<Phi> t))
    (failed_at H T \<Theta>)"
    using assms load_payload_healthy load_payload_fits
    by (intro dest_quiet quiet_load_payload) (auto simp: at_dest_def)
  then show ?thesis by (rule triple_weaken) (auto simp: at_dest_def)
qed

text \<open>
  \<open>tells e T m x\<close>: in a world with the trees \<open>T\<close>, which stay, the result can only be \<open>x\<close>, and there is one
  when no call fails.
\<close>

definition tells :: "apply_env \<Rightarrow> (place \<Rightarrow> fs_tree) \<Rightarrow> 'a engine \<Rightarrow> 'a \<Rightarrow> bool" where
  "tells e T m x \<longleftrightarrow>
     (\<forall>w r w'. aw_tree w = T \<longrightarrow> m w = (r, w') \<longrightarrow>
        aw_tree w' = T \<and> aw_calls w \<le> aw_calls w' \<and> (r = Inr x \<or> (\<exists>er. r = Inl er) \<and> \<not> healthy e w))"

lemma tellsI:
  "(\<And>w r w'. aw_tree w = T \<Longrightarrow> m w = (r, w') \<Longrightarrow>
      aw_tree w' = T \<and> aw_calls w \<le> aw_calls w' \<and> (r = Inr x \<or> (\<exists>er. r = Inl er) \<and> \<not> healthy e w)) \<Longrightarrow> tells e T m x"
  unfolding tells_def by blast

lemma tellsD:
  "tells e T m x \<Longrightarrow> aw_tree w = T \<Longrightarrow> m w = (r, w') \<Longrightarrow>
   aw_tree w' = T \<and> aw_calls w \<le> aw_calls w' \<and> (r = Inr x \<or> (\<exists>er. r = Inl er) \<and> \<not> healthy e w)"
  unfolding tells_def by blast

lemma healthy_mono: "healthy e w \<Longrightarrow> aw_calls w \<le> aw_calls w' \<Longrightarrow> healthy e w'"
  by (simp add: healthy_def)

lemma tells_then:
  assumes "tells e T m y" and "tells e T (f y) x"
  shows "tells e T (then_do m f) x"
proof (rule tellsI)
  fix w r w' assume w: "aw_tree w = T" and run: "then_do m f w = (r, w')"
  obtain r1 w1 where m: "m w = (r1, w1)" by (cases "m w")
  note one = tellsD [OF assms(1) w m]
  show "aw_tree w' = T \<and> aw_calls w \<le> aw_calls w' \<and> (r = Inr x \<or> (\<exists>er. r = Inl er) \<and> \<not> healthy e w)"
  proof (cases r1)
    case (Inl er)
    with one m run show ?thesis by (auto simp: then_do_def)
  next
    case (Inr z)
    with one have z: "z = y" and w1: "aw_tree w1 = T" by auto
    have "f y w1 = (r, w')" using run m Inr z by (simp add: then_do_def)
    from tellsD [OF assms(2) w1 this] one show ?thesis using healthy_mono [of e w w1] by auto
  qed
qed

lemma tells_give: "tells e T (give x) x"
  and tells_checked: "r = Inr x \<Longrightarrow> tells e T (checked r) x"
  by (simp_all add: tells_def give_def checked_def)

lemma tells_look: "f (T pl) = Inr x \<Longrightarrow> tells e T (or_says (os_look e pl f) er) x"
  by (auto simp: tells_def or_says_def os_look_def healthy_def split: if_splits)

lemma tells_read: "tree_read (oe_beyond e pl) p (T pl) = Inr bs \<Longrightarrow> tells e T (or_says (os_read e pl p) er) bs"
  unfolding os_read_def by (rule tells_look)

lemma tells_artifact_root:
  assumes "T Artifacts [] = Some FsDir"
  shows "tells e T (ensure_artifact_root e) ()"
proof (rule tellsI)
  fix w r w' assume "aw_tree w = T" and "ensure_artifact_root e w = (r, w')"
  moreover have "(aw_tree w)(Artifacts := aw_tree w Artifacts) = aw_tree w" by simp
  ultimately show "aw_tree w' = T \<and> aw_calls w \<le> aw_calls w' \<and> (r = Inr () \<or> (\<exists>er. r = Inl er) \<and> \<not> healthy e w)"
    using assms
    by (auto simp: ensure_artifact_root_def then_do_def asking_def os_exists_def os_look_def or_says_def os_stat_def
      os_create_dir_all_def os_change_def tree_create_all_def os_protect_dir_def give_def refuse_def Let_def intact_def
      set_tree_def tree_follow_def tree_stat_def entry_def healthy_def split: if_splits
      intro: exI [of _ "Suc (aw_calls w)"] exI [of _ "Suc (Suc (aw_calls w))"])
qed

lemma load_manifest_tells:
  assumes "stored_manifest e tid digest (T Artifacts) m dir"
  shows "tells e T (load_manifest e tid digest) (m, dir)"
proof -
  obtain bs sc s where files: "tree_read (oe_beyond e Artifacts) (dir @ [lit ''manifest.json'']) (T Artifacts) = Inr bs"
      "tree_read (oe_beyond e Artifacts) (dir @ [lit ''manifest.sha256'']) (T Artifacts) = Inr sc"
      "from_utf8 sc = Some s" "trim s = sha256_hex e bs" "trim digest = sha256_hex e bs"
      "byte_len (trim digest) = 64" "is_hex (trim digest)" "ae_parse e bs = Some m"
    and m: "am_version m = 1" "am_transaction_id m = tid" "validate_manifest e m = Inr ()"
    and dir: "ae_uuid e tid" "transaction_dir e tid = Inr dir" "T Artifacts [] = Some FsDir"
    using assms unfolding stored_manifest_def by blast
  have last: "tells e T (checked (validate_manifest e m)) ()" "validate_transaction_id e tid = Inr ()"
    using m(3) dir(1) by (simp_all add: tells_checked validate_transaction_id_def)
  have "tells e T (let expected' = trim digest
       in if byte_len expected' \<noteq> 64 \<or> \<not> is_hex expected' \<or> trim s \<noteq> sha256_hex e bs \<or> expected' \<noteq> sha256_hex e bs
          then refuse (Says ''delegation apply manifest digest mismatch'')
          else
            then_do (checked (ok_or (ae_parse e bs) (Says ''delegation apply manifest is corrupt''))) (\<lambda>m.
              if am_version m \<noteq> 1 \<or> am_transaction_id m \<noteq> tid
              then refuse (Says ''delegation apply manifest transaction mismatch'')
              else then_do (checked (validate_manifest e m)) (\<lambda>_. give (m, dir)))) (m, dir)"
    using files(4-8) m last(1) by (simp add: Let_def) (intro tells_then tells_checked tells_give, auto intro: tells_then tells_give)
  then show ?thesis
    unfolding load_manifest_def using dir last(2) files(1-3)
    by (intro tells_then [OF tells_checked] tells_then [OF tells_artifact_root] tells_then [OF tells_read]) simp_all
qed

section \<open>Classification\<close>

definition pre_only :: "apply_env \<Rightarrow> fs_tree \<Rightarrow> file_artifact \<Rightarrow> bool" where
  "pre_only e t f \<longleftrightarrow> node_snapshot e (t (target f)) = Some (fa_pre f) \<and> fa_pre f \<noteq> fa_post f"

definition post_only :: "apply_env \<Rightarrow> fs_tree \<Rightarrow> file_artifact \<Rightarrow> bool" where
  "post_only e t f \<longleftrightarrow> node_snapshot e (t (target f)) = Some (fa_post f) \<and> fa_pre f \<noteq> fa_post f"

definition in_state :: "apply_env \<Rightarrow> fs_tree \<Rightarrow> file_artifact \<Rightarrow> bool" where
  "in_state e t f \<longleftrightarrow> clear_way t (target f) \<and>
     (node_snapshot e (t (target f)) = Some (fa_pre f) \<or> node_snapshot e (t (target f)) = Some (fa_post f))"

lemma quiet_classify [quiet_intros]: "quiet (classify_files e fs a b)" "quiet (classify_manifest e m)"
proof -
  show "quiet (classify_files e fs a b)" for fs a b
    by (induction fs arbitrary: a b) (auto intro!: quiet_intros split: sum.splits simp: Let_def)
  then show "quiet (classify_manifest e m)" by (simp add: classify_manifest_def)
qed

text \<open>A verdict other than divergence is about the files that are there, whichever calls fail.\<close>

lemma classify_truthful:
  assumes "classify_files e fs a b w = (Inr c, w')" and "c \<noteq> Divergent" and "tree_ok (aw_tree w dest)"
    and "\<forall>f \<in> set fs. plain_target (fa_path f)"
  shows "(\<forall>f \<in> set fs. in_state e (aw_tree w dest) f) \<and>
    c = classification (a \<or> (\<exists>f \<in> set fs. pre_only e (aw_tree w dest) f))
      (b \<or> (\<exists>f \<in> set fs. post_only e (aw_tree w dest) f))"
  using assms
proof (induction fs arbitrary: a b w)
  case (Cons f fs)
  let ?t = "aw_tree w dest"
  obtain r w1 where cur: "current_snapshot e (fa_path f) w = (r, w1)" by (cases "current_snapshot e (fa_path f) w")
  note run = Cons.prems(1) [simplified, unfolded asking_eq [of "current_snapshot e (fa_path f)", OF cur]]
  obtain s where s: "r = Inr s" using run Cons.prems(2) by (cases r) (auto simp: give_def)
  obtain p w2 where "capture_snapshot e dest (fa_path f) w = (Inr (s, p), w2)"
    using cur s unfolding current_snapshot_def by (auto elim!: then_do_Inr simp: give_Inr split: prod.splits)
  from capture_truthful [OF this] Cons.prems(3,4)
  have here: "clear_way ?t (target f)" "node_snapshot e (?t (target f)) = Some s" by (auto simp: target_def)
  have w1: "aw_tree w1 = aw_tree w" using quietD [OF quiet_current cur] by simp
  from run s Cons.prems(2) have known: "s = fa_pre f \<or> s = fa_post f"
    and rest: "classify_files e fs (a \<or> s = fa_pre f \<and> s \<noteq> fa_post f) (b \<or> s = fa_post f \<and> s \<noteq> fa_pre f) w1 = (Inr c, w')"
    by (auto simp: give_def Let_def split: if_splits)
  from Cons.IH [OF rest Cons.prems(2)] Cons.prems(3,4) w1
  have "(\<forall>f \<in> set fs. in_state e ?t f) \<and>
    c = classification ((a \<or> s = fa_pre f \<and> s \<noteq> fa_post f) \<or> (\<exists>f \<in> set fs. pre_only e ?t f))
      ((b \<or> s = fa_post f \<and> s \<noteq> fa_pre f) \<or> (\<exists>f \<in> set fs. post_only e ?t f))" by simp
  moreover have "pre_only e ?t f \<longleftrightarrow> s = fa_pre f \<and> s \<noteq> fa_post f" "post_only e ?t f \<longleftrightarrow> s = fa_post f \<and> s \<noteq> fa_pre f"
    using here known by (auto simp: pre_only_def post_only_def)
  moreover have "in_state e ?t f" using here known by (auto simp: in_state_def)
  ultimately show ?case by (simp add: disj_assoc)
qed (simp add: give_def)

lemma classify_returns: "\<exists>c. fst (classify_files e fs a b w) = Inr c"
  by (induction fs arbitrary: a b w) (auto simp: give_def asking_def Let_def split: prod.splits sum.splits)

lemma classify_healthy:
  assumes "layout_ok e tid files" and "\<forall>f \<in> set files. clear_way t0 (target f)"
    and "midway e tid files t0 (aw_tree w dest)" and "healthy e w" and "set fs \<subseteq> set files"
    and "classify_files e fs a b w = (Inr c, w')"
  shows "c \<noteq> Divergent"
  using assms(3-6)
proof (induction fs arbitrary: a b w)
  case Nil
  then show ?case by (cases a; cases b) (auto simp: give_def)
next
  case (Cons f fs)
  then have f: "f \<in> set files" by simp
  note l = layout_okD [OF assms(1) f]
  have clear: "clear_way (aw_tree w dest) (target f)" and ok: "tree_ok (aw_tree w dest)"
    using midway_clear(1) [OF assms(1) Cons.prems(1) f] assms(2) f Cons.prems(1) by (auto simp: midway_def)
  obtain s where s: "node_snapshot e (aw_tree w dest (target f)) = Some s" "s = fa_pre f \<or> s = fa_post f"
    using midway_known [OF Cons.prems(1) f] by auto
  obtain r w1 where cur: "current_snapshot e (fa_path f) w = (r, w1)" by (cases "current_snapshot e (fa_path f) w")
  have "fst (capture_snapshot e dest (fa_path f) w) = Inr (s, node_payload (aw_tree w dest (target f)))"
    using capture_healthy [OF Cons.prems(2) ok l(2), unfolded l(6), OF clear s(1)] .
  with cur have "r = Inr s" by (auto simp: current_snapshot_def then_do_def give_def split: prod.splits sum.splits)
  with Cons.prems(4) s(2) obtain a' b' where "classify_files e fs a' b' w1 = (Inr c, w')"
    by (auto simp: asking_def cur Let_def split: if_splits)
  moreover note quietD [OF quiet_current cur] quiet_healthy [OF quiet_current cur Cons.prems(2)]
  ultimately show ?case using Cons.IH [of w1 a' b'] Cons.prems(1,3) by simp
qed

end
