(* ===== verification/Apply_Leftovers.thy ===== *)
theory Apply_Leftovers
  imports Apply_Runs
begin

text \<open>
  What an interrupted application leaves behind: the temporary file of one target. The next run removes
  it when it is complete and otherwise leaves it alone and stops.
\<close>

section \<open>What an earlier run left over\<close>

text \<open>The temporary file of \<open>f\<close> is there and is neither of the frozen snapshots.\<close>

definition torn :: "apply_env \<Rightarrow> rstr \<Rightarrow> file_artifact \<Rightarrow> fs_tree \<Rightarrow> bool" where
  "torn e tid f t \<longleftrightarrow> t (temp_of e tid f) \<noteq> None \<and>
     node_snapshot e (t (temp_of e tid f)) \<noteq> Some (fa_pre f) \<and>
     node_snapshot e (t (temp_of e tid f)) \<noteq> Some (fa_post f)"

definition stuck ::
    "apply_env \<Rightarrow> bool \<Rightarrow> (place \<Rightarrow> fs_tree) \<Rightarrow> rstr \<Rightarrow> file_artifact list \<Rightarrow> fs_tree \<Rightarrow> apply_world \<Rightarrow> bool" where
  "stuck e H T tid files t0 w \<longleftrightarrow>
     failed_at H T (unsettled e tid files t0) w \<or>
     at_dest e H T (\<lambda>t. unsettled e tid files t0 t \<and> (\<exists>f \<in> set files. torn e tid f t)) w"

lemma triple_error: "triple P m Q E \<Longrightarrow> (\<And>w. E w \<Longrightarrow> E' w) \<Longrightarrow> triple P m Q E'"
  by (erule triple_weaken)

lemma unsettled_temp:
  assumes "unsettled e tid files t0 t" and "f \<in> set files" and "t (temp_of e tid f) = Some n"
  obtains bs m where "n = FsFile bs m 1"
    and "\<And>g. g \<in> set files \<Longrightarrow> temp_of e tid g \<noteq> temp_of e tid f \<Longrightarrow> t (temp_of e tid g) = None"
proof -
  obtain h where "h \<in> set files" "leftover e tid files h t" using assms(1) by (auto simp: unsettled_def)
  with assms(2,3) that show ?thesis by (auto simp: leftover_def) (metis option.distinct(1) option.inject)
qed

lemma remove_temp:
  assumes "layout_ok e tid files" and "f \<in> set files" and "unsettled e tid files t0 t"
    and "t (temp_of e tid f) = Some (FsFile bs m 1)"
  shows "\<exists>t'. tree_remove (temp_of e tid f) t = Inr t' \<and> settled e tid files t0 t' \<and>
    t' (butlast (temp_of e tid f)) = Some FsDir"
proof -
  have mid: "midway e tid files t0 t" and ok: "tree_ok t" using assms(3) by (auto simp: unsettled_def midway_def)
  obtain n where n: "temp_of e tid f = butlast (target f) @ [n]" "n \<noteq> dot" by (rule temp_of_snoc)
  have up: "\<forall>q. prefix q (butlast (target f)) \<longrightarrow> t q = Some FsDir"
    using tree_ok_up [OF ok, of "temp_of e tid f"] assms(4) n(1) by (auto simp: strict_prefix_snoc)
  have "tree_remove (temp_of e tid f) t = Inr (t(temp_of e tid f := None))"
    using tree_remove_clear [OF up n(2)] assms(4) n(1) by simp
  moreover have "midway e tid files t0 (t(temp_of e tid f := None))"
    using tree_ok_drop [OF ok] assms(4) by (intro midway_temp [OF assms(1) mid assms(2)]) auto
  moreover have "(t(temp_of e tid f := None)) (temp_of e tid g) = None" if "g \<in> set files" for g
    using unsettled_temp [OF assms(3,2,4)] that by auto
  moreover have "(t(temp_of e tid f := None)) (butlast (temp_of e tid f)) = Some FsDir"
    using up n(1) by auto
  ultimately show ?thesis by (auto simp: settled_def)
qed

lemma parent_there:
  assumes "layout_ok e tid files" and "f \<in> set files" and "clear_way t (target f)" and "tree_ok t"
    and "t (butlast (target f)) = Some FsDir"
  shows "tree_follow beyond (butlast (target f)) t = Inr FsDir"
proof -
  note l = layout_okD [OF assms(1,2)]
  have "clear_way t (butlast (target f))" by (rule clear_way_prefix [OF assms(3) prefixeq_butlast])
  moreover have "butlast (target f) = [] \<or> last (butlast (target f)) \<noteq> dot"
    using normal_names_plain [of "last (butlast (target f))" "fa_path f"] in_set_butlastD [of _ "target f"]
      l(6) last_in_set by metis
  ultimately show ?thesis using tree_stat_clear [OF assms(4)] assms(5) by (simp add: tree_follow_def)
qed

lemma settled_unsettled_in: "settled e tid files t0 t \<Longrightarrow> f \<in> set files \<Longrightarrow> unsettled e tid files t0 t"
  by (rule settled_unsettled) auto

lemma stuckI: "failed_at H T (unsettled e tid files t0) w \<Longrightarrow> stuck e H T tid files t0 w"
  by (simp add: stuck_def)

lemma discard_temp_step:
  assumes "layout_ok e tid files" and "f \<in> set files" and "clear_way t0 (target f)"
  shows "triple (at_dest e H T (\<lambda>t. unsettled e tid files t0 t \<and> t (temp_of e tid f) = Some (FsFile bs mode 1)))
    (discard_temp e f (temp_of e tid f) mode 1) (\<lambda>_. at_dest e H T (settled e tid files t0)) (stuck e H T tid files t0)"
proof -
  let ?p = "temp_of e tid f" and ?E = "stuck e H T tid files t0"
  let ?F = "\<lambda>t. unsettled e tid files t0 t \<and> t ?p = Some (FsFile bs mode 1)"
  let ?S = "\<lambda>t. settled e tid files t0 t \<and> t (butlast ?p) = Some FsDir"
  let ?s = "regular_snapshot e bs (file_mode mode)"
  note weak = triple_error [OF dest_look [where \<Theta> = "unsettled e tid files t0"]]
    triple_error [OF dest_change [where \<Theta> = "unsettled e tid files t0"]]
  have mid: "midway e tid files t0 t" "tree_ok t" "clear_way t ?p" "clear_way t (target f)"
    if "unsettled e tid files t0 t" for t
    using that midway_clear(1,2) [OF assms(1) _ assms(2,3)] by (auto simp: unsettled_def midway_def)
  note up = temp_of_simps(3) [of e tid f]
  have bytes: "tree_read (oe_beyond e dest) ?p t = Inr bs" if "?F t" for t
    using tree_read_clear [of t ?p] mid [of t] that temp_of_simps(2) by blast
  have read: "triple (at_dest e H T ?F) (or_says (os_read e dest ?p) er) (\<lambda>b. at_dest e H T (\<lambda>t. ?F t \<and> b = bs)) ?E" for er
    unfolding os_read_def by (intro weak(1) stuckI) (use bytes in auto)
  have rem: "triple (at_dest e H T ?F) (or_says (os_remove_file e dest ?p) er) (\<lambda>_. at_dest e H T ?S) ?E" for er
    unfolding os_remove_file_def using remove_temp [OF assms(1,2)]
    by (intro weak(2) stuckI) (auto simp: intact_def)
  have syn: "triple (at_dest e H T ?S) (or_says (os_sync_dir e dest (butlast ?p)) er)
      (\<lambda>_. at_dest e H T (settled e tid files t0)) ?E" for er
    unfolding os_sync_dir_def up using parent_there [OF assms(1,2)] mid settled_unsettled_in [OF _ assms(2)]
    by (intro weak(1) stuckI) auto
  have torn: "?E w" if "at_dest e H T ?F w" "?s \<noteq> fa_pre f \<and> ?s \<noteq> fa_post f" for w
    using that assms(2) by (auto simp: stuck_def at_dest_def torn_def)
  have link: "triple (at_dest e H T ?F) (checked (ensure_single_link 1)) (\<lambda>_. at_dest e H T ?F) ?E"
    by (rule triple_checked) (auto simp: ensure_single_link_def)
  show ?thesis
    unfolding discard_temp_def Let_def
  proof (rule triple_then [OF link], rule triple_then [OF read])
    fix b
    show "triple (at_dest e H T (\<lambda>t. ?F t \<and> b = bs))
      (if regular_snapshot e b (file_mode mode) \<noteq> fa_pre f \<and> regular_snapshot e b (file_mode mode) \<noteq> fa_post f
       then refuse (Says ''destination temp file diverged from frozen snapshots'')
       else then_do (or_says (os_remove_file e dest ?p) (Says ''failed to remove known destination temp file''))
         (\<lambda>_. or_says (os_sync_dir e dest (butlast ?p)) (Says ''failed to sync artifact directory'')))
      (\<lambda>_. at_dest e H T (settled e tid files t0)) ?E"
    proof (rule triple_if)
      assume "regular_snapshot e b (file_mode mode) \<noteq> fa_pre f \<and> regular_snapshot e b (file_mode mode) \<noteq> fa_post f"
      then show "triple (at_dest e H T (\<lambda>t. ?F t \<and> b = bs))
        (refuse (Says ''destination temp file diverged from frozen snapshots''))
        (\<lambda>_. at_dest e H T (settled e tid files t0)) ?E"
        using torn by (intro triple_refuse) (auto simp: at_dest_def)
    qed (rule triple_weaken [OF triple_then [OF rem syn]], auto simp: at_dest_def)
  qed
qed

lemma reconcile_temp_step:
  assumes "layout_ok e tid files" and "f \<in> set files" and "clear_way t0 (target f)"
    and D: "\<And>t. settled e tid files t0 t \<Longrightarrow> D t"
  shows "triple (at_dest e H T (\<lambda>t. unsettled e tid files t0 t \<and> D t)) (reconcile_temp e tid f)
    (\<lambda>_. at_dest e H T (\<lambda>t. unsettled e tid files t0 t \<and> D t \<and> t (temp_of e tid f) = None))
    (stuck e H T tid files t0)"
proof -
  let ?U = "\<lambda>t. unsettled e tid files t0 t \<and> D t" and ?p = "temp_of e tid f"
  let ?Q = "\<lambda>_ :: unit. at_dest e H T (\<lambda>t. unsettled e tid files t0 t \<and> D t \<and> t ?p = None)"
  let ?E = "stuck e H T tid files t0"
  note l = layout_okD [OF assms(1,2)]
  have start: "triple (at_dest e H T ?U) (checked (validate_relative_path (fa_path f))) (\<lambda>_. at_dest e H T ?U) ?E"
    using plain_target_valid [OF l(2)] by (intro triple_checked) auto
  have ens: "triple (at_dest e H T ?U) (ensure_no_symlink_ancestors e dest (fa_path f)) (\<lambda>_. at_dest e H T ?U) ?E"
    by (intro triple_error [OF ensure_kept [where \<Theta> = "unsettled e tid files t0", OF assms(1-3)]] stuckI)
      (auto simp: unsettled_def)
  have tmp: "triple (at_dest e H T ?U) (checked (destination_temp_path e tid (fa_path f)))
      (\<lambda>p w. p = ?p \<and> at_dest e H T ?U w) ?E"
    using destination_temp_path_eq [OF l(1,2)] by (intro triple_checked) auto
  have stat: "triple (at_dest e H T ?U)
    (asking (os_stat e dest ?p) (\<lambda>r. case r of
           Inl IoNotFound \<Rightarrow> give ()
         | Inl IoOther \<Rightarrow> refuse (Says ''failed to inspect destination temp file'')
         | Inr (FsFile _ mode nlink) \<Rightarrow> discard_temp e f ?p mode nlink
         | Inr _ \<Rightarrow> refuse (Says ''destination temp file is not regular''))) ?Q ?E"
  proof (rule dest_stat_or [where \<Theta> = "unsettled e tid files t0"])
    show "tree_ok t \<and> clear_way t ?p" if "?U t" for t
      using that midway_clear(2) [OF assms(1) _ assms(2,3)] by (auto simp: unsettled_def midway_def)
    show "?p = [] \<or> last ?p \<noteq> dot" by (simp add: temp_of_simps)
    show "triple (at_dest e H T (\<lambda>t. ?U t \<and> t ?p = None)) (give ()) ?Q ?E"
      by (rule triple_give) (simp add: at_dest_def)
    fix n
    show "triple (at_dest e H T (\<lambda>t. ?U t \<and> t ?p = Some n)) (case n of
           FsFile _ mode nlink \<Rightarrow> discard_temp e f ?p mode nlink
         | _ \<Rightarrow> refuse (Says ''destination temp file is not regular'')) ?Q ?E"
    proof (cases "\<exists>bs mode. n = FsFile bs mode 1")
      case True
      then obtain bs mode where n: "n = FsFile bs mode 1" by blast
      have "triple (at_dest e H T (\<lambda>t. ?U t \<and> t ?p = Some n)) (discard_temp e f ?p mode 1) ?Q ?E"
        by (rule triple_weaken [OF discard_temp_step [OF assms(1-3), where bs = bs]])
          (use n D settled_unsettled_in [OF _ assms(2)] assms(2) in \<open>auto simp: at_dest_def settled_def\<close>)
      with n show ?thesis by simp
    next
      case False
      then show ?thesis using unsettled_temp [OF _ assms(2)] by (intro at_dest_vacuous) blast
    qed
  qed (auto intro: stuckI)
  show ?thesis
    unfolding reconcile_temp_def Let_def
    by (rule triple_then [OF start], rule triple_then [OF ens], rule triple_then [OF tmp], rule triple_fact, hypsubst,
      rule stat)
qed

lemma reconcile_step:
  assumes "layout_ok e tid (am_files m)" and "\<forall>f \<in> set (am_files m). clear_way t0 (target f)"
  shows "triple (at_dest e H T (unsettled e tid (am_files m) t0)) (reconcile_destination_temporary_files e tid m)
    (\<lambda>_. at_dest e H T (settled e tid (am_files m) t0)) (stuck e H T tid (am_files m) t0)"
proof -
  let ?I = "\<lambda>xs. at_dest e H T (\<lambda>t. unsettled e tid (am_files m) t0 t \<and> (\<forall>g \<in> set xs. t (temp_of e tid g) = None))"
  have "triple (?I []) (each (reconcile_temp e tid) (am_files m)) (\<lambda>_. ?I (am_files m))
    (stuck e H T tid (am_files m) t0)"
  proof (rule triple_each)
    fix xs f ys assume split: "am_files m = xs @ f # ys"
    then have f: "f \<in> set (am_files m)" and clear: "clear_way t0 (target f)" using assms(2) by auto
    have D: "\<forall>g \<in> set xs. t (temp_of e tid g) = None" if "settled e tid (am_files m) t0 t" for t
      using that split by (simp add: settled_def)
    show "triple (?I xs) (reconcile_temp e tid f) (\<lambda>_. ?I (xs @ [f])) (stuck e H T tid (am_files m) t0)"
      by (rule triple_weaken [OF reconcile_temp_step [OF assms(1) f clear D]]) (auto simp: at_dest_def)
  qed
  then show ?thesis
    unfolding reconcile_destination_temporary_files_def
    by (rule triple_weaken) (auto simp: at_dest_def unsettled_def settled_def)
qed

end
