(* ===== verification/Apply_Rollback.thy ===== *)
theory Apply_Rollback
  imports Apply_Leftovers
begin

text \<open>
  The whole of applying and of rolling back: whichever calls of an application fail, each target is left
  in one of its frozen states with at most one temporary file, and a rollback in which no call fails
  restores the first state of every target, or finds that file half written and leaves it alone.
\<close>

section \<open>Steps over a manifest\<close>

lemma check_step:
  assumes "quiet m" and "\<And>w. healthy e w \<Longrightarrow> \<Phi> (aw_tree w dest) \<Longrightarrow> fst (m w) = Inr ()" and "\<And>t. \<Phi> t \<Longrightarrow> \<Theta> t"
  shows "triple (at_dest e H T \<Phi>) m (\<lambda>_. at_dest e H T \<Phi>) (failed_at H T \<Theta>)"
  using assms by (intro dest_quiet) (auto simp: at_dest_def)

lemma quiet_step:
  assumes "quiet m" and "\<And>t. \<Phi> t \<Longrightarrow> \<Theta> t"
  shows "triple (at_dest e False T \<Phi>) m (\<lambda>_. at_dest e False T \<Phi>) (failed_at False T \<Theta>)"
  by (rule triple_error [OF triple_quiet [OF assms(1)]]) (use assms(2) in \<open>auto simp: at_dest_def failed_at_def\<close>)

lemma tells_step:
  assumes "\<And>T'. T' Artifacts = T Artifacts \<Longrightarrow> tells e T' m x" and "\<And>t. \<Phi> t \<Longrightarrow> \<Theta> t"
  shows "triple (at_dest e H T \<Phi>) m (\<lambda>y w. y = x \<and> at_dest e H T \<Phi> w) (failed_at H T \<Theta>)"
proof (rule tripleI)
  fix w assume w: "at_dest e H T \<Phi> w"
  then have tells: "tells e (aw_tree w) m x" by (intro assms(1)) (simp add: at_dest_def)
  show "failed_at H T \<Theta> w'" if "m w = (Inl er, w')" for er w'
    using tellsD [OF tells refl that] w assms(2) by (auto simp: failed_at_def at_dest_def)
  show "y = x \<and> at_dest e H T \<Phi> w'" if "m w = (Inr y, w')" for y w'
    using tellsD [OF tells refl that] w by (auto simp: at_dest_def healthy_def)
qed

lemma classify_step:
  assumes "layout_ok e tid (am_files m)" and "\<forall>f \<in> set (am_files m). clear_way t0 (target f)"
    and "\<And>t. \<Phi> t \<Longrightarrow> midway e tid (am_files m) t0 t" and "\<And>t. \<Phi> t \<Longrightarrow> \<Theta> t"
  shows "triple (at_dest e H T \<Phi>) (classify_manifest e m)
    (\<lambda>c. at_dest e H T (\<lambda>t. \<Phi> t \<and> (c = Divergent \<longrightarrow> \<not> H) \<and>
       (c \<noteq> Divergent \<longrightarrow> c = classification (\<exists>f \<in> set (am_files m). pre_only e t f) (\<exists>f \<in> set (am_files m). post_only e t f))))
    (failed_at H T \<Theta>)"
  unfolding classify_manifest_def
proof (rule dest_quiet)
  have plain: "\<forall>f \<in> set (am_files m). plain_target (fa_path f)" using layout_okD(2) [OF assms(1)] by blast
  fix w c w' assume w: "at_dest e H T \<Phi> w" and run: "classify_files e (am_files m) False False w = (Inr c, w')"
  then have mid: "midway e tid (am_files m) t0 (aw_tree w dest)" and h: "H \<Longrightarrow> healthy e w"
    using assms(3) by (auto simp: at_dest_def)
  have "c = Divergent \<longrightarrow> \<not> H" using classify_healthy [OF assms(1,2) mid _ order_refl run] h by blast
  moreover have "c \<noteq> Divergent \<longrightarrow> c = classification (\<exists>f \<in> set (am_files m). pre_only e (aw_tree w dest) f)
      (\<exists>f \<in> set (am_files m). post_only e (aw_tree w dest) f)"
    using classify_truthful [OF run _ _ plain] mid by (auto simp: midway_def)
  ultimately show "\<Phi> (aw_tree w dest) \<and> (c = Divergent \<longrightarrow> \<not> H) \<and>
       (c \<noteq> Divergent \<longrightarrow> c = classification (\<exists>f \<in> set (am_files m). pre_only e (aw_tree w dest) f)
         (\<exists>f \<in> set (am_files m). post_only e (aw_tree w dest) f))"
    using w by (simp add: at_dest_def)
qed (use assms(4) quiet_classify(1) classify_returns in auto)

definition all_pre :: "apply_env \<Rightarrow> file_artifact list \<Rightarrow> fs_tree \<Rightarrow> bool" where
  "all_pre e files t \<longleftrightarrow> (\<forall>f \<in> set files. node_snapshot e (t (target f)) = Some (fa_pre f))"

definition all_post :: "apply_env \<Rightarrow> file_artifact list \<Rightarrow> fs_tree \<Rightarrow> bool" where
  "all_post e files t \<longleftrightarrow> (\<forall>f \<in> set files. node_snapshot e (t (target f)) = Some (fa_post f))"

lemma classification_cases:
  "classification a b = AllPre \<longleftrightarrow> a \<and> \<not> b" "classification a b = AllPost \<longleftrightarrow> \<not> a"
  "classification a b = MixedKnown \<longleftrightarrow> a \<and> b" "classification a b \<noteq> Divergent"
  by (cases a; cases b; simp)+

lemma verdicts:
  assumes "midway e tid files t0 t"
  shows "classification (\<exists>f \<in> set files. pre_only e t f) (\<exists>f \<in> set files. post_only e t f) = AllPre \<Longrightarrow> all_pre e files t"
    and "classification (\<exists>f \<in> set files. pre_only e t f) (\<exists>f \<in> set files. post_only e t f) = AllPost \<Longrightarrow> all_post e files t"
    and "all_pre e files t \<Longrightarrow> \<exists>f \<in> set files. fa_pre f \<noteq> fa_post f \<Longrightarrow>
      classification (\<exists>f \<in> set files. pre_only e t f) (\<exists>f \<in> set files. post_only e t f) = AllPre"
proof -
  note known = midway_known [OF assms]
  show "all_pre e files t"
    if "classification (\<exists>f \<in> set files. pre_only e t f) (\<exists>f \<in> set files. post_only e t f) = AllPre"
    using that known unfolding classification_cases all_pre_def post_only_def by metis
  show "all_post e files t"
    if "classification (\<exists>f \<in> set files. pre_only e t f) (\<exists>f \<in> set files. post_only e t f) = AllPost"
    using that known unfolding classification_cases all_post_def pre_only_def by metis
  show "classification (\<exists>f \<in> set files. pre_only e t f) (\<exists>f \<in> set files. post_only e t f) = AllPre"
    if "all_pre e files t" "\<exists>f \<in> set files. fa_pre f \<noteq> fa_post f"
    using that unfolding classification_cases all_pre_def pre_only_def post_only_def by (metis option.inject)
qed

lemma survey_step:
  assumes "layout_ok e tid files" and "\<forall>f \<in> set files. clear_way t0 (target f)"
    and "\<And>t. \<Phi> t \<Longrightarrow> midway e tid files t0 t" and "\<And>t. \<Phi> t \<Longrightarrow> \<Theta> t" and "set fs \<subseteq> set files"
  shows "triple (at_dest e H T \<Phi>) (survey e fs)
    (\<lambda>ss. at_dest e H T (\<lambda>t. \<Phi> t \<and> list_all2 (\<lambda>f s. node_snapshot e (t (target f)) = Some s) fs ss))
    (failed_at H T \<Theta>)"
  using assms(3-5)
proof (induction fs arbitrary: \<Phi>)
  case Nil
  then show ?case by (simp add: triple_give)
next
  case (Cons f fs)
  then have f: "f \<in> set files" and clear: "clear_way t0 (target f)" using assms(2) by auto
  have cur: "triple (at_dest e H T \<Phi>) (current_snapshot e (fa_path f))
    (\<lambda>s. at_dest e H T (\<lambda>t. \<Phi> t \<and> node_snapshot e (t (target f)) = Some s)) (failed_at H T \<Theta>)"
    by (rule current_known [OF assms(1) f clear]) (use Cons.prems in auto)
  show ?case
    unfolding survey.simps
  proof (rule triple_then [OF cur], rule triple_if)
    fix s
    let ?P = "\<lambda>t. \<Phi> t \<and> node_snapshot e (t (target f)) = Some s"
    show "triple (at_dest e H T ?P) (refuse (Says ''refusing rollback because destination diverged''))
      (\<lambda>ss. at_dest e H T (\<lambda>t. \<Phi> t \<and> list_all2 (\<lambda>f s. node_snapshot e (t (target f)) = Some s) (f # fs) ss))
      (failed_at H T \<Theta>)" if "s \<noteq> fa_pre f \<and> s \<noteq> fa_post f"
    proof (rule at_dest_vacuous)
      fix t assume "?P t"
      with midway_known [OF Cons.prems(1) f, of t] that show False by auto
    qed
    have "triple (at_dest e H T ?P) (survey e fs)
      (\<lambda>ss. at_dest e H T (\<lambda>t. ?P t \<and> list_all2 (\<lambda>f s. node_snapshot e (t (target f)) = Some s) fs ss)) (failed_at H T \<Theta>)"
      by (rule Cons.IH) (use Cons.prems in auto)
    then show "triple (at_dest e H T ?P) (then_do (survey e fs) (\<lambda>states. give (s # states)))
      (\<lambda>ss. at_dest e H T (\<lambda>t. \<Phi> t \<and> list_all2 (\<lambda>f s. node_snapshot e (t (target f)) = Some s) (f # fs) ss))
      (failed_at H T \<Theta>)"
      by (rule triple_then) (rule triple_give, simp add: at_dest_def)
  qed
qed

section \<open>Installing the files\<close>

lemma install_kept:
  assumes "layout_ok e tid files" and "f \<in> set files" and "clear_way t0 (target f)"
    and "s = fa_pre f \<or> s = fa_post f" and "frozen e f" and "payload_fits e s payload"
    and K: "\<And>t t'. K t \<Longrightarrow> others_kept files f t t' \<Longrightarrow> K t'"
  shows "triple (at_dest e H T (\<lambda>t. settled e tid files t0 t \<and> K t)) (install_snapshot e tid (fa_path f) s payload)
    (\<lambda>_. at_dest e H T (\<lambda>t. settled e tid files t0 t \<and> K t \<and> node_snapshot e (t (target f)) = Some s))
    (failed_at H T (unsettled e tid files t0))"
proof (rule tripleI)
  fix w assume w: "at_dest e H T (\<lambda>t. settled e tid files t0 t \<and> K t) w"
  let ?v = "aw_tree w dest"
  obtain x where x: "node_snapshot e x = Some s" using assms(4,5) by (auto simp: frozen_def)
  have run: "triple (at_dest e H T (ready e tid files t0 f ?v)) (install_snapshot e tid (fa_path f) s payload)
    (\<lambda>_. at_dest e H T (\<lambda>t. ready e tid files t0 f ?v t \<and> node_snapshot e (t (target f)) = Some s))
    (failed_at H T (unsettled e tid files t0))"
    by (rule install_ready [OF assms(1-4) x]) (use assms(6) in \<open>simp add: payload_fits_def\<close>)
  have start: "at_dest e H T (ready e tid files t0 f ?v) w"
    using w by (auto simp: at_dest_def ready_def others_kept_def)
  show "failed_at H T (unsettled e tid files t0) w'"
    if "install_snapshot e tid (fa_path f) s payload w = (Inl er, w')" for er w'
    by (rule triple_Inl [OF run start that])
  show "at_dest e H T (\<lambda>t. settled e tid files t0 t \<and> K t \<and> node_snapshot e (t (target f)) = Some s) w'"
    if "install_snapshot e tid (fa_path f) s payload w = (Inr u, w')" for u w'
    using triple_Inr [OF run start that] w K by (auto simp: at_dest_def ready_def)
qed

lemma install_stored:
  assumes "layout_ok e tid files" and "f \<in> set files" and "clear_way t0 (target f)"
    and "s = fa_pre f \<or> s = fa_post f" and "frozen e f" and "stored_payload e (T Artifacts) dir ref s"
    and K: "\<And>t t'. K t \<Longrightarrow> others_kept files f t t' \<Longrightarrow> K t'"
  shows "triple (at_dest e H T (\<lambda>t. settled e tid files t0 t \<and> K t))
    (then_do (load_payload e dir ref s) (\<lambda>payload. install_snapshot e tid (fa_path f) s payload))
    (\<lambda>_. at_dest e H T (\<lambda>t. settled e tid files t0 t \<and> K t \<and> node_snapshot e (t (target f)) = Some s))
    (failed_at H T (unsettled e tid files t0))"
proof (rule triple_then [OF load_payload_step], rule assms(6))
  show "unsettled e tid files t0 t" if "settled e tid files t0 t \<and> K t" for t
    using that settled_unsettled_in [OF _ assms(2)] by blast
qed (rule triple_fact, rule install_kept [OF assms(1-5) _ K])

lemma install_posts:
  assumes "layout_ok e tid files"
    and "\<forall>f \<in> set files. clear_way t0 (target f) \<and> frozen e f \<and> stored_payloads e (T Artifacts) dir f"
  shows "triple (at_dest e H T (settled e tid files t0)) (each (install_post e tid dir) files)
    (\<lambda>_. at_dest e H T (\<lambda>t. settled e tid files t0 t \<and> all_post e files t)) (failed_at H T (unsettled e tid files t0))"
proof -
  let ?K = "\<lambda>xs t. \<forall>g \<in> set xs. node_snapshot e (t (target g)) = Some (fa_post g)"
  let ?I = "\<lambda>xs. at_dest e H T (\<lambda>t. settled e tid files t0 t \<and> ?K xs t)"
  have "triple (?I []) (each (install_post e tid dir) files) (\<lambda>_. ?I files) (failed_at H T (unsettled e tid files t0))"
  proof (rule triple_each [where I = ?I])
    fix xs f ys assume split: "files = xs @ f # ys"
    then have f: "f \<in> set files" and away: "\<forall>g \<in> set xs. g \<in> set files \<and> g \<noteq> f"
      using assms(1) by (auto simp: layout_ok_def)
    have a: "clear_way t0 (target f)" "frozen e f" "stored_payload e (T Artifacts) dir (fa_post_payload f) (fa_post f)"
      using assms(2) f by (auto simp: stored_payloads_def)
    have K: "?K xs t'" if "?K xs t" "others_kept files f t t'" for t t'
      using that away by (simp add: others_kept_def)
    have "triple (?I xs) (install_post e tid dir f)
      (\<lambda>_. at_dest e H T (\<lambda>t. settled e tid files t0 t \<and> ?K xs t \<and> node_snapshot e (t (target f)) = Some (fa_post f)))
      (failed_at H T (unsettled e tid files t0))"
      unfolding install_post_def by (rule install_stored [where T = T and K = "?K xs" and s = "fa_post f", OF assms(1) f a(1) disjI2 [OF refl] a(2,3) K])
    then show "triple (?I xs) (install_post e tid dir f) (\<lambda>_. ?I (xs @ [f])) (failed_at H T (unsettled e tid files t0))"
      by (rule triple_weaken) (auto simp: at_dest_def)
  qed
  then show ?thesis by (simp add: all_post_def)
qed

lemma install_pres:
  assumes "layout_ok e tid files"
    and "\<forall>f \<in> set files. clear_way t0 (target f) \<and> frozen e f \<and> stored_payloads e (T Artifacts) dir f"
    and "length states = length files"
  shows "triple (at_dest e H T (\<lambda>t. settled e tid files t0 t \<and>
      (\<forall>(f, s) \<in> set (zip files states). node_snapshot e (t (target f)) = Some s)))
    (each (install_pre e tid dir) (zip files states))
    (\<lambda>_. at_dest e H T (\<lambda>t. settled e tid files t0 t \<and> all_pre e files t)) (failed_at H T (unsettled e tid files t0))"
proof -
  let ?zs = "zip files states"
  let ?K = "\<lambda>xs ys t. (\<forall>(g, s :: snapshot) \<in> set xs. node_snapshot e (t (target g)) = Some (fa_pre g)) \<and>
    (\<forall>(g, s) \<in> set ys. node_snapshot e (t (target g)) = Some s)"
  let ?I = "\<lambda>xs. at_dest e H T (\<lambda>t. settled e tid files t0 t \<and> ?K xs (drop (length xs) ?zs) t)"
  have "triple (?I []) (each (install_pre e tid dir) ?zs) (\<lambda>_. ?I ?zs) (failed_at H T (unsettled e tid files t0))"
  proof (rule triple_each [where I = ?I])
    fix xs z ys assume split: "?zs = xs @ z # ys"
    obtain f s where z: "z = (f, s)" by (cases z)
    have "map fst ?zs = files" using assms(3) by simp
    with split z have files: "files = map fst xs @ f # map fst ys" by simp
    then have f: "f \<in> set files" and away: "\<forall>(g, s) \<in> set (xs @ ys). g \<in> set files \<and> g \<noteq> f"
      using assms(1) by (auto simp: layout_ok_def split: prod.splits) (force simp: image_iff)+
    have a: "clear_way t0 (target f)" "frozen e f" "stored_payload e (T Artifacts) dir (fa_pre_payload f) (fa_pre f)"
      using assms(2) f by (auto simp: stored_payloads_def)
    have K: "?K xs ys t'" if "?K xs ys t" "others_kept files f t t'" for t t'
      using that away by (fastforce simp: others_kept_def)
    have inst: "triple (at_dest e H T (\<lambda>t. settled e tid files t0 t \<and> ?K xs ys t))
      (then_do (load_payload e dir (fa_pre_payload f) (fa_pre f)) (\<lambda>payload.
         install_snapshot e tid (fa_path f) (fa_pre f) payload))
      (\<lambda>_. at_dest e H T (\<lambda>t. settled e tid files t0 t \<and> ?K xs ys t \<and> node_snapshot e (t (target f)) = Some (fa_pre f)))
      (failed_at H T (unsettled e tid files t0))"
      by (rule install_stored [where T = T and K = "?K xs ys" and s = "fa_pre f", OF assms(1) f a(1) disjI1 [OF refl] a(2,3) K])
    have ys: "drop (length xs) ?zs = z # ys" "drop (Suc (length xs)) ?zs = ys" by (simp_all add: split)
    show "triple (?I xs) (install_pre e tid dir z) (\<lambda>_. ?I (xs @ [z])) (failed_at H T (unsettled e tid files t0))"
      unfolding z install_pre_def prod.case
    proof (rule triple_if)
      show "triple (?I xs) (give ()) (\<lambda>_. ?I (xs @ [(f, s)])) (failed_at H T (unsettled e tid files t0))" if "s = fa_pre f"
        using that by (intro triple_give) (simp add: at_dest_def ys [unfolded z] ball_Un)
      show "triple (?I xs) (then_do (load_payload e dir (fa_pre_payload f) (fa_pre f)) (\<lambda>payload.
         install_snapshot e tid (fa_path f) (fa_pre f) payload)) (\<lambda>_. ?I (xs @ [(f, s)]))
         (failed_at H T (unsettled e tid files t0))"
        by (rule triple_weaken [OF inst]) (simp_all add: at_dest_def ys [unfolded z] ball_Un)
    qed
  qed
  moreover have "all_pre e files t \<longleftrightarrow> (\<forall>(g, s) \<in> set ?zs. node_snapshot e (t (target g)) = Some (fa_pre g))" for t
  proof -
    have "set files = fst ` set ?zs" using assms(3) by (metis map_fst_zip list.set_map)
    then show ?thesis by (auto simp: all_pre_def)
  qed
  ultimately show ?thesis by simp
qed

section \<open>Rolling back\<close>

text \<open>What an application and a rollback rely on: a stored manifest whose files are apart and frozen.\<close>

definition applicable ::
    "apply_env \<Rightarrow> rstr \<Rightarrow> rstr \<Rightarrow> fs_tree \<Rightarrow> apply_manifest \<Rightarrow> fs_path \<Rightarrow> fs_tree \<Rightarrow> bool" where
  "applicable e tid digest art m dir t0 \<longleftrightarrow>
     stored_manifest e tid digest art m dir \<and> am_files m \<noteq> [] \<and> layout_ok e tid (am_files m) \<and>
     (\<forall>f \<in> set (am_files m). clear_way t0 (target f) \<and> frozen e f \<and> stored_payloads e art dir f)"

lemma applicableD:
  assumes "applicable e tid digest art m dir t0"
  shows "stored_manifest e tid digest art m dir" and "layout_ok e tid (am_files m)" and "am_files m \<noteq> []"
    and "\<forall>f \<in> set (am_files m). clear_way t0 (target f) \<and> frozen e f \<and> stored_payloads e art dir f"
    and "\<forall>f \<in> set (am_files m). clear_way t0 (target f)"
  using assms by (auto simp: applicable_def)

lemma midway_root:
  assumes "applicable e tid digest art m dir t0" and "midway e tid (am_files m) t0 t"
  shows "t [] = Some FsDir"
proof -
  note a = applicableD [OF assms(1)]
  obtain f where "f \<in> set (am_files m)" using a(3) by (cases "am_files m") auto
  with midway_clear(1) [OF a(2) assms(2) this] a(5) show ?thesis by (auto simp: clear_way_def)
qed

lemma git_steps:
  assumes "applicable e tid digest art m dir t0" and "H \<Longrightarrow> same_repository e DestinationSide (am_destination m)"
    and "\<And>t. \<Phi> t \<Longrightarrow> midway e tid (am_files m) t0 t" and "\<And>t. \<Phi> t \<Longrightarrow> unsettled e tid (am_files m) t0 t"
  shows "triple (at_dest e H T \<Phi>) (ensure_git_root e DestinationSide) (\<lambda>_. at_dest e H T \<Phi>)
      (stuck e H T tid (am_files m) t0)"
    and "triple (at_dest e H T \<Phi>) (ensure_no_operation_in_progress e DestinationSide) (\<lambda>_. at_dest e H T \<Phi>)
      (stuck e H T tid (am_files m) t0)"
    and "triple (at_dest e H T \<Phi>) (ensure_identity e DestinationSide (am_destination m)) (\<lambda>_. at_dest e H T \<Phi>)
      (stuck e H T tid (am_files m) t0)"
proof -
  have step: "triple (at_dest e H T \<Phi>) n (\<lambda>_. at_dest e H T \<Phi>) (stuck e H T tid (am_files m) t0)"
    if "quiet n" and "\<And>w. H \<Longrightarrow> healthy e w \<Longrightarrow> \<Phi> (aw_tree w dest) \<Longrightarrow> fst (n w) = Inr ()" for n :: "unit engine"
  proof (cases H)
    case True
    with that show ?thesis
      by (intro triple_error [OF check_step [where \<Theta> = "unsettled e tid (am_files m) t0"]] stuckI) (auto intro: assms(4))
  next
    case False
    with that show ?thesis
      by (auto intro!: triple_error [OF quiet_step [where \<Theta> = "unsettled e tid (am_files m) t0"]] stuckI intro: assms(4))
  qed
  show "triple (at_dest e H T \<Phi>) (ensure_git_root e DestinationSide) (\<lambda>_. at_dest e H T \<Phi>)
      (stuck e H T tid (am_files m) t0)"
    using git_checks_healthy(2) [OF _ assms(2)] midway_root [OF assms(1) assms(3)]
    by (intro step quiet_git_checks) auto
  show "triple (at_dest e H T \<Phi>) (ensure_no_operation_in_progress e DestinationSide) (\<lambda>_. at_dest e H T \<Phi>)
      (stuck e H T tid (am_files m) t0)"
    using git_checks_healthy(3) [OF _ assms(2)] by (intro step quiet_git_checks) auto
  show "triple (at_dest e H T \<Phi>) (ensure_identity e DestinationSide (am_destination m)) (\<lambda>_. at_dest e H T \<Phi>)
      (stuck e H T tid (am_files m) t0)"
    using git_checks_healthy(1) [OF _ assms(2)] by (intro step quiet_identity) auto
qed

lemma load_step:
  assumes "applicable e tid digest (T Artifacts) m dir t0"
  shows "triple (at_dest e H T (unsettled e tid (am_files m) t0)) (load_manifest e tid digest)
    (\<lambda>r w. r = (m, dir) \<and> at_dest e H T (unsettled e tid (am_files m) t0) w) (stuck e H T tid (am_files m) t0)"
  using applicableD(1) [OF assms] load_manifest_tells [of e tid digest _ m dir]
  by (intro triple_error [OF tells_step [where \<Theta> = "unsettled e tid (am_files m) t0"]] stuckI) auto

lemma restore_step:
  assumes "applicable e tid digest (T Artifacts) m dir t0"
    and "H \<Longrightarrow> same_repository e DestinationSide (am_destination m)"
    and "H \<Longrightarrow> \<exists>f \<in> set (am_files m). fa_pre f \<noteq> fa_post f"
  shows "triple (at_dest e H T (settled e tid (am_files m) t0))
    (then_do (survey e (am_files m)) (\<lambda>states.
     then_do (each (install_pre e tid dir) (zip (am_files m) states)) (\<lambda>_.
     then_do (ensure_identity e DestinationSide (am_destination m)) (\<lambda>_.
     then_do (classify_manifest e m) (\<lambda>after.
       if after \<noteq> AllPre
       then refuse (Says ''delegation rollback did not restore the frozen preimage'')
       else give ())))))
    (\<lambda>_. at_dest e H T (\<lambda>t. settled e tid (am_files m) t0 t \<and> all_pre e (am_files m) t))
    (stuck e H T tid (am_files m) t0)"
proof -
  let ?S = "settled e tid (am_files m) t0" and ?U = "unsettled e tid (am_files m) t0" and ?E = "stuck e H T tid (am_files m) t0"
  let ?R = "\<lambda>t. ?S t \<and> all_pre e (am_files m) t"
  note a = applicableD [OF assms(1)]
  have uns: "?S t \<Longrightarrow> ?U t" for t using settled_unsettled a(3) by blast
  have mid: "?S t \<Longrightarrow> midway e tid (am_files m) t0 t" for t by (simp add: settled_def)
  have surv: "triple (at_dest e H T ?S) (survey e (am_files m))
    (\<lambda>ss. at_dest e H T (\<lambda>t. ?S t \<and> list_all2 (\<lambda>f s. node_snapshot e (t (target f)) = Some s) (am_files m) ss)) ?E"
    by (rule triple_error [OF survey_step [OF a(2,5), where \<Theta> = ?U]]) (use mid uns stuckI in auto)
  have inst: "triple (at_dest e H T (\<lambda>t. ?S t \<and> list_all2 (\<lambda>f s. node_snapshot e (t (target f)) = Some s) (am_files m) ss))
    (each (install_pre e tid dir) (zip (am_files m) ss)) (\<lambda>_. at_dest e H T ?R) ?E" for ss
  proof (cases "length ss = length (am_files m)")
    case True
    show ?thesis
      by (rule triple_weaken [OF install_pres [where T = T, OF a(2,4) True]]) (auto simp: at_dest_def list_all2_iff stuckI)
  next
    case False
    then show ?thesis by (intro at_dest_vacuous) (auto dest: list_all2_lengthD)
  qed
  have ident: "triple (at_dest e H T ?R) (ensure_identity e DestinationSide (am_destination m)) (\<lambda>_. at_dest e H T ?R) ?E"
    by (rule git_steps(3) [OF assms(1,2)]) (use mid uns in auto)
  let ?C = "\<lambda>c t. ?R t \<and> (c = Divergent \<longrightarrow> \<not> H) \<and>
    (c \<noteq> Divergent \<longrightarrow> c = classification (\<exists>f \<in> set (am_files m). pre_only e t f) (\<exists>f \<in> set (am_files m). post_only e t f))"
  have cls: "triple (at_dest e H T ?R) (classify_manifest e m) (\<lambda>c. at_dest e H T (?C c)) ?E"
    by (rule triple_error [OF classify_step [OF a(2,5), where \<Theta> = ?U]]) (use mid uns stuckI in auto)
  have "triple (at_dest e H T (?C c))
    (if c \<noteq> AllPre then refuse (Says ''delegation rollback did not restore the frozen preimage'') else give ())
    (\<lambda>_. at_dest e H T ?R) ?E" for c
  proof (rule triple_if)
    assume "c \<noteq> AllPre"
    then have "failed_at H T ?U w" if "at_dest e H T (?C c) w" for w
      using that verdicts(3) [OF mid _ assms(3)] uns
      by (cases "H \<and> c \<noteq> Divergent") (auto simp: at_dest_def failed_at_def)
    then show "triple (at_dest e H T (?C c)) (refuse (Says ''delegation rollback did not restore the frozen preimage''))
      (\<lambda>_. at_dest e H T ?R) ?E" by (intro triple_refuse stuckI) blast
  qed (rule triple_give, simp add: at_dest_def)
  then show ?thesis
    by (rule triple_then [OF surv triple_then [OF inst triple_then [OF ident triple_then [OF cls]]]])
qed

lemma rollback_step:
  assumes "applicable e tid digest (T Artifacts) m dir t0"
    and "H \<Longrightarrow> same_repository e DestinationSide (am_destination m)"
    and "H \<Longrightarrow> \<exists>f \<in> set (am_files m). fa_pre f \<noteq> fa_post f"
  shows "triple (at_dest e H T (unsettled e tid (am_files m) t0)) (rollback_apply_artifacts e tid digest)
    (\<lambda>_. at_dest e H T (\<lambda>t. settled e tid (am_files m) t0 t \<and> all_pre e (am_files m) t))
    (stuck e H T tid (am_files m) t0)"
proof -
  let ?S = "settled e tid (am_files m) t0" and ?U = "unsettled e tid (am_files m) t0" and ?E = "stuck e H T tid (am_files m) t0"
  let ?R = "\<lambda>t. ?S t \<and> all_pre e (am_files m) t"
  note a = applicableD [OF assms(1)]
  have uns: "?S t \<Longrightarrow> ?U t" for t using settled_unsettled a(3) by blast
  have mid: "?S t \<Longrightarrow> midway e tid (am_files m) t0 t" "?U t \<Longrightarrow> midway e tid (am_files m) t0 t" for t
    by (simp_all add: settled_def unsettled_def)
  note git = git_steps [OF assms(1,2), of H ?U] git_steps(3) [OF assms(1,2), of H ?S]
  let ?C = "\<lambda>c t. ?S t \<and> (c = Divergent \<longrightarrow> \<not> H) \<and>
    (c \<noteq> Divergent \<longrightarrow> c = classification (\<exists>f \<in> set (am_files m). pre_only e t f) (\<exists>f \<in> set (am_files m). post_only e t f))"
  have cls: "triple (at_dest e H T ?S) (classify_manifest e m) (\<lambda>c. at_dest e H T (?C c)) ?E"
    by (rule triple_error [OF classify_step [OF a(2,5), where \<Theta> = ?U]]) (use mid uns stuckI in auto)
  have rest: "triple (at_dest e H T (?C c))
    (if c = Divergent then refuse (Says ''refusing rollback because destination diverged'')
     else if c = AllPre then give ()
     else then_do (survey e (am_files m)) (\<lambda>states.
         then_do (each (install_pre e tid dir) (zip (am_files m) states)) (\<lambda>_.
         then_do (ensure_identity e DestinationSide (am_destination m)) (\<lambda>_.
         then_do (classify_manifest e m) (\<lambda>after.
           if after \<noteq> AllPre
           then refuse (Says ''delegation rollback did not restore the frozen preimage'')
           else give ())))))
    (\<lambda>_. at_dest e H T ?R) ?E" for c
  proof (intro triple_if)
    show "triple (at_dest e H T (?C c)) (refuse (Says ''refusing rollback because destination diverged''))
      (\<lambda>_. at_dest e H T ?R) ?E" if "c = Divergent"
      using that uns by (intro triple_refuse stuckI) (auto simp: at_dest_def failed_at_def)
    show "triple (at_dest e H T (?C c)) (give ()) (\<lambda>_. at_dest e H T ?R) ?E" if "c \<noteq> Divergent" "c = AllPre"
      using that verdicts(1) [OF mid(1)] by (intro triple_give) (auto simp: at_dest_def)
  qed (rule triple_weaken [OF restore_step [where T = T, OF assms]], auto simp: at_dest_def)
  show ?thesis
    unfolding rollback_apply_artifacts_def
    by (rule triple_then [OF load_step [where T = T, OF assms(1)]], rule triple_fact, hypsubst, simp only: prod.case,
      rule triple_then [OF git(1)], assumption, erule mid(2), assumption,
      rule triple_then [OF git(2)], assumption, erule mid(2), assumption,
      rule triple_then [OF git(3)], assumption, erule mid(2), assumption,
      rule triple_then [OF reconcile_step [OF a(2,5)]],
      rule triple_then [OF git(4)], assumption, erule mid(1), erule uns,
      rule triple_then [OF cls], rule rest)
qed

section \<open>Applying\<close>

text \<open>An application in which any calls fail, or after which nothing more happens, leaves the destination unsettled.\<close>

lemma stuck_any: "stuck e False T tid files t0 w \<Longrightarrow> failed_at False T (unsettled e tid files t0) w"
  by (auto simp: stuck_def failed_at_def at_dest_def)

lemma apply_step:
  assumes "applicable e tid digest (T Artifacts) m dir t0"
  shows "triple (at_dest e False T (unsettled e tid (am_files m) t0)) (apply_prepared_artifacts e tid digest)
    (\<lambda>out w. out = output_of m \<and>
       at_dest e False T (\<lambda>t. settled e tid (am_files m) t0 t \<and> all_post e (am_files m) t) w)
    (failed_at False T (unsettled e tid (am_files m) t0))"
proof -
  let ?S = "settled e tid (am_files m) t0" and ?U = "unsettled e tid (am_files m) t0"
  let ?E = "failed_at False T ?U" and ?R = "\<lambda>t. ?S t \<and> all_post e (am_files m) t"
  let ?Q = "\<lambda>out w. out = output_of m \<and> at_dest e False T ?R w"
  let ?C = "\<lambda>\<Phi> c t. \<Phi> t \<and>
    (c \<noteq> Divergent \<longrightarrow> c = classification (\<exists>f \<in> set (am_files m). pre_only e t f) (\<exists>f \<in> set (am_files m). post_only e t f))"
  note a = applicableD [OF assms(1)]
  have uns: "?S t \<Longrightarrow> ?U t" for t using settled_unsettled a(3) by blast
  have mid: "?S t \<Longrightarrow> midway e tid (am_files m) t0 t" "?U t \<Longrightarrow> midway e tid (am_files m) t0 t" for t
    by (simp_all add: settled_def unsettled_def)
  have load: "triple (at_dest e False T ?U) (load_manifest e tid digest) (\<lambda>r w. r = (m, dir) \<and> at_dest e False T ?U w) ?E"
    by (rule triple_error [OF load_step [where T = T, OF assms] stuck_any])
  have look: "triple (at_dest e False T \<Phi>) n (\<lambda>_. at_dest e False T \<Phi>) ?E"
    if "quiet n" "\<And>t. \<Phi> t \<Longrightarrow> ?U t" for n :: "unit engine" and \<Phi>
    by (rule quiet_step [OF that])
  have rec: "triple (at_dest e False T ?U) (reconcile_destination_temporary_files e tid m) (\<lambda>_. at_dest e False T ?S) ?E"
    by (rule triple_error [OF reconcile_step [OF a(2,5)] stuck_any])
  have cls: "triple (at_dest e False T \<Phi>) (classify_manifest e m) (\<lambda>c. at_dest e False T (?C \<Phi> c)) ?E"
    if "\<And>t. \<Phi> t \<Longrightarrow> ?S t" for \<Phi>
    by (rule triple_weaken [OF classify_step [OF a(2,5), where \<Theta> = ?U and \<Phi> = \<Phi> and H = False and T = T]])
      (use that mid uns in \<open>auto simp: at_dest_def\<close>)
  have refused: "triple (at_dest e False T \<Phi>) (refuse er) ?Q ?E" if "\<And>t. \<Phi> t \<Longrightarrow> ?S t" for \<Phi> er
    using that uns by (intro triple_refuse) (auto simp: at_dest_def failed_at_def)
  have after: "triple (at_dest e False T ?R)
    (then_do (ensure_identity e DestinationSide (am_destination m)) (\<lambda>_.
     then_do (classify_manifest e m) (\<lambda>after.
       if after \<noteq> AllPost then refuse (Says ''delegation apply did not produce the frozen postimage'')
       else give (output_of m)))) ?Q ?E"
  proof (rule triple_then [OF look], rule quiet_identity, use uns in blast, rule triple_then [OF cls], blast,
      rule triple_if)
    show "triple (at_dest e False T (?C ?R c)) (refuse (Says ''delegation apply did not produce the frozen postimage'')) ?Q ?E"
      for c by (rule refused) blast
  qed (rule triple_give, simp add: at_dest_def)
  have writes: "triple (at_dest e False T (?C ?S AllPre))
    (then_do (each (install_post e tid dir) (am_files m)) (\<lambda>_.
     then_do (ensure_identity e DestinationSide (am_destination m)) (\<lambda>_.
     then_do (classify_manifest e m) (\<lambda>after.
       if after \<noteq> AllPost then refuse (Says ''delegation apply did not produce the frozen postimage'')
       else give (output_of m))))) ?Q ?E"
    by (rule triple_weaken [OF triple_then [OF install_posts [where T = T, OF a(2,4)] after]]) (auto simp: at_dest_def)
  have verdict: "triple (at_dest e False T (?C ?S c)) (case c of
       AllPost \<Rightarrow> give (output_of m)
     | MixedKnown \<Rightarrow> refuse (Says ''destination contains a partially applied delegation'')
     | Divergent \<Rightarrow> refuse (Says ''destination diverged from the frozen delegation artifact'')
     | AllPre \<Rightarrow>
         then_do (each (install_post e tid dir) (am_files m)) (\<lambda>_.
         then_do (ensure_identity e DestinationSide (am_destination m)) (\<lambda>_.
         then_do (classify_manifest e m) (\<lambda>after.
           if after \<noteq> AllPost then refuse (Says ''delegation apply did not produce the frozen postimage'')
           else give (output_of m))))) ?Q ?E" for c
  proof (cases c)
    case AllPost
    have "triple (at_dest e False T (?C ?S AllPost)) (give (output_of m)) ?Q ?E"
      using verdicts(2) [OF mid(1)] by (intro triple_give) (auto simp: at_dest_def)
    with AllPost show ?thesis by simp
  next
    case AllPre
    with writes show ?thesis by simp
  qed (auto intro: refused)
  show ?thesis
    unfolding apply_prepared_artifacts_def
    by (rule triple_then [OF load], rule triple_fact, hypsubst, simp only: prod.case,
      rule triple_then [OF look], rule quiet_git_checks, assumption,
      rule triple_then [OF look], rule quiet_git_checks, assumption,
      rule triple_then [OF look], rule quiet_git_checks, assumption,
      rule triple_then [OF look], rule quiet_git_checks, assumption,
      rule triple_then [OF look], rule quiet_identity, assumption,
      rule triple_then [OF look], rule quiet_identity, assumption,
      rule triple_then [OF rec],
      rule triple_then [OF look], rule quiet_identity, erule uns,
      rule triple_then [OF look], rule quiet_git_checks, erule uns,
      rule triple_then [OF cls], assumption, rule verdict)
qed

end
