(* ===== verification/Apply_Prepare.thy ===== *)
theory Apply_Prepare
  imports Apply_Rollback
begin

text \<open>
  What a successful preparation leaves: a manifest that loads back, with the payload of every frozen file,
  and both worktrees as they were.
\<close>

section \<open>Names of payloads\<close>

lemma foldl_zeros: "foldl (\<lambda>a c. 10 * a + (c - 48)) (0 :: nat) (replicate k 48 @ s) = foldl (\<lambda>a c. 10 * a + (c - 48)) 0 s"
  by (induction k) auto

lemma pad8_inject: "pad8 m = pad8 n \<Longrightarrow> m = n"
  using dec_value [of m] dec_value [of n] by (metis pad8_def foldl_zeros)

lemma payload_file_inject: "payload_file m = payload_file n \<longleftrightarrow> m = n"
  using pad8_inject by (auto simp: payload_file_def)

lemma pad8_digits: "\<forall>c \<in> set (pad8 n). is_ascii_digit c"
  using dec_digits [of n] by (auto simp: pad8_def is_ascii_digit_def)

lemma length_pad8: "n < 10 ^ 8 \<Longrightarrow> length (pad8 n) = 8"
  using length_dec_le [of n 8] by (simp add: pad8_def)

lemma byte_len_ascii: "\<forall>c \<in> set s. c < 128 \<Longrightarrow> byte_len s = length s"
  by (induction s) (auto simp: utf8_len_def)

lemma payload_name_file: "n < 10 ^ 8 \<Longrightarrow> payload_name (payload_file n)"
proof -
  assume n: "n < 10 ^ 8"
  have "\<forall>c \<in> set (payload_file n). c < 128"
    using pad8_digits [of n] by (auto simp: payload_file_def is_ascii_digit_def lit_def)
  then have "byte_len (payload_file n) = 12"
    using length_pad8 [OF n] by (simp add: byte_len_ascii) (simp add: payload_file_def)
  then show ?thesis
    using pad8_digits [of n] by (auto simp: payload_name_def payload_file_def list_all_iff suffix_def)
qed

lemma split_on_single: "\<forall>x \<in> set xs. \<not> P x \<Longrightarrow> split_on P xs = [xs]"
  by (induction xs) auto

lemma split_on_append: "\<forall>x \<in> set xs. \<not> P x \<Longrightarrow> P y \<Longrightarrow> split_on P (xs @ y # ys) = xs # split_on P ys"
  by (induction xs) auto

lemma no_slash: "47 \<notin> set (payload_file n)" "47 \<notin> set (lit ''pre'')" "47 \<notin> set (lit ''post'')"
  using pad8_digits [of n] by (auto simp: payload_file_def is_ascii_digit_def lit_def)

lemma split_payload_ref:
  assumes "47 \<notin> set d"
  shows "split_on (\<lambda>c. c = 47) (d @ 47 # payload_file n) = [d, payload_file n]"
  using assms no_slash(1) [of n] by (subst split_on_append) (auto intro!: split_on_single)

section \<open>Writing artifacts\<close>

text \<open>A file of the artifact directory, reached through directories only.\<close>

definition holds_file :: "fs_tree \<Rightarrow> fs_path \<Rightarrow> bytes \<Rightarrow> bool" where
  "holds_file t p bs \<longleftrightarrow>
     p \<noteq> [] \<and> last p \<noteq> dot \<and> way_to t [] p = Clear \<and> (\<exists>m l. t p = Some (FsFile bs m l))"

lemma holds_file_read: "holds_file t p bs \<Longrightarrow> tree_read beyond p t = Inr bs"
  by (auto simp: holds_file_def tree_read_def tree_follow_def tree_stat_def entry_def)

lemma holds_file_root: "holds_file t p bs \<Longrightarrow> t [] = Some FsDir"
  unfolding holds_file_def way_to_Clear by (cases p) auto

lemma holds_file_update:
  assumes "holds_file t p bs" and "t q \<noteq> Some FsDir" and "q \<noteq> p"
  shows "holds_file (t(q := x)) p bs"
  using assms by (auto simp: holds_file_def way_to_Clear)

text \<open>The artifact directory gets the file, and the rest of the world is as it was.\<close>

definition put_artifact :: "apply_world \<Rightarrow> fs_path \<Rightarrow> bytes \<Rightarrow> apply_world \<Rightarrow> bool" where
  "put_artifact w p bs w' \<longleftrightarrow>
     holds_file (aw_tree w' Artifacts) p bs \<and>
     (\<forall>q b. holds_file (aw_tree w Artifacts) q b \<longrightarrow> q \<noteq> p \<longrightarrow> holds_file (aw_tree w' Artifacts) q b) \<and>
     (\<forall>side. aw_tree w' (Worktree side) = aw_tree w (Worktree side))"

lemma os_change_Inr:
  assumes "or_says (os_change e pl damage f) er w = (Inr u, w')"
  obtains t' where "f (aw_tree w pl) = Inr t'" and "aw_tree w' = (aw_tree w)(pl := t')"
  using assms by (auto simp: or_says_def os_change_def Let_def split: if_splits sum.splits)

lemma look_Inr: "or_says (os_look e pl f) er w = (Inr x, w') \<Longrightarrow> aw_tree w' = aw_tree w"
  by (auto simp: or_says_def os_look_def split: if_splits sum.splits)

lemma place_of_plain: "place_of p t = Inr x \<Longrightarrow> p \<noteq> [] \<Longrightarrow> last p \<noteq> dot \<Longrightarrow> way_to t [] p = Clear \<and> x = t p"
  by (auto simp: place_of_def entry_def split: way.splits)

lemma write_atomic_puts:
  assumes "write_atomic_private e p bs w = (Inr u, w')" and "p \<noteq> []" and "last p \<noteq> dot"
  shows "put_artifact w p bs w'"
proof -
  let ?t = "aw_tree w Artifacts"
  obtain temp w1 w2 w3 w4 w5 where temp: "temporary_sibling e (aw_calls w) p = Inr temp"
    and new: "or_says (os_create_new e Artifacts temp) (Says ''failed to create artifact temp file'') w = (Inr (), w1)"
    and mode: "or_says (os_set_mode e Artifacts temp 384) (Says ''failed to protect artifact file'') w1 = (Inr (), w2)"
    and bytes: "or_says (os_write_all e Artifacts temp bs) (Says ''failed to persist artifact'') w2 = (Inr (), w3)"
    and sync: "or_says (os_sync e Artifacts) (Says ''failed to persist artifact'') w3 = (Inr (), w4)"
    and ren: "or_says (os_rename e Artifacts temp p) (Says ''failed to install artifact'') w4 = (Inr (), w5)"
    and dir: "or_says (os_sync_dir e Artifacts (butlast p)) (Says ''failed to sync artifact directory'') w5 = (Inr u, w')"
    using assms(1) unfolding write_atomic_private_def by (elim then_do_Inr) auto
  from temp assms(2) obtain n where n: "temp = butlast p @ [lit ''.'' @ last p @ lit ''.dcc-tmp-'' @ dec n]"
    by (auto simp: temporary_sibling_def split: option.splits)
  have "length (last temp) > length (last p)" by (simp add: n)
  then have neq: "temp \<noteq> p" by auto
  have ndot: "temp \<noteq> []" "last temp \<noteq> dot" by (auto simp: n dot_def lit_def)
  obtain t1 where "tree_create (FsFile [] (oe_created_mode e) 1) temp ?t = Inr t1" and w1: "aw_tree w1 = (aw_tree w)(Artifacts := t1)"
    using new unfolding os_create_new_def by (rule os_change_Inr)
  then have none: "?t temp = None" and t1: "t1 = ?t(temp \<mapsto> FsFile [] (oe_created_mode e) 1)"
    using place_of_plain [of temp ?t] ndot by (auto simp: tree_create_def elim!: and_then_InrE split: if_splits)
  have w2: "aw_tree w2 = (aw_tree w)(Artifacts := ?t(temp \<mapsto> FsFile [] 384 1))"
    using mode unfolding os_set_mode_def by (rule os_change_Inr) (simp add: w1 t1 tree_change_def)
  have w4: "aw_tree w4 = (aw_tree w)(Artifacts := ?t(temp \<mapsto> FsFile bs 384 1))"
    using bytes look_Inr [OF sync [unfolded os_sync_def]] unfolding os_write_all_def
    by (elim os_change_Inr) (simp add: w2 tree_change_def)
  obtain t5 where t5: "tree_rename temp p (?t(temp \<mapsto> FsFile bs 384 1)) = Inr t5" and w5: "aw_tree w5 = (aw_tree w)(Artifacts := t5)"
    using ren unfolding os_rename_def by (rule os_change_Inr) (simp add: w4)
  let ?t4 = "?t(temp \<mapsto> FsFile bs 384 1)"
  obtain x y where x: "place_of temp ?t4 = Inr x" and y: "place_of p ?t4 = Inr y"
    and res: "(case x of None \<Rightarrow> Inl IoNotFound
       | Some n \<Rightarrow> if n = FsDir \<or> y = Some FsDir then Inl IoOther else Inr (?t4(temp := None, p \<mapsto> n))) = Inr t5"
    using t5 unfolding tree_rename_def and_then_Inr_iff by blast
  have "x = Some (FsFile bs 384 1)" using place_of_plain [OF x ndot] by simp
  with res have t5': "t5 = ?t(temp := None, p \<mapsto> FsFile bs 384 1)" and ydir: "y \<noteq> Some FsDir"
    by (auto split: if_splits)
  have way: "way_to ?t4 [] p = Clear" and nd: "?t p \<noteq> Some FsDir"
    using place_of_plain [OF y assms(2,3)] ydir neq by auto
  have t5: "t5 = ?t(p \<mapsto> FsFile bs 384 1)" using t5' none by (simp add: fun_upd_idem)
  have "aw_tree w' = aw_tree w5" using look_Inr [OF dir [unfolded os_sync_dir_def]] .
  moreover have "holds_file t5 p bs"
    using way assms(2,3) unfolding t5 holds_file_def way_to_Clear by (auto split: if_splits)
  ultimately show ?thesis
    using w5 nd holds_file_update unfolding put_artifact_def t5 by auto
qed


text \<open>What each file of the manifest is: the two snapshots, and their payloads in the directory.\<close>

definition frozen_file ::
    "apply_env \<Rightarrow> fs_path \<Rightarrow> fs_tree \<Rightarrow> fs_tree \<Rightarrow> fs_tree \<Rightarrow> nat \<Rightarrow> file_artifact \<Rightarrow> bool" where
  "frozen_file e dir td ts art k f \<longleftrightarrow>
     clear_way td (target f) \<and>
     node_snapshot e (td (target f)) = Some (fa_pre f) \<and> node_snapshot e (ts (target f)) = Some (fa_post f) \<and>
     fa_pre_payload f = payload_ref (lit ''pre'') k (node_payload (td (target f))) \<and>
     fa_post_payload f = payload_ref (lit ''post'') k (node_payload (ts (target f))) \<and>
     (\<forall>bs. node_payload (td (target f)) = Some bs \<longrightarrow> holds_file art (dir @ [lit ''pre'', payload_file k]) bs) \<and>
     (\<forall>bs. node_payload (ts (target f)) = Some bs \<longrightarrow> holds_file art (dir @ [lit ''post'', payload_file k]) bs)"

text \<open>Files of a directory stay when other paths are written.\<close>

definition keeps_files :: "fs_path set \<Rightarrow> apply_world \<Rightarrow> apply_world \<Rightarrow> bool" where
  "keeps_files P w w' \<longleftrightarrow>
     (\<forall>q b. holds_file (aw_tree w Artifacts) q b \<longrightarrow> q \<notin> P \<longrightarrow> holds_file (aw_tree w' Artifacts) q b) \<and>
     (\<forall>side. aw_tree w' (Worktree side) = aw_tree w (Worktree side))"

lemma keeps_files_same: "aw_tree w' = aw_tree w \<Longrightarrow> keeps_files P w w'"
  by (simp add: keeps_files_def)

lemma keeps_files_trans: "keeps_files P w w1 \<Longrightarrow> keeps_files Q w1 w' \<Longrightarrow> P \<subseteq> R \<Longrightarrow> Q \<subseteq> R \<Longrightarrow> keeps_files R w w'"
  by (simp add: keeps_files_def subset_iff) blast

lemma put_artifact_keeps: "put_artifact w p bs w' \<Longrightarrow> keeps_files {p} w w'"
  by (auto simp: put_artifact_def keeps_files_def)

lemma payload_file_plain: "payload_file n \<noteq> dot"
proof
  assume "payload_file n = dot"
  then have "length (payload_file n) = 1" by (simp add: dot_def lit_def)
  then show False by (simp add: payload_file_def)
qed

lemma write_payload_puts:
  assumes "write_payload e dir k payload w = (Inr u, w')"
  shows "keeps_files {dir @ [payload_file k]} w w' \<and>
    (\<forall>bs. payload = Some bs \<longrightarrow> holds_file (aw_tree w' Artifacts) (dir @ [payload_file k]) bs)"
proof (cases payload)
  case None
  with assms show ?thesis by (auto simp: write_payload_def give_def keeps_files_same)
next
  case (Some bs)
  with assms have "write_atomic_private e (dir @ [payload_file k]) bs w = (Inr u, w')" by (simp add: write_payload_def)
  from write_atomic_puts [OF this] payload_file_plain [of k] have "put_artifact w (dir @ [payload_file k]) bs w'" by simp
  with put_artifact_keeps [OF this] Some show ?thesis by (simp add: put_artifact_def)
qed

abbreviation payload_paths :: "fs_path \<Rightarrow> nat \<Rightarrow> fs_path set" where
  "payload_paths dir k \<equiv> {dir @ [side, payload_file i] | side i. side \<in> {lit ''pre'', lit ''post''} \<and> k \<le> i}"

lemma frozen_file_kept:
  assumes "frozen_file e dir td ts (aw_tree w Artifacts) k f" and "keeps_files (payload_paths dir (Suc k)) w w'"
  shows "frozen_file e dir td ts (aw_tree w' Artifacts) k f"
proof -
  have "dir @ [side, payload_file k] \<notin> payload_paths dir (Suc k)" for side
    by (auto simp: payload_file_inject)
  with assms show ?thesis unfolding frozen_file_def keeps_files_def by blast
qed

lemma quiet_reject_submodule [quiet_intros]: "quiet (reject_submodule e side s)"
  unfolding reject_submodule_def by (auto intro!: quiet_intros)

lemma freeze_files_frozen:
  assumes "freeze_files e dir k n ps w = (Inr (files, tot), w')"
    and "tree_ok (aw_tree w (Worktree DestinationSide))" and "tree_ok (aw_tree w (Worktree SourceSide))"
    and "\<forall>p \<in> set ps. plain_target p"
  shows "map fa_path files = ps \<and> keeps_files (payload_paths dir k) w w' \<and>
    (\<forall>i < length files. frozen_file e dir (aw_tree w (Worktree DestinationSide)) (aw_tree w (Worktree SourceSide))
       (aw_tree w' Artifacts) (k + i) (files ! i))"
  using assms
proof (induction ps arbitrary: k n w files tot)
  case Nil
  then show ?case by (simp add: give_Inr keeps_files_same)
next
  case (Cons p ps)
  let ?td = "aw_tree w (Worktree DestinationSide)" and ?ts = "aw_tree w (Worktree SourceSide)" and ?q = "normal_names p"
  obtain w1 w2 w3 w4 w5 pre pb post qb n' fs where rej: "reject_submodule e SourceSide p w = (Inr (), w1)"
    and pre: "capture_snapshot e (Worktree DestinationSide) p w1 = (Inr (pre, pb), w2)"
    and post: "capture_snapshot e (Worktree SourceSide) p w2 = (Inr (post, qb), w3)"
    and wpre: "write_payload e (dir @ [lit ''pre'']) k pb w3 = (Inr (), w4)"
    and wpost: "write_payload e (dir @ [lit ''post'']) k qb w4 = (Inr (), w5)"
    and rest: "freeze_files e dir (Suc k) n' ps w5 = (Inr (fs, tot), w')"
    and files: "files = \<lparr>fa_path = p, fa_pre = pre, fa_post = post,
      fa_pre_payload = payload_ref (lit ''pre'') k pb, fa_post_payload = payload_ref (lit ''post'') k qb\<rparr> # fs"
    using Cons.prems(1)
    by (auto simp: act_Inr split: option.splits if_splits elim!: then_do_Inr)
  note same = quietD [OF quiet_reject_submodule rej] quietD [OF quiet_capture pre] quietD [OF quiet_capture post]
  have plain: "plain_target p" using Cons.prems(4) by simp
  have cap: "clear_way ?td ?q" "node_snapshot e (?td ?q) = Some pre" "node_payload (?td ?q) = pb"
      "node_snapshot e (?ts ?q) = Some post" "node_payload (?ts ?q) = qb"
    using capture_truthful [OF pre _ plain] capture_truthful [OF post _ plain] same Cons.prems(2,3) by auto
  note put = write_payload_puts [OF wpre] write_payload_puts [OF wpost]
  have trees: "aw_tree w5 (Worktree side) = aw_tree w (Worktree side)" for side
    using put same by (simp add: keeps_files_def)
  note ih = Cons.IH [OF rest, unfolded trees, OF Cons.prems(2,3)]
  have fs: "map fa_path fs = ps" "keeps_files (payload_paths dir (Suc k)) w5 w'"
      "\<forall>i < length fs. frozen_file e dir ?td ?ts (aw_tree w' Artifacts) (Suc k + i) (fs ! i)"
    using ih Cons.prems(4) by auto
  have "lit ''pre'' \<noteq> lit ''post''" by (simp add: lit_def)
  then have "frozen_file e dir ?td ?ts (aw_tree w5 Artifacts) k (hd files)"
    using cap put unfolding files frozen_file_def keeps_files_def by (simp add: target_def)
  from frozen_file_kept [OF this fs(2)] have
    "\<forall>i < length files. frozen_file e dir ?td ?ts (aw_tree w' Artifacts) (k + i) (files ! i)"
    using fs(3) files by (auto simp: nth_Cons split: nat.splits)
  moreover have "keeps_files (payload_paths dir k) w w'"
  proof (rule keeps_files_trans [OF keeps_files_same])
    show "aw_tree w3 = aw_tree w" using same by simp
    have "keeps_files (payload_paths dir k) w3 w5"
      by (rule keeps_files_trans [OF conjunct1 [OF put(1)] conjunct1 [OF put(2)]]) auto
    then show "keeps_files (payload_paths dir k) w3 w'"
      by (rule keeps_files_trans [OF _ fs(2)]) (auto intro: Suc_leD)
  qed auto
  ultimately show ?case using fs(1) files by simp
qed


section \<open>What is frozen is valid\<close>

lemma hex_digits: "list_all is_ascii_hexdigit (hex bs)"
proof (induction bs)
  case (Cons b bs)
  have "is_ascii_hexdigit (hex_digit n)" if "n < 16" for n
    using that by (auto simp: hex_digit_def is_ascii_hexdigit_def is_ascii_digit_def)
  moreover have "unat b div 16 < 16" "unat b mod 16 < 16"
    using unsigned_less [of b, where ?'a = nat] by (simp_all add: less_mult_imp_div_less)
  ultimately show ?case using Cons by (simp add: hex_def)
qed (simp add: hex_def)

lemma hex_ascii: "\<forall>c \<in> set (hex bs). c < 128"
  using hex_digits [of bs] by (auto simp: list_all_iff is_ascii_hexdigit_def is_ascii_digit_def)

lemma capture_shape:
  assumes "capture_snapshot e pl s w = (Inr (snap, payload), w')"
  obtains (missing) "snap = missing_snapshot e" "payload = None"
    | (regular) bs m where "snap = regular_snapshot e bs (file_mode m)" "payload = Some bs"
  using assms unfolding capture_snapshot_def asking_def
  by (auto simp: act_Inr split: prod.splits sum.splits io_error.splits fs_node.splits elim!: then_do_Inr)

lemma captured_snapshot_valid:
  assumes "capture_snapshot e pl s w = (Inr (snap, payload), w')" and "\<forall>bs. length (ae_sha256 e bs) = 32"
  shows "validate_snapshot snap = Inr ()" and "sn_bytes snap = payload_len payload"
    and "k < 10 ^ 8 \<Longrightarrow> validate_payload_name (payload_ref dir k payload) dir snap = Inr ()"
proof -
  have "byte_len (sha256_hex e bs) = 64" for bs
    using byte_len_ascii [OF hex_ascii] assms(2) by (simp add: sha256_hex_def)
  then show "validate_snapshot snap = Inr ()"
    using capture_shape [OF assms(1)] hex_digits
    by (cases rule: capture_shape [OF assms(1)])
      (auto simp: validate_snapshot_def is_hex_def missing_snapshot_def regular_snapshot_def sha256_hex_def)
  show "sn_bytes snap = payload_len payload"
    by (cases rule: capture_shape [OF assms(1)]) (auto simp: missing_snapshot_def regular_snapshot_def payload_len_def)
  have "strip_prefix (dir @ [47]) (dir @ 47 # payload_file k) = Some (payload_file k)"
    by (simp add: strip_prefix_def starts_with_def)
  then show "validate_payload_name (payload_ref dir k payload) dir snap = Inr ()" if "k < 10 ^ 8"
    using payload_name_file [OF that]
    by (cases rule: capture_shape [OF assms(1)])
      (auto simp: validate_payload_name_def payload_ref_def require_def)
qed

lemma freeze_files_valid:
  assumes "freeze_files e dir k n ps w = (Inr (files, tot), w')" and "\<forall>bs. length (ae_sha256 e bs) = 32"
    and "k + length ps \<le> 10 ^ 8" and "distinct ps" and "set ps \<inter> seen = {}"
  shows "validate_files seen n files = Inr ()"
  using assms
proof (induction ps arbitrary: k n w files tot seen)
  case Nil
  then show ?case by (simp add: give_Inr)
next
  case (Cons p ps)
  obtain w1 w2 w3 w5 pre pb post qb n' fs where rel: "validate_relative_path p = Inr ()"
    and pre: "capture_snapshot e (Worktree DestinationSide) p w1 = (Inr (pre, pb), w2)"
    and post: "capture_snapshot e (Worktree SourceSide) p w2 = (Inr (post, qb), w3)"
    and add: "Option.bind (checked_add n (payload_len pb)) (\<lambda>v. checked_add v (payload_len qb)) = Some n'"
    and limit: "\<not> n' > MAX_ARTIFACT_BYTES"
    and rest: "freeze_files e dir (Suc k) n' ps w5 = (Inr (fs, tot), w')"
    and files: "files = \<lparr>fa_path = p, fa_pre = pre, fa_post = post,
      fa_pre_payload = payload_ref (lit ''pre'') k pb, fa_post_payload = payload_ref (lit ''post'') k qb\<rparr> # fs"
    using Cons.prems(1)
    by (auto simp: act_Inr split: option.splits if_splits elim!: then_do_Inr)
  have "validate_files (insert p seen) n' fs = Inr ()"
    using Cons.prems(3-5) by (intro Cons.IH [OF rest Cons.prems(2)]) auto
  then show ?case
    using rel add limit captured_snapshot_valid [OF pre Cons.prems(2)] captured_snapshot_valid [OF post Cons.prems(2)]
      Cons.prems(3,5)
    by (simp add: files)
qed


section \<open>The manifest\<close>

lemma trim_hex: "trim (hex bs) = hex bs" "trim (hex bs @ [10]) = hex bs"
proof -
  have ends: "dropWhile is_whitespace xs = xs" if "list_all is_ascii_hexdigit xs" for xs
    using that by (intro dropWhile_id) (cases xs, auto simp: is_ascii_hexdigit_def is_ascii_digit_def is_whitespace_def)
  have "list_all is_ascii_hexdigit (rev (hex bs))" using hex_digits [of bs] by (simp add: list_all_iff)
  note both = ends [OF hex_digits [of bs]] ends [OF this]
  have "is_whitespace 10" by (simp add: is_whitespace_def)
  show "trim (hex bs) = hex bs" by (simp add: trim_def trim_start_def trim_end_def both)
  have "dropWhile is_whitespace (hex bs @ [10]) = (if hex bs = [] then [] else hex bs @ [10])"
    using hex_digits [of bs] \<open>is_whitespace 10\<close>
    by (cases "hex bs") (auto simp: is_ascii_hexdigit_def is_ascii_digit_def is_whitespace_def)
  then show "trim (hex bs @ [10]) = hex bs"
    using \<open>is_whitespace 10\<close> both(2) by (simp add: trim_def trim_start_def trim_end_def)
qed

lemma valid_hex: "valid_str (hex bs)"
  using hex_ascii [of bs] by (auto simp: valid_str_def list_all_iff scalar_def)

lemma transaction_dir_single:
  assumes "transaction_dir e tid = Inr dir"
  shows "\<exists>n. dir = [n] \<and> n \<noteq> dot" and "ae_uuid e tid"
proof -
  from assms show "ae_uuid e tid"
    by (auto simp: transaction_dir_def validate_transaction_id_def require_def and_then_Inr_iff split: if_splits)
  from assms obtain n where "components tid = [Normal n]" "dir = [n]"
    by (auto simp: transaction_dir_def and_then_Inr_iff split: list.splits path_component.splits)
  with normal_component [of n tid] show "\<exists>n. dir = [n] \<and> n \<noteq> dot" by simp
qed

lemma frozen_file_frozen: "frozen_file e dir td ts art k f \<Longrightarrow> frozen e f"
  by (auto simp: frozen_file_def frozen_def)

lemma frozen_payload:
  assumes "node_snapshot e x = Some s" and "47 \<notin> set d"
    and "\<forall>bs. node_payload x = Some bs \<longrightarrow> holds_file art (dir @ [d, payload_file k]) bs"
  shows "stored_payload e art dir (payload_ref d k (node_payload x)) s"
  using assms(1)
proof (cases rule: node_snapshotE)
  case (regular bs m)
  with assms(3) have "holds_file art (dir @ [d, payload_file k]) bs" by simp
  with regular show ?thesis
    using holds_file_read split_payload_ref [OF assms(2), of k]
    by (auto simp: stored_payload_def payload_ref_def regular_snapshot_def)
qed (simp add: stored_payload_def)

lemma frozen_file_stored: "frozen_file e dir td ts art k f \<Longrightarrow> stored_payloads e art dir f"
  unfolding frozen_file_def stored_payloads_def using frozen_payload no_slash(2,3) by metis

definition manifest_of :: "rstr \<Rightarrow> apply_identity \<Rightarrow> apply_identity \<Rightarrow> file_artifact list \<Rightarrow> apply_manifest" where
  "manifest_of tid source destination files =
     \<lparr>am_version = 1, am_transaction_id = tid, am_source = source, am_destination = destination, am_files = files\<rparr>"

lemma manifest_of_simps [simp]:
  "am_version (manifest_of tid s d files) = 1" "am_transaction_id (manifest_of tid s d files) = tid"
  "am_source (manifest_of tid s d files) = s" "am_destination (manifest_of tid s d files) = d"
  "am_files (manifest_of tid s d files) = files"
  by (simp_all add: manifest_of_def)

lemma freeze_manifest_stored:
  assumes run: "freeze_manifest e tid dir source destination ps w = (Inr prep, w')"
    and ok: "tree_ok (aw_tree w (Worktree DestinationSide))" "tree_ok (aw_tree w (Worktree SourceSide))"
    and paths: "\<forall>p \<in> set ps. plain_target p" "distinct ps" "ps \<noteq> []" "length ps \<le> MAX_ARTIFACT_FILES"
      "validate_case_distinct_paths e ps = Inr ()"
    and dir: "transaction_dir e tid = Inr dir"
    and sha: "\<forall>bs. length (ae_sha256 e bs) = 32" and json: "\<forall>m. ae_parse e (ae_json e m) = Some m"
  shows "\<exists>files. stored_manifest e tid (pa_manifest_digest prep) (aw_tree w' Artifacts) (manifest_of tid source destination files) dir \<and>
    (\<forall>side. aw_tree w' (Worktree side) = aw_tree w (Worktree side)) \<and>
    map fa_path files = ps \<and> pa_changed_files prep = ps \<and>
    pa_source_identity prep = source \<and> pa_destination_identity prep = destination \<and>
    (\<forall>f \<in> set files. \<exists>k. frozen_file e dir (aw_tree w (Worktree DestinationSide)) (aw_tree w (Worktree SourceSide))
       (aw_tree w' Artifacts) k f)"
proof -
  let ?bs = "\<lambda>files. ae_json e (manifest_of tid source destination files)"
  obtain w1 w2 w3 files tot where freeze: "freeze_files e dir 0 0 ps w = (Inr (files, tot), w1)"
    and json_w: "write_atomic_private e (dir @ [lit ''manifest.json'']) (?bs files) w1 = (Inr (), w2)"
    and sha_w: "write_atomic_private e (dir @ [lit ''manifest.sha256'']) (utf8 (sha256_hex e (?bs files) @ [10])) w2 = (Inr (), w3)"
    and sync: "or_says (os_sync_dir e Artifacts dir) (Says ''failed to sync artifact directory'') w3 = (Inr (), w')"
    and prep: "pa_manifest_digest prep = sha256_hex e (?bs files)" "pa_changed_files prep = map fa_path files"
      "pa_source_identity prep = source" "pa_destination_identity prep = destination"
    using run unfolding freeze_manifest_def Let_def manifest_of_def
    by (elim then_do_Inr) (auto simp: act_Inr elim!: then_do_Inr)
  obtain n where n: "dir = [n]" "n \<noteq> dot" using transaction_dir_single(1) [OF dir] by blast
  have names: "lit ''manifest.json'' \<noteq> dot" "lit ''manifest.sha256'' \<noteq> dot"
      "dir @ [lit ''manifest.json''] \<noteq> dir @ [lit ''manifest.sha256'']"
    by (auto simp: dot_def lit_def)
  have put1: "put_artifact w1 (dir @ [lit ''manifest.json'']) (?bs files) w2"
    by (rule write_atomic_puts [OF json_w]) (use names in auto)
  have put2: "put_artifact w2 (dir @ [lit ''manifest.sha256'']) (utf8 (sha256_hex e (?bs files) @ [10])) w3"
    by (rule write_atomic_puts [OF sha_w]) (use names in auto)
  have w': "aw_tree w' = aw_tree w3" using look_Inr [OF sync [unfolded os_sync_dir_def]] .
  note frozen = freeze_files_frozen [OF freeze ok paths(1)]
  have len: "0 + length ps \<le> 10 ^ 8" using paths(4) by (simp add: MAX_ARTIFACT_FILES_def)
  have valid: "validate_files {} 0 files = Inr ()"
    by (rule freeze_files_valid [OF freeze sha len paths(2)]) simp
  have holds: "holds_file (aw_tree w' Artifacts) (dir @ [lit ''manifest.json'']) (?bs files)"
      "holds_file (aw_tree w' Artifacts) (dir @ [lit ''manifest.sha256'']) (utf8 (sha256_hex e (?bs files) @ [10]))"
    using put1 put2 names(3) unfolding w' put_artifact_def by auto
  have "stored_manifest e tid (pa_manifest_digest prep) (aw_tree w' Artifacts) (manifest_of tid source destination files) dir"
    unfolding stored_manifest_def
  proof (intro conjI exI)
    show "ae_uuid e tid" by (rule transaction_dir_single(2) [OF dir])
    show "tree_read (oe_beyond e Artifacts) (dir @ [lit ''manifest.json'']) (aw_tree w' Artifacts) = Inr (?bs files)"
      and "tree_read (oe_beyond e Artifacts) (dir @ [lit ''manifest.sha256'']) (aw_tree w' Artifacts) =
        Inr (utf8 (sha256_hex e (?bs files) @ [10]))"
      using holds by (auto intro: holds_file_read)
    show "from_utf8 (utf8 (sha256_hex e (?bs files) @ [10])) = Some (sha256_hex e (?bs files) @ [10])"
      by (rule from_utf8_utf8) (simp add: sha256_hex_def valid_hex scalar_def)
    show "trim (sha256_hex e (?bs files) @ [10]) = sha256_hex e (?bs files)"
      "trim (pa_manifest_digest prep) = sha256_hex e (?bs files)"
      by (simp_all add: prep sha256_hex_def trim_hex)
    show "byte_len (trim (pa_manifest_digest prep)) = 64" "is_hex (trim (pa_manifest_digest prep))"
      using byte_len_ascii [OF hex_ascii] sha hex_digits by (simp_all add: prep sha256_hex_def trim_hex is_hex_def)
    show "validate_manifest e (manifest_of tid source destination files) = Inr ()"
      using frozen paths(3-5) valid by (auto simp: validate_manifest_def)
  qed (use dir holds_file_root [OF holds(1)] json in auto)
  moreover have "\<forall>f \<in> set files. \<exists>k. frozen_file e dir (aw_tree w (Worktree DestinationSide))
      (aw_tree w (Worktree SourceSide)) (aw_tree w' Artifacts) k f"
  proof
    fix f assume "f \<in> set files"
    then obtain i where "i < length files" "files ! i = f" by (auto simp: in_set_conv_nth)
    with frozen have at1: "frozen_file e dir (aw_tree w (Worktree DestinationSide)) (aw_tree w (Worktree SourceSide))
        (aw_tree w1 Artifacts) i f" by auto
    have "keeps_files {dir @ [lit ''manifest.json''], dir @ [lit ''manifest.sha256'']} w1 w3"
      by (rule keeps_files_trans [OF put_artifact_keeps [OF put1] put_artifact_keeps [OF put2]]) auto
    then show "\<exists>k. frozen_file e dir (aw_tree w (Worktree DestinationSide))
        (aw_tree w (Worktree SourceSide)) (aw_tree w' Artifacts) k f"
      using at1 unfolding w' frozen_file_def keeps_files_def by (intro exI [of _ i]) auto
  qed
  moreover have "aw_tree w' (Worktree side) = aw_tree w (Worktree side)" for side
    using frozen put1 put2 unfolding w' put_artifact_def keeps_files_def by simp
  ultimately show ?thesis using frozen prep by (intro exI [of _ files]) auto
qed


section \<open>Preparing\<close>

definition temp_path :: "apply_env \<Rightarrow> rstr \<Rightarrow> rstr \<Rightarrow> fs_path" where
  "temp_path e tid p =
     butlast (normal_names p) @ [lit ''.'' @ last (normal_names p) @ lit ''.dcc-tmp-'' @ tid @ lit ''-''
       @ take 16 (sha256_hex e (utf8 p))]"

text \<open>
  The paths are plain and apart, as Git prints the paths of files: none is above another, and no path of
  a temporary file is one of them or above one.
\<close>

definition paths_apart :: "apply_env \<Rightarrow> rstr \<Rightarrow> rstr list \<Rightarrow> bool" where
  "paths_apart e tid ps \<longleftrightarrow>
     distinct (map normal_names ps) \<and>
     (\<forall>p \<in> set ps. plain_target p \<and>
        (\<forall>q \<in> set ps. \<not> strict_prefix (normal_names p) (normal_names q) \<and>
           \<not> prefix (temp_path e tid p) (normal_names q)))"

lemma paths_apart_layout: "ae_uuid e tid \<Longrightarrow> paths_apart e tid (map fa_path files) \<Longrightarrow> layout_ok e tid files"
  by (simp add: paths_apart_def layout_ok_def temp_path_def temp_of_def target_def [abs_def] comp_def)

lemma quiet_paths [quiet_intros]: "quiet (tracked_changed_paths e side)" "quiet (untracked_paths e side)"
  unfolding tracked_changed_paths_def untracked_paths_def by (auto intro!: quiet_intros)

lemma quiet_collision [quiet_intros]: "quiet (ensure_no_untracked_collision e ps)"
  unfolding ensure_no_untracked_collision_def by (auto intro!: quiet_intros split: option.splits)

text \<open>\<open>keeps I m\<close>: whichever calls fail, \<open>m\<close> leaves trees with \<open>I\<close> when it finds such trees.\<close>

definition keeps :: "((place \<Rightarrow> fs_tree) \<Rightarrow> bool) \<Rightarrow> (apply_world \<Rightarrow> 'r \<times> apply_world) \<Rightarrow> bool" where
  "keeps I m \<longleftrightarrow> (\<forall>w. I (aw_tree w) \<longrightarrow> I (aw_tree (snd (m w))))"

named_theorems keeps_intros \<open>computations that keep an invariant of the trees\<close>

lemma keepsD: "keeps I m \<Longrightarrow> I (aw_tree w) \<Longrightarrow> m w = (r, w') \<Longrightarrow> I (aw_tree w')"
  unfolding keeps_def by (metis snd_conv)

lemma keepsI: "(\<And>w r w'. I (aw_tree w) \<Longrightarrow> m w = (r, w') \<Longrightarrow> I (aw_tree w')) \<Longrightarrow> keeps I m"
  unfolding keeps_def by (metis prod.collapse)

lemma quiet_keeps: "quiet m \<Longrightarrow> keeps I m"
  by (simp add: quiet_def keeps_def)

lemma keeps_or_says [keeps_intros]: "keeps I m \<Longrightarrow> keeps I (or_says m er)"
  by (rule keepsI) (auto simp: or_says_def split: prod.splits sum.splits dest: keepsD)

lemma keeps_asking [keeps_intros]: "keeps I m \<Longrightarrow> (\<And>r. keeps I (k r)) \<Longrightarrow> keeps I (asking m k)"
  by (rule keepsI) (auto simp: asking_def split: prod.splits dest: keepsD)

lemma keeps_then [keeps_intros]: "keeps I m \<Longrightarrow> (\<And>x. keeps I (f x)) \<Longrightarrow> keeps I (then_do m f)"
  by (rule keepsI) (auto simp: then_do_def split: prod.splits sum.splits dest: keepsD)

lemma keeps_if [keeps_intros]: "keeps I m \<Longrightarrow> keeps I n \<Longrightarrow> keeps I (if c then m else n)"
  by simp

lemma keeps_each [keeps_intros]: "(\<And>x. keeps I (f x)) \<Longrightarrow> keeps I (each f xs)"
  by (induction xs) (auto intro: keeps_then quiet_keeps quiet_give)

lemmas keeps_looks [keeps_intros] =
  quiet_give [THEN quiet_keeps] quiet_refuse [THEN quiet_keeps] quiet_checked [THEN quiet_keeps]
  quiet_os [THEN quiet_keeps] quiet_exists [THEN quiet_keeps] quiet_identity [THEN quiet_keeps]
  quiet_git_checks [THEN quiet_keeps] quiet_paths [THEN quiet_keeps] quiet_collision [THEN quiet_keeps]
  quiet_reject_submodule [THEN quiet_keeps] quiet_capture [THEN quiet_keeps]
  quiet_ensure_no_symlink_ancestors [THEN quiet_keeps]

text \<open>The files of both worktrees stay.\<close>

definition same_worktrees :: "(place \<Rightarrow> fs_tree) \<Rightarrow> (place \<Rightarrow> fs_tree) \<Rightarrow> bool" where
  "same_worktrees T T' \<longleftrightarrow> (\<forall>side. T' (Worktree side) = T (Worktree side))"

lemma same_worktrees_refl [simp]: "same_worktrees T T"
  by (simp add: same_worktrees_def)

lemma same_worktreesD:
  "(\<And>T. keeps (same_worktrees T) m) \<Longrightarrow> m w = (r, w') \<Longrightarrow> aw_tree w' (Worktree side) = aw_tree w (Worktree side)"
  using keepsD [of "same_worktrees (aw_tree w)" m w r w'] by (simp add: same_worktrees_def)

lemma spares_change: "keeps (same_worktrees T) (os_change e Artifacts damage f)"
  by (rule keepsI) (auto simp: same_worktrees_def os_change_def Let_def split: sum.splits if_splits)

lemma spares_os [keeps_intros]:
  "keeps (same_worktrees T) (os_create_dir e Artifacts p)" "keeps (same_worktrees T) (os_create_dir_all e Artifacts)"
  "keeps (same_worktrees T) (os_create_new e Artifacts p)" "keeps (same_worktrees T) (os_open e Artifacts p)"
  "keeps (same_worktrees T) (os_set_mode e Artifacts p m)" "keeps (same_worktrees T) (os_write_all e Artifacts p bs)"
  "keeps (same_worktrees T) (os_rename e Artifacts p q)" "keeps (same_worktrees T) (os_remove_dir_all e Artifacts p)"
  unfolding os_create_dir_def os_create_dir_all_def os_create_new_def os_open_def os_set_mode_def os_write_all_def
    os_rename_def os_remove_dir_all_def
  by (rule spares_change)+

lemma spares_artifact_root [keeps_intros]: "keeps (same_worktrees T) (ensure_artifact_root e)"
  unfolding ensure_artifact_root_def by (intro keeps_intros)

lemma spares_private [keeps_intros]:
  "keeps (same_worktrees T) (create_private_dir e p)" "keeps (same_worktrees T) (write_atomic_private e p bs)"
  "keeps (same_worktrees T) (write_payload e p k payload)"
proof -
  have "keeps I (\<lambda>w. (temporary_sibling e (aw_calls w) p, w))" for p I by (simp add: keeps_def)
  then show "keeps (same_worktrees T) (write_atomic_private e p bs)" for p bs
    unfolding write_atomic_private_def by (intro keeps_intros)
  then show "keeps (same_worktrees T) (write_payload e p k payload)"
    unfolding write_payload_def by (cases payload) (auto intro: keeps_intros)
qed (auto simp: create_private_dir_def intro!: keeps_intros)

lemma spares_freeze_files [keeps_intros]: "keeps (same_worktrees T) (freeze_files e dir k n ps)"
  by (induction ps arbitrary: k n)
    (auto intro!: keeps_intros split: option.splits)

lemma spares_freeze_manifest [keeps_intros]: "keeps (same_worktrees T) (freeze_manifest e tid dir s d ps)"
  unfolding freeze_manifest_def Let_def by (auto intro!: keeps_intros)

lemma spares_discarding [keeps_intros]:
  assumes "keeps (same_worktrees T) m"
  shows "keeps (same_worktrees T) (discarding e dir m)"
proof (rule keepsI)
  fix w r w' assume I: "same_worktrees T (aw_tree w)" and run: "discarding e dir m w = (r, w')"
  obtain r1 w1 where m: "m w = (r1, w1)" by (cases "m w")
  obtain r2 w2 where rm: "os_remove_dir_all e Artifacts dir w1 = (r2, w2)" by (cases "os_remove_dir_all e Artifacts dir w1")
  have "w' = w1 \<or> w' = w2" using run m rm by (auto simp: discarding_def split: sum.splits)
  then show "same_worktrees T (aw_tree w')"
    using keepsD [OF assms I m] keepsD [OF spares_os(8) _ rm] by auto
qed

lemma spares_prepare: "keeps (same_worktrees T) (prepare_apply_artifacts e tid)"
  unfolding prepare_apply_artifacts_def Let_def by (intro keeps_intros)

lemma prepare_runs:
  assumes "prepare_apply_artifacts e tid w = (Inr prep, w')"
  obtains dir source destination ps w1
  where "freeze_manifest e tid dir source destination ps w1 = (Inr prep, w')"
    and "\<forall>side. aw_tree w1 (Worktree side) = aw_tree w (Worktree side)"
    and "transaction_dir e tid = Inr dir" and "ps \<noteq> []" and "length ps \<le> MAX_ARTIFACT_FILES"
    and "validate_case_distinct_paths e ps = Inr ()"
    and "\<exists>tracked untracked v1 v2 v3. ps = remdups_adj (sort (tracked @ untracked)) \<and>
      tracked_changed_paths e SourceSide v1 = (Inr tracked, v2) \<and> untracked_paths e SourceSide v2 = (Inr untracked, v3) \<and>
      (\<forall>side. aw_tree v1 (Worktree side) = aw_tree w (Worktree side))"
proof -
  let ?look = "\<lambda>w w'. \<forall>side. aw_tree w' (Worktree side) = aw_tree w (Worktree side)"
  obtain w2 w3 w4 dest' w5 source' w6 w7 w8 w9 tracked w10 untracked w11
    where steps: "ensure_git_root e DestinationSide w = (Inr (), w2)" "ensure_git_root e SourceSide w2 = (Inr (), w3)"
      "ensure_artifact_root e w3 = (Inr (), w4)" "inspect_identity e DestinationSide w4 = (Inr dest', w5)"
      "inspect_identity e SourceSide w5 = (Inr source', w6)" "ensure_clean_repository e DestinationSide w6 = (Inr (), w7)"
      "ensure_no_operation_in_progress e DestinationSide w7 = (Inr (), w8)"
      "ensure_no_operation_in_progress e SourceSide w8 = (Inr (), w9)"
      "tracked_changed_paths e SourceSide w9 = (Inr tracked, w10)" "untracked_paths e SourceSide w10 = (Inr untracked, w11)"
    and rest: "(let paths = remdups_adj (sort (tracked @ untracked))
           in then_do (checked (validate_case_distinct_paths e paths)) (\<lambda>_.
              if paths = [] then refuse (Says ''delegation worktree has no changes to apply'')
              else if length paths > MAX_ARTIFACT_FILES
              then refuse (Says ''delegation apply exceeds the 10000 file limit'')
              else
                then_do (ensure_no_untracked_collision e paths) (\<lambda>_.
                then_do (checked (transaction_dir e tid)) (\<lambda>dir.
                asking (os_exists e Artifacts dir) (\<lambda>there.
                  if there then refuse (Says ''delegation apply transaction already exists'')
                  else
                    then_do (create_private_dir e dir) (\<lambda>_.
                    then_do (create_private_dir e (dir @ [lit ''pre''])) (\<lambda>_.
                    then_do (create_private_dir e (dir @ [lit ''post''])) (\<lambda>_.
                      discarding e dir (freeze_manifest e tid dir source' dest' paths))))))))) w11 = (Inr prep, w')"
    using assms unfolding prepare_apply_artifacts_def
    by (elim then_do_Inr) (simp add: act_Inr refuse_Inr split: if_splits, elim then_do_Inr, blast)
  let ?ps = "remdups_adj (sort (tracked @ untracked))"
  obtain w12 dir where paths: "validate_case_distinct_paths e ?ps = Inr ()" "?ps \<noteq> []" "length ?ps \<le> MAX_ARTIFACT_FILES"
    and coll: "ensure_no_untracked_collision e ?ps w11 = (Inr (), w12)" and dir: "transaction_dir e tid = Inr dir"
    and ask: "asking (os_exists e Artifacts dir) (\<lambda>there.
                  if there then refuse (Says ''delegation apply transaction already exists'')
                  else
                    then_do (create_private_dir e dir) (\<lambda>_.
                    then_do (create_private_dir e (dir @ [lit ''pre''])) (\<lambda>_.
                    then_do (create_private_dir e (dir @ [lit ''post''])) (\<lambda>_.
                      discarding e dir (freeze_manifest e tid dir source' dest' ?ps))))) w12 = (Inr prep, w')"
    using rest unfolding Let_def
    by (elim then_do_Inr) (simp add: act_Inr not_less split: if_splits, elim then_do_Inr, simp add: act_Inr)
  obtain there w13 where ex: "os_exists e Artifacts dir w12 = (there, w13)" by (cases "os_exists e Artifacts dir w12")
  have "\<not> there" using ask unfolding asking_eq [of "os_exists e Artifacts dir", OF ex] by (auto simp: refuse_Inr)
  with ask obtain w14 w15 w16 where dirs: "create_private_dir e dir w13 = (Inr (), w14)"
      "create_private_dir e (dir @ [lit ''pre'']) w14 = (Inr (), w15)"
      "create_private_dir e (dir @ [lit ''post'']) w15 = (Inr (), w16)"
    and fin: "discarding e dir (freeze_manifest e tid dir source' dest' ?ps) w16 = (Inr prep, w')"
    unfolding asking_eq [of "os_exists e Artifacts dir", OF ex] by (auto elim!: then_do_Inr)
  have "freeze_manifest e tid dir source' dest' ?ps w16 = (Inr prep, w')"
    using fin by (auto simp: discarding_def split: prod.splits sum.splits)
  moreover have "?look w w16"
    by (simp add: keeps_intros
      same_worktreesD [of "ensure_git_root e DestinationSide", OF _ steps(1)]
      same_worktreesD [of "ensure_git_root e SourceSide", OF _ steps(2)]
      same_worktreesD [of "ensure_artifact_root e", OF _ steps(3)]
      same_worktreesD [of "inspect_identity e DestinationSide", OF _ steps(4)]
      same_worktreesD [of "inspect_identity e SourceSide", OF _ steps(5)]
      same_worktreesD [of "ensure_clean_repository e DestinationSide", OF _ steps(6)]
      same_worktreesD [of "ensure_no_operation_in_progress e DestinationSide", OF _ steps(7)]
      same_worktreesD [of "ensure_no_operation_in_progress e SourceSide", OF _ steps(8)]
      same_worktreesD [of "tracked_changed_paths e SourceSide", OF _ steps(9)]
      same_worktreesD [of "untracked_paths e SourceSide", OF _ steps(10)]
      same_worktreesD [of "ensure_no_untracked_collision e ?ps", OF _ coll]
      same_worktreesD [of "os_exists e Artifacts dir", OF _ ex]
      same_worktreesD [of "create_private_dir e dir", OF _ dirs(1)]
      same_worktreesD [of "create_private_dir e (dir @ [lit ''pre''])", OF _ dirs(2)]
      same_worktreesD [of "create_private_dir e (dir @ [lit ''post''])", OF _ dirs(3)])
  moreover have "?look w w9"
    by (simp add: keeps_intros
      same_worktreesD [of "ensure_git_root e DestinationSide", OF _ steps(1)]
      same_worktreesD [of "ensure_git_root e SourceSide", OF _ steps(2)]
      same_worktreesD [of "ensure_artifact_root e", OF _ steps(3)]
      same_worktreesD [of "inspect_identity e DestinationSide", OF _ steps(4)]
      same_worktreesD [of "inspect_identity e SourceSide", OF _ steps(5)]
      same_worktreesD [of "ensure_clean_repository e DestinationSide", OF _ steps(6)]
      same_worktreesD [of "ensure_no_operation_in_progress e DestinationSide", OF _ steps(7)]
      same_worktreesD [of "ensure_no_operation_in_progress e SourceSide", OF _ steps(8)])
  ultimately show ?thesis using that dir paths steps(9,10) by blast
qed


lemma freeze_files_paths: "freeze_files e dir k n ps w = (Inr (files, tot), w') \<Longrightarrow> map fa_path files = ps"
proof (induction ps arbitrary: k n w files tot)
  case (Cons p ps)
  then show ?case by (auto simp: act_Inr split: option.splits if_splits elim!: then_do_Inr)
qed (simp add: give_Inr)

lemma freeze_manifest_paths:
  "freeze_manifest e tid dir source destination ps w = (Inr prep, w') \<Longrightarrow> pa_changed_files prep = ps"
  using freeze_files_paths unfolding freeze_manifest_def Let_def by (fastforce elim!: then_do_Inr simp: act_Inr)

text \<open>A successful preparation: the manifest and the payloads are stored, and both worktrees are as they were.\<close>

lemma prepare_freezes:
  assumes run: "prepare_apply_artifacts e tid w = (Inr prep, w')"
    and ok: "tree_ok (aw_tree w (Worktree DestinationSide))" "tree_ok (aw_tree w (Worktree SourceSide))"
    and paths: "paths_apart e tid (pa_changed_files prep)"
    and sha: "\<forall>bs. length (ae_sha256 e bs) = 32" and json: "\<forall>m. ae_parse e (ae_json e m) = Some m"
  obtains m dir where
      "applicable e tid (pa_manifest_digest prep) (aw_tree w' Artifacts) m dir (aw_tree w (Worktree DestinationSide))"
    and "\<forall>side. aw_tree w' (Worktree side) = aw_tree w (Worktree side)"
    and "all_pre e (am_files m) (aw_tree w (Worktree DestinationSide))"
    and "all_post e (am_files m) (aw_tree w (Worktree SourceSide))"
    and "map fa_path (am_files m) = pa_changed_files prep"
    and "am_source m = pa_source_identity prep" and "am_destination m = pa_destination_identity prep"
    and "\<forall>f \<in> set (am_files m). \<exists>k. frozen_file e dir (aw_tree w (Worktree DestinationSide))
       (aw_tree w (Worktree SourceSide)) (aw_tree w' Artifacts) k f"
proof -
  obtain dir source destination ps w1
    where freeze: "freeze_manifest e tid dir source destination ps w1 = (Inr prep, w')"
      and trees: "\<forall>side. aw_tree w1 (Worktree side) = aw_tree w (Worktree side)"
      and dir: "transaction_dir e tid = Inr dir"
      and ps: "ps \<noteq> []" "length ps \<le> MAX_ARTIFACT_FILES" "validate_case_distinct_paths e ps = Inr ()"
    using prepare_runs [OF run] by metis
  have same: "pa_changed_files prep = ps"
    by (rule freeze_manifest_paths [OF freeze])
  have plain: "\<forall>p \<in> set ps. plain_target p" and dist: "distinct ps"
    using paths by (auto simp: same paths_apart_def distinct_map)
  have ok1: "tree_ok (aw_tree w1 (Worktree DestinationSide))" "tree_ok (aw_tree w1 (Worktree SourceSide))"
    using ok trees by simp_all
  obtain files where files:
      "stored_manifest e tid (pa_manifest_digest prep) (aw_tree w' Artifacts) (manifest_of tid source destination files) dir"
      "\<forall>side. aw_tree w' (Worktree side) = aw_tree w1 (Worktree side)" "map fa_path files = ps"
      "pa_source_identity prep = source" "pa_destination_identity prep = destination"
    and frozen: "\<forall>f \<in> set files. \<exists>k. frozen_file e dir (aw_tree w1 (Worktree DestinationSide))
        (aw_tree w1 (Worktree SourceSide)) (aw_tree w' Artifacts) k f"
    using freeze_manifest_stored [OF freeze ok1 plain dist ps dir sha json] by blast
  have "layout_ok e tid files"
    by (rule paths_apart_layout [OF transaction_dir_single(2) [OF dir]]) (use paths same files(3) in simp)
  moreover have "\<forall>f \<in> set files. clear_way (aw_tree w (Worktree DestinationSide)) (target f) \<and> frozen e f \<and>
      stored_payloads e (aw_tree w' Artifacts) dir f \<and>
      node_snapshot e (aw_tree w (Worktree DestinationSide) (target f)) = Some (fa_pre f) \<and>
      node_snapshot e (aw_tree w (Worktree SourceSide) (target f)) = Some (fa_post f)"
  proof
    fix f assume "f \<in> set files"
    with frozen obtain k where k: "frozen_file e dir (aw_tree w1 (Worktree DestinationSide))
        (aw_tree w1 (Worktree SourceSide)) (aw_tree w' Artifacts) k f" by blast
    from frozen_file_frozen [OF k] frozen_file_stored [OF k] k trees
    show "clear_way (aw_tree w (Worktree DestinationSide)) (target f) \<and> frozen e f \<and>
      stored_payloads e (aw_tree w' Artifacts) dir f \<and>
      node_snapshot e (aw_tree w (Worktree DestinationSide) (target f)) = Some (fa_pre f) \<and>
      node_snapshot e (aw_tree w (Worktree SourceSide) (target f)) = Some (fa_post f)"
      by (simp add: frozen_file_def)
  qed
  ultimately show ?thesis
    using files trees ps(1) same frozen
    by (intro that [of "manifest_of tid source destination files" dir]) (auto simp: applicable_def all_pre_def all_post_def)
qed

end
