(* ===== verification/Apply_Props.thy ===== *)
theory Apply_Props
  imports Apply_Prepare
begin

text \<open>
  What the apply engine promises for a delegation that was prepared, over all placements of failing
  calls: the manifest loads back, the frozen files are installed, an interrupted application is taken
  back, a diverged destination is left alone.
\<close>

section \<open>Before and after\<close>

definition no_temps :: "apply_env \<Rightarrow> rstr \<Rightarrow> rstr list \<Rightarrow> fs_tree \<Rightarrow> bool" where
  "no_temps e tid ps t \<longleftrightarrow> (\<forall>p \<in> set ps. t (temp_path e tid p) = None)"

text \<open>The paths have the files of another tree: content, permission bits, or none.\<close>

definition same_files :: "apply_env \<Rightarrow> rstr list \<Rightarrow> fs_tree \<Rightarrow> fs_tree \<Rightarrow> bool" where
  "same_files e ps t0 t \<longleftrightarrow>
     (\<forall>p \<in> set ps. node_snapshot e (t (normal_names p)) = node_snapshot e (t0 (normal_names p)))"

text \<open>Nothing else has changed but directories made for the paths.\<close>

definition rest_kept :: "apply_env \<Rightarrow> rstr \<Rightarrow> rstr list \<Rightarrow> fs_tree \<Rightarrow> fs_tree \<Rightarrow> bool" where
  "rest_kept e tid ps t0 t \<longleftrightarrow>
     (\<forall>q. q \<notin> normal_names ` set ps \<longrightarrow> q \<notin> temp_path e tid ` set ps \<longrightarrow>
        t q = t0 q \<or> t0 q = None \<and> t q = Some FsDir \<and> (\<exists>p \<in> set ps. strict_prefix q (normal_names p)))"

text \<open>A temporary file that holds neither of the two frozen files.\<close>

definition torn_temp :: "apply_env \<Rightarrow> rstr \<Rightarrow> rstr list \<Rightarrow> fs_tree \<Rightarrow> fs_tree \<Rightarrow> fs_tree \<Rightarrow> bool" where
  "torn_temp e tid ps td ts t \<longleftrightarrow>
     (\<exists>p \<in> set ps. t (temp_path e tid p) \<noteq> None \<and>
        node_snapshot e (t (temp_path e tid p)) \<noteq> node_snapshot e (td (normal_names p)) \<and>
        node_snapshot e (t (temp_path e tid p)) \<noteq> node_snapshot e (ts (normal_names p)))"

text \<open>
  A delegation prepared in \<open>w\<close>: \<open>prepare_apply_artifacts\<close> succeeded on well-formed trees, the paths are as
  Git prints them, and no temporary file of this transaction was there. SHA-256 gives 32 bytes, and
  serde reads back what it wrote.
\<close>

definition prepared_in :: "apply_env \<Rightarrow> rstr \<Rightarrow> apply_world \<Rightarrow> prepared_apply \<Rightarrow> apply_world \<Rightarrow> bool" where
  "prepared_in e tid w prep w1 \<longleftrightarrow>
     prepare_apply_artifacts e tid w = (Inr prep, w1) \<and>
     tree_ok (aw_tree w (Worktree DestinationSide)) \<and> tree_ok (aw_tree w (Worktree SourceSide)) \<and>
     paths_apart e tid (pa_changed_files prep) \<and>
     no_temps e tid (pa_changed_files prep) (aw_tree w (Worktree DestinationSide)) \<and>
     (\<forall>bs. length (ae_sha256 e bs) = 32) \<and> (\<forall>m. ae_parse e (ae_json e m) = Some m)"

lemma prepared_inE:
  assumes "prepared_in e tid w prep w1"
  obtains m dir where
      "applicable e tid (pa_manifest_digest prep) (aw_tree w1 Artifacts) m dir (aw_tree w dest)"
    and "\<forall>side. aw_tree w1 (Worktree side) = aw_tree w (Worktree side)"
    and "all_pre e (am_files m) (aw_tree w dest)"
    and "all_post e (am_files m) (aw_tree w (Worktree SourceSide))"
    and "map fa_path (am_files m) = pa_changed_files prep"
    and "am_source m = pa_source_identity prep" and "am_destination m = pa_destination_identity prep"
    and "\<forall>f \<in> set (am_files m). \<exists>k. frozen_file e dir (aw_tree w dest) (aw_tree w (Worktree SourceSide))
       (aw_tree w1 Artifacts) k f"
    and "tree_ok (aw_tree w dest)" and "no_temps e tid (map fa_path (am_files m)) (aw_tree w dest)"
  using assms unfolding prepared_in_def by (elim conjE) (rule prepare_freezes, assumption+, simp)

lemma temp_of_path: "temp_of e tid f = temp_path e tid (fa_path f)"
  by (simp add: temp_of_def temp_path_def target_def)

text \<open>The predicates of the engine's steps, over the paths of the manifest.\<close>

lemma all_pre_files: "all_pre e files t0 \<Longrightarrow> all_pre e files t \<longleftrightarrow> same_files e (map fa_path files) t0 t"
  by (simp add: all_pre_def same_files_def target_def)

lemma all_post_files: "all_post e files t0 \<Longrightarrow> all_post e files t \<longleftrightarrow> same_files e (map fa_path files) t0 t"
  by (simp add: all_post_def same_files_def target_def)

lemma only_targets_rest: "only_targets e tid files t0 t \<longleftrightarrow> rest_kept e tid (map fa_path files) t0 t"
  by (simp add: only_targets_def rest_kept_def target_def image_image temp_of_path [abs_def])

lemma settled_rest: "settled e tid files t0 t \<Longrightarrow>
    rest_kept e tid (map fa_path files) t0 t \<and> no_temps e tid (map fa_path files) t"
  by (auto simp: settled_def midway_def only_targets_rest no_temps_def temp_of_path)

lemma settled_start:
  assumes "tree_ok t" and "all_pre e files t" and "no_temps e tid (map fa_path files) t"
  shows "settled e tid files t t"
  using assms by (auto simp: settled_def midway_def only_targets_def all_pre_def no_temps_def temp_of_path)

lemma torn_files:
  assumes "torn e tid f t" and "f \<in> set files" and "all_pre e files td" and "all_post e files ts"
  shows "torn_temp e tid (map fa_path files) td ts t"
  using assms unfolding torn_def torn_temp_def all_pre_def all_post_def temp_of_path target_def by auto

lemma differing_files:
  assumes "all_pre e files td" and "all_post e files ts"
  shows "same_files e (map fa_path files) td ts \<longleftrightarrow> (\<forall>f \<in> set files. fa_pre f = fa_post f)"
  using assms by (auto simp: same_files_def all_pre_def all_post_def target_def)

lemma unsettled_start:
  assumes "applicable e tid digest art m dir t" and "tree_ok t" and "all_pre e (am_files m) t"
    and "no_temps e tid (map fa_path (am_files m)) t"
  shows "unsettled e tid (am_files m) t t"
  using settled_unsettled [OF settled_start [OF assms(2-4)]] applicableD(3) [OF assms(1)] by blast

section \<open>Preparing touches no worktree\<close>

text \<open>
  Whatever calls fail, preparing a delegation, cleaning up its artifacts and taking the lock of an
  operation change no file of either worktree: everything they write is below the artifact root.
\<close>

lemma prepare_spares_worktrees:
  "aw_tree (snd (prepare_apply_artifacts e tid w)) (Worktree side) = aw_tree w (Worktree side) \<and>
   aw_tree (snd (cleanup_apply_artifacts e tid w)) (Worktree side) = aw_tree w (Worktree side) \<and>
   aw_tree (snd (try_lock_apply_operation e operation_id w)) (Worktree side) = aw_tree w (Worktree side)"
proof -
  have "keeps (same_worktrees T) (cleanup_apply_artifacts e tid)" for T
    unfolding cleanup_apply_artifacts_def by (intro keeps_intros)
  moreover have "keeps (same_worktrees T) (try_lock_apply_operation e operation_id)" for T
    unfolding try_lock_apply_operation_def ensure_lock_directory_def Let_def
    by (intro keeps_intros) (auto intro!: keeps_intros split: sum.splits io_error.splits)
  ultimately show ?thesis
    by (metis prod.collapse same_worktreesD spares_prepare)
qed

section \<open>The frozen manifest\<close>

lemma load_payload_exact:
  assumes "healthy e w" and "node_snapshot e x = Some s" and "47 \<notin> set d"
    and "\<forall>bs. node_payload x = Some bs \<longrightarrow> holds_file (aw_tree w Artifacts) (dir @ [d, payload_file k]) bs"
  shows "fst (load_payload e dir (payload_ref d k (node_payload x)) s w) = Inr (node_payload x)"
  using assms(2)
proof (cases rule: node_snapshotE)
  case (regular bs m)
  with assms(4) have "holds_file (aw_tree w Artifacts) (dir @ [d, payload_file k]) bs" by simp
  from holds_file_read [OF this] regular assms(1) split_payload_ref [OF assms(3), of k] show ?thesis
    by (simp add: load_payload_def payload_ref_def regular_snapshot_def then_do_def or_says_def os_read_def
      os_look_healthy give_def)
qed (simp add: load_payload_def give_def)

text \<open>
  C35: A prepared manifest loads back by its digest, for as long as the artifact directory is left alone:
  it names the changed paths and both repositories, and the payloads it refers to are the bytes the
  files had, on the destination's side and on the delegation's.
\<close>

theorem prepared_manifest_loads_back:
  assumes "prepared_in e tid w prep w1" and "aw_tree w2 Artifacts = aw_tree w1 Artifacts" and "healthy e w2"
  shows "\<exists>m dir. fst (load_manifest e tid (pa_manifest_digest prep) w2) = Inr (m, dir) \<and>
    map fa_path (am_files m) = pa_changed_files prep \<and>
    am_source m = pa_source_identity prep \<and> am_destination m = pa_destination_identity prep \<and>
    (\<forall>f \<in> set (am_files m).
       let pre = aw_tree w (Worktree DestinationSide) (normal_names (fa_path f));
           post = aw_tree w (Worktree SourceSide) (normal_names (fa_path f))
       in node_snapshot e pre = Some (fa_pre f) \<and> node_snapshot e post = Some (fa_post f) \<and>
          fst (load_payload e dir (fa_pre_payload f) (fa_pre f) w2) = Inr (node_payload pre) \<and>
          fst (load_payload e dir (fa_post_payload f) (fa_post f) w2) = Inr (node_payload post))"
proof -
  obtain m dir where a: "applicable e tid (pa_manifest_digest prep) (aw_tree w1 Artifacts) m dir (aw_tree w dest)"
    and m: "map fa_path (am_files m) = pa_changed_files prep" "am_source m = pa_source_identity prep"
      "am_destination m = pa_destination_identity prep"
    and frozen: "\<forall>f \<in> set (am_files m). \<exists>k. frozen_file e dir (aw_tree w dest) (aw_tree w (Worktree SourceSide))
       (aw_tree w1 Artifacts) k f"
    by (rule prepared_inE [OF assms(1)])
  obtain r w' where run: "load_manifest e tid (pa_manifest_digest prep) w2 = (r, w')"
    by (cases "load_manifest e tid (pa_manifest_digest prep) w2")
  have "tells e (aw_tree w2) (load_manifest e tid (pa_manifest_digest prep)) (m, dir)"
    by (rule load_manifest_tells) (use applicableD(1) [OF a] assms(2) in simp)
  from tellsD [OF this refl run] assms(3) have "r = Inr (m, dir)" by blast
  moreover have "let pre = aw_tree w (Worktree DestinationSide) (normal_names (fa_path f));
           post = aw_tree w (Worktree SourceSide) (normal_names (fa_path f))
       in node_snapshot e pre = Some (fa_pre f) \<and> node_snapshot e post = Some (fa_post f) \<and>
          fst (load_payload e dir (fa_pre_payload f) (fa_pre f) w2) = Inr (node_payload pre) \<and>
          fst (load_payload e dir (fa_post_payload f) (fa_post f) w2) = Inr (node_payload post)"
    if fm: "f \<in> set (am_files m)" for f
  proof -
    let ?pre = "aw_tree w dest (target f)" and ?post = "aw_tree w (Worktree SourceSide) (target f)"
    obtain k where "frozen_file e dir (aw_tree w dest) (aw_tree w (Worktree SourceSide)) (aw_tree w2 Artifacts) k f"
      using frozen fm unfolding assms(2) by blast
    then have f: "node_snapshot e ?pre = Some (fa_pre f)" "node_snapshot e ?post = Some (fa_post f)"
        "fa_pre_payload f = payload_ref (lit ''pre'') k (node_payload ?pre)"
        "fa_post_payload f = payload_ref (lit ''post'') k (node_payload ?post)"
      and held: "\<forall>bs. node_payload ?pre = Some bs \<longrightarrow>
          holds_file (aw_tree w2 Artifacts) (dir @ [lit ''pre'', payload_file k]) bs"
        "\<forall>bs. node_payload ?post = Some bs \<longrightarrow>
          holds_file (aw_tree w2 Artifacts) (dir @ [lit ''post'', payload_file k]) bs"
      unfolding frozen_file_def by blast+
    show ?thesis
      using f load_payload_exact [OF assms(3) f(1) no_slash(2) held(1)]
        load_payload_exact [OF assms(3) f(2) no_slash(3) held(2)]
      unfolding Let_def target_def by simp
  qed
  ultimately show ?thesis using run m by auto
qed


section \<open>Applying and taking back\<close>

lemma apply_from_prepared:
  assumes "prepared_in e tid w prep w1" and "apply_prepared_artifacts e tid (pa_manifest_digest prep) w1 = (r, w2)"
    and "applicable e tid (pa_manifest_digest prep) (aw_tree w1 Artifacts) m dir (aw_tree w dest)"
    and "map fa_path (am_files m) = pa_changed_files prep"
    and "all_pre e (am_files m) (aw_tree w dest)"
    and "\<forall>side. aw_tree w1 (Worktree side) = aw_tree w (Worktree side)"
  shows "r = Inr out \<Longrightarrow> out = output_of m \<and>
      at_dest e False (aw_tree w1) (\<lambda>t. settled e tid (am_files m) (aw_tree w dest) t \<and> all_post e (am_files m) t) w2"
    and "r = Inl er \<Longrightarrow> failed_at False (aw_tree w1) (unsettled e tid (am_files m) (aw_tree w dest)) w2"
    and "at_dest e False (aw_tree w1) (unsettled e tid (am_files m) (aw_tree w dest)) w2"
proof -
  have "unsettled e tid (am_files m) (aw_tree w dest) (aw_tree w dest)"
    using assms(1,4,5) by (intro unsettled_start [OF assms(3)]) (auto simp: prepared_in_def)
  then have start: "at_dest e False (aw_tree w1) (unsettled e tid (am_files m) (aw_tree w dest)) w1"
    using assms(6) by (simp add: at_dest_def)
  note step = apply_step [where T = "aw_tree w1", OF assms(3)]
  show ok: "out = output_of m \<and>
      at_dest e False (aw_tree w1) (\<lambda>t. settled e tid (am_files m) (aw_tree w dest) t \<and> all_post e (am_files m) t) w2"
    if "r = Inr out" for out
    using triple_Inr [OF step start] assms(2) that by blast
  show err: "failed_at False (aw_tree w1) (unsettled e tid (am_files m) (aw_tree w dest)) w2" if "r = Inl er" for er
    using triple_Inl [OF step start] assms(2) that by blast
  show "at_dest e False (aw_tree w1) (unsettled e tid (am_files m) (aw_tree w dest)) w2"
  proof (cases r)
    case (Inr out)
    with ok settled_unsettled applicableD(3) [OF assms(3)] show ?thesis by (auto simp: at_dest_def)
  qed (use err in \<open>auto simp: at_dest_def failed_at_def\<close>)
qed

text \<open>
  C34: When applying a prepared delegation succeeds, every changed path of the destination has the file
  the delegation's worktree had when it was prepared (content and permission bits, or no file), nothing
  else in the destination changed but directories made for these files, no temporary file is left, and
  the delegation's worktree and the artifacts are as they were. It reports the paths that were frozen.
\<close>

theorem apply_installs_frozen_files:
  assumes "prepared_in e tid w prep w1"
    and "apply_prepared_artifacts e tid (pa_manifest_digest prep) w1 = (Inr out, w2)"
  shows "ao_changed_files out = pa_changed_files prep \<and>
    same_files e (pa_changed_files prep) (aw_tree w (Worktree SourceSide)) (aw_tree w2 (Worktree DestinationSide)) \<and>
    rest_kept e tid (pa_changed_files prep) (aw_tree w (Worktree DestinationSide)) (aw_tree w2 (Worktree DestinationSide)) \<and>
    no_temps e tid (pa_changed_files prep) (aw_tree w2 (Worktree DestinationSide)) \<and>
    aw_tree w2 (Worktree SourceSide) = aw_tree w (Worktree SourceSide) \<and>
    aw_tree w2 Artifacts = aw_tree w1 Artifacts"
proof -
  obtain m dir where a: "applicable e tid (pa_manifest_digest prep) (aw_tree w1 Artifacts) m dir (aw_tree w dest)"
    and trees: "\<forall>side. aw_tree w1 (Worktree side) = aw_tree w (Worktree side)"
    and pre: "all_pre e (am_files m) (aw_tree w dest)" and post: "all_post e (am_files m) (aw_tree w (Worktree SourceSide))"
    and m: "map fa_path (am_files m) = pa_changed_files prep"
    by (rule prepared_inE [OF assms(1)])
  have out: "out = output_of m"
    and w2: "at_dest e False (aw_tree w1) (\<lambda>t. settled e tid (am_files m) (aw_tree w dest) t \<and> all_post e (am_files m) t) w2"
    using apply_from_prepared(1) [OF assms(1,2) a m pre trees] by simp_all
  then show ?thesis
    using settled_rest [of e tid "am_files m" "aw_tree w dest" "aw_tree w2 dest"] all_post_files [OF post] trees m
    by (auto simp: at_dest_def output_of_def)
qed

text \<open>Calls on a prepared transaction, as the command layer makes them before and after a restart.\<close>

datatype attempt = TryApply | TryRollback | TryClassify

definition attempting :: "apply_env \<Rightarrow> rstr \<Rightarrow> rstr \<Rightarrow> attempt \<Rightarrow> apply_world \<Rightarrow> apply_world" where
  "attempting e tid digest a w =
     (case a of
        TryApply \<Rightarrow> snd (apply_prepared_artifacts e tid digest w)
      | TryRollback \<Rightarrow> snd (rollback_apply_artifacts e tid digest w)
      | TryClassify \<Rightarrow> snd (classify_apply_artifacts e tid digest w))"

lemma classify_artifacts_step:
  assumes "applicable e tid digest (T Artifacts) m dir t0"
  shows "triple (at_dest e False T (unsettled e tid (am_files m) t0)) (classify_apply_artifacts e tid digest)
    (\<lambda>_. at_dest e False T (unsettled e tid (am_files m) t0)) (failed_at False T (unsettled e tid (am_files m) t0))"
proof -
  let ?S = "settled e tid (am_files m) t0" and ?U = "unsettled e tid (am_files m) t0"
  note a = applicableD [OF assms(1)]
  have uns: "?S t \<Longrightarrow> ?U t" for t using settled_unsettled a(3) by blast
  have load: "triple (at_dest e False T ?U) (load_manifest e tid digest) (\<lambda>r w. r = (m, dir) \<and> at_dest e False T ?U w)
      (failed_at False T ?U)"
    by (rule triple_error [OF load_step [where T = T, OF assms] stuck_any])
  have look: "triple (at_dest e False T \<Phi>) n (\<lambda>_. at_dest e False T \<Phi>) (failed_at False T ?U)"
    if "quiet n" "\<And>t. \<Phi> t \<Longrightarrow> ?U t" for n :: "'a engine" and \<Phi>
    by (rule quiet_step [OF that])
  have rec: "triple (at_dest e False T ?U) (reconcile_destination_temporary_files e tid m) (\<lambda>_. at_dest e False T ?S)
      (failed_at False T ?U)"
    by (rule triple_error [OF reconcile_step [OF a(2,5)] stuck_any])
  have last: "triple (at_dest e False T ?S) (classify_manifest e m) (\<lambda>_. at_dest e False T ?U) (failed_at False T ?U)"
    by (rule triple_weaken [OF quiet_step [OF quiet_classify(2), where \<Phi> = ?S and \<Theta> = ?U]])
      (use uns in \<open>auto simp: at_dest_def\<close>)
  show ?thesis
    unfolding classify_apply_artifacts_def
    by (rule triple_then [OF load], rule triple_fact, hypsubst, simp only: prod.case,
      rule triple_then [OF quiet_step], rule quiet_git_checks, assumption,
      rule triple_then [OF quiet_step], rule quiet_git_checks, assumption,
      rule triple_then [OF quiet_step], rule quiet_identity, assumption,
      rule triple_then [OF rec],
      rule triple_then [OF quiet_step], rule quiet_identity, erule uns, rule last)
qed

lemma attempting_unsettled:
  assumes "applicable e tid digest (T Artifacts) m dir t0"
    and "at_dest e False T (unsettled e tid (am_files m) t0) w"
  shows "at_dest e False T (unsettled e tid (am_files m) t0) (attempting e tid digest a w)"
proof -
  let ?U = "unsettled e tid (am_files m) t0"
  have uns: "settled e tid (am_files m) t0 t \<Longrightarrow> ?U t" for t
    using settled_unsettled applicableD(3) [OF assms(1)] by blast
  have run: "at_dest e False T ?U (snd (n w))" if "triple (at_dest e False T ?U) n Q (failed_at False T ?U)"
      "\<And>x w'. Q x w' \<Longrightarrow> at_dest e False T ?U w'" for n :: "'a engine" and Q
  proof (cases "n w")
    case (Pair r w')
    then show ?thesis
      using triple_Inl [OF that(1) assms(2)] triple_Inr [OF that(1) assms(2)] that(2)
      by (cases r) (auto simp: at_dest_def failed_at_def)
  qed
  have "at_dest e False T ?U (snd (rollback_apply_artifacts e tid digest w))"
    by (rule run [OF triple_error [OF rollback_step [where T = T and H = False, OF assms(1)] stuck_any]])
      (use uns in \<open>auto simp: at_dest_def\<close>)
  moreover have "at_dest e False T ?U (snd (apply_prepared_artifacts e tid digest w))"
    by (rule run [OF apply_step [where T = T, OF assms(1)]]) (use uns in \<open>auto simp: at_dest_def\<close>)
  moreover have "at_dest e False T ?U (snd (classify_apply_artifacts e tid digest w))"
    by (rule run [OF classify_artifacts_step [where T = T, OF assms(1)]])
  ultimately show ?thesis by (simp add: attempting_def split: attempt.split)
qed

lemma attempts_unsettled:
  assumes "applicable e tid digest (T Artifacts) m dir t0"
    and "at_dest e False T (unsettled e tid (am_files m) t0) w"
  shows "at_dest e False T (unsettled e tid (am_files m) t0) (fold (attempting e tid digest) attempts w)"
  using assms(2)
proof (induction attempts arbitrary: w)
  case (Cons a attempts)
  then show ?case using attempting_unsettled [where T = T, OF assms(1) Cons.prems] by simp
qed simp

text \<open>
  C33: An application interrupted anywhere can be taken back. After preparing, applying and then any
  number of further attempts to apply, roll back or classify, each with any calls failing, a rollback
  during which no call fails and Git answers as at the preparation either returns, and then every
  changed path has the file it had before and nothing else changed but new directories; or it refuses,
  and then a torn temporary file is there, one that a failed write left half written.
\<close>

theorem interrupted_apply_rolls_back:
  assumes prep: "prepared_in e tid w prep w1"
    and changed: "\<not> same_files e (pa_changed_files prep) (aw_tree w (Worktree DestinationSide)) (aw_tree w (Worktree SourceSide))"
    and tried: "w2 = fold (attempting e tid (pa_manifest_digest prep)) attempts w1"
    and calm: "healthy e w2" and repo: "same_repository e DestinationSide (pa_destination_identity prep)"
    and rolled: "rollback_apply_artifacts e tid (pa_manifest_digest prep) w2 = (r, w3)"
  shows "(r = Inr () \<and>
      same_files e (pa_changed_files prep) (aw_tree w (Worktree DestinationSide)) (aw_tree w3 (Worktree DestinationSide)) \<and>
      rest_kept e tid (pa_changed_files prep) (aw_tree w (Worktree DestinationSide)) (aw_tree w3 (Worktree DestinationSide)) \<and>
      no_temps e tid (pa_changed_files prep) (aw_tree w3 (Worktree DestinationSide)) \<or>
    (\<exists>er. r = Inl er) \<and>
      torn_temp e tid (pa_changed_files prep) (aw_tree w (Worktree DestinationSide)) (aw_tree w (Worktree SourceSide))
        (aw_tree w3 (Worktree DestinationSide))) \<and>
    aw_tree w3 (Worktree SourceSide) = aw_tree w (Worktree SourceSide)"
proof -
  obtain m dir where a: "applicable e tid (pa_manifest_digest prep) (aw_tree w1 Artifacts) m dir (aw_tree w dest)"
    and trees: "\<forall>side. aw_tree w1 (Worktree side) = aw_tree w (Worktree side)"
    and pre: "all_pre e (am_files m) (aw_tree w dest)" and post: "all_post e (am_files m) (aw_tree w (Worktree SourceSide))"
    and m: "map fa_path (am_files m) = pa_changed_files prep"
    and ident: "am_destination m = pa_destination_identity prep"
    and fresh: "tree_ok (aw_tree w dest)" "no_temps e tid (map fa_path (am_files m)) (aw_tree w dest)"
    by (rule prepared_inE [OF prep])
  let ?U = "unsettled e tid (am_files m) (aw_tree w dest)"
  have diff: "\<exists>f \<in> set (am_files m). fa_pre f \<noteq> fa_post f"
    using changed differing_files [OF pre post] unfolding m [symmetric] by blast
  note step = rollback_step [where T = "aw_tree w1" and H = True, OF a _ diff]
  have "at_dest e False (aw_tree w1) ?U w1"
    using unsettled_start [OF a fresh(1) pre fresh(2)] trees by (simp add: at_dest_def)
  from attempts_unsettled [where T = "aw_tree w1", OF a this] calm have start: "at_dest e True (aw_tree w1) ?U w2"
    by (simp add: tried at_dest_def)
  show ?thesis
  proof (cases r)
    case (Inl er)
    with rolled triple_Inl [OF step start] repo ident have "stuck e True (aw_tree w1) tid (am_files m) (aw_tree w dest) w3"
      by auto
    then obtain f where "f \<in> set (am_files m)" "torn e tid f (aw_tree w3 dest)"
        and "aw_tree w3 (Worktree SourceSide) = aw_tree w1 (Worktree SourceSide)"
      by (auto simp: stuck_def failed_at_def at_dest_def)
    with torn_files [OF _ _ pre post] trees Inl show ?thesis unfolding m [symmetric] by auto
  next
    case (Inr u)
    with rolled triple_Inr [OF step start] repo ident
    have "at_dest e True (aw_tree w1) (\<lambda>t. settled e tid (am_files m) (aw_tree w dest) t \<and> all_pre e (am_files m) t) w3"
      by auto
    with settled_rest [of e tid "am_files m" "aw_tree w dest" "aw_tree w3 dest"] all_pre_files [OF pre] trees Inr show ?thesis
      unfolding m [symmetric] by (auto simp: at_dest_def)
  qed
qed


section \<open>A diverged destination\<close>

text \<open>Some entries among \<open>P\<close> are gone, and all else is the same.\<close>

definition only_dropped :: "fs_path set \<Rightarrow> fs_tree \<Rightarrow> fs_tree \<Rightarrow> bool" where
  "only_dropped P t0 t \<longleftrightarrow> (\<forall>q. t q = t0 q \<or> q \<in> P \<and> t q = None)"

definition dropped_in :: "fs_path set \<Rightarrow> (place \<Rightarrow> fs_tree) \<Rightarrow> (place \<Rightarrow> fs_tree) \<Rightarrow> bool" where
  "dropped_in P T T' \<longleftrightarrow>
     tree_ok (T' dest) \<and> only_dropped P (T dest) (T' dest) \<and> (\<forall>pl. pl \<noteq> dest \<longrightarrow> T' pl = T pl)"

lemma tree_remove_Inr:
  assumes "tree_remove p t = Inr t'" and "p \<noteq> []" and "last p \<noteq> dot"
  shows "t' = t(p := None) \<and> t p \<noteq> Some FsDir"
proof -
  obtain x where x: "place_of p t = Inr x"
    and "(case x of None \<Rightarrow> Inl IoNotFound | Some n \<Rightarrow> if n = FsDir then Inl IoOther else Inr (t(p := None))) = Inr t'"
    using assms(1) unfolding tree_remove_def and_then_Inr_iff by blast
  with place_of_plain [OF x assms(2,3)] show ?thesis by (auto split: option.splits if_splits)
qed

lemma keeps_remove:
  assumes "p \<in> P" and "p \<noteq> []" and "last p \<noteq> dot"
  shows "keeps (dropped_in P T) (os_remove_file e dest p)"
proof (rule keepsI)
  fix w r w' assume I: "dropped_in P T (aw_tree w)" and run: "os_remove_file e dest p w = (r, w')"
  have "aw_tree w' = aw_tree w \<or>
    (\<exists>t'. tree_remove p (aw_tree w dest) = Inr t' \<and> aw_tree w' = (aw_tree w)(dest := t'))"
    using run by (auto simp: os_remove_file_def os_change_def Let_def intact_def split: if_splits sum.splits)
  then show "dropped_in P T (aw_tree w')"
  proof (elim disjE exE conjE)
    fix t' assume t': "tree_remove p (aw_tree w dest) = Inr t'" and w': "aw_tree w' = (aw_tree w)(dest := t')"
    note gone = tree_remove_Inr [OF t' assms(2,3)]
    have "tree_ok t'" using I gone tree_ok_drop unfolding dropped_in_def by simp
    moreover have "only_dropped P (T dest) t'"
      using I gone assms(1) by (simp add: dropped_in_def only_dropped_def)
    ultimately show ?thesis using I w' by (simp add: dropped_in_def)
  qed (use I in simp)
qed

lemma then_checked: "then_do (checked (Inr x)) f = f x"
  by (simp add: then_do_def checked_def fun_eq_iff)

lemma keeps_reconcile:
  assumes "layout_ok e tid (am_files m)"
  shows "keeps (dropped_in (temp_of e tid ` set (am_files m)) T) (reconcile_destination_temporary_files e tid m)"
proof -
  let ?I = "dropped_in (temp_of e tid ` set (am_files m)) T"
  have one: "keeps ?I (reconcile_temp e tid f)" if f: "f \<in> set (am_files m)" for f
  proof -
    note l = layout_okD [OF assms f]
    have "keeps ?I (os_remove_file e dest (temp_of e tid f))"
      by (rule keeps_remove) (use f in \<open>auto simp: temp_of_simps\<close>)
    then have "keeps ?I (discard_temp e f (temp_of e tid f) mode nlink)" for mode nlink
      unfolding discard_temp_def Let_def by (intro keeps_intros)
    then show ?thesis
      unfolding reconcile_temp_def Let_def destination_temp_path_eq [OF l(1,2)] then_checked
      by (intro keeps_intros) (auto intro!: keeps_intros split: sum.splits io_error.splits fs_node.splits)
  qed
  have "keeps ?I (each (reconcile_temp e tid) fs)" if "set fs \<subseteq> set (am_files m)" for fs
    using that by (induction fs) (auto intro!: keeps_intros one)
  then show ?thesis by (simp add: reconcile_destination_temporary_files_def)
qed


lemma triple_keeps: "keeps I m \<Longrightarrow> triple (\<lambda>w. I (aw_tree w)) m (\<lambda>_ w. I (aw_tree w)) (\<lambda>w. I (aw_tree w))"
  by (rule tripleI) (auto dest: keepsD)

text \<open>One file of the manifest is in neither of its two states.\<close>

definition strays :: "apply_env \<Rightarrow> fs_tree \<Rightarrow> file_artifact \<Rightarrow> bool" where
  "strays e t f \<longleftrightarrow> node_snapshot e (t (target f)) \<noteq> Some (fa_pre f) \<and> node_snapshot e (t (target f)) \<noteq> Some (fa_post f)"

lemma stray_runs:
  fixes P :: "apply_world \<Rightarrow> bool"
  assumes a: "applicable e tid digest (T Artifacts) m dir t0" and f: "f \<in> set (am_files m)" "strays e (T dest) f"
    and P: "P = (\<lambda>w. dropped_in (temp_of e tid ` set (am_files m)) T (aw_tree w))"
  shows "triple P (apply_prepared_artifacts e tid digest) (\<lambda>_ _. False) P"
    and "triple P (rollback_apply_artifacts e tid digest) (\<lambda>_ _. False) P"
    and "triple P (classify_apply_artifacts e tid digest) (\<lambda>c w. c = Divergent \<and> P w) P"
proof -
  note ap = applicableD [OF a]
  have load: "triple P (load_manifest e tid digest) (\<lambda>r w. r = (m, dir) \<and> P w) P"
  proof (rule tripleI)
    fix w assume w: "P w"
    have "tells e (aw_tree w) (load_manifest e tid digest) (m, dir)"
      by (rule load_manifest_tells) (use ap(1) w in \<open>simp add: P dropped_in_def\<close>)
    note t = tellsD [OF this refl]
    show "P w'" if "load_manifest e tid digest w = (Inl er, w')" for er w' using t [OF that] w by (simp add: P)
    show "x = (m, dir) \<and> P w'" if "load_manifest e tid digest w = (Inr x, w')" for x w' using t [OF that] w by (simp add: P)
  qed
  have look: "triple P n (\<lambda>_. P) P" if "quiet n" for n :: "unit engine"
    unfolding P by (rule triple_keeps [OF quiet_keeps [OF that]])
  have rec: "triple P (reconcile_destination_temporary_files e tid m) (\<lambda>_. P) P"
    unfolding P by (rule triple_keeps [OF keeps_reconcile [OF ap(2)]])
  have cls: "triple P (classify_manifest e m) (\<lambda>c w. c = Divergent \<and> P w) P"
  proof (rule tripleI)
    fix w assume w: "P w"
    show "P w'" if "classify_manifest e m w = (Inl er, w')" for er w'
      using quietD [OF quiet_classify(2) that] w by (simp add: P)
    fix c w' assume run: "classify_manifest e m w = (Inr c, w')"
    have "target f \<notin> temp_of e tid ` set (am_files m)" using temp_neq_target [OF ap(2) _ f(1)] by force
    then have "aw_tree w dest (target f) = T dest (target f)"
      using w unfolding P dropped_in_def only_dropped_def by blast
    with f(2) have "\<not> in_state e (aw_tree w dest) f" by (simp add: strays_def in_state_def)
    moreover have "tree_ok (aw_tree w dest)" "\<forall>f \<in> set (am_files m). plain_target (fa_path f)"
      using w layout_okD(2) [OF ap(2)] by (auto simp: P dropped_in_def)
    ultimately have "c = Divergent"
      using classify_truthful [of e "am_files m" False False w c w'] run f(1) by (auto simp: classify_manifest_def)
    then show "c = Divergent \<and> P w'" using quietD [OF quiet_classify(2) run] w by (simp add: P)
  qed
  have refused: "triple P (refuse er) Q P" for er and Q :: "'a \<Rightarrow> apply_world \<Rightarrow> bool"
    by (rule triple_refuse)
  show "triple P (apply_prepared_artifacts e tid digest) (\<lambda>_ _. False) P"
    unfolding apply_prepared_artifacts_def
    by (rule triple_then [OF load], rule triple_fact, hypsubst, simp only: prod.case,
      rule triple_then [OF look], rule quiet_git_checks,
      rule triple_then [OF look], rule quiet_git_checks,
      rule triple_then [OF look], rule quiet_git_checks,
      rule triple_then [OF look], rule quiet_git_checks,
      rule triple_then [OF look], rule quiet_identity,
      rule triple_then [OF look], rule quiet_identity,
      rule triple_then [OF rec],
      rule triple_then [OF look], rule quiet_identity,
      rule triple_then [OF look], rule quiet_git_checks,
      rule triple_then [OF cls], rule triple_fact, simp only: apply_classification.case, rule refused)
  show "triple P (rollback_apply_artifacts e tid digest) (\<lambda>_ _. False) P"
    unfolding rollback_apply_artifacts_def
    by (rule triple_then [OF load], rule triple_fact, hypsubst, simp only: prod.case,
      rule triple_then [OF look], rule quiet_git_checks,
      rule triple_then [OF look], rule quiet_git_checks,
      rule triple_then [OF look], rule quiet_identity,
      rule triple_then [OF rec],
      rule triple_then [OF look], rule quiet_identity,
      rule triple_then [OF cls], rule triple_fact, simp only: if_True simp_thms, rule refused)
  show "triple P (classify_apply_artifacts e tid digest) (\<lambda>c w. c = Divergent \<and> P w) P"
    unfolding classify_apply_artifacts_def
    by (rule triple_then [OF load], rule triple_fact, hypsubst, simp only: prod.case,
      rule triple_then [OF look], rule quiet_git_checks,
      rule triple_then [OF look], rule quiet_git_checks,
      rule triple_then [OF look], rule quiet_identity,
      rule triple_then [OF rec],
      rule triple_then [OF look], rule quiet_identity, rule cls)
qed

text \<open>
  C37: When a changed path of the destination has a file that is neither the one before nor the one to
  install, applying and rolling back refuse, and classifying reports divergence or an error. None of
  them writes anything in the destination: every path keeps what it held, but the paths of the
  transaction's temporary files, which may be empty afterwards.
\<close>

theorem diverged_destination_is_refused:
  assumes prep: "prepared_in e tid w prep w1"
    and later: "aw_tree w2 Artifacts = aw_tree w1 Artifacts" "tree_ok (aw_tree w2 (Worktree DestinationSide))"
    and stray: "p \<in> set (pa_changed_files prep)"
      "node_snapshot e (aw_tree w2 (Worktree DestinationSide) (normal_names p)) \<noteq>
       node_snapshot e (aw_tree w (Worktree DestinationSide) (normal_names p))"
      "node_snapshot e (aw_tree w2 (Worktree DestinationSide) (normal_names p)) \<noteq>
       node_snapshot e (aw_tree w (Worktree SourceSide) (normal_names p))"
  shows "(\<exists>er. fst (apply_prepared_artifacts e tid (pa_manifest_digest prep) w2) = Inl er) \<and>
    (\<exists>er. fst (rollback_apply_artifacts e tid (pa_manifest_digest prep) w2) = Inl er) \<and>
    (\<forall>c. fst (classify_apply_artifacts e tid (pa_manifest_digest prep) w2) = Inr c \<longrightarrow> c = Divergent) \<and>
    (\<forall>a. only_dropped (temp_path e tid ` set (pa_changed_files prep)) (aw_tree w2 (Worktree DestinationSide))
       (aw_tree (attempting e tid (pa_manifest_digest prep) a w2) (Worktree DestinationSide)))"
proof -
  obtain m dir where a: "applicable e tid (pa_manifest_digest prep) (aw_tree w1 Artifacts) m dir (aw_tree w dest)"
    and pre: "all_pre e (am_files m) (aw_tree w dest)" and post: "all_post e (am_files m) (aw_tree w (Worktree SourceSide))"
    and m: "map fa_path (am_files m) = pa_changed_files prep"
    by (rule prepared_inE [OF prep])
  obtain f where f: "f \<in> set (am_files m)" "p = fa_path f" using stray(1) unfolding m [symmetric] by auto
  have "strays e (aw_tree w2 dest) f"
    using f stray(2,3) pre post by (simp add: strays_def all_pre_def all_post_def target_def)
  note runs = stray_runs [where T = "aw_tree w2", OF a [folded later(1)] f(1) this refl]
  let ?I = "dropped_in (temp_of e tid ` set (am_files m)) (aw_tree w2)"
  have start: "?I (aw_tree w2)" using later(2) by (simp add: dropped_in_def only_dropped_def)
  have temps: "temp_of e tid ` set (am_files m) = temp_path e tid ` set (pa_changed_files prep)"
    by (simp add: m [symmetric] image_image temp_of_path [abs_def])
  have ended: "(\<forall>x. fst (n w2) = Inr x \<longrightarrow> Q x) \<and> ?I (aw_tree (snd (n w2)))"
    if "triple (\<lambda>w. ?I (aw_tree w)) n (\<lambda>x w. Q x \<and> ?I (aw_tree w)) (\<lambda>w. ?I (aw_tree w))"
    for n :: "'a engine" and Q
    using that start unfolding triple_def by (cases "n w2"; cases "fst (n w2)") auto
  have gone: "triple P n (\<lambda>_ _. False) E \<Longrightarrow> triple P n (\<lambda>x w. False \<and> E w) E" for P n E by simp
  note all = ended [OF gone [OF runs(1)]] ended [OF gone [OF runs(2)]] ended [OF runs(3)]
  have "?I (aw_tree (attempting e tid (pa_manifest_digest prep) a w2))" for a
    using all by (cases a) (simp_all add: attempting_def)
  then have "\<forall>a. only_dropped (temp_path e tid ` set (pa_changed_files prep)) (aw_tree w2 dest)
      (aw_tree (attempting e tid (pa_manifest_digest prep) a w2) dest)"
    by (simp add: dropped_in_def temps)
  note dropped = this
  have err: "\<exists>er. r = Inl er" if "\<forall>x. r = Inr x \<longrightarrow> False" for r :: "apply_error + 'b"
    using that by (cases r) auto
  show ?thesis
    by (intro conjI) (rule err [OF conjunct1 [OF all(1)]], rule err [OF conjunct1 [OF all(2)]], rule conjunct1 [OF all(3)],
      rule dropped)
qed


section \<open>A delegation that changes no file\<close>

lemma classify_same:
  assumes "classify_files e fs False b w = (Inr c, w')" and "\<forall>f \<in> set fs. fa_pre f = fa_post f"
  shows "c \<noteq> AllPre"
  using assms
proof (induction fs arbitrary: w b)
  case (Cons f fs)
  obtain r w1 where cur: "current_snapshot e (fa_path f) w = (r, w1)" by (cases "current_snapshot e (fa_path f) w")
  have "c = Divergent \<or> (\<exists>b. classify_files e fs False b w1 = (Inr c, w'))"
    using Cons.prems unfolding classify_files.simps asking_eq [of "current_snapshot e (fa_path f)", OF cur]
    by (auto simp: give_Inr Let_def split: sum.splits if_splits)
  with Cons.IH Cons.prems(2) show ?case by auto
qed (auto simp: give_Inr classification_cases)

text \<open>
  C38: When no changed path differs in content or permission bits between the two worktrees, as after
  removing files from the index only, the delegation is prepared, but it can never be taken back:
  whatever state the destination is in, a rollback fails, even though there is nothing to restore. The
  classification counts files that are equal in both states as installed.
\<close>

theorem unchanged_delegation_never_rolls_back:
  assumes prep: "prepared_in e tid w prep w1"
    and same: "same_files e (pa_changed_files prep) (aw_tree w (Worktree DestinationSide)) (aw_tree w (Worktree SourceSide))"
    and later: "aw_tree w2 Artifacts = aw_tree w1 Artifacts"
  shows "\<exists>er. fst (rollback_apply_artifacts e tid (pa_manifest_digest prep) w2) = Inl er"
proof (rule ccontr)
  obtain m dir where a: "applicable e tid (pa_manifest_digest prep) (aw_tree w1 Artifacts) m dir (aw_tree w dest)"
    and pre: "all_pre e (am_files m) (aw_tree w dest)" and post: "all_post e (am_files m) (aw_tree w (Worktree SourceSide))"
    and m: "map fa_path (am_files m) = pa_changed_files prep"
    by (rule prepared_inE [OF prep])
  have eq: "\<forall>f \<in> set (am_files m). fa_pre f = fa_post f"
    using same differing_files [OF pre post] unfolding m [symmetric] by blast
  have load: "r = (m, dir)" if "load_manifest e tid (pa_manifest_digest prep) w2 = (Inr r, w')" for r w'
    using tellsD [OF load_manifest_tells refl that, of m dir] applicableD(1) [OF a] later by simp
  have never: "c \<noteq> AllPre" if "classify_manifest e m w = (Inr c, w')" for c w w'
    using classify_same [OF that [unfolded classify_manifest_def] eq] .
  assume "\<nexists>er. fst (rollback_apply_artifacts e tid (pa_manifest_digest prep) w2) = Inl er"
  then obtain u w3 where "rollback_apply_artifacts e tid (pa_manifest_digest prep) w2 = (Inr u, w3)"
    by (metis prod.collapse sum.exhaust)
  then show False
    unfolding rollback_apply_artifacts_def
    by (elim then_do_Inr) (auto dest!: load never simp: refuse_Inr split: if_splits elim!: then_do_Inr)
qed

end
