(* ===== verification/Apply_Returns.thy ===== *)
theory Apply_Returns
  imports Apply_Props
begin

text \<open>
  While no call fails and the repositories are at rest, a preparation returns and what it prepared can be
  applied.
\<close>

section \<open>Writing artifacts\<close>

lemma os_change_healthy:
  "healthy e w \<Longrightarrow> f (aw_tree w pl) = Inr t' \<Longrightarrow> os_change e pl damage f w = (Inr (), set_tree pl t' (counted w))"
  by (simp add: os_change_def Let_def healthy_def)

lemma or_says_eq: "m w = (Inr x, w') \<Longrightarrow> or_says m er w = (Inr x, w')"
  by (simp add: or_says_def)

text \<open>A path through directories is followed, whether its last name is a dot or not.\<close>

lemma follow_dir:
  assumes "\<forall>q. prefix q p \<longrightarrow> t q = Some FsDir"
  shows "tree_follow beyond p t = Inr FsDir"
proof -
  have "way_to t [] p = Clear" using assms by (simp add: way_to_Clear strict_prefix_def)
  moreover have "entry t p = Some FsDir" using assms prefixeq_butlast [of p] by (simp add: entry_def)
  ultimately show ?thesis by (simp add: tree_follow_def tree_stat_def)
qed

text \<open>The entries of \<open>par\<close> that begin with a dot are temporary files; there are none.\<close>

definition no_hidden :: "fs_path \<Rightarrow> fs_tree \<Rightarrow> bool" where
  "no_hidden par t \<longleftrightarrow> (\<forall>n. t (par @ [46 # n]) = None)"

lemma write_atomic_returns:
  assumes "healthy e w" and clock: "\<forall>n. ae_clock e n \<noteq> None"
    and up: "dirs_there par (aw_tree w Artifacts)" and hidden: "no_hidden par (aw_tree w Artifacts)"
    and n: "n \<noteq> []" "hd n \<noteq> 46" "aw_tree w Artifacts (par @ [n]) \<noteq> Some FsDir"
  shows "\<exists>w'. write_atomic_private e (par @ [n]) bs w = (Inr (), w') \<and> healthy e w' \<and>
    aw_tree w' = (aw_tree w)(Artifacts := (aw_tree w Artifacts)(par @ [n] \<mapsto> FsFile bs 384 1))"
proof -
  let ?t = "aw_tree w Artifacts" and ?m = "oe_created_mode e"
  obtain c where c: "ae_clock e (aw_calls w) = Some c" using clock by blast
  define k where "k = 46 # n @ lit ''.dcc-tmp-'' @ dec c"
  let ?temp = "par @ [k]"
  have temp: "temporary_sibling e (aw_calls w) (par @ [n]) = Inr ?temp"
    using c by (simp add: temporary_sibling_def k_def lit_def)
  have k: "k \<noteq> dot" "n \<noteq> dot" "k \<noteq> n" "?t ?temp = None" using n hidden by (auto simp: k_def dot_def lit_def no_hidden_def)
  have dirs: "\<forall>q. prefix q par \<longrightarrow> ?t q = Some FsDir" using up by (simp add: dirs_there_def)
  have dirs': "\<forall>q. prefix q par \<longrightarrow> (?t(?temp \<mapsto> x)) q = Some FsDir" for x using dirs by auto
  define w1 where "w1 = set_tree Artifacts (?t(?temp \<mapsto> FsFile [] ?m 1)) (counted w)"
  define w2 where "w2 = set_tree Artifacts (?t(?temp \<mapsto> FsFile [] 384 1)) (counted w1)"
  define w3 where "w3 = set_tree Artifacts (?t(?temp \<mapsto> FsFile bs 384 1)) (counted w2)"
  define w5 where "w5 = set_tree Artifacts (?t(par @ [n] \<mapsto> FsFile bs 384 1)) (counted (counted w3))"
  have h: "healthy e w1" "healthy e w2" "healthy e w3" "healthy e (counted w3)" "healthy e w5"
    using assms(1) by (simp_all add: w1_def w2_def w3_def w5_def healthy_counted)
  have create: "or_says (os_create_new e Artifacts ?temp) er w = (Inr (), w1)" for er :: apply_error
    unfolding os_create_new_def w1_def
    by (intro or_says_eq os_change_healthy assms(1) tree_create_clear dirs k(1,4))
  have mode: "or_says (os_set_mode e Artifacts ?temp 384) er w1 = (Inr (), w2)" for er :: apply_error
    unfolding os_set_mode_def w2_def
    by (intro or_says_eq os_change_healthy h) (simp add: w1_def tree_change_def)
  have bytes: "or_says (os_write_all e Artifacts ?temp bs) er w2 = (Inr (), w3)" for er :: apply_error
    unfolding os_write_all_def w3_def
    by (intro or_says_eq os_change_healthy h) (simp add: w2_def tree_change_def)
  have sync: "or_says (os_sync e Artifacts) er w3 = (Inr (), counted w3)" for er :: apply_error
    using h by (intro or_says_eq) (simp add: os_sync_def os_look_healthy)
  have "tree_rename ?temp (par @ [n]) (?t(?temp \<mapsto> FsFile bs 384 1)) =
      Inr ((?t(?temp \<mapsto> FsFile bs 384 1))(?temp := None, par @ [n] \<mapsto> FsFile bs 384 1))"
    using k n(3) by (intro tree_rename_clear dirs') auto
  moreover have "(?t(?temp \<mapsto> FsFile bs 384 1))(?temp := None, par @ [n] \<mapsto> FsFile bs 384 1) = ?t(par @ [n] \<mapsto> FsFile bs 384 1)"
    using k(4) by (simp add: fun_upd_idem)
  ultimately have "tree_rename ?temp (par @ [n]) (aw_tree (counted w3) Artifacts) = Inr (?t(par @ [n] \<mapsto> FsFile bs 384 1))"
    by (simp add: w3_def)
  then have rename: "or_says (os_rename e Artifacts ?temp (par @ [n])) er (counted w3) = (Inr (), w5)" for er :: apply_error
    unfolding os_rename_def w5_def by (intro or_says_eq os_change_healthy h)
  have "\<forall>q. prefix q par \<longrightarrow> aw_tree w5 Artifacts q = Some FsDir" using dirs by (auto simp: w5_def)
  then have "tree_follow (oe_beyond e Artifacts) par (aw_tree w5 Artifacts) = Inr FsDir" by (rule follow_dir)
  then have dir: "or_says (os_sync_dir e Artifacts (butlast (par @ [n]))) er w5 = (Inr (), counted w5)" for er :: apply_error
    using h by (intro or_says_eq) (simp add: os_sync_dir_def os_look_healthy)
  have "write_atomic_private e (par @ [n]) bs w = (Inr (), counted w5)"
    unfolding write_atomic_private_def
    by (simp add: then_do_def temp create mode bytes sync rename dir del: butlast_snoc)
  moreover have "aw_tree (counted w5) = (aw_tree w)(Artifacts := ?t(par @ [n] \<mapsto> FsFile bs 384 1))"
    by (simp add: w1_def w2_def w3_def w5_def)
  ultimately show ?thesis using h(5) healthy_counted by blast
qed


section \<open>Freezing\<close>

definition fresh_artifacts :: "fs_path \<Rightarrow> fs_tree \<Rightarrow> bool" where
  "fresh_artifacts dir t \<longleftrightarrow>
     (\<forall>side \<in> {lit ''pre'', lit ''post''}. dirs_there (dir @ [side]) t \<and> no_hidden (dir @ [side]) t \<and>
        (\<forall>n. t (dir @ [side, n]) \<noteq> Some FsDir)) \<and>
     no_hidden dir t \<and> (\<forall>n. n \<notin> {lit ''pre'', lit ''post''} \<longrightarrow> t (dir @ [n]) \<noteq> Some FsDir)"

lemma fresh_payload:
  assumes "fresh_artifacts dir t" and "side \<in> {lit ''pre'', lit ''post''}" and "hd n \<noteq> 46"
  shows "fresh_artifacts dir (t(dir @ [side, n] \<mapsto> FsFile bs m l))"
  using assms by (auto simp: fresh_artifacts_def no_hidden_def dirs_there_def)

lemma fresh_file:
  assumes "fresh_artifacts dir t" and "n \<notin> {lit ''pre'', lit ''post''}" and "hd n \<noteq> 46"
  shows "fresh_artifacts dir (t(dir @ [n] \<mapsto> FsFile bs m l))"
proof -
  have "dirs_there (dir @ [side]) (t(dir @ [n] \<mapsto> FsFile bs m l))"
    if "dirs_there (dir @ [side]) t" "side \<noteq> n" for side
    using that by (auto simp: dirs_there_def)
  with assms show ?thesis by (auto simp: fresh_artifacts_def no_hidden_def)
qed

lemma payload_file_head: "payload_file n \<noteq> []" "hd (payload_file n) \<noteq> 46"
proof -
  have "pad8 n \<noteq> []" by (cases "dec n") (auto simp: pad8_def)
  then obtain c cs where c: "pad8 n = c # cs" by (cases "pad8 n") auto
  with pad8_digits [of n] show "payload_file n \<noteq> []" "hd (payload_file n) \<noteq> 46"
    by (auto simp: payload_file_def is_ascii_digit_def)
qed

definition payload_size :: "bytes option \<Rightarrow> nat" where
  "payload_size p = (case p of None \<Rightarrow> 0 | Some bs \<Rightarrow> length bs)"

lemma payload_len_size: "payload_size p < 2 ^ 64 \<Longrightarrow> unat (payload_len p) = payload_size p"
  by (auto simp: payload_len_def payload_size_def len64_def unat_of_nat split: option.splits)

lemma checked_add_fits: "unat a + unat b < 2 ^ 64 \<Longrightarrow> checked_add a b = Some (a + b) \<and> unat (a + b) = unat a + unat b"
  by (simp add: checked_add_def unat_word_ariths)

lemma write_payload_returns:
  assumes "healthy e w" and clock: "\<forall>n. ae_clock e n \<noteq> None"
    and fresh: "fresh_artifacts dir (aw_tree w Artifacts)" and side: "side \<in> {lit ''pre'', lit ''post''}"
  shows "\<exists>w'. write_payload e (dir @ [side]) k payload w = (Inr (), w') \<and> healthy e w' \<and>
    fresh_artifacts dir (aw_tree w' Artifacts) \<and> (\<forall>s. aw_tree w' (Worktree s) = aw_tree w (Worktree s))"
proof (cases payload)
  case None
  with assms show ?thesis by (auto simp: write_payload_def give_def)
next
  case (Some bs)
  have "dirs_there (dir @ [side]) (aw_tree w Artifacts)" "no_hidden (dir @ [side]) (aw_tree w Artifacts)"
      "aw_tree w Artifacts ((dir @ [side]) @ [payload_file k]) \<noteq> Some FsDir"
    using fresh side by (auto simp: fresh_artifacts_def)
  from write_atomic_returns [OF assms(1) clock this(1,2) payload_file_head this(3), of bs]
  obtain w' where "write_atomic_private e ((dir @ [side]) @ [payload_file k]) bs w = (Inr (), w')" "healthy e w'"
    "aw_tree w' = (aw_tree w)(Artifacts := (aw_tree w Artifacts)((dir @ [side]) @ [payload_file k] \<mapsto> FsFile bs 384 1))" by blast
  with Some fresh_payload [OF fresh side payload_file_head(2) [of k]] show ?thesis by (simp add: write_payload_def)
qed

text \<open>What the files of a path are on one side, and that Git lists no submodule there.\<close>

definition freezable :: "apply_env \<Rightarrow> fs_tree \<Rightarrow> rstr \<Rightarrow> bool" where
  "freezable e t p \<longleftrightarrow> clear_way t (normal_names p) \<and> node_snapshot e (t (normal_names p)) \<noteq> None"

definition no_submodule :: "apply_env \<Rightarrow> fs_tree \<Rightarrow> rstr \<Rightarrow> bool" where
  "no_submodule e t p \<longleftrightarrow>
     (\<exists>out. ae_git e SourceSide (map lit [''ls-files'', ''--stage'', ''--''] @ [p]) t = GitExit (Some 0) out \<and>
        \<not> list_ex (\<lambda>record. record_mode record = lit ''160000'') (filter (\<lambda>r. r \<noteq> []) (split_on (\<lambda>b. b = 0) out)))"

definition frozen_size :: "fs_tree \<Rightarrow> fs_tree \<Rightarrow> rstr list \<Rightarrow> nat" where
  "frozen_size td ts ps =
     sum_list (map (\<lambda>p. payload_size (node_payload (td (normal_names p))) + payload_size (node_payload (ts (normal_names p)))) ps)"

lemma reject_submodule_returns:
  assumes "healthy e w" and "no_submodule e (aw_tree w (Worktree SourceSide)) p"
  shows "reject_submodule e SourceSide p w = (Inr (), counted w)"
  using assms by (auto simp: reject_submodule_def git_output_def no_submodule_def then_do_def asking_def run_git_healthy give_def)

lemma capture_returns:
  assumes "healthy e w" and "tree_ok (aw_tree w pl)" and "plain_target p" and "freezable e (aw_tree w pl) p"
  obtains s w' where "capture_snapshot e pl p w = (Inr (s, node_payload (aw_tree w pl (normal_names p))), w')"
    and "healthy e w'" and "aw_tree w' = aw_tree w"
proof -
  obtain s where s: "node_snapshot e (aw_tree w pl (normal_names p)) = Some s" using assms(4) by (auto simp: freezable_def)
  obtain r w' where run: "capture_snapshot e pl p w = (r, w')" by (cases "capture_snapshot e pl p w")
  with capture_healthy [OF assms(1-3) _ s] assms(4) have "r = Inr (s, node_payload (aw_tree w pl (normal_names p)))"
    by (simp add: freezable_def)
  with that run quietD [OF quiet_capture run] quiet_healthy [OF quiet_capture run assms(1)] show ?thesis by blast
qed

lemma freeze_files_returns:
  assumes "healthy e w" and clock: "\<forall>n. ae_clock e n \<noteq> None" and "fresh_artifacts dir (aw_tree w Artifacts)"
    and "tree_ok (aw_tree w (Worktree DestinationSide))" and "tree_ok (aw_tree w (Worktree SourceSide))"
    and "\<forall>p \<in> set ps. plain_target p \<and> freezable e (aw_tree w (Worktree DestinationSide)) p \<and>
      freezable e (aw_tree w (Worktree SourceSide)) p \<and> no_submodule e (aw_tree w (Worktree SourceSide)) p"
    and "unat n + frozen_size (aw_tree w (Worktree DestinationSide)) (aw_tree w (Worktree SourceSide)) ps \<le> 512 * 1024 * 1024"
  shows "\<exists>files tot w'. freeze_files e dir k n ps w = (Inr (files, tot), w') \<and> healthy e w' \<and>
    fresh_artifacts dir (aw_tree w' Artifacts) \<and> (\<forall>s. aw_tree w' (Worktree s) = aw_tree w (Worktree s))"
  using assms(1,3-)
proof (induction ps arbitrary: k n w)
  case Nil
  then show ?case by (auto simp: give_def)
next
  case (Cons p ps)
  let ?td = "aw_tree w (Worktree DestinationSide)" and ?ts = "aw_tree w (Worktree SourceSide)"
  let ?pb = "node_payload (?td (normal_names p))" and ?qb = "node_payload (?ts (normal_names p))"
  have p: "plain_target p" "freezable e ?td p" "freezable e ?ts p" "no_submodule e ?ts p" using Cons.prems(5) by auto
  note rej = reject_submodule_returns [OF Cons.prems(1) p(4)]
  obtain pre w2 where pre: "capture_snapshot e (Worktree DestinationSide) p (counted w) = (Inr (pre, ?pb), w2)"
      and w2: "healthy e w2" "aw_tree w2 = aw_tree w"
    by (rule capture_returns [of e "counted w" "Worktree DestinationSide" p])
      (use Cons.prems p healthy_counted in auto)
  obtain post w3 where post: "capture_snapshot e (Worktree SourceSide) p w2 = (Inr (post, ?qb), w3)"
      and w3: "healthy e w3" "aw_tree w3 = aw_tree w"
    by (rule capture_returns [of e w2 "Worktree SourceSide" p]) (use Cons.prems p w2 in auto)
  have size: "payload_size ?pb + payload_size ?qb + unat n + frozen_size ?td ?ts ps \<le> 512 * 1024 * 1024"
    using Cons.prems(6) by (simp add: frozen_size_def)
  have len: "unat (payload_len ?pb) = payload_size ?pb" "unat (payload_len ?qb) = payload_size ?qb"
    using size by (auto intro!: payload_len_size)
  have add1: "checked_add n (payload_len ?pb) = Some (n + payload_len ?pb)"
      "unat (n + payload_len ?pb) = unat n + payload_size ?pb"
    using checked_add_fits [of n "payload_len ?pb"] size len by auto
  let ?n' = "n + payload_len ?pb + payload_len ?qb"
  have add2: "checked_add (n + payload_len ?pb) (payload_len ?qb) = Some ?n'"
      "unat ?n' = unat n + payload_size ?pb + payload_size ?qb"
    using checked_add_fits [of "n + payload_len ?pb" "payload_len ?qb"] size len add1 by auto
  have limit: "\<not> ?n' > MAX_ARTIFACT_BYTES"
    using add2(2) size by (simp add: MAX_ARTIFACT_BYTES_def word_less_nat_alt)
  obtain w4 where wpre: "write_payload e (dir @ [lit ''pre'']) k ?pb w3 = (Inr (), w4)" and w4: "healthy e w4"
      "fresh_artifacts dir (aw_tree w4 Artifacts)" "\<forall>s. aw_tree w4 (Worktree s) = aw_tree w (Worktree s)"
    using write_payload_returns [OF w3(1) clock, of dir "lit ''pre''" k ?pb] Cons.prems(2) w3(2) by auto
  obtain w5 where wpost: "write_payload e (dir @ [lit ''post'']) k ?qb w4 = (Inr (), w5)" and w5: "healthy e w5"
      "fresh_artifacts dir (aw_tree w5 Artifacts)" "\<forall>s. aw_tree w5 (Worktree s) = aw_tree w (Worktree s)"
    using write_payload_returns [OF w4(1) clock w4(2), of "lit ''post''" k ?qb] w4(3) by auto
  obtain files tot w' where rest: "freeze_files e dir (Suc k) ?n' ps w5 = (Inr (files, tot), w')" and w': "healthy e w'"
      "fresh_artifacts dir (aw_tree w' Artifacts)" "\<forall>s. aw_tree w' (Worktree s) = aw_tree w5 (Worktree s)"
    using Cons.IH [OF w5(1,2), of ?n' "Suc k"] Cons.prems(3-5) w5(3) size add2(2) by auto
  have "validate_relative_path p = Inr ()" by (rule plain_target_valid [OF p(1)])
  then have "\<exists>r. freeze_files e dir k n (p # ps) w = (Inr r, w')"
    using rej pre post add1(1) add2(1) limit wpre wpost rest by (simp add: then_do_def checked_def give_def)
  with w' w5(3) show ?case by auto
qed


section \<open>A preparation returns\<close>

definition git_lists :: "apply_env \<Rightarrow> git_side \<Rightarrow> string list \<Rightarrow> fs_tree \<Rightarrow> rstr list \<Rightarrow> bool" where
  "git_lists e side args t ps \<longleftrightarrow>
     (\<exists>out. ae_git e side (map lit args) t = GitExit (Some 0) out \<and> parse_nul_paths out = Inr ps)"

definition git_clean :: "apply_env \<Rightarrow> fs_tree \<Rightarrow> bool" where
  "git_clean e t \<longleftrightarrow>
     ae_git e DestinationSide (map lit [''status'', ''--porcelain=v1'', ''--untracked-files=no'', ''-z'']) t =
       GitExit (Some 0) []"

text \<open>
  Both repositories are at rest on the same commit, the destination is clean, and Git lists the paths \<open>ps\<close>
  as changed in the delegation's worktree: regular files or nothing on both sides, which fit the limits,
  and none of them untracked in the destination. The transaction has no artifacts yet.
\<close>

definition at_rest :: "apply_env \<Rightarrow> rstr \<Rightarrow> apply_world \<Rightarrow> apply_identity \<Rightarrow> apply_identity \<Rightarrow> rstr list \<Rightarrow> bool" where
  "at_rest e tid w d s ps \<longleftrightarrow>
     (let td = aw_tree w (Worktree DestinationSide); ts = aw_tree w (Worktree SourceSide); art = aw_tree w Artifacts
      in healthy e w \<and> (\<forall>n. ae_clock e n \<noteq> None) \<and>
         (\<exists>dir. transaction_dir e tid = Inr dir \<and> (\<forall>q. prefix dir q \<longrightarrow> art q = None)) \<and> art [] = Some FsDir \<and>
         tree_ok td \<and> tree_ok ts \<and>
         same_repository e DestinationSide d \<and> same_repository e SourceSide s \<and> ai_head d = ai_head s \<and> git_clean e td \<and>
         (\<exists>tracked untracked foreign.
            git_lists e SourceSide [''diff'', ''HEAD'', ''--no-renames'', ''--name-only'', ''-z''] ts tracked \<and>
            git_lists e SourceSide [''ls-files'', ''--others'', ''--exclude-standard'', ''-z''] ts untracked \<and>
            git_lists e DestinationSide [''ls-files'', ''--others'', ''--exclude-standard'', ''-z''] td foreign \<and>
            ps = remdups_adj (sort (tracked @ untracked)) \<and> set ps \<inter> set foreign = {}) \<and>
         ps \<noteq> [] \<and> length ps \<le> MAX_ARTIFACT_FILES \<and> validate_case_distinct_paths e ps = Inr () \<and>
         (\<forall>p \<in> set ps. plain_target p \<and> freezable e td p \<and> freezable e ts p \<and> no_submodule e ts p) \<and>
         frozen_size td ts ps \<le> 512 * 1024 * 1024)"

definition calm :: "apply_env \<Rightarrow> (place \<Rightarrow> fs_tree) \<Rightarrow> apply_world \<Rightarrow> bool" where
  "calm e T w \<longleftrightarrow> healthy e w \<and> aw_tree w = T"

lemma calm_quiet:
  assumes "quiet m" and "\<And>w. healthy e w \<Longrightarrow> aw_tree w = T \<Longrightarrow> fst (m w) = Inr x"
  shows "triple (calm e T) m (\<lambda>y w. y = x \<and> calm e T w) (\<lambda>_. False)"
proof (rule tripleI)
  fix w assume w: "calm e T w"
  show False if "m w = (Inl er, w')" for er w' using assms(2) [of w] w that by (simp add: calm_def)
  show "y = x \<and> calm e T w'" if run: "m w = (Inr y, w')" for y w'
    using assms(2) [of w] w run quietD [OF assms(1) run] quiet_healthy [OF assms(1) run, of e] by (simp add: calm_def)
qed

lemma calm_lists:
  assumes "git_lists e SourceSide [''diff'', ''HEAD'', ''--no-renames'', ''--name-only'', ''-z''] (T (Worktree SourceSide)) ps"
  shows "triple (calm e T) (tracked_changed_paths e SourceSide) (\<lambda>y w. y = ps \<and> calm e T w) (\<lambda>_. False)"
  by (rule calm_quiet [OF quiet_paths(1)])
    (use assms in \<open>auto simp: git_lists_def tracked_changed_paths_def git_output_def then_do_def asking_def run_git_healthy
      give_def checked_def\<close>)

lemma calm_untracked:
  assumes "git_lists e side [''ls-files'', ''--others'', ''--exclude-standard'', ''-z''] (T (Worktree side)) ps"
  shows "triple (calm e T) (untracked_paths e side) (\<lambda>y w. y = ps \<and> calm e T w) (\<lambda>_. False)"
  by (rule calm_quiet [OF quiet_paths(2)])
    (use assms in \<open>auto simp: git_lists_def untracked_paths_def git_output_def then_do_def asking_def run_git_healthy
      give_def checked_def\<close>)

lemma calm_clean:
  assumes "git_clean e (T dest)"
  shows "triple (calm e T) (ensure_clean_repository e DestinationSide) (\<lambda>y w. y = () \<and> calm e T w) (\<lambda>_. False)"
  by (rule calm_quiet [OF quiet_git_checks(2)])
    (use assms in \<open>auto simp: git_clean_def ensure_clean_repository_def git_output_def then_do_def asking_def
      run_git_healthy give_def\<close>)

lemma calm_git:
  assumes "same_repository e side i" and "T (Worktree side) [] = Some FsDir"
  shows "triple (calm e T) (ensure_git_root e side) (\<lambda>y w. y = () \<and> calm e T w) (\<lambda>_. False)"
    and "triple (calm e T) (inspect_identity e side) (\<lambda>y w. y = i \<and> calm e T w) (\<lambda>_. False)"
    and "triple (calm e T) (ensure_no_operation_in_progress e side) (\<lambda>y w. y = () \<and> calm e T w) (\<lambda>_. False)"
    and "triple (calm e T) (ensure_identity e side i) (\<lambda>y w. y = () \<and> calm e T w) (\<lambda>_. False)"
  using git_checks_healthy [OF _ assms(1)] identity_healthy [OF _ assms(1)] assms(2)
  by (intro calm_quiet quiet_intros; simp)+

lemma calm_root:
  assumes "T Artifacts [] = Some FsDir"
  shows "triple (calm e T) (ensure_artifact_root e) (\<lambda>y w. y = () \<and> calm e T w) (\<lambda>_. False)"
proof (rule tripleI)
  fix w assume w: "calm e T w"
  note t = tellsD [OF tells_artifact_root [where T = T, OF assms, of e], of w]
  show False if "ensure_artifact_root e w = (Inl er, w')" for er w' using t [OF _ that] w by (simp add: calm_def)
  show "y = () \<and> calm e T w'" if "ensure_artifact_root e w = (Inr y, w')" for y w'
    using t [OF _ that] w healthy_mono [of e w w'] by (simp add: calm_def)
qed

lemma calm_private_dir:
  assumes "dirs_there par (T Artifacts)" and "n \<noteq> dot" and "T Artifacts (par @ [n]) = None"
  shows "triple (calm e T) (create_private_dir e (par @ [n]))
    (\<lambda>y w. y = () \<and> calm e (T(Artifacts := (T Artifacts)(par @ [n] \<mapsto> FsDir))) w) (\<lambda>_. False)"
proof -
  have dirs: "\<forall>q. prefix q par \<longrightarrow> T Artifacts q = Some FsDir" using assms(1) by (simp add: dirs_there_def)
  have "create_private_dir e (par @ [n]) w =
      (Inr (), counted (set_tree Artifacts ((T Artifacts)(par @ [n] \<mapsto> FsDir)) (counted w)))" if w: "calm e T w" for w
  proof -
    let ?w1 = "set_tree Artifacts ((T Artifacts)(par @ [n] \<mapsto> FsDir)) (counted w)"
    have "os_create_dir e Artifacts (par @ [n]) w = (Inr (), ?w1)"
      unfolding os_create_dir_def
      by (rule os_change_healthy) (use w tree_create_clear [OF dirs assms(2,3)] in \<open>simp_all add: calm_def\<close>)
    moreover have "tree_follow (oe_beyond e Artifacts) (par @ [n]) ((T Artifacts)(par @ [n] \<mapsto> FsDir)) = Inr FsDir"
      by (rule follow_dir) (use dirs in \<open>auto simp: prefix_snoc\<close>)
    then have "os_protect_dir e Artifacts (par @ [n]) ?w1 = (Inr (), counted ?w1)"
      using w by (simp add: os_protect_dir_def calm_def os_look_healthy healthy_counted)
    ultimately show ?thesis by (simp add: create_private_dir_def then_do_def or_says_def)
  qed
  then show ?thesis by (auto simp: triple_def calm_def healthy_counted fun_upd_def)
qed


lemma freeze_manifest_returns:
  assumes "healthy e w" and clock: "\<forall>n. ae_clock e n \<noteq> None" and fresh: "fresh_artifacts dir (aw_tree w Artifacts)"
    and ok: "tree_ok (aw_tree w (Worktree DestinationSide))" "tree_ok (aw_tree w (Worktree SourceSide))"
    and paths: "\<forall>p \<in> set ps. plain_target p \<and> freezable e (aw_tree w (Worktree DestinationSide)) p \<and>
      freezable e (aw_tree w (Worktree SourceSide)) p \<and> no_submodule e (aw_tree w (Worktree SourceSide)) p"
    and size: "frozen_size (aw_tree w (Worktree DestinationSide)) (aw_tree w (Worktree SourceSide)) ps \<le> 512 * 1024 * 1024"
  shows "\<exists>prep w'. freeze_manifest e tid dir s d ps w = (Inr prep, w') \<and> healthy e w' \<and>
    pa_changed_files prep = ps \<and> pa_source_identity prep = s \<and> pa_destination_identity prep = d"
proof -
  obtain files tot w1 where freeze: "freeze_files e dir 0 0 ps w = (Inr (files, tot), w1)" and w1: "healthy e w1"
      "fresh_artifacts dir (aw_tree w1 Artifacts)"
    using freeze_files_returns [OF assms(1) clock fresh ok paths, of 0 0] size by auto
  have ps: "map fa_path files = ps" by (rule freeze_files_paths [OF freeze])
  have name: "lit n \<notin> {lit ''pre'', lit ''post''}" "lit n \<noteq> []" "hd (lit n) \<noteq> 46"
    if "n \<in> {''manifest.json'', ''manifest.sha256''}" for n
    using that by (auto simp: lit_def)
  have put: "\<exists>w'. write_atomic_private e (dir @ [lit n]) bs v = (Inr (), w') \<and> healthy e w' \<and>
      fresh_artifacts dir (aw_tree w' Artifacts)"
    if v: "healthy e v" "fresh_artifacts dir (aw_tree v Artifacts)" and n: "n \<in> {''manifest.json'', ''manifest.sha256''}"
    for n bs v
  proof -
    have "dirs_there (dir @ [lit ''pre'']) (aw_tree v Artifacts)" using v(2) by (simp add: fresh_artifacts_def)
    then have "dirs_there dir (aw_tree v Artifacts)" by (simp add: dirs_there_def)
    moreover have "no_hidden dir (aw_tree v Artifacts)" "aw_tree v Artifacts (dir @ [lit n]) \<noteq> Some FsDir"
      using v(2) name(1) [OF n] by (auto simp: fresh_artifacts_def)
    ultimately obtain w' where "write_atomic_private e (dir @ [lit n]) bs v = (Inr (), w')" "healthy e w'"
        "aw_tree w' = (aw_tree v)(Artifacts := (aw_tree v Artifacts)(dir @ [lit n] \<mapsto> FsFile bs 384 1))"
      using write_atomic_returns [OF v(1) clock _ _ name(2,3) [OF n]] by blast
    with fresh_file [OF v(2) name(1,3) [OF n]] show ?thesis by auto
  qed
  let ?m = "\<lparr>am_version = 1, am_transaction_id = tid, am_source = s, am_destination = d, am_files = files\<rparr>"
  obtain w2 where json: "write_atomic_private e (dir @ [lit ''manifest.json'']) (ae_json e ?m) w1 = (Inr (), w2)"
      and w2: "healthy e w2" "fresh_artifacts dir (aw_tree w2 Artifacts)"
    using put [OF w1] by blast
  obtain w3 where sha: "write_atomic_private e (dir @ [lit ''manifest.sha256''])
        (utf8 (sha256_hex e (ae_json e ?m) @ [10])) w2 = (Inr (), w3)"
      and w3: "healthy e w3" "fresh_artifacts dir (aw_tree w3 Artifacts)"
    using put [OF w2] by blast
  have "dirs_there (dir @ [lit ''pre'']) (aw_tree w3 Artifacts)" using w3(2) by (simp add: fresh_artifacts_def)
  then have "tree_follow (oe_beyond e Artifacts) dir (aw_tree w3 Artifacts) = Inr FsDir"
    by (intro follow_dir) (simp add: dirs_there_def)
  then have "os_sync_dir e Artifacts dir w3 = (Inr (), counted w3)"
    using w3(1) by (simp add: os_sync_dir_def os_look_healthy)
  with freeze json sha have "freeze_manifest e tid dir s d ps w =
      (Inr \<lparr>pa_transaction_id = tid, pa_manifest_digest = sha256_hex e (ae_json e ?m), pa_file_count = length files,
         pa_artifact_bytes = tot, pa_changed_files = map fa_path files, pa_source_identity = s,
         pa_destination_identity = d\<rparr>, counted w3)"
    by (simp add: freeze_manifest_def then_do_def or_says_def Let_def give_def)
  then show ?thesis using w3(1) ps healthy_counted by auto
qed

lemma fresh_start:
  assumes "art [] = Some FsDir" and "\<forall>q. prefix [n] q \<longrightarrow> art q = None"
  shows "fresh_artifacts [n] (art([n] \<mapsto> FsDir, [n, lit ''pre''] \<mapsto> FsDir, [n, lit ''post''] \<mapsto> FsDir))"
proof -
  have gone: "art (n # q) = None" for q using assms(2) by simp
  have two: "prefix q [n, x] \<longleftrightarrow> q = [] \<or> q = [n] \<or> q = [n, x]" for q x by (auto simp: prefix_Cons)
  show ?thesis
    using assms(1) gone by (auto simp: fresh_artifacts_def dirs_there_def no_hidden_def two lit_def)
qed

lemma prepare_returns:
  assumes rest: "at_rest e tid w d s ps"
  obtains prep w1 where "prepare_apply_artifacts e tid w = (Inr prep, w1)" and "healthy e w1"
    and "pa_changed_files prep = ps" and "pa_source_identity prep = s" and "pa_destination_identity prep = d"
proof -
  let ?T = "aw_tree w"
  note r = rest [unfolded at_rest_def Let_def]
  obtain dir where dir: "transaction_dir e tid = Inr dir" "\<forall>q. prefix dir q \<longrightarrow> ?T Artifacts q = None" using r by blast
  obtain n where n: "dir = [n]" "n \<noteq> dot" using transaction_dir_single(1) [OF dir(1)] by blast
  obtain tracked untracked foreign where
      lists: "git_lists e SourceSide [''diff'', ''HEAD'', ''--no-renames'', ''--name-only'', ''-z''] (?T (Worktree SourceSide)) tracked"
        "git_lists e SourceSide [''ls-files'', ''--others'', ''--exclude-standard'', ''-z''] (?T (Worktree SourceSide)) untracked"
        "git_lists e DestinationSide [''ls-files'', ''--others'', ''--exclude-standard'', ''-z''] (?T dest) foreign"
      and ps: "ps = remdups_adj (sort (tracked @ untracked))" "set ps \<inter> set foreign = {}" using r by blast
  obtain p where p: "p \<in> set ps" using r by (cases ps) auto
  then have roots: "?T dest [] = Some FsDir" "?T (Worktree SourceSide) [] = Some FsDir"
    using r by (auto simp: freezable_def clear_way_def)
  have art: "?T Artifacts [] = Some FsDir" using r by blast
  have sd: "same_repository e DestinationSide d" and ss: "same_repository e SourceSide s" using r by blast+
  note gd = calm_git [where T = ?T, OF sd roots(1)] and gs = calm_git [where T = ?T, OF ss roots(2)]
  let ?E = "\<lambda>_ :: apply_world. False"
  let ?Q = "\<lambda>prep w. healthy e w \<and> pa_changed_files prep = ps \<and> pa_source_identity prep = s \<and> pa_destination_identity prep = d"
  have uuid: "triple (calm e ?T) (checked (validate_transaction_id e tid)) (\<lambda>y w. y = () \<and> calm e ?T w) ?E"
    using transaction_dir_single(2) [OF dir(1)] by (intro triple_checked) (auto simp: validate_transaction_id_def require_def)
  have cased: "triple (calm e ?T) (checked (validate_case_distinct_paths e ps)) (\<lambda>y w. y = () \<and> calm e ?T w) ?E"
    using r by (intro triple_checked) auto
  have coll: "triple (calm e ?T) (ensure_no_untracked_collision e ps) (\<lambda>y w. y = () \<and> calm e ?T w) ?E"
  proof -
    have none: "find (\<lambda>p. p \<in> set foreign) ps = None" using ps(2) by (auto simp: find_None_iff)
    show ?thesis
      unfolding ensure_no_untracked_collision_def
      by (rule triple_then [OF calm_untracked [where T = ?T, OF lists(3)]], rule triple_fact, hypsubst,
        simp add: none triple_give)
  qed
  have tdir: "triple (calm e ?T) (checked (transaction_dir e tid)) (\<lambda>y w. y = dir \<and> calm e ?T w) ?E"
    using dir(1) by (intro triple_checked) auto
  let ?T1 = "?T(Artifacts := (?T Artifacts)([n] \<mapsto> FsDir))"
  let ?T2 = "?T(Artifacts := (?T Artifacts)([n] \<mapsto> FsDir, [n, lit ''pre''] \<mapsto> FsDir))"
  let ?T3 = "?T(Artifacts := (?T Artifacts)([n] \<mapsto> FsDir, [n, lit ''pre''] \<mapsto> FsDir, [n, lit ''post''] \<mapsto> FsDir))"
  have gone: "?T Artifacts (n # q) = None" for q using dir(2) n by simp
  have names: "lit ''pre'' \<noteq> dot" "lit ''post'' \<noteq> dot" "lit ''pre'' \<noteq> lit ''post''" by (simp_all add: lit_def dot_def)
  have one: "prefix q [n] \<longleftrightarrow> q = [] \<or> q = [n]" for q :: fs_path by (auto simp: prefix_Cons)
  have mk1: "triple (calm e ?T) (create_private_dir e dir) (\<lambda>y w. y = () \<and> calm e ?T1 w) ?E"
    using calm_private_dir [where T = ?T and par = "[]" and n = n and e = e] gone [of "[]"] art n by (simp add: dirs_there_def)
  have mk2: "triple (calm e ?T1) (create_private_dir e (dir @ [lit ''pre''])) (\<lambda>y w. y = () \<and> calm e ?T2 w) ?E"
    using calm_private_dir [where T = ?T1 and par = "[n]" and n = "lit ''pre''" and e = e] gone [of "[_]"] art n names
    by (simp add: dirs_there_def one)
  have mk3: "triple (calm e ?T2) (create_private_dir e (dir @ [lit ''post''])) (\<lambda>y w. y = () \<and> calm e ?T3 w) ?E"
    using calm_private_dir [where T = ?T2 and par = "[n]" and n = "lit ''post''" and e = e] gone [of "[_]"] art n names
    by (simp add: dirs_there_def one)
  have fin: "triple (calm e ?T3) (discarding e dir (freeze_manifest e tid dir s d ps)) ?Q ?E"
  proof -
    have "\<exists>prep w'. discarding e dir (freeze_manifest e tid dir s d ps) v = (Inr prep, w') \<and> ?Q prep w'"
      if v: "calm e ?T3 v" for v
    proof -
      have "fresh_artifacts dir (aw_tree v Artifacts)"
        using v fresh_start [OF art dir(2) [unfolded n(1)]] n(1) by (simp add: calm_def)
      then obtain prep w' where "freeze_manifest e tid dir s d ps v = (Inr prep, w')" "?Q prep w'"
        using freeze_manifest_returns [of e v dir ps tid s d] v r by (auto simp: calm_def)
      then show ?thesis by (auto simp: discarding_def)
    qed
    then show ?thesis by (fastforce simp: triple_def)
  qed
  have there: "triple (calm e ?T) (asking (os_exists e Artifacts dir) (\<lambda>there.
                  if there then refuse (Says ''delegation apply transaction already exists'')
                  else
                    then_do (create_private_dir e dir) (\<lambda>_.
                    then_do (create_private_dir e (dir @ [lit ''pre''])) (\<lambda>_.
                    then_do (create_private_dir e (dir @ [lit ''post''])) (\<lambda>_.
                      discarding e dir (freeze_manifest e tid dir s d ps)))))) ?Q ?E"
  proof -
    have "os_exists e Artifacts dir v = (False, counted v)" "calm e ?T (counted v)" if "calm e ?T v" for v
      using that gone [of "[]"] n art
      by (auto simp: calm_def os_exists_def os_look_healthy healthy_counted tree_follow_def tree_stat_def entry_def)
    moreover have "triple (calm e ?T) (then_do (create_private_dir e dir) (\<lambda>_.
                    then_do (create_private_dir e (dir @ [lit ''pre''])) (\<lambda>_.
                    then_do (create_private_dir e (dir @ [lit ''post''])) (\<lambda>_.
                      discarding e dir (freeze_manifest e tid dir s d ps))))) ?Q ?E"
      by (rule triple_then [OF mk1], rule triple_fact, rule triple_then [OF mk2], rule triple_fact,
        rule triple_then [OF mk3], rule triple_fact, rule fin)
    ultimately show ?thesis by (simp add: triple_def asking_def)
  qed
  have guards: "(ai_head d \<noteq> ai_head s) = False" "(ps = []) = False" "(length ps > MAX_ARTIFACT_FILES) = False"
    using r by auto
  have clean: "triple (calm e ?T) (ensure_clean_repository e DestinationSide) (\<lambda>y w. y = () \<and> calm e ?T w) ?E"
    using r by (intro calm_clean) blast
  have "triple (calm e ?T) (prepare_apply_artifacts e tid) ?Q ?E"
    unfolding prepare_apply_artifacts_def Let_def
    by (rule triple_then [OF uuid], rule triple_fact, rule triple_then [OF gd(1)], rule triple_fact,
      rule triple_then [OF gs(1)], rule triple_fact, rule triple_then [OF calm_root [where T = ?T, OF art]], rule triple_fact,
      rule triple_then [OF gd(2)], rule triple_fact, rule triple_then [OF gs(2)], rule triple_fact, hypsubst,
      rule triple_then [OF clean], rule triple_fact, rule triple_then [OF gd(3)], rule triple_fact,
      rule triple_then [OF gs(3)], rule triple_fact, simp only: guards(1) if_False,
      rule triple_then [OF calm_lists [where T = ?T, OF lists(1)]], rule triple_fact, hypsubst,
      rule triple_then [OF calm_untracked [where T = ?T, OF lists(2)]], rule triple_fact, hypsubst,
      simp only: ps(1) [symmetric] guards(2,3) if_False,
      rule triple_then [OF cased], rule triple_fact, rule triple_then [OF coll], rule triple_fact,
      rule triple_then [OF tdir], rule triple_fact, hypsubst, rule there)
  from triple_succeeds [OF this, of w] r that show ?thesis by (auto simp: calm_def)
qed


section \<open>An application returns\<close>

lemma calm_at_dest: "calm e T = at_dest e True T (\<lambda>t. t = T dest)"
  unfolding calm_def at_dest_def by (rule ext) (metis ext)

lemma calm_reconcile:
  assumes "layout_ok e tid (am_files m)" and "settled e tid (am_files m) (T dest) (T dest)"
    and "\<forall>f \<in> set (am_files m). clear_way (T dest) (target f) \<and> T dest (target f) \<noteq> Some FsSymlink"
  shows "triple (calm e T) (reconcile_destination_temporary_files e tid m) (\<lambda>_. calm e T) (\<lambda>_. False)"
proof -
  have mid: "midway e tid (am_files m) (T dest) (T dest)" and ok: "tree_ok (T dest)"
    using assms(2) by (auto simp: settled_def midway_def)
  have one: "triple (calm e T) (reconcile_temp e tid f) (\<lambda>_. calm e T) (\<lambda>_. False)" if f: "f \<in> set (am_files m)" for f
  proof -
    note l = layout_okD [OF assms(1) f]
    have ens: "triple (calm e T) (ensure_no_symlink_ancestors e dest (fa_path f)) (\<lambda>y w. y = () \<and> calm e T w) (\<lambda>_. False)"
      by (rule calm_quiet [OF quiet_ensure_no_symlink_ancestors], rule ancestors_healthy)
        (use ok l assms(3) f in \<open>auto simp: l(6)\<close>)
    have gone: "T dest (temp_of e tid f) = None" using assms(2) f by (auto simp: settled_def)
    have clear: "clear_way (T dest) (temp_of e tid f)"
      using midway_clear(2) [OF assms(1) mid f] assms(3) f by blast
    have stat: "os_stat e dest (temp_of e tid f) w = (Inl IoNotFound, counted w)" if "calm e T w" for w
      using os_stat_healthy [of e w dest "temp_of e tid f"] that ok clear gone temp_of_simps(2)
      by (auto simp: calm_def)
    have last: "triple (calm e T) (asking (os_stat e dest (temp_of e tid f)) (\<lambda>r. case r of
           Inl IoNotFound \<Rightarrow> give ()
         | Inl IoOther \<Rightarrow> refuse (Says ''failed to inspect destination temp file'')
         | Inr (FsFile _ mode nlink) \<Rightarrow> discard_temp e f (temp_of e tid f) mode nlink
         | Inr _ \<Rightarrow> refuse (Says ''destination temp file is not regular''))) (\<lambda>_. calm e T) (\<lambda>_. False)"
      using stat by (auto simp: triple_def asking_def give_def calm_def healthy_counted)
    show ?thesis
      unfolding reconcile_temp_def Let_def destination_temp_path_eq [OF l(1,2)] plain_target_valid [OF l(2)] then_checked
      by (rule triple_then [OF ens], rule triple_fact, rule last)
  qed
  have "triple (calm e T) (each (reconcile_temp e tid) fs) (\<lambda>_. calm e T) (\<lambda>_. False)" if "set fs \<subseteq> set (am_files m)" for fs
    using that by (induction fs) (auto intro!: triple_give triple_then [OF one])
  then show ?thesis by (simp add: reconcile_destination_temporary_files_def)
qed

lemma failed_at_True [simp]: "failed_at True T \<Theta> = (\<lambda>_. False)"
  by (simp add: failed_at_def fun_eq_iff)

lemma apply_returns:
  assumes a: "applicable e tid digest (T Artifacts) m dir (T dest)"
    and sd: "same_repository e DestinationSide (am_destination m)" and ss: "same_repository e SourceSide (am_source m)"
    and roots: "T dest [] = Some FsDir" "T (Worktree SourceSide) [] = Some FsDir" and clean: "git_clean e (T dest)"
    and start: "settled e tid (am_files m) (T dest) (T dest)" and pre: "all_pre e (am_files m) (T dest)"
  shows "triple (calm e T) (apply_prepared_artifacts e tid digest)
    (\<lambda>out w. healthy e w \<and> all_post e (am_files m) (aw_tree w dest)) (\<lambda>_. False)"
proof -
  let ?S = "settled e tid (am_files m) (T dest)" and ?E = "\<lambda>_ :: apply_world. False"
  let ?R = "\<lambda>t. ?S t \<and> all_post e (am_files m) t" and ?Q = "\<lambda>out w. healthy e w \<and> all_post e (am_files m) (aw_tree w dest)"
  note ap = applicableD [OF a]
  note gd = calm_git [where T = T, OF sd roots(1)] and gs = calm_git [where T = T, OF ss roots(2)]
  have load: "triple (calm e T) (load_manifest e tid digest) (\<lambda>r w. r = (m, dir) \<and> calm e T w) ?E"
    using tells_step [where H = True and T = T and \<Phi> = "\<lambda>t. t = T dest" and \<Theta> = "\<lambda>_. True",
        OF load_manifest_tells] ap(1) by (simp add: calm_at_dest)
  have sym: "\<forall>f \<in> set (am_files m). clear_way (T dest) (target f) \<and> T dest (target f) \<noteq> Some FsSymlink"
    using ap(5) pre by (auto simp: all_pre_def)
  note rec = calm_reconcile [where T = T, OF ap(2) start sym]
  let ?diff = "\<exists>f \<in> set (am_files m). fa_pre f \<noteq> fa_post f"
  have cls0: "triple (calm e T) (classify_manifest e m)
      (\<lambda>c w. c = (if ?diff then AllPre else AllPost) \<and> calm e T w) ?E"
  proof (rule triple_weaken [OF classify_step [where H = True and T = T and \<Phi> = "\<lambda>t. t = T dest" and \<Theta> = "\<lambda>_. True", OF ap(2,5)]])
    have mid: "midway e tid (am_files m) (T dest) (T dest)" using start by (simp add: settled_def)
    show "c = (if ?diff then AllPre else AllPost) \<and> calm e T w"
      if "at_dest e True T (\<lambda>t. t = T dest \<and> (c = Divergent \<longrightarrow> \<not> True) \<and> (c \<noteq> Divergent \<longrightarrow>
        c = classification (\<exists>f \<in> set (am_files m). pre_only e t f) (\<exists>f \<in> set (am_files m). post_only e t f))) w" for c w
    proof (cases ?diff)
      case True
      with that verdicts(3) [OF mid pre True] show ?thesis by (auto simp: calm_at_dest at_dest_def)
    next
      case False
      then have "\<not> (\<exists>f \<in> set (am_files m). pre_only e t f)" for t by (auto simp: pre_only_def)
      with that False show ?thesis by (auto simp: calm_at_dest at_dest_def classification_cases)
    qed
  qed (use start in \<open>auto simp: calm_at_dest settled_def at_dest_def\<close>)
  have posts: "triple (calm e T) (each (install_post e tid dir) (am_files m)) (\<lambda>_. at_dest e True T ?R) ?E"
    by (rule triple_weaken [OF install_posts [where H = True and T = T, OF ap(2,4)]])
      (use start in \<open>auto simp: calm_at_dest at_dest_def\<close>)
  have ident: "triple (at_dest e True T ?R) (ensure_identity e DestinationSide (am_destination m)) (\<lambda>_. at_dest e True T ?R) ?E"
  proof -
    have "triple (at_dest e True T ?R) (ensure_identity e DestinationSide (am_destination m)) (\<lambda>_. at_dest e True T ?R)
        (failed_at True T (\<lambda>_. True))"
      by (rule dest_quiet [OF quiet_identity(2)]) (use git_checks_healthy(1) [OF _ sd] in \<open>auto simp: at_dest_def\<close>)
    then show ?thesis by simp
  qed
  have cls1: "triple (at_dest e True T ?R) (classify_manifest e m) (\<lambda>c w. c = AllPost \<and> at_dest e True T ?R w) ?E"
    by (rule triple_weaken [OF classify_step [where H = True and T = T and \<Phi> = ?R and \<Theta> = "\<lambda>_. True", OF ap(2,5)]])
      (auto simp: settled_def at_dest_def classification_cases all_post_def pre_only_def)
  have last: "triple (at_dest e True T ?R) (give (output_of m)) ?Q ?E"
    by (rule triple_give) (auto simp: at_dest_def)
  have guard: "(AllPost \<noteq> AllPost) = False" by simp
  have tail: "triple (calm e T) (then_do (classify_manifest e m) (\<lambda>c. case c of
       AllPost \<Rightarrow> give (output_of m)
     | MixedKnown \<Rightarrow> refuse (Says ''destination contains a partially applied delegation'')
     | Divergent \<Rightarrow> refuse (Says ''destination diverged from the frozen delegation artifact'')
     | AllPre \<Rightarrow>
         then_do (each (install_post e tid dir) (am_files m)) (\<lambda>_.
         then_do (ensure_identity e DestinationSide (am_destination m)) (\<lambda>_.
         then_do (classify_manifest e m) (\<lambda>after.
           if after \<noteq> AllPost then refuse (Says ''delegation apply did not produce the frozen postimage'')
           else give (output_of m)))))) ?Q ?E"
  proof (rule triple_then [OF cls0], rule triple_fact, hypsubst, cases ?diff)
    case False
    then have "all_post e (am_files m) (T dest)" using pre by (simp add: all_pre_def all_post_def)
    then have "triple (calm e T) (give (output_of m)) ?Q ?E" by (intro triple_give) (auto simp: calm_def)
    with False show "triple (calm e T) (case if ?diff then AllPre else AllPost of
       AllPost \<Rightarrow> give (output_of m)
     | MixedKnown \<Rightarrow> refuse (Says ''destination contains a partially applied delegation'')
     | Divergent \<Rightarrow> refuse (Says ''destination diverged from the frozen delegation artifact'')
     | AllPre \<Rightarrow>
         then_do (each (install_post e tid dir) (am_files m)) (\<lambda>_.
         then_do (ensure_identity e DestinationSide (am_destination m)) (\<lambda>_.
         then_do (classify_manifest e m) (\<lambda>after.
           if after \<noteq> AllPost then refuse (Says ''delegation apply did not produce the frozen postimage'')
           else give (output_of m))))) ?Q ?E" by simp
  qed (simp only: if_True apply_classification.case, rule triple_then [OF posts], rule triple_then [OF ident],
    rule triple_then [OF cls1], rule triple_fact, simp only: guard if_False, rule last)
  show ?thesis
    unfolding apply_prepared_artifacts_def
    by (rule triple_then [OF load], rule triple_fact, hypsubst, simp only: prod.case,
      rule triple_then [OF gd(1)], rule triple_fact, rule triple_then [OF gs(1)], rule triple_fact,
      rule triple_then [OF gd(3)], rule triple_fact, rule triple_then [OF gs(3)], rule triple_fact,
      rule triple_then [OF gd(4)], rule triple_fact, rule triple_then [OF gs(4)], rule triple_fact,
      rule triple_then [OF rec], rule triple_then [OF gd(4)], rule triple_fact,
      rule triple_then [OF calm_clean [where T = T, OF clean]], rule triple_fact, rule tail)
qed

section \<open>The whole way\<close>

text \<open>A delegation at rest whose paths are as Git prints them can be prepared.\<close>

definition can_prepare ::
    "apply_env \<Rightarrow> rstr \<Rightarrow> apply_world \<Rightarrow> apply_identity \<Rightarrow> apply_identity \<Rightarrow> rstr list \<Rightarrow> bool" where
  "can_prepare e tid w d s ps \<longleftrightarrow>
     at_rest e tid w d s ps \<and> paths_apart e tid ps \<and> no_temps e tid ps (aw_tree w (Worktree DestinationSide)) \<and>
     (\<forall>bs. length (ae_sha256 e bs) = 32) \<and> (\<forall>m. ae_parse e (ae_json e m) = Some m)"

lemma can_prepareE:
  assumes "can_prepare e tid w d s ps"
  obtains prep w1 where "prepared_in e tid w prep w1" and "healthy e w1" and "pa_changed_files prep = ps"
    and "pa_source_identity prep = s" and "pa_destination_identity prep = d"
proof -
  have rest: "at_rest e tid w d s ps" using assms by (simp add: can_prepare_def)
  obtain prep w1 where "prepare_apply_artifacts e tid w = (Inr prep, w1)" "healthy e w1" "pa_changed_files prep = ps"
      "pa_source_identity prep = s" "pa_destination_identity prep = d"
    by (rule prepare_returns [OF rest])
  moreover have "tree_ok (aw_tree w dest)" "tree_ok (aw_tree w (Worktree SourceSide))"
    using rest by (simp_all add: at_rest_def Let_def)
  ultimately show ?thesis using assms that by (simp add: can_prepare_def prepared_in_def)
qed

lemma apply_prepared_returns:
  assumes can: "can_prepare e tid w d s ps" and prep: "prepared_in e tid w prep w1" and "healthy e w1"
    and idents: "pa_source_identity prep = s" "pa_destination_identity prep = d"
  obtains out w2 where "apply_prepared_artifacts e tid (pa_manifest_digest prep) w1 = (Inr out, w2)" and "healthy e w2"
proof -
  note r = can [unfolded can_prepare_def at_rest_def Let_def]
  obtain m dir where a: "applicable e tid (pa_manifest_digest prep) (aw_tree w1 Artifacts) m dir (aw_tree w dest)"
    and trees: "\<forall>side. aw_tree w1 (Worktree side) = aw_tree w (Worktree side)"
    and pre: "all_pre e (am_files m) (aw_tree w dest)"
    and ids: "am_source m = pa_source_identity prep" "am_destination m = pa_destination_identity prep"
    and fresh: "tree_ok (aw_tree w dest)" "no_temps e tid (map fa_path (am_files m)) (aw_tree w dest)"
    by (rule prepared_inE [OF prep])
  have "aw_tree w (Worktree side) [] = Some FsDir" for side
    using r by (cases ps; cases side) (auto simp: freezable_def clear_way_def)
  then have roots: "aw_tree w1 (Worktree side) [] = Some FsDir" for side using trees by simp
  have "triple (calm e (aw_tree w1)) (apply_prepared_artifacts e tid (pa_manifest_digest prep))
      (\<lambda>out w. healthy e w \<and> all_post e (am_files m) (aw_tree w dest)) (\<lambda>_. False)"
    by (rule apply_returns [where T = "aw_tree w1" and m = m and dir = dir])
      (use a trees r ids idents roots pre settled_start [OF fresh(1) pre fresh(2)] in auto)
  from triple_succeeds [OF this, of w1] assms(3) that show ?thesis by (auto simp: calm_def)
qed

text \<open>
  C36: When both repositories are at rest on the same commit and no call fails, the delegation's changes
  are prepared, and applying them returns: the changed paths of the destination then have the files of
  the delegation's worktree.
\<close>

theorem calm_delegation_is_applied:
  assumes "can_prepare e tid w d s ps"
  shows "\<exists>prep w1 out w2. prepare_apply_artifacts e tid w = (Inr prep, w1) \<and> pa_changed_files prep = ps \<and>
    apply_prepared_artifacts e tid (pa_manifest_digest prep) w1 = (Inr out, w2) \<and> ao_changed_files out = ps \<and>
    same_files e ps (aw_tree w (Worktree SourceSide)) (aw_tree w2 (Worktree DestinationSide))"
proof -
  obtain prep w1 where prep: "prepared_in e tid w prep w1" and w1: "healthy e w1" and ps: "pa_changed_files prep = ps"
      and ids: "pa_source_identity prep = s" "pa_destination_identity prep = d"
    by (rule can_prepareE [OF assms])
  obtain m dir where a: "applicable e tid (pa_manifest_digest prep) (aw_tree w1 Artifacts) m dir (aw_tree w dest)"
    and trees: "\<forall>side. aw_tree w1 (Worktree side) = aw_tree w (Worktree side)"
    and pre: "all_pre e (am_files m) (aw_tree w dest)" and post: "all_post e (am_files m) (aw_tree w (Worktree SourceSide))"
    and m: "map fa_path (am_files m) = pa_changed_files prep"
    by (rule prepared_inE [OF prep])
  obtain out w2 where run: "apply_prepared_artifacts e tid (pa_manifest_digest prep) w1 = (Inr out, w2)"
    by (rule apply_prepared_returns [OF assms prep w1 ids])
  from apply_from_prepared(1) [OF prep run a m pre trees, of out]
  have "out = output_of m" "all_post e (am_files m) (aw_tree w2 dest)" by (auto simp: at_dest_def)
  then have "ao_changed_files out = ps" "same_files e ps (aw_tree w (Worktree SourceSide)) (aw_tree w2 dest)"
    using all_post_files [OF post] m ps by (simp_all add: output_of_def)
  then show ?thesis using prep ps run unfolding prepared_in_def by blast
qed

end
