(* ===== verification/Apply_Example.thy ===== *)
theory Apply_Example
  imports Apply_Returns Sample_Codec "HOL-Library.Code_Target_Nat"
begin

text \<open>
  A small instance of the apply engine: an encoding of manifests that reads back, a repository whose
  delegation changed one file and added another in a new directory, and the properties at work on it.
\<close>

section \<open>An encoding of manifests\<close>

definition enc_identity :: "apply_identity \<Rightarrow> bytes" where
  "enc_identity = enc_as (\<lambda>i. (ai_head i, ai_branch i, ai_index_tree i)) (enc_both enc_str (enc_both enc_opt enc_str))"

definition dec_identity :: "bytes \<Rightarrow> (apply_identity \<times> bytes) option" where
  "dec_identity = dec_as (\<lambda>(h, b, t). \<lparr>ai_head = h, ai_branch = b, ai_index_tree = t\<rparr>)
  (dec_both dec_str (dec_both dec_opt dec_str))"

definition enc_snapshot :: "snapshot \<Rightarrow> bytes" where
  "enc_snapshot = enc_as (\<lambda>s. (if sn_kind s = Missing then 0 else 1, sn_digest s, sn_bytes s, sn_file_mode s))
  (enc_both enc_nat (enc_both enc_str (enc_both enc_word enc_word)))"

definition dec_snapshot :: "bytes \<Rightarrow> (snapshot \<times> bytes) option" where
  "dec_snapshot = dec_as
  (\<lambda>(k, d, b, m). \<lparr>sn_kind = (if k = 0 then Missing else Regular), sn_digest = d, sn_bytes = b, sn_file_mode = m\<rparr>)
  (dec_both dec_nat (dec_both dec_str (dec_both dec_word dec_word)))"

definition enc_file :: "file_artifact \<Rightarrow> bytes" where
  "enc_file = enc_as (\<lambda>f. (fa_path f, fa_pre f, fa_post f, fa_pre_payload f, fa_post_payload f))
  (enc_both enc_str (enc_both enc_snapshot (enc_both enc_snapshot (enc_both enc_opt enc_opt))))"

definition dec_file :: "bytes \<Rightarrow> (file_artifact \<times> bytes) option" where
  "dec_file = dec_as
  (\<lambda>(p, a, b, c, d). \<lparr>fa_path = p, fa_pre = a, fa_post = b, fa_pre_payload = c, fa_post_payload = d\<rparr>)
  (dec_both dec_str (dec_both dec_snapshot (dec_both dec_snapshot (dec_both dec_opt dec_opt))))"

definition enc_manifest :: "apply_manifest \<Rightarrow> bytes" where
  "enc_manifest = enc_as (\<lambda>m. (am_version m, am_transaction_id m, am_source m, am_destination m, am_files m))
  (enc_both enc_word (enc_both enc_str (enc_both enc_identity (enc_both enc_identity (enc_list enc_file)))))"

definition dec_manifest :: "bytes \<Rightarrow> (apply_manifest \<times> bytes) option" where
  "dec_manifest = dec_as
  (\<lambda>(v, t, s, d, fs). \<lparr>am_version = v, am_transaction_id = t, am_source = s, am_destination = d, am_files = fs\<rparr>)
  (dec_both dec_word (dec_both dec_str (dec_both dec_identity (dec_both dec_identity (dec_list dec_file)))))"

lemma manifest_reads_back: "reads_back enc_manifest dec_manifest"
proof -
  have "reads_back enc_identity dec_identity"
    unfolding enc_identity_def dec_identity_def by (intro as_reads_back both_reads_back field_reads_back) simp
  moreover have "reads_back enc_snapshot dec_snapshot"
    unfolding enc_snapshot_def dec_snapshot_def
    by (intro as_reads_back both_reads_back field_reads_back nat_reads_back)
      (auto intro!: snapshot.equality elim: snapshot_kind.exhaust, metis snapshot_kind.exhaust)
  ultimately show ?thesis
    unfolding enc_manifest_def dec_manifest_def enc_file_def dec_file_def
    by (intro as_reads_back both_reads_back list_reads_back field_reads_back) simp_all
qed

definition parse_manifest :: "bytes \<Rightarrow> apply_manifest option" where
  "parse_manifest bs = map_option fst (dec_manifest bs)"

lemma parse_manifest: "parse_manifest (enc_manifest m) = Some m"
  using reads_backD [OF manifest_reads_back, of m "[]"] by (simp add: parse_manifest_def)


section \<open>A repository\<close>

text \<open>
  The delegation changed the file \<open>a\<close> and added \<open>d/b\<close>, which lies in a new directory. Git finds the
  destination clean while \<open>a\<close> is as it was, and lists \<open>d/b\<close> as untracked where it is there.
\<close>

definition demo_tid :: rstr where
  "demo_tid = lit ''7f''"

definition demo_paths :: "rstr list" where
  "demo_paths = [lit ''a'', lit ''d/b'']"

definition demo_git :: "git_side \<Rightarrow> rstr list \<Rightarrow> fs_tree \<Rightarrow> git_answer" where
  "demo_git side args t =
     (if args = map lit [''rev-parse'', ''HEAD''] then GitExit (Some 0) (utf8 (lit ''c0''))
      else if args = map lit [''symbolic-ref'', ''--quiet'', ''--short'', ''HEAD''] then GitExit (Some 1) []
      else if args = map lit [''write-tree''] then GitExit (Some 0) (utf8 (lit ''e1''))
      else if args = map lit [''diff'', ''HEAD'', ''--no-renames'', ''--name-only'', ''-z'']
      then GitExit (Some 0) (utf8 (lit ''a'') @ [0])
      else if args = map lit [''ls-files'', ''--others'', ''--exclude-standard'', ''-z'']
      then GitExit (Some 0) (if t [lit ''d'', lit ''b''] = None then [] else utf8 (lit ''d/b'') @ [0])
      else if args = map lit [''status'', ''--porcelain=v1'', ''--untracked-files=no'', ''-z'']
      then GitExit (Some 0) (if t [lit ''a''] = Some (FsFile [1] 420 1) then [] else [77])
      else if take 2 args = map lit [''rev-parse'', ''--git-path''] then GitExit (Some 0) (utf8 (lit ''m''))
      else GitExit (Some 0) [])"

definition demo_env :: apply_env where
  "demo_env =
     \<lparr>oe_fails = (\<lambda>_. False), oe_torn = (\<lambda>_. 1), oe_kept = (\<lambda>_ _. False), oe_created_mode = 420,
      oe_beyond = (\<lambda>_ _. None), ae_clock = (\<lambda>n. Some n), ae_git = demo_git, ae_marker = (\<lambda>_ _ _. False),
      ae_lock_held = (\<lambda>_. False), ae_sha256 = (\<lambda>bs. take 32 (bs @ replicate 32 0)), ae_lower = id,
      ae_uuid = (\<lambda>s. s = demo_tid), ae_json = enc_manifest, ae_parse = parse_manifest\<rparr>"

definition demo_identity :: apply_identity where
  "demo_identity = \<lparr>ai_head = lit ''c0'', ai_branch = None, ai_index_tree = lit ''e1''\<rparr>"

definition demo_dest :: fs_tree where
  "demo_dest = [[] \<mapsto> FsDir, [lit ''a''] \<mapsto> FsFile [1] 420 1]"

definition demo_source :: fs_tree where
  "demo_source = [[] \<mapsto> FsDir, [lit ''a''] \<mapsto> FsFile [2, 3] 493 1, [lit ''d''] \<mapsto> FsDir,
     [lit ''d'', lit ''b''] \<mapsto> FsFile [4] 420 1]"

text \<open>A worktree in which \<open>a\<close> was removed from the index only.\<close>

definition demo_unchanged :: fs_tree where
  "demo_unchanged = demo_dest"

definition demo_world :: "fs_tree \<Rightarrow> apply_world" where
  "demo_world source =
     \<lparr>aw_tree = (\<lambda>pl. case pl of Artifacts \<Rightarrow> [[] \<mapsto> FsDir] | Worktree SourceSide \<Rightarrow> source
        | Worktree DestinationSide \<Rightarrow> demo_dest), aw_calls = 0\<rparr>"

lemma demo_env_simps [simp]:
  "oe_fails demo_env = (\<lambda>_. False)" "ae_clock demo_env = (\<lambda>n. Some n)" "ae_git demo_env = demo_git"
  "ae_marker demo_env = (\<lambda>_ _ _. False)" "ae_json demo_env = enc_manifest" "ae_parse demo_env = parse_manifest"
  "ae_sha256 demo_env = (\<lambda>bs. take 32 (bs @ replicate 32 0))"
  by (simp_all add: demo_env_def)

lemma demo_world_simps [simp]:
  "aw_tree (demo_world t) Artifacts = [[] \<mapsto> FsDir]" "aw_tree (demo_world t) (Worktree SourceSide) = t"
  "aw_tree (demo_world t) (Worktree DestinationSide) = demo_dest"
  by (simp_all add: demo_world_def)

lemma demo_repository: "same_repository demo_env side demo_identity"
proof -
  have says: "git_says demo_env side args t (lit v)"
    if "demo_git side args t = GitExit (Some 0) (utf8 (lit v))" "valid_str (lit v)" "trim (lit v) = lit v" for args t v
    using that from_utf8_utf8 by (auto simp: git_says_def)
  have texts: "valid_str (lit ''c0'')" "valid_str (lit ''e1'')" "valid_str (lit ''m'')"
      "trim (lit ''c0'') = lit ''c0''" "trim (lit ''e1'') = lit ''e1''" "trim (lit ''m'') = lit ''m''"
    by code_simp+
  have marker: "git_says demo_env side (map lit [''rev-parse'', ''--git-path''] @ [m]) t (lit ''m'')"
    if "m \<in> set operation_markers" for m t
    using that texts by (intro says) (auto simp: demo_git_def operation_markers_def)
  show ?thesis
    unfolding same_repository_def demo_identity_def
    using texts marker
    by (auto intro!: says) (auto simp: demo_git_def)
qed


lemma demo_names: "normal_names (lit ''a'') = [lit ''a'']" "normal_names (lit ''d/b'') = [lit ''d'', lit ''b'']"
  by code_simp+

lemma demo_lists:
  "git_lists demo_env side [''diff'', ''HEAD'', ''--no-renames'', ''--name-only'', ''-z''] t [lit ''a'']"
  "t [lit ''d'', lit ''b''] = None \<Longrightarrow>
   git_lists demo_env side [''ls-files'', ''--others'', ''--exclude-standard'', ''-z''] t []"
  "t [lit ''d'', lit ''b''] \<noteq> None \<Longrightarrow>
   git_lists demo_env side [''ls-files'', ''--others'', ''--exclude-standard'', ''-z''] t [lit ''d/b'']"
proof -
  have "parse_nul_paths (utf8 (lit ''a'') @ [0]) = Inr [lit ''a'']" by code_simp
  then show "git_lists demo_env side [''diff'', ''HEAD'', ''--no-renames'', ''--name-only'', ''-z''] t [lit ''a'']"
    by (simp add: git_lists_def demo_git_def)
  have "parse_nul_paths [] = Inr []" by code_simp
  then show "git_lists demo_env side [''ls-files'', ''--others'', ''--exclude-standard'', ''-z''] t []"
    if "t [lit ''d'', lit ''b''] = None"
    using that by (simp add: git_lists_def demo_git_def)
  have "parse_nul_paths (utf8 (lit ''d/b'') @ [0]) = Inr [lit ''d/b'']" by code_simp
  then show "git_lists demo_env side [''ls-files'', ''--others'', ''--exclude-standard'', ''-z''] t [lit ''d/b'']"
    if "t [lit ''d'', lit ''b''] \<noteq> None"
    using that by (auto simp: git_lists_def demo_git_def)
qed

lemma demo_trees: "tree_ok demo_dest" "tree_ok demo_source"
  by (auto simp: tree_ok_def demo_dest_def demo_source_def append_eq_Cons_conv split: if_splits)

lemma demo_clear:
  "clear_way demo_dest [lit ''a'']" "clear_way demo_dest [lit ''d'', lit ''b'']"
  "clear_way demo_source [lit ''a'']" "clear_way demo_source [lit ''d'', lit ''b'']"
  by (auto simp: clear_way_def demo_dest_def demo_source_def strict_prefix_def prefix_Cons)

lemma demo_paths_apart: "paths_apart demo_env demo_tid [lit ''a'']" "paths_apart demo_env demo_tid demo_paths"
  by code_simp+

lemma demo_no_temps: "no_temps demo_env demo_tid demo_paths demo_dest"
  by code_simp

lemma demo_directory: "transaction_dir demo_env demo_tid = Inr [demo_tid]"
  by code_simp

lemma demo_common:
  "\<forall>bs. length (ae_sha256 demo_env bs) = 32" "\<forall>m. ae_parse demo_env (ae_json demo_env m) = Some m"
  "git_clean demo_env demo_dest" "\<And>t p. no_submodule demo_env t p" "healthy demo_env w"
  by (auto simp: parse_manifest git_clean_def demo_git_def demo_dest_def no_submodule_def healthy_def)

lemma demo_at_rest:
  assumes "tree_ok source" and "ps = remdups_adj (sort ([lit ''a''] @ untracked))" and "set ps \<subseteq> set demo_paths"
    and "git_lists demo_env SourceSide [''ls-files'', ''--others'', ''--exclude-standard'', ''-z''] source untracked"
    and "\<forall>p \<in> set ps. freezable demo_env source p" and "frozen_size demo_dest source ps \<le> 4"
    and "validate_case_distinct_paths demo_env ps = Inr ()" and "length ps \<le> 2"
  shows "at_rest demo_env demo_tid (demo_world source) demo_identity demo_identity ps"
proof -
  have plain: "plain_target (lit ''a'')" "plain_target (lit ''d/b'')" by code_simp+
  have freezable: "freezable demo_env demo_dest p" if "p \<in> set demo_paths" for p
    using that demo_clear by (auto simp: freezable_def demo_paths_def demo_names demo_dest_def)
  show ?thesis
    unfolding at_rest_def Let_def demo_world_simps
  proof (intro conjI)
    show "\<exists>dir. transaction_dir demo_env demo_tid = Inr dir \<and>
        (\<forall>q. prefix dir q \<longrightarrow> ([[] \<mapsto> FsDir] :: fs_tree) q = None)"
      using demo_directory by (auto simp: prefix_Cons)
    show "\<exists>tracked untracked foreign.
       git_lists demo_env SourceSide [''diff'', ''HEAD'', ''--no-renames'', ''--name-only'', ''-z''] source tracked \<and>
       git_lists demo_env SourceSide [''ls-files'', ''--others'', ''--exclude-standard'', ''-z''] source untracked \<and>
       git_lists demo_env DestinationSide [''ls-files'', ''--others'', ''--exclude-standard'', ''-z''] demo_dest foreign \<and>
       ps = remdups_adj (sort (tracked @ untracked)) \<and> set ps \<inter> set foreign = {}"
      using assms(2,4) demo_lists(1) demo_lists(2) [of demo_dest]
      by (intro exI [of _ "[lit ''a'']"] exI [of _ untracked] exI [of _ "[]"]) (simp add: demo_dest_def)
    show "\<forall>p \<in> set ps. plain_target p \<and> freezable demo_env demo_dest p \<and>
        freezable demo_env source p \<and> no_submodule demo_env source p"
      using freezable plain assms(3,5) demo_common(4) by (auto simp: demo_paths_def)
    have "lit ''a'' \<in> set ps" unfolding assms(2) by (simp add: set_insort_key)
    then show "ps \<noteq> []" by auto
    show "length ps \<le> MAX_ARTIFACT_FILES" using assms(8) by (simp add: MAX_ARTIFACT_FILES_def)
  qed (use assms demo_trees demo_repository demo_common in simp_all)
qed

lemma demo_can_prepare:
  "can_prepare demo_env demo_tid (demo_world demo_source) demo_identity demo_identity demo_paths"
proof -
  have "at_rest demo_env demo_tid (demo_world demo_source) demo_identity demo_identity demo_paths"
  proof (rule demo_at_rest [of _ _ "[lit ''d/b'']"])
    show "demo_paths = remdups_adj (sort ([lit ''a''] @ [lit ''d/b'']))" by code_simp
    show "validate_case_distinct_paths demo_env demo_paths = Inr ()" by code_simp
    show "frozen_size demo_dest demo_source demo_paths \<le> 4"
      by (simp add: frozen_size_def demo_paths_def demo_names demo_dest_def demo_source_def payload_size_def)
    show "\<forall>p \<in> set demo_paths. freezable demo_env demo_source p"
      using demo_clear by (auto simp: freezable_def demo_paths_def demo_names demo_source_def)
    show "git_lists demo_env SourceSide [''ls-files'', ''--others'', ''--exclude-standard'', ''-z''] demo_source [lit ''d/b'']"
      by (rule demo_lists) (simp add: demo_source_def)
  qed (simp_all add: demo_trees demo_paths_def)
  then show ?thesis
    using demo_paths_apart demo_no_temps demo_common by (simp add: can_prepare_def)
qed

lemma demo_unchanged_can_prepare:
  "can_prepare demo_env demo_tid (demo_world demo_unchanged) demo_identity demo_identity [lit ''a'']"
proof -
  have "at_rest demo_env demo_tid (demo_world demo_unchanged) demo_identity demo_identity [lit ''a'']"
  proof (rule demo_at_rest [of _ _ "[]"])
    show "validate_case_distinct_paths demo_env [lit ''a''] = Inr ()" by code_simp
    show "frozen_size demo_dest demo_unchanged [lit ''a''] \<le> 4"
      by (simp add: frozen_size_def demo_names demo_dest_def demo_unchanged_def payload_size_def)
    show "\<forall>p \<in> set [lit ''a'']. freezable demo_env demo_unchanged p"
      using demo_clear by (auto simp: freezable_def demo_names demo_unchanged_def demo_dest_def)
    show "git_lists demo_env SourceSide [''ls-files'', ''--others'', ''--exclude-standard'', ''-z''] demo_unchanged []"
      by (rule demo_lists) (simp add: demo_unchanged_def demo_dest_def)
  qed (simp_all add: demo_trees demo_unchanged_def demo_paths_def)
  moreover have "no_temps demo_env demo_tid [lit ''a''] demo_dest"
    using demo_no_temps by (simp add: no_temps_def demo_paths_def)
  ultimately show ?thesis
    using demo_paths_apart demo_common by (simp add: can_prepare_def)
qed

lemma demo_differs: "\<not> same_files demo_env demo_paths demo_dest demo_source"
  by code_simp

section \<open>The properties at work\<close>

theorem calm_delegation_is_applied_witness:
  "\<exists>prep w1 out w2. prepare_apply_artifacts demo_env demo_tid (demo_world demo_source) = (Inr prep, w1) \<and>
    pa_changed_files prep = demo_paths \<and>
    apply_prepared_artifacts demo_env demo_tid (pa_manifest_digest prep) w1 = (Inr out, w2) \<and>
    ao_changed_files out = demo_paths \<and>
    same_files demo_env demo_paths demo_source (aw_tree w2 (Worktree DestinationSide))"
  using calm_delegation_is_applied [OF demo_can_prepare] by simp

theorem prepared_manifest_loads_back_witness:
  "\<exists>prep w1 m dir. prepare_apply_artifacts demo_env demo_tid (demo_world demo_source) = (Inr prep, w1) \<and>
    fst (load_manifest demo_env demo_tid (pa_manifest_digest prep) w1) = Inr (m, dir) \<and>
    map fa_path (am_files m) = demo_paths"
proof -
  obtain prep w1 where prep: "prepared_in demo_env demo_tid (demo_world demo_source) prep w1"
      and w1: "healthy demo_env w1" and ps: "pa_changed_files prep = demo_paths"
    by (rule can_prepareE [OF demo_can_prepare])
  from prepared_manifest_loads_back [OF prep refl w1] obtain m dir
    where "fst (load_manifest demo_env demo_tid (pa_manifest_digest prep) w1) = Inr (m, dir)"
      "map fa_path (am_files m) = pa_changed_files prep" by blast
  moreover have "prepare_apply_artifacts demo_env demo_tid (demo_world demo_source) = (Inr prep, w1)"
    using prep by (simp only: prepared_in_def)
  ultimately show ?thesis using ps by metis
qed

theorem apply_installs_frozen_files_witness:
  "\<exists>prep w1 out w2. prepare_apply_artifacts demo_env demo_tid (demo_world demo_source) = (Inr prep, w1) \<and>
    apply_prepared_artifacts demo_env demo_tid (pa_manifest_digest prep) w1 = (Inr out, w2) \<and>
    same_files demo_env demo_paths demo_source (aw_tree w2 (Worktree DestinationSide)) \<and>
    rest_kept demo_env demo_tid demo_paths demo_dest (aw_tree w2 (Worktree DestinationSide))"
proof -
  obtain prep w1 where prep: "prepared_in demo_env demo_tid (demo_world demo_source) prep w1"
      and w1: "healthy demo_env w1" and ps: "pa_changed_files prep = demo_paths"
      and ids: "pa_source_identity prep = demo_identity" "pa_destination_identity prep = demo_identity"
    by (rule can_prepareE [OF demo_can_prepare])
  obtain out w2 where run: "apply_prepared_artifacts demo_env demo_tid (pa_manifest_digest prep) w1 = (Inr out, w2)"
    by (rule apply_prepared_returns [OF demo_can_prepare prep w1 ids])
  from apply_installs_frozen_files [OF prep run] ps prep run show ?thesis
    by (auto simp: prepared_in_def)
qed

theorem interrupted_apply_rolls_back_witness:
  "\<exists>prep w1 r w3. prepare_apply_artifacts demo_env demo_tid (demo_world demo_source) = (Inr prep, w1) \<and>
    rollback_apply_artifacts demo_env demo_tid (pa_manifest_digest prep)
      (attempting demo_env demo_tid (pa_manifest_digest prep) TryApply w1) = (r, w3) \<and>
    (r = Inr () \<and> same_files demo_env demo_paths demo_dest (aw_tree w3 (Worktree DestinationSide)) \<or>
     (\<exists>er. r = Inl er) \<and> torn_temp demo_env demo_tid demo_paths demo_dest demo_source
       (aw_tree w3 (Worktree DestinationSide)))"
proof -
  obtain prep w1 where prep: "prepared_in demo_env demo_tid (demo_world demo_source) prep w1"
      and w1: "healthy demo_env w1" and ps: "pa_changed_files prep = demo_paths"
      and ids: "pa_source_identity prep = demo_identity" "pa_destination_identity prep = demo_identity"
    by (rule can_prepareE [OF demo_can_prepare])
  let ?w2 = "fold (attempting demo_env demo_tid (pa_manifest_digest prep)) [TryApply] w1"
  obtain r w3 where run: "rollback_apply_artifacts demo_env demo_tid (pa_manifest_digest prep) ?w2 = (r, w3)"
    by (cases "rollback_apply_artifacts demo_env demo_tid (pa_manifest_digest prep) ?w2")
  have "\<not> same_files demo_env (pa_changed_files prep) (aw_tree (demo_world demo_source) (Worktree DestinationSide))
      (aw_tree (demo_world demo_source) (Worktree SourceSide))" using demo_differs ps by simp
  moreover have "same_repository demo_env DestinationSide (pa_destination_identity prep)"
    using demo_repository ids by simp
  ultimately have "r = Inr () \<and> same_files demo_env demo_paths demo_dest (aw_tree w3 dest) \<or>
      (\<exists>er. r = Inl er) \<and> torn_temp demo_env demo_tid demo_paths demo_dest demo_source (aw_tree w3 dest)"
    using interrupted_apply_rolls_back [OF prep _ refl demo_common(5) _ run] ps by auto
  then show ?thesis using prep run unfolding prepared_in_def by auto
qed

text \<open>Somebody edited \<open>a\<close> in the destination after the preparation.\<close>

theorem diverged_destination_is_refused_witness:
  "\<exists>prep w1. prepare_apply_artifacts demo_env demo_tid (demo_world demo_source) = (Inr prep, w1) \<and>
    (let w2 = set_tree (Worktree DestinationSide) (demo_dest([lit ''a''] \<mapsto> FsFile [9] 420 1)) w1
     in (\<exists>er. fst (apply_prepared_artifacts demo_env demo_tid (pa_manifest_digest prep) w2) = Inl er) \<and>
        (\<exists>er. fst (rollback_apply_artifacts demo_env demo_tid (pa_manifest_digest prep) w2) = Inl er))"
proof -
  obtain prep w1 where prep: "prepared_in demo_env demo_tid (demo_world demo_source) prep w1"
      and ps: "pa_changed_files prep = demo_paths"
    by (rule can_prepareE [OF demo_can_prepare])
  let ?t = "demo_dest([lit ''a''] \<mapsto> FsFile [9] 420 1)"
  let ?w2 = "set_tree dest ?t w1"
  have a: "lit ''a'' \<in> set (pa_changed_files prep)" using ps by (simp add: demo_paths_def)
  have ok: "tree_ok (aw_tree ?w2 dest)"
    by (auto simp: tree_ok_def demo_dest_def append_eq_Cons_conv split: if_splits)
  have art: "aw_tree ?w2 Artifacts = aw_tree w1 Artifacts" by simp
  have "node_snapshot demo_env (Some (FsFile [9] 420 1)) \<noteq> node_snapshot demo_env (Some (FsFile [1] 420 1))"
    "node_snapshot demo_env (Some (FsFile [9] 420 1)) \<noteq> node_snapshot demo_env (Some (FsFile [2, 3] 493 1))"
    by code_simp+
  then have stray: "node_snapshot demo_env (aw_tree ?w2 dest (normal_names (lit ''a''))) \<noteq>
       node_snapshot demo_env (aw_tree (demo_world demo_source) dest (normal_names (lit ''a'')))"
    "node_snapshot demo_env (aw_tree ?w2 dest (normal_names (lit ''a''))) \<noteq>
       node_snapshot demo_env (aw_tree (demo_world demo_source) (Worktree SourceSide) (normal_names (lit ''a'')))"
    unfolding demo_names by (simp_all add: demo_dest_def demo_source_def)
  from diverged_destination_is_refused [OF prep art ok a stray] prep show ?thesis
    unfolding prepared_in_def Let_def by blast
qed

theorem unchanged_delegation_never_rolls_back_witness:
  "\<exists>prep w1 er. prepare_apply_artifacts demo_env demo_tid (demo_world demo_unchanged) = (Inr prep, w1) \<and>
    fst (rollback_apply_artifacts demo_env demo_tid (pa_manifest_digest prep) w1) = Inl er"
proof -
  obtain prep w1 where prep: "prepared_in demo_env demo_tid (demo_world demo_unchanged) prep w1"
    by (rule can_prepareE [OF demo_unchanged_can_prepare])
  have "same_files demo_env (pa_changed_files prep) (aw_tree (demo_world demo_unchanged) (Worktree DestinationSide))
      (aw_tree (demo_world demo_unchanged) (Worktree SourceSide))"
    by (simp add: same_files_def demo_unchanged_def)
  from unchanged_delegation_never_rolls_back [OF prep this refl] prep show ?thesis
    unfolding prepared_in_def by blast
qed

end
