(* ===== verification/Apply_Commands.thy ===== *)
theory Apply_Commands
  imports Apply_Artifacts Delegation_Journal
begin

text \<open>
  The command layer of delegated tasks (\<open>dcc-tauri/src/commands/workspace_commands.rs\<close>): applying a
  delegation to the checkout of its parent, and the recovery at startup of transactions a process left
  behind. It joins the journal (\<open>Delegation_Journal\<close>) and the apply engine (\<open>Apply_Artifacts\<close>).

  A world holds the files below each worktree root, the artifacts, the tables and the warnings. Calls to
  the journal, to the coordinator of mutations and to the table of workspaces are numbered like those to
  the operating system, and \<open>ce_down\<close> says which of them fail: a journal call that fails changes nothing,
  as its transaction is dropped. A process that dies is the case that from some call on all fail.
\<close>

section \<open>Worlds and commands\<close>

record command_world =
  cw_trees :: "rstr \<Rightarrow> fs_tree"
  cw_artifacts :: fs_tree
  cw_calls :: nat
  cw_tables :: delegations
  cw_warnings :: "rstr list"

text \<open>The paths of a workspace's row.\<close>

record workspace_paths =
  wp_root_path :: rstr
  wp_worktree_path :: "rstr option"

text \<open>
  \<open>ce_engine\<close> is the environment of the engine but for what lies at a root: Git's answers, its marker
  files and what symbolic links lead to, which \<open>ce_git\<close>, \<open>ce_marker\<close> and \<open>ce_beyond\<close> tell for each root.
  \<open>ce_text\<close> is the text of an engine's error with that of the operating system; \<open>ce_broken\<close> the reason
  why the workspace at a root is unavailable, if there is one; \<open>ce_canonical\<close> is \<open>fs::canonicalize\<close>.
\<close>

record command_env =
  ce_engine :: apply_env
  ce_git :: "rstr \<Rightarrow> rstr list \<Rightarrow> fs_tree \<Rightarrow> git_answer"
  ce_marker :: "rstr \<Rightarrow> rstr \<Rightarrow> fs_tree \<Rightarrow> bool"
  ce_beyond :: "rstr \<Rightarrow> fs_path \<Rightarrow> fs_node option"
  ce_journal :: delegation_env
  ce_down :: "nat \<Rightarrow> bool"
  ce_fault :: "nat \<Rightarrow> rstr"
  ce_coordination :: "nat \<Rightarrow> rstr"
  ce_uuid :: "nat \<Rightarrow> rstr"
  ce_now :: "nat \<Rightarrow> int"
  ce_rfc3339 :: "int \<Rightarrow> rstr"
  ce_text :: "apply_error \<Rightarrow> rstr"
  ce_broken :: "rstr \<Rightarrow> rstr option"
  ce_workspace :: "rstr \<Rightarrow> workspace_paths option"
  ce_canonical :: "path_component list \<Rightarrow> path_component list option"

type_synonym 'a command = "command_world \<Rightarrow> (rstr + 'a) \<times> command_world"

definition trying :: "(command_world \<Rightarrow> 'r \<times> command_world) \<Rightarrow> ('r \<Rightarrow> 'a command) \<Rightarrow> 'a command" where
  "trying m k S = (case m S of (r, S') \<Rightarrow> k r S')"

definition told :: "rstr + 'a \<Rightarrow> 'a command" where
  "told r S = (r, S)"

definition fails :: "rstr \<Rightarrow> 'a command" where
  "fails er = told (Inl er)"

definition yields :: "'a \<Rightarrow> 'a command" where
  "yields x = told (Inr x)"

definition and_next :: "'a command \<Rightarrow> ('a \<Rightarrow> 'b command) \<Rightarrow> 'b command" where
  "and_next m f = trying m (\<lambda>r. case r of Inl er \<Rightarrow> fails er | Inr x \<Rightarrow> f x)"

fun each_command :: "('a \<Rightarrow> unit command) \<Rightarrow> 'a list \<Rightarrow> unit command" where
  "each_command f [] = yields ()"
| "each_command f (x # xs) = and_next (f x) (\<lambda>_. each_command f xs)"

definition warn :: "rstr \<Rightarrow> unit command" where
  "warn text S = (Inr (), S\<lparr>cw_warnings := cw_warnings S @ [text]\<rparr>)"

definition or_warn :: "unit command \<Rightarrow> unit command" where
  "or_warn m = trying m (\<lambda>r. case r of Inl er \<Rightarrow> warn er | Inr _ \<Rightarrow> yields ())"

definition ticked :: "command_world \<Rightarrow> command_world" where
  "ticked S = S\<lparr>cw_calls := Suc (cw_calls S)\<rparr>"

text \<open>\<open>Uuid::new_v4().to_string()\<close> and \<open>Utc::now()\<close>.\<close>

definition new_uuid :: "command_env \<Rightarrow> rstr command" where
  "new_uuid ce S = (Inr (ce_uuid ce (cw_calls S)), ticked S)"

definition utc_now :: "command_env \<Rightarrow> int command" where
  "utc_now ce S = (Inr (ce_now ce (cw_calls S)), ticked S)"

section \<open>The journal\<close>

definition core_error_text :: "core_error \<Rightarrow> rstr" where
  "core_error_text er =
     (case er of InvalidInput m \<Rightarrow> lit ''invalid input: '' @ m | RepositoryErr m \<Rightarrow> lit ''repository error: '' @ m
      | GitErr m \<Rightarrow> lit ''git error: '' @ m | EventBusErr m \<Rightarrow> lit ''event bus error: '' @ m
      | ProviderErr m \<Rightarrow> lit ''provider error: '' @ m)"

definition journal :: "command_env \<Rightarrow> (delegations \<Rightarrow> core_error + 'a \<times> delegations) \<Rightarrow> 'a command" where
  "journal ce call S =
     (if ce_down ce (cw_calls S) then (Inl (core_error_text (RepositoryErr (ce_fault ce (cw_calls S)))), ticked S)
      else case call (cw_tables S) of
        Inl er \<Rightarrow> (Inl (core_error_text er), ticked S)
      | Inr (x, t) \<Rightarrow> (Inr x, ticked S\<lparr>cw_tables := t\<rparr>))"

definition reading :: "(delegations \<Rightarrow> core_error + 'a) \<Rightarrow> delegations \<Rightarrow> core_error + 'a \<times> delegations" where
  "reading f t = and_then (f t) (\<lambda>x. Inr (x, t))"

text \<open>\<open>SqliteSessionRepo::open\<close> and \<open>SqliteWorkspaceRepo::open\<close>.\<close>

definition open_repo :: "command_env \<Rightarrow> unit command" where
  "open_repo ce = journal ce (reading (\<lambda>_. Inr ()))"

section \<open>Runs of the engine\<close>

definition engine_at :: "command_env \<Rightarrow> rstr \<Rightarrow> rstr \<Rightarrow> apply_env" where
  "engine_at ce destination source =
     (let root = (\<lambda>side. case side of SourceSide \<Rightarrow> source | DestinationSide \<Rightarrow> destination)
      in (ce_engine ce)\<lparr>ae_git := (\<lambda>side. ce_git ce (root side)), ae_marker := (\<lambda>side. ce_marker ce (root side)),
           oe_beyond := (\<lambda>pl. case pl of Worktree side \<Rightarrow> ce_beyond ce (root side)
             | Artifacts \<Rightarrow> oe_beyond (ce_engine ce) Artifacts)\<rparr>)"

definition on_roots ::
    "command_env \<Rightarrow> rstr \<Rightarrow> rstr \<Rightarrow> (apply_env \<Rightarrow> apply_world \<Rightarrow> 'r \<times> apply_world) \<Rightarrow>
      command_world \<Rightarrow> 'r \<times> command_world" where
  "on_roots ce destination source m S =
     (case m (engine_at ce destination source)
         \<lparr>aw_tree = (\<lambda>pl. case pl of Worktree SourceSide \<Rightarrow> cw_trees S source
            | Worktree DestinationSide \<Rightarrow> cw_trees S destination | Artifacts \<Rightarrow> cw_artifacts S),
          aw_calls = cw_calls S\<rparr> of
        (r, w) \<Rightarrow> (r, S\<lparr>cw_trees := (cw_trees S)(source := aw_tree w (Worktree SourceSide),
            destination := aw_tree w (Worktree DestinationSide)),
          cw_artifacts := aw_tree w Artifacts, cw_calls := aw_calls w\<rparr>))"

text \<open>The functions of the engine that use the artifact root only.\<close>

definition on_artifacts ::
    "command_env \<Rightarrow> (apply_env \<Rightarrow> apply_world \<Rightarrow> 'r \<times> apply_world) \<Rightarrow> command_world \<Rightarrow> 'r \<times> command_world" where
  "on_artifacts ce m S =
     (case m (ce_engine ce)
         \<lparr>aw_tree = (\<lambda>pl. case pl of Worktree _ \<Rightarrow> (\<lambda>_. None) | Artifacts \<Rightarrow> cw_artifacts S), aw_calls = cw_calls S\<rparr> of
        (r, w) \<Rightarrow> (r, S\<lparr>cw_artifacts := aw_tree w Artifacts, cw_calls := aw_calls w\<rparr>))"

definition engine_says :: "command_env \<Rightarrow> (command_world \<Rightarrow> (apply_error + 'a) \<times> command_world) \<Rightarrow> 'a command" where
  "engine_says ce m S = (case m S of (r, S') \<Rightarrow> (map_sum (ce_text ce) id r, S'))"

text \<open>
  \<open>run_git_workspace_mutation_blocking\<close> and its variant for two roots: the operation runs once the
  coordinator and the blocking worker admit it. A worker that panics half way is not modelled.
\<close>

datatype 'r admission = Unavailable rstr | Ran 'r

definition admitted ::
    "command_env \<Rightarrow> (command_world \<Rightarrow> 'r \<times> command_world) \<Rightarrow> command_world \<Rightarrow> 'r admission \<times> command_world" where
  "admitted ce m S =
     (if ce_down ce (cw_calls S) then (Unavailable (ce_coordination ce (cw_calls S)), ticked S)
      else case m (ticked S) of (r, S') \<Rightarrow> (Ran r, S'))"

definition workspace_mutation_error :: "command_env \<Rightarrow> (apply_error + 'a) admission \<Rightarrow> rstr + 'a" where
  "workspace_mutation_error ce r =
     (case r of Unavailable _ \<Rightarrow> Inl (lit ''workspace mutation is unavailable'')
      | Ran answer \<Rightarrow> map_sum (ce_text ce) id answer)"

section \<open>Whose delegation it is\<close>

definition resolve_workspace_active_root :: "workspace_paths \<Rightarrow> rstr" where
  "resolve_workspace_active_root p = (case wp_worktree_path p of None \<Rightarrow> wp_root_path p | Some path \<Rightarrow> path)"

definition get_workspace :: "command_env \<Rightarrow> rstr \<Rightarrow> workspace_paths option command" where
  "get_workspace ce workspace_id = journal ce (reading (\<lambda>_. Inr (ce_workspace ce workspace_id)))"

definition validate_delegation_operation_workspace_scope ::
    "command_env \<Rightarrow> rstr \<Rightarrow> worktree_operation \<Rightarrow> unit command" where
  "validate_delegation_operation_workspace_scope ce root op =
     (if trim (wo_source_root op) \<noteq> trim root
      then fails (lit ''delegation worktree journal does not belong to workspace_root'')
      else and_next (open_repo ce) (\<lambda>_. and_next (get_workspace ce (wo_workspace_id op)) (\<lambda>row.
        case row of
          None \<Rightarrow> fails (lit ''delegation worktree workspace no longer exists: '' @ wo_workspace_id op)
        | Some workspace \<Rightarrow>
            if trim (resolve_workspace_active_root workspace) \<noteq> trim root
            then fails (lit ''delegation worktree workspace mapping changed; refusing cleanup'')
            else yields ())))"

definition preflight_workspace_root :: "command_env \<Rightarrow> rstr \<Rightarrow> unit command" where
  "preflight_workspace_root ce root =
     and_next (journal ce (reading (\<lambda>_. Inr (ce_broken ce root)))) (\<lambda>reason.
       case reason of None \<Rightarrow> yields ()
       | Some text \<Rightarrow> fails (lit (''workspace became unavailable; repair it or use explicit workspace deletion '' @
           ''to remove its DCC record: '') @ text))"

text \<open>\<open>Path::parent\<close>, \<open>Path::file_name\<close> and the root of the worktrees of delegations; a path is its components.\<close>

definition path_parent :: "path_component list \<Rightarrow> path_component list" where
  "path_parent p = (if p = [] \<or> p = [RootDir] then p else butlast p)"

definition path_file_name :: "path_component list \<Rightarrow> rstr option" where
  "path_file_name p = (if p = [] then None else normal_name (last p))"

definition delegation_worktrees_root :: "path_component list \<Rightarrow> path_component list" where
  "delegation_worktrees_root active_root =
     (let parent = path_parent active_root;
          worktrees = (if path_file_name parent = Some (lit ''.dcc-worktrees'') then parent
            else parent @ [Normal (lit ''.dcc-worktrees'')])
      in worktrees @ [Normal (lit ''.dcc-delegations'')])"

definition validate_delegation_worktree_path :: "command_env \<Rightarrow> rstr \<Rightarrow> rstr \<Rightarrow> rstr + rstr" where
  "validate_delegation_worktree_path ce root v =
     (let path = trim v; canonical = (\<lambda>p. case ce_canonical ce p of None \<Rightarrow> p | Some q \<Rightarrow> q)
      in if \<not> starts_with path [47] then Inl (lit ''delegation worktree path must be absolute'')
         else if \<not> prefix (canonical (delegation_worktrees_root (components root))) (canonical (components path))
         then Inl (lit ''refusing to use a path outside the DCC delegation worktree root'')
         else Inr path)"

section \<open>Applying a delegation\<close>

definition worktree_state_debug :: "worktree_state \<Rightarrow> string" where
  "worktree_state_debug st =
     (case st of WtPreparing \<Rightarrow> ''Preparing'' | WtPrepared \<Rightarrow> ''Prepared'' | WtBound \<Rightarrow> ''Bound''
      | WtReviewPending \<Rightarrow> ''ReviewPending'' | WtApplying \<Rightarrow> ''Applying'' | WtApplied \<Rightarrow> ''Applied''
      | WtRemoving \<Rightarrow> ''Removing'' | WtRemoved \<Rightarrow> ''Removed'' | WtCleanupRequired \<Rightarrow> ''CleanupRequired'')"

definition apply_state_debug :: "apply_state \<Rightarrow> string" where
  "apply_state_debug st =
     (case st of ApPreparing \<Rightarrow> ''Preparing'' | ApPrepared \<Rightarrow> ''Prepared'' | ApApplying \<Rightarrow> ''Applying''
      | ApApplied \<Rightarrow> ''Applied'' | ApRolledBack \<Rightarrow> ''RolledBack'' | ApRecoveryRequired \<Rightarrow> ''RecoveryRequired'')"

definition or_else :: "rstr option \<Rightarrow> string \<Rightarrow> rstr" where
  "or_else v text = (case v of None \<Rightarrow> lit text | Some x \<Rightarrow> x)"

definition lock_operation :: "command_env \<Rightarrow> rstr \<Rightarrow> bool command" where
  "lock_operation ce oid = engine_says ce (on_artifacts ce (\<lambda>e. try_lock_apply_operation e oid))"

text \<open>What is checked before anything is written: the operation, the trimmed root and the worktree.\<close>

definition pending_delegation ::
    "command_env \<Rightarrow> rstr \<Rightarrow> rstr \<Rightarrow> (worktree_operation \<times> rstr \<times> rstr) command" where
  "pending_delegation ce workspace_root did =
     and_next (preflight_workspace_root ce workspace_root) (\<lambda>_.
     let root = trim workspace_root
     in if root = [] then fails (lit ''workspace_root is empty'')
        else
          and_next (open_repo ce) (\<lambda>_.
          and_next (journal ce (reading (get_delegation_worktree_operation_by_delegation_id (ce_journal ce) did))) (\<lambda>row.
          case row of None \<Rightarrow> fails (lit ''delegation worktree journal entry was not found'')
          | Some op \<Rightarrow>
              and_next (validate_delegation_operation_workspace_scope ce root op) (\<lambda>_.
              if wo_state op \<noteq> WtReviewPending
              then fails (lit ''delegation worktree is '' @ lit (worktree_state_debug (wo_state op)) @ lit '', not review_pending'')
              else
                and_next (told (validate_delegation_worktree_path ce root (wo_worktree_path op))) (\<lambda>path.
                and_next (lock_operation ce (wo_operation_id op)) (\<lambda>locked.
                if \<not> locked then fails (lit ''delegation apply is owned by another live process'')
                else
                  and_next (journal ce (reading
                    (get_delegation_apply_transaction_by_operation_id (ce_journal ce) (wo_operation_id op)))) (\<lambda>existing.
                  case existing of
                    Some a \<Rightarrow>
                      if apply_is_terminal (at_state a) then yields (op, root, path)
                      else fails (lit ''delegation apply recovery is '' @ lit (apply_state_debug (at_state a)) @ lit '': '' @
                        or_else (at_last_error a) ''retry after recovery completes'')
                  | None \<Rightarrow> yields (op, root, path))))))))"

definition new_apply_transaction :: "rstr \<Rightarrow> worktree_operation \<Rightarrow> rstr \<Rightarrow> rstr \<Rightarrow> apply_transaction" where
  "new_apply_transaction tid op did now =
     \<lparr>at_transaction_id = tid, at_operation_id = wo_operation_id op, at_delegation_id = did,
      at_workspace_id = wo_workspace_id op, at_source_head_oid = None, at_destination_head_oid = None,
      at_destination_ref = None, at_destination_index_tree_oid = None, at_manifest_digest = None,
      at_file_count = 0, at_artifact_bytes = 0, at_state = ApPreparing, at_recovery_owner = None,
      at_recovery_lease_until = None, at_last_error = None, at_created_at = now, at_updated_at = now\<rparr>"

definition create_transaction :: "command_env \<Rightarrow> apply_transaction \<Rightarrow> unit command" where
  "create_transaction ce tx =
     journal ce (\<lambda>t. and_then (create_delegation_apply_transaction (ce_journal ce) tx t) (\<lambda>t'. Inr ((), t')))"

definition swap_transaction :: "command_env \<Rightarrow> apply_state \<Rightarrow> apply_transaction \<Rightarrow> bool command" where
  "swap_transaction ce expected tx =
     journal ce (compare_and_swap_delegation_apply_transaction (ce_journal ce) expected tx)"

definition cleanup_terminal_delegation_apply_transaction :: "command_env \<Rightarrow> rstr \<Rightarrow> unit command" where
  "cleanup_terminal_delegation_apply_transaction ce tid =
     and_next (engine_says ce (on_artifacts ce (\<lambda>e. cleanup_apply_artifacts e tid))) (\<lambda>_.
     and_next (journal ce (\<lambda>t. Inr (delete_terminal_delegation_apply_transaction tid t))) (\<lambda>_. yields ()))"

text \<open>The transaction is given up before anything was applied; what becomes of its row and its artifacts is ignored.\<close>

definition give_up :: "command_env \<Rightarrow> apply_transaction \<Rightarrow> rstr \<Rightarrow> 'a command" where
  "give_up ce tx er =
     and_next (utc_now ce) (\<lambda>now.
     trying (swap_transaction ce ApPreparing
         (tx\<lparr>at_state := ApRolledBack, at_last_error := Some er, at_updated_at := ce_rfc3339 ce now\<rparr>)) (\<lambda>_.
     trying (cleanup_terminal_delegation_apply_transaction ce (at_transaction_id tx)) (\<lambda>_. fails er)))"

definition ascii_lower :: "rstr \<Rightarrow> rstr" where
  "ascii_lower s = map (\<lambda>c. if 65 \<le> c \<and> c \<le> 90 then c + 32 else c) s"

text \<open>What the journal knows of the two repositories must be what the engine found.\<close>

definition journal_identity_error :: "worktree_operation \<Rightarrow> prepared_apply \<Rightarrow> rstr option" where
  "journal_identity_error op prep =
     (if ai_branch (pa_source_identity prep) \<noteq> Some (wo_branch op)
      then Some (lit ''delegation worktree branch changed after it was journaled'')
      else if \<not> is_some_and (wo_expected_branch_oid op)
                (\<lambda>expected. ascii_lower (ai_head (pa_source_identity prep)) = ascii_lower expected)
      then Some (lit ''delegation worktree HEAD changed after it was journaled'')
      else if ascii_lower (ai_head (pa_destination_identity prep)) \<noteq> ascii_lower (wo_base_commit op)
      then Some (lit ''destination HEAD no longer matches the delegation baseline'')
      else None)"

definition prepared_transaction :: "apply_transaction \<Rightarrow> prepared_apply \<Rightarrow> rstr \<Rightarrow> apply_transaction" where
  "prepared_transaction tx prep now =
     tx\<lparr>at_source_head_oid := Some (ai_head (pa_source_identity prep)),
        at_destination_head_oid := Some (ai_head (pa_destination_identity prep)),
        at_destination_ref := ai_branch (pa_destination_identity prep),
        at_destination_index_tree_oid := Some (ai_index_tree (pa_destination_identity prep)),
        at_manifest_digest := Some (pa_manifest_digest prep),
        at_file_count := word_of_nat (pa_file_count prep),
        at_artifact_bytes := pa_artifact_bytes prep,
        at_state := ApPrepared, at_updated_at := now\<rparr>"

definition record_manifest :: "command_env \<Rightarrow> apply_transaction \<Rightarrow> prepared_apply \<Rightarrow> rstr command" where
  "record_manifest ce tx prep =
     (if pa_file_count prep \<ge> 2 ^ 32 then fails (lit ''delegation apply file count exceeds the journal'')
      else
        and_next (utc_now ce) (\<lambda>now.
        and_next (swap_transaction ce ApPreparing (prepared_transaction tx prep (ce_rfc3339 ce now))) (\<lambda>swapped.
        if \<not> swapped then fails (lit ''delegation apply manifest was prepared but its journal changed'')
        else yields (at_transaction_id tx))))"

text \<open>The transaction from its row to the frozen manifest.\<close>

definition freeze_delegation ::
    "command_env \<Rightarrow> worktree_operation \<Rightarrow> rstr \<Rightarrow> rstr \<Rightarrow> rstr \<Rightarrow> rstr command" where
  "freeze_delegation ce op root path did =
     and_next (new_uuid ce) (\<lambda>tid. and_next (utc_now ce) (\<lambda>now.
     let tx = new_apply_transaction tid op did (ce_rfc3339 ce now)
     in and_next (create_transaction ce tx) (\<lambda>_.
        trying (admitted ce (on_roots ce root path (\<lambda>e. prepare_apply_artifacts e tid))) (\<lambda>r.
        case workspace_mutation_error ce r of
          Inl er \<Rightarrow> give_up ce tx er
        | Inr prep \<Rightarrow>
            (case journal_identity_error op prep of
               Some er \<Rightarrow> give_up ce tx er
             | None \<Rightarrow> record_manifest ce tx prep)))))"

definition lease_minutes :: int where
  "lease_minutes = 15 * 60 * 10 ^ 9"

text \<open>The claim of a transaction under a new owner, whose lock of the operation is held.\<close>

definition claim_transaction :: "command_env \<Rightarrow> rstr \<Rightarrow> (rstr \<times> apply_transaction option) command" where
  "claim_transaction ce tid =
     and_next (new_uuid ce) (\<lambda>owner. and_next (utc_now ce) (\<lambda>now.
     and_next (journal ce (claim_delegation_apply_transaction (ce_journal ce) tid owner
         (ce_rfc3339 ce now) (ce_rfc3339 ce (now + lease_minutes)) True)) (\<lambda>claimed.
       yields (owner, claimed))))"

definition finalize_transaction ::
    "command_env \<Rightarrow> rstr \<Rightarrow> rstr \<Rightarrow> apply_state \<Rightarrow> rstr option \<Rightarrow> apply_transaction option command" where
  "finalize_transaction ce tid owner final_state last_error =
     and_next (utc_now ce) (\<lambda>now.
       journal ce (finalize_delegation_apply_transaction (ce_journal ce) tid owner final_state last_error (ce_rfc3339 ce now)))"

datatype transactional_apply_failure = RolledBackFailure apply_error | RecoveryFailure apply_error apply_error

text \<open>An application that fails is rolled back by the same run.\<close>

definition apply_or_roll_back :: "apply_env \<Rightarrow> rstr \<Rightarrow> rstr \<Rightarrow> (transactional_apply_failure, apply_output) act" where
  "apply_or_roll_back e tid digest w =
     (case apply_prepared_artifacts e tid digest w of
        (Inr out, w1) \<Rightarrow> (Inr out, w1)
      | (Inl er, w1) \<Rightarrow>
          (case rollback_apply_artifacts e tid digest w1 of
             (Inr _, w2) \<Rightarrow> (Inl (RolledBackFailure er), w2)
           | (Inl er', w2) \<Rightarrow> (Inl (RecoveryFailure er er'), w2)))"

text \<open>The state and the error to record for an application that failed; one that did not run is rolled back.\<close>

definition failed_outcome ::
    "command_env \<Rightarrow> rstr \<Rightarrow> rstr \<Rightarrow> rstr \<Rightarrow> rstr \<Rightarrow> transactional_apply_failure admission \<Rightarrow>
      command_world \<Rightarrow> (apply_state \<times> rstr) \<times> command_world" where
  "failed_outcome ce root path tid digest failure S =
     (case failure of
        Ran (RolledBackFailure er) \<Rightarrow> ((ApRolledBack, ce_text ce er), S)
      | Ran (RecoveryFailure er er') \<Rightarrow>
          ((ApRecoveryRequired, ce_text ce er @ lit ''; rollback failed: '' @ ce_text ce er'), S)
      | Unavailable text \<Rightarrow>
          (case admitted ce (on_roots ce root path (\<lambda>e. rollback_apply_artifacts e tid digest)) S of (r, S') \<Rightarrow>
             (case workspace_mutation_error ce r of
                Inr _ \<Rightarrow> ((ApRolledBack, text), S')
              | Inl er \<Rightarrow> ((ApRecoveryRequired, text @ lit ''; rollback after coordination failure failed: '' @ er), S'))))"

definition record_failure :: "command_env \<Rightarrow> rstr \<Rightarrow> rstr \<Rightarrow> apply_state \<Rightarrow> rstr \<Rightarrow> 'a command" where
  "record_failure ce tid owner final_state er =
     and_next (finalize_transaction ce tid owner final_state (Some er)) (\<lambda>finalized.
     if finalized = None then fails (er @ lit ''; the transactional journal also needs recovery'')
     else if final_state = ApRolledBack
     then trying (cleanup_terminal_delegation_apply_transaction ce tid) (\<lambda>_. fails er)
     else fails er)"

text \<open>The result is the list of changed files; that artifacts could not be removed is only printed.\<close>

definition record_success :: "command_env \<Rightarrow> rstr \<Rightarrow> rstr \<Rightarrow> apply_output \<Rightarrow> rstr list command" where
  "record_success ce tid owner out =
     and_next (finalize_transaction ce tid owner ApApplied None) (\<lambda>finalized.
     if finalized = None
     then fails (lit ''delegation changes match the postimage but the journal needs recovery'')
     else trying (cleanup_terminal_delegation_apply_transaction ce tid) (\<lambda>_. yields (ao_changed_files out)))"

definition end_apply ::
    "command_env \<Rightarrow> rstr \<Rightarrow> rstr \<Rightarrow> rstr \<Rightarrow> rstr \<Rightarrow> rstr \<Rightarrow>
      (transactional_apply_failure + apply_output) admission \<Rightarrow> rstr list command" where
  "end_apply ce root path tid digest owner r =
     (case r of
        Ran (Inr out) \<Rightarrow> record_success ce tid owner out
      | Ran (Inl failure) \<Rightarrow>
          trying (failed_outcome ce root path tid digest (Ran failure)) (\<lambda>(st, er). record_failure ce tid owner st er)
      | Unavailable text \<Rightarrow>
          trying (failed_outcome ce root path tid digest (Unavailable text)) (\<lambda>(st, er). record_failure ce tid owner st er))"

definition apply_frozen :: "command_env \<Rightarrow> rstr \<Rightarrow> rstr \<Rightarrow> rstr \<Rightarrow> rstr list command" where
  "apply_frozen ce root path tid =
     and_next (claim_transaction ce tid) (\<lambda>(owner, claimed).
     case claimed of None \<Rightarrow> fails (lit ''delegation apply journal changed before mutation'')
     | Some tx \<Rightarrow>
         (case at_manifest_digest tx of None \<Rightarrow> fails (lit ''claimed delegation apply has no manifest digest'')
          | Some digest \<Rightarrow>
              trying (admitted ce (on_roots ce root path (\<lambda>e. apply_or_roll_back e tid digest)))
                (end_apply ce root path tid digest owner)))"

definition workspace_apply_delegation_worktree :: "command_env \<Rightarrow> rstr \<Rightarrow> rstr \<Rightarrow> rstr list command" where
  "workspace_apply_delegation_worktree ce workspace_root did =
     and_next (pending_delegation ce workspace_root did) (\<lambda>(op, root, path).
     and_next (freeze_delegation ce op root path did) (\<lambda>tid.
       apply_frozen ce root path tid))"

section \<open>Recovery at startup\<close>

definition recover_destination :: "apply_env \<Rightarrow> rstr \<Rightarrow> rstr \<Rightarrow> apply_state engine" where
  "recover_destination e tid digest =
     then_do (classify_apply_artifacts e tid digest) (\<lambda>c. case c of
       AllPost \<Rightarrow> give ApApplied
     | AllPre \<Rightarrow> give ApRolledBack
     | MixedKnown \<Rightarrow> then_do (rollback_apply_artifacts e tid digest) (\<lambda>_. give ApRolledBack)
     | Divergent \<Rightarrow> Worktree_Files.refuse (Says ''destination diverged during delegation apply recovery''))"

text \<open>A transaction that applied nothing yet.\<close>

definition recover_unstarted :: "command_env \<Rightarrow> apply_transaction \<Rightarrow> unit command" where
  "recover_unstarted ce tx =
     and_next (utc_now ce) (\<lambda>now.
     and_next (swap_transaction ce (at_state tx)
         (tx\<lparr>at_state := ApRolledBack,
             at_last_error := Some (lit ''delegation apply preparation was interrupted before mutation''),
             at_updated_at := ce_rfc3339 ce now\<rparr>)) (\<lambda>swapped.
     if swapped then or_warn (cleanup_terminal_delegation_apply_transaction ce (at_transaction_id tx)) else yields ()))"

definition about_apply :: "rstr \<Rightarrow> string \<Rightarrow> rstr" where
  "about_apply tid text = lit ''delegation apply '' @ tid @ lit text"

text \<open>The second root is not used by these operations of the engine.\<close>

definition recovered_state :: "command_env \<Rightarrow> worktree_operation \<Rightarrow> rstr \<Rightarrow> rstr \<Rightarrow> apply_state command" where
  "recovered_state ce op tid digest =
     and_next (validate_delegation_operation_workspace_scope ce (wo_source_root op) op) (\<lambda>_.
     trying (admitted ce (on_roots ce (wo_source_root op) (trim (wo_worktree_path op))
         (\<lambda>e. recover_destination e tid digest))) (\<lambda>r. told (workspace_mutation_error ce r)))"

definition close_recovery :: "command_env \<Rightarrow> rstr \<Rightarrow> rstr \<Rightarrow> rstr + apply_state \<Rightarrow> unit command" where
  "close_recovery ce tid owner recovery =
     (let (final_state, last_error) = (case recovery of Inr st \<Rightarrow> (st, None) | Inl er \<Rightarrow> (ApRecoveryRequired, Some er))
      in and_next (finalize_transaction ce tid owner final_state last_error) (\<lambda>finalized.
         if finalized = None then warn (about_apply tid '' changed during recovery'')
         else if apply_is_terminal final_state
         then or_warn (cleanup_terminal_delegation_apply_transaction ce tid)
         else (case last_error of Some er \<Rightarrow> warn er | None \<Rightarrow> yields ())))"

definition recover_claimed :: "command_env \<Rightarrow> rstr \<Rightarrow> apply_transaction \<Rightarrow> unit command" where
  "recover_claimed ce owner a =
     and_next (journal ce (reading (get_delegation_worktree_operation (ce_journal ce) (at_operation_id a)))) (\<lambda>row.
     case row of
       None \<Rightarrow> warn (about_apply (at_transaction_id a) '' has no worktree operation'')
     | Some op \<Rightarrow>
         (case at_manifest_digest a of
            None \<Rightarrow> fails (lit ''applying transaction has no manifest digest'')
          | Some digest \<Rightarrow>
              trying (recovered_state ce op (at_transaction_id a) digest) (close_recovery ce (at_transaction_id a) owner)))"

definition recover_applying :: "command_env \<Rightarrow> apply_transaction \<Rightarrow> unit command" where
  "recover_applying ce tx =
     and_next (claim_transaction ce (at_transaction_id tx)) (\<lambda>(owner, claimed).
     case claimed of
       None \<Rightarrow> warn (about_apply (at_transaction_id tx) '' is owned by another live process'')
     | Some a \<Rightarrow> recover_claimed ce owner a)"

definition recover_transaction :: "command_env \<Rightarrow> apply_transaction \<Rightarrow> unit command" where
  "recover_transaction ce tx =
     and_next (lock_operation ce (at_operation_id tx)) (\<lambda>locked.
     if \<not> locked then warn (about_apply (at_transaction_id tx) '' is owned by another live process'')
     else case at_state tx of
       ApPreparing \<Rightarrow> recover_unstarted ce tx
     | ApPrepared \<Rightarrow> recover_unstarted ce tx
     | ApApplying \<Rightarrow> recover_applying ce tx
     | ApRecoveryRequired \<Rightarrow>
         warn (about_apply (at_transaction_id tx) '' requires manual recovery: '' @
           or_else (at_last_error tx) ''destination state is divergent'')
     | ApApplied \<Rightarrow> or_warn (cleanup_terminal_delegation_apply_transaction ce (at_transaction_id tx))
     | ApRolledBack \<Rightarrow> or_warn (cleanup_terminal_delegation_apply_transaction ce (at_transaction_id tx)))"

definition reconcile_delegation_apply_transactions :: "command_env \<Rightarrow> unit command" where
  "reconcile_delegation_apply_transactions ce =
     and_next (journal ce (reading (list_delegation_apply_transactions_requiring_recovery (ce_journal ce))))
       (each_command (recover_transaction ce))"

end
