(* ===== verification/Apply_Recovery.thy ===== *)
theory Apply_Recovery
  imports Apply_Props Apply_Commands
begin

text \<open>
  What the engine's part of a command leaves: a destination that is all as before, all as delegated, or
  unsettled with its artifacts kept, and which of these the command is told. Also that the lock of an
  operation leaves the artifacts of a transaction alone.
\<close>

section \<open>Classifying and recovering\<close>

definition verdict_ok :: "apply_env \<Rightarrow> bool \<Rightarrow> file_artifact list \<Rightarrow> apply_classification \<Rightarrow> fs_tree \<Rightarrow> bool" where
  "verdict_ok e H files c t \<longleftrightarrow>
     (c = AllPre \<longrightarrow> all_pre e files t) \<and> (c = AllPost \<longrightarrow> all_post e files t) \<and>
     (c = MixedKnown \<longrightarrow> (\<exists>f \<in> set files. fa_pre f \<noteq> fa_post f)) \<and> (c = Divergent \<longrightarrow> \<not> H)"

lemma classify_artifacts_tells:
  assumes "applicable e tid digest (T Artifacts) m dir t0"
    and "H \<Longrightarrow> same_repository e DestinationSide (am_destination m)"
  shows "triple (at_dest e H T (unsettled e tid (am_files m) t0)) (classify_apply_artifacts e tid digest)
    (\<lambda>c. at_dest e H T (\<lambda>t. settled e tid (am_files m) t0 t \<and> verdict_ok e H (am_files m) c t))
    (stuck e H T tid (am_files m) t0)"
proof -
  let ?S = "settled e tid (am_files m) t0" and ?U = "unsettled e tid (am_files m) t0" and ?E = "stuck e H T tid (am_files m) t0"
  note a = applicableD [OF assms(1)]
  have uns: "?S t \<Longrightarrow> ?U t" for t using settled_unsettled a(3) by blast
  have mid: "?S t \<Longrightarrow> midway e tid (am_files m) t0 t" "?U t \<Longrightarrow> midway e tid (am_files m) t0 t" for t
    by (simp_all add: settled_def unsettled_def)
  note git = git_steps [OF assms(1,2), of H ?U] git_steps(3) [OF assms(1,2), of H ?S]
  have cls: "triple (at_dest e H T ?S) (classify_manifest e m)
      (\<lambda>c. at_dest e H T (\<lambda>t. ?S t \<and> verdict_ok e H (am_files m) c t)) ?E"
  proof (rule triple_weaken [OF classify_step [OF a(2,5), where \<Theta> = ?U and \<Phi> = ?S and H = H and T = T]])
    fix c w
    let ?pre = "\<lambda>t. \<exists>f \<in> set (am_files m). pre_only e t f" and ?post = "\<lambda>t. \<exists>f \<in> set (am_files m). post_only e t f"
    assume "at_dest e H T (\<lambda>t. ?S t \<and> (c = Divergent \<longrightarrow> \<not> H) \<and>
       (c \<noteq> Divergent \<longrightarrow> c = classification (?pre t) (?post t))) w"
    moreover have "verdict_ok e H (am_files m) c t" if "?S t" "c = Divergent \<longrightarrow> \<not> H"
        "c \<noteq> Divergent \<longrightarrow> c = classification (?pre t) (?post t)" for t
    proof (cases c)
      case MixedKnown
      then have "?pre t" using that(3) classification_cases(3) [of "?pre t" "?post t"] by simp
      with MixedKnown show ?thesis by (auto simp: verdict_ok_def pre_only_def)
    next
      case AllPre
      with that verdicts(1) [OF mid(1)] show ?thesis by (simp add: verdict_ok_def)
    next
      case AllPost
      with that verdicts(2) [OF mid(1)] show ?thesis by (simp add: verdict_ok_def)
    qed (use that in \<open>simp add: verdict_ok_def\<close>)
    ultimately show "at_dest e H T (\<lambda>t. ?S t \<and> verdict_ok e H (am_files m) c t) w" by (simp add: at_dest_def)
  qed (use mid uns stuckI in auto)
  show ?thesis
    unfolding classify_apply_artifacts_def
    by (rule triple_then [OF load_step [where T = T, OF assms(1)]], rule triple_fact, hypsubst, simp only: prod.case,
      rule triple_then [OF git(1)], assumption, erule mid(2), assumption,
      rule triple_then [OF git(2)], assumption, erule mid(2), assumption,
      rule triple_then [OF git(3)], assumption, erule mid(2), assumption,
      rule triple_then [OF reconcile_step [OF a(2,5)]],
      rule triple_then [OF git(4)], assumption, erule mid(1), erule uns, rule cls)
qed

text \<open>The files are as the state of the transaction says, and no temporary file is left.\<close>

definition state_holds :: "apply_env \<Rightarrow> rstr \<Rightarrow> file_artifact list \<Rightarrow> fs_tree \<Rightarrow> apply_state \<Rightarrow> fs_tree \<Rightarrow> bool" where
  "state_holds e tid files t0 st t \<longleftrightarrow> settled e tid files t0 t \<and>
     (st = ApApplied \<and> all_post e files t \<or> st = ApRolledBack \<and> all_pre e files t)"

lemma recover_destination_step:
  assumes "applicable e tid digest (T Artifacts) m dir t0"
    and "H \<Longrightarrow> same_repository e DestinationSide (am_destination m)"
  shows "triple (at_dest e H T (unsettled e tid (am_files m) t0)) (recover_destination e tid digest)
    (\<lambda>st. at_dest e H T (state_holds e tid (am_files m) t0 st)) (stuck e H T tid (am_files m) t0)"
proof -
  let ?S = "settled e tid (am_files m) t0" and ?U = "unsettled e tid (am_files m) t0" and ?E = "stuck e H T tid (am_files m) t0"
  have uns: "?S t \<Longrightarrow> ?U t" for t using settled_unsettled applicableD(3) [OF assms(1)] by blast
  let ?C = "\<lambda>c t. ?S t \<and> verdict_ok e H (am_files m) c t"
  have told: "triple (at_dest e H T (?C c)) (case c of AllPost \<Rightarrow> give ApApplied | AllPre \<Rightarrow> give ApRolledBack
      | MixedKnown \<Rightarrow> then_do (rollback_apply_artifacts e tid digest) (\<lambda>_. give ApRolledBack)
      | Divergent \<Rightarrow> Worktree_Files.refuse (Says ''destination diverged during delegation apply recovery''))
    (\<lambda>st. at_dest e H T (state_holds e tid (am_files m) t0 st)) ?E" for c
  proof (cases c)
    case MixedKnown
    have "triple (\<lambda>w. (\<exists>f \<in> set (am_files m). fa_pre f \<noteq> fa_post f) \<and> at_dest e H T ?U w)
      (then_do (rollback_apply_artifacts e tid digest) (\<lambda>_. give ApRolledBack))
      (\<lambda>st. at_dest e H T (state_holds e tid (am_files m) t0 st)) ?E"
      by (rule triple_fact, rule triple_then [OF rollback_step [where T = T, OF assms(1)]])
        (use assms(2) in \<open>auto simp: at_dest_def state_holds_def intro: triple_give\<close>)
    then show ?thesis
      unfolding MixedKnown apply_classification.case
      by (rule triple_weaken) (use uns in \<open>auto simp: at_dest_def verdict_ok_def\<close>)
  next
    case Divergent
    then show ?thesis
      using uns by (auto intro!: triple_refuse stuckI simp: verdict_ok_def at_dest_def failed_at_def)
  qed (auto intro!: triple_give simp: verdict_ok_def at_dest_def state_holds_def)
  show ?thesis
    unfolding recover_destination_def
    by (rule triple_then [OF classify_artifacts_tells [where T = T, OF assms]], assumption, rule told)
qed

section \<open>Applying with a rollback\<close>

lemma apply_or_roll_back_step:
  assumes "applicable e tid digest (T Artifacts) m dir t0"
  shows "case apply_or_roll_back e tid digest w of (r, w') \<Rightarrow> at_dest e False T (unsettled e tid (am_files m) t0) w \<longrightarrow>
    at_dest e False T (case r of
        Inr out \<Rightarrow> (\<lambda>t. out = output_of m \<and> state_holds e tid (am_files m) t0 ApApplied t)
      | Inl (RolledBackFailure _) \<Rightarrow> state_holds e tid (am_files m) t0 ApRolledBack
      | Inl (RecoveryFailure _ _) \<Rightarrow> unsettled e tid (am_files m) t0) w'"
proof -
  let ?U = "unsettled e tid (am_files m) t0"
  obtain r1 w1 where ap: "apply_prepared_artifacts e tid digest w = (r1, w1)" by (cases "apply_prepared_artifacts e tid digest w")
  obtain r2 w2 where rb: "rollback_apply_artifacts e tid digest w1 = (r2, w2)" by (cases "rollback_apply_artifacts e tid digest w1")
  have "at_dest e False T (case r of
        Inr out \<Rightarrow> (\<lambda>t. out = output_of m \<and> state_holds e tid (am_files m) t0 ApApplied t)
      | Inl (RolledBackFailure _) \<Rightarrow> state_holds e tid (am_files m) t0 ApRolledBack
      | Inl (RecoveryFailure _ _) \<Rightarrow> ?U) w'"
    if run: "apply_or_roll_back e tid digest w = (r, w')" and start: "at_dest e False T ?U w" for r w'
  proof (cases r1)
    case (Inr out)
    with triple_Inr [OF apply_step [where T = T, OF assms] start] ap run show ?thesis
      by (auto simp: apply_or_roll_back_def at_dest_def state_holds_def)
  next
    case (Inl er)
    with triple_Inl [OF apply_step [where T = T, OF assms] start] ap have mid: "at_dest e False T ?U w1"
      by (auto simp: failed_at_def at_dest_def)
    note rollback = rollback_step [where T = T and H = False, OF assms]
    show ?thesis
    proof (cases r2)
      case (Inr u)
      with triple_Inr [OF rollback mid] rb run Inl ap show ?thesis
        by (auto simp: apply_or_roll_back_def at_dest_def state_holds_def)
    next
      case (Inl er')
      with triple_Inl [OF rollback mid] rb run \<open>r1 = Inl er\<close> ap show ?thesis
        by (auto simp: apply_or_roll_back_def at_dest_def dest: stuck_any simp: failed_at_def)
    qed
  qed
  then show ?thesis by (auto split: prod.split)
qed

section \<open>The artifacts of a transaction stay\<close>

text \<open>The trees agree on the root and on everything below a directory.\<close>

definition same_below :: "fs_path \<Rightarrow> fs_tree \<Rightarrow> fs_tree \<Rightarrow> bool" where
  "same_below dir t t' \<longleftrightarrow> t' [] = t [] \<and> (\<forall>q. prefix dir q \<longrightarrow> t' q = t q)"

lemma way_to_cong: "(\<And>q. strict_prefix q p \<Longrightarrow> t' (d @ q) = t (d @ q)) \<Longrightarrow> way_to t' d p = way_to t d p"
proof (induction p arbitrary: d)
  case (Cons n ns)
  have "t' d = t d" using Cons.prems [of "[]"] by simp
  moreover have "way_to t' (d @ [n]) ns = way_to t (d @ [n]) ns"
    by (rule Cons.IH) (use Cons.prems [of "n # q" for q] in simp)
  ultimately show ?case by (simp split: option.split fs_node.split)
qed simp

lemma tree_read_below:
  assumes "same_below [n] t t'" and "p \<noteq> []"
  shows "tree_read b ([n] @ p) t' = tree_read b ([n] @ p) t"
proof -
  have eq: "t' (n # q) = t (n # q)" for q using assms(1) by (simp add: same_below_def)
  have "t' q = t q" if "strict_prefix q (n # p)" for q
    using that assms(1) eq by (cases q) (auto simp: same_below_def)
  then have "way_to t' [] (n # p) = way_to t [] (n # p)" by (intro way_to_cong) simp
  moreover have "entry t' (n # p) = entry t (n # p)" using assms(2) eq by (simp add: entry_def)
  ultimately have "tree_stat b (n # p) t' = tree_stat b (n # p) t" by (simp only: tree_stat_def)
  then show ?thesis by (simp add: tree_read_def tree_follow_def)
qed

lemma applicable_below:
  assumes "applicable e tid digest art m dir t0" and "same_below dir art art'"
  shows "applicable e tid digest art' m dir t0"
proof -
  have "transaction_dir e tid = Inr dir" using assms(1) by (simp add: applicable_def stored_manifest_def)
  then obtain n where n: "dir = [n]" using transaction_dir_single(1) by blast
  have below: "same_below [n] art art'" using assms(2) n by simp
  have read: "tree_read b (dir @ p) art' = tree_read b (dir @ p) art" if "p \<noteq> []" for b p
    using tree_read_below [OF below that] n by simp
  have "stored_payload e art' dir ref s = stored_payload e art dir ref s" for ref s
    unfolding stored_payload_def by (simp add: read)
  moreover have "stored_manifest e tid digest art' m dir = stored_manifest e tid digest art m dir"
    using below by (simp add: stored_manifest_def read same_below_def)
  ultimately show ?thesis using assms(1) by (simp add: applicable_def stored_payloads_def)
qed

text \<open>The lock of an operation lies in its own directory.\<close>

definition locks_dir :: fs_path where
  "locks_dir = [lit ''.locks'']"

definition apart_from_locks :: "fs_tree \<Rightarrow> (place \<Rightarrow> fs_tree) \<Rightarrow> bool" where
  "apart_from_locks t T \<longleftrightarrow> t [] = Some FsDir \<and> (\<forall>q. \<not> prefix locks_dir q \<longrightarrow> T Artifacts q = t q)"

lemma keeps_artifacts:
  assumes "\<And>t n. I t \<Longrightarrow> I (damage n t)" and "\<And>t t'. I t \<Longrightarrow> f t = Inr t' \<Longrightarrow> I t'"
  shows "keeps (\<lambda>T. I (T Artifacts)) (os_change e Artifacts damage f)"
  by (rule keepsI) (auto simp: os_change_def Let_def assms split: if_splits sum.splits)

lemma tree_changes:
  "tree_create n p t = Inr t' \<Longrightarrow> t' = t(p \<mapsto> n)"
  "tree_open n p t = Inr t' \<Longrightarrow> t' = t \<or> t' = t(p \<mapsto> n)"
  "t [] = Some FsDir \<Longrightarrow> tree_create_all t = Inr t' \<Longrightarrow> t' = t"
proof -
  show "t' = t \<or> t' = t(p \<mapsto> n)" if run: "tree_open n p t = Inr t'"
  proof -
    obtain x where "(case x of None \<Rightarrow> Inr (t(p \<mapsto> n)) | Some FsDir \<Rightarrow> Inl IoOther | Some _ \<Rightarrow> Inr t) = Inr t'"
      using run unfolding tree_open_def and_then_Inr_iff by blast
    then show ?thesis by (cases x; cases "the x") auto
  qed
qed (auto simp: tree_create_def tree_create_all_def and_then_Inr_iff split: if_splits option.splits fs_node.splits)

lemma keeps_lock: "keeps (apart_from_locks t) (try_lock_apply_operation e oid)"
proof -
  let ?I = "\<lambda>t'. t [] = Some FsDir \<and> (\<forall>q. \<not> prefix locks_dir q \<longrightarrow> t' q = t q)"
  have root: "\<not> prefix locks_dir []" by (simp add: locks_dir_def)
  have sub: "prefix locks_dir (lit ''.locks'' # p)" for p by (simp add: locks_dir_def)
  have ops: "keeps (\<lambda>T. ?I (T Artifacts)) (os_create_dir e Artifacts [lit ''.locks''])"
      "keeps (\<lambda>T. ?I (T Artifacts)) (os_open e Artifacts [lit ''.locks'', h])"
      "keeps (\<lambda>T. ?I (T Artifacts)) (os_set_mode e Artifacts [lit ''.locks'', h] mode)"
      "keeps (\<lambda>T. ?I (T Artifacts)) (os_create_dir_all e Artifacts)" for h mode
    unfolding os_create_dir_def os_open_def os_set_mode_def os_create_dir_all_def
    by (rule keeps_artifacts; use sub root in \<open>force simp: intact_def tree_change_def dest: tree_changes(1,2) tree_changes(3) [rotated]\<close>)+
  have "apart_from_locks t = (\<lambda>T. ?I (T Artifacts))" by (simp add: apart_from_locks_def fun_eq_iff)
  with ops show ?thesis
    unfolding try_lock_apply_operation_def ensure_lock_directory_def ensure_artifact_root_def Let_def
    by (simp only:) (intro keeps_intros; auto intro!: keeps_intros split: sum.splits io_error.splits)
qed

end
