(* ===== verification/Delegation_Rows.thy ===== *)
theory Delegation_Rows
  imports Delegation_Claims
begin

text \<open>
  The journal's calls as the command layer sees them: what they leave in the row of the transaction and
  in the state of the operation it applies.
\<close>

definition operation_state :: "rstr \<Rightarrow> delegations \<Rightarrow> worktree_state option" where
  "operation_state oid t = map_option wo_state (lookup_by wo_operation_id oid (dl_operations t))"

lemma operation_state_view: "operation_state oid t = fst (delegation_view t) oid"
  by (simp add: operation_state_def delegation_view_def ops_view_def)

text \<open>The two roots of an operation, which no call of its application changes.\<close>

definition operation_roots :: "rstr \<Rightarrow> delegations \<Rightarrow> (rstr \<times> rstr) option" where
  "operation_roots oid t =
     map_option (\<lambda>w. (wo_source_root w, wo_worktree_path w)) (lookup_by wo_operation_id oid (dl_operations t))"

lemma operation_roots_update:
  assumes "update_operations e hit f t = Inr (n, t')"
    and "\<And>w. wo_operation_id (f w) = wo_operation_id w"
    and "\<And>w. wo_source_root (f w) = wo_source_root w" and "\<And>w. wo_worktree_path (f w) = wo_worktree_path w"
  shows "operation_roots oid t' = operation_roots oid t"
proof -
  have "t' = t\<lparr>dl_operations := update_where hit f (dl_operations t)\<rparr>"
    using assms(1) by (auto simp: update_operations_def and_then_Inr_iff write_operations_ok)
  then show ?thesis
    by (simp add: operation_roots_def lookup_by_update [where key = wo_operation_id, OF assms(2)]
        option.map_comp comp_def assms(3,4) if_distrib cong: if_cong)
qed

lemma operation_roots_applies:
  "update_applies e hit f t = Inr (n, t') \<Longrightarrow> operation_roots oid t' = operation_roots oid t"
  by (auto simp: operation_roots_def update_applies_def write_applies_ok and_then_Inr_iff)

lemma claimed_roots:
  assumes "claim_delegation_apply_transaction e tid owner now lease lock_held t = Inr (r, t')"
  shows "operation_roots oid t' = operation_roots oid t"
  using assms
proof (cases rule: claim_apply_cases)
  case (started current now' lease')
  then obtain n t1 n' where
    "update_operations e (review_pending_scope current)
      (\<lambda>w. w\<lparr>wo_state := WtApplying, wo_last_error := None, wo_updated_at := now'\<rparr>) t = Inr (n, t1)"
    and "update_applies e (\<lambda>a. at_transaction_id a = at_transaction_id current \<and> at_state a = ApPrepared)
      (\<lambda>a. a\<lparr>at_state := ApApplying, at_recovery_owner := Some (trim owner),
         at_recovery_lease_until := Some lease', at_updated_at := now'\<rparr>) t1 = Inr (n', t')"
    by (auto simp: start_applying_def and_then_Inr_iff split: if_splits)
  then show ?thesis by (simp add: operation_roots_update operation_roots_applies)
qed (auto simp: take_over_def and_then_Inr_iff dest: operation_roots_applies)

lemma finalized_roots:
  assumes "finalize_delegation_apply_transaction e tid owner st err at t = Inr (r, t')"
  shows "operation_roots oid t' = operation_roots oid t"
  using assms
proof (cases rule: finalize_apply_cases)
  case (closed current after at' t1)
  from operation_roots_update [OF closed(6)] operation_roots_applies [OF closed(7)] show ?thesis by simp
qed simp

lemma created_rows:
  assumes "tables_kept t" and "create_delegation_apply_transaction e a t = Inr t'"
  shows "tables_kept t'" and "dl_operations t' = dl_operations t"
  using create_apply_step [OF assms] assms(2)
  by (auto simp: step_kept_def create_delegation_apply_transaction_def and_then_Inr_iff write_applies_ok
      Delegation_Journal.refuse_def split: if_splits)

lemma swapped_rows:
  assumes "tables_kept t" and "compare_and_swap_delegation_apply_transaction e expected a t = Inr (b, t')"
  shows "tables_kept t'" and "dl_operations t' = dl_operations t"
    and "b \<Longrightarrow> \<exists>q. lookup_by at_transaction_id (at_transaction_id a) (dl_applies t') = Some (swapped_apply a q) \<and>
      at_operation_id q = at_operation_id a"
proof -
  obtain n where run: "update_applies e (apply_swap_hit expected a) (swapped_apply a) t = Inr (n, t')" and b: "b = (n = 1)"
    using assms(2) by (auto simp: compare_and_swap_delegation_apply_transaction_def and_then_Inr_iff
        Delegation_Journal.refuse_def split: if_splits)
  from run assms(1) have "tables_kept t' \<and> dl_operations t' = dl_operations t \<and> (b \<longrightarrow>
      (\<exists>q. lookup_by at_transaction_id (at_transaction_id a) (dl_applies t') = Some (swapped_apply a q) \<and>
        at_operation_id q = at_operation_id a))"
  proof (cases rule: update_applies_cases [where k = "at_transaction_id a"])
    case (one q)
    then show ?thesis by (auto simp: apply_swap_hit_def)
  qed (use assms(1) b in \<open>auto simp: apply_swap_hit_def swapped_apply_def\<close>)
  then show "tables_kept t'" and "dl_operations t' = dl_operations t"
    and "b \<Longrightarrow> \<exists>q. lookup_by at_transaction_id (at_transaction_id a) (dl_applies t') = Some (swapped_apply a q) \<and>
      at_operation_id q = at_operation_id a" by blast+
qed

lemma claimed_none: "claim_delegation_apply_transaction e tid owner now lease lock_held t = Inr (None, t') \<Longrightarrow> t' = t"
  by (erule claim_apply_cases) (auto dest: read_back_ok)

text \<open>A claim leaves the transaction and its operation applying, and the manifest as it was.\<close>

lemma claimed_rows:
  assumes "tables_kept t" and "claim_delegation_apply_transaction e tid owner now lease lock_held t = Inr (Some a, t')"
  shows "tables_kept t'" and "lookup_by at_transaction_id tid (dl_applies t') = Some a" and "at_state a = ApApplying"
    and "at_recovery_owner a = Some (trim owner)" and "operation_state (at_operation_id a) t' = Some WtApplying"
    and "\<exists>q. lookup_by at_transaction_id tid (dl_applies t) = Some q \<and> at_operation_id q = at_operation_id a \<and>
      at_manifest_digest q = at_manifest_digest a"
proof -
  from claim_apply_step [OF assms] show kept: "tables_kept t'" by (simp add: step_kept_def)
  have "lookup_by at_transaction_id tid (dl_applies t') = Some a \<and> at_state a = ApApplying \<and>
    at_recovery_owner a = Some (trim owner) \<and> operation_state (at_operation_id a) t' = Some WtApplying \<and>
    (\<exists>q. lookup_by at_transaction_id tid (dl_applies t) = Some q \<and> at_operation_id q = at_operation_id a \<and>
      at_manifest_digest q = at_manifest_digest a)"
    using assms(2)
  proof (cases rule: claim_apply_cases)
    case (started current now' lease')
    note cur = get_apply_SomeD [OF started(1)]
    note row = start_applying_step(2) [OF assms(1) _ started(3), unfolded cur(2), OF cur(1)]
    from started(9) row have a: "a = current\<lparr>at_state := ApApplying, at_recovery_owner := Some (trim owner),
        at_recovery_lease_until := Some lease', at_updated_at := now'\<rparr>"
      by (auto dest!: read_back_ok decode_apply_Inr)
    obtain n t1 where
      up: "update_operations (e) (review_pending_scope current)
        (\<lambda>w. w\<lparr>wo_state := WtApplying, wo_last_error := None, wo_updated_at := now'\<rparr>) t = Inr (n, t1)" and n: "n = 1"
      and tx: "dl_operations t' = dl_operations t1"
      using started(3) by (auto simp: start_applying_def update_applies_def write_applies_def and_then_Inr_iff split: if_splits)
    from up assms(1) have "operation_state (at_operation_id current) t1 = Some WtApplying"
      by (cases rule: update_operations_cases [where k = "at_operation_id current"])
        (use n in \<open>auto simp: review_pending_scope_def operation_state_def\<close>)
    with tx a row cur(1) show ?thesis by (simp add: operation_state_def)
  next
    case (taken current now' lease')
    note cur = get_apply_SomeD(1) [OF taken(1)]
    note row = take_over_step(2-5) [OF assms(1) cur taken(4)]
    from taken(10) row(3) have a: "a = current\<lparr>at_recovery_owner := Some (trim owner),
        at_recovery_lease_until := Some lease', at_updated_at := now'\<rparr>"
      by (auto dest!: read_back_ok decode_apply_Inr)
    from row(2) obtain w where "w \<in> set (dl_operations t)" "wo_operation_id w = at_operation_id current" "wo_state w = WtApplying"
      by (auto simp: holds_applying_def list_ex_iff)
    with lookup_by_in [OF tables_kept_ids(1) [OF assms(1)]] row(4)
    have "operation_state (at_operation_id current) t' = Some WtApplying" by (force simp: operation_state_def)
    with a row(1,3) cur show ?thesis by simp
  qed simp
  then show "lookup_by at_transaction_id tid (dl_applies t') = Some a" and "at_state a = ApApplying"
    and "at_recovery_owner a = Some (trim owner)" and "operation_state (at_operation_id a) t' = Some WtApplying"
    and "\<exists>q. lookup_by at_transaction_id tid (dl_applies t) = Some q \<and> at_operation_id q = at_operation_id a \<and>
      at_manifest_digest q = at_manifest_digest a" by blast+
qed

lemma finalized_none: "finalize_delegation_apply_transaction e tid owner st err at t = Inr (None, t') \<Longrightarrow> t' = t"
  by (erule finalize_apply_cases) auto

definition outcome_state :: "apply_state \<Rightarrow> worktree_state" where
  "outcome_state st =
     (case st of ApApplied \<Rightarrow> WtApplied | ApRolledBack \<Rightarrow> WtReviewPending | _ \<Rightarrow> WtCleanupRequired)"

lemma finalized_rows:
  assumes "tables_kept t" and "finalize_delegation_apply_transaction e tid owner st err at t = Inr (Some a, t')"
  shows "tables_kept t'"
    and "\<exists>q. lookup_by at_transaction_id tid (dl_applies t) = Some q \<and> at_operation_id q = at_operation_id a \<and>
      at_manifest_digest q = at_manifest_digest a"
    and "lookup_by at_transaction_id tid (dl_applies t') = Some a" and "at_state a = st"
    and "operation_state (at_operation_id a) t' = Some (outcome_state st)"
    and "st \<in> {ApApplied, ApRolledBack, ApRecoveryRequired}"
proof -
  from finalize_apply_step [OF assms] show kept: "tables_kept t'" by (simp add: step_kept_def)
  have "(\<exists>q. lookup_by at_transaction_id tid (dl_applies t) = Some q \<and> at_operation_id q = at_operation_id a \<and>
      at_manifest_digest q = at_manifest_digest a) \<and>
    lookup_by at_transaction_id tid (dl_applies t') = Some a \<and> at_state a = st \<and>
    operation_state (at_operation_id a) t' = Some (outcome_state st) \<and> st \<in> {ApApplied, ApRolledBack, ApRecoveryRequired}"
    using assms(2)
  proof (cases rule: finalize_apply_cases)
    case (closed current after at' t1)
    have after: "after = outcome_state st" "st \<in> {ApApplied, ApRolledBack, ApRecoveryRequired}"
      using closed(4) by (auto simp: apply_outcome_ok outcome_state_def)
    from closed(6) assms(1) show ?thesis
    proof (cases rule: update_operations_cases [where k = "at_operation_id current"])
      case (one w)
      note ops = this
      from closed(7) one(5) show ?thesis
      proof (cases rule: update_applies_cases [where k = tid])
        case (one b)
        have "b = current" using one(2) ops(4) closed(1) by simp
        with one ops closed after show ?thesis by (simp add: operation_state_def closed_apply_def)
      qed auto
    qed auto
  qed simp
  then show "\<exists>q. lookup_by at_transaction_id tid (dl_applies t) = Some q \<and> at_operation_id q = at_operation_id a \<and>
      at_manifest_digest q = at_manifest_digest a"
    and "lookup_by at_transaction_id tid (dl_applies t') = Some a" and "at_state a = st"
    and "operation_state (at_operation_id a) t' = Some (outcome_state st)"
    and "st \<in> {ApApplied, ApRolledBack, ApRecoveryRequired}" by blast+
qed

lemma deleted_rows:
  assumes "tables_kept t"
  shows "tables_kept (snd (delete_terminal_delegation_apply_transaction tid t))"
    and "dl_operations (snd (delete_terminal_delegation_apply_transaction tid t)) = dl_operations t"
  using delete_terminal_step [OF assms, of tid]
  by (auto simp: step_kept_def delete_terminal_delegation_apply_transaction_def Let_def)

end
