(* ===== verification/Apply_Command_Runs.thy ===== *)
theory Apply_Command_Runs
  imports Apply_Recovery Delegation_Rows
begin

text \<open>
  Running a command: what holds after it, whichever calls fail. A condition on a world is about its
  trees, its artifacts and its tables; the calls made and the warnings do not matter to it.
\<close>

section \<open>Conditions and what a command leaves\<close>

type_synonym condition = "(rstr \<Rightarrow> fs_tree) \<Rightarrow> fs_tree \<Rightarrow> delegations \<Rightarrow> bool"

definition held :: "condition \<Rightarrow> command_world \<Rightarrow> bool" where
  "held C S \<longleftrightarrow> C (cw_trees S) (cw_artifacts S) (cw_tables S)"

definition leaves :: "condition \<Rightarrow> (command_world \<Rightarrow> 'r \<times> command_world) \<Rightarrow> ('r \<Rightarrow> condition) \<Rightarrow> bool" where
  "leaves C m D \<longleftrightarrow> (\<forall>S. held C S \<longrightarrow> (case m S of (r, S') \<Rightarrow> held (D r) S'))"

lemma leavesI: "(\<And>S r S'. held C S \<Longrightarrow> m S = (r, S') \<Longrightarrow> held (D r) S') \<Longrightarrow> leaves C m D"
  by (auto simp: leaves_def)

lemma leavesD: "leaves C m D \<Longrightarrow> held C S \<Longrightarrow> m S = (r, S') \<Longrightarrow> held (D r) S'"
  by (auto simp: leaves_def)

lemma leaves_weaken:
  assumes "leaves C m D" and "\<And>tr art t. C' tr art t \<Longrightarrow> C tr art t" and "\<And>r tr art t. D r tr art t \<Longrightarrow> D' r tr art t"
  shows "leaves C' m D'"
  using assms unfolding leaves_def held_def by (fastforce split: prod.splits)

lemma leaves_trying: "leaves C m R \<Longrightarrow> (\<And>r. leaves (R r) (k r) D) \<Longrightarrow> leaves C (trying m k) D"
  unfolding leaves_def trying_def by (fastforce split: prod.splits)

lemma leaves_told: "(\<And>tr art t. C tr art t \<Longrightarrow> D r tr art t) \<Longrightarrow> leaves C (told r) D"
  by (simp add: leaves_def told_def held_def)

lemma leaves_fails: "(\<And>tr art t. C tr art t \<Longrightarrow> D (Inl er) tr art t) \<Longrightarrow> leaves C (fails er) D"
  unfolding fails_def by (rule leaves_told)

lemma leaves_yields: "(\<And>tr art t. C tr art t \<Longrightarrow> D (Inr x) tr art t) \<Longrightarrow> leaves C (yields x) D"
  unfolding yields_def by (rule leaves_told)

text \<open>A step of which an error ends the command.\<close>

lemma leaves_next:
  assumes "leaves C m R" and "\<And>er tr art t. R (Inl er) tr art t \<Longrightarrow> D (Inl er) tr art t"
    and "\<And>x. leaves (R (Inr x)) (f x) D"
  shows "leaves C (and_next m f) D"
  unfolding and_next_def
proof (rule leaves_trying [OF assms(1)])
  show "leaves (R r) (case r of Inl er \<Rightarrow> fails er | Inr x \<Rightarrow> f x) D" for r
    using assms(2,3) by (cases r) (auto intro: leaves_fails)
qed

lemma leaves_fact: "(b \<Longrightarrow> leaves C m D) \<Longrightarrow> leaves (\<lambda>tr art t. b \<and> C tr art t) m D"
  by (auto simp: leaves_def held_def)

lemma leaves_ex: "(\<And>x. leaves (C x) m D) \<Longrightarrow> leaves (\<lambda>tr art t. \<exists>x. C x tr art t) m D"
proof (rule leavesI)
  fix S r S' assume all: "\<And>x. leaves (C x) m D" and go: "m S = (r, S')" and "held (\<lambda>tr art t. \<exists>x. C x tr art t) S"
  then obtain x where "held (C x) S" by (auto simp: held_def)
  from leavesD [OF all this go] show "held (D r) S'" .
qed

lemma leaves_if: "(b \<Longrightarrow> leaves C m D) \<Longrightarrow> (\<not> b \<Longrightarrow> leaves C n D) \<Longrightarrow> leaves C (if b then m else n) D"
  by simp

section \<open>Commands that only look\<close>

text \<open>They change no tree, no artifact and no table.\<close>

definition looking :: "(command_world \<Rightarrow> 'r \<times> command_world) \<Rightarrow> bool" where
  "looking m \<longleftrightarrow> (\<forall>C. leaves C m (\<lambda>_. C))"

named_theorems looking_intros \<open>commands that only look\<close>

lemma looking_leaves: "looking m \<Longrightarrow> leaves C m (\<lambda>_. C)"
  by (simp add: looking_def)

lemma lookingI:
  assumes "\<And>S r S'. m S = (r, S') \<Longrightarrow> cw_trees S' = cw_trees S \<and> cw_artifacts S' = cw_artifacts S \<and> cw_tables S' = cw_tables S"
  shows "looking m"
  unfolding looking_def by (intro allI leavesI) (use assms in \<open>auto simp: held_def\<close>)

lemma looking_steps [looking_intros]:
  "looking (told r)" "looking (fails er)" "looking (yields x)" "looking (warn text)"
  "looking (new_uuid ce)" "looking (utc_now ce)"
  by (rule lookingI; auto simp: told_def fails_def yields_def warn_def new_uuid_def utc_now_def ticked_def)+

lemma looking_trying [looking_intros]: "looking m \<Longrightarrow> (\<And>r. looking (k r)) \<Longrightarrow> looking (trying m k)"
  unfolding looking_def by (blast intro: leaves_trying)

lemma looking_next [looking_intros]: "looking m \<Longrightarrow> (\<And>x. looking (f x)) \<Longrightarrow> looking (and_next m f)"
  unfolding and_next_def by (intro looking_intros) (auto intro: looking_intros split: sum.split)

lemma looking_if [looking_intros]: "looking m \<Longrightarrow> looking n \<Longrightarrow> looking (if c then m else n)"
  by simp

lemma looking_journal [looking_intros]: "looking (journal ce (reading f))"
  by (rule lookingI) (auto simp: journal_def reading_def ticked_def elim!: and_then_InrE split: if_splits sum.splits)

lemma looking_scope [looking_intros]: "looking (validate_delegation_operation_workspace_scope ce root op)"
  unfolding validate_delegation_operation_workspace_scope_def open_repo_def get_workspace_def
  by (auto intro!: looking_intros split: option.split)

lemma looking_preflight [looking_intros]: "looking (preflight_workspace_root ce root)"
  unfolding preflight_workspace_root_def by (auto intro!: looking_intros split: option.split)

section \<open>Journal and engine\<close>

lemma journal_leaves:
  assumes "\<And>tr art t x t'. C tr art t \<Longrightarrow> call t = Inr (x, t') \<Longrightarrow> D (Inr x) tr art t'"
    and "\<And>er tr art t. C tr art t \<Longrightarrow> D (Inl er) tr art t"
  shows "leaves C (journal ce call) D"
  by (rule leavesI) (auto simp: journal_def held_def ticked_def assms split: if_splits sum.splits)

text \<open>A run on two roots of which only the destination changes.\<close>

lemma on_roots_leaves:
  assumes apart: "d \<noteq> s"
    and run: "\<And>tr art t w r w'. C tr art t \<Longrightarrow> aw_tree w (Worktree SourceSide) = tr s \<Longrightarrow> aw_tree w dest = tr d \<Longrightarrow>
      aw_tree w Artifacts = art \<Longrightarrow> m (engine_at ce d s) w = (r, w') \<Longrightarrow>
      aw_tree w' (Worktree SourceSide) = tr s \<and> D r (tr(d := aw_tree w' dest)) (aw_tree w' Artifacts) t"
  shows "leaves C (on_roots ce d s m) D"
proof (rule leavesI)
  fix S r S' assume C: "held C S" and go: "on_roots ce d s m S = (r, S')"
  let ?w = "\<lparr>aw_tree = (\<lambda>pl. case pl of Worktree SourceSide \<Rightarrow> cw_trees S s
            | Worktree DestinationSide \<Rightarrow> cw_trees S d | Artifacts \<Rightarrow> cw_artifacts S), aw_calls = cw_calls S\<rparr>"
  obtain w' where w': "m (engine_at ce d s) ?w = (r, w')" using go by (auto simp: on_roots_def split: prod.splits)
  from run [OF C [unfolded held_def] _ _ _ this] have res: "aw_tree w' (Worktree SourceSide) = cw_trees S s"
      "D r ((cw_trees S)(d := aw_tree w' dest)) (aw_tree w' Artifacts) (cw_tables S)" by simp_all
  then have "(cw_trees S)(s := aw_tree w' (Worktree SourceSide), d := aw_tree w' dest) = (cw_trees S)(d := aw_tree w' dest)"
    by auto
  with go w' res(2) show "held (D r) S'" by (auto simp: on_roots_def held_def)
qed

lemma on_artifacts_leaves:
  assumes "\<And>tr art t w r w'. C tr art t \<Longrightarrow> aw_tree w Artifacts = art \<Longrightarrow> m (ce_engine ce) w = (r, w') \<Longrightarrow>
      D r tr (aw_tree w' Artifacts) t"
  shows "leaves C (on_artifacts ce m) D"
proof (rule leavesI)
  fix S r S' assume C: "held C S" and go: "on_artifacts ce m S = (r, S')"
  let ?w = "\<lparr>aw_tree = (\<lambda>pl. case pl of Worktree _ \<Rightarrow> (\<lambda>_. None) | Artifacts \<Rightarrow> cw_artifacts S), aw_calls = cw_calls S\<rparr>"
  obtain w' where w': "m (ce_engine ce) ?w = (r, w')" using go by (auto simp: on_artifacts_def split: prod.splits)
  from assms [OF C [unfolded held_def] _ this] go w' show "held (D r) S'" by (auto simp: on_artifacts_def held_def)
qed

lemma admitted_leaves:
  assumes "leaves C m (\<lambda>r. D (Ran r))" and "\<And>msg tr art t. C tr art t \<Longrightarrow> D (Unavailable msg) tr art t"
  shows "leaves C (admitted ce m) D"
proof (rule leavesI)
  fix S r S' assume C: "held C S" and go: "admitted ce m S = (r, S')"
  have tick: "held D' (ticked S) = held D' S" for D' by (simp add: held_def ticked_def)
  show "held (D r) S'"
  proof (cases "ce_down ce (cw_calls S)")
    case True
    have "held (D (Unavailable msg)) S" for msg using C assms(2) by (simp add: held_def)
    with go True tick show ?thesis by (auto simp: admitted_def)
  next
    case False
    then obtain x where x: "m (ticked S) = (x, S')" "r = Ran x" using go by (auto simp: admitted_def split: prod.splits)
    from leavesD [OF assms(1) _ x(1)] C x(2) tick show ?thesis by simp
  qed
qed

lemma engine_says_leaves:
  assumes "leaves C m D'" and "\<And>x tr art t. D' (Inr x) tr art t \<Longrightarrow> D (Inr x) tr art t"
    and "\<And>er msg tr art t. D' (Inl er) tr art t \<Longrightarrow> D (Inl msg) tr art t"
  shows "leaves C (engine_says ce m) D"
proof (rule leavesI)
  fix S r S' assume C: "held C S" and go: "engine_says ce m S = (r, S')"
  then obtain r' where r': "m S = (r', S')" "r = map_sum (ce_text ce) id r'" by (auto simp: engine_says_def split: prod.splits)
  from leavesD [OF assms(1) C r'(1)] r'(2) assms(2,3) show "held (D r) S'" by (cases r') (auto simp: held_def)
qed

end
