(* ===== verification/Apply_Command_Props.thy ===== *)
theory Apply_Command_Props
  imports Apply_Command_Runs Apply_Returns
begin

text \<open>
  The journal tells the truth about the destination: what is proved here of applying a delegation and of
  the recovery at startup, for a process that may die at any call.
\<close>

section \<open>What the journal says and what is there\<close>

text \<open>Every entry is as before, as a file or as a new directory.\<close>

definition restored :: "apply_env \<Rightarrow> fs_tree \<Rightarrow> fs_tree \<Rightarrow> bool" where
  "restored e t0 t \<longleftrightarrow> (\<forall>q. t q = t0 q \<or> t0 q = None \<and> t q = Some FsDir \<or>
     node_snapshot e (t q) \<noteq> None \<and> node_snapshot e (t q) = node_snapshot e (t0 q))"

text \<open>The paths have the files of the delegation, and nothing else changed but directories made for them.\<close>

definition installed :: "apply_env \<Rightarrow> rstr \<Rightarrow> rstr list \<Rightarrow> fs_tree \<Rightarrow> fs_tree \<Rightarrow> fs_tree \<Rightarrow> bool" where
  "installed e tid ps td ts t \<longleftrightarrow> same_files e ps ts t \<and> rest_kept e tid ps td t \<and> no_temps e tid ps t"

text \<open>
  The destination is unsettled between the files it had and those of the delegation, and the artifacts
  still hold both under the digest.
\<close>

definition midway_at ::
    "apply_env \<Rightarrow> rstr \<Rightarrow> rstr \<Rightarrow> apply_manifest \<Rightarrow> fs_path \<Rightarrow> fs_tree \<Rightarrow> fs_tree \<Rightarrow> fs_tree \<Rightarrow> fs_tree \<Rightarrow> bool" where
  "midway_at e tid digest m dir td ts art t \<longleftrightarrow>
     applicable e tid digest art m dir td \<and> all_pre e (am_files m) td \<and> all_post e (am_files m) ts \<and>
     no_temps e tid (map fa_path (am_files m)) td \<and> unsettled e tid (am_files m) td t"

definition in_between ::
    "apply_env \<Rightarrow> rstr \<Rightarrow> rstr \<Rightarrow> rstr list \<Rightarrow> fs_tree \<Rightarrow> fs_tree \<Rightarrow> fs_tree \<Rightarrow> fs_tree \<Rightarrow> bool" where
  "in_between e tid digest ps td ts art t \<longleftrightarrow>
     (\<exists>m dir. map fa_path (am_files m) = ps \<and> midway_at e tid digest m dir td ts art t)"

text \<open>The row of the transaction names the manifest.\<close>

definition names_manifest :: "rstr \<Rightarrow> rstr \<Rightarrow> rstr \<Rightarrow> apply_state \<Rightarrow> delegations \<Rightarrow> bool" where
  "names_manifest tid oid digest st t \<longleftrightarrow>
     (\<exists>a. lookup_by at_transaction_id tid (dl_applies t) = Some a \<and> at_operation_id a = oid \<and> at_state a = st \<and>
        at_manifest_digest a = Some digest)"

definition journal_truthful ::
    "apply_env \<Rightarrow> rstr \<Rightarrow> rstr \<Rightarrow> rstr \<Rightarrow> rstr list \<Rightarrow> fs_tree \<Rightarrow> fs_tree \<Rightarrow> fs_tree \<Rightarrow> fs_tree \<Rightarrow> delegations \<Rightarrow> bool" where
  "journal_truthful e oid tid digest ps td ts t art tables \<longleftrightarrow>
     (case operation_state oid tables of
        Some WtReviewPending \<Rightarrow> restored e td t
      | Some WtApplied \<Rightarrow> installed e tid ps td ts t
      | Some WtApplying \<Rightarrow> names_manifest tid oid digest ApApplying tables \<and> in_between e tid digest ps td ts art t
      | Some WtCleanupRequired \<Rightarrow>
          names_manifest tid oid digest ApRecoveryRequired tables \<and> in_between e tid digest ps td ts art t
      | _ \<Rightarrow> False)"

lemma restored_refl: "restored e t t"
  by (simp add: restored_def)

lemma restored_files:
  assumes "same_files e ps td t" and "rest_kept e tid ps td t" and "no_temps e tid ps t" and "no_temps e tid ps td"
    and "\<forall>p \<in> set ps. node_snapshot e (td (normal_names p)) \<noteq> None"
  shows "restored e td t"
  unfolding restored_def
proof
  fix q
  show "t q = td q \<or> td q = None \<and> t q = Some FsDir \<or>
    node_snapshot e (t q) \<noteq> None \<and> node_snapshot e (t q) = node_snapshot e (td q)"
  proof (cases "q \<in> normal_names ` set ps \<or> q \<in> temp_path e tid ` set ps")
    case True
    with assms show ?thesis by (auto simp: same_files_def no_temps_def)
  next
    case False
    with assms(2) show ?thesis unfolding rest_kept_def by blast
  qed
qed

lemma state_holds_settles:
  assumes "midway_at e tid digest m dir td ts art t'" and "state_holds e tid (am_files m) td st t"
  shows "st = ApApplied \<Longrightarrow> installed e tid (map fa_path (am_files m)) td ts t"
    and "st = ApRolledBack \<Longrightarrow> restored e td t"
    and "midway_at e tid digest m dir td ts art t"
proof -
  note mid = assms(1) [unfolded midway_at_def] and st = assms(2) [unfolded state_holds_def]
  from st have rest: "rest_kept e tid (map fa_path (am_files m)) td t" "no_temps e tid (map fa_path (am_files m)) t"
    using settled_rest by blast+
  show "installed e tid (map fa_path (am_files m)) td ts t" if "st = ApApplied"
    using st rest that all_post_files [of e "am_files m" ts t] mid by (simp add: installed_def)
  show "restored e td t" if "st = ApRolledBack"
  proof (rule restored_files [OF _ rest])
    show "same_files e (map fa_path (am_files m)) td t" using st that all_pre_files [of e "am_files m" td t] mid by simp
    show "\<forall>p \<in> set (map fa_path (am_files m)). node_snapshot e (td (normal_names p)) \<noteq> None"
      using mid by (auto simp: all_pre_def target_def)
  qed (use mid in simp)
  show "midway_at e tid digest m dir td ts art t"
    using mid st settled_unsettled applicableD(3) by (auto simp: midway_at_def)
qed

section \<open>Stages of an application\<close>

record application =
  ap_env :: apply_env
  ap_operation :: rstr
  ap_transaction :: rstr
  ap_digest :: rstr
  ap_destination :: rstr
  ap_source :: rstr
  ap_manifest :: apply_manifest
  ap_dir :: fs_path
  ap_before :: fs_tree
  ap_delegated :: fs_tree

definition ap_midway :: "application \<Rightarrow> fs_tree \<Rightarrow> fs_tree \<Rightarrow> bool" where
  "ap_midway x art t \<longleftrightarrow>
     midway_at (ap_env x) (ap_transaction x) (ap_digest x) (ap_manifest x) (ap_dir x) (ap_before x) (ap_delegated x) art t"

definition ap_holds :: "application \<Rightarrow> apply_state \<Rightarrow> fs_tree \<Rightarrow> bool" where
  "ap_holds x st t \<longleftrightarrow>
     state_holds (ap_env x) (ap_transaction x) (am_files (ap_manifest x)) (ap_before x) st t"

text \<open>The transaction is applying; it was closed in a state; and what both come to for the journal.\<close>

definition applying_at :: "application \<Rightarrow> (fs_tree \<Rightarrow> bool) \<Rightarrow> condition" where
  "applying_at x I tr art t \<longleftrightarrow>
     tables_kept t \<and> operation_state (ap_operation x) t = Some WtApplying \<and>
     names_manifest (ap_transaction x) (ap_operation x) (ap_digest x) ApApplying t \<and>
     tr (ap_source x) = ap_delegated x \<and> ap_midway x art (tr (ap_destination x)) \<and> I (tr (ap_destination x))"

definition closed_at :: "application \<Rightarrow> apply_state \<Rightarrow> condition" where
  "closed_at x st tr art t \<longleftrightarrow>
     tables_kept t \<and> operation_state (ap_operation x) t = Some (outcome_state st) \<and>
     tr (ap_source x) = ap_delegated x \<and>
     (st \<in> {ApApplied, ApRolledBack} \<and> ap_holds x st (tr (ap_destination x)) \<or>
      st = ApRecoveryRequired \<and> ap_midway x art (tr (ap_destination x)) \<and>
        names_manifest (ap_transaction x) (ap_operation x) (ap_digest x) ApRecoveryRequired t)"

definition truthful_at :: "application \<Rightarrow> condition" where
  "truthful_at x tr art t \<longleftrightarrow>
     tables_kept t \<and> tr (ap_source x) = ap_delegated x \<and>
     journal_truthful (ap_env x) (ap_operation x) (ap_transaction x) (ap_digest x) (map fa_path (am_files (ap_manifest x)))
       (ap_before x) (ap_delegated x) (tr (ap_destination x)) art t"

lemma ap_midway_between:
  "ap_midway x art t \<Longrightarrow> in_between (ap_env x) (ap_transaction x) (ap_digest x) (map fa_path (am_files (ap_manifest x)))
     (ap_before x) (ap_delegated x) art t"
  unfolding ap_midway_def in_between_def by blast

lemma applying_truthful: "applying_at x I tr art t \<Longrightarrow> truthful_at x tr art t"
  by (simp add: applying_at_def truthful_at_def journal_truthful_def ap_midway_between)

lemma closed_truthful:
  assumes "ap_midway x art' t'" and "closed_at x st tr art t"
  shows "truthful_at x tr art t"
  using assms state_holds_settles(1,2) [OF assms(1) [unfolded ap_midway_def], of st "tr (ap_destination x)"]
  by (auto simp: closed_at_def truthful_at_def journal_truthful_def ap_midway_between ap_holds_def outcome_state_def)

section \<open>Closing a transaction\<close>

lemma finalize_leaves:
  assumes "\<And>t. I t \<Longrightarrow> st = ApRecoveryRequired \<or> ap_holds x st t"
  shows "leaves (applying_at x I) (finalize_transaction ce (ap_transaction x) owner st err)
    (\<lambda>r. if \<exists>a. r = Inr (Some a) then closed_at x st else applying_at x I)"
  unfolding finalize_transaction_def
proof (rule leaves_next [OF looking_leaves], rule looking_intros)
  fix now
  show "leaves (applying_at x I) (journal ce (finalize_delegation_apply_transaction (ce_journal ce) (ap_transaction x)
      owner st err (ce_rfc3339 ce now))) (\<lambda>r. if \<exists>a. r = Inr (Some a) then closed_at x st else applying_at x I)"
  proof (rule journal_leaves)
    fix tr art t r t' assume at: "applying_at x I tr art t"
      and fin: "finalize_delegation_apply_transaction (ce_journal ce) (ap_transaction x) owner st err (ce_rfc3339 ce now) t = Inr (r, t')"
    show "(if \<exists>a. Inr r = Inr (Some a) then closed_at x st else applying_at x I) tr art t'"
    proof (cases r)
      case None
      with at finalized_none [OF fin [unfolded None]] show ?thesis by simp
    next
      case (Some a)
      have kept: "tables_kept t" and name: "names_manifest (ap_transaction x) (ap_operation x) (ap_digest x) ApApplying t"
        using at by (simp_all add: applying_at_def)
      note rows = finalized_rows [OF kept fin [unfolded Some]]
      from rows(2) name have "at_operation_id a = ap_operation x" "at_manifest_digest a = Some (ap_digest x)"
        by (auto simp: names_manifest_def)
      with rows at assms [of "tr (ap_destination x)"] have "closed_at x st tr art t'"
        by (auto simp: closed_at_def applying_at_def names_manifest_def ap_holds_def state_holds_def)
      with Some show ?thesis by simp
    qed
  qed auto
qed auto

text \<open>Once a transaction is closed as applied or rolled back, its artifacts and its row may go.\<close>

lemma cleanup_leaves:
  assumes "st \<in> {ApApplied, ApRolledBack}"
  shows "leaves (closed_at x st) (cleanup_terminal_delegation_apply_transaction ce tid) (\<lambda>_. closed_at x st)"
proof -
  have art: "closed_at x st tr art t \<Longrightarrow> closed_at x st tr art' t" for tr art art' t
    using assms by (auto simp: closed_at_def)
  have gone: "tables_kept t' \<and> dl_operations t' = dl_operations t"
    if "delete_terminal_delegation_apply_transaction tid t = (b, t')" "tables_kept t" for b t t'
    using deleted_rows [OF that(2), of tid] that(1) by simp
  show ?thesis
    unfolding cleanup_terminal_delegation_apply_transaction_def
    by (intro leaves_next [where R = "\<lambda>_. closed_at x st"] engine_says_leaves [where D' = "\<lambda>_. closed_at x st"]
        on_artifacts_leaves journal_leaves leaves_yields)
      (use assms in \<open>auto intro: art dest!: gone simp: closed_at_def operation_state_def\<close>)
qed

lemma leaves_given: "(\<And>tr art t. C tr art t \<Longrightarrow> b) \<Longrightarrow> (b \<Longrightarrow> leaves C m D) \<Longrightarrow> leaves C m D"
  by (auto simp: leaves_def held_def)

lemma or_warn_leaves: "leaves C m (\<lambda>_. D) \<Longrightarrow> leaves C (or_warn m) (\<lambda>_. D)"
  unfolding or_warn_def
  by (erule leaves_trying) (auto split: sum.split intro: looking_leaves looking_intros leaves_yields)

section \<open>Claiming\<close>

text \<open>The row names the manifest, and the destination is as an application leaves it or has not begun.\<close>

definition named_at :: "application \<Rightarrow> apply_state \<Rightarrow> condition" where
  "named_at x st tr art t \<longleftrightarrow>
     tables_kept t \<and> names_manifest (ap_transaction x) (ap_operation x) (ap_digest x) st t \<and>
     tr (ap_source x) = ap_delegated x \<and> ap_midway x art (tr (ap_destination x))"

definition claim_of :: "application \<Rightarrow> apply_transaction \<Rightarrow> bool" where
  "claim_of x a \<longleftrightarrow> at_transaction_id a = ap_transaction x \<and> at_operation_id a = ap_operation x \<and>
     at_manifest_digest a = Some (ap_digest x)"

lemma claimed_at:
  assumes "named_at x st tr art t"
    and "claim_delegation_apply_transaction e (ap_transaction x) owner now lease lock t = Inr (Some a, t')"
  shows "claim_of x a \<and> applying_at x (\<lambda>_. True) tr art t'"
proof -
  have "tables_kept t" and name: "names_manifest (ap_transaction x) (ap_operation x) (ap_digest x) st t"
    using assms(1) by (simp_all add: named_at_def)
  note rows = claimed_rows [OF this(1) assms(2)]
  from rows(6) name have "at_operation_id a = ap_operation x" "at_manifest_digest a = Some (ap_digest x)"
    by (auto simp: names_manifest_def)
  moreover have "at_transaction_id a = ap_transaction x" using rows(2) by (auto dest: lookup_by_SomeD)
  ultimately show ?thesis
    using rows assms(1) by (auto simp: claim_of_def applying_at_def named_at_def names_manifest_def)
qed

text \<open>What else holds stays without a claim, and becomes \<open>J'\<close> of the tables with one.\<close>

lemma claim_leaves:
  assumes "\<And>tr art t owner now lease r t'. J tr art t \<Longrightarrow>
      claim_delegation_apply_transaction (ce_journal ce) (ap_transaction x) owner now lease True t = Inr (r, t') \<Longrightarrow> J' t'"
  shows "leaves (\<lambda>tr art t. J tr art t \<and> named_at x st tr art t) (claim_transaction ce (ap_transaction x))
    (\<lambda>r. case r of Inr (_, Some a) \<Rightarrow> (\<lambda>tr art t. claim_of x a \<and> J' t \<and> applying_at x (\<lambda>_. True) tr art t)
       | _ \<Rightarrow> (\<lambda>tr art t. J tr art t \<and> named_at x st tr art t))"
proof -
  let ?C = "\<lambda>tr art t. J tr art t \<and> named_at x st tr art t"
  let ?R = "\<lambda>r. case r of Inr (Some a) \<Rightarrow> (\<lambda>tr art t. claim_of x a \<and> J' t \<and> applying_at x (\<lambda>_. True) tr art t) | _ \<Rightarrow> ?C"
  have "leaves ?C (journal ce (claim_delegation_apply_transaction (ce_journal ce) (ap_transaction x) owner now lease True)) ?R"
    for owner now lease
  proof (rule journal_leaves)
    fix tr art t r t' assume C: "?C tr art t"
      and run: "claim_delegation_apply_transaction (ce_journal ce) (ap_transaction x) owner now lease True t = Inr (r, t')"
    show "?R (Inr r) tr art t'"
    proof (cases r)
      case None
      with C claimed_none [OF run [unfolded None]] show ?thesis by simp
    next
      case (Some a)
      with claimed_at [OF conjunct2 [OF C] run [unfolded Some]] assms [OF conjunct1 [OF C] run] show ?thesis by simp
    qed
  qed simp
  note claim = this
  have told: "leaves (?R (Inr claimed)) (yields (owner, claimed))
    (\<lambda>r. case r of Inr (_, Some a) \<Rightarrow> (\<lambda>tr art t. claim_of x a \<and> J' t \<and> applying_at x (\<lambda>_. True) tr art t) | _ \<Rightarrow> ?C)"
    for owner claimed
    by (rule leaves_yields) (auto split: option.splits)
  show ?thesis
    unfolding claim_transaction_def
    by (rule leaves_next [OF looking_leaves], rule looking_intros, simp,
      rule leaves_next [OF looking_leaves], rule looking_intros, simp, rule leaves_next [OF claim], simp, rule told)
qed

section \<open>Recovery\<close>

lemma close_recovery_leaves:
  assumes "\<And>st. recovery = Inr st \<Longrightarrow> I = ap_holds x st"
  shows "leaves (applying_at x I) (close_recovery ce (ap_transaction x) owner recovery) (\<lambda>_. truthful_at x)"
proof -
  obtain st err where st: "(case recovery of Inr st \<Rightarrow> (st, None) | Inl er \<Rightarrow> (ApRecoveryRequired, Some er)) = (st, err)"
    by (cases "case recovery of Inr st \<Rightarrow> (st, None :: rstr option) | Inl er \<Rightarrow> (ApRecoveryRequired, Some er)")
  have holds: "st = ApRecoveryRequired \<or> ap_holds x st t" if "I t" for t
    using st that assms by (cases recovery) auto
  have warned: "leaves C (case err of Some er \<Rightarrow> warn er | None \<Rightarrow> yields ()) (\<lambda>_. C)" for C
    by (cases err) (auto intro: looking_leaves looking_intros)
  let ?b = "\<exists>art t. ap_midway x art t"
  have cleaned: "leaves (closed_at x st) (or_warn (cleanup_terminal_delegation_apply_transaction ce (ap_transaction x)))
      (\<lambda>_. truthful_at x)" if ?b "apply_is_terminal st"
    using that closed_truthful
    by (intro leaves_weaken [OF or_warn_leaves [OF cleanup_leaves]]) (auto simp: apply_is_terminal_def)
  have rest: "leaves (if \<exists>a. Inr fin = Inr (Some a) then closed_at x st else applying_at x I)
    (if fin = None then warn (about_apply (ap_transaction x) '' changed during recovery'')
     else if apply_is_terminal st then or_warn (cleanup_terminal_delegation_apply_transaction ce (ap_transaction x))
     else (case err of Some er \<Rightarrow> warn er | None \<Rightarrow> yields ())) (\<lambda>_. truthful_at x)" if ?b for fin
  proof (cases fin)
    case None
    have "leaves (applying_at x I) (warn msg) (\<lambda>_. truthful_at x)" for msg
      by (rule leaves_weaken [OF looking_leaves [where C = "applying_at x I"]]) (auto intro: looking_intros applying_truthful)
    with None show ?thesis by simp
  next
    case (Some a)
    have "leaves (closed_at x st) (case err of Some er \<Rightarrow> warn er | None \<Rightarrow> yields ()) (\<lambda>_. truthful_at x)"
      by (rule leaves_weaken [OF warned [of "closed_at x st"]]) (use that closed_truthful in auto)
    with Some that cleaned show ?thesis by auto
  qed
  have "leaves (applying_at x I) (and_next (finalize_transaction ce (ap_transaction x) owner st err) (\<lambda>finalized.
         if finalized = None then warn (about_apply (ap_transaction x) '' changed during recovery'')
         else if apply_is_terminal st then or_warn (cleanup_terminal_delegation_apply_transaction ce (ap_transaction x))
         else (case err of Some er \<Rightarrow> warn er | None \<Rightarrow> yields ()))) (\<lambda>_. truthful_at x)"
  proof (rule leaves_given)
    show "?b" if "applying_at x I tr art t" for tr art t using that by (auto simp: applying_at_def)
    assume ?b
    then show "leaves (applying_at x I) (and_next (finalize_transaction ce (ap_transaction x) owner st err) (\<lambda>finalized.
         if finalized = None then warn (about_apply (ap_transaction x) '' changed during recovery'')
         else if apply_is_terminal st then or_warn (cleanup_terminal_delegation_apply_transaction ce (ap_transaction x))
         else (case err of Some er \<Rightarrow> warn er | None \<Rightarrow> yields ()))) (\<lambda>_. truthful_at x)"
      by (intro leaves_next [OF finalize_leaves [of I st x, OF holds]] rest) (auto dest: applying_truthful)
  qed
  then show ?thesis unfolding close_recovery_def Let_def st by simp
qed

text \<open>The two worktrees of the operation are those of the application.\<close>

definition rooted :: "command_env \<Rightarrow> application \<Rightarrow> delegations \<Rightarrow> bool" where
  "rooted ce x t \<longleftrightarrow> ap_env x = engine_at ce (ap_destination x) (ap_source x) \<and> ap_destination x \<noteq> ap_source x \<and>
     (\<exists>path. operation_roots (ap_operation x) t = Some (ap_destination x, path) \<and> trim path = ap_source x)"

lemma get_operation_row:
  assumes "get_delegation_worktree_operation e oid t = Inr row"
  shows "row = lookup_by wo_operation_id oid (dl_operations t)"
  using assms
  by (auto simp: get_delegation_worktree_operation_def optional_row_def decode_operation_def and_then_Inr_iff
      split: option.splits sum.splits if_splits)

lemma engine_leaves:
  assumes apart: "ap_destination x \<noteq> ap_source x" "ap_env x = engine_at ce (ap_destination x) (ap_source x)"
    and step: "\<And>T w r w'. applicable (ap_env x) (ap_transaction x) (ap_digest x) (T Artifacts) (ap_manifest x) (ap_dir x) (ap_before x) \<Longrightarrow>
      at_dest (ap_env x) False T (unsettled (ap_env x) (ap_transaction x) (am_files (ap_manifest x)) (ap_before x)) w \<Longrightarrow>
      f (ap_env x) w = (r, w') \<Longrightarrow> at_dest (ap_env x) False T (\<lambda>t. unsettled (ap_env x) (ap_transaction x)
        (am_files (ap_manifest x)) (ap_before x) t \<and> J r t) w'"
  shows "leaves (applying_at x I) (on_roots ce (ap_destination x) (ap_source x) f) (\<lambda>r. applying_at x (J r))"
proof (rule on_roots_leaves [OF apart(1)])
  fix tr art t w r w'
  assume at: "applying_at x I tr art t" and w: "aw_tree w (Worktree SourceSide) = tr (ap_source x)"
    "aw_tree w dest = tr (ap_destination x)" "aw_tree w Artifacts = art"
    and run: "f (engine_at ce (ap_destination x) (ap_source x)) w = (r, w')"
  have mid: "midway_at (ap_env x) (ap_transaction x) (ap_digest x) (ap_manifest x) (ap_dir x) (ap_before x) (ap_delegated x)
      art (tr (ap_destination x))" using at by (simp add: applying_at_def ap_midway_def)
  then have "at_dest (ap_env x) False (aw_tree w) (\<lambda>t. unsettled (ap_env x) (ap_transaction x)
      (am_files (ap_manifest x)) (ap_before x) t \<and> J r t) w'"
    using w run apart(2) by (intro step) (auto simp: midway_at_def at_dest_def)
  then show "aw_tree w' (Worktree SourceSide) = tr (ap_source x) \<and>
      applying_at x (J r) (tr(ap_destination x := aw_tree w' dest)) (aw_tree w' Artifacts) t"
    using at mid w apart(1) by (simp add: applying_at_def ap_midway_def at_dest_def midway_at_def)
qed

lemma recover_destination_leaves:
  assumes "ap_destination x \<noteq> ap_source x" "ap_env x = engine_at ce (ap_destination x) (ap_source x)"
  shows "leaves (applying_at x I)
    (on_roots ce (ap_destination x) (ap_source x) (\<lambda>e. recover_destination e (ap_transaction x) (ap_digest x)))
    (\<lambda>r. applying_at x (case r of Inr st \<Rightarrow> ap_holds x st | Inl _ \<Rightarrow> (\<lambda>_. True)))"
proof (rule engine_leaves [OF assms])
  let ?e = "ap_env x" and ?files = "am_files (ap_manifest x)"
  let ?U = "unsettled ?e (ap_transaction x) ?files (ap_before x)"
  fix T w r w'
  assume a: "applicable ?e (ap_transaction x) (ap_digest x) (T Artifacts) (ap_manifest x) (ap_dir x) (ap_before x)"
    and w: "at_dest ?e False T ?U w" and run: "recover_destination ?e (ap_transaction x) (ap_digest x) w = (r, w')"
  note step = recover_destination_step [where T = T and H = False, OF a]
  show "at_dest ?e False T (\<lambda>t. ?U t \<and> (case r of Inr st \<Rightarrow> ap_holds x st | Inl _ \<Rightarrow> (\<lambda>_. True)) t) w'"
  proof (cases r)
    case (Inl er)
    with triple_Inl [OF step w] run have "failed_at False T ?U w'" by (auto intro: stuck_any)
    with Inl show ?thesis by (simp add: failed_at_def at_dest_def)
  next
    case (Inr st)
    with triple_Inr [OF step w] run have "at_dest ?e False T (state_holds ?e (ap_transaction x) ?files (ap_before x) st) w'" by simp
    with Inr settled_unsettled applicableD(3) [OF a] show ?thesis
      by (auto simp: at_dest_def ap_holds_def state_holds_def)
  qed
qed

lemma recovered_state_leaves:
  assumes "ap_destination x \<noteq> ap_source x" "ap_env x = engine_at ce (ap_destination x) (ap_source x)"
    and "wo_source_root op = ap_destination x" and "trim (wo_worktree_path op) = ap_source x"
  shows "leaves (applying_at x (\<lambda>_. True)) (recovered_state ce op (ap_transaction x) (ap_digest x))
    (\<lambda>r. applying_at x (case r of Inr st \<Rightarrow> ap_holds x st | Inl _ \<Rightarrow> (\<lambda>_. True)))"
proof -
  let ?A = "applying_at x (\<lambda>_. True)"
  have scope: "leaves ?A (validate_delegation_operation_workspace_scope ce (wo_source_root op) op) (\<lambda>_. ?A)"
    by (rule looking_leaves) (rule looking_intros)
  have run: "leaves ?A (admitted ce (on_roots ce (ap_destination x) (ap_source x)
      (\<lambda>e. recover_destination e (ap_transaction x) (ap_digest x))))
    (\<lambda>r. applying_at x (case r of Ran (Inr st) \<Rightarrow> ap_holds x st | _ \<Rightarrow> (\<lambda>_. True)))"
    by (rule admitted_leaves, rule leaves_weaken [OF recover_destination_leaves [OF assms(1,2)]])
      (auto split: sum.splits)
  have last: "leaves (applying_at x (case r of Ran (Inr st) \<Rightarrow> ap_holds x st | _ \<Rightarrow> (\<lambda>_. True)))
    (told (workspace_mutation_error ce r)) (\<lambda>r. applying_at x (case r of Inr st \<Rightarrow> ap_holds x st | Inl _ \<Rightarrow> (\<lambda>_. True)))" for r
    by (rule leaves_told) (auto simp: workspace_mutation_error_def applying_at_def split: admission.splits sum.splits)
  show ?thesis
    unfolding recovered_state_def assms(3,4)
    by (rule leaves_next [OF scope [unfolded assms(3)]], simp, rule leaves_trying [OF run], rule last)
qed

text \<open>No transaction has the directory of the locks: a UUID is not called \<open>.locks\<close>.\<close>

definition uuids_apart :: "apply_env \<Rightarrow> bool" where
  "uuids_apart e \<longleftrightarrow> (\<forall>v. ae_uuid e v \<longrightarrow> normal_names v \<noteq> [lit ''.locks''])"

lemma transaction_dir_apart:
  assumes "transaction_dir e tid = Inr dir" and "uuids_apart e" and "prefix dir q"
  shows "\<not> prefix locks_dir q"
proof -
  from assms(1) obtain n where n: "components tid = [Normal n]" "dir = [n]" and u: "ae_uuid e tid"
    by (auto simp: transaction_dir_def and_then_Inr_iff validate_transaction_id_def require_def
        split: list.splits path_component.splits if_splits)
  have "normal_names tid = [n]" using n(1) by (simp add: normal_names_def List.map_filter_def)
  with assms(2,3) u n(2) show ?thesis by (auto simp: uuids_apart_def locks_dir_def prefix_def)
qed

lemma lock_operation_leaves:
  assumes "uuids_apart (ap_env x)"
  shows "leaves (\<lambda>tr art t. J t \<and> applying_at x I tr art t) (lock_operation ce oid)
    (\<lambda>_ tr art t. J t \<and> applying_at x I tr art t)"
  unfolding lock_operation_def
proof (rule engine_says_leaves [where D' = "\<lambda>_ tr art t. J t \<and> applying_at x I tr art t"], rule on_artifacts_leaves)
  fix tr art t w r w'
  assume at: "J t \<and> applying_at x I tr art t" and w: "aw_tree w Artifacts = art"
    and run: "try_lock_apply_operation (ce_engine ce) oid w = (r, w')"
  let ?m = "ap_manifest x"
  have mid: "midway_at (ap_env x) (ap_transaction x) (ap_digest x) ?m (ap_dir x) (ap_before x) (ap_delegated x)
      art (tr (ap_destination x))" using at by (simp add: applying_at_def ap_midway_def)
  then have st: "stored_manifest (ap_env x) (ap_transaction x) (ap_digest x) art ?m (ap_dir x)"
    by (simp add: midway_at_def applicable_def)
  have "apart_from_locks art (aw_tree w)" using st w by (simp add: apart_from_locks_def stored_manifest_def)
  from keepsD [OF keeps_lock this run] have kept: "\<forall>q. \<not> prefix locks_dir q \<longrightarrow> aw_tree w' Artifacts q = art q"
    by (simp add: apart_from_locks_def)
  have "same_below (ap_dir x) art (aw_tree w' Artifacts)"
    using kept transaction_dir_apart [OF _ assms] st
    by (auto simp: same_below_def stored_manifest_def locks_dir_def)
  with mid applicable_below show "J t \<and> applying_at x I tr (aw_tree w' Artifacts) t"
    using at by (auto simp: applying_at_def ap_midway_def midway_at_def)
qed auto

lemma recover_applying_leaves:
  assumes tid: "at_transaction_id tx = ap_transaction x"
  shows "leaves (\<lambda>tr art t. rooted ce x t \<and> applying_at x (\<lambda>_. True) tr art t) (recover_applying ce tx)
    (\<lambda>_. truthful_at x)"
proof -
  let ?A = "applying_at x (\<lambda>_. True)"
  let ?J = "\<lambda>tr art t. rooted ce x t \<and> operation_state (ap_operation x) t = Some WtApplying"
  let ?C = "\<lambda>tr art t. ?J tr art t \<and> named_at x ApApplying tr art t"
  have eq: "(\<lambda>tr art t. rooted ce x t \<and> ?A tr art t) = ?C"
    by (auto simp: applying_at_def named_at_def fun_eq_iff)
  have weak: "?C tr art t \<Longrightarrow> truthful_at x tr art t" for tr art t
    by (rule applying_truthful [of x "\<lambda>_. True"]) (simp add: applying_at_def named_at_def)
  have claim: "leaves ?C (claim_transaction ce (ap_transaction x))
    (\<lambda>r. case r of Inr (_, Some a) \<Rightarrow> (\<lambda>tr art t. claim_of x a \<and> rooted ce x t \<and> ?A tr art t) | _ \<Rightarrow> ?C)"
    by (rule claim_leaves) (auto simp: rooted_def claimed_roots)
  have warned: "leaves C (warn msg) (\<lambda>_. truthful_at x)" if "\<And>tr art t. C tr art t \<Longrightarrow> truthful_at x tr art t" for C msg
    by (rule leaves_weaken [OF looking_leaves [where C = C]]) (auto intro: looking_intros that)
  have recover: "leaves ?A (trying (recovered_state ce op (ap_transaction x) (ap_digest x))
      (close_recovery ce (ap_transaction x) owner)) (\<lambda>_. truthful_at x)"
    if "rooted ce x t" "lookup_by wo_operation_id (ap_operation x) (dl_operations t) = Some op" for op owner t
  proof (rule leaves_trying [OF recovered_state_leaves])
    show "leaves (applying_at x (case r of Inr st \<Rightarrow> ap_holds x st | Inl _ \<Rightarrow> (\<lambda>_. True)))
      (close_recovery ce (ap_transaction x) owner r) (\<lambda>_. truthful_at x)" for r
      by (rule close_recovery_leaves) simp
  qed (use that in \<open>auto simp: rooted_def operation_roots_def\<close>)
  have row: "leaves (\<lambda>tr art t. rooted ce x t \<and> ?A tr art t)
      (journal ce (reading (get_delegation_worktree_operation (ce_journal ce) (ap_operation x))))
      (\<lambda>r. case r of Inr (Some op) \<Rightarrow> (\<lambda>tr art t. (\<exists>t. rooted ce x t \<and>
           lookup_by wo_operation_id (ap_operation x) (dl_operations t) = Some op) \<and> ?A tr art t)
        | _ \<Rightarrow> ?A)"
    by (rule journal_leaves) (auto simp: reading_def and_then_Inr_iff dest!: get_operation_row split: option.splits)
  have rest: "leaves (\<lambda>tr art t. claim_of x a \<and> rooted ce x t \<and> ?A tr art t) (recover_claimed ce owner a)
    (\<lambda>_. truthful_at x)" for a owner
  proof (rule leaves_fact)
    assume "claim_of x a"
    then have a: "at_transaction_id a = ap_transaction x" "at_operation_id a = ap_operation x"
      "at_manifest_digest a = Some (ap_digest x)" by (simp_all add: claim_of_def)
    have "leaves (case row of Some op \<Rightarrow> (\<lambda>tr art t. (\<exists>t. rooted ce x t \<and>
           lookup_by wo_operation_id (ap_operation x) (dl_operations t) = Some op) \<and> ?A tr art t) | None \<Rightarrow> ?A)
      (case row of None \<Rightarrow> warn (about_apply (ap_transaction x) '' has no worktree operation'')
         | Some op \<Rightarrow> trying (recovered_state ce op (ap_transaction x) (ap_digest x)) (close_recovery ce (ap_transaction x) owner))
      (\<lambda>_. truthful_at x)" for row
      by (cases row) (auto intro!: warned leaves_fact recover dest: applying_truthful)
    note last = this
    show "leaves (\<lambda>tr art t. rooted ce x t \<and> ?A tr art t) (recover_claimed ce owner a) (\<lambda>_. truthful_at x)"
      unfolding recover_claimed_def a option.case
      by (rule leaves_next [OF row]) (use last in \<open>auto dest: applying_truthful\<close>)
  qed
  show ?thesis
    unfolding recover_applying_def tid eq
    by (rule leaves_next [OF claim]) (auto intro!: rest warned weak split: option.splits)
qed

section \<open>Recovery tells the truth\<close>

lemma recover_transaction_leaves:
  assumes tx: "at_transaction_id tx = ap_transaction x" "at_state tx = ApApplying" and apart: "uuids_apart (ap_env x)"
  shows "leaves (\<lambda>tr art t. rooted ce x t \<and> applying_at x (\<lambda>_. True) tr art t) (recover_transaction ce tx)
    (\<lambda>_. truthful_at x)"
proof -
  let ?C = "\<lambda>tr art t. rooted ce x t \<and> applying_at x (\<lambda>_. True) tr art t"
  have lock: "leaves ?C (lock_operation ce (at_operation_id tx)) (\<lambda>_. ?C)"
    by (rule lock_operation_leaves [OF apart])
  have "leaves ?C (warn msg) (\<lambda>_. truthful_at x)" for msg
    by (rule leaves_weaken [OF looking_leaves [where C = ?C]]) (auto intro: looking_intros applying_truthful)
  with recover_applying_leaves [OF tx(1)] show ?thesis
    unfolding recover_transaction_def tx(2) apply_state.case
    by (intro leaves_next [OF lock] leaves_if) (auto intro: applying_truthful)
qed

text \<open>
  C40: What the journal says after a recovery is what is there. A process died while it applied a
  delegation, or left it applying, with the destination anywhere between its files and the delegated
  ones. After the recovery of its transaction, whichever calls fail and wherever the process dies again:
  if the operation waits for review, the destination has the files it had; if it is applied, it has the
  files of the delegation; and as long as it is neither, the row still names the manifest, the artifacts
  still hold both files of every path, and the destination is between them.
\<close>

theorem recovery_tells_the_truth:
  assumes "tables_kept (cw_tables S)"
    and "lookup_by at_transaction_id tid (dl_applies (cw_tables S)) = Some tx"
    and "at_state tx = ApApplying" and "at_manifest_digest tx = Some digest"
    and "lookup_by wo_operation_id (at_operation_id tx) (dl_operations (cw_tables S)) = Some op"
    and "wo_state op = WtApplying" and "wo_source_root op = d" and "trim (wo_worktree_path op) = s" and "d \<noteq> s"
    and "in_between (engine_at ce d s) tid digest ps before (cw_trees S s) (cw_artifacts S) (cw_trees S d)"
    and "uuids_apart (engine_at ce d s)"
    and "recover_transaction ce tx S = (r, S')"
  shows "journal_truthful (engine_at ce d s) (at_operation_id tx) tid digest ps before (cw_trees S s)
      (cw_trees S' d) (cw_artifacts S') (cw_tables S')"
proof -
  obtain m dir where m: "map fa_path (am_files m) = ps"
      "midway_at (engine_at ce d s) tid digest m dir before (cw_trees S s) (cw_artifacts S) (cw_trees S d)"
    using assms(10) by (auto simp: in_between_def)
  define x where "x = \<lparr>ap_env = engine_at ce d s, ap_operation = at_operation_id tx, ap_transaction = tid,
    ap_digest = digest, ap_destination = d, ap_source = s, ap_manifest = m, ap_dir = dir, ap_before = before,
    ap_delegated = cw_trees S s\<rparr>"
  have tid: "at_transaction_id tx = tid" using assms(2) by (auto dest: lookup_by_SomeD)
  have "held (\<lambda>tr art t. rooted ce x t \<and> applying_at x (\<lambda>_. True) tr art t) S"
    using assms(1-9) m by (auto simp: held_def rooted_def applying_at_def ap_midway_def x_def operation_roots_def
        operation_state_def names_manifest_def)
  from leavesD [OF recover_transaction_leaves this assms(12)] tid assms(3,11)
  have "held (truthful_at x) S'" by (simp add: x_def)
  then show ?thesis by (simp add: held_def truthful_at_def x_def m(1))
qed

end
