(* ===== verification/Apply_Command_Apply.thy ===== *)
theory Apply_Command_Apply
  imports Apply_Command_Props
begin

text \<open>
  Applying a delegation: from the operation that waits for review to its end, whichever calls fail. The
  steps follow the command: the checks, the frozen manifest, the claim, the engine, the journal.
\<close>

section \<open>The paths Git lists\<close>

text \<open>The paths Git reports as changed in the delegation's worktree, tracked or not.\<close>

definition git_changes :: "apply_env \<Rightarrow> fs_tree \<Rightarrow> rstr list \<Rightarrow> bool" where
  "git_changes e ts ps \<longleftrightarrow>
     (\<exists>tracked untracked. ps = remdups_adj (sort (tracked @ untracked)) \<and>
        git_lists e SourceSide [''diff'', ''HEAD'', ''--no-renames'', ''--name-only'', ''-z''] ts tracked \<and>
        git_lists e SourceSide [''ls-files'', ''--others'', ''--exclude-standard'', ''-z''] ts untracked)"

text \<open>They are paths of files, apart from each other.\<close>

definition git_paths_ok :: "apply_env \<Rightarrow> fs_tree \<Rightarrow> fs_tree \<Rightarrow> bool" where
  "git_paths_ok e td ts \<longleftrightarrow>
     (\<forall>ps tid. git_changes e ts ps \<longrightarrow> ae_uuid e tid \<longrightarrow> paths_apart e tid ps \<and> no_temps e tid ps td)"

lemma git_output_Inr:
  "git_output e side args w = (Inr out, w') \<Longrightarrow> ae_git e side args (aw_tree w (Worktree side)) = GitExit (Some 0) out"
  by (auto simp: git_output_def asking_def run_git_def refuse_Inr give_Inr split: git_answer.splits if_splits)

lemma prepare_lists:
  assumes "prepare_apply_artifacts e tid w = (Inr prep, w')"
  shows "ae_uuid e tid \<and> git_changes e (aw_tree w (Worktree SourceSide)) (pa_changed_files prep)"
  using assms
proof (cases rule: prepare_runs)
  case (1 dir source destination ps w1)
  from 1(7) obtain tracked untracked v1 v2 v3 where ps: "ps = remdups_adj (sort (tracked @ untracked))"
    and lists: "tracked_changed_paths e SourceSide v1 = (Inr tracked, v2)" "untracked_paths e SourceSide v2 = (Inr untracked, v3)"
    and v1: "\<forall>side. aw_tree v1 (Worktree side) = aw_tree w (Worktree side)" by blast
  have v2: "aw_tree v2 = aw_tree v1" using quietD [OF quiet_paths(1) lists(1)] by blast
  have "git_lists e SourceSide [''diff'', ''HEAD'', ''--no-renames'', ''--name-only'', ''-z''] (aw_tree v1 (Worktree SourceSide)) tracked"
    using lists(1) unfolding tracked_changed_paths_def git_lists_def
    by (auto elim!: then_do_Inr simp: act_Inr dest!: git_output_Inr)
  moreover have "git_lists e SourceSide [''ls-files'', ''--others'', ''--exclude-standard'', ''-z''] (aw_tree v2 (Worktree SourceSide)) untracked"
    using lists(2) unfolding untracked_paths_def git_lists_def
    by (auto elim!: then_do_Inr simp: act_Inr dest!: git_output_Inr)
  ultimately show ?thesis
    using freeze_manifest_paths [OF 1(1)] ps v1 v2 transaction_dir_single(2) [OF 1(3)]
    by (auto simp: git_changes_def)
qed

section \<open>Freezing\<close>

text \<open>The operation waits for review, and the two worktrees are as they were found.\<close>

definition open_at :: "application \<Rightarrow> condition" where
  "open_at x tr art t \<longleftrightarrow> tables_kept t \<and> operation_state (ap_operation x) t = Some WtReviewPending \<and>
     tr (ap_destination x) = ap_before x \<and> tr (ap_source x) = ap_delegated x"

text \<open>What the theorems assume of an application that begins.\<close>

definition ready :: "command_env \<Rightarrow> application \<Rightarrow> bool" where
  "ready ce x \<longleftrightarrow> ap_env x = engine_at ce (ap_destination x) (ap_source x) \<and> ap_destination x \<noteq> ap_source x \<and>
     tree_ok (ap_before x) \<and> tree_ok (ap_delegated x) \<and> git_paths_ok (ap_env x) (ap_before x) (ap_delegated x) \<and>
     (\<forall>bs. length (ae_sha256 (ap_env x) bs) = 32) \<and> (\<forall>m. ae_parse (ap_env x) (ae_json (ap_env x) m) = Some m)"

text \<open>Only the transaction, its digest and its manifest are chosen on the way.\<close>

definition chosen :: "application \<Rightarrow> rstr \<Rightarrow> rstr \<Rightarrow> apply_manifest \<Rightarrow> fs_path \<Rightarrow> application" where
  "chosen x tid digest m dir = x\<lparr>ap_transaction := tid, ap_digest := digest, ap_manifest := m, ap_dir := dir\<rparr>"

lemma chosen_simps [simp]:
  "ap_env (chosen x tid digest m dir) = ap_env x" "ap_operation (chosen x tid digest m dir) = ap_operation x"
  "ap_destination (chosen x tid digest m dir) = ap_destination x" "ap_source (chosen x tid digest m dir) = ap_source x"
  "ap_before (chosen x tid digest m dir) = ap_before x" "ap_delegated (chosen x tid digest m dir) = ap_delegated x"
  "ap_transaction (chosen x tid digest m dir) = tid" "ap_digest (chosen x tid digest m dir) = digest"
  "ap_manifest (chosen x tid digest m dir) = m" "ap_dir (chosen x tid digest m dir) = dir"
  by (simp_all add: chosen_def)

lemma open_truthful: "open_at x tr art t \<Longrightarrow> truthful_at x tr art t"
  by (simp add: open_at_def truthful_at_def journal_truthful_def restored_refl)

lemma open_chosen [simp]: "open_at (chosen x tid digest m dir) = open_at x"
  by (simp add: open_at_def fun_eq_iff)

text \<open>A manifest that was frozen for a new transaction: it has the files Git listed, and some.\<close>

definition listed :: "application \<Rightarrow> rstr \<Rightarrow> apply_manifest \<Rightarrow> bool" where
  "listed x tid m \<longleftrightarrow> ae_uuid (ap_env x) tid \<and> am_files m \<noteq> [] \<and>
     git_changes (ap_env x) (ap_delegated x) (map fa_path (am_files m))"

lemma prepare_leaves:
  assumes "ready ce x"
  shows "leaves (open_at x) (on_roots ce (ap_destination x) (ap_source x) (\<lambda>e. prepare_apply_artifacts e tid))
    (\<lambda>r tr art t. open_at x tr art t \<and> (\<forall>prep. r = Inr prep \<longrightarrow>
       (\<exists>m dir. listed x tid m \<and> ap_midway (chosen x tid (pa_manifest_digest prep) m dir) art (tr (ap_destination x)))))"
proof (rule on_roots_leaves)
  show "ap_destination x \<noteq> ap_source x" using assms by (simp add: ready_def)
  fix tr art t w r w'
  assume at: "open_at x tr art t" and w: "aw_tree w (Worktree SourceSide) = tr (ap_source x)"
    "aw_tree w dest = tr (ap_destination x)" "aw_tree w Artifacts = art"
    and run: "prepare_apply_artifacts (engine_at ce (ap_destination x) (ap_source x)) tid w = (r, w')"
  let ?e = "ap_env x"
  have e: "engine_at ce (ap_destination x) (ap_source x) = ?e" using assms by (simp add: ready_def)
  note run = run [unfolded e]
  have same: "aw_tree w' (Worktree side) = aw_tree w (Worktree side)" for side
    using same_worktreesD [OF spares_prepare run] .
  have mid: "\<exists>m dir. listed x tid m \<and> ap_midway (chosen x tid (pa_manifest_digest prep) m dir) (aw_tree w' Artifacts) (aw_tree w' dest)"
    if "r = Inr prep" for prep
  proof -
    note lists = prepare_lists [OF run [unfolded that]]
    have "paths_apart ?e tid (pa_changed_files prep) \<and> no_temps ?e tid (pa_changed_files prep) (aw_tree w dest)"
      using lists assms at w unfolding ready_def git_paths_ok_def open_at_def by auto
    moreover have "tree_ok (aw_tree w dest)" "tree_ok (aw_tree w (Worktree SourceSide))"
      using assms at w by (simp_all add: ready_def open_at_def)
    moreover have "\<forall>bs. length (ae_sha256 ?e bs) = 32" "\<forall>m. ae_parse ?e (ae_json ?e m) = Some m"
      using assms unfolding ready_def by blast+
    ultimately have prep: "prepared_in ?e tid w prep w'"
      unfolding prepared_in_def using run that by blast
    obtain m dir where a: "applicable ?e tid (pa_manifest_digest prep) (aw_tree w' Artifacts) m dir (aw_tree w dest)"
      and pre: "all_pre ?e (am_files m) (aw_tree w dest)" and post: "all_post ?e (am_files m) (aw_tree w (Worktree SourceSide))"
      and paths: "map fa_path (am_files m) = pa_changed_files prep"
      and fresh: "tree_ok (aw_tree w dest)" "no_temps ?e tid (map fa_path (am_files m)) (aw_tree w dest)"
      by (rule prepared_inE [OF prep])
    have "listed x tid m"
      using lists paths applicableD(3) [OF a] at w by (simp add: listed_def open_at_def)
    moreover from unsettled_start [OF a fresh(1) pre fresh(2)] have "ap_midway (chosen x tid (pa_manifest_digest prep) m dir)
        (aw_tree w' Artifacts) (aw_tree w' dest)"
      using a pre post fresh same at w by (simp add: ap_midway_def midway_at_def open_at_def)
    ultimately show ?thesis by blast
  qed
  show "aw_tree w' (Worktree SourceSide) = tr (ap_source x) \<and>
    open_at x (tr(ap_destination x := aw_tree w' dest)) (aw_tree w' Artifacts) t \<and> (\<forall>prep. r = Inr prep \<longrightarrow>
       (\<exists>m dir. listed x tid m \<and> ap_midway (chosen x tid (pa_manifest_digest prep) m dir) (aw_tree w' Artifacts)
          ((tr(ap_destination x := aw_tree w' dest)) (ap_destination x))))"
    using same at w mid by (auto simp: open_at_def)
qed

lemma leaves_journal_open:
  assumes "\<And>t y t'. tables_kept t \<Longrightarrow> call t = Inr (y, t') \<Longrightarrow> tables_kept t' \<and> dl_operations t' = dl_operations t"
  shows "leaves (open_at x) (journal ce call) (\<lambda>_. open_at x)"
  by (rule journal_leaves) (auto simp: open_at_def operation_state_def dest: assms)

lemma swap_open: "leaves (open_at x) (swap_transaction ce expected tx) (\<lambda>_. open_at x)"
  unfolding swap_transaction_def by (rule leaves_journal_open) (blast intro: swapped_rows)

lemma cleanup_open: "leaves (open_at x) (cleanup_terminal_delegation_apply_transaction ce tid) (\<lambda>_. open_at x)"
proof -
  have gone: "tables_kept t' \<and> dl_operations t' = dl_operations t"
    if "tables_kept t" "Inr (delete_terminal_delegation_apply_transaction tid t) = (Inr (b, t') :: core_error + _)" for b t t'
    using deleted_rows [OF that(1), of tid] that(2) by simp
  have art: "open_at x tr art t \<Longrightarrow> open_at x tr art' t" for tr art art' t by (simp add: open_at_def)
  show ?thesis
    unfolding cleanup_terminal_delegation_apply_transaction_def
    by (intro leaves_next [where R = "\<lambda>_. open_at x"] engine_says_leaves [where D' = "\<lambda>_. open_at x"]
        on_artifacts_leaves leaves_yields leaves_journal_open)
      (auto intro: art dest: gone)
qed

lemma give_up_leaves: "leaves (open_at x) (give_up ce tx er) (\<lambda>r tr art t. open_at x tr art t \<and> (\<exists>er. r = Inl er))"
  unfolding give_up_def
  by (rule leaves_next [OF looking_leaves], rule looking_intros, blast, rule leaves_trying [OF swap_open],
    rule leaves_trying [OF cleanup_open], rule leaves_fails, blast)

text \<open>The manifest is frozen, and the transaction is prepared.\<close>

definition frozen_at :: "application \<Rightarrow> rstr \<Rightarrow> condition" where
  "frozen_at x tid tr art t \<longleftrightarrow> open_at x tr art t \<and>
     (\<exists>digest m dir. listed x tid m \<and> named_at (chosen x tid digest m dir) ApPrepared tr art t)"

lemma swapped_at:
  assumes at: "open_at x tr art t" and m: "listed x tid m"
    and mid: "ap_midway (chosen x tid (pa_manifest_digest prep) m dir) art (tr (ap_destination x))"
    and tx: "at_transaction_id tx = tid" "at_operation_id tx = ap_operation x"
    and run: "compare_and_swap_delegation_apply_transaction e expected (prepared_transaction tx prep now) t = Inr (b, t')"
  shows "if b then frozen_at x tid tr art t' else open_at x tr art t'"
proof -
  have kept: "tables_kept t" using at by (simp add: open_at_def)
  note rows = swapped_rows [OF kept run]
  have now: "open_at x tr art t'" using rows(1,2) at by (simp add: open_at_def operation_state_def)
  have "named_at (chosen x tid (pa_manifest_digest prep) m dir) ApPrepared tr art t'" if b
    using rows(1) rows(3) [OF that] mid at tx
    by (auto simp: named_at_def names_manifest_def open_at_def prepared_transaction_def swapped_apply_def)
  with now m show ?thesis by (auto simp: frozen_at_def)
qed

text \<open>A preparation that has returned.\<close>

definition preparing_at :: "application \<Rightarrow> rstr \<Rightarrow> (apply_error + prepared_apply) admission \<Rightarrow> condition" where
  "preparing_at x tid r tr art t \<longleftrightarrow> open_at x tr art t \<and> (\<forall>prep. r = Ran (Inr prep) \<longrightarrow>
     (\<exists>m dir. listed x tid m \<and> ap_midway (chosen x tid (pa_manifest_digest prep) m dir) art (tr (ap_destination x))))"

definition frozen_or_open :: "application \<Rightarrow> rstr + rstr \<Rightarrow> condition" where
  "frozen_or_open x r = (case r of Inr tid \<Rightarrow> frozen_at x tid | Inl _ \<Rightarrow> open_at x)"

lemma fails_open: "leaves (open_at x) (fails er) (frozen_or_open x)"
  by (rule leaves_fails) (simp add: frozen_or_open_def)

lemma give_up_open: "leaves (preparing_at x tid r) (give_up ce tx er) (frozen_or_open x)"
  by (rule leaves_weaken [OF give_up_leaves [of x]]) (auto simp: preparing_at_def frozen_or_open_def)

lemma record_manifest_leaves:
  assumes tx: "at_transaction_id tx = tid" "at_operation_id tx = ap_operation x"
  shows "leaves (preparing_at x tid (Ran (Inr prep))) (record_manifest ce tx prep) (frozen_or_open x)"
proof -
  let ?P = "preparing_at x tid (Ran (Inr prep))"
  have swap: "leaves ?P (swap_transaction ce ApPreparing (prepared_transaction tx prep now))
    (\<lambda>r. case r of Inr True \<Rightarrow> frozen_at x tid | _ \<Rightarrow> open_at x)" for now
    unfolding swap_transaction_def
  proof (rule journal_leaves)
    fix tr art t b t' assume P: "?P tr art t"
      and run: "compare_and_swap_delegation_apply_transaction (ce_journal ce) ApPreparing
        (prepared_transaction tx prep now) t = Inr (b, t')"
    then obtain m dir where "open_at x tr art t" "listed x tid m"
        "ap_midway (chosen x tid (pa_manifest_digest prep) m dir) art (tr (ap_destination x))"
      by (auto simp: preparing_at_def)
    from swapped_at [OF this tx run] show "(case Inr b of Inr True \<Rightarrow> frozen_at x tid | _ \<Rightarrow> open_at x) tr art t'"
      by (cases b) auto
  qed (simp add: preparing_at_def)
  have told: "leaves (case Inr b of Inr True \<Rightarrow> frozen_at x tid | _ \<Rightarrow> open_at x)
    (if \<not> b then fails (lit ''delegation apply manifest was prepared but its journal changed'')
     else yields (at_transaction_id tx)) (frozen_or_open x)" for b
    using tx(1) by (cases b) (auto intro: fails_open leaves_yields simp: frozen_or_open_def)
  have "leaves ?P (fails er) (frozen_or_open x)" for er
    by (rule leaves_fails) (simp add: preparing_at_def frozen_or_open_def)
  then show ?thesis
    unfolding record_manifest_def
    by (intro leaves_if) (assumption, rule leaves_next [OF looking_leaves], rule looking_intros,
      simp add: preparing_at_def frozen_or_open_def, rule leaves_next [OF swap], simp add: frozen_or_open_def, rule told)
qed

lemma freeze_delegation_leaves:
  assumes "ready ce x" and "wo_operation_id op = ap_operation x"
  shows "leaves (open_at x) (freeze_delegation ce op (ap_destination x) (ap_source x) did) (frozen_or_open x)"
proof -
  have create: "leaves (open_at x) (create_transaction ce tx) (\<lambda>_. open_at x)" for tx
    unfolding create_transaction_def
    by (rule leaves_journal_open) (auto elim!: and_then_InrE dest: created_rows)
  have run: "leaves (open_at x) (admitted ce (on_roots ce (ap_destination x) (ap_source x) (\<lambda>e. prepare_apply_artifacts e tid)))
    (preparing_at x tid)" for tid
    by (rule admitted_leaves, rule leaves_weaken [OF prepare_leaves [OF assms(1)]]) (auto simp: preparing_at_def)
  have after: "leaves (preparing_at x tid r) (case workspace_mutation_error ce r of
          Inl er \<Rightarrow> give_up ce (new_apply_transaction tid op did now) er
        | Inr prep \<Rightarrow>
            (case journal_identity_error op prep of
               Some er \<Rightarrow> give_up ce (new_apply_transaction tid op did now) er
             | None \<Rightarrow> record_manifest ce (new_apply_transaction tid op did now) prep)) (frozen_or_open x)" for r tid now
  proof (cases "workspace_mutation_error ce r")
    case (Inr prep)
    then have "r = Ran (Inr prep)"
      by (auto simp: workspace_mutation_error_def map_sum_def split: admission.splits sum.splits)
    with Inr assms(2) show ?thesis
      by (auto simp: new_apply_transaction_def intro!: give_up_open record_manifest_leaves split: option.split)
  qed (auto intro: give_up_open)
  show ?thesis
    unfolding freeze_delegation_def Let_def
    by (rule leaves_next [OF looking_leaves], rule looking_intros, simp add: frozen_or_open_def,
      rule leaves_next [OF looking_leaves], rule looking_intros, simp add: frozen_or_open_def,
      rule leaves_next [OF create], simp add: frozen_or_open_def, rule leaves_trying [OF run], rule after)
qed

section \<open>Applying the frozen manifest\<close>

text \<open>The journal is truthful, and a result is the list of the paths that were installed.\<close>

definition ends_at :: "application \<Rightarrow> rstr + rstr list \<Rightarrow> condition" where
  "ends_at x r tr art t \<longleftrightarrow> truthful_at x tr art t \<and> (\<forall>out. r = Inr out \<longrightarrow>
     operation_state (ap_operation x) t = Some WtApplied \<and> out = map fa_path (am_files (ap_manifest x)))"

lemma fails_ends: "(\<And>tr art t. C tr art t \<Longrightarrow> truthful_at x tr art t) \<Longrightarrow> leaves C (fails er) (ends_at x)"
  by (rule leaves_fails) (simp add: ends_at_def)

lemma record_failure_leaves:
  assumes "\<And>t. I t \<Longrightarrow> st = ApRecoveryRequired \<or> ap_holds x st t" and "st \<in> {ApRolledBack, ApRecoveryRequired}"
  shows "leaves (applying_at x I) (record_failure ce (ap_transaction x) owner st er) (ends_at x)"
proof (rule leaves_given)
  let ?b = "\<exists>art t. ap_midway x art t"
  show ?b if "applying_at x I tr art t" for tr art t using that by (auto simp: applying_at_def)
  assume ?b
  then have closed: "closed_at x st tr art t \<Longrightarrow> truthful_at x tr art t" for tr art t using closed_truthful by blast
  have "leaves (if \<exists>a. Inr fin = Inr (Some a) then closed_at x st else applying_at x I)
    (if fin = None then fails (er @ lit ''; the transactional journal also needs recovery'')
     else if st = ApRolledBack then trying (cleanup_terminal_delegation_apply_transaction ce (ap_transaction x)) (\<lambda>_. fails er)
     else fails er) (ends_at x)" for fin :: "apply_transaction option"
    using cleanup_leaves [of st x ce "ap_transaction x"]
    by (cases fin) (auto intro!: fails_ends leaves_trying intro: applying_truthful closed)
  then show "leaves (applying_at x I) (record_failure ce (ap_transaction x) owner st er) (ends_at x)"
    unfolding record_failure_def
    by (intro leaves_next [OF finalize_leaves [of I st x, OF assms(1)]]) (auto simp: ends_at_def dest: applying_truthful)
qed

lemma record_success_leaves:
  assumes "\<And>t. I t \<Longrightarrow> ap_holds x ApApplied t" and "ao_changed_files out = map fa_path (am_files (ap_manifest x))"
  shows "leaves (applying_at x I) (record_success ce (ap_transaction x) owner out) (ends_at x)"
proof (rule leaves_given)
  let ?b = "\<exists>art t. ap_midway x art t"
  show ?b if "applying_at x I tr art t" for tr art t using that by (auto simp: applying_at_def)
  assume ?b
  then have "closed_at x ApApplied tr art t \<Longrightarrow> truthful_at x tr art t" for tr art t using closed_truthful by blast
  then have closed: "closed_at x ApApplied tr art t \<Longrightarrow> ends_at x (Inr (ao_changed_files out)) tr art t" for tr art t
    using assms(2) by (simp add: ends_at_def) (simp add: closed_at_def outcome_state_def)
  have "leaves (if \<exists>a. Inr fin = Inr (Some a) then closed_at x ApApplied else applying_at x I)
    (if fin = None then fails (lit ''delegation changes match the postimage but the journal needs recovery'')
     else trying (cleanup_terminal_delegation_apply_transaction ce (ap_transaction x)) (\<lambda>_. yields (ao_changed_files out)))
    (ends_at x)" for fin :: "apply_transaction option"
    using cleanup_leaves [of ApApplied x ce "ap_transaction x"]
    by (cases fin) (auto intro!: fails_ends leaves_trying leaves_yields intro: applying_truthful closed)
  then show "leaves (applying_at x I) (record_success ce (ap_transaction x) owner out) (ends_at x)"
    unfolding record_success_def using assms(1)
    by (intro leaves_next [OF finalize_leaves [of I ApApplied x]]) (auto simp: ends_at_def dest: applying_truthful)
qed

text \<open>What holds of the destination after the engine's run, by its result.\<close>

definition ran_to ::
    "application \<Rightarrow> (transactional_apply_failure + apply_output) admission \<Rightarrow> fs_tree \<Rightarrow> bool" where
  "ran_to x r t \<longleftrightarrow>
     (case r of
        Ran (Inr out) \<Rightarrow> ap_holds x ApApplied t \<and> out = output_of (ap_manifest x)
      | Ran (Inl (RolledBackFailure _)) \<Rightarrow> ap_holds x ApRolledBack t
      | _ \<Rightarrow> True)"

lemma engine_apply_leaves:
  assumes "ap_destination x \<noteq> ap_source x" "ap_env x = engine_at ce (ap_destination x) (ap_source x)"
  shows "leaves (applying_at x I) (admitted ce (on_roots ce (ap_destination x) (ap_source x)
      (\<lambda>e. apply_or_roll_back e (ap_transaction x) (ap_digest x)))) (\<lambda>r. applying_at x (ran_to x r))"
proof (rule admitted_leaves, rule engine_leaves [OF assms])
  let ?e = "ap_env x" and ?files = "am_files (ap_manifest x)"
  let ?U = "unsettled ?e (ap_transaction x) ?files (ap_before x)"
  fix T w r w'
  assume a: "applicable ?e (ap_transaction x) (ap_digest x) (T Artifacts) (ap_manifest x) (ap_dir x) (ap_before x)"
    and w: "at_dest ?e False T ?U w" and run: "apply_or_roll_back ?e (ap_transaction x) (ap_digest x) w = (r, w')"
  have uns: "state_holds ?e (ap_transaction x) ?files (ap_before x) st t \<Longrightarrow> ?U t" for st t
    using settled_unsettled applicableD(3) [OF a] by (auto simp: state_holds_def)
  from apply_or_roll_back_step [where T = T, OF a, of w] run w
  show "at_dest ?e False T (\<lambda>t. ?U t \<and> ran_to x (Ran r) t) w'"
    by (auto simp: at_dest_def ran_to_def ap_holds_def uns
        split: sum.splits transactional_apply_failure.splits)
qed (auto simp: applying_at_def ran_to_def)

lemma rollback_leaves:
  assumes "ap_destination x \<noteq> ap_source x" "ap_env x = engine_at ce (ap_destination x) (ap_source x)"
  shows "leaves (applying_at x I) (admitted ce (on_roots ce (ap_destination x) (ap_source x)
      (\<lambda>e. rollback_apply_artifacts e (ap_transaction x) (ap_digest x))))
    (\<lambda>r. applying_at x (\<lambda>t. (\<exists>u. r = Ran (Inr u)) \<longrightarrow> ap_holds x ApRolledBack t))"
proof (rule admitted_leaves, rule engine_leaves [OF assms])
  let ?e = "ap_env x" and ?files = "am_files (ap_manifest x)"
  let ?U = "unsettled ?e (ap_transaction x) ?files (ap_before x)"
  fix T w r w'
  assume a: "applicable ?e (ap_transaction x) (ap_digest x) (T Artifacts) (ap_manifest x) (ap_dir x) (ap_before x)"
    and w: "at_dest ?e False T ?U w" and run: "rollback_apply_artifacts ?e (ap_transaction x) (ap_digest x) w = (r, w')"
  note step = rollback_step [where T = T and H = False, OF a]
  show "at_dest ?e False T (\<lambda>t. ?U t \<and> ((\<exists>u. Ran r = Ran (Inr u)) \<longrightarrow> ap_holds x ApRolledBack t)) w'"
  proof (cases r)
    case (Inl er)
    with triple_Inl [OF step w] run have "failed_at False T ?U w'" by (auto intro: stuck_any)
    with Inl show ?thesis by (simp add: failed_at_def at_dest_def)
  next
    case (Inr u)
    with triple_Inr [OF step w] run settled_unsettled applicableD(3) [OF a] show ?thesis
      by (auto simp: at_dest_def ap_holds_def state_holds_def)
  qed
qed (auto simp: applying_at_def)

lemma failed_outcome_leaves:
  assumes "ap_destination x \<noteq> ap_source x" "ap_env x = engine_at ce (ap_destination x) (ap_source x)"
  shows "leaves (applying_at x (ran_to x (map_admission Inl failure)))
    (failed_outcome ce (ap_destination x) (ap_source x) (ap_transaction x) (ap_digest x) failure)
    (\<lambda>(st, er) tr art t. st \<in> {ApRolledBack, ApRecoveryRequired} \<and>
       applying_at x (\<lambda>t. st = ApRecoveryRequired \<or> ap_holds x st t) tr art t)"
proof (cases failure)
  case (Ran f)
  then show ?thesis
    by (cases f) (auto simp: leaves_def held_def failed_outcome_def applying_at_def ran_to_def)
next
  case (Unavailable msg)
  show ?thesis
  proof (rule leavesI)
    fix S r S'
    assume S: "held (applying_at x (ran_to x (map_admission Inl failure))) S"
      and run: "failed_outcome ce (ap_destination x) (ap_source x) (ap_transaction x) (ap_digest x) failure S = (r, S')"
    obtain a where go: "admitted ce (on_roots ce (ap_destination x) (ap_source x)
      (\<lambda>e. rollback_apply_artifacts e (ap_transaction x) (ap_digest x))) S = (a, S')"
      and r: "r = (case workspace_mutation_error ce a of Inr _ \<Rightarrow> (ApRolledBack, msg)
        | Inl er \<Rightarrow> (ApRecoveryRequired, msg @ lit ''; rollback after coordination failure failed: '' @ er))"
      using run by (auto simp: failed_outcome_def Unavailable split: prod.splits sum.splits)
    from leavesD [OF rollback_leaves [OF assms] S go]
    have "held (applying_at x (\<lambda>t. (\<exists>u. a = Ran (Inr u)) \<longrightarrow> ap_holds x ApRolledBack t)) S'" .
    then show "held ((\<lambda>(st, er) tr art t. st \<in> {ApRolledBack, ApRecoveryRequired} \<and>
       applying_at x (\<lambda>t. st = ApRecoveryRequired \<or> ap_holds x st t) tr art t) r) S'"
      unfolding r by (auto simp: held_def applying_at_def workspace_mutation_error_def map_sum_def
          split: admission.splits sum.splits)
  qed
qed

lemma end_apply_leaves:
  assumes "ap_destination x \<noteq> ap_source x" "ap_env x = engine_at ce (ap_destination x) (ap_source x)"
  shows "leaves (applying_at x (ran_to x r))
    (end_apply ce (ap_destination x) (ap_source x) (ap_transaction x) (ap_digest x) owner r) (ends_at x)"
proof (cases "\<exists>out. r = Ran (Inr out)")
  case True
  then obtain out where r: "r = Ran (Inr out)" ..
  have "leaves (applying_at x (ran_to x r)) (record_success ce (ap_transaction x) owner out) (ends_at x)"
  proof (cases "out = output_of (ap_manifest x)")
    case True
    then show ?thesis by (intro record_success_leaves) (simp_all add: r ran_to_def output_of_def)
  qed (simp add: leaves_def held_def applying_at_def r ran_to_def)
  then show ?thesis by (simp add: end_apply_def r)
next
  case False
  then obtain f where r: "r = map_admission Inl f"
    by (cases r) (metis admission.simps(9), metis admission.simps(10) sum.exhaust)
  have "leaves (applying_at x (ran_to x (map_admission Inl f)))
    (trying (failed_outcome ce (ap_destination x) (ap_source x) (ap_transaction x) (ap_digest x) f)
      (\<lambda>(st, er). record_failure ce (ap_transaction x) owner st er)) (ends_at x)"
    by (rule leaves_trying [OF failed_outcome_leaves [OF assms]])
      (auto intro!: leaves_fact record_failure_leaves simp del: insert_iff split: prod.split)
  then show ?thesis by (cases f) (simp_all add: end_apply_def r)
qed

text \<open>The answer for an operation, whichever transaction was made for it.\<close>

definition ends_somehow :: "application \<Rightarrow> rstr + rstr list \<Rightarrow> condition" where
  "ends_somehow x r tr art t \<longleftrightarrow> (\<exists>tid digest m dir. ends_at (chosen x tid digest m dir) r tr art t \<and>
     (operation_state (ap_operation x) t \<noteq> Some WtReviewPending \<longrightarrow> listed x tid m))"

lemma open_ends: "open_at x tr art t \<Longrightarrow> ends_at (chosen x tid digest m dir) (Inl er) tr art t"
  using open_truthful [of "chosen x tid digest m dir"] by (simp add: ends_at_def)

lemma apply_claimed_leaves:
  assumes "ready ce x" and y: "y = chosen x tid digest m dir"
  shows "leaves (\<lambda>tr art t. open_at x tr art t \<and> named_at y ApPrepared tr art t)
    (apply_frozen ce (ap_destination x) (ap_source x) tid) (ends_at y)"
proof -
  have eqs: "ap_destination x = ap_destination y" "ap_source x = ap_source y" "tid = ap_transaction y" by (simp_all add: y)
  have env: "ap_destination y \<noteq> ap_source y" "ap_env y = engine_at ce (ap_destination y) (ap_source y)"
    using assms by (simp_all add: ready_def)
  let ?C = "\<lambda>tr art t. open_at x tr art t \<and> named_at y ApPrepared tr art t"
  have claim: "leaves ?C (claim_transaction ce (ap_transaction y))
    (\<lambda>r. case r of Inr (_, Some a) \<Rightarrow> (\<lambda>tr art t. claim_of y a \<and> applying_at y (\<lambda>_. True) tr art t) | _ \<Rightarrow> ?C)"
    by (rule leaves_weaken [OF claim_leaves [where J' = "\<lambda>_. True"]]) (auto split: sum.splits option.splits)
  have early: "?C tr art t \<Longrightarrow> ends_at y (Inl er) tr art t" for tr art t er
    using open_ends y by blast
  let ?engine = "\<lambda>owner digest. trying (admitted ce (on_roots ce (ap_destination y) (ap_source y)
       (\<lambda>e. apply_or_roll_back e (ap_transaction y) digest)))
     (end_apply ce (ap_destination y) (ap_source y) (ap_transaction y) digest owner)"
  let ?next = "\<lambda>owner claimed. case claimed of None \<Rightarrow> fails (lit ''delegation apply journal changed before mutation'')
     | Some tx \<Rightarrow> (case at_manifest_digest tx of None \<Rightarrow> fails (lit ''claimed delegation apply has no manifest digest'')
       | Some digest \<Rightarrow> ?engine owner digest)"
  have run: "leaves (\<lambda>tr art t. claim_of y a \<and> applying_at y (\<lambda>_. True) tr art t) (?next owner (Some a)) (ends_at y)" for a owner
  proof (rule leaves_fact)
    assume "claim_of y a"
    then have a: "at_manifest_digest a = Some (ap_digest y)" by (simp add: claim_of_def)
    show "leaves (applying_at y (\<lambda>_. True)) (?next owner (Some a)) (ends_at y)"
      unfolding a option.case
      by (rule leaves_trying [OF engine_apply_leaves [OF env] end_apply_leaves [OF env]])
  qed
  have none: "leaves ?C (?next owner None) (ends_at y)" for owner
    unfolding option.case by (rule leaves_fails) (erule early)
  show ?thesis
    unfolding apply_frozen_def eqs
  proof (rule leaves_next [OF claim])
    fix p :: "rstr \<times> apply_transaction option"
    obtain owner claimed where "p = (owner, claimed)" by (cases p)
    with run none show "leaves (case Inr p of Inr (_, Some a) \<Rightarrow> (\<lambda>tr art t. claim_of y a \<and> applying_at y (\<lambda>_. True) tr art t) | _ \<Rightarrow> ?C)
      (case p of (owner, claimed) \<Rightarrow> ?next owner claimed) (ends_at y)"
      by (cases claimed) simp_all
  qed (simp add: early)
qed

lemma apply_frozen_leaves:
  assumes "ready ce x"
  shows "leaves (frozen_at x tid) (apply_frozen ce (ap_destination x) (ap_source x) tid) (ends_somehow x)"
proof (rule leavesI)
  fix S r S' assume "held (frozen_at x tid) S" and run: "apply_frozen ce (ap_destination x) (ap_source x) tid S = (r, S')"
  then obtain digest m dir where m: "listed x tid m"
    and "held (\<lambda>tr art t. open_at x tr art t \<and> named_at (chosen x tid digest m dir) ApPrepared tr art t) S"
    by (auto simp: frozen_at_def held_def)
  from leavesD [OF apply_claimed_leaves [OF assms refl] this(2) run] m show "held (ends_somehow x r) S'"
    by (auto simp: held_def ends_somehow_def)
qed

section \<open>The whole command\<close>

text \<open>What is checked first changes nothing but the locks, and tells the operation and the two roots.\<close>

definition pending_at :: "rstr \<Rightarrow> worktree_operation \<Rightarrow> application \<Rightarrow> condition" where
  "pending_at did op x tr art t \<longleftrightarrow>
     lookup_by wo_delegation_id (Some did) (dl_operations t) = Some op \<and> open_at x tr art t"

lemma lock_leaves_pending: "leaves (pending_at did op x) (lock_operation ce oid) (\<lambda>_. pending_at did op x)"
  unfolding lock_operation_def
  by (rule engine_says_leaves [where D' = "\<lambda>_. pending_at did op x"], rule on_artifacts_leaves)
    (auto simp: pending_at_def open_at_def)

lemma get_delegation_row:
  assumes "get_delegation_worktree_operation_by_delegation_id e did t = Inr row"
  shows "row = lookup_by wo_delegation_id (Some did) (dl_operations t)"
  using assms
  by (auto simp: get_delegation_worktree_operation_by_delegation_id_def optional_row_def decode_operation_def
      and_then_Inr_iff split: option.splits sum.splits if_splits)

lemma pending_delegation_leaves:
  shows "leaves (pending_at did op x) (pending_delegation ce workspace_root did)
    (\<lambda>r. case r of
       Inr (op', root, path) \<Rightarrow> (\<lambda>tr art t. (op' = op \<and> root = trim workspace_root \<and> path = trim (wo_worktree_path op)) \<and>
         open_at x tr art t)
     | Inl _ \<Rightarrow> open_at x)"
    (is "leaves ?C _ ?D")
proof -
  let ?root = "trim workspace_root"
  have opened: "?C tr art t \<Longrightarrow> open_at x tr art t" for tr art t by (simp add: pending_at_def)
  have stop: "leaves ?C (fails er) ?D" for er by (rule leaves_fails) (simp add: opened)
  have chosen: "leaves ?C (yields (op, ?root, trim (wo_worktree_path op))) ?D"
    by (rule leaves_yields) (simp add: opened)
  have look: "leaves ?C (and_next m f) ?D" if "looking m" "\<And>v. leaves ?C (f v) ?D" for m and f :: "'v \<Rightarrow> _"
    by (rule leaves_next [OF looking_leaves [OF that(1)] _ that(2)]) (simp add: opened)
  have existing: "leaves ?C (and_next (journal ce (reading
      (get_delegation_apply_transaction_by_operation_id (ce_journal ce) (wo_operation_id op)))) (\<lambda>existing. case existing of
        Some a \<Rightarrow> if apply_is_terminal (at_state a) then yields (op, ?root, trim (wo_worktree_path op))
          else fails (lit ''delegation apply recovery is '' @ lit (apply_state_debug (at_state a)) @ lit '': '' @
            or_else (at_last_error a) ''retry after recovery completes'')
      | None \<Rightarrow> yields (op, ?root, trim (wo_worktree_path op)))) ?D"
    by (rule look) (auto intro: looking_intros stop chosen split: option.split)
  have locked: "leaves ?C (and_next (lock_operation ce (wo_operation_id op)) (\<lambda>locked. if \<not> locked
      then fails (lit ''delegation apply is owned by another live process'')
      else and_next (journal ce (reading
      (get_delegation_apply_transaction_by_operation_id (ce_journal ce) (wo_operation_id op)))) (\<lambda>existing. case existing of
        Some a \<Rightarrow> if apply_is_terminal (at_state a) then yields (op, ?root, trim (wo_worktree_path op))
          else fails (lit ''delegation apply recovery is '' @ lit (apply_state_debug (at_state a)) @ lit '': '' @
            or_else (at_last_error a) ''retry after recovery completes'')
      | None \<Rightarrow> yields (op, ?root, trim (wo_worktree_path op))))) ?D"
    by (rule leaves_next [OF lock_leaves_pending]) (auto intro: opened leaves_if stop existing)
  have path: "path = trim v" if "validate_delegation_worktree_path ce root v = Inr path" for root v path
    using that by (auto simp: validate_delegation_worktree_path_def Let_def split: if_splits)
  have row: "leaves ?C (journal ce (reading (get_delegation_worktree_operation_by_delegation_id (ce_journal ce) did)))
    (\<lambda>r. case r of Inr v \<Rightarrow> (\<lambda>tr art t. v = Some op \<and> ?C tr art t) | Inl _ \<Rightarrow> ?C)"
    by (rule journal_leaves)
      (auto simp: reading_def and_then_Inr_iff pending_at_def dest!: get_delegation_row)
  have after: "leaves (case Inr v of Inr v \<Rightarrow> (\<lambda>tr art t. v = Some op \<and> ?C tr art t) | Inl _ \<Rightarrow> ?C) m ?D"
    if "v = Some op \<Longrightarrow> leaves ?C m ?D" for m v
    unfolding sum.case by (rule leaves_fact) (rule that)
  have told: "leaves ?C (and_next (told (validate_delegation_worktree_path ce ?root (wo_worktree_path op))) f) ?D"
    if "leaves ?C (f (trim (wo_worktree_path op))) ?D" for f
    using that path stop by (cases "validate_delegation_worktree_path ce ?root (wo_worktree_path op)")
      (auto simp: and_next_def trying_def told_def leaves_def fails_def)
  show ?thesis
    unfolding pending_delegation_def Let_def
    by (rule look, rule looking_preflight, rule leaves_if, rule stop, rule look, unfold open_repo_def, rule looking_journal,
      rule leaves_next [OF row], simp add: opened, rule after,
      hypsubst, unfold option.case, rule look, rule looking_scope, rule leaves_if, rule stop, rule told, rule locked)
qed

lemma apply_delegation_leaves:
  assumes "ready ce x" and "wo_operation_id op = ap_operation x"
    and "trim workspace_root = ap_destination x" and "trim (wo_worktree_path op) = ap_source x"
  shows "leaves (pending_at did op x) (workspace_apply_delegation_worktree ce workspace_root did) (ends_somehow x)"
proof -
  have stop: "open_at x tr art t \<Longrightarrow> ends_somehow x (Inl er) tr art t" for tr art t er
    unfolding ends_somehow_def using open_ends by (auto simp: open_at_def)
  have freeze: "leaves (open_at x) (and_next (freeze_delegation ce op (ap_destination x) (ap_source x) did) (\<lambda>tid.
      apply_frozen ce (ap_destination x) (ap_source x) tid)) (ends_somehow x)"
    by (rule leaves_next [OF freeze_delegation_leaves [OF assms(1,2)]])
      (simp_all add: frozen_or_open_def stop apply_frozen_leaves [OF assms(1)])
  show ?thesis
    unfolding workspace_apply_delegation_worktree_def
    by (rule leaves_next [OF pending_delegation_leaves])
      (auto simp: assms(3,4) stop split: prod.split intro!: leaves_fact freeze)
qed

text \<open>
  C39: Applying a delegation leaves a journal that tells the truth, whichever calls fail on the way and
  wherever the process dies. The operation waits for review; the trees of the two worktrees are well
  formed, and Git lists paths of files of them. After the command: if the operation still waits for
  review, the destination has the files it had; if it is applied, it has the files of the delegation
  at every path Git lists as changed in the delegation's worktree, of which there is one, and the rest
  as it was; and as long as it is applying or needs recovery, the row names a manifest of exactly
  those paths, whose artifacts hold both files of each, and the destination is between them. A result
  is the list of those paths, and the operation is then applied.
\<close>

theorem apply_leaves_truth:
  assumes "tables_kept (cw_tables S)"
    and "lookup_by wo_delegation_id (Some did) (dl_operations (cw_tables S)) = Some op" and "wo_state op = WtReviewPending"
    and "trim workspace_root = d" and "trim (wo_worktree_path op) = s" and "d \<noteq> s"
    and "tree_ok (cw_trees S d)" and "tree_ok (cw_trees S s)"
    and "git_paths_ok (engine_at ce d s) (cw_trees S d) (cw_trees S s)"
    and "\<forall>bs. length (ae_sha256 (engine_at ce d s) bs) = 32"
    and "\<forall>m. ae_parse (engine_at ce d s) (ae_json (engine_at ce d s) m) = Some m"
    and "workspace_apply_delegation_worktree ce workspace_root did S = (r, S')"
  shows "\<exists>tid digest ps. journal_truthful (engine_at ce d s) (wo_operation_id op) tid digest ps
      (cw_trees S d) (cw_trees S s) (cw_trees S' d) (cw_artifacts S') (cw_tables S') \<and>
    (operation_state (wo_operation_id op) (cw_tables S') \<noteq> Some WtReviewPending \<longrightarrow>
       ae_uuid (engine_at ce d s) tid \<and> ps \<noteq> [] \<and> git_changes (engine_at ce d s) (cw_trees S s) ps) \<and>
    (\<forall>out. r = Inr out \<longrightarrow> operation_state (wo_operation_id op) (cw_tables S') = Some WtApplied \<and> out = ps)"
proof -
  define x where "x = \<lparr>ap_env = engine_at ce d s, ap_operation = wo_operation_id op, ap_transaction = [],
    ap_digest = [], ap_destination = d, ap_source = s, ap_manifest = undefined, ap_dir = [], ap_before = cw_trees S d,
    ap_delegated = cw_trees S s\<rparr>"
  have "operation_state (wo_operation_id op) (cw_tables S) = Some WtReviewPending"
    using lookup_by_in [OF tables_kept_ids(1) [OF assms(1)]] lookup_by_SomeD [OF assms(2)] assms(3)
    by (simp add: operation_state_def)
  then have "held (pending_at did op x) S"
    using assms(1,2) by (simp add: held_def pending_at_def open_at_def x_def)
  moreover have "ready ce x" using assms(6-11) by (simp add: ready_def x_def)
  ultimately have "held (ends_somehow x r) S'"
    using leavesD [OF apply_delegation_leaves _ assms(12)] assms(4,5) by (simp add: x_def)
  then show ?thesis
    by (fastforce simp: held_def ends_somehow_def ends_at_def truthful_at_def listed_def x_def)
qed

end
