(* ===== verification/Apply_Command_Example.thy ===== *)
theory Apply_Command_Example
  imports Apply_Command_Apply Apply_Example Delegation_Props
begin

text \<open>
  The commands on a small instance: the repository of \<open>Apply_Example\<close> is at \<open>/r\<close>, the worktree of its
  delegation in the root of the worktrees of delegations, and one operation waits for review or applies.
\<close>

section \<open>An instance\<close>

definition demo_root :: rstr where
  "demo_root = lit ''/r''"

definition demo_worktree :: rstr where
  "demo_worktree = lit ''/.dcc-worktrees/.dcc-delegations/d''"

text \<open>Git, with identifiers of objects that the journal takes, and a branch for each worktree.\<close>

definition branch_git :: "rstr \<Rightarrow> rstr list \<Rightarrow> fs_tree \<Rightarrow> git_answer" where
  "branch_git root args t =
     (if args = map lit [''rev-parse'', ''HEAD''] \<or> args = map lit [''write-tree''] then GitExit (Some 0) (utf8 sample_oid)
      else if args = map lit [''symbolic-ref'', ''--quiet'', ''--short'', ''HEAD'']
      then GitExit (Some 0) (utf8 (if root = demo_root then lit ''main'' else lit ''b''))
      else demo_git SourceSide args t)"

text \<open>The calls of \<open>down\<close> to the journal and the coordinator fail, and those of \<open>broken\<close> to the system.\<close>

definition demo_command ::
    "(rstr \<Rightarrow> rstr list \<Rightarrow> fs_tree \<Rightarrow> git_answer) \<Rightarrow> (nat \<Rightarrow> bool) \<Rightarrow> (nat \<Rightarrow> bool) \<Rightarrow> command_env" where
  "demo_command git down broken =
     \<lparr>ce_engine = demo_env\<lparr>oe_fails := broken\<rparr>, ce_git = git, ce_marker = (\<lambda>_ _ _. False), ce_beyond = (\<lambda>_ _. None),
      ce_journal = sample_clock, ce_down = down, ce_fault = (\<lambda>_. lit ''locked''), ce_coordination = (\<lambda>_. lit ''busy''),
      ce_uuid = (\<lambda>_. demo_tid), ce_now = int, ce_rfc3339 = (\<lambda>i. [65, nat (min 1000 i)]), ce_text = (\<lambda>_. lit ''engine''),
      ce_broken = (\<lambda>_. None), ce_workspace = (\<lambda>_. Some \<lparr>wp_root_path = demo_root, wp_worktree_path = None\<rparr>),
      ce_canonical = Some\<rparr>"

definition demo_operation :: "worktree_state \<Rightarrow> worktree_operation" where
  "demo_operation st = (sample_operation st None (lit ''A1''))
     \<lparr>wo_worktree_path := demo_worktree, wo_base_commit := sample_oid, wo_expected_branch_oid := Some sample_oid\<rparr>"

definition demo_transaction :: "rstr \<Rightarrow> apply_transaction" where
  "demo_transaction digest = (sample_apply ApApplying (Some (lit ''me'')) (Some (lit ''A9'')) (lit ''A6''))
     \<lparr>at_transaction_id := demo_tid, at_manifest_digest := Some digest\<rparr>"

definition demo_commands :: "fs_tree \<Rightarrow> fs_tree \<Rightarrow> delegations \<Rightarrow> command_world" where
  "demo_commands t art tables =
     \<lparr>cw_trees = (\<lambda>root. if root = demo_root then t else demo_source), cw_artifacts = art, cw_calls = 0,
      cw_tables = tables, cw_warnings = []\<rparr>"

definition demo_pending :: command_world where
  "demo_pending = demo_commands demo_dest [[] \<mapsto> FsDir]
     \<lparr>dl_operations = [demo_operation WtReviewPending], dl_applies = []\<rparr>"

lemma demo_roots: "trim demo_root = demo_root" "trim demo_worktree = demo_worktree" "demo_root \<noteq> demo_worktree"
  by code_simp+

lemma demo_operation_fields [simp]:
  "wo_operation_id (demo_operation st) = lit ''op''" "wo_state (demo_operation st) = st"
  "wo_delegation_id (demo_operation st) = Some (lit ''d'')" "wo_worktree_path (demo_operation st) = demo_worktree"
  "wo_source_root (demo_operation st) = demo_root"
  by (simp_all add: demo_operation_def) (simp add: sample_operation_def demo_root_def)

lemma demo_operations_ok: "st \<noteq> WtRemoving \<Longrightarrow> st \<noteq> WtCleanupRequired \<Longrightarrow> worktree_table_ok [demo_operation st]"
  by (simp add: worktree_table_ok_def live_operations_def worktree_row_ok_def demo_operation_def sample_operation_def
      root_blob_ok_def error_column_ok_def authority_columns_ok_def List.map_filter_def)

lemma demo_applies_ok: "sql_length digest = 64 \<Longrightarrow> apply_table_ok [demo_transaction digest]"
  using valid_sample_oid
  by (simp add: apply_table_ok_def active_applies_def apply_row_ok_def demo_transaction_def sample_apply_def Let_def
      oid_column_ok_def authority_columns_ok_def error_column_ok_def)

lemma demo_engine [simp]:
  "ae_uuid (engine_at (demo_command git down broken) d s) v \<longleftrightarrow> v = demo_tid"
  "ae_sha256 (engine_at (demo_command git down broken) d s) = ae_sha256 demo_env"
  "ae_json (engine_at (demo_command git down broken) d s) = enc_manifest"
  "ae_parse (engine_at (demo_command git down broken) d s) = parse_manifest"
  "ae_git (engine_at (demo_command git down broken) d s) SourceSide = git s"
  by (simp_all add: engine_at_def demo_command_def Let_def) (simp add: demo_env_def)

lemma demo_temps: "temp_path (engine_at (demo_command git down broken) d s) tid p = temp_path demo_env tid p"
  by (simp add: temp_path_def sha256_hex_def)

lemma demo_uuids_apart: "uuids_apart (engine_at (demo_command git down broken) d s)"
proof -
  have "normal_names demo_tid \<noteq> [lit ''.locks'']" by code_simp
  then show ?thesis by (simp add: uuids_apart_def)
qed

lemma demo_git_changes:
  assumes "git_changes (engine_at (demo_command branch_git down broken) demo_root demo_worktree) demo_source ps"
  shows "ps = demo_paths"
proof -
  let ?e = "engine_at (demo_command branch_git down broken) demo_root demo_worktree"
  let ?diff = "[''diff'', ''HEAD'', ''--no-renames'', ''--name-only'', ''-z'']"
  let ?others = "[''ls-files'', ''--others'', ''--exclude-standard'', ''-z'']"
  have git: "branch_git demo_worktree (map lit args) t = demo_git SourceSide (map lit args) t"
    if "args \<in> {?diff, ?others}" for args t
    using that by (auto simp: branch_git_def)
  have same: "git_lists ?e SourceSide args t qs \<longleftrightarrow> git_lists demo_env SourceSide args t qs"
    if "args \<in> {?diff, ?others}" for args t qs
    using git [OF that] by (simp add: git_lists_def)
  have unique: "git_lists e side args t qs \<Longrightarrow> git_lists e side args t rs \<Longrightarrow> qs = rs" for e side args t qs rs
    by (auto simp: git_lists_def)
  from assms obtain tracked untracked where ps: "ps = remdups_adj (sort (tracked @ untracked))"
    and listed: "git_lists ?e SourceSide ?diff demo_source tracked" "git_lists ?e SourceSide ?others demo_source untracked"
    by (auto simp: git_changes_def)
  have "tracked = [lit ''a'']" "untracked = [lit ''d/b'']"
    using listed demo_lists(1) [of SourceSide demo_source] demo_lists(3) [of demo_source SourceSide] unique
    by (auto simp: same demo_source_def)
  then have "ps = remdups_adj (sort ([lit ''a''] @ [lit ''d/b'']))" using ps by simp
  also have "\<dots> = demo_paths" by code_simp
  finally show ?thesis .
qed

lemma demo_git_paths:
  "git_paths_ok (engine_at (demo_command branch_git down broken) demo_root demo_worktree) demo_dest demo_source"
proof -
  let ?e = "engine_at (demo_command branch_git down broken) demo_root demo_worktree"
  have "paths_apart ?e demo_tid demo_paths" "no_temps ?e demo_tid demo_paths demo_dest"
    using demo_paths_apart(2) demo_no_temps by (simp_all add: paths_apart_def no_temps_def demo_temps)
  then show ?thesis unfolding git_paths_ok_def using demo_git_changes by auto
qed

section \<open>The properties at work\<close>

text \<open>Wherever the process dies while it applies the delegation.\<close>

theorem apply_leaves_truth_witness:
  "\<forall>n. \<exists>digest.
    (let ce = demo_command branch_git (\<lambda>i. n \<le> i) (\<lambda>i. n \<le> i);
         S = snd (workspace_apply_delegation_worktree ce demo_root (lit ''d'') demo_pending)
     in journal_truthful (engine_at ce demo_root demo_worktree) (lit ''op'') demo_tid digest demo_paths demo_dest demo_source
          (cw_trees S demo_root) (cw_artifacts S) (cw_tables S))"
proof
  fix n :: nat
  let ?ce = "demo_command branch_git (\<lambda>i. n \<le> i) (\<lambda>i. n \<le> i)"
  let ?e = "engine_at ?ce demo_root demo_worktree"
  obtain r S where run: "workspace_apply_delegation_worktree ?ce demo_root (lit ''d'') demo_pending = (r, S)" by fastforce
  have trees: "cw_trees demo_pending demo_root = demo_dest" "cw_trees demo_pending demo_worktree = demo_source"
    using demo_roots(3) by (simp_all add: demo_pending_def demo_commands_def)
  have kept: "tables_kept (cw_tables demo_pending)"
    by (simp add: demo_pending_def demo_commands_def tables_kept_def demo_operations_ok)
      (simp add: apply_table_ok_def active_applies_def)
  have row: "lookup_by wo_delegation_id (Some (lit ''d'')) (dl_operations (cw_tables demo_pending)) =
      Some (demo_operation WtReviewPending)"
    by (simp add: demo_pending_def demo_commands_def)
  have "\<exists>tid digest ps. journal_truthful ?e (wo_operation_id (demo_operation WtReviewPending)) tid digest ps
      (cw_trees demo_pending demo_root) (cw_trees demo_pending demo_worktree) (cw_trees S demo_root) (cw_artifacts S) (cw_tables S) \<and>
    (operation_state (wo_operation_id (demo_operation WtReviewPending)) (cw_tables S) \<noteq> Some WtReviewPending \<longrightarrow>
       ae_uuid ?e tid \<and> ps \<noteq> [] \<and> git_changes ?e (cw_trees demo_pending demo_worktree) ps) \<and>
    (\<forall>out. r = Inr out \<longrightarrow> operation_state (wo_operation_id (demo_operation WtReviewPending)) (cw_tables S) = Some WtApplied \<and> out = ps)"
    by (rule apply_leaves_truth [OF kept row _ demo_roots(1) _ demo_roots(3) _ _ _ _ _ run])
      (use demo_common in \<open>simp_all add: demo_roots trees demo_trees demo_git_paths parse_manifest\<close>)
  then obtain tid digest ps where truth: "journal_truthful ?e (lit ''op'') tid digest ps demo_dest demo_source
      (cw_trees S demo_root) (cw_artifacts S) (cw_tables S)"
    and named: "operation_state (lit ''op'') (cw_tables S) \<noteq> Some WtReviewPending \<longrightarrow> tid = demo_tid \<and> ps = demo_paths"
    using demo_git_changes by (auto simp: trees)
  have "journal_truthful ?e (lit ''op'') demo_tid digest demo_paths demo_dest demo_source
      (cw_trees S demo_root) (cw_artifacts S) (cw_tables S)"
    using truth named by (cases "operation_state (lit ''op'') (cw_tables S) = Some WtReviewPending")
      (auto simp: journal_truthful_def)
  then show "\<exists>digest. (let ce = ?ce; S = snd (workspace_apply_delegation_worktree ce demo_root (lit ''d'') demo_pending)
     in journal_truthful (engine_at ce demo_root demo_worktree) (lit ''op'') demo_tid digest demo_paths demo_dest demo_source
          (cw_trees S demo_root) (cw_artifacts S) (cw_tables S))"
    using run by (auto simp: Let_def)
qed

text \<open>
  The process died when \<open>a\<close> was installed and \<open>d/b\<close> was not: what it leaves for the recovery.
\<close>

definition demo_midway :: fs_tree where
  "demo_midway = demo_dest([lit ''a''] \<mapsto> FsFile [2, 3] 493 1)"

definition demo_died :: "fs_tree \<Rightarrow> rstr \<Rightarrow> command_world" where
  "demo_died art digest = demo_commands demo_midway art
     \<lparr>dl_operations = [demo_operation WtApplying], dl_applies = [demo_transaction digest]\<rparr>"

lemma demo_unsettled:
  assumes "map fa_path files = demo_paths" and "all_pre demo_env files demo_dest" and "all_post demo_env files demo_source"
  shows "unsettled demo_env demo_tid files demo_dest demo_midway"
proof -
  have temps: "demo_midway (temp_path demo_env demo_tid p) = None" if "p \<in> set demo_paths" for p
    using that by (auto simp: demo_paths_def; code_simp)
  have paths: "fa_path f \<in> set demo_paths" if "f \<in> set files" for f
    using that assms(1) by (metis image_eqI set_map)
  have "tree_ok demo_midway"
    by (auto simp: tree_ok_def demo_midway_def demo_dest_def append_eq_Cons_conv split: if_splits)
  moreover have "only_targets demo_env demo_tid files demo_dest demo_midway"
  proof -
    have "[lit ''a''] \<in> target ` set files"
      using assms(1) demo_names by (force simp: demo_paths_def target_def)
    then show ?thesis by (auto simp: only_targets_def demo_midway_def)
  qed
  moreover have "node_snapshot demo_env (demo_midway (target f)) = Some (fa_pre f) \<or>
      node_snapshot demo_env (demo_midway (target f)) = Some (fa_post f)" if f: "f \<in> set files" for f
  proof (cases "target f = [lit ''a'']")
    case True
    then have "demo_midway (target f) = demo_source (target f)" by (simp add: demo_midway_def demo_source_def)
    with assms(3) f show ?thesis by (simp add: all_post_def)
  next
    case False
    with assms(2) f show ?thesis by (simp add: all_pre_def demo_midway_def)
  qed
  moreover obtain f where "f \<in> set files" using assms(1) by (cases files) (auto simp: demo_paths_def)
  ultimately show ?thesis
    using temps paths by (auto simp: unsettled_def midway_def leftover_def temp_of_path)
qed

lemma demo_prepared:
  obtains art digest where "in_between demo_env demo_tid digest demo_paths demo_dest demo_source art demo_midway"
    and "sql_length digest = 64"
proof -
  obtain prep w1 where prep: "prepared_in demo_env demo_tid (demo_world demo_source) prep w1"
      and ps: "pa_changed_files prep = demo_paths"
    by (rule can_prepareE [OF demo_can_prepare])
  obtain m dir where a: "applicable demo_env demo_tid (pa_manifest_digest prep) (aw_tree w1 Artifacts) m dir demo_dest"
      and pre: "all_pre demo_env (am_files m) demo_dest" and post: "all_post demo_env (am_files m) demo_source"
      and paths: "map fa_path (am_files m) = demo_paths" and temps: "no_temps demo_env demo_tid (map fa_path (am_files m)) demo_dest"
    by (rule prepared_inE [OF prep]) (simp add: ps)
  obtain bs where bs: "trim (pa_manifest_digest prep) = sha256_hex demo_env bs"
    using applicableD(1) [OF a] by (auto simp: stored_manifest_def)
  then have "applicable demo_env demo_tid (sha256_hex demo_env bs) (aw_tree w1 Artifacts) m dir demo_dest"
    using a by (simp add: applicable_def stored_manifest_def sha256_hex_def trim_hex)
  with pre post paths temps demo_unsettled
  have between: "in_between demo_env demo_tid (sha256_hex demo_env bs) demo_paths demo_dest demo_source (aw_tree w1 Artifacts) demo_midway"
    unfolding in_between_def midway_at_def by blast
  have "\<forall>c \<in> set (hex v). c \<noteq> 0" for v
    using hex_digits [of v] by (auto simp: list_all_iff is_ascii_hexdigit_def is_ascii_digit_def)
  then have "sql_length (hex v) = byte_len (hex v)" for v
    using byte_len_ascii [OF hex_ascii, of v] by (simp add: sql_length_def takeWhile_eq_all_conv [THEN iffD2])
  moreover have "byte_len (sha256_hex demo_env bs) = 64"
    using applicableD(1) [OF a] bs by (auto simp: stored_manifest_def)
  ultimately have "sql_length (sha256_hex demo_env bs) = 64" by (simp add: sha256_hex_def)
  with between that show thesis by blast
qed

text \<open>From some call on, the journal and the coordinator fail during the recovery as well.\<close>

theorem recovery_tells_the_truth_witness:
  "\<exists>art digest. \<forall>n. in_between demo_env demo_tid digest demo_paths demo_dest demo_source art demo_midway \<and>
    (let ce = demo_command (\<lambda>_. demo_git SourceSide) (\<lambda>i. n \<le> i) (\<lambda>_. False);
         S = snd (recover_transaction ce (demo_transaction digest) (demo_died art digest))
     in journal_truthful demo_env (lit ''op'') demo_tid digest demo_paths demo_dest demo_source
          (cw_trees S demo_root) (cw_artifacts S) (cw_tables S))"
proof -
  obtain art digest where between: "in_between demo_env demo_tid digest demo_paths demo_dest demo_source art demo_midway"
      and digest: "sql_length digest = 64" by (rule demo_prepared)
  let ?ce = "\<lambda>n :: nat. demo_command (\<lambda>_. demo_git SourceSide) (\<lambda>i. n \<le> i) (\<lambda>_. False)"
  have env: "engine_at (?ce n) demo_root demo_worktree = demo_env" for n
    by (simp add: engine_at_def demo_command_def demo_env_def demo_git_def [abs_def] fun_eq_iff Let_def split: git_side.split place.split)
  have "journal_truthful demo_env (lit ''op'') demo_tid digest demo_paths demo_dest demo_source
      (cw_trees (snd (recover_transaction (?ce n) (demo_transaction digest) (demo_died art digest))) demo_root)
      (cw_artifacts (snd (recover_transaction (?ce n) (demo_transaction digest) (demo_died art digest))))
      (cw_tables (snd (recover_transaction (?ce n) (demo_transaction digest) (demo_died art digest))))" for n
  proof -
    obtain r S where run: "recover_transaction (?ce n) (demo_transaction digest) (demo_died art digest) = (r, S)" by fastforce
    have row: "lookup_by at_transaction_id demo_tid (dl_applies (cw_tables (demo_died art digest))) = Some (demo_transaction digest)"
      by (simp add: demo_died_def demo_commands_def demo_transaction_def)
    have op: "lookup_by wo_operation_id (at_operation_id (demo_transaction digest))
        (dl_operations (cw_tables (demo_died art digest))) = Some (demo_operation WtApplying)"
      by (simp add: demo_died_def demo_commands_def demo_transaction_def)
    have trees: "cw_trees (demo_died art digest) demo_root = demo_midway"
        "cw_trees (demo_died art digest) demo_worktree = demo_source" "cw_artifacts (demo_died art digest) = art"
      using demo_roots(3) by (simp_all add: demo_died_def demo_commands_def)
    have kept: "tables_kept (cw_tables (demo_died art digest))"
      using demo_applies_ok [OF digest] by (simp add: demo_died_def demo_commands_def tables_kept_def demo_operations_ok)
    have "journal_truthful (engine_at (?ce n) demo_root demo_worktree) (at_operation_id (demo_transaction digest)) demo_tid digest
        demo_paths demo_dest (cw_trees (demo_died art digest) demo_worktree) (cw_trees S demo_root) (cw_artifacts S) (cw_tables S)"
      by (rule recovery_tells_the_truth [OF kept row _ _ op _ _ _ demo_roots(3) _ demo_uuids_apart run])
        (simp_all add: demo_transaction_def demo_roots trees env between)
    then show ?thesis by (simp add: run trees env) (simp add: demo_transaction_def)
  qed
  with between show ?thesis by (auto simp: Let_def)
qed

end
