(* ===== verification/Spec2Isabelle.thy ===== *)
theory Spec2Isabelle
  imports Conversation_Rewind Session_Lifecycle Objective Goal Usage_Limit Undo_Manifest Undo_Columns
    Timeline_Conversation Merge_Answers Delegation_Props Apply_Example Apply_Command_Example
begin

text \<open>
  A model of the durable core of DevCommandCenter, a workbench that drives coding agents.

  \<^bold>\<open>The parts and how they interact.\<close> A session with an agent is a list of events in SQLite. The
  operations of \<open>crates/dcc-core/src/application\<close> read the history of a session, decide on it,
  append one event and publish it; everything a client sees is computed from that history: the
  session's projection, its queue of turns, the conversation. Beside the history stand the
  objective and the provider's goal, which decide whether a session may go on, the limits of the
  provider's plan, and the journal of guarded undo, which records what a turn did to the files of a
  repository and how it is taken back. A worker of \<open>crates/dcc-server\<close> compacts the streamed text
  of the history while other connections append to it. A task may be delegated to an agent in a
  worktree of its own; tables of the database record the life of the worktree and of the application
  of its result, and an engine on files freezes the result, installs it in the destination and takes
  it back. A command of the desktop application joins the two, and a recovery at startup closes the
  applications a process left behind. Where Git leaves a merge conflict, the file is read into blocks that a person or an
  agent resolves.

  \<^bold>\<open>The theories.\<close> In the order they import each other:
  \<^item> \<open>Rust_Prelude\<close>: strings as lists of code points, \<open>Result\<close> as a sum, saturating counters,
    \<open>Iterator::position\<close> and its kin, the error type (\<open>error.rs\<close>).
  \<^item> \<open>Session_Types\<close>, \<open>Session_Projection\<close> (\<open>domain/session.rs\<close>): the 47 kinds of events, the
    conversation left by a rewind, the projection replayed from the history and what it computes
    (the active turn, the open requests).
  \<^item> \<open>Event_Store\<close> (\<open>ports/repository.rs\<close>, the event table of \<open>dcc-infra/src/db.rs\<close>): the locale
    \<open>event_log\<close> of what callers rely on, interpreted on the table.
  \<^item> \<open>Session_Commands\<close>, \<open>Turn_Queue\<close>, \<open>Conversation_Rewind\<close>, \<open>Session_Lifecycle\<close>
    (\<open>application/turn_queue.rs\<close>, \<open>rewind_conversation.rs\<close>, \<open>abort_run.rs\<close>, \<open>resume_session.rs\<close>,
    \<open>steer_turn.rs\<close>): the operations, with the calls of others between their own.
  \<^item> \<open>Objective\<close>, \<open>Goal\<close>, \<open>Usage_Limit\<close> (\<open>domain/objective.rs\<close>, \<open>goal.rs\<close>, \<open>usage_limit.rs\<close>):
    budgets and counters, the bounded instruction block, goal signals, the standing limit and when
    a session resumes by itself.
  \<^item> \<open>Undo_Types\<close>, \<open>Undo_Paths\<close>, \<open>Undo_Records\<close>, \<open>Byte_Encoding\<close>, \<open>Undo_Manifest\<close>
    (\<open>domain/guarded_undo.rs\<close>): the persisted vocabulary with its three lifecycles (the locale
    \<open>lifecycle\<close>, interpreted on each), repository paths that cannot leave their root, the
    validation of records, and the canonical digest of a manifest.
  \<^item> \<open>Undo_Journal\<close>, \<open>Undo_Journal_Spec\<close>, \<open>Undo_Journal_Props\<close>, \<open>Undo_Journal_Replay\<close> (the undo
    tables of \<open>db.rs\<close>): every operation on restore sets, undo operations and their files as one
    transaction, a transition system on lifecycle states that they refine call by call, its
    invariants, and what a repeated call gets. These theories keep decoded rows. \<open>Undo_Columns\<close>
    keeps restore sets and their files as the texts, integers, blobs and JSON that SQLite stores,
    with \<open>load_turn_restore_set\<close> parsing them; it proves that for every journal the calls can reach
    the two readings agree, and that a finalized set reads back from its columns.
  \<^item> \<open>Sample_Codec\<close>: encodings that read back, for the instances of the properties that take serde as a
    parameter.
  \<^item> \<open>Sql_Tables\<close>: rows looked up, updated and collected, and the column checks of SQLite, shared by
    the undo journal and the tables of delegated tasks.
  \<^item> \<open>Delta_Compaction\<close>, \<open>Delta_Invisible\<close>, \<open>Delta_Mirror\<close>, \<open>Delta_Readers\<close>
    (\<open>dcc-infra/src/db/delta_compaction.rs\<close>, \<open>dcc-server/src/delta_compaction_worker.rs\<close>, the
    history endpoint of \<open>http_api.rs\<close>): one compaction step with events arriving between its reads
    and its write, the relation between compacted rows and the rows that stand for them, a
    simulation against a store that never compacts, and the loop over a session.
  \<^item> \<open>Timeline_Events\<close>, \<open>Timeline_Types\<close>, \<open>Timeline_Fold\<close>, \<open>Timeline_Project\<close>, \<open>Timeline_Apply\<close>
    (\<open>domain/timeline\<close>): the rows of a conversation, one definition per arm of \<open>Projector::apply\<close>,
    and the end of the fold. \<open>Timeline_Joined\<close>, \<open>Timeline_Rows\<close>, \<open>Timeline_Rendered\<close>,
    \<open>Timeline_Conversation\<close>: joining runs of deltas changes nothing, the invariant of the
    projector's positions, and what the conversation shows.
  \<^item> \<open>Merge_Hunks\<close>, \<open>Merge_Rendered\<close>, \<open>Merge_Roundtrip\<close>, \<open>Merge_Resolution\<close>, \<open>Merge_Answers\<close>
    (\<open>domain/merge_conflict/hunks.rs\<close>, \<open>mod.rs\<close>, \<open>types.rs\<close>, \<open>agent.rs\<close>): the parser of conflict
    markers, the files Git writes and that they read back, the choices a resolution offers, and the
    validation of an agent's answer.
  \<^item> \<open>Delegation_Types\<close>, \<open>Delegation_Journal\<close>, \<open>Delegation_Spec\<close>, \<open>Delegation_Claims\<close>,
    \<open>Delegation_Props\<close> (\<open>domain/delegation_worktree.rs\<close>, \<open>delegation_apply.rs\<close>, their tables in
    \<open>db.rs\<close>): the two lifecycles, every operation on their tables as one transaction with the checks
    and indexes of the tables, the transition system they refine, and what claims, leases and the
    recovery at startup rely on.
  \<^item> \<open>Worktree_Files\<close>: the paths of \<open>std::path\<close>, a tree of files below each root, the calls of \<open>std::fs\<close>
    on it, and computations that stop at the first error and keep what they wrote, with a small logic
    of triples for them.
  \<^item> \<open>Apply_Types\<close>, \<open>Apply_Artifacts\<close> (\<open>dcc-infra/src/delegation_apply.rs\<close>): every function of the engine
    that applies a delegated task, from the Git checks to the manifest, its payloads and the lock.
    \<open>Apply_Looks\<close>, \<open>Apply_Trees\<close>, \<open>Apply_Installs\<close>, \<open>Apply_Runs\<close>, \<open>Apply_Leftovers\<close>, \<open>Apply_Rollback\<close>:
    what is true of the destination between any two calls, step by step: what a look at a file tells,
    what an installation changes, what an interrupted run leaves, applying and rolling back.
    \<open>Apply_Prepare\<close>, \<open>Apply_Props\<close>, \<open>Apply_Returns\<close>, \<open>Apply_Example\<close>: what a preparation leaves, the
    properties over all placements of failing calls, that nothing refuses while no call fails, and
    the properties at work on a small repository.
  \<^item> \<open>Apply_Commands\<close> (\<open>dcc-tauri/src/commands/workspace_commands.rs\<close>, the checks of
    \<open>workspace_deletion/delegation.rs\<close>): the command that applies a delegation and the recovery of its
    transactions at startup, on a world of worktrees, artifacts and journal. \<open>Apply_Recovery\<close>,
    \<open>Delegation_Rows\<close>: what a run of the engine and a call of the journal leave for a command.
    \<open>Apply_Command_Runs\<close>: what holds after a command, whichever calls fail. \<open>Apply_Command_Props\<close>,
    \<open>Apply_Command_Apply\<close>, \<open>Apply_Command_Example\<close>: after the recovery and after the command, the state
    in the journal is true of the files, also when the process dies half way; and an instance.

  \<^bold>\<open>Conventions.\<close> Record fields carry the initials of their struct. Errors are values of a sum. A
  counter keeps its width as a word. An operation of the application layer takes \<open>env\<close>, what other
  callers do to the store where the code awaits; a transaction is one function on the tables. A
  \<open>HashMap\<close> keyed by the text of an id is a map keyed by the id. Iteration over a \<open>HashMap\<close> or
  \<open>HashSet\<close> occurs only where the order does not matter.

  \<^bold>\<open>Parameters.\<close> Code that is not in the repository is an argument of the definitions that use it:
  SHA-256 (\<open>sha256\<close>), the RFC 3339 parser and formatter of chrono (\<open>parse_time\<close>, \<open>rfc3339\<close>), what
  serde writes (\<open>kind_json\<close>, the lengths of JSON texts in \<open>db_env\<close>, and for the JSON columns of
  restore sets and files \<open>json_codec\<close>, which reads back what it wrote), the Unicode tables of
  lower-casing and \<open>char::is_alphanumeric\<close>, the JSON parser an agent's answer goes through
  (\<open>parse_json\<close>, \<open>metadata_json\<close>), the clock texts of delegated tasks (\<open>delegation_env\<close>), and for the apply
  engine Git's answers as functions of the worktree's files, the UUID parser and the JSON of a manifest
  (\<open>apply_env\<close>); for the commands also what lies at each root, the rows of workspaces, which calls to
  the journal and to the coordinator of mutations fail, and the texts of errors (\<open>command_env\<close>). So are fresh UUIDs, the clock, and the answers of the event bus and of the session
  repository.

  \<^bold>\<open>Loops.\<close> Every loop is total: structural recursion, or a measure. The one exception is
  \<open>drain_session\<close>, the loop of the compaction worker over a session, which stops only when a step
  reports no more work; it is a \<open>partial_function\<close>, and that it returns is a theorem, for any rate
  of arrivals below the number of rows a step is asked to delete. No fuel is used.

  \<^bold>\<open>Not modelled.\<close> The desktop application and its user interface, the HTTP, daemon and browser layers
  of the server, the adapters of the agents' protocols, of Git and of the forges, the remote
  client, and the rest of the database layer (see the manifest): they are calls to services outside
  the repository with little of their own to prove. Of the modelled parts: the columns of
  the tables of undo operations and of delegated tasks, which are kept as decoded values; the pages
  the compaction gives back to the disk, the search index of a conversation
  (\<open>timeline/activity.rs\<close>), the file operations an undo carries out
  (\<open>restore_service.rs\<close> and the macOS store), and the redaction of debug output. Of the apply engine:
  \<open>atomic_replace\<close> on Windows, other programs that write to the destination while a call of the engine
  runs, and a loss of power that undoes a write which was not yet synchronised. Of the commands on
  delegations: creating, binding and removing their worktrees, the authorisation of a root on macOS, and
  a worker that panics inside a call of the engine.

  \<^bold>\<open>What is left.\<close> The commands that create, bind and remove the worktrees of delegations, the recovery
  of guarded undo (\<open>dcc-infra/src/guarded_undo\<close>), the plans of a session, and the registry of context
  servers.
\<close>

end
